(* ===== verification/Prelude.thy ===== *)
theory Prelude
  imports Complex_Main "HOL-Library.Word" "HOL-Library.List_Lexorder" "HOL-Library.Char_ord"
begin

text \<open>
  The vocabulary every component shares: Rust's fixed-width integers as words, their
  saturating and checked operations, byte encodings, the string functions of the standard
  library the sources call, and the first-minimum and last-maximum searches of
  \<^verbatim>\<open>Iterator::min_by_key\<close> and \<^verbatim>\<open>Iterator::max_by\<close>.

  A Rust \<^verbatim>\<open>String\<close> is the list of its bytes (\<open>string\<close>), ordered as Rust orders it,
  lexicographically by byte.  A fixed-size byte array (\<^verbatim>\<open>[u8; 20]\<close>, \<^verbatim>\<open>[u8; 32]\<close>, \<^verbatim>\<open>H160\<close>,
  \<^verbatim>\<open>H256\<close>) is the word whose big-endian bytes it holds; the order of the words is the
  lexicographic order of the arrays.  A fallible operation returns a sum: \<open>Inl\<close> the error,
  \<open>Inr\<close> the value.
\<close>

type_synonym u8 = "8 word"
type_synonym u16 = "16 word"
type_synonym u32 = "32 word"
type_synonym u64 = "64 word"
type_synonym u128 = "128 word"
type_synonym u256 = "256 word"
type_synonym i64 = "64 word"
type_synonym address = "160 word"
type_synonym b256 = "256 word"
type_synonym bytes = "u8 list"

named_theorems unat_sat \<open>saturating operations read as natural numbers\<close>
named_theorems enc_simps \<open>lengths and projections of encodings\<close>

section \<open>Saturating and checked arithmetic\<close>

definition sat_add :: "'a::len word \<Rightarrow> 'a word \<Rightarrow> 'a word" where
  "sat_add a b = (if unat a + unat b < 2 ^ LENGTH('a) then a + b else - 1)"

definition sat_sub :: "'a::len word \<Rightarrow> 'a word \<Rightarrow> 'a word" where
  "sat_sub a b = (if b \<le> a then a - b else 0)"

definition sat_mul :: "'a::len word \<Rightarrow> 'a word \<Rightarrow> 'a word" where
  "sat_mul a b = (if unat a * unat b < 2 ^ LENGTH('a) then a * b else - 1)"

definition checked_add :: "'a::len word \<Rightarrow> 'a word \<Rightarrow> 'a word option" where
  "checked_add a b = (if unat a + unat b < 2 ^ LENGTH('a) then Some (a + b) else None)"

definition checked_mul :: "'a::len word \<Rightarrow> 'a word \<Rightarrow> 'a word option" where
  "checked_mul a b = (if unat a * unat b < 2 ^ LENGTH('a) then Some (a * b) else None)"

definition div_ceil :: "'a::len word \<Rightarrow> 'a word \<Rightarrow> 'a word" where
  "div_ceil a b = (if a mod b = 0 then a div b else a div b + 1)"

definition abs_diff :: "'a::len word \<Rightarrow> 'a word \<Rightarrow> 'a word" where
  "abs_diff a b = (if a \<le> b then b - a else a - b)"

lemma unat_max_word: "unat (- 1 :: 'a::len word) = 2 ^ LENGTH('a) - 1"
  by (simp add: unsigned_minus_1_eq_mask mask_eq_exp_minus_1)

lemma unat_sat_add [unat_sat]:
  "unat (sat_add a b :: 'a::len word) = min (unat a + unat b) (2 ^ LENGTH('a) - 1)"
  by (auto simp: sat_add_def unat_max_word unat_word_ariths min_def)

lemma unat_sat_sub [unat_sat]: "unat (sat_sub a b) = unat a - unat b"
  by (auto simp: sat_sub_def unat_sub word_le_nat_alt)

lemma unat_sat_mul [unat_sat]:
  "unat (sat_mul a b :: 'a::len word) = min (unat a * unat b) (2 ^ LENGTH('a) - 1)"
proof (cases "unat a * unat b < 2 ^ LENGTH('a)")
  case True
  then show ?thesis by (simp add: sat_mul_def unat_word_ariths)
next
  case False
  then show ?thesis by (simp add: sat_mul_def unat_max_word)
qed

lemma checked_add_Some_iff:
  "checked_add a b = Some c \<longleftrightarrow>
    unat a + unat b < 2 ^ LENGTH('a) \<and> unat (c :: 'a::len word) = unat a + unat b"
  by (auto simp: checked_add_def unat_word_ariths intro!: word_unat_eq_iff [THEN iffD2])

lemma checked_mul_Some_iff:
  "checked_mul a b = Some c \<longleftrightarrow>
    unat a * unat b < 2 ^ LENGTH('a) \<and> unat (c :: 'a::len word) = unat a * unat b"
  by (auto simp: checked_mul_def unat_word_ariths intro!: word_unat_eq_iff [THEN iffD2])

lemma sat_add_ge1 [simp, intro]: "a \<le> sat_add a b"
proof -
  have "unat a < 2 ^ LENGTH('a)" by (rule unsigned_less)
  then have "unat a \<le> 2 ^ LENGTH('a) - 1" by linarith
  then show ?thesis by (simp add: word_le_nat_alt unat_sat)
qed

lemma sat_add_ge2 [simp, intro]: "b \<le> sat_add a b"
proof -
  have "unat b < 2 ^ LENGTH('a)" by (rule unsigned_less)
  then have "unat b \<le> 2 ^ LENGTH('a) - 1" by linarith
  then show ?thesis by (simp add: word_le_nat_alt unat_sat)
qed

lemma sat_add_mono: "a \<le> a' \<Longrightarrow> b \<le> b' \<Longrightarrow> sat_add a b \<le> sat_add a' b'"
  by (simp add: word_le_nat_alt unat_sat)

lemma sat_sub_le [simp, intro]: "sat_sub a b \<le> a"
  by (simp add: word_le_nat_alt unat_sat)

lemma sat_sub_zero_iff: "sat_sub a b = 0 \<longleftrightarrow> a \<le> b"
  by (auto simp: sat_sub_def)


section \<open>Small facts on words and powers\<close>

lemma one_less_two_power [simp]: "Suc 0 < 2 * 2 ^ h"
proof -
  have "(1 :: nat) \<le> 2 ^ h" by simp
  then show ?thesis by linarith
qed

lemma one_less_four_power [simp]: "Suc 0 < 4 * 2 ^ h"
proof -
  have "(1 :: nat) \<le> 2 ^ h" by simp
  then show ?thesis by linarith
qed

lemma unat_of_nat_small:
  "n < 2 ^ LENGTH('a) \<Longrightarrow> unat (of_nat n :: 'a::len word) = n"
  by (simp add: unat_of_nat)

lemma unat_two_power:
  assumes "n < LENGTH('a)"
  shows "unat (2 ^ n :: 'a::len word) = 2 ^ n"
proof -
  have "unat (of_nat (2 ^ n) :: 'a word) = 2 ^ n"
    using assms by (intro unat_of_nat_small power_strict_increasing) simp_all
  then show ?thesis by simp
qed

lemma unat_ucast_small:
  "unat w < 2 ^ LENGTH('b) \<Longrightarrow> unat (ucast (w :: 'a::len word) :: 'b::len word) = unat w"
  by (simp add: unsigned_ucast_eq take_bit_nat_eq_self)

lemma unat_inc_below: "a < b \<Longrightarrow> unat (a + 1) = unat a + 1" for a b :: "'a::len word"
proof -
  assume "a < b"
  then have "unat a < unat b" by (simp add: word_less_nat_alt)
  moreover have "unat b < 2 ^ LENGTH('a)" by (rule unsigned_less)
  ultimately have "unat a + 1 < 2 ^ LENGTH('a)" by linarith
  then show ?thesis by (simp add: unat_word_ariths)
qed

lemma and_one_even: "and i 1 = 0 \<longleftrightarrow> even (unat (i :: 'a::len word))"
proof -
  have "and i 1 = 0 \<longleftrightarrow> \<not> bit i 0"
    by (simp add: and_one_eq even_iff_mod_2_eq_zero [symmetric] odd_iff_mod_2_eq_one [symmetric] bit_0)
  moreover have "even (unat i) \<longleftrightarrow> \<not> bit i 0"
    using bit_unsigned_iff [of i 0, where ?'a = nat] by (simp add: bit_0)
  ultimately show ?thesis by simp
qed

lemma unat_half [simp]: "unat (drop_bit (Suc 0) (i :: 'a::len word)) = unat i div 2"
proof -
  have "unat (drop_bit (Suc 0) i) = drop_bit (Suc 0) (take_bit LENGTH('a) (unat i))"
    by (simp only: unsigned_drop_bit_eq)
  also have "take_bit LENGTH('a) (unat i) = unat i"
    by (simp add: take_bit_nat_eq_self)
  finally show ?thesis by (simp add: drop_bit_eq_div)
qed

section \<open>Byte encodings\<close>

text \<open>
  \<open>le_digits n x\<close> is the \<open>n\<close> low bytes of \<open>x\<close>, least significant first;
  \<open>le_value\<close> reads such a list back.  \<^verbatim>\<open>to_be_bytes\<close> and \<^verbatim>\<open>from_be_bytes\<close> of a
  Rust integer are their big-endian versions at the integer's own width.
\<close>

fun le_digits :: "nat \<Rightarrow> nat \<Rightarrow> bytes" where
  "le_digits 0 x = []"
| "le_digits (Suc n) x = of_nat x # le_digits n (x div 256)"

fun le_value :: "bytes \<Rightarrow> nat" where
  "le_value [] = 0"
| "le_value (b # bs) = unat b + 256 * le_value bs"

definition to_le_bytes :: "'a::len word \<Rightarrow> bytes" where
  "to_le_bytes w = le_digits (LENGTH('a) div 8) (unat w)"

definition to_be_bytes :: "'a::len word \<Rightarrow> bytes" where
  "to_be_bytes w = rev (to_le_bytes w)"

definition from_le_bytes :: "bytes \<Rightarrow> 'a::len word" where
  "from_le_bytes bs = of_nat (le_value bs)"

definition from_be_bytes :: "bytes \<Rightarrow> 'a::len word" where
  "from_be_bytes bs = from_le_bytes (rev bs)"

lemma length_le_digits [simp, enc_simps]: "length (le_digits n x) = n"
  by (induction n arbitrary: x) auto

lemma unat_of_nat_u8: "unat (of_nat x :: u8) = x mod 256"
  by (simp add: unat_of_nat)

lemma le_value_digits: "le_value (le_digits n x) = x mod 256 ^ n"
proof (induction n arbitrary: x)
  case 0
  then show ?case by simp
next
  case (Suc n)
  show ?case
    by (simp add: Suc unat_of_nat_u8 mod_mult2_eq)
qed

lemma le_value_bound: "le_value bs < 256 ^ length bs"
proof (induction bs)
  case Nil
  then show ?case by simp
next
  case (Cons b bs)
  have "unat b < 256" using unsigned_less [of b, where ?'a = nat] by simp
  with Cons show ?case by simp
qed

lemma le_digits_value: "le_digits (length bs) (le_value bs) = bs"
proof (induction bs)
  case Nil
  then show ?case by simp
next
  case (Cons b bs)
  have "unat b < 256" using unsigned_less [of b, where ?'a = nat] by simp
  moreover have "(of_nat (unat b + 256 * le_value bs) :: u8) = b"
  proof -
    have z: "(256 :: u8) = 0" by simp
    have "(256 :: u8) * of_nat (le_value bs) = 0" by (subst z) simp
    then show ?thesis by simp
  qed
  ultimately show ?case using Cons by simp
qed

lemma length_to_le_bytes [simp, enc_simps]:
  "length (to_le_bytes (w :: 'a::len word)) = LENGTH('a) div 8"
  by (simp add: to_le_bytes_def)

lemma length_to_be_bytes [simp, enc_simps]:
  "length (to_be_bytes (w :: 'a::len word)) = LENGTH('a) div 8"
  by (simp add: to_be_bytes_def)

lemma from_to_le_bytes:
  assumes "8 dvd LENGTH('a)"
  shows "from_le_bytes (to_le_bytes w) = (w :: 'a::len word)"
proof -
  from assms obtain k where "LENGTH('a) = 8 * k" by (rule dvdE)
  then have "(256 :: nat) ^ (LENGTH('a) div 8) = 2 ^ LENGTH('a)"
    by (simp add: power_mult)
  then show ?thesis
    by (simp add: from_le_bytes_def to_le_bytes_def le_value_digits)
qed

lemma from_to_be_bytes:
  "8 dvd LENGTH('a) \<Longrightarrow> from_be_bytes (to_be_bytes w) = (w :: 'a::len word)"
  by (simp add: from_be_bytes_def to_be_bytes_def from_to_le_bytes)

lemma to_from_le_bytes:
  assumes "8 * length bs = LENGTH('a)"
  shows "to_le_bytes (from_le_bytes bs :: 'a::len word) = bs"
proof -
  have "(256 :: nat) ^ length bs = 2 ^ LENGTH('a)"
    unfolding assms [symmetric] by (simp add: power_mult)
  then have "le_value bs < 2 ^ LENGTH('a)"
    using le_value_bound [of bs] by simp
  then have "unat (from_le_bytes bs :: 'a word) = le_value bs"
    by (simp add: from_le_bytes_def unat_of_nat)
  moreover have "LENGTH('a) div 8 = length bs"
    using assms by linarith
  ultimately show ?thesis
    by (simp add: to_le_bytes_def le_digits_value)
qed

lemma to_from_be_bytes:
  "8 * length bs = LENGTH('a) \<Longrightarrow> to_be_bytes (from_be_bytes bs :: 'a::len word) = bs"
  by (simp add: from_be_bytes_def to_be_bytes_def to_from_le_bytes)

lemma to_be_bytes_inject:
  "8 dvd LENGTH('a) \<Longrightarrow> to_be_bytes v = to_be_bytes (w :: 'a::len word) \<longleftrightarrow> v = w"
  by (metis from_to_be_bytes)

lemma to_be_bytes_inj_word [simp]:
  "to_be_bytes v = to_be_bytes (w :: u32) \<longleftrightarrow> v = w"
  "to_be_bytes v' = to_be_bytes (w' :: u64) \<longleftrightarrow> v' = w'"
  "to_be_bytes a = to_be_bytes (b :: address) \<longleftrightarrow> a = b"
  "to_be_bytes x = to_be_bytes (y :: b256) \<longleftrightarrow> x = y"
  by (rule to_be_bytes_inject, simp)+

lemma from_to_be_word [simp]:
  "from_be_bytes (to_be_bytes w16) = (w16 :: u16)"
  "from_be_bytes (to_be_bytes w32) = (w32 :: u32)"
  "from_be_bytes (to_be_bytes w64) = (w64 :: u64)"
  "from_be_bytes (to_be_bytes a) = (a :: address)"
  "from_be_bytes (to_be_bytes x) = (x :: b256)"
  by (rule from_to_be_bytes, simp)+

text \<open>Cutting a byte string into pieces of a fixed width: \<^verbatim>\<open>as_chunks::<N>().0\<close>.\<close>

fun chunks :: "nat \<Rightarrow> nat \<Rightarrow> 'a list \<Rightarrow> 'a list list" where
  "chunks w 0 xs = []"
| "chunks w (Suc n) xs = take w xs # chunks w n (drop w xs)"

definition as_chunks :: "nat \<Rightarrow> 'a list \<Rightarrow> 'a list list" where
  "as_chunks w xs = chunks w (length xs div w) xs"

lemma length_chunks [simp, enc_simps]: "length (chunks w n xs) = n"
  by (induction n arbitrary: xs) auto

lemma chunks_concat:
  "(\<And>e. e \<in> set es \<Longrightarrow> length e = w) \<Longrightarrow> chunks w (length es) (concat es @ zs) = es"
  by (induction es) auto

lemma length_concat_width:
  "(\<And>e. e \<in> set es \<Longrightarrow> length e = w) \<Longrightarrow> length (concat es) = w * length es"
  by (induction es) auto

lemma as_chunks_concat:
  assumes "\<And>e. e \<in> set es \<Longrightarrow> length e = w" and "0 < w"
  shows "as_chunks w (concat es) = es"
  using chunks_concat [OF assms(1), where zs = "[]"] length_concat_width [OF assms(1)] assms(2)
  by (simp add: as_chunks_def)

lemma concat_chunks: "length xs = w * n \<Longrightarrow> concat (chunks w n xs) = xs"
  by (induction n arbitrary: xs) auto

lemma chunks_width: "length xs = w * n \<Longrightarrow> c \<in> set (chunks w n xs) \<Longrightarrow> length c = w"
proof (induction n arbitrary: xs)
  case 0
  then show ?case by simp
next
  case (Suc n)
  then show ?case using Suc.IH [of "drop w xs"] by auto
qed

lemma in_map_filter: "y \<in> set (List.map_filter f xs) \<longleftrightarrow> (\<exists>x \<in> set xs. f x = Some y)"
  by (induction xs) (auto simp: map_filter_simps split: option.splits)

section \<open>Hashing without collisions\<close>

text \<open>
  What the security properties assume of a hash function: on the finitely many preimages at
  hand it does not collide, and it does not yield the all-zero word that pads the trees.
\<close>

definition collision_free :: "(bytes \<Rightarrow> b256) \<Rightarrow> bytes set \<Rightarrow> bool" where
  "collision_free K A \<longleftrightarrow> inj_on K A \<and> 0 \<notin> K ` A"

lemma collision_free_eq:
  "collision_free K A \<Longrightarrow> x \<in> A \<Longrightarrow> y \<in> A \<Longrightarrow> K x = K y \<longleftrightarrow> x = y"
  by (auto simp: collision_free_def inj_on_def)

lemma collision_free_nonzero: "collision_free K A \<Longrightarrow> x \<in> A \<Longrightarrow> K x \<noteq> 0"
  by (force simp: collision_free_def)

section \<open>Strings\<close>

text \<open>
  \<open>split_on c s\<close> is \<^verbatim>\<open>s.split(c)\<close>: the pieces between the separators, one more than there
  are separators.  \<open>split_once sep s\<close>, \<open>strip_prefix p s\<close> and \<open>strip_suffix p s\<close> are the
  methods of those names; \<open>trim\<close> removes ASCII white space at both ends.
\<close>

fun split_on :: "char \<Rightarrow> string \<Rightarrow> string list" where
  "split_on c [] = [[]]"
| "split_on c (x # xs) =
     (if x = c then [] # split_on c xs
      else (case split_on c xs of [] \<Rightarrow> [[x]] | p # ps \<Rightarrow> (x # p) # ps))"

definition strip_prefix :: "string \<Rightarrow> string \<Rightarrow> string option" where
  "strip_prefix p s = (if take (length p) s = p then Some (drop (length p) s) else None)"

definition strip_suffix :: "string \<Rightarrow> string \<Rightarrow> string option" where
  "strip_suffix p s = map_option rev (strip_prefix (rev p) (rev s))"

fun split_once :: "string \<Rightarrow> string \<Rightarrow> (string \<times> string) option" where
  "split_once sep [] = (if sep = [] then Some ([], []) else None)"
| "split_once sep (x # xs) =
     (case strip_prefix sep (x # xs) of
        Some r \<Rightarrow> Some ([], r)
      | None \<Rightarrow> map_option (\<lambda>(a, b). (x # a, b)) (split_once sep xs))"

definition is_ascii_space :: "char \<Rightarrow> bool" where
  "is_ascii_space c \<longleftrightarrow> of_char c \<in> {9, 10, 11, 12, 13, 32 :: nat}"

definition trim :: "string \<Rightarrow> string" where
  "trim s = rev (dropWhile is_ascii_space (rev (dropWhile is_ascii_space s)))"

definition ascii_lower :: "char \<Rightarrow> char" where
  "ascii_lower c = (if 65 \<le> (of_char c :: nat) \<and> (of_char c :: nat) \<le> 90
                    then char_of (of_char c + 32 :: nat) else c)"

definition char_byte :: "char \<Rightarrow> u8" where
  "char_byte c = of_nat (of_char c)"

definition str_bytes :: "string \<Rightarrow> bytes" where
  "str_bytes s = map char_byte s"

lemma split_on_ne [simp]: "split_on c s \<noteq> []"
  by (induction s) (auto split: list.splits)

lemma split_on_no_sep: "p \<in> set (split_on c s) \<Longrightarrow> c \<notin> set p"
  by (induction s arbitrary: p) (auto split: if_splits list.splits)

lemma length_str_bytes [simp, enc_simps]: "length (str_bytes s) = length s"
  by (simp add: str_bytes_def)

lemma char_byte_eq_iff [simp]: "char_byte c = char_byte d \<longleftrightarrow> c = d"
proof
  have unat_char: "unat (char_byte x) = of_char x" for x
  proof -
    have "(of_char x :: nat) mod 256 = of_char x" by simp
    then show ?thesis by (simp add: char_byte_def unat_of_nat_u8)
  qed
  assume "char_byte c = char_byte d"
  then have "(of_char c :: nat) = of_char d" by (metis unat_char)
  then show "c = d" by simp
qed simp

lemma str_bytes_inject [simp]: "str_bytes s = str_bytes t \<longleftrightarrow> s = t"
  by (simp add: str_bytes_def inj_map_eq_map inj_def)

section \<open>First minimum, last maximum\<close>

text \<open>
  \<^verbatim>\<open>min_by_key\<close> keeps the first element with the least key, \<^verbatim>\<open>max_by\<close> the last one that no
  later element strictly exceeds.
\<close>

fun min_from :: "('a \<Rightarrow> 'k::linorder) \<Rightarrow> 'a \<Rightarrow> 'a list \<Rightarrow> 'a" where
  "min_from f a [] = a"
| "min_from f a (x # xs) = (if f x < f a then min_from f x xs else min_from f a xs)"

fun min_by_key :: "('a \<Rightarrow> 'k::linorder) \<Rightarrow> 'a list \<Rightarrow> 'a option" where
  "min_by_key f [] = None"
| "min_by_key f (x # xs) = Some (min_from f x xs)"

text \<open>\<open>gt a b\<close> says that the comparison of \<open>a\<close> with \<open>b\<close> is \<^verbatim>\<open>Greater\<close>.\<close>

fun max_from :: "('a \<Rightarrow> 'a \<Rightarrow> bool) \<Rightarrow> 'a \<Rightarrow> 'a list \<Rightarrow> 'a" where
  "max_from gt a [] = a"
| "max_from gt a (x # xs) = (if gt a x then max_from gt a xs else max_from gt x xs)"

fun max_by :: "('a \<Rightarrow> 'a \<Rightarrow> bool) \<Rightarrow> 'a list \<Rightarrow> 'a option" where
  "max_by gt [] = None"
| "max_by gt (x # xs) = Some (max_from gt x xs)"

lemma min_from_in: "min_from f a xs \<in> insert a (set xs)"
  by (induction xs arbitrary: a) auto

lemma min_from_le: "x \<in> insert a (set xs) \<Longrightarrow> f (min_from f a xs) \<le> f x"
proof (induction xs arbitrary: a x)
  case Nil
  then show ?case by simp
next
  case (Cons y ys)
  let ?b = "if f y < f a then y else a"
  have b: "f (min_from f ?b ys) \<le> f ?b" by (rule Cons.IH) simp
  have "f ?b \<le> f a" and "f ?b \<le> f y" by auto
  then have "f (min_from f ?b ys) \<le> f a" and "f (min_from f ?b ys) \<le> f y"
    using b order_trans by blast+
  moreover have "f (min_from f ?b ys) \<le> f x" if "x \<in> set ys"
    using Cons.IH that by blast
  ultimately show ?case using Cons.prems by (auto split: if_splits)
qed

lemma min_by_key_None [simp]: "min_by_key f xs = None \<longleftrightarrow> xs = []"
  by (cases xs) auto

lemma min_by_key_Some:
  "min_by_key f xs = Some a \<Longrightarrow> a \<in> set xs \<and> (\<forall>x \<in> set xs. f a \<le> f x)"
proof -
  assume "min_by_key f xs = Some a"
  then obtain y ys where xs: "xs = y # ys" and a: "a = min_from f y ys"
    by (cases xs) auto
  show ?thesis using min_from_in [of f y ys] min_from_le [of _ y ys f] by (auto simp: xs a)
qed

lemma max_by_None [simp]: "max_by gt xs = None \<longleftrightarrow> xs = []"
  by (cases xs) auto

lemma max_from_in: "max_from gt a xs \<in> insert a (set xs)"
  by (induction xs arbitrary: a) auto

lemma max_from_max:
  assumes asym: "\<And>x y. gt x y \<Longrightarrow> \<not> gt y x"
    and trans: "\<And>x y z. \<not> gt x y \<Longrightarrow> \<not> gt y z \<Longrightarrow> \<not> gt x z"
  shows "x \<in> insert a (set xs) \<Longrightarrow> \<not> gt x (max_from gt a xs)"
proof (induction xs arbitrary: a x)
  case Nil
  then show ?case using asym by auto
next
  case (Cons y ys)
  let ?b = "if gt a y then a else y"
  have b: "\<not> gt ?b (max_from gt ?b ys)"
    by (rule Cons.IH) simp
  have "\<not> gt a ?b" and "\<not> gt y ?b"
    using asym by auto
  then have "\<not> gt a (max_from gt ?b ys)" and "\<not> gt y (max_from gt ?b ys)"
    using b trans by blast+
  moreover have "\<not> gt x (max_from gt ?b ys)" if "x \<in> set ys"
    using Cons.IH that by blast
  ultimately show ?case using Cons.prems by (auto split: if_splits)
qed

lemma max_by_Some:
  assumes "\<And>x y. gt x y \<Longrightarrow> \<not> gt y x"
    and "\<And>x y z. \<not> gt x y \<Longrightarrow> \<not> gt y z \<Longrightarrow> \<not> gt x z"
    and "max_by gt xs = Some a"
  shows "a \<in> set xs" and "x \<in> set xs \<Longrightarrow> \<not> gt x a"
proof -
  from assms(3) obtain y ys where xs: "xs = y # ys" and a: "a = max_from gt y ys"
    by (cases xs) auto
  show "a \<in> set xs" using max_from_in [of gt y ys] by (simp add: xs a)
  show "\<not> gt x a" if "x \<in> set xs"
    unfolding a by (rule max_from_max [OF assms(1,2)]) (use that xs in auto)
qed

end
