(* ===== verification/BTree.thy ===== *)
theory BTree
  imports Prelude
begin

text \<open>
  Rust's \<^verbatim>\<open>BTreeMap\<close>, which the coordinator keeps all its tables in, as an association list in
  strictly ascending key order: iteration is list order, which the sources rely on for their
  tie-breaks.  The lookup laws hold for any list; the order (\<open>bt_ok\<close>) is needed only where
  entries are counted or searched.

  The locale \<open>ordered_map\<close> is the interface the coordinator's tables use, and
  \<open>bounded_map\<close> adds what the tables with a capacity share: an insertion that first evicts a
  present key never grows the table beyond its bound.
\<close>

type_synonym ('k, 'v) btree = "('k \<times> 'v) list"

definition bt_get :: "('k, 'v) btree \<Rightarrow> 'k \<Rightarrow> 'v option" where
  "bt_get m k = map_of m k"

fun bt_insert :: "'k::linorder \<Rightarrow> 'v \<Rightarrow> ('k, 'v) btree \<Rightarrow> ('k, 'v) btree" where
  "bt_insert k v [] = [(k, v)]"
| "bt_insert k v ((a, b) # m) =
     (if k < a then (k, v) # (a, b) # m
      else if k = a then (k, v) # m
      else (a, b) # bt_insert k v m)"

definition bt_remove :: "'k \<Rightarrow> ('k, 'v) btree \<Rightarrow> ('k, 'v) btree" where
  "bt_remove k m = filter (\<lambda>e. fst e \<noteq> k) m"

text \<open>\<open>get_mut\<close> followed by an update in place.\<close>

definition bt_modify :: "'k \<Rightarrow> ('v \<Rightarrow> 'v) \<Rightarrow> ('k, 'v) btree \<Rightarrow> ('k, 'v) btree" where
  "bt_modify k f m = map (\<lambda>(a, b). (a, if a = k then f b else b)) m"

text \<open>\<open>iter_mut\<close> and \<open>values_mut\<close>: every value replaced, keys kept.\<close>

definition bt_map :: "('k \<Rightarrow> 'v \<Rightarrow> 'w) \<Rightarrow> ('k, 'v) btree \<Rightarrow> ('k, 'w) btree" where
  "bt_map f m = map (\<lambda>(a, b). (a, f a b)) m"

definition bt_ok :: "('k::linorder, 'v) btree \<Rightarrow> bool" where
  "bt_ok m \<longleftrightarrow> sorted_wrt (<) (map fst m)"

definition bt_has :: "('k, 'v) btree \<Rightarrow> 'k \<Rightarrow> bool" where
  "bt_has m k \<longleftrightarrow> bt_get m k \<noteq> None"

abbreviation bt_values :: "('k, 'v) btree \<Rightarrow> 'v list" where
  "bt_values m \<equiv> map snd m"

section \<open>Lookup\<close>

lemma bt_get_Nil [simp]: "bt_get [] k = None"
  by (simp add: bt_get_def)

lemma bt_get_Cons [simp]: "bt_get ((a, b) # m) k = (if a = k then Some b else bt_get m k)"
  by (auto simp: bt_get_def)

lemma bt_get_insert [simp]:
  "bt_get (bt_insert k v m) k' = (if k' = k then Some v else bt_get m k')"
  by (induction k v m rule: bt_insert.induct) auto

lemma bt_get_remove [simp]: "bt_get (bt_remove k m) k' = (if k' = k then None else bt_get m k')"
  by (induction m) (auto simp: bt_remove_def)

lemma bt_get_modify [simp]:
  "bt_get (bt_modify k f m) k' = (if k' = k then map_option f (bt_get m k) else bt_get m k')"
  by (induction m) (auto simp: bt_modify_def)

lemma bt_get_map [simp]: "bt_get (bt_map f m) k = map_option (f k) (bt_get m k)"
  by (induction m) (auto simp: bt_map_def)

lemma bt_has_simps [simp]:
  "bt_has [] k \<longleftrightarrow> False"
  "bt_has (bt_insert k' v m) k \<longleftrightarrow> k = k' \<or> bt_has m k"
  "bt_has (bt_remove k' m) k \<longleftrightarrow> k \<noteq> k' \<and> bt_has m k"
  "bt_has (bt_modify k' f m) k \<longleftrightarrow> bt_has m k"
  "bt_has (bt_map g m) k \<longleftrightarrow> bt_has m k"
  by (auto simp: bt_has_def)

lemma bt_get_in: "bt_get m k = Some v \<Longrightarrow> (k, v) \<in> set m"
  by (simp add: bt_get_def map_of_SomeD)

lemma bt_has_keys: "bt_has m k \<longleftrightarrow> k \<in> fst ` set m"
  by (auto simp: bt_has_def bt_get_def map_of_eq_None_iff)

section \<open>Order, entries and size\<close>

lemma bt_ok_Nil [simp]: "bt_ok []"
  by (simp add: bt_ok_def)

lemma bt_ok_Cons: "bt_ok ((a, b) # m) \<longleftrightarrow> (\<forall>k \<in> fst ` set m. a < k) \<and> bt_ok m"
  by (auto simp: bt_ok_def)

lemma bt_ok_distinct: "bt_ok m \<Longrightarrow> distinct (map fst m)"
  by (simp add: bt_ok_def strict_sorted_iff)

lemma bt_get_iff: "bt_ok m \<Longrightarrow> bt_get m k = Some v \<longleftrightarrow> (k, v) \<in> set m"
  by (simp add: bt_get_def bt_ok_distinct)

lemma keys_bt_insert: "fst ` set (bt_insert k v m) = insert k (fst ` set m)"
  by (induction k v m rule: bt_insert.induct) auto

lemma bt_ok_insert [simp, intro]: "bt_ok m \<Longrightarrow> bt_ok (bt_insert k v m)"
  by (induction k v m rule: bt_insert.induct) (auto simp: bt_ok_Cons keys_bt_insert)

lemma bt_ok_remove [simp, intro]: "bt_ok m \<Longrightarrow> bt_ok (bt_remove k m)"
proof (induction m)
  case (Cons e m)
  obtain a b where "e = (a, b)" by (cases e)
  with Cons show ?case by (auto simp: bt_remove_def bt_ok_Cons)
qed (simp add: bt_remove_def)

lemma bt_ok_modify [simp, intro]: "bt_ok m \<Longrightarrow> bt_ok (bt_modify k f m)"
  by (simp add: bt_ok_def bt_modify_def comp_def case_prod_unfold)

lemma bt_ok_map [simp, intro]: "bt_ok m \<Longrightarrow> bt_ok (bt_map f m)"
  by (simp add: bt_ok_def bt_map_def comp_def case_prod_unfold)

lemma set_bt_remove [simp]: "set (bt_remove k m) = {e \<in> set m. fst e \<noteq> k}"
  by (auto simp: bt_remove_def)

lemma length_bt_modify [simp]: "length (bt_modify k f m) = length m"
  by (simp add: bt_modify_def)

lemma length_bt_map [simp]: "length (bt_map f m) = length m"
  by (simp add: bt_map_def)

lemma length_bt_insert:
  "bt_ok m \<Longrightarrow> length (bt_insert k v m) = (if bt_has m k then length m else Suc (length m))"
proof (induction k v m rule: bt_insert.induct)
  case (2 k v a b m)
  have "\<not> bt_has m k" if "k \<le> a"
    using "2.prems" that by (auto simp: bt_ok_Cons bt_has_keys)
  with 2 show ?case by (auto simp: bt_ok_Cons bt_has_def)
qed simp

lemma length_bt_remove_le: "length (bt_remove k m) \<le> length m"
  by (simp add: bt_remove_def)

lemma length_bt_remove: "bt_has m k \<Longrightarrow> length (bt_remove k m) < length m"
proof -
  assume "bt_has m k"
  then obtain e where "e \<in> set m" and "\<not> fst e \<noteq> k" by (auto simp: bt_has_keys)
  then show ?thesis unfolding bt_remove_def by (rule length_filter_less)
qed

lemma bt_modify_id [simp]: "bt_get m k = None \<Longrightarrow> bt_modify k f m = m"
  by (induction m) (auto simp: bt_modify_def split: if_splits)

section \<open>The interface\<close>

locale ordered_map =
  fixes get :: "'m \<Rightarrow> 'k \<Rightarrow> 'v option"
    and ins :: "'k \<Rightarrow> 'v \<Rightarrow> 'm \<Rightarrow> 'm"
    and del :: "'k \<Rightarrow> 'm \<Rightarrow> 'm"
    and card_of :: "'m \<Rightarrow> nat"
    and ok :: "'m \<Rightarrow> bool"
  assumes get_ins: "get (ins k v m) k' = (if k' = k then Some v else get m k')"
    and get_del: "get (del k m) k' = (if k' = k then None else get m k')"
    and ok_ins: "ok m \<Longrightarrow> ok (ins k v m)"
    and ok_del: "ok m \<Longrightarrow> ok (del k m)"
    and card_ins: "ok m \<Longrightarrow> card_of (ins k v m) = (if get m k = None then Suc (card_of m) else card_of m)"
    and card_del: "ok m \<Longrightarrow> get m k \<noteq> None \<Longrightarrow> card_of (del k m) < card_of m"
    and card_del_le: "card_of (del k m) \<le> card_of m"
begin

lemma get_ins_same: "get (ins k v m) k = Some v"
  by (simp add: get_ins)

lemma get_ins_other: "k' \<noteq> k \<Longrightarrow> get (ins k v m) k' = get m k'"
  by (simp add: get_ins)

lemma card_overwrite: "ok m \<Longrightarrow> get m k = Some w \<Longrightarrow> card_of (ins k v m) = card_of m"
  by (simp add: card_ins)

lemma evicted_gone: "get (ins k v (del e m)) e = (if e = k then Some v else None)"
  by (simp add: get_ins get_del)

end

text \<open>A table of bounded size: the eviction discipline shared by the worker registry, the
  penalty table and the source table.\<close>

locale bounded_map = ordered_map +
  fixes cap :: nat
  assumes cap_pos: "0 < cap"
begin

lemma insert_below_cap:
  assumes "ok m" and "card_of m \<le> cap" and "get m k \<noteq> None \<or> card_of m < cap"
  shows "card_of (ins k v m) \<le> cap"
  using assms by (auto simp: card_ins)

lemma evict_then_insert:
  assumes "ok m" and "card_of m \<le> cap" and "get m e \<noteq> None"
  shows "card_of (ins k v (del e m)) \<le> cap"
proof (rule insert_below_cap)
  show "ok (del e m)" using assms by (simp add: ok_del)
  have "card_of (del e m) < card_of m" using assms by (simp add: card_del)
  with assms show "card_of (del e m) \<le> cap"
    and "get (del e m) k \<noteq> None \<or> card_of (del e m) < cap" by simp_all
qed

end

interpretation bt: ordered_map bt_get bt_insert bt_remove length bt_ok
  by unfold_locales (auto simp: length_bt_insert bt_has_def length_bt_remove length_bt_remove_le)

end
