(* ===== verification/Protocol.thy ===== *)
theory Protocol
  imports BTree
begin

text \<open>
  The wire vocabulary of \<^verbatim>\<open>training-worker/src/coordinator_protocol.rs\<close>: capabilities, job
  specifications, the freshness constants and the five signing digests.

  Keccak-256 (the \<^verbatim>\<open>sha3\<close> crate) is a parameter \<open>K\<close> of every definition that hashes.  Each
  digest is \<open>K\<close> of a preimage; \<open>message_bytes\<close> collects the five preimages so that their
  domain separation can be stated once.  Public-key recovery (the \<^verbatim>\<open>k256\<close> crate, reached through
  \<^verbatim>\<open>wallet.rs\<close>) is a parameter of the theories that verify signatures.
\<close>

section \<open>Jobs and capabilities\<close>

text \<open>A \<^verbatim>\<open>serde_json::Value\<close>.  Objects keep their entries in a list, the first of a key counts.\<close>

datatype json =
    JNull
  | JBool bool
  | JInt int
  | JFloat rat
  | JStr string
  | JArr "json list"
  | JObj "(string \<times> json) list"

fun json_get :: "string \<Rightarrow> json \<Rightarrow> json option" where
  "json_get k (JObj es) = map_of es k"
| "json_get k _ = None"

fun json_as_str :: "json \<Rightarrow> string option" where
  "json_as_str (JStr s) = Some s"
| "json_as_str _ = None"

datatype capability = Probe | Federated | H01

fun cap_rank :: "capability \<Rightarrow> nat" where
  "cap_rank Probe = 0"
| "cap_rank Federated = 1"
| "cap_rank H01 = 2"

lemma cap_rank_inject [simp]: "cap_rank a = cap_rank b \<longleftrightarrow> a = b"
  by (cases a; cases b) simp_all

instantiation capability :: linorder
begin

definition less_eq_capability :: "capability \<Rightarrow> capability \<Rightarrow> bool" where
  "less_eq_capability a b \<longleftrightarrow> cap_rank a \<le> cap_rank b"

definition less_capability :: "capability \<Rightarrow> capability \<Rightarrow> bool" where
  "less_capability a b \<longleftrightarrow> cap_rank a < cap_rank b"

instance
proof
  fix a b c :: capability
  show "a < b \<longleftrightarrow> a \<le> b \<and> \<not> b \<le> a"
    by (auto simp: less_eq_capability_def less_capability_def)
  show "a \<le> a" by (simp add: less_eq_capability_def)
  show "a \<le> b \<Longrightarrow> b \<le> c \<Longrightarrow> a \<le> c" by (simp add: less_eq_capability_def)
  show "a \<le> b \<Longrightarrow> b \<le> a \<Longrightarrow> a = b" by (simp add: less_eq_capability_def)
  show "a \<le> b \<or> b \<le> a" by (simp add: less_eq_capability_def linear)
qed

end

lemma capability_order [simp]:
  "Probe \<le> c" "c \<le> H01"
  "Federated \<le> c \<longleftrightarrow> c \<noteq> Probe" "c \<le> Federated \<longleftrightarrow> c \<noteq> H01"
  "H01 \<le> c \<longleftrightarrow> c = H01" "c \<le> Probe \<longleftrightarrow> c = Probe"
  by (cases c; simp add: less_eq_capability_def)+

lemma capability_less [simp]:
  "Probe < Federated" "Probe < H01" "Federated < H01"
  "\<not> Federated < Probe" "\<not> H01 < Probe" "\<not> H01 < Federated"
  by (simp_all add: less_capability_def)

definition satisfies :: "capability \<Rightarrow> capability \<Rightarrow> bool" where
  "satisfies c required \<longleftrightarrow> c \<ge> required"

type_synonym job_id = string

record job_spec =
  js_id :: job_id
  js_requires :: capability
  js_payload :: json
  js_lease_secs :: u64
  js_max_attempts :: u32

definition new_job_spec :: "string \<Rightarrow> capability \<Rightarrow> json \<Rightarrow> job_spec" where
  "new_job_spec i requires payload =
     \<lparr>js_id = i, js_requires = requires, js_payload = payload, js_lease_secs = 3600,
      js_max_attempts = 3\<rparr>"

definition with_lease_secs :: "u64 \<Rightarrow> job_spec \<Rightarrow> job_spec" where
  "with_lease_secs s spec = spec\<lparr>js_lease_secs := s\<rparr>"

definition with_max_attempts :: "u32 \<Rightarrow> job_spec \<Rightarrow> job_spec" where
  "with_max_attempts n spec = spec\<lparr>js_max_attempts := n\<rparr>"

section \<open>Constants\<close>

definition LEASE_FRESHNESS_NANOS :: u64 where
  "LEASE_FRESHNESS_NANOS = 120 * 1000000000"

definition LEASE_RENEW_WINDOW_SECS :: u64 where
  "LEASE_RENEW_WINDOW_SECS = 900"

definition HEARTBEAT_INTERVAL_SECS :: u64 where
  "HEARTBEAT_INTERVAL_SECS = 240"

definition REGISTER_MESSAGE :: bytes where
  "REGISTER_MESSAGE = str_bytes ''citrate-training-register/1''"

definition LEASE_MESSAGE :: bytes where
  "LEASE_MESSAGE = str_bytes ''citrate-training-lease/1''"

definition HEARTBEAT_MESSAGE :: bytes where
  "HEARTBEAT_MESSAGE = str_bytes ''citrate-training-heartbeat/1''"

definition newline :: bytes where
  "newline = [10]"

section \<open>Digests\<close>

definition keccak_parts :: "(bytes \<Rightarrow> b256) \<Rightarrow> bytes list \<Rightarrow> b256" where
  "keccak_parts K parts = K (concat parts)"

definition attestation_digest :: "(bytes \<Rightarrow> b256) \<Rightarrow> string \<Rightarrow> u64 \<Rightarrow> b256" where
  "attestation_digest K probe_json timestamp =
     keccak_parts K [REGISTER_MESSAGE, newline, to_be_bytes timestamp, newline, str_bytes probe_json]"

definition lease_digest :: "(bytes \<Rightarrow> b256) \<Rightarrow> u64 \<Rightarrow> b256" where
  "lease_digest K timestamp = keccak_parts K [LEASE_MESSAGE, newline, to_be_bytes timestamp]"

definition heartbeat_digest :: "(bytes \<Rightarrow> b256) \<Rightarrow> job_id \<Rightarrow> u64 \<Rightarrow> b256" where
  "heartbeat_digest K job timestamp =
     keccak_parts K [HEARTBEAT_MESSAGE, newline, str_bytes job, newline, to_be_bytes timestamp]"

definition submission_digest :: "(bytes \<Rightarrow> b256) \<Rightarrow> job_id \<Rightarrow> string \<Rightarrow> b256" where
  "submission_digest K job payload =
     keccak_parts K [str_bytes ''citrate-training-submission/1'' @ newline, str_bytes job, newline,
                     str_bytes payload]"

definition fl_delta_upload_digest :: "(bytes \<Rightarrow> b256) \<Rightarrow> job_id \<Rightarrow> b256 \<Rightarrow> b256" where
  "fl_delta_upload_digest K job sha =
     keccak_parts K [str_bytes ''citrate-fl-delta-upload/1'' @ newline, str_bytes job, newline,
                     to_be_bytes sha]"

text \<open>The five signed messages and the bytes each digest hashes.\<close>

datatype signed_message =
    MRegister string u64
  | MLease u64
  | MHeartbeat job_id u64
  | MSubmit job_id string
  | MUpload job_id b256

fun message_bytes :: "signed_message \<Rightarrow> bytes" where
  "message_bytes (MRegister probe ts) =
     REGISTER_MESSAGE @ newline @ to_be_bytes ts @ newline @ str_bytes probe"
| "message_bytes (MLease ts) = LEASE_MESSAGE @ newline @ to_be_bytes ts"
| "message_bytes (MHeartbeat job ts) =
     HEARTBEAT_MESSAGE @ newline @ str_bytes job @ newline @ to_be_bytes ts"
| "message_bytes (MSubmit job payload) =
     str_bytes ''citrate-training-submission/1'' @ newline @ str_bytes job @ newline @
     str_bytes payload"
| "message_bytes (MUpload job sha) =
     str_bytes ''citrate-fl-delta-upload/1'' @ newline @ str_bytes job @ newline @ to_be_bytes sha"

fun digest_of :: "(bytes \<Rightarrow> b256) \<Rightarrow> signed_message \<Rightarrow> b256" where
  "digest_of K (MRegister probe ts) = attestation_digest K probe ts"
| "digest_of K (MLease ts) = lease_digest K ts"
| "digest_of K (MHeartbeat job ts) = heartbeat_digest K job ts"
| "digest_of K (MSubmit job payload) = submission_digest K job payload"
| "digest_of K (MUpload job sha) = fl_delta_upload_digest K job sha"

lemma digest_of_bytes: "digest_of K m = K (message_bytes m)"
  by (cases m) (simp_all add: keccak_parts_def attestation_digest_def lease_digest_def
      heartbeat_digest_def submission_digest_def fl_delta_upload_digest_def)

fun no_newline_id :: "signed_message \<Rightarrow> bool" where
  "no_newline_id (MSubmit job payload) \<longleftrightarrow> CHR 0x0A \<notin> set job"
| "no_newline_id _ \<longleftrightarrow> True"

text \<open>Two byte strings cut at the same fixed-width tail, or at the first separator.\<close>

lemma append_same_tail:
  "length ys = length ys' \<Longrightarrow> xs @ ys = xs' @ ys' \<longleftrightarrow> xs = xs' \<and> ys = ys'"
  by (simp add: append_eq_append_conv)

lemma append_same_head:
  "length xs = length xs' \<Longrightarrow> xs @ ys = xs' @ ys' \<longleftrightarrow> xs = xs' \<and> ys = ys'"
  by (simp add: append_eq_append_conv)

lemma split_at_first:
  "x \<notin> set a \<Longrightarrow> x \<notin> set b \<Longrightarrow> a @ x # p = b @ x # q \<longleftrightarrow> a = b \<and> p = q"
  by (auto simp: append_eq_append_conv2 append_eq_Cons_conv Cons_eq_append_conv)

lemma newline_char_byte: "(10 :: u8) = char_byte (CHR 0x0A)"
  by (simp add: char_byte_def)

lemma newline_in_str_bytes: "(10 :: u8) \<in> set (str_bytes s) \<longleftrightarrow> CHR 0x0A \<in> set s"
  unfolding newline_char_byte str_bytes_def by auto

lemma message_bytes_cross:
  "message_bytes (MRegister probe ts) \<noteq> message_bytes (MLease ts2)"
  "message_bytes (MRegister probe ts) \<noteq> message_bytes (MHeartbeat job3 ts3)"
  "message_bytes (MRegister probe ts) \<noteq> message_bytes (MSubmit job4 payload4)"
  "message_bytes (MRegister probe ts) \<noteq> message_bytes (MUpload job5 sha5)"
  "message_bytes (MLease ts2) \<noteq> message_bytes (MHeartbeat job3 ts3)"
  "message_bytes (MLease ts2) \<noteq> message_bytes (MSubmit job4 payload4)"
  "message_bytes (MLease ts2) \<noteq> message_bytes (MUpload job5 sha5)"
  "message_bytes (MHeartbeat job3 ts3) \<noteq> message_bytes (MSubmit job4 payload4)"
  "message_bytes (MHeartbeat job3 ts3) \<noteq> message_bytes (MUpload job5 sha5)"
  "message_bytes (MSubmit job4 payload4) \<noteq> message_bytes (MUpload job5 sha5)"
  by (simp_all add: REGISTER_MESSAGE_def LEASE_MESSAGE_def HEARTBEAT_MESSAGE_def str_bytes_def
      newline_def)

lemma message_bytes_same:
  "message_bytes (MRegister p t) = message_bytes (MRegister p' t') \<longleftrightarrow> p = p' \<and> t = t'"
  "message_bytes (MLease t) = message_bytes (MLease t') \<longleftrightarrow> t = t'"
  "message_bytes (MHeartbeat j t) = message_bytes (MHeartbeat j' t') \<longleftrightarrow> j = j' \<and> t = t'"
  "message_bytes (MUpload j s) = message_bytes (MUpload j' s') \<longleftrightarrow> j = j' \<and> s = s'"
  by (auto simp: append_same_head append_same_tail newline_def
      simp flip: append_assoc append_Cons [where xs = "[]", simplified])


lemma message_bytes_submit:
  assumes "CHR 0x0A \<notin> set job" and "CHR 0x0A \<notin> set job'"
    and "message_bytes (MSubmit job p) = message_bytes (MSubmit job' p')"
  shows "job = job' \<and> p = p'"
proof -
  have "str_bytes job @ 10 # str_bytes p = str_bytes job' @ 10 # str_bytes p'"
    using assms(3) by (simp add: newline_def)
  with assms(1,2) show ?thesis by (simp add: split_at_first newline_in_str_bytes)
qed

lemma message_bytes_determine:
  assumes "no_newline_id m" and "no_newline_id m'" and "message_bytes m = message_bytes m'"
  shows "m = m'"
proof (cases "\<exists>j p j' p'. m = MSubmit j p \<and> m' = MSubmit j' p'")
  case True
  then obtain j p j' p' where m: "m = MSubmit j p" "m' = MSubmit j' p'" by blast
  with assms(1,2) have "CHR 0x0A \<notin> set j" "CHR 0x0A \<notin> set j'" by simp_all
  from message_bytes_submit [OF this assms(3) [unfolded m]] show ?thesis by (simp only: m simp_thms)
next
  case False
  with assms(3) show ?thesis
    by (cases m; cases m')
      (simp_all only: message_bytes_cross message_bytes_cross [symmetric] message_bytes_same
        signed_message.inject simp_thms, blast)
qed

text \<open>C31: The five digests that are signed are domain separated and unambiguous.  Whatever two messages are
  taken, of one kind or of two, their digests under the functions the client and the coordinator call differ unless
  the messages are the same, fields included, provided Keccak does not collide on the bytes the protocol prescribes for
  the two (\<open>message_bytes\<close>) and the job of a submission has no newline in it.  So a signature over
  one purpose, job or time stamp is never one over another.\<close>

theorem signed_messages_unambiguous:
  assumes "no_newline_id m" and "no_newline_id m'"
    and "inj_on K {message_bytes m, message_bytes m'}" and "digest_of K m = digest_of K m'"
  shows "m = m'"
proof -
  have "message_bytes m = message_bytes m'"
    by (rule inj_onD [OF assms(3) assms(4) [unfolded digest_of_bytes]]) simp_all
  with assms(1,2) show ?thesis by (rule message_bytes_determine)
qed

text \<open>Two submissions whose job and payload run together, and a submission against a heartbeat.\<close>

definition one_byte :: "bytes \<Rightarrow> b256" where "one_byte bs = ucast (bs ! 31)"

lemma one_byte_differs:
  "one_byte (message_bytes (MSubmit ''a'' ''bc'')) \<noteq> one_byte (message_bytes (MSubmit ''ab'' ''c''))"
  "one_byte (message_bytes (MSubmit ''j1'' ''x'')) \<noteq> one_byte (message_bytes (MHeartbeat ''j1'' 5))"
  by (simp_all add: one_byte_def str_bytes_def newline_def HEARTBEAT_MESSAGE_def char_byte_def)

lemma inj_on_pair: "f x \<noteq> f y \<Longrightarrow> inj_on f {x, y}"
  by (auto simp: inj_on_def)

theorem signed_messages_unambiguous_witness:
  "submission_digest one_byte ''a'' ''bc'' \<noteq> submission_digest one_byte ''ab'' ''c'' \<and>
   submission_digest one_byte ''j1'' ''x'' \<noteq> heartbeat_digest one_byte ''j1'' 5"
proof -
  note apart = one_byte_differs [THEN inj_on_pair [of one_byte]]
  show ?thesis
    using signed_messages_unambiguous [OF _ _ apart(1)] signed_messages_unambiguous [OF _ _ apart(2)]
    by (intro conjI notI) (simp_all del: message_bytes.simps)
qed

end
