(* ===== verification/Admission.thy ===== *)
theory Admission
  imports Protocol "HOL-Library.Product_Lexorder"
begin

text \<open>
  Per-signer admission of time-stamped requests,
  \<^verbatim>\<open>training-coordinator/src/admission.rs\<close>: single use of a time stamp, a token bucket per key
  and a quota of remembered time stamps.  The index is kept as the ascending list the code's
  \<^verbatim>\<open>BTreeSet\<close> iterates.
\<close>

definition WINDOW_PAST_NANOS :: u64 where "WINDOW_PAST_NANOS = LEASE_FRESHNESS_NANOS"
definition MAX_FUTURE_SKEW_NANOS :: u64 where "MAX_FUTURE_SKEW_NANOS = 30 * 1000000000"
definition PER_KEY_BURST :: u64 where "PER_KEY_BURST = 10"
definition PER_KEY_REFILL_NANOS :: u64 where "PER_KEY_REFILL_NANOS = 2 * 1000000000"
definition PER_KEY_QUOTA :: nat where "PER_KEY_QUOTA = 160"

datatype refused =
    Replay
  | TooFast u64
  | OverQuota u64

record key_state =
  ks_seen :: "u64 set"
  ks_tokens :: u64
  ks_last_refill :: u64

record admission =
  ad_per_key :: "(address, key_state) btree"
  ad_index :: "(u64 \<times> address) list"

definition new_admission :: admission where
  "new_admission = \<lparr>ad_per_key = [], ad_index = []\<rparr>"

definition ceil_secs :: "u64 \<Rightarrow> u64" where
  "ceil_secs nanos = max (div_ceil nanos 1000000000) 1"

definition forget_stamp ::
  "address \<Rightarrow> u64 \<Rightarrow> (address, key_state) btree \<Rightarrow> (address, key_state) btree" where
  "forget_stamp who ts keys =
     (case bt_get keys who of
        None \<Rightarrow> keys
      | Some k \<Rightarrow>
          let seen = ks_seen k - {ts} in
          if seen = {} then bt_remove who keys
          else bt_modify who (\<lambda>k. k\<lparr>ks_seen := seen\<rparr>) keys)"

fun prune_loop ::
  "u64 \<Rightarrow> (u64 \<times> address) list \<Rightarrow> (address, key_state) btree \<Rightarrow>
   (u64 \<times> address) list \<times> (address, key_state) btree" where
  "prune_loop cutoff [] keys = ([], keys)"
| "prune_loop cutoff ((ts, who) # index) keys =
     (if ts \<ge> cutoff then ((ts, who) # index, keys)
      else prune_loop cutoff index (forget_stamp who ts keys))"

definition prune :: "u64 \<Rightarrow> admission \<Rightarrow> admission" where
  "prune now a =
     (let (index, keys) = prune_loop (sat_sub now WINDOW_PAST_NANOS) (ad_index a) (ad_per_key a)
      in \<lparr>ad_per_key = keys, ad_index = index\<rparr>)"

definition refill :: "u64 \<Rightarrow> key_state \<Rightarrow> key_state" where
  "refill now k =
     (let earned = sat_sub now (ks_last_refill k) div PER_KEY_REFILL_NANOS in
      if earned > 0
      then k\<lparr>ks_tokens := min (sat_add (ks_tokens k) earned) PER_KEY_BURST,
             ks_last_refill := sat_add (ks_last_refill k) (sat_mul earned PER_KEY_REFILL_NANOS)\<rparr>
      else k)"

definition admit :: "address \<Rightarrow> u64 \<Rightarrow> u64 \<Rightarrow> admission \<Rightarrow> (refused + unit) \<times> admission" where
  "admit who ts now a =
     (let a1 = prune now a;
          k = (case bt_get (ad_per_key a1) who of
                 Some k \<Rightarrow> k
               | None \<Rightarrow> \<lparr>ks_seen = {}, ks_tokens = PER_KEY_BURST, ks_last_refill = now\<rparr>);
          put = (\<lambda>k. a1\<lparr>ad_per_key := bt_insert who k (ad_per_key a1)\<rparr>)
      in
      if ts \<in> ks_seen k then (Inl Replay, put k)
      else
        let k1 = refill now k in
        if ks_tokens k1 = 0 then
          (Inl (TooFast (ceil_secs (sat_sub (sat_add (ks_last_refill k1) PER_KEY_REFILL_NANOS) now))),
           put k1)
        else if card (ks_seen k1) \<ge> PER_KEY_QUOTA then
          (let oldest = (if ks_seen k1 = {} then now else Min (ks_seen k1)) in
           (Inl (OverQuota (ceil_secs (sat_sub (sat_add oldest WINDOW_PAST_NANOS) now))), put k1))
        else
          (Inr (),
           (put (k1\<lparr>ks_tokens := ks_tokens k1 - 1, ks_seen := insert ts (ks_seen k1)\<rparr>))
             \<lparr>ad_index := insort_insert (ts, who) (ad_index a1)\<rparr>))"

definition admission_len :: "admission \<Rightarrow> nat" where
  "admission_len a = length (ad_index a)"

section \<open>The invariant\<close>

definition seen_in :: "(address, key_state) btree \<Rightarrow> address \<Rightarrow> u64 set" where
  "seen_in keys who = (case bt_get keys who of Some k \<Rightarrow> ks_seen k | None \<Rightarrow> {})"

text \<open>The index and the per-key sets agree; no key remembers nothing; buckets and quotas hold.\<close>

definition index_agrees :: "(u64 \<times> address) list \<Rightarrow> (address, key_state) btree \<Rightarrow> bool" where
  "index_agrees index keys \<longleftrightarrow> (\<forall>ts who. (ts, who) \<in> set index \<longleftrightarrow> ts \<in> seen_in keys who)"

definition keys_ok :: "(address, key_state) btree \<Rightarrow> bool" where
  "keys_ok keys \<longleftrightarrow> bt_ok keys \<and>
     (\<forall>who k. bt_get keys who = Some k \<longrightarrow>
        finite (ks_seen k) \<and> ks_seen k \<noteq> {} \<and> card (ks_seen k) \<le> PER_KEY_QUOTA \<and>
        ks_tokens k \<le> PER_KEY_BURST)"

definition admission_ok :: "admission \<Rightarrow> bool" where
  "admission_ok a \<longleftrightarrow>
     sorted_wrt (<) (ad_index a) \<and> index_agrees (ad_index a) (ad_per_key a) \<and> keys_ok (ad_per_key a)"

lemma new_admission_ok: "admission_ok new_admission"
  by (simp add: admission_ok_def new_admission_def index_agrees_def keys_ok_def seen_in_def)

lemma forget_stamp_get:
  "bt_get (forget_stamp who ts keys) w =
     (if w = who
      then Option.bind (bt_get keys who)
             (\<lambda>k. if ks_seen k - {ts} = {} then None else Some (k\<lparr>ks_seen := ks_seen k - {ts}\<rparr>))
      else bt_get keys w)"
  by (auto simp: forget_stamp_def Let_def split: option.splits)

lemma forget_stamp_ok: "keys_ok keys \<Longrightarrow> keys_ok (forget_stamp who ts keys)"
proof -
  assume ok: "keys_ok keys"
  have "bt_ok (forget_stamp who ts keys)"
    using ok by (auto simp: keys_ok_def forget_stamp_def Let_def split: option.splits)
  moreover have "card (ks_seen k - {ts}) \<le> PER_KEY_QUOTA" if "bt_get keys who = Some k" for k
    using ok that card_Diff1_le [of "ks_seen k" ts] unfolding keys_ok_def by (meson le_trans)
  ultimately show ?thesis
    using ok by (auto simp: keys_ok_def forget_stamp_get split: if_splits bind_splits)
qed

lemma seen_in_forget:
  "seen_in (forget_stamp who ts keys) w = seen_in keys w - (if w = who then {ts} else {})"
  by (auto simp: seen_in_def forget_stamp_get split: option.splits bind_splits)

definition bucket_of :: "(address, key_state) btree \<Rightarrow> address \<Rightarrow> (u64 \<times> u64) option" where
  "bucket_of keys who = map_option (\<lambda>k. (ks_tokens k, ks_last_refill k)) (bt_get keys who)"

lemma bucket_of_forget:
  "bucket_of (forget_stamp who ts keys) w \<in> {None, bucket_of keys w}"
  by (auto simp: bucket_of_def forget_stamp_get split: bind_splits)

lemma prune_loop_ok:
  "sorted_wrt (<) index \<Longrightarrow> index_agrees index keys \<Longrightarrow> keys_ok keys \<Longrightarrow>
   prune_loop cutoff index keys = (index', keys') \<Longrightarrow>
   sorted_wrt (<) index' \<and> index_agrees index' keys' \<and> keys_ok keys' \<and>
   set index' = {e \<in> set index. cutoff \<le> fst e} \<and>
   (\<forall>w. bucket_of keys' w \<in> {None, bucket_of keys w})"
proof (induction cutoff index keys rule: prune_loop.induct)
  case (2 cutoff ts who index keys)
  show ?case
  proof (cases "cutoff \<le> ts")
    case True
    have "cutoff \<le> fst e" if "e \<in> set index" for e
      using that "2.prems"(1) True by (cases e) (auto simp: less_prod_def)
    with 2 True show ?thesis by auto
  next
    case False
    have rest: "sorted_wrt (<) index" using "2.prems"(1) by simp
    have "(ts, who) \<notin> set index" using "2.prems"(1) by auto
    then have agrees: "index_agrees index (forget_stamp who ts keys)"
      using "2.prems"(2) unfolding index_agrees_def seen_in_forget by auto
    note IH = "2.IH" [OF False rest agrees forget_stamp_ok [OF "2.prems"(3)]]
    have "bucket_of keys' w \<in> {None, bucket_of keys w}" for w
      using IH "2.prems"(4) False bucket_of_forget [of who ts keys w] by auto
    with IH "2.prems"(4) False show ?thesis by auto
  qed
qed auto

lemma prune_ok:
  assumes "admission_ok a"
  shows "admission_ok (prune now a)"
    and "set (ad_index (prune now a)) = {e \<in> set (ad_index a). sat_sub now WINDOW_PAST_NANOS \<le> fst e}"
    and "seen_in (ad_per_key (prune now a)) who =
           {ts \<in> seen_in (ad_per_key a) who. sat_sub now WINDOW_PAST_NANOS \<le> ts}"
    and "bucket_of (ad_per_key (prune now a)) who \<in> {None, bucket_of (ad_per_key a) who}"
proof -
  obtain index' keys' where l:
    "prune_loop (sat_sub now WINDOW_PAST_NANOS) (ad_index a) (ad_per_key a) = (index', keys')"
    by fastforce
  note loop = prune_loop_ok [OF _ _ _ l]
  have "sorted_wrt (<) (ad_index a)" "index_agrees (ad_index a) (ad_per_key a)" "keys_ok (ad_per_key a)"
    using assms by (simp_all add: admission_ok_def)
  note facts = loop [OF this]
  then show "admission_ok (prune now a)"
    and i: "set (ad_index (prune now a)) = {e \<in> set (ad_index a). sat_sub now WINDOW_PAST_NANOS \<le> fst e}"
    and "bucket_of (ad_per_key (prune now a)) who \<in> {None, bucket_of (ad_per_key a) who}"
    by (simp_all add: prune_def l admission_ok_def)
  have "index_agrees (ad_index (prune now a)) (ad_per_key (prune now a))"
    using facts by (simp add: prune_def l)
  then show "seen_in (ad_per_key (prune now a)) who =
           {ts \<in> seen_in (ad_per_key a) who. sat_sub now WINDOW_PAST_NANOS \<le> ts}"
    using assms i by (auto simp: admission_ok_def index_agrees_def)
qed

section \<open>One request\<close>

lemma refill_keeps [simp]: "ks_seen (refill now k) = ks_seen k"
  by (simp add: refill_def Let_def)

lemma refill_bound: "ks_tokens k \<le> PER_KEY_BURST \<Longrightarrow> ks_tokens (refill now k) \<le> PER_KEY_BURST"
  by (simp add: refill_def Let_def)

lemma sorted_insort_insert: "sorted_wrt (<) xs \<Longrightarrow> sorted_wrt (<) (insort_insert x xs)"
  by (simp add: strict_sorted_iff distinct_insort_insert sorted_insort_insert)

text \<open>What one call does: a refusal only settles the key's bucket; an admission records the stamp.\<close>

lemma admit_cases:
  assumes ok: "admission_ok a"
  obtains (refused) r where "fst (admit who ts now a) = Inl r"
      "seen_in (ad_per_key (snd (admit who ts now a))) = seen_in (ad_per_key (prune now a))"
      "ad_index (snd (admit who ts now a)) = ad_index (prune now a)"
      "admission_ok (snd (admit who ts now a))"
      "r = Replay \<longleftrightarrow> ts \<in> seen_in (ad_per_key (prune now a)) who"
  | (admitted) "fst (admit who ts now a) = Inr ()" "ts \<notin> seen_in (ad_per_key (prune now a)) who"
      "seen_in (ad_per_key (snd (admit who ts now a))) =
         (seen_in (ad_per_key (prune now a))) (who := insert ts (seen_in (ad_per_key (prune now a)) who))"
      "admission_ok (snd (admit who ts now a))"
proof -
  define a1 where "a1 = prune now a"
  define k where "k = (case bt_get (ad_per_key a1) who of Some k \<Rightarrow> k
    | None \<Rightarrow> \<lparr>ks_seen = {}, ks_tokens = PER_KEY_BURST, ks_last_refill = now\<rparr>)"
  define k1 where "k1 = refill now k"
  have ok1: "admission_ok a1" by (simp add: a1_def prune_ok [OF ok])
  then have sorted: "sorted_wrt (<) (ad_index a1)" and agrees: "index_agrees (ad_index a1) (ad_per_key a1)"
    and keys: "keys_ok (ad_per_key a1)"
    by (simp_all add: admission_ok_def)
  have seen: "ks_seen k = seen_in (ad_per_key a1) who"
    by (simp add: k_def seen_in_def split: option.splits)
  have fin: "finite (ks_seen k)" "ks_tokens k \<le> PER_KEY_BURST" "card (ks_seen k) \<le> PER_KEY_QUOTA"
    using keys by (auto simp: k_def keys_ok_def PER_KEY_QUOTA_def split: option.splits)
  let ?put = "\<lambda>k. a1\<lparr>ad_per_key := bt_insert who k (ad_per_key a1)\<rparr>"
  have put_seen: "seen_in (ad_per_key (?put q)) = (seen_in (ad_per_key a1)) (who := ks_seen q)" for q
    by (auto simp: seen_in_def fun_eq_iff)
  have put_ok: "admission_ok (?put q)"
    if "ks_seen q = ks_seen k" "ks_tokens q \<le> PER_KEY_BURST" "ks_seen k \<noteq> {}" for q
    using that sorted agrees keys fin put_seen [of q]
    by (auto simp: admission_ok_def index_agrees_def keys_ok_def seen)
  show ?thesis
  proof (cases "ts \<in> ks_seen k")
    case True
    then have e: "admit who ts now a = (Inl Replay, ?put k)"
      by (simp add: admit_def Let_def flip: a1_def k_def)
    show ?thesis
      by (rule refused) (use e True put_ok [of k] put_seen [of k] fin seen in
          \<open>auto simp: a1_def [symmetric]\<close>)
  next
    case False
    show ?thesis
    proof (cases "ks_tokens k1 = 0 \<or> card (ks_seen k1) \<ge> PER_KEY_QUOTA")
      case True
      then have "ks_seen k \<noteq> {}"
        using keys by (auto simp: k1_def k_def keys_ok_def refill_def sat_sub_def Let_def
            PER_KEY_BURST_def PER_KEY_QUOTA_def split: option.splits)
      moreover have "\<exists>r. admit who ts now a = (Inl r, ?put k1) \<and> r \<noteq> Replay"
        using True False
        by (cases "ks_tokens k1 = 0") (simp_all add: admit_def Let_def flip: a1_def k_def k1_def)
      then obtain r where e: "admit who ts now a = (Inl r, ?put k1)" and "r \<noteq> Replay" by blast
      ultimately show ?thesis
        by (intro refused [of r]) (use False put_ok [of k1] put_seen [of k1] fin seen in
            \<open>auto simp: a1_def [symmetric] k1_def refill_bound\<close>)
    next
      case room: False
      let ?k2 = "k1\<lparr>ks_tokens := ks_tokens k1 - 1, ks_seen := insert ts (ks_seen k1)\<rparr>"
      let ?a2 = "(?put ?k2)\<lparr>ad_index := insort_insert (ts, who) (ad_index a1)\<rparr>"
      have e: "admit who ts now a = (Inr (), ?a2)"
        using room False by (auto simp: admit_def Let_def simp flip: a1_def k_def k1_def)
      have k1: "ks_seen k1 = ks_seen k" "ks_tokens k1 \<le> PER_KEY_BURST"
        using fin by (simp_all add: k1_def refill_bound)
      have "ks_tokens k1 - 1 \<le> PER_KEY_BURST"
        using room k1(2) by (simp add: word_le_nat_alt unat_minus_one) 
      moreover have "card (insert ts (ks_seen k1)) \<le> PER_KEY_QUOTA"
        using room fin(1) False by (simp add: k1)
      ultimately have "keys_ok (ad_per_key ?a2)"
        using keys fin(1) by (auto simp: keys_ok_def k1)
      moreover have "index_agrees (ad_index ?a2) (ad_per_key ?a2)"
        using agrees put_seen [of ?k2] unfolding index_agrees_def
        by (auto simp: set_insort_insert k1 seen)
      ultimately have "admission_ok ?a2"
        using sorted by (simp add: admission_ok_def sorted_insort_insert)
      then show ?thesis
        using e False put_seen [of ?k2] seen
        by (intro admitted) (simp_all add: a1_def [symmetric] k1)
    qed
  qed
qed

section \<open>Sequences of requests\<close>

text \<open>A request is the signer, its time stamp and the clock when it is admitted.\<close>

fun admit_run :: "(address \<times> u64 \<times> u64) list \<Rightarrow> admission \<Rightarrow> (refused + unit) list \<times> admission" where
  "admit_run [] a = ([], a)"
| "admit_run ((who, ts, now) # reqs) a =
     (let (r, a1) = admit who ts now a; (rs, a2) = admit_run reqs a1 in (r # rs, a2))"

lemma admit_ok: "admission_ok a \<Longrightarrow> admission_ok (snd (admit who ts now a))"
  by (rule admit_cases [of a who ts now]) simp_all

lemma admit_run_ok: "admission_ok a \<Longrightarrow> admission_ok (snd (admit_run reqs a))"
proof (induction reqs arbitrary: a)
  case (Cons q reqs)
  then show ?case
    using admit_ok [of a "fst q"] by (cases q) (simp add: Let_def case_prod_unfold)
qed simp

text \<open>A stamp inside the window of every clock reading is never forgotten.\<close>

lemma admit_remembers:
  assumes "admission_ok a" and "t \<in> seen_in (ad_per_key a) w" and "sat_sub now WINDOW_PAST_NANOS \<le> t"
  shows "t \<in> seen_in (ad_per_key (snd (admit who ts now a))) w"
proof -
  have "t \<in> seen_in (ad_per_key (prune now a)) w" using assms by (simp add: prune_ok(3))
  then show ?thesis
    by (cases rule: admit_cases [OF assms(1), of who ts now]) auto
qed

lemma admit_run_remembers:
  "admission_ok a \<Longrightarrow> t \<in> seen_in (ad_per_key a) w \<Longrightarrow>
   \<forall>(who, ts, now) \<in> set reqs. sat_sub now WINDOW_PAST_NANOS \<le> t \<Longrightarrow>
   t \<in> seen_in (ad_per_key (snd (admit_run reqs a))) w"
proof (induction reqs arbitrary: a)
  case (Cons q reqs)
  then show ?case
    using admit_ok [of a "fst q"] admit_remembers [of a t w]
    by (cases q) (simp add: Let_def case_prod_unfold)
qed simp

lemma sat_sub_mono1: "a \<le> b \<Longrightarrow> sat_sub a c \<le> sat_sub b c"
  by (simp add: word_le_nat_alt unat_sat)

section \<open>Properties\<close>

text \<open>No replay.  Once a request has been admitted, the same signer and time stamp are refused as
  a replay for as long as the stamp is fresh, whatever other requests come in between, as long as
  the clock has not been ahead of its present reading.\<close>

theorem replay_refused:
  assumes "admission_ok a" and "fst (admit who ts now a) = Inr ()"
    and "\<forall>(w, t, n) \<in> set reqs. n \<le> now'" and "sat_sub now' ts \<le> LEASE_FRESHNESS_NANOS"
  shows "fst (admit who ts now' (snd (admit_run reqs (snd (admit who ts now a))))) = Inl Replay"
proof -
  let ?a1 = "snd (admit who ts now a)"
  let ?a2 = "snd (admit_run reqs ?a1)"
  have window: "sat_sub now' WINDOW_PAST_NANOS \<le> ts"
    using assms(4) by (simp add: word_le_nat_alt unat_sat WINDOW_PAST_NANOS_def)
  have ok1: "admission_ok ?a1" by (rule admit_ok [OF assms(1)])
  have "ts \<in> seen_in (ad_per_key ?a1) who"
  proof (cases rule: admit_cases [OF assms(1), of who ts now, case_names refused admitted])
    case (refused r)
    with assms(2) show ?thesis by simp
  next
    case admitted
    show ?thesis unfolding admitted(3) by simp
  qed
  moreover have "sat_sub n WINDOW_PAST_NANOS \<le> ts" if "(w, t, n) \<in> set reqs" for w t n
  proof -
    have "n \<le> now'" using assms(3) that by blast
    from order_trans [OF sat_sub_mono1 [OF this] window] show ?thesis .
  qed
  then have "\<forall>(w, t, n) \<in> set reqs. sat_sub n WINDOW_PAST_NANOS \<le> ts" by blast
  ultimately have "ts \<in> seen_in (ad_per_key ?a2) who" by (rule admit_run_remembers [OF ok1])
  then have "ts \<in> seen_in (ad_per_key (prune now' ?a2)) who"
    using window by (simp add: prune_ok(3) [OF admit_run_ok [OF ok1]])
  then show ?thesis
    by (cases rule: admit_cases [OF admit_run_ok [OF ok1], of who ts now']) auto
qed

lemma admit_first: "fst (admit who ts now new_admission) = Inr ()"
  by (simp add: admit_def new_admission_def prune_def refill_def sat_sub_def Let_def PER_KEY_BURST_def
      PER_KEY_QUOTA_def)

theorem replay_refused_witness:
  "fst (admit 1 100 130 (snd (admit_run [(2, 100, 120), (1, 101, 125)]
     (snd (admit 1 100 110 new_admission))))) = Inl Replay"
  by (rule replay_refused [OF new_admission_ok admit_first])
    (simp_all add: sat_sub_def LEASE_FRESHNESS_NANOS_def)

text \<open>Bounded memory.  After any sequence of requests the index lists exactly the stamps
  remembered for the keys, and no key has more than its quota remembered.\<close>

theorem admission_bounded:
  "(\<forall>ts who. (ts, who) \<in> set (ad_index (snd (admit_run reqs new_admission))) \<longleftrightarrow>
      ts \<in> seen_in (ad_per_key (snd (admit_run reqs new_admission))) who) \<and>
   card (seen_in (ad_per_key (snd (admit_run reqs new_admission))) who) \<le> 160"
proof -
  have ok: "admission_ok (snd (admit_run reqs new_admission))"
    by (rule admit_run_ok [OF new_admission_ok])
  then have "card (seen_in (ad_per_key (snd (admit_run reqs new_admission))) who) \<le> 160"
    by (auto simp: admission_ok_def keys_ok_def seen_in_def PER_KEY_QUOTA_def split: option.splits)
  with ok show ?thesis by (simp add: admission_ok_def index_agrees_def)
qed

lemma admit_unremembered:
  assumes "admission_ok a"
    and "\<And>t. t \<in> seen_in (ad_per_key a) who \<Longrightarrow> t < sat_sub now WINDOW_PAST_NANOS"
  shows "fst (admit who ts now a) = Inr ()"
    and "seen_in (ad_per_key (snd (admit who ts now a))) who = {ts}"
proof -
  have empty: "seen_in (ad_per_key (prune now a)) who = {}"
    using assms(2) by (auto simp: prune_ok(3) [OF assms(1)] not_le [symmetric])
  have "keys_ok (ad_per_key (prune now a))"
    using prune_ok(1) [OF assms(1)] by (simp add: admission_ok_def)
  then have "bt_get (ad_per_key (prune now a)) who = None"
    using empty by (auto simp: keys_ok_def seen_in_def split: option.splits)
  then show r: "fst (admit who ts now a) = Inr ()"
    by (simp add: admit_def refill_def sat_sub_def Let_def PER_KEY_BURST_def PER_KEY_QUOTA_def)
  show "seen_in (ad_per_key (snd (admit who ts now a))) who = {ts}"
    using r empty by (cases rule: admit_cases [OF assms(1), of who ts now]) auto
qed

text \<open>The per-key rate limit does not bind a signer that dates its requests at the far edge of
  the freshness window: pruning forgets the stamp, and the key's bucket with it, before the next
  request.  However many such requests arrive, one per nanosecond, every one is admitted.\<close>

theorem edge_dated_requests_are_never_limited:
  assumes "sorted_wrt (<) clocks" and "\<forall>n \<in> set clocks. WINDOW_PAST_NANOS \<le> n"
  shows "fst (admit_run (map (\<lambda>n. (who, n - WINDOW_PAST_NANOS, n)) clocks) new_admission) =
           replicate (length clocks) (Inr ())"
proof -
  have "fst (admit_run (map (\<lambda>n. (who, n - WINDOW_PAST_NANOS, n)) clocks) a) =
          replicate (length clocks) (Inr ())"
    if "admission_ok a" and "sorted_wrt (<) clocks" and "\<forall>n \<in> set clocks. WINDOW_PAST_NANOS \<le> n"
      and "\<forall>t \<in> seen_in (ad_per_key a) who. \<forall>n \<in> set clocks. t < n - WINDOW_PAST_NANOS" for a clocks
    using that
  proof (induction clocks arbitrary: a)
    case (Cons n clocks)
    let ?ts = "n - WINDOW_PAST_NANOS"
    have cut: "sat_sub n WINDOW_PAST_NANOS = ?ts" using Cons.prems(3) by (simp add: sat_sub_def)
    have old: "t < sat_sub n WINDOW_PAST_NANOS" if "t \<in> seen_in (ad_per_key a) who" for t
      using Cons.prems(4) that by (simp add: cut)
    note step = admit_unremembered [where who = who and ts = ?ts, OF Cons.prems(1) old]
    have later: "?ts < m - WINDOW_PAST_NANOS" if "m \<in> set clocks" for m
    proof -
      have "n < m" and "WINDOW_PAST_NANOS \<le> n" and "WINDOW_PAST_NANOS \<le> m"
        using Cons.prems(2,3) that by auto
      then show ?thesis by (simp add: word_less_nat_alt word_le_nat_alt unat_sub)
    qed
    have "fst (admit_run (map (\<lambda>n. (who, n - WINDOW_PAST_NANOS, n)) clocks) (snd (admit who ?ts n a))) =
            replicate (length clocks) (Inr ())"
      by (rule Cons.IH [OF admit_ok [OF Cons.prems(1)]]) (use Cons.prems(2,3) step(2) later in auto)
    with step(1) show ?case by (simp add: Let_def case_prod_unfold)
  qed simp
  from this [OF new_admission_ok assms] show ?thesis
    by (simp add: new_admission_def seen_in_def)
qed

theorem edge_dated_requests_are_never_limited_witness:
  "fst (admit_run (map (\<lambda>n. (1, n - WINDOW_PAST_NANOS, n))
      [200000000001, 200000000002, 200000000003, 200000000004, 200000000005, 200000000006,
       200000000007, 200000000008, 200000000009, 200000000010, 200000000011, 200000000012])
      new_admission) =
   replicate (length
      [200000000001 :: u64, 200000000002, 200000000003, 200000000004, 200000000005, 200000000006,
       200000000007, 200000000008, 200000000009, 200000000010, 200000000011, 200000000012]) (Inr ())"
  by (rule edge_dated_requests_are_never_limited)
    (simp_all add: WINDOW_PAST_NANOS_def LEASE_FRESHNESS_NANOS_def)

end
