(* ===== verification/Fl_Tree.thy ===== *)
theory Fl_Tree
  imports Prelude
begin

text \<open>
  The positional Merkle tree of a federated round,
  \<^verbatim>\<open>training-worker/src/fl/tree.rs\<close>, with \<^verbatim>\<open>keccak\<close> of \<^verbatim>\<open>fl/mod.rs\<close>.  The hash
  function is the parameter \<open>K\<close>.

  The completeness lemma says that the path the prover builds is accepted; the soundness lemma
  that an accepted path can only be for the payload at its own index, of exactly the tree's
  height, as long as \<open>K\<close> neither collides nor yields the padding word on the finitely many
  preimages at hand (\<open>tree_pres\<close>, \<open>path_pres\<close> and the leaves).
\<close>

definition fl_keccak :: "(bytes \<Rightarrow> b256) \<Rightarrow> bytes list \<Rightarrow> b256" where
  "fl_keccak K parts = K (concat parts)"

definition LEAF_TAG :: bytes where "LEAF_TAG = [0]"
definition NODE_TAG :: bytes where "NODE_TAG = [1]"

definition MAX_LEAVES :: nat where "MAX_LEAVES = 2 ^ 31"

datatype tree_error =
    TreeEmpty
  | TreeTooMany nat
  | TreeIndex nat nat

definition leaf_pre :: "u32 \<Rightarrow> b256 \<Rightarrow> bytes" where
  "leaf_pre i p = LEAF_TAG @ to_be_bytes i @ to_be_bytes p"

definition node_pre :: "b256 \<Rightarrow> b256 \<Rightarrow> bytes" where
  "node_pre l r = NODE_TAG @ to_be_bytes l @ to_be_bytes r"

definition leaf :: "(bytes \<Rightarrow> b256) \<Rightarrow> u32 \<Rightarrow> b256 \<Rightarrow> b256" where
  "leaf K i p = fl_keccak K [LEAF_TAG, to_be_bytes i, to_be_bytes p]"

definition node :: "(bytes \<Rightarrow> b256) \<Rightarrow> b256 \<Rightarrow> b256 \<Rightarrow> b256" where
  "node K l r = fl_keccak K [NODE_TAG, to_be_bytes l, to_be_bytes r]"

text \<open>\<^verbatim>\<open>usize::next_power_of_two\<close>.\<close>

fun next_power_of_two :: "nat \<Rightarrow> nat" where
  "next_power_of_two n = (if n \<le> 1 then 1 else 2 * next_power_of_two ((n + 1) div 2))"

declare next_power_of_two.simps [simp del]

definition leaves :: "(bytes \<Rightarrow> b256) \<Rightarrow> b256 list \<Rightarrow> tree_error + b256 list" where
  "leaves K payloads =
     (if payloads = [] then Inl TreeEmpty
      else if length payloads > MAX_LEAVES then Inl (TreeTooMany (length payloads))
      else
        let width = next_power_of_two (length payloads);
            level = map (\<lambda>(i, p). leaf K (of_nat i) p) (enumerate 0 payloads)
        in Inr (level @ replicate (width - length level) 0))"

text \<open>One level of the loop: \<^verbatim>\<open>as_chunks::<2>()\<close>, each pair hashed.\<close>

fun pair_nodes :: "(bytes \<Rightarrow> b256) \<Rightarrow> b256 list \<Rightarrow> b256 list" where
  "pair_nodes K (l # r # rest) = node K l r # pair_nodes K rest"
| "pair_nodes K _ = []"

lemma length_pair_nodes [simp]: "length (pair_nodes K xs) = length xs div 2"
  by (induction K xs rule: pair_nodes.induct) auto

function root_loop :: "(bytes \<Rightarrow> b256) \<Rightarrow> b256 list \<Rightarrow> b256" where
  "root_loop K level = (if length level > 1 then root_loop K (pair_nodes K level) else level ! 0)"
  by auto
termination by (relation "measure (\<lambda>(K, level). length level)") auto

function proof_loop :: "(bytes \<Rightarrow> b256) \<Rightarrow> b256 list \<Rightarrow> nat \<Rightarrow> b256 list" where
  "proof_loop K level i =
     (if length level > 1
      then (level ! (if even i then i + 1 else i - 1)) # proof_loop K (pair_nodes K level) (i div 2)
      else [])"
  by auto
termination by (relation "measure (\<lambda>(K, level, i). length level)") auto

declare root_loop.simps [simp del] proof_loop.simps [simp del]

definition tree_root :: "(bytes \<Rightarrow> b256) \<Rightarrow> b256 list \<Rightarrow> tree_error + b256" where
  "tree_root K payloads = map_sum id (root_loop K) (leaves K payloads)"

definition tree_proof :: "(bytes \<Rightarrow> b256) \<Rightarrow> b256 list \<Rightarrow> nat \<Rightarrow> tree_error + b256 list" where
  "tree_proof K payloads index =
     (if index \<ge> length payloads then Inl (TreeIndex index (length payloads))
      else map_sum id (\<lambda>level. proof_loop K level index) (leaves K payloads))"

fun climb :: "(bytes \<Rightarrow> b256) \<Rightarrow> b256 \<Rightarrow> u32 \<Rightarrow> b256 list \<Rightarrow> b256" where
  "climb K h i [] = h"
| "climb K h i (sib # path) =
     climb K (if and i 1 = 0 then node K h sib else node K sib h) (drop_bit (Suc 0) i) path"

definition tree_verify :: "(bytes \<Rightarrow> b256) \<Rightarrow> b256 \<Rightarrow> u32 \<Rightarrow> b256 \<Rightarrow> b256 list \<Rightarrow> bool" where
  "tree_verify K r index payload path \<longleftrightarrow> climb K (leaf K index payload) index path = r"

section \<open>Shape\<close>

lemma leaf_eq: "leaf K i p = K (leaf_pre i p)"
  by (simp add: leaf_def leaf_pre_def fl_keccak_def)

lemma node_eq: "node K l r = K (node_pre l r)"
  by (simp add: node_def node_pre_def fl_keccak_def)

lemma leaf_pre_inject [simp]: "leaf_pre i p = leaf_pre j q \<longleftrightarrow> i = j \<and> p = q"
  by (simp add: leaf_pre_def append_eq_append_conv)

lemma node_pre_inject [simp]: "node_pre l r = node_pre l' r' \<longleftrightarrow> l = l' \<and> r = r'"
  by (simp add: node_pre_def append_eq_append_conv)

lemma leaf_pre_node_pre [simp]: "leaf_pre i p \<noteq> node_pre l r" "node_pre l r \<noteq> leaf_pre i p"
  by (simp_all add: leaf_pre_def node_pre_def LEAF_TAG_def NODE_TAG_def)

lemma next_power_of_two_ge: "n \<le> next_power_of_two n"
proof (induction n rule: next_power_of_two.induct)
  case (1 n)
  show ?case
  proof (cases "n \<le> 1")
    case True
    then show ?thesis by (simp add: next_power_of_two.simps)
  next
    case False
    then have "(n + 1) div 2 \<le> next_power_of_two ((n + 1) div 2)" using 1 by blast
    then show ?thesis using False by (subst next_power_of_two.simps) simp
  qed
qed

text \<open>The height of the padded tree.\<close>

fun tree_height :: "nat \<Rightarrow> nat" where
  "tree_height n = (if n \<le> 1 then 0 else Suc (tree_height ((n + 1) div 2)))"

declare tree_height.simps [simp del]

lemma next_power_of_two_height: "next_power_of_two n = 2 ^ tree_height n"
proof (induction n rule: tree_height.induct)
  case (1 n)
  then show ?case
    by (subst next_power_of_two.simps, subst tree_height.simps) simp
qed

lemma leaves_Inr:
  assumes "leaves K ps = Inr level"
  shows "length level = 2 ^ tree_height (length ps)" and "0 < length ps"
    and "length ps \<le> 2 ^ tree_height (length ps)" and "length ps \<le> 2 ^ 31"
    and "j < length ps \<Longrightarrow> level ! j = leaf K (of_nat j) (ps ! j)"
    and "length ps \<le> j \<Longrightarrow> j < 2 ^ tree_height (length ps) \<Longrightarrow> level ! j = 0"
proof -
  have level: "level = map (\<lambda>(i, p). leaf K (of_nat i) p) (enumerate 0 ps)
                       @ replicate (2 ^ tree_height (length ps) - length ps) 0"
    and "ps \<noteq> []" and len: "length ps \<le> MAX_LEAVES"
    using assms by (auto simp: leaves_def Let_def next_power_of_two_height split: if_splits)
  have le: "length ps \<le> 2 ^ tree_height (length ps)"
    using next_power_of_two_ge [of "length ps"] by (simp add: next_power_of_two_height)
  show "length level = 2 ^ tree_height (length ps)" and "0 < length ps"
    and "length ps \<le> 2 ^ tree_height (length ps)" and "length ps \<le> 2 ^ 31"
    and "j < length ps \<Longrightarrow> level ! j = leaf K (of_nat j) (ps ! j)"
    and "length ps \<le> j \<Longrightarrow> j < 2 ^ tree_height (length ps) \<Longrightarrow> level ! j = 0"
    using \<open>ps \<noteq> []\<close> le len by (auto simp: level nth_append nth_enumerate_eq MAX_LEAVES_def)
qed

section \<open>Completeness\<close>

lemma pair_nodes_append:
  "even (length xs) \<Longrightarrow> pair_nodes K (xs @ ys) = pair_nodes K xs @ pair_nodes K ys"
  by (induction K xs rule: pair_nodes.induct) auto

lemma pair_nodes_nth:
  "j < length xs div 2 \<Longrightarrow> pair_nodes K xs ! j = node K (xs ! (2 * j)) (xs ! (2 * j + 1))"
proof (induction K xs arbitrary: j rule: pair_nodes.induct)
  case (1 K l r rest)
  then show ?case by (cases j) auto
qed auto

lemma root_loop_single [simp]: "root_loop K [x] = x"
  by (simp add: root_loop.simps)

lemma root_loop_step: "1 < length xs \<Longrightarrow> root_loop K xs = root_loop K (pair_nodes K xs)"
  by (subst root_loop.simps) simp

lemma root_loop_append:
  "length xs = 2 ^ h \<Longrightarrow> length ys = 2 ^ h \<Longrightarrow>
   root_loop K (xs @ ys) = node K (root_loop K xs) (root_loop K ys)"
proof (induction h arbitrary: xs ys)
  case 0
  then obtain x y where "xs = [x]" and "ys = [y]" by (auto simp: length_Suc_conv)
  then show ?case by (simp add: root_loop.simps [of K "[x, y]"])
next
  case (Suc h)
  then have "1 < length xs" and "1 < length ys" and "1 < length (xs @ ys)"
    by simp_all
  then have "root_loop K (xs @ ys) = root_loop K (pair_nodes K xs @ pair_nodes K ys)"
    using Suc.prems by (simp add: root_loop_step pair_nodes_append)
  also have "\<dots> = node K (root_loop K (pair_nodes K xs)) (root_loop K (pair_nodes K ys))"
    using Suc by simp
  finally show ?case
    using \<open>1 < length xs\<close> \<open>1 < length ys\<close> by (simp add: root_loop_step)
qed

lemma climb_proof_loop:
  "length level = 2 ^ h \<Longrightarrow> unat i < 2 ^ h \<Longrightarrow>
   climb K (level ! unat i) i (proof_loop K level (unat i)) = root_loop K level"
proof (induction h arbitrary: level i)
  case 0
  then obtain x where "level = [x]" by (auto simp: length_Suc_conv)
  with 0 show ?case by (simp add: proof_loop.simps)
next
  case (Suc h)
  have len: "1 < length level" using Suc.prems by simp
  have half: "unat i div 2 < 2 ^ h" using Suc.prems by simp
  have i2: "unat (drop_bit (Suc 0) i) = unat i div 2" by simp
  let ?sib = "level ! (if even (unat i) then unat i + 1 else unat i - 1)"
  have up: "(if and i 1 = 0 then node K (level ! unat i) ?sib else node K ?sib (level ! unat i))
            = pair_nodes K level ! (unat i div 2)"
    using half Suc.prems by (auto simp: pair_nodes_nth and_one_even elim!: oddE)
  have "climb K (level ! unat i) i (proof_loop K level (unat i))
        = climb K (pair_nodes K level ! (unat i div 2)) (drop_bit (Suc 0) i)
            (proof_loop K (pair_nodes K level) (unat i div 2))"
    using len by (subst proof_loop.simps) (simp add: up [symmetric])
  also have "\<dots> = root_loop K (pair_nodes K level)"
    using Suc.IH [of "pair_nodes K level" "drop_bit (Suc 0) i"] Suc.prems half by (simp add: i2)
  finally show ?case using len by (simp add: root_loop_step)
qed

lemma tree_proof_verifies:
  assumes "tree_root K ps = Inr r" and "tree_proof K ps j = Inr path"
  shows "tree_verify K r (of_nat j) (ps ! j) path"
proof -
  from assms(1) obtain level where level: "leaves K ps = Inr level" and r: "r = root_loop K level"
    by (auto simp: tree_root_def map_sum_def split: sum.splits)
  from assms(2) level have j: "j < length ps" and path: "path = proof_loop K level j"
    by (auto simp: tree_proof_def split: if_splits)
  note facts = leaves_Inr [OF level]
  have u: "unat (of_nat j :: u32) = j"
    using j facts(4) by (intro unat_of_nat_small) simp
  show ?thesis
    using climb_proof_loop [of level "tree_height (length ps)" "of_nat j" K] facts(1,3) j
    by (simp add: tree_verify_def r path u facts(5))
qed

lemma length_proof_loop: "length level = 2 ^ h \<Longrightarrow> length (proof_loop K level i) = h"
proof (induction h arbitrary: level i)
  case 0
  then show ?case by (simp add: proof_loop.simps)
next
  case (Suc h)
  then have "1 < length level" by simp
  with Suc show ?case by (subst proof_loop.simps) simp
qed

section \<open>Soundness\<close>

text \<open>The node preimages hashed while the root of \<open>2 ^ h\<close> leaves is built, and while a path is
  climbed.\<close>

fun tree_pres :: "(bytes \<Rightarrow> b256) \<Rightarrow> nat \<Rightarrow> b256 list \<Rightarrow> bytes list" where
  "tree_pres K 0 level = []"
| "tree_pres K (Suc h) level =
     node_pre (root_loop K (take (2 ^ h) level)) (root_loop K (drop (2 ^ h) level))
     # tree_pres K h (take (2 ^ h) level) @ tree_pres K h (drop (2 ^ h) level)"

fun path_pres :: "(bytes \<Rightarrow> b256) \<Rightarrow> b256 \<Rightarrow> u32 \<Rightarrow> b256 list \<Rightarrow> bytes list" where
  "path_pres K h i [] = []"
| "path_pres K h i (sib # path) =
     (let pre = (if and i 1 = 0 then node_pre h sib else node_pre sib h)
      in pre # path_pres K (K pre) (drop_bit (Suc 0) i) path)"

lemma climb_snoc:
  "climb K h i (path @ [sib]) =
     (if bit i (length path) then node K sib (climb K h i path) else node K (climb K h i path) sib)"
proof (induction path arbitrary: h i)
  case (Cons a path)
  show ?case by (simp add: Cons bit_drop_bit_eq)
qed (simp add: and_one_eq bit_0 even_iff_mod_2_eq_zero odd_iff_mod_2_eq_one)

lemma path_pres_snoc:
  "set (path_pres K h i (path @ [sib])) = insert
     (if bit i (length path) then node_pre sib (climb K h i path)
      else node_pre (climb K h i path) sib) (set (path_pres K h i path))"
proof (induction path arbitrary: h i)
  case (Cons a path)
  show ?case by (auto simp: Cons bit_drop_bit_eq Let_def node_eq)
qed (simp add: and_one_eq bit_0 even_iff_mod_2_eq_zero odd_iff_mod_2_eq_one Let_def)

lemma root_loop_halves:
  "length level = 2 ^ Suc h \<Longrightarrow>
   root_loop K level = K (node_pre (root_loop K (take (2 ^ h) level)) (root_loop K (drop (2 ^ h) level)))"
  using root_loop_append [of "take (2 ^ h) level" h "drop (2 ^ h) level" K]
  by (simp add: node_eq)

lemma mod_power_Suc:
  "unat i mod 2 ^ Suc h = (if bit i h then 2 ^ h else 0) + unat i mod 2 ^ h"
  for i :: "'a::len word"
proof -
  have "unat i mod 2 ^ Suc h = take_bit (Suc h) (unat i)" by (simp add: take_bit_eq_mod)
  also have "\<dots> = (if bit (unat i) h then 2 ^ h else 0) + take_bit h (unat i)"
    by (simp add: take_bit_Suc_from_most)
  also have "bit (unat i) h \<longleftrightarrow> bit i h"
    using bit_imp_le_length [of i h] by (auto simp: bit_unsigned_iff)
  finally show ?thesis by (simp add: take_bit_eq_mod)
qed

lemma climb_root_position:
  assumes "collision_free K A"
    and "leaf_pre index payload \<in> A" and "h0 = K (leaf_pre index payload)"
  shows "length level = 2 ^ h \<Longrightarrow> (\<And>x. x \<in> set level \<Longrightarrow> x = 0 \<or> (\<exists>i p. x = K (leaf_pre i p) \<and> leaf_pre i p \<in> A))
    \<Longrightarrow> set (tree_pres K h level) \<subseteq> A \<Longrightarrow> set (path_pres K h0 index path) \<subseteq> A
    \<Longrightarrow> climb K h0 index path = root_loop K level
    \<Longrightarrow> length path = h \<and> level ! (unat index mod 2 ^ h) = h0"
proof (induction path arbitrary: level h rule: rev_induct)
  case Nil
  show ?case
  proof (cases h)
    case 0
    with Nil show ?thesis by (auto simp: length_Suc_conv)
  next
    case (Suc h')
    let ?n = "node_pre (root_loop K (take (2 ^ h') level)) (root_loop K (drop (2 ^ h') level))"
    have "?n \<in> A" using Nil.prems(3) Suc by simp
    moreover have "K ?n = K (leaf_pre index payload)"
      using Nil.prems(1,5) Suc root_loop_halves [of level h' K] by (simp only: climb.simps assms(3))
    ultimately have "?n = leaf_pre index payload"
      using collision_free_eq [OF assms(1)] assms(2) by blast
    then show ?thesis by simp
  qed
next
  case (snoc sib path)
  let ?c = "climb K h0 index path"
  let ?pre = "if bit index (length path) then node_pre sib ?c else node_pre ?c sib"
  have pre: "?pre \<in> A" and sub: "set (path_pres K h0 index path) \<subseteq> A"
    using snoc.prems(4) by (auto simp: path_pres_snoc)
  have top: "K ?pre = root_loop K level"
    using snoc.prems(5) by (simp add: climb_snoc node_eq split: if_splits)
  show ?case
  proof (cases h)
    case 0
    with snoc.prems obtain x where level: "level = [x]" by (auto simp: length_Suc_conv)
    with top have "K ?pre = x" by simp
    have "x \<noteq> 0" using collision_free_nonzero [OF assms(1) pre] \<open>K ?pre = x\<close> by blast
    then obtain i p where "x = K (leaf_pre i p)" and "leaf_pre i p \<in> A"
      using snoc.prems(2) [of x] level by auto
    then have "?pre = leaf_pre i p"
      using collision_free_eq [OF assms(1) pre] \<open>K ?pre = x\<close> by blast
    then show ?thesis by (simp split: if_splits)
  next
    case (Suc h')
    let ?l = "take (2 ^ h') level" and ?r = "drop (2 ^ h') level"
    have "node_pre (root_loop K ?l) (root_loop K ?r) \<in> A"
      using Suc snoc.prems(3) by simp
    then have eq: "?pre = node_pre (root_loop K ?l) (root_loop K ?r)"
      using collision_free_eq [OF assms(1) pre] top root_loop_halves [of level h' K] snoc.prems(1) Suc
      by metis
    have lens: "length ?l = 2 ^ h'" "length ?r = 2 ^ h'"
      using snoc.prems(1) Suc by simp_all
    have subs: "set (tree_pres K h' ?l) \<subseteq> A" "set (tree_pres K h' ?r) \<subseteq> A"
      using snoc.prems(3) Suc by simp_all
    have sets: "set ?l \<subseteq> set level" "set ?r \<subseteq> set level"
      by (rule set_take_subset, rule set_drop_subset)
    show ?thesis
    proof (cases "bit index (length path)")
      case True
      then have "?c = root_loop K ?r" using eq by simp
      then have "length path = h' \<and> ?r ! (unat index mod 2 ^ h') = h0"
        using snoc.IH [OF lens(2) _ subs(2) sub] snoc.prems(2) sets by blast
      with True Suc lens show ?thesis
        by (simp add: mod_power_Suc snoc.prems(1) del: power_Suc)
    next
      case False
      then have "?c = root_loop K ?l" using eq by simp
      then have "length path = h' \<and> ?l ! (unat index mod 2 ^ h') = h0"
        using snoc.IH [OF lens(1) _ subs(1) sub] snoc.prems(2) sets by blast
      with False Suc lens show ?thesis
        by (simp add: mod_power_Suc del: power_Suc)
    qed
  qed
qed

definition tree_hashed :: "(bytes \<Rightarrow> b256) \<Rightarrow> b256 list \<Rightarrow> bytes set" where
  "tree_hashed K ps = set (map (\<lambda>(i, p). leaf_pre (of_nat i) p) (enumerate 0 ps)) \<union>
     (case leaves K ps of Inl _ \<Rightarrow> {} | Inr level \<Rightarrow> set (tree_pres K (tree_height (length ps)) level))"

definition proof_hashed :: "(bytes \<Rightarrow> b256) \<Rightarrow> u32 \<Rightarrow> b256 \<Rightarrow> b256 list \<Rightarrow> bytes set" where
  "proof_hashed K index payload path =
     insert (leaf_pre index payload) (set (path_pres K (leaf K index payload) index path))"

lemma tree_verify_position:
  assumes root: "tree_root K ps = Inr r" and verify: "tree_verify K r index payload path"
    and cf: "collision_free K (tree_hashed K ps \<union> proof_hashed K index payload path)"
  shows "unat index < length ps" and "ps ! unat index = payload"
    and "length path = tree_height (length ps)"
proof -
  let ?h = "tree_height (length ps)"
  let ?A = "tree_hashed K ps \<union> proof_hashed K index payload path"
  from root obtain level where level: "leaves K ps = Inr level" and r: "r = root_loop K level"
    by (auto simp: tree_root_def map_sum_def split: sum.splits)
  note facts = leaves_Inr [OF level]
  have leafA: "leaf_pre (of_nat j) (ps ! j) \<in> ?A" if "j < length ps" for j
    using that by (force simp: tree_hashed_def in_set_enumerate_eq)
  have inA: "leaf_pre index payload \<in> ?A" by (simp add: proof_hashed_def)
  have elems: "x = 0 \<or> (\<exists>i p. x = K (leaf_pre i p) \<and> leaf_pre i p \<in> ?A)" if "x \<in> set level" for x
    using that facts(1,5,6) leafA unfolding in_set_conv_nth leaf_eq by (metis not_less)
  have sub: "set (tree_pres K ?h level) \<subseteq> ?A"
    and sub': "set (path_pres K (leaf K index payload) index path) \<subseteq> ?A"
    by (auto simp: tree_hashed_def proof_hashed_def level)
  let ?j = "unat index mod 2 ^ ?h"
  have pos: "length path = ?h" "level ! ?j = K (leaf_pre index payload)"
    using climb_root_position [OF cf inA leaf_eq facts(1) elems sub sub'] verify
    by (simp_all add: tree_verify_def r leaf_eq)
  have j: "?j < length ps"
  proof (rule ccontr)
    assume "\<not> ?j < length ps"
    then have "level ! ?j = 0" using facts(6) [of ?j] by simp
    with pos(2) collision_free_nonzero [OF cf inA] show False by simp
  qed
  then have "leaf_pre (of_nat ?j) (ps ! ?j) = leaf_pre index payload"
    using facts(5) [OF j] pos(2) collision_free_eq [OF cf leafA [OF j] inA] by (simp add: leaf_eq)
  then have idx: "index = of_nat ?j" and pl: "ps ! ?j = payload" by simp_all
  have "unat index = ?j"
    using idx j facts(4) unat_of_nat_small [of ?j, where ?'a = 32] by simp
  with j pl pos show "unat index < length ps" and "ps ! unat index = payload"
    and "length path = ?h" by simp_all
qed

lemma tree_root_Inr:
  assumes "ps \<noteq> []" and "length ps \<le> MAX_LEAVES"
  obtains r where "tree_root K ps = Inr r"
  using assms by (simp add: tree_root_def leaves_def Let_def)

lemma tree_proof_Inr:
  assumes "j < length ps" and "length ps \<le> MAX_LEAVES"
  obtains path where "tree_proof K ps j = Inr path" and "length path = tree_height (length ps)"
proof -
  have "ps \<noteq> []" using assms by auto
  then obtain level where level: "leaves K ps = Inr level"
    using assms by (simp add: leaves_def Let_def)
  show ?thesis
    by (rule that) (use assms level length_proof_loop [OF leaves_Inr(1) [OF level]] in
        \<open>simp_all add: tree_proof_def\<close>)
qed

section \<open>Properties\<close>

text \<open>Completeness of the round's Merkle proofs.  Every tree of at most \<^verbatim>\<open>MAX_LEAVES\<close> payloads
  has a root, every position of it has a proof as long as the tree is high, and the verifier
  accepts that proof for that payload at that position.\<close>

theorem tree_completeness:
  assumes "j < length ps" and "length ps \<le> MAX_LEAVES"
  shows "\<exists>r path. tree_root K ps = Inr r \<and> tree_proof K ps j = Inr path \<and>
           length path = tree_height (length ps) \<and> tree_verify K r (of_nat j) (ps ! j) path"
proof -
  have "ps \<noteq> []" using assms by auto
  then obtain r where "tree_root K ps = Inr r" using tree_root_Inr assms(2) by blast
  moreover obtain path where "tree_proof K ps j = Inr path" "length path = tree_height (length ps)"
    using tree_proof_Inr assms by blast
  ultimately show ?thesis using tree_proof_verifies by blast
qed

definition example_hash :: "bytes \<Rightarrow> b256" where
  "example_hash bs =
     (if bs = leaf_pre 0 5 then 1 else if bs = leaf_pre 1 9 then 2 else 3)"

lemma example_hash_simps [simp]:
  "example_hash (leaf_pre 0 5) = 1" "example_hash (leaf_pre 1 9) = 2"
  "example_hash (node_pre l r) = 3"
  by (simp_all add: example_hash_def)

lemma example_tree:
  "leaves example_hash [5, 9] = Inr [1, 2]" "tree_height (Suc (Suc 0)) = 1" "tree_height (Suc 0) = 0"
  "root_loop example_hash [1, 2] = 3"
  by (simp_all add: leaves_def MAX_LEAVES_def next_power_of_two.simps leaf_eq tree_height.simps
      root_loop_step node_eq)

theorem tree_completeness_witness:
  "\<exists>r path. tree_root example_hash [5, 9] = Inr r \<and> tree_proof example_hash [5, 9] 1 = Inr path \<and>
     length path = tree_height (length [5, 9 :: b256]) \<and> tree_verify example_hash r 1 9 path"
  using tree_completeness [of 1 "[5, 9]" example_hash]
  by (simp add: MAX_LEAVES_def)

text \<open>C15: positional soundness.  A path the verifier accepts against the root of \<open>ps\<close> proves that
  the payload stands at exactly the claimed index of \<open>ps\<close> (an index beyond the tree, a padding
  slot, an inner node or a path of another length are all refused), as long as the hash neither
  collides nor gives the padding word on the preimages the two computations hash.\<close>

theorem tree_soundness:
  assumes "tree_root K ps = Inr r" and "tree_verify K r index payload path"
    and "collision_free K (tree_hashed K ps \<union> proof_hashed K index payload path)"
  shows "unat index < length ps \<and> ps ! unat index = payload \<and> length path = tree_height (length ps)"
  using tree_verify_position [OF assms] by simp

theorem tree_soundness_witness:
  "unat (1 :: u32) < length [5, 9 :: b256] \<and> [5, 9 :: b256] ! unat (1 :: u32) = 9 \<and>
   length [1 :: b256] = tree_height (length [5, 9 :: b256])"
proof (rule tree_soundness)
  show "tree_root example_hash [5, 9] = Inr 3"
    by (simp add: tree_root_def example_tree)
  show "tree_verify example_hash 3 1 9 [1]"
    by (simp add: tree_verify_def leaf_eq node_eq)
  show "collision_free example_hash
          (tree_hashed example_hash [5, 9] \<union> proof_hashed example_hash 1 9 [1])"
    by (simp add: collision_free_def tree_hashed_def proof_hashed_def example_tree leaf_eq
        insert_commute inj_on_def)
qed

end
