(* ===== verification/Fl_Belnap.thy ===== *)
theory Fl_Belnap
  imports Prelude
begin

text \<open>
  The wire format of the \<^verbatim>\<open>0x0110\<close> aggregation precompile as a round uses it,
  \<^verbatim>\<open>training-worker/src/fl/belnap.rs\<close>: the rules a round fixes, the input of one chunk and
  the decoded output.  An \<^verbatim>\<open>i64\<close> is a 64-bit word read by \<open>sint\<close>; a \<^verbatim>\<open>usize\<close> count is a
  natural number, cast to the width the code casts it to.

  \<open>read_input\<close> is the reader a precompile needs; \<open>read_chunk_input\<close> says that it recovers
  every field the builder wrote, so the layout is unambiguous and each row keeps its own bytes.
\<close>

definition MAX_DIM :: nat where "MAX_DIM = 1024"
definition MAX_N :: nat where "MAX_N = 1024"
definition Q16_ONE :: i64 where "Q16_ONE = push_bit 16 1"

lemma Q16_ONE_value: "Q16_ONE = 65536"
  by (simp add: Q16_ONE_def push_bit_eq_mult)

datatype confidence_rule = Nonzero
datatype weight_rule = Uniform

fun confidence_code :: "confidence_rule \<Rightarrow> u8" where
  "confidence_code Nonzero = 1"

fun confidence :: "confidence_rule \<Rightarrow> i64 \<Rightarrow> i64" where
  "confidence Nonzero value = (if value = 0 then 0 else Q16_ONE)"

fun weight_code :: "weight_rule \<Rightarrow> u8" where
  "weight_code Uniform = 1"

text \<open>\<^verbatim>\<open>Q16_ONE / n.max(1) as i64\<close> is a signed division, rounding towards zero.\<close>

definition sdiv_i64 :: "i64 \<Rightarrow> i64 \<Rightarrow> i64" where
  "sdiv_i64 a b = word_of_int (sgn (sint a) * sgn (sint b) * (\<bar>sint a\<bar> div \<bar>sint b\<bar>))"

fun weights :: "weight_rule \<Rightarrow> nat \<Rightarrow> i64 list" where
  "weights Uniform n = replicate n (sdiv_i64 Q16_ONE (of_nat (max n 1)))"

datatype belnap_error =
    BParticipants nat
  | BDim nat
  | BRagged nat nat nat
  | BOutputLength nat nat nat
  | BState u8

record chunk_rules =
  cr_confidence :: confidence_rule
  cr_weight :: weight_rule
  cr_threshold_pos :: i64
  cr_threshold_neg :: i64

text \<open>The first row whose width differs, in order.\<close>

fun find_ragged :: "nat \<Rightarrow> nat \<Rightarrow> i64 list list \<Rightarrow> (nat \<times> nat) option" where
  "find_ragged wd index [] = None"
| "find_ragged wd index (r # rows) =
     (if length r \<noteq> wd then Some (index, length r) else find_ragged wd (index + 1) rows)"

definition be_row :: "i64 list \<Rightarrow> bytes" where
  "be_row r = concat (map to_be_bytes r)"

definition chunk_input :: "i64 list list \<Rightarrow> chunk_rules \<Rightarrow> belnap_error + bytes" where
  "chunk_input rows rules =
     (let n = length rows in
      if n = 0 \<or> n > MAX_N then Inl (BParticipants n)
      else
        let wd = length (rows ! 0) in
        if wd = 0 \<or> wd > MAX_DIM then Inl (BDim wd)
        else
          case find_ragged wd 0 rows of
            Some (index, got) \<Rightarrow> Inl (BRagged index got wd)
          | None \<Rightarrow>
              Inr (to_be_bytes (of_nat wd :: u32) @ to_be_bytes (of_nat n :: u32) @
                   concat (map be_row rows) @
                   concat (map (\<lambda>r. be_row (map (confidence (cr_confidence rules)) r)) rows) @
                   be_row (weights (cr_weight rules) n) @
                   to_be_bytes (cr_threshold_pos rules) @ to_be_bytes (cr_threshold_neg rules)))"

record chunk_output =
  co_values :: "i64 list"
  co_states :: bytes

definition parse_output :: "bytes \<Rightarrow> nat \<Rightarrow> belnap_error + chunk_output" where
  "parse_output bs wd =
     (let want = 9 * wd in
      if length bs \<noteq> want \<or> wd = 0 then Inl (BOutputLength (length bs) want wd)
      else
        let vals = take (8 * wd) bs;
            states = drop (8 * wd) bs;
            values = map from_be_bytes (as_chunks 8 vals)
        in case find (\<lambda>s. s > 3) states of
             Some s \<Rightarrow> Inl (BState s)
           | None \<Rightarrow> Inr \<lparr>co_values = values, co_states = states\<rparr>)"

section \<open>Lengths and rows\<close>

lemma length_be_row [simp, enc_simps]: "length (be_row r) = 8 * length r"
  by (induction r) (simp_all add: be_row_def)

lemma be_row_append: "be_row (r @ s) = be_row r @ be_row s"
  by (simp add: be_row_def)

lemma as_chunks_be_row: "as_chunks 8 (be_row r) = map to_be_bytes r"
  unfolding be_row_def by (rule as_chunks_concat) auto

lemma read_be_row [simp]: "map from_be_bytes (as_chunks 8 (be_row r)) = r"
  by (simp add: as_chunks_be_row comp_def map_idI)

lemma be_row_inject [simp]: "be_row r = be_row s \<longleftrightarrow> r = s"
  by (metis read_be_row)

lemma concat_be_rows: "concat (map be_row rows) = be_row (concat rows)"
  by (induction rows) (simp_all add: be_row_def)

definition uniform :: "nat \<Rightarrow> i64 list list \<Rightarrow> bool" where
  "uniform d rows \<longleftrightarrow> (\<forall>r \<in> set rows. length r = d)"

lemma find_ragged_None: "find_ragged d i rows = None \<longleftrightarrow> uniform d rows"
  by (induction rows arbitrary: i) (auto simp: uniform_def)

lemma uniform_nth0: "uniform d rows \<Longrightarrow> rows \<noteq> [] \<Longrightarrow> length (rows ! 0) = d"
  by (simp add: uniform_def)

lemma length_concat_rows: "uniform d rows \<Longrightarrow> length (concat rows) = d * length rows"
  by (rule length_concat_width) (auto simp: uniform_def)

definition chunk_shape :: "i64 list list \<Rightarrow> nat \<Rightarrow> bool" where
  "chunk_shape rows d \<longleftrightarrow>
     1 \<le> length rows \<and> length rows \<le> MAX_N \<and> 1 \<le> d \<and> d \<le> MAX_DIM \<and> uniform d rows"

lemma chunk_input_Inr_shape:
  "chunk_input rows rules = Inr bs \<Longrightarrow> chunk_shape rows (length (rows ! 0))"
  by (auto simp: chunk_input_def chunk_shape_def Let_def Suc_le_eq find_ragged_None
      split: if_splits option.splits)

lemma chunk_input_shape:
  assumes "chunk_shape rows wd"
  shows "chunk_input rows rules =
    Inr (to_be_bytes (of_nat wd :: u32) @ to_be_bytes (of_nat (length rows) :: u32) @
         be_row (concat rows) @
         be_row (map (confidence (cr_confidence rules)) (concat rows)) @
         be_row (weights (cr_weight rules) (length rows)) @
         to_be_bytes (cr_threshold_pos rules) @ to_be_bytes (cr_threshold_neg rules))"
proof -
  from assms have "rows \<noteq> []" by (auto simp: chunk_shape_def)
  with assms have "length (rows ! 0) = wd" and "find_ragged wd 0 rows = None"
    by (auto simp: chunk_shape_def find_ragged_None intro: uniform_nth0)
  moreover have "concat (map (\<lambda>r. be_row (map f r)) rows) = be_row (map f (concat rows))" for f
    by (induction rows) (simp_all add: be_row_def)
  ultimately show ?thesis
    using assms \<open>rows \<noteq> []\<close>
    by (simp add: chunk_input_def chunk_shape_def concat_be_rows Let_def)
qed

section \<open>Reading the input back\<close>

record read_input =
  ri_rows :: "i64 list list"
  ri_confidences :: "i64 list list"
  ri_weights :: "i64 list"
  ri_threshold_pos :: i64
  ri_threshold_neg :: i64

definition read_words :: "nat \<Rightarrow> bytes \<Rightarrow> i64 list" where
  "read_words k bs = map from_be_bytes (as_chunks 8 (take (8 * k) bs))"

definition read_chunk :: "bytes \<Rightarrow> read_input" where
  "read_chunk bs =
     (let wd = unat (from_be_bytes (take 4 bs) :: u32);
          n = unat (from_be_bytes (take 4 (drop 4 bs)) :: u32);
          body = drop 8 bs;
          cells = n * wd;
          rest = drop (16 * cells) body;
          tail = drop (8 * n) rest
      in \<lparr>ri_rows = chunks wd n (read_words cells body),
          ri_confidences = chunks wd n (read_words cells (drop (8 * cells) body)),
          ri_weights = read_words n rest,
          ri_threshold_pos = from_be_bytes (take 8 tail),
          ri_threshold_neg = from_be_bytes (take 8 (drop 8 tail))\<rparr>)"

lemma read_words_row: "length r = k \<Longrightarrow> read_words k (be_row r @ zs) = r"
  by (simp add: read_words_def)

lemma length_weights [simp]: "length (weights w n) = n"
  by (cases w) simp

lemma chunks_concat_width: "uniform w rows \<Longrightarrow> chunks w (length rows) (concat rows) = rows"
  using chunks_concat [of rows w "[]"] by (simp add: uniform_def)

lemma chunks_map: "chunks w n (map f xs) = map (map f) (chunks w n xs)"
  by (induction n arbitrary: xs) (simp_all add: take_map drop_map)

lemma read_chunk_input:
  assumes "chunk_input rows rules = Inr bs"
  shows "read_chunk bs =
    \<lparr>ri_rows = rows,
     ri_confidences = map (map (confidence (cr_confidence rules))) rows,
     ri_weights = weights (cr_weight rules) (length rows),
     ri_threshold_pos = cr_threshold_pos rules,
     ri_threshold_neg = cr_threshold_neg rules\<rparr>"
proof -
  let ?wd = "length (rows ! 0)"
  note shape = chunk_input_Inr_shape [OF assms]
  then have width: "uniform ?wd rows"
    and b: "?wd < 2 ^ 32" "length rows < 2 ^ 32"
    by (simp_all add: chunk_shape_def MAX_DIM_def MAX_N_def)
  have cells: "length (concat rows) = length rows * ?wd"
    using length_concat_rows [OF width] by simp
  have n: "unat (of_nat ?wd :: u32) = ?wd" "unat (of_nat (length rows) :: u32) = length rows"
    using b by (auto intro!: unat_of_nat_small)
  have bs: "bs = to_be_bytes (of_nat ?wd :: u32) @ to_be_bytes (of_nat (length rows) :: u32) @
     be_row (concat rows) @ be_row (map (confidence (cr_confidence rules)) (concat rows)) @
     be_row (weights (cr_weight rules) (length rows)) @
     to_be_bytes (cr_threshold_pos rules) @ to_be_bytes (cr_threshold_neg rules)"
    using chunk_input_shape [OF shape, of rules] assms by simp
  show ?thesis
    unfolding read_chunk_def Let_def bs
    by (simp add: n cells read_words_row chunks_concat_width [OF width] chunks_map
        take_append drop_append mult.commute)
qed

lemma length_chunk_input:
  assumes "chunk_input rows rules = Inr bs"
  shows "length bs = 24 + 16 * (length rows * length (rows ! 0)) + 8 * length rows"
proof -
  note shape = chunk_input_Inr_shape [OF assms]
  then have "uniform (length (rows ! 0)) rows" by (simp add: chunk_shape_def)
  from length_concat_rows [OF this] show ?thesis
    using chunk_input_shape [OF shape, of rules] assms by auto
qed

section \<open>Weights\<close>

lemma sint_of_nat_small: "n < 2 ^ 63 \<Longrightarrow> sint (of_nat n :: i64) = int n"
  by (simp add: signed_of_nat signed_take_bit_int_eq_self_iff)

lemma weight_value:
  assumes "0 < n" and "n \<le> MAX_N"
  shows "sint (sdiv_i64 Q16_ONE (of_nat n)) = 65536 div int n"
proof -
  have n: "sint (of_nat n :: i64) = int n"
    using assms by (simp add: MAX_N_def sint_of_nat_small)
  have "65536 div n \<le> 65536" by (rule div_le_dividend)
  also have "(65536 :: nat) < 2 ^ 63" by simp
  finally have "65536 div n < 2 ^ 63" .
  then have "sint (of_nat (65536 div n) :: i64) = 65536 div int n"
    by (simp only: sint_of_nat_small) (simp add: zdiv_int)
  moreover have "65536 div int n = int (65536 div n)" by (simp add: zdiv_int)
  ultimately have "sint (word_of_int (65536 div int n) :: i64) = 65536 div int n"
    by (simp only: of_int_of_nat_eq)
  with assms show ?thesis by (simp add: sdiv_i64_def Q16_ONE_value n)
qed

lemma weights_sum:
  assumes "0 < n" and "n \<le> MAX_N"
  shows "sum_list (map sint (weights w n)) \<le> 65536"
    and "65536 - int n < sum_list (map sint (weights w n))"
proof -
  have "sum_list (map sint (weights w n)) = int n * (65536 div int n)"
  proof -
    have "max n 1 = n" using assms(1) by simp
    with weight_value [OF assms] show ?thesis by (cases w) (simp add: sum_list_replicate)
  qed
  moreover have "int n * (65536 div int n) = 65536 - 65536 mod int n"
    by (simp add: minus_mod_eq_mult_div)
  moreover have "0 \<le> 65536 mod int n" and "65536 mod int n < int n"
    using assms(1) by simp_all
  ultimately show "sum_list (map sint (weights w n)) \<le> 65536"
    and "65536 - int n < sum_list (map sint (weights w n))" by simp_all
qed

section \<open>Output\<close>

lemma be_row_read: "length bs = 8 * n \<Longrightarrow> be_row (map from_be_bytes (as_chunks 8 bs)) = bs"
proof -
  assume len: "length bs = 8 * n"
  have "map (\<lambda>c. to_be_bytes (from_be_bytes c :: i64)) (chunks 8 n bs) = chunks 8 n bs"
    by (rule map_idI, rule to_from_be_bytes) (use chunks_width [OF len] in simp)
  then show ?thesis
    by (simp add: be_row_def as_chunks_def len comp_def concat_chunks [OF len])
qed

lemma parse_output_Inr:
  assumes "parse_output bs d = Inr out"
  shows "be_row (co_values out) @ co_states out = bs" and "length (co_values out) = d"
    and "length (co_states out) = d" and "\<forall>s \<in> set (co_states out). s \<le> 3"
proof -
  from assms have len: "length bs = 9 * d" and "find (\<lambda>s. s > 3) (drop (8 * d) bs) = None"
    and out: "out = \<lparr>co_values = map from_be_bytes (as_chunks 8 (take (8 * d) bs)),
                     co_states = drop (8 * d) bs\<rparr>"
    by (auto simp: parse_output_def Let_def split: if_splits option.splits)
  then show "\<forall>s \<in> set (co_states out). s \<le> 3" by (auto simp: find_None_iff)
  have "length (take (8 * d) bs) = 8 * d" using len by simp
  then show "be_row (co_values out) @ co_states out = bs"
    using be_row_read [of "take (8 * d) bs" d] by (simp add: out)
  show "length (co_values out) = d" and "length (co_states out) = d"
    using len by (simp_all add: out as_chunks_def)
qed

lemma parse_output_written:
  assumes "length vs = d" and "length ss = d" and "0 < d" and "\<forall>s \<in> set ss. s \<le> 3"
  shows "parse_output (be_row vs @ ss) d = Inr \<lparr>co_values = vs, co_states = ss\<rparr>"
proof -
  have "find (\<lambda>s. s > 3) ss = None" using assms(4) by (auto simp: find_None_iff)
  with assms show ?thesis by (simp add: parse_output_def)
qed

section \<open>Properties\<close>

text \<open>The chunk builder succeeds exactly on a rectangular chunk within the precompile's caps, its
  bytes have the length the precompile expects, and reading them back gives every row, its
  confidences, the weights and the thresholds: no two chunks share an input.\<close>

theorem chunk_input_readable:
  "case chunk_input rows rules of
     Inl e \<Rightarrow> \<not> chunk_shape rows (length (rows ! 0))
   | Inr bs \<Rightarrow>
       chunk_shape rows (length (rows ! 0)) \<and>
       length bs = 24 + 16 * (length rows * length (rows ! 0)) + 8 * length rows \<and>
       read_chunk bs =
         \<lparr>ri_rows = rows,
          ri_confidences = map (map (confidence (cr_confidence rules))) rows,
          ri_weights = weights (cr_weight rules) (length rows),
          ri_threshold_pos = cr_threshold_pos rules,
          ri_threshold_neg = cr_threshold_neg rules\<rparr>"
proof (cases "chunk_input rows rules")
  case (Inl e)
  then show ?thesis using chunk_input_shape [of rows _ rules] by auto
next
  case (Inr bs)
  then show ?thesis
    using chunk_input_Inr_shape length_chunk_input read_chunk_input by simp
qed

text \<open>The output parser accepts exactly the bytes of \<open>d\<close> big-endian values followed by \<open>d\<close> Belnap
  states, and returns those values and states.\<close>

theorem parse_output_exact:
  "parse_output bs d = Inr out \<longleftrightarrow>
     0 < d \<and> length (co_values out) = d \<and> length (co_states out) = d \<and>
     list_all (\<lambda>s. s \<le> 3) (co_states out) \<and> bs = be_row (co_values out) @ co_states out"
proof
  assume *: "parse_output bs d = Inr out"
  then have "0 < d" by (auto simp: parse_output_def Let_def split: if_splits)
  with parse_output_Inr [OF *]
  show "0 < d \<and> length (co_values out) = d \<and> length (co_states out) = d \<and>
     list_all (\<lambda>s. s \<le> 3) (co_states out) \<and> bs = be_row (co_values out) @ co_states out"
    by (auto simp: list_all_iff)
next
  assume "0 < d \<and> length (co_values out) = d \<and> length (co_states out) = d \<and>
     list_all (\<lambda>s. s \<le> 3) (co_states out) \<and> bs = be_row (co_values out) @ co_states out"
  then show "parse_output bs d = Inr out"
    using parse_output_written [of "co_values out" d "co_states out"] by (simp add: list_all_iff)
qed

end
