(* ===== verification/Fl_Config.thy ===== *)
theory Fl_Config
  imports Fl_Tree Fl_Belnap
begin

text \<open>
  Round configurations, job payloads and the signed delta digest:
  \<^verbatim>\<open>training-worker/src/fl/round.rs\<close>.  The checks of \<open>validate_config\<close> stand in the
  order of the source, so each error is the first check that fails.  Every preimage that is
  hashed is a definition of its own, and the lemmas \<open>..._inject\<close> say that it determines all
  the fields it packs.
\<close>

definition TASK_LORA_DELTA :: string where "TASK_LORA_DELTA = ''lora_delta''"
definition CONFIG_DOMAIN :: bytes where "CONFIG_DOMAIN = str_bytes ''citrate-fl-round-config/1''"
definition ROUND_DOMAIN :: bytes where "ROUND_DOMAIN = str_bytes ''citrate-fl-round-key/1''"
definition DELTA_DOMAIN :: bytes where "DELTA_DOMAIN = str_bytes ''citrate-fl-delta/1''"

definition MIN_PARTICIPANTS_FLOOR :: u16 where "MIN_PARTICIPANTS_FLOOR = 3"
definition MAX_CHUNK_CELLS :: u64 where "MAX_CHUNK_CELLS = 4096"
definition MAX_SCALE_LOG2 :: u8 where "MAX_SCALE_LOG2 = 16"

record round_config =
  fc_chain_id :: u64
  fc_ledger :: address
  fc_cluster_id :: b256
  fc_base_model_sha256 :: b256
  fc_start_adapter_sha256 :: b256
  fc_roster :: "address list"
  fc_min_participants :: u16
  fc_chunk_dim :: u32
  fc_value_scale_log2 :: u8
  fc_threshold_pos :: i64
  fc_threshold_neg :: i64
  fc_confidence :: confidence_rule
  fc_weight :: weight_rule
  fc_max_values :: u64

datatype config_error =
    CRosterOrder
  | CMinParticipants u16
  | CRosterTooSmall nat u16
  | CRosterTooLarge nat
  | CChunkDim u32
  | CChunkCells nat u32
  | CScale u8
  | CThresholds
  | CMaxValues
  | CZero string

text \<open>\<^verbatim>\<open>roster.windows(2).all(|w| w[0] < w[1])\<close>.\<close>

fun windows_ascending :: "'a::linorder list \<Rightarrow> bool" where
  "windows_ascending (a # b # rest) \<longleftrightarrow> a < b \<and> windows_ascending (b # rest)"
| "windows_ascending _ \<longleftrightarrow> True"

definition validate_config :: "round_config \<Rightarrow> config_error + unit" where
  "validate_config c =
     (let roster = fc_roster c; n = length roster in
      if fc_cluster_id c = 0 then Inl (CZero ''cluster_id'')
      else if fc_ledger c = 0 then Inl (CZero ''ledger'')
      else if fc_start_adapter_sha256 c = 0 then Inl (CZero ''start_adapter_sha256'')
      else if fc_base_model_sha256 c = 0 then Inl (CZero ''base_model_sha256'')
      else if \<not> windows_ascending roster then Inl CRosterOrder
      else if 0 \<in> set roster then Inl (CZero ''a roster address'')
      else if fc_min_participants c < MIN_PARTICIPANTS_FLOOR
           then Inl (CMinParticipants (fc_min_participants c))
      else if n < unat (fc_min_participants c) then Inl (CRosterTooSmall n (fc_min_participants c))
      else if n > MAX_N then Inl (CRosterTooLarge n)
      else if fc_chunk_dim c = 0 \<or> unat (fc_chunk_dim c) > MAX_DIM then Inl (CChunkDim (fc_chunk_dim c))
      else if sat_mul (of_nat n) (ucast (fc_chunk_dim c)) > MAX_CHUNK_CELLS
           then Inl (CChunkCells n (fc_chunk_dim c))
      else if fc_value_scale_log2 c > MAX_SCALE_LOG2 then Inl (CScale (fc_value_scale_log2 c))
      else if sint (fc_threshold_pos c) \<le> 0 \<or> sint (fc_threshold_neg c) \<ge> 0 then Inl CThresholds
      else if fc_max_values c = 0 then Inl CMaxValues
      else Inr ())"

definition config_hash :: "(bytes \<Rightarrow> b256) \<Rightarrow> round_config \<Rightarrow> b256" where
  "config_hash K c =
     fl_keccak K
       [CONFIG_DOMAIN, to_be_bytes (fc_chain_id c), to_be_bytes (fc_ledger c),
        to_be_bytes (fc_cluster_id c), to_be_bytes (fc_base_model_sha256 c),
        to_be_bytes (fc_start_adapter_sha256 c), to_be_bytes (fc_min_participants c),
        to_be_bytes (fc_chunk_dim c), [fc_value_scale_log2 c],
        to_be_bytes (fc_threshold_pos c), to_be_bytes (fc_threshold_neg c),
        [confidence_code (fc_confidence c), weight_code (fc_weight c)],
        to_be_bytes (fc_max_values c), to_be_bytes (of_nat (length (fc_roster c)) :: u32),
        concat (map to_be_bytes (fc_roster c))]"

definition round_id :: "(bytes \<Rightarrow> b256) \<Rightarrow> u64 \<Rightarrow> address \<Rightarrow> b256 \<Rightarrow> u64 \<Rightarrow> b256" where
  "round_id K chain_id ledger cluster_id ordinal =
     fl_keccak K [ROUND_DOMAIN, to_be_bytes chain_id, to_be_bytes ledger, to_be_bytes cluster_id,
                  to_be_bytes ordinal]"

definition config_round_id :: "(bytes \<Rightarrow> b256) \<Rightarrow> round_config \<Rightarrow> u64 \<Rightarrow> b256" where
  "config_round_id K c ordinal = round_id K (fc_chain_id c) (fc_ledger c) (fc_cluster_id c) ordinal"

definition config_chunk_rules :: "round_config \<Rightarrow> chunk_rules" where
  "config_chunk_rules c =
     \<lparr>cr_confidence = fc_confidence c, cr_weight = fc_weight c,
      cr_threshold_pos = fc_threshold_pos c, cr_threshold_neg = fc_threshold_neg c\<rparr>"

text \<open>\<^verbatim>\<open>[T]::binary_search\<close>: \<open>sz\<close> shrinks by half, \<open>base\<close> keeps an element not greater
  than the needle as long as there is one.\<close>

function search_base :: "'a::linorder list \<Rightarrow> 'a \<Rightarrow> nat \<Rightarrow> nat \<Rightarrow> nat" where
  "search_base xs x base sz =
     (if sz > 1 then
        let half = sz div 2; mid = base + half
        in search_base xs x (if xs ! mid > x then base else mid) (sz - half)
      else base)"
  by auto
termination by (relation "measure (\<lambda>(xs, x, base, sz). sz)") auto

declare search_base.simps [simp del]

definition binary_search :: "'a::linorder list \<Rightarrow> 'a \<Rightarrow> nat + nat" where
  "binary_search xs x =
     (if xs = [] then Inl 0
      else
        let base = search_base xs x 0 (length xs)
        in if xs ! base = x then Inr base
           else Inl (if xs ! base < x then base + 1 else base))"

definition in_roster :: "round_config \<Rightarrow> address \<Rightarrow> bool" where
  "in_roster c who = (case binary_search (fc_roster c) who of Inl _ \<Rightarrow> False | Inr _ \<Rightarrow> True)"

record lora_payload =
  lp_task :: string
  lp_ordinal :: u64
  lp_round_id :: b256
  lp_config :: round_config

datatype payload_error =
    PTask string
  | PConfig config_error
  | PRoundId

definition new_payload :: "(bytes \<Rightarrow> b256) \<Rightarrow> round_config \<Rightarrow> u64 \<Rightarrow> lora_payload" where
  "new_payload K config ordinal =
     \<lparr>lp_task = TASK_LORA_DELTA, lp_ordinal = ordinal,
      lp_round_id = config_round_id K config ordinal, lp_config = config\<rparr>"

definition validate_payload :: "(bytes \<Rightarrow> b256) \<Rightarrow> lora_payload \<Rightarrow> payload_error + unit" where
  "validate_payload K p =
     (if lp_task p \<noteq> TASK_LORA_DELTA then Inl (PTask (lp_task p))
      else
        case validate_config (lp_config p) of
          Inl e \<Rightarrow> Inl (PConfig e)
        | Inr _ \<Rightarrow>
            if config_round_id K (lp_config p) (lp_ordinal p) \<noteq> lp_round_id p then Inl PRoundId
            else Inr ())"

definition delta_digest ::
  "(bytes \<Rightarrow> b256) \<Rightarrow> b256 \<Rightarrow> address \<Rightarrow> b256 \<Rightarrow> b256 \<Rightarrow> u64 \<Rightarrow> u32 \<Rightarrow> b256" where
  "delta_digest K rid worker delta_root delta_sha256 n_values chunk_dim =
     fl_keccak K [DELTA_DOMAIN, to_be_bytes rid, to_be_bytes worker, to_be_bytes delta_root,
                  to_be_bytes delta_sha256, to_be_bytes n_values, to_be_bytes chunk_dim]"

record lora_result =
  lr_task :: string
  lr_round_id :: b256
  lr_worker :: address
  lr_delta_root :: b256
  lr_delta_sha256 :: b256
  lr_n_values :: u64
  lr_chunk_dim :: u32
  lr_start_adapter_sha256 :: b256
  lr_trained_adapter_sha256 :: b256
  lr_dataset_sha256 :: b256
  lr_examples :: u64
  lr_trainer :: string
  lr_seconds :: rat
  lr_signature :: string

definition result_digest :: "(bytes \<Rightarrow> b256) \<Rightarrow> lora_result \<Rightarrow> b256" where
  "result_digest K r =
     delta_digest K (lr_round_id r) (lr_worker r) (lr_delta_root r) (lr_delta_sha256 r)
       (lr_n_values r) (lr_chunk_dim r)"

section \<open>Validation\<close>

definition config_ok :: "round_config \<Rightarrow> bool" where
  "config_ok c \<longleftrightarrow>
     fc_cluster_id c \<noteq> 0 \<and> fc_ledger c \<noteq> 0 \<and> fc_start_adapter_sha256 c \<noteq> 0 \<and>
     fc_base_model_sha256 c \<noteq> 0 \<and>
     sorted_wrt (<) (fc_roster c) \<and> 0 \<notin> set (fc_roster c) \<and>
     3 \<le> unat (fc_min_participants c) \<and> unat (fc_min_participants c) \<le> length (fc_roster c) \<and>
     1 \<le> unat (fc_chunk_dim c) \<and> unat (fc_chunk_dim c) \<le> 1024 \<and>
     length (fc_roster c) \<le> 1024 \<and>
     length (fc_roster c) * unat (fc_chunk_dim c) \<le> 4096 \<and>
     unat (fc_value_scale_log2 c) \<le> 16 \<and>
     0 < sint (fc_threshold_pos c) \<and> sint (fc_threshold_neg c) < 0 \<and> fc_max_values c \<noteq> 0"

lemma windows_ascending_sorted: "windows_ascending xs \<longleftrightarrow> sorted_wrt (<) xs"
proof (induction xs rule: windows_ascending.induct)
  case (1 a b rest)
  then show ?case by (auto dest: less_trans)
qed auto

lemma cells_bound:
  assumes "n \<le> 1024" and "unat (d :: u32) \<le> 1024"
  shows "sat_mul (of_nat n) (ucast d :: u64) > MAX_CHUNK_CELLS \<longleftrightarrow> n * unat d > 4096"
proof -
  have "unat (of_nat n :: u64) = n" using assms(1) by (intro unat_of_nat_small) simp
  moreover have "unat (ucast d :: u64) = unat d"
    using assms(2) by (intro unat_ucast_small) simp
  moreover have "n * unat d \<le> 1024 * 1024" using assms by (rule mult_le_mono)
  ultimately show ?thesis
    by (simp add: word_less_nat_alt unat_sat MAX_CHUNK_CELLS_def)
qed

lemma validate_config_ok: "validate_config c = Inr () \<longleftrightarrow> config_ok c"
proof -
  have z: "unat (w :: u32) = 0 \<longleftrightarrow> w = 0" for w by (simp add: unat_eq_0)
  have "1 \<le> unat (fc_chunk_dim c) \<longleftrightarrow> fc_chunk_dim c \<noteq> 0"
    using z [of "fc_chunk_dim c"] by linarith
  then show ?thesis
    unfolding validate_config_def config_ok_def Let_def windows_ascending_sorted MAX_N_def MAX_DIM_def
    using cells_bound [of "length (fc_roster c)" "fc_chunk_dim c"]
    by (auto simp: MIN_PARTICIPANTS_FLOOR_def MAX_SCALE_LOG2_def word_less_nat_alt not_less not_le)
qed

text \<open>The positions that can still hold the needle stay inside the searched range.\<close>

lemma search_base_range:
  assumes sorted: "sorted_wrt (<) xs" and i: "i < length xs" "xs ! i = x"
  shows "base \<le> i \<Longrightarrow> i < base + sz \<Longrightarrow> base + sz \<le> length xs \<Longrightarrow> search_base xs x base sz = i"
proof (induction sz arbitrary: base rule: less_induct)
  case (less sz)
  show ?case
  proof (cases "sz > 1")
    case False
    then have "sz = 1" using less.prems by linarith
    with less.prems False show ?thesis by (subst search_base.simps) simp
  next
    case True
    let ?mid = "base + sz div 2"
    have mid: "?mid < length xs" using True less.prems by linarith
    have order: "xs ! j < xs ! k" if "j < k" and "k < length xs" for j k
      using sorted_wrt_nth_less [OF sorted] that by blast
    have above: "xs ! ?mid > x \<longleftrightarrow> i < ?mid"
      using order [of i ?mid] order [of ?mid i] mid i by (metis less_asym' linorder_less_linear)
    have "search_base xs x (if xs ! ?mid > x then base else ?mid) (sz - sz div 2) = i"
      by (rule less.IH) (use True less.prems above in auto)
    with True show ?thesis
      by (subst search_base.simps) (simp add: Let_def)
  qed
qed

lemma search_base_less:
  "sz \<noteq> 0 \<Longrightarrow> base + sz \<le> n \<Longrightarrow> search_base xs x base sz < n"
proof (induction xs x base sz rule: search_base.induct)
  case (1 xs x base sz)
  show ?case
    by (subst search_base.simps) (use 1 in \<open>auto simp: Let_def\<close>)
qed

lemma binary_search_found:
  assumes "sorted_wrt (<) xs"
  shows "(\<exists>i. binary_search xs x = Inr i) \<longleftrightarrow> x \<in> set xs"
proof
  assume "\<exists>i. binary_search xs x = Inr i"
  then have "xs \<noteq> []" and "xs ! search_base xs x 0 (length xs) = x"
    by (auto simp: binary_search_def Let_def split: if_splits)
  then show "x \<in> set xs"
    using search_base_less [of "length xs" 0 "length xs" xs x] by (metis add_0 length_0_conv nth_mem order_refl)
next
  assume "x \<in> set xs"
  then obtain i where i: "i < length xs" "xs ! i = x" by (auto simp: in_set_conv_nth)
  then have "search_base xs x 0 (length xs) = i"
    using search_base_range [OF assms i] by simp
  with i show "\<exists>i. binary_search xs x = Inr i"
    by (auto simp: binary_search_def)
qed

lemma in_roster_iff: "config_ok c \<Longrightarrow> in_roster c who \<longleftrightarrow> who \<in> set (fc_roster c)"
  using binary_search_found [of "fc_roster c" who]
  by (auto simp: in_roster_def config_ok_def split: sum.splits)

section \<open>Preimages\<close>

definition config_pre :: "round_config \<Rightarrow> bytes" where
  "config_pre c =
     CONFIG_DOMAIN @ to_be_bytes (fc_chain_id c) @ to_be_bytes (fc_ledger c) @
     to_be_bytes (fc_cluster_id c) @ to_be_bytes (fc_base_model_sha256 c) @
     to_be_bytes (fc_start_adapter_sha256 c) @ to_be_bytes (fc_min_participants c) @
     to_be_bytes (fc_chunk_dim c) @ [fc_value_scale_log2 c] @
     to_be_bytes (fc_threshold_pos c) @ to_be_bytes (fc_threshold_neg c) @
     [confidence_code (fc_confidence c), weight_code (fc_weight c)] @
     to_be_bytes (fc_max_values c) @ to_be_bytes (of_nat (length (fc_roster c)) :: u32) @
     concat (map to_be_bytes (fc_roster c))"

lemma config_hash_pre: "config_hash K c = K (config_pre c)"
  by (simp add: config_hash_def fl_keccak_def config_pre_def)

lemma to_be_bytes_u16 [simp]: "to_be_bytes v = to_be_bytes (w :: u16) \<longleftrightarrow> v = w"
  by (rule to_be_bytes_inject) simp

lemma concat_addresses_inject [simp]:
  "concat (map to_be_bytes xs) = concat (map to_be_bytes (ys :: address list)) \<longleftrightarrow> xs = ys"
proof
  assume eq: "concat (map to_be_bytes xs) = concat (map to_be_bytes ys)"
  have "as_chunks 20 (concat (map to_be_bytes (zs :: address list))) = map to_be_bytes zs" for zs
    by (rule as_chunks_concat) auto
  then have "map to_be_bytes xs = map to_be_bytes ys" using eq by metis
  then show "xs = ys" by (simp add: inj_map_eq_map inj_def)
qed simp

lemma config_pre_inject: "config_pre c = config_pre c' \<longleftrightarrow> c = (c' :: round_config)"
proof
  have codes: "a = b" "w = v" for a b :: confidence_rule and w v :: weight_rule
    by (cases a; cases b; simp) (cases w; cases v; simp)
  assume "config_pre c = config_pre c'"
  then have "fc_chain_id c = fc_chain_id c' \<and> fc_ledger c = fc_ledger c' \<and>
    fc_cluster_id c = fc_cluster_id c' \<and> fc_base_model_sha256 c = fc_base_model_sha256 c' \<and>
    fc_start_adapter_sha256 c = fc_start_adapter_sha256 c' \<and>
    fc_min_participants c = fc_min_participants c' \<and> fc_chunk_dim c = fc_chunk_dim c' \<and>
    fc_value_scale_log2 c = fc_value_scale_log2 c' \<and> fc_threshold_pos c = fc_threshold_pos c' \<and>
    fc_threshold_neg c = fc_threshold_neg c' \<and> fc_max_values c = fc_max_values c' \<and>
    fc_roster c = fc_roster c'"
    by (simp add: config_pre_def append_eq_append_conv)
  then show "c = c'"
    by (intro round_config.equality) (simp_all add: codes)
qed simp

definition round_pre :: "u64 \<Rightarrow> address \<Rightarrow> b256 \<Rightarrow> u64 \<Rightarrow> bytes" where
  "round_pre chain_id ledger cluster_id ordinal =
     ROUND_DOMAIN @ to_be_bytes chain_id @ to_be_bytes ledger @ to_be_bytes cluster_id @
     to_be_bytes ordinal"

lemma round_id_pre: "round_id K ch l cl o' = K (round_pre ch l cl o')"
  by (simp add: round_id_def fl_keccak_def round_pre_def)

lemma round_pre_inject:
  "round_pre ch l cl n = round_pre ch' l' cl' n' \<longleftrightarrow> ch = ch' \<and> l = l' \<and> cl = cl' \<and> n = n'"
  by (simp add: round_pre_def append_eq_append_conv)

definition delta_pre :: "b256 \<Rightarrow> address \<Rightarrow> b256 \<Rightarrow> b256 \<Rightarrow> u64 \<Rightarrow> u32 \<Rightarrow> bytes" where
  "delta_pre rid worker dr ds n cd =
     DELTA_DOMAIN @ to_be_bytes rid @ to_be_bytes worker @ to_be_bytes dr @ to_be_bytes ds @
     to_be_bytes n @ to_be_bytes cd"

lemma delta_digest_pre: "delta_digest K rid w dr ds n cd = K (delta_pre rid w dr ds n cd)"
  by (simp add: delta_digest_def fl_keccak_def delta_pre_def)

lemma delta_pre_inject:
  "delta_pre rid w dr ds n cd = delta_pre rid' w' dr' ds' n' cd' \<longleftrightarrow>
     rid = rid' \<and> w = w' \<and> dr = dr' \<and> ds = ds' \<and> n = n' \<and> cd = cd'"
  by (simp add: delta_pre_def append_eq_append_conv)

lemma pres_distinct:
  "config_pre c \<noteq> round_pre ch l cl n" "config_pre c \<noteq> delta_pre rid w dr ds nv cd"
  "round_pre ch l cl n \<noteq> delta_pre rid w dr ds nv cd"
  by (simp_all add: config_pre_def round_pre_def delta_pre_def CONFIG_DOMAIN_def ROUND_DOMAIN_def
      DELTA_DOMAIN_def str_bytes_def)

lemma validate_payload_ok:
  "validate_payload K p = Inr () \<longleftrightarrow>
     lp_task p = TASK_LORA_DELTA \<and> config_ok (lp_config p) \<and>
     lp_round_id p = config_round_id K (lp_config p) (lp_ordinal p)"
  using validate_config_ok [of "lp_config p"]
  by (auto simp: validate_payload_def split: sum.splits)

section \<open>Properties\<close>

definition example_config :: round_config where
  "example_config =
     \<lparr>fc_chain_id = 7, fc_ledger = 1, fc_cluster_id = 2, fc_base_model_sha256 = 3,
      fc_start_adapter_sha256 = 4, fc_roster = [10, 20, 30], fc_min_participants = 3,
      fc_chunk_dim = 4, fc_value_scale_log2 = 8, fc_threshold_pos = 1, fc_threshold_neg = - 1,
      fc_confidence = Nonzero, fc_weight = Uniform, fc_max_values = 100\<rparr>"

lemma example_config_fields [simp]:
  "fc_chain_id example_config = 7" "fc_ledger example_config = 1" "fc_cluster_id example_config = 2"
  "fc_base_model_sha256 example_config = 3" "fc_start_adapter_sha256 example_config = 4"
  "fc_roster example_config = [10, 20, 30]" "fc_min_participants example_config = 3"
  "fc_chunk_dim example_config = 4" "fc_value_scale_log2 example_config = 8"
  "fc_threshold_pos example_config = 1" "fc_threshold_neg example_config = - 1"
  "fc_max_values example_config = 100"
  by (simp_all add: example_config_def)

lemma example_config_ok: "config_ok example_config"
  by (simp add: config_ok_def)

text \<open>A round configuration that passes \<^verbatim>\<open>validate\<close> is well formed in every respect the round
  relies on (no overflow hides an oversized chunk), every well-formed one passes, and on such a
  configuration the binary search of \<^verbatim>\<open>in_roster\<close> decides membership in the roster.\<close>

theorem validated_config_roster:
  "(validate_config c = Inr () \<longleftrightarrow> config_ok c) \<and>
   (validate_config c = Inr () \<longrightarrow> (in_roster c who \<longleftrightarrow> who \<in> set (fc_roster c)))"
  using validate_config_ok in_roster_iff by blast

theorem validated_config_roster_witness:
  "validate_config example_config = Inr () \<and> in_roster example_config 20 \<and>
   \<not> in_roster example_config 25"
  using validated_config_roster [of example_config 20] validated_config_roster [of example_config 25]
    example_config_ok
  by simp

text \<open>The configuration hash registered on chain and the round id pin the round: as long as the
  hash does not collide on the two preimages, configurations with the same hash are the same in
  every field, and validated payloads with the same round id are for the same chain, ledger,
  cluster and ordinal.\<close>

theorem round_binding:
  assumes "inj_on K {config_pre c, config_pre c'}"
    and "inj_on K {round_pre (fc_chain_id (lp_config p)) (fc_ledger (lp_config p))
                     (fc_cluster_id (lp_config p)) (lp_ordinal p),
                   round_pre (fc_chain_id (lp_config q)) (fc_ledger (lp_config q))
                     (fc_cluster_id (lp_config q)) (lp_ordinal q)}"
    and "validate_payload K p = Inr ()" and "validate_payload K q = Inr ()"
  shows "(config_hash K c = config_hash K c' \<longleftrightarrow> c = c') \<and>
    (lp_round_id p = lp_round_id q \<longleftrightarrow>
       fc_chain_id (lp_config p) = fc_chain_id (lp_config q) \<and>
       fc_ledger (lp_config p) = fc_ledger (lp_config q) \<and>
       fc_cluster_id (lp_config p) = fc_cluster_id (lp_config q) \<and> lp_ordinal p = lp_ordinal q)"
proof
  show "config_hash K c = config_hash K c' \<longleftrightarrow> c = c'"
    by (simp add: config_hash_pre inj_on_eq_iff [OF assms(1)] config_pre_inject)
  show "lp_round_id p = lp_round_id q \<longleftrightarrow>
       fc_chain_id (lp_config p) = fc_chain_id (lp_config q) \<and>
       fc_ledger (lp_config p) = fc_ledger (lp_config q) \<and>
       fc_cluster_id (lp_config p) = fc_cluster_id (lp_config q) \<and> lp_ordinal p = lp_ordinal q"
    using assms(3,4)
    by (simp add: validate_payload_ok config_round_id_def round_id_pre inj_on_eq_iff [OF assms(2)]
        round_pre_inject)
qed

definition round_example_hash :: "bytes \<Rightarrow> b256" where
  "round_example_hash bs =
     (if bs = config_pre example_config then 1
      else if bs = round_pre 7 1 2 5 then 2 else 3)"

theorem round_binding_witness:
  "config_hash round_example_hash example_config
     \<noteq> config_hash round_example_hash (example_config\<lparr>fc_max_values := 101\<rparr>) \<and>
   lp_round_id (new_payload round_example_hash example_config 5)
     \<noteq> lp_round_id (new_payload round_example_hash example_config 6)"
proof -
  let ?K = round_example_hash and ?c = "example_config\<lparr>fc_max_values := 101\<rparr>"
  have "fc_max_values ?c \<noteq> fc_max_values example_config" by simp
  then have ne: "config_pre ?c \<noteq> config_pre example_config"
    unfolding config_pre_inject by metis
  have r6: "round_pre 7 1 2 6 \<noteq> round_pre 7 1 2 5" by (simp add: round_pre_inject)
  have K [simp]: "?K (config_pre example_config) = 1" "?K (config_pre ?c) = 3"
    "?K (round_pre 7 1 2 5) = 2" "?K (round_pre 7 1 2 6) = 3"
    unfolding round_example_hash_def
    using ne r6 pres_distinct by metis+
  have i1: "inj_on ?K {config_pre example_config, config_pre ?c}"
    by (simp add: inj_on_def)
  have i2: "inj_on ?K {round_pre 7 1 2 5, round_pre 7 1 2 6}"
    by (simp add: inj_on_def)
  let ?p = "new_payload ?K example_config 5" and ?q = "new_payload ?K example_config 6"
  have fields: "lp_config ?p = example_config" "lp_config ?q = example_config"
    "lp_ordinal ?p = 5" "lp_ordinal ?q = 6"
    by (simp_all add: new_payload_def)
  have v: "validate_payload ?K ?p = Inr ()" "validate_payload ?K ?q = Inr ()"
    by (simp_all add: validate_payload_ok new_payload_def example_config_ok)
  note round_binding [OF i1 _ v, unfolded fields example_config_fields, OF i2]
  moreover have "example_config \<noteq> ?c" using ne by metis
  ultimately show ?thesis by simp
qed

end
