(* ===== verification/Coordinator_State.thy ===== *)
theory Coordinator_State
  imports Protocol Fl_Config "HOL-Library.Product_Lexorder"
begin

text \<open>
  The data of the coordinator's state machine, \<^verbatim>\<open>training-coordinator/src/state.rs\<close>: records,
  policy, constants and the pure helpers.  Its operations are in \<open>Coordinator_Ops\<close> and their
  laws in \<open>Coordinator_Safety\<close> and the theories after it.

  The tables are \<open>btree\<close>s, iterated in key order as the code iterates its \<^verbatim>\<open>BTreeMap\<close>s; sets of
  addresses, sources and registrations are sets.  Times are seconds in a \<^verbatim>\<open>u64\<close>.
\<close>

datatype job_status =
    Pending
  | Leased (lease_worker: address) (lease_expires: u64) (lease_deadline: u64)
  | Done address u64
  | Quarantined string

record job_record =
  jr_spec :: job_spec
  jr_status :: job_status
  jr_attempts :: u32
  jr_failed_by :: "address set"
  jr_result :: "string option"
  jr_failed_by_sources :: "string set"
  jr_held_until :: u64
  jr_persisted_expiry :: u64

record worker_record =
  wr_capability :: capability
  wr_backend :: string
  wr_dtype :: string
  wr_tokens_per_second :: rat
  wr_registered_at :: u64
  wr_last_seen :: u64
  wr_source :: string
  wr_noshows :: u32
  wr_cooldown_until :: u64
  wr_delivered :: u32
  wr_last_registration :: u64
  wr_last_engaged :: "u64 option"

record source_record =
  sr_noshows :: u32
  sr_cooldown_until :: u64
  sr_last_seen :: u64

definition default_source :: source_record where
  "default_source = \<lparr>sr_noshows = 0, sr_cooldown_until = 0, sr_last_seen = 0\<rparr>"

record penalty =
  pn_noshows :: u32
  pn_cooldown_until :: u64

definition default_penalty :: penalty where
  "default_penalty = \<lparr>pn_noshows = 0, pn_cooldown_until = 0\<rparr>"

section \<open>Constants\<close>

definition MAX_LEASES_PER_WORKER :: nat where "MAX_LEASES_PER_WORKER = 1"
definition DEFAULT_MAX_WORKERS_PER_SOURCE :: nat where "DEFAULT_MAX_WORKERS_PER_SOURCE = 16"
definition SOURCE_SLOT_STALE_SECS :: u64 where "SOURCE_SLOT_STALE_SECS = 86400"
definition DEFAULT_MAX_LEASES_PER_SOURCE :: nat where "DEFAULT_MAX_LEASES_PER_SOURCE = 4"
definition LAPSE_HOLD_SECS :: u64 where "LAPSE_HOLD_SECS = 900"
definition VOUCHED_ACTIVE_SECS :: u64 where "VOUCHED_ACTIVE_SECS = 3600"
definition RESERVATION_MAX_SECS :: u64 where "RESERVATION_MAX_SECS = 7 * 86400"
definition HEARTBEAT_PERSIST_STEP_SECS :: u64 where "HEARTBEAT_PERSIST_STEP_SECS = 300"
definition DEFAULT_REGISTER_REFRESH_SECS :: u64 where "DEFAULT_REGISTER_REFRESH_SECS = 60"
definition NOSHOW_BACKOFF_BASE_SECS :: u64 where "NOSHOW_BACKOFF_BASE_SECS = 3600"
definition NOSHOW_BACKOFF_MAX_SECS :: u64 where "NOSHOW_BACKOFF_MAX_SECS = 7 * 86400"
definition MAX_WORKERS :: nat where "MAX_WORKERS = 4096"
definition MAX_SOURCES :: nat where "MAX_SOURCES = MAX_WORKERS"

definition reservation_cap :: "u64 \<Rightarrow> u64" where
  "reservation_cap lease_secs =
     min (max (sat_mul lease_secs 2) LAPSE_HOLD_SECS) RESERVATION_MAX_SECS"

definition source_group :: "string \<Rightarrow> string" where
  "source_group source =
     (case strip_suffix ''::/64'' source of
        Some prefix \<Rightarrow>
          (let segs = split_on (CHR '':'') prefix in
           if length segs = 4
           then segs ! 0 @ '':'' @ segs ! 1 @ '':'' @ segs ! 2 @ ''::/48''
           else source)
      | None \<Rightarrow> source)"

definition noshow_backoff :: "u32 \<Rightarrow> u64" where
  "noshow_backoff n =
     (let doublings = min (sat_sub n 1) 20
      in min (sat_mul NOSHOW_BACKOFF_BASE_SECS (push_bit (unat doublings) 1)) NOSHOW_BACKOFF_MAX_SECS)"

section \<open>Policy\<close>

record policy =
  po_trusted_h01 :: "address set"
  po_open_tier :: capability
  po_max_workers_per_source :: nat
  po_lease_window_secs :: u64
  po_max_leases_per_source :: nat
  po_register_refresh_secs :: u64

definition default_policy :: policy where
  "default_policy =
     \<lparr>po_trusted_h01 = {}, po_open_tier = Probe,
      po_max_workers_per_source = DEFAULT_MAX_WORKERS_PER_SOURCE,
      po_lease_window_secs = LEASE_RENEW_WINDOW_SECS,
      po_max_leases_per_source = DEFAULT_MAX_LEASES_PER_SOURCE,
      po_register_refresh_secs = DEFAULT_REGISTER_REFRESH_SECS\<rparr>"

definition is_trusted :: "policy \<Rightarrow> address \<Rightarrow> bool" where
  "is_trusted p who \<longleftrightarrow> who \<in> po_trusted_h01 p"

definition effective_capability :: "policy \<Rightarrow> address \<Rightarrow> capability \<Rightarrow> capability" where
  "effective_capability p who claimed =
     (if who \<in> po_trusted_h01 p then claimed
      else min (min claimed (po_open_tier p)) Federated)"

text \<open>
  \<open>parse_address_list\<close> reads the operator's list.  \<^verbatim>\<open>hex::decode\<close> is the parameter
  \<open>hex_decode\<close>; the error carries the entry (the code appends the decoder's text).
\<close>

fun parse_entries :: "(string \<Rightarrow> bytes option) \<Rightarrow> string list \<Rightarrow> string + address set" where
  "parse_entries hex_decode [] = Inr {}"
| "parse_entries hex_decode (a # rest) =
     (let hex_part = (case strip_prefix ''0x'' a of Some r \<Rightarrow> r | None \<Rightarrow> a) in
      case hex_decode hex_part of
        None \<Rightarrow> Inl a
      | Some bs \<Rightarrow>
          if length bs \<noteq> 20 then Inl a
          else map_sum id (insert (from_be_bytes bs)) (parse_entries hex_decode rest))"

definition parse_address_list :: "(string \<Rightarrow> bytes option) \<Rightarrow> string \<Rightarrow> string + address set" where
  "parse_address_list hex_decode raw =
     parse_entries hex_decode (filter (\<lambda>a. a \<noteq> []) (map trim (split_on (CHR '','') raw)))"

section \<open>The state\<close>

record state =
  st_jobs :: "(job_id, job_record) btree"
  st_workers :: "(address, worker_record) btree"
  st_sources :: "(string, source_record) btree"
  st_penalties :: "(address, penalty) btree"
  st_policy :: policy
  st_dirty :: bool
  st_recent :: "(address \<times> u64) set"

definition default_state :: state where
  "default_state =
     \<lparr>st_jobs = [], st_workers = [], st_sources = [], st_penalties = [],
      st_policy = default_policy, st_dirty = False, st_recent = {}\<rparr>"

datatype lease_error =
    UnknownWorker
  | NothingAvailable
  | CoolingDown u64
  | AtLeaseCap

datatype register_error = SourceFull | RegistryFull

datatype submit_error =
    UnknownJob
  | NotLeaseholder
  | LeaseExpired u64 u64
  | NotLeased
  | TierRevoked

record counts =
  ct_pending :: nat
  ct_leased :: nat
  ct_done :: nat
  ct_quarantined :: nat
  ct_workers :: nat

text \<open>A machine that has proved what it is (\<^verbatim>\<open>training-coordinator/src/attestation.rs\<close>).\<close>

record registered_worker =
  rw_id :: address
  rw_capability :: capability
  rw_backend :: string
  rw_dtype :: string
  rw_tokens_per_second :: rat

section \<open>Federated rounds among the jobs\<close>

text \<open>\<^verbatim>\<open>serde_json::from_value::<LoraDeltaPayload>\<close> is the parameter \<open>parse\<close>.\<close>

datatype lora_round =
    NotLora
  | Malformed
  | Round lora_payload

definition lora_round_of ::
  "(bytes \<Rightarrow> b256) \<Rightarrow> (json \<Rightarrow> lora_payload option) \<Rightarrow> job_spec \<Rightarrow> lora_round" where
  "lora_round_of K parse spec =
     (if Option.bind (json_get ''task'' (js_payload spec)) json_as_str \<noteq> Some TASK_LORA_DELTA
      then NotLora
      else
        case parse (js_payload spec) of
          Some p \<Rightarrow> if validate_payload K p = Inr () then Round p else Malformed
        | None \<Rightarrow> Malformed)"

section \<open>Facts on the helpers\<close>

lemma effective_capability_trusted:
  "is_trusted p who \<Longrightarrow> effective_capability p who c = c"
  by (simp add: effective_capability_def is_trusted_def)

lemma effective_capability_le: "effective_capability p who c \<le> c"
  by (simp add: effective_capability_def min.coboundedI1)

lemma effective_capability_untrusted:
  "\<not> is_trusted p who \<Longrightarrow>
     effective_capability p who c \<le> po_open_tier p \<and> effective_capability p who c \<le> Federated"
  unfolding effective_capability_def is_trusted_def by (simp only: if_False min.cobounded1
      min.cobounded2 min.coboundedI1 min.coboundedI2 simp_thms order_refl)

lemma satisfies_mono: "satisfies a r \<Longrightarrow> a \<le> b \<Longrightarrow> satisfies b r"
  by (auto simp: satisfies_def)

lemma effective_capability_mono:
  "c \<le> d \<Longrightarrow> effective_capability p who c \<le> effective_capability p who d"
  by (cases "who \<in> po_trusted_h01 p")
    (simp_all only: effective_capability_def if_True if_False min.mono order_refl)

lemma noshow_backoff_bounds:
  "NOSHOW_BACKOFF_BASE_SECS \<le> noshow_backoff n" "noshow_backoff n \<le> NOSHOW_BACKOFF_MAX_SECS"
proof -
  let ?d = "unat (min (sat_sub n 1) 20)"
  show "noshow_backoff n \<le> NOSHOW_BACKOFF_MAX_SECS" by (simp add: noshow_backoff_def Let_def)
  have "?d < 64" by (simp add: min_def word_le_nat_alt)
  then have "unat (push_bit ?d 1 :: u64) = 2 ^ ?d"
    by (simp add: unat_two_power)
  moreover have "(1 :: nat) \<le> 2 ^ ?d" by simp
  ultimately have "3600 \<le> unat (sat_mul 3600 (push_bit ?d 1) :: u64)"
    by (simp add: unat_sat)
  then show "NOSHOW_BACKOFF_BASE_SECS \<le> noshow_backoff n"
    by (simp add: noshow_backoff_def Let_def NOSHOW_BACKOFF_BASE_SECS_def NOSHOW_BACKOFF_MAX_SECS_def
        word_le_nat_alt min_def)
qed

lemma reservation_cap_bounds:
  "LAPSE_HOLD_SECS \<le> reservation_cap s" "reservation_cap s \<le> RESERVATION_MAX_SECS"
  by (simp_all add: reservation_cap_def LAPSE_HOLD_SECS_def RESERVATION_MAX_SECS_def)

end
