(* ===== verification/Attestation.thy ===== *)
theory Attestation
  imports Coordinator_State
begin

text \<open>
  Attestation of a machine, \<^verbatim>\<open>training-coordinator/src/attestation.rs\<close>, and recovery of a
  submitter, \<^verbatim>\<open>submission.rs\<close>.  Parsing JSON text, the typed parse of a probe report and
  public-key recovery are parameters; a probe's throughput, a finite JSON number, is a rational.
\<close>

definition ACCELERATOR_TOK_S :: rat where "ACCELERATOR_TOK_S = 10000"
definition MAX_PLAUSIBLE_TOK_S :: rat where "MAX_PLAUSIBLE_TOK_S = 250000"
definition PROBE_SCHEMA :: string where "PROBE_SCHEMA = ''nat.divergence-probe/1''"

record probe_report =
  pr_schema :: string
  pr_backend :: string
  pr_dtype :: string
  pr_os :: string
  pr_arch :: string
  pr_tokens_per_second :: rat
  pr_self_repeat_identical :: bool

definition capability_of :: "probe_report \<Rightarrow> capability" where
  "capability_of p =
     (if \<not> pr_self_repeat_identical p then Probe
      else if \<not> pr_tokens_per_second p \<ge> ACCELERATOR_TOK_S then Probe
      else if pr_tokens_per_second p > MAX_PLAUSIBLE_TOK_S then Probe
      else if pr_backend p = ''candle-cuda'' \<and> pr_dtype p = ''f32'' \<or>
              pr_backend p = ''candle-metal'' \<and> pr_dtype p = ''f32'' then H01
      else if pr_backend p = ''candle-cuda'' \<or> pr_backend p = ''candle-metal'' then Federated
      else Probe)"

record attestation =
  at_probe_json :: string
  at_timestamp :: u64
  at_signature :: bytes

text \<open>The parsers' error texts are carried along.\<close>

datatype attest_error =
    NotJson string
  | WrongSchema string
  | BadSignature

datatype submission_auth_error = BadSubmissionSignature

type_synonym recovery = "b256 \<Rightarrow> bytes \<Rightarrow> address option"

definition verify_attestation ::
  "(bytes \<Rightarrow> b256) \<Rightarrow> recovery \<Rightarrow> (string \<Rightarrow> string + json) \<Rightarrow> (json \<Rightarrow> string + probe_report) \<Rightarrow>
   attestation \<Rightarrow> attest_error + registered_worker" where
  "verify_attestation K recover parse_json parse_probe a =
     (case parse_json (at_probe_json a) of
        Inl e \<Rightarrow> Inl (NotJson e)
      | Inr v \<Rightarrow>
          let schema = (case Option.bind (json_get ''schema'' v) json_as_str of
                          Some s \<Rightarrow> s | None \<Rightarrow> []) in
          if schema \<noteq> PROBE_SCHEMA then Inl (WrongSchema schema)
          else
            case parse_probe v of
              Inl e \<Rightarrow> Inl (NotJson e)
            | Inr probe \<Rightarrow>
                (case recover (attestation_digest K (at_probe_json a) (at_timestamp a)) (at_signature a) of
                   None \<Rightarrow> Inl BadSignature
                 | Some who \<Rightarrow>
                     Inr \<lparr>rw_id = who, rw_capability = capability_of probe,
                          rw_backend = pr_backend probe, rw_dtype = pr_dtype probe,
                          rw_tokens_per_second = pr_tokens_per_second probe\<rparr>))"

record signed_submission =
  ss_job :: job_id
  ss_payload :: string
  ss_signature :: bytes

definition recover_submitter ::
  "(bytes \<Rightarrow> b256) \<Rightarrow> recovery \<Rightarrow> signed_submission \<Rightarrow> submission_auth_error + address" where
  "recover_submitter K recover s =
     (case recover (submission_digest K (ss_job s) (ss_payload s)) (ss_signature s) of
        Some who \<Rightarrow> Inr who
      | None \<Rightarrow> Inl BadSubmissionSignature)"

text \<open>A registration's tier is earned and its identity is the signer.  Verification succeeds
  only for a probe of the right schema whose signature recovers over exactly these bytes and this
  time stamp; the top tier needs a self-reproducing f32 accelerator inside the plausible range of
  throughput, and nothing outside that range, slower or not self-reproducing gets more than
  probe work.\<close>

theorem attested_tier:
  "verify_attestation K recover parse_json parse_probe a = Inr w \<longleftrightarrow>
     (\<exists>v probe. parse_json (at_probe_json a) = Inr v \<and>
        Option.bind (json_get ''schema'' v) json_as_str = Some PROBE_SCHEMA \<and>
        parse_probe v = Inr probe \<and>
        recover (attestation_digest K (at_probe_json a) (at_timestamp a)) (at_signature a) = Some (rw_id w) \<and>
        rw_backend w = pr_backend probe \<and> rw_dtype w = pr_dtype probe \<and>
        rw_tokens_per_second w = pr_tokens_per_second probe \<and>
        (rw_capability w = H01 \<longleftrightarrow>
           pr_self_repeat_identical probe \<and> 10000 \<le> pr_tokens_per_second probe \<and>
           pr_tokens_per_second probe \<le> 250000 \<and> pr_dtype probe = ''f32'' \<and>
           pr_backend probe \<in> {''candle-cuda'', ''candle-metal''}) \<and>
        (rw_capability w = Probe \<longleftrightarrow>
           \<not> (pr_self_repeat_identical probe \<and> 10000 \<le> pr_tokens_per_second probe \<and>
              pr_tokens_per_second probe \<le> 250000 \<and>
              pr_backend probe \<in> {''candle-cuda'', ''candle-metal''})))"
proof -
  have cap: "c = capability_of p \<longleftrightarrow>
      (c = H01 \<longleftrightarrow> pr_self_repeat_identical p \<and> 10000 \<le> pr_tokens_per_second p \<and>
         pr_tokens_per_second p \<le> 250000 \<and> pr_dtype p = ''f32'' \<and>
         pr_backend p \<in> {''candle-cuda'', ''candle-metal''}) \<and>
      (c = Probe \<longleftrightarrow> \<not> (pr_self_repeat_identical p \<and> 10000 \<le> pr_tokens_per_second p \<and>
         pr_tokens_per_second p \<le> 250000 \<and> pr_backend p \<in> {''candle-cuda'', ''candle-metal''}))"
    for c p
    by (cases c) (auto simp: capability_of_def ACCELERATOR_TOK_S_def MAX_PLAUSIBLE_TOK_S_def)
  have eq: "w = \<lparr>rw_id = who, rw_capability = c, rw_backend = b, rw_dtype = d, rw_tokens_per_second = t\<rparr> \<longleftrightarrow>
      rw_id w = who \<and> rw_capability w = c \<and> rw_backend w = b \<and> rw_dtype w = d \<and>
      rw_tokens_per_second w = t" for who c b d t
    by (cases w) auto
  have schema: "(case m of Some s \<Rightarrow> s | None \<Rightarrow> []) = PROBE_SCHEMA \<longleftrightarrow> m = Some PROBE_SCHEMA" for m
    by (auto simp: PROBE_SCHEMA_def split: option.splits sum.splits)
  show ?thesis
  proof (cases "parse_json (at_probe_json a)")
    case (Inl e)
    then show ?thesis by (simp add: verify_attestation_def)
  next
    case (Inr v)
    note json = this
    show ?thesis
    proof (cases "Option.bind (json_get ''schema'' v) json_as_str = Some PROBE_SCHEMA \<and>
                  (\<exists>probe. parse_probe v = Inr probe)")
      case True
      then obtain probe where p: "parse_probe v = Inr probe" by blast
      have "verify_attestation K recover parse_json parse_probe a = Inr w \<longleftrightarrow>
          recover (attestation_digest K (at_probe_json a) (at_timestamp a)) (at_signature a) = Some (rw_id w) \<and>
          rw_backend w = pr_backend probe \<and> rw_dtype w = pr_dtype probe \<and>
          rw_tokens_per_second w = pr_tokens_per_second probe \<and> rw_capability w = capability_of probe"
        using True json p
        by (auto simp: verify_attestation_def Let_def split: option.splits sum.splits)
      then show ?thesis using json True p unfolding cap by auto
    next
      case False
      then show ?thesis
        using json by (auto simp: verify_attestation_def Let_def schema split: option.splits sum.splits)
    qed
  qed
qed

end
