(* ===== verification/Text_Format.thy ===== *)
theory Text_Format
  imports Prelude
begin

text \<open>
  Numbers as text: \<^verbatim>\<open>to_string\<close> of an unsigned integer, the \<^verbatim>\<open>{:x}\<close> and \<^verbatim>\<open>{:02x}\<close> formats of the
  standard library, \<^verbatim>\<open>char::to_digit\<close>, \<^verbatim>\<open>hex::encode\<close> and \<^verbatim>\<open>hex::decode\<close>.
\<close>

definition digit_char :: "nat \<Rightarrow> char" where
  "digit_char d = char_of (if d < 10 then 48 + d else 87 + d)"

definition to_digit :: "nat \<Rightarrow> char \<Rightarrow> nat option" where
  "to_digit radix c =
     (let n = (of_char c :: nat);
          d = (if 48 \<le> n \<and> n \<le> 57 then n - 48
               else if 97 \<le> n \<and> n \<le> 122 then n - 87
               else if 65 \<le> n \<and> n \<le> 90 then n - 55 else 36)
      in if d < radix then Some d else None)"

function show_base :: "nat \<Rightarrow> nat \<Rightarrow> string" where
  "show_base b n =
     (if n < b \<or> b < 2 then [digit_char (n mod max b 1)]
      else show_base b (n div b) @ [digit_char (n mod b)])"
  by pat_completeness auto
termination by (relation "measure snd") auto

declare show_base.simps [simp del]

definition show_dec :: "nat \<Rightarrow> string" where
  "show_dec n = show_base 10 n"

definition show_hex :: "nat \<Rightarrow> string" where
  "show_hex n = show_base 16 n"

fun digits_value :: "nat \<Rightarrow> nat \<Rightarrow> string \<Rightarrow> nat" where
  "digits_value b acc [] = acc"
| "digits_value b acc (c # cs) =
     digits_value b (acc * b + (case to_digit b c of Some d \<Rightarrow> d | None \<Rightarrow> 0)) cs"

lemma to_digit_char [simp]: "d < b \<Longrightarrow> b \<le> 36 \<Longrightarrow> to_digit b (digit_char d) = Some d"
  by (simp add: to_digit_def digit_char_def Let_def)

lemma digit_char_inject:
  assumes "d < 36" "e < 36"
  shows "digit_char d = digit_char e \<longleftrightarrow> d = e"
proof
  assume "digit_char d = digit_char e"
  then have "to_digit 36 (digit_char d) = to_digit 36 (digit_char e)" by simp
  with assms show "d = e" by simp
qed simp

lemma digits_value_append:
  "digits_value b acc (xs @ ys) = digits_value b (digits_value b acc xs) ys"
  by (induction xs arbitrary: acc) simp_all

lemma digits_value_show:
  assumes "2 \<le> b" "b \<le> 36"
  shows "digits_value b 0 (show_base b n) = n"
proof (induction n rule: less_induct)
  case (less n)
  show ?case
  proof (cases "n < b")
    case True
    with assms show ?thesis by (simp add: show_base.simps [of b n])
  next
    case False
    with assms less [of "n div b"] show ?thesis
      by (simp add: show_base.simps [of b n] digits_value_append)
  qed
qed

lemma show_base_inject:
  "2 \<le> b \<Longrightarrow> b \<le> 36 \<Longrightarrow> show_base b m = show_base b n \<longleftrightarrow> m = n"
  using digits_value_show [of b m] digits_value_show [of b n] by metis

lemma show_base_digits:
  assumes "2 \<le> b" "b \<le> 36" "c \<in> set (show_base b n)"
  shows "\<exists>d < b. c = digit_char d"
  using assms(3)
proof (induction n rule: less_induct)
  case (less n)
  show ?case
  proof (cases "n < b")
    case True
    with less assms show ?thesis by (auto simp: show_base.simps [of b n])
  next
    case False
    with less.prems assms(1) have "c \<in> set (show_base b (n div b)) \<or> c = digit_char (n mod b)"
      by (auto simp: show_base.simps [of b n])
    moreover have "n div b < n" using False assms by (intro div_less_dividend) auto
    moreover have "n mod b < b" using assms(1) by simp
    ultimately show ?thesis using less.IH [of "n div b"] by blast
  qed
qed

lemma not_digit_char: "to_digit b c = None \<Longrightarrow> 2 \<le> b \<Longrightarrow> b \<le> 36 \<Longrightarrow> c \<notin> set (show_base b n)"
  using show_base_digits [of b c n] by auto

lemma show_hex_inject [simp]: "show_hex m = show_hex n \<longleftrightarrow> m = n"
  by (simp add: show_hex_def show_base_inject)

lemma show_dec_inject [simp]: "show_dec m = show_dec n \<longleftrightarrow> m = n"
  by (simp add: show_dec_def show_base_inject)

lemma show_no_sep [simp]:
  "CHR '':'' \<notin> set (show_hex n)" "CHR ''.'' \<notin> set (show_dec n)" "CHR '':'' \<notin> set (show_dec n)"
  by (simp_all add: show_hex_def show_dec_def not_digit_char to_digit_def Let_def)

text \<open>\<open>parse_radix r limit s\<close> is \<^verbatim>\<open>from_str_radix\<close> at an unsigned type with \<open>limit\<close> values: an
  optional plus sign, then at least one digit and nothing else, and no overflow; \<open>parse_uint\<close> is
  \<^verbatim>\<open>s.parse()\<close>.\<close>

definition parse_radix :: "nat \<Rightarrow> nat \<Rightarrow> string \<Rightarrow> nat option" where
  "parse_radix r limit s =
     (let t = (if take 1 s = ''+'' then drop 1 s else s);
          v = digits_value r 0 t
      in if t = [] \<or> list_ex (\<lambda>c. to_digit r c = None) t \<or> v \<ge> limit then None else Some v)"

definition parse_uint :: "nat \<Rightarrow> string \<Rightarrow> nat option" where
  "parse_uint limit s = parse_radix 10 limit s"

lemma show_base_ne [simp]: "show_base b n \<noteq> []"
  by (simp add: show_base.simps [of b n])

lemma parse_show_base:
  assumes n: "n < limit" and r: "2 \<le> r" "r \<le> 36"
  shows "parse_radix r limit (show_base r n) = Some n"
proof -
  have dig: "\<exists>d < r. c = digit_char d" if "c \<in> set (show_base r n)" for c
    using show_base_digits [OF r that] .
  have "CHR ''+'' \<notin> set (show_base r n)"
    using not_digit_char [of r "CHR ''+''" n] r by (simp add: to_digit_def Let_def)
  then have "take 1 (show_base r n) \<noteq> ''+''"
    by (cases "show_base r n") auto
  moreover have "\<not> list_ex (\<lambda>c. to_digit r c = None) (show_base r n)"
    using dig r by (force simp: list_ex_iff)
  moreover have "digits_value r 0 (show_base r n) = n"
    using r by (rule digits_value_show)
  ultimately show ?thesis using n by (simp add: parse_radix_def Let_def)
qed

lemma parse_show_dec [simp]: "n < limit \<Longrightarrow> parse_uint limit (show_dec n) = Some n"
  by (simp add: parse_uint_def show_dec_def parse_show_base)

lemma parse_show_hex [simp]: "n < limit \<Longrightarrow> parse_radix 16 limit (show_hex n) = Some n"
  by (simp add: show_hex_def parse_show_base)

section \<open>Hexadecimal byte strings\<close>

definition hex_byte :: "u8 \<Rightarrow> string" where
  "hex_byte b = [digit_char (unat b div 16), digit_char (unat b mod 16)]"

definition hex_encode :: "bytes \<Rightarrow> string" where
  "hex_encode bs = concat (map hex_byte bs)"

fun hex_decode :: "string \<Rightarrow> bytes option" where
  "hex_decode [] = Some []"
| "hex_decode [c] = None"
| "hex_decode (c # d # cs) =
     (case (to_digit 16 c, to_digit 16 d, hex_decode cs) of
        (Some h, Some l, Some bs) \<Rightarrow> Some (of_nat (16 * h + l) # bs)
      | _ \<Rightarrow> None)"

lemma hex_decode_encode: "hex_decode (hex_encode bs) = Some bs"
proof (induction bs)
  case Nil
  then show ?case by (simp add: hex_encode_def)
next
  case (Cons b bs)
  have "unat b < 256" using unsigned_less [of b, where ?'a = nat] by simp
  then have "unat b div 16 < 16" by (simp add: less_mult_imp_div_less)
  moreover have "(of_nat (16 * (unat b div 16) + unat b mod 16) :: u8) = b"
    by (simp only: mult_div_mod_eq word_of_nat_eq_iff of_nat_unat) simp
  ultimately show ?case using Cons by (simp add: hex_encode_def hex_byte_def)
qed

lemma length_hex_encode [simp, enc_simps]: "length (hex_encode bs) = 2 * length bs"
  by (induction bs) (simp_all add: hex_encode_def hex_byte_def)

section \<open>UTF-8\<close>

text \<open>\<^verbatim>\<open>String::from_utf8\<close>: the well-formed sequences of the Unicode standard.\<close>

definition byte_char :: "u8 \<Rightarrow> char" where
  "byte_char b = char_of (unat b)"

definition cont :: "u8 \<Rightarrow> bool" where
  "cont b \<longleftrightarrow> 0x80 \<le> b \<and> b \<le> 0xBF"

fun valid_utf8 :: "bytes \<Rightarrow> bool" where
  "valid_utf8 [] = True"
| "valid_utf8 (a # bs) =
     (if a \<le> 0x7F then valid_utf8 bs
      else if 0xC2 \<le> a \<and> a \<le> 0xDF then
        (case bs of b # r \<Rightarrow> cont b \<and> valid_utf8 r | _ \<Rightarrow> False)
      else if 0xE0 \<le> a \<and> a \<le> 0xEF then
        (case bs of
           b # c # r \<Rightarrow> cont b \<and> cont c \<and> (a = 0xE0 \<longrightarrow> 0xA0 \<le> b) \<and> (a = 0xED \<longrightarrow> b \<le> 0x9F) \<and> valid_utf8 r
         | _ \<Rightarrow> False)
      else if 0xF0 \<le> a \<and> a \<le> 0xF4 then
        (case bs of
           b # c # d # r \<Rightarrow> cont b \<and> cont c \<and> cont d \<and> (a = 0xF0 \<longrightarrow> 0x90 \<le> b) \<and>
             (a = 0xF4 \<longrightarrow> b \<le> 0x8F) \<and> valid_utf8 r
         | _ \<Rightarrow> False)
      else False)"

text \<open>\<^verbatim>\<open>String::from_utf8_lossy\<close>: every longest prefix of a well-formed sequence that does not go on
  as one, and every byte that cannot start one, becomes the replacement character.\<close>

definition replacement :: bytes where
  "replacement = [0xEF, 0xBF, 0xBD]"

definition second_ok :: "u8 \<Rightarrow> u8 \<Rightarrow> bool" where
  "second_ok a b \<longleftrightarrow> cont b \<and> (a = 0xE0 \<longrightarrow> 0xA0 \<le> b) \<and> (a = 0xED \<longrightarrow> b \<le> 0x9F) \<and>
     (a = 0xF0 \<longrightarrow> 0x90 \<le> b) \<and> (a = 0xF4 \<longrightarrow> b \<le> 0x8F)"

fun utf8_lossy :: "bytes \<Rightarrow> bytes" where
  "utf8_lossy [] = []"
| "utf8_lossy (a # bs) =
     (if a \<le> 0x7F then a # utf8_lossy bs
      else if 0xC2 \<le> a \<and> a \<le> 0xDF then
        (case bs of
           b # r \<Rightarrow> if cont b then a # b # utf8_lossy r else replacement @ utf8_lossy (b # r)
         | [] \<Rightarrow> replacement)
      else if 0xE0 \<le> a \<and> a \<le> 0xEF then
        (case bs of
           b # r \<Rightarrow>
             if \<not> second_ok a b then replacement @ utf8_lossy (b # r)
             else (case r of
                     c # r2 \<Rightarrow> if cont c then a # b # c # utf8_lossy r2 else replacement @ utf8_lossy (c # r2)
                   | [] \<Rightarrow> replacement)
         | [] \<Rightarrow> replacement)
      else if 0xF0 \<le> a \<and> a \<le> 0xF4 then
        (case bs of
           b # r \<Rightarrow>
             if \<not> second_ok a b then replacement @ utf8_lossy (b # r)
             else (case r of
                     c # r2 \<Rightarrow>
                       if \<not> cont c then replacement @ utf8_lossy (c # r2)
                       else (case r2 of
                               d # r3 \<Rightarrow> if cont d then a # b # c # d # utf8_lossy r3
                                          else replacement @ utf8_lossy (d # r3)
                             | [] \<Rightarrow> replacement)
                   | [] \<Rightarrow> replacement)
         | [] \<Rightarrow> replacement)
      else replacement @ utf8_lossy bs)"

lemma utf8_lossy_valid: "valid_utf8 bs \<Longrightarrow> utf8_lossy bs = bs"
proof (induction bs rule: length_induct)
  case (1 bs)
  show ?case
  proof (cases bs)
    case Nil
    then show ?thesis by simp
  next
    case (Cons a as)
    note valid = "1.prems" [unfolded Cons valid_utf8.simps]
    have IH: "utf8_lossy r = r" if "valid_utf8 r" "length r \<le> length as" for r
      using 1 that by (simp add: Cons)
    consider "a \<le> 0x7F" | "\<not> a \<le> 0x7F" "0xC2 \<le> a \<and> a \<le> 0xDF"
      | "\<not> a \<le> 0x7F" "\<not> (0xC2 \<le> a \<and> a \<le> 0xDF)" "0xE0 \<le> a \<and> a \<le> 0xEF"
      | "\<not> a \<le> 0x7F" "\<not> (0xC2 \<le> a \<and> a \<le> 0xDF)" "\<not> (0xE0 \<le> a \<and> a \<le> 0xEF)" "0xF0 \<le> a \<and> a \<le> 0xF4"
      using valid by (auto split: if_splits)
    then show ?thesis
    proof cases
      case 1
      with valid show ?thesis by (simp add: Cons IH)
    next
      case 2
      with valid obtain b r where "as = b # r" "cont b" "valid_utf8 r" by (auto split: list.splits)
      with 2 show ?thesis by (simp add: Cons IH)
    next
      case 3
      then have "a \<noteq> 0xF0" "a \<noteq> 0xF4" by auto
      with 3 valid obtain b c r where r: "as = b # c # r" "second_ok a b" "cont c" "valid_utf8 r"
        by (auto simp: second_ok_def split: list.splits)
      from 3 r show ?thesis
        by (simp only: Cons, subst utf8_lossy.simps(2)) (simp only: simp_thms if_False if_True list.case r IH length_Cons le_SucI order_refl)
    next
      case 4
      then have "a \<noteq> 0xE0" "a \<noteq> 0xED" by auto
      with 4 valid obtain b c d r where r: "as = b # c # d # r" "second_ok a b" "cont c" "cont d" "valid_utf8 r"
        by (auto simp: second_ok_def split: list.splits)
      from 4 r show ?thesis
        by (simp only: Cons, subst utf8_lossy.simps(2)) (simp only: simp_thms if_False if_True list.case r IH length_Cons le_SucI order_refl)
    qed
  qed
qed

section \<open>White space\<close>

text \<open>\<^verbatim>\<open>s.trim().is_empty()\<close>: nothing but Unicode white space, in UTF-8.\<close>

fun only_white_space :: "bytes \<Rightarrow> bool" where
  "only_white_space [] = True"
| "only_white_space (a # r) =
     (if a \<in> {9, 10, 11, 12, 13, 32} then only_white_space r
      else
        case r of
          [] \<Rightarrow> False
        | b # r2 \<Rightarrow>
            if a = 0xC2 \<and> b \<in> {0x85, 0xA0} then only_white_space r2
            else
              case r2 of
                [] \<Rightarrow> False
              | c # r3 \<Rightarrow>
                  (a = 0xE1 \<and> b = 0x9A \<and> c = 0x80 \<or>
                   a = 0xE2 \<and> b = 0x80 \<and> (0x80 \<le> c \<and> c \<le> 0x8A \<or> c \<in> {0xA8, 0xA9, 0xAF}) \<or>
                   a = 0xE2 \<and> b = 0x81 \<and> c = 0x9F \<or>
                   a = 0xE3 \<and> b = 0x80 \<and> c = 0x80) \<and> only_white_space r3)"

end
