(* ===== verification/Net_Source.thy ===== *)
theory Net_Source
  imports Text_Format Coordinator_State
begin

text \<open>
  Where a request came from: \<^verbatim>\<open>source_of\<close> of \<^verbatim>\<open>training-coordinator/src/api.rs\<close>, with the parts of
  \<^verbatim>\<open>std::net\<close> it uses.  An IPv4 address is its 32 bits, an IPv6 address its 128 bits, both
  big-endian.  The \<^verbatim>\<open>x-forwarded-for\<close> header is \<open>None\<close> when it is absent or not visible ASCII.
\<close>

datatype ip_addr = V4 u32 | V6 u128

section \<open>Parsing an address, as the standard library does\<close>

fun take_digits :: "nat \<Rightarrow> nat \<Rightarrow> string \<Rightarrow> nat list \<times> string" where
  "take_digits radix n [] = ([], [])"
| "take_digits radix n (c # cs) =
     (case to_digit radix c of
        None \<Rightarrow> ([], c # cs)
      | Some d \<Rightarrow> (let (ds, rest) = take_digits radix n cs in (d # ds, rest)))"

definition read_number :: "nat \<Rightarrow> nat \<Rightarrow> nat \<Rightarrow> bool \<Rightarrow> string \<Rightarrow> (nat \<times> string) option" where
  "read_number radix max_digits limit allow_zero_prefix s =
     (let (ds, rest) = take_digits radix 0 s;
          v = foldl (\<lambda>a d. a * radix + d) 0 ds
      in if ds = [] \<or> length ds > max_digits \<or> v \<ge> limit \<or>
            (\<not> allow_zero_prefix \<and> length ds > 1 \<and> hd ds = 0)
         then None else Some (v, rest))"

definition read_char :: "char \<Rightarrow> string \<Rightarrow> string option" where
  "read_char c s = (case s of x # xs \<Rightarrow> if x = c then Some xs else None | [] \<Rightarrow> None)"

text \<open>\<open>read_separator c i\<close> wants the separator before every item but the first.\<close>

definition read_separator :: "char \<Rightarrow> nat \<Rightarrow> (string \<Rightarrow> ('a \<times> string) option) \<Rightarrow> string \<Rightarrow>
    ('a \<times> string) option" where
  "read_separator c i p s = (if i > 0 then Option.bind (read_char c s) p else p s)"

fun read_octets :: "nat \<Rightarrow> nat \<Rightarrow> nat \<Rightarrow> string \<Rightarrow> (nat \<times> string) option" where
  "read_octets 0 i acc s = Some (acc, s)"
| "read_octets (Suc n) i acc s =
     (case read_separator (CHR ''.'') i (read_number 10 3 256 False) s of
        None \<Rightarrow> None
      | Some (v, rest) \<Rightarrow> read_octets n (Suc i) (256 * acc + v) rest)"

definition read_ipv4 :: "string \<Rightarrow> (nat \<times> string) option" where
  "read_ipv4 s = read_octets 4 0 0 s"

text \<open>\<open>read_groups n i gs s\<close> reads at most \<open>n\<close> more groups; the flag says that an embedded IPv4
  address ended them.\<close>

fun read_groups :: "nat \<Rightarrow> nat \<Rightarrow> nat list \<Rightarrow> string \<Rightarrow> nat list \<times> bool \<times> string" where
  "read_groups 0 i gs s = (gs, False, s)"
| "read_groups (Suc n) i gs s =
     (case (if n > 0 then read_separator (CHR '':'') i read_ipv4 s else None) of
        Some (v, rest) \<Rightarrow> (gs @ [v div 65536, v mod 65536], True, rest)
      | None \<Rightarrow>
          (case read_separator (CHR '':'') i (read_number 16 4 65536 True) s of
             Some (g, rest) \<Rightarrow> read_groups n (Suc i) (gs @ [g]) rest
           | None \<Rightarrow> (gs, False, s)))"

definition groups_value :: "nat list \<Rightarrow> nat" where
  "groups_value gs = foldl (\<lambda>a g. a * 65536 + g) 0 gs"

definition read_ipv6 :: "string \<Rightarrow> (nat \<times> string) option" where
  "read_ipv6 s =
     (let (head, v4, rest) = read_groups 8 0 [] s in
      if length head = 8 then Some (groups_value head, rest)
      else if v4 then None
      else
        case Option.bind (read_char (CHR '':'') rest) (read_char (CHR '':'')) of
          None \<Rightarrow> None
        | Some rest2 \<Rightarrow>
            let (tail, _, rest3) = read_groups (8 - (length head + 1)) 0 [] rest2
            in Some (groups_value (head @ replicate (8 - length tail - length head) 0 @ tail), rest3))"

definition parse_ip :: "string \<Rightarrow> ip_addr option" where
  "parse_ip s =
     (case read_ipv4 s of
        Some (v, rest) \<Rightarrow> if rest = [] then Some (V4 (of_nat v)) else None
      | None \<Rightarrow>
          (case read_ipv6 s of
             Some (v, rest) \<Rightarrow> if rest = [] then Some (V6 (of_nat v)) else None
           | None \<Rightarrow> None))"

section \<open>The source of a request\<close>

definition is_loopback :: "ip_addr \<Rightarrow> bool" where
  "is_loopback ip = (case ip of V4 a \<Rightarrow> drop_bit 24 a = 127 | V6 a \<Rightarrow> a = 1)"

text \<open>The eight 16-bit segments, as numbers, most significant first.\<close>

definition segment :: "u128 \<Rightarrow> nat \<Rightarrow> nat" where
  "segment a i = unat a div 65536 ^ (7 - i) mod 65536"

definition show_v4 :: "u32 \<Rightarrow> string" where
  "show_v4 a =
     show_dec (unat a div 16777216 mod 256) @ ''.'' @ show_dec (unat a div 65536 mod 256) @ ''.'' @
     show_dec (unat a div 256 mod 256) @ ''.'' @ show_dec (unat a mod 256)"

definition show_source :: "ip_addr option \<Rightarrow> string" where
  "show_source ip =
     (case ip of
        Some (V6 a) \<Rightarrow>
          show_hex (segment a 0) @ '':'' @ show_hex (segment a 1) @ '':'' @
          show_hex (segment a 2) @ '':'' @ show_hex (segment a 3) @ ''::/64''
      | Some (V4 a) \<Rightarrow> show_v4 a
      | None \<Rightarrow> ''unknown'')"

definition source_of :: "ip_addr option \<Rightarrow> string option \<Rightarrow> string" where
  "source_of peer forwarded =
     show_source
       (case peer of
          Some p \<Rightarrow>
            if \<not> is_loopback p then Some p
            else
              (case Option.bind forwarded (\<lambda>v. parse_ip (trim (last (split_on (CHR '','') v)))) of
                 Some ip \<Rightarrow> Some ip
               | None \<Rightarrow> Some (V4 0x7F000001))
        | None \<Rightarrow> None)"

section \<open>Sources and groups are address prefixes\<close>

lemma div_mod_eq_iff: "x div m = y div m \<and> x mod m = y mod m \<longleftrightarrow> x = (y :: nat)"
  by (metis mult_div_mod_eq)

lemma top_segments:
  "segment a 0 = unat a div 65536 ^ 7" "segment a 1 = unat a div 65536 ^ 6 mod 65536"
  "segment a 2 = unat a div 65536 ^ 5 mod 65536" "segment a 3 = unat a div 65536 ^ 4 mod 65536"
proof -
  have "unat a < 2 ^ 128" using unsigned_less [of a, where ?'a = nat] by simp
  then have "unat a div 65536 ^ 7 < 65536" by (simp add: div_less_iff_less_mult)
  then show "segment a 0 = unat a div 65536 ^ 7" by (simp add: segment_def)
qed (simp_all add: segment_def)

lemma prefix_segments:
  "drop_bit 64 a = drop_bit 64 b \<longleftrightarrow>
     segment a 0 = segment b 0 \<and> segment a 1 = segment b 1 \<and> segment a 2 = segment b 2 \<and>
     segment a 3 = segment b 3"
  "drop_bit 80 a = drop_bit 80 b \<longleftrightarrow>
     segment a 0 = segment b 0 \<and> segment a 1 = segment b 1 \<and> segment a 2 = segment b 2"
proof -
  have drop: "drop_bit n a = drop_bit n b \<longleftrightarrow> unat a div 2 ^ n = unat b div 2 ^ n" for n
  proof -
    have "unat (drop_bit n x) = unat x div 2 ^ n" for x :: u128
      by (metis drop_bit_eq_div take_bit_nat_eq_self unsigned_drop_bit_eq unsigned_less)
    then show ?thesis by (simp add: word_unat_eq_iff)
  qed
  have shift: "x div 65536 ^ n div 65536 = x div 65536 ^ Suc n" for x n :: nat
    by (simp only: div_mult2_eq [symmetric] power_Suc2)
  have step: "x div 65536 ^ n = y div 65536 ^ n \<longleftrightarrow>
      x div 65536 ^ Suc n = y div 65536 ^ Suc n \<and> x div 65536 ^ n mod 65536 = y div 65536 ^ n mod 65536"
    for x y n :: nat
    using div_mod_eq_iff [of "x div 65536 ^ n" 65536 "y div 65536 ^ n"] unfolding shift by blast
  have sucs: "Suc 6 = 7" "Suc 5 = 6" "Suc 4 = 5" by simp_all
  note steps = step [of "unat a" 6 "unat b"] step [of "unat a" 5 "unat b"]
    step [of "unat a" 4 "unat b"]
  have pow: "(2 :: nat) ^ 64 = 65536 ^ 4" "(2 :: nat) ^ 80 = 65536 ^ 5" by simp_all
  show "drop_bit 64 a = drop_bit 64 b \<longleftrightarrow>
     segment a 0 = segment b 0 \<and> segment a 1 = segment b 1 \<and> segment a 2 = segment b 2 \<and>
     segment a 3 = segment b 3"
    using steps unfolding drop pow top_segments sucs by blast
  show "drop_bit 80 a = drop_bit 80 b \<longleftrightarrow>
     segment a 0 = segment b 0 \<and> segment a 1 = segment b 1 \<and> segment a 2 = segment b 2"
    using steps unfolding drop pow top_segments sucs by blast
qed

lemma split_on_append:
  "c \<notin> set xs \<Longrightarrow> split_on c (xs @ c # ys) = xs # split_on c ys"
  by (induction xs) auto

lemma split_on_none: "c \<notin> set xs \<Longrightarrow> split_on c xs = [xs]"
  by (induction xs) auto

lemma v6_source: "source_of (Some (V6 a)) f =
    (if a = 1 then source_of (Some (V6 1)) f
     else show_hex (segment a 0) @ '':'' @ show_hex (segment a 1) @ '':'' @
          show_hex (segment a 2) @ '':'' @ show_hex (segment a 3) @ ''::/64'')"
  by (simp add: source_of_def show_source_def is_loopback_def)

lemma strip_suffix_append [simp]: "strip_suffix p (xs @ p) = Some xs"
  by (simp add: strip_suffix_def strip_prefix_def)

lemma strip_suffix_Some: "strip_suffix p s = Some r \<Longrightarrow> s = r @ p"
  by (auto simp: strip_suffix_def strip_prefix_def split: if_splits)
    (metis append_take_drop_id rev_append rev_rev_ident)

lemma source_group_v6:
  assumes "a \<noteq> 1"
  shows "source_group (source_of (Some (V6 a)) f) =
    show_hex (segment a 0) @ '':'' @ show_hex (segment a 1) @ '':'' @ show_hex (segment a 2) @ ''::/48''"
proof -
  let ?s = "\<lambda>i. show_hex (segment a i)"
  have "source_of (Some (V6 a)) f = (?s 0 @ '':'' @ ?s 1 @ '':'' @ ?s 2 @ '':'' @ ?s 3) @ ''::/64''"
    using assms by (simp add: v6_source)
  moreover have "split_on (CHR '':'') (?s 0 @ '':'' @ ?s 1 @ '':'' @ ?s 2 @ '':'' @ ?s 3) =
      [?s 0, ?s 1, ?s 2, ?s 3]"
    by (simp add: split_on_append split_on_none)
  ultimately show ?thesis
    by (simp only: source_group_def strip_suffix_append option.case Let_def) simp
qed

lemma source_group_v4:
  assumes "\<not> is_loopback (V4 x)"
  shows "source_of (Some (V4 x)) f = show_v4 x" "source_group (show_v4 x) = show_v4 x"
proof -
  show "source_of (Some (V4 x)) f = show_v4 x"
    using assms by (simp add: source_of_def show_source_def)
  have "CHR '':'' \<notin> set (show_v4 x)" by (simp add: show_v4_def)
  then have "strip_suffix ''::/64'' (show_v4 x) = None"
    by (cases "strip_suffix ''::/64'' (show_v4 x)") (auto dest: strip_suffix_Some)
  then show "source_group (show_v4 x) = show_v4 x" by (simp add: source_group_def)
qed

lemma hex_split:
  "show_hex m @ CHR '':'' # xs = show_hex n @ CHR '':'' # ys \<longleftrightarrow> m = n \<and> xs = ys"
  by (simp add: split_at_first)

lemma dec_split:
  "show_dec m @ CHR ''.'' # xs = show_dec n @ CHR ''.'' # ys \<longleftrightarrow> m = n \<and> xs = ys"
  by (simp add: split_at_first)

lemma show_v4_inject: "show_v4 x = show_v4 y \<longleftrightarrow> x = y"
proof
  assume eq: "show_v4 x = show_v4 y"
  let ?x = "unat x" and ?y = "unat y"
  have "?x < 2 ^ 32" "?y < 2 ^ 32" using unsigned_less [of x] unsigned_less [of y] by simp_all
  then have top: "?x div 16777216 mod 256 = ?x div 16777216" "?y div 16777216 mod 256 = ?y div 16777216"
    by simp_all
  have d: "?x div 16777216 = ?y div 16777216" "?x div 65536 mod 256 = ?y div 65536 mod 256"
    "?x div 256 mod 256 = ?y div 256 mod 256" "?x mod 256 = ?y mod 256"
    using eq by (simp_all add: show_v4_def dec_split top)
  have "z div 256 div 256 = z div 65536" "z div 65536 div 256 = z div 16777216" for z :: nat
    by (simp_all only: div_mult2_eq [symmetric], simp_all)
  with d div_mod_eq_iff [of "?x div 65536" 256 "?y div 65536"]
    div_mod_eq_iff [of "?x div 256" 256 "?y div 256"] div_mod_eq_iff [of ?x 256 ?y]
  have "?x = ?y" by simp
  then show "x = y" by (simp add: word_unat_eq_iff)
qed simp

text \<open>The identity cap counts address prefixes.  For a peer that is not the local proxy the
  header is ignored; two IPv6 peers are one source exactly when they share their /64 and one group
  exactly when they share their /48; two IPv4 peers are one source, and one group, only when they
  are the same address.\<close>

theorem source_is_prefix:
  assumes "\<not> is_loopback (V6 a)" and "\<not> is_loopback (V6 b)"
    and "\<not> is_loopback (V4 x)" and "\<not> is_loopback (V4 y)"
  shows "(source_of (Some (V6 a)) f = source_of (Some (V6 b)) g \<longleftrightarrow> drop_bit 64 a = drop_bit 64 b) \<and>
    (source_group (source_of (Some (V6 a)) f) = source_group (source_of (Some (V6 b)) g) \<longleftrightarrow>
       drop_bit 80 a = drop_bit 80 b) \<and>
    (source_of (Some (V4 x)) f = source_of (Some (V4 y)) g \<longleftrightarrow> x = y) \<and>
    (source_group (source_of (Some (V4 x)) f) = source_group (source_of (Some (V4 y)) g) \<longleftrightarrow> x = y) \<and>
    source_group (source_of (Some (V4 x)) f) \<noteq> source_group (source_of (Some (V6 a)) g)"
proof -
  have ab: "a \<noteq> 1" "b \<noteq> 1" using assms by (simp_all add: is_loopback_def)
  have "CHR '':'' \<notin> set (show_v4 x)" by (simp add: show_v4_def)
  moreover have "CHR '':'' \<in> set (source_group (source_of (Some (V6 a)) g))"
    using ab by (simp add: source_group_v6)
  ultimately have "source_group (source_of (Some (V4 x)) f) \<noteq> source_group (source_of (Some (V6 a)) g)"
    using assms by (metis source_group_v4)
  moreover have "source_of (Some (V6 a)) f = source_of (Some (V6 b)) g \<longleftrightarrow> drop_bit 64 a = drop_bit 64 b"
    using ab by (simp add: v6_source prefix_segments hex_split)
  moreover have "source_group (source_of (Some (V6 a)) f) = source_group (source_of (Some (V6 b)) g) \<longleftrightarrow>
      drop_bit 80 a = drop_bit 80 b"
    using ab by (simp add: source_group_v6 prefix_segments hex_split)
  ultimately show ?thesis
    using assms by (simp add: source_group_v4 show_v4_inject)
qed

theorem source_is_prefix_witness:
  "(source_of (Some (V6 0x20010db8000000010000000000000007)) None =
    source_of (Some (V6 0x20010db8000000010000000000000009)) None) =
   (drop_bit 64 (0x20010db8000000010000000000000007 :: u128) = drop_bit 64 0x20010db8000000010000000000000009)"
  using source_is_prefix [of "0x20010db8000000010000000000000007" "0x20010db8000000010000000000000009"
      "0x0A000005" "0x0A000006" None None]
  by (simp add: is_loopback_def)

end
