(* ===== verification/Coordinator_Ops.thy ===== *)
theory Coordinator_Ops
  imports Coordinator_State
begin

text \<open>
  The operations of \<^verbatim>\<open>training-coordinator/src/state.rs\<close>, one definition per method.  A method
  that takes \<^verbatim>\<open>&mut self\<close> and returns a value returns the pair of the value and the new
  state; an early return keeps the changes made before it, as the code does.
\<close>

section \<open>Jobs and workers\<close>

definition add_job :: "job_spec \<Rightarrow> state \<Rightarrow> state" where
  "add_job spec st =
     st\<lparr>st_dirty := True,
        st_jobs := bt_insert (js_id spec)
          \<lparr>jr_spec = spec, jr_status = Pending, jr_attempts = 0, jr_failed_by = {},
           jr_result = None, jr_failed_by_sources = {}, jr_held_until = 0,
           jr_persisted_expiry = 0\<rparr> (st_jobs st)\<rparr>"

text \<open>Workers holding a lease that is still live at \<open>now\<close>.\<close>

fun live_holder :: "u64 \<Rightarrow> job_record \<Rightarrow> address option" where
  "live_holder now r =
     (case jr_status r of
        Leased worker expires_at _ \<Rightarrow> if expires_at > now then Some worker else None
      | _ \<Rightarrow> None)"

definition leaseholders :: "u64 \<Rightarrow> state \<Rightarrow> address set" where
  "leaseholders now st = set (List.map_filter (live_holder now) (bt_values (st_jobs st)))"

text \<open>Keeping a dropped worker's no-show history: a full table first drops the entry whose
  cool-down ends first.\<close>

definition keep_penalty ::
  "address \<Rightarrow> penalty \<Rightarrow> (address, penalty) btree \<Rightarrow> (address, penalty) btree" where
  "keep_penalty who pn ps =
     bt_insert who pn
       (if length ps \<ge> MAX_WORKERS \<and> \<not> bt_has ps who
        then (case min_by_key (\<lambda>(_, p). pn_cooldown_until p) ps of
                Some (oldest, _) \<Rightarrow> bt_remove oldest ps
              | None \<Rightarrow> ps)
        else ps)"

definition forget_worker :: "address \<Rightarrow> u64 \<Rightarrow> state \<Rightarrow> state" where
  "forget_worker who now st =
     (case bt_get (st_workers st) who of
        None \<Rightarrow> st
      | Some r \<Rightarrow>
          let st1 = st\<lparr>st_workers := bt_remove who (st_workers st)\<rparr> in
          if wr_noshows r = 0 \<and> wr_cooldown_until r \<le> now then st1
          else st1\<lparr>st_penalties := keep_penalty who
                 \<lparr>pn_noshows = wr_noshows r, pn_cooldown_until = wr_cooldown_until r\<rparr>
                 (st_penalties st1)\<rparr>)"

definition from_source :: "string \<Rightarrow> state \<Rightarrow> (address \<times> worker_record) list" where
  "from_source source st =
     filter (\<lambda>(i, r). wr_source r = source \<and> \<not> is_trusted (st_policy st) i) (st_workers st)"

definition slot_stale :: "address set \<Rightarrow> u64 \<Rightarrow> address \<times> u64 \<Rightarrow> bool" where
  "slot_stale holders now e =
     (sat_sub now (snd e) \<ge> SOURCE_SLOT_STALE_SECS \<and> fst e \<notin> holders)"

definition make_room_for_source ::
  "string \<Rightarrow> address set \<Rightarrow> u64 \<Rightarrow> state \<Rightarrow> (register_error + unit) \<times> state" where
  "make_room_for_source source holders now st =
     (let from = map (\<lambda>(i, r). (i, wr_last_seen r)) (from_source source st) in
      if length from < po_max_workers_per_source (st_policy st) then (Inr (), st)
      else
        case min_by_key snd (filter (slot_stale holders now) from) of
          None \<Rightarrow> (Inl SourceFull, st)
        | Some (stale, _) \<Rightarrow> (Inr (), forget_worker stale now st))"

definition admits_new :: "address \<Rightarrow> string \<Rightarrow> u64 \<Rightarrow> state \<Rightarrow> register_error + unit" where
  "admits_new who source now st =
     (if is_trusted (st_policy st) who then Inr ()
      else
        let holders = leaseholders now st;
            from = from_source source st
        in if length from < po_max_workers_per_source (st_policy st) then Inr ()
           else if \<exists>e \<in> set from. slot_stale holders now (fst e, wr_last_seen (snd e)) then Inr ()
           else Inl SourceFull)"

definition refreshed :: "registered_worker \<Rightarrow> u64 \<Rightarrow> worker_record \<Rightarrow> worker_record" where
  "refreshed w now e =
     e\<lparr>wr_last_registration := now, wr_capability := rw_capability w, wr_backend := rw_backend w,
       wr_dtype := rw_dtype w, wr_tokens_per_second := rw_tokens_per_second w,
       wr_last_seen := now\<rparr>"

definition new_worker :: "registered_worker \<Rightarrow> string \<Rightarrow> u64 \<Rightarrow> penalty \<Rightarrow> worker_record" where
  "new_worker w source now pn =
     \<lparr>wr_capability = rw_capability w, wr_backend = rw_backend w, wr_dtype = rw_dtype w,
      wr_tokens_per_second = rw_tokens_per_second w, wr_registered_at = now, wr_last_seen = now,
      wr_source = source, wr_noshows = pn_noshows pn, wr_cooldown_until = pn_cooldown_until pn,
      wr_delivered = 0, wr_last_registration = now, wr_last_engaged = None\<rparr>"

text \<open>The registry's own bound: the least recently seen worker that is neither vouched nor
  mid-job makes room.\<close>

definition make_room_in_registry ::
  "address set \<Rightarrow> u64 \<Rightarrow> state \<Rightarrow> (register_error + unit) \<times> state" where
  "make_room_in_registry holders now st =
     (if length (st_workers st) \<ge> MAX_WORKERS then
        case min_by_key (\<lambda>(_, r). wr_last_seen r)
               (filter (\<lambda>(i, _). \<not> is_trusted (st_policy st) i \<and> i \<notin> holders) (st_workers st)) of
          None \<Rightarrow> (Inl RegistryFull, st)
        | Some (evict, _) \<Rightarrow> (Inr (), forget_worker evict now st)
      else (Inr (), st))"

definition insert_worker :: "registered_worker \<Rightarrow> string \<Rightarrow> u64 \<Rightarrow> state \<Rightarrow> state" where
  "insert_worker w source now st =
     (let pn = (case bt_get (st_penalties st) (rw_id w) of Some p \<Rightarrow> p | None \<Rightarrow> default_penalty)
      in st\<lparr>st_penalties := bt_remove (rw_id w) (st_penalties st),
            st_workers := bt_insert (rw_id w) (new_worker w source now pn) (st_workers st)\<rparr>)"

definition register ::
  "registered_worker \<Rightarrow> string \<Rightarrow> u64 \<Rightarrow> state \<Rightarrow> (register_error + capability) \<times> state" where
  "register w source now st =
     (let granted = effective_capability (st_policy st) (rw_id w) (rw_capability w) in
      case bt_get (st_workers st) (rw_id w) of
        Some e \<Rightarrow>
          (Inr granted,
           st\<lparr>st_workers := bt_modify (rw_id w) (refreshed w now) (st_workers st),
              st_dirty := (st_dirty st \<or> wr_capability e \<noteq> rw_capability w)\<rparr>)
      | None \<Rightarrow>
          let st0 = st\<lparr>st_dirty := True\<rparr>;
              holders = leaseholders now st0;
              (room, st1) = (if is_trusted (st_policy st) (rw_id w) then (Inr (), st0)
                             else make_room_for_source source holders now st0)
          in (case room of
                Inl e \<Rightarrow> (Inl e, st1)
              | Inr _ \<Rightarrow>
                  let (slot, st2) = make_room_in_registry holders now st1 in
                  case slot of
                    Inl e \<Rightarrow> (Inl e, st2)
                  | Inr _ \<Rightarrow> (Inr granted, insert_worker w source now st2)))"

section \<open>Lapsed leases\<close>

definition charge_source :: "u64 \<Rightarrow> string \<Rightarrow> state \<Rightarrow> state" where
  "charge_source now grp st =
     (let ss = st_sources st;
          ss1 = (if \<not> bt_has ss grp \<and> length ss \<ge> MAX_SOURCES
                 then (case min_by_key (\<lambda>(_, r). (sr_cooldown_until r > now, sr_last_seen r)) ss of
                         Some (v, _) \<Rightarrow> bt_remove v ss
                       | None \<Rightarrow> ss)
                 else ss);
          rec = (case bt_get ss1 grp of Some r \<Rightarrow> r | None \<Rightarrow> default_source);
          n = sat_add (sr_noshows rec) 1
      in st\<lparr>st_sources := bt_insert grp
              \<lparr>sr_noshows = n, sr_cooldown_until = sat_add now (noshow_backoff n),
               sr_last_seen = now\<rparr> ss1\<rparr>)"

definition charge_worker :: "u64 \<Rightarrow> worker_record \<Rightarrow> worker_record" where
  "charge_worker now w =
     (let n = sat_add (wr_noshows w) 1
      in w\<lparr>wr_noshows := n, wr_cooldown_until := sat_add now (noshow_backoff n)\<rparr>)"

text \<open>The record of a job whose lease by \<open>worker\<close> lapsed.\<close>

definition lapse :: "u64 \<Rightarrow> address \<Rightarrow> string option \<Rightarrow> job_record \<Rightarrow> job_record" where
  "lapse now worker grp r =
     r\<lparr>jr_failed_by := insert worker (jr_failed_by r), jr_status := Pending,
       jr_held_until := sat_add now LAPSE_HOLD_SECS,
       jr_failed_by_sources :=
         (case grp of Some g \<Rightarrow> insert g (jr_failed_by_sources r) | None \<Rightarrow> jr_failed_by_sources r)\<rparr>"

definition lapse_group :: "policy \<Rightarrow> address \<Rightarrow> (address, worker_record) btree \<Rightarrow> string option" where
  "lapse_group p worker ws =
     (case bt_get ws worker of
        Some w \<Rightarrow> if is_trusted p worker then None else Some (source_group (wr_source w))
      | None \<Rightarrow> None)"

text \<open>The loop over the jobs in key order: the jobs and workers rewritten, the ids freed and the
  groups to charge.\<close>

fun expire_loop ::
  "policy \<Rightarrow> u64 \<Rightarrow> (job_id, job_record) btree \<Rightarrow> (address, worker_record) btree \<Rightarrow>
   (job_id, job_record) btree \<times> (address, worker_record) btree \<times> job_id list \<times> string list" where
  "expire_loop p now [] ws = ([], ws, [], [])"
| "expire_loop p now ((i, r) # js) ws =
     (case jr_status r of
        Leased worker expires_at _ \<Rightarrow>
          if expires_at > now then
            let (js', ws', freed, groups) = expire_loop p now js ws
            in ((i, r) # js', ws', freed, groups)
          else
            let grp = lapse_group p worker ws;
                (js', ws', freed, groups) =
                  expire_loop p now js (bt_modify worker (charge_worker now) ws)
            in ((i, lapse now worker grp r) # js', ws', i # freed,
                (case grp of Some g \<Rightarrow> g # groups | None \<Rightarrow> groups))
      | _ \<Rightarrow>
          let (js', ws', freed, groups) = expire_loop p now js ws
          in ((i, r) # js', ws', freed, groups))"

definition expire_leases :: "u64 \<Rightarrow> state \<Rightarrow> job_id list \<times> state" where
  "expire_leases now st =
     (let (js, ws, freed, groups) = expire_loop (st_policy st) now (st_jobs st) (st_workers st);
          st1 = st\<lparr>st_jobs := js, st_workers := ws, st_dirty := (st_dirty st \<or> freed \<noteq> [])\<rparr>
      in (freed, fold (charge_source now) groups st1))"

section \<open>Leasing\<close>

definition tier_allowed :: "policy \<Rightarrow> address \<Rightarrow> capability \<Rightarrow> bool" where
  "tier_allowed p worker requires = satisfies (effective_capability p worker H01) requires"

definition vouched_candidate :: "state \<Rightarrow> job_record \<Rightarrow> u64 \<Rightarrow> address \<times> worker_record \<Rightarrow> bool" where
  "vouched_candidate st r now e =
     (let (i, w) = e; p = st_policy st in
      is_trusted p i \<and>
      (case wr_last_engaged w of Some t \<Rightarrow> sat_sub now t < VOUCHED_ACTIVE_SECS | None \<Rightarrow> False) \<and>
      i \<notin> jr_failed_by r \<and>
      satisfies (effective_capability p i (wr_capability w)) (js_requires (jr_spec r)))"

definition reserved_for_vouched :: "state \<Rightarrow> job_record \<Rightarrow> u64 \<Rightarrow> bool" where
  "reserved_for_vouched st r now =
     (if jr_held_until r = 0 then False
      else if jr_held_until r > now then True
      else if js_requires (jr_spec r) = Probe then False
      else
        let lapsed_at = sat_sub (jr_held_until r) LAPSE_HOLD_SECS in
        if now \<ge> sat_add lapsed_at (reservation_cap (js_lease_secs (jr_spec r))) then False
        else \<exists>e \<in> set (st_workers st). vouched_candidate st r now e)"

fun held_by :: "address \<Rightarrow> job_status \<Rightarrow> bool" where
  "held_by worker (Leased h _ _) \<longleftrightarrow> h = worker"
| "held_by worker _ \<longleftrightarrow> False"

fun held_or_done_by :: "address \<Rightarrow> job_status \<Rightarrow> bool" where
  "held_or_done_by worker (Leased h _ _) \<longleftrightarrow> h = worker"
| "held_or_done_by worker (Done h _) \<longleftrightarrow> h = worker"
| "held_or_done_by worker _ \<longleftrightarrow> False"

fun leased_worker :: "job_status \<Rightarrow> address option" where
  "leased_worker (Leased h _ _) = Some h"
| "leased_worker _ = None"

definition held_count :: "address \<Rightarrow> state \<Rightarrow> nat" where
  "held_count worker st =
     length (filter (\<lambda>r. held_by worker (jr_status r)) (bt_values (st_jobs st)))"

definition in_group :: "state \<Rightarrow> string \<Rightarrow> address \<Rightarrow> bool" where
  "in_group st grp h \<longleftrightarrow>
     (case bt_get (st_workers st) h of Some w \<Rightarrow> source_group (wr_source w) = grp | None \<Rightarrow> False)"

definition group_count :: "string \<Rightarrow> state \<Rightarrow> nat" where
  "group_count grp st =
     length (filter (\<lambda>h. \<not> is_trusted (st_policy st) h \<and> in_group st grp h)
       (List.map_filter (\<lambda>r. leased_worker (jr_status r)) (bt_values (st_jobs st))))"

type_synonym payload_parser = "json \<Rightarrow> lora_payload option"

definition rounds_of ::
  "(bytes \<Rightarrow> b256) \<Rightarrow> payload_parser \<Rightarrow> address \<Rightarrow> state \<Rightarrow> b256 set" where
  "rounds_of K parse worker st =
     set (List.map_filter
       (\<lambda>r. case lora_round_of K parse (jr_spec r) of Round p \<Rightarrow> Some (lp_round_id p) | _ \<Rightarrow> None)
       (filter (\<lambda>r. held_or_done_by worker (jr_status r)) (bt_values (st_jobs st))))"

definition round_allows ::
  "(bytes \<Rightarrow> b256) \<Rightarrow> payload_parser \<Rightarrow> address \<Rightarrow> b256 set \<Rightarrow> job_record \<Rightarrow> bool" where
  "round_allows K parse worker my_rounds r =
     (case lora_round_of K parse (jr_spec r) of
        NotLora \<Rightarrow> True
      | Malformed \<Rightarrow> False
      | Round p \<Rightarrow> in_roster (lp_config p) worker \<and> lp_round_id p \<notin> my_rounds)"

text \<open>Everything a job must satisfy to be offered to \<open>worker\<close>.\<close>

definition eligible ::
  "(bytes \<Rightarrow> b256) \<Rightarrow> payload_parser \<Rightarrow> address \<Rightarrow> capability \<Rightarrow> string \<Rightarrow> u64 \<Rightarrow> state \<Rightarrow>
   job_record \<Rightarrow> bool" where
  "eligible K parse worker claimed grp now st r \<longleftrightarrow>
     jr_status r = Pending \<and>
     satisfies (effective_capability (st_policy st) worker claimed) (js_requires (jr_spec r)) \<and>
     round_allows K parse worker (rounds_of K parse worker st) r \<and>
     worker \<notin> jr_failed_by r \<and>
     (is_trusted (st_policy st) worker \<or> grp \<notin> jr_failed_by_sources r) \<and>
     (is_trusted (st_policy st) worker \<or> \<not> reserved_for_vouched st r now)"

text \<open>The comparison of \<^verbatim>\<open>max_by\<close>: the more demanding job first, then the smaller id.\<close>

definition preferred :: "job_record \<Rightarrow> job_record \<Rightarrow> bool" where
  "preferred a b \<longleftrightarrow>
     js_requires (jr_spec a) > js_requires (jr_spec b) \<or>
     js_requires (jr_spec a) = js_requires (jr_spec b) \<and> js_id (jr_spec a) < js_id (jr_spec b)"

definition pick_job ::
  "(bytes \<Rightarrow> b256) \<Rightarrow> payload_parser \<Rightarrow> address \<Rightarrow> capability \<Rightarrow> string \<Rightarrow> u64 \<Rightarrow> state \<Rightarrow>
   job_id option" where
  "pick_job K parse worker claimed grp now st =
     map_option (\<lambda>r. js_id (jr_spec r))
       (max_by preferred
         (filter (eligible K parse worker claimed grp now st) (bt_values (st_jobs st))))"

definition grant :: "policy \<Rightarrow> address \<Rightarrow> u64 \<Rightarrow> job_record \<Rightarrow> job_record" where
  "grant p worker now r =
     r\<lparr>jr_attempts := jr_attempts r + 1,
       jr_status := Leased worker
         (sat_add now (min (js_lease_secs (jr_spec r)) (po_lease_window_secs p)))
         (sat_add now (js_lease_secs (jr_spec r)))\<rparr>"

definition touch :: "u64 \<Rightarrow> worker_record \<Rightarrow> worker_record" where
  "touch now w = w\<lparr>wr_last_seen := now, wr_last_engaged := Some now\<rparr>"

text \<open>The cool-downs and lease caps that are checked before a job is looked for.\<close>

definition worker_cooldown :: "address \<Rightarrow> state \<Rightarrow> u64" where
  "worker_cooldown worker st =
     (case bt_get (st_workers st) worker of Some w \<Rightarrow> wr_cooldown_until w | None \<Rightarrow> 0)"

definition source_cooldown :: "string \<Rightarrow> state \<Rightarrow> u64" where
  "source_cooldown grp st =
     (case bt_get (st_sources st) grp of Some r \<Rightarrow> sr_cooldown_until r | None \<Rightarrow> 0)"

definition lease_gate :: "address \<Rightarrow> string \<Rightarrow> u64 \<Rightarrow> state \<Rightarrow> lease_error option" where
  "lease_gate worker grp now st =
     (if worker_cooldown worker st > now then Some (CoolingDown (worker_cooldown worker st))
      else if held_count worker st \<ge> MAX_LEASES_PER_WORKER then Some AtLeaseCap
      else if is_trusted (st_policy st) worker then None
      else if source_cooldown grp st > now then Some (CoolingDown (source_cooldown grp st))
      else if group_count grp st \<ge> po_max_leases_per_source (st_policy st) then Some AtLeaseCap
      else None)"

definition lease ::
  "(bytes \<Rightarrow> b256) \<Rightarrow> payload_parser \<Rightarrow> address \<Rightarrow> u64 \<Rightarrow> state \<Rightarrow> (lease_error + job_spec) \<times> state"
  where
  "lease K parse worker now st =
     (case bt_get (st_workers st) worker of
        None \<Rightarrow> (Inl UnknownWorker, st)
      | Some w \<Rightarrow>
          let st1 = st\<lparr>st_workers := bt_modify worker (touch now) (st_workers st)\<rparr>;
              claimed = wr_capability w;
              grp = source_group (wr_source w);
              st2 = snd (expire_leases now st1)
          in (case lease_gate worker grp now st2 of
                Some e \<Rightarrow> (Inl e, st2)
              | None \<Rightarrow>
                  (case pick_job K parse worker claimed grp now st2 of
                     None \<Rightarrow> (Inl NothingAvailable, st2)
                   | Some pick \<Rightarrow>
                       (case bt_get (st_jobs st2) pick of
                          None \<Rightarrow> (Inl NothingAvailable, st2)
                        | Some r \<Rightarrow>
                            (Inr (jr_spec r),
                             st2\<lparr>st_dirty := True,
                                 st_jobs := bt_modify pick (grant (st_policy st2) worker now)
                                   (st_jobs st2)\<rparr>)))))"

section \<open>Policy changes, restarts and persistence\<close>

definition revoke_lease :: "job_id \<Rightarrow> state \<Rightarrow> state" where
  "revoke_lease job st =
     (if bt_has (st_jobs st) job
      then st\<lparr>st_jobs := bt_modify job (\<lambda>r. r\<lparr>jr_status := Pending\<rparr>) (st_jobs st), st_dirty := True\<rparr>
      else st)"

definition out_of_policy :: "policy \<Rightarrow> job_record \<Rightarrow> bool" where
  "out_of_policy p r =
     (case jr_status r of
        Leased worker _ _ \<Rightarrow> \<not> tier_allowed p worker (js_requires (jr_spec r))
      | _ \<Rightarrow> False)"

definition revoke_out_of_policy :: "state \<Rightarrow> job_id list \<times> state" where
  "revoke_out_of_policy st =
     (let revoked = map fst (filter (\<lambda>(i, r). out_of_policy (st_policy st) r) (st_jobs st))
      in (revoked, fold revoke_lease revoked st))"

definition hard_deadline :: "u64 \<Rightarrow> u64 \<Rightarrow> u64" where
  "hard_deadline expires_at deadline = (if deadline = 0 then expires_at else deadline)"

definition extended_expiry :: "u64 \<Rightarrow> u64 \<Rightarrow> u64 \<Rightarrow> u64 \<Rightarrow> u64" where
  "extended_expiry now window hard expires_at =
     max (min (sat_add now window) hard) expires_at"

definition grace_status :: "u64 \<Rightarrow> u64 \<Rightarrow> job_status \<Rightarrow> job_status" where
  "grace_status window now s =
     (case s of
        Leased worker expires_at deadline \<Rightarrow>
          let hard = hard_deadline expires_at deadline in
          if hard > now then
            let renewed = extended_expiry now window hard expires_at in
            if renewed \<noteq> expires_at then Leased worker renewed hard else s
          else s
      | _ \<Rightarrow> s)"

definition grace_live_leases :: "u64 \<Rightarrow> state \<Rightarrow> state" where
  "grace_live_leases now st =
     (let g = grace_status (po_lease_window_secs (st_policy st)) now
      in st\<lparr>st_jobs := bt_map (\<lambda>_ r. r\<lparr>jr_status := g (jr_status r)\<rparr>) (st_jobs st),
            st_dirty := (st_dirty st \<or>
              (\<exists>e \<in> set (st_jobs st). g (jr_status (snd e)) \<noteq> jr_status (snd e)))\<rparr>)"

definition note_registration :: "address \<Rightarrow> u64 \<Rightarrow> u64 \<Rightarrow> state \<Rightarrow> bool \<times> state" where
  "note_registration who ts now_nanos st =
     (let kept = Set.filter (\<lambda>(_, t). abs_diff t now_nanos \<le> LEASE_FRESHNESS_NANOS) (st_recent st);
          inserted = ((who, ts) \<notin> kept)
      in (inserted, st\<lparr>st_recent := insert (who, ts) kept,
                       st_dirty := (st_dirty st \<or> inserted)\<rparr>))"

definition registration_seen :: "address \<Rightarrow> u64 \<Rightarrow> state \<Rightarrow> bool" where
  "registration_seen who ts st \<longleftrightarrow> (who, ts) \<in> st_recent st"

definition mark_dirty :: "state \<Rightarrow> state" where
  "mark_dirty st = st\<lparr>st_dirty := True\<rparr>"

definition note_persisted :: "job_record \<Rightarrow> job_record" where
  "note_persisted r =
     (case jr_status r of
        Leased _ expires_at _ \<Rightarrow> r\<lparr>jr_persisted_expiry := expires_at\<rparr>
      | _ \<Rightarrow> r)"

definition take_dirty :: "state \<Rightarrow> bool \<times> state" where
  "take_dirty st =
     (if st_dirty st
      then (True, st\<lparr>st_dirty := False, st_jobs := bt_map (\<lambda>_. note_persisted) (st_jobs st)\<rparr>)
      else (False, st))"

section \<open>Heartbeats and results\<close>

definition renew :: "address \<Rightarrow> job_id \<Rightarrow> u64 \<Rightarrow> state \<Rightarrow> (submit_error + u64) \<times> state" where
  "renew worker job now st =
     (case bt_get (st_jobs st) job of
        None \<Rightarrow> (Inl UnknownJob, st)
      | Some r \<Rightarrow>
          (case jr_status r of
             Leased holder expires_at deadline \<Rightarrow>
               if holder \<noteq> worker then (Inl NotLeaseholder, st)
               else if expires_at \<le> now then (Inl (LeaseExpired expires_at now), st)
               else if \<not> tier_allowed (st_policy st) worker (js_requires (jr_spec r))
               then (Inl TierRevoked, revoke_lease job st)
               else
                 let hard = hard_deadline expires_at deadline;
                     extended =
                       extended_expiry now (po_lease_window_secs (st_policy st)) hard expires_at;
                     persist =
                       (extended \<ge> sat_add (jr_persisted_expiry r) HEARTBEAT_PERSIST_STEP_SECS \<or>
                        extended = hard \<and> jr_persisted_expiry r \<noteq> hard)
                 in (Inr extended,
                     st\<lparr>st_dirty := (st_dirty st \<or> persist),
                        st_jobs :=
                          bt_modify job (\<lambda>r. r\<lparr>jr_status := Leased worker extended hard\<rparr>) (st_jobs st),
                        st_workers := bt_modify worker (touch now) (st_workers st)\<rparr>)
           | _ \<Rightarrow> (Inl NotLeased, st)))"

definition delivered :: "bool \<Rightarrow> u64 \<Rightarrow> worker_record \<Rightarrow> worker_record" where
  "delivered trusted now w =
     (let w1 = w\<lparr>wr_last_seen := now, wr_delivered := sat_add (wr_delivered w) 1\<rparr>
      in if trusted then w1\<lparr>wr_noshows := 0\<rparr> else w1)"

definition submit :: "address \<Rightarrow> job_id \<Rightarrow> string \<Rightarrow> u64 \<Rightarrow> state \<Rightarrow> (submit_error + unit) \<times> state"
  where
  "submit worker job result now st =
     (case bt_get (st_jobs st) job of
        None \<Rightarrow> (Inl UnknownJob, st)
      | Some r \<Rightarrow>
          (case jr_status r of
             Leased holder expires_at _ \<Rightarrow>
               if holder = worker \<and> expires_at > now \<and>
                  \<not> tier_allowed (st_policy st) worker (js_requires (jr_spec r))
               then (Inl TierRevoked, revoke_lease job st)
               else if holder \<noteq> worker then (Inl NotLeaseholder, st)
               else if expires_at \<le> now then (Inl (LeaseExpired expires_at now), st)
               else
                 let trusted = is_trusted (st_policy st) worker;
                     grp = (case bt_get (st_workers st) worker of
                              Some w \<Rightarrow> if trusted then Some (source_group (wr_source w)) else None
                            | None \<Rightarrow> None)
                 in (Inr (),
                     st\<lparr>st_dirty := True,
                        st_jobs := bt_modify job
                          (\<lambda>r. r\<lparr>jr_status := Done worker now, jr_result := Some result\<rparr>) (st_jobs st),
                        st_workers := bt_modify worker (delivered trusted now) (st_workers st),
                        st_sources :=
                          (case grp of
                             Some g \<Rightarrow> bt_modify g (\<lambda>s. s\<lparr>sr_noshows := 0\<rparr>) (st_sources st)
                           | None \<Rightarrow> st_sources st)\<rparr>)
           | _ \<Rightarrow> (Inl NotLeased, st)))"

section \<open>Counts\<close>

fun count_status :: "job_status \<Rightarrow> counts \<Rightarrow> counts" where
  "count_status Pending c = c\<lparr>ct_pending := ct_pending c + 1\<rparr>"
| "count_status (Leased _ _ _) c = c\<lparr>ct_leased := ct_leased c + 1\<rparr>"
| "count_status (Done _ _) c = c\<lparr>ct_done := ct_done c + 1\<rparr>"
| "count_status (Quarantined _) c = c\<lparr>ct_quarantined := ct_quarantined c + 1\<rparr>"

definition job_counts :: "state \<Rightarrow> counts" where
  "job_counts st =
     (fold (\<lambda>r. count_status (jr_status r)) (bt_values (st_jobs st))
        \<lparr>ct_pending = 0, ct_leased = 0, ct_done = 0, ct_quarantined = 0, ct_workers = 0\<rparr>)
       \<lparr>ct_workers := length (st_workers st)\<rparr>"

end
