(* ===== verification/Coordinator_Expire.thy ===== *)
theory Coordinator_Expire
  imports Coordinator_Ops
begin

text \<open>
  What \<^verbatim>\<open>State::expire_leases\<close> does, in closed form: each job is rewritten on its own
  (\<open>expire_job\<close>), each worker is charged once per lapsed lease, and the tables keep their keys
  and order.  The bundle \<open>expire_facts\<close> is what every client of the operation uses.
\<close>

definition expired :: "u64 \<Rightarrow> job_record \<Rightarrow> bool" where
  "expired now r \<longleftrightarrow> (case jr_status r of Leased _ e _ \<Rightarrow> e \<le> now | _ \<Rightarrow> False)"

definition expire_job ::
  "policy \<Rightarrow> u64 \<Rightarrow> (address, worker_record) btree \<Rightarrow> job_record \<Rightarrow> job_record" where
  "expire_job p now ws r =
     (case jr_status r of
        Leased w e _ \<Rightarrow> if e \<le> now then lapse now w (lapse_group p w ws) r else r
      | _ \<Rightarrow> r)"

definition lapsed_workers :: "u64 \<Rightarrow> (job_id, job_record) btree \<Rightarrow> address list" where
  "lapsed_workers now js =
     List.map_filter (\<lambda>(i, r). if expired now r then leased_worker (jr_status r) else None) js"

definition charge_all ::
  "u64 \<Rightarrow> address list \<Rightarrow> (address, worker_record) btree \<Rightarrow> (address, worker_record) btree" where
  "charge_all now = fold (\<lambda>w. bt_modify w (charge_worker now))"

lemma charge_worker_keeps [simp]:
  "wr_source (charge_worker now w) = wr_source w"
  "wr_capability (charge_worker now w) = wr_capability w"
  "wr_last_engaged (charge_worker now w) = wr_last_engaged w"
  "wr_last_seen (charge_worker now w) = wr_last_seen w"
  by (simp_all add: charge_worker_def Let_def)

lemma lapse_group_charge [simp]:
  "lapse_group p w (bt_modify w' (charge_worker now) ws) = lapse_group p w ws"
  by (auto simp: lapse_group_def split: option.splits)

lemma expire_job_charge [simp]:
  "expire_job p now (bt_modify w' (charge_worker now) ws) r = expire_job p now ws r"
  by (simp add: expire_job_def split: job_status.splits)

lemma expire_loop_eq:
  "expire_loop p now js ws =
     (bt_map (\<lambda>_. expire_job p now ws) js,
      charge_all now (lapsed_workers now js) ws,
      map fst (filter (\<lambda>e. expired now (snd e)) js),
      List.map_filter (\<lambda>w. lapse_group p w ws) (lapsed_workers now js))"
  by (induction js arbitrary: ws)
    (auto simp: bt_map_def charge_all_def lapsed_workers_def expired_def expire_job_def
      map_filter_simps Let_def not_less split: job_status.splits option.splits)

lemma charge_all_get:
  "bt_get (charge_all now wl ws) who =
     map_option (charge_worker now ^^ count_list wl who) (bt_get ws who)"
  by (induction wl arbitrary: ws)
    (auto simp: charge_all_def option.map_comp comp_def option.map_id funpow_swap1 split: option.splits)

lemma charge_all_keeps:
  "bt_ok ws \<Longrightarrow> bt_ok (charge_all now wl ws)" "length (charge_all now wl ws) = length ws"
  "map fst (charge_all now wl ws) = map fst ws"
proof -
  show "bt_ok ws \<Longrightarrow> bt_ok (charge_all now wl ws)"
    by (induction wl arbitrary: ws) (auto simp: charge_all_def)
  show "length (charge_all now wl ws) = length ws"
    by (induction wl arbitrary: ws) (auto simp: charge_all_def)
  show "map fst (charge_all now wl ws) = map fst ws"
    by (induction wl arbitrary: ws) (auto simp: charge_all_def bt_modify_def)
qed

lemma charge_iter_keeps [simp]:
  "wr_source ((charge_worker now ^^ n) w) = wr_source w"
  "wr_capability ((charge_worker now ^^ n) w) = wr_capability w"
  "wr_last_engaged ((charge_worker now ^^ n) w) = wr_last_engaged w"
  "wr_last_seen ((charge_worker now ^^ n) w) = wr_last_seen w"
  by (induction n) simp_all

lemma charge_source_keeps [simp]:
  "st_jobs (charge_source now g st) = st_jobs st"
  "st_workers (charge_source now g st) = st_workers st"
  "st_policy (charge_source now g st) = st_policy st"
  "st_penalties (charge_source now g st) = st_penalties st"
  "st_dirty (charge_source now g st) = st_dirty st"
  "st_recent (charge_source now g st) = st_recent st"
  by (simp_all add: charge_source_def Let_def)

lemma fold_charge_source_keeps [simp]:
  "st_jobs (fold (charge_source now) gs st) = st_jobs st"
  "st_workers (fold (charge_source now) gs st) = st_workers st"
  "st_policy (fold (charge_source now) gs st) = st_policy st"
  "st_penalties (fold (charge_source now) gs st) = st_penalties st"
  "st_dirty (fold (charge_source now) gs st) = st_dirty st"
  "st_recent (fold (charge_source now) gs st) = st_recent st"
  by (induction gs arbitrary: st) simp_all

lemma expire_leases_fst:
  "fst (expire_leases now st) = map fst (filter (\<lambda>e. expired now (snd e)) (st_jobs st))"
  by (simp add: expire_leases_def expire_loop_eq Let_def)

lemma expire_leases_fields [simp]:
  "st_jobs (snd (expire_leases now st)) =
     bt_map (\<lambda>_. expire_job (st_policy st) now (st_workers st)) (st_jobs st)"
  "st_workers (snd (expire_leases now st)) =
     charge_all now (lapsed_workers now (st_jobs st)) (st_workers st)"
  "st_policy (snd (expire_leases now st)) = st_policy st"
  "st_penalties (snd (expire_leases now st)) = st_penalties st"
  "st_recent (snd (expire_leases now st)) = st_recent st"
  "st_dirty (snd (expire_leases now st)) \<longleftrightarrow>
     st_dirty st \<or> (\<exists>e \<in> set (st_jobs st). expired now (snd e))"
  by (auto simp: expire_leases_def expire_loop_eq Let_def filter_empty_conv)

lemma expire_job_spec [simp]: "jr_spec (expire_job p now ws r) = jr_spec r"
  by (simp add: expire_job_def lapse_def split: job_status.splits)

lemma expire_job_status:
  "jr_status (expire_job p now ws r) = (if expired now r then Pending else jr_status r)"
  by (simp add: expire_job_def expired_def lapse_def split: job_status.splits)

lemma expire_job_unexpired: "\<not> expired now r \<Longrightarrow> expire_job p now ws r = r"
  by (simp add: expire_job_def expired_def split: job_status.splits)

lemma not_expired_after: "\<not> expired now (expire_job p now ws r)"
  by (simp add: expired_def expire_job_status split: job_status.splits)

lemmas expire_facts = expire_leases_fields expire_job_spec expire_job_status charge_all_get
  charge_all_keeps

end
