(* ===== verification/Coordinator_Safety.thy ===== *)
theory Coordinator_Safety
  imports Coordinator_Expire
begin

text \<open>
  The invariant of the coordinator's state and its preservation by every operation, one lemma per
  operation, and the states an operating coordinator can reach: any sequence of operations and
  restarts, under any policy and any clock.

  The three bounded tables are one instance of \<open>bounded_map\<close>.
\<close>

interpretation table: bounded_map bt_get bt_insert bt_remove length bt_ok MAX_WORKERS
  by unfold_locales (simp add: MAX_WORKERS_def)

section \<open>The invariant\<close>

fun deadline_ok :: "job_status \<Rightarrow> bool" where
  "deadline_ok (Leased _ e d) \<longleftrightarrow> d = 0 \<or> e \<le> d"
| "deadline_ok _ \<longleftrightarrow> True"

fun result_ok :: "job_status \<Rightarrow> string option \<Rightarrow> bool" where
  "result_ok (Done _ _) res \<longleftrightarrow> res \<noteq> None"
| "result_ok _ _ \<longleftrightarrow> True"

definition job_ok :: "job_id \<Rightarrow> job_record \<Rightarrow> bool" where
  "job_ok i r \<longleftrightarrow>
     js_id (jr_spec r) = i \<and> deadline_ok (jr_status r) \<and> result_ok (jr_status r) (jr_result r)"

definition one_lease :: "(job_id, job_record) btree \<Rightarrow> bool" where
  "one_lease js \<longleftrightarrow>
     (\<forall>i j r s w. bt_get js i = Some r \<longrightarrow> bt_get js j = Some s \<longrightarrow>
        held_by w (jr_status r) \<longrightarrow> held_by w (jr_status s) \<longrightarrow> i = j)"

definition jobs_ok :: "(job_id, job_record) btree \<Rightarrow> bool" where
  "jobs_ok js \<longleftrightarrow> bt_ok js \<and> (\<forall>i r. bt_get js i = Some r \<longrightarrow> job_ok i r) \<and> one_lease js"

definition registry_ok :: "state \<Rightarrow> bool" where
  "registry_ok st \<longleftrightarrow>
     bt_ok (st_workers st) \<and> bt_ok (st_sources st) \<and> bt_ok (st_penalties st) \<and>
     length (st_workers st) \<le> MAX_WORKERS \<and> length (st_sources st) \<le> MAX_SOURCES \<and>
     length (st_penalties st) \<le> MAX_WORKERS \<and>
     (\<forall>w. bt_has (st_workers st) w \<longrightarrow> \<not> bt_has (st_penalties st) w)"

definition state_ok :: "state \<Rightarrow> bool" where
  "state_ok st \<longleftrightarrow> jobs_ok (st_jobs st) \<and> registry_ok st"

section \<open>Jobs\<close>

lemma jobs_okI:
  "bt_ok js \<Longrightarrow> (\<And>i r. bt_get js i = Some r \<Longrightarrow> job_ok i r) \<Longrightarrow> one_lease js \<Longrightarrow> jobs_ok js"
  by (simp add: jobs_ok_def)

lemma jobs_okD:
  assumes "jobs_ok js"
  shows "bt_ok js" and "bt_get js i = Some r \<Longrightarrow> job_ok i r" and "one_lease js"
  using assms by (simp_all add: jobs_ok_def)

text \<open>An update that keeps each record well formed and gives nobody a lease keeps the jobs well
  formed.\<close>

lemma jobs_ok_map:
  assumes "jobs_ok js"
    and "\<And>i r. bt_get js i = Some r \<Longrightarrow> job_ok i (f i r)"
    and "\<And>i r w. bt_get js i = Some r \<Longrightarrow> held_by w (jr_status (f i r)) \<Longrightarrow> held_by w (jr_status r)"
  shows "jobs_ok (bt_map f js)"
proof (rule jobs_okI)
  show "bt_ok (bt_map f js)" using jobs_okD(1) [OF assms(1)] by simp
  show "job_ok i r" if "bt_get (bt_map f js) i = Some r" for i r
    using that assms(2) by auto
  show "one_lease (bt_map f js)"
    unfolding one_lease_def
  proof (intro allI impI)
    fix i j r s w
    assume *: "bt_get (bt_map f js) i = Some r" "bt_get (bt_map f js) j = Some s"
      "held_by w (jr_status r)" "held_by w (jr_status s)"
    then obtain r0 s0 where "bt_get js i = Some r0" "bt_get js j = Some s0"
      and "held_by w (jr_status r0)" "held_by w (jr_status s0)"
      using assms(3) by (auto simp: map_option_eq_Some)
    then show "i = j" using jobs_okD(3) [OF assms(1)] unfolding one_lease_def by blast
  qed
qed

lemma bt_modify_as_map: "bt_modify k f m = bt_map (\<lambda>a b. if a = k then f b else b) m"
  by (simp add: bt_modify_def bt_map_def)

lemma jobs_ok_modify:
  assumes "jobs_ok js"
    and "\<And>r. bt_get js k = Some r \<Longrightarrow> job_ok k (f r)"
    and "\<And>r w. bt_get js k = Some r \<Longrightarrow> held_by w (jr_status (f r)) \<Longrightarrow> held_by w (jr_status r)"
  shows "jobs_ok (bt_modify k f js)"
  unfolding bt_modify_as_map
  by (rule jobs_ok_map [OF assms(1)]) (use assms jobs_okD(2) [OF assms(1)] in \<open>auto split: if_splits\<close>)

lemma jobs_ok_insert_pending:
  assumes "jobs_ok js" and "job_ok k r" and "jr_status r = Pending"
  shows "jobs_ok (bt_insert k r js)"
  using assms unfolding jobs_ok_def one_lease_def
  by (auto split: if_splits)

lemma jobs_ok_lease:
  assumes "jobs_ok js" and "\<And>i r. bt_get js i = Some r \<Longrightarrow> \<not> held_by w (jr_status r)"
    and "\<And>r. bt_get js k = Some r \<Longrightarrow> job_ok k (f r)"
    and "\<And>r v. bt_get js k = Some r \<Longrightarrow> held_by v (jr_status (f r)) \<Longrightarrow> v = w"
  shows "jobs_ok (bt_modify k f js)"
proof (rule jobs_okI)
  show "bt_ok (bt_modify k f js)" using jobs_okD(1) [OF assms(1)] by simp
  show "job_ok i r" if "bt_get (bt_modify k f js) i = Some r" for i r
    using that assms(3) jobs_okD(2) [OF assms(1)] by (auto split: if_splits)
  show "one_lease (bt_modify k f js)"
    using assms(2,4) jobs_okD(3) [OF assms(1)] unfolding one_lease_def
    by (auto simp: map_option_eq_Some split: if_splits)
qed

lemma held_count_zero:
  assumes "jobs_ok (st_jobs st)"
  shows "held_count w st = 0 \<longleftrightarrow> (\<forall>i r. bt_get (st_jobs st) i = Some r \<longrightarrow> \<not> held_by w (jr_status r))"
  using bt_get_iff [OF jobs_okD(1) [OF assms]]
  by (force simp: held_count_def filter_empty_conv)

section \<open>Tables\<close>

lemma min_entry:
  assumes "m \<noteq> []" and "bt_ok m"
  obtains v r where "min_by_key f m = Some (v, r)" and "bt_get m v \<noteq> None"
proof (cases "min_by_key f m")
  case None
  with assms(1) show ?thesis by simp
next
  case (Some e)
  obtain v r where e: "e = (v, r)" by (cases e)
  then have "bt_get m v = Some r"
    using min_by_key_Some [OF Some] bt_get_iff [OF assms(2)] by simp
  with Some e that show ?thesis by simp
qed

lemma registry_okD:
  assumes "registry_ok st"
  shows "bt_ok (st_workers st)" "bt_ok (st_sources st)" "bt_ok (st_penalties st)"
    "length (st_workers st) \<le> MAX_WORKERS" "length (st_sources st) \<le> MAX_SOURCES"
    "length (st_penalties st) \<le> MAX_WORKERS"
    "bt_has (st_workers st) w \<Longrightarrow> \<not> bt_has (st_penalties st) w"
  using assms by (simp_all add: registry_ok_def)

lemma charge_source_ok: "registry_ok st \<Longrightarrow> registry_ok (charge_source now g st)"
proof -
  assume ok: "registry_ok st"
  let ?ss = "st_sources st"
  let ?k = "\<lambda>(_, r). (sr_cooldown_until r > now, sr_last_seen r)"
  have s: "bt_ok ?ss" "length ?ss \<le> MAX_WORKERS"
    using ok by (simp_all add: registry_ok_def MAX_SOURCES_def)
  have "length (st_sources (charge_source now g st)) \<le> MAX_WORKERS"
  proof (cases "\<not> bt_has ?ss g \<and> length ?ss \<ge> MAX_SOURCES")
    case True
    then have "?ss \<noteq> []" using table.cap_pos by (auto simp: MAX_SOURCES_def)
    then obtain v r where v: "min_by_key ?k ?ss = Some (v, r)" and v': "bt_get ?ss v \<noteq> None"
      using s(1) by (rule min_entry)
    have "length (bt_insert g x (bt_remove v ?ss)) \<le> MAX_WORKERS" for x
      by (rule table.evict_then_insert [OF s v'])
    with True v show ?thesis by (simp add: charge_source_def Let_def)
  next
    case False
    then have "bt_get ?ss g \<noteq> None \<or> length ?ss < MAX_WORKERS"
      by (auto simp: bt_has_def MAX_SOURCES_def)
    from table.insert_below_cap [OF s this] have "length (bt_insert g x ?ss) \<le> MAX_WORKERS" for x .
    with False show ?thesis by (auto simp: charge_source_def Let_def)
  qed
  moreover have "bt_ok (st_sources (charge_source now g st))"
    using s by (auto simp: charge_source_def Let_def split: option.splits)
  ultimately show ?thesis
    using ok by (simp add: registry_ok_def MAX_SOURCES_def)
qed

lemma fold_charge_source_ok: "registry_ok st \<Longrightarrow> registry_ok (fold (charge_source now) gs st)"
  by (induction gs arbitrary: st) (simp_all add: charge_source_ok)

lemma keep_penalty_ok:
  assumes p: "bt_ok ps" "length ps \<le> MAX_WORKERS"
  shows "bt_ok (keep_penalty who pn ps)" and "length (keep_penalty who pn ps) \<le> MAX_WORKERS"
    and "bt_get (keep_penalty who pn ps) who = Some pn"
    and "bt_has (keep_penalty who pn ps) w \<Longrightarrow> w = who \<or> bt_has ps w"
proof -
  let ?k = "\<lambda>(_, p). pn_cooldown_until p"
  have "(\<exists>v. keep_penalty who pn ps = bt_insert who pn (bt_remove v ps) \<and> bt_get ps v \<noteq> None) \<or>
        keep_penalty who pn ps = bt_insert who pn ps \<and> (bt_get ps who \<noteq> None \<or> length ps < MAX_WORKERS)"
  proof (cases "length ps \<ge> MAX_WORKERS \<and> \<not> bt_has ps who")
    case True
    then have "ps \<noteq> []" using table.cap_pos by auto
    then obtain v q where "min_by_key ?k ps = Some (v, q)" and "bt_get ps v \<noteq> None"
      using p(1) by (rule min_entry)
    with True show ?thesis by (auto simp: keep_penalty_def)
  next
    case False
    then show ?thesis by (auto simp: keep_penalty_def bt_has_def)
  qed
  then consider v where "keep_penalty who pn ps = bt_insert who pn (bt_remove v ps)" "bt_get ps v \<noteq> None"
    | "keep_penalty who pn ps = bt_insert who pn ps" "bt_get ps who \<noteq> None \<or> length ps < MAX_WORKERS"
    by blast
  then have "bt_ok (keep_penalty who pn ps) \<and> length (keep_penalty who pn ps) \<le> MAX_WORKERS \<and>
    bt_get (keep_penalty who pn ps) who = Some pn \<and>
    (bt_has (keep_penalty who pn ps) w \<longrightarrow> w = who \<or> bt_has ps w)"
  proof cases
    case 1
    show ?thesis
      unfolding 1(1) using table.evict_then_insert [OF p 1(2), of who pn] p(1) by auto
  next
    case 2
    show ?thesis
      unfolding 2(1) using table.insert_below_cap [OF p 2(2), of pn] p(1) by auto
  qed
  then show "bt_ok (keep_penalty who pn ps)" and "length (keep_penalty who pn ps) \<le> MAX_WORKERS"
    and "bt_get (keep_penalty who pn ps) who = Some pn"
    and "bt_has (keep_penalty who pn ps) w \<Longrightarrow> w = who \<or> bt_has ps w"
    by blast+
qed

lemma forget_worker_cases:
  "forget_worker who now st = st \<or>
   (\<exists>r. bt_get (st_workers st) who = Some r \<and>
      (forget_worker who now st = st\<lparr>st_workers := bt_remove who (st_workers st)\<rparr> \<and>
         wr_noshows r = 0 \<and> wr_cooldown_until r \<le> now \<or>
       forget_worker who now st =
         st\<lparr>st_workers := bt_remove who (st_workers st),
            st_penalties := keep_penalty who
              \<lparr>pn_noshows = wr_noshows r, pn_cooldown_until = wr_cooldown_until r\<rparr> (st_penalties st)\<rparr>))"
  by (auto simp: forget_worker_def Let_def split: option.splits)

lemma forget_worker_ok:
  assumes ok: "registry_ok st"
  shows "registry_ok (forget_worker who now st)"
proof -
  have "length (bt_remove who (st_workers st)) \<le> MAX_WORKERS"
    using length_bt_remove_le [of who "st_workers st"] registry_okD(4) [OF ok] by linarith
  moreover note keep_penalty_ok(1,2,4) [OF registry_okD(3,6) [OF ok]]
  ultimately show ?thesis
    using forget_worker_cases [of who now st] ok unfolding registry_ok_def by fastforce
qed

section \<open>Every operation keeps the invariant\<close>

lemma state_okD: "state_ok st \<Longrightarrow> jobs_ok (st_jobs st)" "state_ok st \<Longrightarrow> registry_ok st"
  by (simp_all add: state_ok_def)

lemma registry_ok_cong:
  "st_workers st' = st_workers st \<Longrightarrow> st_sources st' = st_sources st \<Longrightarrow>
   st_penalties st' = st_penalties st \<Longrightarrow> registry_ok st' = registry_ok st"
  by (simp add: registry_ok_def)

lemma registry_ok_workers:
  assumes "registry_ok st" and "bt_ok ws" and "length ws = length (st_workers st)"
    and "\<And>w. bt_has ws w \<longleftrightarrow> bt_has (st_workers st) w"
  shows "registry_ok (st\<lparr>st_workers := ws\<rparr>)"
  using assms by (simp add: registry_ok_def)

lemma default_state_ok: "state_ok default_state"
  by (simp add: state_ok_def default_state_def jobs_ok_def one_lease_def registry_ok_def)

lemma add_job_ok: "state_ok st \<Longrightarrow> state_ok (add_job spec st)"
  unfolding state_ok_def add_job_def
  by (simp add: jobs_ok_insert_pending job_ok_def registry_ok_def)

lemma forget_worker_keeps [simp]:
  "st_jobs (forget_worker who now st) = st_jobs st"
  "st_sources (forget_worker who now st) = st_sources st"
  "st_policy (forget_worker who now st) = st_policy st"
  "st_dirty (forget_worker who now st) = st_dirty st"
  "st_recent (forget_worker who now st) = st_recent st"
  by (simp_all add: forget_worker_def Let_def split: option.splits)

lemma forget_worker_workers:
  "st_workers (forget_worker who now st) = bt_remove who (st_workers st)"
proof (cases "bt_get (st_workers st) who")
  case None
  have "bt_remove who m = m" if "bt_get m who = None" for m :: "(address, worker_record) btree"
    using that by (induction m) (auto simp: bt_remove_def split: if_splits)
  with None show ?thesis by (simp add: forget_worker_def)
next
  case (Some r)
  then show ?thesis by (simp add: forget_worker_def Let_def)
qed

lemma make_room_for_source_cases:
  assumes "make_room_for_source source holders now st = (res, st')"
  shows "st' = st \<or> (\<exists>who. st' = forget_worker who now st \<and> bt_has (st_workers st) who \<and>
                    \<not> is_trusted (st_policy st) who \<and> who \<notin> holders)"
proof -
  let ?from = "map (\<lambda>(i, r). (i, wr_last_seen r)) (from_source source st)"
  let ?min = "min_by_key snd (filter (slot_stale holders now) ?from)"
  show ?thesis
  proof (cases "length (from_source source st) < po_max_workers_per_source (st_policy st) \<or> ?min = None")
    case True
    with assms show ?thesis by (auto simp: make_room_for_source_def Let_def simp del: min_by_key_None split: if_splits)
  next
    case False
    then obtain a t where m: "?min = Some (a, t)" by (cases ?min) auto
    with False assms have "st' = forget_worker a now st"
      by (simp add: make_room_for_source_def Let_def)
    moreover have "(a, t) \<in> set (filter (slot_stale holders now) ?from)"
      using min_by_key_Some [OF m] by simp
    then obtain r where "(a, r) \<in> set (st_workers st)" "\<not> is_trusted (st_policy st) a" "a \<notin> holders"
      by (auto simp: from_source_def slot_stale_def)
    ultimately show ?thesis by (force simp: bt_has_keys)
  qed
qed

lemma make_room_in_registry_cases:
  assumes "make_room_in_registry holders now st = (res, st')"
  shows "st' = st \<and> (\<forall>u. res = Inr u \<longrightarrow> length (st_workers st) < MAX_WORKERS) \<or>
     (\<exists>who. st' = forget_worker who now st \<and> bt_has (st_workers st) who \<and>
            \<not> is_trusted (st_policy st) who \<and> who \<notin> holders)"
proof -
  let ?cands = "filter (\<lambda>(i, _). \<not> is_trusted (st_policy st) i \<and> i \<notin> holders) (st_workers st)"
  let ?min = "min_by_key (\<lambda>(_, r). wr_last_seen r) ?cands"
  show ?thesis
  proof (cases "length (st_workers st) < MAX_WORKERS \<or> ?min = None")
    case True
    with assms show ?thesis by (auto simp: make_room_in_registry_def simp del: min_by_key_None split: if_splits)
  next
    case False
    then obtain a r where m: "?min = Some (a, r)" by (cases ?min) auto
    with False assms have "st' = forget_worker a now st"
      by (simp add: make_room_in_registry_def)
    moreover have "(a, r) \<in> set ?cands" using min_by_key_Some [OF m] by simp
    ultimately show ?thesis by (force simp: bt_has_keys)
  qed
qed

lemma insert_worker_ok:
  assumes ok: "registry_ok st" and room: "length (st_workers st) < MAX_WORKERS"
  shows "registry_ok (insert_worker w source now st)"
proof -
  have "length (bt_insert (rw_id w) x (st_workers st)) \<le> MAX_WORKERS" for x
    using table.insert_below_cap [OF registry_okD(1,4) [OF ok]] room by blast
  moreover have "length (bt_remove (rw_id w) (st_penalties st)) \<le> MAX_WORKERS"
    using length_bt_remove_le [of "rw_id w" "st_penalties st"] registry_okD(6) [OF ok] by linarith
  ultimately show ?thesis
    using ok by (auto simp: insert_worker_def Let_def registry_ok_def)
qed

lemma forget_worker_room:
  assumes "registry_ok st" and "bt_has (st_workers st) who"
  shows "length (st_workers (forget_worker who now st)) < MAX_WORKERS"
  using length_bt_remove [OF assms(2)] registry_okD(4) [OF assms(1)]
  by (simp add: forget_worker_workers)

lemma register_new_cases:
  assumes "bt_get (st_workers st) (rw_id w) = None"
  obtains (refused) e st1 where "register w source now st = (Inl e, st1)"
      "st1 = st\<lparr>st_dirty := True\<rparr> \<or>
       (\<exists>v. st1 = forget_worker v now (st\<lparr>st_dirty := True\<rparr>) \<and> bt_has (st_workers st) v \<and>
            \<not> is_trusted (st_policy st) v \<and> v \<notin> leaseholders now st)"
  | (admitted) st2 where
      "register w source now st =
         (Inr (effective_capability (st_policy st) (rw_id w) (rw_capability w)),
          insert_worker w source now st2)"
      "registry_ok st \<Longrightarrow> registry_ok st2 \<and> length (st_workers st2) < MAX_WORKERS"
      "st_jobs st2 = st_jobs st" "st_policy st2 = st_policy st" "st_sources st2 = st_sources st"
      "st_recent st2 = st_recent st" "st_dirty st2"
proof -
  let ?st0 = "st\<lparr>st_dirty := True\<rparr>" and ?holders = "leaseholders now st"
  have h: "leaseholders now ?st0 = ?holders" by (simp add: leaseholders_def)
  obtain room st1 where room:
    "(if is_trusted (st_policy st) (rw_id w) then (Inr (), ?st0)
      else make_room_for_source source ?holders now ?st0) = (room, st1)" (is "?r = _")
    by (cases ?r)
  then have st1: "st1 = ?st0 \<or> (\<exists>v. st1 = forget_worker v now ?st0 \<and> bt_has (st_workers st) v \<and>
      \<not> is_trusted (st_policy st) v \<and> v \<notin> ?holders)"
    using make_room_for_source_cases [of source ?holders now ?st0 room st1]
    by (auto split: if_splits)
  then have st1ok: "registry_ok st1" if "registry_ok st"
    using that forget_worker_ok [of ?st0] registry_ok_cong [of ?st0 st] by auto
  have st1f: "st_jobs st1 = st_jobs st" "st_policy st1 = st_policy st" "st_sources st1 = st_sources st"
    "st_recent st1 = st_recent st" "st_dirty st1"
    using st1 by auto
  show ?thesis
  proof (cases room)
    case (Inl e)
    then have "register w source now st = (Inl e, st1)"
      using room by (simp only: register_def assms Let_def option.case prod.case sum.case h)
    then show ?thesis using st1 by (rule refused)
  next
    case (Inr u)
    obtain slot st2 where slot: "make_room_in_registry ?holders now st1 = (slot, st2)" by fastforce
    have reg: "register w source now st =
      (case slot of Inl e \<Rightarrow> (Inl e, st2)
       | Inr _ \<Rightarrow> (Inr (effective_capability (st_policy st) (rw_id w) (rw_capability w)),
                   insert_worker w source now st2))"
      using room Inr slot by (simp only: register_def assms Let_def option.case prod.case sum.case h)
    note cases2 = make_room_in_registry_cases [OF slot]
    show ?thesis
    proof (cases slot)
      case (Inl e)
      then have "st2 = st1"
        using slot by (auto simp: make_room_in_registry_def split: if_splits option.splits)
      with Inl reg st1 show ?thesis by (intro refused) auto
    next
      case (Inr u')
      have ok2: "registry_ok st2 \<and> length (st_workers st2) < MAX_WORKERS" if "registry_ok st"
        using cases2 st1ok [OF that] Inr by (auto simp: forget_worker_ok forget_worker_room)
      have "st_jobs st2 = st_jobs st1 \<and> st_policy st2 = st_policy st1 \<and>
        st_sources st2 = st_sources st1 \<and> st_recent st2 = st_recent st1 \<and> st_dirty st2 = st_dirty st1"
        using cases2 by (elim disjE exE conjE) simp_all
      then show ?thesis
        using reg Inr ok2 st1f by (intro admitted [of st2]) simp_all
    qed
  qed
qed

lemma insert_worker_keeps [simp]:
  "st_jobs (insert_worker w source now st) = st_jobs st"
  "st_policy (insert_worker w source now st) = st_policy st"
  "st_sources (insert_worker w source now st) = st_sources st"
  "st_recent (insert_worker w source now st) = st_recent st"
  "st_dirty (insert_worker w source now st) = st_dirty st"
  by (simp_all add: insert_worker_def Let_def)

lemma register_jobs: "st_jobs (snd (register w source now st)) = st_jobs st"
proof (cases "bt_get (st_workers st) (rw_id w)")
  case None
  then show ?thesis
    by (rule register_new_cases [where source = source and now = now]) auto
next
  case (Some e)
  then show ?thesis by (simp add: register_def)
qed

lemma register_ok: "state_ok st \<Longrightarrow> state_ok (snd (register w source now st))"
proof -
  assume ok: "state_ok st"
  have "registry_ok (snd (register w source now st))"
  proof (cases "bt_get (st_workers st) (rw_id w)")
    case None
    have r0: "registry_ok (st\<lparr>st_dirty := True\<rparr>)"
      using state_okD(2) [OF ok] registry_ok_cong [of "st\<lparr>st_dirty := True\<rparr>" st] by simp
    from None show ?thesis
    proof (cases rule: register_new_cases [where source = source and now = now, consumes 1,
          case_names refused admitted])
      case (refused e st1)
      with r0 forget_worker_ok [OF r0] show ?thesis by auto
    next
      case (admitted st2)
      with state_okD(2) [OF ok] show ?thesis by (simp add: insert_worker_ok)
    qed
  next
    case (Some e)
    then show ?thesis
      using registry_ok_workers [OF state_okD(2) [OF ok], of "bt_modify (rw_id w) (refreshed w now) (st_workers st)"]
        registry_okD(1) [OF state_okD(2) [OF ok]]
      by (simp add: register_def registry_ok_def)
  qed
  with ok show ?thesis by (simp add: state_ok_def register_jobs)
qed

lemma expire_registry_ok: "registry_ok st \<Longrightarrow> registry_ok (snd (expire_leases now st))"
proof -
  assume ok: "registry_ok st"
  let ?ws = "charge_all now (lapsed_workers now (st_jobs st)) (st_workers st)"
  have "bt_has ?ws w \<longleftrightarrow> bt_has (st_workers st) w" for w
    by (simp add: bt_has_def charge_all_get)
  then have r1: "registry_ok (st\<lparr>st_workers := ?ws\<rparr>)"
    using registry_okD(1) [OF ok] by (intro registry_ok_workers [OF ok]) (simp_all add: charge_all_keeps)
  show ?thesis
    unfolding expire_leases_def expire_loop_eq Let_def prod.case snd_conv
    by (rule fold_charge_source_ok, rule registry_ok_cong [THEN iffD1, OF _ _ _ r1]) simp_all
qed

lemma expire_jobs_ok: "jobs_ok js \<Longrightarrow> jobs_ok (bt_map (\<lambda>_. expire_job p now ws) js)"
proof (rule jobs_ok_map)
  fix i r
  assume "jobs_ok js" and "bt_get js i = Some r"
  then have "job_ok i r" by (rule jobs_okD)
  then show "job_ok i (expire_job p now ws r)"
    by (cases "expired now r") (auto simp: job_ok_def expire_job_status expire_job_unexpired)
qed (auto simp: expire_job_status split: if_splits)

lemma expire_ok: "state_ok st \<Longrightarrow> state_ok (snd (expire_leases now st))"
  by (simp add: state_ok_def expire_registry_ok expire_jobs_ok)

lemma touch_registry_ok:
  "registry_ok st \<Longrightarrow> registry_ok (st\<lparr>st_workers := bt_modify w f (st_workers st)\<rparr>)"
  by (rule registry_ok_workers) (simp_all add: registry_okD)

lemma revoke_lease_jobs_ok:
  "jobs_ok js \<Longrightarrow> jobs_ok (bt_modify job (\<lambda>r. r\<lparr>jr_status := Pending\<rparr>) js)"
  by (rule jobs_ok_modify) (auto simp: job_ok_def dest: jobs_okD(2))

lemma revoke_lease_ok: "state_ok st \<Longrightarrow> state_ok (revoke_lease job st)"
  by (simp add: revoke_lease_def state_ok_def revoke_lease_jobs_ok registry_ok_def)

lemma revoke_out_of_policy_ok: "state_ok st \<Longrightarrow> state_ok (snd (revoke_out_of_policy st))"
proof -
  have "state_ok st \<Longrightarrow> state_ok (fold revoke_lease js st)" for js
    by (induction js arbitrary: st) (simp_all add: revoke_lease_ok)
  then show "state_ok st \<Longrightarrow> ?thesis" by (simp add: revoke_out_of_policy_def Let_def)
qed

lemma extended_expiry_le_hard:
  "deadline_ok (Leased w e d) \<Longrightarrow> extended_expiry now window (hard_deadline e d) e \<le> hard_deadline e d"
  by (auto simp: extended_expiry_def hard_deadline_def)

lemma extended_deadline_ok:
  "deadline_ok (Leased w e d) \<Longrightarrow>
     deadline_ok (Leased v (extended_expiry now window (hard_deadline e d) e) (hard_deadline e d))"
  using extended_expiry_le_hard by simp

lemma grace_status_ok:
  "deadline_ok s \<Longrightarrow> deadline_ok (grace_status window now s)"
  "result_ok s res \<Longrightarrow> result_ok (grace_status window now s) res"
  "held_by w (grace_status window now s) \<longleftrightarrow> held_by w s"
  using extended_deadline_ok
  by (cases s; auto simp: grace_status_def Let_def)+

lemma grace_ok: "state_ok st \<Longrightarrow> state_ok (grace_live_leases now st)"
proof -
  assume ok: "state_ok st"
  let ?g = "grace_status (po_lease_window_secs (st_policy st)) now"
  have "jobs_ok (bt_map (\<lambda>_ r. r\<lparr>jr_status := ?g (jr_status r)\<rparr>) (st_jobs st))"
    by (rule jobs_ok_map [OF state_okD(1) [OF ok]])
      (auto simp: job_ok_def grace_status_ok dest!: jobs_okD(2) [OF state_okD(1) [OF ok]])
  with ok show ?thesis by (simp add: grace_live_leases_def Let_def state_ok_def registry_ok_def)
qed

lemma note_registration_ok: "state_ok st \<Longrightarrow> state_ok (snd (note_registration who ts n st))"
  by (simp add: note_registration_def Let_def state_ok_def registry_ok_def)

lemma mark_dirty_ok: "state_ok st \<Longrightarrow> state_ok (mark_dirty st)"
  by (simp add: mark_dirty_def state_ok_def registry_ok_def)

lemma note_persisted_keeps [simp]:
  "jr_status (note_persisted r) = jr_status r" "jr_spec (note_persisted r) = jr_spec r"
  "jr_result (note_persisted r) = jr_result r"
  by (simp_all add: note_persisted_def split: job_status.splits)

lemma take_dirty_ok: "state_ok st \<Longrightarrow> state_ok (snd (take_dirty st))"
proof -
  assume ok: "state_ok st"
  have "jobs_ok (bt_map (\<lambda>_. note_persisted) (st_jobs st))"
    by (rule jobs_ok_map [OF state_okD(1) [OF ok]])
      (auto simp: job_ok_def dest!: jobs_okD(2) [OF state_okD(1) [OF ok]])
  with ok show ?thesis by (simp add: take_dirty_def state_ok_def registry_ok_def)
qed

lemma renew_ok: "state_ok st \<Longrightarrow> state_ok (snd (renew worker job now st))"
proof -
  assume ok: "state_ok st"
  show ?thesis
  proof (cases "bt_get (st_jobs st) job")
    case None
    with ok show ?thesis by (simp add: renew_def)
  next
    case (Some r)
    have "job_ok job r" using jobs_okD(2) [OF state_okD(1) [OF ok] Some] .
    show ?thesis
    proof (cases "jr_status r")
      case (Leased h e d)
      let ?hard = "hard_deadline e d"
      let ?x = "extended_expiry now (po_lease_window_secs (st_policy st)) ?hard e"
      have "jobs_ok (bt_modify job (\<lambda>r. r\<lparr>jr_status := Leased h ?x ?hard\<rparr>) (st_jobs st))"
        by (rule jobs_ok_modify [OF state_okD(1) [OF ok]])
          (use Some Leased \<open>job_ok job r\<close> extended_deadline_ok in \<open>auto simp: job_ok_def\<close>)
      then show ?thesis
        using ok Some Leased revoke_lease_ok [OF ok, of job]
        by (auto simp: renew_def Let_def state_ok_def registry_ok_def)
    qed (use ok Some in \<open>simp_all add: renew_def\<close>)
  qed
qed

lemma submit_ok: "state_ok st \<Longrightarrow> state_ok (snd (submit worker job res now st))"
proof -
  assume ok: "state_ok st"
  show ?thesis
  proof (cases "bt_get (st_jobs st) job")
    case None
    with ok show ?thesis by (simp add: submit_def)
  next
    case (Some r)
    have "job_ok job r" using jobs_okD(2) [OF state_okD(1) [OF ok] Some] .
    show ?thesis
    proof (cases "jr_status r")
      case (Leased h e d)
      have "jobs_ok (bt_modify job (\<lambda>r. r\<lparr>jr_status := Done worker now, jr_result := Some res\<rparr>) (st_jobs st))"
        by (rule jobs_ok_modify [OF state_okD(1) [OF ok]])
          (use Some Leased \<open>job_ok job r\<close> in \<open>auto simp: job_ok_def\<close>)
      then show ?thesis
        using ok Some Leased revoke_lease_ok [OF ok, of job]
        by (auto simp: submit_def Let_def state_ok_def registry_ok_def split: option.splits)
    qed (use ok Some in \<open>simp_all add: submit_def\<close>)
  qed
qed

end
