(* ===== verification/Coordinator_Lease.thy ===== *)
theory Coordinator_Lease
  imports Coordinator_Safety
begin

text \<open>
  \<^verbatim>\<open>State::lease\<close>: what a granted lease guarantees, that the grant is the best the worker may
  have, and what a refusal means.  The transitions of the running coordinator and the states
  reachable by them close the theory.
\<close>

section \<open>Choosing a job\<close>

lemma preferred_asym: "preferred a b \<Longrightarrow> \<not> preferred b a"
  by (auto simp: preferred_def)

lemma not_preferred:
  "\<not> preferred a b \<longleftrightarrow>
     js_requires (jr_spec a) < js_requires (jr_spec b) \<or>
     js_requires (jr_spec a) = js_requires (jr_spec b) \<and> js_id (jr_spec b) \<le> js_id (jr_spec a)"
  by (simp add: preferred_def not_less) (auto simp: order.order_iff_strict)

lemma preferred_negtrans: "\<not> preferred a b \<Longrightarrow> \<not> preferred b c \<Longrightarrow> \<not> preferred a c"
  unfolding not_preferred by (elim disjE conjE; auto intro: less_trans order_trans)

lemma pick_job_Some:
  assumes ok: "jobs_ok (st_jobs st)" and pick: "pick_job K parse worker claimed grp now st = Some i"
  obtains r where "bt_get (st_jobs st) i = Some r" and "eligible K parse worker claimed grp now st r"
    and "\<And>j s. bt_get (st_jobs st) j = Some s \<Longrightarrow> eligible K parse worker claimed grp now st s \<Longrightarrow>
           \<not> preferred s r"
proof -
  let ?ok = "eligible K parse worker claimed grp now st"
  from pick obtain r where r: "max_by preferred (filter ?ok (bt_values (st_jobs st))) = Some r"
    and i: "i = js_id (jr_spec r)"
    by (auto simp: pick_job_def)
  have best: "r \<in> set (filter ?ok (bt_values (st_jobs st)))"
    "\<And>x. x \<in> set (filter ?ok (bt_values (st_jobs st))) \<Longrightarrow> \<not> preferred x r"
    by (rule max_by_Some [OF _ _ r]; (erule preferred_asym | erule (1) preferred_negtrans | assumption))+
  then obtain j where "(j, r) \<in> set (st_jobs st)" and el: "?ok r" by auto
  then have j: "bt_get (st_jobs st) j = Some r" by (simp add: bt_get_iff [OF jobs_okD(1) [OF ok]])
  moreover have "j = i" using jobs_okD(2) [OF ok j] by (simp add: job_ok_def i)
  ultimately show ?thesis
    using el
  proof (intro that [of r])
    fix k s
    assume k: "bt_get (st_jobs st) k = Some s" and "?ok s"
    then have "s \<in> set (filter ?ok (bt_values (st_jobs st)))"
      using bt_get_in [OF k] by force
    then show "\<not> preferred s r" by (rule best(2))
  qed auto
qed

lemma pick_job_None:
  "pick_job K parse worker claimed grp now st = None \<Longrightarrow> bt_get (st_jobs st) i = Some r \<Longrightarrow>
     \<not> eligible K parse worker claimed grp now st r"
  by (auto simp: pick_job_def filter_empty_conv dest!: bt_get_in)

section \<open>The stages of a lease request\<close>

text \<open>The state a lease request decides on: the worker seen, lapsed leases returned.\<close>

definition polled :: "address \<Rightarrow> u64 \<Rightarrow> state \<Rightarrow> state" where
  "polled worker now st =
     snd (expire_leases now (st\<lparr>st_workers := bt_modify worker (touch now) (st_workers st)\<rparr>))"

lemma touch_keeps [simp]:
  "wr_source (touch now w) = wr_source w" "wr_capability (touch now w) = wr_capability w"
  "wr_noshows (touch now w) = wr_noshows w" "wr_cooldown_until (touch now w) = wr_cooldown_until w"
  by (simp_all add: touch_def)

lemma polled_ok: "state_ok st \<Longrightarrow> state_ok (polled worker now st)"
  unfolding polled_def
  by (rule expire_ok) (simp add: state_ok_def touch_registry_ok)

lemma polled_policy [simp]: "st_policy (polled worker now st) = st_policy st"
  by (simp add: polled_def)

lemma polled_jobs:
  "bt_get (st_jobs (polled worker now st)) i =
     map_option (expire_job (st_policy st) now (bt_modify worker (touch now) (st_workers st)))
       (bt_get (st_jobs st) i)"
  by (simp add: polled_def)

lemma polled_unexpired: "bt_get (st_jobs (polled worker now st)) i = Some r \<Longrightarrow> \<not> expired now r"
  by (auto simp: polled_jobs not_expired_after)

lemma lease_cases:
  obtains (unknown) "bt_get (st_workers st) worker = None"
      "lease K parse worker now st = (Inl UnknownWorker, st)"
  | (refused) w e where "bt_get (st_workers st) worker = Some w"
      "lease K parse worker now st = (Inl e, polled worker now st)"
      "lease_gate worker (source_group (wr_source w)) now (polled worker now st) = Some e \<or>
       e = NothingAvailable \<and>
       lease_gate worker (source_group (wr_source w)) now (polled worker now st) = None \<and>
       (pick_job K parse worker (wr_capability w) (source_group (wr_source w)) now
          (polled worker now st) = None \<or>
        (\<exists>i. pick_job K parse worker (wr_capability w) (source_group (wr_source w)) now
          (polled worker now st) = Some i \<and> bt_get (st_jobs (polled worker now st)) i = None))"
  | (granted) w i r where "bt_get (st_workers st) worker = Some w"
      "lease_gate worker (source_group (wr_source w)) now (polled worker now st) = None"
      "pick_job K parse worker (wr_capability w) (source_group (wr_source w)) now
         (polled worker now st) = Some i"
      "bt_get (st_jobs (polled worker now st)) i = Some r"
      "lease K parse worker now st =
         (Inr (jr_spec r),
          (polled worker now st)
            \<lparr>st_dirty := True,
             st_jobs := bt_modify i (grant (st_policy st) worker now)
               (st_jobs (polled worker now st))\<rparr>)"
proof (cases "bt_get (st_workers st) worker")
  case None
  then show ?thesis by (intro unknown) (simp_all add: lease_def)
next
  case (Some w)
  let ?g = "source_group (wr_source w)" and ?st2 = "polled worker now st"
  show ?thesis
  proof (cases "lease_gate worker ?g now ?st2")
    case (Some e)
    with \<open>bt_get (st_workers st) worker = Some w\<close> show ?thesis
      by (intro refused [of w e]) (simp_all add: lease_def Let_def flip: polled_def)
  next
    case None
    note gate = this
    show ?thesis
    proof (cases "pick_job K parse worker (wr_capability w) ?g now ?st2")
      case None
      with gate Some show ?thesis
        by (intro refused [of w NothingAvailable]) (simp_all add: lease_def Let_def flip: polled_def)
    next
      case (Some i)
      note pick = this
      show ?thesis
      proof (cases "bt_get (st_jobs ?st2) i")
        case None
        with gate pick \<open>bt_get (st_workers st) worker = Some w\<close> show ?thesis
          by (intro refused [of w NothingAvailable]) (simp_all add: lease_def Let_def flip: polled_def)
      next
        case (Some r)
        with gate pick \<open>bt_get (st_workers st) worker = Some w\<close> show ?thesis
          by (intro granted) (simp_all add: lease_def Let_def flip: polled_def)
      qed
    qed
  qed
qed

lemma grant_held [simp]: "held_by v (jr_status (grant p worker now r)) \<longleftrightarrow> v = worker"
  by (auto simp: grant_def)

lemma grant_job_ok: "job_ok i r \<Longrightarrow> job_ok i (grant p worker now r)"
  by (simp add: job_ok_def grant_def sat_add_mono)

lemma lease_gate_None:
  assumes "lease_gate worker grp now st = None"
  shows "worker_cooldown worker st \<le> now" and "held_count worker st = 0"
    and "\<not> is_trusted (st_policy st) worker \<Longrightarrow> source_cooldown grp st \<le> now"
    and "\<not> is_trusted (st_policy st) worker \<Longrightarrow>
           group_count grp st < po_max_leases_per_source (st_policy st)"
  using assms by (auto simp: lease_gate_def MAX_LEASES_PER_WORKER_def split: if_splits)

lemma lease_ok: "state_ok st \<Longrightarrow> state_ok (snd (lease K parse worker now st))"
proof -
  assume ok: "state_ok st"
  note pok = polled_ok [OF ok, of worker now]
  show ?thesis
  proof (cases rule: lease_cases [of st worker K parse now])
    case unknown
    with ok show ?thesis by simp
  next
    case (refused w e)
    with pok show ?thesis by simp
  next
    case (granted w i r)
    have "\<not> held_by worker (jr_status s)" if "bt_get (st_jobs (polled worker now st)) j = Some s" for j s
      using lease_gate_None(2) [OF granted(2)] held_count_zero [OF state_okD(1) [OF pok]] that by blast
    then have "jobs_ok (bt_modify i (grant (st_policy st) worker now) (st_jobs (polled worker now st)))"
      using granted(4) jobs_okD(2) [OF state_okD(1) [OF pok]]
      by (intro jobs_ok_lease [OF state_okD(1) [OF pok]]) (auto simp: grant_job_ok)
    with pok granted(5) show ?thesis by (simp add: state_ok_def registry_ok_def)
  qed
qed

section \<open>The running coordinator\<close>

text \<open>
  Everything that changes the state while the coordinator runs, and a restart: the state comes
  back from disk (\<open>reload\<close>: fields marked \<^verbatim>\<open>#[serde(skip)]\<close> take their defaults), then
  \<^verbatim>\<open>Coordinator::open_with\<close> installs the policy, requeues what it no longer allows and gives the
  live leases a fresh window.
\<close>

definition reload :: "state \<Rightarrow> state" where
  "reload st =
     st\<lparr>st_policy := default_policy, st_dirty := False,
        st_jobs := bt_map (\<lambda>_ r. r\<lparr>jr_persisted_expiry := 0\<rparr>) (st_jobs st)\<rparr>"

definition boot :: "policy \<Rightarrow> u64 \<Rightarrow> state \<Rightarrow> state" where
  "boot p now st =
     grace_live_leases now (snd (revoke_out_of_policy (st\<lparr>st_policy := p\<rparr>)))"

datatype coord_event =
    EAddJob job_spec
  | ERegister registered_worker string u64
  | ENoteRegistration address u64 u64
  | EExpire u64
  | ELease address u64
  | ERenew address job_id u64
  | ESubmit address job_id string u64
  | ETakeDirty
  | EMarkDirty
  | ERestart policy u64

inductive coord_step ::
  "(bytes \<Rightarrow> b256) \<Rightarrow> payload_parser \<Rightarrow> coord_event \<Rightarrow> state \<Rightarrow> state \<Rightarrow> bool"
  for K parse where
  step_add: "coord_step K parse (EAddJob spec) st (add_job spec st)"
| step_register: "coord_step K parse (ERegister w source now) st (snd (register w source now st))"
| step_note: "coord_step K parse (ENoteRegistration who ts n) st (snd (note_registration who ts n st))"
| step_expire: "coord_step K parse (EExpire now) st (snd (expire_leases now st))"
| step_lease: "coord_step K parse (ELease worker now) st (snd (lease K parse worker now st))"
| step_renew: "coord_step K parse (ERenew worker job now) st (snd (renew worker job now st))"
| step_submit: "coord_step K parse (ESubmit worker job res now) st (snd (submit worker job res now st))"
| step_take: "coord_step K parse ETakeDirty st (snd (take_dirty st))"
| step_mark: "coord_step K parse EMarkDirty st (mark_dirty st)"
| step_restart: "coord_step K parse (ERestart p now) st (boot p now (reload st))"

inductive_cases coord_stepE: "coord_step K parse ev st st'"
inductive_simps coord_step_simps:
  "coord_step K parse (EAddJob spec) st st'"
  "coord_step K parse (ERegister w source now) st st'"
  "coord_step K parse (ENoteRegistration who ts n) st st'"
  "coord_step K parse (EExpire now) st st'"
  "coord_step K parse (ELease worker now) st st'"
  "coord_step K parse (ERenew worker job now) st st'"
  "coord_step K parse (ESubmit worker job res now) st st'"
  "coord_step K parse ETakeDirty st st'"
  "coord_step K parse EMarkDirty st st'"
  "coord_step K parse (ERestart p now) st st'"

inductive reachable :: "(bytes \<Rightarrow> b256) \<Rightarrow> payload_parser \<Rightarrow> state \<Rightarrow> bool"
  for K parse where
  reach_start: "reachable K parse (boot p now default_state)"
| reach_step: "reachable K parse st \<Longrightarrow> coord_step K parse ev st st' \<Longrightarrow> reachable K parse st'"

lemma reload_ok: "state_ok st \<Longrightarrow> state_ok (reload st)"
proof -
  assume ok: "state_ok st"
  have "jobs_ok (bt_map (\<lambda>_ r. r\<lparr>jr_persisted_expiry := 0\<rparr>) (st_jobs st))"
    by (rule jobs_ok_map [OF state_okD(1) [OF ok]])
      (auto simp: job_ok_def dest!: jobs_okD(2) [OF state_okD(1) [OF ok]])
  with ok show ?thesis by (simp add: reload_def state_ok_def registry_ok_def)
qed

lemma boot_ok: "state_ok st \<Longrightarrow> state_ok (boot p now st)"
proof -
  assume "state_ok st"
  then have "state_ok (st\<lparr>st_policy := p\<rparr>)" by (simp add: state_ok_def registry_ok_def)
  then show ?thesis
    unfolding boot_def by (intro grace_ok revoke_out_of_policy_ok)
qed

lemmas op_ok = add_job_ok register_ok note_registration_ok expire_ok lease_ok renew_ok submit_ok
  take_dirty_ok mark_dirty_ok boot_ok reload_ok

lemma step_ok: "coord_step K parse ev st st' \<Longrightarrow> state_ok st \<Longrightarrow> state_ok st'"
  by (erule coord_stepE) (simp_all add: op_ok)

lemma reachable_ok: "reachable K parse st \<Longrightarrow> state_ok st"
  by (induction rule: reachable.induct) (auto intro: step_ok boot_ok default_state_ok)

end
