(* ===== verification/Coordinator_Jobs.thy ===== *)
theory Coordinator_Jobs
  imports Coordinator_Lease
begin

text \<open>
  The life of one job.  \<open>job_step\<close> lists every change of status a transition of the coordinator
  can make to a job; the invariants about statuses (no lease outside the policy, nothing ever
  quarantined, accepted results are final) follow from it.
\<close>

section \<open>Revocation in closed form\<close>

lemma revoke_lease_keeps [simp]:
  "st_workers (revoke_lease job st) = st_workers st" "st_policy (revoke_lease job st) = st_policy st"
  "st_sources (revoke_lease job st) = st_sources st"
  "st_penalties (revoke_lease job st) = st_penalties st"
  by (simp_all add: revoke_lease_def)

lemma revoke_lease_get:
  "bt_get (st_jobs (revoke_lease job st)) i =
     (if i = job then map_option (\<lambda>r. r\<lparr>jr_status := Pending\<rparr>) (bt_get (st_jobs st) i)
      else bt_get (st_jobs st) i)"
  by (auto simp: revoke_lease_def bt_has_def)

lemma fold_revoke_keeps [simp]:
  "st_workers (fold revoke_lease js st) = st_workers st"
  "st_policy (fold revoke_lease js st) = st_policy st"
  "st_sources (fold revoke_lease js st) = st_sources st"
  "st_penalties (fold revoke_lease js st) = st_penalties st"
  by (induction js arbitrary: st) simp_all

lemma fold_revoke_get:
  "bt_get (st_jobs (fold revoke_lease js st)) i =
     (if i \<in> set js then map_option (\<lambda>r. r\<lparr>jr_status := Pending\<rparr>) (bt_get (st_jobs st) i)
      else bt_get (st_jobs st) i)"
  by (induction js arbitrary: st) (auto simp: revoke_lease_get option.map_comp comp_def)

lemma revoke_out_of_policy_get:
  assumes "bt_ok (st_jobs st)"
  shows "bt_get (st_jobs (snd (revoke_out_of_policy st))) i =
    map_option (\<lambda>r. if out_of_policy (st_policy st) r then r\<lparr>jr_status := Pending\<rparr> else r)
      (bt_get (st_jobs st) i)"
proof (cases "bt_get (st_jobs st) i")
  case None
  then show ?thesis by (simp add: revoke_out_of_policy_def Let_def fold_revoke_get)
next
  case (Some r)
  then have "(i, s) \<in> set (st_jobs st) \<longleftrightarrow> s = r" for s
    using bt_get_iff [OF assms, of i s] by auto
  then have "i \<in> fst ` {e \<in> set (st_jobs st). out_of_policy (st_policy st) (snd e)}
             \<longleftrightarrow> out_of_policy (st_policy st) r"
    by (auto simp: image_iff)
  with Some show ?thesis
    by (simp add: revoke_out_of_policy_def Let_def fold_revoke_get case_prod_unfold)
qed

lemma revoke_out_of_policy_keeps [simp]:
  "st_workers (snd (revoke_out_of_policy st)) = st_workers st"
  "st_policy (snd (revoke_out_of_policy st)) = st_policy st"
  by (simp_all add: revoke_out_of_policy_def Let_def)

lemma boot_get:
  assumes "bt_ok (st_jobs st)"
  shows "bt_get (st_jobs (boot p now st)) i =
    map_option (\<lambda>r. if out_of_policy p r then r\<lparr>jr_status := Pending\<rparr>
                    else r\<lparr>jr_status := grace_status (po_lease_window_secs p) now (jr_status r)\<rparr>)
      (bt_get (st_jobs st) i)"
  using assms
  by (auto simp: boot_def grace_live_leases_def Let_def revoke_out_of_policy_get option.map_comp
      comp_def grace_status_def intro!: option.map_cong)

lemma boot_policy [simp]: "st_policy (boot p now st) = p"
  by (simp add: boot_def grace_live_leases_def Let_def)

section \<open>One step of one job\<close>

datatype job_move =
    Kept
  | Requeued address
  | Extended address u64 u64
  | Granted address
  | Accepted address u64 string

fun move_ok :: "policy \<Rightarrow> job_move \<Rightarrow> job_record \<Rightarrow> job_record \<Rightarrow> bool" where
  "move_ok p Kept r r' \<longleftrightarrow> jr_status r' = jr_status r \<and> jr_result r' = jr_result r"
| "move_ok p (Requeued w) r r' \<longleftrightarrow>
     held_by w (jr_status r) \<and> jr_status r' = Pending \<and> jr_result r' = jr_result r"
| "move_ok p (Extended w e d) r r' \<longleftrightarrow>
     held_by w (jr_status r) \<and> jr_status r' = Leased w e d \<and> lease_expires (jr_status r) \<le> e \<and>
     jr_result r' = jr_result r"
| "move_ok p (Granted w) r r' \<longleftrightarrow>
     (jr_status r = Pending \<or> (\<exists>v. held_by v (jr_status r))) \<and> held_by w (jr_status r') \<and>
     tier_allowed p w (js_requires (jr_spec r)) \<and> jr_result r' = jr_result r"
| "move_ok p (Accepted w now res) r r' \<longleftrightarrow>
     held_by w (jr_status r) \<and> jr_status r' = Done w now \<and> jr_result r' = Some res"

text \<open>The record of job \<open>i\<close> after a transition: a new job, or a permitted move of the old one.\<close>

definition job_succ ::
  "policy \<Rightarrow> coord_event \<Rightarrow> (job_id, job_record) btree \<Rightarrow> job_id \<Rightarrow> job_record \<Rightarrow> bool" where
  "job_succ p ev js i r' \<longleftrightarrow>
     (\<exists>spec. ev = EAddJob spec \<and> js_id spec = i \<and> jr_spec r' = spec \<and> jr_status r' = Pending) \<or>
     (\<exists>r m. bt_get js i = Some r \<and> jr_spec r' = jr_spec r \<and> move_ok p m r r' \<and>
        (\<forall>w now res. m = Accepted w now res \<longrightarrow> ev = ESubmit w i res now))"

lemma job_succ_kept: "bt_get js i = Some r \<Longrightarrow> job_succ p ev js i r"
  unfolding job_succ_def by (intro disjI2 exI [of _ r] exI [of _ Kept]) simp

lemma job_succI:
  "bt_get js i = Some r \<Longrightarrow> jr_spec r' = jr_spec r \<Longrightarrow> move_ok p m r r' \<Longrightarrow>
   (\<And>w now res. m = Accepted w now res \<Longrightarrow> ev = ESubmit w i res now) \<Longrightarrow> job_succ p ev js i r'"
  unfolding job_succ_def by blast

lemma expire_job_succ:
  assumes "bt_get js i = Some r"
  shows "job_succ p ev js i (expire_job q now ws r)"
proof (cases "expired now r")
  case True
  then obtain w e d where s: "jr_status r = Leased w e d"
    by (auto simp: expired_def split: job_status.splits)
  show ?thesis
    by (rule job_succI [OF assms, where m = "Requeued w"])
      (use True s in \<open>simp_all add: expire_job_def expired_def lapse_def\<close>)
next
  case False
  then show ?thesis using assms by (simp add: expire_job_unexpired job_succ_kept)
qed

lemma eligible_tier:
  "eligible K parse w claimed grp now st r \<Longrightarrow> tier_allowed (st_policy st) w (js_requires (jr_spec r))"
  unfolding eligible_def tier_allowed_def
  by (meson capability_order(2) effective_capability_mono satisfies_mono)

lemma lease_job_succ:
  assumes ok: "state_ok st" and get: "bt_get (st_jobs (snd (lease K parse worker now st))) i = Some r'"
  shows "job_succ (st_policy st) ev (st_jobs st) i r'"
proof (cases rule: lease_cases [of st worker K parse now])
  case unknown
  with get show ?thesis by (simp add: job_succ_kept)
next
  case (refused w e)
  with get show ?thesis by (auto simp: polled_jobs expire_job_succ)
next
  case (granted w j s)
  note pok = state_okD(1) [OF polled_ok [OF ok, of worker now]]
  obtain s' where "bt_get (st_jobs (polled worker now st)) j = Some s'"
    and el: "eligible K parse worker (wr_capability w) (source_group (wr_source w)) now
               (polled worker now st) s'"
    using pick_job_Some [OF pok granted(3)] by metis
  with granted(4) have s: "eligible K parse worker (wr_capability w) (source_group (wr_source w)) now
               (polled worker now st) s" by simp
  show ?thesis
  proof (cases "i = j")
    case True
    with granted(4) obtain r where r: "bt_get (st_jobs st) i = Some r"
      and s_eq: "s = expire_job (st_policy st) now (bt_modify worker (touch now) (st_workers st)) r"
      by (auto simp: polled_jobs)
    have "jr_status s = Pending" using s by (simp add: eligible_def)
    then have "jr_status r = Pending \<or> (\<exists>v. held_by v (jr_status r))"
      by (cases "jr_status r") (auto simp: s_eq expire_job_status expired_def split: if_splits)
    moreover have "tier_allowed (st_policy st) worker (js_requires (jr_spec r))"
      using eligible_tier [OF s] by (simp add: s_eq)
    moreover have "jr_result s = jr_result r"
      by (simp add: s_eq expire_job_def lapse_def split: job_status.splits)
    ultimately show ?thesis
      using True granted(4,5) get
      by (intro job_succI [OF r, where m = "Granted worker"]) (auto simp: grant_def s_eq)
  next
    case False
    with granted(5) get show ?thesis by (auto simp: polled_jobs expire_job_succ)
  qed
qed

lemma revoke_job_succ:
  assumes "bt_get (st_jobs (revoke_lease job st)) i = Some r'"
    and "bt_get (st_jobs st) job = Some r" and "held_by w (jr_status r)"
  shows "job_succ p ev (st_jobs st) i r'"
  using assms
  by (cases "i = job")
    (auto simp: revoke_lease_get job_succ_kept intro!: job_succI [where m = "Requeued w"])

lemma extended_ge: "e \<le> extended_expiry now window hard e"
  by (simp add: extended_expiry_def)

lemma renew_cases:
  assumes "bt_get (st_jobs st) job = Some r" and "jr_status r = Leased h e d"
  obtains (other) "h \<noteq> worker" "renew worker job now st = (Inl NotLeaseholder, st)"
  | (late) "h = worker" "e \<le> now" "renew worker job now st = (Inl (LeaseExpired e now), st)"
  | (revoked) "h = worker" "now < e" "\<not> tier_allowed (st_policy st) worker (js_requires (jr_spec r))"
      "renew worker job now st = (Inl TierRevoked, revoke_lease job st)"
  | (extended) hard x st' where "h = worker" "now < e"
      "tier_allowed (st_policy st) worker (js_requires (jr_spec r))"
      "hard = hard_deadline e d"
      "x = extended_expiry now (po_lease_window_secs (st_policy st)) hard e"
      "renew worker job now st = (Inr x, st')"
      "st_jobs st' = bt_modify job (\<lambda>r. r\<lparr>jr_status := Leased worker x hard\<rparr>) (st_jobs st)"
      "st_workers st' = bt_modify worker (touch now) (st_workers st)"
      "st_policy st' = st_policy st" "st_sources st' = st_sources st"
proof (cases "h = worker")
  case False
  with assms show ?thesis by (intro other) (simp_all add: renew_def)
next
  case h: True
  show ?thesis
  proof (cases "e \<le> now")
    case True
    with assms h show ?thesis by (intro late) (simp_all add: renew_def)
  next
    case e: False
    show ?thesis
    proof (cases "tier_allowed (st_policy st) worker (js_requires (jr_spec r))")
      case False
      with assms h e show ?thesis by (intro revoked) (simp_all add: renew_def)
    next
      case True
      with assms h e show ?thesis
        by (intro extended [where st' = "snd (renew worker job now st)", OF _ _ _ refl refl])
          (simp_all add: renew_def Let_def)
    qed
  qed
qed

lemma submit_cases:
  assumes "bt_get (st_jobs st) job = Some r" and "jr_status r = Leased h e d"
  obtains (other) "h \<noteq> worker" "submit worker job res now st = (Inl NotLeaseholder, st)"
  | (late) "h = worker" "e \<le> now" "submit worker job res now st = (Inl (LeaseExpired e now), st)"
  | (revoked) "h = worker" "now < e" "\<not> tier_allowed (st_policy st) worker (js_requires (jr_spec r))"
      "submit worker job res now st = (Inl TierRevoked, revoke_lease job st)"
  | (accepted) st' where "h = worker" "now < e"
      "tier_allowed (st_policy st) worker (js_requires (jr_spec r))"
      "submit worker job res now st = (Inr (), st')"
      "st_jobs st' =
         bt_modify job (\<lambda>r. r\<lparr>jr_status := Done worker now, jr_result := Some res\<rparr>) (st_jobs st)"
      "st_workers st' =
         bt_modify worker (delivered (is_trusted (st_policy st) worker) now) (st_workers st)"
      "st_policy st' = st_policy st" "st_penalties st' = st_penalties st" "st_dirty st'"
proof (cases "h = worker")
  case False
  with assms show ?thesis by (intro other) (simp_all add: submit_def)
next
  case h: True
  show ?thesis
  proof (cases "e \<le> now")
    case True
    with assms h show ?thesis by (intro late) (simp_all add: submit_def not_less)
  next
    case e: False
    show ?thesis
    proof (cases "tier_allowed (st_policy st) worker (js_requires (jr_spec r))")
      case False
      with assms h e show ?thesis by (intro revoked) (simp_all add: submit_def)
    next
      case True
      with assms h e show ?thesis
        by (intro accepted [where st' = "snd (submit worker job res now st)"])
          (simp_all add: submit_def Let_def)
    qed
  qed
qed

lemma renew_job_succ:
  assumes "bt_get (st_jobs (snd (renew worker job now st))) i = Some r'"
  shows "job_succ p ev (st_jobs st) i r'"
proof (cases "\<exists>r h e d. bt_get (st_jobs st) job = Some r \<and> jr_status r = Leased h e d")
  case True
  then obtain r h e d where r: "bt_get (st_jobs st) job = Some r" "jr_status r = Leased h e d"
    by blast
  then show ?thesis
  proof (cases rule: renew_cases [where worker = worker and now = now])
    case revoked
    with assms r show ?thesis by (intro revoke_job_succ [where w = h]) auto
  next
    case (extended hard x st')
    with assms r show ?thesis
      by (cases "i = job")
        (auto simp: job_succ_kept extended_ge intro!: job_succI [where m = "Extended worker x hard"])
  qed (use assms in \<open>simp_all add: job_succ_kept\<close>)
next
  case False
  then have "snd (renew worker job now st) = st"
    by (auto simp: renew_def split: option.splits job_status.splits)
  with assms show ?thesis by (simp add: job_succ_kept)
qed

lemma submit_job_succ:
  assumes "bt_get (st_jobs (snd (submit worker job res now st))) i = Some r'"
  shows "job_succ p (ESubmit worker job res now) (st_jobs st) i r'"
proof (cases "\<exists>r h e d. bt_get (st_jobs st) job = Some r \<and> jr_status r = Leased h e d")
  case True
  then obtain r h e d where r: "bt_get (st_jobs st) job = Some r" "jr_status r = Leased h e d"
    by blast
  then show ?thesis
  proof (cases rule: submit_cases [where worker = worker and now = now and res = res])
    case revoked
    with assms r show ?thesis by (intro revoke_job_succ [where w = h]) auto
  next
    case (accepted st')
    with assms r show ?thesis
      by (cases "i = job")
        (auto simp: job_succ_kept intro!: job_succI [where m = "Accepted worker now res"])
  qed (use assms in \<open>simp_all add: job_succ_kept\<close>)
next
  case False
  then have "snd (submit worker job res now st) = st"
    by (auto simp: submit_def split: option.splits job_status.splits)
  with assms show ?thesis by (simp add: job_succ_kept)
qed

lemma boot_job_succ:
  assumes "bt_ok (st_jobs st)" and "bt_get (st_jobs (boot p now st)) i = Some r'"
  shows "job_succ q ev (st_jobs st) i r'"
proof -
  from assms obtain r where r: "bt_get (st_jobs st) i = Some r"
    and r': "r' = (if out_of_policy p r then r\<lparr>jr_status := Pending\<rparr>
      else r\<lparr>jr_status := grace_status (po_lease_window_secs p) now (jr_status r)\<rparr>)"
    by (auto simp: boot_get)
  show ?thesis
  proof (cases "jr_status r")
    case (Leased w e d)
    let ?x = "extended_expiry now (po_lease_window_secs p) (hard_deadline e d) e"
    consider "out_of_policy p r" "r' = r\<lparr>jr_status := Pending\<rparr>" | "r' = r"
      | "r' = r\<lparr>jr_status := Leased w ?x (hard_deadline e d)\<rparr>"
      using r' Leased by (auto simp: grace_status_def Let_def split: if_splits)
    then show ?thesis
      by cases (use r Leased in \<open>auto simp: job_succ_kept extended_ge
          intro: job_succI [where m = "Requeued w"]
            job_succI [where m = "Extended w ?x (hard_deadline e d)"]\<close>)
  qed (use r r' in \<open>simp_all add: grace_status_def out_of_policy_def job_succ_kept\<close>)
qed

lemma register_policy [simp]: "st_policy (snd (register w source now st)) = st_policy st"
proof (cases "bt_get (st_workers st) (rw_id w)")
  case None
  then show ?thesis
    by (rule register_new_cases [where source = source and now = now]) auto
next
  case (Some e)
  then show ?thesis by (simp add: register_def)
qed

lemma take_dirty_get:
  "bt_get (st_jobs (snd (take_dirty st))) i =
     map_option (\<lambda>r. if st_dirty st then note_persisted r else r) (bt_get (st_jobs st) i)"
  by (simp add: take_dirty_def option.map_ident)

lemma reload_get:
  "bt_get (st_jobs (reload st)) i = map_option (\<lambda>r. r\<lparr>jr_persisted_expiry := 0\<rparr>) (bt_get (st_jobs st) i)"
  by (simp add: reload_def)

lemma add_job_succ:
  "bt_get (st_jobs (add_job spec st)) i = Some r' \<Longrightarrow> job_succ p (EAddJob spec) (st_jobs st) i r'"
  by (auto simp: add_job_def job_succ_kept split: if_splits) (simp add: job_succ_def)

lemma same_fields_succ:
  assumes "bt_get js i = Some r" and "jr_spec r' = jr_spec r" and "jr_status r' = jr_status r"
    and "jr_result r' = jr_result r"
  shows "job_succ p ev js i r'"
  by (rule job_succI [OF assms(1), where m = Kept]) (simp_all add: assms)

lemma restart_succ:
  assumes ok: "state_ok st" and "bt_get (st_jobs (boot p now (reload st))) i = Some r'"
  shows "job_succ q ev (st_jobs st) i r'"
proof -
  let ?f = "\<lambda>r :: job_record. r\<lparr>jr_persisted_expiry := 0\<rparr>"
  note rok = state_okD(1) [OF reload_ok [OF ok]]
  from assms(2) obtain m r1 where r1: "bt_get (st_jobs (reload st)) i = Some r1"
    and m: "jr_spec r' = jr_spec r1" "move_ok q m r1 r'" "\<And>w n res. m \<noteq> Accepted w n res"
    using boot_job_succ [OF jobs_okD(1) [OF rok], of p now i r' q EMarkDirty]
    by (auto simp: job_succ_def)
  from r1 obtain r where r: "bt_get (st_jobs st) i = Some r" "r1 = ?f r"
    by (auto simp: reload_get)
  have "move_ok q m r r'" using m(2) by (cases m) (simp_all add: r(2))
  with m r show ?thesis by (intro job_succI [OF r(1), where m = m]) auto
qed

lemma job_step:
  assumes "coord_step K parse ev st st'" and ok: "state_ok st"
    and get: "bt_get (st_jobs st') i = Some r'"
  shows "job_succ (st_policy st) ev (st_jobs st) i r'"
  using assms(1)
proof cases
  case step_add
  with get show ?thesis by (simp add: add_job_succ)
next
  case step_register
  with get show ?thesis by (simp add: register_jobs job_succ_kept)
next
  case step_note
  with get show ?thesis by (simp add: note_registration_def Let_def job_succ_kept)
next
  case step_expire
  with get show ?thesis by (auto simp: expire_job_succ)
next
  case step_lease
  with get ok show ?thesis by (simp add: lease_job_succ)
next
  case step_renew
  with get show ?thesis by (simp add: renew_job_succ)
next
  case step_submit
  with get show ?thesis by (simp add: submit_job_succ)
next
  case step_take
  with get show ?thesis
    by (auto simp: take_dirty_get job_succ_kept intro: same_fields_succ split: if_splits)
next
  case step_mark
  with get show ?thesis by (simp add: mark_dirty_def job_succ_kept)
next
  case step_restart
  with get ok show ?thesis by (simp add: restart_succ)
qed

section \<open>Invariants over statuses\<close>

definition leases_allowed :: "state \<Rightarrow> bool" where
  "leases_allowed st \<longleftrightarrow>
     (\<forall>i r w. bt_get (st_jobs st) i = Some r \<longrightarrow> held_by w (jr_status r) \<longrightarrow>
        tier_allowed (st_policy st) w (js_requires (jr_spec r)))"

fun is_quarantined :: "job_status \<Rightarrow> bool" where
  "is_quarantined (Quarantined _) \<longleftrightarrow> True"
| "is_quarantined _ \<longleftrightarrow> False"

lemma lease_policy: "st_policy (snd (lease K parse worker now st)) = st_policy st"
  by (rule lease_cases [of st worker K parse now]) simp_all

lemma renew_policy: "st_policy (snd (renew worker job now st)) = st_policy st"
  by (simp add: renew_def Let_def split: option.splits job_status.splits)

lemma submit_policy: "st_policy (snd (submit worker job res now st)) = st_policy st"
  by (simp add: submit_def Let_def split: option.splits job_status.splits)

lemma step_policy:
  "coord_step K parse ev st st' \<Longrightarrow> (\<And>p now. ev \<noteq> ERestart p now) \<Longrightarrow> st_policy st' = st_policy st"
  by (erule coord_stepE)
    (auto simp: add_job_def note_registration_def Let_def lease_policy renew_policy submit_policy
      take_dirty_def mark_dirty_def)

lemma out_of_policy_held:
  "held_by w (jr_status r) \<Longrightarrow> out_of_policy p r \<longleftrightarrow> \<not> tier_allowed p w (js_requires (jr_spec r))"
  by (cases "jr_status r") (auto simp: out_of_policy_def)

lemma boot_allowed:
  assumes "state_ok st"
  shows "leases_allowed (boot p now st)"
  unfolding leases_allowed_def boot_policy
proof (intro allI impI)
  fix i r w
  assume "bt_get (st_jobs (boot p now st)) i = Some r" and held: "held_by w (jr_status r)"
  then obtain z where "r = (if out_of_policy p z then z\<lparr>jr_status := Pending\<rparr>
      else z\<lparr>jr_status := grace_status (po_lease_window_secs p) now (jr_status z)\<rparr>)"
    by (auto simp: boot_get [OF jobs_okD(1) [OF state_okD(1) [OF assms]]])
  with held show "tier_allowed p w (js_requires (jr_spec r))"
    by (auto simp: grace_status_ok dest: out_of_policy_held split: if_splits)
qed

lemma held_by_unique: "held_by v s \<Longrightarrow> held_by w s \<Longrightarrow> v = w"
  by (cases s) auto

lemma step_allowed:
  assumes step: "coord_step K parse ev st st'" and ok: "state_ok st" and "leases_allowed st"
  shows "leases_allowed st'"
proof (cases "\<exists>p now. ev = ERestart p now")
  case True
  then obtain p now where "ev = ERestart p now" by blast
  with step have "st' = boot p now (reload st)" by (simp add: coord_step_simps)
  with boot_allowed [OF reload_ok [OF ok]] show ?thesis by simp
next
  case False
  then have pol: "st_policy st' = st_policy st" using step_policy [OF step] by blast
  show ?thesis
    unfolding leases_allowed_def pol
  proof (intro allI impI)
    fix i r' w
    assume r': "bt_get (st_jobs st') i = Some r'" and held: "held_by w (jr_status r')"
    from job_step [OF step ok r'] held obtain r m where r: "bt_get (st_jobs st) i = Some r"
      and m: "jr_spec r' = jr_spec r" "move_ok (st_policy st) m r r'"
      by (auto simp: job_succ_def)
    from r \<open>leases_allowed st\<close> have "held_by w (jr_status r) \<Longrightarrow>
        tier_allowed (st_policy st) w (js_requires (jr_spec r))"
      by (auto simp: leases_allowed_def)
    with m held show "tier_allowed (st_policy st) w (js_requires (jr_spec r'))"
      by (cases m) (auto dest: held_by_unique)
  qed
qed

lemma reachable_allowed: "reachable K parse st \<Longrightarrow> leases_allowed st"
  by (induction rule: reachable.induct)
    (auto intro: step_allowed boot_allowed reachable_ok default_state_ok)

lemma step_not_quarantined:
  assumes "coord_step K parse ev st st'" and "state_ok st"
    and "\<And>i r. bt_get (st_jobs st) i = Some r \<Longrightarrow> \<not> is_quarantined (jr_status r)"
    and "bt_get (st_jobs st') i = Some r'"
  shows "\<not> is_quarantined (jr_status r')"
proof -
  have held: "held_by w s \<Longrightarrow> \<not> is_quarantined s" for w s by (cases s) auto
  from job_step [OF assms(1,2,4)] consider "jr_status r' = Pending"
    | r m where "bt_get (st_jobs st) i = Some r" "move_ok (st_policy st) m r r'"
    by (auto simp: job_succ_def)
  then show ?thesis
  proof cases
    case (2 r m)
    with assms(3) held show ?thesis by (cases m) auto
  qed simp
qed

lemma reachable_not_quarantined:
  "reachable K parse st \<Longrightarrow> bt_get (st_jobs st) i = Some r \<Longrightarrow> \<not> is_quarantined (jr_status r)"
proof (induction arbitrary: i r rule: reachable.induct)
  case (reach_start p now)
  then show ?case by (simp add: boot_get [OF jobs_okD(1) [OF state_okD(1) [OF default_state_ok]]])
      (simp add: default_state_def)
next
  case (reach_step st ev st')
  then show ?case using step_not_quarantined reachable_ok by metis
qed

end
