(* ===== verification/Store.thy ===== *)
theory Store
  imports Coordinator_Jobs
begin

text \<open>
  Crash-atomic persistence, \<^verbatim>\<open>training-coordinator/src/store.rs\<close>.  A file's contents have the type
  \<open>'f\<close>; serialisation of a state (\<^verbatim>\<open>serde_json\<close>) is the parameter \<open>ser\<close> and parsing is \<open>de\<close>.

  \<open>dk_target\<close> is the state file as a reader sees it, \<open>dk_tmp\<close> says that a temporary file is left
  over, and \<open>dk_after_crash\<close> holds every content a power loss may leave in the state file: a rename
  whose directory has not been synced may or may not survive.
\<close>

record 'f disk =
  dk_target :: "'f option"
  dk_tmp :: bool
  dk_after_crash :: "'f option set"

text \<open>Where a save can fail: before anything is written, while the temporary file is written or
  synced, at the rename, and at the sync of the directory after it.  Each carries the error's
  text.\<close>

datatype save_fault =
    NoFault
  | FailDir string
  | FailTmp string
  | FailRename string
  | FailSync string

fun save :: "(state \<Rightarrow> 'f) \<Rightarrow> state \<Rightarrow> save_fault \<Rightarrow> 'f disk \<Rightarrow> (string + unit) \<times> 'f disk" where
  "save ser st (FailDir e) dk = (Inl e, dk)"
| "save ser st (FailTmp e) dk = (Inl e, dk\<lparr>dk_tmp := True\<rparr>)"
| "save ser st (FailRename e) dk = (Inl e, dk\<lparr>dk_tmp := True\<rparr>)"
| "save ser st (FailSync e) dk =
     (Inl e, dk\<lparr>dk_target := Some (ser st), dk_tmp := False,
                dk_after_crash := insert (Some (ser st)) (dk_after_crash dk)\<rparr>)"
| "save ser st NoFault dk =
     (Inr (), dk\<lparr>dk_target := Some (ser st), dk_tmp := False, dk_after_crash := {Some (ser st)}\<rparr>)"

text \<open>Reading what a state file holds: a missing file is an empty state, a corrupt one an error.\<close>

definition load_file :: "('f \<Rightarrow> state option) \<Rightarrow> 'f option \<Rightarrow> state option" where
  "load_file de file = (case file of None \<Rightarrow> Some default_state | Some f \<Rightarrow> de f)"

definition load :: "('f \<Rightarrow> state option) \<Rightarrow> 'f disk \<Rightarrow> state option" where
  "load de dk = load_file de (dk_target dk)"

definition empty_disk :: "'f disk" where
  "empty_disk = \<lparr>dk_target = None, dk_tmp = False, dk_after_crash = {None}\<rparr>"

text \<open>The disk a machine restarts with.\<close>

definition crashed :: "'f option \<Rightarrow> 'f disk \<Rightarrow> 'f disk" where
  "crashed file dk = dk\<lparr>dk_target := file, dk_after_crash := {file}\<rparr>"

section \<open>What is on disk\<close>

text \<open>
  \<open>durable_part st\<close> erases what the coordinator does not persist at once: the operator's policy,
  the dirty mark, when a worker was last heard of, and how far a lease has been extended (its
  deadline stays).
\<close>

fun durable_status :: "job_status \<Rightarrow> job_status" where
  "durable_status (Leased w e d) = Leased w 0 (hard_deadline e d)"
| "durable_status s = s"

definition durable_job :: "job_record \<Rightarrow> job_record" where
  "durable_job r = r\<lparr>jr_status := durable_status (jr_status r), jr_persisted_expiry := 0\<rparr>"

definition durable_worker :: "worker_record \<Rightarrow> worker_record" where
  "durable_worker w = w\<lparr>wr_last_seen := 0, wr_last_engaged := None\<rparr>"

definition durable_part :: "state \<Rightarrow> state" where
  "durable_part st =
     st\<lparr>st_jobs := bt_map (\<lambda>_. durable_job) (st_jobs st),
        st_workers := bt_map (\<lambda>_. durable_worker) (st_workers st),
        st_policy := default_policy, st_dirty := False\<rparr>"

text \<open>How far the saved state \<open>s\<close> may lag behind the state \<open>m\<close> in memory: not at all in its durable
  part, and by less than one persistence step in the expiry of a lease.\<close>

definition lease_lag :: "job_record \<Rightarrow> job_record \<Rightarrow> bool" where
  "lease_lag r m =
     (case (jr_status r, jr_status m) of
        (Leased _ e _, Leased _ e' _) \<Rightarrow>
          e \<le> e' \<and> unat e' < unat e + 300 \<and> jr_persisted_expiry m \<in> {0, e}
      | _ \<Rightarrow> True)"

definition on_disk :: "state \<Rightarrow> state \<Rightarrow> bool" where
  "on_disk s m \<longleftrightarrow> durable_part s = durable_part m \<and>
     (\<forall>i r r'. bt_get (st_jobs s) i = Some r \<longrightarrow> bt_get (st_jobs m) i = Some r' \<longrightarrow> lease_lag r r')"

section \<open>Unsaved changes\<close>

lemma bt_map_cong:
  assumes "\<And>k v. (k, v) \<in> set m \<Longrightarrow> f k v = g k v"
  shows "bt_map f m = bt_map g m"
  using assms by (auto simp: bt_map_def)

lemma bt_map_map: "bt_map f (bt_map g m) = bt_map (\<lambda>k v. f k (g k v)) m"
  by (auto simp: bt_map_def)

lemma bt_map_modify_same:
  "(\<And>v. h (f v) = h v) \<Longrightarrow> bt_map (\<lambda>_. h) (bt_modify k f m) = bt_map (\<lambda>_. h) m"
  by (simp add: bt_modify_as_map bt_map_map) (rule bt_map_cong, simp)

lemma durable_touch [simp]: "durable_worker (touch now w) = durable_worker w"
  by (simp add: durable_worker_def touch_def)

lemma expire_loop_nothing:
  "expire_loop p now js ws = (js', ws', [], gs) \<Longrightarrow> js' = js \<and> ws' = ws \<and> gs = []"
  by (induction p now js ws arbitrary: js' ws' gs rule: expire_loop.induct)
    (auto simp: Let_def split: job_status.splits if_splits prod.splits option.splits)

lemma expire_nothing:
  assumes "\<not> st_dirty (snd (expire_leases now st))"
  shows "snd (expire_leases now st) = st"
proof -
  obtain js ws freed gs where l: "expire_loop (st_policy st) now (st_jobs st) (st_workers st) = (js, ws, freed, gs)"
    by (cases "expire_loop (st_policy st) now (st_jobs st) (st_workers st)") blast
  have d: "st_dirty (fold (charge_source now) gs st') = st_dirty st'" for st'
    by simp
  from assms l d have f: "freed = []" and "\<not> st_dirty st"
    by (simp_all only: expire_leases_def l prod.case Let_def snd_conv) simp_all
  with expire_loop_nothing [OF l [unfolded f]] show ?thesis
    by (simp add: expire_leases_def l)
qed

lemma on_disk_trans_durable:
  assumes "on_disk s m" and "st_jobs m' = st_jobs m" and "durable_part m' = durable_part m"
  shows "on_disk s m'"
  using assms by (simp add: on_disk_def)

text \<open>A refused lease request that nothing lapsed in leaves only a time of last contact behind.\<close>

lemma polled_clean:
  assumes "\<not> st_dirty (polled worker now st)"
  shows "polled worker now st = st\<lparr>st_workers := bt_modify worker (touch now) (st_workers st)\<rparr>"
  using assms unfolding polled_def by (rule expire_nothing)

lemma touch_on_disk:
  "on_disk s m \<Longrightarrow> on_disk s (m\<lparr>st_workers := bt_modify worker (touch now) (st_workers m)\<rparr>)"
  by (erule on_disk_trans_durable) (simp_all add: durable_part_def bt_map_modify_same)

lemma lease_clean:
  assumes "on_disk s m" and "\<not> st_dirty (snd (lease K parse worker now m))"
  shows "on_disk s (snd (lease K parse worker now m))"
proof (cases rule: lease_cases [of m worker K parse now])
  case unknown
  with assms(1) show ?thesis by simp
next
  case (refused w e)
  with assms(2) polled_clean [of worker now m] touch_on_disk [OF assms(1)] show ?thesis
    by (metis snd_conv)
next
  case (granted w i r)
  with assms(2) show ?thesis by simp
qed

lemma reload_on_disk: "on_disk (reload (snd (take_dirty (mark_dirty m)))) (snd (take_dirty (mark_dirty m)))"
proof -
  have "durable_part (reload st) = durable_part st" for st
    by (simp add: durable_part_def reload_def bt_map_map) (simp add: durable_job_def [abs_def])
  moreover have "lease_lag (note_persisted r\<lparr>jr_persisted_expiry := 0\<rparr>) (note_persisted r)" for r
    by (auto simp: lease_lag_def note_persisted_def split: job_status.splits)
  ultimately show ?thesis
    unfolding on_disk_def by (auto simp add: reload_get take_dirty_def mark_dirty_def)
qed

lemma renew_lag:
  assumes lag: "lease_lag r m" and m: "jr_status m = Leased w e d"
    and x: "x = extended_expiry now window (hard_deadline e d) e"
    and keep: "\<not> (x \<ge> sat_add (jr_persisted_expiry m) HEARTBEAT_PERSIST_STEP_SECS)"
  shows "lease_lag r (m\<lparr>jr_status := Leased w x hard\<rparr>)"
proof (cases "jr_status r")
  case (Leased v e0 d0)
  have "e0 \<le> e" and p: "jr_persisted_expiry m \<in> {0, e0}"
    using lag m Leased by (simp_all add: lease_lag_def)
  moreover have "e \<le> x" unfolding x by (rule extended_ge)
  moreover have "unat x < unat (jr_persisted_expiry m) + 300"
    using keep by (simp add: word_le_nat_alt not_le unat_sat HEARTBEAT_PERSIST_STEP_SECS_def)
  then have "unat x < unat e0 + 300" using p by auto
  ultimately show ?thesis using Leased by (auto simp: lease_lag_def)
qed (simp_all add: lease_lag_def)

lemma bt_map_modify_at:
  assumes "bt_ok m" and "bt_get m k = Some v" and "h (f v) = h v"
  shows "bt_map (\<lambda>_. h) (bt_modify k f m) = bt_map (\<lambda>_. h) m"
  unfolding bt_modify_as_map bt_map_map
proof (rule bt_map_cong)
  fix a b assume "(a, b) \<in> set m"
  then have "bt_get m a = Some b" by (simp add: bt_get_iff [OF assms(1)])
  with assms(2,3) show "h (if a = k then f b else b) = h b" by auto
qed

lemma renew_clean:
  assumes disk: "on_disk s m" and ok: "bt_ok (st_jobs m)"
    and clean: "\<not> st_dirty (snd (renew worker job now m))"
  shows "on_disk s (snd (renew worker job now m))"
proof (cases "bt_get (st_jobs m) job")
  case None
  with disk show ?thesis by (simp add: renew_def)
next
  case (Some r)
  note r = this
  show ?thesis
  proof (cases "jr_status r")
    case (Leased h e d)
    let ?hard = "hard_deadline e d"
    let ?x = "extended_expiry now (po_lease_window_secs (st_policy m)) ?hard e"
    let ?f = "\<lambda>r. r\<lparr>jr_status := Leased worker ?x ?hard\<rparr>"
    show ?thesis
    proof (cases rule: renew_cases [OF r Leased, of worker now])
      case 3
      with clean r show ?thesis by (simp add: revoke_lease_def bt_has_def)
    next
      case (4 hard x st')
      let ?persist = "?x \<ge> sat_add (jr_persisted_expiry r) HEARTBEAT_PERSIST_STEP_SECS \<or>
        ?x = ?hard \<and> jr_persisted_expiry r \<noteq> ?hard"
      have eq: "snd (renew worker job now m) = m\<lparr>st_dirty := (st_dirty m \<or> ?persist),
          st_jobs := bt_modify job ?f (st_jobs m),
          st_workers := bt_modify worker (touch now) (st_workers m)\<rparr>"
        using r Leased 4(1-3) by (simp add: renew_def Let_def leD)
      have keep: "\<not> ?persist" and m: "\<not> st_dirty m" using clean unfolding eq by simp_all
      have st': "st' = m\<lparr>st_jobs := bt_modify job ?f (st_jobs m),
          st_workers := bt_modify worker (touch now) (st_workers m)\<rparr>"
        using eq 4(6) keep m by simp
      have "?hard \<noteq> 0" using 4(2) by (auto simp: hard_deadline_def)
      then have same: "durable_job (?f r) = durable_job r"
        using 4(1) Leased by (simp add: durable_job_def hard_deadline_def)
      have "durable_part st' = durable_part m"
        unfolding st' durable_part_def
        by (simp add: bt_map_modify_at [where f = ?f, OF ok r, where h = durable_job, OF same]
            bt_map_modify_same)
      moreover have "lease_lag r0 (?f r)" if "bt_get (st_jobs s) job = Some r0" for r0
        using disk that r 4(1) Leased keep by (intro renew_lag) (auto simp: on_disk_def)
      ultimately have "on_disk s st'"
        using disk by (auto simp: on_disk_def st' r)
      then show ?thesis using 4(6) by simp
    qed (use disk in simp_all)
  qed (use disk r in \<open>simp_all add: renew_def\<close>)
qed

lemma submit_clean:
  assumes disk: "on_disk s m" and clean: "\<not> st_dirty (snd (submit worker job res now m))"
  shows "on_disk s (snd (submit worker job res now m))"
proof (cases "bt_get (st_jobs m) job")
  case None
  with disk show ?thesis by (simp add: submit_def)
next
  case (Some r)
  note r = this
  show ?thesis
  proof (cases "jr_status r")
    case (Leased h e d)
    show ?thesis
      by (cases rule: submit_cases [OF r Leased, of worker res now])
        (use disk clean r in \<open>simp_all add: revoke_lease_def bt_has_def\<close>)
  qed (use disk r in \<open>simp_all add: submit_def\<close>)
qed

lemma register_new_dirty:
  assumes "bt_get (st_workers m) (rw_id w) = None"
  shows "st_dirty (snd (register w source now m))"
proof (cases rule: register_new_cases [OF assms, of source now])
  case (1 e st1)
  then show ?thesis by auto
next
  case (2 st2)
  then show ?thesis by simp
qed

end
