(* ===== verification/Api.thy ===== *)
theory Api
  imports Admission Attestation Net_Source Store
begin

text \<open>
  The coordinator's HTTP surface, \<^verbatim>\<open>training-coordinator/src/api.rs\<close>: one definition per handler,
  over a coordinator made of the state, its disk, the admission table and the budget for new
  identities.  A handler reads the clock several times; each reading is an input, and so is the
  fault, if any, that its save meets.  Taking the lock and running on the blocking pool make a
  handler's work on the state one step.
\<close>

definition NEW_REGISTRATIONS_PER_HOUR :: u64 where "NEW_REGISTRATIONS_PER_HOUR = 60"
definition NEW_REGISTRATION_BURST :: u64 where "NEW_REGISTRATION_BURST = 30"

section \<open>The budget for new identities\<close>

record registration_budget =
  rb_tokens :: u64
  rb_last_refill :: "u64 option"

definition new_budget :: registration_budget where
  "new_budget = \<lparr>rb_tokens = NEW_REGISTRATION_BURST, rb_last_refill = None\<rparr>"

definition budget_refill :: "u64 \<Rightarrow> registration_budget \<Rightarrow> registration_budget" where
  "budget_refill now b =
     (let per_token = 3600 div NEW_REGISTRATIONS_PER_HOUR;
          last = (case rb_last_refill b of Some l \<Rightarrow> l | None \<Rightarrow> now);
          b1 = b\<lparr>rb_last_refill := Some last\<rparr>;
          earned = sat_sub now last div per_token
      in if earned > 0
         then b1\<lparr>rb_tokens := min (sat_add (rb_tokens b1) earned) NEW_REGISTRATION_BURST,
                 rb_last_refill := Some (sat_add last (earned * per_token))\<rparr>
         else b1)"

definition try_take :: "u64 \<Rightarrow> registration_budget \<Rightarrow> bool \<times> registration_budget" where
  "try_take now b =
     (let b1 = budget_refill now b in
      if rb_tokens b1 = 0 then (False, b1) else (True, b1\<lparr>rb_tokens := rb_tokens b1 - 1\<rparr>))"

section \<open>The coordinator\<close>

record 'f coordinator =
  co_state :: state
  co_disk :: "'f disk"
  co_admission :: admission
  co_budget :: registration_budget

datatype reg_fail =
    RegReplay
  | TooSoon u64
  | RegBudget
  | Registry register_error

text \<open>The parameters: Keccak-256, public-key recovery, the JSON parsers and the file format.\<close>

record 'f deps =
  d_keccak :: "bytes \<Rightarrow> b256"
  d_recover :: recovery
  d_parse_json :: "string \<Rightarrow> string + json"
  d_parse_probe :: "json \<Rightarrow> string + probe_report"
  d_parse_payload :: payload_parser
  d_ser :: "state \<Rightarrow> 'f"
  d_de :: "'f \<Rightarrow> state option"

text \<open>The clock readings of one request, in the order a handler takes them, and the fate of its
  save.\<close>

record env =
  ev_check_nanos :: u64
  ev_now :: u64
  ev_inside_nanos :: u64
  ev_fault :: save_fault

definition persist :: "'f deps \<Rightarrow> save_fault \<Rightarrow> 'f coordinator \<Rightarrow> (string + unit) \<times> 'f coordinator" where
  "persist D fault c =
     (let (dirty, st) = take_dirty (co_state c) in
      if \<not> dirty then (Inr (), c\<lparr>co_state := st\<rparr>)
      else
        let (r, dk) = save (d_ser D) st fault (co_disk c) in
        case r of
          Inl e \<Rightarrow> (Inl e, c\<lparr>co_state := mark_dirty st, co_disk := dk\<rparr>)
        | Inr _ \<Rightarrow> (Inr (), c\<lparr>co_state := st, co_disk := dk\<rparr>))"

definition mutate ::
  "'f deps \<Rightarrow> save_fault \<Rightarrow> ('f coordinator \<Rightarrow> 'a \<times> 'f coordinator) \<Rightarrow> 'f coordinator \<Rightarrow>
   (string + 'a) \<times> 'f coordinator" where
  "mutate D fault f c =
     (let (out, c1) = f c; (r, c2) = persist D fault c1
      in (map_sum id (\<lambda>_. out) r, c2))"

text \<open>An operation of the state as one of the coordinator.\<close>

definition on_state :: "(state \<Rightarrow> 'a \<times> state) \<Rightarrow> 'f coordinator \<Rightarrow> 'a \<times> 'f coordinator" where
  "on_state f c = (let (out, st) = f (co_state c) in (out, c\<lparr>co_state := st\<rparr>))"

definition open_with ::
  "'f deps \<Rightarrow> policy \<Rightarrow> u64 \<Rightarrow> save_fault \<Rightarrow> 'f disk \<Rightarrow> (string + 'f coordinator) option" where
  "open_with D p now fault dk =
     (case load (d_de D) dk of
        None \<Rightarrow> None
      | Some st \<Rightarrow>
          let c = \<lparr>co_state = boot p now st, co_disk = dk, co_admission = new_admission,
                   co_budget = new_budget\<rparr>;
              (r, c') = persist D fault c
          in Some (map_sum id (\<lambda>_. c') r))"

definition api_add_job ::
  "'f deps \<Rightarrow> save_fault \<Rightarrow> job_spec \<Rightarrow> 'f coordinator \<Rightarrow> (string + unit) \<times> 'f coordinator" where
  "api_add_job D fault spec = mutate D fault (on_state (\<lambda>st. ((), add_job spec st)))"

section \<open>Responses\<close>

text \<open>The body of an error response is the \<^verbatim>\<open>Display\<close> text of the error it names.\<close>

datatype err_text =
    Text string
  | AttestErr attest_error
  | RegisterErr register_error
  | LeaseErr lease_error
  | SubmitErr submit_error
  | AuthErr submission_auth_error
  | PersistErr string

datatype body =
    NoBody
  | Err err_text
  | Job job_spec
  | Expires u64
  | Registered string capability
  | Status counts string

record response =
  re_code :: nat
  re_retry_after :: "u64 option"
  re_body :: body

definition err :: "nat \<Rightarrow> err_text \<Rightarrow> response" where
  "err code msg = \<lparr>re_code = code, re_retry_after = None, re_body = Err msg\<rparr>"

definition with_retry_after :: "u64 \<Rightarrow> response \<Rightarrow> response" where
  "with_retry_after secs r = r\<lparr>re_retry_after := Some (max secs 1)\<rparr>"

definition too_many :: "u64 \<Rightarrow> u64 \<Rightarrow> err_text \<Rightarrow> response" where
  "too_many until now msg = with_retry_after (sat_sub until now) (err 429 msg)"

definition ok :: "body \<Rightarrow> response" where
  "ok b = \<lparr>re_code = 200, re_retry_after = None, re_body = b\<rparr>"

fun refused_response :: "refused \<Rightarrow> response" where
  "refused_response Replay = err 401 (Text ''request already used (replay)'')"
| "refused_response (TooFast secs) =
     with_retry_after secs (err 429 (Text ''too many requests from this key; retry later''))"
| "refused_response (OverQuota secs) =
     with_retry_after secs (err 429 (Text ''too many requests from this key; retry later''))"

fun reg_fail_response :: "reg_fail \<Rightarrow> response" where
  "reg_fail_response RegBudget =
     with_retry_after (3600 div NEW_REGISTRATIONS_PER_HOUR)
       (err 429 (Text ''too many new registrations; retry later''))"
| "reg_fail_response (TooSoon secs) =
     with_retry_after secs (err 429 (Text ''registered too recently; retry later''))"
| "reg_fail_response RegReplay = err 401 (Text ''registration already used (replay)'')"
| "reg_fail_response (Registry e) = with_retry_after SOURCE_SLOT_STALE_SECS (err 429 (RegisterErr e))"

fun lease_response :: "u64 \<Rightarrow> lease_error + job_spec \<Rightarrow> response" where
  "lease_response now (Inr spec) = ok (Job spec)"
| "lease_response now (Inl NothingAvailable) =
     \<lparr>re_code = 204, re_retry_after = None, re_body = NoBody\<rparr>"
| "lease_response now (Inl (CoolingDown until)) = too_many until now (LeaseErr (CoolingDown until))"
| "lease_response now (Inl AtLeaseCap) = err 409 (LeaseErr AtLeaseCap)"
| "lease_response now (Inl UnknownWorker) = err 403 (LeaseErr UnknownWorker)"

fun heartbeat_response :: "submit_error + u64 \<Rightarrow> response" where
  "heartbeat_response (Inr expires_at) = ok (Expires expires_at)"
| "heartbeat_response (Inl e) = err 409 (SubmitErr e)"

fun submit_response :: "submit_error + unit \<Rightarrow> response" where
  "submit_response (Inr _) = \<lparr>re_code = 202, re_retry_after = None, re_body = NoBody\<rparr>"
| "submit_response (Inl e) = err 409 (SubmitErr e)"

section \<open>Handlers\<close>

definition fresh :: "u64 \<Rightarrow> u64 \<Rightarrow> bool" where
  "fresh timestamp now_nanos \<longleftrightarrow>
     timestamp \<le> sat_add now_nanos MAX_FUTURE_SKEW_NANOS \<and>
     sat_sub now_nanos timestamp \<le> LEASE_FRESHNESS_NANOS"

definition verify_signed ::
  "recovery \<Rightarrow> u64 \<Rightarrow> u64 \<Rightarrow> b256 \<Rightarrow> bytes \<Rightarrow> response + address" where
  "verify_signed recover now_nanos timestamp digest signature =
     (if \<not> fresh timestamp now_nanos
      then Inl (err 401 (Text ''request timestamp is outside the freshness window''))
      else
        case recover digest signature of
          Some who \<Rightarrow> Inr who
        | None \<Rightarrow> Inl (err 401 (Text ''signature does not recover'')))"

definition api_admit ::
  "address \<Rightarrow> u64 \<Rightarrow> u64 \<Rightarrow> 'f coordinator \<Rightarrow> (refused + unit) \<times> 'f coordinator" where
  "api_admit who timestamp now_nanos c =
     (if \<not> bt_has (st_workers (co_state c)) who then (Inr (), c)
      else
        let (r, a) = admit who timestamp now_nanos (co_admission c)
        in (r, c\<lparr>co_admission := a\<rparr>))"

text \<open>What \<^verbatim>\<open>lease\<close> and \<^verbatim>\<open>heartbeat\<close> run under the lock: admission first, then the operation.\<close>

definition admitted ::
  "address \<Rightarrow> u64 \<Rightarrow> u64 \<Rightarrow> (state \<Rightarrow> 'a \<times> state) \<Rightarrow> 'f coordinator \<Rightarrow> (refused + 'a) \<times> 'f coordinator"
  where
  "admitted who timestamp now_nanos f c =
     (let (r, c1) = api_admit who timestamp now_nanos c in
      case r of
        Inl e \<Rightarrow> (Inl e, c1)
      | Inr _ \<Rightarrow> (let (out, c2) = on_state f c1 in (Inr out, c2)))"

definition lease_handler ::
  "'f deps \<Rightarrow> env \<Rightarrow> u64 \<Rightarrow> bytes \<Rightarrow> 'f coordinator \<Rightarrow> response \<times> 'f coordinator" where
  "lease_handler D ev ts signature c =
     (case verify_signed (d_recover D) (ev_check_nanos ev) ts (lease_digest (d_keccak D) ts) signature of
        Inl e \<Rightarrow> (e, c)
      | Inr who \<Rightarrow>
          let (r, c') = mutate D (ev_fault ev)
                (admitted who ts (ev_inside_nanos ev)
                  (lease (d_keccak D) (d_parse_payload D) who (ev_now ev))) c
          in (case r of
                Inl e \<Rightarrow> err 500 (PersistErr e)
              | Inr (Inl refusal) \<Rightarrow> refused_response refusal
              | Inr (Inr got) \<Rightarrow> lease_response (ev_now ev) got, c'))"

definition heartbeat_handler ::
  "'f deps \<Rightarrow> env \<Rightarrow> job_id \<Rightarrow> u64 \<Rightarrow> bytes \<Rightarrow> 'f coordinator \<Rightarrow> response \<times> 'f coordinator" where
  "heartbeat_handler D ev job ts signature c =
     (case verify_signed (d_recover D) (ev_check_nanos ev) ts (heartbeat_digest (d_keccak D) job ts)
             signature of
        Inl e \<Rightarrow> (e, c)
      | Inr who \<Rightarrow>
          let (r, c') = mutate D (ev_fault ev)
                (admitted who ts (ev_inside_nanos ev) (renew who job (ev_now ev))) c
          in (case r of
                Inl e \<Rightarrow> err 500 (PersistErr e)
              | Inr (Inl refusal) \<Rightarrow> refused_response refusal
              | Inr (Inr got) \<Rightarrow> heartbeat_response got, c'))"

definition submit_handler ::
  "'f deps \<Rightarrow> env \<Rightarrow> signed_submission \<Rightarrow> 'f coordinator \<Rightarrow> response \<times> 'f coordinator" where
  "submit_handler D ev sub c =
     (case recover_submitter (d_keccak D) (d_recover D) sub of
        Inl e \<Rightarrow> (err 401 (AuthErr e), c)
      | Inr who \<Rightarrow>
          let (r, c') = mutate D (ev_fault ev)
                (on_state (submit who (ss_job sub) (ss_payload sub) (ev_now ev))) c
          in (case r of
                Inl e \<Rightarrow> err 500 (PersistErr e)
              | Inr got \<Rightarrow> submit_response got, c'))"

definition status_handler :: "u64 \<Rightarrow> 'f coordinator \<Rightarrow> response" where
  "status_handler now c =
     ok (Status (job_counts (snd (expire_leases now (co_state c)))) ''shadow'')"

text \<open>What a registration runs under the lock.\<close>

definition register_op ::
  "registered_worker \<Rightarrow> u64 \<Rightarrow> string \<Rightarrow> u64 \<Rightarrow> u64 \<Rightarrow> 'f coordinator \<Rightarrow>
   (reg_fail + capability) \<times> 'f coordinator" where
  "register_op w ts source now now_nanos c =
     (let s = co_state c;
          who = rw_id w;
          refresh = (\<lambda>known. sat_add (wr_last_registration known) (po_register_refresh_secs (st_policy s)));
          accept = (\<lambda>c. case register w source now (co_state c) of
              (Inl e, st) \<Rightarrow> (Inl (Registry e), c\<lparr>co_state := st\<rparr>)
            | (Inr granted, st) \<Rightarrow> (Inr granted, c\<lparr>co_state := snd (note_registration who ts now_nanos st)\<rparr>))
      in
      if registration_seen who ts s then (Inl RegReplay, c)
      else
        case bt_get (st_workers s) who of
          Some known \<Rightarrow>
            if now < refresh known then (Inl (TooSoon (sat_sub (refresh known) now)), c)
            else accept c
        | None \<Rightarrow>
            if is_trusted (st_policy s) who then accept c
            else
              case admits_new who source now s of
                Inl e \<Rightarrow> (Inl (Registry e), c)
              | Inr _ \<Rightarrow>
                  let (taken, b) = try_take now (co_budget c); c1 = c\<lparr>co_budget := b\<rparr> in
                  if taken then accept c1 else (Inl RegBudget, c1))"

definition show_address :: "address \<Rightarrow> string" where
  "show_address a = ''0x'' @ hex_encode (to_be_bytes a)"

definition register_handler ::
  "'f deps \<Rightarrow> env \<Rightarrow> attestation \<Rightarrow> ip_addr option \<Rightarrow> string option \<Rightarrow> 'f coordinator \<Rightarrow>
   response \<times> 'f coordinator" where
  "register_handler D ev att peer forwarded c =
     (if at_timestamp att = 0
      then (err 426 (Text ''worker too old: registration requires a signed timestamp; upgrade the worker''), c)
      else if \<not> fresh (at_timestamp att) (ev_check_nanos ev)
      then (err 401 (Text ''registration timestamp is outside the freshness window''), c)
      else
        case verify_attestation (d_keccak D) (d_recover D) (d_parse_json D) (d_parse_probe D) att of
          Inl e \<Rightarrow> (err 400 (AttestErr e), c)
        | Inr w \<Rightarrow>
            let (r, c') = mutate D (ev_fault ev)
                  (register_op w (at_timestamp att) (source_of peer forwarded) (ev_now ev)
                    (ev_inside_nanos ev)) c
            in (case r of
                  Inl e \<Rightarrow> err 500 (PersistErr e)
                | Inr (Inl e) \<Rightarrow> reg_fail_response e
                | Inr (Inr granted) \<Rightarrow> ok (Registered (show_address (rw_id w)) granted), c'))"

text \<open>The routes.\<close>

datatype request =
    PostRegister attestation "ip_addr option" "string option"
  | PostLease u64 bytes
  | PostHeartbeat job_id u64 bytes
  | PostSubmit signed_submission
  | GetStatus

fun handle :: "'f deps \<Rightarrow> env \<Rightarrow> request \<Rightarrow> 'f coordinator \<Rightarrow> response \<times> 'f coordinator" where
  "handle D ev (PostRegister att peer fwd) c = register_handler D ev att peer fwd c"
| "handle D ev (PostLease ts signature) c = lease_handler D ev ts signature c"
| "handle D ev (PostHeartbeat job ts signature) c = heartbeat_handler D ev job ts signature c"
| "handle D ev (PostSubmit sub) c = submit_handler D ev sub c"
| "handle D ev GetStatus c = (status_handler (ev_now ev) c, c)"

end
