(* ===== verification/Coordinator_Theorems.thy ===== *)
theory Coordinator_Theorems
  imports Coordinator_Jobs
begin

text \<open>
  The properties of the coordinator's state machine, each with its witness.  The witnesses run on
  one small coordinator (\<open>ex_leased\<close>): a vouched and an open worker, two jobs, one lease out.
\<close>

section \<open>A concrete coordinator\<close>

abbreviation K0 :: "bytes \<Rightarrow> b256" where "K0 \<equiv> \<lambda>_. 0"
abbreviation P0 :: payload_parser where "P0 \<equiv> \<lambda>_. None"

definition ex_policy :: policy where
  "ex_policy = default_policy\<lparr>po_trusted_h01 := {7}\<rparr>"

definition ex_worker :: "address \<Rightarrow> registered_worker" where
  "ex_worker i = \<lparr>rw_id = i, rw_capability = H01, rw_backend = ''cpu'', rw_dtype = ''f32'',
                  rw_tokens_per_second = 20000\<rparr>"

definition ex_ready :: state where
  "ex_ready =
     snd (register (ex_worker 7) ''10.0.0.7'' 1000
       (snd (register (ex_worker 5) ''10.0.0.5'' 1000
         (add_job (new_job_spec ''top'' H01 JNull)
           (add_job (new_job_spec ''low'' Probe JNull) (boot ex_policy 0 default_state))))))"

definition ex_leased :: state where
  "ex_leased = snd (lease K0 P0 5 1000 ex_ready)"

definition ex_low_lease :: "job_record" where
  "ex_low_lease =
     \<lparr>jr_spec = new_job_spec ''low'' Probe JNull, jr_status = Leased 5 1900 4600, jr_attempts = 1,
      jr_failed_by = {}, jr_result = None, jr_failed_by_sources = {}, jr_held_until = 0,
      jr_persisted_expiry = 0\<rparr>"

lemma ex_ready_reachable: "reachable K0 P0 ex_ready"
  unfolding ex_ready_def
  by (rule reach_step [OF reach_step [OF reach_step [OF reach_step [OF reach_start step_add]
        step_add] step_register] step_register])

lemma ex_leased_reachable: "reachable K0 P0 ex_leased"
  unfolding ex_leased_def by (rule reach_step [OF ex_ready_reachable step_lease])

text \<open>The example in closed form, one operation at a time.\<close>

definition ex_job :: "string \<Rightarrow> capability \<Rightarrow> job_record" where
  "ex_job i c =
     \<lparr>jr_spec = new_job_spec i c JNull, jr_status = Pending, jr_attempts = 0, jr_failed_by = {},
      jr_result = None, jr_failed_by_sources = {}, jr_held_until = 0, jr_persisted_expiry = 0\<rparr>"

definition ex_record :: "string \<Rightarrow> worker_record" where
  "ex_record src =
     \<lparr>wr_capability = H01, wr_backend = ''cpu'', wr_dtype = ''f32'', wr_tokens_per_second = 20000,
      wr_registered_at = 1000, wr_last_seen = 1000, wr_source = src, wr_noshows = 0,
      wr_cooldown_until = 0, wr_delivered = 0, wr_last_registration = 1000, wr_last_engaged = None\<rparr>"

lemma ex_ready_eq:
  "ex_ready =
     \<lparr>st_jobs = [(''low'', ex_job ''low'' Probe), (''top'', ex_job ''top'' H01)],
      st_workers = [(5, ex_record ''10.0.0.5''), (7, ex_record ''10.0.0.7'')],
      st_sources = [], st_penalties = [], st_policy = ex_policy, st_dirty = True, st_recent = {}\<rparr>"
proof -
  have boot: "boot ex_policy 0 default_state = default_state\<lparr>st_policy := ex_policy\<rparr>"
    by (simp add: boot_def grace_live_leases_def revoke_out_of_policy_def default_state_def bt_map_def)
  have jobs: "add_job (new_job_spec ''top'' H01 JNull)
      (add_job (new_job_spec ''low'' Probe JNull) (boot ex_policy 0 default_state)) =
    \<lparr>st_jobs = [(''low'', ex_job ''low'' Probe), (''top'', ex_job ''top'' H01)],
      st_workers = [], st_sources = [], st_penalties = [], st_policy = ex_policy, st_dirty = True,
      st_recent = {}\<rparr>"
    unfolding boot by (simp add: add_job_def default_state_def ex_job_def new_job_spec_def)
  show ?thesis
    unfolding ex_ready_def jobs
    by (simp add: register_def ex_worker_def ex_policy_def default_policy_def is_trusted_def
        make_room_for_source_def from_source_def DEFAULT_MAX_WORKERS_PER_SOURCE_def
        make_room_in_registry_def MAX_WORKERS_def insert_worker_def bt_remove_def new_worker_def
        default_penalty_def ex_record_def)
qed

lemma ex_group: "source_group ''10.0.0.5'' = ''10.0.0.5''" "source_group ''10.0.0.7'' = ''10.0.0.7''"
  by (simp_all add: source_group_def strip_suffix_def strip_prefix_def)

lemma ex_policy_simps [simp]:
  "po_trusted_h01 ex_policy = {7}" "po_open_tier ex_policy = Probe"
  "po_lease_window_secs ex_policy = 900" "po_max_leases_per_source ex_policy = 4"
  "po_max_workers_per_source ex_policy = 16" "is_trusted ex_policy i \<longleftrightarrow> i = 7"
  by (simp_all add: ex_policy_def default_policy_def is_trusted_def LEASE_RENEW_WINDOW_SECS_def
      DEFAULT_MAX_LEASES_PER_SOURCE_def DEFAULT_MAX_WORKERS_PER_SOURCE_def)

lemma ex_polled:
  "polled 5 1000 ex_ready =
     \<lparr>st_jobs = [(''low'', ex_job ''low'' Probe), (''top'', ex_job ''top'' H01)],
      st_workers = [(5, touch 1000 (ex_record ''10.0.0.5'')), (7, ex_record ''10.0.0.7'')],
      st_sources = [], st_penalties = [], st_policy = ex_policy, st_dirty = True, st_recent = {}\<rparr>"
  by (simp add: polled_def expire_leases_def ex_ready_eq ex_job_def bt_modify_def)

lemma ex_lease:
  "lease K0 P0 5 1000 ex_ready =
     (Inr (new_job_spec ''low'' Probe JNull),
      (polled 5 1000 ex_ready)
        \<lparr>st_jobs := [(''low'', ex_low_lease), (''top'', ex_job ''top'' H01)]\<rparr>)"
proof -
  let ?st = "polled 5 1000 ex_ready"
  have gate: "lease_gate 5 ''10.0.0.5'' 1000 ?st = None"
    by (simp add: ex_polled lease_gate_def worker_cooldown_def held_count_def ex_job_def
        MAX_LEASES_PER_WORKER_def source_cooldown_def group_count_def map_filter_simps ex_record_def
        touch_def)
  have pick: "pick_job K0 P0 5 H01 ''10.0.0.5'' 1000 ?st = Some ''low''"
    by (simp add: pick_job_def ex_polled eligible_def ex_job_def new_job_spec_def
        satisfies_def effective_capability_def round_allows_def lora_round_of_def
        reserved_for_vouched_def)
  have job: "bt_get (st_jobs ?st) ''low'' = Some (ex_job ''low'' Probe)"
    by (simp add: ex_polled)
  have low: "grant ex_policy 5 1000 (ex_job ''low'' Probe) = ex_low_lease"
    by (simp add: grant_def ex_job_def ex_low_lease_def new_job_spec_def sat_add_def)
  have w: "bt_get (st_workers ex_ready) 5 = Some (ex_record ''10.0.0.5'')"
    "wr_capability (ex_record ''10.0.0.5'') = H01" "wr_source (ex_record ''10.0.0.5'') = ''10.0.0.5''"
    by (simp_all add: ex_ready_eq ex_record_def)
  have dirty: "st_policy ?st = ex_policy" "st_dirty ?st"
    "bt_modify ''low'' f (st_jobs ?st) = [(''low'', f (ex_job ''low'' Probe)), (''top'', ex_job ''top'' H01)]"
    for f
    by (simp_all add: ex_polled bt_modify_def)
  show ?thesis
    unfolding lease_def w option.case Let_def polled_def [symmetric] ex_group gate pick job dirty low
    using dirty by simp (simp add: ex_job_def)
qed

lemma ex_leased_eq: "ex_leased = (polled 5 1000 ex_ready)
        \<lparr>st_jobs := [(''low'', ex_low_lease), (''top'', ex_job ''top'' H01)]\<rparr>"
  by (simp add: ex_leased_def ex_lease)

lemma ex_leased_low: "bt_get (st_jobs ex_leased) ''low'' = Some ex_low_lease"
  by (simp add: ex_leased_eq)

lemma ex_leased_policy [simp]: "st_policy ex_leased = ex_policy"
  by (simp add: ex_leased_eq ex_polled)

section \<open>The invariant of the running coordinator\<close>

text \<open>C2: in every state the coordinator can reach, through any sequence of requests, clocks,
  policies and restarts: a worker holds at most one lease, every job is filed under its own id, no
  lease outlives its deadline (zero marks a record from before deadlines existed), an accepted job
  has its result, and the three tables stay within their bounds.\<close>

theorem reachable_invariant:
  assumes "reachable K parse st"
  shows "(\<forall>i j r s w. bt_get (st_jobs st) i = Some r \<longrightarrow> bt_get (st_jobs st) j = Some s \<longrightarrow>
             held_by w (jr_status r) \<longrightarrow> held_by w (jr_status s) \<longrightarrow> i = j) \<and>
    (\<forall>i r. bt_get (st_jobs st) i = Some r \<longrightarrow>
       js_id (jr_spec r) = i \<and>
       (\<forall>w e d. jr_status r = Leased w e d \<longrightarrow> d = 0 \<or> e \<le> d) \<and>
       (\<forall>w t. jr_status r = Done w t \<longrightarrow> jr_result r \<noteq> None)) \<and>
    length (st_workers st) \<le> 4096 \<and> length (st_sources st) \<le> 4096 \<and>
    length (st_penalties st) \<le> 4096"
proof -
  have ok: "state_ok st" by (rule reachable_ok [OF assms])
  have "js_id (jr_spec r) = i \<and> (\<forall>w e d. jr_status r = Leased w e d \<longrightarrow> d = 0 \<or> e \<le> d) \<and>
       (\<forall>w t. jr_status r = Done w t \<longrightarrow> jr_result r \<noteq> None)"
    if "bt_get (st_jobs st) i = Some r" for i r
    using jobs_okD(2) [OF state_okD(1) [OF ok] that] unfolding job_ok_def by (cases "jr_status r") auto
  then show ?thesis
    using jobs_okD(3) [OF state_okD(1) [OF ok]] registry_okD(4-6) [OF state_okD(2) [OF ok]]
    unfolding one_lease_def MAX_WORKERS_def MAX_SOURCES_def by blast
qed

theorem reachable_invariant_witness:
  "bt_get (st_jobs ex_leased) ''low'' = Some ex_low_lease \<and> js_id (jr_spec ex_low_lease) = ''low'' \<and>
   length (st_workers ex_leased) \<le> 4096"
  using reachable_invariant [OF ex_leased_reachable] ex_leased_low by blast

text \<open>Tiers are enforced at all times.  In every reachable state, a lease held by a worker the
  operator has not vouched for is on a job within the open tier, and never on a top-tier job; a
  policy tightened across a restart takes back what it no longer allows.\<close>

theorem open_workers_stay_in_open_tier:
  assumes "reachable K parse st" and "bt_get (st_jobs st) i = Some r"
    and "jr_status r = Leased w e d" and "\<not> is_trusted (st_policy st) w"
  shows "js_requires (jr_spec r) \<le> po_open_tier (st_policy st) \<and> js_requires (jr_spec r) \<noteq> H01"
proof -
  have "tier_allowed (st_policy st) w (js_requires (jr_spec r))"
    using reachable_allowed [OF assms(1)] assms(2,3) by (auto simp: leases_allowed_def)
  then have "js_requires (jr_spec r) \<le> effective_capability (st_policy st) w H01"
    by (simp add: tier_allowed_def satisfies_def)
  with effective_capability_untrusted [OF assms(4), of H01] show ?thesis
    by (metis capability_order(4) capability_order(5) order_trans)
qed

theorem open_workers_stay_in_open_tier_witness:
  "js_requires (jr_spec ex_low_lease) \<le> Probe \<and> js_requires (jr_spec ex_low_lease) \<noteq> H01"
  using open_workers_stay_in_open_tier [OF ex_leased_reachable ex_leased_low, of 5 1900 4600]
  by (simp add: ex_low_lease_def)

text \<open>No job is ever quarantined.  The status \<^verbatim>\<open>Quarantined\<close> and the field
  \<^verbatim>\<open>max_attempts\<close> have no effect: no transition of the running coordinator parks a job.\<close>

theorem never_quarantined:
  assumes "reachable K parse st" and "bt_get (st_jobs st) i = Some r"
  shows "jr_status r \<noteq> Quarantined reason"
  using reachable_not_quarantined [OF assms] by auto

theorem never_quarantined_witness: "jr_status ex_low_lease \<noteq> Quarantined ''x''"
  by (rule never_quarantined [OF ex_leased_reachable ex_leased_low])

text \<open>An accepted result is final.  Once a job is done, no transition except filing a new job
  under the same id changes its status, its result or its specification.\<close>

theorem done_is_final:
  assumes "coord_step K parse ev st st'" and "state_ok st"
    and "bt_get (st_jobs st) i = Some r" and "jr_status r = Done w t"
    and "\<And>spec. ev = EAddJob spec \<Longrightarrow> js_id spec \<noteq> i"
    and "bt_get (st_jobs st') i = Some r'"
  shows "jr_status r' = Done w t \<and> jr_result r' = jr_result r \<and> jr_spec r' = jr_spec r"
proof -
  from job_step [OF assms(1,2,6)] assms(3,5) obtain m where
    "jr_spec r' = jr_spec r" "move_ok (st_policy st) m r r'"
    by (auto simp: job_succ_def)
  with assms(4) show ?thesis by (cases m) auto
qed

definition ex_done :: state where
  "ex_done = snd (submit 5 ''low'' ''ok'' 1500 ex_leased)"

lemma ex_done_low:
  "bt_get (st_jobs ex_done) ''low'' =
     Some (ex_low_lease\<lparr>jr_status := Done 5 1500, jr_result := Some ''ok''\<rparr>)"
proof -
  have "tier_allowed ex_policy 5 Probe"
    by (simp add: tier_allowed_def satisfies_def effective_capability_def)
  then show ?thesis
    using ex_leased_low
    by (simp add: ex_done_def submit_def Let_def) (simp add: ex_low_lease_def new_job_spec_def)
qed

theorem done_is_final_witness:
  "\<exists>r'. bt_get (st_jobs (snd (expire_leases 9000 ex_done))) ''low'' = Some r' \<and>
        jr_status r' = Done 5 1500 \<and> jr_result r' = Some ''ok''"
proof -
  have ok: "state_ok ex_done"
    unfolding ex_done_def by (intro submit_ok reachable_ok [OF ex_leased_reachable])
  obtain r' where r': "bt_get (st_jobs (snd (expire_leases 9000 ex_done))) ''low'' = Some r'"
    using ex_done_low by simp
  from done_is_final [OF step_expire [of K0 P0 9000 ex_done] ok ex_done_low _ _ r', of 5 1500]
  have "jr_status r' = Done 5 1500" and "jr_result r' = Some ''ok''" by simp_all
  with r' show ?thesis by blast
qed

section \<open>Leases\<close>

lemma polled_worker:
  "bt_get (st_workers st) worker = Some w \<Longrightarrow>
     \<exists>v. bt_get (st_workers (polled worker now st)) worker = Some v"
  by (simp add: polled_def charge_all_get)

lemma in_roster_member: "in_roster c who \<Longrightarrow> who \<in> set (fc_roster c)"
  using search_base_less [of "length (fc_roster c)" 0 "length (fc_roster c)" "fc_roster c" who]
  by (auto simp: in_roster_def binary_search_def Let_def in_set_conv_nth split: if_splits)

lemma granted_tier:
  assumes "satisfies (effective_capability p worker claimed) needed"
  shows "needed \<le> claimed \<and> (worker \<in> po_trusted_h01 p \<or> needed \<le> po_open_tier p \<and> needed \<noteq> H01)"
  using assms effective_capability_le [of p worker claimed]
    effective_capability_untrusted [of p worker claimed]
  by (auto simp: satisfies_def is_trusted_def intro: order_trans)

lemma round_allows_fresh:
  assumes "round_allows K parse worker (rounds_of K parse worker st) r"
  shows "lora_round_of K parse (jr_spec r) \<noteq> Malformed"
    and "lora_round_of K parse (jr_spec r) = Round p \<Longrightarrow> worker \<in> set (fc_roster (lp_config p))"
    and "lora_round_of K parse (jr_spec r) = Round p \<Longrightarrow> bt_get (st_jobs st) j = Some s \<Longrightarrow>
         lora_round_of K parse (jr_spec s) = Round q \<Longrightarrow> lp_round_id q = lp_round_id p \<Longrightarrow>
         jr_status s \<noteq> Leased worker e d \<and> jr_status s \<noteq> Done worker t"
proof -
  show "lora_round_of K parse (jr_spec r) \<noteq> Malformed"
    and "lora_round_of K parse (jr_spec r) = Round p \<Longrightarrow> worker \<in> set (fc_roster (lp_config p))"
    using assms by (auto simp: round_allows_def intro: in_roster_member)
next
  assume p: "lora_round_of K parse (jr_spec r) = Round p" and j: "bt_get (st_jobs st) j = Some s"
    and q: "lora_round_of K parse (jr_spec s) = Round q" "lp_round_id q = lp_round_id p"
  have "lp_round_id q \<in> rounds_of K parse worker st" if "held_or_done_by worker (jr_status s)"
    using that bt_get_in [OF j] q(1) unfolding rounds_of_def List.map_filter_def
    by (force simp: image_iff)
  with assms p q(2) show "jr_status s \<noteq> Leased worker e d \<and> jr_status s \<noteq> Done worker t"
    by (auto simp: round_allows_def)
qed

lemma not_reserved:
  assumes "\<not> reserved_for_vouched st r now"
  shows "jr_held_until r \<le> now"
    and "jr_held_until r = 0 \<or> js_requires (jr_spec r) = Probe \<or>
         sat_add (sat_sub (jr_held_until r) LAPSE_HOLD_SECS)
           (reservation_cap (js_lease_secs (jr_spec r))) \<le> now \<or>
         \<not> (\<exists>i v t. bt_get (st_workers st) i = Some v \<and> i \<in> po_trusted_h01 (st_policy st) \<and>
              wr_last_engaged v = Some t \<and> sat_sub now t < 3600 \<and> i \<notin> jr_failed_by r \<and>
              js_requires (jr_spec r) \<le> wr_capability v)"
proof -
  show "jr_held_until r \<le> now"
    using assms by (auto simp: reserved_for_vouched_def split: if_splits)
  have "vouched_candidate st r now (i, v)"
    if "i \<in> po_trusted_h01 (st_policy st)" "wr_last_engaged v = Some t" "sat_sub now t < 3600"
      "i \<notin> jr_failed_by r" "js_requires (jr_spec r) \<le> wr_capability v" for i v t
    using that by (simp add: vouched_candidate_def is_trusted_def VOUCHED_ACTIVE_SECS_def
        satisfies_def effective_capability_def)
  then show "jr_held_until r = 0 \<or> js_requires (jr_spec r) = Probe \<or>
         sat_add (sat_sub (jr_held_until r) LAPSE_HOLD_SECS)
           (reservation_cap (js_lease_secs (jr_spec r))) \<le> now \<or>
         \<not> (\<exists>i v t. bt_get (st_workers st) i = Some v \<and> i \<in> po_trusted_h01 (st_policy st) \<and>
              wr_last_engaged v = Some t \<and> sat_sub now t < 3600 \<and> i \<notin> jr_failed_by r \<and>
              js_requires (jr_spec r) \<le> wr_capability v)"
    using assms bt_get_in [of "st_workers st"]
    by (fastforce simp: reserved_for_vouched_def Let_def split: if_splits)
qed

text \<open>The leases of a source group, counted as the set of jobs held by its unvouched workers.\<close>

lemma card_group_leases:
  assumes "bt_ok (st_jobs st)"
  shows "card {j. \<exists>s h e d v. bt_get (st_jobs st) j = Some s \<and> jr_status s = Leased h e d \<and>
           h \<notin> po_trusted_h01 (st_policy st) \<and> bt_get (st_workers st) h = Some v \<and>
           source_group (wr_source v) = grp} \<le> group_count grp st"
proof -
  let ?Q = "\<lambda>h. \<not> is_trusted (st_policy st) h \<and> in_group st grp h"
  let ?P = "\<lambda>e. case leased_worker (jr_status (snd e)) of Some h \<Rightarrow> ?Q h | None \<Rightarrow> False"
  have count: "length (filter ?Q (List.map_filter (\<lambda>r. leased_worker (jr_status r)) (map snd m))) =
      length (filter ?P m)" for m :: "(job_id \<times> job_record) list"
    by (induction m) (auto simp: map_filter_simps split: option.splits)
  have "{j. \<exists>s h e d v. bt_get (st_jobs st) j = Some s \<and> jr_status s = Leased h e d \<and>
           h \<notin> po_trusted_h01 (st_policy st) \<and> bt_get (st_workers st) h = Some v \<and>
           source_group (wr_source v) = grp} \<subseteq> fst ` set (filter ?P (st_jobs st))"
    by (force simp: is_trusted_def in_group_def dest: bt_get_in)
  then have "card {j. \<exists>s h e d v. bt_get (st_jobs st) j = Some s \<and> jr_status s = Leased h e d \<and>
           h \<notin> po_trusted_h01 (st_policy st) \<and> bt_get (st_workers st) h = Some v \<and>
           source_group (wr_source v) = grp} \<le> card (fst ` set (filter ?P (st_jobs st)))"
    by (intro card_mono) auto
  also have "\<dots> \<le> length (filter ?P (st_jobs st))"
    by (rule order_trans [OF card_image_le card_length]) simp
  finally show ?thesis by (simp only: group_count_def count)
qed

text \<open>C4: a granted lease is sound.  Every guarantee is stated on the state in which the poll is
  recorded and the lapsed leases are back in the pool, over the tables themselves.  The worker is
  registered, out of its cool-down and holds no other lease.  The job was pending; its tier is within
  what the worker proved and, for a worker the operator has not vouched for, within the open tier and
  not the top one; the worker has not let a lease on it lapse; a job of a federated round is well
  formed, names the worker in its roster, and no other job of the round is held or done by it.  For
  an unvouched worker also: its network has not let the job lapse and is out of its cool-down, the
  network is under its cap of leases, and the job is not held back for vouched workers (the hold is
  over and the job is a probe, or the reservation has run out, or no vouched worker that was active in
  the last hour, has not failed the job and meets its tier is left).  The new lease runs for one
  renewal window at most, its deadline is the job's own length from now; every other job, the
  workers, the sources, the penalties, the policy and the register bookkeeping are unchanged.\<close>

theorem lease_grant_sound:
  assumes "state_ok st" and "lease K parse worker now st = (Inr spec, st')"
  shows "\<exists>w r v ws. bt_get (st_workers st) worker = Some w \<and> ws = polled worker now st \<and>
    bt_get (st_jobs ws) (js_id spec) = Some r \<and> jr_spec r = spec \<and>
    bt_get (st_workers ws) worker = Some v \<and> wr_cooldown_until v \<le> now \<and>
    (\<forall>j s e d. bt_get (st_jobs ws) j = Some s \<longrightarrow> jr_status s \<noteq> Leased worker e d) \<and>
    jr_status r = Pending \<and> js_requires spec \<le> wr_capability w \<and>
    (worker \<in> po_trusted_h01 (st_policy st) \<or>
       js_requires spec \<le> po_open_tier (st_policy st) \<and> js_requires spec \<noteq> H01) \<and>
    worker \<notin> jr_failed_by r \<and>
    lora_round_of K parse spec \<noteq> Malformed \<and>
    (\<forall>p. lora_round_of K parse spec = Round p \<longrightarrow> worker \<in> set (fc_roster (lp_config p)) \<and>
       (\<forall>j s q e d t. bt_get (st_jobs ws) j = Some s \<longrightarrow> lora_round_of K parse (jr_spec s) = Round q \<longrightarrow>
          lp_round_id q = lp_round_id p \<longrightarrow>
          jr_status s \<noteq> Leased worker e d \<and> jr_status s \<noteq> Done worker t)) \<and>
    (worker \<notin> po_trusted_h01 (st_policy st) \<longrightarrow>
       source_group (wr_source w) \<notin> jr_failed_by_sources r \<and>
       (\<forall>u. bt_get (st_sources ws) (source_group (wr_source w)) = Some u \<longrightarrow>
          sr_cooldown_until u \<le> now) \<and>
       card {j. \<exists>s h e d u. bt_get (st_jobs ws) j = Some s \<and> jr_status s = Leased h e d \<and>
              h \<notin> po_trusted_h01 (st_policy st) \<and> bt_get (st_workers ws) h = Some u \<and>
              source_group (wr_source u) = source_group (wr_source w)}
         < po_max_leases_per_source (st_policy st) \<and>
       jr_held_until r \<le> now \<and>
       (jr_held_until r = 0 \<or> js_requires spec = Probe \<or>
        sat_add (sat_sub (jr_held_until r) LAPSE_HOLD_SECS) (reservation_cap (js_lease_secs spec))
          \<le> now \<or>
        \<not> (\<exists>i u t. bt_get (st_workers ws) i = Some u \<and> i \<in> po_trusted_h01 (st_policy st) \<and>
             wr_last_engaged u = Some t \<and> sat_sub now t < 3600 \<and> i \<notin> jr_failed_by r \<and>
             js_requires spec \<le> wr_capability u))) \<and>
    bt_get (st_jobs st') (js_id spec) =
      Some (r\<lparr>jr_attempts := jr_attempts r + 1,
              jr_status := Leased worker
                (sat_add now (min (js_lease_secs spec) (po_lease_window_secs (st_policy st))))
                (sat_add now (js_lease_secs spec))\<rparr>) \<and>
    (\<forall>j. j \<noteq> js_id spec \<longrightarrow> bt_get (st_jobs st') j = bt_get (st_jobs ws) j) \<and>
    st_workers st' = st_workers ws \<and> st_sources st' = st_sources ws \<and>
    st_penalties st' = st_penalties ws \<and> st_policy st' = st_policy st \<and>
    st_recent st' = st_recent ws \<and> st_dirty st'"
proof (cases rule: lease_cases [of st worker K parse now])
  case unknown
  with assms(2) show ?thesis by simp
next
  case (refused w e)
  with assms(2) show ?thesis by simp
next
  case (granted w i r)
  let ?ws = "polled worker now st"
  note pok = state_okD(1) [OF polled_ok [OF assms(1), of worker now]]
  note gate = lease_gate_None [OF granted(2)]
  from granted(5) assms(2) have spec: "jr_spec r = spec"
    and st': "st' = ?ws\<lparr>st_dirty := True,
      st_jobs := bt_modify i (grant (st_policy st) worker now) (st_jobs ?ws)\<rparr>"
    by simp_all
  have i: "js_id spec = i"
    using jobs_okD(2) [OF pok granted(4)] by (simp add: job_ok_def flip: spec)
  have "eligible K parse worker (wr_capability w) (source_group (wr_source w)) now ?ws r"
    using pick_job_Some [OF pok granted(3)] granted(4) by (metis option.inject)
  then have pending: "jr_status r = Pending" and tier:
      "satisfies (effective_capability (st_policy st) worker (wr_capability w)) (js_requires spec)"
    and round: "round_allows K parse worker (rounds_of K parse worker ?ws) r"
    and failed: "worker \<notin> jr_failed_by r"
    and unv: "worker \<notin> po_trusted_h01 (st_policy st) \<Longrightarrow>
      source_group (wr_source w) \<notin> jr_failed_by_sources r \<and> \<not> reserved_for_vouched ?ws r now"
    by (auto simp: eligible_def is_trusted_def spec)
  obtain v where v: "bt_get (st_workers ?ws) worker = Some v" "wr_cooldown_until v \<le> now"
    using polled_worker [OF granted(1), of now] gate(1) by (auto simp: worker_cooldown_def)
  have held: "\<forall>j s e d. bt_get (st_jobs ?ws) j = Some s \<longrightarrow> jr_status s \<noteq> Leased worker e d"
    using gate(2) held_count_zero [OF pok] by (metis held_by.simps(1))
  have unvouched: "source_group (wr_source w) \<notin> jr_failed_by_sources r \<and>
      (\<forall>u. bt_get (st_sources ?ws) (source_group (wr_source w)) = Some u \<longrightarrow>
         sr_cooldown_until u \<le> now) \<and>
      group_count (source_group (wr_source w)) ?ws < po_max_leases_per_source (st_policy st) \<and>
      \<not> reserved_for_vouched ?ws r now" if "worker \<notin> po_trusted_h01 (st_policy st)"
    using that unv gate(3,4) by (auto simp: is_trusted_def source_cooldown_def)
  show ?thesis
    using granted(1,4) v held pending granted_tier [OF tier] failed spec
      round_allows_fresh [OF round, unfolded spec] unvouched not_reserved [of ?ws r now]
      order_le_less_trans [OF card_group_leases [OF jobs_okD(1) [OF pok]]]
    by (intro exI [of _ w] exI [of _ r] exI [of _ v] exI [of _ ?ws] conjI)
      (simp_all add: i st' grant_def)
qed

theorem lease_grant_sound_witness:
  "\<exists>r. bt_get (st_jobs ex_leased) ''low'' = Some r \<and> jr_status r = Leased 5 1900 4600"
proof -
  have "lease K0 P0 5 1000 ex_ready = (Inr (new_job_spec ''low'' Probe JNull), ex_leased)"
    by (simp add: ex_leased_def ex_lease)
  from lease_grant_sound [OF reachable_ok [OF ex_ready_reachable] this]
  show ?thesis
    by (auto simp: new_job_spec_def ex_ready_eq sat_add_def min_def)
qed

text \<open>C18: scheduling is optimal and complete.  The job granted is the most demanding one the worker
  may take, the smallest id among equals; and a request that passes the gates is told there is
  nothing only if no job is eligible.\<close>

theorem lease_optimal:
  assumes "state_ok st" and "bt_get (st_workers st) worker = Some w"
    and "bt_get (st_jobs (polled worker now st)) j = Some s"
    and "eligible K parse worker (wr_capability w) (source_group (wr_source w)) now
           (polled worker now st) s"
  shows "case fst (lease K parse worker now st) of
      Inr spec \<Rightarrow>
        js_requires spec > js_requires (jr_spec s) \<or>
        js_requires spec = js_requires (jr_spec s) \<and> js_id spec \<le> j
    | Inl e \<Rightarrow>
        lease_gate worker (source_group (wr_source w)) now (polled worker now st) = Some e"
proof (cases rule: lease_cases [of st worker K parse now])
  case unknown
  with assms(2) show ?thesis by simp
next
  case (refused w' e)
  note pok = state_okD(1) [OF polled_ok [OF assms(1), of worker now]]
  have w: "w' = w" using refused(1) assms(2) by simp
  have "pick_job K parse worker (wr_capability w) (source_group (wr_source w)) now
          (polled worker now st) \<noteq> None"
    using pick_job_None assms(3,4) by blast
  moreover have "bt_get (st_jobs (polled worker now st)) i \<noteq> None"
    if "pick_job K parse worker (wr_capability w) (source_group (wr_source w)) now
          (polled worker now st) = Some i" for i
    using pick_job_Some [OF pok that] by (metis option.distinct(1))
  ultimately have "lease_gate worker (source_group (wr_source w)) now (polled worker now st) = Some e"
    using refused(3) unfolding w by auto
  with refused(2) show ?thesis by simp
next
  case (granted w' i r)
  note pok = state_okD(1) [OF polled_ok [OF assms(1), of worker now]]
  have w: "w' = w" using granted(1) assms(2) by simp
  have "pick_job K parse worker (wr_capability w) (source_group (wr_source w)) now
          (polled worker now st) = Some i"
    using granted(3) by (simp add: w)
  then obtain r' where r': "bt_get (st_jobs (polled worker now st)) i = Some r'"
    and best: "\<not> preferred s r'"
    by (rule pick_job_Some [OF pok]) (use assms(3,4) in blast)
  have "r' = r" using r' granted(4) by simp
  then have "\<not> preferred s r" using best by simp
  moreover have "js_id (jr_spec s) = j" using jobs_okD(2) [OF pok assms(3)] by (simp add: job_ok_def)
  ultimately show ?thesis
    using granted(5) unfolding not_preferred by auto
qed

theorem lease_optimal_witness:
  "case fst (lease K0 P0 7 1000 ex_ready) of
      Inr spec \<Rightarrow> js_requires spec > H01 \<or> js_requires spec = H01 \<and> js_id spec \<le> ''top''
    | Inl e \<Rightarrow> lease_gate 7 ''10.0.0.7'' 1000 (polled 7 1000 ex_ready) = Some e"
proof -
  let ?st = "polled 7 1000 ex_ready"
  have top: "bt_get (st_jobs ?st) ''top'' = Some (ex_job ''top'' H01)"
    by (simp add: polled_jobs ex_ready_eq) (simp add: expire_job_def ex_job_def)
  have w: "bt_get (st_workers ex_ready) 7 = Some (ex_record ''10.0.0.7'')"
    by (simp add: ex_ready_eq)
  have "eligible K0 P0 7 (wr_capability (ex_record ''10.0.0.7''))
          (source_group (wr_source (ex_record ''10.0.0.7''))) 1000 ?st (ex_job ''top'' H01)"
    by (simp add: eligible_def ex_job_def new_job_spec_def satisfies_def effective_capability_def
        round_allows_def lora_round_of_def ex_record_def ex_ready_eq)
  from lease_optimal [OF reachable_ok [OF ex_ready_reachable] w top this]
  show ?thesis by (auto simp: ex_job_def new_job_spec_def ex_record_def ex_group split: sum.splits)
qed

lemma filter_map_modify:
  "bt_ok js \<Longrightarrow>
   length (filter P (List.map_filter g (bt_values (bt_modify k f js)))) \<le>
     Suc (length (filter P (List.map_filter g (bt_values js))))"
proof (induction js)
  case (Cons e js)
  obtain a b where e: "e = (a, b)" by (cases e)
  have ok: "bt_ok js" and less: "\<forall>x \<in> fst ` set js. a < x"
    using Cons.prems by (simp_all add: e bt_ok_Cons)
  show ?case
  proof (cases "a = k")
    case True
    then have "bt_get js k = None" using less by (auto simp: bt_get_def map_of_eq_None_iff)
    then have "bt_modify k f ((a, b) # js) = (a, f b) # js"
      using True bt_modify_id [of js k f] by (simp add: bt_modify_def)
    then show ?thesis by (auto simp: e map_filter_simps split: option.splits)
  next
    case False
    then have "bt_modify k f ((a, b) # js) = (a, b) # bt_modify k f js"
      by (simp add: bt_modify_def)
    then show ?thesis using Cons.IH [OF ok] by (auto simp: e map_filter_simps split: option.splits)
  qed
qed (simp add: bt_modify_def map_filter_simps)

text \<open>One network cannot take the queue.  After a lease is granted to a worker that is not
  vouched, the open workers of its source group hold at most \<^verbatim>\<open>max_leases_per_source\<close> leases.\<close>

theorem source_lease_cap:
  assumes "state_ok st" and "lease K parse worker now st = (Inr spec, st')"
    and "bt_get (st_workers st) worker = Some w" and "\<not> is_trusted (st_policy st) worker"
  shows "group_count (source_group (wr_source w)) st' \<le> po_max_leases_per_source (st_policy st)"
proof (cases rule: lease_cases [of st worker K parse now])
  case unknown
  with assms(3) show ?thesis by simp
next
  case (refused w' e)
  with assms(2) show ?thesis by simp
next
  case (granted w' i r)
  let ?g = "source_group (wr_source w)" and ?st2 = "polled worker now st"
  have "w' = w" using granted(1) assms(3) by simp
  with granted(2) assms(4) have lt: "group_count ?g ?st2 < po_max_leases_per_source (st_policy st)"
    using lease_gate_None(4) [of worker ?g now ?st2] by simp
  have st': "st' = ?st2\<lparr>st_dirty := True,
      st_jobs := bt_modify i (grant (st_policy st) worker now) (st_jobs ?st2)\<rparr>"
    using granted(5) assms(2) by simp
  have "group_count ?g st' \<le> Suc (group_count ?g ?st2)"
    unfolding group_count_def in_group_def st'
    using filter_map_modify [OF jobs_okD(1) [OF state_okD(1) [OF polled_ok [OF assms(1), of worker now]]],
        of _ "\<lambda>r. leased_worker (jr_status r)"]
    by simp
  with lt show ?thesis by simp
qed

theorem source_lease_cap_witness: "group_count ''10.0.0.5'' ex_leased \<le> 4"
proof -
  have l: "lease K0 P0 5 1000 ex_ready = (Inr (new_job_spec ''low'' Probe JNull), ex_leased)"
    by (simp add: ex_leased_def ex_lease)
  have w: "bt_get (st_workers ex_ready) 5 = Some (ex_record ''10.0.0.5'')" by (simp add: ex_ready_eq)
  from source_lease_cap [OF reachable_ok [OF ex_ready_reachable] l w] show ?thesis
    by (simp add: ex_ready_eq) (simp add: ex_record_def ex_group)
qed

section \<open>Lapses\<close>

lemma lapsed_workers_set:
  "who \<in> set (lapsed_workers now js) \<longleftrightarrow>
     (\<exists>j s e d. (j, s) \<in> set js \<and> jr_status s = Leased who e d \<and> e \<le> now)"
proof -
  have "(if expired now s then leased_worker (jr_status s) else None) = Some who \<longleftrightarrow>
      (\<exists>e d. jr_status s = Leased who e d \<and> e \<le> now)" for s
    by (cases "jr_status s") (auto simp: expired_def)
  moreover have "set (List.map_filter f js) = {y. \<exists>x \<in> set js. f x = Some y}" for f :: "job_id \<times> job_record \<Rightarrow> address option"
    by (induction js) (auto simp: map_filter_simps split: option.splits)
  ultimately show ?thesis
    unfolding lapsed_workers_def by (simp add: Bex_def split_beta)
qed

lemma lapsed_workers_distinct:
  assumes "distinct (map fst js)"
    and "\<And>i r j s w. (i, r) \<in> set js \<Longrightarrow> (j, s) \<in> set js \<Longrightarrow> held_by w (jr_status r) \<Longrightarrow>
           held_by w (jr_status s) \<Longrightarrow> i = j"
  shows "distinct (lapsed_workers now js)"
  using assms
proof (induction js)
  case (Cons e js)
  obtain i r where e: "e = (i, r)" by (cases e)
  have IH: "distinct (lapsed_workers now js)"
    using Cons.prems by (intro Cons.IH) (auto intro: Cons.prems(2))
  show ?case
  proof (cases "expired now r")
    case False
    with IH show ?thesis by (simp add: e lapsed_workers_def map_filter_simps)
  next
    case True
    then obtain w x d where r: "jr_status r = Leased w x d" by (auto simp: expired_def split: job_status.splits)
    have "w \<notin> set (lapsed_workers now js)"
    proof
      assume "w \<in> set (lapsed_workers now js)"
      then obtain j s y d' where "(j, s) \<in> set js" "jr_status s = Leased w y d'" by (auto simp: lapsed_workers_set)
      with Cons.prems(2) [of i r j s w] Cons.prems(1) r show False by (force simp: e)
    qed
    with IH True r show ?thesis by (simp add: e lapsed_workers_def map_filter_simps)
  qed
qed (simp add: lapsed_workers_def map_filter_simps)

lemma count_once: "distinct xs \<Longrightarrow> count_list xs x = (if x \<in> set xs then 1 else 0)"
  by (induction xs) auto

lemma expired_worker_charged:
  assumes "jobs_ok (st_jobs st)" and "bt_get (st_workers st) who = Some v"
  shows "bt_get (st_workers (snd (expire_leases now st))) who =
    Some (if \<exists>j s e d. bt_get (st_jobs st) j = Some s \<and> jr_status s = Leased who e d \<and> e \<le> now
          then v\<lparr>wr_noshows := sat_add (wr_noshows v) 1,
                 wr_cooldown_until := sat_add now (noshow_backoff (sat_add (wr_noshows v) 1))\<rparr>
          else v)"
proof -
  note js = jobs_okD(1) [OF assms(1)]
  have "distinct (lapsed_workers now (st_jobs st))"
    using jobs_okD(3) [OF assms(1)] bt_get_iff [OF js] unfolding one_lease_def
    by (intro lapsed_workers_distinct [OF bt_ok_distinct [OF js]]) metis
  then have "count_list (lapsed_workers now (st_jobs st)) who =
      (if who \<in> set (lapsed_workers now (st_jobs st)) then 1 else 0)"
    by (rule count_once)
  then show ?thesis
    using assms(2) bt_get_iff [OF js]
    by (auto simp: charge_all_get lapsed_workers_set charge_worker_def Let_def) blast
qed

text \<open>C19: expiry is complete and exact.  After \<^verbatim>\<open>expire_leases\<close> no lease is past its expiry; the jobs
  it reports are exactly those whose lease lapsed; each of them is pending again, remembers the
  worker that let it lapse and, unless the operator vouched for it, the worker's network, and is reserved for
  \<^verbatim>\<open>LAPSE_HOLD_SECS\<close>, all else in it being as it was; every other job is unchanged.  Each worker whose lease
  lapsed is charged one no-show and waits out the cool-down of its count; every other worker is unchanged, and
  so are the policy, the penalties and the register bookkeeping (the networks are charged as well, which is not stated
  here); and running it again at the same time frees nothing.\<close>

theorem expire_exact:
  assumes "state_ok st"
  shows "(case bt_get (st_jobs st) i of
      None \<Rightarrow> bt_get (st_jobs (snd (expire_leases now st))) i = None \<and>
              i \<notin> set (fst (expire_leases now st))
    | Some r \<Rightarrow>
        (\<exists>r'. bt_get (st_jobs (snd (expire_leases now st))) i = Some r' \<and>
          (if i \<in> set (fst (expire_leases now st))
           then (\<exists>w e d. jr_status r = Leased w e d \<and> e \<le> now \<and>
                   r' = r\<lparr>jr_failed_by := insert w (jr_failed_by r), jr_status := Pending,
                          jr_held_until := sat_add now LAPSE_HOLD_SECS,
                          jr_failed_by_sources :=
                            (case bt_get (st_workers st) w of
                               Some v \<Rightarrow> if w \<in> po_trusted_h01 (st_policy st) then jr_failed_by_sources r
                                         else insert (source_group (wr_source v)) (jr_failed_by_sources r)
                             | None \<Rightarrow> jr_failed_by_sources r)\<rparr>)
           else r' = r \<and> (\<forall>w e d. jr_status r = Leased w e d \<longrightarrow> now < e)))) \<and>
    (\<forall>who v. bt_get (st_workers st) who = Some v \<longrightarrow>
       bt_get (st_workers (snd (expire_leases now st))) who =
         Some (if \<exists>j s e d. bt_get (st_jobs st) j = Some s \<and> jr_status s = Leased who e d \<and> e \<le> now
               then v\<lparr>wr_noshows := sat_add (wr_noshows v) 1,
                      wr_cooldown_until := sat_add now (noshow_backoff (sat_add (wr_noshows v) 1))\<rparr>
               else v)) \<and>
    st_policy (snd (expire_leases now st)) = st_policy st \<and>
    st_penalties (snd (expire_leases now st)) = st_penalties st \<and>
    st_recent (snd (expire_leases now st)) = st_recent st \<and>
    fst (expire_leases now (snd (expire_leases now st))) = []"
proof -
  note js = jobs_okD(1) [OF state_okD(1) [OF assms]]
  have freed: "i \<in> set (fst (expire_leases now st)) \<longleftrightarrow>
      (\<exists>r. bt_get (st_jobs st) i = Some r \<and> expired now r)"
    by (force simp: expire_leases_fst bt_get_iff [OF js])
  have "fst (expire_leases now (snd (expire_leases now st))) = []"
    by (auto simp: expire_leases_fst filter_empty_conv bt_map_def not_expired_after)
  moreover have "\<exists>w e d. jr_status r = Leased w e d \<and> e \<le> now \<and>
      expire_job p now ws r = r\<lparr>jr_failed_by := insert w (jr_failed_by r), jr_status := Pending,
        jr_held_until := sat_add now LAPSE_HOLD_SECS,
        jr_failed_by_sources :=
          (case bt_get ws w of
             Some v \<Rightarrow> if w \<in> po_trusted_h01 p then jr_failed_by_sources r
                       else insert (source_group (wr_source v)) (jr_failed_by_sources r)
           | None \<Rightarrow> jr_failed_by_sources r)\<rparr>"
    if "expired now r" for r p ws
    using that by (auto simp: expired_def expire_job_def lapse_def lapse_group_def is_trusted_def
        split: job_status.splits option.splits)
  moreover have "expire_job p now ws r = r \<and> (\<forall>w e d. jr_status r = Leased w e d \<longrightarrow> now < e)"
    if "\<not> expired now r" for r p ws
    using that by (auto simp: expire_job_unexpired) (simp add: expired_def not_le)
  moreover note expired_worker_charged [OF state_okD(1) [OF assms]]
  ultimately show ?thesis
    by (cases "bt_get (st_jobs st) i") (auto simp: freed)
qed

theorem expire_exact_witness:
  "\<exists>r'. bt_get (st_jobs (snd (expire_leases 2000 ex_leased))) ''low'' = Some r' \<and>
        jr_status r' = Pending \<and> jr_failed_by r' = {5} \<and> jr_held_until r' = 2900"
proof -
  have "''low'' \<in> set (fst (expire_leases 2000 ex_leased))"
    by (simp add: expire_leases_fst ex_leased_eq expired_def ex_low_lease_def)
  with expire_exact [OF reachable_ok [OF ex_leased_reachable], where i = "''low''" and now = 2000] ex_leased_low
  show ?thesis
    by (auto simp: ex_low_lease_def sat_add_def LAPSE_HOLD_SECS_def)
qed

section \<open>Heartbeats and results\<close>

text \<open>A heartbeat renews exactly the sender's own live, permitted lease.  The new expiry is
  never earlier than the old one, gives a full window unless the deadline comes first, and never
  passes the deadline; every refusal has the error of the first check that fails, and only a lease
  the policy no longer allows is taken back.\<close>

theorem renew_exact:
  assumes "state_ok st" and "bt_get (st_jobs st) job = Some r" and "jr_status r = Leased h e d"
  shows "case renew worker job now st of
      (Inr x, st') \<Rightarrow>
        h = worker \<and> now < e \<and> tier_allowed (st_policy st) worker (js_requires (jr_spec r)) \<and>
        e \<le> x \<and> x \<le> hard_deadline e d \<and>
        min (sat_add now (po_lease_window_secs (st_policy st))) (hard_deadline e d) \<le> x \<and>
        bt_get (st_jobs st') job = Some (r\<lparr>jr_status := Leased worker x (hard_deadline e d)\<rparr>) \<and>
        (\<forall>j. j \<noteq> job \<longrightarrow> bt_get (st_jobs st') j = bt_get (st_jobs st) j)
    | (Inl err, st') \<Rightarrow>
        (if h \<noteq> worker then err = NotLeaseholder \<and> st' = st
         else if e \<le> now then err = LeaseExpired e now \<and> st' = st
         else err = TierRevoked \<and> \<not> tier_allowed (st_policy st) worker (js_requires (jr_spec r)) \<and>
              bt_get (st_jobs st') job = Some (r\<lparr>jr_status := Pending\<rparr>))"
  using assms(2,3)
proof (cases rule: renew_cases [where worker = worker and now = now])
  case (extended hard x st')
  have "deadline_ok (Leased h e d)"
    using jobs_okD(2) [OF state_okD(1) [OF assms(1)] assms(2)] by (simp add: job_ok_def assms(3))
  then have "x \<le> hard_deadline e d"
    using extended_expiry_le_hard extended(4,5) by simp
  moreover have "e \<le> x" and "min (sat_add now (po_lease_window_secs (st_policy st))) hard \<le> x"
    by (simp_all add: extended(5) extended_expiry_def)
  ultimately show ?thesis
    using extended assms(2) by simp
qed (use assms in \<open>simp_all add: revoke_lease_get\<close>)

theorem renew_exact_witness:
  "case renew 5 ''low'' 1800 ex_leased of
      (Inr x, st') \<Rightarrow> x = 2700 | (Inl err, st') \<Rightarrow> False"
proof -
  have ok: "state_ok ex_leased" by (rule reachable_ok [OF ex_leased_reachable])
  have r: "jr_status ex_low_lease = Leased 5 1900 4600" by (simp add: ex_low_lease_def)
  have "tier_allowed ex_policy 5 (js_requires (jr_spec ex_low_lease))"
    by (simp add: tier_allowed_def satisfies_def effective_capability_def ex_low_lease_def
        new_job_spec_def)
  with renew_exact [OF ok ex_leased_low r, of 5 1800] show ?thesis
    using ex_leased_low
    by (simp add: renew_def r Let_def extended_expiry_def hard_deadline_def sat_add_def min_def max_def)
qed



section \<open>Back-off\<close>

lemma funpow_charge_cooldown:
  "n \<noteq> 0 \<Longrightarrow> sat_add now NOSHOW_BACKOFF_BASE_SECS \<le> wr_cooldown_until ((charge_worker now ^^ n) w)"
proof (cases n)
  case (Suc m)
  have "sat_add now NOSHOW_BACKOFF_BASE_SECS \<le> sat_add now (noshow_backoff k)" for k
    using noshow_backoff_bounds(1) by (intro sat_add_mono) simp_all
  then show ?thesis by (simp add: Suc charge_worker_def Let_def)
qed simp

lemma lapsed_worker_in:
  assumes "bt_get js i = Some r" and "jr_status r = Leased w e d" and "e \<le> now"
  shows "w \<in> set (lapsed_workers now js)"
proof -
  have "(i, r) \<in> set js" by (rule bt_get_in [OF assms(1)])
  moreover have "expired now r" using assms by (simp add: expired_def)
  ultimately show ?thesis
    using assms(2) by (force simp: lapsed_workers_def in_map_filter)
qed

lemma lapsed_worker_held:
  assumes "bt_ok js" and "w \<in> set (lapsed_workers now js)"
  obtains i r where "bt_get js i = Some r" and "held_by w (jr_status r)"
proof -
  from assms(2) obtain i r where "(i, r) \<in> set js" and "leased_worker (jr_status r) = Some w"
    by (auto simp: lapsed_workers_def in_map_filter split: if_splits)
  then show ?thesis
    by (intro that [of i r]) (auto simp: bt_get_iff [OF assms(1)] elim: leased_worker.elims)
qed

text \<open>A no-show costs an hour.  A registered worker whose lease has lapsed is refused every lease
  it asks for during the following hour, with the time at which it may ask again.\<close>

theorem lapse_cools_down:
  assumes ok: "state_ok st" and job: "bt_get (st_jobs st) i = Some r"
    and lease_r: "jr_status r = Leased who e d" and late: "e \<le> now"
    and reg: "bt_get (st_workers st) who = Some w"
    and later: "now \<le> now'" "unat now' < unat now + 3600" "unat now + 3600 < 2 ^ 64"
  shows "\<exists>until. fst (lease K parse who now' (snd (expire_leases now st))) = Inl (CoolingDown until) \<and>
           now' < until"
proof -
  let ?st1 = "snd (expire_leases now st)"
  let ?n = "count_list (lapsed_workers now (st_jobs st)) who"
  let ?w1 = "(charge_worker now ^^ ?n) w"
  have ok1: "state_ok ?st1" by (rule expire_ok [OF ok])
  have w1: "bt_get (st_workers ?st1) who = Some ?w1" using reg by (simp add: charge_all_get)
  have "?n \<noteq> 0" using lapsed_worker_in [OF job lease_r late] by (simp add: count_list_0_iff)
  then have cool: "sat_add now NOSHOW_BACKOFF_BASE_SECS \<le> wr_cooldown_until ?w1"
    by (rule funpow_charge_cooldown)
  have "unat now' < unat (sat_add now NOSHOW_BACKOFF_BASE_SECS)"
    using later by (simp add: unat_sat NOSHOW_BACKOFF_BASE_SECS_def)
  with cool have until: "now' < wr_cooldown_until ?w1"
    by (simp add: word_less_nat_alt word_le_nat_alt)
  have "\<not> held_by who (jr_status s)" if s: "bt_get (st_jobs ?st1) j = Some s" for j s
  proof
    assume held: "held_by who (jr_status s)"
    from s obtain s0 where s0: "bt_get (st_jobs st) j = Some s0" and "\<not> expired now s0"
      and "held_by who (jr_status s0)"
      using held by (auto simp: expire_job_status split: if_splits)
    moreover have "j = i"
      using jobs_okD(3) [OF state_okD(1) [OF ok]] job s0 lease_r \<open>held_by who (jr_status s0)\<close>
      unfolding one_lease_def by fastforce
    ultimately show False using job lease_r late by (simp add: expired_def)
  qed
  then have "who \<notin> set (lapsed_workers now' (st_jobs ?st1))"
    using lapsed_worker_held [OF jobs_okD(1) [OF state_okD(1) [OF ok1]]] by metis
  then have "count_list (lapsed_workers now' (st_jobs ?st1)) who = 0"
    by (simp add: count_list_0_iff)
  then have "worker_cooldown who (polled who now' ?st1) = wr_cooldown_until ?w1"
    using reg by (simp add: worker_cooldown_def polled_def charge_all_get)
  with until w1 have "lease_gate who (source_group (wr_source ?w1)) now' (polled who now' ?st1) =
      Some (CoolingDown (wr_cooldown_until ?w1))"
    by (simp add: lease_gate_def)
  with w1 have "fst (lease K parse who now' ?st1) = Inl (CoolingDown (wr_cooldown_until ?w1))"
    by (cases rule: lease_cases [of ?st1 who K parse now']) auto
  with until show ?thesis by blast
qed

theorem lapse_cools_down_witness:
  "\<exists>until. fst (lease K0 P0 5 3000 (snd (expire_leases 2000 ex_leased))) = Inl (CoolingDown until) \<and>
     3000 < until"
proof (rule lapse_cools_down [OF reachable_ok [OF ex_leased_reachable] ex_leased_low])
  show "jr_status ex_low_lease = Leased 5 1900 4600" by (simp add: ex_low_lease_def)
  show "bt_get (st_workers ex_leased) 5 = Some (touch 1000 (ex_record ''10.0.0.5''))"
    by (simp add: ex_leased_eq ex_polled)
qed simp_all

lemma forget_keeps_penalty:
  assumes "bt_ok (st_penalties st)" and "bt_get (st_penalties st) who = Some pn" and "v \<noteq> who"
    and "length (st_penalties st) < MAX_WORKERS"
  shows "bt_get (st_penalties (forget_worker v now st)) who = Some pn"
    and "length (st_penalties (forget_worker v now st)) \<le> Suc (length (st_penalties st))"
    and "bt_ok (st_penalties (forget_worker v now st))"
proof -
  have k: "keep_penalty v q (st_penalties st) = bt_insert v q (st_penalties st)" for q
    using assms(4) by (simp add: keep_penalty_def)
  from forget_worker_cases [of v now st] k
  consider "st_penalties (forget_worker v now st) = st_penalties st"
    | q where "st_penalties (forget_worker v now st) = bt_insert v q (st_penalties st)"
    by auto
  then show "bt_get (st_penalties (forget_worker v now st)) who = Some pn"
    and "length (st_penalties (forget_worker v now st)) \<le> Suc (length (st_penalties st))"
    and "bt_ok (st_penalties (forget_worker v now st))"
    by (cases; use assms in \<open>simp add: length_bt_insert\<close>)+
qed

lemma register_restores:
  assumes ok: "registry_ok st" and new: "bt_get (st_workers st) (rw_id w) = None"
    and pn: "bt_get (st_penalties st) (rw_id w) = Some pn"
    and room: "length (st_penalties st) + 1 < MAX_WORKERS"
    and res: "register w source now st = (Inr c, st')"
  shows "bt_get (st_workers st') (rw_id w) = Some (new_worker w source now pn)"
proof -
  let ?st0 = "st\<lparr>st_dirty := True\<rparr>" and ?who = "rw_id w"
  define st1 where "st1 = snd (if is_trusted (st_policy st) ?who then (Inr (), ?st0)
      else make_room_for_source source (leaseholders now ?st0) now ?st0)"
  define st2 where "st2 = snd (make_room_in_registry (leaseholders now ?st0) now st1)"
  have st': "st' = insert_worker w source now st2"
    using res new
    by (auto simp: register_def Let_def st1_def st2_def case_prod_unfold split: sum.splits if_splits)
  have "st1 = ?st0 \<or> (\<exists>v. st1 = forget_worker v now ?st0 \<and> bt_has (st_workers st) v)"
    using make_room_for_source_cases [OF prod.collapse [symmetric],
        of source "leaseholders now ?st0" now ?st0]
    by (auto simp: st1_def)
  then consider "st1 = ?st0" | v where "st1 = forget_worker v now ?st0" "v \<noteq> ?who"
    using new unfolding bt_has_def by metis
  then have p1: "bt_get (st_penalties st1) ?who = Some pn \<and> length (st_penalties st1) < MAX_WORKERS \<and>
    bt_ok (st_penalties st1) \<and> \<not> bt_has (st_workers st1) ?who"
  proof cases
    case 1
    with pn room new registry_okD(3) [OF ok] show ?thesis by (simp add: bt_has_def)
  next
    case 2
    with pn room new registry_okD(3) [OF ok] forget_keeps_penalty [of ?st0 ?who pn v now]
    show ?thesis by (simp add: bt_has_def forget_worker_workers)
  qed
  have "st2 = st1 \<or> (\<exists>v. st2 = forget_worker v now st1 \<and> bt_has (st_workers st1) v)"
    using make_room_in_registry_cases [OF prod.collapse [symmetric],
        of "leaseholders now ?st0" now st1]
    by (auto simp: st2_def)
  then consider "st2 = st1" | v where "st2 = forget_worker v now st1" "v \<noteq> ?who"
    using p1 by metis
  then have "bt_get (st_penalties st2) ?who = Some pn"
    by cases (use p1 forget_keeps_penalty(1) [of st1 ?who pn _ now] in simp_all)
  then show ?thesis by (simp add: st' insert_worker_def Let_def)
qed

text \<open>A key cannot launder its back-off.  A worker dropped from the registry (evicted, or its
  source slot reclaimed) with a no-show or a running cool-down gets both back when it registers
  again, whatever source it registers from, as long as the table of penalties is not full.\<close>

theorem backoff_survives_eviction:
  assumes "state_ok st" and "bt_get (st_workers st) (rw_id w) = Some r"
    and "wr_noshows r \<noteq> 0 \<or> now < wr_cooldown_until r"
    and "length (st_penalties st) + 2 < MAX_WORKERS"
    and "register w source now' (forget_worker (rw_id w) now st) = (Inr c, st')"
  shows "\<exists>r'. bt_get (st_workers st') (rw_id w) = Some r' \<and> wr_noshows r' = wr_noshows r \<and>
           wr_cooldown_until r' = wr_cooldown_until r"
proof -
  let ?who = "rw_id w" and ?st1 = "forget_worker (rw_id w) now st"
  let ?pn = "\<lparr>pn_noshows = wr_noshows r, pn_cooldown_until = wr_cooldown_until r\<rparr>"
  have ok: "registry_ok st" by (rule state_okD [OF assms(1)])
  have ps: "st_penalties ?st1 = bt_insert ?who ?pn (st_penalties st)"
    using assms(2,3,4) by (auto simp: forget_worker_def Let_def keep_penalty_def)
  have "length (st_penalties ?st1) + 1 < MAX_WORKERS"
    using assms(4) registry_okD(3) [OF ok] by (simp add: ps length_bt_insert)
  moreover have "bt_get (st_penalties ?st1) ?who = Some ?pn" by (simp add: ps)
  moreover have "bt_get (st_workers ?st1) ?who = None" by (simp add: forget_worker_workers)
  ultimately have "bt_get (st_workers st') ?who = Some (new_worker w source now' ?pn)"
    using register_restores [OF forget_worker_ok [OF ok] _ _ _ assms(5)] by blast
  then show ?thesis by (simp add: new_worker_def)
qed

theorem backoff_survives_eviction_witness:
  "\<exists>r'. bt_get (st_workers (snd (register (ex_worker 5) ''192.0.2.1'' 2600
           (forget_worker 5 2500 (snd (expire_leases 2000 ex_leased)))))) 5 = Some r' \<and>
        wr_noshows r' = 1 \<and> wr_cooldown_until r' = 5600"
proof -
  let ?st = "snd (expire_leases 2000 ex_leased)" and ?w = "ex_worker 5"
  let ?r = "charge_worker 2000 (touch 1000 (ex_record ''10.0.0.5''))"
  have lapsed: "lapsed_workers 2000 (st_jobs ex_leased) = [5]"
    by (simp add: lapsed_workers_def ex_leased_eq expired_def ex_low_lease_def ex_job_def
        map_filter_simps)
  have get: "bt_get (st_workers ?st) (rw_id ?w) = Some ?r"
    unfolding expire_leases_fields lapsed
    by (simp add: ex_worker_def charge_all_def ex_leased_eq ex_polled)
  have backoff: "noshow_backoff 1 = 3600"
    by (simp add: noshow_backoff_def sat_sub_def sat_mul_def NOSHOW_BACKOFF_BASE_SECS_def
        NOSHOW_BACKOFF_MAX_SECS_def Let_def min_def)
  have r: "wr_noshows ?r = 1" "wr_cooldown_until ?r = 5600"
    by (simp_all add: charge_worker_def ex_record_def Let_def sat_add_def backoff)
  have ps: "length (st_penalties ?st) + 2 < MAX_WORKERS"
    by (simp add: ex_leased_eq ex_polled MAX_WORKERS_def)
  have id: "rw_id ?w = 5" by (simp add: ex_worker_def)
  have ws: "st_workers (forget_worker 5 2500 ?st) = [(7, ex_record ''10.0.0.7'')]"
    unfolding forget_worker_workers expire_leases_fields lapsed
    by (simp add: charge_all_def ex_leased_eq ex_polled bt_modify_def bt_remove_def)
  have pol: "st_policy (forget_worker 5 2500 ?st) = ex_policy" by simp
  have "\<exists>c. fst (register ?w ''192.0.2.1'' 2600 (forget_worker 5 2500 ?st)) = Inr c"
    by (simp add: register_def id ws pol Let_def case_prod_unfold make_room_for_source_def
        from_source_def make_room_in_registry_def MAX_WORKERS_def del: forget_worker_keeps)
  then obtain c st' where reg: "register ?w ''192.0.2.1'' 2600 (forget_worker 5 2500 ?st) = (Inr c, st')"
    by (metis prod.collapse)
  have ok: "state_ok ?st" by (intro expire_ok reachable_ok [OF ex_leased_reachable])
  have reg': "register ?w ''192.0.2.1'' 2600 (forget_worker (rw_id ?w) 2500 ?st) = (Inr c, st')"
    using reg by (simp only: id)
  have ns: "wr_noshows ?r \<noteq> 0 \<or> 2500 < wr_cooldown_until ?r" by (simp only: r) simp
  from backoff_survives_eviction [where st = ?st and w = ?w and r = ?r and now = 2500
      and now' = 2600 and source = "''192.0.2.1''" and c = c and st' = st', OF ok get ns ps reg']
  show ?thesis by (simp only: reg snd_conv r id)
qed

end
