(* ===== verification/Api_Theorems.thy ===== *)
theory Api_Theorems
  imports Api Coordinator_Theorems
begin

text \<open>
  The running service: every state it can be in, with requests, restarts and power losses in any
  order and saves that fail anywhere.  Its states are states of the abstract machine of
  \<open>Coordinator_Lease\<close>, so the properties proved there hold of the service; what it acknowledges
  survives a power loss; and its limits on new identities hold.
\<close>

inductive served :: "'f deps \<Rightarrow> 'f coordinator \<Rightarrow> bool" for D where
  served_open: "open_with D p now fault empty_disk = Some (Inr c) \<Longrightarrow> served D c"
| served_add: "served D c \<Longrightarrow> served D (snd (api_add_job D fault spec c))"
| served_request: "served D c \<Longrightarrow> served D (snd (handle D ev req c))"
| served_crash: "served D c \<Longrightarrow> file \<in> dk_after_crash (co_disk c) \<Longrightarrow>
    open_with D p now fault (crashed file (co_disk c)) = Some (Inr c') \<Longrightarrow> served D c'"

section \<open>The invariant of the service\<close>

abbreviation machine :: "'f deps \<Rightarrow> state \<Rightarrow> bool" where
  "machine D \<equiv> reachable (d_keccak D) (d_parse_payload D)"

definition file_ok :: "'f deps \<Rightarrow> 'f option \<Rightarrow> bool" where
  "file_ok D file \<longleftrightarrow>
     (\<exists>st. load_file (d_de D) file = Some st \<and> reload st = st \<and> (\<forall>p now. machine D (boot p now st)))"

definition saved :: "'f deps \<Rightarrow> state \<Rightarrow> 'f option \<Rightarrow> bool" where
  "saved D st file \<longleftrightarrow> (\<exists>s. load_file (d_de D) file = Some s \<and> on_disk s st)"

definition service_ok :: "'f deps \<Rightarrow> 'f coordinator \<Rightarrow> bool" where
  "service_ok D c \<longleftrightarrow> machine D (co_state c) \<and> admission_ok (co_admission c) \<and>
     (\<forall>file \<in> dk_after_crash (co_disk c). file_ok D file) \<and>
     (\<not> st_dirty (co_state c) \<longrightarrow> (\<forall>file \<in> dk_after_crash (co_disk c). saved D (co_state c) file))"

lemma service_okD:
  assumes "service_ok D c"
  shows "machine D (co_state c)" "admission_ok (co_admission c)"
    "file \<in> dk_after_crash (co_disk c) \<Longrightarrow> file_ok D file"
    "\<not> st_dirty (co_state c) \<Longrightarrow> file \<in> dk_after_crash (co_disk c) \<Longrightarrow> saved D (co_state c) file"
  using assms by (auto simp: service_ok_def)

text \<open>A move of the coordinator between two saves: the machine moves, and if it ends clean then it
  was clean before and left what is on disk valid.\<close>

definition moves :: "'f deps \<Rightarrow> 'f coordinator \<Rightarrow> 'f coordinator \<Rightarrow> bool" where
  "moves D c c' \<longleftrightarrow> co_disk c' = co_disk c \<and>
     (machine D (co_state c) \<longrightarrow> machine D (co_state c')) \<and>
     (admission_ok (co_admission c) \<longrightarrow> admission_ok (co_admission c')) \<and>
     (machine D (co_state c) \<longrightarrow> \<not> st_dirty (co_state c') \<longrightarrow>
        \<not> st_dirty (co_state c) \<and>
        (\<forall>s. on_disk s (co_state c) \<longrightarrow> on_disk s (co_state c')))"

lemma moves_refl [simp]: "moves D c c"
  by (simp add: moves_def)

lemma moves_trans: "moves D a b \<Longrightarrow> moves D b c \<Longrightarrow> moves D a c"
  by (auto simp: moves_def)

lemma moves_ok: "moves D c c' \<Longrightarrow> service_ok D c \<Longrightarrow> service_ok D c'"
  unfolding moves_def service_ok_def saved_def by metis

lemma machine_step: "machine D st \<Longrightarrow> coord_step (d_keccak D) (d_parse_payload D) ev st st' \<Longrightarrow> machine D st'"
  by (rule reach_step)

lemma machine_take: "machine D st \<Longrightarrow> machine D (snd (take_dirty st))"
  by (erule machine_step, rule step_take)

lemma machine_mark: "machine D st \<Longrightarrow> machine D (mark_dirty st)"
  by (erule machine_step, rule step_mark)

lemma machine_reboot: "machine D st \<Longrightarrow> machine D (boot p now (reload st))"
  by (erule machine_step, rule step_restart)

text \<open>The assumption on the file format: reading back what was written gives the state, with the
  fields that are not written at their defaults.\<close>

definition format_ok :: "'f deps \<Rightarrow> bool" where
  "format_ok D \<longleftrightarrow> (\<forall>st. d_de D (d_ser D st) = Some (reload st))"

lemma reload_idem [simp]: "reload (reload st) = reload st"
  by (simp add: reload_def bt_map_map)

lemma written_file:
  assumes "format_ok D" and "machine D st" and "st_dirty st"
  shows "file_ok D (Some (d_ser D (snd (take_dirty st))))"
    and "saved D (snd (take_dirty st)) (Some (d_ser D (snd (take_dirty st))))"
proof -
  have "load_file (d_de D) (Some (d_ser D (snd (take_dirty st)))) = Some (reload (snd (take_dirty st)))"
    using assms(1) by (simp add: load_file_def format_ok_def)
  moreover have "mark_dirty st = st" using assms(3) by (simp add: mark_dirty_def)
  ultimately show "file_ok D (Some (d_ser D (snd (take_dirty st))))"
    and "saved D (snd (take_dirty st)) (Some (d_ser D (snd (take_dirty st))))"
    using machine_reboot [OF machine_take [OF assms(2)]] reload_on_disk [of st]
    by (auto simp: file_ok_def saved_def)
qed

lemma save_files:
  "(\<forall>file \<in> dk_after_crash dk. P file) \<Longrightarrow> P (Some (ser st)) \<Longrightarrow>
     \<forall>file \<in> dk_after_crash (snd (save ser st fault dk)). P file"
  by (cases fault) auto

lemma save_done:
  "fst (save ser st fault dk) = Inr u \<Longrightarrow> dk_after_crash (snd (save ser st fault dk)) = {Some (ser st)}"
  by (cases fault) auto

text \<open>After persisting, the service is sound; if no error is reported, the state is clean.\<close>

lemma persist_ok:
  assumes "format_ok D" and "service_ok D c"
  shows "service_ok D (snd (persist D fault c))"
    and "fst (persist D fault c) = Inr u \<Longrightarrow> \<not> st_dirty (co_state (snd (persist D fault c)))"
    and "co_admission (snd (persist D fault c)) = co_admission c"
    and "co_budget (snd (persist D fault c)) = co_budget c"
    and "st_workers (co_state (snd (persist D fault c))) = st_workers (co_state c)"
proof -
  let ?st = "snd (take_dirty (co_state c))"
  note c = service_okD [OF assms(2)]
  show "service_ok D (snd (persist D fault c))"
  proof (cases "st_dirty (co_state c)")
    case False
    then show ?thesis using assms(2) by (simp add: persist_def take_dirty_def)
  next
    case True
    note w = written_file [OF assms(1) c(1) True]
    have files: "\<forall>file \<in> dk_after_crash (snd (save (d_ser D) ?st fault (co_disk c))). file_ok D file"
      by (rule save_files) (use c(3) w(1) in blast)+
    have m: "machine D ?st" by (rule machine_take [OF c(1)])
    show ?thesis
    proof (cases "fst (save (d_ser D) ?st fault (co_disk c))")
      case (Inl e)
      then have "snd (persist D fault c) =
          c\<lparr>co_state := mark_dirty ?st, co_disk := snd (save (d_ser D) ?st fault (co_disk c))\<rparr>"
        using True by (simp add: persist_def take_dirty_def Let_def case_prod_unfold)
      then show ?thesis
        using files machine_mark [OF m] c(2) by (simp add: service_ok_def mark_dirty_def)
    next
      case (Inr v)
      then have "snd (persist D fault c) =
          c\<lparr>co_state := ?st, co_disk := snd (save (d_ser D) ?st fault (co_disk c))\<rparr>"
        using True by (simp add: persist_def take_dirty_def Let_def case_prod_unfold)
      then show ?thesis
        using files m c(2) w(2) save_done [OF Inr] by (simp add: service_ok_def)
    qed
  qed
  show "fst (persist D fault c) = Inr u \<Longrightarrow> \<not> st_dirty (co_state (snd (persist D fault c)))"
    by (auto simp: persist_def take_dirty_def Let_def case_prod_unfold split: sum.splits if_splits)
  show "co_admission (snd (persist D fault c)) = co_admission c"
    and "co_budget (snd (persist D fault c)) = co_budget c"
    and "st_workers (co_state (snd (persist D fault c))) = st_workers (co_state c)"
    by (simp_all add: persist_def take_dirty_def mark_dirty_def Let_def case_prod_unfold split: sum.splits)
qed

lemma mutate_ok:
  assumes "format_ok D" and "service_ok D c" and "moves D c (snd (f c))"
  shows "service_ok D (snd (mutate D fault f c))"
    and "fst (mutate D fault f c) = Inr r \<Longrightarrow> \<not> st_dirty (co_state (snd (mutate D fault f c))) \<and> r = fst (f c)"
    and "co_admission (snd (mutate D fault f c)) = co_admission (snd (f c))"
    and "co_budget (snd (mutate D fault f c)) = co_budget (snd (f c))"
    and "st_workers (co_state (snd (mutate D fault f c))) = st_workers (co_state (snd (f c)))"
proof -
  note p = persist_ok [OF assms(1) moves_ok [OF assms(3,2)]]
  have s: "snd (mutate D fault f c) = snd (persist D fault (snd (f c)))"
    by (simp add: mutate_def Let_def case_prod_unfold)
  show "service_ok D (snd (mutate D fault f c))"
    "co_admission (snd (mutate D fault f c)) = co_admission (snd (f c))"
    "co_budget (snd (mutate D fault f c)) = co_budget (snd (f c))"
    "st_workers (co_state (snd (mutate D fault f c))) = st_workers (co_state (snd (f c)))"
    unfolding s by (rule p)+
  assume "fst (mutate D fault f c) = Inr r"
  then have "\<exists>u. fst (persist D fault (snd (f c))) = Inr u" and "r = fst (f c)"
    by (auto simp: mutate_def Let_def case_prod_unfold map_sum_def split: sum.splits)
  then show "\<not> st_dirty (co_state (snd (mutate D fault f c))) \<and> r = fst (f c)"
    using p(2) by (auto simp: s)
qed

section \<open>Every request keeps it\<close>

lemma on_state_moves:
  assumes "\<And>st. machine D st \<Longrightarrow> machine D (snd (f st))"
    and "\<And>st. machine D st \<Longrightarrow> \<not> st_dirty (snd (f st)) \<Longrightarrow> \<not> st_dirty st"
    and "\<And>s st. machine D st \<Longrightarrow> on_disk s st \<Longrightarrow> \<not> st_dirty (snd (f st)) \<Longrightarrow> on_disk s (snd (f st))"
  shows "moves D c (snd (on_state f c))"
  using assms by (simp add: moves_def on_state_def Let_def case_prod_unfold)

lemma bt_ok_reachable: "machine D st \<Longrightarrow> bt_ok (st_jobs st)"
  by (rule jobs_okD(1) [OF state_okD(1) [OF reachable_ok]])

lemma lease_dirty_mono: "\<not> st_dirty (snd (lease K parse worker now m)) \<Longrightarrow> \<not> st_dirty m"
proof (cases rule: lease_cases [of m worker K parse now])
  case (refused w e)
  then show "\<not> st_dirty (snd (lease K parse worker now m)) \<Longrightarrow> \<not> st_dirty m"
    using polled_clean [of worker now m] by (cases "st_dirty (polled worker now m)") simp_all
qed simp_all

lemma renew_dirty_mono: "\<not> st_dirty (snd (renew worker job now m)) \<Longrightarrow> \<not> st_dirty m"
  by (auto simp: renew_def revoke_lease_def Let_def split: option.splits job_status.splits if_splits)

lemma submit_dirty_mono: "\<not> st_dirty (snd (submit worker job res now m)) \<Longrightarrow> \<not> st_dirty m"
  by (auto simp: submit_def revoke_lease_def Let_def split: option.splits job_status.splits if_splits)

lemma lease_moves: "moves D c (snd (on_state (lease (d_keccak D) (d_parse_payload D) who now) c))"
  by (rule on_state_moves)
    (erule machine_step, rule step_lease, erule lease_dirty_mono, erule lease_clean, assumption)

lemma renew_moves: "moves D c (snd (on_state (renew who job now) c))"
  by (rule on_state_moves)
    (erule machine_step, rule step_renew, erule renew_dirty_mono, rule renew_clean, assumption,
     erule bt_ok_reachable, assumption)

lemma submit_moves: "moves D c (snd (on_state (submit who job res now) c))"
  by (rule on_state_moves)
    (erule machine_step, rule step_submit, erule submit_dirty_mono, erule submit_clean, assumption)

lemma add_job_moves: "moves D c (snd (on_state (\<lambda>st. ((), add_job spec st)) c))"
  by (rule on_state_moves) (simp_all add: add_job_def, fold add_job_def, erule machine_step, rule step_add)

lemma api_admit_moves: "moves D c (snd (api_admit who ts n c))"
  by (auto simp: moves_def api_admit_def Let_def case_prod_unfold intro: admit_ok)

lemma admitted_moves:
  assumes "\<And>c. moves D c (snd (on_state f c))"
  shows "moves D c (snd (admitted who ts n f c))"
proof -
  let ?c1 = "snd (api_admit who ts n c)"
  have "moves D c ?c1" by (rule api_admit_moves)
  moreover have "moves D c (snd (on_state f ?c1))" by (rule moves_trans [OF api_admit_moves assms])
  ultimately show ?thesis
    by (auto simp: admitted_def Let_def case_prod_unfold split: sum.splits)
qed

text \<open>A registration that gets as far as the registry: refused by it, or noted as used.\<close>

lemma accept_moves:
  assumes "register w source now (co_state c) = (r, st)"
    and "co_disk c' = co_disk c" "co_admission c' = co_admission c"
    and "bt_get (st_workers (co_state c)) (rw_id w) = None \<and> co_state c' = st \<or>
         co_state c' = snd (note_registration (rw_id w) ts n st) \<and>
         (rw_id w, ts) \<notin> st_recent st"
  shows "moves D c c'"
proof -
  have m: "machine D st" if "machine D (co_state c)"
    using machine_step [OF that step_register [of _ _ w source now]] assms(1) by simp
  have "machine D (snd (note_registration (rw_id w) ts n st))" if "machine D (co_state c)"
    using machine_step [OF m [OF that] step_note] .
  moreover have "st_dirty (co_state c')"
    using assms(4) register_new_dirty [of "co_state c" w source now] assms(1)
    by (auto simp: note_registration_def Let_def)
  ultimately show ?thesis
    using assms m by (auto simp: moves_def)
qed

lemma register_recent: "st_recent (snd (register w source now st)) = st_recent st"
proof (cases "bt_get (st_workers st) (rw_id w)")
  case None
  show ?thesis
  proof (cases rule: register_new_cases [OF None, of source now])
    case (1 e st1)
    then show ?thesis by auto
  next
    case (2 st2)
    then show ?thesis by (simp add: insert_worker_def Let_def)
  qed
next
  case (Some e)
  then show ?thesis by (simp add: register_def Let_def)
qed

lemma register_op_moves: "moves D c (snd (register_op w ts source now n c))"
proof -
  let ?s = "co_state c"
  have accept: "moves D c (snd (case register w source now (co_state c') of
            (Inl e, st) \<Rightarrow> (Inl (Registry e) :: reg_fail + capability, c'\<lparr>co_state := st\<rparr>)
          | (Inr granted, st) \<Rightarrow>
              (Inr granted, c'\<lparr>co_state := snd (note_registration (rw_id w) ts n st)\<rparr>)))"
    if "co_state c' = ?s" "co_disk c' = co_disk c" "co_admission c' = co_admission c"
      "\<not> registration_seen (rw_id w) ts ?s" for c'
  proof (cases "register w source now ?s")
    case (Pair r st)
    have unseen: "(rw_id w, ts) \<notin> st_recent st"
      using that(4) register_recent [of w source now ?s] Pair by (simp add: registration_seen_def)
    show ?thesis
    proof (cases r)
      case (Inl e)
      then have "bt_get (st_workers ?s) (rw_id w) = None"
        using Pair by (auto simp: register_def Let_def split: option.splits)
      with Inl Pair that show ?thesis
        by (simp add: accept_moves [where w = w and source = source and now = now])
    next
      case (Inr g)
      with Pair that unseen show ?thesis
        by (simp add: accept_moves [where w = w and source = source and now = now and ts = ts and n = n])
    qed
  qed
  have idle: "moves D c (c\<lparr>co_budget := b\<rparr>)" for b
    by (simp add: moves_def)
  show ?thesis
    using accept idle
    by (auto simp: register_op_def Let_def case_prod_unfold split: option.splits sum.splits)
qed

section \<open>Handlers\<close>

lemma verify_signed_code: "verify_signed recover n ts d signature = Inl e \<Longrightarrow> re_code e = 401"
  by (auto simp: verify_signed_def err_def split: if_splits option.splits)

text \<open>What a request does: nothing, or one mutation that moves the coordinator.\<close>

definition mutates :: "'f deps \<Rightarrow> env \<Rightarrow> response \<times> 'f coordinator \<Rightarrow> 'f coordinator \<Rightarrow> bool" where
  "mutates D ev res c \<longleftrightarrow>
     (\<exists>c1 u. moves D c c1 \<and> persist D (ev_fault ev) c1 = (u, snd res) \<and>
        (re_code (fst res) < 300 \<longrightarrow> u = Inr ()))"

lemma mutate_mutates:
  assumes "moves D c (snd (f c))"
    and "\<And>e. fst (mutate D (ev_fault ev) f c) = Inl e \<Longrightarrow> \<not> re_code r < 300"
  shows "mutates D ev (r, snd (mutate D (ev_fault ev) f c)) c"
  unfolding mutates_def
proof (intro exI conjI impI)
  let ?p = "persist D (ev_fault ev) (snd (f c))"
  show "moves D c (snd (f c))" by (rule assms(1))
  show "persist D (ev_fault ev) (snd (f c)) = (fst ?p, snd (r, snd (mutate D (ev_fault ev) f c)))"
    by (simp add: mutate_def Let_def case_prod_unfold)
  assume "re_code (fst (r, snd (mutate D (ev_fault ev) f c))) < 300"
  then have "\<not> (\<exists>e. fst (mutate D (ev_fault ev) f c) = Inl e)" using assms(2) by auto
  then show "fst ?p = Inr ()"
    by (cases "fst ?p") (auto simp: mutate_def Let_def case_prod_unfold)
qed

lemma handle_cases:
  obtains (idle) "snd (handle D ev req c) = c" "re_code (fst (handle D ev req c)) < 300 \<Longrightarrow> req = GetStatus"
  | (works) "mutates D ev (handle D ev req c) c"
proof (cases req)
  case (PostRegister att peer fwd)
  show ?thesis
  proof (cases "at_timestamp att = 0 \<or> \<not> fresh (at_timestamp att) (ev_check_nanos ev) \<or>
      (\<exists>e. verify_attestation (d_keccak D) (d_recover D) (d_parse_json D) (d_parse_probe D) att = Inl e)")
    case True
    with PostRegister show ?thesis
      by (intro idle) (auto simp: register_handler_def err_def split: if_splits)
  next
    case False
    then obtain w where w: "verify_attestation (d_keccak D) (d_recover D) (d_parse_json D)
        (d_parse_probe D) att = Inr w"
      by (metis sum.exhaust)
    show ?thesis
      using False PostRegister w
      by (intro works) (simp add: register_handler_def Let_def case_prod_unfold;
          intro mutate_mutates register_op_moves; simp add: err_def)
  qed
next
  case (PostLease ts signature)
  show ?thesis
  proof (cases "verify_signed (d_recover D) (ev_check_nanos ev) ts (lease_digest (d_keccak D) ts) signature")
    case (Inl e)
    with PostLease verify_signed_code [OF Inl] show ?thesis
      by (intro idle) (auto simp: lease_handler_def)
  next
    case (Inr who)
    with PostLease show ?thesis
      by (intro works) (simp add: lease_handler_def Let_def case_prod_unfold;
          intro mutate_mutates admitted_moves lease_moves; simp add: err_def)
  qed
next
  case (PostHeartbeat job ts signature)
  show ?thesis
  proof (cases "verify_signed (d_recover D) (ev_check_nanos ev) ts
      (heartbeat_digest (d_keccak D) job ts) signature")
    case (Inl e)
    with PostHeartbeat verify_signed_code [OF Inl] show ?thesis
      by (intro idle) (auto simp: heartbeat_handler_def)
  next
    case (Inr who)
    with PostHeartbeat show ?thesis
      by (intro works) (simp add: heartbeat_handler_def Let_def case_prod_unfold;
          intro mutate_mutates admitted_moves renew_moves; simp add: err_def)
  qed
next
  case (PostSubmit sub)
  show ?thesis
  proof (cases "recover_submitter (d_keccak D) (d_recover D) sub")
    case (Inl e)
    with PostSubmit show ?thesis
      by (intro idle) (auto simp: submit_handler_def err_def)
  next
    case (Inr who)
    with PostSubmit show ?thesis
      by (intro works) (simp add: submit_handler_def Let_def case_prod_unfold;
          intro mutate_mutates submit_moves; simp add: err_def)
  qed
next
  case GetStatus
  then show ?thesis by (intro idle) simp_all
qed

lemma handle_ok:
  assumes "format_ok D" and "service_ok D c"
  shows "service_ok D (snd (handle D ev req c))"
    and "re_code (fst (handle D ev req c)) < 300 \<Longrightarrow> req \<noteq> GetStatus \<Longrightarrow>
           \<not> st_dirty (co_state (snd (handle D ev req c)))"
proof -
  have w: "service_ok D (snd (handle D ev req c)) \<and>
      (re_code (fst (handle D ev req c)) < 300 \<longrightarrow> \<not> st_dirty (co_state (snd (handle D ev req c))))"
    if "mutates D ev (handle D ev req c) c"
  proof -
    obtain c1 u where m: "moves D c c1" and p: "persist D (ev_fault ev) c1 = (u, snd (handle D ev req c))"
      and u: "re_code (fst (handle D ev req c)) < 300 \<longrightarrow> u = Inr ()"
      using \<open>mutates D ev (handle D ev req c) c\<close> unfolding mutates_def by blast
    note ok = persist_ok(1,2) [OF assms(1) moves_ok [OF m assms(2)], of "ev_fault ev"]
    show ?thesis using ok u by (simp add: p)
  qed
  show "service_ok D (snd (handle D ev req c))"
    by (cases rule: handle_cases [of D ev req c]) (use assms(2) w in simp_all)
  show "re_code (fst (handle D ev req c)) < 300 \<Longrightarrow> req \<noteq> GetStatus \<Longrightarrow>
           \<not> st_dirty (co_state (snd (handle D ev req c)))"
    by (cases rule: handle_cases [of D ev req c]) (use w in simp_all)
qed

lemma fold_revoke_clean:
  "\<not> st_dirty (fold revoke_lease js st) \<Longrightarrow> fold revoke_lease js st = st \<and> (\<forall>j \<in> set js. \<not> bt_has (st_jobs st) j)"
proof (induction js arbitrary: st)
  case (Cons j js)
  then have "fold revoke_lease js (revoke_lease j st) = revoke_lease j st"
    and "\<not> st_dirty (revoke_lease j st)" and "\<forall>i \<in> set js. \<not> bt_has (st_jobs (revoke_lease j st)) i"
    by fastforce+
  then have "revoke_lease j st = st" and "\<not> bt_has (st_jobs st) j"
    by (auto simp: revoke_lease_def split: if_splits)
  with \<open>fold revoke_lease js (revoke_lease j st) = revoke_lease j st\<close>
    \<open>\<forall>i \<in> set js. \<not> bt_has (st_jobs (revoke_lease j st)) i\<close> show ?case by simp
qed simp

lemma boot_clean:
  assumes "\<not> st_dirty (boot p now st)"
  shows "boot p now st = st\<lparr>st_policy := p\<rparr>"
proof -
  let ?st = "st\<lparr>st_policy := p\<rparr>" and ?r = "snd (revoke_out_of_policy (st\<lparr>st_policy := p\<rparr>))"
  let ?g = "grace_status (po_lease_window_secs (st_policy ?r)) now"
  have g: "\<forall>e \<in> set (st_jobs ?r). ?g (jr_status (snd e)) = jr_status (snd e)" and r: "\<not> st_dirty ?r"
    using assms by (auto simp: boot_def grace_live_leases_def Let_def)
  have "bt_map (\<lambda>_ x. x\<lparr>jr_status := ?g (jr_status x)\<rparr>) (st_jobs ?r) = bt_map (\<lambda>_ x. x) (st_jobs ?r)"
    by (rule bt_map_cong) (use g in force)
  then have "boot p now st = ?r"
    using g by (simp add: boot_def grace_live_leases_def Let_def) (simp add: bt_map_def)
  moreover have "?r = ?st"
    using fold_revoke_clean r by (simp add: revoke_out_of_policy_def Let_def)
  ultimately show ?thesis by simp
qed

lemma boot_on_disk:
  assumes "reload st = st" and "\<not> st_dirty (boot p now st)"
  shows "on_disk st (boot p now st)"
proof -
  have "jr_persisted_expiry r = 0" if "bt_get (st_jobs st) i = Some r" for i r
  proof -
    have "r\<lparr>jr_persisted_expiry := 0\<rparr> = r"
      using arg_cong [OF assms(1), of "\<lambda>s. bt_get (st_jobs s) i"] that by (simp add: reload_get)
    from arg_cong [OF this, of jr_persisted_expiry] show ?thesis by simp
  qed
  then show ?thesis
    unfolding boot_clean [OF assms(2)]
    by (auto simp: on_disk_def durable_part_def lease_lag_def split: job_status.splits)
qed

lemma open_ok:
  assumes "format_ok D" and "open_with D p now fault (crashed file dk) = Some (Inr c)" and "file_ok D file"
  shows "service_ok D c"
proof -
  obtain st where st: "load_file (d_de D) file = Some st" "reload st = st"
    and m: "machine D (boot p now st)"
    using assms(3) by (auto simp: file_ok_def)
  let ?c = "\<lparr>co_state = boot p now st, co_disk = crashed file dk, co_admission = new_admission,
             co_budget = new_budget\<rparr>"
  have c: "c = snd (persist D fault ?c)"
    using assms(2) st
    by (auto simp: open_with_def load_def crashed_def Let_def case_prod_unfold map_sum_def split: sum.splits)
  have "saved D (boot p now st) file" if clean: "\<not> st_dirty (boot p now st)"
    using st boot_on_disk [OF st(2) clean] by (auto simp: saved_def)
  then have "service_ok D ?c"
    using m assms(3) new_admission_ok by (simp add: service_ok_def crashed_def)
  from persist_ok(1) [OF assms(1) this] show ?thesis by (simp add: c)
qed

lemma empty_file_ok: "file_ok D None"
  using reach_start by (auto simp: file_ok_def load_file_def reload_def default_state_def bt_map_def)

lemma empty_disk_crashed: "empty_disk = crashed None empty_disk"
  by (simp add: empty_disk_def crashed_def)

lemma add_job_ok': "format_ok D \<Longrightarrow> service_ok D c \<Longrightarrow> service_ok D (snd (api_add_job D fault spec c))"
  unfolding api_add_job_def by (rule mutate_ok(1) [OF _ _ add_job_moves])

lemma served_ok: "served D c \<Longrightarrow> format_ok D \<Longrightarrow> service_ok D c"
proof (induction rule: served.induct)
  case (served_open p now fault c)
  then show ?case by (metis open_ok empty_disk_crashed empty_file_ok)
next
  case (served_crash c img p now fault c')
  then show ?case using service_okD(3) open_ok by metis
qed (simp_all add: add_job_ok' handle_ok(1))

section \<open>Helpers on mutations, admission and the budget\<close>

lemma lease_job_granted:
  assumes "state_ok st" and "lease K parse worker now st = (Inr spec, st')"
  obtains r e d where "bt_get (st_jobs st') (js_id spec) = Some r" "jr_spec r = spec"
    "jr_status r = Leased worker e d"
proof (cases rule: lease_cases [of st worker K parse now])
  case (granted w i r)
  then have "js_id (jr_spec r) = i"
    using jobs_okD(2) [OF state_okD(1) [OF polled_ok [OF assms(1)]] granted(4)] by (simp add: job_ok_def)
  with granted assms(2) show ?thesis
    by (intro that [of "grant (st_policy st) worker now r"]) (auto simp: grant_def)
qed (use assms in simp_all)

lemma on_disk_get:
  assumes "on_disk s m" and "bt_get (st_jobs m) i = Some r"
  obtains r' where "bt_get (st_jobs s) i = Some r'" "durable_job r' = durable_job r" "lease_lag r' r"
proof -
  have "bt_get (st_jobs (durable_part s)) i = bt_get (st_jobs (durable_part m)) i"
    using assms(1) by (simp add: on_disk_def)
  then have "map_option durable_job (bt_get (st_jobs s) i) = Some (durable_job r)"
    using assms(2) by (simp add: durable_part_def)
  then obtain r' where "bt_get (st_jobs s) i = Some r'" "durable_job r' = durable_job r" by auto
  moreover from this(1) have "lease_lag r' r" using assms by (auto simp: on_disk_def)
  ultimately show ?thesis by (rule that)
qed

lemma durable_job_keeps:
  assumes "durable_job r' = durable_job r"
  shows "jr_spec r' = jr_spec r" "jr_result r' = jr_result r"
    "durable_status (jr_status r') = durable_status (jr_status r)"
  using arg_cong [OF assms, of jr_spec] arg_cong [OF assms, of jr_result]
    arg_cong [OF assms, of jr_status] by (simp_all add: durable_job_def)

lemma on_disk_leased:
  assumes "on_disk s m" and "bt_get (st_jobs m) i = Some r" and "jr_status r = Leased w e d"
  shows "\<exists>r' e' d'. bt_get (st_jobs s) i = Some r' \<and> jr_spec r' = jr_spec r \<and> jr_status r' = Leased w e' d'"
proof -
  obtain r' where r': "bt_get (st_jobs s) i = Some r'" "durable_job r' = durable_job r"
    by (rule on_disk_get [OF assms(1,2)])
  note k = durable_job_keeps [OF r'(2)]
  have "\<exists>e' d'. jr_status r' = Leased w e' d'"
    using k(3) assms(3) by (cases "jr_status r'") auto
  with r'(1) k(1) show ?thesis by blast
qed

lemma persist_get:
  "bt_get (st_jobs (co_state (snd (persist D fault c)))) i =
     (if st_dirty (co_state c) then map_option note_persisted (bt_get (st_jobs (co_state c)) i)
      else bt_get (st_jobs (co_state c)) i)"
  by (simp add: persist_def take_dirty_def mark_dirty_def Let_def case_prod_unfold split: sum.splits)

lemma mutate_snd: "snd (mutate D fault f c) = snd (persist D fault (snd (f c)))"
  by (simp add: mutate_def Let_def case_prod_unfold)

lemma on_state_simps:
  "fst (on_state f c) = fst (f (co_state c))" "co_state (snd (on_state f c)) = snd (f (co_state c))"
  "co_admission (snd (on_state f c)) = co_admission c" "co_budget (snd (on_state f c)) = co_budget c"
  by (simp_all add: on_state_def Let_def case_prod_unfold)

lemma api_admit_state [simp]:
  "co_state (snd (api_admit who ts n c)) = co_state c"
  "co_budget (snd (api_admit who ts n c)) = co_budget c"
  by (simp_all add: api_admit_def Let_def case_prod_unfold)

lemma admitted_fst:
  "fst (admitted who ts n f c) =
     map_sum id (\<lambda>_. fst (f (co_state c))) (fst (api_admit who ts n c))"
  by (simp add: admitted_def Let_def case_prod_unfold on_state_simps split: sum.splits)

lemma admitted_snd:
  "co_admission (snd (admitted who ts n f c)) = co_admission (snd (api_admit who ts n c))"
  "co_budget (snd (admitted who ts n f c)) = co_budget c"
  "co_state (snd (admitted who ts n f c)) =
     (case fst (api_admit who ts n c) of Inl _ \<Rightarrow> co_state c | Inr _ \<Rightarrow> snd (f (co_state c)))"
  by (simp_all add: admitted_def Let_def case_prod_unfold on_state_simps split: sum.splits)

text \<open>A lease request that is answered with a job: the machine's lease was granted.\<close>

lemma lease_granted:
  assumes "re_body (fst (lease_handler D ev ts signature c)) = Job spec"
  obtains who c1 where "d_recover D (lease_digest (d_keccak D) ts) signature = Some who"
    "c1 = snd (admitted who ts (ev_inside_nanos ev)
       (lease (d_keccak D) (d_parse_payload D) who (ev_now ev)) c)"
    "snd (lease_handler D ev ts signature c) = snd (persist D (ev_fault ev) c1)"
    "lease (d_keccak D) (d_parse_payload D) who (ev_now ev) (co_state c) = (Inr spec, co_state c1)"
    "fst (persist D (ev_fault ev) c1) = Inr ()"
    "fst (api_admit who ts (ev_inside_nanos ev) c) = Inr ()" "bt_has (st_workers (co_state c)) who"
proof (cases "verify_signed (d_recover D) (ev_check_nanos ev) ts (lease_digest (d_keccak D) ts) signature")
  case (Inl e)
  then show ?thesis
    using assms by (auto simp: lease_handler_def verify_signed_def err_def split: if_splits option.splits)
next
  case (Inr who)
  let ?op = "lease (d_keccak D) (d_parse_payload D) who (ev_now ev)"
  let ?f = "admitted who ts (ev_inside_nanos ev) ?op"
  have res: "re_body (case fst (mutate D (ev_fault ev) ?f c) of
                Inl e \<Rightarrow> err 500 (PersistErr e)
              | Inr (Inl refusal) \<Rightarrow> refused_response refusal
              | Inr (Inr got) \<Rightarrow> lease_response (ev_now ev) got) = Job spec"
    using assms Inr by (simp add: lease_handler_def Let_def case_prod_unfold)
  have no_job: "re_body (refused_response x) \<noteq> Job spec" for x
    by (cases x) (simp_all add: err_def with_retry_after_def)
  have granted: "g = Inr spec" if "re_body (lease_response (ev_now ev) g) = Job spec" for g
    using that by (cases "(ev_now ev, g)" rule: lease_response.cases)
      (simp_all add: ok_def err_def too_many_def with_retry_after_def)
  obtain g where g: "fst (mutate D (ev_fault ev) ?f c) = Inr (Inr g)" and "g = Inr spec"
    using res no_job granted by (auto simp: err_def split: sum.splits)
  then have "fst (?f c) = Inr (Inr spec)" and p: "fst (persist D (ev_fault ev) (snd (?f c))) = Inr ()"
    by (auto simp: mutate_def Let_def case_prod_unfold map_sum_def split: sum.splits)
  then have adm: "fst (api_admit who ts (ev_inside_nanos ev) c) = Inr ()" "fst (?op (co_state c)) = Inr spec"
    by (auto simp: admitted_fst map_sum_def split: sum.splits)
  have "bt_has (st_workers (co_state c)) who"
    by (rule lease_cases [of "co_state c" who "d_keccak D" "d_parse_payload D" "ev_now ev"])
      (use adm(2) in \<open>simp_all add: bt_has_def\<close>)
  moreover from adm have "?op (co_state c) = (Inr spec, co_state (snd (?f c)))"
    by (simp add: admitted_snd prod_eq_iff)
  moreover have "d_recover D (lease_digest (d_keccak D) ts) signature = Some who"
    using Inr by (auto simp: verify_signed_def split: if_splits option.splits)
  moreover have "snd (lease_handler D ev ts signature c) = snd (persist D (ev_fault ev) (snd (?f c)))"
    using Inr by (simp add: lease_handler_def Let_def case_prod_unfold mutate_snd)
  ultimately show ?thesis using p adm(1) that by blast
qed

lemma persist_keeps [simp]:
  "co_admission (snd (persist D fault c)) = co_admission c"
  "co_budget (snd (persist D fault c)) = co_budget c"
  by (simp_all add: persist_def Let_def case_prod_unfold split: sum.splits)

lemma register_op_admission: "co_admission (snd (register_op w ts source now n c)) = co_admission c"
  by (simp add: register_op_def Let_def case_prod_unfold split: option.splits sum.splits prod.splits)

text \<open>The only use a request makes of the admission table: one \<open>admit\<close> at its own clock.\<close>

lemma api_admit_admission:
  "co_admission (snd (api_admit who ts n c)) \<in> {co_admission c, snd (admit who ts n (co_admission c))}"
  by (simp add: api_admit_def Let_def case_prod_unfold)

lemma handle_admission:
  "co_admission (snd (handle D ev req c)) \<in>
     insert (co_admission c) {snd (admit who ts (ev_inside_nanos ev) (co_admission c)) | who ts. True}"
proof (cases req)
  case (PostRegister att peer fwd)
  then show ?thesis
    by (auto simp: register_handler_def Let_def case_prod_unfold mutate_snd register_op_admission
        split: sum.splits)
next
  case (PostLease ts signature)
  then show ?thesis
    using api_admit_admission [of _ ts "ev_inside_nanos ev" c]
    by (auto simp: lease_handler_def Let_def case_prod_unfold mutate_snd admitted_snd split: sum.splits)
next
  case (PostHeartbeat job ts signature)
  then show ?thesis
    using api_admit_admission [of _ ts "ev_inside_nanos ev" c]
    by (auto simp: heartbeat_handler_def Let_def case_prod_unfold mutate_snd admitted_snd
        split: sum.splits)
next
  case (PostSubmit sub)
  then show ?thesis
    by (auto simp: submit_handler_def Let_def case_prod_unfold mutate_snd on_state_simps split: sum.splits)
qed simp

fun serve_all :: "'f deps \<Rightarrow> (env \<times> request) list \<Rightarrow> 'f coordinator \<Rightarrow> 'f coordinator" where
  "serve_all D [] c = c"
| "serve_all D ((ev, req) # reqs) c = serve_all D reqs (snd (handle D ev req c))"

lemma serve_all_remembers:
  "admission_ok (co_admission c) \<Longrightarrow> t \<in> seen_in (ad_per_key (co_admission c)) who \<Longrightarrow>
   \<forall>(ev, req) \<in> set reqs. sat_sub (ev_inside_nanos ev) WINDOW_PAST_NANOS \<le> t \<Longrightarrow>
   admission_ok (co_admission (serve_all D reqs c)) \<and>
   t \<in> seen_in (ad_per_key (co_admission (serve_all D reqs c))) who"
proof (induction D reqs c rule: serve_all.induct)
  case (2 D ev req reqs c)
  have "admission_ok (co_admission (snd (handle D ev req c)))"
    and "t \<in> seen_in (ad_per_key (co_admission (snd (handle D ev req c)))) who"
    using handle_admission [of D ev req c] "2.prems" admit_ok admit_remembers by fastforce+
  with 2 show ?case by simp
qed simp

section \<open>Properties\<close>

text \<open>A format that keeps the state itself, as the file's contents; a recovery that reads the signer
  off the length of the signature.\<close>

definition D0 :: "state deps" where
  "D0 = \<lparr>d_keccak = K0, d_recover = (\<lambda>_ s. Some (of_nat (length s))),
         d_parse_json = (\<lambda>_. Inr (JObj [(''schema'', JStr PROBE_SCHEMA)])),
         d_parse_probe = (\<lambda>_. Inr \<lparr>pr_schema = PROBE_SCHEMA, pr_backend = ''cpu'', pr_dtype = ''f32'',
           pr_os = [], pr_arch = [], pr_tokens_per_second = 7000, pr_self_repeat_identical = True\<rparr>),
         d_parse_payload = P0, d_ser = (\<lambda>st. st), d_de = (\<lambda>st. Some (reload st))\<rparr>"

lemma D0_format: "format_ok D0"
  by (simp add: format_ok_def D0_def)

definition sv0 :: "state coordinator" where
  "sv0 = \<lparr>co_state = default_state\<lparr>st_policy := ex_policy\<rparr>, co_disk = empty_disk,
          co_admission = new_admission, co_budget = new_budget\<rparr>"

lemma sv0_served: "served D0 sv0"
proof (rule served_open)
  have boot: "boot ex_policy 0 default_state = default_state\<lparr>st_policy := ex_policy\<rparr>"
    by (simp add: boot_def grace_live_leases_def revoke_out_of_policy_def default_state_def bt_map_def)
  show "open_with D0 ex_policy 0 NoFault empty_disk = Some (Inr sv0)"
    unfolding open_with_def load_def
    by (simp add: empty_disk_def load_file_def boot persist_def take_dirty_def sv0_def)
      (simp add: default_state_def)
qed

text \<open>C1: the service implements the machine.  Whatever requests, restarts and power losses come and
  wherever saves fail, the state in memory is a reachable state of the coordinator's machine, the
  state file can always be read back, and a restart from anything a power loss may have left in it
  is again a reachable state; the admission table keeps its invariant.\<close>

theorem service_refines_machine:
  assumes "format_ok D" and "served D c"
  shows "reachable (d_keccak D) (d_parse_payload D) (co_state c) \<and> admission_ok (co_admission c) \<and>
    (\<forall>img \<in> dk_after_crash (co_disk c). \<exists>st. load_file (d_de D) img = Some st \<and>
       (\<forall>p now. reachable (d_keccak D) (d_parse_payload D) (boot p now st)))"
  using served_ok [OF assms(2,1)] by (auto simp: service_ok_def file_ok_def)

theorem service_refines_machine_witness: "reachable K0 P0 (co_state sv0)"
  using service_refines_machine [OF D0_format sv0_served] by (simp add: D0_def)

text \<open>C3: what is acknowledged survives.  When a request that may change something is answered with
  success, everything a power loss may leave in the state file agrees with the state in memory on
  every job, result, penalty and identity, and on each lease to within one persistence step of its
  expiry; times of last contact apart.\<close>

theorem acknowledged_survives_crash:
  assumes "format_ok D" and "served D c" and "req \<noteq> GetStatus"
    and "re_code (fst (handle D ev req c)) < 300"
    and "img \<in> dk_after_crash (co_disk (snd (handle D ev req c)))"
  shows "\<exists>st. load_file (d_de D) img = Some st \<and> on_disk st (co_state (snd (handle D ev req c)))"
proof -
  note ok = handle_ok [OF assms(1) served_ok [OF assms(2,1)], of ev req]
  show ?thesis
    using service_okD(4) [OF ok(1) ok(2) [OF assms(4,3)] assms(5)] by (simp add: saved_def)
qed

definition ev0 :: env where
  "ev0 = \<lparr>ev_check_nanos = 5, ev_now = 1000, ev_inside_nanos = 6, ev_fault = NoFault\<rparr>"

definition att0 :: attestation where
  "att0 = \<lparr>at_probe_json = [], at_timestamp = 1, at_signature = [0, 0, 0, 0, 0]\<rparr>"

lemma persist_files:
  "dk_after_crash (co_disk c) \<noteq> {} \<Longrightarrow> dk_after_crash (co_disk (snd (persist D fault c))) \<noteq> {}"
  by (cases fault) (simp_all add: persist_def Let_def case_prod_unfold)

lemma sv0_registers:
  "re_code (fst (handle D0 ev0 (PostRegister att0 None None) sv0)) = 200"
  "dk_after_crash (co_disk (snd (handle D0 ev0 (PostRegister att0 None None) sv0))) \<noteq> {}"
proof -
  have att: "verify_attestation (d_keccak D0) (d_recover D0) (d_parse_json D0) (d_parse_probe D0) att0 =
      Inr \<lparr>rw_id = 5, rw_capability = Probe, rw_backend = ''cpu'', rw_dtype = ''f32'',
           rw_tokens_per_second = 7000\<rparr>"
    by (simp add: verify_attestation_def D0_def att0_def capability_of_def ACCELERATOR_TOK_S_def)
  have fresh: "fresh 1 5"
    by (simp add: fresh_def sat_add_def sat_sub_def LEASE_FRESHNESS_NANOS_def
        MAX_FUTURE_SKEW_NANOS_def)
  show "re_code (fst (handle D0 ev0 (PostRegister att0 None None) sv0)) = 200"
    "dk_after_crash (co_disk (snd (handle D0 ev0 (PostRegister att0 None None) sv0))) \<noteq> {}"
    using fresh
    by (simp_all add: register_handler_def att) (simp_all add: att0_def ev0_def sv0_def default_state_def
        mutate_def register_op_def registration_seen_def admits_new_def from_source_def try_take_def
        budget_refill_def new_budget_def NEW_REGISTRATION_BURST_def NEW_REGISTRATIONS_PER_HOUR_def
        sat_sub_def register_def make_room_for_source_def make_room_in_registry_def MAX_WORKERS_def
        note_registration_def persist_def take_dirty_def insert_worker_def ok_def Let_def empty_disk_def)
qed

theorem acknowledged_survives_crash_witness:
  "\<exists>img st. img \<in> dk_after_crash (co_disk (snd (handle D0 ev0 (PostRegister att0 None None) sv0))) \<and>
     load_file (d_de D0) img = Some st \<and>
     on_disk st (co_state (snd (handle D0 ev0 (PostRegister att0 None None) sv0)))"
proof -
  obtain img where img: "img \<in> dk_after_crash (co_disk (snd (handle D0 ev0 (PostRegister att0 None None) sv0)))"
    using sv0_registers(2) by blast
  have "re_code (fst (handle D0 ev0 (PostRegister att0 None None) sv0)) < 300"
    unfolding sv0_registers(1) by simp
  from acknowledged_survives_crash [OF D0_format sv0_served _ this img] img show ?thesis by auto
qed

text \<open>A granted job is leased on disk.  A lease request answered with a job has that job recorded,
  in everything a power loss may leave in the state file, as leased to the signer of the request.\<close>

theorem granted_lease_is_durable:
  assumes "format_ok D" and "service_ok D c"
    and "re_body (fst (handle D ev (PostLease ts signature) c)) = Job spec"
    and "img \<in> dk_after_crash (co_disk (snd (handle D ev (PostLease ts signature) c)))"
  shows "\<exists>who st r e d. d_recover D (lease_digest (d_keccak D) ts) signature = Some who \<and>
    load_file (d_de D) img = Some st \<and> bt_get (st_jobs st) (js_id spec) = Some r \<and>
    jr_spec r = spec \<and> jr_status r = Leased who e d"
proof -
  let ?K = "d_keccak D" and ?P = "d_parse_payload D"
  have "re_body (fst (lease_handler D ev ts signature c)) = Job spec" using assms(3) by simp
  from lease_granted [OF this] obtain who c1 where who: "d_recover D (lease_digest ?K ts) signature = Some who"
    and c1: "c1 = snd (admitted who ts (ev_inside_nanos ev) (lease ?K ?P who (ev_now ev)) c)"
    and c': "snd (lease_handler D ev ts signature c) = snd (persist D (ev_fault ev) c1)"
    and lease: "lease ?K ?P who (ev_now ev) (co_state c) = (Inr spec, co_state c1)"
    and fine: "fst (persist D (ev_fault ev) c1) = Inr ()" .
  note sok = reachable_ok [OF service_okD(1) [OF assms(2)]]
  obtain r0 e0 d0 where r0: "bt_get (st_jobs (co_state c1)) (js_id spec) = Some r0" "jr_spec r0 = spec"
    "jr_status r0 = Leased who e0 d0"
    using lease_job_granted [OF sok lease] by blast
  have ok1: "service_ok D c1"
    unfolding c1 by (rule moves_ok [OF admitted_moves [OF lease_moves] assms(2)])
  note p = persist_ok(1,2) [OF assms(1) ok1, of "ev_fault ev"]
  let ?m = "co_state (snd (persist D (ev_fault ev) c1))"
  obtain st where st: "load_file (d_de D) img = Some st" and od: "on_disk st ?m"
    using service_okD(4) [OF p(1) p(2) [OF fine], of img] assms(4) c' by (auto simp: saved_def)
  obtain r where "bt_get (st_jobs ?m) (js_id spec) = Some r" "jr_spec r = spec" "jr_status r = Leased who e0 d0"
    by (cases "st_dirty (co_state c1)") (use r0 in \<open>auto simp: persist_get\<close>)
  from on_disk_leased [OF od this(1,3)] this(2) who st show ?thesis by blast
qed

text \<open>The example: the machine's example state, not yet saved, on an empty disk.\<close>

definition sv1 :: "state coordinator" where
  "sv1 = \<lparr>co_state = ex_ready, co_disk = empty_disk, co_admission = new_admission,
          co_budget = new_budget\<rparr>"

lemma sv1_ok: "service_ok D0 sv1"
  using ex_ready_reachable new_admission_ok empty_file_ok
  by (simp add: service_ok_def sv1_def D0_def empty_disk_def ex_ready_eq)

lemma sv1_leases: "fst (handle D0 ev0 (PostLease 1 [0, 0, 0, 0, 0]) sv1) = ok (Job (new_job_spec ''low'' Probe JNull))"
proof -
  have "verify_signed (d_recover D0) 5 1 d [0, 0, 0, 0, 0] = Inr 5" for d
    by (simp add: verify_signed_def D0_def fresh_def sat_add_def sat_sub_def LEASE_FRESHNESS_NANOS_def
        MAX_FUTURE_SKEW_NANOS_def)
  moreover have "fst (api_admit 5 1 6 sv1) = Inr ()"
    by (simp add: api_admit_def sv1_def admit_first Let_def case_prod_unfold)
  moreover have "lease (d_keccak D0) (d_parse_payload D0) 5 1000 (co_state sv1) =
      (Inr (new_job_spec ''low'' Probe JNull), ex_leased)"
    by (simp add: ex_leased_def ex_lease D0_def sv1_def)
  moreover have "fst (persist D0 NoFault c) = Inr ()" for c
    by (simp add: persist_def Let_def case_prod_unfold)
  ultimately show ?thesis
    by (simp add: lease_handler_def ev0_def mutate_def Let_def case_prod_unfold admitted_fst)
qed

lemma api_admit_disk: "co_disk (snd (api_admit who ts n c)) = co_disk c"
  by (simp add: api_admit_def Let_def case_prod_unfold)

lemma sv1_files:
  "dk_after_crash (co_disk (snd (handle D0 ev0 (PostLease 1 [0, 0, 0, 0, 0]) sv1))) \<noteq> {}"
proof -
  have "verify_signed (d_recover D0) 5 1 d [0, 0, 0, 0, 0] = Inr 5" for d
    by (simp add: verify_signed_def D0_def fresh_def sat_add_def sat_sub_def LEASE_FRESHNESS_NANOS_def
        MAX_FUTURE_SKEW_NANOS_def)
  then show ?thesis
    by (simp add: lease_handler_def ev0_def mutate_def Let_def case_prod_unfold admitted_def
        split: sum.split) (intro conjI impI allI persist_files; simp add: api_admit_disk on_state_def case_prod_unfold Let_def sv1_def empty_disk_def)
qed

theorem granted_lease_is_durable_witness:
  "\<exists>img st r e d. img \<in> dk_after_crash (co_disk (snd (handle D0 ev0 (PostLease 1 [0, 0, 0, 0, 0]) sv1))) \<and>
     load_file (d_de D0) img = Some st \<and> bt_get (st_jobs st) ''low'' = Some r \<and> jr_status r = Leased 5 e d"
proof -
  obtain img where img: "img \<in> dk_after_crash (co_disk (snd (handle D0 ev0 (PostLease 1 [0, 0, 0, 0, 0]) sv1)))"
    using sv1_files by blast
  have "re_body (fst (handle D0 ev0 (PostLease 1 [0, 0, 0, 0, 0]) sv1)) =
      Job (new_job_spec ''low'' Probe JNull)"
    unfolding sv1_leases by (simp add: ok_def)
  from granted_lease_is_durable [OF D0_format sv1_ok this img] img
  show ?thesis by (auto simp: D0_def new_job_spec_def)
qed

text \<open>What a request with an already remembered time stamp gets.\<close>

lemma admitted_remembered:
  assumes "admission_ok (co_admission c)" and "ts \<in> seen_in (ad_per_key (co_admission c)) who"
    and "sat_sub n WINDOW_PAST_NANOS \<le> ts" and "bt_has (st_workers (co_state c)) who"
  shows "fst (api_admit who ts n c) = Inl Replay"
proof -
  have "ts \<in> seen_in (ad_per_key (prune n (co_admission c))) who"
    using assms by (simp add: prune_ok(3))
  then have "fst (admit who ts n (co_admission c)) = Inl Replay"
    by (cases rule: admit_cases [OF assms(1), of who ts n]) auto
  with assms(4) show ?thesis by (simp add: api_admit_def Let_def case_prod_unfold)
qed

lemma admit_then_remembered:
  assumes "admission_ok a" and "fst (admit who ts n a) = Inr ()"
  shows "ts \<in> seen_in (ad_per_key (snd (admit who ts n a))) who"
proof (cases rule: admit_cases [OF assms(1), of who ts n, case_names refused admitted])
  case (refused r)
  with assms(2) show ?thesis by simp
next
  case admitted
  show ?thesis unfolding admitted(3) by simp
qed

text \<open>Work is granted once per signed request.  After a lease request has been answered with a job,
  no request with the same signer and time stamp, under any valid signature, is granted work again
  while the stamp is inside the window of the clock that admission reads, whatever else the service
  handles in between.\<close>

theorem lease_request_granted_once:
  assumes "service_ok D c" and "re_body (fst (handle D ev (PostLease ts signature) c)) = Job spec"
    and "d_recover D (lease_digest (d_keccak D) ts) signature' =
           d_recover D (lease_digest (d_keccak D) ts) signature"
    and "\<forall>(ev1, req) \<in> set reqs. sat_sub (ev_inside_nanos ev1) WINDOW_PAST_NANOS \<le> ts"
    and "sat_sub (ev_inside_nanos ev') WINDOW_PAST_NANOS \<le> ts"
    and "c' = serve_all D reqs (snd (handle D ev (PostLease ts signature) c))"
  shows "re_body (fst (handle D ev' (PostLease ts signature') c')) \<noteq> Job spec'"
proof
  assume again: "re_body (fst (handle D ev' (PostLease ts signature') c')) = Job spec'"
  have "re_body (fst (lease_handler D ev ts signature c)) = Job spec" using assms(2) by simp
  from lease_granted [OF this] obtain who c1 where who: "d_recover D (lease_digest (d_keccak D) ts) signature = Some who"
    and c1: "c1 = snd (admitted who ts (ev_inside_nanos ev)
        (lease (d_keccak D) (d_parse_payload D) who (ev_now ev)) c)"
    and next_c: "snd (lease_handler D ev ts signature c) = snd (persist D (ev_fault ev) c1)"
    and first: "fst (api_admit who ts (ev_inside_nanos ev) c) = Inr ()"
    and reg: "bt_has (st_workers (co_state c)) who" .
  note aok = service_okD(2) [OF assms(1)]
  have a: "co_admission (snd (api_admit who ts (ev_inside_nanos ev) c)) =
      snd (admit who ts (ev_inside_nanos ev) (co_admission c))"
    and "fst (admit who ts (ev_inside_nanos ev) (co_admission c)) = Inr ()"
    using reg first by (simp_all add: api_admit_def Let_def case_prod_unfold)
  then have seen: "ts \<in> seen_in (ad_per_key (snd (admit who ts (ev_inside_nanos ev) (co_admission c)))) who"
    using admit_then_remembered [OF aok] by blast
  have later: "admission_ok (co_admission c') \<and> ts \<in> seen_in (ad_per_key (co_admission c')) who"
    unfolding assms(6)
    by (rule serve_all_remembers) (use admit_ok [OF aok] seen assms(4) next_c a in \<open>simp_all add: c1 admitted_snd\<close>)
  have "re_body (fst (lease_handler D ev' ts signature' c')) = Job spec'" using again by simp
  from lease_granted [OF this] obtain who' where
    who': "d_recover D (lease_digest (d_keccak D) ts) signature' = Some who'"
    and second: "fst (api_admit who' ts (ev_inside_nanos ev') c') = Inr ()"
    and reg': "bt_has (st_workers (co_state c')) who'" by blast
  have "who' = who" using who who' assms(3) by simp
  with admitted_remembered [of c' ts who "ev_inside_nanos ev'"] later assms(5) reg' second
  show False by simp
qed

theorem lease_request_granted_once_witness:
  "re_body (fst (handle D0 ev0 (PostLease 1 [1, 1, 1, 1, 1])
     (serve_all D0 [(ev0, GetStatus)] (snd (handle D0 ev0 (PostLease 1 [0, 0, 0, 0, 0]) sv1))))) \<noteq>
   Job (new_job_spec ''low'' Probe JNull)"
proof (rule lease_request_granted_once [OF sv1_ok _ _ _ _ refl])
  show "re_body (fst (handle D0 ev0 (PostLease 1 [0, 0, 0, 0, 0]) sv1)) = Job (new_job_spec ''low'' Probe JNull)"
    unfolding sv1_leases by (simp add: ok_def)
qed (simp_all add: D0_def ev0_def sat_sub_def WINDOW_PAST_NANOS_def LEASE_FRESHNESS_NANOS_def)

text \<open>The freshness check and the replay check read the clock separately.  A request that passes the
  freshness check and reaches admission after its time stamp has left the window is never refused as
  a replay, even straight after the same request was served: pruning has forgotten it.\<close>

theorem replay_check_reads_a_later_clock:
  assumes "service_ok D c" and "fresh ts (ev_check_nanos ev)"
    and "ts < sat_sub (ev_inside_nanos ev) WINDOW_PAST_NANOS"
  shows "re_body (fst (handle D ev (PostLease ts signature) c)) \<noteq> Err (Text ''request already used (replay)'')"
proof -
  have "fst (api_admit who ts (ev_inside_nanos ev) c) \<noteq> Inl Replay" for who
  proof -
    note aok = service_okD(2) [OF assms(1)]
    have "ts \<notin> seen_in (ad_per_key (prune (ev_inside_nanos ev) (co_admission c))) who"
      using assms(3) by (simp add: prune_ok(3) [OF aok] not_le)
    then have "fst (admit who ts (ev_inside_nanos ev) (co_admission c)) \<noteq> Inl Replay"
      by (cases rule: admit_cases [OF aok, of who ts "ev_inside_nanos ev"]) auto
    then show ?thesis by (simp add: api_admit_def Let_def case_prod_unfold)
  qed
  moreover have "r = Replay" if "re_body (refused_response r) = Err (Text ''request already used (replay)'')" for r
    using that by (cases r) (simp_all add: err_def with_retry_after_def)
  moreover have "re_body (lease_response n g) \<noteq> Err (Text t)" for n g t
    by (cases "(n, g)" rule: lease_response.cases)
      (simp_all add: ok_def err_def too_many_def with_retry_after_def)
  ultimately show ?thesis
    using assms(2)
    by (auto simp: lease_handler_def verify_signed_def err_def Let_def case_prod_unfold mutate_def
        admitted_fst map_sum_def split: option.splits sum.splits)
qed

theorem replay_check_reads_a_later_clock_witness:
  "re_body (fst (handle D0 (ev0\<lparr>ev_inside_nanos := 120000000002\<rparr>) (PostLease 1 [0, 0, 0, 0, 0])
     (snd (handle D0 ev0 (PostLease 1 [0, 0, 0, 0, 0]) sv1)))) \<noteq> Err (Text ''request already used (replay)'')"
  by (rule replay_check_reads_a_later_clock [OF handle_ok(1) [OF D0_format sv1_ok]])
    (simp_all add: ev0_def fresh_def sat_add_def sat_sub_def WINDOW_PAST_NANOS_def
      LEASE_FRESHNESS_NANOS_def MAX_FUTURE_SKEW_NANOS_def)

section \<open>The budget for new identities\<close>

fun budget_run :: "u64 list \<Rightarrow> registration_budget \<Rightarrow> bool list" where
  "budget_run [] b = []"
| "budget_run (t # ts) b = (let (taken, b1) = try_take t b in taken # budget_run ts b1)"

definition refill_start :: "u64 \<Rightarrow> registration_budget \<Rightarrow> u64" where
  "refill_start now b = (case rb_last_refill b of Some l \<Rightarrow> l | None \<Rightarrow> now)"

lemma budget_refill_accounts:
  fixes b now
  defines "l \<equiv> refill_start now b" and "b1 \<equiv> budget_refill now b"
  assumes "l \<le> now"
  shows "\<exists>l1. rb_last_refill b1 = Some l1 \<and> l1 \<le> now \<and> l \<le> l1 \<and>
    (\<forall>m \<ge> unat now. unat (rb_tokens b1) + (m - unat l1) div 60 \<le> unat (rb_tokens b) + (m - unat l) div 60)"
proof -
  let ?earned = "sat_sub now l div 60"
  have per: "(3600 :: u64) div NEW_REGISTRATIONS_PER_HOUR = 60"
    by (simp add: NEW_REGISTRATIONS_PER_HOUR_def)
  have le: "unat l \<le> unat now" using assms(3) by (simp add: word_le_nat_alt)
  have e: "unat ?earned = (unat now - unat l) div 60"
    by (simp add: unat_div unat_sat)
  have "unat ?earned * 60 \<le> unat now - unat l" unfolding e by simp
  moreover have lim: "unat now < 2 ^ 64" using unsigned_less [of now, where ?'a = nat] by simp
  ultimately have m60: "unat (?earned * 60) = unat ?earned * 60"
    by (subst unat_mult_lem [THEN iffD1]) simp_all
  show ?thesis
  proof (cases "?earned > 0")
    case False
    then have "b1 = b\<lparr>rb_last_refill := Some l\<rparr>"
      by (simp add: b1_def budget_refill_def per Let_def refill_start_def [symmetric] l_def)
    then show ?thesis using assms(3) by simp
  next
    case True
    let ?l1 = "sat_add l (?earned * 60)"
    have b1: "b1 = b\<lparr>rb_tokens := min (sat_add (rb_tokens b) ?earned) NEW_REGISTRATION_BURST,
        rb_last_refill := Some ?l1\<rparr>"
      using True by (simp add: b1_def budget_refill_def per Let_def refill_start_def [symmetric] l_def)
    have l1: "unat ?l1 = unat l + unat ?earned * 60"
      using le lim e by (simp add: unat_sat m60)
    have "unat (rb_tokens b1) \<le> unat (rb_tokens b) + unat ?earned"
      by (simp add: b1 min_def unat_sat word_le_nat_alt)
    moreover have "(m - unat ?l1) div 60 + unat ?earned = (m - unat l) div 60" if "m \<ge> unat now" for m
    proof -
      have "unat ?l1 \<le> m" using l1 e le that by simp
      then have "m - unat l = (m - unat ?l1) + unat ?earned * 60" using l1 by simp
      then show ?thesis by simp
    qed
    ultimately have "unat (rb_tokens b1) + (m - unat ?l1) div 60 \<le> unat (rb_tokens b) + (m - unat l) div 60"
      if "m \<ge> unat now" for m
      using that by fastforce
    moreover have "?l1 \<le> now" "l \<le> ?l1" using l1 e le by (simp_all add: word_le_nat_alt)
    ultimately show ?thesis by (auto simp: b1)
  qed
qed

lemma budget_run_bound:
  "sorted ts \<Longrightarrow> \<forall>t \<in> set ts. refill_start t b \<le> t \<and> unat t \<le> m \<Longrightarrow> ts \<noteq> [] \<Longrightarrow>
   length (filter (\<lambda>x. x) (budget_run ts b)) \<le> unat (rb_tokens b) + (m - unat (refill_start (hd ts) b)) div 60"
proof (induction ts arbitrary: b)
  case (Cons t ts)
  let ?b1 = "budget_refill t b" and ?b2 = "snd (try_take t b)"
  obtain l1 where l1: "rb_last_refill ?b1 = Some l1" "l1 \<le> t"
    "unat (rb_tokens ?b1) + (m - unat l1) div 60 \<le> unat (rb_tokens b) + (m - unat (refill_start t b)) div 60"
    using budget_refill_accounts [of t b] Cons.prems(2) by auto
  have pos: "Suc (unat x - Suc 0) = unat x" if "x \<noteq> 0" for x :: u64
    using that by (simp add: unat_gt_0)
  have b2: "rb_last_refill ?b2 = Some l1"
    "unat (rb_tokens ?b2) + (if fst (try_take t b) then 1 else 0) = unat (rb_tokens ?b1)"
    using l1(1) by (auto simp: try_take_def Let_def unat_minus_one pos)
  have start: "refill_start x ?b2 = l1" for x by (simp add: refill_start_def b2(1))
  have "length (filter (\<lambda>x. x) (budget_run ts ?b2)) \<le> unat (rb_tokens ?b2) + (m - unat l1) div 60"
  proof (cases "ts = []")
    case False
    have "l1 \<le> x" if "x \<in> set ts" for x using Cons.prems(1) that l1(2) order_trans by auto
    with Cons.IH [of ?b2] Cons.prems False show ?thesis by (simp add: start)
  qed simp
  with b2(2) l1(3) show ?case
    by (auto simp: case_prod_unfold split: if_splits)
qed simp

text \<open>Bounded growth of the registry.  Over any requests in order of time, no more new identities
  are admitted than the burst of thirty and one for each full minute since the first of them.\<close>

theorem registrations_are_bounded:
  assumes "sorted ts" and "ts \<noteq> []"
  shows "length (filter (\<lambda>x. x) (budget_run ts new_budget)) \<le> 30 + (unat (last ts) - unat (hd ts)) div 60"
proof -
  have "\<forall>t \<in> set ts. refill_start t new_budget \<le> t \<and> unat t \<le> unat (last ts)"
  proof
    fix t assume "t \<in> set ts"
    then have "t \<le> last ts" using assms by (induction ts) auto
    then show "refill_start t new_budget \<le> t \<and> unat t \<le> unat (last ts)"
      by (simp add: refill_start_def new_budget_def word_le_nat_alt)
  qed
  from budget_run_bound [OF assms(1) this assms(2)] show ?thesis
    by (simp add: refill_start_def new_budget_def NEW_REGISTRATION_BURST_def)
qed

theorem registrations_are_bounded_witness:
  "length (filter (\<lambda>x. x) (budget_run [100, 130, 400] new_budget)) \<le> 30 + (unat (400 :: u64) - unat (100 :: u64)) div 60"
  using registrations_are_bounded [of "[100, 130, 400]"] by simp

text \<open>Only an admissible newcomer spends the budget.  A request that changes the budget is a
  registration by a signer that is neither registered nor vouched for and whose source has room: a
  source at its cap cannot drain the budget, and members refreshing themselves spend nothing.\<close>

theorem budget_spent_by_newcomers_only:
  assumes "co_budget (snd (handle D ev req c)) \<noteq> co_budget c"
  shows "\<exists>att peer fwd w. req = PostRegister att peer fwd \<and>
    verify_attestation (d_keccak D) (d_recover D) (d_parse_json D) (d_parse_probe D) att = Inr w \<and>
    \<not> bt_has (st_workers (co_state c)) (rw_id w) \<and>
    \<not> is_trusted (st_policy (co_state c)) (rw_id w) \<and>
    admits_new (rw_id w) (source_of peer fwd) (ev_now ev) (co_state c) = Inr ()"
proof (cases req)
  case (PostRegister att peer fwd)
  then obtain w where w: "verify_attestation (d_keccak D) (d_recover D) (d_parse_json D)
      (d_parse_probe D) att = Inr w"
    and b: "co_budget (snd (register_op w (at_timestamp att) (source_of peer fwd) (ev_now ev)
      (ev_inside_nanos ev) c)) \<noteq> co_budget c"
    using assms by (auto simp: register_handler_def Let_def case_prod_unfold mutate_snd
        split: if_splits sum.splits)
  have "\<not> bt_has (st_workers (co_state c)) (rw_id w) \<and> \<not> is_trusted (st_policy (co_state c)) (rw_id w) \<and>
      admits_new (rw_id w) (source_of peer fwd) (ev_now ev) (co_state c) = Inr ()"
    using b by (auto simp: register_op_def bt_has_def Let_def case_prod_unfold
        split: option.splits sum.splits if_splits prod.splits)
  with PostRegister w show ?thesis by blast
qed (use assms in \<open>auto simp: lease_handler_def heartbeat_handler_def submit_handler_def Let_def
      case_prod_unfold mutate_snd admitted_snd on_state_simps split: sum.splits\<close>)

lemma sv0_spends: "co_budget (snd (handle D0 ev0 (PostRegister att0 None None) sv0)) \<noteq> co_budget sv0"
proof -
  have att: "verify_attestation (d_keccak D0) (d_recover D0) (d_parse_json D0) (d_parse_probe D0) att0 =
      Inr \<lparr>rw_id = 5, rw_capability = Probe, rw_backend = ''cpu'', rw_dtype = ''f32'',
           rw_tokens_per_second = 7000\<rparr>"
    by (simp add: verify_attestation_def D0_def att0_def capability_of_def ACCELERATOR_TOK_S_def)
  have fresh: "fresh 1 5"
    by (simp add: fresh_def sat_add_def sat_sub_def LEASE_FRESHNESS_NANOS_def MAX_FUTURE_SKEW_NANOS_def)
  have budget: "try_take 1000 new_budget = (True, \<lparr>rb_tokens = 29, rb_last_refill = Some 1000\<rparr>)"
    by (simp add: try_take_def budget_refill_def new_budget_def NEW_REGISTRATION_BURST_def
        NEW_REGISTRATIONS_PER_HOUR_def sat_sub_def)
  have "co_budget (snd (register_op w ts src 1000 n sv0)) = \<lparr>rb_tokens = 29, rb_last_refill = Some 1000\<rparr>"
    if "rw_id w = 5" for w ts src n
    using that
    by (simp add: register_op_def sv0_def default_state_def registration_seen_def budget
        admits_new_def from_source_def Let_def case_prod_unfold split: sum.splits prod.splits)
  with fresh show ?thesis
    by (simp add: register_handler_def att)
      (simp add: att0_def ev0_def mutate_snd Let_def case_prod_unfold sv0_def new_budget_def)
qed

theorem budget_spent_by_newcomers_only_witness:
  "\<exists>w :: registered_worker. \<not> bt_has (st_workers (co_state sv0)) (rw_id w) \<and>
     admits_new (rw_id w) (source_of None None) 1000 (co_state sv0) = Inr ()"
proof -
  from budget_spent_by_newcomers_only [OF sv0_spends] obtain att peer fwd
      and w :: registered_worker where
    eq: "PostRegister att0 None None = PostRegister att peer fwd"
    and w: "\<not> bt_has (st_workers (co_state sv0)) (rw_id w)"
      "admits_new (rw_id w) (source_of peer fwd) (ev_now ev0) (co_state sv0) = Inr ()"
    by (elim exE conjE)
  from eq have "peer = None" "fwd = None" by simp_all
  with w show ?thesis by (intro exI [of _ w]) (simp add: ev0_def)
qed

end
