(* ===== verification/Fl_Hex.thy ===== *)
theory Fl_Hex
  imports Text_Format
begin

text \<open>
  Byte arrays as text, \<^verbatim>\<open>hex0x\<close> and \<^verbatim>\<open>parse_hex\<close> of \<^verbatim>\<open>training-worker/src/fl/mod.rs\<close>, over the
  encoder and decoder of the \<^verbatim>\<open>hex\<close> crate.  The crate is the record \<open>codec\<close>; what the code relies
  on is the locale \<open>hex_codec\<close>, and the lowercase codec of \<open>Text_Format\<close> is an instance.
\<close>

record codec =
  hx_encode :: "bytes \<Rightarrow> string"
  hx_decode :: "string \<Rightarrow> bytes option"

datatype hex_error =
    NotHex string
  | HexLength string nat nat

definition hex0x :: "codec \<Rightarrow> bytes \<Rightarrow> string" where
  "hex0x H bs = ''0x'' @ hx_encode H bs"

definition parse_hex :: "codec \<Rightarrow> nat \<Rightarrow> string \<Rightarrow> hex_error + bytes" where
  "parse_hex H n s =
     (let h = trim s;
          h = (case strip_prefix ''0x'' h of Some r \<Rightarrow> r | None \<Rightarrow> h)
      in case hx_decode H h of
           None \<Rightarrow> Inl (NotHex s)
         | Some v \<Rightarrow> if length v = n then Inr v else Inl (HexLength s (length v) n))"

text \<open>\<^verbatim>\<open>trim_start_matches("0x")\<close> removes the prefix as often as it is there.\<close>

fun trim_0x :: "string \<Rightarrow> string" where
  "trim_0x (CHR ''0'' # CHR ''x'' # s) = trim_0x s"
| "trim_0x s = s"

lemma dropWhile_none: "(\<And>x. x \<in> set xs \<Longrightarrow> \<not> P x) \<Longrightarrow> dropWhile P xs = xs"
  by (cases xs) auto

lemma trim_none:
  assumes "\<And>c. c \<in> set s \<Longrightarrow> \<not> is_ascii_space c"
  shows "trim s = s"
proof -
  have "dropWhile is_ascii_space s = s" "dropWhile is_ascii_space (rev s) = rev s"
    by (rule dropWhile_none, rule assms, simp)+
  then show ?thesis by (simp add: trim_def)
qed

text \<open>The documented behaviour of the crate: decoding inverts encoding, and an encoding is made of
  hexadecimal digits.\<close>

locale hex_codec =
  fixes H :: codec
  assumes decode_encode: "hx_decode H (hx_encode H bs) = Some bs"
    and digits: "c \<in> set (hx_encode H bs) \<Longrightarrow> to_digit 16 c \<noteq> None"
begin

lemma no_space: "c \<in> set (hx_encode H bs) \<Longrightarrow> \<not> is_ascii_space c"
  using digits [of c bs] by (auto simp: is_ascii_space_def to_digit_def Let_def split: if_splits)

lemma parse_hex0x: "parse_hex H n (hex0x H bs) = (if length bs = n then Inr bs else Inl (HexLength (hex0x H bs) (length bs) n))"
proof -
  have "trim (hex0x H bs) = hex0x H bs"
    by (rule trim_none) (auto simp: hex0x_def is_ascii_space_def dest: no_space [unfolded is_ascii_space_def])
  then show ?thesis
    by (simp add: parse_hex_def Let_def strip_prefix_def hex0x_def decode_encode)
qed

lemma parse_word: "length bs = n \<Longrightarrow> parse_hex H n (hex0x H bs) = Inr bs"
  by (simp add: parse_hex0x)

lemma trim_encode: "trim_0x (hx_encode H bs) = hx_encode H bs"
proof (cases "hx_encode H bs" rule: trim_0x.cases)
  case (1 s)
  then have "CHR ''x'' \<in> set (hx_encode H bs)" by simp
  from digits [OF this] show ?thesis by (simp add: to_digit_def)
qed auto

lemma trim_hex0x: "trim_0x (hex0x H bs) = hx_encode H bs"
  by (simp add: hex0x_def trim_encode)

end

definition lower_hex :: codec where
  "lower_hex = \<lparr>hx_encode = hex_encode, hx_decode = hex_decode\<rparr>"

lemma hex_encode_digit: "c \<in> set (hex_encode bs) \<Longrightarrow> to_digit 16 c \<noteq> None"
proof (induction bs)
  case (Cons b bs)
  have "unat b < 256" using unsigned_less [of b, where ?'a = nat] by simp
  then have "to_digit 16 (digit_char (unat b div 16)) \<noteq> None" "to_digit 16 (digit_char (unat b mod 16)) \<noteq> None"
    by (simp_all add: less_mult_imp_div_less)
  with Cons show ?case by (auto simp: hex_encode_def hex_byte_def)
qed (simp add: hex_encode_def)

interpretation lower: hex_codec lower_hex
  by unfold_locales (simp_all add: lower_hex_def hex_decode_encode hex_encode_digit)

end
