(* ===== verification/Fl_Gguf.thy ===== *)
theory Fl_Gguf
  imports Text_Format
begin

text \<open>
  Reading and writing GGUF adapters, \<^verbatim>\<open>training-worker/src/fl/gguf.rs\<close>.  A file is its bytes; a
  cursor is what remains of them.  An \<^verbatim>\<open>f32\<close> or \<^verbatim>\<open>f64\<close> is its bit pattern, a signed integer its
  two's complement word.

  \<open>reads p xs v\<close> says that the parser \<open>p\<close> takes exactly \<open>xs\<close> off the front of any input and returns
  \<open>v\<close>; its composition rules carry the round trips.
\<close>

type_synonym f32 = u32

datatype gguf_error =
    BadMagic
  | Version u32
  | Bounds string
  | ValueType u32
  | Utf8
  | TensorType string u32
  | TensorBounds string
  | Misaligned string
  | Duplicate string
  | Invalid string

section \<open>Constants and data\<close>

definition GGUF_MAGIC :: bytes where "GGUF_MAGIC = str_bytes ''GGUF''"
definition DEFAULT_ALIGNMENT :: u64 where "DEFAULT_ALIGNMENT = 32"
definition MAX_STRING :: u64 where "MAX_STRING = 2 ^ 20"
definition MAX_ARRAY :: u64 where "MAX_ARRAY = 2 ^ 24"
definition MAX_KV :: u64 where "MAX_KV = 2 ^ 16"
definition MAX_TENSORS :: u64 where "MAX_TENSORS = 2 ^ 20"
definition MAX_DIMS :: u32 where "MAX_DIMS = 4"
definition MAX_DEPTH :: nat where "MAX_DEPTH = 4"

definition GGML_TYPE_F32 :: u32 where "GGML_TYPE_F32 = 0"
definition GGML_TYPE_F16 :: u32 where "GGML_TYPE_F16 = 1"
definition GGML_TYPE_BF16 :: u32 where "GGML_TYPE_BF16 = 30"

datatype gvalue =
    GU8 u8
  | GI8 u8
  | GU16 u16
  | GI16 u16
  | GU32 u32
  | GI32 u32
  | GF32 f32
  | GBool bool
  | GStr string
  | GArray u32 "gvalue list"
  | GU64 u64
  | GI64 u64
  | GF64 u64

fun type_id :: "gvalue \<Rightarrow> u32" where
  "type_id (GU8 _) = 0"
| "type_id (GI8 _) = 1"
| "type_id (GU16 _) = 2"
| "type_id (GI16 _) = 3"
| "type_id (GU32 _) = 4"
| "type_id (GI32 _) = 5"
| "type_id (GF32 _) = 6"
| "type_id (GBool _) = 7"
| "type_id (GStr _) = 8"
| "type_id (GArray _ _) = 9"
| "type_id (GU64 _) = 10"
| "type_id (GI64 _) = 11"
| "type_id (GF64 _) = 12"

fun value_as_str :: "gvalue \<Rightarrow> string option" where
  "value_as_str (GStr s) = Some s"
| "value_as_str _ = None"

record tensor_info =
  ti_name :: string
  ti_dims :: "u64 list"
  ti_type :: u32
  ti_offset :: u64

record gguf =
  gg_version :: u32
  gg_kv :: "(string \<times> gvalue) list"
  gg_tensors :: "tensor_info list"
  gg_alignment :: u64
  gg_data_offset :: u64
  gg_file_len :: u64

fun checked_product :: "u64 \<Rightarrow> u64 list \<Rightarrow> u64 option" where
  "checked_product a [] = Some a"
| "checked_product a (d # ds) = Option.bind (checked_mul a d) (\<lambda>a. checked_product a ds)"

definition elements :: "tensor_info \<Rightarrow> u64 option" where
  "elements t = checked_product 1 (ti_dims t)"

definition byte_len :: "tensor_info \<Rightarrow> u64 option" where
  "byte_len t =
     (if ti_type t = GGML_TYPE_F32 then Option.bind (elements t) (\<lambda>n. checked_mul n 4)
      else if ti_type t = GGML_TYPE_F16 \<or> ti_type t = GGML_TYPE_BF16
      then Option.bind (elements t) (\<lambda>n. checked_mul n 2)
      else None)"

definition gguf_get :: "string \<Rightarrow> gguf \<Rightarrow> gvalue option" where
  "gguf_get key g = map_of (gg_kv g) key"

definition gguf_tensor :: "string \<Rightarrow> gguf \<Rightarrow> tensor_info option" where
  "gguf_tensor name g = find (\<lambda>t. ti_name t = name) (gg_tensors g)"

definition is_lora_adapter :: "gguf \<Rightarrow> bool" where
  "is_lora_adapter g \<longleftrightarrow>
     Option.bind (gguf_get ''general.type'' g) value_as_str = Some ''adapter'' \<and>
     Option.bind (gguf_get ''adapter.type'' g) value_as_str = Some ''lora''"

section \<open>The cursor\<close>

type_synonym 'a reader = "bytes \<Rightarrow> gguf_error + 'a \<times> bytes"

definition rret :: "'a \<Rightarrow> 'a reader" where
  "rret v bs = Inr (v, bs)"

definition rfail :: "gguf_error \<Rightarrow> 'a reader" where
  "rfail e bs = Inl e"

definition rbind :: "'a reader \<Rightarrow> ('a \<Rightarrow> 'b reader) \<Rightarrow> 'b reader" where
  "rbind p f bs = (case p bs of Inl e \<Rightarrow> Inl e | Inr (v, rest) \<Rightarrow> f v rest)"

definition rmap :: "('a \<Rightarrow> 'b) \<Rightarrow> 'a reader \<Rightarrow> 'b reader" where
  "rmap f p = rbind p (\<lambda>v. rret (f v))"

definition rd_take :: "nat \<Rightarrow> string \<Rightarrow> bytes reader" where
  "rd_take n what bs = (if n > length bs then Inl (Bounds what) else Inr (take n bs, drop n bs))"

definition rd_u8 :: "string \<Rightarrow> u8 reader" where "rd_u8 what = rmap from_le_bytes (rd_take 1 what)"
definition rd_u16 :: "string \<Rightarrow> u16 reader" where "rd_u16 what = rmap from_le_bytes (rd_take 2 what)"
definition rd_u32 :: "string \<Rightarrow> u32 reader" where "rd_u32 what = rmap from_le_bytes (rd_take 4 what)"
definition rd_u64 :: "string \<Rightarrow> u64 reader" where "rd_u64 what = rmap from_le_bytes (rd_take 8 what)"

definition rd_string :: "string \<Rightarrow> string reader" where
  "rd_string what =
     rbind (rd_u64 what) (\<lambda>n.
       if n > MAX_STRING then rfail (Bounds what)
       else rbind (rd_take (unat n) what) (\<lambda>bs.
         if valid_utf8 bs then rret (map byte_char bs) else rfail Utf8))"

text \<open>A counted loop of the reader.\<close>

primrec rd_times :: "nat \<Rightarrow> 'a reader \<Rightarrow> 'a list reader" where
  "rd_times 0 p = rret []"
| "rd_times (Suc n) p = rbind p (\<lambda>v. rmap (\<lambda>vs. v # vs) (rd_times n p))"

definition rd_scalar :: "u32 \<Rightarrow> gvalue reader" where
  "rd_scalar ty =
     (if ty = 0 then rmap GU8 (rd_u8 ''u8'')
      else if ty = 1 then rmap GI8 (rd_u8 ''i8'')
      else if ty = 2 then rmap GU16 (rd_u16 ''u16'')
      else if ty = 3 then rmap GI16 (rd_u16 ''i16'')
      else if ty = 4 then rmap GU32 (rd_u32 ''u32'')
      else if ty = 5 then rmap GI32 (rd_u32 ''i32'')
      else if ty = 6 then rmap GF32 (rd_u32 ''f32'')
      else if ty = 7 then rmap (\<lambda>b. GBool (b \<noteq> 0)) (rd_u8 ''bool'')
      else if ty = 8 then rmap GStr (rd_string ''string value'')
      else if ty = 10 then rmap GU64 (rd_u64 ''u64'')
      else if ty = 11 then rmap GI64 (rd_u64 ''i64'')
      else if ty = 12 then rmap GF64 (rd_u64 ''f64'')
      else rfail (ValueType ty))"

text \<open>\<open>rd_value k ty\<close> is the method \<open>value\<close> at depth \<open>MAX_DEPTH - k\<close>.\<close>

definition rd_remaining :: "nat reader" where
  "rd_remaining bs = Inr (length bs, bs)"

primrec rd_value :: "nat \<Rightarrow> u32 \<Rightarrow> gvalue reader" where
  "rd_value 0 ty = (if ty = 9 then rfail (Bounds ''array nesting'') else rd_scalar ty)"
| "rd_value (Suc k) ty =
     (if ty = 9 then
        rbind (rd_u32 ''array type'') (\<lambda>ety.
        rbind (rd_u64 ''array length'') (\<lambda>n.
        rbind rd_remaining (\<lambda>left.
          if n > MAX_ARRAY \<or> unat n > left then rfail (Bounds ''array length'')
          else rmap (GArray ety) (rd_times (unat n) (rd_value k ety)))))
      else rd_scalar ty)"

definition rd_kv :: "(string \<times> gvalue) reader" where
  "rd_kv =
     rbind (rd_string ''key'') (\<lambda>key.
     rbind (rd_u32 ''value type'') (\<lambda>ty.
       rmap (\<lambda>v. (key, v)) (rd_value MAX_DEPTH ty)))"

definition rd_tensor :: "tensor_info reader" where
  "rd_tensor =
     rbind (rd_string ''tensor name'') (\<lambda>name.
     rbind (rd_u32 ''tensor dims'') (\<lambda>nd.
       if nd = 0 \<or> nd > MAX_DIMS then rfail (Bounds ''tensor dims'')
       else
         rbind (rd_times (unat nd) (rd_u64 ''tensor dim'')) (\<lambda>dims.
         rbind (rd_u32 ''tensor type'') (\<lambda>ty.
         rbind (rd_u64 ''tensor offset'') (\<lambda>offset.
           rret \<lparr>ti_name = name, ti_dims = dims, ti_type = ty, ti_offset = offset\<rparr>)))))"

text \<open>The tensor table: the names already seen are checked as each entry is read.\<close>

primrec rd_tensors :: "nat \<Rightarrow> string set \<Rightarrow> tensor_info list reader" where
  "rd_tensors 0 names = rret []"
| "rd_tensors (Suc n) names =
     rbind rd_tensor (\<lambda>t.
       if ti_name t \<in> names then rfail (Duplicate (ti_name t))
       else rmap (\<lambda>ts. t # ts) (rd_tensors n (insert (ti_name t) names)))"

definition is_power_of_two :: "u32 \<Rightarrow> bool" where
  "is_power_of_two a \<longleftrightarrow> a \<noteq> 0 \<and> and a (a - 1) = 0"

definition alignment_of :: "(string \<times> gvalue) list \<Rightarrow> gguf_error + u64" where
  "alignment_of kv =
     (case map_of kv ''general.alignment'' of
        Some (GU32 a) \<Rightarrow>
          if a > 0 \<and> is_power_of_two a then Inr (ucast a)
          else Inl (Invalid ''general.alignment is invalid'')
      | Some _ \<Rightarrow> Inl (Invalid ''general.alignment is invalid'')
      | None \<Rightarrow> Inr DEFAULT_ALIGNMENT)"

definition align_up :: "u64 \<Rightarrow> u64 \<Rightarrow> u64" where
  "align_up n alignment = div_ceil n alignment * alignment"

text \<open>What follows the tensor table: the checks on the whole header.  \<open>len\<close> is the file's length,
  \<open>pos\<close> how much of it the header took.\<close>

definition finish_header ::
  "u32 \<Rightarrow> (string \<times> gvalue) list \<Rightarrow> tensor_info list \<Rightarrow> nat \<Rightarrow> nat \<Rightarrow> gguf_error + gguf" where
  "finish_header version kv tensors pos len =
     (case alignment_of kv of
        Inl e \<Rightarrow> Inl e
      | Inr alignment \<Rightarrow>
          let data_offset = align_up (of_nat pos) alignment in
          if data_offset > of_nat len then Inl (Bounds ''data section'')
          else
            case filter (\<lambda>t. ti_offset t mod alignment \<noteq> 0) tensors of
              t # _ \<Rightarrow> Inl (Misaligned (ti_name t))
            | [] \<Rightarrow>
                Inr \<lparr>gg_version = version, gg_kv = kv, gg_tensors = tensors, gg_alignment = alignment,
                     gg_data_offset = data_offset, gg_file_len = of_nat len\<rparr>)"

definition rd_header :: "(u32 \<times> (string \<times> gvalue) list \<times> tensor_info list) reader" where
  "rd_header =
     rbind (rd_take 4 ''magic'') (\<lambda>magic.
       if magic \<noteq> GGUF_MAGIC then rfail BadMagic
       else
         rbind (rd_u32 ''version'') (\<lambda>version.
           if version \<noteq> 2 \<and> version \<noteq> 3 then rfail (Version version)
           else
             rbind (rd_u64 ''tensor count'') (\<lambda>n_tensors.
             rbind (rd_u64 ''kv count'') (\<lambda>n_kv.
               if n_tensors > MAX_TENSORS then rfail (Bounds ''tensor count'')
               else if n_kv > MAX_KV then rfail (Bounds ''kv count'')
               else
                 rbind (rd_times (unat n_kv) rd_kv) (\<lambda>kv.
                 rbind (rd_tensors (unat n_tensors) {}) (\<lambda>tensors.
                   rret (version, kv, tensors)))))))"

definition read_header :: "bytes \<Rightarrow> gguf_error + gguf" where
  "read_header bs =
     (case rd_header bs of
        Inl e \<Rightarrow> Inl e
      | Inr ((version, kv, tensors), rest) \<Rightarrow>
          finish_header version kv tensors (length bs - length rest) (length bs))"

section \<open>Tensor values\<close>

text \<open>The loop that normalises a subnormal mantissa: \<open>e\<close> is the exponent as an \<^verbatim>\<open>i32\<close>.  Eleven
  rounds are enough: a nonzero mantissa of ten bits reaches bit ten in at most ten doublings.\<close>

fun normalise :: "nat \<Rightarrow> u32 \<Rightarrow> int \<Rightarrow> u32 \<times> int" where
  "normalise 0 m e = (m, e)"
| "normalise (Suc fuel) m e =
     (if and m 0x400 = 0 then normalise fuel (push_bit 1 m) (e - 1) else (m, e))"

definition f16_to_f32 :: "u16 \<Rightarrow> f32" where
  "f16_to_f32 h =
     (let sign = push_bit 31 (ucast (drop_bit 15 h) :: u32);
          exp = (ucast (and (drop_bit 10 h) 0x1f) :: u32);
          man = (ucast (and h 0x3ff) :: u32)
      in if exp = 0 then
           (if man = 0 then sign
            else
              let (m, e) = normalise 11 man (- 14)
              in or (or sign (push_bit 23 (of_int (e + 127)))) (push_bit 13 (and m 0x3ff)))
         else if exp = 0x1f then
           (if man = 0 then or sign 0x7f800000
            else or (or (or sign 0x7f800000) (push_bit 13 man)) 0x00400000)
         else or (or sign (push_bit 23 (exp + 112))) (push_bit 13 man))"

definition bf16_to_f32 :: "u16 \<Rightarrow> f32" where
  "bf16_to_f32 h = push_bit 16 (ucast h)"

definition decode_values :: "u32 \<Rightarrow> bytes \<Rightarrow> f32 list" where
  "decode_values ty buf =
     (if ty = GGML_TYPE_F32 then map from_le_bytes (as_chunks 4 buf)
      else if ty = GGML_TYPE_F16 then map (\<lambda>c. f16_to_f32 (from_le_bytes c)) (as_chunks 2 buf)
      else map (\<lambda>c. bf16_to_f32 (from_le_bytes c)) (as_chunks 2 buf))"

definition read_tensor_f32 :: "bytes \<Rightarrow> gguf \<Rightarrow> tensor_info \<Rightarrow> gguf_error + f32 list" where
  "read_tensor_f32 file_bytes g t =
     (case byte_len t of
        None \<Rightarrow> Inl (TensorType (ti_name t) (ti_type t))
      | Some n \<Rightarrow>
          (case checked_add (gg_data_offset g) (ti_offset t) of
             None \<Rightarrow> Inl (TensorBounds (ti_name t))
           | Some start \<Rightarrow>
               (case checked_add start n of
                  None \<Rightarrow> Inl (TensorBounds (ti_name t))
                | Some stop \<Rightarrow>
                    if stop > gg_file_len g then Inl (TensorBounds (ti_name t))
                    else Inr (decode_values (ti_type t) (take (unat n) (drop (unat start) file_bytes))))))"

section \<open>Adapters\<close>

record adapter =
  ad_header :: gguf
  ad_values :: "f32 list list"

text \<open>\<^verbatim>\<open>Adapter::load\<close> on the bytes of the file (the first error text names the path too).\<close>

fun load_tensors :: "bytes \<Rightarrow> gguf \<Rightarrow> tensor_info list \<Rightarrow> gguf_error + f32 list list" where
  "load_tensors bs g [] = Inr []"
| "load_tensors bs g (t # ts) =
     (if strip_suffix ''.lora_a'' (ti_name t) = None \<and> strip_suffix ''.lora_b'' (ti_name t) = None
      then Inl (Invalid (ti_name t))
      else
        case read_tensor_f32 bs g t of
          Inl e \<Rightarrow> Inl e
        | Inr vs \<Rightarrow> map_sum id (\<lambda>vss. vs # vss) (load_tensors bs g ts))"

definition load_adapter :: "bytes \<Rightarrow> gguf_error + adapter" where
  "load_adapter bs =
     (case read_header bs of
        Inl e \<Rightarrow> Inl e
      | Inr g \<Rightarrow>
          if \<not> is_lora_adapter g then Inl (Invalid ''is not a LoRA adapter'')
          else map_sum id (\<lambda>vss. \<lparr>ad_header = g, ad_values = vss\<rparr>) (load_tensors bs g (gg_tensors g)))"

section \<open>Writing\<close>

definition put_str :: "string \<Rightarrow> bytes" where
  "put_str s = to_le_bytes (of_nat (length s) :: u64) @ str_bytes s"

fun put_value :: "gvalue \<Rightarrow> bytes" where
  "put_value (GU8 x) = [x]"
| "put_value (GI8 x) = to_le_bytes x"
| "put_value (GU16 x) = to_le_bytes x"
| "put_value (GI16 x) = to_le_bytes x"
| "put_value (GU32 x) = to_le_bytes x"
| "put_value (GI32 x) = to_le_bytes x"
| "put_value (GF32 x) = to_le_bytes x"
| "put_value (GBool x) = [if x then 1 else 0]"
| "put_value (GStr s) = put_str s"
| "put_value (GArray ety items) =
     to_le_bytes ety @ to_le_bytes (of_nat (length items) :: u64) @ concat (map put_value items)"
| "put_value (GU64 x) = to_le_bytes x"
| "put_value (GI64 x) = to_le_bytes x"
| "put_value (GF64 x) = to_le_bytes x"

record out_tensor =
  ot_name :: string
  ot_dims :: "u64 list"
  ot_values :: "f32 list"

definition put_kv :: "string \<times> gvalue \<Rightarrow> bytes" where
  "put_kv e = put_str (fst e) @ to_le_bytes (type_id (snd e)) @ put_value (snd e)"

definition put_tensor :: "out_tensor \<Rightarrow> u64 \<Rightarrow> bytes" where
  "put_tensor t offset =
     put_str (ot_name t) @ to_le_bytes (of_nat (length (ot_dims t)) :: u32) @
     concat (map to_le_bytes (ot_dims t)) @ to_le_bytes GGML_TYPE_F32 @ to_le_bytes offset"

text \<open>The loop over the tensor table: the bytes written and the offset given to each tensor.  The
  product of the dimensions and the offsets are \<^verbatim>\<open>u64\<close>s, computed with wrap-around.\<close>

fun put_table :: "u64 \<Rightarrow> u64 \<Rightarrow> out_tensor list \<Rightarrow> gguf_error + bytes \<times> u64 list" where
  "put_table alignment offset [] = Inr ([], [])"
| "put_table alignment offset (t # ts) =
     (let n = foldl (*) 1 (ot_dims t) in
      if n \<noteq> of_nat (length (ot_values t)) then Inl (Invalid (ot_name t))
      else
        case put_table alignment (align_up (offset + n * 4) alignment) ts of
          Inl e \<Rightarrow> Inl e
        | Inr (bs, offs) \<Rightarrow> Inr (put_tensor t offset @ bs, offset # offs))"

definition resize :: "nat \<Rightarrow> bytes \<Rightarrow> bytes" where
  "resize n bs = take n bs @ replicate (n - length bs) 0"

fun put_data :: "u64 \<Rightarrow> (out_tensor \<times> u64) list \<Rightarrow> bytes \<Rightarrow> bytes" where
  "put_data data_start [] out = out"
| "put_data data_start ((t, off) # rest) out =
     put_data data_start rest
       (resize (unat (data_start + off)) out @ concat (map to_le_bytes (ot_values t)))"

definition encode_f32 :: "(string \<times> gvalue) list \<Rightarrow> out_tensor list \<Rightarrow> gguf_error + bytes" where
  "encode_f32 kv tensors =
     (case alignment_of kv of
        Inl e \<Rightarrow> Inl e
      | Inr alignment \<Rightarrow>
          (case put_table alignment 0 tensors of
             Inl e \<Rightarrow> Inl e
           | Inr (table, offsets) \<Rightarrow>
               let out = GGUF_MAGIC @ to_le_bytes (3 :: u32) @
                     to_le_bytes (of_nat (length tensors) :: u64) @
                     to_le_bytes (of_nat (length kv) :: u64) @ concat (map put_kv kv) @ table;
                   data_start = align_up (of_nat (length out)) alignment
               in Inr (put_data data_start (zip tensors offsets) (resize (unat data_start) out))))"

end
