(* ===== verification/Fl_Gguf_Roundtrip.thy ===== *)
theory Fl_Gguf_Roundtrip
  imports Fl_Gguf
begin

text \<open>
  The GGUF writer and reader agree: what \<open>encode_f32\<close> writes, \<open>load_adapter\<close> reads back.  The
  first sections relate each parser to its writer in both directions (\<open>reads\<close>: what it takes off
  any input; the \<open>_consumed\<close> lemmas: what a successful run has taken); the last lay out the data.
\<close>

section \<open>Parsers and what they read\<close>

definition reads :: "'a reader \<Rightarrow> bytes \<Rightarrow> 'a \<Rightarrow> bool" where
  "reads p xs v \<longleftrightarrow> (\<forall>rest. p (xs @ rest) = Inr (v, rest))"

named_theorems reads_rules

lemma reads_ret [reads_rules]: "reads (rret v) [] v"
  by (simp add: reads_def rret_def)

lemma reads_bind: "reads p xs v \<Longrightarrow> reads (f v) ys w \<Longrightarrow> reads (rbind p f) (xs @ ys) w"
  by (simp add: reads_def rbind_def)

lemma reads_map [reads_rules]: "reads p xs v \<Longrightarrow> reads (rmap f p) xs (f v)"
  unfolding rmap_def using reads_bind [OF _ reads_ret] by fastforce

lemma reads_take [reads_rules]: "length xs = n \<Longrightarrow> reads (rd_take n what) xs xs"
  by (simp add: reads_def rd_take_def)

lemma reads_remaining:
  "(\<And>m. length xs \<le> m \<Longrightarrow> reads (f m) xs v) \<Longrightarrow> reads (rbind rd_remaining f) xs v"
  by (simp add: reads_def rbind_def rd_remaining_def)

lemma reads_le:
  assumes "8 * n = LENGTH('a::len)"
  shows "reads (rmap from_le_bytes (rd_take n what)) (to_le_bytes (x :: 'a word)) x"
proof -
  have dvd: "8 dvd LENGTH('a)" using assms by (metis dvd_triv_left)
  have "length (to_le_bytes x) = n" using assms by simp
  then show ?thesis
    using reads_map [OF reads_take, of "to_le_bytes x" n from_le_bytes] from_to_le_bytes [OF dvd, of x]
    by metis
qed

lemma reads_u [reads_rules]:
  "reads (rd_u8 what) (to_le_bytes a) a" "reads (rd_u16 what) (to_le_bytes b) b"
  "reads (rd_u32 what) (to_le_bytes c) c" "reads (rd_u64 what) (to_le_bytes d) d"
  unfolding rd_u8_def rd_u16_def rd_u32_def rd_u64_def by (rule reads_le, simp)+

lemma le_byte [simp]: "to_le_bytes (x :: u8) = [x]"
  by (simp add: to_le_bytes_def)

lemma byte_char_inverse [simp]: "byte_char (char_byte c) = c" "char_byte (byte_char b) = b"
proof -
  have u: "unat (char_byte c) = of_char c"
  proof -
    have "(of_char c :: nat) mod 256 = of_char c" by simp
    then show ?thesis by (simp add: char_byte_def unat_of_nat_u8)
  qed
  then show "byte_char (char_byte c) = c" by (simp add: byte_char_def)
  have "(of_char (char_of (unat b)) :: nat) = unat b"
  proof -
    have "unat b < 256" using unsigned_less [of b, where ?'a = nat] by simp
    then show ?thesis by simp
  qed
  then show "char_byte (byte_char b) = b" by (simp add: char_byte_def byte_char_def)
qed

lemma map_byte_char [simp]: "map byte_char (str_bytes s) = s" "str_bytes (map byte_char bs) = bs"
  by (simp_all add: str_bytes_def comp_def map_idI)

definition string_ok :: "string \<Rightarrow> bool" where
  "string_ok s \<longleftrightarrow> length s \<le> 2 ^ 20 \<and> valid_utf8 (str_bytes s)"

lemma reads_string [reads_rules]: "string_ok s \<Longrightarrow> reads (rd_string what) (put_str s) s"
proof -
  assume ok: "string_ok s"
  then have n: "unat (of_nat (length s) :: u64) = length s"
    by (intro unat_of_nat_small) (simp add: string_ok_def)
  have le: "\<not> of_nat (length s) > MAX_STRING"
    using ok by (simp add: string_ok_def word_less_nat_alt n MAX_STRING_def unat_two_power)
  have tail: "reads (rbind (rd_take (length s) what)
      (\<lambda>bs. if valid_utf8 bs then rret (map byte_char bs) else rfail Utf8)) (str_bytes s @ []) s"
    by (rule reads_bind [OF reads_take]) (use ok in \<open>simp_all add: string_ok_def reads_def rret_def\<close>)
  show ?thesis
    unfolding rd_string_def put_str_def
    by (rule reads_bind [OF reads_u(4)]) (use tail le n in simp)
qed

lemma reads_times:
  "(\<And>x. x \<in> set xs \<Longrightarrow> reads p (enc x) x) \<Longrightarrow> reads (rd_times (length xs) p) (concat (map enc xs)) xs"
proof (induction xs)
  case Nil
  then show ?case by (simp add: reads_ret)
next
  case (Cons x xs)
  then have "reads (rmap (\<lambda>vs. x # vs) (rd_times (length xs) p)) (concat (map enc xs)) (x # xs)"
    by (intro reads_map) auto
  with Cons show ?case by (auto intro: reads_bind)
qed

section \<open>Metadata\<close>

fun scalar_ok :: "gvalue \<Rightarrow> bool" where
  "scalar_ok (GStr s) = string_ok s"
| "scalar_ok (GArray _ _) = False"
| "scalar_ok _ = True"

primrec value_ok :: "nat \<Rightarrow> gvalue \<Rightarrow> bool" where
  "value_ok 0 v = scalar_ok v"
| "value_ok (Suc k) v =
     (case v of
        GArray ety items \<Rightarrow> length items \<le> 2 ^ 24 \<and> (\<forall>i \<in> set items. type_id i = ety \<and> value_ok k i)
      | _ \<Rightarrow> scalar_ok v)"

lemma put_value_nonempty: "1 \<le> length (put_value v)"
  by (cases v) (simp_all add: put_str_def)

lemma length_items: "length items \<le> length (concat (map put_value items))"
proof (induction items)
  case (Cons i items)
  with put_value_nonempty [of i] show ?case by simp
qed simp

lemma reads_scalar: "scalar_ok v \<Longrightarrow> reads (rd_scalar (type_id v)) (put_value v) v"
proof (cases v)
  case (GBool x8)
  have "reads (rmap (\<lambda>b. GBool (b \<noteq> 0)) (rd_u8 ''bool'')) (to_le_bytes (if x8 then 1 else 0 :: u8))
          (GBool ((if x8 then 1 else 0 :: u8) \<noteq> 0))"
    by (intro reads_rules)
  then show ?thesis by (simp add: GBool rd_scalar_def split: if_splits)
next
  case (GU8 x)
  show ?thesis using reads_map [OF reads_u(1)] by (simp add: GU8 rd_scalar_def)
next
  case (GI8 x)
  show ?thesis using reads_map [OF reads_u(1)] by (simp add: GI8 rd_scalar_def)
qed (simp_all add: rd_scalar_def reads_rules)

lemma rd_value_scalar: "scalar_ok v \<Longrightarrow> rd_value k (type_id v) = rd_scalar (type_id v)"
  by (cases k; cases v) simp_all

lemma reads_value: "value_ok k v \<Longrightarrow> reads (rd_value k (type_id v)) (put_value v) v"
proof (induction k arbitrary: v)
  case 0
  then show ?case by (simp add: reads_scalar rd_value_scalar del: rd_value.simps)
next
  case (Suc k)
  show ?case
  proof (cases "scalar_ok v")
    case True
    then show ?thesis by (simp add: reads_scalar rd_value_scalar del: rd_value.simps)
  next
    case False
    with Suc.prems obtain ety items where v: "v = GArray ety items" and len: "length items \<le> 2 ^ 24"
      and items: "\<And>i. i \<in> set items \<Longrightarrow> type_id i = ety \<and> value_ok k i"
      by (cases v) auto
    have n: "unat (of_nat (length items) :: u64) = length items"
      using len by (intro unat_of_nat_small) simp
    have each: "reads (rd_value k ety) (put_value i) i" if "i \<in> set items" for i
      using Suc.IH items [OF that] by metis
    have body: "reads (rmap (GArray ety) (rd_times (length items) (rd_value k ety)))
        (concat (map put_value items)) (GArray ety items)"
      by (intro reads_map reads_times each)
    show ?thesis
      unfolding v
      by (simp, intro reads_bind [OF reads_u(3)] reads_bind [OF reads_u(4)] reads_remaining)
        (use body len length_items [of items] n in
          \<open>simp add: word_less_nat_alt MAX_ARRAY_def unat_two_power\<close>)
  qed
qed

definition kv_ok :: "(string \<times> gvalue) \<Rightarrow> bool" where
  "kv_ok e \<longleftrightarrow> string_ok (fst e) \<and> value_ok MAX_DEPTH (snd e)"

lemma reads_kv: "kv_ok e \<Longrightarrow> reads rd_kv (put_kv e) e"
proof -
  assume ok: "kv_ok e"
  have "reads (rmap (\<lambda>v. (fst e, v)) (rd_value MAX_DEPTH (type_id (snd e)))) (put_value (snd e)) (fst e, snd e)"
    using ok by (intro reads_map reads_value) (simp add: kv_ok_def)
  then show ?thesis
    using ok unfolding rd_kv_def put_kv_def kv_ok_def
    by (intro reads_bind [OF reads_string] reads_bind [OF reads_u(3)]) simp_all
qed

section \<open>The tensor table and the header\<close>

definition info_of :: "out_tensor \<Rightarrow> u64 \<Rightarrow> tensor_info" where
  "info_of t off = \<lparr>ti_name = ot_name t, ti_dims = ot_dims t, ti_type = GGML_TYPE_F32, ti_offset = off\<rparr>"

definition tensor_ok :: "out_tensor \<Rightarrow> bool" where
  "tensor_ok t \<longleftrightarrow> string_ok (ot_name t) \<and> ot_dims t \<noteq> [] \<and> length (ot_dims t) \<le> 4 \<and>
     checked_product 1 (ot_dims t) = Some (of_nat (length (ot_values t))) \<and>
     length (ot_values t) < 2 ^ 61"

lemma reads_tensor:
  assumes "tensor_ok t"
  shows "reads rd_tensor (put_tensor t off) (info_of t off)"
proof -
  let ?n = "length (ot_dims t)"
  have n: "unat (of_nat ?n :: u32) = ?n" and "?n \<le> 4" "0 < ?n"
    using assms by (simp_all add: tensor_ok_def unat_of_nat_small)
  then have ok: "\<not> (of_nat ?n = (0 :: u32) \<or> of_nat ?n > MAX_DIMS)"
    by (simp add: word_unat_eq_iff word_less_nat_alt MAX_DIMS_def)
  have dims: "reads (rd_times ?n (rd_u64 ''tensor dim'')) (concat (map to_le_bytes (ot_dims t))) (ot_dims t)"
    by (rule reads_times) (rule reads_u)
  have tail: "reads (rbind (rd_u32 ''tensor type'') (\<lambda>ty. rbind (rd_u64 ''tensor offset'') (\<lambda>offset.
        rret \<lparr>ti_name = ot_name t, ti_dims = ot_dims t, ti_type = ty, ti_offset = offset\<rparr>)))
      (to_le_bytes GGML_TYPE_F32 @ to_le_bytes off @ []) (info_of t off)"
    unfolding info_of_def by (intro reads_bind [OF reads_u(3)] reads_bind [OF reads_u(4)] reads_ret)
  show ?thesis
    unfolding rd_tensor_def put_tensor_def
    by (intro reads_bind [OF reads_string] reads_bind [OF reads_u(3)])
      (use assms ok dims tail n in \<open>simp_all add: tensor_ok_def reads_bind\<close>)
qed

lemma reads_tensors:
  "(\<And>t. t \<in> set ts \<Longrightarrow> tensor_ok t) \<Longrightarrow> distinct (map ot_name ts) \<Longrightarrow>
   (\<And>t. t \<in> set ts \<Longrightarrow> ot_name t \<notin> names) \<Longrightarrow> length offs = length ts \<Longrightarrow>
   reads (rd_tensors (length ts) names) (concat (map2 put_tensor ts offs)) (map2 info_of ts offs)"
proof (induction ts arbitrary: offs names)
  case Nil
  then show ?case by (simp add: reads_ret)
next
  case (Cons t ts)
  then obtain o' os where offs: "offs = o' # os" "length os = length ts"
    by (cases offs) auto
  have name: "ti_name (info_of t o') = ot_name t" by (simp add: info_of_def)
  have "reads (rd_tensors (length ts) (insert (ot_name t) names)) (concat (map2 put_tensor ts os))
      (map2 info_of ts os)"
    using Cons.prems offs(2) by (intro Cons.IH) (auto simp: image_iff)
  then have "reads (rmap (\<lambda>ts. info_of t o' # ts) (rd_tensors (length ts) (insert (ot_name t) names)))
      (concat (map2 put_tensor ts os)) (info_of t o' # map2 info_of ts os)"
    by (rule reads_map)
  moreover have "reads rd_tensor (put_tensor t o') (info_of t o')"
    using Cons.prems by (intro reads_tensor) simp
  ultimately show ?case
    using Cons.prems(3) [of t] by (auto simp: offs name intro!: reads_bind)
qed

definition header_bytes :: "(string \<times> gvalue) list \<Rightarrow> out_tensor list \<Rightarrow> u64 list \<Rightarrow> bytes" where
  "header_bytes kv ts offs = GGUF_MAGIC @ to_le_bytes (3 :: u32) @ to_le_bytes (of_nat (length ts) :: u64) @
     to_le_bytes (of_nat (length kv) :: u64) @ concat (map put_kv kv) @ concat (map2 put_tensor ts offs)"

lemma reads_header:
  assumes "length kv \<le> 2 ^ 16" "length ts \<le> 2 ^ 20" "length offs = length ts"
    and "\<And>e. e \<in> set kv \<Longrightarrow> kv_ok e" "\<And>t. t \<in> set ts \<Longrightarrow> tensor_ok t" "distinct (map ot_name ts)"
  shows "reads rd_header (header_bytes kv ts offs) (3, kv, map2 info_of ts offs)"
proof -
  have n: "unat (of_nat (length ts) :: u64) = length ts" "unat (of_nat (length kv) :: u64) = length kv"
    using assms(1,2) by (simp_all add: unat_of_nat_small)
  have small: "\<not> of_nat (length ts) > MAX_TENSORS" "\<not> of_nat (length kv) > MAX_KV"
    using assms(1,2) by (simp_all add: word_less_nat_alt n MAX_TENSORS_def MAX_KV_def unat_two_power)
  have kv: "reads (rd_times (length kv) rd_kv) (concat (map put_kv kv)) kv"
    by (rule reads_times) (rule reads_kv, erule assms(4))
  have ts: "reads (rd_tensors (length ts) {}) (concat (map2 put_tensor ts offs)) (map2 info_of ts offs)"
    by (rule reads_tensors) (use assms in auto)
  have body: "reads (rbind (rd_times (length kv) rd_kv) (\<lambda>kv.
        rbind (rd_tensors (length ts) {}) (\<lambda>tensors. rret (3, kv, tensors))))
      (concat (map put_kv kv) @ concat (map2 put_tensor ts offs) @ []) (3 :: u32, kv, map2 info_of ts offs)"
    by (rule reads_bind [OF kv], rule reads_bind [OF ts], rule reads_ret)
  have magic: "length GGUF_MAGIC = 4" by (simp add: GGUF_MAGIC_def)
  show ?thesis
    unfolding rd_header_def header_bytes_def
    by (rule reads_bind [OF reads_take [OF magic]], simp,
        rule reads_bind [OF reads_u(3)], simp,
        rule reads_bind [OF reads_u(4)], rule reads_bind [OF reads_u(4)])
      (use body small n in simp)
qed

section \<open>Layout\<close>

lemma align_up_props:
  assumes "unat n + unat a < 2 ^ 64" and "a \<noteq> 0"
  shows "unat n \<le> unat (align_up n a)" "unat (align_up n a) < unat n + unat a" "align_up n a mod a = 0"
proof -
  let ?q = "unat n div unat a"
  have a: "0 < unat a" using assms(2) by (simp add: unat_gt_0)
  have eq: "unat (align_up n a) = (if unat n mod unat a = 0 then ?q else ?q + 1) * unat a"
  proof (cases "n mod a = 0")
    case True
    then have "unat n mod unat a = 0" by (metis unat_0 unat_mod_distrib)
    moreover have "?q * unat a < 2 ^ 64"
      using assms(1) div_times_less_eq_dividend [of "unat n" "unat a"] by linarith
    then have "unat (n div a * a) = ?q * unat a"
      by (subst unat_mult_lem [THEN iffD1]) (simp_all add: unat_div_distrib)
    ultimately show ?thesis using True by (simp add: align_up_def div_ceil_def)
  next
    case False
    then have m: "unat n mod unat a \<noteq> 0" by (metis unat_eq_zero unat_mod_distrib)
    have lt: "(?q + 1) * unat a < 2 ^ 64"
    proof -
      have "?q * unat a \<le> unat n" by simp
      moreover have "(?q + 1) * unat a = ?q * unat a + unat a" by simp
      ultimately show ?thesis using assms(1) by linarith
    qed
    then have "?q + 1 < 2 ^ 64"
      using a by (metis One_nat_def Suc_leI mult.right_neutral mult_le_mono2 order_le_less_trans)
    then have q: "unat (n div a + 1) = ?q + 1"
      by (simp add: unat_word_ariths unat_div_distrib)
    with lt have "unat ((n div a + 1) * a) = (?q + 1) * unat a"
      by (subst unat_mult_lem [THEN iffD1]) simp_all
    with False m show ?thesis by (simp add: align_up_def div_ceil_def)
  qed
  have split: "unat n = ?q * unat a + unat n mod unat a" by simp
  have "unat n mod unat a < unat a" using a by simp
  have "unat n \<le> unat (align_up n a) \<and> unat (align_up n a) < unat n + unat a"
  proof (cases "unat n mod unat a = 0")
    case True
    then have "unat (align_up n a) = ?q * unat a" using eq by simp
    then show ?thesis using True split a by linarith
  next
    case False
    then have "unat (align_up n a) = ?q * unat a + unat a" using eq by simp
    then show ?thesis using False split \<open>unat n mod unat a < unat a\<close> by linarith
  qed
  then show "unat n \<le> unat (align_up n a)" "unat (align_up n a) < unat n + unat a" by blast+
  have "unat (align_up n a) mod unat a = 0" unfolding eq by simp
  then show "align_up n a mod a = 0" by (metis unat_eq_zero unat_mod_distrib)
qed

definition value_bytes :: "f32 list \<Rightarrow> bytes" where
  "value_bytes vs = concat (map to_le_bytes vs)"

lemma length_value_bytes [simp]: "length (value_bytes vs) = 4 * length vs"
  unfolding value_bytes_def by (subst length_concat_width [where w = 4]) auto

lemma put_table_table:
  "put_table al off ts = Inr (bs, offs) \<Longrightarrow> length offs = length ts \<and> bs = concat (map2 put_tensor ts offs)"
  by (induction al off ts arbitrary: bs offs rule: put_table.induct)
    (auto simp: Let_def split: if_splits sum.splits)

lemma put_table_total:
  "(\<And>t. t \<in> set ts \<Longrightarrow> foldl (*) 1 (ot_dims t) = of_nat (length (ot_values t))) \<Longrightarrow>
   \<exists>bs offs. put_table al off ts = Inr (bs, offs)"
  by (induction al off ts rule: put_table.induct) (auto simp: Let_def split: sum.splits)

text \<open>The room the data of \<open>ts\<close> may need, padding included.\<close>

definition room :: "u64 \<Rightarrow> out_tensor list \<Rightarrow> nat" where
  "room al ts = (\<Sum>t\<leftarrow>ts. 4 * length (ot_values t) + unat al)"

lemma room_Cons [simp]: "room al (t # ts) = 4 * length (ot_values t) + unat al + room al ts"
  by (simp add: room_def)

lemma put_data_layout:
  assumes "al \<noteq> 0"
  shows "put_table al off ts = Inr (bs, offs) \<Longrightarrow> off mod al = 0 \<Longrightarrow>
    length out \<le> unat ds + unat off \<Longrightarrow> unat ds + unat off + room al ts < 2 ^ 64 \<Longrightarrow>
    (\<exists>zs. put_data ds (zip ts offs) out = out @ zs) \<and>
    length (put_data ds (zip ts offs) out) \<le> unat ds + unat off + room al ts \<and>
    (\<forall>i < length ts. offs ! i mod al = 0 \<and> unat (ds + offs ! i) = unat ds + unat (offs ! i) \<and>
       unat ds + unat (offs ! i) + 4 * length (ot_values (ts ! i)) \<le> length (put_data ds (zip ts offs) out) \<and>
       take (4 * length (ot_values (ts ! i))) (drop (unat ds + unat (offs ! i)) (put_data ds (zip ts offs) out)) =
         value_bytes (ot_values (ts ! i)))"
proof (induction ts arbitrary: off bs offs out)
  case Nil
  then show ?case by simp
next
  case (Cons t ts)
  let ?len = "length (ot_values t)" and ?n = "foldl (*) 1 (ot_dims t)"
  let ?next = "align_up (off + ?n * 4) al"
  from Cons.prems(1) obtain bs' offs' where n: "?n = of_nat ?len"
    and rec: "put_table al ?next ts = Inr (bs', offs')" and offs: "offs = off # offs'"
    by (auto simp: Let_def split: if_splits sum.splits prod.splits)
  have sum: "unat ds + unat off + 4 * ?len + unat al + room al ts < 2 ^ 64"
    using Cons.prems(4) by simp
  have pos: "unat (ds + off) = unat ds + unat off"
    using sum by (subst unat_add_lem [THEN iffD1]) simp_all
  have n4: "unat (off + ?n * 4) = unat off + 4 * ?len"
  proof -
    have "off + ?n * 4 = off + of_nat (4 * ?len)" by (simp add: n)
    moreover have "unat (of_nat (4 * ?len) :: u64) = 4 * ?len"
      using sum by (intro unat_of_nat_small) simp
    ultimately show ?thesis using sum by (simp add: unat_word_ariths)
  qed
  note up = align_up_props [of "off + ?n * 4" al]
  have up1: "unat off + 4 * ?len \<le> unat ?next" and up2: "unat ?next < unat off + 4 * ?len + unat al"
    and up3: "?next mod al = 0"
    using up assms sum by (simp_all add: n4)
  let ?out = "resize (unat (ds + off)) out @ value_bytes (ot_values t)"
  have prefix: "\<exists>zs. resize (unat (ds + off)) out = out @ zs"
    using Cons.prems(3) by (simp add: resize_def pos)
  have len: "length (resize (unat (ds + off)) out) = unat ds + unat off"
    using Cons.prems(3) by (simp add: resize_def pos)
  have put: "put_data ds (zip (t # ts) offs) out = put_data ds (zip ts offs') ?out"
    by (simp add: offs value_bytes_def)
  have "(\<exists>zs. put_data ds (zip ts offs') ?out = ?out @ zs) \<and>
    length (put_data ds (zip ts offs') ?out) \<le> unat ds + unat ?next + room al ts \<and>
    (\<forall>i < length ts. offs' ! i mod al = 0 \<and> unat (ds + offs' ! i) = unat ds + unat (offs' ! i) \<and>
       unat ds + unat (offs' ! i) + 4 * length (ot_values (ts ! i)) \<le> length (put_data ds (zip ts offs') ?out) \<and>
       take (4 * length (ot_values (ts ! i))) (drop (unat ds + unat (offs' ! i)) (put_data ds (zip ts offs') ?out)) =
         value_bytes (ot_values (ts ! i)))"
    by (rule Cons.IH [OF rec up3]) (use up1 up2 sum len in simp_all)
  then obtain zs where zs: "put_data ds (zip ts offs') ?out = ?out @ zs"
    and total: "length (?out @ zs) \<le> unat ds + unat ?next + room al ts"
    and rest: "\<And>i. i < length ts \<Longrightarrow> offs' ! i mod al = 0 \<and> unat (ds + offs' ! i) = unat ds + unat (offs' ! i) \<and>
       unat ds + unat (offs' ! i) + 4 * length (ot_values (ts ! i)) \<le> length (?out @ zs) \<and>
       take (4 * length (ot_values (ts ! i))) (drop (unat ds + unat (offs' ! i)) (?out @ zs)) =
         value_bytes (ot_values (ts ! i))"
    by auto
  have head: "take (4 * ?len) (drop (unat ds + unat off) (?out @ zs)) = value_bytes (ot_values t)"
    by (simp add: len)
  have all: "offs ! i mod al = 0 \<and> unat (ds + offs ! i) = unat ds + unat (offs ! i) \<and>
       unat ds + unat (offs ! i) + 4 * length (ot_values ((t # ts) ! i)) \<le> length (?out @ zs) \<and>
       take (4 * length (ot_values ((t # ts) ! i))) (drop (unat ds + unat (offs ! i)) (?out @ zs)) =
         value_bytes (ot_values ((t # ts) ! i))" if "i < length (t # ts)" for i
  proof (cases i)
    case 0
    then show ?thesis using head Cons.prems(2) pos len by (simp add: offs)
  next
    case (Suc j)
    with that have "j < length ts" by simp
    from rest [OF this] show ?thesis by (simp add: Suc offs)
  qed
  have "length (?out @ zs) \<le> unat ds + unat off + room al (t # ts)"
    using total up2 by simp
  with prefix all show ?case unfolding put zs by auto
qed

lemma decode_value_bytes: "decode_values GGML_TYPE_F32 (value_bytes vs) = vs"
proof -
  have "as_chunks 4 (value_bytes vs) = map to_le_bytes vs"
    unfolding value_bytes_def by (rule as_chunks_concat) auto
  moreover have "from_le_bytes (to_le_bytes v) = v" for v :: u32
    by (rule from_to_le_bytes) simp
  ultimately show ?thesis by (simp add: decode_values_def comp_def)
qed

section \<open>Writing, then reading\<close>

lemma alignment_props:
  assumes "alignment_of kv = Inr al"
  shows "al \<noteq> 0" and "unat al < 2 ^ 32"
proof -
  have "(ucast a :: u64) \<noteq> 0 \<and> unat (ucast a :: u64) < 2 ^ 32" if "a \<noteq> 0" for a :: u32
  proof -
    have u: "unat (ucast a :: u64) = unat a" and "unat a < 2 ^ 32"
      using unsigned_less [of a, where ?'a = nat] by (simp_all add: unat_ucast_small)
    then show ?thesis using that by (metis unat_0 unat_eq_zero)
  qed
  with assms show "al \<noteq> 0" and "unat al < 2 ^ 32"
    by (auto simp: alignment_of_def DEFAULT_ALIGNMENT_def is_power_of_two_def
        split: option.splits gvalue.splits if_splits)
qed

lemma checked_product_foldl: "checked_product a ds = Some p \<Longrightarrow> foldl (*) a ds = p"
  by (induction ds arbitrary: a) (auto simp: checked_mul_def split: bind_splits if_splits)

definition file_ok :: "(string \<times> gvalue) list \<Rightarrow> out_tensor list \<Rightarrow> bool" where
  "file_ok kv ts \<longleftrightarrow> length kv \<le> 2 ^ 16 \<and> length ts \<le> 2 ^ 20 \<and> (\<forall>e \<in> set kv. kv_ok e) \<and>
     (\<forall>t \<in> set ts. tensor_ok t) \<and> distinct (map ot_name ts)"

definition header_size :: "(string \<times> gvalue) list \<Rightarrow> out_tensor list \<Rightarrow> nat" where
  "header_size kv ts = length (header_bytes kv ts (replicate (length ts) 0))"

lemma header_size: "length offs = length ts \<Longrightarrow> length (header_bytes kv ts offs) = header_size kv ts"
proof -
  have len: "length (put_tensor t o1) = length (put_tensor t o2)" for t o1 o2
    by (simp add: put_tensor_def)
  have "length (concat (map2 put_tensor ts xs)) = (\<Sum>t\<leftarrow>ts. length (put_tensor t 0))"
    if "length xs = length ts" for xs
    using that
  proof (induction ts arbitrary: xs)
    case (Cons t ts)
    then show ?case using len by (cases xs) auto
  qed simp
  then show "length offs = length ts \<Longrightarrow> ?thesis"
    by (simp add: header_size_def header_bytes_def)
qed

lemma encode_reads:
  assumes ok: "file_ok kv ts" and al: "alignment_of kv = Inr al"
    and size: "header_size kv ts + 2 ^ 33 + room al ts < 2 ^ 64"
  obtains out g where "encode_f32 kv ts = Inr out" "read_header out = Inr g" "gg_kv g = kv"
    "map ti_name (gg_tensors g) = map ot_name ts" "map ti_dims (gg_tensors g) = map ot_dims ts"
    "\<And>i. i < length ts \<Longrightarrow> read_tensor_f32 out g (gg_tensors g ! i) = Inr (ot_values (ts ! i))"
    "length (gg_tensors g) = length ts" "length out \<le> header_size kv ts + 2 ^ 33 + room al ts"
proof -
  note a = alignment_props [OF al]
  have prod: "foldl (*) 1 (ot_dims t) = of_nat (length (ot_values t))" if "t \<in> set ts" for t
    using ok that by (auto simp: file_ok_def tensor_ok_def dest: checked_product_foldl)
  obtain tbl offs where tbl: "put_table al 0 ts = Inr (tbl, offs)"
    using put_table_total prod by blast
  note tab = put_table_table [OF tbl]
  let ?out = "header_bytes kv ts offs"
  let ?ds = "align_up (of_nat (length ?out)) al"
  let ?pad = "resize (unat ?ds) ?out"
  let ?file = "put_data ?ds (zip ts offs) ?pad"
  have outlen: "unat (of_nat (length ?out) :: u64) = length ?out"
    using tab size by (intro unat_of_nat_small) (simp add: header_size)
  have ds: "length ?out \<le> unat ?ds" "unat ?ds < length ?out + unat al"
    using align_up_props(1,2) [of "of_nat (length ?out)" al] a size tab
    by (simp_all only: outlen) (simp_all add: header_size)
  then have pad: "?pad = ?out @ replicate (unat ?ds - length ?out) 0" "length ?pad = unat ?ds"
    by (simp_all add: resize_def)
  have encode: "encode_f32 kv ts = Inr ?file"
    using tab by (simp add: encode_f32_def al tbl Let_def header_bytes_def)
  have "(\<exists>zs. ?file = ?pad @ zs) \<and>
    length ?file \<le> unat ?ds + unat (0 :: u64) + room al ts \<and>
    (\<forall>i < length ts. offs ! i mod al = 0 \<and> unat (?ds + offs ! i) = unat ?ds + unat (offs ! i) \<and>
       unat ?ds + unat (offs ! i) + 4 * length (ot_values (ts ! i)) \<le> length ?file \<and>
       take (4 * length (ot_values (ts ! i))) (drop (unat ?ds + unat (offs ! i)) ?file) =
         value_bytes (ot_values (ts ! i)))"
    by (rule put_data_layout [OF a(1) tbl]) (use pad ds a size tab in \<open>simp_all add: header_size\<close>)
  then obtain zs where zs: "?file = ?pad @ zs" and total: "length ?file \<le> unat ?ds + room al ts"
    and lay: "\<And>i. i < length ts \<Longrightarrow> offs ! i mod al = 0 \<and> unat (?ds + offs ! i) = unat ?ds + unat (offs ! i) \<and>
       unat ?ds + unat (offs ! i) + 4 * length (ot_values (ts ! i)) \<le> length ?file \<and>
       take (4 * length (ot_values (ts ! i))) (drop (unat ?ds + unat (offs ! i)) ?file) =
         value_bytes (ot_values (ts ! i))"
    by auto
  have filelen: "unat (of_nat (length ?file) :: u64) = length ?file"
    using total ds a size tab by (intro unat_of_nat_small) (simp add: header_size)
  let ?rest = "replicate (unat ?ds - length ?out) 0 @ zs"
  have "?pad @ zs = ?out @ ?rest" unfolding pad(1) by simp
  with zs have file': "?file = ?out @ ?rest" by (rule trans)
  have "reads rd_header ?out (3, kv, map2 info_of ts offs)"
    by (rule reads_header) (use ok tab in \<open>auto simp: file_ok_def\<close>)
  then have hdr: "rd_header ?file = Inr ((3, kv, map2 info_of ts offs), ?rest)"
    by (simp add: reads_def file')
  have pos: "length ?file - length ?rest = length ?out" by (simp only: file' length_append)
  have aligned: "filter (\<lambda>t. ti_offset t mod al \<noteq> 0) (map2 info_of ts offs) = []"
    using lay tab by (auto simp: filter_empty_conv in_set_zip info_of_def)
  have "length ?file = length ?pad + length zs"
    using arg_cong [OF zs, of length] by (simp only: length_append)
  then have "unat ?ds \<le> length ?file" by (simp only: pad(2) le_add1)
  then have le: "\<not> ?ds > of_nat (length ?file)"
    by (simp only: word_less_nat_alt filelen not_less)
  define g where "g = \<lparr>gg_version = 3, gg_kv = kv, gg_tensors = map2 info_of ts offs, gg_alignment = al,
      gg_data_offset = ?ds, gg_file_len = of_nat (length ?file)\<rparr>"
  have "finish_header 3 kv (map2 info_of ts offs) (length ?out) (length ?file) = Inr g"
    using le aligned by (simp add: finish_header_def al g_def Let_def)
  then have read: "read_header ?file = Inr g"
    by (simp only: read_header_def hdr sum.case prod.case pos)
  have vals: "read_tensor_f32 ?file g (gg_tensors g ! i) = Inr (ot_values (ts ! i))" if i: "i < length ts" for i
  proof -
    let ?t = "ts ! i" and ?off = "offs ! i"
    let ?n = "length (ot_values ?t)"
    have t: "gg_tensors g ! i = info_of ?t ?off" using i tab by (simp add: g_def)
    have "tensor_ok ?t" using ok i by (simp add: file_ok_def)
    then have el: "elements (info_of ?t ?off) = Some (of_nat ?n)" and small: "?n < 2 ^ 61"
      by (simp_all add: elements_def info_of_def tensor_ok_def)
    have n: "unat (of_nat ?n :: u64) = ?n" using small by (intro unat_of_nat_small) simp
    then have "checked_mul (of_nat ?n :: u64) 4 = Some (of_nat ?n * 4)"
      using small by (simp add: checked_mul_def)
    then have bl: "byte_len (info_of ?t ?off) = Some (of_nat ?n * 4)"
      by (simp add: byte_len_def el) (simp add: info_of_def)
    have n4: "unat (of_nat ?n * 4 :: u64) = 4 * ?n"
      using small n by (subst unat_mult_lem [THEN iffD1]) simp_all
    note l = lay [OF i]
    have lim: "length ?file < 2 ^ 64" using unsigned_less [of "of_nat (length ?file) :: u64", where ?'a = nat]
      by (simp only: filelen) simp
    have s1: "checked_add ?ds ?off = Some (?ds + ?off)"
      using l lim by (simp add: checked_add_def)
    have u: "unat (?ds + ?off + of_nat ?n * 4) = unat ?ds + unat ?off + 4 * ?n"
      using l lim n4 by (subst unat_add_lem [THEN iffD1]) simp_all
    have s2: "checked_add (?ds + ?off) (of_nat ?n * 4) = Some (?ds + ?off + of_nat ?n * 4)"
      using l lim n4 by (simp add: checked_add_def)
    have s3: "\<not> ?ds + ?off + of_nat ?n * 4 > of_nat (length ?file)"
      using l by (simp add: word_less_nat_alt filelen u)
    show ?thesis
      unfolding t read_tensor_f32_def bl using s1 s2 s3 l n4
      by (simp add: g_def info_of_def decode_value_bytes)
  qed
  have names: "map ti_name (gg_tensors g) = map ot_name ts" "map ti_dims (gg_tensors g) = map ot_dims ts"
    "length (gg_tensors g) = length ts"
    using tab by (auto simp: g_def info_of_def intro!: nth_equalityI)
  have "length ?file \<le> header_size kv ts + 2 ^ 33 + room al ts"
    using total ds(2) a(2) tab by (simp add: header_size)
  then show ?thesis
    by (intro that [OF encode read]) (use names vals in \<open>simp_all add: g_def\<close>)
qed

section \<open>What a successful read guarantees\<close>

text \<open>\<open>yields p Q\<close>: whenever \<open>p\<close> succeeds with \<open>v\<close> after taking \<open>n\<close> bytes, \<open>Q v n\<close> holds.\<close>

definition yields :: "'a reader \<Rightarrow> ('a \<Rightarrow> nat \<Rightarrow> bool) \<Rightarrow> bool" where
  "yields p Q \<longleftrightarrow> (\<forall>bs v rest. p bs = Inr (v, rest) \<longrightarrow> (\<exists>n. length bs = n + length rest \<and> Q v n))"

lemma yieldsD:
  assumes "yields p Q" and "p bs = Inr (v, rest)"
  obtains n where "length bs = n + length rest" "Q v n"
  using assms unfolding yields_def by blast

lemma yields_ret: "Q v 0 \<Longrightarrow> yields (rret v) Q"
  by (simp add: yields_def rret_def)

lemma yields_fail: "yields (rfail e) Q"
  by (simp add: yields_def rfail_def)

lemma yields_bind:
  assumes "yields p Q" and "\<And>v n. Q v n \<Longrightarrow> yields (f v) (\<lambda>w m. R w (n + m))"
  shows "yields (rbind p f) R"
  unfolding yields_def
proof (intro allI impI)
  fix bs w rest assume "rbind p f bs = Inr (w, rest)"
  then obtain v r1 where p: "p bs = Inr (v, r1)" and f: "f v r1 = Inr (w, rest)"
    by (auto simp: rbind_def split: sum.splits)
  obtain n where n: "length bs = n + length r1" "Q v n" by (rule yieldsD [OF assms(1) p])
  obtain m where "length r1 = m + length rest" "R w (n + m)" by (rule yieldsD [OF assms(2) [OF n(2)] f])
  with n show "\<exists>k. length bs = k + length rest \<and> R w k" by (intro exI [of _ "n + m"]) simp
qed

lemma yields_map: "yields p (\<lambda>v n. Q (f v) n) \<Longrightarrow> yields (rmap f p) Q"
  unfolding rmap_def by (erule yields_bind) (simp add: yields_ret)

lemma yields_if:
  "(c \<Longrightarrow> yields p R) \<Longrightarrow> (\<not> c \<Longrightarrow> yields q R) \<Longrightarrow> yields (if c then p else q) R"
  by simp

lemma yields_mono: "yields p Q \<Longrightarrow> (\<And>v n. Q v n \<Longrightarrow> R v n) \<Longrightarrow> yields p R"
  unfolding yields_def by blast

lemma yields_take: "yields (rd_take k what) (\<lambda>xs n. n = k \<and> length xs = k)"
  by (auto simp: yields_def rd_take_def split: if_splits)

lemma yields_u:
  "yields (rd_u8 what) (\<lambda>_ n. n = 1)" "yields (rd_u16 what) (\<lambda>_ n. n = 2)"
  "yields (rd_u32 what) (\<lambda>_ n. n = 4)" "yields (rd_u64 what) (\<lambda>_ n. n = 8)"
  unfolding rd_u8_def rd_u16_def rd_u32_def rd_u64_def
  by (rule yields_map, rule yields_mono [OF yields_take], simp)+

lemma length_put_str [simp]: "length (put_str s) = 8 + length s"
  by (simp add: put_str_def)

lemma yields_string: "yields (rd_string what) (\<lambda>s n. string_ok s \<and> n = length (put_str s))"
  unfolding rd_string_def
proof (rule yields_bind [OF yields_u(4)])
  fix v :: u64 and n :: nat assume n: "n = 8"
  show "yields (if v > MAX_STRING then rfail (Bounds what)
      else rbind (rd_take (unat v) what) (\<lambda>bs. if valid_utf8 bs then rret (map byte_char bs) else rfail Utf8))
    (\<lambda>s m. string_ok s \<and> n + m = length (put_str s))"
  proof (cases "v > MAX_STRING")
    case True
    then show ?thesis by (simp add: yields_fail)
  next
    case False
    then have "unat v \<le> 2 ^ 20" by (simp add: word_less_nat_alt not_less MAX_STRING_def unat_two_power)
    with False n show ?thesis
      by (auto intro!: yields_bind [OF yields_take] yields_ret yields_fail simp: string_ok_def)
  qed
qed

lemma yields_times:
  assumes "yields p (\<lambda>v n. Q v \<and> n = sz v)"
  shows "yields (rd_times k p) (\<lambda>vs n. length vs = k \<and> (\<forall>v \<in> set vs. Q v) \<and> n = sum_list (map sz vs))"
proof (induction k)
  case 0
  then show ?case by (simp add: yields_ret)
next
  case (Suc k)
  have "yields (rmap (\<lambda>vs. v # vs) (rd_times k p))
      (\<lambda>vs m. length vs = Suc k \<and> (\<forall>v \<in> set vs. Q v) \<and> n + m = sum_list (map sz vs))"
    if "Q v \<and> n = sz v" for v n
    by (rule yields_map, rule yields_mono [OF Suc.IH]) (use that in auto)
  then show ?case by (simp add: yields_bind [OF assms])
qed

lemma yields_scalar: "yields (rd_scalar ty) (\<lambda>v n. scalar_ok v \<and> type_id v = ty \<and> n = length (put_value v))"
proof -
  have str: "yields (rmap GStr (rd_string ''string value''))
      (\<lambda>v n. scalar_ok v \<and> type_id v = 8 \<and> n = length (put_value v))"
    by (rule yields_map, rule yields_mono [OF yields_string]) simp
  show ?thesis
    unfolding rd_scalar_def using str
    by (auto intro!: yields_fail yields_map yields_mono [OF yields_u(1)] yields_mono [OF yields_u(2)]
        yields_mono [OF yields_u(3)] yields_mono [OF yields_u(4)])
qed

lemma scalar_value_ok: "scalar_ok v \<Longrightarrow> value_ok k v"
  by (cases k; cases v) simp_all

lemma yields_value: "yields (rd_value k ty) (\<lambda>v n. value_ok k v \<and> type_id v = ty \<and> n = length (put_value v))"
proof (induction k arbitrary: ty)
  case 0
  show ?case
    using yields_mono [OF yields_scalar, of ty] scalar_value_ok by (auto simp: yields_fail)
next
  case (Suc k)
  show ?case
  proof (cases "ty = 9")
    case False
    have "yields (rd_scalar ty) (\<lambda>v n. value_ok (Suc k) v \<and> type_id v = ty \<and> n = length (put_value v))"
      by (rule yields_mono [OF yields_scalar]) (simp add: scalar_value_ok del: value_ok.simps)
    with False show ?thesis by (simp del: value_ok.simps)
  next
    case True
    have times: "yields (rmap (GArray ety) (rd_times (unat n) (rd_value k ety)))
        (\<lambda>v m. value_ok (Suc k) v \<and> type_id v = 9 \<and> 12 + m = length (put_value v))"
      if "\<not> n > MAX_ARRAY" for ety :: u32 and n :: u64
    proof -
      have "unat n \<le> 2 ^ 24" using that by (simp add: word_less_nat_alt not_less MAX_ARRAY_def unat_two_power)
      moreover have "yields (rd_value k ety) (\<lambda>v n. (value_ok k v \<and> type_id v = ety) \<and> n = length (put_value v))"
        by (rule yields_mono [OF Suc.IH]) simp
      ultimately show ?thesis
        by (intro yields_map) (rule yields_mono [OF yields_times],
            assumption, auto simp: length_concat comp_def)
    qed
    have remaining: "yields (rbind rd_remaining g) Q" if "\<And>m. yields (g m) Q" for g :: "nat \<Rightarrow> gvalue reader" and Q
      using that by (auto simp: yields_def rbind_def rd_remaining_def)
    show ?thesis
      unfolding True
      by (simp, rule yields_bind [OF yields_u(3)], rule yields_bind [OF yields_u(4)], rule remaining)
        (use times in \<open>auto simp: yields_fail\<close>)
  qed
qed

lemma yields_kv: "yields rd_kv (\<lambda>e n. kv_ok e \<and> n = length (put_kv e))"
  unfolding rd_kv_def
  by (intro yields_bind [OF yields_string] yields_bind [OF yields_u(3)] yields_map)
    (rule yields_mono [OF yields_value], simp add: kv_ok_def put_kv_def)

definition info_ok :: "tensor_info \<Rightarrow> bool" where
  "info_ok t \<longleftrightarrow> string_ok (ti_name t) \<and> ti_dims t \<noteq> [] \<and> length (ti_dims t) \<le> 4"

definition info_size :: "tensor_info \<Rightarrow> nat" where
  "info_size t = 24 + length (ti_name t) + 8 * length (ti_dims t)"

lemma yields_tensor: "yields rd_tensor (\<lambda>t n. info_ok t \<and> n = info_size t)"
  unfolding rd_tensor_def
proof (rule yields_bind [OF yields_string], rule yields_bind [OF yields_u(3)])
  fix name n1 and nd :: u32 and n2 :: nat
  assume name: "string_ok name \<and> n1 = length (put_str name)" and n2: "n2 = 4"
  let ?tail = "\<lambda>dims. rbind (rd_u32 ''tensor type'') (\<lambda>ty. rbind (rd_u64 ''tensor offset'') (\<lambda>offset.
      rret \<lparr>ti_name = name, ti_dims = dims, ti_type = ty, ti_offset = offset\<rparr>))"
  have dims: "yields (rd_times (unat nd) (rd_u64 ''tensor dim''))
      (\<lambda>ds m. length ds = unat nd \<and> (\<forall>d \<in> set ds. True) \<and> m = sum_list (map (\<lambda>_. 8) ds))"
    by (rule yields_times) (rule yields_mono [OF yields_u(4)], simp)
  show "yields (if nd = 0 \<or> nd > MAX_DIMS then rfail (Bounds ''tensor dims'')
      else rbind (rd_times (unat nd) (rd_u64 ''tensor dim'')) ?tail)
    (\<lambda>t m. info_ok t \<and> n1 + (n2 + m) = info_size t)"
  proof (cases "nd = 0 \<or> nd > MAX_DIMS")
    case True
    then show ?thesis by (simp add: yields_fail)
  next
    case False
    then have nd: "0 < unat nd" "unat nd \<le> 4"
      by (simp_all add: unat_gt_0 word_less_nat_alt not_less MAX_DIMS_def)
    have "yields (rbind (rd_times (unat nd) (rd_u64 ''tensor dim'')) ?tail)
      (\<lambda>t m. info_ok t \<and> n1 + (n2 + m) = info_size t)"
      by (rule yields_bind [OF dims], rule yields_bind [OF yields_u(3)], rule yields_bind [OF yields_u(4)],
          rule yields_ret)
        (use name n2 nd in \<open>auto simp: info_ok_def info_size_def sum_list_triv\<close>)
    with False show ?thesis by simp
  qed
qed

lemma yields_tensors:
  "yields (rd_tensors k names) (\<lambda>ts n. length ts = k \<and> (\<forall>t \<in> set ts. info_ok t) \<and>
     distinct (map ti_name ts) \<and> ti_name ` set ts \<inter> names = {} \<and> n = sum_list (map info_size ts))"
proof (induction k arbitrary: names)
  case 0
  then show ?case by (simp add: yields_ret)
next
  case (Suc k)
  have "yields (if ti_name t \<in> names then rfail (Duplicate (ti_name t))
        else rmap (\<lambda>ts. t # ts) (rd_tensors k (insert (ti_name t) names)))
      (\<lambda>ts m. length ts = Suc k \<and> (\<forall>t \<in> set ts. info_ok t) \<and> distinct (map ti_name ts) \<and>
         ti_name ` set ts \<inter> names = {} \<and> n + m = sum_list (map info_size ts))"
    if "info_ok t \<and> n = info_size t" for t n
  proof (cases "ti_name t \<in> names")
    case True
    then show ?thesis by (simp add: yields_fail)
  next
    case False
    then show ?thesis
      by simp (rule yields_map, rule yields_mono [OF Suc.IH], use that in auto)
  qed
  then show ?case by (simp add: yields_bind [OF yields_tensor])
qed

lemma yields_header:
  "yields rd_header (\<lambda>(ver, kv, ts) n. length kv \<le> 2 ^ 16 \<and> length ts \<le> 2 ^ 20 \<and> (\<forall>e \<in> set kv. kv_ok e) \<and>
     (\<forall>t \<in> set ts. info_ok t) \<and> distinct (map ti_name ts) \<and>
     n = 24 + sum_list (map (length \<circ> put_kv) kv) + sum_list (map info_size ts))"
proof -
  have kvs: "yields (rd_times k rd_kv) (\<lambda>es n. length es = k \<and> (\<forall>e \<in> set es. kv_ok e) \<and>
      n = sum_list (map (\<lambda>e. length (put_kv e)) es))" for k
    by (rule yields_times [OF yields_kv])
  have le: "unat n_ts \<le> 2 ^ 20" if "\<not> n_ts > MAX_TENSORS" for n_ts :: u64
    using that by (simp add: word_less_nat_alt not_less MAX_TENSORS_def unat_two_power)
  have le': "unat n_kv \<le> 2 ^ 16" if "\<not> n_kv > MAX_KV" for n_kv :: u64
    using that by (simp add: word_less_nat_alt not_less MAX_KV_def unat_two_power)
  have body: "yields (rbind (rd_times (unat n_kv) rd_kv) (\<lambda>kv.
        rbind (rd_tensors (unat n_ts) {}) (\<lambda>ts. rret (version, kv, ts))))
      (\<lambda>(ver, kv, ts) m. length kv \<le> 2 ^ 16 \<and> length ts \<le> 2 ^ 20 \<and> (\<forall>e \<in> set kv. kv_ok e) \<and>
         (\<forall>t \<in> set ts. info_ok t) \<and> distinct (map ti_name ts) \<and>
         24 + m = 24 + sum_list (map (length \<circ> put_kv) kv) + sum_list (map info_size ts))"
    if "\<not> n_ts > MAX_TENSORS" "\<not> n_kv > MAX_KV" for n_ts n_kv :: u64 and version :: u32
    by (rule yields_bind [OF kvs], rule yields_bind [OF yields_tensors], rule yields_ret)
      (use le [OF that(1)] le' [OF that(2)] in \<open>auto simp: comp_def\<close>)
  show ?thesis
    unfolding rd_header_def
    by (rule yields_bind [OF yields_take], rule yields_if, rule yields_fail,
        rule yields_bind [OF yields_u(3)], rule yields_if, rule yields_fail,
        rule yields_bind [OF yields_u(4)], rule yields_bind [OF yields_u(4)],
        rule yields_if, rule yields_fail, rule yields_if, rule yields_fail,
        rule yields_mono [OF body]) auto
qed

lemma read_header_ok:
  assumes "read_header bs = Inr g"
  shows "length (gg_kv g) \<le> 2 ^ 16" "length (gg_tensors g) \<le> 2 ^ 20" "\<forall>e \<in> set (gg_kv g). kv_ok e"
    "\<forall>t \<in> set (gg_tensors g). info_ok t" "distinct (map ti_name (gg_tensors g))"
    "24 + sum_list (map (length \<circ> put_kv) (gg_kv g)) + sum_list (map info_size (gg_tensors g)) \<le> length bs"
    "alignment_of (gg_kv g) = Inr (gg_alignment g)" "gg_file_len g = of_nat (length bs)"
proof -
  obtain ver kv ts rest where h: "rd_header bs = Inr ((ver, kv, ts), rest)"
    and f: "finish_header ver kv ts (length bs - length rest) (length bs) = Inr g"
    using assms by (auto simp: read_header_def split: sum.splits prod.splits)
  have g: "gg_kv g = kv" "gg_tensors g = ts" "alignment_of kv = Inr (gg_alignment g)"
    "gg_file_len g = of_nat (length bs)"
    using f by (auto simp: finish_header_def Let_def split: sum.splits if_splits list.splits)
  obtain n where "length bs = n + length rest" and q: "length kv \<le> 2 ^ 16" "length ts \<le> 2 ^ 20"
    "\<forall>e \<in> set kv. kv_ok e" "\<forall>t \<in> set ts. info_ok t" "distinct (map ti_name ts)"
    "n = 24 + sum_list (map (length \<circ> put_kv) kv) + sum_list (map info_size ts)"
    by (rule yieldsD [OF yields_header h]) auto
  then show "length (gg_kv g) \<le> 2 ^ 16" "length (gg_tensors g) \<le> 2 ^ 20" "\<forall>e \<in> set (gg_kv g). kv_ok e"
    "\<forall>t \<in> set (gg_tensors g). info_ok t" "distinct (map ti_name (gg_tensors g))"
    "24 + sum_list (map (length \<circ> put_kv) (gg_kv g)) + sum_list (map info_size (gg_tensors g)) \<le> length bs"
    "alignment_of (gg_kv g) = Inr (gg_alignment g)" "gg_file_len g = of_nat (length bs)"
    by (simp_all add: g)
qed

lemma length_as_chunks [simp]: "length (as_chunks w xs) = length xs div w"
  by (simp add: as_chunks_def)

lemma read_tensor_count:
  assumes "read_tensor_f32 bs g t = Inr vs" and "gg_file_len g = of_nat (length bs)" and "length bs < 2 ^ 64"
  shows "elements t = Some (of_nat (length vs))" and "length vs \<le> length bs"
proof -
  obtain n start stop where n: "byte_len t = Some n" and s: "checked_add (gg_data_offset g) (ti_offset t) = Some start"
    "checked_add start n = Some stop" "\<not> stop > gg_file_len g"
    and vs: "vs = decode_values (ti_type t) (take (unat n) (drop (unat start) bs))"
    using assms(1) by (auto simp: read_tensor_f32_def split: option.splits if_splits)
  have "unat stop = unat start + unat n" using s(2) by (simp add: checked_add_Some_iff)
  moreover have "unat stop \<le> length bs"
    using s(3) assms(2,3) by (simp add: word_less_nat_alt not_less unat_of_nat_small)
  ultimately have len: "length (take (unat n) (drop (unat start) bs)) = unat n" by simp
  define per :: nat where "per = (if ti_type t = GGML_TYPE_F32 then 4 else 2)"
  then have "0 < per" by simp
  obtain e where e: "elements t = Some e" and per: "unat n = unat e * per"
    using n by (auto simp: byte_len_def checked_mul_Some_iff per_def split: if_splits bind_splits)
  have cnt: "length vs = unat n div per"
    using len by (simp add: vs decode_values_def per_def)
  note per = per \<open>0 < per\<close>
  from cnt per have "length vs = unat e" by simp
  then show "elements t = Some (of_nat (length vs))" using e by simp
  show "length vs \<le> length bs"
    using \<open>length vs = unat e\<close> per \<open>unat stop = _\<close> \<open>unat stop \<le> _\<close>
    by (metis add_leD2 dual_order.trans le_trans mult.right_neutral mult_le_mono2 Suc_leI One_nat_def)
qed

lemma load_tensors_each:
  "load_tensors bs g ts = Inr vss \<Longrightarrow> length vss = length ts \<and>
     (\<forall>i < length ts. read_tensor_f32 bs g (ts ! i) = Inr (vss ! i) \<and>
        \<not> (strip_suffix ''.lora_a'' (ti_name (ts ! i)) = None \<and> strip_suffix ''.lora_b'' (ti_name (ts ! i)) = None))"
proof (induction ts arbitrary: vss)
  case (Cons t ts)
  then show ?case
    by (auto simp: nth_Cons map_sum_def split: if_splits sum.splits nat.splits)
qed simp

lemma load_tensors_all:
  "length vss = length ts \<Longrightarrow>
   (\<And>i. i < length ts \<Longrightarrow> read_tensor_f32 bs g (ts ! i) = Inr (vss ! i)) \<Longrightarrow>
   (\<And>t. t \<in> set ts \<Longrightarrow>
      \<not> (strip_suffix ''.lora_a'' (ti_name t) = None \<and> strip_suffix ''.lora_b'' (ti_name t) = None)) \<Longrightarrow>
   load_tensors bs g ts = Inr vss"
proof (induction ts arbitrary: vss)
  case (Cons t ts)
  then obtain vs vss' where v: "vss = vs # vss'" by (cases vss) auto
  have "load_tensors bs g ts = Inr vss'"
    using Cons.prems(1,3) Cons.prems(2) [of "Suc i" for i] v by (intro Cons.IH) auto
  moreover have "read_tensor_f32 bs g t = Inr vs" using Cons.prems(2) [of 0] v by simp
  ultimately show ?case using Cons.prems(3) [of t] v by simp
qed simp

end
