(* ===== verification/Fl_Delta.thy ===== *)
theory Fl_Delta
  imports Fl_Tree Fl_Gguf_Roundtrip
begin

text \<open>
  A participant's adapter delta, \<^verbatim>\<open>training-worker/src/fl/delta.rs\<close>: its layout, its rows and
  their commitment, the merge with the start adapter and the artifact encoding.

  Keccak-256 is the parameter \<open>K\<close>.  A float is its bit pattern; the rounding arithmetic on it is
  the parameter \<open>F\<close>: the scaled difference of two values, the Q16 encoding of the scaled
  difference (the \<^verbatim>\<open>citrate_fed_types\<close> crate) and the sum of a value and a scaled aggregate.
\<close>

definition FLD_MAGIC :: bytes where "FLD_MAGIC = str_bytes ''FLD1''"
definition FLD_VERSION :: u16 where "FLD_VERSION = 1"
definition HEADER_LEN :: nat where "HEADER_LEN = 4 + 2 + 1 + 1 + 32 + 20 + 32 + 32 + 32 + 4 + 8"
definition MANIFEST_DOMAIN :: bytes where "MANIFEST_DOMAIN = str_bytes ''citrate-fl-manifest/1''"

text \<open>Two to the thirtieth as an \<^verbatim>\<open>f32\<close>.\<close>

definition MAX_SCALED_ABS :: f32 where "MAX_SCALED_ABS = 0x4E800000"

text \<open>The texts of tree and GGUF errors are carried by the errors themselves.\<close>

datatype delta_error =
    Mismatch string
  | NotFinite string nat
  | OutOfRange string nat f32
  | ArtifactErr string
  | ArtifactTree tree_error
  | ArtifactGguf gguf_error
  | ChunkDim
  | TooLarge u64 u64

record float_ops =
  fo_scaled :: "u8 \<Rightarrow> f32 \<Rightarrow> f32 \<Rightarrow> f32"
  fo_q16 :: "f32 \<Rightarrow> i64"
  fo_merge :: "u8 \<Rightarrow> f32 \<Rightarrow> i64 \<Rightarrow> f32"

text \<open>Finite: not all exponent bits are set.  The magnitudes of finite floats are ordered as their bit
  patterns without the sign.\<close>

definition is_finite :: "f32 \<Rightarrow> bool" where
  "is_finite x \<longleftrightarrow> and x 0x7F800000 \<noteq> 0x7F800000"

definition abs_greater :: "f32 \<Rightarrow> f32 \<Rightarrow> bool" where
  "abs_greater x bound \<longleftrightarrow> and x 0x7FFFFFFF > bound"

section \<open>Layout\<close>

definition canonical :: "adapter \<Rightarrow> (nat \<times> string \<times> u64 list) list" where
  "canonical a =
     sort_key (\<lambda>(i, name, dims). name)
       (map (\<lambda>(i, t). (i, ti_name t, ti_dims t)) (enumerate 0 (gg_tensors (ad_header a))))"

definition manifest_entry :: "nat \<times> string \<times> u64 list \<Rightarrow> bytes" where
  "manifest_entry e =
     (case e of (_, name, dims) \<Rightarrow>
        to_be_bytes (of_nat (length name) :: u32) @ str_bytes name @
        to_be_bytes (of_nat (length dims) :: u32) @ concat (map to_be_bytes dims))"

definition manifest_hash :: "(bytes \<Rightarrow> b256) \<Rightarrow> adapter \<Rightarrow> b256" where
  "manifest_hash K a =
     (let c = canonical a in
      fl_keccak K [MANIFEST_DOMAIN @ to_be_bytes (of_nat (length c) :: u32) @
                   concat (map manifest_entry c)])"

definition value_count :: "adapter \<Rightarrow> u64" where
  "value_count a = sum_list (map (\<lambda>v. of_nat (length v)) (ad_values a))"

section \<open>The delta\<close>

fun delta_values ::
  "float_ops \<Rightarrow> u8 \<Rightarrow> string \<Rightarrow> nat \<Rightarrow> (f32 \<times> f32) list \<Rightarrow> delta_error + i64 list" where
  "delta_values F scale name index [] = Inr []"
| "delta_values F scale name index ((a, b) # rest) =
     (if \<not> is_finite b \<or> \<not> is_finite a then Inl (NotFinite name index)
      else
        let scaled = fo_scaled F scale a b in
        if \<not> is_finite scaled \<or> abs_greater scaled MAX_SCALED_ABS then Inl (OutOfRange name index scaled)
        else map_sum id (\<lambda>vs. fo_q16 F scaled # vs) (delta_values F scale name (index + 1) rest))"

text \<open>The loop over the two canonical lists (of one length); mismatches name the tensor.\<close>

fun compute_loop ::
  "float_ops \<Rightarrow> u8 \<Rightarrow> adapter \<Rightarrow> adapter \<Rightarrow>
   ((nat \<times> string \<times> u64 list) \<times> (nat \<times> string \<times> u64 list)) list \<Rightarrow> delta_error + i64 list" where
  "compute_loop F scale start trained [] = Inr []"
| "compute_loop F scale start trained (((si, sn, sd), (ti, tn, td)) # rest) =
     (if sn \<noteq> tn \<or> sd \<noteq> td then Inl (Mismatch sn)
      else
        let sv = ad_values start ! si; tv = ad_values trained ! ti in
        if length sv \<noteq> length tv then Inl (Mismatch sn)
        else
          case delta_values F scale sn 0 (zip sv tv) of
            Inl e \<Rightarrow> Inl e
          | Inr vs \<Rightarrow> map_sum id (\<lambda>ws. vs @ ws) (compute_loop F scale start trained rest))"

definition compute :: "float_ops \<Rightarrow> adapter \<Rightarrow> adapter \<Rightarrow> u8 \<Rightarrow> delta_error + i64 list" where
  "compute F start trained scale =
     (let s = canonical start; t = canonical trained in
      if length s \<noteq> length t then Inl (Mismatch ''tensor counts differ'')
      else compute_loop F scale start trained (zip s t))"

text \<open>The merge walks the tensors in name order and takes the next values of the aggregate for each.\<close>

fun merge_loop ::
  "float_ops \<Rightarrow> u8 \<Rightarrow> (nat \<times> string \<times> u64 list) list \<Rightarrow> i64 list \<Rightarrow> f32 list list \<Rightarrow> f32 list list" where
  "merge_loop F scale [] agg merged = merged"
| "merge_loop F scale ((fi, _, _) # rest) agg merged =
     (let n = length (merged ! fi) in
      merge_loop F scale rest (drop n agg)
        (merged[fi := map2 (fo_merge F scale) (merged ! fi) (take n agg)]))"

definition merge_adapter :: "float_ops \<Rightarrow> adapter \<Rightarrow> i64 list \<Rightarrow> u8 \<Rightarrow> delta_error + f32 list list" where
  "merge_adapter F start agg scale =
     (if of_nat (length agg) \<noteq> value_count start then Inl (Mismatch ''aggregate'')
      else Inr (merge_loop F scale (canonical start) agg (ad_values start)))"

definition merged_tensors :: "adapter \<Rightarrow> f32 list list \<Rightarrow> out_tensor list" where
  "merged_tensors start merged =
     map2 (\<lambda>t v. \<lparr>ot_name = ti_name t, ot_dims = ti_dims t, ot_values = v\<rparr>)
       (gg_tensors (ad_header start)) merged"

definition merged_gguf :: "adapter \<Rightarrow> f32 list list \<Rightarrow> delta_error + bytes" where
  "merged_gguf start merged =
     map_sum ArtifactGguf id (encode_f32 (gg_kv (ad_header start)) (merged_tensors start merged))"

section \<open>Rows and their commitment\<close>

definition row :: "i64 list \<Rightarrow> u32 \<Rightarrow> nat \<Rightarrow> i64 list" where
  "row values chunk_dim c =
     (let d = unat chunk_dim;
          lo = min (c * d) (length values);
          hi = min (lo + d) (length values)
      in take (hi - lo) (drop lo values))"

definition chunk_count :: "u64 \<Rightarrow> u32 \<Rightarrow> u64" where
  "chunk_count n_values chunk_dim = div_ceil n_values (ucast (max chunk_dim 1))"

definition row_bytes :: "i64 list \<Rightarrow> bytes" where
  "row_bytes r = concat (map to_be_bytes r)"

definition row_hash :: "(bytes \<Rightarrow> b256) \<Rightarrow> i64 list \<Rightarrow> b256" where
  "row_hash K r = fl_keccak K [row_bytes r]"

definition row_hashes :: "(bytes \<Rightarrow> b256) \<Rightarrow> i64 list \<Rightarrow> u32 \<Rightarrow> delta_error + b256 list" where
  "row_hashes K values chunk_dim =
     (if chunk_dim = 0 then Inl ChunkDim
      else
        let n = unat (chunk_count (of_nat (length values)) chunk_dim)
        in Inr (map (\<lambda>c. row_hash K (row values chunk_dim c)) [0..<n]))"

definition delta_root :: "(bytes \<Rightarrow> b256) \<Rightarrow> i64 list \<Rightarrow> u32 \<Rightarrow> delta_error + b256" where
  "delta_root K values chunk_dim =
     (case row_hashes K values chunk_dim of
        Inl e \<Rightarrow> Inl e
      | Inr rows \<Rightarrow> map_sum ArtifactTree id (tree_root K rows))"

section \<open>The artifact\<close>

record artifact =
  ar_value_scale_log2 :: u8
  ar_round_id :: b256
  ar_worker :: address
  ar_start_adapter_sha256 :: b256
  ar_trained_adapter_sha256 :: b256
  ar_manifest_hash :: b256
  ar_chunk_dim :: u32
  ar_values :: "i64 list"

definition encode_artifact :: "artifact \<Rightarrow> bytes" where
  "encode_artifact a =
     FLD_MAGIC @ to_be_bytes FLD_VERSION @ [ar_value_scale_log2 a] @ [0] @
     to_be_bytes (ar_round_id a) @ to_be_bytes (ar_worker a) @
     to_be_bytes (ar_start_adapter_sha256 a) @ to_be_bytes (ar_trained_adapter_sha256 a) @
     to_be_bytes (ar_manifest_hash a) @ to_be_bytes (ar_chunk_dim a) @
     to_be_bytes (of_nat (length (ar_values a)) :: u64) @ concat (map to_be_bytes (ar_values a))"

definition slice :: "nat \<Rightarrow> nat \<Rightarrow> bytes \<Rightarrow> bytes" where
  "slice lo n bs = take n (drop lo bs)"

definition decode_artifact :: "bytes \<Rightarrow> u64 \<Rightarrow> delta_error + artifact" where
  "decode_artifact bs max_values =
     (if length bs < HEADER_LEN then Inl (ArtifactErr ''shorter than the header'')
      else if slice 0 4 bs \<noteq> FLD_MAGIC then Inl (ArtifactErr ''bad magic'')
      else if from_be_bytes (slice 4 2 bs) \<noteq> FLD_VERSION then Inl (ArtifactErr ''unsupported version'')
      else if bs ! 7 \<noteq> 0 then Inl (ArtifactErr ''reserved byte is not zero'')
      else
        let worker = from_be_bytes (slice 40 20 bs);
            chunk_dim = from_be_bytes (slice 156 4 bs);
            n = (from_be_bytes (slice 160 8 bs) :: u64)
        in if n > max_values then Inl (TooLarge n max_values)
           else if chunk_dim = 0 then Inl ChunkDim
           else
             case checked_mul n 8 of
               None \<Rightarrow> Inl (ArtifactErr ''value count overflows'')
             | Some body \<Rightarrow>
                 if length bs \<noteq> HEADER_LEN + unat body
                 then Inl (ArtifactErr ''length does not match the value count'')
                 else
                   Inr \<lparr>ar_value_scale_log2 = bs ! 6, ar_round_id = from_be_bytes (slice 8 32 bs),
                        ar_worker = worker, ar_start_adapter_sha256 = from_be_bytes (slice 60 32 bs),
                        ar_trained_adapter_sha256 = from_be_bytes (slice 92 32 bs),
                        ar_manifest_hash = from_be_bytes (slice 124 32 bs), ar_chunk_dim = chunk_dim,
                        ar_values = map from_be_bytes (as_chunks 8 (drop HEADER_LEN bs))\<rparr>)"

section \<open>The encoding determines the artifact\<close>

lemma slice_drop: "slice lo n bs @ drop (lo + n) bs = drop lo bs"
  unfolding slice_def by (metis append_take_drop_id drop_drop add.commute)

lemma nth_drop_cons: "i < length bs \<Longrightarrow> [bs ! i] @ drop (i + 1) bs = drop i bs"
  by (simp add: Cons_nth_drop_Suc)

lemma length_slice [simp]: "lo + n \<le> length bs \<Longrightarrow> length (slice lo n bs) = n"
  by (simp add: slice_def)

lemma be_slice [simp]:
  "lo + 2 \<le> length bs \<Longrightarrow> to_be_bytes (from_be_bytes (slice lo 2 bs) :: u16) = slice lo 2 bs"
  "lo + 4 \<le> length bs \<Longrightarrow> to_be_bytes (from_be_bytes (slice lo 4 bs) :: u32) = slice lo 4 bs"
  "lo + 8 \<le> length bs \<Longrightarrow> to_be_bytes (from_be_bytes (slice lo 8 bs) :: u64) = slice lo 8 bs"
  "lo + 20 \<le> length bs \<Longrightarrow> to_be_bytes (from_be_bytes (slice lo 20 bs) :: address) = slice lo 20 bs"
  "lo + 32 \<le> length bs \<Longrightarrow> to_be_bytes (from_be_bytes (slice lo 32 bs) :: b256) = slice lo 32 bs"
  by (simp_all add: to_from_be_bytes)

lemma values_of_bytes:
  assumes "length bs = 8 * n"
  shows "concat (map to_be_bytes (map from_be_bytes (as_chunks 8 bs) :: i64 list)) = bs"
    and "length (as_chunks 8 bs) = n"
proof -
  show n: "length (as_chunks 8 bs) = n" using assms by simp
  have "to_be_bytes (from_be_bytes c :: i64) = c" if "c \<in> set (as_chunks 8 bs)" for c
    using that chunks_width [of bs 8 n c] assms by (simp add: as_chunks_def to_from_be_bytes)
  then have "map (\<lambda>c. to_be_bytes (from_be_bytes c :: i64)) (as_chunks 8 bs) = as_chunks 8 bs"
    by (intro map_idI)
  then show "concat (map to_be_bytes (map from_be_bytes (as_chunks 8 bs) :: i64 list)) = bs"
    using concat_chunks [of bs 8 n] assms by (simp add: as_chunks_def comp_def)
qed

lemma values_bytes:
  "map from_be_bytes (as_chunks 8 (concat (map to_be_bytes (vs :: i64 list)))) = vs"
proof -
  have "as_chunks 8 (concat (map to_be_bytes vs)) = map to_be_bytes vs"
    by (rule as_chunks_concat) auto
  then show ?thesis by (simp add: comp_def)
qed

lemma length_be_values: "length (concat (map to_be_bytes (vs :: i64 list))) = 8 * length vs"
  by (subst length_concat_width [where w = 8]) auto

definition artifact_ok :: "u64 \<Rightarrow> artifact \<Rightarrow> bool" where
  "artifact_ok max_values a \<longleftrightarrow>
     ar_chunk_dim a \<noteq> 0 \<and> length (ar_values a) \<le> unat max_values \<and> 8 * length (ar_values a) < 2 ^ 64"

lemma encode_slices:
  fixes a
  defines "bs \<equiv> encode_artifact a"
  shows "length bs = 168 + 8 * length (ar_values a)" "slice 0 4 bs = FLD_MAGIC"
    "slice 4 2 bs = to_be_bytes FLD_VERSION" "bs ! 6 = ar_value_scale_log2 a" "bs ! 7 = 0"
    "slice 8 32 bs = to_be_bytes (ar_round_id a)" "slice 40 20 bs = to_be_bytes (ar_worker a)"
    "slice 60 32 bs = to_be_bytes (ar_start_adapter_sha256 a)"
    "slice 92 32 bs = to_be_bytes (ar_trained_adapter_sha256 a)"
    "slice 124 32 bs = to_be_bytes (ar_manifest_hash a)"
    "slice 156 4 bs = to_be_bytes (ar_chunk_dim a)"
    "slice 160 8 bs = to_be_bytes (of_nat (length (ar_values a)) :: u64)"
    "drop 168 bs = concat (map to_be_bytes (ar_values a))"
  by (simp_all add: bs_def encode_artifact_def slice_def length_be_values FLD_MAGIC_def nth_append)

lemma decode_encode:
  assumes "artifact_ok max_values a"
  shows "decode_artifact (encode_artifact a) max_values = Inr a"
proof -
  let ?n = "of_nat (length (ar_values a)) :: u64"
  have n: "unat ?n = length (ar_values a)"
    using assms by (intro unat_of_nat_small) (simp add: artifact_ok_def)
  have le: "\<not> ?n > max_values" using assms by (simp add: word_less_nat_alt n artifact_ok_def)
  have mul: "checked_mul ?n 8 = Some (?n * 8)" "unat (?n * 8) = 8 * length (ar_values a)"
    using assms n by (simp_all add: checked_mul_def artifact_ok_def unat_word_ariths)
  show ?thesis
    using assms le mul
    by (simp add: decode_artifact_def encode_slices HEADER_LEN_def values_bytes artifact_ok_def)
qed

lemma decode_Inr:
  assumes "decode_artifact bs max_values = Inr a"
  shows "encode_artifact a = bs" and "artifact_ok max_values a"
proof -
  let ?n = "from_be_bytes (slice 160 8 bs) :: u64"
  have len: "168 \<le> length bs" and magic: "slice 0 4 bs = FLD_MAGIC"
    and version: "from_be_bytes (slice 4 2 bs) = FLD_VERSION" and zero: "bs ! 7 = 0"
    and max: "?n \<le> max_values" and cd: "from_be_bytes (slice 156 4 bs) \<noteq> (0 :: u32)"
    and mul: "unat ?n * 8 < 2 ^ 64" and total: "length bs = 168 + unat ?n * 8"
    and a: "a = \<lparr>ar_value_scale_log2 = bs ! 6, ar_round_id = from_be_bytes (slice 8 32 bs),
        ar_worker = from_be_bytes (slice 40 20 bs), ar_start_adapter_sha256 = from_be_bytes (slice 60 32 bs),
        ar_trained_adapter_sha256 = from_be_bytes (slice 92 32 bs),
        ar_manifest_hash = from_be_bytes (slice 124 32 bs), ar_chunk_dim = from_be_bytes (slice 156 4 bs),
        ar_values = map from_be_bytes (as_chunks 8 (drop 168 bs))\<rparr>"
    using assms unfolding decode_artifact_def Let_def HEADER_LEN_def
    by (auto simp: checked_mul_Some_iff not_less split: if_splits option.splits)
  have body: "length (drop 168 bs) = 8 * unat ?n" using total by simp
  note vals = values_of_bytes [OF body]
  show "artifact_ok max_values a"
    using max cd mul vals(2) by (simp add: a artifact_ok_def word_le_nat_alt)
  have version': "to_be_bytes FLD_VERSION = slice 4 2 bs"
    using len by (simp add: version [symmetric])
  have count: "to_be_bytes (of_nat (length (ar_values a)) :: u64) = slice 160 8 bs"
    using vals(2) len by (simp add: a del: length_as_chunks)
  have pieces: "slice 160 8 bs @ drop 168 bs = drop 160 bs" "slice 156 4 bs @ drop 160 bs = drop 156 bs"
    "slice 124 32 bs @ drop 156 bs = drop 124 bs" "slice 92 32 bs @ drop 124 bs = drop 92 bs"
    "slice 60 32 bs @ drop 92 bs = drop 60 bs" "slice 40 20 bs @ drop 60 bs = drop 40 bs"
    "slice 8 32 bs @ drop 40 bs = drop 8 bs" "[bs ! 7] @ drop 8 bs = drop 7 bs"
    "[bs ! 6] @ drop 7 bs = drop 6 bs" "slice 4 2 bs @ drop 6 bs = drop 4 bs"
    "slice 0 4 bs @ drop 4 bs = drop 0 bs"
    using slice_drop [of 160 8 bs] slice_drop [of 156 4 bs] slice_drop [of 124 32 bs]
      slice_drop [of 92 32 bs] slice_drop [of 60 32 bs] slice_drop [of 40 20 bs] slice_drop [of 8 32 bs]
      slice_drop [of 4 2 bs] slice_drop [of 0 4 bs] nth_drop_cons [of 7 bs] nth_drop_cons [of 6 bs] len
    by simp_all
  have "encode_artifact a = slice 0 4 bs @ slice 4 2 bs @ [bs ! 6] @ [bs ! 7] @ slice 8 32 bs @
      slice 40 20 bs @ slice 60 32 bs @ slice 92 32 bs @ slice 124 32 bs @ slice 156 4 bs @
      slice 160 8 bs @ drop 168 bs"
    using len vals(1) unfolding encode_artifact_def count version' magic [symmetric] zero
    by (simp add: a)
  also have "\<dots> = bs" unfolding pieces by simp
  finally show "encode_artifact a = bs" .
qed

end
