(* ===== verification/Fl_Node.thy ===== *)
theory Fl_Node
  imports Fl_Hex Fl_Delta Protocol
begin

text \<open>
  The aggregator's client of a Citrate node, the first half of
  \<^verbatim>\<open>training-coordinator/src/fl_round.rs\<close>: the ABI of \<^verbatim>\<open>f(bytes)\<close>, the JSON-RPC call and its retry
  loop.  The node is the function \<open>net\<close> from the number of the try, from one, to what it answers;
  durations are numbers of nanoseconds.
\<close>

section \<open>The ABI of a call with one bytes argument\<close>

definition selector :: "(bytes \<Rightarrow> b256) \<Rightarrow> string \<Rightarrow> bytes" where
  "selector K sig = take 4 (to_be_bytes (fl_keccak K [str_bytes sig]))"

definition encode_bytes_call :: "(bytes \<Rightarrow> b256) \<Rightarrow> string \<Rightarrow> bytes \<Rightarrow> bytes" where
  "encode_bytes_call K sig data =
     resize (4 + 64 + (length data + 31) div 32 * 32)
       (selector K sig @ (replicate 31 0 @ [0x20]) @
        (replicate 24 0 @ to_be_bytes (of_nat (length data) :: u64)) @ data)"

definition usize_add :: "nat \<Rightarrow> nat \<Rightarrow> nat option" where
  "usize_add a b = (if a + b < 2 ^ 64 then Some (a + b) else None)"

definition abi_word :: "bytes \<Rightarrow> nat \<Rightarrow> string + nat" where
  "abi_word ret i =
     (case usize_add i 32 of
        None \<Rightarrow> Inl ''ABI offset out of range''
      | Some stop \<Rightarrow>
          if stop > length ret then Inl ''return data too short''
          else
            let w = slice i 32 ret in
            if \<exists>b \<in> set (take 24 w). b \<noteq> 0 then Inl ''ABI word out of range''
            else Inr (unat (from_be_bytes (drop 24 w) :: u64)))"

definition decode_bytes_return :: "bytes \<Rightarrow> string + bytes" where
  "decode_bytes_return ret =
     (case abi_word ret 0 of
        Inl e \<Rightarrow> Inl e
      | Inr off \<Rightarrow>
          (case abi_word ret off of
             Inl e \<Rightarrow> Inl e
           | Inr len \<Rightarrow>
               (case usize_add off 32 of
                  None \<Rightarrow> Inl ''ABI offset out of range''
                | Some start \<Rightarrow>
                    (case usize_add start len of
                       None \<Rightarrow> Inl ''ABI length out of range''
                     | Some stop \<Rightarrow>
                         if stop > length ret then Inl ''return data shorter than its length''
                         else Inr (slice start len ret)))))"

section \<open>The JSON-RPC call\<close>

definition json_get :: "string \<Rightarrow> json \<Rightarrow> json option" where
  "json_get key j = (case j of JObj members \<Rightarrow> map_of members key | _ \<Rightarrow> None)"

definition json_as_str :: "json \<Rightarrow> string option" where
  "json_as_str j = (case j of JStr s \<Rightarrow> Some s | _ \<Rightarrow> None)"

definition json_as_i64 :: "json \<Rightarrow> int option" where
  "json_as_i64 j =
     (case j of JInt n \<Rightarrow> if - (2 ^ 63) \<le> n \<and> n < 2 ^ 63 then Some n else None | _ \<Rightarrow> None)"

definition RPC_LIMIT_EXCEEDED :: int where "RPC_LIMIT_EXCEEDED = - 32005"

definition is_rate_limited :: "json \<Rightarrow> bool" where
  "is_rate_limited error \<longleftrightarrow> Option.bind (json_get ''code'' error) json_as_i64 = Some RPC_LIMIT_EXCEEDED"

text \<open>What one POST gives: a transport error, status 429, a body that is not JSON, or a JSON body.\<close>

datatype http_reply =
    SendError string
  | TooManyRequests
  | BodyError string
  | Body json

datatype node_error =
    NodeHttp string
  | NodeLimited u32
  | NodeFailed json
  | NodeNoResult
  | NodeHex
  | NodeAbi string

record rate_limit_retry =
  rt_attempts :: u32
  rt_initial :: nat
  rt_max :: nat

definition default_retry :: rate_limit_retry where
  "default_retry = \<lparr>rt_attempts = 10, rt_initial = 250 * 10 ^ 6, rt_max = 4 * 10 ^ 9\<rparr>"

definition asks_to_slow_down :: "http_reply \<Rightarrow> bool" where
  "asks_to_slow_down reply =
     (case reply of
        TooManyRequests \<Rightarrow> True
      | Body r \<Rightarrow> (case json_get ''error'' r of None \<Rightarrow> False | Some e \<Rightarrow> is_rate_limited e)
      | _ \<Rightarrow> False)"

text \<open>The loop: its result and the waits it slept.\<close>

function rpc_loop ::
  "rate_limit_retry \<Rightarrow> (nat \<Rightarrow> http_reply) \<Rightarrow> u32 \<Rightarrow> nat \<Rightarrow> (node_error + json) \<times> nat list" where
  "rpc_loop R net attempt wait =
     (case net (unat attempt) of
        SendError e \<Rightarrow> (Inl (NodeHttp e), [])
      | BodyError e \<Rightarrow> (Inl (NodeHttp e), [])
      | reply \<Rightarrow>
          if \<not> asks_to_slow_down reply then
            ((case reply of Body r \<Rightarrow> Inr r | _ \<Rightarrow> Inl (NodeLimited attempt)), [])
          else if attempt < rt_attempts R then
            let (res, ws) = rpc_loop R net (attempt + 1) (min (wait * 2) (rt_max R))
            in (res, wait # ws)
          else (Inl (NodeLimited attempt), []))"
  by pat_completeness auto

termination
  by (relation "measure (\<lambda>(R, net, attempt, wait). unat (rt_attempts R) - unat attempt)")
    (auto simp: unat_inc_below word_less_nat_alt)

declare rpc_loop.simps [simp del]

definition rpc_result :: "codec \<Rightarrow> json \<Rightarrow> node_error + bytes" where
  "rpc_result H res =
     (case json_get ''error'' res of
        Some e \<Rightarrow> Inl (NodeFailed e)
      | None \<Rightarrow>
          (case Option.bind (json_get ''result'' res) json_as_str of
             None \<Rightarrow> Inl NodeNoResult
           | Some hexret \<Rightarrow>
               (case hx_decode H (trim_0x hexret) of
                  None \<Rightarrow> Inl NodeHex
                | Some raw \<Rightarrow> map_sum NodeAbi id (decode_bytes_return raw))))"

text \<open>The request body; \<open>server\<close> is the node's answers to posts of it.\<close>

definition rpc_body :: "(bytes \<Rightarrow> b256) \<Rightarrow> codec \<Rightarrow> address \<Rightarrow> bytes \<Rightarrow> json" where
  "rpc_body K H ledger input =
     JObj [(''jsonrpc'', JStr ''2.0''), (''id'', JInt 1), (''method'', JStr ''eth_call''),
       (''params'', JArr
          [JObj [(''to'', JStr (hex0x H (to_be_bytes ledger))),
                 (''data'', JStr (hex0x H (encode_bytes_call K ''belnapAggregate(bytes)'' input)))],
           JStr ''latest''])]"

definition rpc_aggregate ::
  "(bytes \<Rightarrow> b256) \<Rightarrow> codec \<Rightarrow> rate_limit_retry \<Rightarrow> address \<Rightarrow> (json \<Rightarrow> nat \<Rightarrow> http_reply) \<Rightarrow> bytes \<Rightarrow>
   node_error + bytes" where
  "rpc_aggregate K H R ledger server input =
     (case fst (rpc_loop R (server (rpc_body K H ledger input)) 1 (rt_initial R)) of
        Inl e \<Rightarrow> Inl e
      | Inr res \<Rightarrow> rpc_result H res)"

section \<open>The call and its return\<close>

text \<open>What the node returns for \<open>data\<close>: the arguments of a call, without the selector.\<close>

definition abi_return :: "(bytes \<Rightarrow> b256) \<Rightarrow> bytes \<Rightarrow> bytes" where
  "abi_return K data = drop 4 (encode_bytes_call K [] data)"

lemma ceil_32: "n \<le> (n + 31) div 32 * (32 :: nat)"
proof -
  have "n + 31 = (n + 31) div 32 * 32 + (n + 31) mod 32" by simp
  moreover have "(n + 31) mod 32 < 32" by simp
  ultimately show ?thesis by linarith
qed

lemma length_selector [simp]: "length (selector K sig) = 4"
  by (simp add: selector_def)

lemma encode_bytes_call_eq:
  "encode_bytes_call K sig data =
     selector K sig @ (replicate 31 0 @ [0x20]) @
     (replicate 24 0 @ to_be_bytes (of_nat (length data) :: u64)) @ data @
     replicate ((length data + 31) div 32 * 32 - length data) 0"
  using ceil_32 [of "length data"] by (simp add: encode_bytes_call_def resize_def)

lemma abi_return_eq:
  "abi_return K data =
     (replicate 31 0 @ [0x20]) @ (replicate 24 0 @ to_be_bytes (of_nat (length data) :: u64)) @ data @
     replicate ((length data + 31) div 32 * 32 - length data) 0"
  by (simp add: abi_return_def encode_bytes_call_eq)

lemma from_be_32: "from_be_bytes ([0, 0, 0, 0, 0, 0, 0, 0x20]) = (0x20 :: u64)"
  by (simp add: from_be_bytes_def from_le_bytes_def)

lemma abi_word_return:
  assumes "length data < 2 ^ 63"
  shows "abi_word (abi_return K data) 0 = Inr 32" "abi_word (abi_return K data) 32 = Inr (length data)"
proof -
  have "replicate 31 0 @ [0x20] = replicate 24 (0 :: u8) @ [0, 0, 0, 0, 0, 0, 0, 0x20]"
    by (simp add: numeral_eq_Suc)
  then have w0: "slice 0 32 (abi_return K data) = replicate 24 0 @ [0, 0, 0, 0, 0, 0, 0, 0x20]"
    by (simp add: abi_return_eq slice_def)
  have w1: "slice 32 32 (abi_return K data) = replicate 24 0 @ to_be_bytes (of_nat (length data) :: u64)"
    by (simp add: abi_return_eq slice_def)
  have n: "unat (of_nat (length data) :: u64) = length data"
    using assms by (intro unat_of_nat_small) simp
  have len: "64 \<le> length (abi_return K data)" by (simp add: abi_return_eq)
  show "abi_word (abi_return K data) 0 = Inr 32"
    using len by (simp add: abi_word_def usize_add_def w0 from_be_32)
  show "abi_word (abi_return K data) 32 = Inr (length data)"
    using len by (simp add: abi_word_def usize_add_def w1 n)
qed

lemma decode_abi_return:
  assumes "length data < 2 ^ 63"
  shows "decode_bytes_return (abi_return K data) = Inr data"
proof -
  have "slice 64 (length data) (abi_return K data) = data"
    by (simp add: abi_return_eq slice_def)
  moreover have "64 + length data \<le> length (abi_return K data)" by (simp add: abi_return_eq)
  ultimately show ?thesis
    using assms by (simp add: decode_bytes_return_def abi_word_return usize_add_def)
qed

text \<open>What a node returns for \<open>data\<close> is read back as \<open>data\<close>; what is read from any return is a
  piece of it.\<close>

lemma decode_bytes_piece:
  "decode_bytes_return ret = Inr data \<Longrightarrow> \<exists>start. data = slice start (length data) ret \<and> start + length data \<le> length ret"
  by (auto simp: decode_bytes_return_def usize_add_def slice_def split: sum.splits option.splits if_splits)

section \<open>The retry loop\<close>

definition backoff :: "rate_limit_retry \<Rightarrow> nat \<Rightarrow> nat \<Rightarrow> nat" where
  "backoff R w k = (if k = 0 then w else min (w * 2 ^ k) (rt_max R))"

lemma backoff_Suc: "backoff R (min (w * 2) (rt_max R)) k = backoff R w (Suc k)"
proof -
  have "min (min x M * c) M = min (x * c) M" if "1 \<le> c" for x M c :: nat
  proof (cases "x \<le> M")
    case False
    have "M \<le> M * c" "x \<le> x * c" using that by simp_all
    with False have "min (M * c) M = M" "min (x * c) M = M" by linarith+
    with False show ?thesis by simp
  qed simp
  from this [of "2 ^ k" "w * 2" "rt_max R"]
  have "min (min (w * 2) (rt_max R) * 2 ^ k) (rt_max R) = min (w * (2 * 2 ^ k)) (rt_max R)"
    by (simp add: mult.assoc)
  then show ?thesis by (simp add: backoff_def)
qed

definition rpc_outcome :: "rate_limit_retry \<Rightarrow> (nat \<Rightarrow> http_reply) \<Rightarrow> nat \<Rightarrow> node_error + json \<Rightarrow> bool" where
  "rpc_outcome R net k res \<longleftrightarrow>
     (case res of
        Inr r \<Rightarrow> net k = Body r \<and> \<not> asks_to_slow_down (Body r)
      | Inl (NodeHttp e) \<Rightarrow> net k = SendError e \<or> net k = BodyError e
      | Inl (NodeLimited n) \<Rightarrow> asks_to_slow_down (net k) \<and> unat n = k \<and> rt_attempts R \<le> n
      | _ \<Rightarrow> False)"

lemma list_all_upt_Suc: "list_all P [0..<Suc n] \<longleftrightarrow> P 0 \<and> list_all (\<lambda>k. P (Suc k)) [0..<n]"
proof -
  have "[0..<Suc n] = 0 # map Suc [0..<n]" by (simp add: upt_conv_Cons map_Suc_upt del: upt_Suc)
  then show ?thesis by (simp add: list.pred_map comp_def del: upt_Suc)
qed

lemma rpc_loop_spec:
  "rpc_loop R net a w = (res, ws) \<Longrightarrow>
     length ws \<le> unat (rt_attempts R) - unat a \<and>
     ws = map (backoff R w) [0..<length ws] \<and>
     list_all (\<lambda>k. asks_to_slow_down (net (unat a + k))) [0..<length ws] \<and>
     rpc_outcome R net (unat a + length ws) res"
proof (induction R net a w arbitrary: res ws rule: rpc_loop.induct)
  case (1 R net a w)
  show ?case
  proof (cases "asks_to_slow_down (net (unat a)) \<and> a < rt_attempts R")
    case False
    then show ?thesis
      using 1(3) by (cases "net (unat a)")
        (auto simp: rpc_loop.simps [of R net a w] rpc_outcome_def asks_to_slow_down_def not_less
          split: if_splits)
  next
    case True
    obtain res' ws' where rec: "rpc_loop R net (a + 1) (min (w * 2) (rt_max R)) = (res', ws')"
      by (cases "rpc_loop R net (a + 1) (min (w * 2) (rt_max R))")
    have eq: "res = res'" "ws = w # ws'"
      using 1(3) True rec by (cases "net (unat a)"; simp add: rpc_loop.simps [of R net a w] asks_to_slow_down_def)+
    have inc: "unat (a + 1) = Suc (unat a)" using unat_inc_below [of a "rt_attempts R"] True by simp
    have IH: "length ws' \<le> unat (rt_attempts R) - unat (a + 1) \<and>
       ws' = map (backoff R (min (w * 2) (rt_max R))) [0..<length ws'] \<and>
       list_all (\<lambda>k. asks_to_slow_down (net (unat (a + 1) + k))) [0..<length ws'] \<and>
       rpc_outcome R net (unat (a + 1) + length ws') res'"
      using 1(1,2) True rec by (cases "net (unat a)") (auto simp: asks_to_slow_down_def)
    have shift: "backoff R (min (w * 2) (rt_max R)) = (\<lambda>k. backoff R w (Suc k))"
      by (rule ext) (rule backoff_Suc)
    have "ws' = map (\<lambda>k. backoff R w (Suc k)) [0..<length ws']"
      using IH unfolding shift by (elim conjE)
    moreover have "map (backoff R w) [0..<Suc (length ws')] =
        backoff R w 0 # map (\<lambda>k. backoff R w (Suc k)) [0..<length ws']"
      by (rule map_upt_Suc)
    ultimately have "ws = map (backoff R w) [0..<length ws]"
      unfolding eq by (simp only: list.size add_0_right add_Suc_right) (simp add: backoff_def [of R w 0])
    moreover have "list_all (\<lambda>k. asks_to_slow_down (net (unat a + k))) [0..<length ws]"
      using IH True unfolding eq inc list.size add_0_right add_Suc_right list_all_upt_Suc add_Suc
      by (simp only: simp_thms)
    moreover have "unat a < unat (rt_attempts R)" using True by (simp add: word_less_nat_alt)
    ultimately show ?thesis using IH unfolding eq inc by auto
  qed
qed

text \<open>The retry loop ends.  Against any node it makes at most the configured number of tries, waits
  between them as the capped exponential backoff says, retries only on rate-limit answers, and
  returns what the last try gave: its answer, its transport error, or that the node is still
  limiting after exactly the configured number of tries.\<close>

theorem retry_loop_ends:
  "let (res, waits) = rpc_loop R net 1 (rt_initial R); n = length waits in
     n \<le> unat (rt_attempts R) - 1 \<and>
     waits = map (backoff R (rt_initial R)) [0..<n] \<and>
     list_all (\<lambda>k. asks_to_slow_down (net (1 + k))) [0..<n] \<and>
     rpc_outcome R net (1 + n) res"
  using rpc_loop_spec [of R net 1 "rt_initial R"]
  by (cases "rpc_loop R net 1 (rt_initial R)") simp

end
