(* ===== verification/Fl_Round.thy ===== *)
theory Fl_Round
  imports Fl_Node Coordinator_State
begin

text \<open>
  Aggregating a federated round, the second half of \<^verbatim>\<open>training-coordinator/src/fl_round.rs\<close>:
  collecting and verifying contributions, aggregating them through a node, the bundle, its proofs
  and its check.

  \<open>round_deps\<close> holds the code that is not in the repository: Keccak-256, SHA-256, the \<^verbatim>\<open>hex\<close> crate,
  public-key recovery, and \<^verbatim>\<open>serde_json\<close> for the payloads and results.  The delta directory is a function from file
  names to contents or to the text of the error.  The texts of error messages are constructors that
  carry what the text is formatted from.
\<close>

record round_deps =
  rd_keccak :: "bytes \<Rightarrow> b256"
  rd_sha256 :: "bytes \<Rightarrow> b256"
  rd_hex :: codec
  rd_recover :: "b256 \<Rightarrow> bytes \<Rightarrow> address option"
  rd_payload :: "json \<Rightarrow> lora_payload option"
  rd_result :: "string \<Rightarrow> string + lora_result"
  rd_float :: float_ops

type_synonym delta_dir = "string \<Rightarrow> string + bytes"

definition BUNDLE_VERSION :: string where "BUNDLE_VERSION = ''citrate-fl-round-bundle/1''"

datatype round_error =
    RConfig config_error
  | RTooFew nat u16
  | RNode node_error
  | RChunk nat belnap_error
  | RBelnap belnap_error
  | RIo string
  | RTree tree_error
  | RDelta delta_error
  | RHex hex_error
  | ROther string

datatype exclusion_reason =
    ConfigDiffers
  | DoneWithoutResult
  | NotAResult string
  | OtherWorker
  | OtherRound
  | NotOnRoster
  | SignatureNotHex
  | SignatureNotWorker
  | ArtifactUnavailable string string
  | ArtifactHash
  | ArtifactBad delta_error
  | HeaderMismatch
  | RootMismatch
  | SecondContribution

record contribution =
  cn_job :: string
  cn_result :: lora_result
  cn_artifact :: artifact

record exclusion =
  ex_job :: string
  ex_reason :: exclusion_reason

section \<open>Collecting\<close>

definition delta_file :: "codec \<Rightarrow> b256 \<Rightarrow> string" where
  "delta_file H sha = hx_encode H (to_be_bytes sha) @ ''.fld''"

text \<open>The checks on one submitted result \<open>r\<close> by \<open>submitter\<close>, in the order of the code.\<close>

definition check_artifact ::
  "round_deps \<Rightarrow> round_config \<Rightarrow> b256 \<Rightarrow> b256 \<Rightarrow> u64 \<Rightarrow> lora_result \<Rightarrow> bytes \<Rightarrow> exclusion_reason + artifact" where
  "check_artifact D cfg rid manifest expect r bs =
     (if rd_sha256 D bs \<noteq> lr_delta_sha256 r then Inl ArtifactHash
      else
        case decode_artifact bs (fc_max_values cfg) of
          Inl e \<Rightarrow> Inl (ArtifactBad e)
        | Inr art \<Rightarrow>
            if ar_round_id art \<noteq> rid \<or> ar_worker art \<noteq> lr_worker r \<or>
               ar_start_adapter_sha256 art \<noteq> fc_start_adapter_sha256 cfg \<or>
               ar_manifest_hash art \<noteq> manifest \<or> ar_chunk_dim art \<noteq> fc_chunk_dim cfg \<or>
               ar_value_scale_log2 art \<noteq> fc_value_scale_log2 cfg \<or>
               of_nat (length (ar_values art)) \<noteq> expect \<or> lr_n_values r \<noteq> expect \<or>
               lr_chunk_dim r \<noteq> fc_chunk_dim cfg
            then Inl HeaderMismatch
            else if delta_root (rd_keccak D) (ar_values art) (fc_chunk_dim cfg) \<noteq> Inr (lr_delta_root r)
            then Inl RootMismatch
            else Inr art)"

definition check_result ::
  "round_deps \<Rightarrow> round_config \<Rightarrow> b256 \<Rightarrow> b256 \<Rightarrow> u64 \<Rightarrow> delta_dir \<Rightarrow> address \<Rightarrow> lora_result \<Rightarrow>
   exclusion_reason + artifact" where
  "check_result D cfg rid manifest expect deltas submitter r =
     (if lr_worker r \<noteq> submitter then Inl OtherWorker
      else if lr_round_id r \<noteq> rid then Inl OtherRound
      else if \<not> in_roster cfg (lr_worker r) then Inl NotOnRoster
      else
        case hx_decode (rd_hex D) (trim_0x (lr_signature r)) of
          None \<Rightarrow> Inl SignatureNotHex
        | Some sig \<Rightarrow>
            if rd_recover D (result_digest (rd_keccak D) r) sig \<noteq> Some (lr_worker r) then Inl SignatureNotWorker
            else
              case deltas (delta_file (rd_hex D) (lr_delta_sha256 r)) of
                Inl e \<Rightarrow> Inl (ArtifactUnavailable (delta_file (rd_hex D) (lr_delta_sha256 r)) e)
              | Inr bs \<Rightarrow> check_artifact D cfg rid manifest expect r bs)"

text \<open>What the loop does with one job: leave it alone, exclude it, or a checked contribution.\<close>

datatype verdict =
    Skip
  | Exclude exclusion_reason
  | Valid lora_result artifact

definition judge ::
  "round_deps \<Rightarrow> round_config \<Rightarrow> b256 \<Rightarrow> b256 \<Rightarrow> u64 \<Rightarrow> delta_dir \<Rightarrow> job_record \<Rightarrow> verdict" where
  "judge D cfg rid manifest expect deltas rec =
     (case rd_payload D (js_payload (jr_spec rec)) of
        None \<Rightarrow> Skip
      | Some p \<Rightarrow>
          if lp_round_id p \<noteq> rid then Skip
          else if lp_config p \<noteq> cfg then Exclude ConfigDiffers
          else
            case jr_status rec of
              Done worker _ \<Rightarrow>
                (case jr_result rec of
                   None \<Rightarrow> Exclude DoneWithoutResult
                 | Some raw \<Rightarrow>
                     (case rd_result D raw of
                        Inl e \<Rightarrow> Exclude (NotAResult e)
                      | Inr r \<Rightarrow>
                          (case check_result D cfg rid manifest expect deltas worker r of
                             Inl why \<Rightarrow> Exclude why
                           | Inr art \<Rightarrow> Valid r art)))
            | _ \<Rightarrow> Skip)"

fun collect_loop ::
  "(job_record \<Rightarrow> verdict) \<Rightarrow> (string \<times> job_record) list \<Rightarrow> (address, contribution) btree \<Rightarrow> exclusion list \<Rightarrow>
   (address, contribution) btree \<times> exclusion list" where
  "collect_loop J [] by_worker excluded = (by_worker, excluded)"
| "collect_loop J ((job, rec) # rest) by_worker excluded =
     (case J rec of
        Skip \<Rightarrow> collect_loop J rest by_worker excluded
      | Exclude why \<Rightarrow> collect_loop J rest by_worker (excluded @ [\<lparr>ex_job = job, ex_reason = why\<rparr>])
      | Valid r art \<Rightarrow>
          if bt_has by_worker (lr_worker r) then
            collect_loop J rest by_worker (excluded @ [\<lparr>ex_job = job, ex_reason = SecondContribution\<rparr>])
          else
            collect_loop J rest
              (bt_insert (lr_worker r) \<lparr>cn_job = job, cn_result = r, cn_artifact = art\<rparr> by_worker) excluded)"

definition judge_round ::
  "round_deps \<Rightarrow> round_config \<Rightarrow> u64 \<Rightarrow> delta_dir \<Rightarrow> adapter \<Rightarrow> job_record \<Rightarrow> verdict" where
  "judge_round D cfg ordinal deltas start =
     judge D cfg (config_round_id (rd_keccak D) cfg ordinal) (manifest_hash (rd_keccak D) start)
       (value_count start) deltas"

definition collect ::
  "round_deps \<Rightarrow> state \<Rightarrow> round_config \<Rightarrow> u64 \<Rightarrow> delta_dir \<Rightarrow> adapter \<Rightarrow> contribution list \<times> exclusion list" where
  "collect D st cfg ordinal deltas start =
     (let (by_worker, excluded) = collect_loop (judge_round D cfg ordinal deltas start) (st_jobs st) [] []
      in (bt_values by_worker, excluded))"

section \<open>The bundle\<close>

record bundle_participant =
  bp_worker :: address
  bp_job :: string
  bp_delta_root :: b256
  bp_delta_sha256 :: b256
  bp_result :: lora_result

record round_bundle =
  bu_version :: string
  bu_ordinal :: u64
  bu_round_id :: b256
  bu_config_hash :: b256
  bu_config :: round_config
  bu_participants :: "bundle_participant list"
  bu_n_values :: u64
  bu_chunks :: u32
  bu_input_hashes :: "string list"
  bu_output_hashes :: "string list"
  bu_participants_root :: b256
  bu_input_root :: b256
  bu_output_root :: b256
  bu_adapter_sha256 :: b256
  bu_record_digest :: b256
  bu_state_counts :: "u64 list"
  bu_excluded :: "exclusion list"

definition participant_payload :: "(bytes \<Rightarrow> b256) \<Rightarrow> address \<Rightarrow> b256 \<Rightarrow> b256" where
  "participant_payload K worker dr = fl_keccak K [to_be_bytes worker, to_be_bytes dr]"

definition word_u64 :: "u64 \<Rightarrow> bytes" where
  "word_u64 v = replicate 24 0 @ to_be_bytes v"

definition word_addr :: "address \<Rightarrow> bytes" where
  "word_addr a = replicate 12 0 @ to_be_bytes a"

definition record_digest ::
  "(bytes \<Rightarrow> b256) \<Rightarrow> u64 \<Rightarrow> address \<Rightarrow> b256 \<Rightarrow> b256 \<Rightarrow> b256 \<Rightarrow> b256 \<Rightarrow> b256 \<Rightarrow> b256 \<Rightarrow> u64 \<Rightarrow> u32 \<Rightarrow> u16 \<Rightarrow> b256"
where
  "record_digest K chain_id ledger rid chash proot iroot oroot ahash n_values n_chunks participants =
     fl_keccak K
       [word_u64 chain_id, word_addr ledger, to_be_bytes rid, to_be_bytes chash, to_be_bytes proot,
        to_be_bytes iroot, to_be_bytes oroot, to_be_bytes ahash, word_u64 n_values,
        word_u64 (ucast n_chunks), word_u64 (ucast participants)]"

definition COMMIT_SIG :: string where
  "COMMIT_SIG = ''commitRound((bytes32,uint64,bytes32,bytes32,uint16,uint64,bytes32,bytes32,uint32,bytes32))''"

definition commit_calldata :: "(bytes \<Rightarrow> b256) \<Rightarrow> round_bundle \<Rightarrow> bytes" where
  "commit_calldata K b =
     selector K COMMIT_SIG @ to_be_bytes (fc_cluster_id (bu_config b)) @ word_u64 (bu_ordinal b) @
     to_be_bytes (bu_config_hash b) @ to_be_bytes (bu_participants_root b) @
     word_u64 (of_nat (length (bu_participants b))) @ word_u64 (bu_n_values b) @
     to_be_bytes (bu_input_root b) @ to_be_bytes (bu_output_root b) @ word_u64 (ucast (bu_chunks b)) @
     to_be_bytes (bu_adapter_sha256 b)"

record intent =
  in_kind :: string
  in_chain_id :: u64
  in_to :: string
  in_data :: string
  in_summary :: string

definition commit_intent :: "(bytes \<Rightarrow> b256) \<Rightarrow> codec \<Rightarrow> round_bundle \<Rightarrow> intent" where
  "commit_intent K H b =
     \<lparr>in_kind = ''flCommitRound'', in_chain_id = fc_chain_id (bu_config b),
      in_to = hex0x H (to_be_bytes (fc_ledger (bu_config b))),
      in_data = hex0x H (commit_calldata K b),
      in_summary = ''Commit federated round '' @ hex0x H (to_be_bytes (bu_round_id b)) @ '' (ordinal '' @
        show_dec (unat (bu_ordinal b)) @ '') of cluster '' @
        hex0x H (to_be_bytes (fc_cluster_id (bu_config b))) @ '': '' @
        show_dec (length (bu_participants b)) @ '' participants, '' @ show_dec (unat (bu_chunks b)) @
        '' chunks, merged adapter sha256 '' @ hx_encode H (to_be_bytes (bu_adapter_sha256 b))\<rparr>"

section \<open>Aggregating\<close>

text \<open>The node's precompile: from the number of the call and its input to an output or an error.\<close>

type_synonym backend = "nat \<Rightarrow> bytes \<Rightarrow> round_error + bytes"

record chunk_acc =
  ca_agg :: "i64 list"
  ca_inputs :: "b256 list"
  ca_outputs :: "b256 list"
  ca_counts :: "u64 list"

definition count_states :: "u64 list \<Rightarrow> bytes \<Rightarrow> u64 list" where
  "count_states counts states = foldl (\<lambda>cs s. cs[unat s := cs ! unat s + 1]) counts states"

definition chunk_rows :: "round_config \<Rightarrow> artifact list \<Rightarrow> nat \<Rightarrow> i64 list list" where
  "chunk_rows cfg arts c = map (\<lambda>a. row (ar_values a) (fc_chunk_dim cfg) c) arts"

definition aggregate_chunk ::
  "round_config \<Rightarrow> artifact list \<Rightarrow> backend \<Rightarrow> nat \<Rightarrow> round_error + bytes \<times> bytes \<times> chunk_output" where
  "aggregate_chunk cfg arts backend c =
     (let rows = chunk_rows cfg arts c in
      case chunk_input rows (config_chunk_rules cfg) of
        Inl e \<Rightarrow> Inl (RChunk c e)
      | Inr input \<Rightarrow>
          (case backend c input of
             Inl e \<Rightarrow> Inl e
           | Inr output \<Rightarrow>
               (case parse_output output (length (rows ! 0)) of
                  Inl e \<Rightarrow> Inl (RChunk c e)
                | Inr parsed \<Rightarrow> Inr (input, output, parsed))))"

fun aggregate_loop ::
  "(bytes \<Rightarrow> b256) \<Rightarrow> round_config \<Rightarrow> artifact list \<Rightarrow> backend \<Rightarrow> nat list \<Rightarrow> chunk_acc \<Rightarrow>
   round_error + chunk_acc" where
  "aggregate_loop K cfg arts backend [] acc = Inr acc"
| "aggregate_loop K cfg arts backend (c # cs) acc =
     (case aggregate_chunk cfg arts backend c of
        Inl e \<Rightarrow> Inl e
      | Inr (input, output, parsed) \<Rightarrow>
          aggregate_loop K cfg arts backend cs
            \<lparr>ca_agg = ca_agg acc @ co_values parsed, ca_inputs = ca_inputs acc @ [fl_keccak K [input]],
             ca_outputs = ca_outputs acc @ [fl_keccak K [output]],
             ca_counts = count_states (ca_counts acc) (co_states parsed)\<rparr>)"

definition empty_acc :: chunk_acc where
  "empty_acc = \<lparr>ca_agg = [], ca_inputs = [], ca_outputs = [], ca_counts = [0, 0, 0, 0]\<rparr>"

definition participant_of :: "contribution \<Rightarrow> bundle_participant" where
  "participant_of k =
     \<lparr>bp_worker = lr_worker (cn_result k), bp_job = cn_job k, bp_delta_root = lr_delta_root (cn_result k),
      bp_delta_sha256 = lr_delta_sha256 (cn_result k), bp_result = cn_result k\<rparr>"

text \<open>The roots of the three trees, and the bundle built from them.\<close>

definition three_roots ::
  "(bytes \<Rightarrow> b256) \<Rightarrow> b256 list \<Rightarrow> b256 list \<Rightarrow> b256 list \<Rightarrow> round_error + b256 \<times> b256 \<times> b256" where
  "three_roots K parts ins outs =
     (case tree_root K parts of
        Inl e \<Rightarrow> Inl (RTree e)
      | Inr p \<Rightarrow>
          (case tree_root K ins of
             Inl e \<Rightarrow> Inl (RTree e)
           | Inr i \<Rightarrow>
               (case tree_root K outs of Inl e \<Rightarrow> Inl (RTree e) | Inr o' \<Rightarrow> Inr (p, i, o'))))"

definition u16_of :: "nat \<Rightarrow> round_error + u16" where
  "u16_of n = (if n < 2 ^ 16 then Inr (of_nat n) else Inl (ROther ''too many participants''))"

definition bundle_of ::
  "round_deps \<Rightarrow> round_config \<Rightarrow> u64 \<Rightarrow> contribution list \<Rightarrow> exclusion list \<Rightarrow> adapter \<Rightarrow> chunk_acc \<Rightarrow> b256 \<Rightarrow>
   b256 \<times> b256 \<times> b256 \<Rightarrow> u16 \<Rightarrow> round_bundle" where
  "bundle_of D cfg ordinal contributions excluded start acc ahash roots participants =
     (let (proot, iroot, oroot) = roots;
          K = rd_keccak D;
          n_values = value_count start;
          chunks = ucast (chunk_count n_values (fc_chunk_dim cfg));
          rid = config_round_id K cfg ordinal
      in \<lparr>bu_version = BUNDLE_VERSION, bu_ordinal = ordinal, bu_round_id = rid,
          bu_config_hash = config_hash K cfg, bu_config = cfg,
          bu_participants = map participant_of contributions, bu_n_values = n_values, bu_chunks = chunks,
          bu_input_hashes = map (\<lambda>h. hex0x (rd_hex D) (to_be_bytes h)) (ca_inputs acc),
          bu_output_hashes = map (\<lambda>h. hex0x (rd_hex D) (to_be_bytes h)) (ca_outputs acc),
          bu_participants_root = proot, bu_input_root = iroot, bu_output_root = oroot,
          bu_adapter_sha256 = ahash,
          bu_record_digest =
            record_digest K (fc_chain_id cfg) (fc_ledger cfg) rid (config_hash K cfg) proot iroot oroot
              ahash n_values chunks participants,
          bu_state_counts = ca_counts acc, bu_excluded = excluded\<rparr>)"

definition payload_of :: "(bytes \<Rightarrow> b256) \<Rightarrow> bundle_participant \<Rightarrow> b256" where
  "payload_of K p = participant_payload K (bp_worker p) (bp_delta_root p)"

definition aggregate ::
  "round_deps \<Rightarrow> round_config \<Rightarrow> u64 \<Rightarrow> contribution list \<Rightarrow> exclusion list \<Rightarrow> adapter \<Rightarrow> backend \<Rightarrow>
   round_error + round_bundle \<times> bytes" where
  "aggregate D cfg ordinal contributions excluded start backend =
     (case validate_config cfg of
        Inl e \<Rightarrow> Inl (RConfig e)
      | Inr _ \<Rightarrow>
          if length contributions < unat (fc_min_participants cfg)
          then Inl (RTooFew (length contributions) (fc_min_participants cfg))
          else
            let K = rd_keccak D; chunks = chunk_count (value_count start) (fc_chunk_dim cfg) in
            if unat chunks \<ge> 2 ^ 32 then Inl (ROther ''too many chunks'')
            else
              case aggregate_loop K cfg (map cn_artifact contributions) backend [0..<unat chunks] empty_acc of
                Inl e \<Rightarrow> Inl e
              | Inr acc \<Rightarrow>
                  (case merge_adapter (rd_float D) start (ca_agg acc) (fc_value_scale_log2 cfg) of
                     Inl e \<Rightarrow> Inl (RDelta e)
                   | Inr merged \<Rightarrow>
                       (case merged_gguf start merged of
                          Inl e \<Rightarrow> Inl (RDelta e)
                        | Inr bs \<Rightarrow>
                            (case three_roots K (map (payload_of K \<circ> participant_of) contributions)
                                    (ca_inputs acc) (ca_outputs acc) of
                               Inl e \<Rightarrow> Inl e
                             | Inr roots \<Rightarrow>
                                 (case u16_of (length contributions) of
                                    Inl e \<Rightarrow> Inl e
                                  | Inr n \<Rightarrow>
                                      Inr (bundle_of D cfg ordinal contributions excluded start acc
                                             (rd_sha256 D bs) roots n, bs))))))"

section \<open>Checking a bundle\<close>

text \<open>\<^verbatim>\<open>collect::<Result<Vec<_>, _>>()\<close>: the first error, or all the values.\<close>

fun collect_results :: "('a \<Rightarrow> 'e + 'b) \<Rightarrow> 'a list \<Rightarrow> 'e + 'b list" where
  "collect_results f [] = Inr []"
| "collect_results f (x # xs) =
     (case f x of Inl e \<Rightarrow> Inl e | Inr y \<Rightarrow> map_sum id (\<lambda>ys. y # ys) (collect_results f xs))"

definition parse_list :: "codec \<Rightarrow> string list \<Rightarrow> round_error + b256 list" where
  "parse_list H xs = collect_results (\<lambda>s. map_sum RHex from_be_bytes (parse_hex H 32 s)) xs"

record roots =
  ro_participants :: b256
  ro_input :: b256
  ro_output :: b256
  ro_record :: b256

definition recompute_roots :: "(bytes \<Rightarrow> b256) \<Rightarrow> codec \<Rightarrow> round_bundle \<Rightarrow> round_error + roots" where
  "recompute_roots K H b =
     (case tree_root K (map (payload_of K) (bu_participants b)) of
        Inl e \<Rightarrow> Inl (RTree e)
      | Inr proot \<Rightarrow>
          (case parse_list H (bu_input_hashes b) of
             Inl e \<Rightarrow> Inl e
           | Inr ins \<Rightarrow>
               (case tree_root K ins of
                  Inl e \<Rightarrow> Inl (RTree e)
                | Inr iroot \<Rightarrow>
                    (case parse_list H (bu_output_hashes b) of
                       Inl e \<Rightarrow> Inl e
                     | Inr outs \<Rightarrow>
                         (case tree_root K outs of
                            Inl e \<Rightarrow> Inl (RTree e)
                          | Inr oroot \<Rightarrow>
                              (case u16_of (length (bu_participants b)) of
                                 Inl e \<Rightarrow> Inl e
                               | Inr n \<Rightarrow>
                                   Inr \<lparr>ro_participants = proot, ro_input = iroot, ro_output = oroot,
                                        ro_record = record_digest K (fc_chain_id (bu_config b))
                                          (fc_ledger (bu_config b)) (bu_round_id b) (bu_config_hash b)
                                          proot iroot oroot (bu_adapter_sha256 b) (bu_n_values b)
                                          (bu_chunks b) n\<rparr>))))))"

definition check_bundle_roots :: "(bytes \<Rightarrow> b256) \<Rightarrow> codec \<Rightarrow> round_bundle \<Rightarrow> round_error + unit" where
  "check_bundle_roots K H b =
     (case recompute_roots K H b of
        Inl e \<Rightarrow> Inl e
      | Inr r \<Rightarrow>
          if ro_participants r \<noteq> bu_participants_root b
          then Inl (ROther ''participants root does not follow from its leaves'')
          else if ro_input r \<noteq> bu_input_root b
          then Inl (ROther ''input root does not follow from its leaves'')
          else if ro_output r \<noteq> bu_output_root b
          then Inl (ROther ''output root does not follow from its leaves'')
          else if ro_record r \<noteq> bu_record_digest b
          then Inl (ROther ''record digest does not follow from the bundle'')
          else Inr ())"

section \<open>Proofs for a challenge\<close>

record row_proof =
  rp_participant :: u16
  rp_worker :: string
  rp_delta_root :: string
  rp_participant_proof :: "string list"
  rp_row_hash :: string
  rp_row_proof :: "string list"

record chunk_proof =
  cp_chunk :: u32
  cp_input :: string
  cp_input_proof :: "string list"
  cp_output_hash :: string
  cp_output_proof :: "string list"
  cp_rows :: "row_proof list"

text \<open>An index out of range panics: \<open>Panicked\<close>.\<close>

datatype 'a run =
    Returns 'a
  | Fails round_error
  | Panicked

definition run_of :: "round_error + 'a \<Rightarrow> 'a run" where
  "run_of r = (case r of Inl e \<Rightarrow> Fails e | Inr v \<Rightarrow> Returns v)"

definition run_bind :: "'a run \<Rightarrow> ('a \<Rightarrow> 'b run) \<Rightarrow> 'b run" where
  "run_bind r f = (case r of Returns v \<Rightarrow> f v | Fails e \<Rightarrow> Fails e | Panicked \<Rightarrow> Panicked)"

definition index_of :: "'a list \<Rightarrow> nat \<Rightarrow> 'a run" where
  "index_of xs i = (if i < length xs then Returns (xs ! i) else Panicked)"

definition read_artifact :: "round_deps \<Rightarrow> delta_dir \<Rightarrow> u64 \<Rightarrow> bundle_participant \<Rightarrow> round_error + artifact" where
  "read_artifact D deltas max_values p =
     (case deltas (delta_file (rd_hex D) (bp_delta_sha256 p)) of
        Inl e \<Rightarrow> Inl (RIo e)
      | Inr bs \<Rightarrow>
          if rd_sha256 D bs \<noteq> bp_delta_sha256 p then Inl (ROther ''does not hash'')
          else map_sum RDelta id (decode_artifact bs max_values))"

definition hex_path :: "codec \<Rightarrow> b256 list \<Rightarrow> string list" where
  "hex_path H path = map (\<lambda>h. hex0x H (to_be_bytes h)) path"

definition row_proof_of ::
  "(bytes \<Rightarrow> b256) \<Rightarrow> codec \<Rightarrow> u32 \<Rightarrow> b256 list \<Rightarrow> nat \<Rightarrow> nat \<times> bundle_participant \<times> artifact \<Rightarrow> row_proof run" where
  "row_proof_of K H chunk_dim payloads c e =
     (case e of (i, p, a) \<Rightarrow>
        run_bind (run_of (map_sum RDelta id (row_hashes K (ar_values a) chunk_dim))) (\<lambda>rh.
        run_bind (run_of (map_sum RTree id (tree_proof K payloads i))) (\<lambda>pp.
        run_bind (index_of rh c) (\<lambda>h.
        run_bind (run_of (map_sum RTree id (tree_proof K rh c))) (\<lambda>rp.
          Returns \<lparr>rp_participant = of_nat i, rp_worker = hex0x H (to_be_bytes (bp_worker p)),
                   rp_delta_root = hex0x H (to_be_bytes (bp_delta_root p)),
                   rp_participant_proof = hex_path H pp, rp_row_hash = hex0x H (to_be_bytes h),
                   rp_row_proof = hex_path H rp\<rparr>)))))"

fun run_all :: "('a \<Rightarrow> 'b run) \<Rightarrow> 'a list \<Rightarrow> 'b list run" where
  "run_all f [] = Returns []"
| "run_all f (x # xs) = run_bind (f x) (\<lambda>y. run_bind (run_all f xs) (\<lambda>ys. Returns (y # ys)))"

definition chunk_proof_of :: "round_deps \<Rightarrow> round_bundle \<Rightarrow> delta_dir \<Rightarrow> u32 \<Rightarrow> chunk_proof run" where
  "chunk_proof_of D b deltas chunk =
     (let K = rd_keccak D; H = rd_hex D; c = unat chunk; cfg = bu_config b in
      if c \<ge> unat (bu_chunks b) then Fails (ROther ''chunk >= chunks'')
      else
        run_bind (run_of (collect_results (read_artifact D deltas (fc_max_values cfg)) (bu_participants b))) (\<lambda>arts.
        run_bind (run_of (map_sum RBelnap id (chunk_input (chunk_rows cfg arts c) (config_chunk_rules cfg)))) (\<lambda>input.
        run_bind (run_of (parse_list H (bu_input_hashes b))) (\<lambda>ins.
        run_bind (run_of (parse_list H (bu_output_hashes b))) (\<lambda>outs.
        run_bind (index_of ins c) (\<lambda>committed.
          if fl_keccak K [input] \<noteq> committed
          then Fails (ROther ''the rebuilt input does not match the committed leaf'')
          else
            run_bind (run_all (row_proof_of K H (fc_chunk_dim cfg) (map (payload_of K) (bu_participants b)) c)
                        (enumerate 0 (zip (bu_participants b) arts))) (\<lambda>rows.
            run_bind (run_of (map_sum RTree id (tree_proof K ins c))) (\<lambda>ip.
            run_bind (index_of outs c) (\<lambda>oh.
            run_bind (run_of (map_sum RTree id (tree_proof K outs c))) (\<lambda>op.
              Returns \<lparr>cp_chunk = chunk, cp_input = hex0x H input, cp_input_proof = hex_path H ip,
                       cp_output_hash = hex0x H (to_be_bytes oh), cp_output_proof = hex_path H op,
                       cp_rows = rows\<rparr>))))))))))"

end
