(* ===== verification/Fl_Delta_Theorems.thy ===== *)
theory Fl_Delta_Theorems
  imports Fl_Delta "HOL-Library.Multiset"
begin

text \<open>
  What the delta code guarantees: the artifact encoding is a bijection onto the byte strings the
  decoder accepts, the rows of a vector partition it, the merge adds the aggregate coordinate by
  coordinate and keeps the layout, and the merged adapter the coordinator writes loads again with
  exactly the merged values.
\<close>

text \<open>C30: the decoder accepts exactly the encodings of artifacts within the round's limit, and gives
  the artifact back.\<close>

theorem artifact_roundtrip:
  "decode_artifact bs max_values = Inr a \<longleftrightarrow> bs = encode_artifact a \<and> artifact_ok max_values a"
  using decode_encode decode_Inr by metis

section \<open>Rows\<close>

lemma row_nth:
  assumes "0 < chunk_dim"
  shows "row values chunk_dim c = take (unat chunk_dim) (drop (c * unat chunk_dim) values)"
  by (simp add: row_def Let_def min_def)

lemma ceil_nat:
  fixes q :: nat
  assumes "r < b"
  shows "(q * b + r + b - 1) div b = (if r = 0 then q else q + 1)"
proof (rule div_nat_eqI)
  show "b * (if r = 0 then q else q + 1) \<le> q * b + r + b - 1"
    using assms by (auto simp: algebra_simps)
  show "q * b + r + b - 1 < b * Suc (if r = 0 then q else q + 1)"
    using assms by (auto simp: algebra_simps)
qed

lemma unat_div_ceil:
  assumes "b \<noteq> 0"
  shows "unat (div_ceil a b) = (unat a + unat b - 1) div unat b"
proof -
  have b: "0 < unat b" using assms by (simp add: unat_gt_0)
  let ?q = "unat a div unat b" and ?r = "unat a mod unat b"
  have a: "unat a = ?q * unat b + ?r" by simp
  have q: "(unat a + unat b - 1) div unat b = (if ?r = 0 then ?q else ?q + 1)"
    using ceil_nat [of ?r "unat b" ?q] b a by simp
  have z: "?r = 0 \<longleftrightarrow> a mod b = 0" by (metis unat_eq_zero unat_mod_distrib)
  show ?thesis
  proof (cases "a mod b = 0")
    case True
    then show ?thesis using q z by (simp add: div_ceil_def unat_div_distrib)
  next
    case False
    then have "?r \<noteq> 0" using z by simp
    moreover have "unat b \<noteq> 1" using calculation by auto
    ultimately have "?q < unat a" using b by (intro div_less_dividend) (auto intro: gr0I)
    then have "?q + 1 < 2 ^ LENGTH('a)"
      using unsigned_less [of a, where ?'a = nat] by linarith
    then have "unat (a div b + 1) = ?q + 1"
      by (simp add: unat_word_ariths unat_div_distrib)
    then show ?thesis using False q z by (simp add: div_ceil_def)
  qed
qed

lemma unat_chunk_count:
  assumes "chunk_dim \<noteq> 0"
  shows "unat (chunk_count n chunk_dim) = (unat n + unat chunk_dim - 1) div unat chunk_dim"
proof -
  have "max chunk_dim 1 = chunk_dim"
    using assms by (simp add: max_def word_le_nat_alt word_unat_eq_iff)
  moreover have u: "unat (ucast chunk_dim :: u64) = unat chunk_dim"
    using unsigned_less [of chunk_dim, where ?'a = nat] by (simp add: unat_ucast_small)
  moreover have "(ucast chunk_dim :: u64) \<noteq> 0"
    using u assms by (metis unat_0 unat_eq_zero)
  ultimately show ?thesis by (simp add: chunk_count_def unat_div_ceil)
qed

lemma concat_take_drop:
  "concat (map (\<lambda>c. take d (drop (c * d) xs)) [0..<n]) = take (n * d) xs"
proof (induction n)
  case (Suc n)
  have "take (n * d) xs @ take d (drop (n * d) xs) = take (n * d + d) xs"
    by (simp add: take_add)
  with Suc show ?case by (simp add: add.commute)
qed simp

lemma rows_partition:
  assumes "chunk_dim \<noteq> 0" and "length values < 2 ^ 64"
  shows "concat (map (row values chunk_dim) [0..<unat (chunk_count (of_nat (length values)) chunk_dim)]) = values"
proof -
  let ?d = "unat chunk_dim" and ?n = "length values"
  have d: "0 < ?d" using assms(1) by (simp add: unat_gt_0)
  have r: "row values chunk_dim = (\<lambda>c. take ?d (drop (c * ?d) values))"
    using assms(1) by (intro ext row_nth) (simp add: word_neq_0_conv)
  have "?n \<le> (?n + ?d - 1) div ?d * ?d"
  proof -
    have "(?n + ?d - 1) = (?n + ?d - 1) div ?d * ?d + (?n + ?d - 1) mod ?d" by simp
    moreover have "(?n + ?d - 1) mod ?d < ?d" using d by simp
    ultimately show ?thesis by linarith
  qed
  then show ?thesis
    using assms by (simp add: r concat_take_drop unat_chunk_count unat_of_nat_small)
qed

lemma row_bytes_inject: "row_bytes r = row_bytes r' \<longleftrightarrow> r = r'"
  unfolding row_bytes_def by (metis values_bytes)

text \<open>What \<open>delta_root\<close> hashes: the rows, and the tree over their hashes.\<close>

definition delta_hashed :: "(bytes \<Rightarrow> b256) \<Rightarrow> i64 list \<Rightarrow> u32 \<Rightarrow> bytes set" where
  "delta_hashed K values chunk_dim =
     (let n = unat (chunk_count (of_nat (length values)) chunk_dim);
          rows = map (row values chunk_dim) [0..<n]
      in set (map row_bytes rows) \<union> tree_hashed K (map (row_hash K) rows))"

text \<open>C29: a path that verifies the hash of some row against the delta root at index \<open>c\<close> proves that
  the row is chunk \<open>c\<close> of the committed values, as long as the hash does not collide on what the
  prover and the verifier hash.\<close>

theorem delta_root_binds:
  assumes "delta_root K values chunk_dim = Inr r"
    and "tree_verify K r c (row_hash K rw) path"
    and "collision_free K (delta_hashed K values chunk_dim \<union> {row_bytes rw} \<union>
           proof_hashed K c (row_hash K rw) path)"
  shows "unat c < unat (chunk_count (of_nat (length values)) chunk_dim) \<and> row values chunk_dim (unat c) = rw"
proof -
  define n where "n = unat (chunk_count (of_nat (length values)) chunk_dim)"
  define rows where "rows = map (row values chunk_dim) [0..<n]"
  have root: "tree_root K (map (row_hash K) rows) = Inr r"
    using assms(1)
    by (auto simp: delta_root_def row_hashes_def Let_def rows_def n_def comp_def map_sum_def
        split: if_splits sum.splits)
  have hashed: "delta_hashed K values chunk_dim = set (map row_bytes rows) \<union> tree_hashed K (map (row_hash K) rows)"
    by (simp only: delta_hashed_def rows_def n_def Let_def)
  have "collision_free K (tree_hashed K (map (row_hash K) rows) \<union> proof_hashed K c (row_hash K rw) path)"
    using assms(3) unfolding hashed collision_free_def by (auto intro: inj_on_subset)
  note pos = tree_verify_position [OF root assms(2) this]
  then have c: "unat c < n" by (simp add: rows_def)
  with pos(2) have "K (row_bytes (row values chunk_dim (unat c))) = K (row_bytes rw)"
    by (simp add: rows_def row_hash_def fl_keccak_def)
  moreover have "row_bytes (row values chunk_dim (unat c)) \<in> set (map row_bytes rows)"
    using c by (auto simp: rows_def)
  ultimately have "row_bytes (row values chunk_dim (unat c)) = row_bytes rw"
    using collision_free_eq [OF assms(3)] unfolding hashed by blast
  with c show ?thesis by (simp add: row_bytes_inject n_def)
qed

definition row_example_hash :: "bytes \<Rightarrow> b256" where
  "row_example_hash bs =
     (if bs = row_bytes [5] then 5 else if bs = row_bytes [9] then 9 else example_hash bs)"

lemma row_example_hash [simp]:
  "row_example_hash (leaf_pre i p) = example_hash (leaf_pre i p)"
  "row_example_hash (node_pre l r) = example_hash (node_pre l r)"
  "row_hash row_example_hash [5] = 5" "row_hash row_example_hash [9] = 9"
  "row_example_hash (row_bytes [5]) = 5" "row_example_hash (row_bytes [9]) = 9"
proof -
  have "length (row_bytes [x]) = 8" for x by (simp add: row_bytes_def)
  moreover have "length (leaf_pre i p) = 37" "length (node_pre l r) = 65"
    by (simp_all add: leaf_pre_def node_pre_def LEAF_TAG_def NODE_TAG_def)
  ultimately have "leaf_pre i p \<noteq> row_bytes [x]" "node_pre l r \<noteq> row_bytes [x]" for x
    by (metis numeral_eq_iff num.distinct num.inject)+
  then show "row_example_hash (leaf_pre i p) = example_hash (leaf_pre i p)"
    "row_example_hash (node_pre l r) = example_hash (node_pre l r)"
    by (simp_all add: row_example_hash_def)
  show "row_hash row_example_hash [5] = 5" "row_hash row_example_hash [9] = 9"
    "row_example_hash (row_bytes [5]) = 5" "row_example_hash (row_bytes [9]) = 9"
    by (simp_all add: row_hash_def fl_keccak_def row_example_hash_def row_bytes_inject)
qed

lemma row_example:
  "[0..<2] = [0, Suc 0]" "chunk_count 2 1 = 2" "row [5, 9] 1 0 = [5]" "row [5, 9] 1 (Suc 0) = [9]"
  by (simp_all add: chunk_count_def div_ceil_def row_def upt_rec)

theorem delta_root_binds_witness:
  "unat (1 :: u32) < unat (chunk_count (of_nat (length [5, 9 :: i64])) 1) \<and> row [5, 9] 1 (unat (1 :: u32)) = [9]"
proof (rule delta_root_binds)
  have tree: "leaves row_example_hash [5, 9] = Inr [1, 2]" "root_loop row_example_hash [1, 2] = 3"
    "tree_height (Suc (Suc 0)) = 1"
    by (simp_all add: leaves_def MAX_LEAVES_def next_power_of_two.simps leaf_eq tree_height.simps
        root_loop_step node_eq)
  have two: "{0..<2} = {0, Suc 0}" by auto
  show "delta_root row_example_hash [5, 9] 1 = Inr 3"
    by (simp add: delta_root_def row_hashes_def row_example tree_root_def tree)
  show "tree_verify row_example_hash 3 1 (row_hash row_example_hash [9]) [1]"
    by (simp add: tree_verify_def leaf_eq node_eq)
  show "collision_free row_example_hash (delta_hashed row_example_hash [5, 9] 1 \<union> {row_bytes [9]} \<union>
      proof_hashed row_example_hash 1 (row_hash row_example_hash [9]) [1])"
  proof -
    have "delta_hashed row_example_hash [5, 9] 1 =
        {row_bytes [5], row_bytes [9], leaf_pre 0 5, leaf_pre 1 9, node_pre 1 2}"
      by (simp add: delta_hashed_def row_example tree_hashed_def tree two insert_commute)
    moreover have "proof_hashed row_example_hash 1 9 [1] = {leaf_pre 1 9, node_pre 1 2}"
      by (simp add: proof_hashed_def leaf_eq)
    moreover have "collision_free row_example_hash
        {row_bytes [5], row_bytes [9], leaf_pre 0 5, leaf_pre 1 9, node_pre 1 2}"
      by (auto simp: collision_free_def)
    ultimately show ?thesis by (simp add: insert_commute)
  qed
qed

section \<open>The merge\<close>

lemma mset_canonical: "mset (canonical a) = mset (map (\<lambda>(i, t). (i, ti_name t, ti_dims t)) (enumerate 0 (gg_tensors (ad_header a))))"
  by (simp add: canonical_def)

definition canonical_indices :: "adapter \<Rightarrow> nat list" where
  "canonical_indices a = map fst (canonical a)"

lemma canonical_indices: "mset (canonical_indices a) = mset [0..<length (gg_tensors (ad_header a))]"
proof -
  have "mset (canonical_indices a) = image_mset fst (mset (canonical a))"
    by (simp add: canonical_indices_def)
  also have "\<dots> = mset (map fst (enumerate 0 (gg_tensors (ad_header a))))"
    unfolding mset_canonical mset_map multiset.map_comp by (simp only: comp_def case_prod_beta fst_conv)
  also have "\<dots> = mset [0..<length (gg_tensors (ad_header a))]"
    by (simp only: map_fst_enumerate add_0)
  finally show ?thesis .
qed

lemma canonical_indices_props:
  "distinct (canonical_indices a)" "set (canonical_indices a) = {..<length (gg_tensors (ad_header a))}"
proof -
  show "distinct (canonical_indices a)"
    using mset_eq_imp_distinct_iff [OF canonical_indices, of a] by (simp only: distinct_upt)
  have "set (canonical_indices a) = set [0..<length (gg_tensors (ad_header a))]"
    by (rule mset_eq_setD [OF canonical_indices])
  then show "set (canonical_indices a) = {..<length (gg_tensors (ad_header a))}"
    by (simp only: atLeast_upt)
qed

text \<open>The values of an adapter in canonical order.\<close>

definition flat_values :: "nat list \<Rightarrow> 'a list list \<Rightarrow> 'a list" where
  "flat_values is vss = concat (map (\<lambda>i. vss ! i) is)"

lemma merge_loop_values:
  "distinct (map fst entries) \<Longrightarrow> (\<And>i. i \<in> fst ` set entries \<Longrightarrow> i < length vss) \<Longrightarrow>
   length agg = length (flat_values (map fst entries) vss) \<Longrightarrow>
   flat_values (map fst entries) (merge_loop F scale entries agg vss) =
     map2 (fo_merge F scale) (flat_values (map fst entries) vss) agg \<and>
   map length (merge_loop F scale entries agg vss) = map length vss \<and>
   (\<forall>i. i \<notin> fst ` set entries \<longrightarrow> merge_loop F scale entries agg vss ! i = vss ! i)"
proof (induction F scale entries agg vss rule: merge_loop.induct)
  case (1 F scale agg merged)
  then show ?case by (simp add: flat_values_def)
next
  case (2 F scale fi name dims rest agg merged)
  let ?n = "length (merged ! fi)"
  let ?m = "merged[fi := map2 (fo_merge F scale) (merged ! fi) (take ?n agg)]"
  have fi: "fi < length merged" and fresh: "fi \<notin> fst ` set rest"
    using "2.prems"(1,2) by (auto simp: image_iff)
  have same: "flat_values (map fst rest) ?m = flat_values (map fst rest) merged"
    unfolding flat_values_def using fresh
    by (intro arg_cong [where f = concat] map_cong refl) (auto simp: image_iff)
  have len: "length agg = ?n + length (flat_values (map fst rest) merged)"
    using "2.prems"(3) by (simp add: flat_values_def)
  have IH: "flat_values (map fst rest) (merge_loop F scale rest (drop ?n agg) ?m) =
      map2 (fo_merge F scale) (flat_values (map fst rest) ?m) (drop ?n agg) \<and>
    map length (merge_loop F scale rest (drop ?n agg) ?m) = map length ?m \<and>
    (\<forall>i. i \<notin> fst ` set rest \<longrightarrow> merge_loop F scale rest (drop ?n agg) ?m ! i = ?m ! i)"
  proof (rule "2.IH" [OF refl])
    show "distinct (map fst rest)" using "2.prems"(1) by simp
    show "i < length ?m" if "i \<in> fst ` set rest" for i
      using "2.prems"(2) [of i] that by simp
    show "length (drop ?n agg) = length (flat_values (map fst rest) ?m)"
      unfolding same using len by simp
  qed
  have lens: "map length ?m = map length merged"
    using fi len by (simp add: map_update list_update_same_conv)
  have split: "map2 (fo_merge F scale) (merged ! fi @ xs) agg =
      map2 (fo_merge F scale) (merged ! fi) (take ?n agg) @ map2 (fo_merge F scale) xs (drop ?n agg)" for xs
    by (simp add: zip_append1)
  let ?r = "merge_loop F scale rest (drop ?n agg) ?m"
  have step: "merge_loop F scale ((fi, name, dims) # rest) agg merged = ?r"
    by (simp add: Let_def)
  have at: "?r ! fi = map2 (fo_merge F scale) (merged ! fi) (take ?n agg)"
    using IH fi fresh by simp
  have "flat_values (map fst ((fi, name, dims) # rest)) ?r =
      map2 (fo_merge F scale) (flat_values (map fst ((fi, name, dims) # rest)) merged) agg"
    using IH at same split by (simp add: flat_values_def)
  moreover have "map length ?r = map length merged" using IH lens by simp
  moreover have "\<forall>i. i \<notin> fst ` set ((fi, name, dims) # rest) \<longrightarrow> ?r ! i = merged ! i"
    using IH by auto
  ultimately show ?case unfolding step by blast
qed

lemma canonical_cong:
  assumes "map ti_name (gg_tensors (ad_header a)) = map ti_name (gg_tensors (ad_header b))"
    and "map ti_dims (gg_tensors (ad_header a)) = map ti_dims (gg_tensors (ad_header b))"
  shows "canonical a = canonical b"
proof -
  have "map (\<lambda>(i, t). (i, ti_name t, ti_dims t)) (enumerate n xs) =
      map (\<lambda>(i, t). (i, ti_name t, ti_dims t)) (enumerate n ys)"
    if "map ti_name xs = map ti_name ys" "map ti_dims xs = map ti_dims ys" for n xs ys
    using that
  proof (induction xs arbitrary: n ys)
    case (Cons x xs)
    then show ?case by (cases ys) auto
  qed auto
  from this [OF assms] show ?thesis unfolding canonical_def by (simp only:)
qed

lemma load_adapter_props:
  assumes "load_adapter bs = Inr a"
  shows "read_header bs = Inr (ad_header a)" "is_lora_adapter (ad_header a)"
    "load_tensors bs (ad_header a) (gg_tensors (ad_header a)) = Inr (ad_values a)"
  using assms by (auto simp: load_adapter_def map_sum_def split: sum.splits if_splits)

lemma loaded_sizes:
  assumes "load_adapter bs = Inr a" and "length bs < 2 ^ 40"
  shows "length (ad_values a) = length (gg_tensors (ad_header a))" "length (ad_values a) \<le> 2 ^ 20"
    "\<And>v. v \<in> set (ad_values a) \<Longrightarrow> length v < 2 ^ 40"
    "(\<Sum>v\<leftarrow>ad_values a. length v) \<le> 2 ^ 60"
proof -
  note l = load_adapter_props [OF assms(1)]
  note each = load_tensors_each [OF l(3)]
  note h = read_header_ok [OF l(1)]
  show len: "length (ad_values a) = length (gg_tensors (ad_header a))" using each by simp
  then show few: "length (ad_values a) \<le> 2 ^ 20" using h(2) by simp
  show short: "length v < 2 ^ 40" if v: "v \<in> set (ad_values a)" for v
  proof -
    obtain i where "i < length (ad_values a)" "v = ad_values a ! i" using v by (auto simp: in_set_conv_nth)
    then have "read_tensor_f32 bs (ad_header a) (gg_tensors (ad_header a) ! i) = Inr v"
      using each by simp
    then have "length v \<le> length bs" by (rule read_tensor_count(2) [OF _ h(8)]) (use assms(2) in simp)
    with assms(2) show ?thesis by simp
  qed
  have "(\<Sum>v\<leftarrow>ad_values a. length v) \<le> (\<Sum>v\<leftarrow>ad_values a. 2 ^ 40)"
    by (rule sum_list_mono) (use short in \<open>simp add: less_imp_le\<close>)
  also have "\<dots> \<le> 2 ^ 60" using few by (simp add: sum_list_triv)
  finally show "(\<Sum>v\<leftarrow>ad_values a. length v) \<le> 2 ^ 60" .
qed

lemma value_count_sum: "value_count a = of_nat (\<Sum>v\<leftarrow>ad_values a. length v)"
proof -
  have "sum_list (map (\<lambda>v. of_nat (length v)) vss) = (of_nat (\<Sum>v\<leftarrow>vss. length v) :: u64)" for vss :: "f32 list list"
    by (induction vss) auto
  then show ?thesis by (simp add: value_count_def)
qed

lemma sum_list_perm: "mset xs = mset ys \<Longrightarrow> sum_list (map f xs) = sum_list (map f ys)"
  for f :: "'a \<Rightarrow> nat"
  by (metis mset_map sum_mset_sum_list)

lemma length_flat_values:
  assumes "length (ad_values a) = length (gg_tensors (ad_header a))"
  shows "length (flat_values (canonical_indices a) (ad_values a)) = (\<Sum>v\<leftarrow>ad_values a. length v)"
proof -
  have "length (flat_values (canonical_indices a) (ad_values a)) =
      sum_list (map (\<lambda>i. length (ad_values a ! i)) (canonical_indices a))"
    by (simp add: flat_values_def length_concat comp_def)
  also have "\<dots> = sum_list (map (\<lambda>i. length (ad_values a ! i)) [0..<length (ad_values a)])"
    by (rule sum_list_perm) (simp only: assms canonical_indices)
  also have "\<dots> = sum_list (map length (map (\<lambda>i. ad_values a ! i) [0..<length (ad_values a)]))"
    by (simp add: comp_def)
  also have "\<dots> = (\<Sum>v\<leftarrow>ad_values a. length v)" unfolding map_nth ..
  finally show ?thesis .
qed

lemma merge_coordinatewise:
  assumes "load_adapter bs = Inr start" and "length bs < 2 ^ 40" and "length agg < 2 ^ 64"
    and "merge_adapter F start agg scale = Inr merged"
  shows "map length merged = map length (ad_values start)"
    and "flat_values (canonical_indices start) merged =
      map2 (fo_merge F scale) (flat_values (canonical_indices start) (ad_values start)) agg"
proof -
  note sizes = loaded_sizes [OF assms(1,2)]
  have merged: "merged = merge_loop F scale (canonical start) agg (ad_values start)"
    and "of_nat (length agg) = value_count start"
    using assms(4) by (auto simp: merge_adapter_def split: if_splits)
  then have eq: "unat (of_nat (length agg) :: u64) = unat (of_nat (\<Sum>v\<leftarrow>ad_values start. length v) :: u64)"
    by (simp only: value_count_sum)
  have "unat (of_nat (length agg) :: u64) = length agg"
    by (rule unat_of_nat_small) (use assms(3) in simp)
  moreover have "unat (of_nat (\<Sum>v\<leftarrow>ad_values start. length v) :: u64) = (\<Sum>v\<leftarrow>ad_values start. length v)"
    by (rule unat_of_nat_small, rule le_less_trans [OF sizes(4)]) simp
  ultimately have "length agg = (\<Sum>v\<leftarrow>ad_values start. length v)"
    using eq by linarith
  then have len: "length agg = length (flat_values (map fst (canonical start)) (ad_values start))"
    using length_flat_values [OF sizes(1)] by (simp add: canonical_indices_def)
  have fst_set: "fst ` set (canonical start) = {..<length (ad_values start)}"
    using canonical_indices_props(2) [of start] sizes(1) by (simp add: canonical_indices_def)
  note loop = merge_loop_values [of "canonical start" "ad_values start" agg F scale, OF _ _ len]
  show "map length merged = map length (ad_values start)"
    and "flat_values (canonical_indices start) merged =
      map2 (fo_merge F scale) (flat_values (canonical_indices start) (ad_values start)) agg"
    using loop canonical_indices_props(1) [of start] fst_set by (simp_all add: merged canonical_indices_def)
qed

lemma merged_tensors_maps:
  assumes "length merged = length (gg_tensors (ad_header start))"
  shows "map ot_name (merged_tensors start merged) = map ti_name (gg_tensors (ad_header start))"
    "map ot_dims (merged_tensors start merged) = map ti_dims (gg_tensors (ad_header start))"
    "map ot_values (merged_tensors start merged) = merged"
    "length (merged_tensors start merged) = length merged"
    "\<And>i. i < length merged \<Longrightarrow> merged_tensors start merged ! i =
       \<lparr>ot_name = ti_name (gg_tensors (ad_header start) ! i), ot_dims = ti_dims (gg_tensors (ad_header start) ! i),
        ot_values = merged ! i\<rparr>"
  using assms by (simp_all add: merged_tensors_def list_eq_iff_nth_eq)

lemma merged_tensor_ok:
  assumes "load_adapter bs = Inr start" and "length bs < 2 ^ 40"
    and "map length merged = map length (ad_values start)" and "i < length merged"
  shows "tensor_ok (merged_tensors start merged ! i)"
proof -
  note l = load_adapter_props [OF assms(1)]
  note h = read_header_ok [OF l(1)]
  note sizes = loaded_sizes [OF assms(1,2)]
  have len: "length merged = length (gg_tensors (ad_header start))" and i: "i < length (ad_values start)"
    using assms(3,4) sizes(1) by (metis length_map)+
  let ?t = "gg_tensors (ad_header start) ! i"
  have read: "read_tensor_f32 bs (ad_header start) ?t = Inr (ad_values start ! i)"
    using load_tensors_each [OF l(3)] assms(4) len by simp
  have "elements ?t = Some (of_nat (length (ad_values start ! i)))"
    by (rule read_tensor_count(1) [OF read h(8)]) (use assms(2) in simp)
  moreover have "info_ok ?t" using h(4) assms(4) len by simp
  moreover have "length (ad_values start ! i) < 2 ^ 40"
    by (rule sizes(3)) (use i in simp)
  moreover have "length (merged ! i) = length (ad_values start ! i)"
    using assms(3,4) i by (metis nth_map)
  ultimately show ?thesis
    using assms(4) len by (simp add: tensor_ok_def merged_tensors_maps info_ok_def elements_def)
qed

lemma merged_file_ok:
  assumes "load_adapter bs = Inr start" and "length bs < 2 ^ 40"
    and "map length merged = map length (ad_values start)"
  shows "file_ok (gg_kv (ad_header start)) (merged_tensors start merged)"
proof -
  note l = load_adapter_props [OF assms(1)]
  note h = read_header_ok [OF l(1)]
  have len: "length merged = length (gg_tensors (ad_header start))"
    using assms(3) loaded_sizes(1) [OF assms(1,2)] by (metis length_map)
  note maps = merged_tensors_maps [OF len]
  have "\<forall>t \<in> set (merged_tensors start merged). tensor_ok t"
    using merged_tensor_ok [OF assms] maps(4) by (auto simp: in_set_conv_nth)
  then show ?thesis
    using h(1-3,5) maps(1,4) len by (simp add: file_ok_def)
qed

lemma merged_room:
  assumes "load_adapter bs = Inr start" and "length bs < 2 ^ 40"
    and "map length merged = map length (ad_values start)" and "unat al < 2 ^ 32"
  shows "room al (merged_tensors start merged) \<le> 2 ^ 62 + 2 ^ 52"
proof -
  note sizes = loaded_sizes [OF assms(1,2)]
  have len: "length merged = length (gg_tensors (ad_header start))"
    using assms(3) sizes(1) by (metis length_map)
  note maps = merged_tensors_maps [OF len]
  have "room al ts = 4 * (\<Sum>v\<leftarrow>map ot_values ts. length v) + length ts * unat al" for ts
    by (induction ts) (auto simp: room_def)
  then have "room al (merged_tensors start merged) = 4 * (\<Sum>v\<leftarrow>merged. length v) + length merged * unat al"
    by (simp only: maps(3,4))
  also have "(\<Sum>v\<leftarrow>merged. length v) = (\<Sum>v\<leftarrow>ad_values start. length v)"
    by (simp only: assms(3))
  also have "4 * (\<Sum>v\<leftarrow>ad_values start. length v) \<le> 2 ^ 62" using sizes(4) by simp
  also have "length merged * unat al \<le> 2 ^ 20 * 2 ^ 32"
    using sizes(1,2) len assms(4) by (intro mult_le_mono) simp_all
  finally show ?thesis by simp
qed

lemma header_size_kv:
  "header_size kv ts = 24 + sum_list (map (length \<circ> put_kv) kv) +
     (\<Sum>(n, ds)\<leftarrow>zip (map ot_name ts) (map ot_dims ts). 24 + length n + 8 * length ds)"
proof -
  have dims: "length (concat (map to_le_bytes (ds :: u64 list))) = 8 * length ds" for ds
    by (subst length_concat_width [where w = 8]) auto
  have "length (concat (map2 put_tensor ts (replicate (length ts) 0))) =
      (\<Sum>(n, ds)\<leftarrow>zip (map ot_name ts) (map ot_dims ts). 24 + length n + 8 * length ds)"
    by (induction ts) (simp_all add: put_tensor_def dims)
  then show ?thesis
    by (simp add: header_size_def header_bytes_def length_concat comp_def GGUF_MAGIC_def)
qed

lemma merged_header_size:
  assumes "load_adapter bs = Inr start" and "length merged = length (gg_tensors (ad_header start))"
  shows "header_size (gg_kv (ad_header start)) (merged_tensors start merged) \<le> length bs"
proof -
  note l = load_adapter_props [OF assms(1)]
  have "(\<Sum>(n, ds)\<leftarrow>zip (map ti_name ts) (map ti_dims ts). 24 + length n + 8 * length ds) =
      sum_list (map info_size ts)" for ts
    by (induction ts) (simp_all add: info_size_def)
  then show ?thesis
    using read_header_ok(6) [OF l(1)] by (simp only: header_size_kv merged_tensors_maps [OF assms(2)])
qed

lemma merged_reloads:
  assumes "load_adapter bs = Inr start" and "length bs < 2 ^ 40" and "length agg < 2 ^ 64"
    and "merge_adapter F start agg scale = Inr merged"
  shows "\<exists>out a. merged_gguf start merged = Inr out \<and> load_adapter out = Inr a \<and>
    gg_kv (ad_header a) = gg_kv (ad_header start) \<and>
    map ti_name (gg_tensors (ad_header a)) = map ti_name (gg_tensors (ad_header start)) \<and>
    map ti_dims (gg_tensors (ad_header a)) = map ti_dims (gg_tensors (ad_header start)) \<and>
    manifest_hash K a = manifest_hash K start \<and>
    flat_values (canonical_indices start) (ad_values a) =
      map2 (fo_merge F scale) (flat_values (canonical_indices start) (ad_values start)) agg"
proof -
  let ?g = "ad_header start" and ?ts = "merged_tensors start merged"
  note l = load_adapter_props [OF assms(1)]
  note merge = merge_coordinatewise [OF assms]
  have len: "length merged = length (gg_tensors ?g)"
    using merge(1) loaded_sizes(1) [OF assms(1,2)] by (metis length_map)
  note maps = merged_tensors_maps [OF len]
  have al: "alignment_of (gg_kv ?g) = Inr (gg_alignment ?g)" by (rule read_header_ok(7) [OF l(1)])
  have size: "header_size (gg_kv ?g) ?ts + 2 ^ 33 + room (gg_alignment ?g) ?ts < 2 ^ 64"
    using merged_header_size [OF assms(1) len] assms(2)
      merged_room [OF assms(1,2) merge(1) alignment_props(2) [OF al]] by simp
  obtain out g where out: "encode_f32 (gg_kv ?g) ?ts = Inr out" "read_header out = Inr g" "gg_kv g = gg_kv ?g"
    "map ti_name (gg_tensors g) = map ot_name ?ts" "map ti_dims (gg_tensors g) = map ot_dims ?ts"
    "\<And>i. i < length ?ts \<Longrightarrow> read_tensor_f32 out g (gg_tensors g ! i) = Inr (ot_values (?ts ! i))"
    "length (gg_tensors g) = length ?ts"
    by (rule encode_reads [OF merged_file_ok [OF assms(1,2) merge(1)] al size]) (rule that, simp_all)
  have lora: "is_lora_adapter g" using l(2) out(3) by (simp add: is_lora_adapter_def gguf_get_def)
  have suffix: "\<not> (strip_suffix ''.lora_a'' (ti_name t) = None \<and> strip_suffix ''.lora_b'' (ti_name t) = None)"
    if t: "t \<in> set (gg_tensors g)" for t
  proof -
    obtain i where i: "i < length (gg_tensors g)" "t = gg_tensors g ! i" using t by (auto simp: in_set_conv_nth)
    then have "ti_name t = ti_name (gg_tensors ?g ! i)"
      using out(4,7) maps(1,4) len by (metis nth_map)
    then show ?thesis using load_tensors_each [OF l(3)] i(1) out(7) maps(4) len by simp
  qed
  have "load_tensors out g (gg_tensors g) = Inr merged"
    by (rule load_tensors_all) (use out(6,7) maps(4,5) suffix in auto)
  then have load: "load_adapter out = Inr \<lparr>ad_header = g, ad_values = merged\<rparr>" (is "_ = Inr ?a")
    using out(2) lora by (simp add: load_adapter_def)
  have layout: "map ti_name (gg_tensors (ad_header ?a)) = map ti_name (gg_tensors ?g)"
    "map ti_dims (gg_tensors (ad_header ?a)) = map ti_dims (gg_tensors ?g)"
    using out(4,5) maps(1,2) by simp_all
  have hash: "manifest_hash K ?a = manifest_hash K start"
    using canonical_cong [OF layout] by (simp only: manifest_hash_def)
  have gguf: "merged_gguf start merged = Inr out" using out(1) by (simp add: merged_gguf_def)
  show ?thesis
    by (rule exI [of _ out], rule exI [of _ ?a], intro conjI gguf load layout hash)
      (use out(3) merge(2) in simp_all)
qed

text \<open>The merged adapter.  For an adapter that loads and an aggregate that merges, the file the
  coordinator writes loads again, with the start adapter's metadata and layout, so the same manifest
  hash, and with the sum of start value and scaled aggregate at every coordinate.\<close>

theorem merged_adapter_reloads:
  assumes "load_adapter bs = Inr start" and "length bs < 2 ^ 40" and "length agg < 2 ^ 64"
    and "merge_adapter F start agg scale = Inr merged"
  shows "\<exists>out a. merged_gguf start merged = Inr out \<and> load_adapter out = Inr a \<and>
    gg_kv (ad_header a) = gg_kv (ad_header start) \<and>
    map ti_name (gg_tensors (ad_header a)) = map ti_name (gg_tensors (ad_header start)) \<and>
    map ti_dims (gg_tensors (ad_header a)) = map ti_dims (gg_tensors (ad_header start)) \<and>
    manifest_hash K a = manifest_hash K start \<and>
    flat_values (canonical_indices start) (ad_values a) =
      map2 (fo_merge F scale) (flat_values (canonical_indices start) (ad_values start)) agg"
  by (rule merged_reloads [OF assms])

definition example_kv :: "(string \<times> gvalue) list" where
  "example_kv = [(''general.type'', GStr ''adapter''), (''adapter.type'', GStr ''lora'')]"

definition example_tensors :: "out_tensor list" where
  "example_tensors = [\<lparr>ot_name = ''a.lora_a'', ot_dims = [1], ot_values = [0]\<rparr>]"

lemma example_adapter:
  obtains bs a where "load_adapter bs = Inr a" "length bs < 2 ^ 40" "ad_values a = [[0]]"
    "map ti_name (gg_tensors (ad_header a)) = [''a.lora_a'']"
proof -
  have ok: "file_ok example_kv example_tensors"
    by (simp add: file_ok_def example_kv_def example_tensors_def kv_ok_def tensor_ok_def string_ok_def
        scalar_value_ok str_bytes_def char_byte_def checked_mul_def)
  have al: "alignment_of example_kv = Inr 32"
    by (simp add: alignment_of_def example_kv_def DEFAULT_ALIGNMENT_def)
  have size: "header_size example_kv example_tensors < 2 ^ 10" "room 32 example_tensors < 2 ^ 10"
    by (simp_all add: header_size_kv example_kv_def example_tensors_def room_def put_kv_def put_str_def)
  have lim: "header_size example_kv example_tensors + 2 ^ 33 + room 32 example_tensors < 2 ^ 64"
    using size by simp
  obtain out g where out: "read_header out = Inr g" "gg_kv g = example_kv"
    "map ti_name (gg_tensors g) = map ot_name example_tensors"
    "\<And>i. i < length example_tensors \<Longrightarrow>
       read_tensor_f32 out g (gg_tensors g ! i) = Inr (ot_values (example_tensors ! i))"
    "length (gg_tensors g) = length example_tensors"
    "length out \<le> header_size example_kv example_tensors + 2 ^ 33 + room 32 example_tensors"
    by (rule encode_reads [OF ok al lim]) (rule that, simp_all)
  obtain t where t: "gg_tensors g = [t]" "ti_name t = ''a.lora_a''" "read_tensor_f32 out g t = Inr [0]"
    using out(3,5) out(4) [of 0] by (auto simp: example_tensors_def)
  have "is_lora_adapter g"
    using out(2) by (simp add: is_lora_adapter_def gguf_get_def example_kv_def)
  then have "load_adapter out = Inr \<lparr>ad_header = g, ad_values = [[0]]\<rparr>"
    using out(1) t by (simp add: load_adapter_def strip_suffix_def strip_prefix_def)
  then show ?thesis
    by (rule that) (use out(6) size t in simp_all)
qed

definition example_ops :: float_ops where
  "example_ops = \<lparr>fo_scaled = (\<lambda>s a b. b - a), fo_q16 = (\<lambda>x. ucast x), fo_merge = (\<lambda>s v q. v + ucast q)\<rparr>"

theorem merged_adapter_reloads_witness:
  "\<exists>start merged out a. load_adapter out = Inr a \<and> merge_adapter example_ops start [5] 0 = Inr merged \<and>
     merged_gguf start merged = Inr out \<and> manifest_hash example_hash a = manifest_hash example_hash start \<and>
     flat_values (canonical_indices start) (ad_values a) = [5]"
proof -
  obtain bs start where s: "load_adapter bs = Inr start" "length bs < 2 ^ 40" "ad_values start = [[0]]"
    "map ti_name (gg_tensors (ad_header start)) = [''a.lora_a'']"
    by (rule example_adapter)
  have idx: "canonical_indices start = [0]"
    using s(4) by (auto simp: canonical_indices_def canonical_def map_eq_Cons_conv)
  obtain merged where m: "merge_adapter example_ops start [5] 0 = Inr merged"
    using s(3) by (simp add: merge_adapter_def value_count_def)
  have "length [5 :: i64] < 2 ^ 64" by simp
  from merged_adapter_reloads [OF s(1,2) this m, of example_hash] obtain out a where
    "merged_gguf start merged = Inr out" "load_adapter out = Inr a"
    "manifest_hash example_hash a = manifest_hash example_hash start"
    "flat_values (canonical_indices start) (ad_values a) =
      map2 (fo_merge example_ops 0) (flat_values (canonical_indices start) (ad_values start)) [5]"
    by blast
  then show ?thesis
    using m by (intro exI [of _ start] exI [of _ merged] exI [of _ out] exI [of _ a])
      (simp add: idx s(3) flat_values_def example_ops_def)
qed

end
