(* ===== verification/Fl_Round_Theorems.thy ===== *)
theory Fl_Round_Theorems
  imports Fl_Round Fl_Delta_Theorems
begin

text \<open>
  What the aggregator guarantees: every finished job of the round is accounted for exactly once and
  only verified results contribute, at most one for each worker; the bundle of an aggregated round
  passes its own check and names the adapter that was written; and the proofs built for a challenge
  verify against the committed roots.
\<close>

section \<open>Collecting\<close>

lemma bt_insert_values:
  "bt_ok m \<Longrightarrow> \<not> bt_has m k \<Longrightarrow> mset (bt_insert k v m) = add_mset (k, v) (mset m)"
proof (induction k v m rule: bt_insert.induct)
  case (2 k v a b m)
  then show ?case by (auto simp: bt_has_keys bt_ok_Cons)
qed simp

definition accounted ::
  "(job_record \<Rightarrow> verdict) \<Rightarrow> (string \<times> job_record) list \<Rightarrow> (address, contribution) btree \<Rightarrow> bool" where
  "accounted J jobs by_worker \<longleftrightarrow> bt_ok by_worker \<and>
     (\<forall>w c. (w, c) \<in> set by_worker \<longrightarrow> w = lr_worker (cn_result c) \<and>
        (\<exists>rec. (cn_job c, rec) \<in> set jobs \<and> J rec = Valid (cn_result c) (cn_artifact c)))"

definition justified ::
  "(job_record \<Rightarrow> verdict) \<Rightarrow> (string \<times> job_record) list \<Rightarrow> (address, contribution) btree \<Rightarrow> exclusion \<Rightarrow> bool" where
  "justified J jobs by_worker e \<longleftrightarrow>
     (\<exists>rec. (ex_job e, rec) \<in> set jobs \<and>
        (J rec = Exclude (ex_reason e) \<or>
         ex_reason e = SecondContribution \<and>
           (\<exists>r art. J rec = Valid r art \<and> bt_has by_worker (lr_worker r))))"

lemma justified_mono:
  "justified J jobs bw e \<Longrightarrow> set jobs \<subseteq> set jobs' \<Longrightarrow> (\<And>w. bt_has bw w \<Longrightarrow> bt_has bw' w) \<Longrightarrow> justified J jobs' bw' e"
  unfolding justified_def by blast

lemma collect_loop_spec:
  assumes "collect_loop J todo bw ex = (bw', ex')"
    and "accounted J passed bw" and "\<forall>e \<in> set ex. justified J passed bw e"
  shows "accounted J (passed @ todo) bw' \<and> (\<forall>e \<in> set ex'. justified J (passed @ todo) bw' e) \<and>
    (\<forall>w. bt_has bw w \<longrightarrow> bt_has bw' w) \<and>
    mset (map cn_job (bt_values bw')) + mset (map ex_job ex') =
      mset (map cn_job (bt_values bw)) + mset (map ex_job ex) +
      mset (map fst (filter (\<lambda>(_, rec). J rec \<noteq> Skip) todo))"
  using assms
proof (induction J todo bw ex arbitrary: bw' ex' passed rule: collect_loop.induct)
  case (1 J bw ex)
  then show ?case by simp
next
  case (2 J job rec rest bw ex)
  have acc: "accounted J (passed @ [(job, rec)]) bw"
    using "2.prems"(2) by (auto simp: accounted_def)
  have just: "\<forall>e \<in> set ex. justified J (passed @ [(job, rec)]) bw e"
    using "2.prems"(3) justified_mono [of J passed bw _ "passed @ [(job, rec)]" bw]
    by (simp add: subset_insertI)
  show ?case
  proof (cases "J rec")
    case Skip
    then show ?thesis
      using "2.IH"(1) [OF Skip, of bw' ex' "passed @ [(job, rec)]"] "2.prems"(1) acc just by simp
  next
    case (Exclude why)
    have "justified J (passed @ [(job, rec)]) bw \<lparr>ex_job = job, ex_reason = why\<rparr>"
      using Exclude by (auto simp: justified_def)
    then show ?thesis
      using "2.IH"(2) [OF Exclude, of bw' ex' "passed @ [(job, rec)]"] "2.prems"(1) acc just Exclude by simp
  next
    case (Valid r art)
    show ?thesis
    proof (cases "bt_has bw (lr_worker r)")
      case True
      then have "justified J (passed @ [(job, rec)]) bw \<lparr>ex_job = job, ex_reason = SecondContribution\<rparr>"
        using Valid by (auto simp: justified_def)
      then show ?thesis
        using "2.IH"(3) [OF Valid True, of bw' ex' "passed @ [(job, rec)]"] "2.prems"(1) acc just Valid True by simp
    next
      case False
      let ?c = "\<lparr>cn_job = job, cn_result = r, cn_artifact = art\<rparr>"
      let ?bw = "bt_insert (lr_worker r) ?c bw"
      have ok: "bt_ok bw" using acc by (simp add: accounted_def)
      have ms: "mset ?bw = add_mset (lr_worker r, ?c) (mset bw)"
        by (rule bt_insert_values [OF ok False])
      then have set: "set ?bw = insert (lr_worker r, ?c) (set bw)"
        by (metis set_mset_add_mset_insert set_mset_mset)
      have acc': "accounted J (passed @ [(job, rec)]) ?bw"
        using acc Valid ok unfolding accounted_def set by auto
      have just': "\<forall>e \<in> set ex. justified J (passed @ [(job, rec)]) ?bw e"
        using just justified_mono [of J "passed @ [(job, rec)]" bw _ "passed @ [(job, rec)]" ?bw] by simp
      have jobs: "mset (map cn_job (bt_values ?bw)) = add_mset job (mset (map cn_job (bt_values bw)))"
        by (simp only: mset_map ms image_mset_add_mset snd_conv contribution.select_convs)
      show ?thesis
        using "2.IH"(4) [OF Valid False _ acc' just', of bw' ex'] "2.prems"(1) Valid False jobs by simp
    qed
  qed
qed

lemma decode_iff: "decode_artifact bs m = Inr a \<longleftrightarrow> bs = encode_artifact a \<and> artifact_ok m a"
  using decode_encode decode_Inr by metis

lemma check_result_Inr:
  assumes "check_result D cfg rid manifest expect deltas who r = Inr art"
  shows "lr_worker r = who" "lr_round_id r = rid" "in_roster cfg who"
    "\<exists>sig. hx_decode (rd_hex D) (trim_0x (lr_signature r)) = Some sig \<and>
       rd_recover D (result_digest (rd_keccak D) r) sig = Some who"
    "\<exists>bs. deltas (delta_file (rd_hex D) (lr_delta_sha256 r)) = Inr bs \<and> rd_sha256 D bs = lr_delta_sha256 r \<and>
       bs = encode_artifact art \<and> artifact_ok (fc_max_values cfg) art"
    "ar_round_id art = rid \<and> ar_worker art = who \<and> ar_start_adapter_sha256 art = fc_start_adapter_sha256 cfg \<and>
     ar_manifest_hash art = manifest \<and> ar_chunk_dim art = fc_chunk_dim cfg \<and>
     ar_value_scale_log2 art = fc_value_scale_log2 cfg \<and> of_nat (length (ar_values art)) = expect \<and>
     lr_n_values r = expect \<and> lr_chunk_dim r = fc_chunk_dim cfg"
    "delta_root (rd_keccak D) (ar_values art) (fc_chunk_dim cfg) = Inr (lr_delta_root r)"
  using assms
  by (auto simp: check_result_def check_artifact_def decode_iff
      split: if_splits option.splits sum.splits)

text \<open>Everything the aggregator has checked of a contribution.\<close>

definition verified ::
  "round_deps \<Rightarrow> state \<Rightarrow> round_config \<Rightarrow> u64 \<Rightarrow> delta_dir \<Rightarrow> adapter \<Rightarrow> contribution \<Rightarrow> bool" where
  "verified D st cfg ordinal deltas start c \<longleftrightarrow>
     (let r = cn_result c; art = cn_artifact c; who = lr_worker r; K = rd_keccak D;
          rid = config_round_id K cfg ordinal
      in (\<exists>rec p t. (cn_job c, rec) \<in> set (st_jobs st) \<and> jr_status rec = Done who t \<and>
            rd_payload D (js_payload (jr_spec rec)) = Some p \<and> lp_round_id p = rid \<and> lp_config p = cfg) \<and>
         in_roster cfg who \<and> lr_round_id r = rid \<and>
         (\<exists>sig. rd_recover D (result_digest K r) sig = Some who) \<and>
         (\<exists>bs. deltas (delta_file (rd_hex D) (lr_delta_sha256 r)) = Inr bs \<and> rd_sha256 D bs = lr_delta_sha256 r \<and>
            bs = encode_artifact art) \<and>
         ar_round_id art = rid \<and> ar_worker art = who \<and>
         ar_start_adapter_sha256 art = fc_start_adapter_sha256 cfg \<and> ar_manifest_hash art = manifest_hash K start \<and>
         of_nat (length (ar_values art)) = value_count start \<and> length (ar_values art) \<le> unat (fc_max_values cfg) \<and>
         delta_root K (ar_values art) (fc_chunk_dim cfg) = Inr (lr_delta_root r))"

lemma judge_verified:
  assumes "(cn_job c, rec) \<in> set (st_jobs st)"
    and "judge_round D cfg ordinal deltas start rec = Valid (cn_result c) (cn_artifact c)"
  shows "verified D st cfg ordinal deltas start c"
proof -
  let ?K = "rd_keccak D"
  let ?rid = "config_round_id ?K cfg ordinal"
  obtain p who t where p: "rd_payload D (js_payload (jr_spec rec)) = Some p" "lp_round_id p = ?rid"
    "lp_config p = cfg" "jr_status rec = Done who t"
    and c: "check_result D cfg ?rid (manifest_hash ?K start) (value_count start) deltas who (cn_result c) =
      Inr (cn_artifact c)"
    using assms(2) unfolding judge_round_def judge_def
    by (auto split: option.splits if_splits job_status.splits sum.splits)
  note f = check_result_Inr [OF c]
  show ?thesis
    unfolding verified_def Let_def
    using assms(1) p f by (auto simp: artifact_ok_def)
qed

definition excluded_for ::
  "(job_record \<Rightarrow> verdict) \<Rightarrow> state \<Rightarrow> contribution list \<Rightarrow> exclusion \<Rightarrow> bool" where
  "excluded_for J st cs e \<longleftrightarrow>
     (\<exists>rec. (ex_job e, rec) \<in> set (st_jobs st) \<and>
        (J rec = Exclude (ex_reason e) \<or>
         ex_reason e = SecondContribution \<and>
           (\<exists>r art. J rec = Valid r art \<and> lr_worker r \<in> set (map (lr_worker \<circ> cn_result) cs))))"

text \<open>The round's accounts.  Contributions come in ascending order of distinct workers and each is
  verified from first principles; every job of the round that is finished or names another
  configuration is either one contribution or one recorded exclusion; and each exclusion has the
  reason the checks give, or is the further result of a worker that contributes.\<close>

theorem collect_accounts:
  "let (cs, ex) = collect D st cfg ordinal deltas start; J = judge_round D cfg ordinal deltas start in
     sorted_wrt (<) (map (lr_worker \<circ> cn_result) cs) \<and>
     list_all (verified D st cfg ordinal deltas start) cs \<and>
     list_all (excluded_for J st cs) ex \<and>
     mset (map cn_job cs) + mset (map ex_job ex) =
       mset (map fst (filter (\<lambda>(_, rec). J rec \<noteq> Skip) (st_jobs st)))"
proof -
  let ?J = "judge_round D cfg ordinal deltas start"
  obtain bw ex where run: "collect_loop ?J (st_jobs st) [] [] = (bw, ex)" by fastforce
  have spec: "accounted ?J (st_jobs st) bw" "\<forall>e \<in> set ex. justified ?J (st_jobs st) bw e"
    "mset (map cn_job (bt_values bw)) + mset (map ex_job ex) =
       mset (map fst (filter (\<lambda>(_, rec). ?J rec \<noteq> Skip) (st_jobs st)))"
    using collect_loop_spec [OF run, of "[]"] by (auto simp: accounted_def)
  have keys: "map (lr_worker \<circ> cn_result) (bt_values bw) = map fst bw"
    using spec(1) by (auto simp: accounted_def)
  have sorted: "sorted_wrt (<) (map (lr_worker \<circ> cn_result) (bt_values bw))"
    unfolding keys using spec(1) by (simp add: accounted_def bt_ok_def)
  have ver: "list_all (verified D st cfg ordinal deltas start) (bt_values bw)"
    using spec(1) judge_verified by (fastforce simp: list_all_iff accounted_def)
  have exc: "list_all (excluded_for ?J st (bt_values bw)) ex"
    unfolding list_all_iff excluded_for_def keys
    using spec(2) by (simp add: justified_def bt_has_keys)
  have res: "collect D st cfg ordinal deltas start = (bt_values bw, ex)"
    by (simp add: collect_def run)
  show ?thesis
    unfolding res Let_def prod.case by (intro conjI sorted ver exc spec(3))
qed

section \<open>The bundle\<close>

context hex_codec
begin

lemma parse_list_hex: "parse_list H (map (\<lambda>h. hex0x H (to_be_bytes h)) hs) = Inr hs"
  by (induction hs) (simp_all add: parse_list_def parse_word)

lemma parse_hex_path: "parse_list H (hex_path H hs) = Inr hs"
  by (simp add: hex_path_def parse_list_hex)

text \<open>A bundle assembled as \<open>bundle_of\<close> does checks out.\<close>

lemma bundle_of_checks:
  assumes "rd_hex D = H"
    and "three_roots (rd_keccak D) (map (payload_of (rd_keccak D) \<circ> participant_of) cs) (ca_inputs acc) (ca_outputs acc) = Inr roots"
    and "u16_of (length cs) = Inr n"
  shows "check_bundle_roots (rd_keccak D) H (bundle_of D cfg ordinal cs ex start acc ahash roots n) = Inr ()"
proof -
  obtain pr ir our where roots: "roots = (pr, ir, our)" by (cases roots)
  have "tree_root (rd_keccak D) (map (payload_of (rd_keccak D)) (map participant_of cs)) = Inr pr"
    "tree_root (rd_keccak D) (ca_inputs acc) = Inr ir" "tree_root (rd_keccak D) (ca_outputs acc) = Inr our"
    using assms(2) by (auto simp: three_roots_def roots split: sum.splits)
  then show ?thesis
    using assms(1,3)
    by (simp add: check_bundle_roots_def recompute_roots_def bundle_of_def roots parse_list_hex Let_def)
qed

end

lemma sum_list_bump:
  fixes xs :: "u64 list"
  shows "i < length xs \<Longrightarrow> sum_list (xs[i := xs ! i + 1]) = sum_list xs + 1"
proof (induction xs arbitrary: i)
  case (Cons x xs)
  then show ?case by (cases i) (auto simp: algebra_simps)
qed simp

lemma count_states_sum:
  "length counts = 4 \<Longrightarrow> (\<And>s. s \<in> set states \<Longrightarrow> s \<le> 3) \<Longrightarrow>
     length (count_states counts states) = 4 \<and>
     sum_list (count_states counts states) = sum_list counts + of_nat (length states)"
proof (induction states arbitrary: counts)
  case (Cons s states)
  have "unat s < 4" using Cons.prems(2) [of s] by (simp add: word_le_nat_alt)
  then have "sum_list (counts[unat s := counts ! unat s + 1]) = sum_list counts + 1"
    using Cons.prems(1) by (intro sum_list_bump) simp
  then show ?case
    using Cons.IH [of "counts[unat s := counts ! unat s + 1]"] Cons.prems by (simp add: count_states_def)
qed (simp add: count_states_def)

text \<open>What one chunk and the whole loop leave in the accumulator.\<close>

definition chunk_done ::
  "(bytes \<Rightarrow> b256) \<Rightarrow> round_config \<Rightarrow> artifact list \<Rightarrow> backend \<Rightarrow> nat \<Rightarrow> b256 \<Rightarrow> b256 \<Rightarrow> i64 list \<Rightarrow> bool" where
  "chunk_done K cfg arts backend c ih oh vs \<longleftrightarrow>
     (\<exists>input output sts. chunk_input (chunk_rows cfg arts c) (config_chunk_rules cfg) = Inr input \<and>
        backend c input = Inr output \<and>
        parse_output output (length (chunk_rows cfg arts c ! 0)) = Inr \<lparr>co_values = vs, co_states = sts\<rparr> \<and>
        ih = fl_keccak K [input] \<and> oh = fl_keccak K [output])"

lemma aggregate_loop_spec:
  "aggregate_loop K cfg arts backend cs acc = Inr acc' \<Longrightarrow> length (ca_counts acc) = 4 \<Longrightarrow>
     sum_list (ca_counts acc) = of_nat (length (ca_agg acc)) \<Longrightarrow>
   \<exists>ihs ohs vss. ca_inputs acc' = ca_inputs acc @ ihs \<and> ca_outputs acc' = ca_outputs acc @ ohs \<and>
     ca_agg acc' = ca_agg acc @ concat vss \<and> length ihs = length cs \<and> length ohs = length cs \<and>
     length vss = length cs \<and>
     list_all (\<lambda>i. chunk_done K cfg arts backend (cs ! i) (ihs ! i) (ohs ! i) (vss ! i)) [0..<length cs] \<and>
     length (ca_counts acc') = 4 \<and> sum_list (ca_counts acc') = of_nat (length (ca_agg acc'))"
proof (induction K cfg arts backend cs acc rule: aggregate_loop.induct)
  case (1 K cfg arts backend acc)
  then show ?case by simp
next
  case (2 K cfg arts backend c cs acc)
  from "2.prems"(1) obtain input outp parsed where
    chunk: "aggregate_chunk cfg arts backend c = Inr (input, outp, parsed)"
    by (auto split: sum.splits)
  let ?wd = "length (chunk_rows cfg arts c ! 0)"
  let ?acc = "\<lparr>ca_agg = ca_agg acc @ co_values parsed, ca_inputs = ca_inputs acc @ [fl_keccak K [input]],
      ca_outputs = ca_outputs acc @ [fl_keccak K [outp]],
      ca_counts = count_states (ca_counts acc) (co_states parsed)\<rparr>"
  have parts: "chunk_input (chunk_rows cfg arts c) (config_chunk_rules cfg) = Inr input"
    "backend c input = Inr outp" "parse_output outp ?wd = Inr parsed"
    using chunk by (auto simp: aggregate_chunk_def Let_def split: sum.splits)
  have st: "length (co_states parsed) = length (co_values parsed)" "\<And>s. s \<in> set (co_states parsed) \<Longrightarrow> s \<le> 3"
    using parse_output_Inr [OF parts(3)] by auto
  note counts = count_states_sum [OF "2.prems"(2) st(2)]
  have "length (ca_counts ?acc) = 4" "sum_list (ca_counts ?acc) = of_nat (length (ca_agg ?acc))"
    using counts "2.prems"(3) st(1) by simp_all
  with "2.IH" [OF chunk refl refl] "2.prems"(1) chunk
  obtain ihs ohs vss where IH: "ca_inputs acc' = ca_inputs ?acc @ ihs" "ca_outputs acc' = ca_outputs ?acc @ ohs"
    "ca_agg acc' = ca_agg ?acc @ concat vss" "length ihs = length cs" "length ohs = length cs"
    "length vss = length cs"
    "list_all (\<lambda>i. chunk_done K cfg arts backend (cs ! i) (ihs ! i) (ohs ! i) (vss ! i)) [0..<length cs]"
    "length (ca_counts acc') = 4" "sum_list (ca_counts acc') = of_nat (length (ca_agg acc'))"
    by auto
  have first: "chunk_done K cfg arts backend c (fl_keccak K [input]) (fl_keccak K [outp]) (co_values parsed)"
    using parts unfolding chunk_done_def by (metis chunk_output.surjective old.unit.exhaust)
  show ?case
    by (rule exI [of _ "fl_keccak K [input] # ihs"], rule exI [of _ "fl_keccak K [outp] # ohs"],
        rule exI [of _ "co_values parsed # vss"])
      (use IH first in \<open>simp add: list_all_upt_Suc del: upt_Suc\<close>)
qed

lemma aggregate_Inr:
  assumes "aggregate D cfg ordinal cs ex start backend = Inr (b, bs)"
  obtains acc merged roots n where
    "config_ok cfg" "unat (fc_min_participants cfg) \<le> length cs"
    "unat (chunk_count (value_count start) (fc_chunk_dim cfg)) < 2 ^ 32"
    "aggregate_loop (rd_keccak D) cfg (map cn_artifact cs) backend
       [0..<unat (chunk_count (value_count start) (fc_chunk_dim cfg))] empty_acc = Inr acc"
    "merge_adapter (rd_float D) start (ca_agg acc) (fc_value_scale_log2 cfg) = Inr merged"
    "merged_gguf start merged = Inr bs"
    "three_roots (rd_keccak D) (map (payload_of (rd_keccak D) \<circ> participant_of) cs) (ca_inputs acc) (ca_outputs acc) = Inr roots"
    "u16_of (length cs) = Inr n"
    "b = bundle_of D cfg ordinal cs ex start acc (rd_sha256 D bs) roots n"
  using assms validate_config_ok [of cfg]
  by (auto simp: aggregate_def Let_def not_less not_le split: sum.splits if_splits)

text \<open>C25: the aggregated round.  The bundle passes the check anyone can run on it, there are enough
  participants of a valid configuration, every chunk's committed hashes are those of the input built
  from the contributions and of what the node returned for it, the state counts add up to the
  number of values, and the adapter it names is the start adapter merged with the node's values.\<close>

theorem aggregated_bundle:
  assumes "hex_codec (rd_hex D)" and "aggregate D cfg ordinal cs ex start backend = Inr (b, bs)"
  shows "check_bundle_roots (rd_keccak D) (rd_hex D) b = Inr () \<and> config_ok cfg \<and>
    unat (fc_min_participants cfg) \<le> length (bu_participants b) \<and>
    bu_round_id b = config_round_id (rd_keccak D) cfg ordinal \<and>
    sum_list (bu_state_counts b) = bu_n_values b \<and>
    (\<exists>ihs ohs vss merged.
       bu_input_hashes b = hex_path (rd_hex D) ihs \<and> bu_output_hashes b = hex_path (rd_hex D) ohs \<and>
       length ihs = unat (bu_chunks b) \<and> length ohs = unat (bu_chunks b) \<and> length vss = unat (bu_chunks b) \<and>
       list_all (\<lambda>c. chunk_done (rd_keccak D) cfg (map cn_artifact cs) backend c (ihs ! c) (ohs ! c) (vss ! c))
         [0..<unat (bu_chunks b)] \<and>
       merge_adapter (rd_float D) start (concat vss) (fc_value_scale_log2 cfg) = Inr merged \<and>
       merged_gguf start merged = Inr bs \<and> bu_adapter_sha256 b = rd_sha256 D bs)"
proof -
  obtain acc merged roots n where a: "config_ok cfg" "unat (fc_min_participants cfg) \<le> length cs"
    "unat (chunk_count (value_count start) (fc_chunk_dim cfg)) < 2 ^ 32"
    "aggregate_loop (rd_keccak D) cfg (map cn_artifact cs) backend
       [0..<unat (chunk_count (value_count start) (fc_chunk_dim cfg))] empty_acc = Inr acc"
    "merge_adapter (rd_float D) start (ca_agg acc) (fc_value_scale_log2 cfg) = Inr merged"
    "merged_gguf start merged = Inr bs"
    "three_roots (rd_keccak D) (map (payload_of (rd_keccak D) \<circ> participant_of) cs) (ca_inputs acc) (ca_outputs acc) = Inr roots"
    "u16_of (length cs) = Inr n"
    "b = bundle_of D cfg ordinal cs ex start acc (rd_sha256 D bs) roots n"
    by (rule aggregate_Inr [OF assms(2)])
  let ?n = "unat (chunk_count (value_count start) (fc_chunk_dim cfg))"
  have chunks: "unat (ucast (chunk_count (value_count start) (fc_chunk_dim cfg)) :: u32) = ?n"
    using a(3) by (intro unat_ucast_small) simp
  obtain pr ir our where roots: "roots = (pr, ir, our)" by (cases roots)
  have b: "bu_participants b = map participant_of cs" "bu_round_id b = config_round_id (rd_keccak D) cfg ordinal"
    "bu_state_counts b = ca_counts acc" "bu_n_values b = value_count start" "unat (bu_chunks b) = ?n"
    "bu_input_hashes b = hex_path (rd_hex D) (ca_inputs acc)" "bu_output_hashes b = hex_path (rd_hex D) (ca_outputs acc)"
    "bu_adapter_sha256 b = rd_sha256 D bs"
    using chunks by (simp_all add: a(9) bundle_of_def roots hex_path_def Let_def)
  have check: "check_bundle_roots (rd_keccak D) (rd_hex D) b = Inr ()"
    unfolding a(9) by (rule hex_codec.bundle_of_checks [OF assms(1) refl a(7,8)])
  obtain ihs ohs vss where l: "ca_inputs acc = ihs" "ca_outputs acc = ohs" "ca_agg acc = concat vss"
    "length ihs = ?n" "length ohs = ?n" "length vss = ?n"
    "list_all (\<lambda>c. chunk_done (rd_keccak D) cfg (map cn_artifact cs) backend c (ihs ! c) (ohs ! c) (vss ! c)) [0..<?n]"
    "sum_list (ca_counts acc) = of_nat (length (ca_agg acc))"
    using aggregate_loop_spec [OF a(4)] by (auto simp: empty_acc_def list_all_iff)
  have "value_count start = of_nat (length (ca_agg acc))"
    using a(5) by (auto simp: merge_adapter_def split: if_splits)
  then have counts: "sum_list (bu_state_counts b) = bu_n_values b" using l(8) b(3,4) by simp
  have few: "unat (fc_min_participants cfg) \<le> length (bu_participants b)" using a(2) b(1) by simp
  show ?thesis
    by (intro conjI check a(1) few b(2) counts, rule exI [of _ ihs], rule exI [of _ ohs], rule exI [of _ vss],
        rule exI [of _ merged]) (use a(5,6) b l in simp)
qed

section \<open>Proofs for a challenge\<close>

lemma run_Returns [simp]:
  "run_bind r f = Returns v \<longleftrightarrow> (\<exists>x. r = Returns x \<and> f x = Returns v)"
  "run_of e = Returns v \<longleftrightarrow> e = Inr v" "index_of xs i = Returns x \<longleftrightarrow> i < length xs \<and> x = xs ! i"
  by (auto simp: run_bind_def run_of_def index_of_def split: run.splits sum.splits)

lemma map_sum_Inr [simp]: "map_sum f g s = Inr v \<longleftrightarrow> (\<exists>x. s = Inr x \<and> v = g x)"
  by (cases s) auto

lemma run_all_Returns:
  "run_all f xs = Returns ys \<Longrightarrow> length ys = length xs \<and> (\<forall>i < length xs. f (xs ! i) = Returns (ys ! i))"
proof (induction xs arbitrary: ys)
  case (Cons x xs)
  then show ?case by (auto simp: nth_Cons split: nat.splits)
qed simp

lemma collect_results_Inr:
  "collect_results f xs = Inr ys \<Longrightarrow> length ys = length xs \<and> (\<forall>i < length xs. f (xs ! i) = Inr (ys ! i))"
proof (induction xs arbitrary: ys)
  case (Cons x xs)
  then show ?case by (auto simp: nth_Cons split: nat.splits sum.splits)
qed simp

lemma check_bundle_Inr:
  assumes "check_bundle_roots K H b = Inr ()"
  shows "tree_root K (map (payload_of K) (bu_participants b)) = Inr (bu_participants_root b)"
    "\<exists>ins. parse_list H (bu_input_hashes b) = Inr ins \<and> tree_root K ins = Inr (bu_input_root b)"
    "\<exists>outs. parse_list H (bu_output_hashes b) = Inr outs \<and> tree_root K outs = Inr (bu_output_root b)"
    "length (bu_participants b) < 2 ^ 16"
  using assms
  by (auto simp: check_bundle_roots_def recompute_roots_def u16_of_def split: sum.splits if_splits)

lemma tree_proof_root: "tree_proof K ps j = Inr path \<Longrightarrow> \<exists>r. tree_root K ps = Inr r"
  by (auto simp: tree_proof_def tree_root_def split: if_splits)

text \<open>The entry of participant \<open>i\<close> verifies: its place in the participants' tree, and the row's place in
  the tree of the artifact's own rows.\<close>

definition row_proof_ok :: "round_deps \<Rightarrow> round_bundle \<Rightarrow> delta_dir \<Rightarrow> u32 \<Rightarrow> nat \<Rightarrow> row_proof \<Rightarrow> bool" where
  "row_proof_ok D b deltas chunk i rp \<longleftrightarrow>
     (let K = rd_keccak D; H = rd_hex D; part = bu_participants b ! i; cd = fc_chunk_dim (bu_config b) in
      \<exists>art pp path dr. read_artifact D deltas (fc_max_values (bu_config b)) part = Inr art \<and>
        rp_participant rp = of_nat i \<and> rp_worker rp = hex0x H (to_be_bytes (bp_worker part)) \<and>
        parse_list H (rp_participant_proof rp) = Inr pp \<and>
        tree_verify K (bu_participants_root b) (of_nat i) (payload_of K part) pp \<and>
        delta_root K (ar_values art) cd = Inr dr \<and>
        rp_row_hash rp = hex0x H (to_be_bytes (row_hash K (row (ar_values art) cd (unat chunk)))) \<and>
        parse_list H (rp_row_proof rp) = Inr path \<and>
        tree_verify K dr chunk (row_hash K (row (ar_values art) cd (unat chunk))) path)"

lemma row_proof_of_ok:
  assumes codec: "hex_codec H"
    and row: "row_proof_of K H cd payloads (unat chunk) (i, part, art) = Returns rp"
    and parts: "tree_root K payloads = Inr proot"
  shows "\<exists>pp path dr. rp_participant rp = of_nat i \<and> rp_worker rp = hex0x H (to_be_bytes (bp_worker part)) \<and>
    parse_list H (rp_participant_proof rp) = Inr pp \<and> tree_verify K proot (of_nat i) (payloads ! i) pp \<and>
    delta_root K (ar_values art) cd = Inr dr \<and>
    rp_row_hash rp = hex0x H (to_be_bytes (row_hash K (row (ar_values art) cd (unat chunk)))) \<and>
    parse_list H (rp_row_proof rp) = Inr path \<and>
    tree_verify K dr chunk (row_hash K (row (ar_values art) cd (unat chunk))) path"
proof -
  obtain rh pp path where r: "row_hashes K (ar_values art) cd = Inr rh" "tree_proof K payloads i = Inr pp"
    "unat chunk < length rh" "tree_proof K rh (unat chunk) = Inr path"
    and rp: "rp = \<lparr>rp_participant = of_nat i, rp_worker = hex0x H (to_be_bytes (bp_worker part)),
        rp_delta_root = hex0x H (to_be_bytes (bp_delta_root part)), rp_participant_proof = hex_path H pp,
        rp_row_hash = hex0x H (to_be_bytes (rh ! unat chunk)), rp_row_proof = hex_path H path\<rparr>"
    using row by (auto simp: row_proof_of_def)
  obtain dr where dr: "tree_root K rh = Inr dr" using tree_proof_root [OF r(4)] by blast
  have nth: "rh ! unat chunk = row_hash K (row (ar_values art) cd (unat chunk))"
    using r(1,3) by (auto simp: row_hashes_def Let_def split: if_splits)
  have "tree_verify K proot (of_nat i) (payloads ! i) pp" by (rule tree_proof_verifies [OF parts r(2)])
  moreover have "tree_verify K dr chunk (rh ! unat chunk) path"
    using tree_proof_verifies [OF dr r(4)] by simp
  moreover have "delta_root K (ar_values art) cd = Inr dr" using r(1) dr by (simp add: delta_root_def)
  ultimately show ?thesis
    unfolding nth [symmetric] using hex_codec.parse_hex_path [OF codec] by (auto simp: rp)
qed

text \<open>Challenge proofs verify.  For a bundle that passes its check, the proofs built for a chunk
  verify: the rebuilt input and the committed output against the roots of the bundle at the chunk's
  index, every participant against the participants' root, and every row against the root of its
  artifact's rows.\<close>

theorem chunk_proof_verifies:
  assumes "hex_codec (rd_hex D)" and "check_bundle_roots (rd_keccak D) (rd_hex D) b = Inr ()"
    and "chunk_proof_of D b deltas chunk = Returns p"
  shows "\<exists>input ip oh op. cp_chunk p = chunk \<and> cp_input p = hex0x (rd_hex D) input \<and>
    parse_list (rd_hex D) (cp_input_proof p) = Inr ip \<and>
    tree_verify (rd_keccak D) (bu_input_root b) chunk (fl_keccak (rd_keccak D) [input]) ip \<and>
    cp_output_hash p = hex0x (rd_hex D) (to_be_bytes oh) \<and> parse_list (rd_hex D) (cp_output_proof p) = Inr op \<and>
    tree_verify (rd_keccak D) (bu_output_root b) chunk oh op \<and>
    length (cp_rows p) = length (bu_participants b) \<and>
    list_all (\<lambda>i. row_proof_ok D b deltas chunk i (cp_rows p ! i)) [0..<length (cp_rows p)]"
proof -
  let ?K = "rd_keccak D" and ?H = "rd_hex D" and ?c = "unat chunk" and ?cfg = "bu_config b"
  note roots = check_bundle_Inr [OF assms(2)]
  obtain arts input ins outs rows ip op where
    arts: "collect_results (read_artifact D deltas (fc_max_values ?cfg)) (bu_participants b) = Inr arts" and
    hashes: "parse_list ?H (bu_input_hashes b) = Inr ins" "parse_list ?H (bu_output_hashes b) = Inr outs"
      "fl_keccak ?K [input] = ins ! ?c" and
    rows: "run_all (row_proof_of ?K ?H (fc_chunk_dim ?cfg) (map (payload_of ?K) (bu_participants b)) ?c)
             (enumerate 0 (zip (bu_participants b) arts)) = Returns rows" and
    paths: "tree_proof ?K ins ?c = Inr ip" "tree_proof ?K outs ?c = Inr op" and
    p: "p = \<lparr>cp_chunk = chunk, cp_input = hex0x ?H input, cp_input_proof = hex_path ?H ip,
             cp_output_hash = hex0x ?H (to_be_bytes (outs ! ?c)), cp_output_proof = hex_path ?H op, cp_rows = rows\<rparr>"
    using assms(3) unfolding chunk_proof_of_def Let_def by (auto split: if_splits)
  have verify: "tree_verify ?K (bu_input_root b) chunk (fl_keccak ?K [input]) ip"
    "tree_verify ?K (bu_output_root b) chunk (outs ! ?c) op"
    using roots(2,3) hashes tree_proof_verifies [OF _ paths(1)] tree_proof_verifies [OF _ paths(2)] by auto
  note a = collect_results_Inr [OF arts]
  note r = run_all_Returns [OF rows]
  have len: "length rows = length (bu_participants b)" using r a by simp
  have "row_proof_ok D b deltas chunk i (rows ! i)" if i: "i < length rows" for i
  proof -
    have nth: "enumerate 0 (zip (bu_participants b) arts) ! i = (i, bu_participants b ! i, arts ! i)"
      using i len a by (simp add: nth_enumerate_eq)
    have "row_proof_of ?K ?H (fc_chunk_dim ?cfg) (map (payload_of ?K) (bu_participants b)) ?c
        (i, bu_participants b ! i, arts ! i) = Returns (rows ! i)"
      using r i len a nth by (metis length_enumerate length_zip min.idem)
    from row_proof_of_ok [OF assms(1) this roots(1)] a i len
    show ?thesis by (auto simp: row_proof_ok_def Let_def)
  qed
  then show ?thesis
    using verify len hex_codec.parse_hex_path [OF assms(1)]
    by (intro exI [of _ input] exI [of _ ip] exI [of _ "outs ! ?c"] exI [of _ op]) (simp add: p list_all_iff)
qed

section \<open>An example round\<close>

definition round_ex :: round_deps where
  "round_ex = \<lparr>rd_keccak = (\<lambda>_. 7), rd_sha256 = (\<lambda>_. 9), rd_hex = lower_hex, rd_recover = (\<lambda>_ _. None),
     rd_payload = (\<lambda>_. None), rd_result = (\<lambda>_. Inl []), rd_float = example_ops\<rparr>"

lemma round_ex_simps [simp]:
  "rd_keccak round_ex bs = 7" "rd_sha256 round_ex bs = 9" "rd_hex round_ex = lower_hex" "rd_float round_ex = example_ops"
  by (simp_all add: round_ex_def)

definition ex_artifact :: artifact where
  "ex_artifact = \<lparr>ar_value_scale_log2 = 8, ar_round_id = 7, ar_worker = 10, ar_start_adapter_sha256 = 4,
     ar_trained_adapter_sha256 = 6, ar_manifest_hash = 7, ar_chunk_dim = 4, ar_values = [5]\<rparr>"

definition ex_result :: "address \<Rightarrow> lora_result" where
  "ex_result w = \<lparr>lr_task = TASK_LORA_DELTA, lr_round_id = 7, lr_worker = w, lr_delta_root = 7, lr_delta_sha256 = 9,
     lr_n_values = 1, lr_chunk_dim = 4, lr_start_adapter_sha256 = 4, lr_trained_adapter_sha256 = 6,
     lr_dataset_sha256 = 1, lr_examples = 1, lr_trainer = ''t'', lr_seconds = 1, lr_signature = []\<rparr>"

definition ex_contributions :: "contribution list" where
  "ex_contributions = map (\<lambda>w. \<lparr>cn_job = ''j'', cn_result = ex_result w, cn_artifact = ex_artifact\<rparr>) [10, 20, 30]"

definition ex_backend :: backend where
  "ex_backend c input = Inr (be_row [65536] @ [1])"

lemma ex_rows: "chunk_rows example_config [ex_artifact, ex_artifact, ex_artifact] 0 = [[5], [5], [5]]"
  by (simp add: chunk_rows_def ex_artifact_def row_def)

lemma ex_input: obtains input where "chunk_input [[5], [5], [5]] (config_chunk_rules example_config) = Inr input"
  using chunk_input_shape [of "[[5], [5], [5]]" 1 "config_chunk_rules example_config"]
  by (simp add: chunk_shape_def uniform_def MAX_N_def MAX_DIM_def)

lemma ex_chunk:
  obtains input where "aggregate_chunk example_config [ex_artifact, ex_artifact, ex_artifact] ex_backend 0 =
    Inr (input, be_row [65536] @ [1], \<lparr>co_values = [65536], co_states = [1]\<rparr>)"
proof -
  obtain input where "chunk_input [[5], [5], [5]] (config_chunk_rules example_config) = Inr input"
    by (rule ex_input)
  moreover have "parse_output (be_row [65536] @ [1]) 1 = Inr \<lparr>co_values = [65536], co_states = [1]\<rparr>"
    by (rule parse_output_written) simp_all
  ultimately have "aggregate_chunk example_config [ex_artifact, ex_artifact, ex_artifact] ex_backend 0 =
      Inr (input, be_row [65536] @ [1], \<lparr>co_values = [65536], co_states = [1]\<rparr>)"
    by (simp add: aggregate_chunk_def ex_rows ex_backend_def)
  then show ?thesis by (rule that)
qed

lemma ex_aggregate:
  obtains start b bs where "aggregate round_ex example_config 5 ex_contributions [] start ex_backend = Inr (b, bs)"
    "bu_participants b = map participant_of ex_contributions" "bu_chunks b = 1" "bu_config b = example_config"
    "bu_input_hashes b = hex_path lower_hex [7]" "bu_output_hashes b = hex_path lower_hex [7]"
proof -
  obtain bs0 start where s: "load_adapter bs0 = Inr start" "length bs0 < 2 ^ 40" "ad_values start = [[0]]"
    "map ti_name (gg_tensors (ad_header start)) = [''a.lora_a'']"
    by (rule example_adapter)
  have vc: "value_count start = 1" by (simp add: value_count_def s(3))
  have cc: "chunk_count 1 4 = 1" by (simp add: chunk_count_def div_ceil_def)
  obtain input where "aggregate_chunk example_config [ex_artifact, ex_artifact, ex_artifact] ex_backend 0 =
      Inr (input, be_row [65536] @ [1], \<lparr>co_values = [65536], co_states = [1]\<rparr>)"
    by (rule ex_chunk)
  then obtain acc where acc: "aggregate_loop (rd_keccak round_ex) example_config (map cn_artifact ex_contributions) ex_backend
      [0..<unat (chunk_count (value_count start) (fc_chunk_dim example_config))] empty_acc = Inr acc"
    "ca_agg acc = [65536]" "ca_inputs acc = [7]" "ca_outputs acc = [7]"
    by (simp add: vc cc ex_contributions_def empty_acc_def fl_keccak_def)
  obtain merged where m: "merge_adapter (rd_float round_ex) start [65536] (fc_value_scale_log2 example_config) = Inr merged"
    by (simp add: merge_adapter_def vc)
  have "length [65536 :: i64] < 2 ^ 64" by simp
  from merged_reloads [OF s(1,2) this m] obtain bs where bs: "merged_gguf start merged = Inr bs" by blast
  have root: "\<exists>r. tree_root (rd_keccak round_ex) xs = Inr r" if "xs \<noteq> []" "length xs < 5" for xs
    by (rule tree_root_Inr [of xs "rd_keccak round_ex"]) (use that in \<open>auto simp: MAX_LEAVES_def\<close>)
  obtain r1 where r1: "tree_root (rd_keccak round_ex) (map (payload_of (rd_keccak round_ex) \<circ> participant_of) ex_contributions) = Inr r1"
    using root [of "map (payload_of (rd_keccak round_ex) \<circ> participant_of) ex_contributions"]
    by (auto simp: ex_contributions_def)
  obtain r2 where r2: "tree_root (rd_keccak round_ex) [7] = Inr r2" using root [of "[7]"] by auto
  have roots: "three_roots (rd_keccak round_ex) (map (payload_of (rd_keccak round_ex) \<circ> participant_of) ex_contributions)
      (ca_inputs acc) (ca_outputs acc) = Inr (r1, r2, r2)"
    unfolding three_roots_def acc(3,4) r1 r2 by simp
  have n: "u16_of (length ex_contributions) = Inr 3" by (simp add: ex_contributions_def u16_of_def)
  have enough: "\<not> length ex_contributions < unat (fc_min_participants example_config)"
    by (simp add: ex_contributions_def)
  have few: "\<not> unat (chunk_count (value_count start) (fc_chunk_dim example_config)) \<ge> 2 ^ 32"
    by (simp add: vc cc)
  have valid: "validate_config example_config = Inr ()"
    using example_config_ok by (simp add: validate_config_ok)
  let ?b = "bundle_of round_ex example_config 5 ex_contributions [] start acc (rd_sha256 round_ex bs) (r1, r2, r2) 3"
  have "aggregate round_ex example_config 5 ex_contributions [] start ex_backend = Inr (?b, bs)"
    unfolding aggregate_def valid Let_def
    by (simp only: sum.case enough few if_False acc(1) acc(2) m bs roots n)
  then show ?thesis
    by (rule that) (simp_all add: bundle_of_def Let_def vc cc acc hex_path_def)
qed

theorem aggregated_bundle_witness:
  "\<exists>start b bs. aggregate round_ex example_config 5 ex_contributions [] start ex_backend = Inr (b, bs) \<and>
     check_bundle_roots (rd_keccak round_ex) lower_hex b = Inr () \<and> sum_list (bu_state_counts b) = bu_n_values b"
proof -
  obtain start b bs where a: "aggregate round_ex example_config 5 ex_contributions [] start ex_backend = Inr (b, bs)"
    by (rule ex_aggregate)
  have "hex_codec (rd_hex round_ex)" using lower.hex_codec_axioms by simp
  from aggregated_bundle [OF this a] a show ?thesis by auto
qed

definition ex_deltas :: delta_dir where
  "ex_deltas name = Inr (encode_artifact ex_artifact)"

lemma run_simps:
  "run_bind (Returns v) f = f v" "run_of (Inr v) = Returns v" "i < length xs \<Longrightarrow> index_of xs i = Returns (xs ! i)"
  by (simp_all add: run_bind_def run_of_def index_of_def)

lemma ex_row_proof:
  assumes "i < length payloads" and "length payloads < 5"
  shows "\<exists>rp. row_proof_of (rd_keccak round_ex) lower_hex 4 payloads 0 (i, part, ex_artifact) = Returns rp"
proof -
  have rh: "row_hashes (rd_keccak round_ex) [5] 4 = Inr [7]"
    by (simp add: row_hashes_def chunk_count_def div_ceil_def row_hash_def fl_keccak_def)
  obtain pp where "tree_proof (rd_keccak round_ex) payloads i = Inr pp"
    by (rule tree_proof_Inr [of i payloads]) (use assms in \<open>auto simp: MAX_LEAVES_def\<close>)
  moreover obtain path where "tree_proof (rd_keccak round_ex) [7] 0 = Inr path"
    by (rule tree_proof_Inr [of 0 "[7]"]) (auto simp: MAX_LEAVES_def)
  ultimately show ?thesis
    by (simp add: row_proof_of_def ex_artifact_def rh run_simps del: run_Returns)
qed

lemma run_all_total: "(\<And>x. x \<in> set xs \<Longrightarrow> \<exists>y. f x = Returns y) \<Longrightarrow> \<exists>ys. run_all f xs = Returns ys"
  by (induction xs) auto

lemma ex_chunk_proof:
  assumes "bu_participants b = map participant_of ex_contributions" "bu_chunks b = 1" "bu_config b = example_config"
    "bu_input_hashes b = hex_path lower_hex [7]" "bu_output_hashes b = hex_path lower_hex [7]"
  shows "\<exists>p. chunk_proof_of round_ex b ex_deltas 0 = Returns p"
proof -
  let ?parts = "map participant_of ex_contributions"
  let ?f = "row_proof_of (rd_keccak round_ex) lower_hex 4 (map (payload_of (rd_keccak round_ex)) ?parts) 0"
  have art: "artifact_ok 100 ex_artifact" by (simp add: artifact_ok_def ex_artifact_def)
  have sha: "bp_delta_sha256 part = 9 \<Longrightarrow> read_artifact round_ex ex_deltas 100 part = Inr ex_artifact" for part
    by (simp add: read_artifact_def ex_deltas_def decode_encode [OF art])
  have arts: "collect_results (read_artifact round_ex ex_deltas 100) ?parts = Inr [ex_artifact, ex_artifact, ex_artifact]"
    by (simp add: ex_contributions_def sha participant_of_def ex_result_def)
  obtain input where input: "chunk_input [[5], [5], [5]] (config_chunk_rules example_config) = Inr input"
    by (rule ex_input)
  have parse: "parse_list lower_hex (hex_path lower_hex [7]) = Inr [7]" by (rule lower.parse_hex_path)
  obtain path where path: "tree_proof (rd_keccak round_ex) [7] 0 = Inr path"
    by (rule tree_proof_Inr [of 0 "[7]"]) (auto simp: MAX_LEAVES_def)
  have row: "\<exists>rp. ?f (i, part, ex_artifact) = Returns rp" if "i < 3" for i part
    by (rule ex_row_proof) (use that in \<open>simp_all add: ex_contributions_def\<close>)
  have "\<exists>rows. run_all ?f (enumerate 0 (zip ?parts [ex_artifact, ex_artifact, ex_artifact])) = Returns rows"
    by (rule run_all_total) (use row in \<open>auto simp: in_set_enumerate_eq set_zip ex_contributions_def less_Suc_eq numeral_3_eq_3\<close>)
  then obtain rows where rows: "run_all ?f (enumerate 0 (zip ?parts [ex_artifact, ex_artifact, ex_artifact])) = Returns rows"
    by blast
  show ?thesis
    using assms arts input parse path rows
    by (simp add: chunk_proof_of_def Let_def run_simps ex_rows fl_keccak_def del: run_Returns)
qed

theorem chunk_proof_verifies_witness:
  "\<exists>b p input ip. chunk_proof_of round_ex b ex_deltas 0 = Returns p \<and> cp_input p = hex0x lower_hex input \<and>
     parse_list lower_hex (cp_input_proof p) = Inr ip \<and>
     tree_verify (rd_keccak round_ex) (bu_input_root b) 0 (fl_keccak (rd_keccak round_ex) [input]) ip"
proof -
  obtain start b bs where b: "aggregate round_ex example_config 5 ex_contributions [] start ex_backend = Inr (b, bs)"
    "bu_participants b = map participant_of ex_contributions" "bu_chunks b = 1" "bu_config b = example_config"
    "bu_input_hashes b = hex_path lower_hex [7]" "bu_output_hashes b = hex_path lower_hex [7]"
    by (rule ex_aggregate)
  obtain p where p: "chunk_proof_of round_ex b ex_deltas 0 = Returns p"
    using ex_chunk_proof [OF b(2-6)] by blast
  have codec: "hex_codec (rd_hex round_ex)" using lower.hex_codec_axioms by simp
  obtain acc merged roots n where a: "three_roots (rd_keccak round_ex)
      (map (payload_of (rd_keccak round_ex) \<circ> participant_of) ex_contributions) (ca_inputs acc) (ca_outputs acc) = Inr roots"
    "u16_of (length ex_contributions) = Inr n"
    "b = bundle_of round_ex example_config 5 ex_contributions [] start acc (rd_sha256 round_ex bs) roots n"
    by (rule aggregate_Inr [OF b(1)])
  have "check_bundle_roots (rd_keccak round_ex) (rd_hex round_ex) b = Inr ()"
    unfolding a(3) by (rule hex_codec.bundle_of_checks [OF codec refl a(1,2)])
  from chunk_proof_verifies [OF codec this p] p show ?thesis by auto
qed

end
