(* ===== verification/Epoch_Merkle.thy ===== *)
theory Epoch_Merkle
  imports Prelude "HOL-Library.Product_Lexorder" "HOL-Library.Multiset"
begin

text \<open>
  The types a training worker shares with the chain, \<^verbatim>\<open>training-worker/src/types.rs\<close>, and the
  Merkle tree of an epoch's step commits, \<^verbatim>\<open>training-worker/src/merkle.rs\<close>.  The hash function
  is the parameter \<open>K\<close>.

  Unlike the positional tree of a federated round, a pair of nodes is hashed in the order of
  its values, so a proof shows membership and not a position.  The tree is padded level by
  level: a node without a sibling is paired with the zero word.
\<close>

record step_commit =
  sc_epoch :: u32
  sc_step :: u32
  sc_worker :: address
  sc_commitment :: b256
  sc_prev_weights :: b256

record training_job_spec =
  ts_model_start_hash :: b256
  ts_dataset_hash :: b256
  ts_epoch_count :: u32
  ts_steps_per_epoch :: u32
  ts_min_workers :: u32
  ts_max_workers :: u32
  ts_challenge_window_blocks :: u32
  ts_per_epoch_budget :: u128
  ts_per_worker_stake :: u128

definition commit_encoding :: "step_commit \<Rightarrow> bytes" where
  "commit_encoding c =
     (replicate 28 0 @ to_be_bytes (sc_epoch c)) @ (replicate 28 0 @ to_be_bytes (sc_step c)) @
     (replicate 12 0 @ to_be_bytes (sc_worker c)) @ to_be_bytes (sc_commitment c) @
     to_be_bytes (sc_prev_weights c)"

definition compute_leaf :: "(bytes \<Rightarrow> b256) \<Rightarrow> step_commit \<Rightarrow> b256" where
  "compute_leaf K c = K (commit_encoding c)"

definition MERKLE_LEAF_PREFIX :: u8 where "MERKLE_LEAF_PREFIX = 0"
definition MERKLE_INTERNAL_PREFIX :: u8 where "MERKLE_INTERNAL_PREFIX = 1"

definition hash_pair :: "(bytes \<Rightarrow> b256) \<Rightarrow> b256 \<Rightarrow> b256 \<Rightarrow> b256" where
  "hash_pair K a b =
     (let (left, right) = (if a \<le> b then (a, b) else (b, a))
      in K ([MERKLE_INTERNAL_PREFIX] @ to_be_bytes left @ to_be_bytes right))"

definition promote_leaf :: "(bytes \<Rightarrow> b256) \<Rightarrow> b256 \<Rightarrow> b256" where
  "promote_leaf K l = K ([MERKLE_LEAF_PREFIX] @ to_be_bytes l)"

text \<open>The inner loop of both functions: the next level of the tree.\<close>

fun reduce_level :: "(bytes \<Rightarrow> b256) \<Rightarrow> b256 list \<Rightarrow> b256 list" where
  "reduce_level K (left # right # rest) = hash_pair K left right # reduce_level K rest"
| "reduce_level K [left] = [hash_pair K left 0]"
| "reduce_level K [] = []"

lemma length_reduce_level [simp]: "length (reduce_level K xs) = (length xs + 1) div 2"
  by (induction K xs rule: reduce_level.induct) auto

function reduce_all :: "(bytes \<Rightarrow> b256) \<Rightarrow> b256 list \<Rightarrow> b256" where
  "reduce_all K level =
     (if length level > 1 then reduce_all K (reduce_level K level) else level ! 0)"
  by auto
termination by (relation "measure (\<lambda>(K, level). length level)") auto

function sibling_loop :: "(bytes \<Rightarrow> b256) \<Rightarrow> b256 list \<Rightarrow> nat \<Rightarrow> b256 list" where
  "sibling_loop K level idx =
     (if length level > 1 then
        let sibling_idx = (if even idx then idx + 1 else idx - 1);
            sibling = (if sibling_idx < length level then level ! sibling_idx else 0)
        in sibling # sibling_loop K (reduce_level K level) (idx div 2)
      else [])"
  by auto
termination by (relation "measure (\<lambda>(K, level, idx). length level)") auto

declare reduce_all.simps [simp del] sibling_loop.simps [simp del]

definition sort_commits :: "step_commit list \<Rightarrow> step_commit list" where
  "sort_commits cs = sort_key (\<lambda>c. (sc_step c, sc_worker c)) cs"

definition compute_epoch_root ::
  "(bytes \<Rightarrow> b256) \<Rightarrow> step_commit list \<Rightarrow> b256 \<times> b256 list" where
  "compute_epoch_root K commits =
     (let leaves = map (compute_leaf K) (sort_commits commits)
      in if leaves = [] then (0, leaves)
         else if length leaves = 1 then (promote_leaf K (leaves ! 0), leaves)
         else (reduce_all K (map (promote_leaf K) leaves), leaves))"

definition compute_proof :: "(bytes \<Rightarrow> b256) \<Rightarrow> b256 list \<Rightarrow> nat \<Rightarrow> b256 list" where
  "compute_proof K leaves target =
     (if leaves = [] \<or> length leaves \<le> target then []
      else if length leaves = 1 then []
      else sibling_loop K (map (promote_leaf K) leaves) target)"

definition verify_proof :: "(bytes \<Rightarrow> b256) \<Rightarrow> b256 list \<Rightarrow> b256 \<Rightarrow> b256 \<Rightarrow> bool" where
  "verify_proof K path r leaf \<longleftrightarrow> foldl (hash_pair K) (promote_leaf K leaf) path = r"

section \<open>Encodings\<close>

definition pair_pre :: "b256 \<Rightarrow> b256 \<Rightarrow> bytes" where
  "pair_pre a b = [MERKLE_INTERNAL_PREFIX] @ to_be_bytes (min a b) @ to_be_bytes (max a b)"

definition promote_pre :: "b256 \<Rightarrow> bytes" where
  "promote_pre l = [MERKLE_LEAF_PREFIX] @ to_be_bytes l"

lemma hash_pair_eq: "hash_pair K a b = K (pair_pre a b)"
  by (simp add: hash_pair_def pair_pre_def min_def max_def)

lemma promote_leaf_eq: "promote_leaf K l = K (promote_pre l)"
  by (simp add: promote_leaf_def promote_pre_def)

lemma hash_pair_commute: "hash_pair K a b = hash_pair K b a"
  by (simp add: hash_pair_eq pair_pre_def min.commute max.commute)

lemma promote_pre_inject [simp]: "promote_pre l = promote_pre l' \<longleftrightarrow> l = l'"
  by (simp add: promote_pre_def)

lemma promote_pre_pair_pre [simp]: "promote_pre l \<noteq> pair_pre a b" "pair_pre a b \<noteq> promote_pre l"
  by (simp_all add: promote_pre_def pair_pre_def MERKLE_LEAF_PREFIX_def MERKLE_INTERNAL_PREFIX_def)

lemma pair_pre_eq_iff:
  "pair_pre a b = pair_pre c d \<longleftrightarrow> (a = c \<and> b = d) \<or> (a = d \<and> b = c)"
  by (auto simp: pair_pre_def append_eq_append_conv min_def max_def split: if_splits)

lemma commit_encoding_inject [simp]: "commit_encoding c = commit_encoding d \<longleftrightarrow> c = d"
  for c d :: step_commit
  by (cases c; cases d) (auto simp: commit_encoding_def append_eq_append_conv)

section \<open>Completeness\<close>

lemma reduce_level_nth:
  "j < (length xs + 1) div 2 \<Longrightarrow>
   reduce_level K xs ! j =
     hash_pair K (xs ! (2 * j)) (if 2 * j + 1 < length xs then xs ! (2 * j + 1) else 0)"
proof (induction K xs arbitrary: j rule: reduce_level.induct)
  case (1 K l r rest)
  then show ?case by (cases j) auto
qed auto

lemma reduce_all_single [simp]: "reduce_all K [x] = x"
  by (simp add: reduce_all.simps)

lemma siblings_lead_to_root:
  "i < length level \<Longrightarrow>
   foldl (hash_pair K) (level ! i) (sibling_loop K level i) = reduce_all K level"
proof (induction K level arbitrary: i rule: reduce_all.induct)
  case (1 K level)
  show ?case
  proof (cases "1 < length level")
    case False
    then have "i = 0" and "sibling_loop K level i = []" using 1 by (simp_all add: sibling_loop.simps)
    with False show ?thesis by (simp add: reduce_all.simps)
  next
    case True
    let ?s = "if even i then i + 1 else i - 1"
    let ?sib = "if ?s < length level then level ! ?s else 0"
    have half: "i div 2 < (length level + 1) div 2" using 1 by linarith
    have "reduce_level K level ! (i div 2) = hash_pair K (level ! i) ?sib"
    proof (cases "even i")
      case True
      then show ?thesis using half 1 by (simp add: reduce_level_nth)
    next
      case False
      then obtain k where "i = 2 * k + 1" by (auto elim: oddE)
      then show ?thesis using half 1 by (simp add: reduce_level_nth hash_pair_commute)
    qed
    then have "foldl (hash_pair K) (level ! i) (sibling_loop K level i)
        = foldl (hash_pair K) (reduce_level K level ! (i div 2))
            (sibling_loop K (reduce_level K level) (i div 2))"
      using True by (subst sibling_loop.simps) (simp add: Let_def)
    also have "\<dots> = reduce_all K (reduce_level K level)"
      using 1 True half by simp
    finally show ?thesis using True by (subst reduce_all.simps) simp
  qed
qed

lemma length_sort_commits [simp]: "length (sort_commits cs) = length cs"
  by (simp add: sort_commits_def)

lemma sort_commits_Nil [simp]: "sort_commits cs = [] \<longleftrightarrow> cs = []"
  by (metis length_0_conv length_sort_commits)

lemma set_sort_commits [simp]: "set (sort_commits cs) = set cs"
  by (simp add: sort_commits_def)

lemma epoch_root_eq:
  assumes "cs \<noteq> []"
  shows "compute_epoch_root K cs =
     (reduce_all K (map (promote_leaf K) (map (compute_leaf K) (sort_commits cs))),
      map (compute_leaf K) (sort_commits cs))"
proof -
  let ?L = "map (compute_leaf K) (sort_commits cs)"
  have len: "length ?L = length cs" by simp
  have ne: "?L \<noteq> []" using assms len by (metis length_0_conv)
  show ?thesis
  proof (cases "length ?L = 1")
    case True
    then obtain x where L: "?L = [x]" by (auto simp del: length_map simp: length_Suc_conv)
    show ?thesis by (simp only: compute_epoch_root_def Let_def L) simp
  next
    case False
    then show ?thesis by (simp only: compute_epoch_root_def Let_def ne if_False)
  qed
qed

lemma snd_epoch_root [simp]:
  "snd (compute_epoch_root K cs) = map (compute_leaf K) (sort_commits cs)"
  by (auto simp: compute_epoch_root_def Let_def)

lemma compute_proof_verifies:
  assumes "compute_epoch_root K cs = (r, leaves)" and "i < length leaves"
  shows "verify_proof K (compute_proof K leaves i) r (leaves ! i)"
proof -
  have leaves: "leaves = map (compute_leaf K) (sort_commits cs)"
    using assms(1) snd_epoch_root [of K cs] by simp
  then have ne: "cs \<noteq> []" using assms(2) by auto
  then have r: "r = reduce_all K (map (promote_leaf K) leaves)"
    using assms(1) epoch_root_eq [OF ne, of K] leaves by simp
  have "foldl (hash_pair K) (map (promote_leaf K) leaves ! i) (compute_proof K leaves i) = r"
  proof (cases "length leaves = 1")
    case True
    then show ?thesis using assms(2) r by (auto simp: compute_proof_def length_Suc_conv)
  next
    case False
    then show ?thesis
      using assms(2) siblings_lead_to_root [of i "map (promote_leaf K) leaves" K]
      by (auto simp: compute_proof_def r)
  qed
  then show ?thesis using assms(2) by (simp add: verify_proof_def)
qed

text \<open>The root depends on the set of commits only, not on their order.\<close>

lemma epoch_root_order:
  assumes "mset cs = mset cs'" and "inj_on (\<lambda>c. (sc_step c, sc_worker c)) (set cs)"
  shows "compute_epoch_root K cs = compute_epoch_root K cs'"
proof -
  have "sort_commits cs = sort_commits cs'"
    unfolding sort_commits_def
    by (rule sort_key_inj_key_eq) (use assms in \<open>auto simp: sorted_sort_key\<close>)
  then show ?thesis by (simp add: compute_epoch_root_def)
qed

section \<open>Soundness\<close>

text \<open>The pair preimages hashed while the tree is built, and while a proof is checked.\<close>

fun pair_pres :: "b256 list \<Rightarrow> bytes list" where
  "pair_pres (left # right # rest) = pair_pre left right # pair_pres rest"
| "pair_pres [left] = [pair_pre left 0]"
| "pair_pres [] = []"

function reduce_pres :: "(bytes \<Rightarrow> b256) \<Rightarrow> b256 list \<Rightarrow> bytes list" where
  "reduce_pres K level =
     (if length level > 1 then pair_pres level @ reduce_pres K (reduce_level K level) else [])"
  by auto
termination by (relation "measure (\<lambda>(K, level). length level)") auto

fun fold_pres :: "(bytes \<Rightarrow> b256) \<Rightarrow> b256 \<Rightarrow> b256 list \<Rightarrow> bytes list" where
  "fold_pres K h [] = []"
| "fold_pres K h (sib # path) = pair_pre h sib # fold_pres K (hash_pair K h sib) path"

declare reduce_pres.simps [simp del]

lemma in_reduce_level:
  "x \<in> set (reduce_level K level) \<Longrightarrow>
   \<exists>a \<in> set level. \<exists>b \<in> insert 0 (set level). x = hash_pair K a b \<and> pair_pre a b \<in> set (pair_pres level)"
  by (induction K level rule: reduce_level.induct) auto

lemma fold_pres_append:
  "set (fold_pres K h (p @ [s])) = insert (pair_pre (foldl (hash_pair K) h p) s) (set (fold_pres K h p))"
  by (induction p arbitrary: h) auto

lemma fold_pres_prefix: "set (fold_pres K h p) \<subseteq> set (fold_pres K h (p @ q))"
  by (induction p arbitrary: h) auto

lemma fold_nonzero:
  assumes "collision_free K A" and "h0 = K (promote_pre l)" and "promote_pre l \<in> A"
    and "set (fold_pres K h0 p) \<subseteq> A"
  shows "foldl (hash_pair K) h0 p \<noteq> 0"
  using assms(4)
proof (induction p rule: rev_induct)
  case Nil
  then show ?case using collision_free_nonzero assms by simp
next
  case (snoc s p)
  then have "pair_pre (foldl (hash_pair K) h0 p) s \<in> A" by (simp add: fold_pres_append)
  then have "K (pair_pre (foldl (hash_pair K) h0 p) s) \<noteq> 0"
    by (rule collision_free_nonzero [OF assms(1)])
  then show ?case by (simp flip: hash_pair_eq)
qed

lemma prefix_in_level:
  assumes cf: "collision_free K A" and h0: "h0 = K (promote_pre l)" "promote_pre l \<in> A"
    and path: "set (fold_pres K h0 path) \<subseteq> A"
  shows "level \<noteq> [] \<Longrightarrow> set (reduce_pres K level) \<subseteq> A \<Longrightarrow>
    foldl (hash_pair K) h0 path = reduce_all K level \<Longrightarrow>
    \<exists>n \<le> length path. foldl (hash_pair K) h0 (take n path) \<in> set level"
proof (induction level rule: length_induct)
  case (1 level)
  show ?case
  proof (cases "1 < length level")
    case False
    then have "reduce_all K level \<in> set level"
      using 1(2) by (simp add: reduce_all.simps)
    then show ?thesis using 1(4) by (intro exI [of _ "length path"]) simp
  next
    case True
    let ?next = "reduce_level K level"
    have sub: "set (pair_pres level) \<subseteq> A" "set (reduce_pres K ?next) \<subseteq> A"
      using 1(3) True by (simp_all add: reduce_pres.simps [of K level])
    have ne: "?next \<noteq> []" using True by (auto simp flip: length_0_conv)
    have root: "foldl (hash_pair K) h0 path = reduce_all K ?next"
      using 1(4) True by (simp add: reduce_all.simps [of K level])
    have "length ?next < length level" using True by simp
    with 1(1) ne sub(2) root obtain n where n: "n \<le> length path"
      and mem: "foldl (hash_pair K) h0 (take n path) \<in> set ?next" by blast
    from in_reduce_level [OF mem] obtain a b where a: "a \<in> set level"
      and b: "b \<in> insert 0 (set level)"
      and eq: "foldl (hash_pair K) h0 (take n path) = K (pair_pre a b)"
      and ab: "pair_pre a b \<in> A"
      using sub(1) by (auto simp: hash_pair_eq)
    show ?thesis
    proof (cases n)
      case 0
      then have "K (promote_pre l) = K (pair_pre a b)" using eq h0(1) by simp
      then show ?thesis using collision_free_eq [OF cf h0(2) ab] by simp
    next
      case (Suc k)
      let ?c = "foldl (hash_pair K) h0 (take k path)"
      have k: "k < length path" using n Suc by simp
      have take: "take n path = take k path @ [path ! k]"
        using k Suc by (simp add: take_Suc_conv_app_nth)
      have "path = (take k path @ [path ! k]) @ drop n path"
        using k Suc by (simp add: id_take_nth_drop [symmetric])
      then have pre: "pair_pre ?c (path ! k) \<in> A"
        and inner: "set (fold_pres K h0 (take k path)) \<subseteq> A"
        using path fold_pres_prefix [of K h0 "take k path @ [path ! k]" "drop n path"]
        by (auto simp: fold_pres_append)
      have "K (pair_pre ?c (path ! k)) = K (pair_pre a b)"
        using eq by (simp add: take hash_pair_eq)
      then have "?c = a \<or> ?c = b"
        using collision_free_eq [OF cf pre ab] by (auto simp: pair_pre_eq_iff)
      moreover have "?c \<noteq> 0"
        using fold_nonzero [OF cf h0 inner] .
      ultimately have "?c \<in> set level" using a b by auto
      then show ?thesis using k by (intro exI [of _ k]) simp
    qed
  qed
qed

lemma collision_free_mono: "collision_free K B \<Longrightarrow> A \<subseteq> B \<Longrightarrow> collision_free K A"
  unfolding collision_free_def by (meson image_mono in_mono inj_on_subset)

text \<open>
  What a check of a proof against the root of an epoch hashes, beyond the leaf encodings.
\<close>

definition epoch_hashed :: "(bytes \<Rightarrow> b256) \<Rightarrow> b256 list \<Rightarrow> b256 \<Rightarrow> b256 list \<Rightarrow> bytes set" where
  "epoch_hashed K leaves leaf path =
     set (map promote_pre (leaf # leaves)) \<union> set (reduce_pres K (map (promote_leaf K) leaves))
     \<union> set (fold_pres K (promote_leaf K leaf) path)"

lemma verified_epoch_not_empty:
  assumes "verify_proof K path (fst (compute_epoch_root K cs)) leaf"
    and "collision_free K (epoch_hashed K (snd (compute_epoch_root K cs)) leaf path)"
  shows "cs \<noteq> []"
proof
  assume "cs = []"
  then have "foldl (hash_pair K) (promote_leaf K leaf) path = 0"
    using assms(1) by (simp add: verify_proof_def compute_epoch_root_def)
  moreover have "foldl (hash_pair K) (promote_leaf K leaf) path \<noteq> 0"
    by (rule fold_nonzero [OF assms(2) promote_leaf_eq [of K leaf]]) (auto simp: epoch_hashed_def)
  ultimately show False by simp
qed

lemma verified_leaf_is_member:
  assumes verify: "verify_proof K path (fst (compute_epoch_root K cs)) leaf"
    and cf: "collision_free K (epoch_hashed K (snd (compute_epoch_root K cs)) leaf path)"
  shows "leaf \<in> set (snd (compute_epoch_root K cs))"
proof -
  let ?leaves = "snd (compute_epoch_root K cs)"
  let ?level = "map (promote_leaf K) ?leaves"
  let ?A = "epoch_hashed K ?leaves leaf path"
  let ?h = "promote_leaf K leaf"
  have ne: "cs \<noteq> []" by (rule verified_epoch_not_empty [OF verify cf])
  then have L: "?leaves \<noteq> []" by simp
  have root: "foldl (hash_pair K) ?h path = reduce_all K ?level"
    using verify epoch_root_eq [OF ne, of K] by (simp add: verify_proof_def)
  have inA: "promote_pre leaf \<in> ?A" "set (fold_pres K ?h path) \<subseteq> ?A"
    "set (reduce_pres K ?level) \<subseteq> ?A"
    unfolding epoch_hashed_def by auto
  obtain n where "n \<le> length path" and mem: "foldl (hash_pair K) ?h (take n path) \<in> set ?level"
    using prefix_in_level [OF cf promote_leaf_eq inA(1,2) _ inA(3) root] L by auto
  then obtain l where l: "l \<in> set ?leaves"
    and eq: "foldl (hash_pair K) ?h (take n path) = K (promote_pre l)"
    by (auto simp: promote_leaf_eq)
  have lA: "promote_pre l \<in> ?A" using l unfolding epoch_hashed_def by auto
  show ?thesis
  proof (cases "take n path" rule: rev_cases)
    case Nil
    have "K (promote_pre leaf) = K (promote_pre l)" using eq unfolding Nil by (simp add: promote_leaf_eq)
    then have "leaf = l" using collision_free_eq [OF cf inA(1) lA] by simp
    with l show ?thesis by simp
  next
    case (snoc p s)
    let ?pre = "pair_pre (foldl (hash_pair K) ?h p) s"
    have "set (fold_pres K ?h (take n path)) \<subseteq> ?A"
      using fold_pres_prefix [of K ?h "take n path" "drop n path"] inA(2) by auto
    then have "?pre \<in> ?A" using snoc by (simp add: fold_pres_append)
    moreover have "K ?pre = K (promote_pre l)"
      using eq snoc by (simp flip: hash_pair_eq)
    ultimately have "?pre = promote_pre l" using collision_free_eq [OF cf _ lA] by blast
    then show ?thesis by simp
  qed
qed

lemma verified_commit_is_member:
  assumes "verify_proof K path (fst (compute_epoch_root K cs)) (compute_leaf K c)"
    and cf: "collision_free K (commit_encoding ` insert c (set cs) \<union>
           epoch_hashed K (snd (compute_epoch_root K cs)) (compute_leaf K c) path)"
  shows "c \<in> set cs"
proof -
  have "collision_free K (epoch_hashed K (snd (compute_epoch_root K cs)) (compute_leaf K c) path)"
    by (rule collision_free_mono [OF cf]) (rule Un_upper2)
  with assms(1) have "compute_leaf K c \<in> set (snd (compute_epoch_root K cs))"
    by (intro verified_leaf_is_member)
  then have "compute_leaf K c \<in> compute_leaf K ` set cs" by simp
  then obtain d where d: "d \<in> set cs" and "K (commit_encoding c) = K (commit_encoding d)"
    unfolding compute_leaf_def by blast
  then have "commit_encoding c = commit_encoding d"
    using collision_free_eq [OF cf, of "commit_encoding c" "commit_encoding d"] by blast
  with d show ?thesis by simp
qed

end
