(* ===== verification/Training_Chain.thy ===== *)
theory Training_Chain
  imports Epoch_Merkle
begin

text \<open>
  The state machine a training worker drives, \<^verbatim>\<open>training-worker/src/chain.rs\<close>: the operations
  of the \<^verbatim>\<open>ChainClient\<close> trait as \<^verbatim>\<open>MockChainClient\<close> implements them.  Each operation runs
  under one lock and is one function from a state to an error or the next state; no operation
  that returns an error changes the state.  The sums of blocks and amounts are those of
  machine words.

  A \<^verbatim>\<open>HashMap\<close> is a partial function and a \<^verbatim>\<open>HashSet\<close> a set: no operation iterates one.
\<close>

datatype chain_error =
    UnknownJob u64
  | WrongState string
  | AlreadyJoined
  | PoolFull
  | StakeMismatch
  | BelowMin
  | CoordinatorNotJoined
  | WrongEpoch u32 u32
  | EpochAlreadyCommitted
  | ChallengeWindowOpen
  | NotCoordinator
  | NotReadyToFinalize
  | CallerNotJoined
  | ReplacementNotJoined
  | CoordinatorStillActive
  | NotRequesterOrGovernance
  | NotStalled
  | SelfChallenge
  | TargetNotJoined
  | EpochNotCommitted
  | BadMerkleProof
  | ChallengeAlreadyActive
  | ChallengeNotVoting
  | VoterNotOnCommittee
  | AlreadyVoted
  | ZeroEpochRoot
  | StepOutOfRange
  | ChallengeEpochOutOfRange
  | WrongChallengeBond

definition repeat_byte20 :: "u8 \<Rightarrow> address" where
  "repeat_byte20 b = from_be_bytes (replicate 20 b)"

definition CHALLENGE_BOND :: u128 where "CHALLENGE_BOND = 1000000000000000000"
definition STALL_EXPIRY_BLOCKS :: u64 where "STALL_EXPIRY_BLOCKS = 50400"
definition MOCK_REQUESTER :: address where "MOCK_REQUESTER = repeat_byte20 0xA0"
definition MOCK_GOVERNANCE :: address where "MOCK_GOVERNANCE = repeat_byte20 0x60"
definition COMMITTEE_QUORUM :: u32 where "COMMITTEE_QUORUM = 2"
definition SLASH_BPS :: u128 where "SLASH_BPS = 1000"
definition BPS :: u128 where "BPS = 10000"
definition COORDINATION_TIMEOUT :: u64 where "COORDINATION_TIMEOUT = 100"

datatype job_chain_state = Recruiting | Training | Awaiting | Finalized | Aborted

datatype mock_challenge_state = Voting | ResolvedUphold | ResolvedReject

record mock_challenge =
  mc_challenger :: address
  mc_bond :: u128
  mc_state :: mock_challenge_state
  mc_uphold_votes :: u32
  mc_reject_votes :: u32
  mc_voted :: "address set"

record mock_job =
  mj_spec :: training_job_spec
  mj_state :: job_chain_state
  mj_current_epoch :: u32
  mj_coordinator :: "address option"
  mj_workers :: "address list"
  mj_joined :: "address set"
  mj_epoch_roots :: "u32 \<Rightarrow> b256 option"
  mj_all_epochs_committed_block :: u64
  mj_last_activity_block :: u64
  mj_liveness_slashed :: "address set"
  mj_challenges :: "u32 \<times> u32 \<times> address \<Rightarrow> mock_challenge option"
  mj_challenge_slashed :: "address \<Rightarrow> u128 option"

record mock_state =
  ms_jobs :: "u64 \<Rightarrow> mock_job option"
  ms_next_job_id :: u64
  ms_block_number :: u64
  ms_committee :: "address set"
  ms_challenger_rewards :: "address \<Rightarrow> u128 option"

record job_chain_snapshot =
  js_spec :: training_job_spec
  js_state :: job_chain_state
  js_current_epoch :: u32
  js_coordinator :: "address option"
  js_workers :: "address list"
  js_epoch_roots :: "u32 \<Rightarrow> b256 option"

text \<open>The client: the state behind its lock and whether it claims to settle in real money.\<close>

record mock_chain_client =
  cl_inner :: mock_state
  cl_live_settlement :: bool

definition empty_mock_state :: mock_state where
  "empty_mock_state = \<lparr>ms_jobs = Map.empty, ms_next_job_id = 0, ms_block_number = 0,
     ms_committee = {}, ms_challenger_rewards = Map.empty\<rparr>"

definition with_live_settlement :: "bool \<Rightarrow> mock_chain_client" where
  "with_live_settlement live = \<lparr>cl_inner = empty_mock_state, cl_live_settlement = live\<rparr>"

definition new_mock :: mock_chain_client where
  "new_mock = with_live_settlement False"

definition new_live_settlement :: mock_chain_client where
  "new_live_settlement = with_live_settlement True"

definition default_mock :: mock_chain_client where
  "default_mock = \<lparr>cl_inner = empty_mock_state, cl_live_settlement = False\<rparr>"

definition is_live_settlement :: "mock_chain_client \<Rightarrow> bool" where
  "is_live_settlement c = cl_live_settlement c"

section \<open>Operations\<close>

definition new_job :: "training_job_spec \<Rightarrow> mock_job" where
  "new_job spec = \<lparr>mj_spec = spec, mj_state = Recruiting, mj_current_epoch = 0,
     mj_coordinator = None, mj_workers = [], mj_joined = {}, mj_epoch_roots = Map.empty,
     mj_all_epochs_committed_block = 0, mj_last_activity_block = 0, mj_liveness_slashed = {},
     mj_challenges = Map.empty, mj_challenge_slashed = Map.empty\<rparr>"

definition create_job :: "training_job_spec \<Rightarrow> mock_state \<Rightarrow> u64 \<times> mock_state" where
  "create_job spec st =
     (ms_next_job_id st,
      st\<lparr>ms_next_job_id := ms_next_job_id st + 1,
         ms_jobs := (ms_jobs st)(ms_next_job_id st \<mapsto> new_job spec)\<rparr>)"

text \<open>Looking a job up and changing it in place, as every operation on a job does.\<close>

definition on_job ::
  "u64 \<Rightarrow> (mock_job \<Rightarrow> chain_error + mock_job) \<Rightarrow> mock_state \<Rightarrow> chain_error + mock_state" where
  "on_job job_id f st =
     (case ms_jobs st job_id of
        None \<Rightarrow> Inl (UnknownJob job_id)
      | Some job \<Rightarrow> map_sum id (\<lambda>job'. st\<lparr>ms_jobs := (ms_jobs st)(job_id \<mapsto> job')\<rparr>) (f job))"

definition chain_snapshot :: "u64 \<Rightarrow> mock_state \<Rightarrow> chain_error + job_chain_snapshot" where
  "chain_snapshot job_id st =
     (case ms_jobs st job_id of
        None \<Rightarrow> Inl (UnknownJob job_id)
      | Some job \<Rightarrow> Inr \<lparr>js_spec = mj_spec job, js_state = mj_state job,
          js_current_epoch = mj_current_epoch job, js_coordinator = mj_coordinator job,
          js_workers = mj_workers job, js_epoch_roots = mj_epoch_roots job\<rparr>)"

definition join_training_job :: "u64 \<Rightarrow> address \<Rightarrow> u128 \<Rightarrow> mock_state \<Rightarrow> chain_error + mock_state"
where
  "join_training_job job_id sender stake =
     on_job job_id (\<lambda>job.
       if mj_state job \<noteq> Recruiting then Inl (WrongState ''not recruiting'')
       else if sender \<in> mj_joined job then Inl AlreadyJoined
       else if ts_max_workers (mj_spec job) \<le> of_nat (length (mj_workers job)) then Inl PoolFull
       else if stake \<noteq> ts_per_worker_stake (mj_spec job) then Inl StakeMismatch
       else Inr (job\<lparr>mj_workers := mj_workers job @ [sender],
                     mj_joined := insert sender (mj_joined job)\<rparr>))"

definition close_recruitment :: "u64 \<Rightarrow> address \<Rightarrow> mock_state \<Rightarrow> chain_error + mock_state" where
  "close_recruitment job_id coordinator st =
     on_job job_id (\<lambda>job.
       if mj_state job \<noteq> Recruiting then Inl (WrongState ''not recruiting'')
       else if of_nat (length (mj_workers job)) < ts_min_workers (mj_spec job) then Inl BelowMin
       else if coordinator \<notin> mj_joined job then Inl CoordinatorNotJoined
       else Inr (job\<lparr>mj_state := Training, mj_coordinator := Some coordinator,
                     mj_last_activity_block := ms_block_number st\<rparr>)) st"

definition commit_epoch ::
  "u64 \<Rightarrow> address \<Rightarrow> u32 \<Rightarrow> b256 \<Rightarrow> mock_state \<Rightarrow> chain_error + mock_state" where
  "commit_epoch job_id sender epoch r st =
     (if r = 0 then Inl ZeroEpochRoot
      else on_job job_id (\<lambda>job.
        if mj_state job \<noteq> Training then Inl (WrongState ''not training'')
        else if mj_coordinator job \<noteq> Some sender then Inl NotCoordinator
        else if epoch \<noteq> mj_current_epoch job then Inl (WrongEpoch (mj_current_epoch job) epoch)
        else if mj_epoch_roots job epoch \<noteq> None then Inl EpochAlreadyCommitted
        else
          let job1 = job\<lparr>mj_epoch_roots := (mj_epoch_roots job)(epoch \<mapsto> r),
                         mj_current_epoch := mj_current_epoch job + 1,
                         mj_last_activity_block := ms_block_number st\<rparr>
          in Inr (if mj_current_epoch job1 = ts_epoch_count (mj_spec job1)
                  then job1\<lparr>mj_state := Awaiting,
                            mj_all_epochs_committed_block := ms_block_number st\<rparr>
                  else job1)) st)"

definition advance_blocks :: "u64 \<Rightarrow> mock_state \<Rightarrow> mock_state" where
  "advance_blocks n st = st\<lparr>ms_block_number := ms_block_number st + n\<rparr>"

definition finalize :: "u64 \<Rightarrow> mock_state \<Rightarrow> chain_error + mock_state" where
  "finalize job_id st =
     on_job job_id (\<lambda>job.
       if mj_state job \<noteq> Awaiting then Inl NotReadyToFinalize
       else
         let window_end = mj_all_epochs_committed_block job
                          + ucast (ts_challenge_window_blocks (mj_spec job))
         in if ms_block_number st < window_end then Inl ChallengeWindowOpen
            else Inr (job\<lparr>mj_state := Finalized\<rparr>)) st"

definition expire_stalled_training :: "u64 \<Rightarrow> address \<Rightarrow> mock_state \<Rightarrow> chain_error + mock_state"
where
  "expire_stalled_training job_id caller st =
     on_job job_id (\<lambda>job.
       if mj_state job \<noteq> Training then Inl (WrongState ''not training'')
       else if caller \<noteq> MOCK_REQUESTER \<and> caller \<notin> mj_joined job then Inl NotRequesterOrGovernance
       else if ms_block_number st \<le> mj_last_activity_block job + STALL_EXPIRY_BLOCKS then Inl NotStalled
       else Inr (job\<lparr>mj_state := Awaiting,
                     mj_all_epochs_committed_block := ms_block_number st\<rparr>)) st"

definition reassign_coordinator ::
  "u64 \<Rightarrow> address \<Rightarrow> address \<Rightarrow> mock_state \<Rightarrow> chain_error + mock_state" where
  "reassign_coordinator job_id caller new_coordinator st =
     on_job job_id (\<lambda>job.
       if mj_state job \<noteq> Training then Inl (WrongState ''not training'')
       else if caller \<noteq> MOCK_REQUESTER \<and> caller \<noteq> MOCK_GOVERNANCE then Inl NotRequesterOrGovernance
       else if new_coordinator \<notin> mj_joined job then Inl ReplacementNotJoined
       else if ms_block_number st \<le> mj_last_activity_block job + COORDINATION_TIMEOUT
         then Inl CoordinatorStillActive
       else
         let slashed = (if caller = MOCK_GOVERNANCE
                        then (case mj_coordinator job of
                                None \<Rightarrow> mj_liveness_slashed job
                              | Some old \<Rightarrow> insert old (mj_liveness_slashed job))
                        else mj_liveness_slashed job)
         in Inr (job\<lparr>mj_liveness_slashed := slashed, mj_coordinator := Some new_coordinator,
                     mj_last_activity_block := ms_block_number st\<rparr>)) st"

text \<open>The verifier of the chain is a second implementation of the one in \<open>Epoch_Merkle\<close>.\<close>

definition verify_merkle_proof :: "(bytes \<Rightarrow> b256) \<Rightarrow> b256 list \<Rightarrow> b256 \<Rightarrow> b256 \<Rightarrow> bool" where
  "verify_merkle_proof K path r leaf \<longleftrightarrow>
     foldl (\<lambda>computed sibling.
         let (left, right) = (if computed \<le> sibling then (computed, sibling) else (sibling, computed))
         in K ([1] @ to_be_bytes left @ to_be_bytes right))
       (K ([0] @ to_be_bytes leaf)) path = r"

definition challenge_step ::
  "(bytes \<Rightarrow> b256) \<Rightarrow> u64 \<Rightarrow> address \<Rightarrow> u32 \<Rightarrow> u32 \<Rightarrow> address \<Rightarrow> b256 \<Rightarrow> b256 list \<Rightarrow> u128
    \<Rightarrow> mock_state \<Rightarrow> chain_error + mock_state" where
  "challenge_step K job_id caller epoch stp target leaf merkle_proof bond =
     on_job job_id (\<lambda>job.
       if caller = target then Inl SelfChallenge
       else if target \<notin> mj_joined job then Inl TargetNotJoined
       else if bond \<noteq> CHALLENGE_BOND then Inl WrongChallengeBond
       else if ts_steps_per_epoch (mj_spec job) \<le> stp then Inl StepOutOfRange
       else if ts_epoch_count (mj_spec job) \<le> epoch then Inl ChallengeEpochOutOfRange
       else (case mj_epoch_roots job epoch of
           None \<Rightarrow> Inl EpochNotCommitted
         | Some r \<Rightarrow>
             if \<not> verify_merkle_proof K merkle_proof r leaf then Inl BadMerkleProof
             else if (case mj_challenges job (epoch, stp, target) of
                        Some existing \<Rightarrow> mc_state existing = Voting | None \<Rightarrow> False)
               then Inl ChallengeAlreadyActive
             else Inr (job\<lparr>mj_challenges := (mj_challenges job)((epoch, stp, target) \<mapsto>
                    \<lparr>mc_challenger = caller, mc_bond = bond, mc_state = Voting,
                     mc_uphold_votes = 0, mc_reject_votes = 0, mc_voted = {}\<rparr>)\<rparr>)))"

definition or_zero :: "u128 option \<Rightarrow> u128" where
  "or_zero x = (case x of None \<Rightarrow> 0 | Some v \<Rightarrow> v)"

definition cast_vote :: "address \<Rightarrow> bool \<Rightarrow> mock_challenge \<Rightarrow> chain_error + mock_challenge" where
  "cast_vote voter uphold ch =
     (if mc_state ch \<noteq> Voting then Inl ChallengeNotVoting
      else if voter \<in> mc_voted ch then Inl AlreadyVoted
      else
        let ch1 = ch\<lparr>mc_voted := insert voter (mc_voted ch)\<rparr>
        in Inr (if uphold then ch1\<lparr>mc_uphold_votes := mc_uphold_votes ch1 + 1\<rparr>
                else ch1\<lparr>mc_reject_votes := mc_reject_votes ch1 + 1\<rparr>))"

definition upheld_slash :: "mock_job \<Rightarrow> address \<Rightarrow> u128" where
  "upheld_slash job target =
     (let spec_stake = ts_per_worker_stake (mj_spec job);
          prior_slash = or_zero (mj_challenge_slashed job target);
          liveness_slash_count = (if target \<in> mj_liveness_slashed job then 1 else 0);
          nominal_slash = spec_stake * SLASH_BPS div BPS;
          held_lower_bound = sat_sub (sat_sub spec_stake prior_slash)
                               (liveness_slash_count * (spec_stake * 10 div BPS))
      in min nominal_slash held_lower_bound)"

definition vote_challenge ::
  "u64 \<Rightarrow> address \<Rightarrow> u32 \<Rightarrow> u32 \<Rightarrow> address \<Rightarrow> bool \<Rightarrow> mock_state \<Rightarrow> chain_error + mock_state" where
  "vote_challenge job_id voter epoch stp target uphold st =
     (if voter \<notin> ms_committee st then Inl VoterNotOnCommittee
      else (case ms_jobs st job_id of
          None \<Rightarrow> Inl (UnknownJob job_id)
        | Some job \<Rightarrow>
          (case mj_challenges job (epoch, stp, target) of
             None \<Rightarrow> Inl ChallengeNotVoting
           | Some ch0 \<Rightarrow>
             (case cast_vote voter uphold ch0 of
                Inl e \<Rightarrow> Inl e
              | Inr ch \<Rightarrow>
                let put = (\<lambda>c j :: mock_job.
                      j\<lparr>mj_challenges := (mj_challenges j)((epoch, stp, target) \<mapsto> c)\<rparr>);
                    decide_uphold = (COMMITTEE_QUORUM \<le> mc_uphold_votes ch);
                    decide_reject = (COMMITTEE_QUORUM \<le> mc_reject_votes ch)
                in if \<not> decide_uphold \<and> \<not> decide_reject
                   then Inr (st\<lparr>ms_jobs := (ms_jobs st)(job_id \<mapsto> put ch job)\<rparr>)
                   else if decide_uphold then
                     let slash = upheld_slash job target;
                         job1 = put (ch\<lparr>mc_state := ResolvedUphold, mc_bond := 0\<rparr>) job;
                         job2 = job1\<lparr>mj_challenge_slashed := (mj_challenge_slashed job1)
                           (target \<mapsto> or_zero (mj_challenge_slashed job1 target) + slash)\<rparr>;
                         reward = mc_bond ch + slash div 2;
                         rewards = ms_challenger_rewards st
                     in Inr (st\<lparr>ms_jobs := (ms_jobs st)(job_id \<mapsto> job2),
                          ms_challenger_rewards := rewards(mc_challenger ch \<mapsto>
                            or_zero (rewards (mc_challenger ch)) + reward)\<rparr>)
                   else Inr (st\<lparr>ms_jobs := (ms_jobs st)(job_id \<mapsto>
                          put (ch\<lparr>mc_state := ResolvedReject, mc_bond := 0\<rparr>) job)\<rparr>)))))"

definition set_committee_member :: "address \<Rightarrow> bool \<Rightarrow> mock_state \<Rightarrow> mock_state" where
  "set_committee_member member active st =
     (if active then st\<lparr>ms_committee := insert member (ms_committee st)\<rparr>
      else st\<lparr>ms_committee := ms_committee st - {member}\<rparr>)"

definition was_liveness_slashed :: "u64 \<Rightarrow> address \<Rightarrow> mock_state \<Rightarrow> bool" where
  "was_liveness_slashed job_id worker st =
     (case ms_jobs st job_id of None \<Rightarrow> False | Some j \<Rightarrow> worker \<in> mj_liveness_slashed j)"

definition worker_total_slashed :: "u64 \<Rightarrow> address \<Rightarrow> mock_state \<Rightarrow> u128" where
  "worker_total_slashed job_id worker st =
     (case ms_jobs st job_id of
        None \<Rightarrow> 0
      | Some job \<Rightarrow>
          let challenge_portion = or_zero (mj_challenge_slashed job worker);
              liveness_portion = (if worker \<in> mj_liveness_slashed job
                                  then ts_per_worker_stake (mj_spec job) * 10 div BPS else 0)
          in challenge_portion + liveness_portion)"

definition challenger_reward :: "address \<Rightarrow> mock_state \<Rightarrow> u128" where
  "challenger_reward challenger st = or_zero (ms_challenger_rewards st challenger)"

section \<open>Steps and reachable states\<close>

inductive chain_step :: "(bytes \<Rightarrow> b256) \<Rightarrow> mock_state \<Rightarrow> mock_state \<Rightarrow> bool" for K where
  created: "chain_step K st (snd (create_job spec st))"
| joined: "join_training_job i w stake st = Inr st' \<Longrightarrow> chain_step K st st'"
| closed: "close_recruitment i w st = Inr st' \<Longrightarrow> chain_step K st st'"
| committed: "commit_epoch i w e r st = Inr st' \<Longrightarrow> chain_step K st st'"
| mined: "chain_step K st (advance_blocks n st)"
| finalized: "finalize i st = Inr st' \<Longrightarrow> chain_step K st st'"
| expired: "expire_stalled_training i w st = Inr st' \<Longrightarrow> chain_step K st st'"
| reassigned: "reassign_coordinator i w c st = Inr st' \<Longrightarrow> chain_step K st st'"
| challenged: "challenge_step K i w e s t leaf path bond st = Inr st' \<Longrightarrow> chain_step K st st'"
| voted: "vote_challenge i w e s t uphold st = Inr st' \<Longrightarrow> chain_step K st st'"
| membership: "chain_step K st (set_committee_member w active st)"

inductive chain_reachable :: "(bytes \<Rightarrow> b256) \<Rightarrow> mock_state \<Rightarrow> bool" for K where
  start: "chain_reachable K empty_mock_state"
| more: "chain_reachable K st \<Longrightarrow> chain_step K st st' \<Longrightarrow> chain_reachable K st'"

inductive_cases chain_stepE: "chain_step K st st'"

end
