(* ===== verification/Worker_Transport.thy ===== *)
theory Worker_Transport
  imports Epoch_Merkle
begin

text \<open>
  The mesh between workers, \<^verbatim>\<open>training-worker/src/transport.rs\<close>: the messages, the shared queues
  of \<^verbatim>\<open>InProcessTransport\<close> and its sender-scoped handle.

  \<^verbatim>\<open>recv\<close> is not one step: it takes the lock, finds the queue empty, gives the lock up and only
  then starts to wait for \<^verbatim>\<open>notify_waiters\<close>, which wakes the tasks that are waiting at that moment
  and leaves nothing behind for a later one.  The step relation \<open>mesh_step\<close> has these points
  between the steps of one receiver.
\<close>

datatype worker_message =
    StepCommitted step_commit
  | StepAdvance (sa_epoch: u32) (sa_step: u32)
  | EpochClose u32
  | PipelineActivation (pa_request_id: u64) (pa_from_stage: u32) (pa_to_stage: u32)
      (pa_from_worker: address) (pa_payload: bytes)

text \<open>The queue of each registered peer.\<close>

type_synonym in_process_state = "address \<Rightarrow> worker_message list option"

definition mesh_new :: in_process_state where "mesh_new = Map.empty"

definition mesh_register :: "address \<Rightarrow> in_process_state \<Rightarrow> in_process_state" where
  "mesh_register peer st = (case st peer of None \<Rightarrow> st(peer \<mapsto> []) | Some _ \<Rightarrow> st)"

definition mesh_broadcast :: "worker_message \<Rightarrow> in_process_state \<Rightarrow> in_process_state" where
  "mesh_broadcast msg st = (\<lambda>peer. map_option (\<lambda>q. q @ [msg]) (st peer))"

text \<open>The handle that \<^verbatim>\<open>scoped\<close> returns skips the queue of its sender.\<close>

definition scoped_broadcast ::
  "address \<Rightarrow> worker_message \<Rightarrow> in_process_state \<Rightarrow> in_process_state" where
  "scoped_broadcast sender msg st =
     (\<lambda>peer. map_option (\<lambda>q. if peer \<noteq> sender then q @ [msg] else q) (st peer))"

text \<open>One look at the queue, under the lock.\<close>

definition mesh_pop ::
  "address \<Rightarrow> in_process_state \<Rightarrow> worker_message option \<times> in_process_state" where
  "mesh_pop peer st =
     (case st peer of
        Some (m # q) \<Rightarrow> (Some m, st(peer \<mapsto> q))
      | _ \<Rightarrow> (None, st))"

section \<open>Queues\<close>

lemma mesh_pop_simps [simp]:
  "st p = None \<Longrightarrow> mesh_pop p st = (None, st)"
  "st p = Some [] \<Longrightarrow> mesh_pop p st = (None, st)"
  "st p = Some (m # q) \<Longrightarrow> mesh_pop p st = (Some m, st(p \<mapsto> q))"
  by (simp_all add: mesh_pop_def)

text \<open>Every peer but the sender finds the messages of a sender in the order sent.\<close>

lemma scoped_broadcasts_in_order:
  "st p = Some q \<Longrightarrow> p \<noteq> sender \<Longrightarrow>
   fold (scoped_broadcast sender) msgs st p = Some (q @ msgs)"
  by (induction msgs arbitrary: st q) (auto simp: scoped_broadcast_def)

lemma scoped_broadcast_skips_sender:
  "fold (scoped_broadcast sender) msgs st sender = st sender"
  by (induction msgs arbitrary: st) (auto simp: scoped_broadcast_def option.map_ident)

section \<open>Waiting\<close>

datatype receiver = Checking | Waking | Waiting | Received worker_message

text \<open>\<open>Checking\<close>: about to take the lock; \<open>Waking\<close>: the queue was empty and the lock is given
  up; \<open>Waiting\<close>: registered with \<^verbatim>\<open>notified()\<close>.\<close>

record mesh =
  mesh_queues :: in_process_state
  mesh_receiver :: receiver

inductive mesh_step :: "address \<Rightarrow> mesh \<Rightarrow> mesh \<Rightarrow> bool" for me where
  popped: "mesh_pop me qs = (Some m, qs') \<Longrightarrow>
    mesh_step me \<lparr>mesh_queues = qs, mesh_receiver = Checking\<rparr>
                 \<lparr>mesh_queues = qs', mesh_receiver = Received m\<rparr>"
| empty: "mesh_pop me qs = (None, qs') \<Longrightarrow>
    mesh_step me \<lparr>mesh_queues = qs, mesh_receiver = Checking\<rparr>
                 \<lparr>mesh_queues = qs', mesh_receiver = Waking\<rparr>"
| waits: "mesh_step me \<lparr>mesh_queues = qs, mesh_receiver = Waking\<rparr>
                       \<lparr>mesh_queues = qs, mesh_receiver = Waiting\<rparr>"
| sent: "mesh_step me \<lparr>mesh_queues = qs, mesh_receiver = r\<rparr>
    \<lparr>mesh_queues = scoped_broadcast sender m qs,
     mesh_receiver = (if r = Waiting then Checking else r)\<rparr>"

inductive_cases mesh_stepE: "mesh_step me s s'"

text \<open>A receiver can be left waiting with a message in its queue: a broadcast that falls
  between its look at the empty queue and the start of its wait wakes nobody, and until another
  broadcast comes the receiver takes no step.\<close>

theorem lost_wakeup:
  assumes "qs me = Some []" and "sender \<noteq> me"
  shows "\<exists>s. (mesh_step me)\<^sup>*\<^sup>* \<lparr>mesh_queues = qs, mesh_receiver = Checking\<rparr> s
    \<and> mesh_queues s = scoped_broadcast sender m qs \<and> mesh_queues s me = Some [m]
    \<and> mesh_receiver s = Waiting
    \<and> (\<forall>s'. mesh_step me s s' \<longrightarrow>
         (\<exists>sender' m'. mesh_queues s' = scoped_broadcast sender' m' (mesh_queues s)))"
proof -
  let ?qs = "scoped_broadcast sender m qs"
  let ?s = "\<lparr>mesh_queues = ?qs, mesh_receiver = Waiting\<rparr>"
  have first: "mesh_step me \<lparr>mesh_queues = qs, mesh_receiver = Checking\<rparr> \<lparr>mesh_queues = qs, mesh_receiver = Waking\<rparr>"
    by (rule mesh_step.empty) (simp add: assms(1))
  have second: "mesh_step me \<lparr>mesh_queues = qs, mesh_receiver = Waking\<rparr> \<lparr>mesh_queues = ?qs, mesh_receiver = Waking\<rparr>"
    using mesh_step.sent [of me qs Waking sender m] by simp
  have third: "mesh_step me \<lparr>mesh_queues = ?qs, mesh_receiver = Waking\<rparr> ?s"
    by (rule mesh_step.waits)
  have "(mesh_step me)\<^sup>*\<^sup>* \<lparr>mesh_queues = qs, mesh_receiver = Checking\<rparr> ?s"
    using first second third by (blast intro: converse_rtranclp_into_rtranclp)
  moreover have "mesh_queues ?s me = Some [m]"
    using assms by (simp add: scoped_broadcast_def)
  moreover have "\<exists>sender' m'. mesh_queues s' = scoped_broadcast sender' m' (mesh_queues ?s)"
    if "mesh_step me ?s s'" for s'
    using that by (cases rule: mesh_step.cases) auto
  ultimately show ?thesis by (intro exI [of _ ?s]) auto
qed

lemma lost_wakeup_witness:
  "\<exists>s. (mesh_step 2)\<^sup>*\<^sup>* \<lparr>mesh_queues = [2 \<mapsto> []], mesh_receiver = Checking\<rparr> s
     \<and> mesh_queues s 2 = Some [EpochClose 0] \<and> mesh_receiver s = Waiting"
  using lost_wakeup [of "[2 \<mapsto> []]" 2 1 "EpochClose 0"] by auto

end
