(* ===== verification/Training_Worker.thy ===== *)
theory Training_Worker
  imports Training_Chain Worker_Transport
begin

text \<open>
  The worker of a training job, \<^verbatim>\<open>training-worker/src/worker.rs\<close>: the gate of the epoch
  aggregation and the whole of \<^verbatim>\<open>Worker::run\<close>.

  The worker is generic in its model backend, transport and chain client.  Their operations are
  the fields of a record \<open>worker_env\<close> over a type \<open>'w\<close> of worlds; whatever other tasks, workers
  and the clock do between two calls happens inside the operations.  A receive under a timeout
  ends in a message, in the end of the transport or in the end of the time.  The loops that wait
  for others may not end: they are partial functions with the value \<open>None\<close> where they run
  forever.  Times are milliseconds.

  The archive of peer commits that the code fills and never reads is left out.
\<close>

section \<open>The aggregation gate\<close>

record epoch_aggregator =
  ag_epoch :: u32
  ag_members :: "address set"
  ag_seen :: "(address \<times> u32) set"
  ag_accepted :: "step_commit list"

definition aggregator_new :: "u32 \<Rightarrow> address list \<Rightarrow> epoch_aggregator" where
  "aggregator_new epoch members =
     \<lparr>ag_epoch = epoch, ag_members = set members, ag_seen = {}, ag_accepted = []\<rparr>"

definition try_accept :: "step_commit \<Rightarrow> epoch_aggregator \<Rightarrow> bool \<times> epoch_aggregator" where
  "try_accept commit ag =
     (if sc_epoch commit \<noteq> ag_epoch ag then (False, ag)
      else if sc_worker commit \<notin> ag_members ag then (False, ag)
      else if (sc_worker commit, sc_step commit) \<in> ag_seen ag then (False, ag)
      else (True, ag\<lparr>ag_seen := insert (sc_worker commit, sc_step commit) (ag_seen ag),
                     ag_accepted := ag_accepted ag @ [commit]\<rparr>))"

definition aggregator_len :: "epoch_aggregator \<Rightarrow> nat" where
  "aggregator_len ag = length (ag_accepted ag)"

definition into_commits :: "epoch_aggregator \<Rightarrow> step_commit list" where
  "into_commits ag = ag_accepted ag"

section \<open>The environment\<close>

definition DRAIN_RECV_TIMEOUT :: nat where "DRAIN_RECV_TIMEOUT = 60 * 1000"
definition ARCHIVE_DRAIN_DEADLINE :: nat where "ARCHIVE_DRAIN_DEADLINE = 120 * 1000"
definition EPOCH_ROOT_WAIT_DEADLINE :: nat where "EPOCH_ROOT_WAIT_DEADLINE = 600 * 1000"

datatype recv_result = Delivered worker_message | TransportEnded | Elapsed

record ('w, 'g) worker_env =
  we_is_live_settlement :: bool
  we_honors_job_spec :: bool
  we_snapshot :: "u64 \<Rightarrow> 'w \<Rightarrow> (chain_error + job_chain_snapshot) \<times> 'w"
  we_commit_epoch :: "u64 \<Rightarrow> address \<Rightarrow> u32 \<Rightarrow> b256 \<Rightarrow> 'w \<Rightarrow> (chain_error + unit) \<times> 'w"
  we_advance_blocks :: "u64 \<Rightarrow> 'w \<Rightarrow> 'w"
  we_finalize :: "u64 \<Rightarrow> 'w \<Rightarrow> (chain_error + unit) \<times> 'w"
  we_load_starting_weights :: "b256 \<Rightarrow> 'w \<Rightarrow> (string + b256) \<times> 'w"
  we_forward_backward :: "b256 \<Rightarrow> u32 \<Rightarrow> u32 \<Rightarrow> u32 \<Rightarrow> 'w \<Rightarrow> (string + 'g \<times> b256) \<times> 'w"
  we_step_commitment :: "'g \<Rightarrow> b256"
  we_set_epoch :: "u32 \<Rightarrow> 'w \<Rightarrow> 'w"
  we_broadcast :: "worker_message \<Rightarrow> 'w \<Rightarrow> (string + unit) \<times> 'w"
  we_recv_until :: "address \<Rightarrow> nat \<Rightarrow> 'w \<Rightarrow> recv_result \<times> 'w"
  we_now :: "'w \<Rightarrow> nat"
  we_sleep :: "nat \<Rightarrow> 'w \<Rightarrow> 'w"

record worker_config =
  wc_job_id :: u64
  wc_self_address :: address
  wc_shard_index :: u32
  wc_is_coordinator :: bool

datatype worker_outcome = WorkerFinalized | WorkerAborted | WorkerTerminated string

datatype worker_error =
    PlaceholderBackend u64
  | EmptySnapshot u64
  | ChainFailed chain_error
  | BackendFailed string
  | TransportFailed string
  | CommitsTimedOut u32 nat nat
  | TransportClosed
  | RootNeverAppeared u32

text \<open>The question-mark operator on an operation of the environment.\<close>

definition try_op ::
  "('e \<Rightarrow> worker_error) \<Rightarrow> ('e + 'a) \<times> 'w \<Rightarrow> ('a \<Rightarrow> 'w \<Rightarrow> ((worker_error + 'b) \<times> 'w) option)
    \<Rightarrow> ((worker_error + 'b) \<times> 'w) option" where
  "try_op wrap r k =
     (case r of (Inl e, w) \<Rightarrow> Some (Inl (wrap e), w) | (Inr a, w) \<Rightarrow> k a w)"

definition and_then ::
  "((worker_error + 'a) \<times> 'w) option \<Rightarrow> ('a \<Rightarrow> 'w \<Rightarrow> ((worker_error + 'b) \<times> 'w) option)
    \<Rightarrow> ((worker_error + 'b) \<times> 'w) option" where
  "and_then r k =
     (case r of None \<Rightarrow> None | Some (Inl e, w) \<Rightarrow> Some (Inl e, w) | Some (Inr a, w) \<Rightarrow> k a w)"

section \<open>One epoch\<close>

text \<open>The steps of an epoch: compute, chain the weights, keep and broadcast the commit.\<close>

fun run_steps ::
  "('w, 'g) worker_env \<Rightarrow> worker_config \<Rightarrow> u32 \<Rightarrow> u32 list \<Rightarrow> b256 \<Rightarrow> step_commit list \<Rightarrow> 'w
    \<Rightarrow> ((worker_error + b256 \<times> step_commit list) \<times> 'w) option" where
  "run_steps E C epoch [] prev_weights mine w = Some (Inr (prev_weights, mine), w)"
| "run_steps E C epoch (stp # steps) prev_weights mine w =
     try_op BackendFailed (we_forward_backward E prev_weights epoch stp (wc_shard_index C) w)
       (\<lambda>(gradients, post_weights) w1.
         let step_commit = \<lparr>sc_epoch = epoch, sc_step = stp, sc_worker = wc_self_address C,
               sc_commitment = we_step_commitment E gradients, sc_prev_weights = prev_weights\<rparr>
         in try_op TransportFailed (we_broadcast E (StepCommitted step_commit) w1)
              (\<lambda>_ w2. run_steps E C epoch steps post_weights (mine @ [step_commit]) w2))"

definition offer :: "worker_message \<Rightarrow> epoch_aggregator \<Rightarrow> epoch_aggregator" where
  "offer msg ag = (case msg of StepCommitted commit \<Rightarrow> snd (try_accept commit ag) | _ \<Rightarrow> ag)"

text \<open>The coordinator's drain loop.\<close>

partial_function (option) drain_commits ::
  "('w, 'g) worker_env \<Rightarrow> address \<Rightarrow> u32 \<Rightarrow> nat \<Rightarrow> epoch_aggregator \<Rightarrow> 'w
    \<Rightarrow> ((worker_error + epoch_aggregator) \<times> 'w) option" where
  "drain_commits E me epoch expected_total ag w =
     (if aggregator_len ag < expected_total then
        (let (r, w1) = we_recv_until E me (we_now E w + DRAIN_RECV_TIMEOUT) w
         in (case r of
               Elapsed \<Rightarrow> Some (Inl (CommitsTimedOut epoch (aggregator_len ag) expected_total), w1)
             | TransportEnded \<Rightarrow> Some (Inl TransportClosed, w1)
             | Delivered msg \<Rightarrow> drain_commits E me epoch expected_total (offer msg ag) w1))
      else Some (Inr ag, w))"

text \<open>The archive loop of the others: it ends with the world only.\<close>

partial_function (option) drain_archive ::
  "('w, 'g) worker_env \<Rightarrow> address \<Rightarrow> nat \<Rightarrow> nat \<Rightarrow> epoch_aggregator \<Rightarrow> 'w \<Rightarrow> 'w option" where
  "drain_archive E me expected deadline gate w =
     (if aggregator_len gate < expected then
        (let (r, w1) = we_recv_until E me (min deadline (we_now E w + DRAIN_RECV_TIMEOUT)) w
         in (case r of
               Delivered msg \<Rightarrow>
                 drain_archive E me expected deadline
                   (case msg of
                      StepCommitted commit \<Rightarrow>
                        if sc_worker commit \<noteq> me then snd (try_accept commit gate) else gate
                    | _ \<Rightarrow> gate) w1
             | _ \<Rightarrow> Some w1))
      else Some w)"

partial_function (option) await_root ::
  "('w, 'g) worker_env \<Rightarrow> u64 \<Rightarrow> u32 \<Rightarrow> nat \<Rightarrow> 'w \<Rightarrow> ((worker_error + unit) \<times> 'w) option" where
  "await_root E job_id epoch root_deadline w =
     (let (r, w1) = we_snapshot E job_id w
      in (case r of
            Inl e \<Rightarrow> Some (Inl (ChainFailed e), w1)
          | Inr snap \<Rightarrow>
              if js_epoch_roots snap epoch \<noteq> None then Some (Inr (), w1)
              else if root_deadline \<le> we_now E w1 then Some (Inl (RootNeverAppeared epoch), w1)
              else await_root E job_id epoch root_deadline (we_sleep E 50 w1)))"

partial_function (option) await_finalized ::
  "('w, 'g) worker_env \<Rightarrow> u64 \<Rightarrow> 'w \<Rightarrow> ((worker_error + worker_outcome) \<times> 'w) option" where
  "await_finalized E job_id w =
     (let (r, w1) = we_snapshot E job_id w
      in (case r of
            Inl e \<Rightarrow> Some (Inl (ChainFailed e), w1)
          | Inr snap \<Rightarrow>
              if js_state snap = Finalized then Some (Inr WorkerFinalized, w1)
              else if js_state snap = Aborted then Some (Inr WorkerAborted, w1)
              else await_finalized E job_id (we_sleep E 5 w1)))"

definition u32_range :: "u32 \<Rightarrow> u32 list" where
  "u32_range n = map of_nat [0..<unat n]"

definition close_epoch ::
  "(bytes \<Rightarrow> b256) \<Rightarrow> ('w, 'g) worker_env \<Rightarrow> worker_config \<Rightarrow> job_chain_snapshot \<Rightarrow> u32
    \<Rightarrow> step_commit list \<Rightarrow> 'w \<Rightarrow> ((worker_error + unit) \<times> 'w) option" where
  "close_epoch K E C snap epoch mine w =
     (let me = wc_self_address C; job_id = wc_job_id C;
          worker_count = (of_nat (length (js_workers snap)) :: u32);
          steps_per_epoch = unat (ts_steps_per_epoch (js_spec snap))
      in if wc_is_coordinator C then
           let expected_total = unat worker_count * steps_per_epoch;
               ag = fold (\<lambda>c ag. snd (try_accept c ag)) mine (aggregator_new epoch (js_workers snap))
           in and_then (drain_commits E me epoch expected_total ag w)
                (\<lambda>ag w1.
                  let (r, leaves) = compute_epoch_root K (into_commits ag)
                  in try_op ChainFailed (we_commit_epoch E job_id me epoch r w1)
                       (\<lambda>_ w2. Some (Inr (), w2)))
         else
           let expected = (unat worker_count - 1) * steps_per_epoch;
               deadline = we_now E w + ARCHIVE_DRAIN_DEADLINE
           in (case drain_archive E me expected deadline (aggregator_new epoch (js_workers snap)) w of
                 None \<Rightarrow> None
               | Some w1 \<Rightarrow>
                   await_root E job_id epoch (we_now E w1 + EPOCH_ROOT_WAIT_DEADLINE) w1))"

fun run_epochs ::
  "(bytes \<Rightarrow> b256) \<Rightarrow> ('w, 'g) worker_env \<Rightarrow> worker_config \<Rightarrow> job_chain_snapshot \<Rightarrow> u32 list \<Rightarrow> b256
    \<Rightarrow> 'w \<Rightarrow> ((worker_error + b256) \<times> 'w) option" where
  "run_epochs K E C snap [] prev_weights w = Some (Inr prev_weights, w)"
| "run_epochs K E C snap (epoch # epochs) prev_weights w =
     and_then
       (run_steps E C epoch (u32_range (ts_steps_per_epoch (js_spec snap))) prev_weights []
          (we_set_epoch E epoch w))
       (\<lambda>(prev_weights, mine) w1.
         and_then (close_epoch K E C snap epoch mine w1)
           (\<lambda>_ w2. run_epochs K E C snap epochs prev_weights w2))"

section \<open>The run\<close>

definition finish_run ::
  "('w, 'g) worker_env \<Rightarrow> worker_config \<Rightarrow> training_job_spec \<Rightarrow> 'w
    \<Rightarrow> ((worker_error + worker_outcome) \<times> 'w) option" where
  "finish_run E C spec w =
     (if wc_is_coordinator C then
        try_op ChainFailed
          (we_finalize E (wc_job_id C)
             (we_advance_blocks E (ucast (ts_challenge_window_blocks spec) + 1) w))
          (\<lambda>_ w1. Some (Inr WorkerFinalized, w1))
      else await_finalized E (wc_job_id C) w)"

definition worker_run ::
  "(bytes \<Rightarrow> b256) \<Rightarrow> ('w, 'g) worker_env \<Rightarrow> worker_config \<Rightarrow> 'w
    \<Rightarrow> ((worker_error + worker_outcome) \<times> 'w) option" where
  "worker_run K E C w =
     (let job_id = wc_job_id C
      in if we_is_live_settlement E \<and> \<not> we_honors_job_spec E
         then Some (Inl (PlaceholderBackend job_id), w)
         else try_op ChainFailed (we_snapshot E job_id w)
           (\<lambda>snap w1.
             if we_is_live_settlement E \<and> js_workers snap = []
             then Some (Inl (EmptySnapshot job_id), w1)
             else try_op BackendFailed
               (we_load_starting_weights E (ts_model_start_hash (js_spec snap)) w1)
               (\<lambda>prev_weights w2.
                 let spec = js_spec snap
                 in and_then
                      (run_epochs K E C snap (u32_range (ts_epoch_count spec)) prev_weights w2)
                      (\<lambda>_ w3. finish_run E C spec w3))))"

end
