(* ===== verification/Training_Chain_Theorems.thy ===== *)
theory Training_Chain_Theorems
  imports Training_Chain
begin

text \<open>
  What holds of the training job state machine of \<open>Training_Chain\<close>: the invariant of every
  reachable state (membership, epochs, challenges, slashes), what no operation undoes, when a
  job ends, and what a challenge does.
\<close>

section \<open>Operations on one job\<close>

lemma on_job_Inr:
  "on_job i f st = Inr st' \<longleftrightarrow>
     (\<exists>j j'. ms_jobs st i = Some j \<and> f j = Inr j' \<and> st' = st\<lparr>ms_jobs := (ms_jobs st)(i \<mapsto> j')\<rparr>)"
  by (auto simp: on_job_def map_sum_def split: option.splits sum.splits)

lemma or_zero_simps [simp]: "or_zero None = 0" "or_zero (Some v) = v"
  by (simp_all add: or_zero_def)

definition all_jobs :: "(mock_job \<Rightarrow> bool) \<Rightarrow> mock_state \<Rightarrow> bool" where
  "all_jobs P st \<longleftrightarrow> (\<forall>i j. ms_jobs st i = Some j \<longrightarrow> P j)"

lemma all_jobs_on_job:
  "on_job i f st = Inr st' \<Longrightarrow> all_jobs P st \<Longrightarrow> (\<And>j j'. P j \<Longrightarrow> f j = Inr j' \<Longrightarrow> P j') \<Longrightarrow> all_jobs P st'"
  unfolding on_job_Inr all_jobs_def by (metis (no_types, lifting) fun_upd_apply mock_state.select_convs(1) mock_state.surjective mock_state.update_convs(1) option.inject)

text \<open>A vote changes one challenge of one job, and the slash of its target if it decides.\<close>

lemma vote_challenge_Inr:
  assumes "vote_challenge i voter e s t uphold st = Inr st'"
  obtains job ch0 ch where "voter \<in> ms_committee st" and "ms_jobs st i = Some job"
    and "mj_challenges job (e, s, t) = Some ch0" and "cast_vote voter uphold ch0 = Inr ch"
    and "\<not> COMMITTEE_QUORUM \<le> mc_uphold_votes ch" "\<not> COMMITTEE_QUORUM \<le> mc_reject_votes ch"
      "st' = st\<lparr>ms_jobs := (ms_jobs st)(i \<mapsto>
         job\<lparr>mj_challenges := (mj_challenges job)((e, s, t) \<mapsto> ch)\<rparr>)\<rparr>"
  | job ch0 ch where "voter \<in> ms_committee st" and "ms_jobs st i = Some job"
    and "mj_challenges job (e, s, t) = Some ch0" and "cast_vote voter uphold ch0 = Inr ch"
    and "COMMITTEE_QUORUM \<le> mc_uphold_votes ch"
      "st' = st\<lparr>ms_jobs := (ms_jobs st)(i \<mapsto>
         job\<lparr>mj_challenges := (mj_challenges job)((e, s, t) \<mapsto> ch\<lparr>mc_state := ResolvedUphold, mc_bond := 0\<rparr>),
             mj_challenge_slashed := (mj_challenge_slashed job)(t \<mapsto>
               or_zero (mj_challenge_slashed job t) + upheld_slash job t)\<rparr>),
         ms_challenger_rewards := (ms_challenger_rewards st)(mc_challenger ch \<mapsto>
           or_zero (ms_challenger_rewards st (mc_challenger ch)) + (mc_bond ch + upheld_slash job t div 2))\<rparr>"
  | job ch0 ch where "voter \<in> ms_committee st" and "ms_jobs st i = Some job"
    and "mj_challenges job (e, s, t) = Some ch0" and "cast_vote voter uphold ch0 = Inr ch"
    and "\<not> COMMITTEE_QUORUM \<le> mc_uphold_votes ch" "COMMITTEE_QUORUM \<le> mc_reject_votes ch"
      "st' = st\<lparr>ms_jobs := (ms_jobs st)(i \<mapsto>
         job\<lparr>mj_challenges := (mj_challenges job)((e, s, t) \<mapsto> ch\<lparr>mc_state := ResolvedReject, mc_bond := 0\<rparr>)\<rparr>)\<rparr>"
  using assms
  by (auto simp: vote_challenge_def Let_def split: if_splits option.splits sum.splits)

section \<open>The invariant\<close>

definition members_ok :: "mock_job \<Rightarrow> bool" where
  "members_ok j \<longleftrightarrow>
     distinct (mj_workers j) \<and> set (mj_workers j) = mj_joined j
     \<and> length (mj_workers j) \<le> unat (ts_max_workers (mj_spec j))
     \<and> mj_liveness_slashed j \<subseteq> mj_joined j
     \<and> (mj_state j = Recruiting \<longrightarrow> mj_coordinator j = None)
     \<and> (mj_state j \<noteq> Recruiting \<longrightarrow>
          unat (ts_min_workers (mj_spec j)) \<le> length (mj_workers j)
          \<and> (\<exists>c \<in> mj_joined j. mj_coordinator j = Some c))"

definition epochs_ok :: "mock_job \<Rightarrow> bool" where
  "epochs_ok j \<longleftrightarrow>
     0 \<notin> ran (mj_epoch_roots j) \<and> mj_state j \<noteq> Aborted
     \<and> (ts_epoch_count (mj_spec j) \<noteq> 0 \<longrightarrow>
          dom (mj_epoch_roots j) = {e. e < mj_current_epoch j}
          \<and> mj_current_epoch j \<le> ts_epoch_count (mj_spec j)
          \<and> (mj_state j = Recruiting \<longrightarrow> mj_current_epoch j = 0)
          \<and> (mj_state j = Training \<longrightarrow> mj_current_epoch j < ts_epoch_count (mj_spec j)))"

definition votes_ok :: "mock_challenge \<Rightarrow> bool" where
  "votes_ok ch \<longleftrightarrow>
     finite (mc_voted ch) \<and> card (mc_voted ch) = unat (mc_uphold_votes ch) + unat (mc_reject_votes ch)
     \<and> (case mc_state ch of
          Voting \<Rightarrow> mc_uphold_votes ch < 2 \<and> mc_reject_votes ch < 2 \<and> mc_bond ch = CHALLENGE_BOND
        | ResolvedUphold \<Rightarrow> mc_uphold_votes ch = 2 \<and> mc_reject_votes ch < 2 \<and> mc_bond ch = 0
        | ResolvedReject \<Rightarrow> mc_uphold_votes ch < 2 \<and> mc_reject_votes ch = 2 \<and> mc_bond ch = 0)"

definition challenges_ok :: "mock_job \<Rightarrow> bool" where
  "challenges_ok j \<longleftrightarrow>
     (\<forall>e s t ch. mj_challenges j (e, s, t) = Some ch \<longrightarrow>
        t \<in> mj_joined j \<and> mc_challenger ch \<noteq> t \<and> s < ts_steps_per_epoch (mj_spec j)
        \<and> e \<in> dom (mj_epoch_roots j) \<and> votes_ok ch)"

definition slashes_ok :: "mock_job \<Rightarrow> bool" where
  "slashes_ok j \<longleftrightarrow>
     dom (mj_challenge_slashed j) \<subseteq> mj_joined j
     \<and> (\<forall>w. or_zero (mj_challenge_slashed j w) \<le> ts_per_worker_stake (mj_spec j))"

definition job_inv :: "mock_job \<Rightarrow> bool" where
  "job_inv j \<longleftrightarrow> members_ok j \<and> epochs_ok j \<and> challenges_ok j \<and> slashes_ok j"

lemma new_job_inv: "job_inv (new_job spec)"
  by (auto simp: job_inv_def members_ok_def epochs_ok_def challenges_ok_def slashes_ok_def
      new_job_def or_zero_def)

lemma below_u32_length: "length xs \<le> unat (m :: u32) \<Longrightarrow> unat (of_nat (length xs) :: u32) = length xs"
  using unsigned_less [of m, where 'a = nat] by (intro unat_of_nat_small) simp

lemma join_inv: "join_training_job i w stake st = Inr st' \<Longrightarrow> all_jobs job_inv st \<Longrightarrow> all_jobs job_inv st'"
  unfolding join_training_job_def
proof (erule all_jobs_on_job, assumption, goal_cases)
  case (1 j j')
  then have "job_inv j" and max: "of_nat (length (mj_workers j)) < ts_max_workers (mj_spec j)"
    and st: "mj_state j = Recruiting" "w \<notin> mj_joined j"
    and j': "j' = j\<lparr>mj_workers := mj_workers j @ [w], mj_joined := insert w (mj_joined j)\<rparr>"
    by (auto split: if_splits)
  moreover from this have "length (mj_workers j) < unat (ts_max_workers (mj_spec j))"
    using below_u32_length [of "mj_workers j" "ts_max_workers (mj_spec j)"]
    by (simp add: job_inv_def members_ok_def word_less_nat_alt)
  ultimately show ?case
    by (auto simp: job_inv_def members_ok_def epochs_ok_def challenges_ok_def slashes_ok_def)
qed

lemma close_inv: "close_recruitment i w st = Inr st' \<Longrightarrow> all_jobs job_inv st \<Longrightarrow> all_jobs job_inv st'"
  unfolding close_recruitment_def
proof (erule all_jobs_on_job, assumption, goal_cases)
  case (1 j j')
  then have inv: "job_inv j" and min: "\<not> of_nat (length (mj_workers j)) < ts_min_workers (mj_spec j)"
    and st: "mj_state j = Recruiting" "w \<in> mj_joined j"
    and j': "j' = j\<lparr>mj_state := Training, mj_coordinator := Some w,
                    mj_last_activity_block := ms_block_number st\<rparr>"
    by (auto split: if_splits)
  have "unat (ts_min_workers (mj_spec j)) \<le> length (mj_workers j)"
    using inv min below_u32_length [of "mj_workers j" "ts_max_workers (mj_spec j)"]
    by (simp add: job_inv_def members_ok_def word_less_nat_alt)
  with inv st show ?case
    unfolding j' job_inv_def members_ok_def epochs_ok_def challenges_ok_def slashes_ok_def
    by (auto simp: word_gt_0)
qed

lemma epochs_commit:
  assumes "epochs_ok j" and "mj_state j = Training" and "r \<noteq> 0"
    and "j' = j\<lparr>mj_epoch_roots := (mj_epoch_roots j)(mj_current_epoch j \<mapsto> r),
                mj_current_epoch := mj_current_epoch j + 1, mj_last_activity_block := b\<rparr>"
  shows "epochs_ok (if mj_current_epoch j' = ts_epoch_count (mj_spec j')
                    then j'\<lparr>mj_state := Awaiting, mj_all_epochs_committed_block := b\<rparr> else j')"
proof (cases "ts_epoch_count (mj_spec j) = 0")
  case True
  then show ?thesis using assms by (auto simp: epochs_ok_def ran_def)
next
  case False
  let ?E = "mj_current_epoch j"
  from False assms have below: "?E < ts_epoch_count (mj_spec j)" by (simp add: epochs_ok_def)
  then have u: "unat (?E + 1) = unat ?E + 1" by (rule unat_inc_below)
  have "?E + 1 \<le> ts_epoch_count (mj_spec j)"
    using below u by (simp add: word_le_nat_alt word_less_nat_alt)
  moreover have "{e. e < ?E + 1} = insert ?E {e. e < ?E}"
    using u by (auto simp: word_less_nat_alt less_Suc_eq word_unat_eq_iff)
  ultimately show ?thesis using assms False by (auto simp: epochs_ok_def ran_def)
qed

lemma commit_inv: "commit_epoch i w e r st = Inr st' \<Longrightarrow> all_jobs job_inv st \<Longrightarrow> all_jobs job_inv st'"
proof -
  assume commit: "commit_epoch i w e r st = Inr st'" and all: "all_jobs job_inv st"
  from commit have r: "r \<noteq> 0" by (auto simp: commit_epoch_def)
  show ?thesis
    using commit unfolding commit_epoch_def if_not_P [OF r]
  proof (rule all_jobs_on_job [OF _ all], goal_cases)
    case (1 j j')
    let ?j1 = "j\<lparr>mj_epoch_roots := (mj_epoch_roots j)(mj_current_epoch j \<mapsto> r),
                mj_current_epoch := mj_current_epoch j + 1,
                mj_last_activity_block := ms_block_number st\<rparr>"
    from 1 have st: "mj_state j = Training"
      and j': "j' = (if mj_current_epoch ?j1 = ts_epoch_count (mj_spec ?j1)
             then ?j1\<lparr>mj_state := Awaiting, mj_all_epochs_committed_block := ms_block_number st\<rparr>
             else ?j1)"
      by (auto simp: Let_def split: if_splits)
    have "epochs_ok j'" unfolding j'
      using epochs_commit [OF _ st r refl] 1(1) by (simp add: job_inv_def)
    moreover have "members_ok j'" "challenges_ok j'" "slashes_ok j'"
      using 1(1) st by (auto simp: j' job_inv_def members_ok_def challenges_ok_def slashes_ok_def)
    ultimately show ?case by (simp add: job_inv_def)
  qed
qed

lemmas job_inv_defs = job_inv_def members_ok_def epochs_ok_def challenges_ok_def slashes_ok_def

lemma job_inv_cong:
  "job_inv j \<Longrightarrow> mj_spec j' = mj_spec j \<Longrightarrow> mj_workers j' = mj_workers j \<Longrightarrow> mj_joined j' = mj_joined j \<Longrightarrow>
   mj_state j \<noteq> Recruiting \<Longrightarrow> mj_state j' \<noteq> Recruiting \<Longrightarrow> mj_state j' \<noteq> Aborted \<Longrightarrow>
   (mj_state j' = Training \<Longrightarrow> mj_state j = Training) \<Longrightarrow>
   \<exists>c \<in> mj_joined j. mj_coordinator j' = Some c \<Longrightarrow> mj_liveness_slashed j' \<subseteq> mj_joined j \<Longrightarrow>
   mj_current_epoch j' = mj_current_epoch j \<Longrightarrow> mj_epoch_roots j' = mj_epoch_roots j \<Longrightarrow>
   mj_challenges j' = mj_challenges j \<Longrightarrow> mj_challenge_slashed j' = mj_challenge_slashed j \<Longrightarrow> job_inv j'"
  unfolding job_inv_defs by simp

lemma job_inv_started:
  "job_inv j \<Longrightarrow> mj_state j \<noteq> Recruiting \<Longrightarrow>
   (\<exists>c \<in> mj_joined j. mj_coordinator j = Some c) \<and> mj_liveness_slashed j \<subseteq> mj_joined j"
  unfolding job_inv_defs by simp

lemma finalize_inv: "finalize i st = Inr st' \<Longrightarrow> all_jobs job_inv st \<Longrightarrow> all_jobs job_inv st'"
  unfolding finalize_def
proof (erule all_jobs_on_job, assumption, goal_cases)
  case (1 j j')
  then have "mj_state j = Awaiting" "j' = j\<lparr>mj_state := Finalized\<rparr>"
    by (auto simp: Let_def split: if_splits)
  with job_inv_started [OF 1(2)] show ?case by (intro job_inv_cong [OF 1(2)]) simp_all
qed

lemma expire_inv:
  "expire_stalled_training i w st = Inr st' \<Longrightarrow> all_jobs job_inv st \<Longrightarrow> all_jobs job_inv st'"
  unfolding expire_stalled_training_def
proof (erule all_jobs_on_job, assumption, goal_cases)
  case (1 j j')
  then have "mj_state j = Training"
    "j' = j\<lparr>mj_state := Awaiting, mj_all_epochs_committed_block := ms_block_number st\<rparr>"
    by (auto split: if_splits)
  with job_inv_started [OF 1(2)] show ?case by (intro job_inv_cong [OF 1(2)]) simp_all
qed

lemma reassign_inv:
  "reassign_coordinator i w c st = Inr st' \<Longrightarrow> all_jobs job_inv st \<Longrightarrow> all_jobs job_inv st'"
  unfolding reassign_coordinator_def
proof (erule all_jobs_on_job, assumption, goal_cases)
  case (1 j j')
  define L where "L = (if w = MOCK_GOVERNANCE
       then (case mj_coordinator j of None \<Rightarrow> mj_liveness_slashed j
                                   | Some old \<Rightarrow> insert old (mj_liveness_slashed j))
       else mj_liveness_slashed j)"
  have L: "L \<subseteq> mj_liveness_slashed j \<union> set_option (mj_coordinator j)"
    by (auto simp: L_def split: if_splits option.splits)
  have "mj_state j = Training" "c \<in> mj_joined j"
    and j': "j' = j\<lparr>mj_liveness_slashed := L, mj_coordinator := Some c,
                   mj_last_activity_block := ms_block_number st\<rparr>"
    using 1(3) by (simp_all only: Let_def L_def [symmetric] sum.inject sum.distinct split: if_splits)
  have "L \<subseteq> mj_joined j"
    using L job_inv_started [OF 1(2)] \<open>mj_state j = Training\<close> by force
  then show ?case
    using \<open>mj_state j = Training\<close> \<open>c \<in> mj_joined j\<close>
    unfolding j' by (intro job_inv_cong [OF 1(2)]) simp_all
qed

lemma challenge_inv:
  "challenge_step K i w e s t leaf path bond st = Inr st' \<Longrightarrow> all_jobs job_inv st \<Longrightarrow> all_jobs job_inv st'"
  unfolding challenge_step_def
proof (erule all_jobs_on_job, assumption, goal_cases)
  case (1 j j')
  then have inv: "job_inv j" and "w \<noteq> t" "t \<in> mj_joined j" "bond = CHALLENGE_BOND"
    "s < ts_steps_per_epoch (mj_spec j)" "e \<in> dom (mj_epoch_roots j)"
    and j': "j' = j\<lparr>mj_challenges := (mj_challenges j)((e, s, t) \<mapsto>
                    \<lparr>mc_challenger = w, mc_bond = bond, mc_state = Voting,
                     mc_uphold_votes = 0, mc_reject_votes = 0, mc_voted = {}\<rparr>)\<rparr>"
    by (auto split: if_splits option.splits)
  then show ?case
    by (auto simp: job_inv_def members_ok_def epochs_ok_def challenges_ok_def slashes_ok_def votes_ok_def)
qed

lemma below_two: "x < 2 \<longleftrightarrow> x = 0 \<or> x = 1" for x :: u32
  by (simp add: word_less_nat_alt word_unat_eq_iff) linarith

lemma cast_vote_ok:
  assumes ok: "votes_ok ch0" and cast: "cast_vote voter uphold ch0 = Inr ch"
  shows "finite (mc_voted ch)"
    and "card (mc_voted ch) = unat (mc_uphold_votes ch) + unat (mc_reject_votes ch)"
    and "mc_bond ch = CHALLENGE_BOND" and "mc_challenger ch = mc_challenger ch0"
    and "mc_uphold_votes ch = 2 \<and> mc_reject_votes ch < 2 \<or> mc_uphold_votes ch < 2 \<and> mc_reject_votes ch = 2
         \<or> mc_uphold_votes ch < 2 \<and> mc_reject_votes ch < 2"
    and "mc_state ch = Voting"
proof -
  from cast have st: "mc_state ch0 = Voting" "voter \<notin> mc_voted ch0"
    and ch: "ch = (if uphold then ch0\<lparr>mc_voted := insert voter (mc_voted ch0), mc_uphold_votes := mc_uphold_votes ch0 + 1\<rparr>
                   else ch0\<lparr>mc_voted := insert voter (mc_voted ch0), mc_reject_votes := mc_reject_votes ch0 + 1\<rparr>)"
    by (auto simp: cast_vote_def Let_def split: if_splits)
  from ok st have v: "mc_uphold_votes ch0 = 0 \<or> mc_uphold_votes ch0 = 1"
      "mc_reject_votes ch0 = 0 \<or> mc_reject_votes ch0 = 1"
    and set: "finite (mc_voted ch0)"
      "card (mc_voted ch0) = unat (mc_uphold_votes ch0) + unat (mc_reject_votes ch0)"
    and bond: "mc_bond ch0 = CHALLENGE_BOND"
    by (simp_all add: votes_ok_def below_two)
  show "finite (mc_voted ch)" "mc_bond ch = CHALLENGE_BOND" "mc_challenger ch = mc_challenger ch0"
    "mc_state ch = Voting"
    using set bond st by (simp_all add: ch)
  show "card (mc_voted ch) = unat (mc_uphold_votes ch) + unat (mc_reject_votes ch)"
    using v set st by (auto simp: ch)
  show "mc_uphold_votes ch = 2 \<and> mc_reject_votes ch < 2 \<or> mc_uphold_votes ch < 2 \<and> mc_reject_votes ch = 2
         \<or> mc_uphold_votes ch < 2 \<and> mc_reject_votes ch < 2"
    using v by (auto simp: ch)
qed

lemma upheld_slash_bound:
  assumes "or_zero (mj_challenge_slashed j t) \<le> ts_per_worker_stake (mj_spec j)"
  shows "unat (or_zero (mj_challenge_slashed j t)) + unat (upheld_slash j t)
         \<le> unat (ts_per_worker_stake (mj_spec j))"
    and "or_zero (mj_challenge_slashed j t) + upheld_slash j t \<le> ts_per_worker_stake (mj_spec j)"
proof -
  let ?p = "or_zero (mj_challenge_slashed j t)" and ?s = "ts_per_worker_stake (mj_spec j)"
  have "upheld_slash j t \<le> sat_sub (sat_sub ?s ?p)
         ((if t \<in> mj_liveness_slashed j then 1 else 0) * (?s * 10 div BPS))"
    by (simp add: upheld_slash_def Let_def)
  then have "unat (upheld_slash j t) \<le> unat ?s - unat ?p"
    by (simp only: word_le_nat_alt unat_sat_sub)
  with assms show bound: "unat ?p + unat (upheld_slash j t) \<le> unat ?s"
    by (simp add: word_le_nat_alt)
  have "unat (?p + upheld_slash j t) \<le> unat ?p + unat (upheld_slash j t)"
    by (simp add: unat_word_ariths)
  with bound show "?p + upheld_slash j t \<le> ?s" by (simp add: word_le_nat_alt)
qed

lemma challenge_updated:
  assumes "job_inv j" and "mj_challenges j (e, s, t) = Some ch0" and "votes_ok ch"
    and "mc_challenger ch = mc_challenger ch0"
  shows "job_inv (j\<lparr>mj_challenges := (mj_challenges j)((e, s, t) \<mapsto> ch)\<rparr>)"
proof -
  let ?j = "j\<lparr>mj_challenges := (mj_challenges j)((e, s, t) \<mapsto> ch)\<rparr>"
  have "challenges_ok ?j" using assms by (auto simp: job_inv_def challenges_ok_def)
  moreover have "members_ok ?j" "epochs_ok ?j" "slashes_ok ?j"
    using assms(1) by (simp_all add: job_inv_defs)
  ultimately show ?thesis by (simp add: job_inv_def)
qed

lemma slash_added:
  assumes "job_inv j" and "t \<in> mj_joined j"
  shows "job_inv (j\<lparr>mj_challenge_slashed := (mj_challenge_slashed j)
           (t \<mapsto> or_zero (mj_challenge_slashed j t) + upheld_slash j t)\<rparr>)" (is "job_inv ?j")
proof -
  have "slashes_ok ?j"
    using assms upheld_slash_bound(2) [of j t]
    by (auto simp: job_inv_def slashes_ok_def or_zero_def split: if_splits)
  moreover have "members_ok ?j" "epochs_ok ?j" "challenges_ok ?j"
    using assms(1) by (simp_all add: job_inv_defs)
  ultimately show ?thesis by (simp add: job_inv_def)
qed

lemma all_jobs_upd:
  "all_jobs P st \<Longrightarrow> P j \<Longrightarrow> ms_jobs st' = (ms_jobs st)(i \<mapsto> j) \<Longrightarrow> all_jobs P st'"
  by (simp add: all_jobs_def)

lemma vote_inv:
  assumes "vote_challenge i voter e s t uphold st = Inr st'" and all: "all_jobs job_inv st"
  shows "all_jobs job_inv st'"
proof -
  have votes: "job_inv job" "votes_ok ch0" "t \<in> mj_joined job"
    "mc_challenger ch = mc_challenger ch0"
    "mc_uphold_votes ch < 2 \<Longrightarrow> mc_reject_votes ch < 2 \<Longrightarrow> votes_ok ch"
    "2 \<le> mc_uphold_votes ch \<Longrightarrow> votes_ok (ch\<lparr>mc_state := ResolvedUphold, mc_bond := 0\<rparr>)"
    "\<not> 2 \<le> mc_uphold_votes ch \<Longrightarrow> 2 \<le> mc_reject_votes ch
     \<Longrightarrow> votes_ok (ch\<lparr>mc_state := ResolvedReject, mc_bond := 0\<rparr>)"
    if "ms_jobs st i = Some job" and "mj_challenges job (e, s, t) = Some ch0"
      and "cast_vote voter uphold ch0 = Inr ch" for job ch0 ch
  proof -
    show inv: "job_inv job" using all that(1) by (auto simp: all_jobs_def)
    then show ok: "votes_ok ch0" and "t \<in> mj_joined job"
      using that(2) by (auto simp: job_inv_def challenges_ok_def)
    note cast_vote_ok [OF ok that(3)]
    then show "mc_challenger ch = mc_challenger ch0"
      "mc_uphold_votes ch < 2 \<Longrightarrow> mc_reject_votes ch < 2 \<Longrightarrow> votes_ok ch"
      "2 \<le> mc_uphold_votes ch \<Longrightarrow> votes_ok (ch\<lparr>mc_state := ResolvedUphold, mc_bond := 0\<rparr>)"
      "\<not> 2 \<le> mc_uphold_votes ch \<Longrightarrow> 2 \<le> mc_reject_votes ch
       \<Longrightarrow> votes_ok (ch\<lparr>mc_state := ResolvedReject, mc_bond := 0\<rparr>)"
      by (auto simp: votes_ok_def not_le [symmetric])
  qed
  show ?thesis
    using assms(1)
  proof (cases rule: vote_challenge_Inr)
    case (1 job ch0 ch)
    note v = votes [OF 1(2,3,4)]
    have "votes_ok ch" using 1(5,6) v(5) by (simp add: COMMITTEE_QUORUM_def not_le)
    from challenge_updated [OF v(1) 1(3) this v(4)] show ?thesis
      by (rule all_jobs_upd [OF all]) (simp add: 1(7))
  next
    case (2 job ch0 ch)
    note v = votes [OF 2(2,3,4)]
    let ?ch = "ch\<lparr>mc_state := ResolvedUphold, mc_bond := 0\<rparr>"
    let ?j = "job\<lparr>mj_challenges := (mj_challenges job)((e, s, t) \<mapsto> ?ch)\<rparr>"
    have "job_inv ?j"
      using v 2(5) by (intro challenge_updated [OF v(1) 2(3)]) (simp_all add: COMMITTEE_QUORUM_def)
    from slash_added [OF this, of t] v(3) show ?thesis
      by (intro all_jobs_upd [OF all, where i = i]) (simp_all add: 2(6) upheld_slash_def)
  next
    case (3 job ch0 ch)
    note v = votes [OF 3(2,3,4)]
    have "votes_ok (ch\<lparr>mc_state := ResolvedReject, mc_bond := 0\<rparr>)"
      using 3(5,6) v(7) by (simp add: COMMITTEE_QUORUM_def)
    from challenge_updated [OF v(1) 3(3) this] v(4) show ?thesis
      by (intro all_jobs_upd [OF all, where i = i]) (simp_all add: 3(7))
  qed
qed

lemma chain_step_inv: "chain_step K st st' \<Longrightarrow> all_jobs job_inv st \<Longrightarrow> all_jobs job_inv st'"
proof (induction rule: chain_step.induct)
  case (created st spec)
  then show ?case
    by (intro all_jobs_upd [OF created new_job_inv, where i = "ms_next_job_id st"])
      (simp add: create_job_def)
next
  case (mined st n)
  then show ?case by (simp add: all_jobs_def advance_blocks_def)
next
  case (membership st w active)
  then show ?case by (simp add: all_jobs_def set_committee_member_def)
qed (rule join_inv close_inv commit_inv finalize_inv expire_inv reassign_inv challenge_inv vote_inv,
    assumption, assumption)+

lemma chain_reachable_inv: "chain_reachable K st \<Longrightarrow> all_jobs job_inv st"
proof (induction rule: chain_reachable.induct)
  case start
  then show ?case by (simp add: all_jobs_def empty_mock_state_def)
next
  case (more st st')
  then show ?case using chain_step_inv by blast
qed

section \<open>An example run\<close>

text \<open>A job of two workers whose only epoch is committed, with a challenge that has one vote.\<close>

definition one_hash :: "bytes \<Rightarrow> b256" where "one_hash bs = 1"

definition example_spec :: training_job_spec where
  "example_spec = \<lparr>ts_model_start_hash = 1, ts_dataset_hash = 2, ts_epoch_count = 1,
     ts_steps_per_epoch = 12, ts_min_workers = 1, ts_max_workers = 2,
     ts_challenge_window_blocks = 10, ts_per_epoch_budget = 0, ts_per_worker_stake = 10000\<rparr>"

definition committed_job :: mock_job where
  "committed_job = (new_job example_spec)\<lparr>mj_state := Awaiting, mj_current_epoch := 1,
     mj_coordinator := Some 7, mj_workers := [7, 8], mj_joined := {8, 7}, mj_epoch_roots := [0 \<mapsto> 1]\<rparr>"

definition voting_challenge :: mock_challenge where
  "voting_challenge = \<lparr>mc_challenger = 7, mc_bond = CHALLENGE_BOND, mc_state = Voting,
     mc_uphold_votes = 1, mc_reject_votes = 0, mc_voted = {1}\<rparr>"

definition voting_job :: mock_job where
  "voting_job = committed_job\<lparr>mj_challenges := [(0, 5, 8) \<mapsto> voting_challenge]\<rparr>"

definition voting_state :: mock_state where
  "voting_state = \<lparr>ms_jobs = [0 \<mapsto> voting_job], ms_next_job_id = 1, ms_block_number = 0,
     ms_committee = {2, 1}, ms_challenger_rewards = Map.empty\<rparr>"

lemma quorum_not_one: "\<not> (2 :: u32) \<le> 1"
  by (simp add: word_le_nat_alt)

lemma voting_state_reachable: "chain_reachable one_hash voting_state"
proof -
  note step = chain_reachable.more
  let ?st = "\<lambda>j. \<lparr>ms_jobs = [0 \<mapsto> j], ms_next_job_id = 1, ms_block_number = 0,
     ms_committee = {2, 1 :: address}, ms_challenger_rewards = Map.empty\<rparr>"
  let ?j0 = "new_job example_spec"
  let ?j1 = "?j0\<lparr>mj_workers := [7], mj_joined := {7}\<rparr>"
  let ?j2 = "?j0\<lparr>mj_workers := [7, 8], mj_joined := {8, 7}\<rparr>"
  let ?j3 = "?j2\<lparr>mj_state := Training, mj_coordinator := Some 7\<rparr>"
  let ?j5 = "committed_job\<lparr>mj_challenges := [(0, 5, 8) \<mapsto> voting_challenge\<lparr>mc_uphold_votes := 0, mc_voted := {}\<rparr>]\<rparr>"
  have "chain_reachable one_hash (set_committee_member 2 True (set_committee_member 1 True
          (snd (create_job example_spec empty_mock_state))))"
    by (intro step [OF step [OF step [OF chain_reachable.start chain_step.created]
          chain_step.membership] chain_step.membership])
  moreover have "set_committee_member 2 True (set_committee_member 1 True
          (snd (create_job example_spec empty_mock_state))) = ?st ?j0"
    by (simp add: set_committee_member_def create_job_def empty_mock_state_def)
  ultimately have r0: "chain_reachable one_hash (?st ?j0)" by simp
  have "join_training_job 0 7 10000 (?st ?j0) = Inr (?st ?j1)"
    by (simp add: join_training_job_def on_job_def new_job_def example_spec_def quorum_not_one)
  note r1 = step [OF r0 chain_step.joined [OF this]]
  have "join_training_job 0 8 10000 (?st ?j1) = Inr (?st ?j2)"
    by (simp add: join_training_job_def on_job_def new_job_def example_spec_def quorum_not_one)
  note r2 = step [OF r1 chain_step.joined [OF this]]
  have "close_recruitment 0 7 (?st ?j2) = Inr (?st ?j3)"
    by (simp add: close_recruitment_def on_job_def new_job_def example_spec_def quorum_not_one)
  note r3 = step [OF r2 chain_step.closed [OF this]]
  have "commit_epoch 0 7 0 1 (?st ?j3) = Inr (?st committed_job)"
    by (simp add: commit_epoch_def on_job_def new_job_def example_spec_def committed_job_def Let_def)
  note r4 = step [OF r3 chain_step.committed [OF this]]
  have "challenge_step one_hash 0 7 0 5 8 0 [] CHALLENGE_BOND (?st committed_job) = Inr (?st ?j5)"
    by (simp add: challenge_step_def on_job_def new_job_def example_spec_def committed_job_def
        verify_merkle_proof_def one_hash_def voting_challenge_def)
  note r5 = step [OF r4 chain_step.challenged [OF this]]
  have "vote_challenge 0 1 0 5 8 True (?st ?j5) = Inr (?st voting_job)"
    by (simp add: vote_challenge_def cast_vote_def voting_job_def voting_challenge_def Let_def
        COMMITTEE_QUORUM_def quorum_not_one)
  from step [OF r5 chain_step.voted [OF this]] show ?thesis by (simp add: voting_state_def)
qed

section \<open>Properties\<close>

text \<open>C17: In every reachable state every training job satisfies its invariant: no worker twice
  and none beyond the limit, a coordinator who joined once recruitment closed, one nonzero root
  for exactly the epochs before the current one, challenges only against joined workers on
  committed epochs with as many votes as voters and a bond only while voting, and no worker
  slashed by challenges for more than the stake.\<close>

theorem training_job_invariant:
  assumes "chain_reachable K st" and "ms_jobs st i = Some j"
  shows "members_ok j \<and> epochs_ok j \<and> challenges_ok j \<and> slashes_ok j"
  using chain_reachable_inv [OF assms(1)] assms(2) by (auto simp: all_jobs_def job_inv_def)

lemma training_job_invariant_witness:
  "members_ok voting_job \<and> epochs_ok voting_job \<and> challenges_ok voting_job \<and> slashes_ok voting_job"
  by (rule training_job_invariant [OF voting_state_reachable, of 0])
    (simp add: voting_state_def)

text \<open>What later states keep of a job.\<close>

definition phase :: "job_chain_state \<Rightarrow> nat" where
  "phase s = (case s of Recruiting \<Rightarrow> 0 | Training \<Rightarrow> 1 | Awaiting \<Rightarrow> 2 | Finalized \<Rightarrow> 3 | Aborted \<Rightarrow> 4)"

definition job_after :: "mock_job \<Rightarrow> mock_job \<Rightarrow> bool" where
  "job_after j j' \<longleftrightarrow>
     mj_spec j' = mj_spec j \<and> phase (mj_state j) \<le> phase (mj_state j')
     \<and> phase (mj_state j') \<le> phase (mj_state j) + 1
     \<and> (\<exists>new. mj_workers j' = mj_workers j @ new \<and> (new = [] \<or> mj_state j = Recruiting))
     \<and> mj_joined j \<subseteq> mj_joined j' \<and> mj_liveness_slashed j \<subseteq> mj_liveness_slashed j'
     \<and> mj_epoch_roots j \<subseteq>\<^sub>m mj_epoch_roots j'
     \<and> (mj_epoch_roots j' = mj_epoch_roots j \<or> mj_state j = Training)"

lemma job_after_refl: "job_after j j"
  by (simp add: job_after_def)

definition all_after :: "mock_state \<Rightarrow> mock_state \<Rightarrow> bool" where
  "all_after st st' \<longleftrightarrow>
     (\<forall>i j. ms_jobs st i = Some j \<longrightarrow> (\<exists>j'. ms_jobs st' i = Some j' \<and> job_after j j'))"

lemma all_after_on_job:
  "on_job i f st = Inr st' \<Longrightarrow> (\<And>j j'. f j = Inr j' \<Longrightarrow> job_after j j') \<Longrightarrow> all_after st st'"
  by (auto simp: on_job_Inr all_after_def job_after_refl)

lemma all_after_upd:
  "ms_jobs st i = Some j \<Longrightarrow> job_after j j' \<Longrightarrow> ms_jobs st' = (ms_jobs st)(i \<mapsto> j') \<Longrightarrow> all_after st st'"
  by (simp add: all_after_def job_after_refl)

lemma vote_after:
  assumes "vote_challenge i w e s t uphold st = Inr st'"
  shows "all_after st st'"
  using assms
proof (cases rule: vote_challenge_Inr)
  case (1 job ch0 ch)
  then show ?thesis by (intro all_after_upd [OF 1(2)]) (simp_all add: job_after_def)
next
  case (2 job ch0 ch)
  then show ?thesis by (intro all_after_upd [OF 2(2)]) (simp_all add: job_after_def)
next
  case (3 job ch0 ch)
  then show ?thesis by (intro all_after_upd [OF 3(2)]) (simp_all add: job_after_def)
qed

lemma commit_after: "commit_epoch i w e r st = Inr st' \<Longrightarrow> all_after st st'"
  unfolding commit_epoch_def
  by (cases "r = 0")
    (auto elim!: all_after_on_job simp: job_after_def phase_def map_le_def Let_def split: if_splits)

lemma simple_after:
  "join_training_job i w stake st = Inr st' \<Longrightarrow> all_after st st'"
  "close_recruitment i w st = Inr st' \<Longrightarrow> all_after st st'"
  "finalize i st = Inr st' \<Longrightarrow> all_after st st'"
  "expire_stalled_training i w st = Inr st' \<Longrightarrow> all_after st st'"
  "reassign_coordinator i w c st = Inr st' \<Longrightarrow> all_after st st'"
  "challenge_step K i w e s t leaf path bond st = Inr st' \<Longrightarrow> all_after st st'"
  unfolding join_training_job_def close_recruitment_def finalize_def expire_stalled_training_def
    reassign_coordinator_def challenge_step_def
  by (erule all_after_on_job,
      auto simp: Let_def job_after_def phase_def split: if_splits option.splits)+

lemma step_after:
  "chain_step K st st' \<Longrightarrow> all_after st st' \<or> (\<exists>spec. st' = snd (create_job spec st))"
proof (induction rule: chain_step.induct)
  case (created st spec)
  then show ?case by blast
next
  case (mined st n)
  then show ?case by (simp add: all_after_def advance_blocks_def job_after_refl)
next
  case (membership st w active)
  then show ?case by (simp add: all_after_def set_committee_member_def job_after_refl)
qed (rule disjI1, rule simple_after commit_after vote_after, assumption)+

text \<open>No operation other than creating a job under the same id changes a job's specification,
  removes a member, a liveness slash or a committed root or changes one, or takes the job back:
  members join only while recruiting, roots are committed only while training, the phases
  follow each other one at a time and a finalized job stays finalized.\<close>

theorem training_history_is_permanent:
  assumes "chain_step K st st'" and "ms_jobs st i = Some j" and "i \<noteq> ms_next_job_id st"
  shows "\<exists>j'. ms_jobs st' i = Some j' \<and> job_after j j'"
  using step_after [OF assms(1)]
proof
  assume "all_after st st'"
  then show ?thesis using assms(2) by (simp add: all_after_def)
next
  assume "\<exists>spec. st' = snd (create_job spec st)"
  then show ?thesis using assms(2,3) by (auto simp: create_job_def job_after_refl)
qed

lemma training_history_is_permanent_witness:
  "\<exists>j'. ms_jobs (advance_blocks 7 (snd (create_job example_spec empty_mock_state))) 0 = Some j'
        \<and> job_after (new_job example_spec) j'"
  by (rule training_history_is_permanent [OF chain_step.mined])
    (simp_all add: create_job_def empty_mock_state_def)

lemma verifiers_agree: "verify_merkle_proof K path r leaf = verify_proof K path r leaf"
proof -
  have "(\<lambda>computed sibling.
         let (left, right) = (if computed \<le> sibling then (computed, sibling) else (sibling, computed))
         in K ([1] @ to_be_bytes left @ to_be_bytes right)) = hash_pair K"
    by (simp add: fun_eq_iff hash_pair_def MERKLE_INTERNAL_PREFIX_def)
  then show ?thesis
    by (simp add: verify_merkle_proof_def verify_proof_def promote_leaf_def MERKLE_LEAF_PREFIX_def)
qed

text \<open>The chain's verifier decides as the worker's, and a proof the worker builds for any
  leaf of a committed epoch opens a challenge, provided the caller and target, the bond and the
  ranges are right and no vote runs: the code consults neither the phase of the job nor the
  worker and step of the leaf, so any leaf of the epoch serves against any member.\<close>

theorem built_proof_opens_challenge:
  assumes "ms_jobs st i = Some j" and "mj_epoch_roots j e = Some (fst (compute_epoch_root K cs))"
    and "n < length cs" and "t \<in> mj_joined j" and "w \<noteq> t"
    and "s < ts_steps_per_epoch (mj_spec j)" and "e < ts_epoch_count (mj_spec j)"
    and "pred_option (\<lambda>ch. mc_state ch \<noteq> Voting) (mj_challenges j (e, s, t))"
  shows "verify_merkle_proof K = verify_proof K \<and>
    (let leaves = snd (compute_epoch_root K cs)
     in \<exists>st' j'. challenge_step K i w e s t (leaves ! n) (compute_proof K leaves n) CHALLENGE_BOND st
             = Inr st' \<and> ms_jobs st' i = Some j' \<and> mj_state j' = mj_state j
          \<and> map_option mc_state (mj_challenges j' (e, s, t)) = Some Voting)"
proof -
  let ?leaves = "snd (compute_epoch_root K cs)"
  have "verify_proof K (compute_proof K ?leaves n) (fst (compute_epoch_root K cs)) (?leaves ! n)"
    by (rule compute_proof_verifies [OF surjective_pairing]) (use assms(3) in simp)
  then have ok: "verify_merkle_proof K (compute_proof K ?leaves n) (fst (compute_epoch_root K cs))
      (?leaves ! n)"
    by (simp add: verifiers_agree)
  have idle: "\<not> (case mj_challenges j (e, s, t) of Some ch \<Rightarrow> mc_state ch = Voting | None \<Rightarrow> False)"
    using assms(8) by (cases "mj_challenges j (e, s, t)") simp_all
  have "verify_merkle_proof K = verify_proof K" by (simp add: fun_eq_iff verifiers_agree)
  then show ?thesis
    using assms ok idle
    by (simp add: Let_def challenge_step_def on_job_def not_le del: snd_epoch_root)
qed

definition finalized_job :: mock_job where
  "finalized_job = (new_job example_spec)\<lparr>mj_state := Finalized, mj_current_epoch := 1,
     mj_coordinator := Some 7, mj_workers := [7, 8], mj_joined := {7, 8},
     mj_epoch_roots := [0 \<mapsto> 1]\<rparr>"

definition finalized_state :: mock_state where
  "finalized_state = empty_mock_state\<lparr>ms_jobs := [0 \<mapsto> finalized_job], ms_next_job_id := 1\<rparr>"

lemma built_proof_opens_challenge_witness:
  "\<exists>st' j'. challenge_step one_hash 0 7 0 5 8
       (snd (compute_epoch_root one_hash [\<lparr>sc_epoch = 0, sc_step = 0, sc_worker = 7, sc_commitment = 0,
          sc_prev_weights = 0\<rparr>]) ! 0)
       (compute_proof one_hash (snd (compute_epoch_root one_hash [\<lparr>sc_epoch = 0, sc_step = 0,
          sc_worker = 7, sc_commitment = 0, sc_prev_weights = 0\<rparr>])) 0)
       CHALLENGE_BOND finalized_state = Inr st'
     \<and> ms_jobs st' 0 = Some j' \<and> mj_state j' = Finalized
     \<and> map_option mc_state (mj_challenges j' (0, 5, 8)) = Some Voting"
  using built_proof_opens_challenge [of finalized_state 0 finalized_job 0 one_hash
      "[\<lparr>sc_epoch = 0, sc_step = 0, sc_worker = 7, sc_commitment = 0, sc_prev_weights = 0\<rparr>]" 0 8 7 5]
  by (simp add: Let_def finalized_state_def finalized_job_def new_job_def example_spec_def
      compute_epoch_root_def sort_commits_def one_hash_def promote_leaf_def del: snd_epoch_root)

text \<open>C16: A proof that the chain accepts for the leaf of a step commit, against the root built
  from a list of commits, shows that the commit is one of them: no inner node, padding word,
  truncated or extended proof passes, unless the hash collides (or yields zero) on the
  preimages at hand.  The root does not depend on the order of the commits, if no two of them are of the same
  worker and step.\<close>

theorem accepted_proof_is_of_a_commit:
  assumes "verify_merkle_proof K path (fst (compute_epoch_root K cs)) (compute_leaf K c)"
    and "collision_free K (commit_encoding ` insert c (set cs) \<union>
           epoch_hashed K (snd (compute_epoch_root K cs)) (compute_leaf K c) path)"
    and "inj_on (\<lambda>c. (sc_step c, sc_worker c)) (set cs)"
  shows "c \<in> set cs \<and> (mset cs' = mset cs \<longrightarrow> compute_epoch_root K cs' = compute_epoch_root K cs)"
  using verified_commit_is_member [OF assms(1) [unfolded verifiers_agree] assms(2)]
    epoch_root_order [OF _ assms(3), of cs'] by auto

definition length_hash :: "bytes \<Rightarrow> b256" where "length_hash bs = of_nat (length bs)"

definition example_commit :: step_commit where
  "example_commit = \<lparr>sc_epoch = 0, sc_step = 0, sc_worker = 7, sc_commitment = 0, sc_prev_weights = 0\<rparr>"

lemma accepted_proof_is_of_a_commit_witness: "example_commit \<in> set [example_commit]"
proof -
  have leaf: "compute_leaf length_hash example_commit = 160"
    by (simp add: compute_leaf_def length_hash_def commit_encoding_def)
  have root: "compute_epoch_root length_hash [example_commit] = (33, [160])"
    by (simp add: compute_epoch_root_def sort_commits_def leaf promote_leaf_def length_hash_def)
  have "collision_free length_hash (commit_encoding ` insert example_commit (set [example_commit]) \<union>
      epoch_hashed length_hash [160] 160 [])"
    by (simp add: collision_free_def epoch_hashed_def reduce_pres.simps promote_pre_def
        commit_encoding_def length_hash_def inj_on_def)
  moreover have "verify_merkle_proof length_hash [] 33 160"
    by (simp add: verify_merkle_proof_def length_hash_def)
  ultimately show ?thesis
    using accepted_proof_is_of_a_commit [of length_hash "[]" "[example_commit]" example_commit]
    by (simp add: leaf root)
qed

section \<open>The end of a job\<close>

lemma finalize_gate:
  assumes "ms_jobs st i = Some j"
    and "unat (mj_all_epochs_committed_block j) + unat (ts_challenge_window_blocks (mj_spec j)) < 2 ^ 64"
  shows "(\<exists>st'. finalize i st = Inr st') \<longleftrightarrow>
    mj_state j = Awaiting \<and>
    unat (mj_all_epochs_committed_block j) + unat (ts_challenge_window_blocks (mj_spec j))
      \<le> unat (ms_block_number st)"
proof -
  let ?c = "mj_all_epochs_committed_block j" and ?w = "ts_challenge_window_blocks (mj_spec j)"
  have "unat (?c + ucast ?w) = unat ?c + unat ?w"
    using assms(2) by (simp add: unat_word_ariths unat_ucast_small)
  then have "?c + ucast ?w \<le> ms_block_number st \<longleftrightarrow> unat ?c + unat ?w \<le> unat (ms_block_number st)"
    by (simp add: word_le_nat_alt)
  then show ?thesis
    using assms(1) by (simp add: finalize_def on_job_def Let_def map_sum_def flip: not_less)
qed

text \<open>C35: A stalled job can always be ended without its coordinator: once the stall period has
  passed, its requester or any member may expire it, and when the challenge window has then
  passed it can be finalized, with the members and committed roots it had.\<close>

theorem stalled_job_can_be_ended:
  assumes "ms_jobs st i = Some j" and "mj_state j = Training"
    and "w = MOCK_REQUESTER \<or> w \<in> mj_joined j"
    and "mj_last_activity_block j \<le> ms_block_number st"
    and "unat (ms_block_number st) + 50401 + unat (ts_challenge_window_blocks (mj_spec j)) < 2 ^ 64"
  shows "\<exists>st1 st2 j2.
    expire_stalled_training i w (advance_blocks 50401 st) = Inr st1
    \<and> finalize i (advance_blocks (ucast (ts_challenge_window_blocks (mj_spec j))) st1) = Inr st2
    \<and> ms_jobs st2 i = Some j2 \<and> mj_state j2 = Finalized
    \<and> mj_workers j2 = mj_workers j \<and> mj_epoch_roots j2 = mj_epoch_roots j"
proof -
  let ?b = "ms_block_number st + 50401" and ?w = "ts_challenge_window_blocks (mj_spec j)"
  let ?j1 = "j\<lparr>mj_state := Awaiting, mj_all_epochs_committed_block := ?b\<rparr>"
  let ?st1 = "(advance_blocks 50401 st)\<lparr>ms_jobs := (ms_jobs st)(i \<mapsto> ?j1)\<rparr>"
  have b: "unat ?b = unat (ms_block_number st) + 50401"
    using assms(5) by (simp add: unat_word_ariths)
  have "unat (mj_last_activity_block j + 50400) = unat (mj_last_activity_block j) + 50400"
    using assms(4,5) by (simp add: unat_word_ariths word_le_nat_alt)
  then have "mj_last_activity_block j + 50400 < ?b"
    using b assms(4) by (simp add: word_less_nat_alt word_le_nat_alt)
  then have st1: "expire_stalled_training i w (advance_blocks 50401 st) = Inr ?st1"
    using assms(1-3)
    by (auto simp: expire_stalled_training_def on_job_def advance_blocks_def STALL_EXPIRY_BLOCKS_def
        not_le)
  have "unat (ucast ?w :: u64) = unat ?w"
    by (rule unat_ucast_small) (use unsigned_less [of ?w, where 'a = nat] in simp)
  then have "\<exists>st2. finalize i (advance_blocks (ucast ?w) ?st1) = Inr st2"
    using finalize_gate [of "advance_blocks (ucast ?w) ?st1" i ?j1] b assms(5)
    by (simp add: advance_blocks_def unat_word_ariths)
  then obtain st2 where "finalize i (advance_blocks (ucast ?w) ?st1) = Inr st2" ..
  with st1 show ?thesis
    by (auto simp: finalize_def on_job_Inr advance_blocks_def Let_def split: if_splits)
qed

lemma stalled_job_can_be_ended_witness:
  "\<exists>st1 st2 j2.
    expire_stalled_training 0 8 (advance_blocks 50401
      (finalized_state\<lparr>ms_jobs := [0 \<mapsto> finalized_job\<lparr>mj_state := Training, mj_current_epoch := 0\<rparr>]\<rparr>)) = Inr st1
    \<and> finalize 0 (advance_blocks 10 st1) = Inr st2
    \<and> ms_jobs st2 0 = Some j2 \<and> mj_state j2 = Finalized \<and> mj_workers j2 = [7, 8]"
  using stalled_job_can_be_ended [of
      "finalized_state\<lparr>ms_jobs := [0 \<mapsto> finalized_job\<lparr>mj_state := Training, mj_current_epoch := 0\<rparr>]\<rparr>"
      0 "finalized_job\<lparr>mj_state := Training, mj_current_epoch := 0\<rparr>" 8]
  by (auto simp: finalized_state_def finalized_job_def new_job_def example_spec_def empty_mock_state_def)

section \<open>Votes and slashes\<close>

lemma cast_vote_counts:
  assumes "cast_vote voter uphold ch0 = Inr ch" and "votes_ok ch0"
  shows "mc_voted ch = insert voter (mc_voted ch0)" and "voter \<notin> mc_voted ch0"
    and "mc_state ch0 = Voting" and "mc_bond ch0 = CHALLENGE_BOND"
    and "2 \<le> mc_uphold_votes ch \<longleftrightarrow> uphold \<and> mc_uphold_votes ch0 = 1"
    and "2 \<le> mc_reject_votes ch \<longleftrightarrow> \<not> uphold \<and> mc_reject_votes ch0 = 1"
proof -
  from assms have st: "mc_state ch0 = Voting" "voter \<notin> mc_voted ch0" "mc_bond ch0 = CHALLENGE_BOND"
    and ch: "ch = (if uphold then ch0\<lparr>mc_voted := insert voter (mc_voted ch0), mc_uphold_votes := mc_uphold_votes ch0 + 1\<rparr>
                   else ch0\<lparr>mc_voted := insert voter (mc_voted ch0), mc_reject_votes := mc_reject_votes ch0 + 1\<rparr>)"
    by (auto simp: cast_vote_def Let_def votes_ok_def split: if_splits)
  from assms(2) st have v: "mc_uphold_votes ch0 = 0 \<or> mc_uphold_votes ch0 = 1"
      "mc_reject_votes ch0 = 0 \<or> mc_reject_votes ch0 = 1"
    by (simp_all add: votes_ok_def below_two)
  show "mc_voted ch = insert voter (mc_voted ch0)" "voter \<notin> mc_voted ch0"
    "mc_state ch0 = Voting" "mc_bond ch0 = CHALLENGE_BOND"
    using st by (simp_all add: ch)
  show "2 \<le> mc_uphold_votes ch \<longleftrightarrow> uphold \<and> mc_uphold_votes ch0 = 1"
    and "2 \<le> mc_reject_votes ch \<longleftrightarrow> \<not> uphold \<and> mc_reject_votes ch0 = 1"
    using v by (auto simp: ch word_le_nat_alt)
qed

text \<open>The slash in numbers, where the tenth of a stake is computed without wrapping.\<close>

lemma upheld_slash_amount:
  assumes "unat (ts_per_worker_stake (mj_spec j)) * 1000 < 2 ^ 128"
  shows "unat (upheld_slash j t) = min (unat (ts_per_worker_stake (mj_spec j)) div 10)
    (unat (ts_per_worker_stake (mj_spec j)) - unat (or_zero (mj_challenge_slashed j t)) -
     (if t \<in> mj_liveness_slashed j then unat (ts_per_worker_stake (mj_spec j)) div 1000 else 0))"
proof -
  let ?s = "ts_per_worker_stake (mj_spec j)"
  have "unat (?s * 1000) = unat ?s * 1000" "unat (?s * 10) = unat ?s * 10"
    using assms by (simp_all add: unat_word_ariths)
  then have "unat (?s * SLASH_BPS div BPS) = unat ?s div 10" "unat (?s * 10 div BPS) = unat ?s div 1000"
    by (simp_all add: SLASH_BPS_def BPS_def unat_div)
  then show ?thesis
    by (simp add: upheld_slash_def Let_def min_def word_le_nat_alt unat_sat_sub)
qed

lemma cast_vote_after:
  assumes "cast_vote voter uphold ch0 = Inr ch" and "votes_ok ch0"
  shows "ch = ch0\<lparr>mc_voted := insert voter (mc_voted ch0),
      mc_uphold_votes := (if uphold then mc_uphold_votes ch0 + 1 else mc_uphold_votes ch0),
      mc_reject_votes := (if uphold then mc_reject_votes ch0 else mc_reject_votes ch0 + 1),
      mc_state := Voting, mc_bond := 1000000000000000000\<rparr>"
    and "mc_uphold_votes ch0 < 2" and "mc_reject_votes ch0 < 2"
    and "card (mc_voted ch0) = unat (mc_uphold_votes ch0) + unat (mc_reject_votes ch0)"
  using assms
  by (cases ch0; auto simp: cast_vote_def votes_ok_def CHALLENGE_BOND_def Let_def split: if_splits)+

text \<open>A challenge with one more vote, by the rule of two votes.\<close>

definition voted_on :: "address \<Rightarrow> bool \<Rightarrow> mock_challenge \<Rightarrow> mock_challenge" where
  "voted_on voter uphold ch = ch\<lparr>mc_voted := insert voter (mc_voted ch),
      mc_uphold_votes := (if uphold then mc_uphold_votes ch + 1 else mc_uphold_votes ch),
      mc_reject_votes := (if uphold then mc_reject_votes ch else mc_reject_votes ch + 1),
      mc_state := (if uphold \<and> mc_uphold_votes ch = 1 then ResolvedUphold
                   else if \<not> uphold \<and> mc_reject_votes ch = 1 then ResolvedReject else Voting),
      mc_bond := (if uphold \<and> mc_uphold_votes ch = 1 \<or> \<not> uphold \<and> mc_reject_votes ch = 1
                  then 0 else 1000000000000000000)\<rparr>"

lemma vote_effect:
  assumes "vote_challenge i voter e s t uphold st = Inr st'" and "all_jobs job_inv st"
  obtains j ch where "ms_jobs st i = Some j" and "mj_challenges j (e, s, t) = Some ch"
    and "voter \<in> ms_committee st"
    and "voter \<notin> mc_voted ch" and "mc_state ch = Voting" and "votes_ok ch"
    and "or_zero (mj_challenge_slashed j t) \<le> ts_per_worker_stake (mj_spec j)"
    and "st' = (if uphold \<and> mc_uphold_votes ch = 1 then
             st\<lparr>ms_jobs := (ms_jobs st)(i \<mapsto>
                  j\<lparr>mj_challenges := (mj_challenges j)((e, s, t) \<mapsto> voted_on voter uphold ch),
                    mj_challenge_slashed := (mj_challenge_slashed j)
                      (t \<mapsto> or_zero (mj_challenge_slashed j t) + upheld_slash j t)\<rparr>),
                ms_challenger_rewards := (ms_challenger_rewards st)
                  (mc_challenger ch \<mapsto> or_zero (ms_challenger_rewards st (mc_challenger ch)) +
                     (1000000000000000000 + upheld_slash j t div 2))\<rparr>
           else st\<lparr>ms_jobs := (ms_jobs st)(i \<mapsto>
                  j\<lparr>mj_challenges := (mj_challenges j)((e, s, t) \<mapsto> voted_on voter uphold ch)\<rparr>)\<rparr>)"
proof -
  have facts: "or_zero (mj_challenge_slashed j t) \<le> ts_per_worker_stake (mj_spec j)" "votes_ok ch"
    if "ms_jobs st i = Some j" "mj_challenges j (e, s, t) = Some ch" for j ch
    using assms(2) that by (auto simp: all_jobs_def job_inv_def slashes_ok_def challenges_ok_def)
  show thesis
    using assms(1)
  proof (cases rule: vote_challenge_Inr)
    case (1 j ch0 ch)
    note f = facts [OF 1(2,3)]
    note c = cast_vote_counts [OF 1(4) f(2)]
    have q: "(uphold \<and> mc_uphold_votes ch0 = 1) = False" "(\<not> uphold \<and> mc_reject_votes ch0 = 1) = False"
      using 1(5,6) c(5,6) by (simp_all add: COMMITTEE_QUORUM_def)
    have "voted_on voter uphold ch0 = ch"
      unfolding voted_on_def q using cast_vote_after(1) [OF 1(4) f(2)] by simp
    with 1(7) show thesis by (intro that [OF 1(2,3,1) c(2,3) f(2,1)]) (simp_all only: q if_False 1(4) sum.simps simp_thms)
  next
    case (2 j ch0 ch)
    note f = facts [OF 2(2,3)]
    note c = cast_vote_counts [OF 2(4) f(2)]
    note after = cast_vote_after(1) [OF 2(4) f(2)]
    have q: "uphold" "mc_uphold_votes ch0 = 1" using 2(5) c(5) by (simp_all add: COMMITTEE_QUORUM_def)
    have "voted_on voter uphold ch0 = ch\<lparr>mc_state := ResolvedUphold, mc_bond := 0\<rparr>"
      unfolding voted_on_def after by (simp add: q)
    moreover have "mc_challenger ch = mc_challenger ch0" "mc_bond ch = 1000000000000000000"
      unfolding after by simp_all
    ultimately show thesis
      using 2(6) by (intro that [OF 2(2,3,1) c(2,3) f(2,1)]) (simp_all only: q if_True 2(4) sum.simps simp_thms)
  next
    case (3 j ch0 ch)
    note f = facts [OF 3(2,3)]
    note c = cast_vote_counts [OF 3(4) f(2)]
    note after = cast_vote_after(1) [OF 3(4) f(2)]
    have q: "uphold = False" "mc_reject_votes ch0 = 1" using 3(6) c(6) by (simp_all add: COMMITTEE_QUORUM_def)
    have "voted_on voter uphold ch0 = ch\<lparr>mc_state := ResolvedReject, mc_bond := 0\<rparr>"
      unfolding voted_on_def after by (simp add: q)
    then show thesis
      using 3(7) by (intro that [OF 3(2,3,1) c(2,3) f(2,1)]) (simp_all only: q if_False 3(4) sum.simps simp_thms)
  qed
qed

text \<open>C34: In a reachable state a vote is counted only from a committee member who has not voted on the running
  challenge, and the whole of the new state is given.  The challenge gets the voter and one vote of the side; it is
  decided exactly by the second vote of a side, and then its bond of 10^18 is returned.  If it upholds, the target is
  slashed, on top of what it was slashed before, a tenth of the stake or what is left of the stake after that (and
  after a thousandth for a liveness slash), whichever is less, so never past the stake; the challenger is credited the
  bond and half the slash.  Nothing else changes: no other challenge, field, job, reward, committee or counter.\<close>

theorem vote_decides_on_quorum:
  assumes "chain_reachable K st" and "vote_challenge i voter e s t uphold st = Inr st'"
  shows "\<exists>j ch ch' stake prior liveness slash reward.
    ms_jobs st i = Some j \<and> mj_challenges j (e, s, t) = Some ch \<and>
    voter \<in> ms_committee st \<and> voter \<notin> mc_voted ch \<and> mc_state ch = Voting \<and>
    mc_bond ch = 1000000000000000000 \<and> mc_uphold_votes ch < 2 \<and> mc_reject_votes ch < 2 \<and>
    card (mc_voted ch) = unat (mc_uphold_votes ch) + unat (mc_reject_votes ch) \<and>
    ch' = ch\<lparr>mc_voted := insert voter (mc_voted ch),
      mc_uphold_votes := (if uphold then mc_uphold_votes ch + 1 else mc_uphold_votes ch),
      mc_reject_votes := (if uphold then mc_reject_votes ch else mc_reject_votes ch + 1),
      mc_state := (if uphold \<and> mc_uphold_votes ch = 1 then ResolvedUphold
                   else if \<not> uphold \<and> mc_reject_votes ch = 1 then ResolvedReject else Voting),
      mc_bond := (if uphold \<and> mc_uphold_votes ch = 1 \<or> \<not> uphold \<and> mc_reject_votes ch = 1
                  then 0 else 1000000000000000000)\<rparr> \<and>
    stake = ts_per_worker_stake (mj_spec j) \<and>
    prior = (case mj_challenge_slashed j t of None \<Rightarrow> 0 | Some v \<Rightarrow> v) \<and>
    reward = (case ms_challenger_rewards st (mc_challenger ch) of None \<Rightarrow> 0 | Some v \<Rightarrow> v) \<and>
    liveness = (if t \<in> mj_liveness_slashed j then stake * 10 div 10000 else 0) \<and>
    slash = min (stake * 1000 div 10000) (sat_sub (sat_sub stake prior) liveness) \<and>
    unat prior + unat slash \<le> unat stake \<and>
    (unat stake * 1000 < 2 ^ 128 \<longrightarrow> unat slash = min (unat stake div 10)
       (unat stake - unat prior - (if t \<in> mj_liveness_slashed j then unat stake div 1000 else 0))) \<and>
    st' = (if uphold \<and> mc_uphold_votes ch = 1 then
             st\<lparr>ms_jobs := (ms_jobs st)(i \<mapsto> j\<lparr>mj_challenges := (mj_challenges j)((e, s, t) \<mapsto> ch'),
                  mj_challenge_slashed := (mj_challenge_slashed j)(t \<mapsto> prior + slash)\<rparr>),
                ms_challenger_rewards := (ms_challenger_rewards st)
                  (mc_challenger ch \<mapsto> reward + (1000000000000000000 + slash div 2))\<rparr>
           else st\<lparr>ms_jobs := (ms_jobs st)(i \<mapsto>
                  j\<lparr>mj_challenges := (mj_challenges j)((e, s, t) \<mapsto> ch')\<rparr>)\<rparr>)"
proof -
  obtain j ch where v: "ms_jobs st i = Some j" "mj_challenges j (e, s, t) = Some ch" "voter \<in> ms_committee st"
      "voter \<notin> mc_voted ch" "mc_state ch = Voting" "votes_ok ch"
      "or_zero (mj_challenge_slashed j t) \<le> ts_per_worker_stake (mj_spec j)"
    and st': "st' = (if uphold \<and> mc_uphold_votes ch = 1 then
             st\<lparr>ms_jobs := (ms_jobs st)(i \<mapsto>
                  j\<lparr>mj_challenges := (mj_challenges j)((e, s, t) \<mapsto> voted_on voter uphold ch),
                    mj_challenge_slashed := (mj_challenge_slashed j)
                      (t \<mapsto> or_zero (mj_challenge_slashed j t) + upheld_slash j t)\<rparr>),
                ms_challenger_rewards := (ms_challenger_rewards st)
                  (mc_challenger ch \<mapsto> or_zero (ms_challenger_rewards st (mc_challenger ch)) +
                     (1000000000000000000 + upheld_slash j t div 2))\<rparr>
           else st\<lparr>ms_jobs := (ms_jobs st)(i \<mapsto>
                  j\<lparr>mj_challenges := (mj_challenges j)((e, s, t) \<mapsto> voted_on voter uphold ch)\<rparr>)\<rparr>)"
    by (rule vote_effect [OF assms(2) chain_reachable_inv [OF assms(1)]])
  have counts: "mc_bond ch = 1000000000000000000" "mc_uphold_votes ch < 2" "mc_reject_votes ch < 2"
    "card (mc_voted ch) = unat (mc_uphold_votes ch) + unat (mc_reject_votes ch)"
    using v(5,6) by (simp_all add: votes_ok_def CHALLENGE_BOND_def)
  have slash: "upheld_slash j t = min (ts_per_worker_stake (mj_spec j) * 1000 div 10000)
      (sat_sub (sat_sub (ts_per_worker_stake (mj_spec j)) (or_zero (mj_challenge_slashed j t)))
        (if t \<in> mj_liveness_slashed j then ts_per_worker_stake (mj_spec j) * 10 div 10000 else 0))"
    by (cases "t \<in> mj_liveness_slashed j") (simp_all add: upheld_slash_def SLASH_BPS_def BPS_def Let_def)
  note zero = or_zero_def [symmetric]
  show ?thesis
    by (rule exI [of _ j], rule exI [of _ ch], rule exI [of _ "voted_on voter uphold ch"],
        rule exI [of _ "ts_per_worker_stake (mj_spec j)"], rule exI [of _ "or_zero (mj_challenge_slashed j t)"],
        rule exI [of _ "if t \<in> mj_liveness_slashed j then ts_per_worker_stake (mj_spec j) * 10 div 10000 else 0"],
        rule exI [of _ "upheld_slash j t"], rule exI [of _ "or_zero (ms_challenger_rewards st (mc_challenger ch))"],
        intro conjI v counts slash st' upheld_slash_bound(1) [OF v(7)] impI upheld_slash_amount)
      (simp_all only: zero voted_on_def)
qed

lemma vote_decides_on_quorum_witness:
  "\<exists>st' j ch. vote_challenge 0 2 0 5 8 True voting_state = Inr st' \<and> ms_jobs st' 0 = Some j \<and>
     mj_challenges j (0, 5, 8) = Some ch \<and> mc_state ch = ResolvedUphold \<and>
     mj_challenge_slashed j 8 = Some 1000 \<and> ms_challenger_rewards st' 7 = Some 1000000000000000500"
proof -
  let ?r = "vote_challenge 0 2 0 5 8 True voting_state"
  have "\<exists>st'. ?r = Inr st'"
    by (simp add: vote_challenge_def cast_vote_def voting_state_def voting_job_def voting_challenge_def
        Let_def COMMITTEE_QUORUM_def)
  then obtain st' where st': "?r = Inr st'" ..
  have job: "ms_jobs voting_state 0 = Some voting_job" "mj_challenges voting_job (0, 5, 8) = Some voting_challenge"
    "mc_uphold_votes voting_challenge = 1" "ts_per_worker_stake (mj_spec voting_job) = 10000"
    "mj_challenge_slashed voting_job = Map.empty" "mj_liveness_slashed voting_job = {}"
    "ms_challenger_rewards voting_state = Map.empty" "mc_challenger voting_challenge = 7"
    by (simp_all add: voting_state_def voting_job_def voting_challenge_def committed_job_def new_job_def example_spec_def)
  from vote_decides_on_quorum [OF voting_state_reachable st'] st' show ?thesis
    by (auto simp: job sat_sub_def min_def)
qed

text \<open>In every reachable state a worker's total slash is at most the stake and a tenth of a
  percent of it, and at most the stake if the coordinator slash did not fall on the worker.\<close>

theorem total_slash_bounded:
  assumes "chain_reachable K st" and "ms_jobs st i = Some j"
  shows "unat (worker_total_slashed i w st)
      \<le> unat (ts_per_worker_stake (mj_spec j)) + unat (ts_per_worker_stake (mj_spec j) * 10 div BPS)"
    (is "_ \<le> unat ?stake + unat ?live")
proof -
  have "or_zero (mj_challenge_slashed j w) \<le> ?stake"
    using chain_reachable_inv [OF assms(1)] assms(2) by (auto simp: all_jobs_def job_inv_def slashes_ok_def)
  moreover have "unat (a + b) \<le> unat a + unat b" for a b :: u128
    by (simp add: unat_word_ariths)
  ultimately show ?thesis
    using assms(2) by (simp add: worker_total_slashed_def Let_def word_le_nat_alt) (meson add_mono le_trans le_refl)
qed

lemma total_slash_bounded_witness: "unat (worker_total_slashed 0 8 voting_state) \<le> 10010"
  using total_slash_bounded [OF voting_state_reachable, of 0 voting_job 8]
  by (simp add: voting_state_def voting_job_def committed_job_def new_job_def example_spec_def BPS_def)

end
