(* ===== verification/Training_Worker_Theorems.thy ===== *)
theory Training_Worker_Theorems
  imports Training_Worker Training_Chain_Theorems
begin

text \<open>
  What the worker of \<open>Training_Worker\<close> does: which commits an epoch root covers in any
  environment, what a single member or a flooder can do to the drain loop, and the run of a
  coordinator on the chain of \<open>Training_Chain\<close> from the first epoch to finalization.
\<close>

section \<open>The gate\<close>

definition pair_of :: "step_commit \<Rightarrow> address \<times> u32" where
  "pair_of c = (sc_worker c, sc_step c)"

definition gate_ok :: "epoch_aggregator \<Rightarrow> bool" where
  "gate_ok ag \<longleftrightarrow>
     (\<forall>c \<in> set (ag_accepted ag). sc_epoch c = ag_epoch ag \<and> sc_worker c \<in> ag_members ag)
     \<and> distinct (map pair_of (ag_accepted ag)) \<and> ag_seen ag = pair_of ` set (ag_accepted ag)"

lemma aggregator_new_ok: "gate_ok (aggregator_new epoch members)"
  by (simp add: gate_ok_def aggregator_new_def)

lemma try_accept_ok: "gate_ok ag \<Longrightarrow> gate_ok (snd (try_accept c ag))"
  by (auto simp: gate_ok_def try_accept_def pair_of_def)

lemma try_accept_same [simp]:
  "ag_epoch (snd (try_accept c ag)) = ag_epoch ag"
  "ag_members (snd (try_accept c ag)) = ag_members ag"
  by (simp_all add: try_accept_def)

lemma offer_ok:
  "gate_ok ag \<Longrightarrow> gate_ok (offer m ag)"
  "ag_epoch (offer m ag) = ag_epoch ag"
  "ag_members (offer m ag) = ag_members ag"
  by (simp_all add: offer_def try_accept_ok split: worker_message.split)

lemma fold_accept_ok:
  "gate_ok ag \<Longrightarrow> gate_ok (fold (\<lambda>c ag. snd (try_accept c ag)) cs ag)"
  "ag_epoch (fold (\<lambda>c ag. snd (try_accept c ag)) cs ag) = ag_epoch ag"
  "ag_members (fold (\<lambda>c ag. snd (try_accept c ag)) cs ag) = ag_members ag"
  by (induction cs arbitrary: ag) (auto simp: try_accept_ok)

text \<open>A list of commits the gate takes one after the other.\<close>

definition acceptable :: "epoch_aggregator \<Rightarrow> step_commit list \<Rightarrow> bool" where
  "acceptable ag cs \<longleftrightarrow>
     (\<forall>c \<in> set cs. sc_epoch c = ag_epoch ag \<and> sc_worker c \<in> ag_members ag \<and> pair_of c \<notin> ag_seen ag)
     \<and> distinct (map pair_of cs)"

lemma accept_Cons:
  assumes "acceptable ag (c # cs)"
  shows "snd (try_accept c ag) = ag\<lparr>ag_seen := insert (pair_of c) (ag_seen ag),
           ag_accepted := ag_accepted ag @ [c]\<rparr>"
    and "acceptable (snd (try_accept c ag)) cs"
proof -
  show acc: "snd (try_accept c ag) = ag\<lparr>ag_seen := insert (pair_of c) (ag_seen ag),
           ag_accepted := ag_accepted ag @ [c]\<rparr>"
    using assms by (auto simp: acceptable_def try_accept_def pair_of_def)
  show "acceptable (snd (try_accept c ag)) cs"
    using assms unfolding acc by (auto simp: acceptable_def image_iff)
qed

lemma fold_accept:
  "acceptable ag cs \<Longrightarrow>
   ag_accepted (fold (\<lambda>c ag. snd (try_accept c ag)) cs ag) = ag_accepted ag @ cs
   \<and> ag_seen (fold (\<lambda>c ag. snd (try_accept c ag)) cs ag) = ag_seen ag \<union> pair_of ` set cs"
proof (induction cs arbitrary: ag)
  case (Cons c cs)
  then show ?case using accept_Cons [OF Cons.prems] by simp
qed simp

section \<open>The drain loop\<close>

text \<open>Messages taken from the transport one after the other, each within a minute.\<close>

inductive receives ::
  "('w, 'g) worker_env \<Rightarrow> address \<Rightarrow> 'w \<Rightarrow> worker_message list \<Rightarrow> 'w \<Rightarrow> bool" for E me where
  none: "receives E me w [] w"
| another: "we_recv_until E me (we_now E w + 60000) w = (Delivered m, w1) \<Longrightarrow> receives E me w1 ms w2 \<Longrightarrow>
     receives E me w (m # ms) w2"

definition drained ::
  "('w, 'g) worker_env \<Rightarrow> address \<Rightarrow> nat \<Rightarrow> epoch_aggregator \<Rightarrow> 'w \<Rightarrow> epoch_aggregator \<Rightarrow> 'w \<Rightarrow> worker_message list \<Rightarrow> bool" where
  "drained E me n ag w ag' w' ms \<longleftrightarrow> receives E me w ms w' \<and> ag' = fold offer ms ag \<and> n \<le> length (ag_accepted ag') \<and>
     (\<forall>ms1 ms2. ms = ms1 @ ms2 \<longrightarrow> ms2 \<noteq> [] \<longrightarrow> length (ag_accepted (fold offer ms1 ag)) < n)"

lemma drained_more:
  assumes "we_recv_until E me (we_now E w + DRAIN_RECV_TIMEOUT) w = (Delivered m, w1)"
    and "aggregator_len ag < n" and d: "drained E me n (offer m ag) w1 ag' w' ms"
  shows "drained E me n ag w ag' w' (m # ms)"
proof -
  have "receives E me w (m # ms) w'"
    using assms(1) d receives.another unfolding drained_def DRAIN_RECV_TIMEOUT_def by fastforce
  moreover have "length (ag_accepted (fold offer ms1 ag)) < n" if "m # ms = ms1 @ ms2" "ms2 \<noteq> []" for ms1 ms2
  proof (cases ms1)
    case Nil
    then show ?thesis using assms(2) by (simp add: aggregator_len_def)
  next
    case (Cons x xs)
    then show ?thesis using that d by (simp add: drained_def)
  qed
  ultimately show ?thesis using d by (auto simp: drained_def)
qed

lemma drain_result:
  assumes "drain_commits E me epoch n ag w = Some (Inr ag', w')"
  shows "\<exists>ms. drained E me n ag w ag' w' ms"
proof -
  let ?P = "\<lambda>E me epoch n ag w (r :: (worker_error + epoch_aggregator) \<times> 'a).
     (case r of (Inr ag', w') \<Rightarrow> \<exists>ms. drained E me n ag w ag' w' ms | _ \<Rightarrow> True)"
  have "?P E me epoch n ag w (Inr ag', w')"
  proof (rule drain_commits.raw_induct [where P = ?P, OF _ assms(1)], goal_cases)
    case (1 f E me epoch n ag w r)
    show ?case
    proof (cases "aggregator_len ag < n")
      case True
      obtain x w1 where recv: "we_recv_until E me (we_now E w + DRAIN_RECV_TIMEOUT) w = (x, w1)"
        by fastforce
      show ?thesis
      proof (cases x)
        case (Delivered m)
        then have "f E me epoch n (offer m ag) w1 = Some r"
          using 1(2) True recv by simp
        from 1(1) [OF this] drained_more [OF recv [unfolded Delivered] True] show ?thesis
          by (force split: sum.splits prod.splits)
      qed (use 1(2) True recv in auto)
    next
      case False
      then have "r = (Inr ag, w)" using 1(2) by simp
      moreover have "drained E me n ag w ag w []"
        using False by (simp add: drained_def aggregator_len_def receives.none)
      ultimately show ?thesis by auto
    qed
  qed
  then show ?thesis by simp
qed

section \<open>What the gate lets through\<close>

definition commits_in :: "worker_message list \<Rightarrow> step_commit list" where
  "commits_in ms = concat (map (\<lambda>m. case m of StepCommitted c \<Rightarrow> [c] | _ \<Rightarrow> []) ms)"

lemma commits_in_set: "c \<in> set (commits_in ms) \<longleftrightarrow> StepCommitted c \<in> set ms"
  by (induction ms) (auto simp: commits_in_def split: worker_message.splits)

text \<open>Of the commits of the epoch by members, the first for each member and step.\<close>

fun gated :: "u32 \<Rightarrow> address set \<Rightarrow> (address \<times> u32) set \<Rightarrow> step_commit list \<Rightarrow> step_commit list" where
  "gated epoch members seen [] = []"
| "gated epoch members seen (c # cs) =
     (if sc_epoch c = epoch \<and> sc_worker c \<in> members \<and> (sc_worker c, sc_step c) \<notin> seen
      then c # gated epoch members (insert (sc_worker c, sc_step c) seen) cs
      else gated epoch members seen cs)"

lemma gated_props:
  "c \<in> set (gated epoch members seen cs) \<Longrightarrow> c \<in> set cs \<and> sc_epoch c = epoch \<and> sc_worker c \<in> members"
  "distinct (map pair_of (gated epoch members seen cs)) \<and> pair_of ` set (gated epoch members seen cs) \<inter> seen = {}"
  by (induction epoch members seen cs rule: gated.induct) (auto simp: pair_of_def split: if_splits)

lemma accepted_gated:
  "ag_accepted (fold (\<lambda>c ag. snd (try_accept c ag)) cs ag) =
     ag_accepted ag @ gated (ag_epoch ag) (ag_members ag) (ag_seen ag) cs"
  by (induction cs arbitrary: ag) (auto simp: try_accept_def)

lemma offers_accept: "fold offer ms ag = fold (\<lambda>c ag. snd (try_accept c ag)) (commits_in ms) ag"
  by (induction ms arbitrary: ag) (auto simp: commits_in_def offer_def split: worker_message.splits)

lemma drained_gated:
  "ag_accepted (fold offer ms (fold (\<lambda>c ag. snd (try_accept c ag)) mine (aggregator_new epoch members))) =
     gated epoch (set members) {} (mine @ commits_in ms)"
  unfolding offers_accept using accepted_gated [of "mine @ commits_in ms" "aggregator_new epoch members"]
  by (simp add: aggregator_new_def)

lemma words_below: "{..< n} = (of_nat ` {..< unat n} :: u32 set)"
proof (intro equalityI subsetI)
  fix x assume "x \<in> {..< n}"
  then have "x = of_nat (unat x)" "unat x \<in> {..< unat n}" by (simp_all add: word_less_nat_alt)
  then show "x \<in> of_nat ` {..< unat n}" by blast
qed (use unsigned_less [of n, where 'a = nat] in \<open>auto simp: word_less_nat_alt unat_of_nat_small\<close>)

lemma full_cover:
  assumes "distinct (map pair_of cs)" and "sc_worker ` set cs \<subseteq> set ws" and "sc_step ` set cs \<subseteq> {..< n}"
    and "length ws * unat n \<le> length cs" and "distinct ws"
  shows "pair_of ` set cs = set ws \<times> {..< n}"
proof (rule card_subset_eq)
  show "finite (set ws \<times> {..< n})" by simp
  show sub: "pair_of ` set cs \<subseteq> set ws \<times> {..< n}" using assms(2,3) by (auto simp: pair_of_def)
  have "card {..< n} \<le> unat n" unfolding words_below using card_image_le [of "{..< unat n}"] by simp
  then have "card (set ws \<times> {..< n}) \<le> length ws * unat n"
    using assms(5) by (simp add: card_cartesian_product distinct_card)
  also have "\<dots> \<le> card (pair_of ` set cs)"
    using assms(4) distinct_card [OF assms(1)] by simp
  finally show "card (pair_of ` set cs) = card (set ws \<times> {..< n})"
    using card_mono [OF _ sub] by simp
qed

text \<open>C36: The root a coordinator commits, whatever the mesh delivers.  The loop takes messages (\<open>ms\<close>), each within a
  minute, until it has as many commits as workers times steps, and not one more; the commits (\<open>cs\<close>) are, of the
  coordinator's own and then of those delivered, in order, the commits of this epoch by workers of the snapshot,
  the first for each worker and step, and the root handed to the chain is theirs.  So every commit under the root is
  the coordinator's own or was delivered, is of this epoch and by a worker of the snapshot, and no worker and step
  has two.  The count is all that is required: a worker may fill it with steps that do not exist
  (\<open>one_member_fills_the_epoch\<close>); only if every step is in range is there exactly one commit for every worker
  and step.\<close>

theorem committed_root_is_authentic:
  assumes "close_epoch K E C snap epoch mine w = Some (Inr (), w')"
    and "wc_is_coordinator C" and "distinct (js_workers snap)" and "length (js_workers snap) < 2 ^ 32"
  shows "\<exists>ms w1 cs expected. receives E (wc_self_address C) w ms w1
    \<and> cs = gated epoch (set (js_workers snap)) {} (mine @ commits_in ms)
    \<and> we_commit_epoch E (wc_job_id C) (wc_self_address C) epoch
        (fst (compute_epoch_root K cs)) w1 = (Inr (), w')
    \<and> (\<forall>c \<in> set cs. (c \<in> set mine \<or> StepCommitted c \<in> set ms)
        \<and> sc_epoch c = epoch \<and> sc_worker c \<in> set (js_workers snap))
    \<and> distinct (map (\<lambda>c. (sc_worker c, sc_step c)) cs)
    \<and> expected = length (js_workers snap) * unat (ts_steps_per_epoch (js_spec snap)) \<and> expected \<le> length cs
    \<and> (\<forall>ms1 ms2. ms = ms1 @ ms2 \<longrightarrow> ms2 \<noteq> [] \<longrightarrow>
        length (gated epoch (set (js_workers snap)) {} (mine @ commits_in ms1)) < expected)
    \<and> ((\<forall>c \<in> set cs. sc_step c < ts_steps_per_epoch (js_spec snap)) \<longrightarrow>
        (\<lambda>c. (sc_worker c, sc_step c)) ` set cs =
          set (js_workers snap) \<times> {..< ts_steps_per_epoch (js_spec snap)})"
proof -
  let ?S = "ts_steps_per_epoch (js_spec snap)" and ?n = "length (js_workers snap)"
  let ?ag0 = "fold (\<lambda>c ag. snd (try_accept c ag)) mine (aggregator_new epoch (js_workers snap))"
  have n: "unat (of_nat ?n :: u32) = ?n" using assms(4) by (intro unat_of_nat_small) simp
  from assms(1,2) obtain ag w1 where
    drain: "drain_commits E (wc_self_address C) epoch (?n * unat ?S) ?ag0 w = Some (Inr ag, w1)"
    and commit: "we_commit_epoch E (wc_job_id C) (wc_self_address C) epoch
        (fst (compute_epoch_root K (ag_accepted ag))) w1 = (Inr (), w')"
    by (auto simp: close_epoch_def Let_def and_then_def try_op_def n into_commits_def
        split: option.splits sum.splits prod.splits)
  from drain_result [OF drain] obtain ms where ms: "receives E (wc_self_address C) w ms w1"
    "ag_accepted ag = gated epoch (set (js_workers snap)) {} (mine @ commits_in ms)"
    "?n * unat ?S \<le> length (ag_accepted ag)"
    "\<forall>ms1 ms2. ms = ms1 @ ms2 \<longrightarrow> ms2 \<noteq> [] \<longrightarrow>
       length (gated epoch (set (js_workers snap)) {} (mine @ commits_in ms1)) < ?n * unat ?S"
    unfolding drained_def drained_gated by (auto simp: drained_gated)
  let ?cs = "ag_accepted ag"
  have pairs: "pair_of = (\<lambda>c. (sc_worker c, sc_step c))" by (simp add: fun_eq_iff pair_of_def)
  have own: "\<forall>c \<in> set ?cs. (c \<in> set mine \<or> StepCommitted c \<in> set ms) \<and> sc_epoch c = epoch \<and>
      sc_worker c \<in> set (js_workers snap)"
    unfolding ms(2) using gated_props(1) by (fastforce simp: commits_in_set)
  have d: "distinct (map pair_of ?cs)" unfolding ms(2) by (rule conjunct1 [OF gated_props(2)])
  have cover: "pair_of ` set ?cs = set (js_workers snap) \<times> {..< ?S}" if "\<forall>c \<in> set ?cs. sc_step c < ?S"
    using full_cover [OF d _ _ ms(3) assms(3)] own that by auto
  show ?thesis
    by (rule exI [of _ ms], rule exI [of _ w1], rule exI [of _ ?cs], rule exI [of _ "?n * unat ?S"],
        intro conjI impI ms commit own d [unfolded pairs] refl cover [unfolded pairs])
qed

text \<open>The environment that delivers a list of messages and then lets the time run out.\<close>

definition delivers :: "('w, 'g) worker_env \<Rightarrow> address \<Rightarrow> (nat \<Rightarrow> 'w) \<Rightarrow> (nat \<Rightarrow> worker_message) \<Rightarrow> bool" where
  "delivers E me W M \<longleftrightarrow> (\<forall>k deadline. we_recv_until E me deadline (W k) = (Delivered (M k), W (Suc k)))"

text \<open>A flooder can hold the coordinator for ever: as long as messages that do not count (of
  another epoch, of strangers, repeated, of another kind) keep arriving before each receive times
  out, the drain loop does not return, since nothing bounds it as a whole.\<close>

theorem flooded_coordinator_never_returns:
  assumes "delivers E me W M" and "aggregator_len ag < expected"
    and "\<And>k. offer (M k) ag = ag"
  shows "drain_commits E me epoch expected ag (W k) = None"
proof (rule ccontr)
  let ?P = "\<lambda>E' me' epoch' n' ag' w' (r :: (worker_error + epoch_aggregator) \<times> 'a).
     \<not> (\<exists>k. E' = E \<and> me' = me \<and> n' = expected \<and> ag' = ag \<and> w' = W k)"
  assume "drain_commits E me epoch expected ag (W k) \<noteq> None"
  then obtain r where ret: "drain_commits E me epoch expected ag (W k) = Some r" by blast
  have "?P E me epoch expected ag (W k) r"
  proof (rule drain_commits.raw_induct [where P = ?P, OF _ ret], goal_cases)
    case (1 f E' me' epoch' n' ag' w' r)
    show ?case
    proof
      assume "\<exists>k. E' = E \<and> me' = me \<and> n' = expected \<and> ag' = ag \<and> w' = W k"
      then obtain k where eq: "E' = E" "me' = me" "n' = expected" "ag' = ag" "w' = W k" by blast
      then have "f E me epoch' expected ag (W (Suc k)) = Some r"
        using 1(2) assms by (simp add: delivers_def)
      from 1(1) [OF this] show False by blast
    qed
  qed
  then show False by blast
qed

section \<open>The worker on the chain\<close>

text \<open>
  The worker against the chain of \<open>Training_Chain\<close> (its operations, one after the other), a
  backend given by two pure functions, and an inbox of messages; a receive from an empty inbox
  times out.  Other tasks do nothing meanwhile.
\<close>

definition on_chain ::
  "(mock_state \<Rightarrow> chain_error + mock_state) \<Rightarrow> mock_state \<times> worker_message list
    \<Rightarrow> (chain_error + unit) \<times> (mock_state \<times> worker_message list)" where
  "on_chain f w = (case f (fst w) of Inl e \<Rightarrow> (Inl e, w) | Inr st \<Rightarrow> (Inr (), (st, snd w)))"

definition mock_env ::
  "bool \<Rightarrow> (b256 \<Rightarrow> u32 \<Rightarrow> u32 \<Rightarrow> u32 \<Rightarrow> 'g \<times> b256) \<Rightarrow> ('g \<Rightarrow> b256)
    \<Rightarrow> (mock_state \<times> worker_message list, 'g) worker_env" where
  "mock_env live F G =
     \<lparr>we_is_live_settlement = live, we_honors_job_spec = False,
      we_snapshot = (\<lambda>i w. (chain_snapshot i (fst w), w)),
      we_commit_epoch = (\<lambda>i s e r. on_chain (commit_epoch i s e r)),
      we_advance_blocks = (\<lambda>n w. (advance_blocks n (fst w), snd w)),
      we_finalize = (\<lambda>i. on_chain (finalize i)),
      we_load_starting_weights = (\<lambda>h w. (Inr h, w)),
      we_forward_backward = (\<lambda>p e s sh w. (Inr (F p e s sh), w)),
      we_step_commitment = G,
      we_set_epoch = (\<lambda>e w. w),
      we_broadcast = (\<lambda>m w. (Inr (), w)),
      we_recv_until = (\<lambda>me d w. case snd w of [] \<Rightarrow> (Elapsed, w) | m # ms \<Rightarrow> (Delivered m, (fst w, ms))),
      we_now = (\<lambda>w. 0), we_sleep = (\<lambda>d w. w)\<rparr>"

lemma mock_env_simps [simp]:
  "we_is_live_settlement (mock_env live F G) = live"
  "we_honors_job_spec (mock_env live F G) = False"
  "we_snapshot (mock_env live F G) i w = (chain_snapshot i (fst w), w)"
  "we_commit_epoch (mock_env live F G) i s e r = on_chain (commit_epoch i s e r)"
  "we_advance_blocks (mock_env live F G) n w = (advance_blocks n (fst w), snd w)"
  "we_finalize (mock_env live F G) i = on_chain (finalize i)"
  "we_load_starting_weights (mock_env live F G) h w = (Inr h, w)"
  "we_forward_backward (mock_env live F G) p e stp sh w = (Inr (F p e stp sh), w)"
  "we_step_commitment (mock_env live F G) = G"
  "we_set_epoch (mock_env live F G) e w = w"
  "we_broadcast (mock_env live F G) m w = (Inr (), w)"
  "we_recv_until (mock_env live F G) me d w =
     (case snd w of [] \<Rightarrow> (Elapsed, w) | m # ms \<Rightarrow> (Delivered m, (fst w, ms)))"
  by (simp_all add: mock_env_def)

lemma drain_inbox:
  "acceptable ag cs \<Longrightarrow> aggregator_len ag + length cs = n \<Longrightarrow>
   \<exists>ag'. drain_commits (mock_env live F G) me epoch n ag (st, map StepCommitted cs @ rest)
      = Some (Inr ag', (st, rest)) \<and> ag_accepted ag' = ag_accepted ag @ cs"
proof (induction cs arbitrary: ag)
  case Nil
  then show ?case by (subst drain_commits.simps) simp
next
  case (Cons c cs)
  note acc = accept_Cons [OF Cons.prems(1)]
  have "aggregator_len (snd (try_accept c ag)) + length cs = n"
    using Cons.prems(2) by (simp add: acc(1) aggregator_len_def)
  from Cons.IH [OF acc(2) this] Cons.prems(2) show ?case
    by (subst drain_commits.simps) (auto simp: offer_def acc(1))
qed

text \<open>The gate bounds no step: commits of one member for any distinct steps, in range or not,
  complete the epoch if they arrive first, so that the root the coordinator commits covers the
  coordinator and that one member only.\<close>

theorem one_member_fills_the_epoch:
  assumes "member \<in> set members" and "member \<noteq> me" and "distinct steps"
    and "acceptable (aggregator_new epoch members) mine" and "sc_worker ` set mine \<subseteq> {me}"
    and "length mine + length steps = length members * steps_per_epoch"
  shows "\<exists>ag. drain_commits (mock_env live F G) me epoch (length members * steps_per_epoch)
       (fold (\<lambda>c ag. snd (try_accept c ag)) mine (aggregator_new epoch members))
       (st, map (\<lambda>s. StepCommitted \<lparr>sc_epoch = epoch, sc_step = s, sc_worker = member,
                   sc_commitment = junk s, sc_prev_weights = 0\<rparr>) steps @ honest)
     = Some (Inr ag, (st, honest))
     \<and> into_commits ag = mine @ map (\<lambda>s. \<lparr>sc_epoch = epoch, sc_step = s, sc_worker = member,
                   sc_commitment = junk s, sc_prev_weights = 0\<rparr>) steps"
proof -
  let ?forge = "\<lambda>s. \<lparr>sc_epoch = epoch, sc_step = s, sc_worker = member,
                   sc_commitment = junk s, sc_prev_weights = 0\<rparr>"
  let ?ag = "fold (\<lambda>c ag. snd (try_accept c ag)) mine (aggregator_new epoch members)"
  note filled = fold_accept [OF assms(4)]
  have acc: "ag_accepted ?ag = mine" "ag_seen ?ag = pair_of ` set mine"
    using filled by (simp_all add: aggregator_new_def)
  have "acceptable ?ag (map ?forge steps)"
    using assms(1-3,5) unfolding acceptable_def acc fold_accept_ok(2,3)
    by (auto simp: aggregator_new_def pair_of_def distinct_map inj_on_def)
  moreover have "aggregator_len ?ag + length (map ?forge steps) = length members * steps_per_epoch"
    using assms(6) by (simp add: aggregator_len_def acc)
  ultimately obtain ag where "drain_commits (mock_env live F G) me epoch (length members * steps_per_epoch) ?ag
      (st, map StepCommitted (map ?forge steps) @ honest) = Some (Inr ag, (st, honest))"
    and "ag_accepted ag = ag_accepted ?ag @ map ?forge steps"
    using drain_inbox by blast
  then show ?thesis by (intro exI [of _ ag]) (simp add: acc into_commits_def comp_def)
qed

lemma one_member_fills_the_epoch_witness:
  "\<exists>ag. drain_commits (mock_env False (\<lambda>p e s sh. ((), p)) (\<lambda>_. 1)) 7 0 (length [7, 8, 9 :: address] * 1)
       (fold (\<lambda>c ag. snd (try_accept c ag)) [example_commit] (aggregator_new 0 [7, 8, 9]))
       (empty_mock_state, map (\<lambda>s. StepCommitted \<lparr>sc_epoch = 0, sc_step = s, sc_worker = 8,
           sc_commitment = 0, sc_prev_weights = 0\<rparr>) [1000, 2000] @ [])
     = Some (Inr ag, (empty_mock_state, []))
     \<and> into_commits ag = [example_commit] @ map (\<lambda>s. \<lparr>sc_epoch = 0, sc_step = s, sc_worker = 8,
           sc_commitment = 0, sc_prev_weights = 0\<rparr>) [1000, 2000]"
  by (rule one_member_fills_the_epoch)
    (simp_all add: acceptable_def aggregator_new_def example_commit_def)

lemma flooded_coordinator_never_returns_witness:
  "drain_commits ((mock_env False (\<lambda>p e s sh. ((), p)) (\<lambda>_. 1))
      \<lparr>we_recv_until := \<lambda>me d w. (Delivered (EpochClose 0), w)\<rparr>) 7 0 2 (aggregator_new 0 [7, 8])
      (empty_mock_state, []) = None"
  by (rule flooded_coordinator_never_returns [where W = "\<lambda>_. (empty_mock_state, [])"
        and M = "\<lambda>_. EpochClose 0" and k = 0])
    (simp_all add: delivers_def aggregator_len_def aggregator_new_def offer_def)

section \<open>A whole job\<close>

text \<open>The commits the coordinator itself makes, epoch by epoch.\<close>

fun own_steps ::
  "(b256 \<Rightarrow> u32 \<Rightarrow> u32 \<Rightarrow> u32 \<Rightarrow> 'g \<times> b256) \<Rightarrow> ('g \<Rightarrow> b256) \<Rightarrow> worker_config \<Rightarrow> u32 \<Rightarrow> u32 list \<Rightarrow> b256
    \<Rightarrow> b256 \<times> step_commit list" where
  "own_steps F G C epoch [] p = (p, [])"
| "own_steps F G C epoch (stp # steps) p =
     (let (g, p1) = F p epoch stp (wc_shard_index C); (p2, cs) = own_steps F G C epoch steps p1
      in (p2, \<lparr>sc_epoch = epoch, sc_step = stp, sc_worker = wc_self_address C,
               sc_commitment = G g, sc_prev_weights = p\<rparr> # cs))"

fun own_epochs ::
  "(b256 \<Rightarrow> u32 \<Rightarrow> u32 \<Rightarrow> u32 \<Rightarrow> 'g \<times> b256) \<Rightarrow> ('g \<Rightarrow> b256) \<Rightarrow> worker_config \<Rightarrow> u32 \<Rightarrow> u32 list \<Rightarrow> b256
    \<Rightarrow> step_commit list list" where
  "own_epochs F G C S [] p = []"
| "own_epochs F G C S (e # es) p =
     (let (p1, cs) = own_steps F G C e (u32_range S) p in cs # own_epochs F G C S es p1)"

lemma run_steps_mock:
  "run_steps (mock_env live F G) C e ss p mine w
   = Some (Inr (fst (own_steps F G C e ss p), mine @ snd (own_steps F G C e ss p)), w)"
  by (induction ss arbitrary: p mine) (auto simp: try_op_def Let_def split: prod.splits)

lemma own_steps_Cons:
  "fst (own_steps F G C e (s # ss) p) = fst (own_steps F G C e ss (snd (F p e s (wc_shard_index C))))"
  "snd (own_steps F G C e (s # ss) p) =
     \<lparr>sc_epoch = e, sc_step = s, sc_worker = wc_self_address C,
      sc_commitment = G (fst (F p e s (wc_shard_index C))), sc_prev_weights = p\<rparr>
     # snd (own_steps F G C e ss (snd (F p e s (wc_shard_index C))))"
  by (simp_all add: Let_def split_beta)

lemma own_steps_facts:
  "map sc_step (snd (own_steps F G C e ss p)) = ss"
  "sc_epoch ` set (snd (own_steps F G C e ss p)) \<subseteq> {e}"
  "sc_worker ` set (snd (own_steps F G C e ss p)) \<subseteq> {wc_self_address C}"
  by (induction ss arbitrary: p) (simp_all add: own_steps_Cons del: own_steps.simps(2))

lemma u32_range_facts [simp]: "distinct (u32_range n)" "length (u32_range n) = unat n"
  using unsigned_less [of n, where 'a = nat]
  by (auto simp: u32_range_def distinct_map inj_on_def word_unat_eq_iff unat_of_nat_small)

text \<open>A complete inbox for one epoch: each of the other workers has sent as many commits as there
  are steps, in any order.\<close>

definition peer_commits :: "address \<Rightarrow> address list \<Rightarrow> u32 \<Rightarrow> u32 \<Rightarrow> step_commit list \<Rightarrow> bool" where
  "peer_commits me ws S e cs \<longleftrightarrow>
     sc_epoch ` set cs \<subseteq> {e} \<and> sc_worker ` set cs \<subseteq> set ws - {me} \<and> distinct (map pair_of cs)
     \<and> length cs = (length ws - 1) * unat S"

lemma close_epoch_mock:
  assumes "wc_is_coordinator C" and "wc_self_address C \<in> set (js_workers snap)"
    and "length (js_workers snap) < 2 ^ 32"
    and peers: "peer_commits (wc_self_address C) (js_workers snap) (ts_steps_per_epoch (js_spec snap)) e cs"
    and mine: "mine = snd (own_steps F G C e (u32_range (ts_steps_per_epoch (js_spec snap))) p)"
    and commit: "commit_epoch (wc_job_id C) (wc_self_address C) e (fst (compute_epoch_root K (mine @ cs))) st = Inr st'"
  shows "close_epoch K (mock_env live F G) C snap e mine (st, map StepCommitted cs @ rest)
         = Some (Inr (), (st', rest))"
proof -
  let ?ws = "js_workers snap" and ?S = "ts_steps_per_epoch (js_spec snap)"
  let ?ag = "fold (\<lambda>c ag. snd (try_accept c ag)) mine (aggregator_new e ?ws)"
  note own = own_steps_facts [where F = F and G = G and C = C and e = e and ss = "u32_range ?S" and p = p,
      folded mine]
  have "distinct (map pair_of mine)"
    using own(1) by (metis (no_types, lifting) distinct_map inj_on_def pair_of_def prod.inject u32_range_facts(1))
  then have acc0: "acceptable (aggregator_new e ?ws) mine"
    using own(2,3) assms(2) by (auto simp: acceptable_def aggregator_new_def)
  note filled = fold_accept [OF acc0]
  have acc: "ag_accepted ?ag = mine" "ag_seen ?ag = pair_of ` set mine"
    using filled by (simp_all add: aggregator_new_def)
  have "pair_of c \<notin> pair_of ` set mine" if "c \<in> set cs" for c
  proof
    assume "pair_of c \<in> pair_of ` set mine"
    then have "sc_worker c \<in> sc_worker ` set mine" by (auto simp: pair_of_def)
    then have "sc_worker c = wc_self_address C" using own(3) by blast
    moreover have "sc_worker c \<in> set ?ws - {wc_self_address C}"
      using peers that unfolding peer_commits_def by blast
    ultimately show False by simp
  qed
  then have "acceptable ?ag cs"
    using peers unfolding acceptable_def acc fold_accept_ok(2,3) peer_commits_def
    by (auto simp: aggregator_new_def)
  moreover have "length mine = unat ?S" using own(1) by (metis length_map u32_range_facts(2))
  then have "aggregator_len ?ag + length cs = length ?ws * unat ?S"
    using peers length_pos_if_in_set [OF assms(2)]
    by (cases "length ?ws") (simp_all add: aggregator_len_def acc peer_commits_def)
  ultimately obtain ag where "drain_commits (mock_env live F G) (wc_self_address C) e (length ?ws * unat ?S) ?ag
      (st, map StepCommitted cs @ rest) = Some (Inr ag, (st, rest))" and "ag_accepted ag = mine @ cs"
    using drain_inbox [of ?ag cs "length ?ws * unat ?S" live F G "wc_self_address C" e st rest]
    by (auto simp: acc)
  moreover have "unat (of_nat (length ?ws) :: u32) = length ?ws"
    using assms(3) by (intro unat_of_nat_small) simp
  ultimately show ?thesis
    using assms(1) commit
    by (simp add: close_epoch_def Let_def and_then_def try_op_def into_commits_def on_chain_def
        split_beta)
qed

lemma commit_epoch_ok:
  assumes "ms_jobs st i = Some j" and "mj_state j = Training" and "mj_coordinator j = Some me"
    and "mj_current_epoch j = e" and "mj_epoch_roots j e = None" and "r \<noteq> 0"
  shows "\<exists>st' j'. commit_epoch i me e r st = Inr st' \<and> ms_jobs st' i = Some j'
    \<and> ms_block_number st' = ms_block_number st \<and> mj_spec j' = mj_spec j \<and> mj_coordinator j' = Some me
    \<and> mj_current_epoch j' = e + 1 \<and> mj_epoch_roots j' = (mj_epoch_roots j)(e \<mapsto> r)
    \<and> mj_state j' = (if e + 1 = ts_epoch_count (mj_spec j) then Awaiting else Training)
    \<and> (e + 1 = ts_epoch_count (mj_spec j) \<longrightarrow> mj_all_epochs_committed_block j' = ms_block_number st)"
  using assms by (simp add: commit_epoch_def on_job_def Let_def)

text \<open>The epochs from \<open>k\<close> on, with the commits the peers send in each.\<close>

lemma run_epochs_mock:
  assumes C: "wc_is_coordinator C" "wc_self_address C \<in> set (js_workers snap)"
    "length (js_workers snap) < 2 ^ 32"
  shows "ms_jobs st (wc_job_id C) = Some j \<Longrightarrow> mj_spec j = js_spec snap \<Longrightarrow> mj_state j = Training \<Longrightarrow>
    mj_coordinator j = Some (wc_self_address C) \<Longrightarrow> mj_current_epoch j = of_nat k \<Longrightarrow>
    k + length M = unat (ts_epoch_count (js_spec snap)) \<Longrightarrow> M \<noteq> [] \<Longrightarrow>
    (\<And>i. k \<le> i \<Longrightarrow> i < k + length M \<Longrightarrow> mj_epoch_roots j (of_nat i) = None) \<Longrightarrow>
    (\<And>i. i < length M \<Longrightarrow> peer_commits (wc_self_address C) (js_workers snap)
           (ts_steps_per_epoch (js_spec snap)) (of_nat (k + i)) (M ! i)) \<Longrightarrow>
    own = own_epochs F G C (ts_steps_per_epoch (js_spec snap)) (map of_nat [k..<k + length M]) p \<Longrightarrow>
    (\<And>i. i < length M \<Longrightarrow> fst (compute_epoch_root K (own ! i @ M ! i)) \<noteq> 0) \<Longrightarrow>
    \<exists>st' j' p'. run_epochs K (mock_env live F G) C snap (map of_nat [k..<k + length M]) p
        (st, map StepCommitted (concat M) @ rest) = Some (Inr p', (st', rest))
      \<and> ms_jobs st' (wc_job_id C) = Some j' \<and> mj_state j' = Awaiting \<and> mj_spec j' = js_spec snap
      \<and> mj_all_epochs_committed_block j' = ms_block_number st \<and> ms_block_number st' = ms_block_number st
      \<and> mj_epoch_roots j \<subseteq>\<^sub>m mj_epoch_roots j'
      \<and> (\<forall>i < length M. mj_epoch_roots j' (of_nat (k + i)) = Some (fst (compute_epoch_root K (own ! i @ M ! i))))"
proof (induction M arbitrary: k st j p own)
  case Nil
  then show ?case by simp
next
  case (Cons cs M)
  let ?S = "ts_steps_per_epoch (js_spec snap)" and ?i = "wc_job_id C" and ?me = "wc_self_address C"
  let ?N = "ts_epoch_count (js_spec snap)"
  let ?e = "of_nat k :: u32"
  let ?mine = "snd (own_steps F G C ?e (u32_range ?S) p)" and ?p = "fst (own_steps F G C ?e (u32_range ?S) p)"
  let ?r = "fst (compute_epoch_root K (?mine @ cs))"
  let ?own = "own_epochs F G C ?S (map of_nat [Suc k..<Suc k + length M]) ?p"
  have range: "[k..<k + length (cs # M)] = k # [Suc k..<Suc k + length M]"
    by (simp add: upt_conv_Cons del: upt_Suc)
  have own: "own = ?mine # ?own"
    unfolding Cons.prems(10) range by (simp add: split_beta Let_def)
  have peers: "peer_commits ?me (js_workers snap) ?S ?e cs" using Cons.prems(9) [of 0] by simp
  have "?r \<noteq> 0" using Cons.prems(11) [of 0] by (simp add: own)
  moreover have "mj_epoch_roots j ?e = None" using Cons.prems(8) [of k] by simp
  ultimately obtain st1 j1 where commit: "commit_epoch ?i ?me ?e ?r st = Inr st1"
    and st1: "ms_jobs st1 ?i = Some j1" "ms_block_number st1 = ms_block_number st"
    and j1: "mj_spec j1 = js_spec snap" "mj_coordinator j1 = Some ?me" "mj_current_epoch j1 = ?e + 1"
      "mj_epoch_roots j1 = (mj_epoch_roots j)(?e \<mapsto> ?r)"
      "mj_state j1 = (if ?e + 1 = ?N then Awaiting else Training)"
      "?e + 1 = ?N \<longrightarrow> mj_all_epochs_committed_block j1 = ms_block_number st"
    using commit_epoch_ok [of st ?i j ?me ?e ?r] Cons.prems(1-5) by auto
  have ids: "(of_nat i :: u32) \<noteq> of_nat i'" if "i \<noteq> i'" "i \<le> unat ?N" "i' \<le> unat ?N" for i i'
    using that unsigned_less [of ?N, where 'a = nat]
    by (simp add: word_unat_eq_iff unat_of_nat_small)
  have grows: "mj_epoch_roots j \<subseteq>\<^sub>m mj_epoch_roots j1"
    using \<open>mj_epoch_roots j ?e = None\<close> by (auto simp: j1(4) map_le_def)
  have closed: "close_epoch K (mock_env live F G) C snap ?e ?mine
      (st, map StepCommitted cs @ (map StepCommitted (concat M) @ rest))
      = Some (Inr (), (st1, map StepCommitted (concat M) @ rest))"
    by (rule close_epoch_mock [OF C peers refl commit])
  have unfold: "run_epochs K (mock_env live F G) C snap (map of_nat [k..<k + length (cs # M)]) p
        (st, map StepCommitted (concat (cs # M)) @ rest)
      = run_epochs K (mock_env live F G) C snap (map of_nat [Suc k..<Suc k + length M]) ?p
        (st1, map StepCommitted (concat M) @ rest)"
    unfolding range using closed
    by (simp add: run_steps_mock and_then_def split_beta del: upt_Suc)
  have last: "?e + 1 = ?N \<longleftrightarrow> M = []"
  proof -
    have "unat (of_nat (Suc k) :: u32) = Suc k"
      using Cons.prems(6) unsigned_less [of ?N, where 'a = nat] by (intro unat_of_nat_small) simp
    then have "unat (?e + 1) = Suc k" by (simp add: add.commute)
    moreover have "Suc (k + length M) = unat ?N" using Cons.prems(6) by simp
    then have "Suc k = unat ?N \<longleftrightarrow> length M = 0" by linarith
    ultimately show ?thesis by (simp add: word_unat_eq_iff [of "?e + 1"])
  qed
  show ?case
  proof (cases "M = []")
    case True
    have "run_epochs K (mock_env live F G) C snap (map of_nat [k..<k + length (cs # M)]) p
        (st, map StepCommitted (concat (cs # M)) @ rest) = Some (Inr ?p, (st1, rest))"
      unfolding unfold using True by simp
    moreover have "mj_state j1 = Awaiting" "mj_all_epochs_committed_block j1 = ms_block_number st"
      using j1(5,6) last True by simp_all
    moreover have "own ! 0 = ?mine" by (simp add: own)
    ultimately show ?thesis using st1 j1(1,4) True grows by auto
  next
    case False
    have "\<exists>st' j' p'. run_epochs K (mock_env live F G) C snap (map of_nat [Suc k..<Suc k + length M]) ?p
        (st1, map StepCommitted (concat M) @ rest) = Some (Inr p', (st', rest))
      \<and> ms_jobs st' ?i = Some j' \<and> mj_state j' = Awaiting \<and> mj_spec j' = js_spec snap
      \<and> mj_all_epochs_committed_block j' = ms_block_number st1 \<and> ms_block_number st' = ms_block_number st1
      \<and> mj_epoch_roots j1 \<subseteq>\<^sub>m mj_epoch_roots j'
      \<and> (\<forall>i < length M. mj_epoch_roots j' (of_nat (Suc k + i)) = Some (fst (compute_epoch_root K (?own ! i @ M ! i))))"
    proof (rule Cons.IH [OF st1(1) j1(1)])
      show "mj_epoch_roots j1 (of_nat i) = None" if "Suc k \<le> i" "i < Suc k + length M" for i
        using Cons.prems(8) [of i] ids [of i k] that Cons.prems(6) by (simp add: j1(4))
      show "peer_commits ?me (js_workers snap) ?S (of_nat (Suc k + i)) (M ! i)" if "i < length M" for i
        using Cons.prems(9) [of "Suc i"] that by simp
      show "fst (compute_epoch_root K (?own ! i @ M ! i)) \<noteq> 0" if "i < length M" for i
        using Cons.prems(11) [of "Suc i"] that by (simp add: own)
    qed (use j1 last False Cons.prems(6) in \<open>simp_all add: add.commute\<close>)
    then obtain st' j' p' where ih: "run_epochs K (mock_env live F G) C snap (map of_nat [Suc k..<Suc k + length M]) ?p
        (st1, map StepCommitted (concat M) @ rest) = Some (Inr p', (st', rest))"
      and j': "ms_jobs st' ?i = Some j'" "mj_state j' = Awaiting" "mj_spec j' = js_spec snap"
        "mj_all_epochs_committed_block j' = ms_block_number st1" "ms_block_number st' = ms_block_number st1"
      and le: "mj_epoch_roots j1 \<subseteq>\<^sub>m mj_epoch_roots j'"
      and rest: "\<And>i. i < length M \<Longrightarrow> mj_epoch_roots j' (of_nat (Suc k + i))
          = Some (fst (compute_epoch_root K (?own ! i @ M ! i)))" by blast
    have "mj_epoch_roots j1 ?e = Some ?r" by (simp add: j1(4))
    with le have first: "mj_epoch_roots j' ?e = Some ?r"
      unfolding map_le_def by (metis domI)
    have all: "mj_epoch_roots j' (of_nat (k + i)) = Some (fst (compute_epoch_root K (own ! i @ (cs # M) ! i)))"
      if "i < length (cs # M)" for i
      using first rest [of "i - 1"] that by (cases i) (simp_all add: own)
    have grown: "mj_epoch_roots j \<subseteq>\<^sub>m mj_epoch_roots j'" using grows le by (rule map_le_trans)
    show ?thesis
      unfolding unfold
      by (intro exI [of _ st'] exI [of _ j'] exI [of _ p'] conjI allI impI)
        (fact ih j' [unfolded st1(2)] grown | rule all, assumption)+
  qed
qed

text \<open>C14: The run of a coordinator on the chain: if the job is in training with the worker as its
  coordinator and no epoch committed, every other worker sends its commits for each epoch, and no
  root is the zero word, then the run ends, the job is finalized and the root of every epoch is
  that of the coordinator's own commits and those of its peers.\<close>

theorem coordinator_finalizes_the_job:
  assumes job: "ms_jobs st (wc_job_id C) = Some j" "mj_state j = Training"
      "mj_coordinator j = Some (wc_self_address C)" "mj_current_epoch j = 0" "mj_epoch_roots j = Map.empty"
    and me: "wc_is_coordinator C" "wc_self_address C \<in> set (mj_workers j)"
      "length (mj_workers j) < 2 ^ 32"
    and epochs: "length M = unat (ts_epoch_count (mj_spec j))" "M \<noteq> []"
    and clock: "unat (ms_block_number st) + unat (ts_challenge_window_blocks (mj_spec j)) + 1 < 2 ^ 64"
    and peers: "\<And>e. e < length M \<Longrightarrow>
      peer_commits (wc_self_address C) (mj_workers j) (ts_steps_per_epoch (mj_spec j)) (of_nat e) (M ! e)"
    and own: "own = own_epochs F G C (ts_steps_per_epoch (mj_spec j)) (u32_range (ts_epoch_count (mj_spec j)))
      (ts_model_start_hash (mj_spec j))"
    and roots: "\<And>e. e < length M \<Longrightarrow> fst (compute_epoch_root K (own ! e @ M ! e)) \<noteq> 0"
  shows "\<exists>st' j'. worker_run K (mock_env False F G) C (st, map StepCommitted (concat M) @ rest)
      = Some (Inr WorkerFinalized, (st', rest))
    \<and> ms_jobs st' (wc_job_id C) = Some j' \<and> mj_state j' = Finalized
    \<and> (\<forall>e < length M. mj_epoch_roots j' (of_nat e) = Some (fst (compute_epoch_root K (own ! e @ M ! e))))"
proof -
  let ?snap = "\<lparr>js_spec = mj_spec j, js_state = mj_state j, js_current_epoch = mj_current_epoch j,
     js_coordinator = mj_coordinator j, js_workers = mj_workers j, js_epoch_roots = mj_epoch_roots j\<rparr>"
  let ?w = "ts_challenge_window_blocks (mj_spec j)" and ?E = "mock_env False F G"
  have range: "u32_range (ts_epoch_count (mj_spec j)) = map of_nat [0..<0 + length M]"
    by (simp add: u32_range_def epochs(1))
  have "\<exists>st1 j1 p1. run_epochs K ?E C ?snap (map of_nat [0..<0 + length M]) (ts_model_start_hash (mj_spec j))
        (st, map StepCommitted (concat M) @ rest) = Some (Inr p1, (st1, rest))
      \<and> ms_jobs st1 (wc_job_id C) = Some j1 \<and> mj_state j1 = Awaiting \<and> mj_spec j1 = js_spec ?snap
      \<and> mj_all_epochs_committed_block j1 = ms_block_number st \<and> ms_block_number st1 = ms_block_number st
      \<and> mj_epoch_roots j \<subseteq>\<^sub>m mj_epoch_roots j1
      \<and> (\<forall>i < length M. mj_epoch_roots j1 (of_nat (0 + i)) = Some (fst (compute_epoch_root K (own ! i @ M ! i))))"
    by (rule run_epochs_mock [where j = j])
      (use job me epochs peers roots in \<open>simp_all add: own range\<close>)
  then obtain st1 j1 p1 where ran: "run_epochs K ?E C ?snap (u32_range (ts_epoch_count (mj_spec j)))
        (ts_model_start_hash (mj_spec j)) (st, map StepCommitted (concat M) @ rest) = Some (Inr p1, (st1, rest))"
    and j1: "ms_jobs st1 (wc_job_id C) = Some j1" "mj_state j1 = Awaiting" "mj_spec j1 = mj_spec j"
      "mj_all_epochs_committed_block j1 = ms_block_number st" "ms_block_number st1 = ms_block_number st"
    and committed: "\<forall>e < length M. mj_epoch_roots j1 (of_nat e) = Some (fst (compute_epoch_root K (own ! e @ M ! e)))"
    unfolding range by auto
  let ?st2 = "advance_blocks (ucast ?w + 1) st1"
  have u: "unat (ucast ?w :: u64) = unat ?w"
    by (rule unat_ucast_small) (use unsigned_less [of ?w, where 'a = nat] in simp)
  have "unat (ms_block_number ?st2) = unat (ms_block_number st) + unat ?w + 1"
    using clock u by (simp add: advance_blocks_def j1(5) unat_word_ariths)
  then have "\<exists>st3. finalize (wc_job_id C) ?st2 = Inr st3"
    using finalize_gate [of ?st2 "wc_job_id C" j1] j1 clock by (simp add: advance_blocks_def)
  then obtain st3 where fin: "finalize (wc_job_id C) ?st2 = Inr st3" ..
  then have "\<exists>j3. ms_jobs st3 (wc_job_id C) = Some j3 \<and> mj_state j3 = Finalized
      \<and> mj_epoch_roots j3 = mj_epoch_roots j1"
    using j1(1) by (auto simp: finalize_def on_job_Inr Let_def advance_blocks_def split: if_splits)
  moreover have "worker_run K ?E C (st, map StepCommitted (concat M) @ rest)
      = Some (Inr WorkerFinalized, (st3, rest))"
    using ran fin me(1) job(1)
    by (simp add: worker_run_def finish_run_def try_op_def and_then_def Let_def chain_snapshot_def on_chain_def)
  ultimately show ?thesis using committed by auto
qed

definition short_spec :: training_job_spec where
  "short_spec = example_spec\<lparr>ts_steps_per_epoch := 1\<rparr>"

definition short_job :: mock_job where
  "short_job = (new_job short_spec)\<lparr>mj_state := Training, mj_coordinator := Some 7,
     mj_workers := [7, 8], mj_joined := {7, 8}\<rparr>"

lemma coordinator_finalizes_the_job_witness:
  "\<exists>st' j'. worker_run one_hash (mock_env False (\<lambda>p e s sh. ((), p)) (\<lambda>_. 5))
       \<lparr>wc_job_id = 0, wc_self_address = 7, wc_shard_index = 0, wc_is_coordinator = True\<rparr>
       (empty_mock_state\<lparr>ms_jobs := [0 \<mapsto> short_job]\<rparr>,
        map StepCommitted (concat [[example_commit\<lparr>sc_worker := 8\<rparr>]]) @ [])
     = Some (Inr WorkerFinalized, (st', [])) \<and> ms_jobs st' 0 = Some j' \<and> mj_state j' = Finalized"
proof -
  let ?C = "\<lparr>wc_job_id = 0, wc_self_address = 7, wc_shard_index = 0, wc_is_coordinator = True\<rparr>"
  let ?own = "own_epochs (\<lambda>p e s sh. ((), p)) (\<lambda>_. 5) ?C 1 (u32_range 1) 1"
  have own: "?own = [[example_commit\<lparr>sc_commitment := 5, sc_prev_weights := 1\<rparr>]]"
    by (simp add: u32_range_def Let_def example_commit_def)
  have root: "fst (compute_epoch_root one_hash (?own ! 0 @ [[example_commit\<lparr>sc_worker := 8\<rparr>]] ! 0)) \<noteq> 0"
    unfolding own
    by (simp add: compute_epoch_root_def sort_commits_def example_commit_def reduce_all.simps
        hash_pair_def one_hash_def Let_def)
  show ?thesis
    using coordinator_finalizes_the_job [where C = ?C and st = "empty_mock_state\<lparr>ms_jobs := [0 \<mapsto> short_job]\<rparr>"
        and j = short_job and M = "[[example_commit\<lparr>sc_worker := 8\<rparr>]]" and own = ?own and K = one_hash
        and F = "\<lambda>p e s sh. ((), p)" and G = "\<lambda>_. 5" and rest = "[]"] root
    by (auto simp: short_job_def short_spec_def new_job_def example_spec_def empty_mock_state_def
        peer_commits_def example_commit_def simp del: own_epochs.simps)
qed

lemma mock_receives: "receives (mock_env live F G) me w ms w1 \<Longrightarrow> \<exists>rest. snd w = ms @ rest \<and> w1 = (fst w, rest)"
proof (induction rule: receives.induct)
  case (none w)
  then show ?case by (cases w) simp
next
  case (another w m w1 ms w2)
  then show ?case by (auto split: list.splits)
qed

text \<open>The coordinator 7 with its own commit and one delivered by 8: both are under the root.\<close>

lemma committed_root_is_authentic_witness:
  "\<exists>st' own peer. close_epoch one_hash (mock_env False (\<lambda>p e s sh. ((), p)) (\<lambda>_. 5))
       \<lparr>wc_job_id = 0, wc_self_address = 7, wc_shard_index = 0, wc_is_coordinator = True\<rparr>
       \<lparr>js_spec = short_spec, js_state = Training, js_current_epoch = 0, js_coordinator = Some 7,
          js_workers = [7, 8], js_epoch_roots = Map.empty\<rparr> 0 [own]
       (empty_mock_state\<lparr>ms_jobs := [0 \<mapsto> short_job]\<rparr>, [StepCommitted peer]) = Some (Inr (), st') \<and>
     sc_worker own = 7 \<and> sc_worker peer = 8 \<and>
     on_chain (commit_epoch 0 7 0 (fst (compute_epoch_root one_hash [own, peer])))
       (empty_mock_state\<lparr>ms_jobs := [0 \<mapsto> short_job]\<rparr>, []) = (Inr (), st')"
proof -
  let ?C = "\<lparr>wc_job_id = 0, wc_self_address = 7, wc_shard_index = 0, wc_is_coordinator = True\<rparr>"
  let ?snap = "\<lparr>js_spec = short_spec, js_state = Training, js_current_epoch = 0, js_coordinator = Some 7,
     js_workers = [7, 8], js_epoch_roots = Map.empty\<rparr>"
  let ?st = "empty_mock_state\<lparr>ms_jobs := [0 \<mapsto> short_job]\<rparr>"
  let ?E = "mock_env False (\<lambda>p e s sh. ((), p)) (\<lambda>_. 5)"
  define own peer where "own = example_commit\<lparr>sc_commitment := 5, sc_prev_weights := 1\<rparr>"
    and "peer = example_commit\<lparr>sc_worker := 8\<rparr>"
  note e = own_def peer_def example_commit_def
  have "fst (compute_epoch_root one_hash ([own] @ [peer])) \<noteq> 0"
    by (simp add: compute_epoch_root_def sort_commits_def e reduce_all.simps hash_pair_def one_hash_def Let_def)
  then obtain st' where "commit_epoch 0 7 0 (fst (compute_epoch_root one_hash ([own] @ [peer]))) ?st = Inr st'"
    using commit_epoch_ok [of ?st 0 short_job 7 0] by (auto simp: short_job_def new_job_def)
  moreover have own: "snd (own_steps (\<lambda>p e s sh. ((), p)) (\<lambda>_. 5) ?C 0
      (u32_range (ts_steps_per_epoch (js_spec ?snap))) 1) = [own]"
    by (simp add: u32_range_def Let_def e short_spec_def)
  ultimately have close: "close_epoch one_hash ?E ?C ?snap 0 [own] (?st, map StepCommitted [peer] @ []) =
      Some (Inr (), (st', []))"
    unfolding own [symmetric] by (intro close_epoch_mock [OF _ _ _ _ refl]) (simp_all add: peer_commits_def e short_spec_def)
  have prem: "wc_is_coordinator ?C" "distinct (js_workers ?snap)" "length (js_workers ?snap) < 2 ^ 32" by simp_all
  obtain ms w1 cs expected where ms: "receives ?E (wc_self_address ?C) (?st, map StepCommitted [peer] @ []) ms w1"
    and cs: "cs = gated 0 (set (js_workers ?snap)) {} ([own] @ commits_in ms)"
    and root: "we_commit_epoch ?E (wc_job_id ?C) (wc_self_address ?C) 0 (fst (compute_epoch_root one_hash cs)) w1 =
        (Inr (), (st', []))"
    and count: "expected = length (js_workers ?snap) * unat (ts_steps_per_epoch (js_spec ?snap))" "expected \<le> length cs"
    using committed_root_is_authentic [OF close prem] by (elim exE conjE)
  from mock_receives [OF ms] obtain rest where rest: "[StepCommitted peer] = ms @ rest" "w1 = (?st, rest)" by auto
  have "2 \<le> length cs" using count by (simp add: short_spec_def)
  then have "ms \<noteq> []" unfolding cs by (auto simp: commits_in_def e)
  with rest(1) have split: "ms = [StepCommitted peer]" "rest = []" by (auto simp: Cons_eq_append_conv)
  then have "cs = [own, peer]" unfolding cs by (simp add: commits_in_def e)
  with root rest(2) split(2) close show ?thesis
    by (intro exI [of _ "(st', [])"] exI [of _ own] exI [of _ peer]) (simp add: own_def peer_def example_commit_def)
qed

end
