(* ===== verification/Pipeline.thy ===== *)
theory Pipeline
  imports Worker_Transport
begin

text \<open>
  Pipeline-parallel inference, \<^verbatim>\<open>training-worker/src/pipeline.rs\<close>: the role of a stage, the
  in-memory chain that tracks a request through its stages, and the worker that serves one stage.

  The chain's operations run under one lock; an operation that panics (an assertion, a division
  by a stage count of zero) is \<open>None\<close>.  The worker is generic in its transport and chain: their
  operations are the fields of \<open>pipeline_env\<close> over a type \<open>'w\<close> of worlds.  Each is given the
  deadline of the enclosing timeout, if there is one, and answers \<open>None\<close> when the deadline
  passed while it waited: the future that called it is then dropped.  The receive loop may not
  end and is a partial function.
\<close>

section \<open>Roles\<close>

record pipeline_job_spec =
  ps_stage_count :: u32
  ps_payment_per_request :: u128
  ps_stake_per_stage :: u128
  ps_model_hash :: b256

record stage_role =
  sr_job_id :: u64
  sr_stage_index :: u32
  sr_self_address :: address
  sr_total_stages :: u32

definition is_first_stage :: "stage_role \<Rightarrow> bool" where
  "is_first_stage role \<longleftrightarrow> sr_stage_index role = 0"

definition is_last_stage :: "stage_role \<Rightarrow> bool" where
  "is_last_stage role \<longleftrightarrow> sr_stage_index role + 1 = sr_total_stages role"

definition next_stage :: "stage_role \<Rightarrow> u32 option" where
  "next_stage role = (if is_last_stage role then None else Some (sr_stage_index role + 1))"

section \<open>The chain\<close>

datatype pipeline_request_state = InFlight | Completed | Failed

datatype pipeline_chain_error =
    UnknownPipelineJob u64
  | UnknownRequest u64
  | PipelineWrongState string
  | NotStageOwner u32
  | StageUnowned u32

record pipeline_request_snapshot =
  pq_request_id :: u64
  pq_job_id :: u64
  pq_requester :: address
  pq_progress :: u32
  pq_state :: pipeline_request_state

record mock_pipeline_job =
  pj_spec :: pipeline_job_spec
  pj_stage_owners :: "u32 \<Rightarrow> address option"

record mock_pipeline_request =
  pr_job_id :: u64
  pr_requester :: address
  pr_progress :: u32
  pr_state :: pipeline_request_state
  pr_payment_earned :: "address \<Rightarrow> u128 option"

record mock_pipeline_state =
  pp_jobs :: "u64 \<Rightarrow> mock_pipeline_job option"
  pp_requests :: "u64 \<Rightarrow> mock_pipeline_request option"
  pp_next_job_id :: u64
  pp_next_request_id :: u64

definition new_pipeline :: mock_pipeline_state where
  "new_pipeline = \<lparr>pp_jobs = Map.empty, pp_requests = Map.empty, pp_next_job_id = 0,
     pp_next_request_id = 0\<rparr>"

definition create_active_job ::
  "pipeline_job_spec \<Rightarrow> address list \<Rightarrow> mock_pipeline_state \<Rightarrow> (u64 \<times> mock_pipeline_state) option" where
  "create_active_job spec owners st =
     (if of_nat (length owners) \<noteq> ps_stage_count spec then None
      else
        let i = pp_next_job_id st;
            owner_map = map_of (map (\<lambda>(n, w). (of_nat n, w)) (rev (enumerate 0 owners)))
        in Some (i, st\<lparr>pp_next_job_id := i + 1,
                       pp_jobs := (pp_jobs st)(i \<mapsto> \<lparr>pj_spec = spec, pj_stage_owners = owner_map\<rparr>)\<rparr>))"

definition submit_request ::
  "u64 \<Rightarrow> address \<Rightarrow> mock_pipeline_state \<Rightarrow> pipeline_chain_error + u64 \<times> mock_pipeline_state" where
  "submit_request job_id requester st =
     (if pp_jobs st job_id = None then Inl (UnknownPipelineJob job_id)
      else
        let i = pp_next_request_id st
        in Inr (i, st\<lparr>pp_next_request_id := i + 1,
             pp_requests := (pp_requests st)(i \<mapsto>
               \<lparr>pr_job_id = job_id, pr_requester = requester, pr_progress = 0, pr_state = InFlight,
                pr_payment_earned = Map.empty\<rparr>)\<rparr>))"

definition payment_of :: "(address \<Rightarrow> u128 option) \<Rightarrow> address \<Rightarrow> u128" where
  "payment_of m w = (case m w of None \<Rightarrow> 0 | Some v \<Rightarrow> v)"

definition payment_earned :: "u64 \<Rightarrow> address \<Rightarrow> mock_pipeline_state \<Rightarrow> u128" where
  "payment_earned request_id worker st =
     (case pp_requests st request_id of None \<Rightarrow> 0 | Some r \<Rightarrow> payment_of (pr_payment_earned r) worker)"

definition fault_stage :: "u64 \<Rightarrow> u32 \<Rightarrow> mock_pipeline_state \<Rightarrow> mock_pipeline_state" where
  "fault_stage job_id stage st =
     (case pp_jobs st job_id of
        None \<Rightarrow> st
      | Some job \<Rightarrow> st\<lparr>pp_jobs := (pp_jobs st)(job_id \<mapsto>
          job\<lparr>pj_stage_owners := (pj_stage_owners job)(stage := None)\<rparr>)\<rparr>)"

definition reassign_stage :: "u64 \<Rightarrow> u32 \<Rightarrow> address \<Rightarrow> mock_pipeline_state \<Rightarrow> mock_pipeline_state" where
  "reassign_stage job_id stage new_owner st =
     (case pp_jobs st job_id of
        None \<Rightarrow> st
      | Some job \<Rightarrow> st\<lparr>pp_jobs := (pp_jobs st)(job_id \<mapsto>
          job\<lparr>pj_stage_owners := (pj_stage_owners job)(stage \<mapsto> new_owner)\<rparr>)\<rparr>)"

definition request_snapshot ::
  "u64 \<Rightarrow> mock_pipeline_state \<Rightarrow> pipeline_chain_error + pipeline_request_snapshot" where
  "request_snapshot request_id st =
     (case pp_requests st request_id of
        None \<Rightarrow> Inl (UnknownRequest request_id)
      | Some r \<Rightarrow> Inr \<lparr>pq_request_id = request_id, pq_job_id = pr_job_id r,
          pq_requester = pr_requester r, pq_progress = pr_progress r, pq_state = pr_state r\<rparr>)"

definition stage_owner :: "u64 \<Rightarrow> u32 \<Rightarrow> mock_pipeline_state \<Rightarrow> pipeline_chain_error + address option" where
  "stage_owner job_id stage st =
     (case pp_jobs st job_id of
        None \<Rightarrow> Inl (UnknownPipelineJob job_id)
      | Some job \<Rightarrow> Inr (pj_stage_owners job stage))"

definition advance_request ::
  "u64 \<Rightarrow> address \<Rightarrow> mock_pipeline_state
    \<Rightarrow> (pipeline_chain_error + pipeline_request_state \<times> mock_pipeline_state) option" where
  "advance_request request_id caller st =
     (case pp_requests st request_id of
        None \<Rightarrow> Some (Inl (UnknownRequest request_id))
      | Some req \<Rightarrow>
          if pr_state req \<noteq> InFlight then Some (Inl (PipelineWrongState ''not in-flight''))
          else (case pp_jobs st (pr_job_id req) of
              None \<Rightarrow> Some (Inl (UnknownPipelineJob (pr_job_id req)))
            | Some job \<Rightarrow>
                (case pj_stage_owners job (pr_progress req) of
                   None \<Rightarrow> Some (Inl (StageUnowned (pr_progress req)))
                 | Some owner \<Rightarrow>
                     if owner \<noteq> caller then Some (Inl (NotStageOwner (pr_progress req)))
                     else if ps_stage_count (pj_spec job) = 0 then None
                     else
                       let stage_share = ps_payment_per_request (pj_spec job)
                                         div ucast (ps_stage_count (pj_spec job));
                           earned = pr_payment_earned req;
                           req1 = req\<lparr>pr_payment_earned := earned(caller \<mapsto> payment_of earned caller + stage_share),
                                      pr_progress := pr_progress req + 1\<rparr>;
                           req2 = (if pr_progress req1 = ps_stage_count (pj_spec job)
                                   then req1\<lparr>pr_state := Completed\<rparr> else req1)
                       in Some (Inr (pr_state req2,
                            st\<lparr>pp_requests := (pp_requests st)(request_id \<mapsto> req2)\<rparr>)))))"

section \<open>The worker of a stage\<close>

record 'w pipeline_env =
  pe_recv :: "nat option \<Rightarrow> address \<Rightarrow> 'w \<Rightarrow> worker_message option option \<times> 'w"
  pe_broadcast :: "nat option \<Rightarrow> worker_message \<Rightarrow> 'w \<Rightarrow> (string + unit) option \<times> 'w"
  pe_stage_owner :: "nat option \<Rightarrow> u64 \<Rightarrow> u32 \<Rightarrow> 'w \<Rightarrow> (pipeline_chain_error + address option) option \<times> 'w"
  pe_advance :: "nat option \<Rightarrow> u64 \<Rightarrow> address \<Rightarrow> 'w \<Rightarrow> (pipeline_chain_error + pipeline_request_state) option \<times> 'w"
  pe_snapshot :: "u64 \<Rightarrow> 'w \<Rightarrow> (pipeline_chain_error + pipeline_request_snapshot) \<times> 'w"
  pe_now :: "'w \<Rightarrow> nat"

datatype pipeline_error =
    NoFirstInput
  | PipelineTransportClosed
  | OwnerQueryFailed pipeline_chain_error
  | BroadcastFailed string
  | AdvanceFailed pipeline_chain_error
  | RequestMarkedFailed u64
  | RetriesExhausted u32 u64

definition pipeline_stage_forward :: "(bytes \<Rightarrow> b256) \<Rightarrow> u32 \<Rightarrow> u32 \<Rightarrow> bytes \<Rightarrow> bytes" where
  "pipeline_stage_forward K stage_index total_stages input =
     to_be_bytes (K (to_be_bytes stage_index @ input))"

text \<open>An awaited operation: its value, its error under the question mark, or the end of the
  attempt when the timeout fires.\<close>

definition await_op ::
  "('e \<Rightarrow> pipeline_error) \<Rightarrow> ('e + 'a) option \<times> 'w
    \<Rightarrow> ('a \<Rightarrow> 'w \<Rightarrow> ((pipeline_error + 'b) option \<times> 'w) option)
    \<Rightarrow> ((pipeline_error + 'b) option \<times> 'w) option" where
  "await_op wrap r k =
     (case r of
        (None, w) \<Rightarrow> Some (None, w)
      | (Some (Inl e), w) \<Rightarrow> Some (Some (Inl (wrap e)), w)
      | (Some (Inr a), w) \<Rightarrow> k a w)"

text \<open>The loop that waits for the activation of the upstream stage.\<close>

partial_function (option) recv_activation ::
  "'w pipeline_env \<Rightarrow> stage_role \<Rightarrow> nat option \<Rightarrow> u64 \<Rightarrow> 'w
    \<Rightarrow> ((pipeline_error + bytes) option \<times> 'w) option" where
  "recv_activation E role deadline request_id w =
     (let upstream_stage = sr_stage_index role - 1;
          (r, w1) = pe_recv E deadline (sr_self_address role) w
      in (case r of
            None \<Rightarrow> Some (None, w1)
          | Some None \<Rightarrow> Some (Some (Inl PipelineTransportClosed), w1)
          | Some (Some msg) \<Rightarrow>
              (case msg of
                 PipelineActivation rid from_stage to_stage from_worker payload \<Rightarrow>
                   if rid \<noteq> request_id \<or> to_stage \<noteq> sr_stage_index role
                   then recv_activation E role deadline request_id w1
                   else if from_stage \<noteq> upstream_stage
                   then recv_activation E role deadline request_id w1
                   else
                     (let (owner, w2) = pe_stage_owner E deadline (sr_job_id role) from_stage w1
                      in (case owner of
                            None \<Rightarrow> Some (None, w2)
                          | Some (Inl e) \<Rightarrow> Some (Some (Inl (OwnerQueryFailed e)), w2)
                          | Some (Inr own) \<Rightarrow>
                              if own \<noteq> Some from_worker
                              then recv_activation E role deadline request_id w2
                              else Some (Some (Inr payload), w2)))
               | _ \<Rightarrow> recv_activation E role deadline request_id w1)))"

text \<open>Running the stage, forwarding the output, and claiming the share on the chain.\<close>

definition claim_stage ::
  "'w pipeline_env \<Rightarrow> stage_role \<Rightarrow> nat option \<Rightarrow> u64 \<Rightarrow> bytes option \<Rightarrow> 'w
    \<Rightarrow> ((pipeline_error + bytes option) option \<times> 'w) option" where
  "claim_stage E role deadline request_id final_output w =
     await_op AdvanceFailed (pe_advance E deadline request_id (sr_self_address role) w)
       (\<lambda>_ w1. Some (Some (Inr final_output), w1))"

definition serve_input ::
  "(bytes \<Rightarrow> b256) \<Rightarrow> 'w pipeline_env \<Rightarrow> stage_role \<Rightarrow> nat option \<Rightarrow> u64 \<Rightarrow> bytes \<Rightarrow> 'w
    \<Rightarrow> ((pipeline_error + bytes option) option \<times> 'w) option" where
  "serve_input K E role deadline request_id incoming w =
     (let result = pipeline_stage_forward K (sr_stage_index role) (sr_total_stages role) incoming
      in (case next_stage role of
            Some nxt \<Rightarrow>
              await_op BroadcastFailed
                (pe_broadcast E deadline
                   (PipelineActivation request_id (sr_stage_index role) nxt (sr_self_address role) result) w)
                (\<lambda>_ w1. claim_stage E role deadline request_id None w1)
          | None \<Rightarrow> claim_stage E role deadline request_id (Some result) w))"

definition serve_request ::
  "(bytes \<Rightarrow> b256) \<Rightarrow> 'w pipeline_env \<Rightarrow> stage_role \<Rightarrow> nat option \<Rightarrow> u64 \<Rightarrow> bytes option \<Rightarrow> 'w
    \<Rightarrow> ((pipeline_error + bytes option) option \<times> 'w) option" where
  "serve_request K E role deadline request_id first_stage_input w =
     (if is_first_stage role then
        (case first_stage_input of
           None \<Rightarrow> Some (Some (Inl NoFirstInput), w)
         | Some incoming \<Rightarrow> serve_input K E role deadline request_id incoming w)
      else
        (case recv_activation E role deadline request_id w of
           None \<Rightarrow> None
         | Some (None, w1) \<Rightarrow> Some (None, w1)
         | Some (Some (Inl e), w1) \<Rightarrow> Some (Some (Inl e), w1)
         | Some (Some (Inr incoming), w1) \<Rightarrow> serve_input K E role deadline request_id incoming w1))"

lemma retry_measure:
  fixes r m :: u32
  assumes "r + 1 < m"
  shows "unat m - unat (2 + r) < unat m - unat (r + 1)"
proof -
  have "2 + r = (r + 1) + 1" by simp
  then have "unat (2 + r) = unat (r + 1) + 1" using unat_inc_below [OF assms] by simp
  with assms show ?thesis by (simp add: word_less_nat_alt)
qed

text \<open>The retry loop around attempts of at most \<open>recv_timeout\<close>.\<close>

function serve_retries ::
  "(bytes \<Rightarrow> b256) \<Rightarrow> 'w pipeline_env \<Rightarrow> stage_role \<Rightarrow> u64 \<Rightarrow> nat \<Rightarrow> u32 \<Rightarrow> u32 \<Rightarrow> 'w
    \<Rightarrow> ((pipeline_error + bytes option) \<times> 'w) option" where
  "serve_retries K E role request_id recv_timeout max_fault_retries retries w =
     (case serve_request K E role (Some (pe_now E w + recv_timeout)) request_id None w of
        None \<Rightarrow> None
      | Some (Some r, w1) \<Rightarrow> Some (r, w1)
      | Some (None, w1) \<Rightarrow>
          (case pe_stage_owner E None (sr_job_id role) (sr_stage_index role - 1) w1 of
             (None, w2) \<Rightarrow> None
           | (Some (Inl e), w2) \<Rightarrow> Some (Inl (OwnerQueryFailed e), w2)
           | (Some (Inr upstream_owner), w2) \<Rightarrow>
               if max_fault_retries \<le> retries + 1 then
                 (case pe_snapshot E request_id w2 of
                    (Inr snap, w3) \<Rightarrow>
                      if pq_state snap = Failed then Some (Inl (RequestMarkedFailed request_id), w3)
                      else Some (Inl (RetriesExhausted max_fault_retries request_id), w3)
                  | (Inl e, w3) \<Rightarrow> Some (Inl (RetriesExhausted max_fault_retries request_id), w3))
               else serve_retries K E role request_id recv_timeout max_fault_retries (retries + 1) w2))"
  by pat_completeness auto
termination
  by (relation "measure (\<lambda>(K, E, role, request_id, recv_timeout, m, retries, w). unat m - unat (retries + 1))")
    (auto simp: not_le intro: retry_measure)

declare serve_retries.simps [simp del]

definition serve_request_resilient ::
  "(bytes \<Rightarrow> b256) \<Rightarrow> 'w pipeline_env \<Rightarrow> stage_role \<Rightarrow> u64 \<Rightarrow> bytes option \<Rightarrow> nat \<Rightarrow> u32 \<Rightarrow> 'w
    \<Rightarrow> ((pipeline_error + bytes option) option \<times> 'w) option" where
  "serve_request_resilient K E role request_id first_stage_input recv_timeout max_fault_retries w =
     (if is_first_stage role then serve_request K E role None request_id first_stage_input w
      else map_option (\<lambda>(r, w'). (Some r, w'))
             (serve_retries K E role request_id recv_timeout max_fault_retries 0 w))"

end
