(* ===== verification/Pipeline_Theorems.thy ===== *)
theory Pipeline_Theorems
  imports Pipeline
begin

text \<open>
  What holds of \<open>Pipeline\<close>: the payments of a request in every reachable state of the chain, the
  origin of the activation a stage works on in any environment, the run of a whole pipeline, and
  the window between forwarding an output and advancing the request.
\<close>

section \<open>Payments\<close>

text \<open>A job id is used once: the counter does not come round to it.\<close>

inductive pipeline_step :: "mock_pipeline_state \<Rightarrow> mock_pipeline_state \<Rightarrow> bool" where
  job_created: "create_active_job spec owners st = Some (i, st') \<Longrightarrow> pp_jobs st (pp_next_job_id st) = None
    \<Longrightarrow> pipeline_step st st'"
| submitted: "submit_request i requester st = Inr (r, st') \<Longrightarrow> pipeline_step st st'"
| faulted: "pipeline_step st (fault_stage i s st)"
| stage_reassigned: "pipeline_step st (reassign_stage i s w st)"
| advanced: "advance_request r w st = Some (Inr (s, st')) \<Longrightarrow> pipeline_step st st'"

inductive pipeline_reachable :: "mock_pipeline_state \<Rightarrow> bool" where
  fresh: "pipeline_reachable new_pipeline"
| further: "pipeline_reachable st \<Longrightarrow> pipeline_step st st' \<Longrightarrow> pipeline_reachable st'"

definition total_paid :: "(address \<Rightarrow> u128 option) \<Rightarrow> nat" where
  "total_paid m = (\<Sum>w \<in> dom m. unat (payment_of m w))"

definition share_of :: "pipeline_job_spec \<Rightarrow> u128" where
  "share_of spec = ps_payment_per_request spec div ucast (ps_stage_count spec)"

definition request_ok :: "pipeline_job_spec \<Rightarrow> mock_pipeline_request \<Rightarrow> bool" where
  "request_ok spec r \<longleftrightarrow>
     pr_progress r \<le> ps_stage_count spec \<and> pr_state r \<noteq> Failed \<and> finite (dom (pr_payment_earned r))
     \<and> (pr_state r = Completed \<longleftrightarrow> pr_progress r = ps_stage_count spec \<and> ps_stage_count spec \<noteq> 0)
     \<and> total_paid (pr_payment_earned r) = unat (pr_progress r) * unat (share_of spec)"

definition requests_ok :: "mock_pipeline_state \<Rightarrow> bool" where
  "requests_ok st \<longleftrightarrow>
     (\<forall>i r. pp_requests st i = Some r \<longrightarrow>
        (\<exists>job. pp_jobs st (pr_job_id r) = Some job \<and> request_ok (pj_spec job) r))"

lemma shares_within_payment: "n * unat (share_of spec) \<le> unat (ps_payment_per_request spec)"
  if "n \<le> unat (ps_stage_count spec)" for n
proof -
  let ?n = "ps_stage_count spec" and ?p = "ps_payment_per_request spec"
  have "unat (ucast ?n :: u128) = unat ?n"
    by (rule unat_ucast_small) (use unsigned_less [of ?n, where 'a = nat] in simp)
  then have "unat (share_of spec) = unat ?p div unat ?n"
    by (simp add: share_of_def unat_div)
  then have "unat ?n * unat (share_of spec) \<le> unat ?p" by simp
  with that show ?thesis using le_trans mult_le_mono1 by blast
qed

lemma total_paid_ge: "finite (dom m) \<Longrightarrow> unat (payment_of m w) \<le> total_paid m"
proof (cases "w \<in> dom m")
  case True
  assume "finite (dom m)"
  then show ?thesis unfolding total_paid_def using True by (intro member_le_sum) auto
qed (auto simp: payment_of_def total_paid_def split: option.splits)

lemma total_paid_add:
  assumes fin: "finite (dom m)" and small: "unat (payment_of m w) + unat x < 2 ^ 128"
  shows "total_paid (m(w \<mapsto> payment_of m w + x)) = total_paid m + unat x"
proof -
  have u: "unat (payment_of m w + x) = unat (payment_of m w) + unat x"
    using small by (simp add: unat_word_ariths)
  have rest: "(\<Sum>v \<in> dom m - {w}. unat (payment_of (m(w \<mapsto> payment_of m w + x)) v))
      = (\<Sum>v \<in> dom m - {w}. unat (payment_of m v))"
    by (rule sum.cong) (auto simp: payment_of_def)
  have "total_paid (m(w \<mapsto> payment_of m w + x))
      = unat (payment_of m w + x) + (\<Sum>v \<in> dom m - {w}. unat (payment_of m v))"
    using fin unfolding total_paid_def rest [symmetric]
    by (simp add: sum.insert_remove payment_of_def)
  moreover have "total_paid m = unat (payment_of m w) + (\<Sum>v \<in> dom m - {w}. unat (payment_of m v))"
  proof (cases "w \<in> dom m")
    case True
    then show ?thesis unfolding total_paid_def using fin by (simp add: sum.remove)
  next
    case False
    then show ?thesis unfolding total_paid_def by (auto simp: payment_of_def split: option.splits)
  qed
  ultimately show ?thesis using u by simp
qed

lemma advance_ok:
  assumes ok: "request_ok spec req" and flight: "pr_state req = InFlight" and n: "ps_stage_count spec \<noteq> 0"
    and req1: "req1 = req\<lparr>pr_payment_earned := (pr_payment_earned req)
        (w \<mapsto> payment_of (pr_payment_earned req) w + share_of spec), pr_progress := pr_progress req + 1\<rparr>"
  shows "request_ok spec (if pr_progress req1 = ps_stage_count spec then req1\<lparr>pr_state := Completed\<rparr> else req1)"
proof -
  have less: "pr_progress req < ps_stage_count spec"
    using ok flight n by (auto simp: request_ok_def order_le_less)
  then have u: "unat (pr_progress req + 1) = unat (pr_progress req) + 1" by (rule unat_inc_below)
  have le: "pr_progress req + 1 \<le> ps_stage_count spec"
    using less u by (simp add: word_le_nat_alt word_less_nat_alt)
  have "unat (payment_of (pr_payment_earned req) w) + unat (share_of spec)
      \<le> total_paid (pr_payment_earned req) + unat (share_of spec)"
    using total_paid_ge [of "pr_payment_earned req" w] ok unfolding request_ok_def by linarith
  also have "\<dots> = unat (pr_progress req + 1) * unat (share_of spec)"
    using ok u by (simp add: request_ok_def)
  also have "\<dots> \<le> unat (ps_payment_per_request spec)"
    using le by (intro shares_within_payment) (simp add: word_le_nat_alt)
  also have "\<dots> < 2 ^ 128"
    using unsigned_less [of "ps_payment_per_request spec", where 'a = nat] by simp
  finally have small: "unat (payment_of (pr_payment_earned req) w) + unat (share_of spec) < 2 ^ 128" .
  show ?thesis
    using ok flight n le u total_paid_add [OF _ small] unfolding req1
    by (auto simp: request_ok_def)
qed

lemma pipeline_step_ok: "pipeline_step st st' \<Longrightarrow> requests_ok st \<Longrightarrow> requests_ok st'"
proof (induction rule: pipeline_step.induct)
  case (job_created spec owners st i st')
  then show ?case
    by (auto simp: create_active_job_def requests_ok_def Let_def split: if_splits) fastforce
next
  case (submitted i requester st r st')
  then show ?case
    by (auto simp: submit_request_def requests_ok_def Let_def request_ok_def total_paid_def split: if_splits)
next
  case (faulted st i s)
  then show ?case by (fastforce simp: fault_stage_def requests_ok_def split: option.splits)
next
  case (stage_reassigned st i s w)
  then show ?case by (fastforce simp: reassign_stage_def requests_ok_def split: option.splits)
next
  case (advanced r w st s st')
  from advanced.hyps obtain req job where req: "pp_requests st r = Some req"
    and job: "pp_jobs st (pr_job_id req) = Some job" and flight: "pr_state req = InFlight"
    and n: "ps_stage_count (pj_spec job) \<noteq> 0"
    by (auto simp: advance_request_def Let_def split: option.splits if_splits)
  let ?req1 = "req\<lparr>pr_payment_earned := (pr_payment_earned req)
        (w \<mapsto> payment_of (pr_payment_earned req) w + share_of (pj_spec job)), pr_progress := pr_progress req + 1\<rparr>"
  let ?req2 = "if pr_progress ?req1 = ps_stage_count (pj_spec job) then ?req1\<lparr>pr_state := Completed\<rparr> else ?req1"
  have st': "st' = st\<lparr>pp_requests := (pp_requests st)(r \<mapsto> ?req2)\<rparr>"
    using advanced.hyps req job flight n
    by (auto simp: advance_request_def Let_def share_of_def split: option.splits if_splits)
  have "request_ok (pj_spec job) req" using advanced.prems req job by (fastforce simp: requests_ok_def)
  note ok2 = advance_ok [OF this flight n refl]
  define req2 where "req2 = ?req2"
  have "request_ok (pj_spec job) req2" unfolding req2_def by (rule ok2)
  moreover have "pr_job_id req2 = pr_job_id req" by (simp add: req2_def)
  moreover have "st' = st\<lparr>pp_requests := (pp_requests st)(r \<mapsto> req2)\<rparr>"
    unfolding req2_def by (rule st')
  ultimately show ?case using advanced.prems job by (auto simp: requests_ok_def)
qed

text \<open>C37: In every reachable state a request has earned its workers exactly one share for each
  stage it has passed, never more than its payment in total, and it is completed exactly when it
  has passed every stage.\<close>

theorem request_never_overpays:
  assumes "pipeline_reachable st" and "pp_requests st i = Some r"
  shows "\<exists>job. pp_jobs st (pr_job_id r) = Some job
    \<and> total_paid (pr_payment_earned r) = unat (pr_progress r) * unat (share_of (pj_spec job))
    \<and> total_paid (pr_payment_earned r) \<le> unat (ps_payment_per_request (pj_spec job))
    \<and> pr_progress r \<le> ps_stage_count (pj_spec job)
    \<and> (pr_state r = Completed \<longleftrightarrow>
         pr_progress r = ps_stage_count (pj_spec job) \<and> ps_stage_count (pj_spec job) \<noteq> 0)"
proof -
  have "requests_ok st"
    using assms(1)
  proof (induction rule: pipeline_reachable.induct)
    case fresh
    show ?case by (simp add: requests_ok_def new_pipeline_def)
  next
    case (further st st')
    then show ?case using pipeline_step_ok by blast
  qed
  with assms(2) obtain job where "pp_jobs st (pr_job_id r) = Some job" and ok: "request_ok (pj_spec job) r"
    by (auto simp: requests_ok_def)
  moreover have "unat (pr_progress r) * unat (share_of (pj_spec job)) \<le> unat (ps_payment_per_request (pj_spec job))"
    using ok by (intro shares_within_payment) (simp add: request_ok_def word_le_nat_alt)
  ultimately show ?thesis by (auto simp: request_ok_def)
qed

lemma request_never_overpays_witness:
  "\<exists>st i r job. pipeline_reachable st \<and> pp_requests st i = Some r \<and> pp_jobs st (pr_job_id r) = Some job \<and>
     total_paid (pr_payment_earned r) = unat (pr_progress r) * unat (share_of (pj_spec job)) \<and> pr_state r \<noteq> Completed"
proof -
  let ?spec = "\<lparr>ps_stage_count = 2, ps_payment_per_request = 10, ps_stake_per_stage = 0, ps_model_hash = 0\<rparr>"
  obtain i st1 where st1: "create_active_job ?spec [4, 5] new_pipeline = Some (i, st1)"
    and i: "i = 0" "\<exists>job. pp_jobs st1 0 = Some job"
    by (simp add: create_active_job_def Let_def new_pipeline_def)
  obtain r st2 where st2: "submit_request 0 9 st1 = Inr (r, st2)"
    and req: "\<exists>q. pp_requests st2 r = Some q \<and> pr_state q = InFlight"
    using i by (auto simp: submit_request_def Let_def)
  have "pipeline_reachable st1"
    by (rule further [OF fresh job_created [OF st1]]) (simp add: new_pipeline_def)
  then have st2_ok: "pipeline_reachable st2" by (rule further [OF _ submitted [OF st2]])
  obtain q where q: "pp_requests st2 r = Some q" "pr_state q = InFlight" using req by blast
  obtain job where job: "pp_jobs st2 (pr_job_id q) = Some job"
    "total_paid (pr_payment_earned q) = unat (pr_progress q) * unat (share_of (pj_spec job))"
    using request_never_overpays [OF st2_ok q(1)] by blast
  show ?thesis
    by (intro exI conjI, rule st2_ok, rule q(1), rule job(1), rule job(2)) (simp add: q(2))
qed

section \<open>The input of a stage\<close>

definition authentic_activation ::
  "'w pipeline_env \<Rightarrow> stage_role \<Rightarrow> nat option \<Rightarrow> u64 \<Rightarrow> bytes \<Rightarrow> 'w \<Rightarrow> bool" where
  "authentic_activation E role deadline request_id payload w' \<longleftrightarrow>
     (\<exists>w1 w2 owner.
        pe_recv E deadline (sr_self_address role) w1 =
          (Some (Some (PipelineActivation request_id (sr_stage_index role - 1) (sr_stage_index role)
             owner payload)), w2)
        \<and> pe_stage_owner E deadline (sr_job_id role) (sr_stage_index role - 1) w2
          = (Some (Inr (Some owner)), w'))"

lemma authentic_activationI:
  "pe_recv E deadline (sr_self_address role) w1 =
     (Some (Some (PipelineActivation request_id (sr_stage_index role - 1) (sr_stage_index role)
        owner payload)), w2) \<Longrightarrow>
   pe_stage_owner E deadline (sr_job_id role) (sr_stage_index role - 1) w2 = (Some (Inr (Some owner)), w')
   \<Longrightarrow> authentic_activation E role deadline request_id payload w'"
  unfolding authentic_activation_def by blast

lemma recv_activation_authentic:
  assumes "recv_activation E role deadline request_id w = Some (Some (Inr payload), w')"
  shows "authentic_activation E role deadline request_id payload w'"
proof -
  let ?P = "\<lambda>E role deadline request_id w (r :: (pipeline_error + bytes) option \<times> 'a).
     (case r of (Some (Inr payload), w') \<Rightarrow> authentic_activation E role deadline request_id payload w' | _ \<Rightarrow> True)"
  have "?P E role deadline request_id w (Some (Inr payload), w')"
  proof (rule recv_activation.raw_induct [where P = ?P, OF _ assms], goal_cases)
    case (1 f E role deadline request_id w r)
    obtain x w1 where recv: "pe_recv E deadline (sr_self_address role) w = (x, w1)" by fastforce
    show ?case
    proof (cases "\<exists>rid from_stage to_stage from_worker payload.
        x = Some (Some (PipelineActivation rid from_stage to_stage from_worker payload))")
      case False
      with 1 recv show ?thesis
        by (cases x; cases "the x"; cases "the (the x)") auto
    next
      case True
      then obtain rid from_stage to_stage from_worker payload where
        x: "x = Some (Some (PipelineActivation rid from_stage to_stage from_worker payload))" by blast
      obtain y w2 where owner: "pe_stage_owner E deadline (sr_job_id role) from_stage w1 = (y, w2)"
        by fastforce
      show ?thesis
        using 1 recv owner unfolding x
        by (cases y; cases "the y")
          (auto intro: authentic_activationI split: if_splits)
    qed
  qed
  then show ?thesis by simp
qed

text \<open>A stage beyond the first, in any environment, answers only for an activation of this
  request, sent to it from the stage before by the worker that the chain then names as that
  stage's owner; its output is the stage's function of it, which it returns if it is the last
  stage and has forwarded otherwise, and the chain has accepted the advance.\<close>

theorem stage_serves_upstream_owner:
  assumes "serve_request K E role deadline request_id inp w = Some (Some (Inr out), w')"
    and "\<not> is_first_stage role"
  shows "\<exists>payload w1 w2 s.
    authentic_activation E role deadline request_id payload w1
    \<and> pe_advance E deadline request_id (sr_self_address role) w2 = (Some (Inr s), w')
    \<and> (let result = pipeline_stage_forward K (sr_stage_index role) (sr_total_stages role) payload
       in (case next_stage role of
             None \<Rightarrow> out = Some result \<and> w2 = w1
           | Some nxt \<Rightarrow> out = None \<and> pe_broadcast E deadline (PipelineActivation request_id
               (sr_stage_index role) nxt (sr_self_address role) result) w1 = (Some (Inr ()), w2)))"
proof -
  from assms obtain payload w1 where recv: "recv_activation E role deadline request_id w = Some (Some (Inr payload), w1)"
    and serve: "serve_input K E role deadline request_id payload w1 = Some (Some (Inr out), w')"
    by (auto simp: serve_request_def split: option.splits sum.splits prod.splits)
  note recv_activation_authentic [OF recv]
  with serve show ?thesis
    by (auto simp: serve_input_def claim_stage_def await_op_def Let_def
        split: option.splits sum.splits prod.splits)
qed

section \<open>A whole pipeline\<close>

text \<open>
  The worker against the chain of \<open>Pipeline\<close> and the in-process mesh; a receive from an empty
  queue, and an operation that panics, end the attempt.
\<close>

definition mesh_env :: "(mock_pipeline_state \<times> in_process_state) pipeline_env" where
  "mesh_env =
     \<lparr>pe_recv = (\<lambda>d me w. case mesh_pop me (snd w) of
          (None, q) \<Rightarrow> (None, w) | (Some m, q) \<Rightarrow> (Some (Some m), (fst w, q))),
      pe_broadcast = (\<lambda>d m w. (Some (Inr ()), (fst w, mesh_broadcast m (snd w)))),
      pe_stage_owner = (\<lambda>d j s w. (Some (stage_owner j s (fst w)), w)),
      pe_advance = (\<lambda>d r me w. case advance_request r me (fst w) of
          None \<Rightarrow> (None, w) | Some (Inl e) \<Rightarrow> (Some (Inl e), w)
        | Some (Inr (s, st)) \<Rightarrow> (Some (Inr s), (st, snd w))),
      pe_snapshot = (\<lambda>r w. (request_snapshot r (fst w), w)),
      pe_now = (\<lambda>w. 0)\<rparr>"

lemma mesh_env_simps [simp]:
  "pe_recv mesh_env d me w = (case mesh_pop me (snd w) of
     (None, q) \<Rightarrow> (None, w) | (Some m, q) \<Rightarrow> (Some (Some m), (fst w, q)))"
  "pe_broadcast mesh_env d m w = (Some (Inr ()), (fst w, mesh_broadcast m (snd w)))"
  "pe_stage_owner mesh_env d j s w = (Some (stage_owner j s (fst w)), w)"
  "pe_advance mesh_env d r me w = (case advance_request r me (fst w) of
     None \<Rightarrow> (None, w) | Some (Inl e) \<Rightarrow> (Some (Inl e), w)
   | Some (Inr (s, st)) \<Rightarrow> (Some (Inr s), (st, snd w)))"
  by (simp_all add: mesh_env_def)

text \<open>Messages meant for other stages are taken out and skipped.\<close>

definition for_other_stage :: "u32 \<Rightarrow> worker_message \<Rightarrow> bool" where
  "for_other_stage stage m \<longleftrightarrow>
     (case m of PipelineActivation rid f t w p \<Rightarrow> t \<noteq> stage | _ \<Rightarrow> True)"

lemma recv_activation_finds:
  assumes "stage_owner (sr_job_id role) (sr_stage_index role - 1) st = Inr (Some owner)"
  shows "list_all (for_other_stage (sr_stage_index role)) skipped \<Longrightarrow>
    qs (sr_self_address role) = Some (skipped @ PipelineActivation request_id (sr_stage_index role - 1)
      (sr_stage_index role) owner payload # later) \<Longrightarrow>
    recv_activation mesh_env role deadline request_id (st, qs)
    = Some (Some (Inr payload), (st, qs(sr_self_address role \<mapsto> later)))"
proof (induction skipped arbitrary: qs)
  case Nil
  then show ?case using assms by (subst recv_activation.simps) (simp add: Let_def)
next
  case (Cons m skipped)
  let ?rest = "skipped @ PipelineActivation request_id (sr_stage_index role - 1)
      (sr_stage_index role) owner payload # later"
  let ?me = "sr_self_address role"
  have pop: "mesh_pop ?me qs = (Some m, qs(?me \<mapsto> ?rest))"
    using Cons.prems(2) by (simp add: mesh_pop_def)
  have "recv_activation mesh_env role deadline request_id (st, qs(?me \<mapsto> ?rest))
    = Some (Some (Inr payload), (st, (qs(?me \<mapsto> ?rest))(?me \<mapsto> later)))"
    by (rule Cons.IH) (use Cons.prems in simp_all)
  then have rest: "recv_activation mesh_env role deadline request_id (st, qs(?me \<mapsto> ?rest))
    = Some (Some (Inr payload), (st, qs(?me \<mapsto> later)))"
    unfolding fun_upd_upd .
  show ?case
    using Cons.prems(1)
    by (subst recv_activation.simps)
      (cases m; simp add: Let_def for_other_stage_def pop rest del: fun_upd_apply)
qed

text \<open>A stage forwards its output before it advances the request on the chain.  If the next
  stage is served in between, it takes the activation out of its queue, computes and forwards its
  own output, and is then refused by the chain, which still expects the stage before: it fails
  without a share, and the activation it consumed is gone.\<close>

theorem early_downstream_stage_fails:
  assumes req: "pp_requests st request_id = Some r" "pr_job_id r = sr_job_id role" "pr_state r = InFlight"
      "pr_progress r = sr_stage_index role - 1"
    and job: "pp_jobs st (sr_job_id role) = Some job" "pj_stage_owners job (sr_stage_index role - 1) = Some up"
    and role: "\<not> is_first_stage role" "sr_self_address role \<noteq> up"
    and upstream: "up_role = \<lparr>sr_job_id = sr_job_id role, sr_stage_index = sr_stage_index role - 1,
        sr_self_address = up, sr_total_stages = sr_total_stages role\<rparr>"
      "sr_stage_index role \<noteq> sr_total_stages role"
    and queue: "qs (sr_self_address role) = Some []"
  shows "\<exists>qs1 qs2.
    serve_input K mesh_env up_role None request_id input (st, qs)
      = claim_stage mesh_env up_role None request_id None (st, qs1)
    \<and> serve_request K mesh_env role deadline request_id None (st, qs1)
      = Some (Some (Inl (AdvanceFailed (NotStageOwner (sr_stage_index role - 1)))), (st, qs2))
    \<and> (\<forall>q. qs2 (sr_self_address role) = Some q \<longrightarrow> list_all (for_other_stage (sr_stage_index role)) q)"
proof -
  let ?me = "sr_self_address role" and ?i = "sr_stage_index role"
  let ?act = "PipelineActivation request_id (?i - 1) ?i up
      (pipeline_stage_forward K (?i - 1) (sr_total_stages role) input)"
  let ?qs1 = "mesh_broadcast ?act qs"
  let ?out = "pipeline_stage_forward K ?i (sr_total_stages role)
      (pipeline_stage_forward K (?i - 1) (sr_total_stages role) input)"
  have up: "next_stage up_role = Some ?i"
    using upstream by (simp add: next_stage_def is_last_stage_def)
  then have up_serves: "serve_input K mesh_env up_role None request_id input (st, qs)
      = claim_stage mesh_env up_role None request_id None (st, ?qs1)"
    by (simp add: serve_input_def Let_def await_op_def upstream(1))
  have found: "recv_activation mesh_env role deadline request_id (st, ?qs1)
      = Some (Some (Inr (pipeline_stage_forward K (?i - 1) (sr_total_stages role) input)),
              (st, ?qs1(?me \<mapsto> [])))"
    using job queue by (intro recv_activation_finds [where skipped = "[]"])
      (simp_all add: stage_owner_def mesh_broadcast_def)
  have refused: "advance_request request_id ?me st = Some (Inl (NotStageOwner (?i - 1)))"
    using req job role by (simp add: advance_request_def)
  have "\<exists>qs2. serve_request K mesh_env role deadline request_id None (st, ?qs1)
      = Some (Some (Inl (AdvanceFailed (NotStageOwner (?i - 1)))), (st, qs2))
    \<and> (\<forall>q. qs2 ?me = Some q \<longrightarrow> list_all (for_other_stage ?i) q)"
  proof (cases "next_stage role")
    case None
    then have "serve_request K mesh_env role deadline request_id None (st, ?qs1)
      = Some (Some (Inl (AdvanceFailed (NotStageOwner (?i - 1)))), (st, ?qs1(?me \<mapsto> [])))"
      using role(1) found refused
      by (simp add: serve_request_def serve_input_def Let_def claim_stage_def await_op_def
          del: fun_upd_apply)
    then show ?thesis by auto
  next
    case (Some nxt)
    let ?m = "PipelineActivation request_id ?i nxt ?me ?out"
    have "serve_request K mesh_env role deadline request_id None (st, ?qs1)
      = Some (Some (Inl (AdvanceFailed (NotStageOwner (?i - 1)))), (st, mesh_broadcast ?m (?qs1(?me \<mapsto> []))))"
      using role(1) found refused Some
      by (simp add: serve_request_def serve_input_def Let_def claim_stage_def await_op_def
          del: fun_upd_apply)
    moreover have "for_other_stage ?i ?m"
      using Some by (auto simp: next_stage_def for_other_stage_def split: if_splits)
    ultimately show ?thesis by (auto simp: mesh_broadcast_def)
  qed
  with up_serves show ?thesis by blast
qed

definition example_pipeline_job :: mock_pipeline_job where
  "example_pipeline_job = \<lparr>pj_spec = \<lparr>ps_stage_count = 2, ps_payment_per_request = 10,
      ps_stake_per_stage = 0, ps_model_hash = 0\<rparr>, pj_stage_owners = [0 \<mapsto> 4, 1 \<mapsto> 5]\<rparr>"

definition example_request :: mock_pipeline_request where
  "example_request = \<lparr>pr_job_id = 0, pr_requester = 9, pr_progress = 0, pr_state = InFlight,
     pr_payment_earned = Map.empty\<rparr>"

definition example_pipeline :: mock_pipeline_state where
  "example_pipeline = \<lparr>pp_jobs = [0 \<mapsto> example_pipeline_job], pp_requests = [0 \<mapsto> example_request],
     pp_next_job_id = 1, pp_next_request_id = 1\<rparr>"

lemma early_downstream_stage_fails_witness:
  "\<exists>qs1 qs2.
    serve_input (\<lambda>_. 3) mesh_env \<lparr>sr_job_id = 0, sr_stage_index = 0, sr_self_address = 4, sr_total_stages = 2\<rparr>
        None 0 [1] (example_pipeline, [4 \<mapsto> [], 5 \<mapsto> []])
      = claim_stage mesh_env \<lparr>sr_job_id = 0, sr_stage_index = 0, sr_self_address = 4, sr_total_stages = 2\<rparr>
          None 0 None (example_pipeline, qs1)
    \<and> serve_request (\<lambda>_. 3) mesh_env \<lparr>sr_job_id = 0, sr_stage_index = 1, sr_self_address = 5, sr_total_stages = 2\<rparr>
        None 0 None (example_pipeline, qs1) = Some (Some (Inl (AdvanceFailed (NotStageOwner 0))), (example_pipeline, qs2))"
  using early_downstream_stage_fails [of example_pipeline 0 example_request
      "\<lparr>sr_job_id = 0, sr_stage_index = 1, sr_self_address = 5, sr_total_stages = 2\<rparr>" example_pipeline_job 4
      "\<lparr>sr_job_id = 0, sr_stage_index = 0, sr_self_address = 4, sr_total_stages = 2\<rparr>"
      "[4 \<mapsto> [], 5 \<mapsto> []]" "\<lambda>_. 3" "[1]" None]
  by (auto simp: example_pipeline_def example_request_def example_pipeline_job_def is_first_stage_def)

text \<open>The stages of a request one after the other, each served by its owner.\<close>

fun serve_all ::
  "(bytes \<Rightarrow> b256) \<Rightarrow> 'w pipeline_env \<Rightarrow> u64 \<Rightarrow> u64 \<Rightarrow> u32 \<Rightarrow> nat \<Rightarrow> address list \<Rightarrow> bytes option \<Rightarrow> 'w
    \<Rightarrow> (bytes option \<times> 'w) option" where
  "serve_all K E job_id request_id stages k [] inp w = Some (inp, w)"
| "serve_all K E job_id request_id stages k (me # rest) inp w =
     (case serve_request K E \<lparr>sr_job_id = job_id, sr_stage_index = of_nat k, sr_self_address = me,
             sr_total_stages = stages\<rparr> None request_id inp w of
        Some (Some (Inr out), w1) \<Rightarrow> serve_all K E job_id request_id stages (Suc k) rest out w1
      | _ \<Rightarrow> None)"

definition in_flight_at :: "mock_pipeline_state \<Rightarrow> u64 \<Rightarrow> u64 \<Rightarrow> address list \<Rightarrow> nat \<Rightarrow> bool" where
  "in_flight_at st job_id request_id ws k \<longleftrightarrow>
     (\<exists>job r. pp_jobs st job_id = Some job \<and> pp_requests st request_id = Some r \<and> pr_job_id r = job_id
        \<and> unat (ps_stage_count (pj_spec job)) = length ws \<and> pr_progress r = of_nat k
        \<and> pr_state r = (if k < length ws then InFlight else Completed)
        \<and> list_all (\<lambda>i. pj_stage_owners job (of_nat i) = Some (ws ! i)) [0..<length ws])"

lemma advance_in_flight:
  assumes "in_flight_at st j r ws k" and "k < length ws"
  shows "\<exists>s st'. advance_request r (ws ! k) st = Some (Inr (s, st')) \<and> in_flight_at st' j r ws (Suc k)"
proof -
  from assms obtain job req where job: "pp_jobs st j = Some job" and req: "pp_requests st r = Some req"
    "pr_job_id req = j" "pr_progress req = of_nat k" "pr_state req = InFlight"
    and n: "unat (ps_stage_count (pj_spec job)) = length ws"
    and owners: "list_all (\<lambda>i. pj_stage_owners job (of_nat i) = Some (ws ! i)) [0..<length ws]"
    by (auto simp: in_flight_at_def)
  from owners assms(2) have "pj_stage_owners job (of_nat k) = Some (ws ! k)" by (simp add: list_all_iff)
  moreover have "ps_stage_count (pj_spec job) \<noteq> 0" using n assms(2) by auto
  moreover have "of_nat (Suc k) = ps_stage_count (pj_spec job) \<longleftrightarrow> Suc k = length ws"
  proof -
    have "unat (of_nat (Suc k) :: u32) = Suc k"
      using assms(2) n unsigned_less [of "ps_stage_count (pj_spec job)", where 'a = nat]
      by (intro unat_of_nat_small) simp
    then show ?thesis using n by (metis word_unat_eq_iff)
  qed
  ultimately show ?thesis
    using job req n owners assms(2)
    by (auto simp: advance_request_def Let_def in_flight_at_def add.commute)
qed

text \<open>The queues before stage \<open>k\<close>: everybody holds the last activation, after messages for
  earlier stages.\<close>

definition queues_before ::
  "u64 \<Rightarrow> address list \<Rightarrow> nat \<Rightarrow> bytes \<Rightarrow> in_process_state \<Rightarrow> bool" where
  "queues_before request_id ws k x qs \<longleftrightarrow>
     (\<forall>w \<in> set ws. \<exists>skipped. qs w = Some (skipped @ [PipelineActivation request_id (of_nat (k - 1)) (of_nat k)
         (ws ! (k - 1)) x])
       \<and> (\<forall>i. k \<le> i \<longrightarrow> i < length ws \<longrightarrow> list_all (for_other_stage (of_nat i)) skipped))"

lemma serve_input_in_flight:
  assumes st: "in_flight_at st j r ws k" and k: "k < length ws" and n: "n = of_nat (length ws)"
    "length ws < 2 ^ 32"
    and role: "role = \<lparr>sr_job_id = j, sr_stage_index = of_nat k, sr_self_address = ws ! k, sr_total_stages = n\<rparr>"
  shows "\<exists>st'. in_flight_at st' j r ws (Suc k) \<and>
    serve_input K mesh_env role None r x (st, qs) =
      (if Suc k = length ws
       then Some (Some (Inr (Some (pipeline_stage_forward K (of_nat k) n x))), (st', qs))
       else Some (Some (Inr None), (st', mesh_broadcast (PipelineActivation r (of_nat k) (of_nat (Suc k)) (ws ! k)
              (pipeline_stage_forward K (of_nat k) n x)) qs)))"
proof -
  obtain s st' where adv: "advance_request r (ws ! k) st = Some (Inr (s, st'))"
    and st': "in_flight_at st' j r ws (Suc k)"
    using advance_in_flight [OF st k] by blast
  have "unat (of_nat (Suc k) :: u32) = Suc k" "unat (of_nat (length ws) :: u32) = length ws"
    using k n(2) by (intro unat_of_nat_small; simp)+
  then have "of_nat (Suc k) = n \<longleftrightarrow> Suc k = length ws"
    unfolding n(1) by (metis word_unat_eq_iff)
  then have nxt: "next_stage role = (if Suc k = length ws then None else Some (of_nat (Suc k)))"
    by (auto simp: next_stage_def is_last_stage_def role add.commute)
  show ?thesis
    using adv st' by (intro exI [of _ st'])
      (simp add: serve_input_def Let_def nxt [unfolded role] claim_stage_def await_op_def role)
qed

lemma serve_all_from:
  assumes n: "n = of_nat (length ws)" "length ws < 2 ^ 32"
  shows "0 < k \<Longrightarrow> k \<le> length ws \<Longrightarrow> in_flight_at st j r ws k \<Longrightarrow>
    (k < length ws \<Longrightarrow> inp = None \<and> queues_before r ws k x qs) \<Longrightarrow> (k = length ws \<Longrightarrow> inp = Some x) \<Longrightarrow>
    \<exists>st' qs'. serve_all K mesh_env j r n k (drop k ws) inp (st, qs) =
      Some (Some (foldl (\<lambda>x i. pipeline_stage_forward K (of_nat i) n x) x [k..<length ws]), (st', qs'))
      \<and> in_flight_at st' j r ws (length ws)"
proof (induction "length ws - k" arbitrary: k st qs inp x)
  case 0
  then show ?case by auto
next
  case (Suc d)
  then have k: "k < length ws" by simp
  let ?role = "\<lparr>sr_job_id = j, sr_stage_index = of_nat k, sr_self_address = ws ! k, sr_total_stages = n\<rparr>"
  let ?x' = "pipeline_stage_forward K (of_nat k) n x"
  have uk: "unat (of_nat i :: u32) = i" if "i \<le> length ws" for i
    using that n(2) by (intro unat_of_nat_small) simp
  have inp: "inp = None" and qs: "queues_before r ws k x qs" using Suc.prems(4) k by auto
  obtain skipped where mine: "qs (ws ! k) = Some (skipped @ [PipelineActivation r (of_nat (k - 1)) (of_nat k)
         (ws ! (k - 1)) x])" and skip: "list_all (for_other_stage (of_nat k)) skipped"
    using qs k unfolding queues_before_def by (metis nth_mem order_refl)
  have prev: "(of_nat k :: u32) - 1 = of_nat (k - 1)" using Suc.prems(1) by (cases k) simp_all
  have first: "\<not> is_first_stage ?role"
    using uk [of k] k Suc.prems(1) by (auto simp: is_first_stage_def)
  have "stage_owner j (of_nat (k - 1)) st = Inr (Some (ws ! (k - 1)))"
    using Suc.prems(3) k by (auto simp: in_flight_at_def stage_owner_def list_all_iff)
  then have recv: "recv_activation mesh_env ?role None r (st, qs) = Some (Some (Inr x), (st, qs(ws ! k \<mapsto> [])))"
    using recv_activation_finds [of ?role st "ws ! (k - 1)" skipped qs r x "[]" None] skip mine
    by (simp add: prev)
  obtain st' where st': "in_flight_at st' j r ws (Suc k)"
    and serve: "serve_input K mesh_env ?role None r x (st, qs(ws ! k \<mapsto> [])) =
      (if Suc k = length ws then Some (Some (Inr (Some ?x')), (st', qs(ws ! k \<mapsto> [])))
       else Some (Some (Inr None), (st', mesh_broadcast (PipelineActivation r (of_nat k) (of_nat (Suc k)) (ws ! k) ?x')
              (qs(ws ! k \<mapsto> [])))))"
    using serve_input_in_flight [OF Suc.prems(3) k n refl] by blast
  let ?qs' = "if Suc k = length ws then qs(ws ! k \<mapsto> [])
     else mesh_broadcast (PipelineActivation r (of_nat k) (of_nat (Suc k)) (ws ! k) ?x') (qs(ws ! k \<mapsto> []))"
  let ?inp' = "if Suc k = length ws then Some ?x' else None"
  have unfold: "serve_all K mesh_env j r n k (drop k ws) inp (st, qs)
      = serve_all K mesh_env j r n (Suc k) (drop (Suc k) ws) ?inp' (st', ?qs')"
    using first recv serve inp by (simp add: Cons_nth_drop_Suc [OF k, symmetric] serve_request_def)
  have "queues_before r ws (Suc k) ?x' ?qs'" if "Suc k < length ws"
    unfolding queues_before_def
  proof
    fix w assume w: "w \<in> set ws"
    have step: "?qs' = mesh_broadcast (PipelineActivation r (of_nat k) (of_nat (Suc k)) (ws ! k) ?x') (qs(ws ! k \<mapsto> []))"
      using that by simp
    obtain sk where sk: "qs w = Some (sk @ [PipelineActivation r (of_nat (k - 1)) (of_nat k) (ws ! (k - 1)) x])"
      "\<And>i. k \<le> i \<Longrightarrow> i < length ws \<Longrightarrow> list_all (for_other_stage (of_nat i)) sk"
      using qs w unfolding queues_before_def by blast
    have other: "for_other_stage (of_nat i) (PipelineActivation r (of_nat (k - 1)) (of_nat k) (ws ! (k - 1)) x)"
      if "Suc k \<le> i" "i < length ws" for i
      using that uk [of i] uk [of k] k by (auto simp: for_other_stage_def)
    show "\<exists>skipped. ?qs' w = Some (skipped @ [PipelineActivation r (of_nat (Suc k - 1)) (of_nat (Suc k))
         (ws ! (Suc k - 1)) ?x'])
       \<and> (\<forall>i. Suc k \<le> i \<longrightarrow> i < length ws \<longrightarrow> list_all (for_other_stage (of_nat i)) skipped)"
    proof (cases "w = ws ! k")
      case True
      then show ?thesis unfolding step by (intro exI [of _ "[]"]) (simp add: mesh_broadcast_def)
    next
      case False
      then show ?thesis unfolding step using sk other
        by (intro exI [of _ "sk @ [PipelineActivation r (of_nat (k - 1)) (of_nat k) (ws ! (k - 1)) x]"])
          (simp add: mesh_broadcast_def)
    qed
  qed
  then have "\<exists>st'' qs''. serve_all K mesh_env j r n (Suc k) (drop (Suc k) ws) ?inp' (st', ?qs') =
      Some (Some (foldl (\<lambda>x i. pipeline_stage_forward K (of_nat i) n x) ?x' [Suc k..<length ws]), (st'', qs''))
      \<and> in_flight_at st'' j r ws (length ws)"
    using Suc.hyps(2) k by (intro Suc.hyps(1) [OF _ _ _ st']) auto
  then show ?case unfolding unfold upt_conv_Cons [OF k] by simp
qed

text \<open>C38: Served by its owners one after the other, a request on the in-memory chain and mesh
  passes through all stages: the last returns the composition of the stage functions on the
  input, and the request is completed.\<close>

theorem pipeline_completes:
  assumes "in_flight_at st j r ws 0" and "0 < length ws" and "length ws < 2 ^ 32"
    and "list_all (\<lambda>w. qs w = Some []) ws"
  shows "\<exists>st' qs'. serve_all K mesh_env j r (of_nat (length ws)) 0 ws (Some x) (st, qs) =
      Some (Some (foldl (\<lambda>x i. pipeline_stage_forward K (of_nat i) (of_nat (length ws)) x) x [0..<length ws]),
            (st', qs'))
    \<and> map_option pr_state (pp_requests st' r) = Some Completed"
proof -
  let ?n = "of_nat (length ws) :: u32"
  let ?role = "\<lparr>sr_job_id = j, sr_stage_index = of_nat 0, sr_self_address = ws ! 0, sr_total_stages = ?n\<rparr>"
  let ?x' = "pipeline_stage_forward K (of_nat 0) ?n x"
  obtain st1 where st1: "in_flight_at st1 j r ws (Suc 0)"
    and serve: "serve_input K mesh_env ?role None r x (st, qs) =
      (if Suc 0 = length ws then Some (Some (Inr (Some ?x')), (st1, qs))
       else Some (Some (Inr None), (st1, mesh_broadcast (PipelineActivation r (of_nat 0) (of_nat (Suc 0)) (ws ! 0) ?x') qs)))"
    using serve_input_in_flight [OF assms(1,2) refl assms(3) refl] by blast
  let ?qs1 = "if Suc 0 = length ws then qs
     else mesh_broadcast (PipelineActivation r (of_nat 0) (of_nat (Suc 0)) (ws ! 0) ?x') qs"
  let ?inp1 = "if Suc 0 = length ws then Some ?x' else None"
  have unfold: "serve_all K mesh_env j r ?n 0 ws (Some x) (st, qs)
      = serve_all K mesh_env j r ?n (Suc 0) (drop (Suc 0) ws) ?inp1 (st1, ?qs1)"
    using serve assms(2) by (cases ws) (auto simp: serve_request_def is_first_stage_def)
  have "queues_before r ws (Suc 0) ?x' ?qs1" if "Suc 0 < length ws"
    using that assms(4) by (auto simp: queues_before_def mesh_broadcast_def list_all_iff)
  then have "\<exists>st' qs'. serve_all K mesh_env j r ?n (Suc 0) (drop (Suc 0) ws) ?inp1 (st1, ?qs1) =
      Some (Some (foldl (\<lambda>x i. pipeline_stage_forward K (of_nat i) ?n x) ?x' [Suc 0..<length ws]), (st', qs'))
      \<and> in_flight_at st' j r ws (length ws)"
    using assms(2) by (intro serve_all_from [OF refl assms(3) _ _ st1]) (auto simp: Suc_le_eq)
  then obtain st' qs' where "serve_all K mesh_env j r ?n (Suc 0) (drop (Suc 0) ws) ?inp1 (st1, ?qs1) =
      Some (Some (foldl (\<lambda>x i. pipeline_stage_forward K (of_nat i) ?n x) ?x' [Suc 0..<length ws]), (st', qs'))"
    and "in_flight_at st' j r ws (length ws)" by blast
  then show ?thesis
    unfolding unfold upt_conv_Cons [OF assms(2)] by (auto simp: in_flight_at_def)
qed

lemma pipeline_completes_witness:
  "\<exists>st' qs'. serve_all (\<lambda>_. 3) mesh_env 0 0 (of_nat (length [4, 5 :: address])) 0 [4, 5] (Some [1])
       (example_pipeline, [4 \<mapsto> [], 5 \<mapsto> []]) =
     Some (Some (foldl (\<lambda>x i. pipeline_stage_forward (\<lambda>_. 3) (of_nat i) (of_nat (length [4, 5 :: address])) x)
             [1] [0..<length [4, 5 :: address]]), (st', qs'))
     \<and> map_option pr_state (pp_requests st' 0) = Some Completed"
  by (rule pipeline_completes)
    (simp_all add: in_flight_at_def example_pipeline_def example_pipeline_job_def example_request_def upt_rec)

end
