(* ===== verification/Mesh_Envelope.thy ===== *)
theory Mesh_Envelope
  imports Worker_Transport Text_Format
begin

text \<open>
  The signed mesh between workers, \<^verbatim>\<open>training-worker/src/libp2p_transport.rs\<close>: the envelope and the
  bytes its signature covers, the replay window, the checks on receipt, the binding of the inner
  message to the signer, and the transport's state with its operations.

  Parameters (record \<open>mesh_deps\<close>): Keccak-256, the \<^verbatim>\<open>bincode\<close> encoders and decoders (the decoders
  with their byte limit), key parsing, signature parsing, signing and verification of \<^verbatim>\<open>k256\<close>.
  Gossip itself is not modelled: a published envelope is the bytes given to the swarm task, a received
  one is any bytes on any topic.  The wall clock is an argument.
\<close>

definition ENVELOPE_WIRE_VERSION :: u8 where "ENVELOPE_WIRE_VERSION = 2"
definition ENVELOPE_DOMAIN_TAG :: bytes where
  "ENVELOPE_DOMAIN_TAG = str_bytes ''citrate-mesh-envelope-v2''"
definition EPOCH_TOLERANCE :: u32 where "EPOCH_TOLERANCE = 1"
definition MAX_ENVELOPE_AGE_MS :: u64 where "MAX_ENVELOPE_AGE_MS = 5 * 60 * 1000"
definition MAX_ENVELOPE_FUTURE_SKEW_MS :: u64 where "MAX_ENVELOPE_FUTURE_SKEW_MS = 30 * 1000"
definition REPLAY_WINDOW :: nat where "REPLAY_WINDOW = 4096"
definition MAX_ENVELOPE_BYTES :: nat where "MAX_ENVELOPE_BYTES = 4 * 1024 * 1024"

definition topic_for_job :: "u64 \<Rightarrow> string" where
  "topic_for_job job_id = ''citrate-training/job-'' @ show_dec (unat job_id)"

record envelope_context =
  ctx_version :: u8
  ctx_job_id :: u64
  ctx_epoch :: u32
  ctx_nonce :: u64
  ctx_topic :: string
  ctx_sent_at_ms :: u64

record wire_envelope =
  we_context :: envelope_context
  we_sender_addr :: address
  we_payload :: bytes
  we_signature :: bytes
  we_pubkey_sec1 :: bytes

text \<open>\<open>'k\<close> is a verifying key, \<open>'s\<close> a signature, \<open>'x\<close> a signing key.\<close>

record ('k, 's, 'x) mesh_deps =
  keccak :: "bytes \<Rightarrow> b256"
  ser_context :: "envelope_context \<Rightarrow> bytes"
  ser_message :: "worker_message \<Rightarrow> string + bytes"
  de_message :: "bytes \<Rightarrow> string + worker_message"
  ser_envelope :: "wire_envelope \<Rightarrow> string + bytes"
  de_envelope :: "bytes \<Rightarrow> string + wire_envelope"
  from_sec1_bytes :: "bytes \<Rightarrow> 'k option"
  to_encoded_point :: "'k \<Rightarrow> bytes"
  from_der :: "bytes \<Rightarrow> 's option"
  to_der :: "'s \<Rightarrow> bytes"
  verify :: "'k \<Rightarrow> bytes \<Rightarrow> 's \<Rightarrow> bool"
  sign :: "'x \<Rightarrow> bytes \<Rightarrow> 's"
  verifying_key :: "'x \<Rightarrow> 'k"

definition envelope_signing_bytes :: "('k, 's, 'x) mesh_deps \<Rightarrow> envelope_context \<Rightarrow> bytes \<Rightarrow> bytes" where
  "envelope_signing_bytes d ctx payload = ENVELOPE_DOMAIN_TAG @ ser_context d ctx @ payload"

text \<open>The low 20 bytes of the hash of the point without its leading byte.\<close>

definition address_from_verifying_key :: "('k, 's, 'x) mesh_deps \<Rightarrow> 'k \<Rightarrow> address" where
  "address_from_verifying_key d vk = ucast (keccak d (drop 1 (to_encoded_point d vk)))"

definition address_from_signing_key :: "('k, 's, 'x) mesh_deps \<Rightarrow> 'x \<Rightarrow> address" where
  "address_from_signing_key d sk = address_from_verifying_key d (verifying_key d sk)"

section \<open>The replay window\<close>

type_synonym replay_key = "address \<times> u64"

record replay_guard =
  rg_seen :: "replay_key set"
  rg_order :: "replay_key list"
  rg_cap :: nat

definition replay_guard_new :: "nat \<Rightarrow> replay_guard" where
  "replay_guard_new cap = \<lparr>rg_seen = {}, rg_order = [], rg_cap = cap\<rparr>"

definition observe :: "address \<Rightarrow> u64 \<Rightarrow> replay_guard \<Rightarrow> bool \<times> replay_guard" where
  "observe sender nonce g =
     (let key = (sender, nonce) in
      if key \<in> rg_seen g then (False, g)
      else
        let g1 = (if length (rg_order g) \<ge> rg_cap g then
                    (case rg_order g of
                       [] \<Rightarrow> g
                     | evicted # rest \<Rightarrow> g\<lparr>rg_order := rest, rg_seen := rg_seen g - {evicted}\<rparr>)
                  else g)
        in (True, g1\<lparr>rg_seen := insert key (rg_seen g1), rg_order := rg_order g1 @ [key]\<rparr>))"

section \<open>Receipt\<close>

datatype envelope_error =
    EnvelopeTooLarge nat
  | EnvelopeDecode string
  | UnsupportedVersion u8
  | TopicMismatch string
  | JobMismatch u64
  | EpochOutside u32
  | StaleEnvelope u64
  | FutureDated u64
  | BadPubkey
  | SenderAddrMismatch address address
  | BadSigDer
  | SigVerify
  | ReplayedEnvelope u64 address
  | PayloadDecode string

text \<open>The checks on the context, up to the sender's authentication.\<close>

definition check_context ::
  "envelope_context \<Rightarrow> string \<Rightarrow> u64 \<Rightarrow> u32 \<Rightarrow> u64 \<Rightarrow> envelope_error + unit" where
  "check_context ctx expected_topic expected_job current_epoch now =
     (if ctx_version ctx \<noteq> ENVELOPE_WIRE_VERSION then Inl (UnsupportedVersion (ctx_version ctx))
      else if ctx_topic ctx \<noteq> expected_topic then Inl (TopicMismatch (ctx_topic ctx))
      else if ctx_job_id ctx \<noteq> expected_job then Inl (JobMismatch (ctx_job_id ctx))
      else if ctx_epoch ctx < sat_sub current_epoch EPOCH_TOLERANCE \<or>
              ctx_epoch ctx > sat_add current_epoch EPOCH_TOLERANCE
        then Inl (EpochOutside (ctx_epoch ctx))
      else if sat_sub now (ctx_sent_at_ms ctx) > MAX_ENVELOPE_AGE_MS
        then Inl (StaleEnvelope (ctx_sent_at_ms ctx))
      else if sat_sub (ctx_sent_at_ms ctx) now > MAX_ENVELOPE_FUTURE_SKEW_MS
        then Inl (FutureDated (ctx_sent_at_ms ctx))
      else Inr ())"

definition check_sender :: "('k, 's, 'x) mesh_deps \<Rightarrow> wire_envelope \<Rightarrow> envelope_error + address" where
  "check_sender d env =
     (case from_sec1_bytes d (we_pubkey_sec1 env) of
        None \<Rightarrow> Inl BadPubkey
      | Some vk \<Rightarrow>
          let derived = address_from_verifying_key d vk in
          if derived \<noteq> we_sender_addr env then Inl (SenderAddrMismatch (we_sender_addr env) derived)
          else
            (case from_der d (we_signature env) of
               None \<Rightarrow> Inl BadSigDer
             | Some sig \<Rightarrow>
                 if \<not> verify d vk (envelope_signing_bytes d (we_context env) (we_payload env)) sig
                 then Inl SigVerify else Inr derived))"

definition verify_envelope ::
  "('k, 's, 'x) mesh_deps \<Rightarrow> bytes \<Rightarrow> string \<Rightarrow> u64 \<Rightarrow> u32 \<Rightarrow> u64 \<Rightarrow> replay_guard \<Rightarrow>
   (envelope_error + address \<times> worker_message) \<times> replay_guard" where
  "verify_envelope d bs expected_topic expected_job current_epoch now g =
     (if length bs > MAX_ENVELOPE_BYTES then (Inl (EnvelopeTooLarge (length bs)), g)
      else
        case de_envelope d bs of
          Inl e \<Rightarrow> (Inl (EnvelopeDecode e), g)
        | Inr env \<Rightarrow>
            (case check_context (we_context env) expected_topic expected_job current_epoch now of
               Inl e \<Rightarrow> (Inl e, g)
             | Inr _ \<Rightarrow>
                 (case check_sender d env of
                    Inl e \<Rightarrow> (Inl e, g)
                  | Inr sender \<Rightarrow>
                      let (fresh, g') = observe sender (ctx_nonce (we_context env)) g in
                      if \<not> fresh then (Inl (ReplayedEnvelope (ctx_nonce (we_context env)) sender), g')
                      else
                        (case de_message d (we_payload env) of
                           Inl e \<Rightarrow> (Inl (PayloadDecode e), g')
                         | Inr msg \<Rightarrow> (Inr (sender, msg), g')))))"

definition enforce_sender_binding :: "address \<Rightarrow> worker_message \<Rightarrow> bool" where
  "enforce_sender_binding sender msg =
     (case msg of
        StepCommitted commit \<Rightarrow> sc_worker commit = sender
      | PipelineActivation _ _ _ from_worker _ \<Rightarrow> from_worker = sender
      | _ \<Rightarrow> True)"

section \<open>The transport\<close>

record 'x mesh_transport =
  mt_signing_key :: 'x
  mt_own_address :: address
  mt_own_pubkey_sec1 :: bytes
  mt_job_id :: u64
  mt_topic :: string
  mt_current_epoch :: u32
  mt_nonce :: u64
  mt_queues :: in_process_state
  mt_guard :: replay_guard
  mt_task_alive :: bool
  mt_outbox :: "bytes list"

text \<open>\<open>mt_outbox\<close> holds the envelopes given to the swarm task, oldest first.\<close>

definition transport_new :: "('k, 's, 'x) mesh_deps \<Rightarrow> 'x \<Rightarrow> u64 \<Rightarrow> u64 \<Rightarrow> 'x mesh_transport" where
  "transport_new d sk job_id now =
     \<lparr>mt_signing_key = sk, mt_own_address = address_from_signing_key d sk,
      mt_own_pubkey_sec1 = to_encoded_point d (verifying_key d sk),
      mt_job_id = job_id, mt_topic = topic_for_job job_id, mt_current_epoch = 0, mt_nonce = now,
      mt_queues = [address_from_signing_key d sk \<mapsto> []],
      mt_guard = replay_guard_new REPLAY_WINDOW, mt_task_alive = True, mt_outbox = []\<rparr>"

definition deliver :: "address \<Rightarrow> worker_message \<Rightarrow> in_process_state \<Rightarrow> in_process_state" where
  "deliver sender msg qs =
     (\<lambda>peer. map_option (\<lambda>q. if peer \<noteq> sender then q @ [msg] else q) (qs peer))"

text \<open>The swarm task on a message of a topic.\<close>

definition on_message ::
  "('k, 's, 'x) mesh_deps \<Rightarrow> string \<Rightarrow> bytes \<Rightarrow> u64 \<Rightarrow> 'x mesh_transport \<Rightarrow> 'x mesh_transport" where
  "on_message d msg_topic data now t =
     (if msg_topic \<noteq> mt_topic t then t
      else
        case verify_envelope d data (mt_topic t) (mt_job_id t) (mt_current_epoch t) now (mt_guard t) of
          (Inl e, g) \<Rightarrow> t\<lparr>mt_guard := g\<rparr>
        | (Inr (sender, msg), g) \<Rightarrow>
            if \<not> enforce_sender_binding sender msg then t\<lparr>mt_guard := g\<rparr>
            else t\<lparr>mt_guard := g, mt_queues := deliver sender msg (mt_queues t)\<rparr>)"

definition own_context :: "'x mesh_transport \<Rightarrow> u64 \<Rightarrow> envelope_context" where
  "own_context t now =
     \<lparr>ctx_version = ENVELOPE_WIRE_VERSION, ctx_job_id = mt_job_id t, ctx_epoch = mt_current_epoch t,
      ctx_nonce = mt_nonce t, ctx_topic = mt_topic t, ctx_sent_at_ms = now\<rparr>"

definition own_envelope ::
  "('k, 's, 'x) mesh_deps \<Rightarrow> 'x mesh_transport \<Rightarrow> u64 \<Rightarrow> bytes \<Rightarrow> wire_envelope" where
  "own_envelope d t now payload =
     \<lparr>we_context = own_context t now, we_sender_addr = mt_own_address t, we_payload = payload,
      we_signature = to_der d (sign d (mt_signing_key t) (envelope_signing_bytes d (own_context t now) payload)),
      we_pubkey_sec1 = mt_own_pubkey_sec1 t\<rparr>"

definition transport_broadcast ::
  "('k, 's, 'x) mesh_deps \<Rightarrow> worker_message \<Rightarrow> u64 \<Rightarrow> 'x mesh_transport \<Rightarrow>
   (string + unit) \<times> 'x mesh_transport" where
  "transport_broadcast d msg now t =
     (case ser_message d msg of
        Inl e \<Rightarrow> (Inl (''serialize WorkerMessage: '' @ e), t)
      | Inr payload \<Rightarrow>
          let env = own_envelope d t now payload;
              t1 = t\<lparr>mt_nonce := mt_nonce t + 1\<rparr>
          in case ser_envelope d env of
               Inl e \<Rightarrow> (Inl (''serialize envelope: '' @ e), t1)
             | Inr bs \<Rightarrow>
                 if \<not> mt_task_alive t then (Inl ''swarm task has exited'', t1)
                 else (Inr (), t1\<lparr>mt_outbox := mt_outbox t @ [bs]\<rparr>))"

definition transport_pop ::
  "address \<Rightarrow> 'x mesh_transport \<Rightarrow> worker_message option \<times> 'x mesh_transport" where
  "transport_pop peer t = (let (m, qs) = mesh_pop peer (mt_queues t) in (m, t\<lparr>mt_queues := qs\<rparr>))"

definition transport_register :: "address \<Rightarrow> 'x mesh_transport \<Rightarrow> 'x mesh_transport" where
  "transport_register peer t = t\<lparr>mt_queues := mesh_register peer (mt_queues t)\<rparr>"

definition transport_set_epoch :: "u32 \<Rightarrow> 'x mesh_transport \<Rightarrow> 'x mesh_transport" where
  "transport_set_epoch epoch t = t\<lparr>mt_current_epoch := epoch\<rparr>"

end
