(* ===== verification/Recent_Window.thy ===== *)
theory Recent_Window
  imports Prelude
begin

text \<open>
  The contract of a bounded first-in first-out set of recent keys, as the replay guard of the worker
  mesh and the seen-events set of the pool coordinator keep one: what \<open>see\<close> answers and keeps, and
  how long a key stays.
\<close>

section \<open>A window of recent keys\<close>

locale recent_window =
  fixes inv :: "'g \<Rightarrow> bool"
    and see :: "'k \<Rightarrow> 'g \<Rightarrow> bool \<times> 'g"
    and recent :: "'g \<Rightarrow> 'k list"
    and cap :: nat
  assumes inv_see: "inv g \<Longrightarrow> inv (snd (see k g))"
    and fresh_iff: "inv g \<Longrightarrow> fst (see k g) \<longleftrightarrow> k \<notin> set (recent g)"
    and recent_see: "inv g \<Longrightarrow> recent (snd (see k g)) =
      (if k \<in> set (recent g) then recent g
       else drop (Suc (length (recent g)) - cap) (recent g) @ [k])"
    and recent_ok: "inv g \<Longrightarrow> distinct (recent g) \<and> length (recent g) \<le> cap"
    and cap_pos: "0 < cap"
begin

lemma seen_after_see: "inv g \<Longrightarrow> k \<in> set (recent (snd (see k g)))"
  by (simp add: recent_see)

text \<open>The keys after an entry count the steps that can still pass before it leaves the window.\<close>

lemma stays_recent:
  assumes "inv g" "recent g = xs @ k # ys" "length ys + length ks < cap"
  shows "k \<in> set (recent (fold (\<lambda>k g. snd (see k g)) ks g))"
  using assms
proof (induction ks arbitrary: g xs ys)
  case Nil
  then show ?case by simp
next
  case (Cons k1 ks)
  let ?g = "snd (see k1 g)"
  show ?case
  proof (cases "k1 \<in> set (recent g)")
    case True
    with Cons.prems have "recent ?g = xs @ k # ys" by (simp add: recent_see)
    then show ?thesis using Cons.IH [of ?g xs ys] Cons.prems inv_see by simp
  next
    case False
    let ?n = "Suc (length (recent g)) - cap"
    have "?n \<le> length xs" using Cons.prems(2,3) recent_ok [OF Cons.prems(1)] by simp
    then have "recent ?g = drop ?n xs @ k # (ys @ [k1])"
      using False Cons.prems by (simp add: recent_see)
    then show ?thesis using Cons.IH [of ?g "drop ?n xs" "ys @ [k1]"] Cons.prems inv_see by simp
  qed
qed

lemma inv_fold: "inv g \<Longrightarrow> inv (fold (\<lambda>k g. snd (see k g)) ks g)"
  by (induction ks arbitrary: g) (auto simp: inv_see)

lemma refused_within_window:
  assumes "inv g" "fst (see k g)" "length ks < cap"
  shows "\<not> fst (see k (fold (\<lambda>k g. snd (see k g)) ks (snd (see k g))))"
proof -
  let ?g = "snd (see k g)"
  have "recent ?g = drop (Suc (length (recent g)) - cap) (recent g) @ k # []"
    using assms(1,2) by (simp add: recent_see fresh_iff)
  then have "k \<in> set (recent (fold (\<lambda>k g. snd (see k g)) ks ?g))"
    using assms inv_see by (intro stays_recent) auto
  then show ?thesis using fresh_iff inv_fold inv_see assms(1) by blast
qed

text \<open>The bound is exact: \<open>cap\<close> other new keys push an entry out.\<close>

lemma recent_fold_fresh:
  assumes "inv g" "distinct ks" "set ks \<inter> set (recent g) = {}"
  shows "recent (fold (\<lambda>k g. snd (see k g)) ks g) =
    drop (length (recent g) + length ks - cap) (recent g @ ks)"
  using assms
proof (induction ks arbitrary: g)
  case Nil
  then show ?case using recent_ok [of g] by simp
next
  case (Cons k ks)
  let ?n = "Suc (length (recent g)) - cap"
  have r: "recent (snd (see k g)) = drop ?n (recent g) @ [k]"
    using Cons.prems by (simp add: recent_see)
  moreover have "set (drop ?n (recent g)) \<subseteq> set (recent g)" by (rule set_drop_subset)
  ultimately have "set ks \<inter> set (recent (snd (see k g))) = {}" using Cons.prems by auto
  then have "recent (fold (\<lambda>k g. snd (see k g)) ks (snd (see k g))) =
      drop (length (recent (snd (see k g))) + length ks - cap) (recent (snd (see k g)) @ ks)"
    using Cons.IH Cons.prems inv_see by simp
  moreover have "?n = (if length (recent g) = cap then 1 else 0)"
    using recent_ok [OF Cons.prems(1)] by auto
  ultimately show ?case
    using recent_ok [OF Cons.prems(1)] cap_pos by (simp add: r split: if_splits)
qed

lemma accepted_after_window:
  assumes "inv g" "distinct ks" "set ks \<inter> set (recent g) = {}" "length ks = cap" "k \<in> set (recent g)"
  shows "fst (see k (fold (\<lambda>k g. snd (see k g)) ks g))"
proof -
  have "recent (fold (\<lambda>k g. snd (see k g)) ks g) = ks"
    using recent_fold_fresh [OF assms(1-3)] assms(4) by simp
  then show ?thesis using fresh_iff [OF inv_fold [OF assms(1)], of k ks] assms(3,5) by auto
qed

end

end
