(* ===== verification/Mesh_Theorems.thy ===== *)
theory Mesh_Theorems
  imports Mesh_Envelope Recent_Window
begin

text \<open>
  What the signed mesh guarantees: the interpretation of the window of \<open>Recent_Window\<close> on
  \<open>observe\<close>, the authenticity of what is delivered, that bytes which nobody signed change nothing,
  that a replay is refused for the next 4095 deliveries, and that an honest envelope arrives.
\<close>

section \<open>The replay guard is such a window\<close>

definition guard_ok :: "replay_guard \<Rightarrow> bool" where
  "guard_ok g \<longleftrightarrow> rg_seen g = set (rg_order g) \<and> distinct (rg_order g) \<and>
     length (rg_order g) \<le> rg_cap g \<and> rg_cap g = REPLAY_WINDOW"

definition see_key :: "replay_key \<Rightarrow> replay_guard \<Rightarrow> bool \<times> replay_guard" where
  "see_key k g = observe (fst k) (snd k) g"

lemma guard_ok_new: "guard_ok (replay_guard_new REPLAY_WINDOW)"
  by (simp add: guard_ok_def replay_guard_new_def)

lemma see_key_cases:
  assumes "guard_ok g"
  shows "see_key k g =
    (if k \<in> set (rg_order g) then (False, g)
     else (True, g\<lparr>rg_seen := insert k (set (drop (Suc (length (rg_order g)) - REPLAY_WINDOW) (rg_order g))),
                   rg_order := drop (Suc (length (rg_order g)) - REPLAY_WINDOW) (rg_order g) @ [k]\<rparr>))"
proof -
  have k: "(fst k, snd k) = k" by simp
  from assms have g: "rg_seen g = set (rg_order g)" "distinct (rg_order g)" "length (rg_order g) \<le> REPLAY_WINDOW"
    "rg_cap g = REPLAY_WINDOW" by (auto simp: guard_ok_def)
  show ?thesis
  proof (cases "rg_order g")
    case Nil
    then show ?thesis using g by (simp add: see_key_def observe_def Let_def REPLAY_WINDOW_def)
  next
    case (Cons e es)
    show ?thesis
    proof (cases "length (rg_order g) = REPLAY_WINDOW")
      case True
      then have "set (rg_order g) - {e} = set es" using g(2) Cons by auto
      then show ?thesis using g True Cons by (simp add: see_key_def observe_def Let_def)
    next
      case False
      then have "Suc (length (rg_order g)) - REPLAY_WINDOW = 0" using g(3) by simp
      then show ?thesis using g False by (simp add: see_key_def observe_def Let_def)
    qed
  qed
qed

interpretation rg: recent_window guard_ok see_key rg_order REPLAY_WINDOW
proof
  fix g k
  assume g: "guard_ok g"
  let ?n = "Suc (length (rg_order g)) - REPLAY_WINDOW"
  have sub: "set (drop ?n (rg_order g)) \<subseteq> set (rg_order g)" by (rule set_drop_subset)
  show "guard_ok (snd (see_key k g))"
    using g sub unfolding see_key_cases [OF g] by (auto simp: guard_ok_def REPLAY_WINDOW_def)
  show "fst (see_key k g) \<longleftrightarrow> k \<notin> set (rg_order g)"
    by (simp add: see_key_cases [OF g])
  show "rg_order (snd (see_key k g)) = (if k \<in> set (rg_order g) then rg_order g
      else drop ?n (rg_order g) @ [k])"
    by (simp add: see_key_cases [OF g])
  show "distinct (rg_order g) \<and> length (rg_order g) \<le> REPLAY_WINDOW"
    using g by (simp add: guard_ok_def)
qed (simp add: REPLAY_WINDOW_def)

section \<open>Runs of a transport\<close>

datatype mesh_op =
    Deliver string bytes u64
  | Send worker_message u64
  | Pop address
  | Register address
  | SetEpoch u32

fun run_op :: "('k, 's, 'x) mesh_deps \<Rightarrow> mesh_op \<Rightarrow> 'x mesh_transport \<Rightarrow> 'x mesh_transport" where
  "run_op d (Deliver msg_topic data now) t = on_message d msg_topic data now t"
| "run_op d (Send msg now) t = snd (transport_broadcast d msg now t)"
| "run_op d (Pop peer) t = snd (transport_pop peer t)"
| "run_op d (Register peer) t = transport_register peer t"
| "run_op d (SetEpoch epoch) t = transport_set_epoch epoch t"

definition run_ops :: "('k, 's, 'x) mesh_deps \<Rightarrow> mesh_op list \<Rightarrow> 'x mesh_transport \<Rightarrow> 'x mesh_transport" where
  "run_ops d ops t = fold (run_op d) ops t"

text \<open>The contexts and messages a transport signs in the course of a run.\<close>

fun sent_log ::
  "('k, 's, 'x) mesh_deps \<Rightarrow> mesh_op list \<Rightarrow> 'x mesh_transport \<Rightarrow> (envelope_context \<times> worker_message) list" where
  "sent_log d [] t = []"
| "sent_log d (Send msg now # ops) t =
     (case ser_message d msg of Inl _ \<Rightarrow> [] | Inr _ \<Rightarrow> [(own_context t now, msg)]) @
     sent_log d ops (run_op d (Send msg now) t)"
| "sent_log d (x # ops) t = sent_log d ops (run_op d x t)"

definition transport_ok :: "('k, 's, 'x) mesh_deps \<Rightarrow> 'x \<Rightarrow> u64 \<Rightarrow> 'x mesh_transport \<Rightarrow> bool" where
  "transport_ok d sk job t \<longleftrightarrow> mt_signing_key t = sk \<and> mt_own_address t = address_from_signing_key d sk \<and>
     mt_own_pubkey_sec1 t = to_encoded_point d (verifying_key d sk) \<and> mt_job_id t = job \<and>
     mt_topic t = topic_for_job job \<and> guard_ok (mt_guard t) \<and> mt_task_alive t"

lemma topic_for_job_inject [simp]: "topic_for_job j = topic_for_job j' \<longleftrightarrow> j = j'"
  by (simp add: topic_for_job_def word_unat_eq_iff)

lemma observe_see: "observe a n g = see_key (a, n) g"
  by (simp add: see_key_def)

lemma verify_envelope_guard:
  "snd (verify_envelope d bs tp j ep now g) = g \<or>
   (\<exists>k. snd (verify_envelope d bs tp j ep now g) = snd (see_key k g))"
  by (auto simp: verify_envelope_def Let_def observe_see split_beta split: sum.splits)

lemma on_message_guard:
  "mt_guard (on_message d tp bs now t) = mt_guard t \<or>
   (\<exists>k. mt_guard (on_message d tp bs now t) = snd (see_key k (mt_guard t)))"
  using verify_envelope_guard [of d bs "mt_topic t" "mt_job_id t" "mt_current_epoch t" now "mt_guard t"]
  by (auto simp: on_message_def split_beta split: sum.splits)

lemma run_op_fields [simp]:
  "mt_signing_key (run_op d x t) = mt_signing_key t" "mt_own_address (run_op d x t) = mt_own_address t"
  "mt_own_pubkey_sec1 (run_op d x t) = mt_own_pubkey_sec1 t" "mt_job_id (run_op d x t) = mt_job_id t"
  "mt_topic (run_op d x t) = mt_topic t" "mt_task_alive (run_op d x t) = mt_task_alive t"
  by (cases x; auto simp: on_message_def transport_broadcast_def transport_pop_def transport_register_def
      transport_set_epoch_def Let_def split_beta split: sum.splits)+

lemma run_op_guard:
  "mt_guard (run_op d x t) = mt_guard t \<or>
   (\<exists>tp bs now k. x = Deliver tp bs now \<and> mt_guard (run_op d x t) = snd (see_key k (mt_guard t)))"
proof (cases x)
  case (Deliver tp bs now)
  then show ?thesis using on_message_guard [of d tp bs now t] by auto
qed (auto simp: transport_broadcast_def transport_pop_def transport_register_def
      transport_set_epoch_def Let_def split_beta split: sum.splits)

lemma transport_ok_step: "transport_ok d sk job t \<Longrightarrow> transport_ok d sk job (run_op d x t)"
  using run_op_guard [of d x t] rg.inv_see by (auto simp: transport_ok_def)

lemma transport_ok_new: "transport_ok d sk job (transport_new d sk job now)"
  by (simp add: transport_ok_def transport_new_def guard_ok_new)

lemma transport_ok_run: "transport_ok d sk job t \<Longrightarrow> transport_ok d sk job (run_ops d ops t)"
  unfolding run_ops_def by (induction ops arbitrary: t) (auto intro: transport_ok_step)

definition deliveries :: "mesh_op list \<Rightarrow> nat" where
  "deliveries ops = length (filter (\<lambda>x. case x of Deliver _ _ _ \<Rightarrow> True | _ \<Rightarrow> False) ops)"

lemma run_ops_guard:
  "\<exists>ks. length ks \<le> deliveries ops \<and>
     mt_guard (run_ops d ops t) = fold (\<lambda>k g. snd (see_key k g)) ks (mt_guard t)"
proof (induction ops arbitrary: t)
  case Nil
  show ?case by (intro exI [of _ "[]"]) (simp add: run_ops_def)
next
  case (Cons x ops)
  from Cons [of "run_op d x t"] obtain ks where ks: "length ks \<le> deliveries ops"
    "mt_guard (run_ops d (x # ops) t) = fold (\<lambda>k g. snd (see_key k g)) ks (mt_guard (run_op d x t))"
    by (auto simp: run_ops_def)
  from run_op_guard [of d x t] show ?case
  proof (elim disjE exE conjE)
    assume "mt_guard (run_op d x t) = mt_guard t"
    moreover have "deliveries ops \<le> deliveries (x # ops)" by (simp add: deliveries_def)
    ultimately show ?thesis using ks by (intro exI [of _ ks]) auto
  next
    fix tp bs now k
    assume "x = Deliver tp bs now" "mt_guard (run_op d x t) = snd (see_key k (mt_guard t))"
    then show ?thesis using ks by (intro exI [of _ "k # ks"]) (auto simp: deliveries_def)
  qed
qed

lemma verify_envelope_Inr:
  assumes "verify_envelope d bs tp j ep now g = (Inr (a, msg), g')"
  obtains env where "length bs \<le> MAX_ENVELOPE_BYTES" "de_envelope d bs = Inr env"
    "check_context (we_context env) tp j ep now = Inr ()" "check_sender d env = Inr a"
    "fst (see_key (a, ctx_nonce (we_context env)) g)"
    "g' = snd (see_key (a, ctx_nonce (we_context env)) g)" "de_message d (we_payload env) = Inr msg"
  using assms that by (auto simp: verify_envelope_def Let_def observe_see split_beta
      split: sum.splits if_splits)

lemma check_sender_Inr:
  assumes "check_sender d env = Inr a"
  obtains vk sg where "from_sec1_bytes d (we_pubkey_sec1 env) = Some vk"
    "a = address_from_verifying_key d vk" "a = we_sender_addr env" "from_der d (we_signature env) = Some sg"
    "verify d vk (envelope_signing_bytes d (we_context env) (we_payload env)) sg"
  using assms that by (auto simp: check_sender_def Let_def split: option.splits if_splits)

definition in_scope :: "envelope_context \<Rightarrow> string \<Rightarrow> u64 \<Rightarrow> u32 \<Rightarrow> u64 \<Rightarrow> bool" where
  "in_scope ctx tp job ep now \<longleftrightarrow> ctx_version ctx = 2 \<and> ctx_topic ctx = tp \<and> ctx_job_id ctx = job \<and>
     unat (ctx_epoch ctx) \<le> unat ep + 1 \<and> unat ep \<le> unat (ctx_epoch ctx) + 1 \<and>
     unat now \<le> unat (ctx_sent_at_ms ctx) + 300000 \<and> unat (ctx_sent_at_ms ctx) \<le> unat now + 30000"

lemma check_context_iff: "check_context ctx tp job ep now = Inr () \<longleftrightarrow> in_scope ctx tp job ep now"
proof -
  have low: "ctx_epoch ctx < sat_sub ep EPOCH_TOLERANCE \<longleftrightarrow> \<not> unat ep \<le> unat (ctx_epoch ctx) + 1"
    by (auto simp: word_less_nat_alt unat_sat EPOCH_TOLERANCE_def)
  have "unat (ctx_epoch ctx) < 2 ^ 32" using unsigned_less [of "ctx_epoch ctx", where ?'a = nat] by simp
  then have high: "ctx_epoch ctx > sat_add ep EPOCH_TOLERANCE \<longleftrightarrow> \<not> unat (ctx_epoch ctx) \<le> unat ep + 1"
    by (auto simp: word_less_nat_alt unat_sat EPOCH_TOLERANCE_def)
  have "sat_sub now (ctx_sent_at_ms ctx) > MAX_ENVELOPE_AGE_MS \<longleftrightarrow>
      \<not> unat now \<le> unat (ctx_sent_at_ms ctx) + 300000"
    "sat_sub (ctx_sent_at_ms ctx) now > MAX_ENVELOPE_FUTURE_SKEW_MS \<longleftrightarrow>
      \<not> unat (ctx_sent_at_ms ctx) \<le> unat now + 30000"
    by (auto simp: word_less_nat_alt unat_sat MAX_ENVELOPE_AGE_MS_def MAX_ENVELOPE_FUTURE_SKEW_MS_def)
  with low high show ?thesis
    by (auto simp: check_context_def in_scope_def ENVELOPE_WIRE_VERSION_def)
qed

section \<open>Only signed messages arrive\<close>

lemma check_sender_fails_unchanged:
  assumes "de_envelope d bs = Inr env" "check_sender d env = Inl e"
  shows "on_message d tp bs now t = t"
  using assms by (auto simp: on_message_def verify_envelope_def split: sum.splits)

lemma on_message_delivers:
  assumes "mt_queues (on_message d tp bs now t) \<noteq> mt_queues t"
  obtains sender msg g where "tp = mt_topic t"
    "verify_envelope d bs tp (mt_job_id t) (mt_current_epoch t) now (mt_guard t) = (Inr (sender, msg), g)"
    "enforce_sender_binding sender msg" "mt_queues (on_message d tp bs now t) = deliver sender msg (mt_queues t)"
proof -
  from assms have tp: "tp = mt_topic t" by (auto simp: on_message_def)
  obtain r g where v: "verify_envelope d bs tp (mt_job_id t) (mt_current_epoch t) now (mt_guard t) = (r, g)"
    by fastforce
  show thesis
  proof (cases r)
    case (Inl e)
    with assms v tp show thesis by (simp add: on_message_def)
  next
    case (Inr sm)
    obtain sender msg where sm: "sm = (sender, msg)" by (cases sm)
    with assms v tp Inr have "enforce_sender_binding sender msg"
      by (auto simp: on_message_def split: if_splits)
    with v tp Inr sm show thesis by (intro that) (auto simp: on_message_def)
  qed
qed

text \<open>Bytes that arrive change the queues only if they decode to an envelope in scope (this
  topic, job, version, the epoch within one of the receiver's, sent at most 5 minutes ago and at most
  30 seconds ahead) whose signature verifies under the embedded key over exactly this context and
  payload, with a nonce of this signer outside the window; and what is queued, for every peer but the
  signer, is the decoded payload, naming the signer's address where it names a worker.\<close>

theorem delivered_message_is_signed:
  assumes "mt_queues (on_message d tp bs now t) \<noteq> mt_queues t"
  shows "\<exists>env vk sg msg. de_envelope d bs = Inr env \<and>
    in_scope (we_context env) (mt_topic t) (mt_job_id t) (mt_current_epoch t) now \<and>
    from_sec1_bytes d (we_pubkey_sec1 env) = Some vk \<and> from_der d (we_signature env) = Some sg \<and>
    verify d vk (envelope_signing_bytes d (we_context env) (we_payload env)) sg \<and>
    fst (observe (address_from_verifying_key d vk) (ctx_nonce (we_context env)) (mt_guard t)) \<and>
    de_message d (we_payload env) = Inr msg \<and>
    (case msg of StepCommitted c \<Rightarrow> sc_worker c = address_from_verifying_key d vk
      | PipelineActivation _ _ _ w _ \<Rightarrow> w = address_from_verifying_key d vk | _ \<Rightarrow> True) \<and>
    mt_queues (on_message d tp bs now t) =
      scoped_broadcast (address_from_verifying_key d vk) msg (mt_queues t)"
proof -
  from on_message_delivers [OF assms] obtain sender msg g where
    v: "verify_envelope d bs tp (mt_job_id t) (mt_current_epoch t) now (mt_guard t) = (Inr (sender, msg), g)"
    and tp: "tp = mt_topic t" and bound: "enforce_sender_binding sender msg"
    and q: "mt_queues (on_message d tp bs now t) = deliver sender msg (mt_queues t)" .
  from verify_envelope_Inr [OF v] obtain env where env: "de_envelope d bs = Inr env"
    "check_context (we_context env) tp (mt_job_id t) (mt_current_epoch t) now = Inr ()"
    "check_sender d env = Inr sender" "fst (see_key (sender, ctx_nonce (we_context env)) (mt_guard t))"
    "de_message d (we_payload env) = Inr msg" .
  from check_sender_Inr [OF env(3)] obtain vk sg where vk: "from_sec1_bytes d (we_pubkey_sec1 env) = Some vk"
    "sender = address_from_verifying_key d vk" "from_der d (we_signature env) = Some sg"
    "verify d vk (envelope_signing_bytes d (we_context env) (we_payload env)) sg" .
  show ?thesis
    using env vk tp q bound
    by (intro exI [of _ env] exI [of _ vk] exI [of _ sg] exI [of _ msg])
      (auto simp: check_context_iff observe_see deliver_def scoped_broadcast_def enforce_sender_binding_def
        split: worker_message.splits)
qed

lemma sent_log_scope:
  assumes "(ctx, m) \<in> set (sent_log d ops t)"
  shows "ctx_job_id ctx = mt_job_id t \<and> ctx_topic ctx = mt_topic t \<and> ctx_version ctx = ENVELOPE_WIRE_VERSION"
  using assms by (induction d ops t rule: sent_log.induct)
    (auto simp: own_context_def simp del: run_op.simps split: sum.splits)

text \<open>C32: A message delivered under the address of an honest worker was broadcast by that worker,
  on the job's own mesh and within the window: if only the worker signs with its key, the key is the
  only one at hand with its address, and a decoder that accepts an encoding gives back what was encoded (it may
  refuse one, as the limited one does beyond four mebibytes), then the receiver's job is the
  worker's and the worker sent exactly this message with a context in the receiver's scope.\<close>

theorem delivered_message_was_broadcast:
  assumes accepted: "fst (verify_envelope d bs (mt_topic r) (mt_job_id r) (mt_current_epoch r) now (mt_guard r))
      = Inr (address_from_signing_key d sk, msg)"
    and unforgeable: "\<And>m sg. verify d (verifying_key d sk) m sg \<Longrightarrow>
      \<exists>(ctx, msg') \<in> set (sent_log d ops (transport_new d sk job t0)). \<exists>p.
        ser_message d msg' = Inr p \<and> m = envelope_signing_bytes d ctx p"
    and own_key: "\<And>env vk. de_envelope d bs = Inr env \<Longrightarrow> from_sec1_bytes d (we_pubkey_sec1 env) = Some vk \<Longrightarrow>
      address_from_verifying_key d vk = address_from_signing_key d sk \<Longrightarrow> vk = verifying_key d sk"
    and self_delimiting: "\<And>c c' p p'. ser_context d c @ p = ser_context d c' @ p' \<Longrightarrow> c = c' \<and> p = p'"
    and faithful: "\<And>m p m'. ser_message d m = Inr p \<Longrightarrow> de_message d p = Inr m' \<Longrightarrow> m' = m"
  shows "mt_job_id r = job \<and> (\<exists>ctx. (ctx, msg) \<in> set (sent_log d ops (transport_new d sk job t0)) \<and>
    in_scope ctx (topic_for_job job) job (mt_current_epoch r) now)"
proof -
  obtain g where v: "verify_envelope d bs (mt_topic r) (mt_job_id r) (mt_current_epoch r) now (mt_guard r)
      = (Inr (address_from_signing_key d sk, msg), g)"
    using accepted by (metis prod.collapse)
  from verify_envelope_Inr [OF v] obtain env where env: "de_envelope d bs = Inr env"
    "check_context (we_context env) (mt_topic r) (mt_job_id r) (mt_current_epoch r) now = Inr ()"
    "check_sender d env = Inr (address_from_signing_key d sk)" "de_message d (we_payload env) = Inr msg" .
  from check_sender_Inr [OF env(3)] obtain vk sg where vk: "from_sec1_bytes d (we_pubkey_sec1 env) = Some vk"
    "address_from_signing_key d sk = address_from_verifying_key d vk"
    "verify d vk (envelope_signing_bytes d (we_context env) (we_payload env)) sg" .
  from own_key [OF env(1) vk(1)] vk(2) have "vk = verifying_key d sk" by simp
  with unforgeable vk(3) obtain ctx msg' p where sent: "(ctx, msg') \<in> set (sent_log d ops (transport_new d sk job t0))"
    and p: "ser_message d msg' = Inr p"
      "envelope_signing_bytes d (we_context env) (we_payload env) = envelope_signing_bytes d ctx p"
    by blast
  from p(2) have "we_context env = ctx \<and> we_payload env = p"
    by (auto simp: envelope_signing_bytes_def dest!: self_delimiting)
  with env(4) faithful [OF p(1)] have "msg' = msg" and ctx: "we_context env = ctx" by auto
  have "ctx_job_id ctx = job \<and> ctx_topic ctx = topic_for_job job"
    using sent_log_scope [OF sent] by (simp add: transport_new_def)
  moreover from env(2) ctx have "in_scope ctx (mt_topic r) (mt_job_id r) (mt_current_epoch r) now"
    by (simp add: check_context_iff)
  ultimately show ?thesis using sent \<open>msg' = msg\<close> by (auto simp: in_scope_def)
qed

section \<open>Replays\<close>

text \<open>An envelope that was accepted once is refused, and changes nothing, until at least 4096
  further envelopes have been delivered, whatever else the transport does and whatever the clock
  and the epoch are by then.\<close>

theorem replay_is_refused:
  assumes ok: "transport_ok d sk job t"
    and accepted: "fst (verify_envelope d bs (mt_topic t) (mt_job_id t) (mt_current_epoch t) now (mt_guard t))
      = Inr (a, msg)"
    and few: "deliveries ops < REPLAY_WINDOW"
  shows "on_message d tp bs now' (run_ops d (Deliver (mt_topic t) bs now # ops) t) =
    run_ops d (Deliver (mt_topic t) bs now # ops) t"
proof -
  obtain g where v: "verify_envelope d bs (mt_topic t) (mt_job_id t) (mt_current_epoch t) now (mt_guard t)
      = (Inr (a, msg), g)"
    using accepted by (metis prod.collapse)
  from verify_envelope_Inr [OF v] obtain env where env: "de_envelope d bs = Inr env"
    "check_sender d env = Inr a" "fst (see_key (a, ctx_nonce (we_context env)) (mt_guard t))"
    "g = snd (see_key (a, ctx_nonce (we_context env)) (mt_guard t))" .
  let ?t1 = "run_op d (Deliver (mt_topic t) bs now) t" and ?t2 = "run_ops d (Deliver (mt_topic t) bs now # ops) t"
  have "mt_guard ?t1 = g" using v by (auto simp: on_message_def)
  moreover obtain ks where "length ks \<le> deliveries ops"
      "mt_guard (run_ops d ops ?t1) = fold (\<lambda>k g. snd (see_key k g)) ks (mt_guard ?t1)"
    using run_ops_guard by blast
  ultimately have "\<not> fst (see_key (a, ctx_nonce (we_context env)) (mt_guard ?t2))"
    using rg.refused_within_window [of "mt_guard t" "(a, ctx_nonce (we_context env))" ks] ok env(3,4) few
    by (simp add: run_ops_def transport_ok_def)
  moreover have "guard_ok (mt_guard ?t2)"
    using transport_ok_run [OF ok] by (simp add: transport_ok_def)
  ultimately have "observe a (ctx_nonce (we_context env)) (mt_guard ?t2) = (False, mt_guard ?t2)"
    using see_key_cases [of "mt_guard ?t2"] by (auto simp: observe_see split: if_splits)
  then show ?thesis
    using env(1,2) by (auto simp: on_message_def verify_envelope_def split: sum.splits)
qed

text \<open>The number is exact: 4096 other new pairs push a pair out of the window.\<close>

lemma window_is_exact:
  assumes "guard_ok g" "k \<in> set (rg_order g)" "distinct ks" "set ks \<inter> set (rg_order g) = {}"
    "length ks = REPLAY_WINDOW"
  shows "fst (see_key k (fold (\<lambda>k g. snd (see_key k g)) ks g))"
  using rg.accepted_after_window [OF assms(1,3,4,5,2)] .

text \<open>Bytes change the transport only if they decode to an envelope whose sender check passes
  and whose context is in scope; then the window takes in exactly the signer and the signed nonce.
  Nothing unsigned can fill the window or push an entry out of it.\<close>

theorem unauthenticated_bytes_change_nothing:
  "on_message d tp bs now t = t \<or>
   (\<exists>env a. de_envelope d bs = Inr env \<and> check_sender d env = Inr a \<and>
      in_scope (we_context env) (mt_topic t) (mt_job_id t) (mt_current_epoch t) now \<and>
      mt_guard (on_message d tp bs now t) = snd (observe a (ctx_nonce (we_context env)) (mt_guard t)))"
proof (cases "length bs \<le> MAX_ENVELOPE_BYTES \<and> tp = mt_topic t \<and> (\<exists>env a. de_envelope d bs = Inr env \<and>
    check_sender d env = Inr a \<and>
    check_context (we_context env) (mt_topic t) (mt_job_id t) (mt_current_epoch t) now = Inr ())")
  case True
  then show ?thesis
    by (auto simp: on_message_def verify_envelope_def check_context_iff Let_def split_beta split: sum.splits)
next
  case False
  then have "on_message d tp bs now t = t"
    by (auto simp: on_message_def verify_envelope_def split: sum.splits)
  then show ?thesis ..
qed

section \<open>An honest envelope arrives\<close>

text \<open>What a transport broadcasts is delivered: if the message names no other worker, the
  encodings and the signature read back and the frame is within the limit, then a receiver of the same
  job, whose epoch is within one and whose clock is at most 5 minutes ahead or 30 seconds behind, and
  which has not seen the nonce, queues the message for every registered peer but the sender.\<close>

theorem broadcast_arrives:
  assumes s: "transport_ok d sk job s" and r: "transport_ok d sk' job r"
    and sent: "transport_broadcast d msg now s = (Inr (), s')"
    and own: "enforce_sender_binding (address_from_signing_key d sk) msg"
    and codec: "\<And>p bs. ser_message d msg = Inr p \<Longrightarrow> ser_envelope d (own_envelope d s now p) = Inr bs \<Longrightarrow>
      de_message d p = Inr msg \<and> de_envelope d bs = Inr (own_envelope d s now p) \<and>
      length bs \<le> MAX_ENVELOPE_BYTES"
    and key: "from_sec1_bytes d (to_encoded_point d (verifying_key d sk)) = Some (verifying_key d sk)"
    and signature: "\<And>m. from_der d (to_der d (sign d sk m)) = Some (sign d sk m) \<and>
      verify d (verifying_key d sk) m (sign d sk m)"
    and epoch: "unat (mt_current_epoch s) \<le> unat (mt_current_epoch r) + 1"
      "unat (mt_current_epoch r) \<le> unat (mt_current_epoch s) + 1"
    and clock: "unat now' \<le> unat now + 300000" "unat now \<le> unat now' + 30000"
    and unseen: "(address_from_signing_key d sk, mt_nonce s) \<notin> rg_seen (mt_guard r)"
  shows "\<exists>bs. mt_outbox s' = mt_outbox s @ [bs] \<and>
    mt_queues (on_message d (mt_topic s) bs now' r) =
      scoped_broadcast (mt_own_address s) msg (mt_queues r)"
proof -
  from sent obtain p bs where p: "ser_message d msg = Inr p"
    and bs: "ser_envelope d (own_envelope d s now p) = Inr bs" "mt_outbox s' = mt_outbox s @ [bs]"
    by (auto simp: transport_broadcast_def Let_def split: sum.splits if_splits)
  note reads = codec [OF p bs(1)]
  let ?env = "own_envelope d s now p" and ?a = "address_from_signing_key d sk"
  have ctx: "we_context ?env = own_context s now" by (simp add: own_envelope_def)
  have "check_context (own_context s now) (mt_topic r) (mt_job_id r) (mt_current_epoch r) now' = Inr ()"
    using s r epoch clock
    by (simp add: check_context_iff in_scope_def own_context_def transport_ok_def ENVELOPE_WIRE_VERSION_def)
  moreover have "check_sender d ?env = Inr ?a"
    using s key signature
    by (simp add: check_sender_def own_envelope_def transport_ok_def Let_def address_from_signing_key_def)
  moreover have "fst (observe ?a (mt_nonce s) (mt_guard r))"
    using unseen by (simp add: observe_def Let_def)
  ultimately obtain g where "verify_envelope d bs (mt_topic r) (mt_job_id r) (mt_current_epoch r) now' (mt_guard r)
      = (Inr (?a, msg), g)"
    using reads ctx by (auto simp: verify_envelope_def Let_def split_beta own_context_def own_envelope_def)
  then have "mt_queues (on_message d (mt_topic s) bs now' r) = deliver ?a msg (mt_queues r)"
    using s r own by (simp add: on_message_def transport_ok_def)
  then show ?thesis using bs(2) s
    by (intro exI [of _ bs]) (simp add: transport_ok_def deliver_def scoped_broadcast_def)
qed

text \<open>The nonces of a transport's own envelopes count up from its first.\<close>

lemma own_nonces:
  "map (ctx_nonce \<circ> fst) (sent_log d ops t) =
     map (\<lambda>i. mt_nonce t + of_nat i) [0..<length (sent_log d ops t)]"
proof (induction d ops t rule: sent_log.induct)
  case (2 d msg now ops t)
  show ?case
  proof (cases "ser_message d msg")
    case (Inl e)
    then show ?thesis using 2 by (simp add: transport_broadcast_def)
  next
    case (Inr p)
    have next1: "mt_nonce (run_op d (Send msg now) t) = mt_nonce t + 1"
      using Inr by (auto simp: transport_broadcast_def Let_def split: sum.splits)
    have "[0..<Suc n] = 0 # map Suc [0..<n]" for n
      by (simp add: map_Suc_upt upt_conv_Cons del: upt_Suc)
    then show ?thesis
      using 2 Inr next1 by (simp add: own_context_def comp_def add.assoc del: run_op.simps upt_Suc)
  qed
qed (auto simp: on_message_def transport_pop_def transport_register_def transport_set_epoch_def split_beta
    split: sum.splits)

section \<open>A sample mesh\<close>

text \<open>
  A toy instance of the parameters, to evaluate the operations: keys are bytes, a signature repeats
  the signed bytes after the key, and \<open>V\<close> says what a key has signed.  Its context encoding
  writes the length of the topic in unary, so that it delimits itself.
\<close>

definition sample_ser_context :: "envelope_context \<Rightarrow> bytes" where
  "sample_ser_context c = replicate (length (ctx_topic c)) 1 @ 0 # str_bytes (ctx_topic c) @
     to_be_bytes (ctx_job_id c) @ to_be_bytes (ctx_epoch c) @ to_be_bytes (ctx_nonce c) @
     to_be_bytes (ctx_sent_at_ms c) @ [ctx_version c]"

definition sample_ser_message :: "worker_message \<Rightarrow> string + bytes" where
  "sample_ser_message m = (case m of EpochClose e \<Rightarrow> Inr (to_be_bytes e) | _ \<Rightarrow> Inl ''other'')"

definition sample_de_message :: "bytes \<Rightarrow> string + worker_message" where
  "sample_de_message p = (if length p = 4 then Inr (EpochClose (from_be_bytes p)) else Inl ''short'')"

definition sample_deps :: "(u8 \<Rightarrow> bytes \<Rightarrow> bool) \<Rightarrow> wire_envelope \<Rightarrow> (u8, bytes, u8) mesh_deps" where
  "sample_deps V E =
     \<lparr>keccak = \<lambda>bs. of_nat (le_value bs), ser_context = sample_ser_context,
      ser_message = sample_ser_message, de_message = sample_de_message,
      ser_envelope = \<lambda>_. Inr [], de_envelope = \<lambda>_. Inr E,
      from_sec1_bytes = \<lambda>bs. case bs of [_, v] \<Rightarrow> Some v | _ \<Rightarrow> None, to_encoded_point = \<lambda>v. [4, v],
      from_der = Some, to_der = \<lambda>s. s, verify = \<lambda>vk m s. s = vk # m \<and> V vk m,
      sign = \<lambda>x m. x # m, verifying_key = \<lambda>x. x\<rparr>"

definition sample_context :: envelope_context where
  "sample_context = \<lparr>ctx_version = 2, ctx_job_id = 5, ctx_epoch = 0, ctx_nonce = 1000,
     ctx_topic = topic_for_job 5, ctx_sent_at_ms = 2000\<rparr>"

definition sample_signed :: bytes where
  "sample_signed = ENVELOPE_DOMAIN_TAG @ sample_ser_context sample_context @ to_be_bytes (3 :: u32)"

definition sample_envelope :: wire_envelope where
  "sample_envelope = \<lparr>we_context = sample_context, we_sender_addr = 7, we_payload = to_be_bytes (3 :: u32),
     we_signature = 7 # sample_signed, we_pubkey_sec1 = [4, 7]\<rparr>"

definition sample_mesh :: "(u8, bytes, u8) mesh_deps" where
  "sample_mesh = sample_deps (\<lambda>vk m. vk = 7 \<longrightarrow> m = sample_signed) sample_envelope"

definition open_mesh :: "(u8, bytes, u8) mesh_deps" where
  "open_mesh = sample_deps (\<lambda>vk m. True) sample_envelope"

lemma unary_inject:
  "replicate m (1 :: u8) @ 0 # xs = replicate n 1 @ 0 # ys \<longleftrightarrow> m = n \<and> xs = ys"
proof (induction m arbitrary: n)
  case 0
  then show ?case by (cases n) auto
next
  case (Suc m)
  then show ?case by (cases n) auto
qed

lemma sample_self_delimiting:
  assumes "sample_ser_context c @ p = sample_ser_context c' @ p'"
  shows "c = c' \<and> p = p'"
proof -
  from assms have l: "length (ctx_topic c) = length (ctx_topic c')"
    and r: "str_bytes (ctx_topic c) @ to_be_bytes (ctx_job_id c) @ to_be_bytes (ctx_epoch c) @
        to_be_bytes (ctx_nonce c) @ to_be_bytes (ctx_sent_at_ms c) @ ctx_version c # p =
      str_bytes (ctx_topic c') @ to_be_bytes (ctx_job_id c') @ to_be_bytes (ctx_epoch c') @
        to_be_bytes (ctx_nonce c') @ to_be_bytes (ctx_sent_at_ms c') @ ctx_version c' # p'"
    by (simp_all add: sample_ser_context_def unary_inject)
  then show ?thesis by (cases c; cases c') simp
qed

lemma sample_fields [simp]:
  "keccak (sample_deps V E) bs = of_nat (le_value bs)" "ser_context (sample_deps V E) = sample_ser_context"
  "ser_message (sample_deps V E) = sample_ser_message" "de_message (sample_deps V E) = sample_de_message"
  "ser_envelope (sample_deps V E) = (\<lambda>_. Inr [])" "de_envelope (sample_deps V E) bs = Inr E"
  "from_sec1_bytes (sample_deps V E) bs = (case bs of [_, v] \<Rightarrow> Some v | _ \<Rightarrow> None)"
  "to_encoded_point (sample_deps V E) v = [4, v]"
  "from_der (sample_deps V E) sg = Some sg" "to_der (sample_deps V E) sg = sg"
  "verify (sample_deps V E) vk m sg \<longleftrightarrow> sg = vk # m \<and> V vk m"
  "sign (sample_deps V E) x m = x # m" "verifying_key (sample_deps V E) x = x"
  by (simp_all add: sample_deps_def)

lemma sample_address [simp]:
  "address_from_verifying_key (sample_deps V E) v = ucast v"
  "address_from_signing_key (sample_deps V E) v = ucast v"
proof -
  have "(ucast (ucast v :: b256) :: address) = ucast v"
    by transfer (simp add: min_def)
  then show "address_from_verifying_key (sample_deps V E) v = ucast v"
    by (simp add: address_from_verifying_key_def)
  then show "address_from_signing_key (sample_deps V E) v = ucast v"
    by (simp add: address_from_signing_key_def)
qed

lemma sample_accepted:
  assumes "V 7 sample_signed"
  shows "verify_envelope (sample_deps V sample_envelope) [] (topic_for_job 5) 5 0 2000
      (replay_guard_new REPLAY_WINDOW) =
    (Inr (7, EpochClose 3), snd (observe 7 1000 (replay_guard_new REPLAY_WINDOW)))"
proof -
  have "check_context sample_context (topic_for_job 5) 5 0 2000 = Inr ()"
    by (simp add: check_context_iff in_scope_def sample_context_def)
  moreover have "check_sender (sample_deps V sample_envelope) sample_envelope = Inr 7"
    using assms by (simp add: check_sender_def sample_envelope_def envelope_signing_bytes_def sample_signed_def)
  moreover have "fst (observe 7 1000 (replay_guard_new REPLAY_WINDOW))"
    by (simp add: observe_def replay_guard_new_def Let_def)
  moreover have "sample_de_message (to_be_bytes (3 :: u32)) = Inr (EpochClose 3)"
    by (simp add: sample_de_message_def)
  ultimately show ?thesis
    by (simp add: verify_envelope_def split_beta sample_envelope_def sample_context_def)
qed

definition sample_receiver :: "u8 mesh_transport" where
  "sample_receiver = transport_new open_mesh 9 5 1000"

lemma sample_receiver_fields [simp]:
  "mt_topic sample_receiver = topic_for_job 5" "mt_job_id sample_receiver = 5"
  "mt_current_epoch sample_receiver = 0" "mt_guard sample_receiver = replay_guard_new REPLAY_WINDOW"
  "mt_queues sample_receiver = [9 \<mapsto> []]"
  by (simp_all add: sample_receiver_def transport_new_def open_mesh_def)

lemma sample_delivery:
  "mt_queues (on_message open_mesh (topic_for_job 5) [] 2000 sample_receiver) = [9 \<mapsto> [EpochClose 3]]"
  by (auto simp: on_message_def open_mesh_def sample_accepted enforce_sender_binding_def deliver_def)

theorem delivered_message_is_signed_witness:
  "\<exists>env vk sg msg. de_envelope open_mesh [] = Inr env \<and>
    in_scope (we_context env) (topic_for_job 5) 5 0 2000 \<and>
    from_sec1_bytes open_mesh (we_pubkey_sec1 env) = Some vk \<and>
    verify open_mesh vk (envelope_signing_bytes open_mesh (we_context env) (we_payload env)) sg \<and>
    de_message open_mesh (we_payload env) = Inr msg"
proof -
  have "[9 \<mapsto> [EpochClose 3]] 9 \<noteq> [9 \<mapsto> []] (9 :: address)" by simp
  then have "mt_queues (on_message open_mesh (topic_for_job 5) [] 2000 sample_receiver) \<noteq> mt_queues sample_receiver"
    by (metis sample_delivery sample_receiver_fields(5))
  from delivered_message_is_signed [OF this] show ?thesis
    unfolding sample_receiver_fields by blast
qed

theorem delivered_message_was_broadcast_witness:
  "\<exists>ctx. (ctx, EpochClose 3) \<in> set (sent_log sample_mesh [Send (EpochClose 3) 2000]
      (transport_new sample_mesh 7 5 1000)) \<and> in_scope ctx (topic_for_job 5) 5 0 2000"
proof -
  let ?log = "sent_log sample_mesh [Send (EpochClose 3) 2000] (transport_new sample_mesh 7 5 1000)"
  have log: "?log = [(sample_context, EpochClose 3)]"
    by (simp add: sample_mesh_def sample_ser_message_def own_context_def transport_new_def
        sample_context_def ENVELOPE_WIRE_VERSION_def)
  have "mt_job_id sample_receiver = 5 \<and> (\<exists>ctx. (ctx, EpochClose 3) \<in> set ?log \<and>
      in_scope ctx (topic_for_job 5) 5 (mt_current_epoch sample_receiver) 2000)"
  proof (rule delivered_message_was_broadcast [where bs = "[]"])
    show "fst (verify_envelope sample_mesh [] (mt_topic sample_receiver) (mt_job_id sample_receiver)
        (mt_current_epoch sample_receiver) 2000 (mt_guard sample_receiver)) =
      Inr (address_from_signing_key sample_mesh 7, EpochClose 3)"
      by (simp add: sample_mesh_def sample_accepted)
    show "\<exists>(ctx, msg') \<in> set ?log. \<exists>p. ser_message sample_mesh msg' = Inr p \<and>
        m = envelope_signing_bytes sample_mesh ctx p"
      if "verify sample_mesh (verifying_key sample_mesh 7) m sg" for m sg
      using that unfolding log
      by (simp add: sample_mesh_def sample_ser_message_def envelope_signing_bytes_def sample_signed_def)
    show "vk = verifying_key sample_mesh 7" if "de_envelope sample_mesh [] = Inr env"
        "from_sec1_bytes sample_mesh (we_pubkey_sec1 env) = Some vk" for env vk
      using that by (auto simp: sample_mesh_def sample_envelope_def)
    show "c = c' \<and> p = p'" if "ser_context sample_mesh c @ p = ser_context sample_mesh c' @ p'" for c c' p p'
      using that sample_self_delimiting by (simp add: sample_mesh_def)
    show "m' = m" if "ser_message sample_mesh m = Inr p" "de_message sample_mesh p = Inr m'" for m p m'
      using that by (auto simp: sample_mesh_def sample_ser_message_def sample_de_message_def
          split: worker_message.splits)
  qed
  then show ?thesis by simp
qed

theorem replay_is_refused_witness:
  "on_message open_mesh (topic_for_job 5) [] 9999
     (run_ops open_mesh [Deliver (topic_for_job 5) [] 2000, SetEpoch 1, Pop 9] sample_receiver) =
   run_ops open_mesh [Deliver (topic_for_job 5) [] 2000, SetEpoch 1, Pop 9] sample_receiver"
proof -
  have "transport_ok open_mesh 9 5 sample_receiver"
    unfolding sample_receiver_def by (rule transport_ok_new)
  moreover have "fst (verify_envelope open_mesh [] (mt_topic sample_receiver) (mt_job_id sample_receiver)
      (mt_current_epoch sample_receiver) 2000 (mt_guard sample_receiver)) = Inr (7, EpochClose 3)"
    by (simp add: open_mesh_def sample_accepted)
  moreover have "deliveries [SetEpoch 1, Pop 9] < REPLAY_WINDOW"
    by (simp add: deliveries_def REPLAY_WINDOW_def)
  ultimately show ?thesis
    using replay_is_refused [of open_mesh 9 5 sample_receiver "[]" 2000 7 "EpochClose 3"
        "[SetEpoch 1, Pop 9]" "topic_for_job 5" 9999] by simp
qed

theorem broadcast_arrives_witness:
  "\<exists>bs. mt_queues (on_message open_mesh (topic_for_job 5) bs 2500 sample_receiver) = [9 \<mapsto> [EpochClose 3]]"
proof -
  let ?s = "transport_new open_mesh 7 5 1000"
  have env: "own_envelope open_mesh ?s 2000 (to_be_bytes (3 :: u32)) = sample_envelope"
    by (simp add: own_envelope_def transport_new_def open_mesh_def sample_envelope_def own_context_def
        sample_context_def envelope_signing_bytes_def sample_signed_def ENVELOPE_WIRE_VERSION_def)
  have mesh: "ser_message open_mesh (EpochClose 3) = Inr (to_be_bytes (3 :: u32))"
    "ser_envelope open_mesh e = Inr []" "de_envelope open_mesh bs = Inr sample_envelope" for e bs
    by (simp_all add: open_mesh_def sample_ser_message_def)
  have sent: "fst (transport_broadcast open_mesh (EpochClose 3) 2000 ?s) = Inr ()"
    by (simp add: transport_broadcast_def mesh Let_def) (simp add: transport_new_def)
  have "\<exists>bs. mt_outbox (snd (transport_broadcast open_mesh (EpochClose 3) 2000 ?s)) = mt_outbox ?s @ [bs] \<and>
      mt_queues (on_message open_mesh (mt_topic ?s) bs 2500 sample_receiver) =
        scoped_broadcast (mt_own_address ?s) (EpochClose 3) (mt_queues sample_receiver)"
  proof (rule broadcast_arrives [where sk = 7 and sk' = 9 and job = 5 and now = 2000])
    show "transport_ok open_mesh 7 5 ?s" by (rule transport_ok_new)
    show "transport_ok open_mesh 9 5 sample_receiver"
      unfolding sample_receiver_def by (rule transport_ok_new)
    show "transport_broadcast open_mesh (EpochClose 3) 2000 ?s =
        (Inr (), snd (transport_broadcast open_mesh (EpochClose 3) 2000 ?s))"
      using sent by (metis prod.collapse)
    show "de_message open_mesh p = Inr (EpochClose 3) \<and>
        de_envelope open_mesh bs = Inr (own_envelope open_mesh ?s 2000 p) \<and> length bs \<le> MAX_ENVELOPE_BYTES"
      if "ser_message open_mesh (EpochClose 3) = Inr p"
        "ser_envelope open_mesh (own_envelope open_mesh ?s 2000 p) = Inr bs" for p bs
      using that env by (auto simp: mesh) (simp add: open_mesh_def sample_de_message_def)
  qed (simp_all add: enforce_sender_binding_def open_mesh_def transport_new_def replay_guard_new_def)
  then obtain bs where "mt_queues (on_message open_mesh (mt_topic ?s) bs 2500 sample_receiver) =
      scoped_broadcast (mt_own_address ?s) (EpochClose 3) (mt_queues sample_receiver)" by blast
  moreover have "mt_topic ?s = topic_for_job 5" "mt_own_address ?s = 7"
    by (simp_all add: transport_new_def open_mesh_def)
  moreover have "scoped_broadcast 7 (EpochClose 3) [9 \<mapsto> []] = [9 \<mapsto> [EpochClose 3]]"
    by (auto simp: scoped_broadcast_def)
  ultimately show ?thesis by (metis sample_receiver_fields(5))
qed

end
