(* ===== verification/Evm_Abi.thy ===== *)
theory Evm_Abi
  imports Fl_Hex Protocol
begin

text \<open>
  The hand-written ABI codec of \<^verbatim>\<open>pool-coordinator/src/http_chain.rs\<close>: words, addresses, the decoders
  of an \<^verbatim>\<open>address[]\<close>, of a \<^verbatim>\<open>PoolMember\<close> and of a dynamic \<^verbatim>\<open>bytes\<close> field, the two levels of a job
  specification, hexadecimal quantities and the topics of a log; and the errors of the coordinator,
  \<^verbatim>\<open>pool-coordinator/src/error.rs\<close>.

  The text of an error is its fixed part.  \<open>Panic\<close> is not a Rust value: it stands for an unwinding
  thread, so that an operation which may panic (a slice out of range, \<^verbatim>\<open>from_slice\<close> on the wrong
  length) says so.  \<^verbatim>\<open>usize\<close> has 64 bits.  Keccak-256, the \<^verbatim>\<open>hex\<close> crate and the hexadecimal reader of
  \<^verbatim>\<open>U256\<close> are parameters.
\<close>

datatype coordinator_error =
    NotCoordinator
  | Chain string
  | ProviderFailed string
  | NoMembers u64
  | UnknownMemberEndpoint address
  | RejectedEvent string
  | Internal string
  | Panic

type_synonym 'a coordinator_result = "coordinator_error + 'a"

text \<open>\<^verbatim>\<open>r?\<close> in a function that returns a result.\<close>

definition bind_ok :: "'e + 'a \<Rightarrow> ('a \<Rightarrow> 'e + 'b) \<Rightarrow> 'e + 'b" where
  "bind_ok r f = (case r of Inl e \<Rightarrow> Inl e | Inr a \<Rightarrow> f a)"

lemma map_sum_Inr_iff: "map_sum f g x = Inr b \<longleftrightarrow> (\<exists>a. x = Inr a \<and> g a = b)"
  by (cases x) auto

lemma bind_ok_Inr: "bind_ok r f = Inr b \<longleftrightarrow> (\<exists>a. r = Inr a \<and> f a = Inr b)"
  by (auto simp: bind_ok_def split: sum.splits)

definition ok_or :: "'e \<Rightarrow> 'a option \<Rightarrow> 'e + 'a" where
  "ok_or e x = (case x of None \<Rightarrow> Inl e | Some a \<Rightarrow> Inr a)"

fun map_ok :: "('a \<Rightarrow> 'e + 'b) \<Rightarrow> 'a list \<Rightarrow> 'e + 'b list" where
  "map_ok f [] = Inr []"
| "map_ok f (x # xs) = bind_ok (f x) (\<lambda>y. bind_ok (map_ok f xs) (\<lambda>ys. Inr (y # ys)))"

definition slice :: "nat \<Rightarrow> nat \<Rightarrow> bytes \<Rightarrow> bytes coordinator_result" where
  "slice a b bs = (if a \<le> b \<and> b \<le> length bs then Inr (take (b - a) (drop a bs)) else Inl Panic)"

definition index :: "nat \<Rightarrow> 'a list \<Rightarrow> 'a coordinator_result" where
  "index i xs = (if i < length xs then Inr (xs ! i) else Inl Panic)"

definition h160_from_slice :: "bytes \<Rightarrow> address coordinator_result" where
  "h160_from_slice bs = (if length bs = 20 then Inr (from_be_bytes bs) else Inl Panic)"

definition u256_from_big_endian :: "bytes \<Rightarrow> u256 coordinator_result" where
  "u256_from_big_endian bs = (if length bs \<le> 32 then Inr (from_be_bytes bs) else Inl Panic)"

definition u256_to_u64 :: "u256 \<Rightarrow> u64 coordinator_result" where
  "u256_to_u64 v = (if v > ucast (- 1 :: u64) then Inl (Chain ''value exceeds u64::MAX'') else Inr (ucast v))"

definition u256_to_usize :: "u256 \<Rightarrow> u64 coordinator_result" where
  "u256_to_usize v =
     (if v > ucast (- 1 :: u64) then Inl (Chain ''length/offset word exceeds usize::MAX'') else Inr (ucast v))"

definition as_u32 :: "u256 \<Rightarrow> u32 coordinator_result" where
  "as_u32 v = (if v > ucast (- 1 :: u32) then Inl Panic else Inr (ucast v))"

definition u256_word :: "u256 \<Rightarrow> bytes" where
  "u256_word v = to_be_bytes v"

definition pad_address_left :: "address \<Rightarrow> bytes" where
  "pad_address_left a = replicate 12 0 @ to_be_bytes a"

definition address_of_word :: "bytes \<Rightarrow> address coordinator_result" where
  "address_of_word word = bind_ok (slice 12 32 word) h160_from_slice"

definition decode_address_array :: "bytes \<Rightarrow> address list coordinator_result" where
  "decode_address_array bs =
     (if length bs < 64 then Inl (Chain ''address[] return too short'')
      else
        bind_ok (slice 32 64 bs) (\<lambda>w. bind_ok (u256_from_big_endian w) (\<lambda>v. bind_ok (u256_to_usize v) (\<lambda>len.
        bind_ok (ok_or (Chain ''address[] length overflows buffer arithmetic'')
                   (Option.bind (checked_mul len 32) (\<lambda>n. checked_add n 64))) (\<lambda>expected.
        if length bs < unat expected then Inl (Chain ''address[] truncated'')
        else map_ok (\<lambda>i. bind_ok (slice (64 + i * 32) (64 + i * 32 + 32) bs) address_of_word)
               [0..<unat len])))))"

definition decode_member_struct :: "bytes \<Rightarrow> (u32 \<times> bool) coordinator_result" where
  "decode_member_struct bs =
     (if length bs < 160 then Inl (Chain ''PoolMember return too short'')
      else
        bind_ok (slice 0 32 bs) (\<lambda>w. bind_ok (u256_from_big_endian w) (\<lambda>v.
        bind_ok (if v > ucast (- 1 :: u32) then Inr (- 1) else as_u32 v) (\<lambda>gpu_count.
        bind_ok (index 159 bs) (\<lambda>b. Inr (gpu_count, b \<noteq> 0))))))"

definition decode_dynamic_bytes_at_offset :: "bytes \<Rightarrow> nat \<Rightarrow> bytes coordinator_result" where
  "decode_dynamic_bytes_at_offset buf offset_word_pos =
     (if length buf < offset_word_pos + 32 then Inl (Chain ''offset word out of range'')
      else
        bind_ok (slice offset_word_pos (offset_word_pos + 32) buf) (\<lambda>w.
        bind_ok (u256_from_big_endian w) (\<lambda>v. bind_ok (u256_to_usize v) (\<lambda>offset.
        bind_ok (ok_or (Chain ''dynamic bytes offset overflow'') (checked_add offset 32)) (\<lambda>offset_end.
        if length buf < unat offset_end then Inl (Chain ''dynamic bytes length word out of range'')
        else
          bind_ok (slice (unat offset) (unat offset_end) buf) (\<lambda>w. bind_ok (u256_from_big_endian w) (\<lambda>v.
          bind_ok (u256_to_usize v) (\<lambda>len.
          bind_ok (ok_or (Chain ''dynamic bytes len overflow'') (checked_add offset_end len)) (\<lambda>data_end.
          if length buf < unat data_end then Inl (Chain ''dynamic bytes data truncated'')
          else slice (unat offset_end) (unat data_end) buf)))))))))"

section \<open>The job specification\<close>

definition DEFAULT_MAX_TOKENS :: u32 where "DEFAULT_MAX_TOKENS = 1000"

text \<open>The bytes that \<^verbatim>\<open>getJob\<close> returns, read by \<^verbatim>\<open>fetch_job_spec\<close>: the prompt (as UTF-8 bytes) and the
  token limit.\<close>

definition decode_job_spec :: "bytes \<Rightarrow> (string \<times> u32) coordinator_result" where
  "decode_job_spec ret =
     (if length ret < 256 then Inl (Chain ''PoolJob return too short'')
      else
        bind_ok (decode_dynamic_bytes_at_offset ret 64) (\<lambda>jobspec.
        if jobspec = [] then Inr ([], DEFAULT_MAX_TOKENS)
        else if length jobspec < 224 then Inl (Chain ''PoolJobSpec too short'')
        else
          bind_ok (slice 128 160 jobspec) (\<lambda>w. bind_ok (u256_from_big_endian w) (\<lambda>v.
          bind_ok (if v > ucast (- 1 :: u32) then Inr (- 1)
                   else bind_ok (as_u32 v) (\<lambda>n. Inr (if n = 0 then DEFAULT_MAX_TOKENS else n))) (\<lambda>max_tokens.
          bind_ok (decode_dynamic_bytes_at_offset jobspec 96) (\<lambda>input.
          Inr (map byte_char (utf8_lossy input), max_tokens)))))))"

section \<open>Quantities and topics\<close>

definition parse_hex_u64 :: "string \<Rightarrow> u64 option" where
  "parse_hex_u64 s =
     (let t = trim_0x s in
      if t = [] then Some 0 else map_option of_nat (parse_radix 16 (2 ^ 64) t))"

definition parse_hex_u256 :: "(string \<Rightarrow> u256 option) \<Rightarrow> string \<Rightarrow> u256 option" where
  "parse_hex_u256 u256_from_hex s = (let t = trim_0x s in if t = [] then Some 0 else u256_from_hex t)"

definition topic_as_u64 :: "codec \<Rightarrow> string option \<Rightarrow> u64 coordinator_result" where
  "topic_as_u64 H topic =
     bind_ok (ok_or (Chain ''topic missing'') topic) (\<lambda>s.
       let stripped = trim_0x s in
       if length stripped \<noteq> 64 then Inl (Chain ''topic has the wrong length'')
       else bind_ok (ok_or (Chain ''topic hex'') (hx_decode H stripped)) (\<lambda>bs.
              bind_ok (u256_from_big_endian bs) u256_to_u64))"

definition topic_as_address :: "codec \<Rightarrow> string option \<Rightarrow> address coordinator_result" where
  "topic_as_address H topic =
     bind_ok (ok_or (Chain ''topic missing'') topic) (\<lambda>s.
       let stripped = trim_0x s in
       if length stripped \<noteq> 64 then Inl (Chain ''address topic has the wrong length'')
       else bind_ok (ok_or (Chain ''address topic hex'') (hx_decode H stripped)) address_of_word)"

definition selector :: "(bytes \<Rightarrow> b256) \<Rightarrow> string \<Rightarrow> bytes" where
  "selector K sig = take 4 (to_be_bytes (K (str_bytes sig)))"

definition selector_full :: "(bytes \<Rightarrow> b256) \<Rightarrow> string \<Rightarrow> bytes" where
  "selector_full K sig = to_be_bytes (K (str_bytes sig))"

end
