(* ===== verification/Evm_Abi_Theorems.thy ===== *)
theory Evm_Abi_Theorems
  imports Evm_Abi
begin

text \<open>
  The ABI codec: no decoder panics on any answer of a node, an accepted array is backed by the
  bytes of the answer, and the encodings of the ABI are read back.  The layout of a returned
  structure is stated both ways, with and without the offset word the ABI puts in front of one.
\<close>

named_theorems sum_simps \<open>results of the reading combinators\<close>

lemma bind_ok_simps [simp, sum_simps]:
  "bind_ok (Inr a) f = f a" "bind_ok (Inl e) f = Inl e"
  by (simp_all add: bind_ok_def)

declare bind_ok_Inr [sum_simps]

lemma ok_or_simps [simp, sum_simps]:
  "ok_or e (Some a) = Inr a" "ok_or e None = Inl e" "ok_or e x = Inr a \<longleftrightarrow> x = Some a"
  by (auto simp: ok_or_def split: option.splits)

lemma slice_ok [simp, sum_simps]:
  "a \<le> b \<Longrightarrow> b \<le> length bs \<Longrightarrow> slice a b bs = Inr (take (b - a) (drop a bs))"
  by (simp add: slice_def)

lemma slice_Inr [sum_simps]:
  "slice a b bs = Inr xs \<longleftrightarrow> a \<le> b \<and> b \<le> length bs \<and> xs = take (b - a) (drop a bs)"
  by (auto simp: slice_def)

section \<open>No panic\<close>

definition safe :: "'a coordinator_result \<Rightarrow> bool" where
  "safe r \<longleftrightarrow> r \<noteq> Inl Panic"

named_theorems safe_intros \<open>reading steps that do not panic\<close>

lemma safe_bind [safe_intros]: "safe r \<Longrightarrow> (\<And>a. r = Inr a \<Longrightarrow> safe (f a)) \<Longrightarrow> safe (bind_ok r f)"
  by (cases r) (auto simp: safe_def)

lemma safe_simps [simp]:
  "safe (Inr r)" "safe (Inl e) \<longleftrightarrow> e \<noteq> Panic"
  "a \<le> b \<Longrightarrow> b \<le> length bs \<Longrightarrow> safe (slice a b bs)"
  "i < length xs \<Longrightarrow> safe (index i xs)"
  "e \<noteq> Panic \<Longrightarrow> safe (ok_or e x)"
  "safe (u256_to_u64 v)" "safe (u256_to_usize v)"
  "length bs \<le> 32 \<Longrightarrow> safe (u256_from_big_endian bs)"
  "length bs = 32 \<Longrightarrow> safe (address_of_word bs)"
  by (simp_all add: safe_def slice_def index_def ok_or_def u256_to_u64_def u256_to_usize_def
      u256_from_big_endian_def address_of_word_def bind_ok_def h160_from_slice_def split: option.splits)

lemma safe_map_ok: "(\<And>x. x \<in> set xs \<Longrightarrow> safe (f x)) \<Longrightarrow> safe (map_ok f xs)"
  by (induction xs) (auto intro!: safe_bind)

lemma safe_as_u32: "\<not> v > ucast (- 1 :: u32) \<Longrightarrow> safe (as_u32 v)"
  by (simp add: as_u32_def)

lemma unat_expected:
  assumes "Option.bind (checked_mul len 32) (\<lambda>n. checked_add n 64) = Some (expected :: u64)"
  shows "unat expected = 64 + 32 * unat len"
  using assms by (auto simp: bind_eq_Some_conv checked_mul_Some_iff checked_add_Some_iff)

lemma safe_decode_address_array: "safe (decode_address_array bs)"
  unfolding decode_address_array_def
  by (auto intro!: safe_bind safe_map_ok dest!: unat_expected simp: slice_Inr)

lemma safe_decode_member_struct: "safe (decode_member_struct bs)"
  unfolding decode_member_struct_def
  by (auto intro!: safe_bind safe_as_u32 simp: slice_Inr)

lemma safe_decode_dynamic: "safe (decode_dynamic_bytes_at_offset buf pos)"
  unfolding decode_dynamic_bytes_at_offset_def
  by (auto intro!: safe_bind simp: slice_Inr checked_add_Some_iff)

lemma safe_decode_job_spec: "safe (decode_job_spec ret)"
  unfolding decode_job_spec_def
  by (auto intro!: safe_bind safe_as_u32 safe_decode_dynamic simp: slice_Inr)

text \<open>\<^verbatim>\<open>hex::decode\<close> takes two characters to a byte.\<close>

definition two_chars :: "codec \<Rightarrow> bool" where
  "two_chars H \<longleftrightarrow> (\<forall>s bs. hx_decode H s = Some bs \<longrightarrow> length s = 2 * length bs)"

lemma two_charsD: "two_chars H \<Longrightarrow> hx_decode H s = Some bs \<Longrightarrow> length s = 2 * length bs"
  by (simp add: two_chars_def)

lemma two_chars_lower: "two_chars lower_hex"
proof -
  have "hex_decode s = Some bs \<Longrightarrow> length s = 2 * length bs" for s bs
    by (induction s arbitrary: bs rule: hex_decode.induct) (auto split: option.splits)
  then show ?thesis by (simp add: two_chars_def lower_hex_def)
qed

lemma safe_topics:
  assumes "two_chars H"
  shows "safe (topic_as_u64 H t)" "safe (topic_as_address H t)"
  using two_charsD [OF assms]
  unfolding topic_as_u64_def topic_as_address_def Let_def
  by (auto intro!: safe_bind)

text \<open>C40: Whatever bytes or strings a node answers with, no decoder of the adapter panics: they yield a
  value or an error of the coordinator.\<close>

theorem decoders_never_panic:
  assumes "two_chars H"
  shows "decode_address_array bs \<noteq> Inl Panic \<and> decode_member_struct bs \<noteq> Inl Panic \<and>
    decode_dynamic_bytes_at_offset bs pos \<noteq> Inl Panic \<and> decode_job_spec bs \<noteq> Inl Panic \<and>
    topic_as_u64 H t \<noteq> Inl Panic \<and> topic_as_address H t \<noteq> Inl Panic"
  using safe_decode_address_array [of bs] safe_decode_member_struct [of bs] safe_decode_job_spec [of bs]
    safe_decode_dynamic [of bs pos] safe_topics [OF assms, of t]
  by (simp add: safe_def)

theorem decoders_never_panic_witness:
  "decode_address_array (replicate 39 0 @ [1] @ replicate 24 0) \<noteq> Inl Panic \<and>
   topic_as_u64 lower_hex (Some (replicate 64 (CHR ''f''))) \<noteq> Inl Panic"
  using decoders_never_panic [OF two_chars_lower] by blast

section \<open>Reading back\<close>

lemma from_be_word [simp]: "u256_from_big_endian (u256_word v) = Inr v"
  by (simp add: u256_from_big_endian_def u256_word_def)

lemma length_u256_word [simp]: "length (u256_word v) = 32"
  by (simp add: u256_word_def)

lemma length_pad_address [simp]: "length (pad_address_left a) = 32"
  by (simp add: pad_address_left_def)

lemma address_of_padded [simp]: "address_of_word (pad_address_left a) = Inr a"
  by (simp add: address_of_word_def h160_from_slice_def pad_address_left_def)

lemma usize_of_nat: "n < 2 ^ 64 \<Longrightarrow> u256_to_usize (of_nat n) = Inr (of_nat n)"
proof -
  assume n: "n < 2 ^ 64"
  have "unat (of_nat n :: u256) = n" using n by (simp add: unat_of_nat)
  moreover have "unat (ucast (- 1 :: u64) :: u256) = 2 ^ 64 - 1"
    by (simp add: unsigned_ucast_eq unat_max_word take_bit_nat_eq_self)
  ultimately have "\<not> (of_nat n :: u256) > ucast (- 1 :: u64)"
    using n by (simp add: word_less_nat_alt)
  moreover have "(ucast (of_nat n :: u256) :: u64) = of_nat n"
    by transfer (simp add: min_def)
  ultimately show ?thesis by (simp add: u256_to_usize_def)
qed

lemma map_ok_all2: "map_ok f xs = Inr ys \<Longrightarrow> list_all2 (\<lambda>x y. f x = Inr y) xs ys"
  by (induction xs arbitrary: ys) (auto simp: bind_ok_Inr)

lemma map_ok_Inr: "(\<And>x. x \<in> set xs \<Longrightarrow> f x = Inr (g x)) \<Longrightarrow> map_ok f xs = Inr (map g xs)"
  by (induction xs) auto

definition abi_address_array :: "address list \<Rightarrow> bytes" where
  "abi_address_array as =
     u256_word 32 @ u256_word (of_nat (length as)) @ concat (map pad_address_left as)"

text \<open>The decoder reads back the ABI encoding of any list of addresses, whatever follows it.\<close>

theorem address_array_roundtrip:
  assumes "64 + 32 * length as < 2 ^ 64"
  shows "decode_address_array (abi_address_array as @ rest) = Inr as"
proof -
  define bs where "bs = abi_address_array as @ rest"
  let ?len = "of_nat (length as) :: u64"
  have len: "unat ?len = length as" using assms by (simp add: unat_of_nat)
  have total: "64 + 32 * length as \<le> length bs"
    by (simp add: bs_def abi_address_array_def length_concat comp_def sum_list_triv)
  have word: "take 32 (drop 32 bs) = u256_word (of_nat (length as))"
    by (simp add: bs_def abi_address_array_def)
  have expected: "Option.bind (checked_mul ?len 32) (\<lambda>n. checked_add n 64) =
      Some (of_nat (64 + 32 * length as))"
  proof -
    have "checked_mul ?len 32 = Some (of_nat (32 * length as))"
      using assms by (simp add: checked_mul_Some_iff len unat_of_nat del: of_nat_mult)
    moreover have "checked_add (of_nat (32 * length as)) 64 = Some (of_nat (64 + 32 * length as) :: u64)"
      using assms by (simp add: checked_add_Some_iff unat_of_nat del: of_nat_add of_nat_mult)
    ultimately show ?thesis by simp
  qed
  have item: "take 32 (drop (64 + i * 32) bs) = pad_address_left (as ! i)" if "i < length as" for i
  proof -
    have "drop (i * 32) (concat (map pad_address_left as)) = concat (map pad_address_left (drop i as))" for as :: "address list" and i
    proof (induction i arbitrary: as)
      case (Suc i)
      then show ?case by (cases as) (simp_all add: add.commute drop_drop [symmetric] del: drop_drop)
    qed simp
    moreover have "drop i as = as ! i # drop (Suc i) as" using that by (rule Cons_nth_drop_Suc [symmetric])
    moreover have "i * 32 < 32 * length as" using that by simp
    ultimately show ?thesis
      by (simp add: bs_def abi_address_array_def drop_append length_concat comp_def sum_list_triv)
  qed
  have "map_ok (\<lambda>i. bind_ok (slice (64 + i * 32) (64 + i * 32 + 32) bs) address_of_word) [0..<length as]
      = Inr (map (\<lambda>i. as ! i) [0..<length as])"
    using total by (intro map_ok_Inr) (auto simp: item)
  then show ?thesis
    unfolding bs_def [symmetric]
    using assms total word expected
    by (simp add: decode_address_array_def usize_of_nat len unat_of_nat map_nth del: of_nat_add of_nat_mult)
qed

theorem address_array_roundtrip_witness:
  "decode_address_array (abi_address_array [7, 9] @ [1, 2]) = Inr [7, 9]"
  by (rule address_array_roundtrip) simp

lemma decode_dynamic:
  assumes "pos + 32 \<le> length buf" "take 32 (drop pos buf) = u256_word (of_nat off)"
    "off \<le> length buf" "drop off buf = u256_word (of_nat (length data)) @ data @ rest"
    "length buf < 2 ^ 64"
  shows "decode_dynamic_bytes_at_offset buf pos = Inr data"
proof -
  have "length (drop off buf) = 32 + length data + length rest" unfolding assms(4) by simp
  then have total: "off + 32 + length data \<le> length buf" using assms(3) by simp
  have off: "unat (of_nat off :: u64) = off" and len: "unat (of_nat (length data) :: u64) = length data"
    using total assms(5) by (simp_all add: unat_of_nat)
  have "unat (of_nat (off + 32) :: u64) = off + 32"
    using total assms(5) by (simp add: unat_of_nat del: of_nat_add)
  then have add1: "checked_add (of_nat off :: u64) 32 = Some (of_nat (off + 32))"
    using total assms(5) off by (simp add: checked_add_Some_iff del: of_nat_add)
  have "unat (of_nat (off + 32 + length data) :: u64) = off + 32 + length data"
    using total assms(5) by (simp add: unat_of_nat del: of_nat_add)
  then have add2: "checked_add (of_nat (off + 32) :: u64) (of_nat (length data)) = Some (of_nat (off + 32 + length data))"
    using total assms(5) len \<open>unat (of_nat (off + 32) :: u64) = off + 32\<close>
    by (simp add: checked_add_Some_iff del: of_nat_add)
  have w: "take 32 (drop off buf) = u256_word (of_nat (length data))" unfolding assms(4) by simp
  have d: "take (length data) (drop (off + 32) buf) = data"
  proof -
    have "drop (off + 32) buf = drop 32 (drop off buf)" by (simp add: add.commute)
    also have "\<dots> = data @ rest" unfolding assms(4) by simp
    finally show ?thesis by simp
  qed
  have small: "off < 2 ^ 64" "length data < 2 ^ 64" using total assms(5) by simp_all
  show ?thesis
    using assms(1,2,5) total small off len add1 add2 w d
      \<open>unat (of_nat (off + 32) :: u64) = off + 32\<close>
      \<open>unat (of_nat (off + 32 + length data) :: u64) = off + 32 + length data\<close>
    by (simp add: decode_dynamic_bytes_at_offset_def usize_of_nat del: of_nat_add)
qed

section \<open>The job specification\<close>

definition abi_bytes :: "bytes \<Rightarrow> bytes" where
  "abi_bytes data = u256_word (of_nat (length data)) @ data @ replicate ((32 - length data mod 32) mod 32) 0"

text \<open>The head and tail of a \<^verbatim>\<open>PoolJobSpec\<close> and of a \<^verbatim>\<open>PoolJob\<close>, field by field.\<close>

definition pool_job_spec_bytes :: "u8 \<Rightarrow> u8 \<Rightarrow> u256 \<Rightarrow> bytes \<Rightarrow> u32 \<Rightarrow> u8 \<Rightarrow> u32 \<Rightarrow> bytes" where
  "pool_job_spec_bytes version mode model_hash input max_tokens tier batch =
     u256_word (ucast version) @ u256_word (ucast mode) @ u256_word model_hash @ u256_word 224 @
     u256_word (ucast max_tokens) @ u256_word (ucast tier) @ u256_word (ucast batch) @ abi_bytes input"

definition pool_job_bytes ::
  "u256 \<Rightarrow> address \<Rightarrow> bytes \<Rightarrow> u256 \<Rightarrow> u8 \<Rightarrow> u256 \<Rightarrow> u256 \<Rightarrow> address \<Rightarrow> bytes" where
  "pool_job_bytes pool requester spec payment status created dispatched by_whom =
     u256_word pool @ pad_address_left requester @ u256_word 256 @ u256_word payment @
     u256_word (ucast status) @ u256_word created @ u256_word dispatched @ pad_address_left by_whom @
     abi_bytes spec"

lemma drop_words:
  "length w = 32 \<Longrightarrow> 32 \<le> n \<Longrightarrow> drop n (w @ xs) = drop (n - 32) xs"
  by simp

lemma length_abi_bytes: "length (abi_bytes data) \<le> 64 + length data"
  by (simp add: abi_bytes_def)

lemma pool_job_spec_at:
  "take 32 (drop 96 (pool_job_spec_bytes v m h input t q b)) = u256_word 224"
  "take 32 (drop 128 (pool_job_spec_bytes v m h input t q b)) = u256_word (ucast t)"
  "drop 224 (pool_job_spec_bytes v m h input t q b) = abi_bytes input"
  "length (pool_job_spec_bytes v m h input t q b) = 224 + length (abi_bytes input)"
  by (simp_all add: pool_job_spec_bytes_def)

lemma pool_job_at:
  "take 32 (drop 64 (pool_job_bytes p r spec pay st cr di who)) = u256_word 256"
  "drop 256 (pool_job_bytes p r spec pay st cr di who) = abi_bytes spec"
  "length (pool_job_bytes p r spec pay st cr di who) = 256 + length (abi_bytes spec)"
  by (simp_all add: pool_job_bytes_def)

lemma as_u32_ucast:
  "\<not> (ucast t :: u256) > ucast (- 1 :: u32)" "as_u32 (ucast (t :: u32)) = Inr t"
proof -
  have up: "unat (ucast w :: u256) = unat w" for w :: u32
  proof -
    have "unat w < 2 ^ 32" using unsigned_less [of w, where ?'a = nat] by simp
    then show ?thesis by (simp add: unsigned_ucast_eq take_bit_nat_eq_self)
  qed
  have "unat t < 2 ^ 32" using unsigned_less [of t, where ?'a = nat] by simp
  then have "unat t \<le> unat (- 1 :: u32)" by (simp add: unat_max_word)
  then show le: "\<not> (ucast t :: u256) > ucast (- 1 :: u32)"
    unfolding word_less_nat_alt up by simp
  have "(ucast (ucast t :: u256) :: u32) = t"
    by transfer (simp add: min_def)
  with le show "as_u32 (ucast t) = Inr t" by (simp add: as_u32_def)
qed

lemma padded_address_too_big:
  assumes "unat r \<ge> 2 ^ 64"
  shows "u256_to_usize (from_be_bytes (pad_address_left r)) = Inl (Chain ''length/offset word exceeds usize::MAX'')"
proof -
  have "le_value (xs @ replicate n 0) = le_value xs" for xs n
    by (induction xs) (simp, induction n, simp_all)
  then have "le_value (rev (pad_address_left r)) = unat r"
    using unsigned_less [of r, where ?'a = nat]
    by (simp add: pad_address_left_def to_be_bytes_def to_le_bytes_def le_value_digits)
  then have "(from_be_bytes (pad_address_left r) :: u256) = of_nat (unat r)"
    by (simp add: from_be_bytes_def from_le_bytes_def)
  moreover have "unat (of_nat (unat r) :: u256) = unat r"
    using unsigned_less [of r, where ?'a = nat]
    by (simp add: unsigned_ucast_eq take_bit_nat_eq_self)
  moreover have "unat (ucast (- 1 :: u64) :: u256) = 2 ^ 64 - 1"
    by (simp add: unsigned_ucast_eq unat_max_word take_bit_nat_eq_self)
  ultimately show ?thesis using assms by (simp add: u256_to_usize_def word_less_nat_alt)
qed

text \<open>The two levels of a job laid out field by field are read back: the prompt is the input as
  text, the limit the requested one, 1000 for zero.  With the offset word that the ABI puts in front of
  a returned structure, the same job is refused as soon as the requester's address, read as an offset,
  exceeds 64 bits.\<close>

theorem job_spec_layouts:
  assumes "length input < 2 ^ 63"
  shows "decode_job_spec (pool_job_bytes p r (pool_job_spec_bytes v m h input t q b) pay st cr di who) =
      Inr (map byte_char (utf8_lossy input), if t = 0 then 1000 else t) \<and>
    (unat r \<ge> 2 ^ 64 \<longrightarrow>
      decode_job_spec (u256_word 32 @ pool_job_bytes p r (pool_job_spec_bytes v m h input t q b) pay st cr di who) =
        Inl (Chain ''length/offset word exceeds usize::MAX''))"
proof (intro conjI impI)
  let ?spec = "pool_job_spec_bytes v m h input t q b"
  let ?job = "pool_job_bytes p r ?spec pay st cr di who"
  have lens: "length ?spec < 2 ^ 63 + 1000" "length ?job < 2 ^ 64"
    using assms length_abi_bytes [of input] length_abi_bytes [of ?spec]
    by (simp_all add: pool_job_spec_at pool_job_at)
  have outer: "decode_dynamic_bytes_at_offset ?job 64 = Inr ?spec"
    using lens by (intro decode_dynamic [where off = 256]) (auto simp: pool_job_at abi_bytes_def)
  have inner: "decode_dynamic_bytes_at_offset ?spec 96 = Inr input"
    using lens by (intro decode_dynamic [where off = 224]) (auto simp: pool_job_spec_at abi_bytes_def)
  have "?spec \<noteq> []" "\<not> length ?spec < 224" "\<not> length ?job < 256"
    by (auto simp: pool_job_spec_at pool_job_at simp flip: length_0_conv)
  then show "decode_job_spec ?job = Inr (map byte_char (utf8_lossy input), if t = 0 then 1000 else t)"
    using outer inner as_u32_ucast
    by (simp add: decode_job_spec_def pool_job_spec_at DEFAULT_MAX_TOKENS_def)
  assume big: "unat r \<ge> 2 ^ 64"
  let ?ret = "u256_word 32 @ ?job"
  have "take 32 (drop 64 ?ret) = pad_address_left r"
    by (simp add: pool_job_bytes_def)
  moreover have "u256_to_usize (from_be_bytes (pad_address_left r)) =
      Inl (Chain ''length/offset word exceeds usize::MAX'')"
    using big by (rule padded_address_too_big)
  ultimately have "decode_dynamic_bytes_at_offset ?ret 64 = Inl (Chain ''length/offset word exceeds usize::MAX'')"
    by (simp add: decode_dynamic_bytes_at_offset_def u256_from_big_endian_def pool_job_at)
  then show "decode_job_spec ?ret = Inl (Chain ''length/offset word exceeds usize::MAX'')"
    by (simp add: decode_job_spec_def pool_job_at)
qed

theorem job_spec_layouts_witness:
  "decode_job_spec (pool_job_bytes 1 (2 ^ 100) (pool_job_spec_bytes 1 0 7 [72, 105] 256 0 1) 5 0 9 0 0) =
     Inr (''Hi'', 256) \<and>
   decode_job_spec (u256_word 32 @ pool_job_bytes 1 (2 ^ 100) (pool_job_spec_bytes 1 0 7 [72, 105] 256 0 1) 5 0 9 0 0) =
     Inl (Chain ''length/offset word exceeds usize::MAX'')"
proof -
  have "map byte_char (utf8_lossy [72, 105]) = ''Hi''"
    by (simp add: byte_char_def char_of_eq_iff)
  then show ?thesis
    using job_spec_layouts [of "[72, 105]" 1 "2 ^ 100" 1 0 7 256 0 1 5 0 9 0 0] by simp
qed

end
