(* ===== verification/Outbound.thy ===== *)
theory Outbound
  imports Net_Source
begin

text \<open>
  The gate on outbound endpoints of \<^verbatim>\<open>pool-coordinator/src/outbound.rs\<close>: which URLs the
  coordinator may call.  TLS is accepted to any host, plaintext only to a loopback host or under
  the override of an environment variable.  The standard library's address parsers are those of
  \<open>Net_Source\<close>; the environment is an argument.  The copy of the module in \<^verbatim>\<open>training-worker\<close>
  differs in the name of the variable and lacks the WebSocket gate.
\<close>

datatype outbound_url_error =
    UnsupportedScheme string
  | PlaintextNonLoopback string
  | MalformedUrl string

definition ALLOW_INSECURE_ENV :: string where
  "ALLOW_INSECURE_ENV = ''CITRATE_POOL_ALLOW_INSECURE_OUTBOUND''"

definition authority_of :: "string \<Rightarrow> string" where
  "authority_of rest = takeWhile (\<lambda>c. c \<notin> set ''/?#'') rest"

definition host_of :: "string \<Rightarrow> string option" where
  "host_of rest =
     (let authority = authority_of rest in
      if authority = [] \<or> CHR ''@'' \<in> set authority then None
      else
        case strip_prefix ''['' authority of
          Some v6 \<Rightarrow>
            (case split_once '']'' v6 of
               None \<Rightarrow> None
             | Some (inside, after) \<Rightarrow>
                 if \<not> (after = [] \<or> strip_prefix '':'' after \<noteq> None) then None else Some inside)
        | None \<Rightarrow>
            (case split_on (CHR '':'') authority of
               [] \<Rightarrow> None
             | host # pieces \<Rightarrow>
                 (case pieces of
                    _ # _ # _ \<Rightarrow> None
                  | [port] \<Rightarrow>
                      if parse_uint 65536 port = None then None
                      else if host = [] then None else Some host
                  | [] \<Rightarrow> if host = [] then None else Some host)))"

definition whole :: "('a \<times> string) option \<Rightarrow> 'a option" where
  "whole r = (case r of Some (v, []) \<Rightarrow> Some v | _ \<Rightarrow> None)"

definition is_loopback_host :: "string \<Rightarrow> bool" where
  "is_loopback_host host =
     (if map ascii_lower host = ''localhost'' then True
      else
        case whole (read_ipv4 host) of
          Some v4 \<Rightarrow> is_loopback (V4 (of_nat v4))
        | None \<Rightarrow>
            (case whole (read_ipv6 host) of
               Some v6 \<Rightarrow> is_loopback (V6 (of_nat v6))
             | None \<Rightarrow> False))"

definition validate_outbound_url_with :: "string \<Rightarrow> bool \<Rightarrow> outbound_url_error + unit" where
  "validate_outbound_url_with url allow_insecure =
     (case split_once ''://'' url of
        None \<Rightarrow> Inl (UnsupportedScheme url)
      | Some (s, rest) \<Rightarrow>
          let scheme = map ascii_lower s in
          if scheme = ''https'' then
            (case host_of rest of None \<Rightarrow> Inl (MalformedUrl url) | Some _ \<Rightarrow> Inr ())
          else if scheme = ''http'' then
            (case host_of rest of
               None \<Rightarrow> Inl (MalformedUrl url)
             | Some host \<Rightarrow>
                 if is_loopback_host host then Inr ()
                 else if allow_insecure then Inr ()
                 else Inl (PlaintextNonLoopback url))
          else Inl (UnsupportedScheme url))"

definition validate_outbound_ws_url_with :: "string \<Rightarrow> bool \<Rightarrow> outbound_url_error + unit" where
  "validate_outbound_ws_url_with url allow_insecure =
     (case split_once ''://'' url of
        None \<Rightarrow> Inl (UnsupportedScheme url)
      | Some (s, rest) \<Rightarrow>
          let scheme = map ascii_lower s in
          if scheme = ''wss'' then
            (case host_of rest of None \<Rightarrow> Inl (MalformedUrl url) | Some _ \<Rightarrow> Inr ())
          else if scheme = ''ws'' then
            (case host_of rest of
               None \<Rightarrow> Inl (MalformedUrl url)
             | Some host \<Rightarrow>
                 if is_loopback_host host then Inr ()
                 else if allow_insecure then Inr ()
                 else Inl (PlaintextNonLoopback url))
          else Inl (UnsupportedScheme url))"

type_synonym environment = "string \<Rightarrow> string option"

definition insecure_allowed :: "environment \<Rightarrow> bool" where
  "insecure_allowed env =
     (case env ALLOW_INSECURE_ENV of Some v \<Rightarrow> trim v = ''1'' | None \<Rightarrow> False)"

definition validate_outbound_url :: "environment \<Rightarrow> string \<Rightarrow> outbound_url_error + unit" where
  "validate_outbound_url env url = validate_outbound_url_with url (insecure_allowed env)"

definition validate_outbound_ws_url :: "environment \<Rightarrow> string \<Rightarrow> outbound_url_error + unit" where
  "validate_outbound_ws_url env url = validate_outbound_ws_url_with url (insecure_allowed env)"

section \<open>The two gates\<close>

definition outbound_ok :: "string \<Rightarrow> string \<Rightarrow> bool \<Rightarrow> string \<Rightarrow> bool" where
  "outbound_ok secure plain allow url \<longleftrightarrow>
     (\<exists>s rest host. split_once ''://'' url = Some (s, rest) \<and> host_of rest = Some host \<and>
        (map ascii_lower s = secure \<or>
         map ascii_lower s = plain \<and> (is_loopback_host host \<or> allow)))"

lemma accepted_iff:
  "validate_outbound_url_with url allow = Inr () \<longleftrightarrow> outbound_ok ''https'' ''http'' allow url"
  "validate_outbound_ws_url_with url allow = Inr () \<longleftrightarrow> outbound_ok ''wss'' ''ws'' allow url"
  by (auto simp: validate_outbound_url_with_def validate_outbound_ws_url_with_def outbound_ok_def
        Let_def split: option.splits if_splits)

section \<open>Reading back an IPv4 host\<close>

lemma take_digits_map:
  assumes "\<And>d. d \<in> set ds \<Longrightarrow> d < r" "r \<le> 36" "rest = [] \<or> to_digit r (hd rest) = None"
  shows "take_digits r k (map digit_char ds @ rest) = (ds, rest)"
  using assms by (induction ds) (cases rest; auto)+

lemma read_dec_octet:
  assumes "n < 256" "rest = [] \<or> to_digit 10 (hd rest) = None"
  shows "read_number 10 3 256 False (show_dec n @ rest) = Some (n, rest)"
proof -
  define ds where "ds = (if n < 10 then [n] else if n < 100 then [n div 10, n mod 10]
    else [n div 100, n div 10 mod 10, n mod 10])"
  have tens: "n div 10 < 10 \<longleftrightarrow> n < 100" and hundreds: "n div 100 < 10"
    using assms(1) div_less_iff_less_mult [of 10 n 10] div_less_iff_less_mult [of 100 n 10] by simp_all
  have "show_dec n = map digit_char ds"
  proof (cases "n < 100")
    case True
    moreover from this tens have "n div 10 < 10" by blast
    ultimately show ?thesis
      by (simp add: show_dec_def ds_def show_base.simps [of 10 n] show_base.simps [of 10 "n div 10"])
  next
    case False
    moreover from this tens have "\<not> n div 10 < 10" by blast
    ultimately show ?thesis using hundreds
      by (simp add: show_dec_def ds_def show_base.simps [of 10 n] show_base.simps [of 10 "n div 10"]
          show_base.simps [of 10 "n div 100"] div_mult2_eq [symmetric])
  qed
  moreover have "\<And>d. d \<in> set ds \<Longrightarrow> d < 10"
    using assms(1) by (auto simp: ds_def split: if_splits)
  ultimately have "take_digits 10 0 (show_dec n @ rest) = (ds, rest)"
    using take_digits_map [of ds 10 rest 0] assms(2) by simp
  moreover have "10 * (n div 100) + n div 10 mod 10 = n div 10" "10 * (n div 10) + n mod 10 = n"
    using mult_div_mod_eq [of 10 "n div 10"] mult_div_mod_eq [of 10 n]
    by (simp_all add: div_mult2_eq [symmetric])
  then have "foldl (\<lambda>a d. a * 10 + d) 0 ds = n"
    unfolding ds_def by (simp add: mult.commute)
  moreover have "ds \<noteq> []" "length ds \<le> 3" "length ds > 1 \<longrightarrow> hd ds \<noteq> 0"
    using assms(1) by (auto simp: ds_def)
  ultimately show ?thesis using assms(1) by (auto simp: read_number_def Let_def)
qed

lemma dot_not_digit [simp]: "to_digit 10 (CHR ''.'') = None"
  by (simp add: to_digit_def Let_def)

lemma read_show_v4:
  assumes "rest = [] \<or> to_digit 10 (hd rest) = None"
  shows "read_ipv4 (show_v4 a @ rest) = Some (unat a, rest)"
proof -
  have n4: "read_ipv4 = read_octets (Suc (Suc (Suc (Suc 0)))) 0 0"
    by (rule ext) (simp add: read_ipv4_def eval_nat_numeral)
  define x where "x = unat a"
  have "x < 2 ^ 32" using unsigned_less [of a, where ?'a = nat] by (simp add: x_def)
  then have top: "x div 16777216 mod 256 = x div 16777216"
    by (simp add: div_less_iff_less_mult)
  have top256: "unat a div 16777216 < 256"
    using \<open>x < 2 ^ 32\<close> by (simp add: x_def div_less_iff_less_mult)
  have "x div 65536 = 256 * (x div 16777216) + x div 65536 mod 256"
    "x div 256 = 256 * (x div 65536) + x div 256 mod 256"
    "x = 256 * (x div 256) + x mod 256"
    using mult_div_mod_eq [of 256 "x div 65536"] mult_div_mod_eq [of 256 "x div 256"]
    by (simp_all add: div_mult2_eq [symmetric])
  then have "256 * (256 * (256 * (x div 16777216 mod 256) + x div 65536 mod 256) +
      x div 256 mod 256) + x mod 256 = x"
    unfolding top by presburger
  then show ?thesis
    using assms top256
    by (simp add: n4 show_v4_def read_separator_def read_char_def read_dec_octet
        x_def top [unfolded x_def])
qed

section \<open>What the gates accept\<close>

definition port_text :: "u16 option \<Rightarrow> string" where
  "port_text p = (case p of None \<Rightarrow> [] | Some n \<Rightarrow> '':'' @ show_dec (unat n))"

definition ends_authority :: "string \<Rightarrow> bool" where
  "ends_authority rest \<longleftrightarrow> rest = [] \<or> hd rest \<in> set ''/?#''"

lemma authority_append:
  assumes "set xs \<inter> set ''/?#'' = {}" "ends_authority rest"
  shows "authority_of (xs @ rest) = xs"
  using assms by (cases rest) (auto simp: authority_of_def ends_authority_def takeWhile_append)

lemma digits_only:
  assumes "to_digit 10 c = None"
  shows "c \<notin> set (show_dec n)"
  using assms by (simp add: show_dec_def not_digit_char)

lemma show_v4_chars:
  assumes "to_digit 10 c = None" "c \<noteq> CHR ''.''"
  shows "c \<notin> set (show_v4 a)"
  using assms by (simp add: show_v4_def digits_only)

lemma show_v4_ne [simp]: "show_v4 a \<noteq> []"
  by (simp add: show_v4_def)

lemma host_of_v4:
  assumes "ends_authority rest"
  shows "host_of (show_v4 a @ port_text p @ rest) = Some (show_v4 a)"
proof -
  have digit: "to_digit 10 c = None" if "c \<in> set ''/?#@[:''" for c
    using that by (auto simp: to_digit_def Let_def)
  let ?auth = "show_v4 a @ port_text p"
  have "c \<notin> set ?auth" if "c \<in> set ''/?#@[''" for c
    using that digit [of c] by (auto simp: port_text_def show_v4_chars digits_only split: option.splits)
  then have free: "set ?auth \<inter> set ''/?#'' = {}" "CHR ''@'' \<notin> set ?auth" "CHR ''['' \<notin> set ?auth"
    by auto
  then have auth: "authority_of (show_v4 a @ port_text p @ rest) = ?auth"
    using authority_append [of ?auth rest] assms by simp
  have "strip_prefix ''['' ?auth = None"
    using free(3) by (cases ?auth) (auto simp: strip_prefix_def)
  moreover have "CHR '':'' \<notin> set (show_v4 a)" using digit by (intro show_v4_chars) auto
  moreover have "unat n < 65536" for n :: u16
    using unsigned_less [of n, where ?'a = nat] by simp
  ultimately show ?thesis
    using free(2) auth
    by (cases p) (simp_all add: host_of_def Let_def port_text_def split_on_append split_on_none
        parse_show_dec)
qed

lemma v4_host_loopback: "is_loopback_host (show_v4 a) \<longleftrightarrow> drop_bit 24 a = 127"
proof -
  have small: "\<exists>d < 10. c = digit_char d" if "c \<in> set (show_dec n)" for c n
    using show_base_digits [of 10 c n] that by (simp add: show_dec_def)
  have digit: "ascii_lower (digit_char d) \<noteq> CHR ''l''" if "d < 10" for d
    using that by (auto simp: ascii_lower_def digit_char_def char_of_eq_iff take_bit_eq_mod)
  have dec: "ascii_lower c \<noteq> CHR ''l''" if "c \<in> set (show_dec n)" for c n
    using small [OF that] digit by blast
  have "ascii_lower (CHR ''.'') \<noteq> CHR ''l''" by (simp add: ascii_lower_def)
  then have "ascii_lower c \<noteq> CHR ''l''" if "c \<in> set (show_v4 a)" for c
    using that dec by (auto simp: show_v4_def)
  then have "CHR ''l'' \<notin> set (map ascii_lower (show_v4 a))" unfolding set_map by (metis imageE)
  then have "map ascii_lower (show_v4 a) \<noteq> ''localhost''"
    by (metis list.set_intros(1))
  then show ?thesis
    using read_show_v4 [of "[]" a] by (simp add: is_loopback_host_def whole_def is_loopback_def)
qed

lemma split_scheme [simp]:
  "split_once ''://'' (''http://'' @ rest) = Some (''http'', rest)"
  "split_once ''://'' (''https://'' @ rest) = Some (''https'', rest)"
  by (simp_all add: strip_prefix_def)

lemma split_once_Some: "split_once sep s = Some (a, b) \<Longrightarrow> s = a @ sep @ b"
  by (induction s arbitrary: a)
    (auto simp: strip_prefix_def split: if_splits option.splits, metis append_take_drop_id)

lemma authority_prefix:
  "\<exists>tail. rest = authority_of rest @ tail \<and> ends_authority tail"
  "set (authority_of rest) \<inter> set ''/?#'' = {}"
proof -
  have "ends_authority (dropWhile (\<lambda>c. c \<notin> set ''/?#'') rest)"
    using hd_dropWhile [of "\<lambda>c. c \<notin> set ''/?#''" rest] by (auto simp: ends_authority_def)
  then show "\<exists>tail. rest = authority_of rest @ tail \<and> ends_authority tail"
    unfolding authority_of_def by (metis takeWhile_dropWhile_id)
  show "set (authority_of rest) \<inter> set ''/?#'' = {}"
    unfolding authority_of_def using set_takeWhileD by fastforce
qed

lemma lower_schemes:
  "map ascii_lower ''http'' = ''http''" "map ascii_lower ''https'' = ''https''"
  by (simp_all add: ascii_lower_def)

text \<open>The plaintext gate reads an IPv4 host as it was written: for every address, port and
  rest of the URL, \<^verbatim>\<open>http\<close> is accepted exactly if the address is in 127.0.0.0/8 or the override
  is set, and refused with the reason otherwise; \<^verbatim>\<open>https\<close> is always accepted.\<close>

theorem plaintext_ipv4_iff_loopback:
  assumes "ends_authority rest"
  shows "validate_outbound_url_with (''http://'' @ show_v4 a @ port_text p @ rest) allow =
      (if drop_bit 24 a = 127 \<or> allow then Inr ()
       else Inl (PlaintextNonLoopback (''http://'' @ show_v4 a @ port_text p @ rest))) \<and>
    validate_outbound_url_with (''https://'' @ show_v4 a @ port_text p @ rest) allow = Inr ()"
proof (rule conjI)
  show "validate_outbound_url_with (''http://'' @ show_v4 a @ port_text p @ rest) allow =
      (if drop_bit 24 a = 127 \<or> allow then Inr ()
       else Inl (PlaintextNonLoopback (''http://'' @ show_v4 a @ port_text p @ rest)))"
    unfolding validate_outbound_url_with_def split_scheme
    by (simp add: Let_def lower_schemes host_of_v4 [OF assms] v4_host_loopback del: list.map)
  show "validate_outbound_url_with (''https://'' @ show_v4 a @ port_text p @ rest) allow = Inr ()"
    unfolding validate_outbound_url_with_def split_scheme
    by (simp add: Let_def lower_schemes host_of_v4 [OF assms] del: list.map)
qed

theorem plaintext_ipv4_iff_loopback_witness:
  "validate_outbound_url_with (''http://'' @ show_v4 0x7F000001 @ port_text (Some 8545) @ ''/rpc'') False
     = Inr () \<and>
   validate_outbound_url_with (''http://'' @ show_v4 0x0A000001 @ port_text None @ ''/rpc'') False
     = Inl (PlaintextNonLoopback (''http://'' @ show_v4 0x0A000001 @ port_text None @ ''/rpc''))"
  using plaintext_ipv4_iff_loopback [where rest = "''/rpc''" and a = "0x7F000001" and p = "Some 8545" and allow = False]
    plaintext_ipv4_iff_loopback [where rest = "''/rpc''" and a = "0x0A000001" and p = None and allow = False]
  by (simp add: ends_authority_def)

lemma host_of_shape:
  assumes "host_of rest = Some host"
  obtains auth suffix where "auth = authority_of rest" "auth \<noteq> []" "CHR ''@'' \<notin> set auth"
    "auth = host @ suffix \<or> auth = ''['' @ host @ '']'' @ suffix"
    "suffix = [] \<or> hd suffix = CHR '':''"
proof -
  let ?auth = "authority_of rest"
  have ne: "?auth \<noteq> []" and at: "CHR ''@'' \<notin> set ?auth"
    using assms by (auto simp: host_of_def Let_def split: if_splits)
  have colon: "strip_prefix '':'' s \<noteq> None \<Longrightarrow> hd s = CHR '':''" for s
    by (cases s) (auto simp: strip_prefix_def split: if_splits)
  show thesis
  proof (cases "strip_prefix ''['' ?auth")
    case (Some v6)
    then have "?auth = ''['' @ v6"
      by (auto simp: strip_prefix_def split: if_splits) (metis append_Cons append_Nil append_take_drop_id)
    moreover from assms Some ne at obtain after where "split_once '']'' v6 = Some (host, after)"
        "after = [] \<or> hd after = CHR '':''"
      by (auto simp: host_of_def Let_def colon split: if_splits option.splits)
    ultimately show thesis using that [of ?auth after] ne at split_once_Some [of "'']''" v6] by auto
  next
    case None
    have split: "split_on c s = [x] \<Longrightarrow> s = x" "split_on c s = [x, y] \<Longrightarrow> s = x @ c # y" for c s x y
      by (induction s arbitrary: x) (auto split: if_splits list.splits)
    from assms None ne at consider "split_on (CHR '':'') ?auth = [host]"
      | port where "split_on (CHR '':'') ?auth = [host, port]"
      by (auto simp: host_of_def Let_def split: if_splits option.splits list.splits)
    then show thesis
    proof cases
      case 1
      then show thesis using that [of ?auth "[]"] ne at split(1) by simp
    next
      case (2 port)
      then have "?auth = host @ CHR '':'' # port" by (rule split(2))
      then show thesis using that [of ?auth "CHR '':'' # port"] ne at by simp
    qed
  qed
qed

text \<open>An accepted URL is the scheme, the authority without user information, and the rest from
  the first slash, question mark or hash on; the host the gate judged is the authority up to its port,
  and under a plaintext scheme without the override it is \<^verbatim>\<open>localhost\<close> or a loopback literal.\<close>

theorem accepted_url_names_its_host:
  assumes "validate_outbound_url_with url allow = Inr () \<or> validate_outbound_ws_url_with url allow = Inr ()"
  shows "\<exists>s auth rest host suffix. url = s @ ''://'' @ auth @ rest \<and> ends_authority rest \<and>
    auth \<noteq> [] \<and> set auth \<inter> set ''/?#@'' = {} \<and>
    (auth = host @ suffix \<or> auth = ''['' @ host @ '']'' @ suffix) \<and>
    (suffix = [] \<or> hd suffix = CHR '':'') \<and>
    (map ascii_lower s \<in> {''https'', ''wss''} \<or> map ascii_lower s \<in> {''http'', ''ws''} \<and>
      (allow \<or> map ascii_lower host = ''localhost'' \<or>
       (\<exists>v. read_ipv4 host = Some (v, []) \<and> is_loopback (V4 (of_nat v))) \<or>
       (\<exists>v. read_ipv6 host = Some (v, []) \<and> is_loopback (V6 (of_nat v)))))"
proof -
  have whole: "whole r = Some v \<longleftrightarrow> r = Some (v, [])" for r :: "(nat \<times> string) option" and v
    by (auto simp: whole_def split: option.splits list.splits)
  from assms obtain s rest host where u: "split_once ''://'' url = Some (s, rest)"
      "host_of rest = Some host"
    and scheme: "map ascii_lower s \<in> {''https'', ''wss''} \<or> map ascii_lower s \<in> {''http'', ''ws''} \<and>
      (allow \<or> is_loopback_host host)"
    unfolding accepted_iff outbound_ok_def by (metis insertCI)
  have loop: "is_loopback_host host \<Longrightarrow> map ascii_lower host = ''localhost'' \<or>
       (\<exists>v. read_ipv4 host = Some (v, []) \<and> is_loopback (V4 (of_nat v))) \<or>
       (\<exists>v. read_ipv6 host = Some (v, []) \<and> is_loopback (V6 (of_nat v)))"
    by (auto simp: is_loopback_host_def whole split: if_splits option.splits)
  from u(2) obtain auth suffix where auth: "auth = authority_of rest" "auth \<noteq> []"
      "CHR ''@'' \<notin> set auth" "auth = host @ suffix \<or> auth = ''['' @ host @ '']'' @ suffix"
      "suffix = [] \<or> hd suffix = CHR '':''"
    by (rule host_of_shape)
  from authority_prefix [of rest] auth(1) obtain tail where tail: "rest = auth @ tail"
      "ends_authority tail" "set auth \<inter> set ''/?#'' = {}" by auto
  have "url = s @ ''://'' @ auth @ tail" using split_once_Some [OF u(1)] tail(1) by simp
  moreover have "set auth \<inter> set ''/?#@'' = {}" using tail(3) auth(3) by auto
  moreover have "map ascii_lower s \<in> {''https'', ''wss''} \<or> map ascii_lower s \<in> {''http'', ''ws''} \<and>
      (allow \<or> map ascii_lower host = ''localhost'' \<or>
       (\<exists>v. read_ipv4 host = Some (v, []) \<and> is_loopback (V4 (of_nat v))) \<or>
       (\<exists>v. read_ipv6 host = Some (v, []) \<and> is_loopback (V6 (of_nat v))))"
    using scheme loop by (elim disjE conjE) (simp_all only: simp_thms)
  ultimately show ?thesis using tail(2) auth(2,4,5)
    by (intro exI [of _ s] exI [of _ auth] exI [of _ tail] exI [of _ host] exI [of _ suffix] conjI)
qed

text \<open>Evaluation of the gate on a concrete URL.\<close>

lemma read_numeral:
  "read_groups (numeral k) i gs s = read_groups (Suc (pred_numeral k)) i gs s"
  "read_octets (numeral k) j acc s = read_octets (Suc (pred_numeral k)) j acc s"
  by (simp_all only: numeral_eq_Suc)

lemma groups_value_zeros:
  "groups_value (replicate n 0 @ gs) = groups_value gs" "groups_value [g] = g"
  by (induction n) (simp_all add: groups_value_def)

lemmas gate_eval = validate_outbound_url_with_def host_of_def authority_of_def is_loopback_host_def
  whole_def is_loopback_def strip_prefix_def ascii_lower_def parse_uint_def parse_radix_def to_digit_def Let_def
  read_ipv4_def read_ipv6_def read_separator_def read_char_def read_number_def groups_value_zeros
  read_numeral [unfolded read_groups.simps read_octets.simps]

theorem accepted_url_names_its_host_witness:
  "\<exists>s auth rest host suffix. ''http://[::1]:80/'' = s @ ''://'' @ auth @ rest \<and> ends_authority rest \<and>
    auth \<noteq> [] \<and> set auth \<inter> set ''/?#@'' = {} \<and>
    (auth = host @ suffix \<or> auth = ''['' @ host @ '']'' @ suffix) \<and>
    (suffix = [] \<or> hd suffix = CHR '':'') \<and>
    (map ascii_lower s \<in> {''https'', ''wss''} \<or> map ascii_lower s \<in> {''http'', ''ws''} \<and>
      (False \<or> map ascii_lower host = ''localhost'' \<or>
       (\<exists>v. read_ipv4 host = Some (v, []) \<and> is_loopback (V4 (of_nat v))) \<or>
       (\<exists>v. read_ipv6 host = Some (v, []) \<and> is_loopback (V6 (of_nat v)))))"
proof -
  have "validate_outbound_url_with ''http://[::1]:80/'' False = Inr ()"
    by (simp add: gate_eval)
  then show ?thesis using accepted_url_names_its_host [of "''http://[::1]:80/''" False] by blast
qed

text \<open>The WebSocket gate is the HTTP gate with the scheme's name changed.\<close>

lemma split_once_shift:
  assumes "CHR '':'' \<notin> set p"
  shows "split_once ''://'' (p @ s) = map_option (\<lambda>(a, b). (p @ a, b)) (split_once ''://'' s)"
  using assms
proof (cases "split_once ''://'' s")
  case None
  with assms show ?thesis by (induction p) (auto simp: strip_prefix_def)
next
  case (Some ab)
  with assms show ?thesis by (induction p) (auto simp: strip_prefix_def split: prod.splits)
qed

definition rename_url :: "string \<Rightarrow> outbound_url_error \<Rightarrow> outbound_url_error" where
  "rename_url url e =
     (case e of UnsupportedScheme _ \<Rightarrow> UnsupportedScheme url
      | PlaintextNonLoopback _ \<Rightarrow> PlaintextNonLoopback url
      | MalformedUrl _ \<Rightarrow> MalformedUrl url)"

theorem ws_gate_mirrors_http_gate:
  "validate_outbound_ws_url_with (''ws'' @ s) allow =
     map_sum (rename_url (''ws'' @ s)) id (validate_outbound_url_with (''http'' @ s) allow)"
proof -
  have lower: "map ascii_lower (''ws'' @ a) = ''wss'' \<longleftrightarrow> map ascii_lower a = ''s''"
    "map ascii_lower (''http'' @ a) = ''https'' \<longleftrightarrow> map ascii_lower a = ''s''"
    "map ascii_lower (''ws'' @ a) = ''ws'' \<longleftrightarrow> a = []"
    "map ascii_lower (''http'' @ a) = ''http'' \<longleftrightarrow> a = []" for a
    by (simp_all add: ascii_lower_def)
  have shift: "split_once ''://'' (''ws'' @ s) = map_option (\<lambda>(a, b). (''ws'' @ a, b)) (split_once ''://'' s)"
    "split_once ''://'' (''http'' @ s) = map_option (\<lambda>(a, b). (''http'' @ a, b)) (split_once ''://'' s)"
    by (rule split_once_shift, simp)+
  show ?thesis
  proof (cases "split_once ''://'' s")
    case None
    then show ?thesis
      unfolding validate_outbound_url_with_def validate_outbound_ws_url_with_def shift
      by (simp add: rename_url_def)
  next
    case (Some ab)
    obtain a b where ab: "ab = (a, b)" by (cases ab)
    show ?thesis
      unfolding validate_outbound_url_with_def validate_outbound_ws_url_with_def shift Some ab
        option.map prod.case option.case Let_def lower
      by (cases "host_of b") (simp_all add: rename_url_def)
  qed
qed

text \<open>Two spellings the gate lets through: an empty host in brackets and a bracketed literal followed
  by a colon and any text.\<close>

lemma brackets_are_lenient:
  "validate_outbound_url_with ''https://[]'' False = Inr ()"
  "validate_outbound_url_with ''http://[::1]:evil.example'' False = Inr ()"
  by (simp_all add: gate_eval)

end
