(* ===== verification/Wallet.thy ===== *)
theory Wallet
  imports Evm_Abi_Theorems Outbound
begin

text \<open>
  Loading a key and signing with it: \<^verbatim>\<open>wallet.rs\<close> of \<^verbatim>\<open>training-worker\<close> and of \<^verbatim>\<open>pool-coordinator\<close>.
  The two copies share the keystore code byte for byte; they differ in the names of the environment
  variables, which are arguments here, and only the first signs digests recoverably.

  Parameters (record \<open>wallet_deps\<close>): Keccak-256, the \<^verbatim>\<open>hex\<close> crate, the file system, the JSON reader
  of a keystore, PBKDF2, AES-128-CTR, the secp256k1 operations of \<^verbatim>\<open>k256\<close> and the RLP encoder of the
  \<^verbatim>\<open>rlp\<close> crate.  An integer is appended to an RLP stream as its big-endian bytes without leading zeros.
\<close>

record keystore_file =
  kf_version :: u32
  kf_address :: "string option"
  kf_cipher :: string
  kf_iv :: string
  kf_ciphertext :: string
  kf_kdf :: string
  kf_prf :: string
  kf_c :: u32
  kf_salt :: string
  kf_dklen :: u32
  kf_mac :: string

datatype rlp_item = RlpStr bytes | RlpList "rlp_item list"

record 'x wallet_deps =
  wd_keccak :: "bytes \<Rightarrow> b256"
  wd_hex :: codec
  wd_read_file :: "string \<Rightarrow> string + string"
  wd_parse_keystore :: "string \<Rightarrow> string + keystore_file"
  wd_pbkdf2 :: "bytes \<Rightarrow> bytes \<Rightarrow> u32 \<Rightarrow> bytes"
  wd_aes_ctr :: "bytes \<Rightarrow> bytes \<Rightarrow> bytes \<Rightarrow> bytes"
  wd_key_from_bytes :: "bytes \<Rightarrow> 'x option"
  wd_public_point :: "'x \<Rightarrow> bytes"
  wd_sign_prehash :: "'x \<Rightarrow> b256 \<Rightarrow> string + bytes"
  wd_trial_recovery :: "'x \<Rightarrow> b256 \<Rightarrow> bytes \<Rightarrow> string + u8"
  wd_signature_from_slice :: "bytes \<Rightarrow> bool"
  wd_recovery_id_ok :: "u8 \<Rightarrow> bool"
  wd_recover :: "b256 \<Rightarrow> bytes \<Rightarrow> u8 \<Rightarrow> string + bytes"
  wd_rlp :: "rlp_item \<Rightarrow> bytes"

definition MIN_PBKDF2_ITERS :: u32 where "MIN_PBKDF2_ITERS = 10000"
definition MIN_MODERN_PBKDF2_ITERS :: u32 where "MIN_MODERN_PBKDF2_ITERS = 600000"

text \<open>\<open>WalletPanic\<close> stands for an unwinding thread.\<close>

datatype wallet_error =
    BadHexLength nat
  | BadHex
  | BadSecret
  | AddressMismatch address address
  | NoKeySource
  | MissingPassphrase
  | KeystoreIo string
  | KeystoreParse string
  | UnsupportedKeystoreVersion u32
  | UnsupportedCipher string
  | UnsupportedKdf string
  | UnsupportedKdfPrf string
  | UnsupportedKdfDklen u32
  | InvalidPassphrase
  | WeakKdf u32 u32
  | WalletSign string
  | WalletPanic

record 'x wallet =
  w_signing_key :: 'x
  w_address :: address
  w_below_modern_kdf :: "u32 option"

section \<open>Secrets in the environment\<close>

definition take_env_secret :: "string \<Rightarrow> environment \<Rightarrow> string option \<times> environment" where
  "take_env_secret name env = (env name, if env name \<noteq> None then env(name := None) else env)"

definition check_kdf_cost :: "u32 \<Rightarrow> wallet_error + u32 option" where
  "check_kdf_cost iterations =
     (if iterations < MIN_PBKDF2_ITERS then Inl (WeakKdf iterations MIN_PBKDF2_ITERS)
      else Inr (if iterations < MIN_MODERN_PBKDF2_ITERS then Some iterations else None))"

section \<open>Keys\<close>

definition address_of_point :: "'x wallet_deps \<Rightarrow> bytes \<Rightarrow> address" where
  "address_of_point D point = ucast (wd_keccak D (drop 1 point))"

definition wallet_address :: "'x wallet_deps \<Rightarrow> 'x \<Rightarrow> address" where
  "wallet_address D sk = address_of_point D (wd_public_point D sk)"

definition from_hex :: "'x wallet_deps \<Rightarrow> string \<Rightarrow> wallet_error + 'x wallet" where
  "from_hex D hex_key =
     (let trimmed = trim_0x (trim hex_key) in
      if length trimmed \<noteq> 64 then Inl (BadHexLength (length trimmed))
      else
        bind_ok (ok_or BadHex (hx_decode (wd_hex D) trimmed)) (\<lambda>bs.
        if length bs \<noteq> 32 then Inl WalletPanic
        else
          bind_ok (ok_or BadSecret (wd_key_from_bytes D bs)) (\<lambda>sk.
          Inr \<lparr>w_signing_key = sk, w_address = wallet_address D sk, w_below_modern_kdf = None\<rparr>)))"

definition verify_address :: "'x wallet \<Rightarrow> address \<Rightarrow> wallet_error + unit" where
  "verify_address w declared =
     (if declared \<noteq> w_address w then Inl (AddressMismatch declared (w_address w)) else Inr ())"

text \<open>The checks of the file's header, in the order of the code.\<close>

definition check_keystore_header :: "keystore_file \<Rightarrow> wallet_error + unit" where
  "check_keystore_header f =
     (if kf_version f \<noteq> 3 then Inl (UnsupportedKeystoreVersion (kf_version f))
      else if kf_cipher f \<noteq> ''aes-128-ctr'' then Inl (UnsupportedCipher (kf_cipher f))
      else if kf_kdf f \<noteq> ''pbkdf2'' then Inl (UnsupportedKdf (kf_kdf f))
      else if kf_prf f \<noteq> ''hmac-sha256'' then Inl (UnsupportedKdfPrf (kf_prf f))
      else if kf_dklen f \<noteq> 32 then Inl (UnsupportedKdfDklen (kf_dklen f))
      else Inr ())"

definition keystore_hex :: "'x wallet_deps \<Rightarrow> string \<Rightarrow> string \<Rightarrow> wallet_error + bytes" where
  "keystore_hex D what s = ok_or (KeystoreParse (what @ '' hex'')) (hx_decode (wd_hex D) s)"

text \<open>The last step: the declared address, when the file has one, must be the key's.\<close>

definition check_declared :: "'x wallet_deps \<Rightarrow> string option \<Rightarrow> 'x wallet \<Rightarrow> wallet_error + 'x wallet" where
  "check_declared D declared w =
     (case declared of
        None \<Rightarrow> Inr w
      | Some a \<Rightarrow>
          bind_ok (keystore_hex D ''addr'' (trim_0x (trim a))) (\<lambda>bs.
          if length bs \<noteq> 20 then Inl WalletPanic
          else bind_ok (verify_address w (from_be_bytes bs)) (\<lambda>_. Inr w)))"

definition unlock :: "'x wallet_deps \<Rightarrow> keystore_file \<Rightarrow> string \<Rightarrow> wallet_error + 'x wallet" where
  "unlock D f passphrase =
     bind_ok (check_keystore_header f) (\<lambda>_.
     bind_ok (keystore_hex D ''salt'' (kf_salt f)) (\<lambda>salt.
     bind_ok (keystore_hex D ''iv'' (kf_iv f)) (\<lambda>iv.
     bind_ok (keystore_hex D ''ciphertext'' (kf_ciphertext f)) (\<lambda>ciphertext.
     bind_ok (keystore_hex D ''mac'' (kf_mac f)) (\<lambda>mac_expected.
     if length iv \<noteq> 16 then Inl (KeystoreParse ''iv must be 16 bytes'')
     else
       bind_ok (check_kdf_cost (kf_c f)) (\<lambda>below.
       let derived = wd_pbkdf2 D (str_bytes passphrase) salt (kf_c f);
           mac_actual = to_be_bytes (wd_keccak D (take 16 (drop 16 derived) @ ciphertext))
       in if mac_actual \<noteq> mac_expected then Inl InvalidPassphrase
          else
            let plaintext = wd_aes_ctr D (take 16 derived) iv ciphertext in
            if length plaintext \<noteq> 32 then Inl (KeystoreParse ''decrypted key length'')
            else
              bind_ok (from_hex D (hx_encode (wd_hex D) plaintext)) (\<lambda>w.
              check_declared D (kf_address f) (w\<lparr>w_below_modern_kdf := below\<rparr>))))))))"

definition from_keystore :: "'x wallet_deps \<Rightarrow> string \<Rightarrow> string \<Rightarrow> wallet_error + 'x wallet" where
  "from_keystore D path passphrase =
     (case wd_read_file D path of
        Inl e \<Rightarrow> Inl (KeystoreIo e)
      | Inr raw \<Rightarrow>
          (case wd_parse_keystore D raw of
             Inl e \<Rightarrow> Inl (KeystoreParse e)
           | Inr f \<Rightarrow> unlock D f passphrase))"

record key_names =
  kn_path :: string
  kn_passphrase :: string
  kn_hex :: string

definition from_env ::
  "'x wallet_deps \<Rightarrow> key_names \<Rightarrow> environment \<Rightarrow> (wallet_error + 'x wallet) \<times> environment" where
  "from_env D N env =
     (case env (kn_path N) of
        Some path \<Rightarrow>
          let (passphrase, env1) = take_env_secret (kn_passphrase N) env;
              env2 = snd (take_env_secret (kn_hex N) env1)
          in (case passphrase of
                None \<Rightarrow> (Inl MissingPassphrase, env2)
              | Some p \<Rightarrow> (from_keystore D path p, env2))
      | None \<Rightarrow>
          let (hex_key, env1) = take_env_secret (kn_hex N) env in
          (case hex_key of
             Some h \<Rightarrow> (from_hex D h, env1)
           | None \<Rightarrow> (Inl NoKeySource, env1)))"

section \<open>Signing\<close>

definition sign_digest_recoverable :: "'x wallet_deps \<Rightarrow> 'x wallet \<Rightarrow> b256 \<Rightarrow> wallet_error + bytes" where
  "sign_digest_recoverable D w digest =
     (case wd_sign_prehash D (w_signing_key w) digest of
        Inl e \<Rightarrow> Inl (WalletSign e)
      | Inr sig \<Rightarrow>
          (case wd_trial_recovery D (w_signing_key w) digest sig of
             Inl e \<Rightarrow> Inl (WalletSign (''recovery id: '' @ e))
           | Inr recid \<Rightarrow> Inr (sig @ [recid])))"

definition recover_address :: "'x wallet_deps \<Rightarrow> b256 \<Rightarrow> bytes \<Rightarrow> wallet_error + address" where
  "recover_address D digest sig65 =
     (if length sig65 \<noteq> 65 then Inl (WalletSign ''recoverable signature must be 65 bytes'')
      else if \<not> wd_signature_from_slice D (take 64 sig65) then Inl (WalletSign ''bad r||s'')
      else if \<not> wd_recovery_id_ok D (sig65 ! 64) then Inl (WalletSign ''bad recovery id'')
      else
        (case wd_recover D digest (take 64 sig65) (sig65 ! 64) of
           Inl e \<Rightarrow> Inl (WalletSign (''recover: '' @ e))
         | Inr point \<Rightarrow> Inr (address_of_point D point)))"

record eip1559_tx =
  tx_chain_id :: u64
  tx_nonce :: u64
  tx_max_priority_fee_per_gas :: u256
  tx_max_fee_per_gas :: u256
  tx_gas_limit :: u64
  tx_to :: address
  tx_value :: u256
  tx_data :: bytes

fun le_minimal :: "nat \<Rightarrow> bytes" where
  "le_minimal n = (if n = 0 then [] else of_nat n # le_minimal (n div 256))"

declare le_minimal.simps [simp del]

definition rlp_uint :: "'a::len word \<Rightarrow> rlp_item" where
  "rlp_uint v = RlpStr (rev (le_minimal (unat v)))"

definition tx_fields :: "eip1559_tx \<Rightarrow> rlp_item list" where
  "tx_fields tx =
     [rlp_uint (tx_chain_id tx), rlp_uint (tx_nonce tx), rlp_uint (tx_max_priority_fee_per_gas tx),
      rlp_uint (tx_max_fee_per_gas tx), rlp_uint (tx_gas_limit tx), RlpStr (to_be_bytes (tx_to tx)),
      rlp_uint (tx_value tx), RlpStr (tx_data tx), RlpList []]"

definition encode_eip1559_for_signing :: "'x wallet_deps \<Rightarrow> eip1559_tx \<Rightarrow> bytes" where
  "encode_eip1559_for_signing D tx = 0x02 # wd_rlp D (RlpList (tx_fields tx))"

definition encode_eip1559_with_signature ::
  "'x wallet_deps \<Rightarrow> eip1559_tx \<Rightarrow> u64 \<Rightarrow> u256 \<Rightarrow> u256 \<Rightarrow> bytes" where
  "encode_eip1559_with_signature D tx y_parity r s =
     0x02 # wd_rlp D (RlpList (tx_fields tx @ [rlp_uint y_parity, rlp_uint r, rlp_uint s]))"

definition sign_eip1559 :: "'x wallet_deps \<Rightarrow> 'x wallet \<Rightarrow> eip1559_tx \<Rightarrow> wallet_error + bytes" where
  "sign_eip1559 D w tx =
     (let digest = wd_keccak D (encode_eip1559_for_signing D tx) in
      case wd_sign_prehash D (w_signing_key w) digest of
        Inl e \<Rightarrow> Inl (WalletSign e)
      | Inr sig \<Rightarrow>
          let recid = (case wd_trial_recovery D (w_signing_key w) digest sig of Inl _ \<Rightarrow> 0 | Inr i \<Rightarrow> i)
          in Inr (encode_eip1559_with_signature D tx (ucast recid)
                    (from_be_bytes (take 32 sig)) (from_be_bytes (take 32 (drop 32 sig)))))"

definition tx_hash_of_signed :: "'x wallet_deps \<Rightarrow> bytes \<Rightarrow> b256" where
  "tx_hash_of_signed D signed_rlp = wd_keccak D signed_rlp"

end
