(* ===== verification/Wallet_Theorems.thy ===== *)
theory Wallet_Theorems
  imports Wallet
begin

text \<open>
  What loading a key and signing with it guarantee: an unlocked key is the one the file holds and
  the address it declares, the secrets leave the environment, a recoverable signature names its signer,
  and the bytes of a transaction determine it.
\<close>

section \<open>Unlocking a keystore\<close>

lemma from_hex_Inr:
  assumes "from_hex D h = Inr w"
  obtains bs sk where "hx_decode (wd_hex D) (trim_0x (trim h)) = Some bs" "length bs = 32"
    "wd_key_from_bytes D bs = Some sk"
    "w = \<lparr>w_signing_key = sk, w_address = wallet_address D sk, w_below_modern_kdf = None\<rparr>"
  using assms that by (auto simp: from_hex_def Let_def sum_simps split: if_splits)

lemma trim_encoded:
  assumes "hex_codec H"
  shows "trim_0x (trim (hx_encode H bs)) = hx_encode H bs"
proof -
  have "trim (hx_encode H bs) = hx_encode H bs"
    using hex_codec.no_space [OF assms] by (intro trim_none)
  then show ?thesis using hex_codec.trim_encode [OF assms] by simp
qed

lemma check_declared_Inr:
  assumes "check_declared D declared w = Inr w'"
  shows "w' = w \<and> (\<forall>a. declared = Some a \<longrightarrow>
    (\<exists>bs. hx_decode (wd_hex D) (trim_0x (trim a)) = Some bs \<and> length bs = 20 \<and> from_be_bytes bs = w_address w))"
  using assms by (auto simp: check_declared_def keystore_hex_def verify_address_def sum_simps
      split: option.splits if_splits)

text \<open>A declared address that is not 20 bytes long panics, in \<^verbatim>\<open>H160::from_slice\<close>, where every other
  malformed field is an error.\<close>

lemma declared_address_panics:
  "check_declared D (Some a) w = Inl WalletPanic \<longleftrightarrow>
     (\<exists>bs. hx_decode (wd_hex D) (trim_0x (trim a)) = Some bs \<and> length bs \<noteq> 20)"
  by (cases "hx_decode (wd_hex D) (trim_0x (trim a))")
    (auto simp: check_declared_def keystore_hex_def verify_address_def)

lemma unlock_Inr:
  assumes "unlock D f passphrase = Inr w"
  obtains salt iv ciphertext mac below w0 where
    "check_keystore_header f = Inr ()" "hx_decode (wd_hex D) (kf_salt f) = Some salt"
    "hx_decode (wd_hex D) (kf_iv f) = Some iv" "length iv = 16"
    "hx_decode (wd_hex D) (kf_ciphertext f) = Some ciphertext"
    "hx_decode (wd_hex D) (kf_mac f) = Some mac" "check_kdf_cost (kf_c f) = Inr below"
    "mac = to_be_bytes (wd_keccak D (take 16 (drop 16 (wd_pbkdf2 D (str_bytes passphrase) salt (kf_c f))) @ ciphertext))"
    "length (wd_aes_ctr D (take 16 (wd_pbkdf2 D (str_bytes passphrase) salt (kf_c f))) iv ciphertext) = 32"
    "from_hex D (hx_encode (wd_hex D) (wd_aes_ctr D (take 16 (wd_pbkdf2 D (str_bytes passphrase) salt (kf_c f))) iv ciphertext)) = Inr w0"
    "check_declared D (kf_address f) (w0\<lparr>w_below_modern_kdf := below\<rparr>) = Inr w"
  using assms by (auto simp: unlock_def keystore_hex_def sum_simps Let_def intro: that split: if_splits)

text \<open>A keystore that unlocks is of version 3 with the one supported cipher, derivation, function
  and key length and at least 10000 iterations; its checksum is that of the derived key and the
  ciphertext; the signing key is the one its decrypted 32 bytes encode, the address is that key's and,
  where the file declares one, the declared one; and the iteration count is kept for the warning
  exactly if it is below 600000.\<close>

theorem unlocked_key_is_the_files:
  assumes "hex_codec (wd_hex D)" and "unlock D f passphrase = Inr w"
  shows "kf_version f = 3 \<and> kf_cipher f = ''aes-128-ctr'' \<and> kf_kdf f = ''pbkdf2'' \<and>
    kf_prf f = ''hmac-sha256'' \<and> kf_dklen f = 32 \<and> 10000 \<le> kf_c f \<and>
    w_below_modern_kdf w = (if kf_c f < 600000 then Some (kf_c f) else None) \<and>
    w_address w = wallet_address D (w_signing_key w) \<and>
    (\<exists>salt iv ciphertext.
      hx_decode (wd_hex D) (kf_salt f) = Some salt \<and> hx_decode (wd_hex D) (kf_iv f) = Some iv \<and>
      hx_decode (wd_hex D) (kf_ciphertext f) = Some ciphertext \<and>
      (let derived = wd_pbkdf2 D (str_bytes passphrase) salt (kf_c f) in
        hx_decode (wd_hex D) (kf_mac f) =
          Some (to_be_bytes (wd_keccak D (take 16 (drop 16 derived) @ ciphertext))) \<and>
        wd_key_from_bytes D (wd_aes_ctr D (take 16 derived) iv ciphertext) = Some (w_signing_key w))) \<and>
    (\<forall>a. kf_address f = Some a \<longrightarrow>
      (\<exists>bs. hx_decode (wd_hex D) (trim_0x (trim a)) = Some bs \<and> from_be_bytes bs = w_address w))"
proof -
  from assms(2) obtain salt iv ciphertext mac below w0 where u:
    "check_keystore_header f = Inr ()" "hx_decode (wd_hex D) (kf_salt f) = Some salt"
    "hx_decode (wd_hex D) (kf_iv f) = Some iv" "length iv = 16"
    "hx_decode (wd_hex D) (kf_ciphertext f) = Some ciphertext"
    "hx_decode (wd_hex D) (kf_mac f) = Some mac" "check_kdf_cost (kf_c f) = Inr below"
    "mac = to_be_bytes (wd_keccak D (take 16 (drop 16 (wd_pbkdf2 D (str_bytes passphrase) salt (kf_c f))) @ ciphertext))"
    "from_hex D (hx_encode (wd_hex D) (wd_aes_ctr D (take 16 (wd_pbkdf2 D (str_bytes passphrase) salt (kf_c f))) iv ciphertext)) = Inr w0"
    "check_declared D (kf_address f) (w0\<lparr>w_below_modern_kdf := below\<rparr>) = Inr w"
    by (rule unlock_Inr)
  from u(9) obtain bs sk where bs: "hx_decode (wd_hex D) (trim_0x (trim (hx_encode (wd_hex D)
      (wd_aes_ctr D (take 16 (wd_pbkdf2 D (str_bytes passphrase) salt (kf_c f))) iv ciphertext)))) = Some bs"
    and key: "wd_key_from_bytes D bs = Some sk"
    and w0: "w0 = \<lparr>w_signing_key = sk, w_address = wallet_address D sk, w_below_modern_kdf = None\<rparr>"
    by (rule from_hex_Inr)
  from bs have plain: "bs = wd_aes_ctr D (take 16 (wd_pbkdf2 D (str_bytes passphrase) salt (kf_c f))) iv ciphertext"
    by (simp add: trim_encoded [OF assms(1)] hex_codec.decode_encode [OF assms(1)])
  note declared = check_declared_Inr [OF u(10)]
  then have w: "w = \<lparr>w_signing_key = sk, w_address = wallet_address D sk, w_below_modern_kdf = below\<rparr>"
    by (simp add: w0)
  have "kf_version f = 3 \<and> kf_cipher f = ''aes-128-ctr'' \<and> kf_kdf f = ''pbkdf2'' \<and>
      kf_prf f = ''hmac-sha256'' \<and> kf_dklen f = 32"
    using u(1) by (simp add: check_keystore_header_def split: if_splits)
  moreover have "10000 \<le> kf_c f \<and> below = (if kf_c f < 600000 then Some (kf_c f) else None)"
    using u(7) by (auto simp: check_kdf_cost_def MIN_PBKDF2_ITERS_def MIN_MODERN_PBKDF2_ITERS_def split: if_splits)
  moreover have "\<forall>a. kf_address f = Some a \<longrightarrow>
      (\<exists>bs. hx_decode (wd_hex D) (trim_0x (trim a)) = Some bs \<and> from_be_bytes bs = w_address w)"
    using declared w w0 by auto
  ultimately show ?thesis
    using u(2,3,5,6,8) key plain by (simp add: w Let_def)
qed

section \<open>The environment\<close>

text \<open>Loading from the environment leaves no raw key in it, whether it succeeds or not, and touches
  no variable but the two secrets; the passphrase is removed when a keystore is named and stays when
  none is.\<close>

theorem secrets_leave_the_environment:
  assumes "kn_path N \<noteq> kn_passphrase N" "kn_path N \<noteq> kn_hex N" "kn_passphrase N \<noteq> kn_hex N"
  shows "snd (from_env D N env) (kn_hex N) = None \<and>
    snd (from_env D N env) (kn_passphrase N) = (if env (kn_path N) = None then env (kn_passphrase N) else None) \<and>
    (\<forall>v. v \<noteq> kn_hex N \<and> v \<noteq> kn_passphrase N \<longrightarrow> snd (from_env D N env) v = env v)"
  using assms by (auto simp: from_env_def take_env_secret_def split: option.splits)

section \<open>Recoverable signatures\<close>

text \<open>A recoverable signature made by a wallet over a digest recovers, from the digest and the
  65 bytes alone, to the wallet's address.\<close>

theorem signature_recovers_to_signer:
  assumes "w_address w = wallet_address D (w_signing_key w)"
    and "sign_digest_recoverable D w digest = Inr sig65"
    and "\<And>sig. wd_sign_prehash D (w_signing_key w) digest = Inr sig \<Longrightarrow>
      length sig = 64 \<and> wd_signature_from_slice D sig"
    and "\<And>sig r. wd_sign_prehash D (w_signing_key w) digest = Inr sig \<Longrightarrow>
      wd_trial_recovery D (w_signing_key w) digest sig = Inr r \<Longrightarrow>
      wd_recovery_id_ok D r \<and> wd_recover D digest sig r = Inr (wd_public_point D (w_signing_key w))"
  shows "recover_address D digest sig65 = Inr (w_address w)"
proof -
  from assms(2) obtain sig r where "wd_sign_prehash D (w_signing_key w) digest = Inr sig"
      "wd_trial_recovery D (w_signing_key w) digest sig = Inr r" "sig65 = sig @ [r]"
    by (auto simp: sign_digest_recoverable_def split: sum.splits)
  with assms(1,3,4) show ?thesis
    by (simp add: recover_address_def wallet_address_def nth_append)
qed

section \<open>Transactions\<close>

lemma le_value_minimal: "le_value (le_minimal n) = n"
proof (induction n rule: le_minimal.induct)
  case (1 n)
  show ?case
  proof (cases "n = 0")
    case True
    then show ?thesis by (simp add: le_minimal.simps)
  next
    case False
    then show ?thesis using 1 by (subst le_minimal.simps) (simp add: unat_of_nat_u8)
  qed
qed

lemma rlp_uint_inject [simp]: "rlp_uint v = rlp_uint w \<longleftrightarrow> v = (w :: 'a::len word)"
  unfolding rlp_uint_def rlp_item.inject rev_is_rev_conv
  by (metis le_value_minimal word_unat_eq_iff)

lemma tx_fields_inject: "tx_fields tx = tx_fields tx' \<longleftrightarrow> tx = tx'"
  by (cases tx; cases tx') (auto simp: tx_fields_def)

lemma length_tx_fields [simp]: "length (tx_fields tx) = 9"
  by (simp add: tx_fields_def)

text \<open>If the RLP encoder does not confuse the lists at hand, the bytes to sign determine every field
  of the transaction, the signed bytes determine the transaction and the signature, and neither
  is ever the other.\<close>

theorem transaction_bytes_determine_it:
  assumes "inj_on (wd_rlp D) {RlpList (tx_fields tx), RlpList (tx_fields tx'),
    RlpList (tx_fields tx @ [rlp_uint y, rlp_uint r, rlp_uint s]),
    RlpList (tx_fields tx' @ [rlp_uint y', rlp_uint r', rlp_uint s'])}"
  shows "(encode_eip1559_for_signing D tx = encode_eip1559_for_signing D tx' \<longleftrightarrow> tx = tx') \<and>
    (encode_eip1559_with_signature D tx y r s = encode_eip1559_with_signature D tx' y' r' s' \<longleftrightarrow>
      tx = tx' \<and> y = y' \<and> r = r' \<and> s = s') \<and>
    encode_eip1559_for_signing D tx \<noteq> encode_eip1559_with_signature D tx' y' r' s'"
proof -
  have "tx_fields tx \<noteq> tx_fields tx' @ [a, b, c]" for a b c
    by (metis add_left_cancel length_append length_tx_fields list.size(3) nat.distinct(1) length_Cons add.right_neutral)
  moreover have "tx_fields tx @ [a, b, c] = tx_fields tx' @ [a', b', c'] \<longleftrightarrow> tx = tx' \<and> a = a' \<and> b = b' \<and> c = c'"
    for a b c a' b' c'
    by (simp add: append_eq_append_conv tx_fields_inject)
  ultimately show ?thesis
    using assms unfolding encode_eip1559_for_signing_def encode_eip1559_with_signature_def
    by (auto simp: inj_on_def tx_fields_inject)
qed

section \<open>A sample keystore\<close>

text \<open>A toy instance of the parameters: a key is its bytes, the cipher does nothing, a signature
  repeats the key.\<close>

definition sample_wallet_deps :: "rlp_item \<Rightarrow> bytes wallet_deps" where
  "sample_wallet_deps special =
     \<lparr>wd_keccak = \<lambda>bs. of_nat (length bs), wd_hex = lower_hex, wd_read_file = \<lambda>_. Inr [],
      wd_parse_keystore = \<lambda>_. Inl ''none'', wd_pbkdf2 = \<lambda>_ _ _. replicate 32 7,
      wd_aes_ctr = \<lambda>_ _ c. c, wd_key_from_bytes = Some, wd_public_point = \<lambda>sk. 4 # sk,
      wd_sign_prehash = \<lambda>sk _. Inr (sk @ sk), wd_trial_recovery = \<lambda>_ _ _. Inr 0,
      wd_signature_from_slice = \<lambda>_. True, wd_recovery_id_ok = \<lambda>b. b \<le> 3,
      wd_recover = \<lambda>_ sig _. Inr (4 # take 32 sig),
      wd_rlp = \<lambda>i. case i of RlpList is \<Rightarrow> if i = special then [0] else [1] | _ \<Rightarrow> []\<rparr>"

definition sample_key :: bytes where "sample_key = replicate 32 5"

definition sample_keystore :: keystore_file where
  "sample_keystore = \<lparr>kf_version = 3, kf_address = Some (hex_encode (to_be_bytes (32 :: address))),
     kf_cipher = ''aes-128-ctr'', kf_iv = hex_encode (replicate 16 0), kf_ciphertext = hex_encode sample_key,
     kf_kdf = ''pbkdf2'', kf_prf = ''hmac-sha256'', kf_c = 10000, kf_salt = [], kf_dklen = 32,
     kf_mac = hex_encode (to_be_bytes (48 :: b256))\<rparr>"

lemma sample_hex [simp]:
  "wd_hex (sample_wallet_deps i) = lower_hex" "hx_decode lower_hex (hex_encode bs) = Some bs"
  "hx_encode lower_hex bs = hex_encode bs" "trim_0x (trim (hex_encode bs)) = hex_encode bs"
  "hx_decode lower_hex [] = Some []"
  using trim_encoded [OF lower.hex_codec_axioms, of bs]
  by (simp_all add: sample_wallet_deps_def lower_hex_def hex_decode_encode)

definition sample_wallet :: "bytes wallet" where
  "sample_wallet = \<lparr>w_signing_key = sample_key, w_address = 32, w_below_modern_kdf = Some 10000\<rparr>"

lemma sample_wallet_address: "wallet_address (sample_wallet_deps i) sample_key = 32"
  by (simp add: wallet_address_def address_of_point_def sample_wallet_deps_def sample_key_def)

lemma sample_unlock: "unlock (sample_wallet_deps i) sample_keystore ''secret'' = Inr sample_wallet"
proof -
  have "from_hex (sample_wallet_deps i) (hex_encode sample_key) =
      Inr \<lparr>w_signing_key = sample_key, w_address = 32, w_below_modern_kdf = None\<rparr>"
    using sample_wallet_address [of i]
    by (simp add: from_hex_def Let_def) (simp add: sample_wallet_deps_def sample_key_def)
  moreover have "wd_aes_ctr (sample_wallet_deps i) k v c = c"
    "wd_keccak (sample_wallet_deps i) bs = of_nat (length bs)"
    "wd_pbkdf2 (sample_wallet_deps i) q t n = replicate 32 7" for k v c bs q t n
    by (simp_all add: sample_wallet_deps_def)
  ultimately show ?thesis
    by (simp add: unlock_def sample_keystore_def check_keystore_header_def keystore_hex_def Let_def
        check_kdf_cost_def MIN_PBKDF2_ITERS_def MIN_MODERN_PBKDF2_ITERS_def check_declared_def
        verify_address_def sample_wallet_def sample_key_def)
qed

theorem unlocked_key_is_the_files_witness:
  "10000 \<le> kf_c sample_keystore \<and> w_address sample_wallet =
     wallet_address (sample_wallet_deps (RlpStr [])) (w_signing_key sample_wallet)"
  using unlocked_key_is_the_files [OF _ sample_unlock [of "RlpStr []"]] lower.hex_codec_axioms
  by simp

theorem secrets_leave_the_environment_witness:
  "snd (from_env (sample_wallet_deps (RlpStr [])) \<lparr>kn_path = ''path'', kn_passphrase = ''pass'', kn_hex = ''hex''\<rparr>
     [''pass'' \<mapsto> ''p'', ''hex'' \<mapsto> ''00'']) = [''pass'' \<mapsto> ''p'']"
proof -
  let ?N = "\<lparr>kn_path = ''path'', kn_passphrase = ''pass'', kn_hex = ''hex''\<rparr>"
    and ?env = "[''pass'' \<mapsto> ''p'', ''hex'' \<mapsto> ''00'']"
  from secrets_leave_the_environment [of ?N "sample_wallet_deps (RlpStr [])" ?env]
  have "snd (from_env (sample_wallet_deps (RlpStr [])) ?N ?env) v = [''pass'' \<mapsto> ''p''] v" for v
    by (cases "v = ''hex''"; cases "v = ''pass''") auto
  then show ?thesis by (rule ext)
qed

theorem signature_recovers_to_signer_witness:
  "recover_address (sample_wallet_deps (RlpStr [])) 9 (sample_key @ sample_key @ [0]) = Inr 32"
proof -
  let ?D = "sample_wallet_deps (RlpStr [])"
  have "recover_address ?D 9 (sample_key @ sample_key @ [0]) = Inr (w_address sample_wallet)"
  proof (rule signature_recovers_to_signer)
    show "w_address sample_wallet = wallet_address ?D (w_signing_key sample_wallet)"
      using sample_wallet_address by (simp add: sample_wallet_def)
    show "sign_digest_recoverable ?D sample_wallet 9 = Inr (sample_key @ sample_key @ [0])"
      by (simp add: sign_digest_recoverable_def sample_wallet_deps_def sample_wallet_def)
    show "length sig = 64 \<and> wd_signature_from_slice ?D sig"
      if "wd_sign_prehash ?D (w_signing_key sample_wallet) 9 = Inr sig" for sig
      using that by (auto simp: sample_wallet_deps_def sample_wallet_def sample_key_def)
    show "wd_recovery_id_ok ?D r \<and> wd_recover ?D 9 sig r = Inr (wd_public_point ?D (w_signing_key sample_wallet))"
      if "wd_sign_prehash ?D (w_signing_key sample_wallet) 9 = Inr sig"
        "wd_trial_recovery ?D (w_signing_key sample_wallet) 9 sig = Inr r" for sig r
      using that by (auto simp: sample_wallet_deps_def sample_wallet_def sample_key_def)
  qed
  then show ?thesis by (simp add: sample_wallet_def)
qed

definition sample_tx :: "u64 \<Rightarrow> eip1559_tx" where
  "sample_tx nonce = \<lparr>tx_chain_id = 40204, tx_nonce = nonce, tx_max_priority_fee_per_gas = 1000000000,
     tx_max_fee_per_gas = 3000000000, tx_gas_limit = 200000, tx_to = 7, tx_value = 0, tx_data = [1, 2, 3, 4]\<rparr>"

theorem transaction_bytes_determine_it_witness:
  "encode_eip1559_for_signing (sample_wallet_deps (RlpList (tx_fields (sample_tx 1)))) (sample_tx 1) \<noteq>
   encode_eip1559_with_signature (sample_wallet_deps (RlpList (tx_fields (sample_tx 1)))) (sample_tx 1) 0 5 6"
proof -
  let ?D = "sample_wallet_deps (RlpList (tx_fields (sample_tx 1)))"
  have "tx_fields t @ [a, b, c] \<noteq> tx_fields (sample_tx 1)" for a b c t
    by (metis add_left_cancel length_append length_tx_fields list.size(3) nat.distinct(1) length_Cons add.right_neutral)
  then have "inj_on (wd_rlp ?D) {RlpList (tx_fields (sample_tx 1)), RlpList (tx_fields (sample_tx 1)),
      RlpList (tx_fields (sample_tx 1) @ [rlp_uint (0 :: u64), rlp_uint (5 :: u256), rlp_uint (6 :: u256)]),
      RlpList (tx_fields (sample_tx 1) @ [rlp_uint (0 :: u64), rlp_uint (5 :: u256), rlp_uint (6 :: u256)])}"
    by (auto simp: inj_on_def sample_wallet_deps_def)
  from transaction_bytes_determine_it [OF this] show ?thesis by blast
qed

end
