(* ===== verification/Json_Rpc.thy ===== *)
theory Json_Rpc
  imports Wallet_Theorems
begin

text \<open>
  The JSON-RPC client that \<^verbatim>\<open>pool-coordinator/src/http_chain.rs\<close>, \<^verbatim>\<open>training-worker/src/http_chain_training.rs\<close>
  and \<^verbatim>\<open>http_chain_pipeline.rs\<close> each carry a copy of: one request, a call of the contract, the quantities, and a
  signed write with the wait for its receipt.  The three copies differ in the constructor of their errors,
  which is the argument \<open>err\<close> here, and in the gas limit of a write.

  The world outside is a type \<open>'w\<close> with the operations of the record \<open>rpc_env\<close>: one POST to the
  node (a transport or decoding error, or the JSON body), the clock in milliseconds and \<^verbatim>\<open>sleep\<close>.
  An operation maps a world to a result and the next world; the operations that wait for a receipt are
  partial, \<open>None\<close> if they never return.  The text of an error is its fixed part.
\<close>

section \<open>Operations on the world\<close>

type_synonym ('w, 'e, 'a) io = "'w \<Rightarrow> ('e + 'a) \<times> 'w"
type_synonym ('w, 'e, 'a) pio = "'w \<Rightarrow> (('e + 'a) \<times> 'w) option"

definition io_bind :: "('w, 'e, 'a) io \<Rightarrow> ('a \<Rightarrow> ('w, 'e, 'b) io) \<Rightarrow> ('w, 'e, 'b) io" where
  "io_bind m f w = (case m w of (Inl e, w1) \<Rightarrow> (Inl e, w1) | (Inr a, w1) \<Rightarrow> f a w1)"

definition io_of :: "'e + 'a \<Rightarrow> ('w, 'e, 'a) io" where
  "io_of r w = (r, w)"

definition pio_bind :: "('w, 'e, 'a) pio \<Rightarrow> ('a \<Rightarrow> ('w, 'e, 'b) pio) \<Rightarrow> ('w, 'e, 'b) pio" where
  "pio_bind m f w =
     (case m w of None \<Rightarrow> None | Some (Inl e, w1) \<Rightarrow> Some (Inl e, w1) | Some (Inr a, w1) \<Rightarrow> f a w1)"

definition pio_of :: "('w, 'e, 'a) io \<Rightarrow> ('w, 'e, 'a) pio" where
  "pio_of m w = Some (m w)"

record 'w rpc_env =
  re_post :: "string \<Rightarrow> json \<Rightarrow> 'w \<Rightarrow> (string + json) \<times> 'w"
  re_now :: "'w \<Rightarrow> nat"
  re_sleep :: "nat \<Rightarrow> 'w \<Rightarrow> 'w"

text \<open>The fields the three clients have: \<^verbatim>\<open>HttpChainAdapter\<close>, \<^verbatim>\<open>HttpChainClient\<close>, \<^verbatim>\<open>HttpPipelineChainClient\<close>.\<close>

record 'x http_client =
  hc_rpc_url :: string
  hc_chain_id :: u64
  hc_contract :: address
  hc_wallet :: "'x wallet"

text \<open>What a client calls of other crates: the wallet's parameters and the reader of \<^verbatim>\<open>U256\<close>.\<close>

record 'x chain_deps =
  cd_wallet :: "'x wallet_deps"
  cd_u256_from_hex :: "string \<Rightarrow> u256 option"

abbreviation cd_hex :: "'x chain_deps \<Rightarrow> codec" where "cd_hex D \<equiv> wd_hex (cd_wallet D)"
abbreviation cd_keccak :: "'x chain_deps \<Rightarrow> bytes \<Rightarrow> b256" where "cd_keccak D \<equiv> wd_keccak (cd_wallet D)"

section \<open>Requests\<close>

fun json_as_array :: "json \<Rightarrow> json list option" where
  "json_as_array (JArr xs) = Some xs"
| "json_as_array _ = None"

definition json_rpc :: "(string \<Rightarrow> 'e) \<Rightarrow> 'w rpc_env \<Rightarrow> string \<Rightarrow> json \<Rightarrow> ('w, 'e, json) io" where
  "json_rpc err E method params w =
     (case re_post E method params w of
        (Inl e, w1) \<Rightarrow> (Inl (err (method @ '' transport'')), w1)
      | (Inr v, w1) \<Rightarrow>
          (case json_get ''error'' v of
             Some e \<Rightarrow>
               if e \<noteq> JNull then (Inl (err (method @ '' rpc error'')), w1)
               else (ok_or (err (method @ '' missing result'')) (json_get ''result'' v), w1)
           | None \<Rightarrow> (ok_or (err (method @ '' missing result'')) (json_get ''result'' v), w1)))"

definition rpc_text :: "(string \<Rightarrow> 'e) \<Rightarrow> 'w rpc_env \<Rightarrow> string \<Rightarrow> json \<Rightarrow> ('w, 'e, string) io" where
  "rpc_text err E method params =
     io_bind (json_rpc err E method params) (\<lambda>r. io_of (ok_or (err (method @ '' not a string'')) (json_as_str r)))"

definition rpc_quantity ::
  "(string \<Rightarrow> 'e) \<Rightarrow> (string \<Rightarrow> 'a option) \<Rightarrow> 'w rpc_env \<Rightarrow> string \<Rightarrow> json \<Rightarrow> ('w, 'e, 'a) io" where
  "rpc_quantity err parse E method params =
     io_bind (rpc_text err E method params) (\<lambda>s. io_of (ok_or (err (method @ '' decode'')) (parse s)))"

definition hex0x_address :: "'x chain_deps \<Rightarrow> address \<Rightarrow> string" where
  "hex0x_address D a = hex0x (cd_hex D) (to_be_bytes a)"

definition call_contract ::
  "(string \<Rightarrow> 'e) \<Rightarrow> 'w rpc_env \<Rightarrow> 'x chain_deps \<Rightarrow> 'x http_client \<Rightarrow> bytes \<Rightarrow> ('w, 'e, bytes) io" where
  "call_contract err E D A data =
     io_bind (rpc_text err E ''eth_call''
       (JArr [JObj [(''to'', JStr (hex0x_address D (hc_contract A))),
                    (''data'', JStr (hex0x (cd_hex D) data))], JStr ''latest'']))
       (\<lambda>s. io_of (ok_or (err ''eth_call bad hex'') (hx_decode (cd_hex D) (trim_0x s))))"

definition nonce_of :: "(string \<Rightarrow> 'e) \<Rightarrow> 'w rpc_env \<Rightarrow> 'x chain_deps \<Rightarrow> 'x http_client \<Rightarrow> ('w, 'e, u64) io" where
  "nonce_of err E D A =
     rpc_quantity err parse_hex_u64 E ''eth_getTransactionCount''
       (JArr [JStr (hex0x_address D (w_address (hc_wallet A))), JStr ''pending''])"

definition gas_price_of :: "(string \<Rightarrow> 'e) \<Rightarrow> 'w rpc_env \<Rightarrow> 'x chain_deps \<Rightarrow> ('w, 'e, u256) io" where
  "gas_price_of err E D = rpc_quantity err (parse_hex_u256 (cd_u256_from_hex D)) E ''eth_gasPrice'' (JArr [])"

definition check_chain_id :: "(string \<Rightarrow> 'e) \<Rightarrow> 'w rpc_env \<Rightarrow> 'x http_client \<Rightarrow> ('w, 'e, unit) io" where
  "check_chain_id err E A =
     io_bind (rpc_quantity err parse_hex_u64 E ''eth_chainId'' (JArr [])) (\<lambda>observed.
       io_of (if observed \<noteq> hc_chain_id A then Inl (err ''RPC chain_id mismatch'') else Inr ()))"

section \<open>Receipts\<close>

definition RECEIPT_WAIT_TIMEOUT :: nat where "RECEIPT_WAIT_TIMEOUT = 30000"
definition RECEIPT_POLL_INITIAL :: nat where "RECEIPT_POLL_INITIAL = 250"
definition RECEIPT_POLL_MAX :: nat where "RECEIPT_POLL_MAX = 500"

text \<open>The receipt: a status of zero is a revert, a missing or unreadable one counts as success.\<close>

definition read_receipt :: "(string \<Rightarrow> 'e) \<Rightarrow> json \<Rightarrow> 'e + u64 option" where
  "read_receipt err r =
     (let status = (case Option.bind (json_get ''status'' r) json_as_str of Some s \<Rightarrow> s | None \<Rightarrow> ''0x1'') in
      if (case parse_hex_u64 status of Some n \<Rightarrow> n | None \<Rightarrow> 1) = 0 then Inl (err ''tx reverted'')
      else Inr (Option.bind (Option.bind (json_get ''blockNumber'' r) json_as_str) parse_hex_u64))"

partial_function (option) receipt_loop ::
  "(string \<Rightarrow> 'e) \<Rightarrow> 'w rpc_env \<Rightarrow> string \<Rightarrow> nat \<Rightarrow> nat \<Rightarrow> 'w \<Rightarrow> (('e + u64 option) \<times> 'w) option" where
  "receipt_loop err E hash_hex deadline delay w =
     (if \<not> re_now E w < deadline then Some (Inr None, w)
      else
        case json_rpc err E ''eth_getTransactionReceipt'' (JArr [JStr hash_hex]) w of
          (Inl e, w1) \<Rightarrow> Some (Inl e, w1)
        | (Inr r, w1) \<Rightarrow>
            if r \<noteq> JNull then Some (read_receipt err r, w1)
            else receipt_loop err E hash_hex deadline (min (delay * 2) RECEIPT_POLL_MAX) (re_sleep E delay w1))"

definition await_receipt :: "(string \<Rightarrow> 'e) \<Rightarrow> 'w rpc_env \<Rightarrow> 'x chain_deps \<Rightarrow> b256 \<Rightarrow> ('w, 'e, u64 option) pio" where
  "await_receipt err E D tx_hash w =
     receipt_loop err E (hex0x (cd_hex D) (to_be_bytes tx_hash)) (re_now E w + RECEIPT_WAIT_TIMEOUT)
       RECEIPT_POLL_INITIAL w"

section \<open>Writes\<close>

definition DEFAULT_PRIORITY_FEE_WEI :: u64 where "DEFAULT_PRIORITY_FEE_WEI = 1000000000"

definition write_tx :: "'x http_client \<Rightarrow> u64 \<Rightarrow> u64 \<Rightarrow> u256 \<Rightarrow> bytes \<Rightarrow> u256 \<Rightarrow> eip1559_tx" where
  "write_tx A gas_limit nonce gas_price calldata val =
     \<lparr>tx_chain_id = hc_chain_id A, tx_nonce = nonce,
      tx_max_priority_fee_per_gas = ucast DEFAULT_PRIORITY_FEE_WEI,
      tx_max_fee_per_gas = sat_add (sat_mul gas_price 2) (ucast DEFAULT_PRIORITY_FEE_WEI),
      tx_gas_limit = gas_limit, tx_to = hc_contract A, tx_value = val, tx_data = calldata\<rparr>"

text \<open>\<open>sign_err\<close> is the error a failed signature becomes.\<close>

definition write_contract ::
  "(string \<Rightarrow> 'e) \<Rightarrow> 'e \<Rightarrow> u64 \<Rightarrow> 'w rpc_env \<Rightarrow> 'x chain_deps \<Rightarrow> 'x http_client \<Rightarrow> bytes \<Rightarrow> u256 \<Rightarrow>
   ('w, 'e, b256 \<times> u64 option) pio" where
  "write_contract err sign_err gas_limit E D A calldata val =
     pio_bind (pio_of (nonce_of err E D A)) (\<lambda>nonce.
     pio_bind (pio_of (gas_price_of err E D)) (\<lambda>gas_price.
     pio_bind (pio_of (io_of (map_sum (\<lambda>_. sign_err) (\<lambda>s. s)
         (sign_eip1559 (cd_wallet D) (hc_wallet A) (write_tx A gas_limit nonce gas_price calldata val))))) (\<lambda>signed.
     let tx_hash = tx_hash_of_signed (cd_wallet D) signed in
     pio_bind (pio_of (json_rpc err E ''eth_sendRawTransaction'' (JArr [JStr (hex0x (cd_hex D) signed)]))) (\<lambda>_.
     pio_bind (await_receipt err E D tx_hash) (\<lambda>block_number.
     pio_of (io_of (Inr (tx_hash, block_number))))))))"

section \<open>Waiting ends\<close>

named_theorems returning \<open>operations that end in every world\<close>

text \<open>The clock of the world is monotonic and a sleep lasts at least as long as asked.\<close>

definition steady_clock :: "'w rpc_env \<Rightarrow> bool" where
  "steady_clock E \<longleftrightarrow> (\<forall>d w. re_now E w + d \<le> re_now E (re_sleep E d w)) \<and>
     (\<forall>m p w. re_now E w \<le> re_now E (snd (re_post E m p w)))"

definition returns :: "('w, 'e, 'a) pio \<Rightarrow> bool" where
  "returns op \<longleftrightarrow> (\<forall>w. op w \<noteq> None)"

lemma returns_pio_of [simp, returning]: "returns (pio_of m)"
  by (simp add: returns_def pio_of_def)

lemma returns_bind [returning]: "returns m \<Longrightarrow> (\<And>a. returns (f a)) \<Longrightarrow> returns (pio_bind m f)"
  by (auto simp: returns_def pio_bind_def split: option.split sum.split)

lemma json_rpc_world: "snd (json_rpc err E m p w) = snd (re_post E m p w)"
  by (auto simp: json_rpc_def split: prod.split sum.split option.split)

lemma json_rpc_clock: "steady_clock E \<Longrightarrow> re_now E w \<le> re_now E (snd (json_rpc err E m p w))"
  by (simp add: json_rpc_world steady_clock_def)

lemma receipt_loop_returns:
  assumes E: "steady_clock E" and "0 < delay" "delay \<le> RECEIPT_POLL_MAX" "deadline \<le> re_now E w + delay * k"
  shows "\<exists>r. receipt_loop err E h deadline delay w = Some r"
  using assms(2-)
proof (induction k arbitrary: w delay)
  case 0
  then show ?case by (subst receipt_loop.simps) simp
next
  case (Suc k)
  let ?w1 = "snd (json_rpc err E ''eth_getTransactionReceipt'' (JArr [JStr h]) w)"
  let ?delay = "min (delay * 2) RECEIPT_POLL_MAX"
  have "re_now E w + delay \<le> re_now E ?w1 + delay" using json_rpc_clock [OF E] by simp
  also have "\<dots> \<le> re_now E (re_sleep E delay ?w1)" using E by (simp add: steady_clock_def)
  finally have "deadline \<le> re_now E (re_sleep E delay ?w1) + delay * k" using Suc.prems by simp
  also have "\<dots> \<le> re_now E (re_sleep E delay ?w1) + ?delay * k" using Suc.prems by simp
  finally obtain r where "receipt_loop err E h deadline ?delay (re_sleep E delay ?w1) = Some r"
    using Suc.IH [of ?delay "re_sleep E delay ?w1"] Suc.prems by (auto simp: RECEIPT_POLL_MAX_def)
  then show ?case by (subst receipt_loop.simps) (auto split: prod.split sum.split)
qed

lemma returns_await_receipt [returning]: "steady_clock E \<Longrightarrow> returns (await_receipt err E D tx_hash)"
  unfolding returns_def await_receipt_def
  using receipt_loop_returns [of E RECEIPT_POLL_INITIAL _ _ 120 err]
  by (simp add: RECEIPT_POLL_INITIAL_def RECEIPT_POLL_MAX_def RECEIPT_WAIT_TIMEOUT_def del: split_paired_Ex)

lemma returns_write_contract [returning]:
  "steady_clock E \<Longrightarrow> returns (write_contract err sign_err gas_limit E D A calldata val)"
  unfolding write_contract_def Let_def by (intro returning)

section \<open>How often it asks\<close>

text \<open>The environment that also counts its requests.\<close>

definition counted :: "'w rpc_env \<Rightarrow> ('w \<times> nat) rpc_env" where
  "counted E = \<lparr>re_post = (\<lambda>m p (w, n). let (r, w1) = re_post E m p w in (r, w1, n + 1)),
     re_now = (\<lambda>(w, n). re_now E w), re_sleep = (\<lambda>d (w, n). (re_sleep E d w, n))\<rparr>"

lemma counted_steady: "steady_clock E \<Longrightarrow> steady_clock (counted E)"
  by (auto simp: steady_clock_def counted_def split: prod.split) (metis snd_conv)

lemma counted_now [simp]: "re_now (counted E) (w, n) = re_now E w"
  by (simp add: counted_def)

lemma counted_sleep [simp]: "re_sleep (counted E) d (w, n) = (re_sleep E d w, n)"
  by (simp add: counted_def)

lemma counted_rpc: "snd (snd (json_rpc err (counted E) m p (w, n))) = n + 1"
  by (simp add: json_rpc_world counted_def split: prod.split)

text \<open>From a delay of half a second on, a request is made at most every half second.\<close>

lemma receipt_loop_ends:
  assumes E: "steady_clock E" and "deadline \<le> re_now E w + RECEIPT_POLL_MAX * k"
  shows "\<exists>r w1 n1. receipt_loop err (counted E) h deadline RECEIPT_POLL_MAX (w, n) = Some (r, w1, n1) \<and> n1 \<le> n + k"
  using assms(2)
proof (induction k arbitrary: w n)
  case 0
  then show ?case by (subst receipt_loop.simps) (simp add: counted_def)
next
  case (Suc k)
  obtain r w1 where r: "json_rpc err (counted E) ''eth_getTransactionReceipt'' (JArr [JStr h]) (w, n) = (r, w1, n + 1)"
    using counted_rpc [of err E _ _ w n] by (metis prod.collapse)
  have "re_now E w \<le> re_now E w1"
    using json_rpc_clock [OF counted_steady [OF E], of "(w, n)"] by (metis r snd_conv counted_now)
  moreover have "re_now E w1 + RECEIPT_POLL_MAX \<le> re_now E (re_sleep E RECEIPT_POLL_MAX w1)"
    using E by (simp add: steady_clock_def)
  ultimately have "deadline \<le> re_now E (re_sleep E RECEIPT_POLL_MAX w1) + RECEIPT_POLL_MAX * k"
    using Suc.prems by simp
  then obtain r2 w2 n2 where "receipt_loop err (counted E) h deadline RECEIPT_POLL_MAX
      (re_sleep E RECEIPT_POLL_MAX w1, n + 1) = Some (r2, w2, n2)" "n2 \<le> n + 1 + k"
    using Suc.IH by blast
  then show ?case
    by (subst receipt_loop.simps) (auto simp: r counted_sleep split: sum.split)
qed

lemma await_receipt_ends:
  assumes "steady_clock E"
  shows "\<exists>r w1 n1. await_receipt err (counted E) D tx_hash (w, n) = Some (r, w1, n1) \<and> n1 \<le> n + 61"
proof -
  let ?h = "hex0x (cd_hex D) (to_be_bytes tx_hash)" and ?d = "re_now E w + RECEIPT_WAIT_TIMEOUT"
  obtain r w1 where r: "json_rpc err (counted E) ''eth_getTransactionReceipt'' (JArr [JStr ?h]) (w, n) = (r, w1, n + 1)"
    using counted_rpc [of err E _ _ w n] by (metis prod.collapse)
  have "re_now E w \<le> re_now E w1"
    using json_rpc_clock [OF counted_steady [OF assms], of "(w, n)"] by (metis r snd_conv counted_now)
  moreover have "re_now E w1 + RECEIPT_POLL_INITIAL \<le> re_now E (re_sleep E RECEIPT_POLL_INITIAL w1)"
    using assms by (simp add: steady_clock_def)
  ultimately have "?d \<le> re_now E (re_sleep E RECEIPT_POLL_INITIAL w1) + RECEIPT_POLL_MAX * 60"
    by (simp add: RECEIPT_WAIT_TIMEOUT_def RECEIPT_POLL_INITIAL_def RECEIPT_POLL_MAX_def)
  from receipt_loop_ends [OF assms this] obtain r2 w2 n2 where
    "receipt_loop err (counted E) ?h ?d RECEIPT_POLL_MAX (re_sleep E RECEIPT_POLL_INITIAL w1, n + 1) = Some (r2, w2, n2)"
    "n2 \<le> n + 1 + 60" by blast
  moreover have "min (RECEIPT_POLL_INITIAL * 2) RECEIPT_POLL_MAX = RECEIPT_POLL_MAX"
    by (simp add: RECEIPT_POLL_INITIAL_def RECEIPT_POLL_MAX_def)
  ultimately show ?thesis
    unfolding await_receipt_def
    by (subst receipt_loop.simps) (auto simp: r counted_sleep counted_now split: sum.split)
qed

section \<open>Fees\<close>

lemma write_fees:
  "unat (tx_max_fee_per_gas (write_tx A gas_limit nonce gas_price calldata val)) =
     min (2 * unat gas_price + 1000000000) (2 ^ 256 - 1)"
  "tx_max_priority_fee_per_gas (write_tx A gas_limit nonce gas_price calldata val) \<le>
     tx_max_fee_per_gas (write_tx A gas_limit nonce gas_price calldata val)"
proof -
  have p: "unat (ucast DEFAULT_PRIORITY_FEE_WEI :: u256) = 1000000000"
    by (simp add: DEFAULT_PRIORITY_FEE_WEI_def)
  have g: "unat (sat_mul gas_price 2) = min (2 * unat gas_price) (2 ^ 256 - 1)"
    by (simp add: unat_sat_mul)
  show "unat (tx_max_fee_per_gas (write_tx A gas_limit nonce gas_price calldata val)) =
      min (2 * unat gas_price + 1000000000) (2 ^ 256 - 1)"
    by (simp add: write_tx_def p unat_sat_add g)
  show "tx_max_priority_fee_per_gas (write_tx A gas_limit nonce gas_price calldata val) \<le>
      tx_max_fee_per_gas (write_tx A gas_limit nonce gas_price calldata val)"
    by (simp add: write_tx_def word_le_nat_alt p unat_sat_add g)
qed

end
