(* ===== verification/Pool_Chain.thy ===== *)
theory Pool_Chain
  imports Json_Rpc
begin

text \<open>
  The coordinator of a compute pool and its chain: \<^verbatim>\<open>pool-coordinator/src/chain.rs\<close>, the JSON-RPC
  adapter of \<^verbatim>\<open>http_chain.rs\<close> as an instance of the client of \<open>Json_Rpc\<close>.
\<close>

section \<open>Events and members\<close>

record compute_requested_event =
  ev_pool_id :: u64
  ev_job_id :: u64
  ev_requester :: address
  ev_payment_grains :: u256
  ev_prompt :: string
  ev_max_tokens :: u32
  ev_tx_hash :: b256
  ev_log_index :: u32
  ev_block_number :: u64

record pool_member_info =
  pm_address :: address
  pm_gpu_count :: u32
  pm_active :: bool

datatype record_dispatch_outcome = Confirmed b256 u64

definition EPOCH_LENGTH :: u64 where "EPOCH_LENGTH = 100"

definition epoch_of :: "u64 \<Rightarrow> u64" where "epoch_of block = block div EPOCH_LENGTH"

section \<open>The adapter\<close>

definition try_new ::
  "environment \<Rightarrow> string \<Rightarrow> u64 \<Rightarrow> address \<Rightarrow> 'x wallet \<Rightarrow> 'x http_client coordinator_result" where
  "try_new env rpc_url chain_id pool_contract w =
     (case validate_outbound_url env rpc_url of
        Inl e \<Rightarrow> Inl (Chain ''CITRATE_POOL_RPC_URL'')
      | Inr _ \<Rightarrow> Inr \<lparr>hc_rpc_url = rpc_url, hc_chain_id = chain_id, hc_contract = pool_contract,
                     hc_wallet = w\<rparr>)"

definition rpc :: "'w rpc_env \<Rightarrow> string \<Rightarrow> json \<Rightarrow> ('w, coordinator_error, json) io" where
  "rpc E method params = json_rpc Chain E method params"

definition eth_call ::
  "'w rpc_env \<Rightarrow> 'x chain_deps \<Rightarrow> 'x http_client \<Rightarrow> bytes \<Rightarrow> ('w, coordinator_error, bytes) io" where
  "eth_call E D A data = call_contract Chain E D A data"

definition verify_rpc_chain_id :: "'w rpc_env \<Rightarrow> 'x http_client \<Rightarrow> ('w, coordinator_error, unit) io" where
  "verify_rpc_chain_id E A = check_chain_id Chain E A"

definition fetch_nonce :: "'w rpc_env \<Rightarrow> 'x chain_deps \<Rightarrow> 'x http_client \<Rightarrow> ('w, coordinator_error, u64) io" where
  "fetch_nonce E D A = nonce_of Chain E D A"

definition fetch_gas_price :: "'w rpc_env \<Rightarrow> 'x chain_deps \<Rightarrow> ('w, coordinator_error, u256) io" where
  "fetch_gas_price E D = gas_price_of Chain E D"

definition latest_block :: "'w rpc_env \<Rightarrow> ('w, coordinator_error, u64) io" where
  "latest_block E = rpc_quantity Chain parse_hex_u64 E ''eth_blockNumber'' (JArr [])"

section \<open>Reads\<close>

definition fetch_job_spec ::
  "'w rpc_env \<Rightarrow> 'x chain_deps \<Rightarrow> 'x http_client \<Rightarrow> u64 \<Rightarrow> ('w, coordinator_error, string \<times> u32) io" where
  "fetch_job_spec E D A job_id =
     io_bind (eth_call E D A (selector (cd_keccak D) ''getJob(uint256)'' @ u256_word (ucast job_id)))
       (\<lambda>ret. io_of (decode_job_spec ret))"

definition coordinator_for ::
  "'w rpc_env \<Rightarrow> 'x chain_deps \<Rightarrow> 'x http_client \<Rightarrow> u64 \<Rightarrow> u64 \<Rightarrow> ('w, coordinator_error, address) io" where
  "coordinator_for E D A pool_id epoch =
     io_bind (eth_call E D A (selector (cd_keccak D) ''coordinatorFor(uint256,uint256)'' @
                              u256_word (ucast pool_id) @ u256_word (ucast epoch)))
       (\<lambda>ret. io_of (if length ret < 32 then Inl (Chain ''coordinatorFor return too short'')
                      else bind_ok (slice 12 32 ret) h160_from_slice))"

fun read_members ::
  "'w rpc_env \<Rightarrow> 'x chain_deps \<Rightarrow> 'x http_client \<Rightarrow> u64 \<Rightarrow> address list \<Rightarrow> ('w, coordinator_error, pool_member_info list) io" where
  "read_members E D A pool_id [] = io_of (Inr [])"
| "read_members E D A pool_id (addr # addrs) =
     io_bind (eth_call E D A (selector (cd_keccak D) ''getMember(uint256,address)'' @
                              u256_word (ucast pool_id) @ pad_address_left addr)) (\<lambda>ret.
     io_bind (io_of (decode_member_struct ret)) (\<lambda>(gpu_count, active).
     io_bind (read_members E D A pool_id addrs) (\<lambda>ms.
     io_of (Inr (\<lparr>pm_address = addr, pm_gpu_count = gpu_count, pm_active = active\<rparr> # ms)))))"

definition pool_members ::
  "'w rpc_env \<Rightarrow> 'x chain_deps \<Rightarrow> 'x http_client \<Rightarrow> u64 \<Rightarrow> ('w, coordinator_error, pool_member_info list) io" where
  "pool_members E D A pool_id =
     io_bind (eth_call E D A (selector (cd_keccak D) ''getPoolMembers(uint256)'' @ u256_word (ucast pool_id)))
       (\<lambda>ret. io_bind (io_of (decode_address_array ret)) (read_members E D A pool_id))"

section \<open>Writes\<close>

definition WRITE_GAS_LIMIT :: u64 where "WRITE_GAS_LIMIT = 200000"

definition wait_for_receipt :: "'w rpc_env \<Rightarrow> 'x chain_deps \<Rightarrow> b256 \<Rightarrow> ('w, coordinator_error, u64 option) pio" where
  "wait_for_receipt E D tx_hash = await_receipt Chain E D tx_hash"

definition send_write ::
  "'w rpc_env \<Rightarrow> 'x chain_deps \<Rightarrow> 'x http_client \<Rightarrow> bytes \<Rightarrow> ('w, coordinator_error, b256 \<times> u64 option) pio" where
  "send_write E D A calldata = write_contract Chain (Internal ''sign'') WRITE_GAS_LIMIT E D A calldata 0"

definition record_dispatch ::
  "'w rpc_env \<Rightarrow> 'x chain_deps \<Rightarrow> 'x http_client \<Rightarrow> u64 \<Rightarrow> address \<Rightarrow> ('w, coordinator_error, record_dispatch_outcome) pio" where
  "record_dispatch E D A job_id member_addr =
     pio_bind (send_write E D A (selector (cd_keccak D) ''recordDispatch(uint256)'' @ u256_word (ucast job_id)))
       (\<lambda>(tx_hash, block_number). pio_of (io_of (Inr (Confirmed tx_hash
          (case block_number of Some n \<Rightarrow> n | None \<Rightarrow> 0)))))"

definition complete_job :: "'w rpc_env \<Rightarrow> 'x chain_deps \<Rightarrow> 'x http_client \<Rightarrow> u64 \<Rightarrow> ('w, coordinator_error, b256) pio" where
  "complete_job E D A job_id =
     pio_bind (send_write E D A (selector (cd_keccak D) ''completeJob(uint256)'' @ u256_word (ucast job_id)))
       (\<lambda>(tx_hash, _). pio_of (io_of (Inr tx_hash)))"

definition fail_job :: "'w rpc_env \<Rightarrow> 'x chain_deps \<Rightarrow> 'x http_client \<Rightarrow> u64 \<Rightarrow> ('w, coordinator_error, b256) pio" where
  "fail_job E D A job_id =
     pio_bind (send_write E D A (selector (cd_keccak D) ''failJob(uint256)'' @ u256_word (ucast job_id)))
       (\<lambda>(tx_hash, _). pio_of (io_of (Inr tx_hash)))"

end
