(* ===== verification/Pool_Logs.thy ===== *)
theory Pool_Logs
  imports Pool_Chain
begin

text \<open>
  \<^verbatim>\<open>ComputeRequested\<close> logs: the decoder inside \<^verbatim>\<open>poll_compute_requested\<close> of
  \<^verbatim>\<open>pool-coordinator/src/http_chain.rs\<close> with the poll around it, and the decoder of
  \<^verbatim>\<open>ws_chain.rs\<close>, each as its file has it.
\<close>

definition COMPUTE_REQUESTED :: string where
  "COMPUTE_REQUESTED = ''ComputeRequested(uint256,uint256,address,uint256)''"

definition eq_ignore_ascii_case :: "string \<Rightarrow> string \<Rightarrow> bool" where
  "eq_ignore_ascii_case s t \<longleftrightarrow> map ascii_lower s = map ascii_lower t"

definition get_str :: "string \<Rightarrow> json \<Rightarrow> string option" where
  "get_str k v = Option.bind (json_get k v) json_as_str"

text \<open>The emitting contract, read from the log, must be the pool's.\<close>

definition check_emitter :: "codec \<Rightarrow> address \<Rightarrow> json \<Rightarrow> unit coordinator_result" where
  "check_emitter H contract entry =
     bind_ok (ok_or (Chain ''log missing address'') (get_str ''address'' entry)) (\<lambda>s.
     bind_ok (ok_or (Chain ''log address hex'') (hx_decode H (trim_0x s))) (\<lambda>bs.
     if length bs \<noteq> 20 \<or> from_be_bytes bs \<noteq> contract then Inl (Chain ''log of another contract'') else Inr ()))"

definition log_payment :: "codec \<Rightarrow> json \<Rightarrow> u256 coordinator_result" where
  "log_payment H entry =
     bind_ok (ok_or (Chain ''log missing data'') (get_str ''data'' entry)) (\<lambda>s.
     bind_ok (ok_or (Chain ''log data hex'') (hx_decode H (trim_0x s))) (\<lambda>bs.
     if length bs < 32 then Inl (Chain ''log data too short'')
     else bind_ok (slice 0 32 bs) u256_from_big_endian))"

definition log_tx_hash :: "codec \<Rightarrow> json \<Rightarrow> b256 coordinator_result" where
  "log_tx_hash H entry =
     ok_or (Chain ''log missing/malformed transactionHash'')
       (Option.bind (get_str ''transactionHash'' entry) (\<lambda>s.
        Option.bind (hx_decode H (trim_0x s)) (\<lambda>bs.
        if length bs = 32 then Some (from_be_bytes bs) else None)))"

definition log_topics :: "json \<Rightarrow> json list coordinator_result" where
  "log_topics entry =
     bind_ok (ok_or (Chain ''log missing topics'') (Option.bind (json_get ''topics'' entry) json_as_array)) (\<lambda>topics.
     if length topics < 4 then Inl (Chain ''log has too few topics'') else Inr topics)"

definition check_topic0 :: "codec \<Rightarrow> (bytes \<Rightarrow> b256) \<Rightarrow> json \<Rightarrow> unit coordinator_result" where
  "check_topic0 H K t =
     bind_ok (ok_or (Chain ''topic0 not a string'') (json_as_str t)) (\<lambda>topic0.
     if \<not> eq_ignore_ascii_case topic0 (hex0x H (selector_full K COMPUTE_REQUESTED))
     then Inl (Chain ''log topic0 is not ComputeRequested'') else Inr ())"

definition log_quantity :: "(string \<Rightarrow> u64 option) \<Rightarrow> string \<Rightarrow> json \<Rightarrow> u64 coordinator_result" where
  "log_quantity parse k entry =
     ok_or (Chain (''log missing/malformed '' @ k)) (Option.bind (get_str k entry) parse)"

section \<open>Polling\<close>

text \<open>One entry of \<^verbatim>\<open>eth_getLogs\<close>, before its job specification is fetched.\<close>

definition decode_log_entry ::
  "codec \<Rightarrow> (bytes \<Rightarrow> b256) \<Rightarrow> address \<Rightarrow> json \<Rightarrow> compute_requested_event coordinator_result" where
  "decode_log_entry H K contract entry =
     bind_ok (log_topics entry) (\<lambda>topics.
     bind_ok (check_topic0 H K (topics ! 0)) (\<lambda>_.
     bind_ok (check_emitter H contract entry) (\<lambda>_.
     bind_ok (topic_as_u64 H (json_as_str (topics ! 1))) (\<lambda>pool_id.
     bind_ok (topic_as_u64 H (json_as_str (topics ! 2))) (\<lambda>job_id.
     bind_ok (topic_as_address H (json_as_str (topics ! 3))) (\<lambda>requester.
     bind_ok (log_payment H entry) (\<lambda>payment.
     bind_ok (log_tx_hash H entry) (\<lambda>tx_hash.
     bind_ok (log_quantity parse_hex_u64 ''logIndex'' entry) (\<lambda>log_index.
     bind_ok (log_quantity parse_hex_u64 ''blockNumber'' entry) (\<lambda>block_number.
     Inr \<lparr>ev_pool_id = pool_id, ev_job_id = job_id, ev_requester = requester,
          ev_payment_grains = payment, ev_prompt = [], ev_max_tokens = DEFAULT_MAX_TOKENS,
          ev_tx_hash = tx_hash, ev_log_index = ucast log_index, ev_block_number = block_number\<rparr>))))))))))"

text \<open>An unreadable job specification is replaced by an empty prompt and the default limit.\<close>

definition with_job_spec ::
  "compute_requested_event \<Rightarrow> (string \<times> u32) coordinator_result \<Rightarrow> compute_requested_event" where
  "with_job_spec ev spec =
     (case spec of
        Inr (prompt, max_tokens) \<Rightarrow> ev\<lparr>ev_prompt := prompt, ev_max_tokens := max_tokens\<rparr>
      | Inl _ \<Rightarrow> ev\<lparr>ev_prompt := [], ev_max_tokens := DEFAULT_MAX_TOKENS\<rparr>)"

fun poll_entries ::
  "'w rpc_env \<Rightarrow> 'x chain_deps \<Rightarrow> 'x http_client \<Rightarrow> json list \<Rightarrow> ('w, coordinator_error, compute_requested_event list) io" where
  "poll_entries E D A [] = io_of (Inr [])"
| "poll_entries E D A (entry # rest) =
     io_bind (io_of (decode_log_entry (cd_hex D) (cd_keccak D) (hc_contract A) entry)) (\<lambda>ev w.
       let (spec, w1) = fetch_job_spec E D A (ev_job_id ev) w in
       io_bind (poll_entries E D A rest) (\<lambda>evs. io_of (Inr (with_job_spec ev spec # evs))) w1)"

definition show_quantity :: "u64 \<Rightarrow> string" where
  "show_quantity n = ''0x'' @ show_hex (unat n)"

definition logs_filter :: "'x chain_deps \<Rightarrow> 'x http_client \<Rightarrow> u64 \<Rightarrow> u64 \<Rightarrow> json" where
  "logs_filter D A from_block to_block =
     JArr [JObj [(''fromBlock'', JStr (show_quantity from_block)), (''toBlock'', JStr (show_quantity to_block)),
       (''address'', JStr (hex0x_address D (hc_contract A))),
       (''topics'', JArr [JStr (hex0x (cd_hex D) (selector_full (cd_keccak D) COMPUTE_REQUESTED))])]]"

definition poll_compute_requested ::
  "'w rpc_env \<Rightarrow> 'x chain_deps \<Rightarrow> 'x http_client \<Rightarrow> u64 \<Rightarrow> u64 \<Rightarrow> ('w, coordinator_error, compute_requested_event list) io" where
  "poll_compute_requested E D A from_block to_block =
     io_bind (rpc E ''eth_getLogs'' (logs_filter D A from_block to_block)) (\<lambda>result.
     io_bind (io_of (ok_or (Chain ''eth_getLogs not array'') (json_as_array result))) (poll_entries E D A))"

section \<open>The subscription\<close>

definition ws_topic_u64 :: "codec \<Rightarrow> string option \<Rightarrow> u64 coordinator_result" where
  "ws_topic_u64 H topic =
     bind_ok (ok_or (Chain ''topic missing'') topic) (\<lambda>s.
       let stripped = trim_0x s in
       if length stripped \<noteq> 64 then Inl (Chain ''topic wrong length'')
       else bind_ok (ok_or (Chain ''topic hex'') (hx_decode H stripped)) (\<lambda>bs.
              bind_ok (u256_from_big_endian bs) (\<lambda>word.
              if word > ucast (- 1 :: u64) then Inl (Chain ''topic value exceeds u64::MAX'')
              else Inr (ucast word))))"

definition ws_topic_address :: "codec \<Rightarrow> string option \<Rightarrow> address coordinator_result" where
  "ws_topic_address H topic =
     bind_ok (ok_or (Chain ''topic missing'') topic) (\<lambda>s.
       let stripped = trim_0x s in
       if length stripped \<noteq> 64 then Inl (Chain ''address topic wrong length'')
       else bind_ok (ok_or (Chain ''addr topic hex'') (hx_decode H stripped)) (\<lambda>bs.
              bind_ok (slice 12 32 bs) h160_from_slice))"

definition ws_quantity :: "string \<Rightarrow> u64 option" where
  "ws_quantity s = map_option of_nat (parse_radix 16 (2 ^ 64) (trim_0x s))"

definition ws_decode_compute_requested ::
  "codec \<Rightarrow> (bytes \<Rightarrow> b256) \<Rightarrow> json \<Rightarrow> address \<Rightarrow> compute_requested_event coordinator_result" where
  "ws_decode_compute_requested H K entry expected_contract =
     bind_ok (log_topics entry) (\<lambda>topics.
     bind_ok (check_topic0 H K (topics ! 0)) (\<lambda>_.
     bind_ok (check_emitter H expected_contract entry) (\<lambda>_.
     bind_ok (ws_topic_u64 H (json_as_str (topics ! 1))) (\<lambda>pool_id.
     bind_ok (ws_topic_u64 H (json_as_str (topics ! 2))) (\<lambda>job_id.
     bind_ok (ws_topic_address H (json_as_str (topics ! 3))) (\<lambda>requester.
     bind_ok (log_payment H entry) (\<lambda>payment.
     bind_ok (log_tx_hash H entry) (\<lambda>tx_hash.
     bind_ok (log_quantity ws_quantity ''logIndex'' entry) (\<lambda>log_index.
     bind_ok (log_quantity ws_quantity ''blockNumber'' entry) (\<lambda>block_number.
     Inr \<lparr>ev_pool_id = pool_id, ev_job_id = job_id, ev_requester = requester,
          ev_payment_grains = payment, ev_prompt = [], ev_max_tokens = 1000,
          ev_tx_hash = tx_hash, ev_log_index = ucast log_index, ev_block_number = block_number\<rparr>))))))))))"

text \<open>One frame of the socket: what the decoder task sends to the stream, if anything.\<close>

datatype ws_frame = WsText string | WsBinary bytes | WsPing | WsPong | WsClose | WsRaw | WsError

datatype ws_step = Skip | Emit "compute_requested_event coordinator_result" | Stop
  | EmitStop "compute_requested_event coordinator_result"

definition ws_text :: "(string \<Rightarrow> string + json) \<Rightarrow> codec \<Rightarrow> (bytes \<Rightarrow> b256) \<Rightarrow> address \<Rightarrow> string \<Rightarrow> ws_step" where
  "ws_text parse_json H K contract s =
     (case parse_json s of
        Inl _ \<Rightarrow> Skip
      | Inr v \<Rightarrow>
          (case Option.bind (json_get ''params'' v) (json_get ''result'') of
             None \<Rightarrow> Skip
           | Some entry \<Rightarrow> Emit (ws_decode_compute_requested H K entry contract)))"

definition ws_on_frame ::
  "(string \<Rightarrow> string + json) \<Rightarrow> codec \<Rightarrow> (bytes \<Rightarrow> b256) \<Rightarrow> address \<Rightarrow> ws_frame \<Rightarrow> ws_step" where
  "ws_on_frame parse_json H K contract frame =
     (case frame of
        WsText s \<Rightarrow> ws_text parse_json H K contract s
      | WsBinary b \<Rightarrow> if valid_utf8 b then ws_text parse_json H K contract (map byte_char b) else Skip
      | WsPing \<Rightarrow> Skip
      | WsPong \<Rightarrow> Skip
      | WsClose \<Rightarrow> Stop
      | WsRaw \<Rightarrow> Stop
      | WsError \<Rightarrow> EmitStop (Inl (Chain ''ws recv'')))"

text \<open>What the decoder task sends over the frames of a connection, as long as the stream is read.\<close>

fun ws_events ::
  "(string \<Rightarrow> string + json) \<Rightarrow> codec \<Rightarrow> (bytes \<Rightarrow> b256) \<Rightarrow> address \<Rightarrow> ws_frame list \<Rightarrow>
   compute_requested_event coordinator_result list" where
  "ws_events parse_json H K contract [] = []"
| "ws_events parse_json H K contract (frame # frames) =
     (case ws_on_frame parse_json H K contract frame of
        Skip \<Rightarrow> ws_events parse_json H K contract frames
      | Emit ev \<Rightarrow> ev # ws_events parse_json H K contract frames
      | Stop \<Rightarrow> []
      | EmitStop ev \<Rightarrow> [ev])"

text \<open>The wait for the subscription's id: any frame that is not text and any reply with neither a result
  nor an error is passed over.\<close>

fun ws_await_ack :: "(string \<Rightarrow> string + json) \<Rightarrow> ws_frame list \<Rightarrow> (string \<times> ws_frame list) coordinator_result" where
  "ws_await_ack parse_json [] = Inl (Chain ''ws closed before subscribe ack'')"
| "ws_await_ack parse_json (frame # frames) =
     (case frame of
        WsError \<Rightarrow> Inl (Chain ''ws recv'')
      | WsText s \<Rightarrow>
          (case parse_json s of
             Inl _ \<Rightarrow> Inl (Chain ''ws subscribe ack parse'')
           | Inr v \<Rightarrow>
               (case Option.bind (json_get ''result'' v) json_as_str of
                  Some sub_id \<Rightarrow> Inr (sub_id, frames)
                | None \<Rightarrow>
                    if json_get ''error'' v \<noteq> None then Inl (Chain ''eth_subscribe rejected'')
                    else ws_await_ack parse_json frames))
      | _ \<Rightarrow> ws_await_ack parse_json frames)"

text \<open>\<open>dial url request\<close> opens the socket, sends the request and gives the frames that arrive until it
  closes; nothing is dialled unless the URL passes the gate.\<close>

definition ws_subscribe_request :: "codec \<Rightarrow> (bytes \<Rightarrow> b256) \<Rightarrow> address \<Rightarrow> json" where
  "ws_subscribe_request H K contract =
     JObj [(''jsonrpc'', JStr ''2.0''), (''id'', JInt 1), (''method'', JStr ''eth_subscribe''),
       (''params'', JArr [JStr ''logs'', JObj [(''address'', JStr (hex0x H (to_be_bytes contract))),
          (''topics'', JArr [JStr (hex0x H (selector_full K COMPUTE_REQUESTED))])]])]"

definition ws_connect ::
  "environment \<Rightarrow> (string \<Rightarrow> json \<Rightarrow> ws_frame list coordinator_result) \<Rightarrow> (string \<Rightarrow> string + json) \<Rightarrow> codec \<Rightarrow>
   (bytes \<Rightarrow> b256) \<Rightarrow> string \<Rightarrow> address \<Rightarrow> compute_requested_event coordinator_result list coordinator_result" where
  "ws_connect env dial parse_json H K url contract =
     (case validate_outbound_ws_url env url of
        Inl _ \<Rightarrow> Inl (Chain ''CITRATE_POOL_WS_URL'')
      | Inr _ \<Rightarrow>
          bind_ok (dial url (ws_subscribe_request H K contract)) (\<lambda>frames.
          bind_ok (ws_await_ack parse_json frames) (\<lambda>(_, rest).
          Inr (ws_events parse_json H K contract rest))))"

section \<open>The two decoders agree\<close>

lemma ws_topics_agree:
  "ws_topic_u64 H t = Inr n \<longleftrightarrow> topic_as_u64 H t = Inr n"
  "ws_topic_address H t = Inr a \<longleftrightarrow> topic_as_address H t = Inr a"
  by (auto simp: ws_topic_u64_def topic_as_u64_def ws_topic_address_def topic_as_address_def
      address_of_word_def u256_to_u64_def Let_def sum_simps split: if_splits)

lemma quantity_agree:
  "parse_hex_u64 s = Some n \<longleftrightarrow> ws_quantity s = Some n \<or> trim_0x s = [] \<and> n = 0"
  by (auto simp: parse_hex_u64_def ws_quantity_def Let_def parse_radix_def)

lemma log_quantity_Inr: "log_quantity parse k e = Inr n \<longleftrightarrow> (\<exists>s. get_str k e = Some s \<and> parse s = Some n)"
  by (auto simp: log_quantity_def bind_eq_Some_conv)

text \<open>The quantities the poller reads and the subscription refuses: nothing after the prefix.\<close>

definition empty_quantity :: "json \<Rightarrow> bool" where
  "empty_quantity entry \<longleftrightarrow>
     list_ex (\<lambda>k. case get_str k entry of Some s \<Rightarrow> trim_0x s = [] | None \<Rightarrow> False) [''logIndex'', ''blockNumber'']"

lemma decode_log_entry_Inr:
  "decode_log_entry H K contract e = Inr ev \<longleftrightarrow>
    (\<exists>topics. log_topics e = Inr topics \<and> check_topic0 H K (topics ! 0) = Inr () \<and>
      check_emitter H contract e = Inr () \<and>
      topic_as_u64 H (json_as_str (topics ! 1)) = Inr (ev_pool_id ev) \<and>
      topic_as_u64 H (json_as_str (topics ! 2)) = Inr (ev_job_id ev) \<and>
      topic_as_address H (json_as_str (topics ! 3)) = Inr (ev_requester ev) \<and>
      log_payment H e = Inr (ev_payment_grains ev) \<and> log_tx_hash H e = Inr (ev_tx_hash ev) \<and>
      (\<exists>n. log_quantity parse_hex_u64 ''logIndex'' e = Inr n \<and> ev_log_index ev = ucast n) \<and>
      log_quantity parse_hex_u64 ''blockNumber'' e = Inr (ev_block_number ev) \<and>
      ev_prompt ev = [] \<and> ev_max_tokens ev = 1000)"
  unfolding decode_log_entry_def bind_ok_Inr
  by (cases ev) (auto simp: DEFAULT_MAX_TOKENS_def)

lemma ws_decode_Inr:
  "ws_decode_compute_requested H K e contract = Inr ev \<longleftrightarrow>
    (\<exists>topics. log_topics e = Inr topics \<and> check_topic0 H K (topics ! 0) = Inr () \<and>
      check_emitter H contract e = Inr () \<and>
      topic_as_u64 H (json_as_str (topics ! 1)) = Inr (ev_pool_id ev) \<and>
      topic_as_u64 H (json_as_str (topics ! 2)) = Inr (ev_job_id ev) \<and>
      topic_as_address H (json_as_str (topics ! 3)) = Inr (ev_requester ev) \<and>
      log_payment H e = Inr (ev_payment_grains ev) \<and> log_tx_hash H e = Inr (ev_tx_hash ev) \<and>
      (\<exists>n. log_quantity ws_quantity ''logIndex'' e = Inr n \<and> ev_log_index ev = ucast n) \<and>
      log_quantity ws_quantity ''blockNumber'' e = Inr (ev_block_number ev) \<and>
      ev_prompt ev = [] \<and> ev_max_tokens ev = 1000)"
  unfolding ws_decode_compute_requested_def bind_ok_Inr ws_topics_agree
  by (cases ev) auto

text \<open>The poller and the subscription decode the same logs to the same events, except that the
  poller takes an empty \<^verbatim>\<open>logIndex\<close> or \<^verbatim>\<open>blockNumber\<close> for zero where the subscription refuses the log.\<close>

theorem decoders_agree:
  "(ws_decode_compute_requested H K entry contract = Inr ev) =
   (decode_log_entry H K contract entry = Inr ev \<and> \<not> empty_quantity entry)"
proof -
  have empty: "trim_0x s = [] \<Longrightarrow> ws_quantity s = None" for s
    by (simp add: ws_quantity_def parse_radix_def)
  have q: "log_quantity ws_quantity k e = Inr n \<longleftrightarrow>
      log_quantity parse_hex_u64 k e = Inr n \<and> (\<forall>s. get_str k e = Some s \<longrightarrow> trim_0x s \<noteq> [])" for k e n
    using empty by (auto simp: log_quantity_Inr quantity_agree)
  have "empty_quantity entry \<longleftrightarrow>
      \<not> ((\<forall>s. get_str ''logIndex'' entry = Some s \<longrightarrow> trim_0x s \<noteq> []) \<and>
         (\<forall>s. get_str ''blockNumber'' entry = Some s \<longrightarrow> trim_0x s \<noteq> []))"
    by (auto simp: empty_quantity_def split: option.splits)
  then show ?thesis
    unfolding ws_decode_Inr decode_log_entry_Inr q by auto
qed

end
