(* ===== verification/Pool_Dispatch.thy ===== *)
theory Pool_Dispatch
  imports Pool_Logs
begin

text \<open>
  The pool coordinator's own decisions: \<^verbatim>\<open>config.rs\<close>, \<^verbatim>\<open>dispatcher.rs\<close>, \<^verbatim>\<open>provider.rs\<close>, \<^verbatim>\<open>handle_event\<close> of
  \<^verbatim>\<open>lib.rs\<close> and the polling loop of \<^verbatim>\<open>main.rs\<close>.

  \<open>chain_adapter\<close> is the trait \<^verbatim>\<open>ChainAdapter\<close>; \<open>http_adapter\<close> is its implementation in \<open>Pool_Chain\<close>.
  What the coordinator calls of \<^verbatim>\<open>reqwest\<close> and \<^verbatim>\<open>serde_json\<close> on the way to a member is the record
  \<open>provider_env\<close>.  Log lines and counters are left out.
\<close>

section \<open>Configuration\<close>

record coordinator_config =
  cc_chain_id :: u64
  cc_rpc_url :: string
  cc_wallet_address :: address
  cc_member_endpoints :: "address \<rightharpoonup> string"
  cc_provider_timeout_secs :: u64
  cc_min_payment_grains :: u256
  cc_max_prompt_bytes :: u64
  cc_max_tokens_cap :: u32

text \<open>The text of an error is its fixed part; \<open>ConfigPanic\<close> stands for an unwinding thread.\<close>

datatype config_error = ConfigError string | ConfigPanic

text \<open>\<^verbatim>\<open>a.copy_from_slice(&bytes)\<close> into an array of 20 bytes.\<close>

definition address_of_bytes :: "bytes \<Rightarrow> config_error + address" where
  "address_of_bytes bs = (if length bs = 20 then Inr (from_be_bytes bs) else Inl ConfigPanic)"

definition parse_addr :: "codec \<Rightarrow> string \<Rightarrow> config_error + address" where
  "parse_addr H s =
     (let stripped = (case strip_prefix ''0x'' (trim s) of Some r \<Rightarrow> r | None \<Rightarrow> trim s) in
      if length stripped \<noteq> 40 then Inl (ConfigError ''expected 40 hex chars'')
      else bind_ok (ok_or (ConfigError ''hex'') (hx_decode H stripped)) address_of_bytes)"

text \<open>The body of the loop of \<^verbatim>\<open>parse_endpoints\<close>.\<close>

definition parse_entry ::
  "codec \<Rightarrow> environment \<Rightarrow> string \<Rightarrow> (address \<rightharpoonup> string) \<Rightarrow> config_error + (address \<rightharpoonup> string)" where
  "parse_entry H env e endpoints =
     (let entry = trim e in
      if entry = [] then Inr endpoints
      else
        bind_ok (ok_or (ConfigError ''bad entry (need addr=url)'') (split_once ''='' entry)) (\<lambda>(addr, u).
        bind_ok (parse_addr H addr) (\<lambda>parsed.
        let url = trim u in
        (case validate_outbound_url env url of
           Inl _ \<Rightarrow> Inl (ConfigError ''member endpoint'')
         | Inr _ \<Rightarrow> Inr (endpoints(parsed \<mapsto> url))))))"

fun parse_entries ::
  "codec \<Rightarrow> environment \<Rightarrow> string list \<Rightarrow> (address \<rightharpoonup> string) \<Rightarrow> config_error + (address \<rightharpoonup> string)" where
  "parse_entries H env [] endpoints = Inr endpoints"
| "parse_entries H env (e # es) endpoints = bind_ok (parse_entry H env e endpoints) (parse_entries H env es)"

definition parse_endpoints :: "codec \<Rightarrow> environment \<Rightarrow> string \<Rightarrow> config_error + (address \<rightharpoonup> string)" where
  "parse_endpoints H env s = parse_entries H env (split_on (CHR '','') s) Map.empty"

text \<open>A number of the environment: anything unset or unreadable gives the default.\<close>

definition env_or :: "environment \<Rightarrow> string \<Rightarrow> (string \<Rightarrow> 'a option) \<Rightarrow> 'a \<Rightarrow> 'a" where
  "env_or env name parse dflt = (case Option.bind (env name) parse of Some v \<Rightarrow> v | None \<Rightarrow> dflt)"

definition read_u64 :: "string \<Rightarrow> u64 option" where
  "read_u64 s = map_option of_nat (parse_uint (2 ^ 64) s)"

definition read_u32 :: "string \<Rightarrow> u32 option" where
  "read_u32 s = map_option of_nat (parse_uint (2 ^ 32) s)"

definition config_from_env ::
  "codec \<Rightarrow> (string \<Rightarrow> u256 option) \<Rightarrow> environment \<Rightarrow> config_error + coordinator_config" where
  "config_from_env H u256_from_dec env =
     (let chain_id = env_or env ''CITRATE_POOL_CHAIN_ID'' read_u64 40204;
          rpc_url = (case env ''CITRATE_POOL_RPC_URL'' of Some u \<Rightarrow> u | None \<Rightarrow> ''http://127.0.0.1:8545'')
      in case validate_outbound_url env rpc_url of
           Inl _ \<Rightarrow> Inl (ConfigError ''CITRATE_POOL_RPC_URL'')
         | Inr _ \<Rightarrow>
             bind_ok (ok_or (ConfigError ''CITRATE_POOL_WALLET_ADDRESS unset'') (env ''CITRATE_POOL_WALLET_ADDRESS'')) (\<lambda>wallet_hex.
             bind_ok (parse_addr H wallet_hex) (\<lambda>wallet_addr.
             bind_ok (parse_endpoints H env
               (case env ''CITRATE_POOL_MEMBER_ENDPOINTS'' of Some s \<Rightarrow> s | None \<Rightarrow> [])) (\<lambda>endpoints.
             Inr \<lparr>cc_chain_id = chain_id, cc_rpc_url = rpc_url, cc_wallet_address = wallet_addr,
                  cc_member_endpoints = endpoints,
                  cc_provider_timeout_secs = env_or env ''CITRATE_POOL_PROVIDER_TIMEOUT_SECS'' read_u64 30,
                  cc_min_payment_grains =
                    env_or env ''CITRATE_POOL_MIN_PAYMENT_GRAINS'' (\<lambda>s. u256_from_dec (trim s)) 1,
                  cc_max_prompt_bytes = env_or env ''CITRATE_POOL_MAX_PROMPT_BYTES'' (\<lambda>s. read_u64 (trim s)) (128 * 1024),
                  cc_max_tokens_cap = env_or env ''CITRATE_POOL_MAX_TOKENS'' (\<lambda>s. read_u32 (trim s)) 8192\<rparr>))))"

definition env_address :: "codec \<Rightarrow> environment \<Rightarrow> string \<Rightarrow> config_error + address" where
  "env_address H env key =
     bind_ok (ok_or (ConfigError ''unset'') (env key)) (\<lambda>raw.
       let trimmed = trim_0x (trim raw) in
       if length trimmed \<noteq> 40 then Inl (ConfigError ''wants 40 hex chars'')
       else bind_ok (ok_or (ConfigError ''bad hex'') (hx_decode H trimmed)) address_of_bytes)"

section \<open>Selection\<close>

definition select_member :: "(bytes \<Rightarrow> b256) \<Rightarrow> u64 \<Rightarrow> address list \<Rightarrow> address option" where
  "select_member K job_id members =
     (if members = [] then None
      else
        let h = to_be_bytes (K (to_be_bytes job_id));
            n = (from_be_bytes (take 8 (drop 24 h)) :: u64)
        in Some (members ! unat (n mod of_nat (length members))))"

section \<open>The member's endpoint\<close>

record pool_infer_request =
  pq_model :: string
  pq_prompt :: string
  pq_max_tokens :: u32
  pq_job_id :: u64

record pool_infer_response =
  pr_output :: string
  pr_input_tokens :: "u32 option"
  pr_output_tokens :: "u32 option"

text \<open>A POST gives a transport error or the status with what reading the body as a
  \<^verbatim>\<open>PoolInferResponse\<close> would give.\<close>

record 'w provider_env =
  pe_build_client :: "'w \<Rightarrow> (string + unit) \<times> 'w"
  pe_post :: "string \<Rightarrow> pool_infer_request \<Rightarrow> u64 \<Rightarrow> 'w \<Rightarrow> (string + u16 \<times> (string + pool_infer_response)) \<times> 'w"

definition validate_pool_infer_response :: "pool_infer_response \<Rightarrow> unit coordinator_result" where
  "validate_pool_infer_response resp =
     (if only_white_space (str_bytes (pr_output resp)) then Inl (ProviderFailed ''provider returned empty output'')
      else Inr ())"

definition is_success :: "u16 \<Rightarrow> bool" where
  "is_success status \<longleftrightarrow> 200 \<le> status \<and> status < 300"

definition dispatch_to_member ::
  "'w provider_env \<Rightarrow> string \<Rightarrow> pool_infer_request \<Rightarrow> u64 \<Rightarrow> ('w, coordinator_error, pool_infer_response) io" where
  "dispatch_to_member P endpoint body timeout w =
     (case pe_post P endpoint body timeout w of
        (Inl e, w1) \<Rightarrow> (Inl (ProviderFailed ''transport''), w1)
      | (Inr (status, decoded), w1) \<Rightarrow>
          if \<not> is_success status then (Inl (ProviderFailed ''HTTP status''), w1)
          else
            (case decoded of
               Inl e \<Rightarrow> (Inl (ProviderFailed ''decode''), w1)
             | Inr resp \<Rightarrow> (bind_ok (validate_pool_infer_response resp) (\<lambda>_. Inr resp), w1)))"

section \<open>One event\<close>

record 'w chain_adapter =
  ca_self_address :: address
  ca_coordinator_for :: "u64 \<Rightarrow> u64 \<Rightarrow> ('w, coordinator_error, address) pio"
  ca_pool_members :: "u64 \<Rightarrow> ('w, coordinator_error, pool_member_info list) pio"
  ca_record_dispatch :: "u64 \<Rightarrow> address \<Rightarrow> ('w, coordinator_error, record_dispatch_outcome) pio"
  ca_complete_job :: "u64 \<Rightarrow> ('w, coordinator_error, b256) pio"
  ca_fail_job :: "u64 \<Rightarrow> ('w, coordinator_error, b256) pio"

definition http_adapter :: "'w rpc_env \<Rightarrow> 'x chain_deps \<Rightarrow> 'x http_client \<Rightarrow> 'w chain_adapter" where
  "http_adapter E D A =
     \<lparr>ca_self_address = w_address (hc_wallet A),
      ca_coordinator_for = (\<lambda>pool epoch. pio_of (coordinator_for E D A pool epoch)),
      ca_pool_members = (\<lambda>pool. pio_of (pool_members E D A pool)),
      ca_record_dispatch = record_dispatch E D A,
      ca_complete_job = complete_job E D A,
      ca_fail_job = fail_job E D A\<rparr>"

definition DEFAULT_MODEL :: string where "DEFAULT_MODEL = ''llama-3.1-8b''"

text \<open>The admission gate.\<close>

definition check_event :: "coordinator_config \<Rightarrow> compute_requested_event \<Rightarrow> unit coordinator_result" where
  "check_event cfg ev =
     (if cc_min_payment_grains cfg \<noteq> 0 \<and> ev_payment_grains ev < cc_min_payment_grains cfg
      then Inl (RejectedEvent ''payment_grains below floor'')
      else if length (ev_prompt ev) > unat (cc_max_prompt_bytes cfg)
      then Inl (RejectedEvent ''prompt exceeds cap'')
      else if ev_max_tokens ev > cc_max_tokens_cap cfg
      then Inl (RejectedEvent ''max_tokens exceeds cap'')
      else Inr ())"

definition serviceable :: "pool_member_info list \<Rightarrow> address list" where
  "serviceable members = map pm_address (filter (\<lambda>m. pm_active m \<and> pm_gpu_count m > 0) members)"

definition infer_request :: "compute_requested_event \<Rightarrow> pool_infer_request" where
  "infer_request ev =
     \<lparr>pq_model = DEFAULT_MODEL, pq_prompt = ev_prompt ev, pq_max_tokens = ev_max_tokens ev,
      pq_job_id = ev_job_id ev\<rparr>"

text \<open>Everything after the dispatch is on the chain: the call of the member and its settlement.\<close>

definition dispatch_and_settle ::
  "'w provider_env \<Rightarrow> 'w chain_adapter \<Rightarrow> coordinator_config \<Rightarrow> compute_requested_event \<Rightarrow> string \<Rightarrow> ('w, coordinator_error, unit) pio" where
  "dispatch_and_settle P C cfg ev endpoint w =
     (case pe_build_client P w of
        (Inl e, w1) \<Rightarrow> Some (Inl (Internal ''could not build redirect-safe HTTP client''), w1)
      | (Inr _, w1) \<Rightarrow>
          (case dispatch_to_member P endpoint (infer_request ev) (cc_provider_timeout_secs cfg) w1 of
             (Inr resp, w2) \<Rightarrow>
               pio_bind (ca_complete_job C (ev_job_id ev)) (\<lambda>_. pio_of (io_of (Inr ()))) w2
           | (Inl provider_err, w2) \<Rightarrow>
               (case ca_fail_job C (ev_job_id ev) w2 of
                  None \<Rightarrow> None
                | Some (_, w3) \<Rightarrow> Some (Inl provider_err, w3))))"

definition handle_event ::
  "(bytes \<Rightarrow> b256) \<Rightarrow> 'w provider_env \<Rightarrow> 'w chain_adapter \<Rightarrow> coordinator_config \<Rightarrow> compute_requested_event \<Rightarrow>
   ('w, coordinator_error, unit) pio" where
  "handle_event K P C cfg ev =
     pio_bind (pio_of (io_of (check_event cfg ev))) (\<lambda>_.
     let epoch = epoch_of (ev_block_number ev) in
     pio_bind (ca_coordinator_for C (ev_pool_id ev) epoch) (\<lambda>elected.
     if elected \<noteq> ca_self_address C then pio_of (io_of (Inl NotCoordinator))
     else
       pio_bind (ca_pool_members C (ev_pool_id ev)) (\<lambda>members.
       if members = [] then pio_of (io_of (Inl (NoMembers (ev_pool_id ev))))
       else
         let active = serviceable members in
         pio_bind (pio_of (io_of (ok_or (NoMembers (ev_pool_id ev)) (select_member K (ev_job_id ev) active)))) (\<lambda>chosen.
         pio_bind (pio_of (io_of (ok_or (UnknownMemberEndpoint chosen) (cc_member_endpoints cfg chosen)))) (\<lambda>endpoint.
         pio_bind (ca_record_dispatch C (ev_job_id ev) chosen) (\<lambda>_.
         dispatch_and_settle P C cfg ev endpoint))))))"

section \<open>The polling loop\<close>

definition SEEN_EVENTS_CAP :: nat where "SEEN_EVENTS_CAP = 10000"

type_synonym event_key = "b256 \<times> u32"

record seen_events =
  se_set :: "event_key set"
  se_order :: "event_key list"
  se_cap :: nat

definition seen_with_cap :: "nat \<Rightarrow> seen_events" where
  "seen_with_cap cap = \<lparr>se_set = {}, se_order = [], se_cap = cap\<rparr>"

text \<open>The eviction loop ends when the set is below its capacity or the queue is empty.\<close>

fun evict :: "nat \<Rightarrow> event_key list \<Rightarrow> event_key set \<Rightarrow> event_key list \<times> event_key set" where
  "evict cap [] S = ([], S)"
| "evict cap (oldest # order) S =
     (if card S \<ge> cap then evict cap order (S - {oldest}) else (oldest # order, S))"

definition seen_insert :: "event_key \<Rightarrow> seen_events \<Rightarrow> bool \<times> seen_events" where
  "seen_insert key s =
     (if key \<in> se_set s then (False, s)
      else
        let (order, S) = evict (se_cap s) (se_order s) (se_set s)
        in (key \<notin> S, s\<lparr>se_order := order @ [key], se_set := insert key S\<rparr>))"

definition event_key :: "compute_requested_event \<Rightarrow> event_key" where
  "event_key ev = (ev_tx_hash ev, ev_log_index ev)"

text \<open>The events for which the loop of a tick spawns \<^verbatim>\<open>handle_event\<close>, in its order.\<close>

fun spawn_fresh ::
  "compute_requested_event list \<Rightarrow> seen_events \<Rightarrow> compute_requested_event list \<times> seen_events" where
  "spawn_fresh [] s = ([], s)"
| "spawn_fresh (ev # evs) s =
     (let (fresh, s1) = seen_insert (event_key ev) s;
          (spawned, s2) = spawn_fresh evs s1
      in (if fresh then ev # spawned else spawned, s2))"

definition window_start :: "u64 \<Rightarrow> u64 \<Rightarrow> u64" where
  "window_start last_block confirmations_buffer =
     max (if last_block < confirmations_buffer then 0 else last_block - confirmations_buffer) 1"

text \<open>One tick: its result, the world, what was seen and what was spawned.\<close>

definition tick ::
  "'w rpc_env \<Rightarrow> 'x chain_deps \<Rightarrow> 'x http_client \<Rightarrow> u64 \<Rightarrow> u64 \<Rightarrow> seen_events \<Rightarrow> 'w \<Rightarrow>
   u64 coordinator_result \<times> 'w \<times> seen_events \<times> compute_requested_event list" where
  "tick E D A last_block confirmations_buffer seen w =
     (case latest_block E w of
        (Inl e, w1) \<Rightarrow> (Inl e, w1, seen, [])
      | (Inr latest, w1) \<Rightarrow>
          if latest \<le> last_block then (Inr last_block, w1, seen, [])
          else
            (case poll_compute_requested E D A (window_start last_block confirmations_buffer) latest w1 of
               (Inl e, w2) \<Rightarrow> (Inl e, w2, seen, [])
             | (Inr events, w2) \<Rightarrow>
                 let (spawned, seen1) = spawn_fresh events seen in (Inr latest, w2, seen1, spawned)))"

definition starting_block :: "'w rpc_env \<Rightarrow> environment \<Rightarrow> ('w, coordinator_error, u64) io" where
  "starting_block E env =
     (case Option.bind (env ''CITRATE_POOL_FROM_BLOCK'') read_u64 of
        Some n \<Rightarrow> io_of (Inr n)
      | None \<Rightarrow> latest_block E)"

definition confirmations_buffer_of :: "environment \<Rightarrow> u64" where
  "confirmations_buffer_of env = env_or env ''CITRATE_POOL_CONFIRMATIONS_BUFFER'' read_u64 12"

text \<open>The first \<open>n\<close> passes of the loop of \<^verbatim>\<open>main\<close>: the last block, the seen events and all spawned so far.\<close>

fun run_ticks ::
  "'w rpc_env \<Rightarrow> 'x chain_deps \<Rightarrow> 'x http_client \<Rightarrow> u64 \<Rightarrow> nat \<Rightarrow> nat \<Rightarrow> u64 \<times> seen_events \<times> 'w \<Rightarrow>
   (u64 \<times> seen_events \<times> 'w) \<times> compute_requested_event list" where
  "run_ticks E D A buffer interval 0 st = (st, [])"
| "run_ticks E D A buffer interval (Suc n) (last_block, seen, w) =
     (let (r, w1, seen1, spawned) = tick E D A last_block buffer seen w;
          last1 = (case r of Inr b \<Rightarrow> b | Inl _ \<Rightarrow> last_block);
          (st, later) = run_ticks E D A buffer interval n (last1, seen1, re_sleep E interval w1)
      in (st, spawned @ later))"

section \<open>Start-up\<close>

record 'x daemon =
  da_adapter :: "'x http_client"
  da_config :: coordinator_config
  da_last_block :: u64
  da_buffer :: u64
  da_interval :: u64

definition POOL_KEY_NAMES :: key_names where
  "POOL_KEY_NAMES = \<lparr>kn_path = ''CITRATE_POOL_KEYSTORE_PATH'', kn_passphrase = ''CITRATE_POOL_KEYSTORE_PASSPHRASE'',
     kn_hex = ''CITRATE_POOL_PRIVATE_KEY_HEX''\<rparr>"

text \<open>\<^verbatim>\<open>main\<close> up to its loop: the exit code of a failure, or what the loop runs with.  The wallet is
  loaded first and its secrets leave the environment the rest reads.\<close>

definition startup ::
  "'w rpc_env \<Rightarrow> 'x chain_deps \<Rightarrow> (string \<Rightarrow> u256 option) \<Rightarrow> environment \<Rightarrow> 'w \<Rightarrow> (nat + 'x daemon) \<times> 'w" where
  "startup E D u256_from_dec env0 w =
     (let (loaded, env) = from_env (cd_wallet D) POOL_KEY_NAMES env0 in
      case config_from_env (cd_hex D) u256_from_dec env of
        Inl e \<Rightarrow> (Inl 1, w)
      | Inr cfg \<Rightarrow>
      (case loaded of
        Inl e \<Rightarrow> (Inl 2, w)
      | Inr wal \<Rightarrow>
      (case verify_address wal (cc_wallet_address cfg) of
        Inl e \<Rightarrow> (Inl 3, w)
      | Inr _ \<Rightarrow>
      (case env_address (cd_hex D) env ''CITRATE_POOL_CONTRACT'' of
        Inl e \<Rightarrow> (Inl 4, w)
      | Inr contract \<Rightarrow>
      (case try_new env (cc_rpc_url cfg) (cc_chain_id cfg) contract wal of
        Inl e \<Rightarrow> (Inl 7, w)
      | Inr A \<Rightarrow>
      (case verify_rpc_chain_id E A w of
        (Inl e, w1) \<Rightarrow> (Inl 6, w1)
      | (Inr _, w1) \<Rightarrow>
      (case starting_block E env w1 of
        (Inl e, w2) \<Rightarrow> (Inl 5, w2)
      | (Inr b, w2) \<Rightarrow>
          (Inr \<lparr>da_adapter = A, da_config = cfg, da_last_block = b, da_buffer = confirmations_buffer_of env,
                da_interval = env_or env ''CITRATE_POOL_POLL_INTERVAL_SECS'' read_u64 3\<rparr>, w2))))))))"

end
