(* ===== verification/Pool_Theorems.thy ===== *)
theory Pool_Theorems
  imports Pool_Dispatch Recent_Window
begin

text \<open>
  What the pool coordinator guarantees: which calls one event may cause and in which order, that a
  prompt leaves only after its dispatch is recorded and only to a gated endpoint, that every recorded
  dispatch is settled, that waiting for a receipt ends, that an event is not handled twice within the
  window of seen events, that no polled event is lost, and what the daemon has checked when it runs.
\<close>

section \<open>Calls, recorded\<close>

text \<open>An instrumented world keeps a list of the calls made and their results beside the state.\<close>

datatype pool_call =
    AskedCoordinator u64 u64 "address coordinator_result"
  | AskedMembers u64 "pool_member_info list coordinator_result"
  | Recorded u64 address "record_dispatch_outcome coordinator_result"
  | BuiltClient "string + unit"
  | Posted string pool_infer_request u64 "string + u16 \<times> (string + pool_infer_response)"
  | Completed u64 "b256 coordinator_result"
  | FailedJob u64 "b256 coordinator_result"

definition logged ::
  "('a coordinator_result \<Rightarrow> pool_call) \<Rightarrow> ('w, coordinator_error, 'a) pio \<Rightarrow> ('w \<times> pool_call list, coordinator_error, 'a) pio" where
  "logged f op = (\<lambda>(w, calls). case op w of None \<Rightarrow> None | Some (r, w1) \<Rightarrow> Some (r, w1, calls @ [f r]))"

definition logged_chain :: "'w chain_adapter \<Rightarrow> ('w \<times> pool_call list) chain_adapter" where
  "logged_chain C =
     \<lparr>ca_self_address = ca_self_address C,
      ca_coordinator_for = (\<lambda>pool epoch. logged (AskedCoordinator pool epoch) (ca_coordinator_for C pool epoch)),
      ca_pool_members = (\<lambda>pool. logged (AskedMembers pool) (ca_pool_members C pool)),
      ca_record_dispatch = (\<lambda>job m. logged (Recorded job m) (ca_record_dispatch C job m)),
      ca_complete_job = (\<lambda>job. logged (Completed job) (ca_complete_job C job)),
      ca_fail_job = (\<lambda>job. logged (FailedJob job) (ca_fail_job C job))\<rparr>"

definition logged_provider :: "'w provider_env \<Rightarrow> ('w \<times> pool_call list) provider_env" where
  "logged_provider P =
     \<lparr>pe_build_client = (\<lambda>(w, calls). let (r, w1) = pe_build_client P w in (r, w1, calls @ [BuiltClient r])),
      pe_post = (\<lambda>url body timeout (w, calls).
        let (r, w1) = pe_post P url body timeout w in (r, w1, calls @ [Posted url body timeout r]))\<rparr>"

definition handle_logged ::
  "(bytes \<Rightarrow> b256) \<Rightarrow> 'w provider_env \<Rightarrow> 'w chain_adapter \<Rightarrow> coordinator_config \<Rightarrow> compute_requested_event \<Rightarrow>
   'w \<Rightarrow> (unit coordinator_result \<times> 'w \<times> pool_call list) option" where
  "handle_logged K P C cfg ev w = handle_event K (logged_provider P) (logged_chain C) cfg ev (w, [])"

named_theorems pool_simps \<open>unfolding one event\<close>

lemmas pio_defs [pool_simps] = pio_bind_def pio_of_def io_of_def

lemma logged_apply [pool_simps]:
  "logged f op (w, calls) = (case op w of None \<Rightarrow> None | Some (r, w1) \<Rightarrow> Some (r, w1, calls @ [f r]))"
  by (simp add: logged_def)

lemma logged_chain_sel [pool_simps]:
  "ca_self_address (logged_chain C) = ca_self_address C"
  "ca_coordinator_for (logged_chain C) pool epoch = logged (AskedCoordinator pool epoch) (ca_coordinator_for C pool epoch)"
  "ca_pool_members (logged_chain C) pool = logged (AskedMembers pool) (ca_pool_members C pool)"
  "ca_record_dispatch (logged_chain C) job m = logged (Recorded job m) (ca_record_dispatch C job m)"
  "ca_complete_job (logged_chain C) job = logged (Completed job) (ca_complete_job C job)"
  "ca_fail_job (logged_chain C) job = logged (FailedJob job) (ca_fail_job C job)"
  by (simp_all add: logged_chain_def)

lemma logged_provider_sel [pool_simps]:
  "pe_build_client (logged_provider P) (w, calls) =
     (fst (pe_build_client P w), snd (pe_build_client P w), calls @ [BuiltClient (fst (pe_build_client P w))])"
  "pe_post (logged_provider P) url body timeout (w, calls) =
     (fst (pe_post P url body timeout w), snd (pe_post P url body timeout w),
      calls @ [Posted url body timeout (fst (pe_post P url body timeout w))])"
  by (simp_all add: logged_provider_def split: prod.split)

text \<open>Recording the calls changes nothing else.\<close>

lemma dispatch_to_member_logged:
  "dispatch_to_member (logged_provider P) url body timeout (w, calls) =
     (fst (dispatch_to_member P url body timeout w), snd (dispatch_to_member P url body timeout w),
      calls @ [Posted url body timeout (fst (pe_post P url body timeout w))])"
  by (simp add: dispatch_to_member_def pool_simps split: prod.split sum.split)

definition forget :: "('a coordinator_result \<times> 'w \<times> pool_call list) option \<Rightarrow> ('a coordinator_result \<times> 'w) option" where
  "forget x = map_option (\<lambda>(r, w, _). (r, w)) x"

lemma forget_simps [simp]: "forget None = None" "forget (Some (r, w, calls)) = Some (r, w)"
  by (simp_all add: forget_def)

lemma dispatch_and_settle_logged:
  "forget (dispatch_and_settle (logged_provider P) (logged_chain C) cfg ev url (w, calls)) =
     dispatch_and_settle P C cfg ev url w"
  by (auto simp: dispatch_and_settle_def dispatch_to_member_logged pool_simps
      split: prod.split sum.split option.split)

lemma handle_logged_forget: "forget (handle_logged K P C cfg ev w) = handle_event K P C cfg ev w"
proof -
  have settle: "forget (dispatch_and_settle (logged_provider P) (logged_chain C) cfg ev url (w1, calls)) = 
      dispatch_and_settle P C cfg ev url w1" for url w1 calls
    by (rule dispatch_and_settle_logged)
  show ?thesis
    by (auto simp: handle_logged_def handle_event_def Let_def pool_simps settle split: prod.split sum.split option.split)
qed

section \<open>The shape of a run\<close>

text \<open>The calls up to the recorded dispatch, and those after it.\<close>

definition dispatch_prefix ::
  "coordinator_config \<Rightarrow> compute_requested_event \<Rightarrow> address \<Rightarrow> pool_member_info list \<Rightarrow> address \<Rightarrow>
   record_dispatch_outcome coordinator_result \<Rightarrow> pool_call list" where
  "dispatch_prefix cfg ev self members chosen outcome =
     [AskedCoordinator (ev_pool_id ev) (epoch_of (ev_block_number ev)) (Inr self),
      AskedMembers (ev_pool_id ev) (Inr members), Recorded (ev_job_id ev) chosen outcome]"

lemma select_member_in: "select_member K job ms = Some m \<Longrightarrow> m \<in> set ms"
proof -
  assume s: "select_member K job ms = Some m"
  then have "ms \<noteq> []" by (auto simp: select_member_def)
  have "unat (n mod of_nat (length ms)) < length ms" for n :: u64
  proof (cases "(of_nat (length ms) :: u64) = 0")
    case True
    then have "(2::nat) ^ 64 dvd length ms" by (simp add: word_of_nat_eq_0_iff)
    then have "2 ^ 64 \<le> length ms" using \<open>ms \<noteq> []\<close> by (intro dvd_imp_le) auto
    moreover have "unat n < 2 ^ 64" using unsigned_less [of n, where ?'a = nat] by simp
    ultimately show ?thesis unfolding True by simp
  next
    case False
    then have "unat (n mod of_nat (length ms)) < unat (of_nat (length ms) :: u64)"
      by (simp add: unat_mod unat_gt_0)
    also have "\<dots> \<le> length ms" by (simp add: unat_of_nat)
    finally show ?thesis .
  qed
  with s \<open>ms \<noteq> []\<close> show ?thesis by (auto simp: select_member_def Let_def)
qed

lemma select_member_some: "select_member K job ms = None \<longleftrightarrow> ms = []"
  by (simp add: select_member_def Let_def)

text \<open>The run after the dispatch is recorded: no redirect-safe client, or one POST and one settlement.\<close>

definition earned :: "string + u16 \<times> (string + pool_infer_response) \<Rightarrow> bool" where
  "earned reply \<longleftrightarrow> (case reply of Inr (status, Inr resp) \<Rightarrow>
     is_success status \<and> \<not> only_white_space (str_bytes (pr_output resp)) | _ \<Rightarrow> False)"

lemma dispatch_to_member_earned:
  "(\<exists>resp. fst (dispatch_to_member P url body timeout w) = Inr resp) \<longleftrightarrow>
   earned (fst (pe_post P url body timeout w))"
  by (auto simp: dispatch_to_member_def earned_def validate_pool_infer_response_def
      split: prod.split sum.split)

lemma settle_shape:
  assumes "dispatch_and_settle (logged_provider P) (logged_chain C) cfg ev url (w, calls) = Some (r, w1, calls1)"
  shows "(\<exists>e. calls1 = calls @ [BuiltClient (Inl e)] \<and> r = Inl (Internal ''could not build redirect-safe HTTP client'')) \<or>
    (\<exists>reply x. calls1 = calls @ [BuiltClient (Inr ()), Posted url (infer_request ev) (cc_provider_timeout_secs cfg) reply,
        if earned reply then Completed (ev_job_id ev) x else FailedJob (ev_job_id ev) x])"
proof (cases "fst (pe_build_client P w)")
  case (Inl e)
  with assms show ?thesis by (auto simp: dispatch_and_settle_def pool_simps)
next
  case (Inr u)
  let ?w1 = "snd (pe_build_client P w)"
  let ?post = "pe_post P url (infer_request ev) (cc_provider_timeout_secs cfg) ?w1"
  let ?d = "dispatch_to_member P url (infer_request ev) (cc_provider_timeout_secs cfg) ?w1"
  let ?posted = "calls @ [BuiltClient (Inr ()), Posted url (infer_request ev) (cc_provider_timeout_secs cfg) (fst ?post)]"
  have e: "(\<exists>resp. fst ?d = Inr resp) \<longleftrightarrow> earned (fst ?post)" by (rule dispatch_to_member_earned)
  have "\<exists>x. calls1 = ?posted @ [if earned (fst ?post) then Completed (ev_job_id ev) x else FailedJob (ev_job_id ev) x]"
  proof (cases "fst ?d")
    case (Inl f)
    with e have "\<not> earned (fst ?post)" by simp
    with assms Inl Inr show ?thesis
      by (auto simp: dispatch_and_settle_def dispatch_to_member_logged pool_simps split: option.splits)
  next
    case (Inr resp)
    with e have "earned (fst ?post)" by simp
    with assms Inr \<open>fst (pe_build_client P w) = Inr u\<close> show ?thesis
      by (auto simp: dispatch_and_settle_def dispatch_to_member_logged pool_simps split: option.splits sum.splits)
  qed
  then show ?thesis by (metis append.assoc append_Cons append_Nil)
qed

text \<open>Every run is one of these: an early return that has posted and written nothing, or a dispatch.\<close>

definition only_asked :: "pool_call list \<Rightarrow> bool" where
  "only_asked calls \<longleftrightarrow> list_all (\<lambda>c. case c of AskedCoordinator _ _ _ \<Rightarrow> True | AskedMembers _ _ \<Rightarrow> True | _ \<Rightarrow> False) calls"

definition may_dispatch ::
  "(bytes \<Rightarrow> b256) \<Rightarrow> coordinator_config \<Rightarrow> compute_requested_event \<Rightarrow> pool_member_info list \<Rightarrow> address \<Rightarrow> string \<Rightarrow> bool" where
  "may_dispatch K cfg ev members chosen url \<longleftrightarrow>
     check_event cfg ev = Inr () \<and> select_member K (ev_job_id ev) (serviceable members) = Some chosen \<and>
     cc_member_endpoints cfg chosen = Some url"

lemma handle_shape:
  assumes "handle_logged K P C cfg ev w = Some (r, w1, calls)"
  obtains (early) e where "only_asked calls" "r = Inl e"
  | (unrecorded) members chosen url e where "may_dispatch K cfg ev members chosen url" "r = Inl e"
      "calls = dispatch_prefix cfg ev (ca_self_address C) members chosen (Inl e)"
  | (recorded) members chosen url o1 w2 where "may_dispatch K cfg ev members chosen url"
      "dispatch_and_settle (logged_provider P) (logged_chain C) cfg ev url
         (w2, dispatch_prefix cfg ev (ca_self_address C) members chosen (Inr o1)) = Some (r, w1, calls)"
proof (cases "check_event cfg ev")
  case (Inl e)
  with assms have "r = Inl e" "calls = []" by (simp_all add: handle_logged_def handle_event_def pool_simps)
  then show thesis using early by (simp add: only_asked_def)
next
  case (Inr u)
  with assms early unrecorded recorded show thesis
    unfolding handle_logged_def handle_event_def pool_simps Let_def
    by (auto split: option.splits sum.splits if_splits
        simp: only_asked_def may_dispatch_def dispatch_prefix_def pool_simps ok_or_def)
qed

section \<open>One event\<close>

lemma only_asked_not [simp]:
  "only_asked calls \<Longrightarrow> Completed j x \<notin> set calls" "only_asked calls \<Longrightarrow> Recorded j m o1 \<notin> set calls"
  "only_asked calls \<Longrightarrow> Posted url body timeout reply \<notin> set calls"
  by (auto simp: only_asked_def list_all_iff)

definition is_settlement :: "pool_call \<Rightarrow> bool" where
  "is_settlement c \<longleftrightarrow> (case c of Completed _ _ \<Rightarrow> True | FailedJob _ _ \<Rightarrow> True | _ \<Rightarrow> False)"

definition settlement_of :: "u64 \<Rightarrow> pool_call \<Rightarrow> bool" where
  "settlement_of job c \<longleftrightarrow> (case c of Completed j _ \<Rightarrow> j = job | FailedJob j _ \<Rightarrow> j = job | _ \<Rightarrow> False)"

text \<open>A run of one event on a pool of one member, for the witnesses.\<close>

definition demo_config :: coordinator_config where
  "demo_config = \<lparr>cc_chain_id = 40204, cc_rpc_url = ''https://n'', cc_wallet_address = 1,
     cc_member_endpoints = [5 \<mapsto> ''https://m/infer''], cc_provider_timeout_secs = 30,
     cc_min_payment_grains = 1, cc_max_prompt_bytes = 128 * 1024, cc_max_tokens_cap = 8192\<rparr>"

definition demo_event :: compute_requested_event where
  "demo_event = \<lparr>ev_pool_id = 3, ev_job_id = 7, ev_requester = 9, ev_payment_grains = 10, ev_prompt = ''hi'',
     ev_max_tokens = 16, ev_tx_hash = 11, ev_log_index = 0, ev_block_number = 250\<rparr>"

definition demo_chain :: "nat chain_adapter" where
  "demo_chain = \<lparr>ca_self_address = 1, ca_coordinator_for = (\<lambda>_ _ w. Some (Inr 1, w)),
     ca_pool_members = (\<lambda>_ w. Some (Inr [\<lparr>pm_address = 4, pm_gpu_count = 0, pm_active = True\<rparr>,
                                          \<lparr>pm_address = 5, pm_gpu_count = 2, pm_active = True\<rparr>], w)),
     ca_record_dispatch = (\<lambda>_ _ w. Some (Inr (Confirmed 20 251), w + 1)),
     ca_complete_job = (\<lambda>_ w. Some (Inr 21, w + 1)), ca_fail_job = (\<lambda>_ w. Some (Inr 22, w + 1))\<rparr>"

definition demo_reply :: "string + u16 \<times> (string + pool_infer_response)" where
  "demo_reply = Inr (200, Inr \<lparr>pr_output = ''hello'', pr_input_tokens = None, pr_output_tokens = None\<rparr>)"

definition demo_provider :: "nat provider_env" where
  "demo_provider = \<lparr>pe_build_client = (\<lambda>w. (Inr (), w)), pe_post = (\<lambda>_ _ _ w. (demo_reply, w + 1))\<rparr>"

lemma demo_run:
  "handle_logged (\<lambda>_. 0) demo_provider demo_chain demo_config demo_event 0 =
    Some (Inr (), 3, [AskedCoordinator 3 2 (Inr 1),
      AskedMembers 3 (Inr [\<lparr>pm_address = 4, pm_gpu_count = 0, pm_active = True\<rparr>,
                           \<lparr>pm_address = 5, pm_gpu_count = 2, pm_active = True\<rparr>]),
      Recorded 7 5 (Inr (Confirmed 20 251)), BuiltClient (Inr ()),
      Posted ''https://m/infer'' (infer_request demo_event) 30 demo_reply, Completed 7 (Inr 21)])"
proof -
  have g: "check_event demo_config demo_event = Inr ()"
    by (simp add: check_event_def demo_config_def demo_event_def)
  have e: "epoch_of 250 = 2" by (simp add: epoch_of_def EPOCH_LENGTH_def)
  have s: "select_member (\<lambda>_. 0) 7 [5] = Some 5" by (simp add: select_member_def Let_def)
  have d: "dispatch_to_member demo_provider url body t w = (Inr \<lparr>pr_output = ''hello'', pr_input_tokens = None,
      pr_output_tokens = None\<rparr>, w + 1)" for url body t w
    by (simp add: dispatch_to_member_def demo_provider_def demo_reply_def is_success_def
        validate_pool_infer_response_def str_bytes_def char_byte_def)
  have ev: "ev_pool_id demo_event = 3" "ev_job_id demo_event = 7" "ev_block_number demo_event = 250"
    "cc_member_endpoints demo_config 5 = Some ''https://m/infer''" "cc_provider_timeout_secs demo_config = 30"
    by (simp_all add: demo_event_def demo_config_def)
  have p: "pe_build_client demo_provider = (\<lambda>w. (Inr (), w))" "pe_post demo_provider = (\<lambda>_ _ _ w. (demo_reply, w + 1))"
    by (simp_all add: demo_provider_def)
  show ?thesis
    by (simp add: handle_logged_def handle_event_def g pool_simps Let_def ev demo_chain_def e
        serviceable_def s p dispatch_and_settle_def dispatch_to_member_logged d)
qed

text \<open>C12: A job is completed only at the end of the whole protocol: the event passed the gate, this daemon
  was elected for the epoch of its block, the selected member is active with a GPU and configured, the call
  that records the dispatch to it succeeded, one POST went to its endpoint and came back 2xx with output that is not blank.\<close>

theorem completion_is_earned:
  assumes "handle_logged K P C cfg ev w = Some (r, w1, calls)" "Completed job x \<in> set calls"
  shows "\<exists>members m url outcome reply. job = ev_job_id ev \<and> may_dispatch K cfg ev members m url \<and>
    m \<in> set (serviceable members) \<and> earned reply \<and>
    calls = dispatch_prefix cfg ev (ca_self_address C) members m (Inr outcome) @
      [BuiltClient (Inr ()), Posted url (infer_request ev) (cc_provider_timeout_secs cfg) reply, Completed job x]"
  using assms(1)
proof (cases rule: handle_shape)
  case (recorded members m url outcome w2)
  then have "m \<in> set (serviceable members)" by (auto simp: may_dispatch_def dest: select_member_in)
  moreover note settle_shape [OF recorded(2)]
  ultimately show ?thesis using recorded(1) assms(2) by (auto simp: dispatch_prefix_def split: if_splits)
qed (use assms(2) in \<open>auto simp: dispatch_prefix_def\<close>)

theorem completion_is_earned_witness:
  "Completed 7 (Inr 21) \<in> set (snd (snd (the (handle_logged (\<lambda>_. 0) demo_provider demo_chain demo_config demo_event 0)))) \<and>
   (\<exists>members m url. may_dispatch (\<lambda>_. 0) demo_config demo_event members m url \<and> m \<in> set (serviceable members))"
  using completion_is_earned [OF demo_run, of 7 "Inr 21"] demo_run by auto

text \<open>C13: Once a dispatch is recorded the job is settled by exactly one call, for that job and as the last of the
  run, unless no redirect-safe client can be built: then the run stops with neither.\<close>

theorem recorded_dispatch_is_settled:
  assumes "handle_logged K P C cfg ev w = Some (r, w1, calls)" "Recorded job m (Inr outcome) \<in> set calls"
  shows "(\<exists>before e. calls = before @ [BuiltClient (Inl e)] \<and> filter is_settlement calls = [] \<and>
            r = Inl (Internal ''could not build redirect-safe HTTP client'')) \<or>
         (\<exists>before c. calls = before @ [c] \<and> settlement_of job c \<and> filter is_settlement calls = [c])"
  using assms(1)
proof (cases rule: handle_shape)
  case (recorded members m1 url o1 w2)
  then have "filter is_settlement (dispatch_prefix cfg ev (ca_self_address C) members m1 (Inr o1)) = []"
    by (simp add: dispatch_prefix_def is_settlement_def)
  moreover have "job = ev_job_id ev"
    using settle_shape [OF recorded(2)] assms(2) by (auto simp: dispatch_prefix_def split: if_splits)
  ultimately show ?thesis
    using settle_shape [OF recorded(2)] by (auto simp: is_settlement_def settlement_of_def)
qed (use assms(2) in \<open>auto simp: dispatch_prefix_def\<close>)

theorem recorded_dispatch_is_settled_witness:
  "Recorded 7 5 (Inr (Confirmed 20 251)) \<in> set (snd (snd (the (handle_logged (\<lambda>_. 0) demo_provider demo_chain demo_config demo_event 0)))) \<and>
   (\<exists>c. filter is_settlement (snd (snd (the (handle_logged (\<lambda>_. 0) demo_provider demo_chain demo_config demo_event 0)))) = [c] \<and>
      settlement_of 7 c)"
  using recorded_dispatch_is_settled [OF demo_run, of 7 5 "Confirmed 20 251"] demo_run by auto

section \<open>Endpoints\<close>

lemma unit_result: "(\<forall>e. r \<noteq> Inl e) \<longleftrightarrow> r = Inr ()"
  by (cases r) auto

lemma parse_entries_gated:
  assumes "parse_entries H env es endpoints = Inr endpoints1"
    and "\<And>a u. endpoints a = Some u \<Longrightarrow> validate_outbound_url env u = Inr ()"
    and "endpoints1 a = Some url"
  shows "validate_outbound_url env url = Inr ()"
  using assms
proof (induction es arbitrary: endpoints)
  case Nil
  then show ?case by simp
next
  case (Cons e es)
  from Cons.prems(1) obtain mid where mid: "parse_entry H env e endpoints = Inr mid"
    and rest: "parse_entries H env es mid = Inr endpoints1" by (auto simp: sum_simps)
  have "validate_outbound_url env u = Inr ()" if "mid a = Some u" for a u
    using mid that Cons.prems(2)
    by (auto simp: parse_entry_def Let_def sum_simps unit_result split: if_splits sum.splits)
  then show ?case using Cons.IH [OF rest] Cons.prems(3) by blast
qed

lemma config_gated:
  assumes "config_from_env H from_dec env = Inr cfg"
  shows "validate_outbound_url env (cc_rpc_url cfg) = Inr ()"
    and "cc_member_endpoints cfg m = Some url \<Longrightarrow> validate_outbound_url env url = Inr ()"
  using assms parse_entries_gated [of H env _ Map.empty "cc_member_endpoints cfg" m url]
  by (auto simp: config_from_env_def Let_def sum_simps parse_endpoints_def unit_result split: sum.splits)

text \<open>C21: Under a configuration read from the environment a prompt is only posted right after the call that records its
  dispatch to the member behind the endpoint succeeded, to a URL the outbound gate accepts, and within the limits
  of the gate.\<close>

theorem prompt_leaves_recorded_and_gated:
  assumes "config_from_env H from_dec env = Inr cfg"
    and "handle_logged K P C cfg ev w = Some (r, w1, calls)"
    and "Posted url body timeout reply \<in> set calls"
  shows "validate_outbound_url env url = Inr () \<and>
    (\<exists>before after m outcome. calls = before @ [Recorded (ev_job_id ev) m (Inr outcome), BuiltClient (Inr ())] @
        Posted url body timeout reply # after \<and> cc_member_endpoints cfg m = Some url) \<and>
    pq_prompt body = ev_prompt ev \<and> length (pq_prompt body) \<le> unat (cc_max_prompt_bytes cfg) \<and>
    pq_max_tokens body \<le> cc_max_tokens_cap cfg \<and> cc_min_payment_grains cfg \<le> ev_payment_grains ev"
  using assms(2)
proof (cases rule: handle_shape)
  case (recorded members m url1 outcome w2)
  from recorded(1) have m: "cc_member_endpoints cfg m = Some url1" "check_event cfg ev = Inr ()"
    by (auto simp: may_dispatch_def)
  from settle_shape [OF recorded(2)] assms(3) have p: "url = url1" "body = infer_request ev"
    "\<exists>after. calls = dispatch_prefix cfg ev (ca_self_address C) members m (Inr outcome) @
      [BuiltClient (Inr ())] @ Posted url body timeout reply # after"
    by (auto simp: dispatch_prefix_def split: if_splits)
  from p(3) have "\<exists>before after. calls = before @ [Recorded (ev_job_id ev) m (Inr outcome), BuiltClient (Inr ())] @
        Posted url body timeout reply # after"
    unfolding dispatch_prefix_def by (metis append.assoc append_Cons append_Nil)
  moreover have "cc_min_payment_grains cfg \<le> ev_payment_grains ev"
    using m(2) by (cases "cc_min_payment_grains cfg = 0") (auto simp: check_event_def split: if_splits)
  moreover have "length (ev_prompt ev) \<le> unat (cc_max_prompt_bytes cfg)" "ev_max_tokens ev \<le> cc_max_tokens_cap cfg"
    using m(2) by (auto simp: check_event_def split: if_splits)
  ultimately show ?thesis
    using config_gated(2) [OF assms(1) m(1)] m(1) p(1,2) by (auto simp: infer_request_def)
qed (use assms(3) in \<open>auto simp: dispatch_prefix_def\<close>)

definition demo_env :: environment where
  "demo_env = map_of [(''CITRATE_POOL_RPC_URL'', ''https://n''),
     (''CITRATE_POOL_WALLET_ADDRESS'', ''0x0000000000000000000000000000000000000001''),
     (''CITRATE_POOL_MEMBER_ENDPOINTS'', ''0000000000000000000000000000000000000005 = https://m/infer,'')]"

lemmas demo_eval = trim_def is_ascii_space_def strip_prefix_def to_digit_def Let_def address_of_bytes_def
  from_be_bytes_def from_le_bytes_def lower_hex_def

lemma demo_addresses:
  "parse_addr lower_hex ''0x0000000000000000000000000000000000000001'' = Inr 1"
  "parse_addr lower_hex ''0000000000000000000000000000000000000005 '' = Inr 5"
  by (simp_all add: parse_addr_def demo_eval)

lemma demo_config_from:
  assumes "\<And>k. k \<noteq> ''CITRATE_POOL_PRIVATE_KEY_HEX'' \<Longrightarrow> k \<noteq> ''CITRATE_POOL_CONTRACT'' \<Longrightarrow> env k = demo_env k"
  shows "config_from_env lower_hex (\<lambda>_. None) env = Inr demo_config"
proof -
  have e: "env ''CITRATE_POOL_RPC_URL'' = Some ''https://n''"
    "env ''CITRATE_POOL_WALLET_ADDRESS'' = Some ''0x0000000000000000000000000000000000000001''"
    "env ''CITRATE_POOL_MEMBER_ENDPOINTS'' = Some (''0000000000000000000000000000000000000005 = https://m/infer,'')"
    "env ''CITRATE_POOL_CHAIN_ID'' = None" "env ''CITRATE_POOL_PROVIDER_TIMEOUT_SECS'' = None"
    "env ''CITRATE_POOL_MIN_PAYMENT_GRAINS'' = None" "env ''CITRATE_POOL_MAX_PROMPT_BYTES'' = None"
    "env ''CITRATE_POOL_MAX_TOKENS'' = None"
    by (simp_all add: assms demo_env_def)
  have u: "validate_outbound_url env ''https://n'' = Inr ()" "validate_outbound_url env ''https://m/infer'' = Inr ()"
    by (simp_all add: validate_outbound_url_def gate_eval)
  have t: "trim ''0000000000000000000000000000000000000005 = https://m/infer'' = ''0000000000000000000000000000000000000005 = https://m/infer''"
    "trim '' https://m/infer'' = ''https://m/infer''" "trim [] = []"
    by (simp_all add: trim_def is_ascii_space_def)
  have s: "split_once ''='' ''0000000000000000000000000000000000000005 = https://m/infer'' =
      Some (''0000000000000000000000000000000000000005 '', '' https://m/infer'')"
    by (simp add: strip_prefix_def)
  have "parse_entry lower_hex env ''0000000000000000000000000000000000000005 = https://m/infer'' Map.empty =
      Inr [5 \<mapsto> ''https://m/infer'']"
    unfolding parse_entry_def Let_def t s by (simp add: t u demo_addresses)
  moreover have "parse_entry lower_hex env [] m = Inr m" for m
    by (simp add: parse_entry_def t)
  ultimately have "parse_endpoints lower_hex env ''0000000000000000000000000000000000000005 = https://m/infer,'' =
      Inr [5 \<mapsto> ''https://m/infer'']"
    by (simp add: parse_endpoints_def)
  then show ?thesis
    by (simp add: config_from_env_def e u demo_addresses env_or_def demo_config_def)
qed

lemmas demo_config_from_env = demo_config_from [OF refl]

theorem prompt_leaves_recorded_and_gated_witness:
  "config_from_env lower_hex (\<lambda>_. None) demo_env = Inr demo_config \<and>
   validate_outbound_url demo_env ''https://m/infer'' = Inr () \<and> length (pq_prompt (infer_request demo_event)) \<le> 131072"
  using prompt_leaves_recorded_and_gated [OF demo_config_from_env demo_run, of "''https://m/infer''" "infer_request demo_event" 30 demo_reply]
    demo_config_from_env by (auto simp: demo_config_def)

section \<open>Receipts\<close>

text \<open>Waiting for a receipt ends, whatever the node answers, and costs at most 61 requests: one at once, one after
  a quarter of a second and then one every half second for the thirty seconds.\<close>

theorem receipt_wait_ends:
  assumes "steady_clock E"
  shows "\<exists>r w1 n1. wait_for_receipt (counted E) D tx_hash (w, n) = Some (r, w1, n1) \<and> n1 \<le> n + 61"
  unfolding wait_for_receipt_def by (rule await_receipt_ends [OF assms])

lemma returns_send_write: "steady_clock E \<Longrightarrow> returns (send_write E D A calldata)"
  unfolding send_write_def by (rule returns_write_contract)

lemma returns_http_adapter:
  assumes "steady_clock E"
  shows "returns (ca_coordinator_for (http_adapter E D A) pool epoch)"
    and "returns (ca_pool_members (http_adapter E D A) pool)"
    and "returns (ca_record_dispatch (http_adapter E D A) job m)"
    and "returns (ca_complete_job (http_adapter E D A) job)"
    and "returns (ca_fail_job (http_adapter E D A) job)"
  unfolding http_adapter_def chain_adapter.simps record_dispatch_def complete_job_def fail_job_def
  by (auto intro!: returns_bind returns_send_write [OF assms] simp: split_beta)

text \<open>C24: Over a JSON-RPC node and a steady clock the handling of an event always ends, in a success or an error, whatever
  the node and the member answer.\<close>

theorem event_handling_ends:
  assumes "steady_clock E"
  shows "\<exists>r w1. handle_event K P (http_adapter E D A) cfg ev w = Some (r, w1)"
proof -
  note ops = returns_http_adapter [OF assms, where D = D and A = A]
  have "returns (dispatch_and_settle P (http_adapter E D A) cfg ev url)" for url
    using ops(4) [of "ev_job_id ev"] ops(5) [of "ev_job_id ev"]
    by (auto simp: returns_def dispatch_and_settle_def pio_defs split: prod.split sum.split option.split)
      (metis option.distinct(1))+
  then have "returns (handle_event K P (http_adapter E D A) cfg ev)"
    unfolding handle_event_def Let_def by (auto intro!: returns_bind ops simp: io_of_def)
  then show ?thesis unfolding returns_def by (metis not_None_eq prod.collapse)
qed

text \<open>A node that never has an answer, on a clock that only sleeping advances.\<close>

definition demo_env_of_time :: "nat rpc_env" where
  "demo_env_of_time = \<lparr>re_post = (\<lambda>m p w. (Inr (JObj [(''result'', JNull)]), w)), re_now = (\<lambda>w. w), re_sleep = (\<lambda>d w. w + d)\<rparr>"

lemma demo_steady: "steady_clock demo_env_of_time"
  by (simp add: steady_clock_def demo_env_of_time_def)

theorem receipt_wait_ends_witness:
  "steady_clock demo_env_of_time \<and>
   (\<exists>r w1 n1. wait_for_receipt (counted demo_env_of_time) (undefined :: nat chain_deps) 7 (0, 0) = Some (r, w1, n1) \<and> n1 \<le> 61)"
  using receipt_wait_ends [OF demo_steady, of "undefined :: nat chain_deps" 7 0 0] demo_steady by simp

theorem event_handling_ends_witness:
  "steady_clock demo_env_of_time \<and>
   (\<exists>r w1. handle_event (\<lambda>_. 0) demo_provider (http_adapter demo_env_of_time (undefined :: nat chain_deps) undefined)
      demo_config demo_event 0 = Some (r, w1))"
  using event_handling_ends [OF demo_steady, of "\<lambda>_. 0" demo_provider "undefined :: nat chain_deps" undefined demo_config demo_event 0]
    demo_steady by simp

text \<open>A dispatch whose receipt never came is reported as confirmed, in block zero.\<close>

lemma unmined_dispatch_is_confirmed:
  assumes "send_write E D A (selector (cd_keccak D) ''recordDispatch(uint256)'' @ u256_word (ucast job)) w =
    Some (Inr (tx_hash, None), w1)"
  shows "record_dispatch E D A job m w = Some (Inr (Confirmed tx_hash 0), w1)"
  using assms by (simp add: record_dispatch_def pio_defs)

section \<open>Fees\<close>

text \<open>The transaction of a write pays at most twice the node's gas price and the priority fee, or the most a word
  holds, never less than the priority fee, and goes to the contract of the client on its chain.\<close>

theorem write_fees_are_bounded:
  "unat (tx_max_fee_per_gas (write_tx A gas_limit nonce gas_price calldata val)) = min (2 * unat gas_price + 1000000000) (2 ^ 256 - 1) \<and>
   tx_max_priority_fee_per_gas (write_tx A gas_limit nonce gas_price calldata val) \<le>
     tx_max_fee_per_gas (write_tx A gas_limit nonce gas_price calldata val) \<and>
   tx_to (write_tx A gas_limit nonce gas_price calldata val) = hc_contract A \<and>
   tx_chain_id (write_tx A gas_limit nonce gas_price calldata val) = hc_chain_id A"
  using write_fees by (simp add: write_tx_def)

section \<open>Seen events\<close>

definition seen_ok :: "seen_events \<Rightarrow> bool" where
  "seen_ok s \<longleftrightarrow> se_set s = set (se_order s) \<and> distinct (se_order s) \<and>
     length (se_order s) \<le> se_cap s \<and> se_cap s = SEEN_EVENTS_CAP"

lemma seen_ok_new: "seen_ok (seen_with_cap SEEN_EVENTS_CAP)"
  by (simp add: seen_ok_def seen_with_cap_def)

lemma evict_distinct:
  assumes "distinct order"
  shows "evict cap order (set order) = (drop (Suc (length order) - cap) order, set (drop (Suc (length order) - cap) order))"
  using assms
proof (induction order)
  case Nil
  then show ?case by simp
next
  case (Cons k order)
  have "set (k # order) - {k} = set order" "card (set (k # order)) = Suc (length order)"
    using Cons.prems by (auto simp: distinct_card)
  moreover have "Suc (Suc (length order)) - cap = Suc (Suc (length order) - cap)" if "cap \<le> Suc (length order)"
    using that by (simp add: Suc_diff_le)
  ultimately show ?case using Cons by (simp add: not_le)
qed

lemma seen_insert_cases:
  assumes "seen_ok s"
  shows "seen_insert key s =
    (if key \<in> set (se_order s) then (False, s)
     else (True, s\<lparr>se_order := drop (Suc (length (se_order s)) - SEEN_EVENTS_CAP) (se_order s) @ [key],
                   se_set := insert key (set (drop (Suc (length (se_order s)) - SEEN_EVENTS_CAP) (se_order s)))\<rparr>))"
proof -
  have "key \<notin> set (drop n (se_order s))" if "key \<notin> set (se_order s)" for n
    using that by (auto dest: in_set_dropD)
  then show ?thesis
    using assms by (simp add: seen_insert_def seen_ok_def evict_distinct)
qed

interpretation se: recent_window seen_ok seen_insert se_order SEEN_EVENTS_CAP
proof
  fix s and key :: event_key
  assume s: "seen_ok s"
  let ?n = "Suc (length (se_order s)) - SEEN_EVENTS_CAP"
  have sub: "set (drop ?n (se_order s)) \<subseteq> set (se_order s)" by (rule set_drop_subset)
  show "seen_ok (snd (seen_insert key s))"
    using s sub unfolding seen_insert_cases [OF s] by (auto simp: seen_ok_def SEEN_EVENTS_CAP_def)
  show "fst (seen_insert key s) \<longleftrightarrow> key \<notin> set (se_order s)"
    by (simp add: seen_insert_cases [OF s])
  show "se_order (snd (seen_insert key s)) = (if key \<in> set (se_order s) then se_order s
      else drop ?n (se_order s) @ [key])"
    by (simp add: seen_insert_cases [OF s])
  show "distinct (se_order s) \<and> length (se_order s) \<le> SEEN_EVENTS_CAP"
    using s by (simp add: seen_ok_def)
qed (simp add: SEEN_EVENTS_CAP_def)

text \<open>\<open>tracks h s\<close>: the window is the end of the history \<open>h\<close> of all keys spawned so far, in which equal keys
  stand more than a window apart.\<close>

definition apart :: "nat \<Rightarrow> 'k list \<Rightarrow> bool" where
  "apart n h \<longleftrightarrow> (\<forall>xs k ys zs. h = xs @ k # ys @ k # zs \<longrightarrow> n \<le> length ys)"

definition tracks :: "event_key list \<Rightarrow> seen_events \<Rightarrow> bool" where
  "tracks h s \<longleftrightarrow> seen_ok s \<and> se_order s = drop (length h - SEEN_EVENTS_CAP) h \<and> apart SEEN_EVENTS_CAP h"

lemma apartD: "apart n (xs @ k # ys @ k # zs) \<Longrightarrow> n \<le> length ys"
  unfolding apart_def by blast

lemma apart_snoc:
  assumes "apart n h" "k \<notin> set (drop (length h - n) h)"
  shows "apart n (h @ [k])"
  unfolding apart_def
proof (intro allI impI)
  fix xs j ys zs
  assume e: "h @ [k] = xs @ j # ys @ j # zs"
  show "n \<le> length ys"
  proof (cases zs rule: rev_cases)
    case Nil
    with e have h: "h = xs @ j # ys" "j = k" by auto
    show ?thesis
    proof (rule ccontr)
      assume "\<not> n \<le> length ys"
      then have "length h - n \<le> length xs" by (simp add: h)
      then have "drop (length h - n) h = drop (length h - n) xs @ k # ys" using h by simp
      with assms(2) show False by simp
    qed
  next
    case (snoc zs1 z)
    with e have "h = xs @ j # ys @ j # zs1" by auto
    with assms(1) show ?thesis unfolding apart_def by blast
  qed
qed

lemma tracks_insert:
  assumes "tracks h s" "seen_insert k s = (fresh, s1)"
  shows "tracks (if fresh then h @ [k] else h) s1" "k \<in> set (se_order s1)" "\<not> fresh \<longrightarrow> s1 = s"
proof -
  from assms have ok: "seen_ok s" and o: "se_order s = drop (length h - SEEN_EVENTS_CAP) h"
    and a: "apart SEEN_EVENTS_CAP h" by (auto simp: tracks_def)
  have f: "fresh \<longleftrightarrow> k \<notin> set (se_order s)" using se.fresh_iff [OF ok, of k] assms(2) by simp
  have ok1: "seen_ok s1" using se.inv_see [OF ok, of k] assms(2) by simp
  have r: "se_order s1 = (if fresh then drop (Suc (length (se_order s)) - SEEN_EVENTS_CAP) (se_order s) @ [k] else se_order s)"
    using se.recent_see [OF ok, of k] assms(2) f by auto
  show "k \<in> set (se_order s1)" using r f by auto
  show "\<not> fresh \<longrightarrow> s1 = s" using assms(2) f by (auto simp: seen_insert_cases [OF ok])
  show "tracks (if fresh then h @ [k] else h) s1"
  proof (cases fresh)
    case True
    have "length (se_order s) = min (length h) SEEN_EVENTS_CAP" by (simp add: o)
    moreover have "0 < SEEN_EVENTS_CAP" by (simp add: SEEN_EVENTS_CAP_def)
    ultimately have "se_order s1 = drop (length (h @ [k]) - SEEN_EVENTS_CAP) (h @ [k])"
      using r True by (auto simp: o min_def Suc_diff_le)
    with ok1 True a f o show ?thesis by (simp add: tracks_def apart_snoc)
  qed (use ok1 a r o in \<open>simp add: tracks_def\<close>)
qed

lemma tracks_spawn:
  assumes "tracks h s" "spawn_fresh evs s = (spawned, s1)"
  shows "tracks (h @ map event_key spawned) s1 \<and> set spawned \<subseteq> set evs \<and>
    (\<forall>ev\<in>set evs. event_key ev \<in> set (map event_key spawned) \<union> set (se_order s))"
  using assms
proof (induction evs arbitrary: h s spawned s1)
  case Nil
  then show ?case by simp
next
  case (Cons ev evs)
  obtain fresh s2 where i: "seen_insert (event_key ev) s = (fresh, s2)" by fastforce
  obtain spawned2 s3 where p: "spawn_fresh evs s2 = (spawned2, s3)" by fastforce
  note t = tracks_insert [OF Cons.prems(1) i]
  have sp: "spawned = (if fresh then ev # spawned2 else spawned2)" "s1 = s3"
    using Cons.prems(2) i p by (auto split: if_splits)
  have IH: "tracks ((if fresh then h @ [event_key ev] else h) @ map event_key spawned2) s3 \<and>
      set spawned2 \<subseteq> set evs \<and>
      (\<forall>ev\<in>set evs. event_key ev \<in> set (map event_key spawned2) \<union> set (se_order s2))"
    using Cons.IH [OF t(1) p] .
  have "seen_ok s" using Cons.prems(1) by (simp add: tracks_def)
  then have "set (se_order s2) \<subseteq> insert (event_key ev) (set (se_order s))"
    using se.recent_see [of s "event_key ev"] i by (auto dest: in_set_dropD split: if_splits)
  moreover have "\<not> fresh \<longrightarrow> event_key ev \<in> set (se_order s)" using t(2,3) by auto
  ultimately show ?case using IH t(3) unfolding sp by (cases fresh) auto
qed

section \<open>The polling loop\<close>

lemma tick_cases:
  assumes "tick E D A last_block buffer s w = (r, w1, s1, spawned)"
  obtains (idle) "s1 = s" "spawned = []" "\<forall>b. r = Inr b \<longrightarrow> b = last_block"
  | (polled) latest w2 events where "r = Inr latest" "last_block < latest"
      "poll_compute_requested E D A (window_start last_block buffer) latest w2 = (Inr events, w1)"
      "spawn_fresh events s = (spawned, s1)"
  using assms unfolding tick_def by (auto split: prod.splits sum.splits if_splits simp: not_le)

lemma tracks_ticks:
  assumes "tracks h s" "run_ticks E D A buffer interval n (last_block, s, w) = (st, spawned)"
  shows "tracks (h @ map event_key spawned) (fst (snd st))"
  using assms
proof (induction n arbitrary: h s last_block w st spawned)
  case 0
  then show ?case by auto
next
  case (Suc n)
  obtain r w1 s1 sp where t: "tick E D A last_block buffer s w = (r, w1, s1, sp)" by (metis prod_cases4)
  obtain st2 later where n: "run_ticks E D A buffer interval n
      (case r of Inr b \<Rightarrow> b | Inl _ \<Rightarrow> last_block, s1, re_sleep E interval w1) = (st2, later)" by fastforce
  have "tracks (h @ map event_key sp) s1"
    using t by (cases rule: tick_cases) (use Suc.prems(1) tracks_spawn in auto)
  from Suc.IH [OF this n] show ?case using Suc.prems(2) t n by auto
qed

lemma tracks_start: "tracks [] (seen_with_cap SEEN_EVENTS_CAP)"
  using seen_ok_new by (simp add: tracks_def apart_def seen_with_cap_def)

text \<open>C22: In the whole run of the polling loop two tasks for the same log, named by transaction and log index, are spawned
  only if at least ten thousand other events were taken in between.\<close>

theorem no_event_handled_twice:
  "apart 10000 (map event_key (snd (run_ticks E D A buffer interval n (last_block, seen_with_cap SEEN_EVENTS_CAP, w))))"
proof -
  obtain st spawned where r: "run_ticks E D A buffer interval n (last_block, seen_with_cap SEEN_EVENTS_CAP, w) = (st, spawned)"
    by fastforce
  from tracks_ticks [OF tracks_start r] show ?thesis by (simp add: tracks_def r [simplified] SEEN_EVENTS_CAP_def [symmetric])
qed

text \<open>C23: A tick loses nothing.  If the node fails, the last block and the seen events stay, so the same blocks are asked
  for again; otherwise the polled blocks start no later than the first new one and go up to the node's latest, and
  every event of the answer is spawned by this tick or was in the window before it.\<close>

theorem tick_loses_nothing:
  assumes "seen_ok s" "tick E D A last_block buffer s w = (r, w1, s1, spawned)"
  shows "seen_ok s1 \<and>
    (s1 = s \<and> spawned = [] \<and> (\<forall>b. r = Inr b \<longrightarrow> b = last_block) \<or>
     (\<exists>latest w2 events. r = Inr latest \<and> last_block < latest \<and>
        unat (window_start last_block buffer) \<le> unat last_block + 1 \<and>
        poll_compute_requested E D A (window_start last_block buffer) latest w2 = (Inr events, w1) \<and>
        set spawned \<subseteq> set events \<and>
        (\<forall>ev\<in>set events. event_key ev \<in> event_key ` set spawned \<union> se_set s)))"
  using assms(2)
proof (cases rule: tick_cases)
  case idle
  with assms(1) show ?thesis by simp
next
  case (polled latest w2 events)
  let ?h = "se_order s"
  have order: "se_set s = set (se_order s)" "length (se_order s) \<le> SEEN_EVENTS_CAP" "distinct (se_order s)"
    using assms(1) by (auto simp: seen_ok_def)
  have "apart SEEN_EVENTS_CAP ?h" using order(3) by (auto simp: apart_def)
  then have "tracks ?h s" using assms(1) order by (simp add: tracks_def)
  from tracks_spawn [OF this polled(4)] have "seen_ok s1" "set spawned \<subseteq> set events"
    "\<forall>ev\<in>set events. event_key ev \<in> event_key ` set spawned \<union> se_set s"
    by (auto simp: tracks_def order(1))
  moreover have "unat (window_start last_block buffer) \<le> unat last_block + 1"
    by (auto simp: window_start_def max_def not_less unat_sub)
  ultimately show ?thesis using polled by blast
qed

definition demo_node :: "nat rpc_env" where
  "demo_node = demo_env_of_time\<lparr>re_post := (\<lambda>m p w. (Inr (JObj [(''result'',
     if m = ''eth_chainId'' then JStr ''0x9d0c'' else if m = ''eth_blockNumber'' then JStr ''0x5'' else JArr [])]), w))\<rparr>"

lemma demo_node_answers:
  "rpc_quantity Chain parse_hex_u64 demo_node ''eth_blockNumber'' (JArr []) w = (Inr 5, w)"
  "rpc_quantity Chain parse_hex_u64 demo_node ''eth_chainId'' (JArr []) w = (Inr 40204, w)"
  "rpc demo_node ''eth_getLogs'' p w = (Inr (JArr []), w)"
  by (simp_all add: rpc_quantity_def rpc_text_def rpc_def json_rpc_def io_bind_def io_of_def demo_node_def ok_or_def
      parse_hex_u64_def parse_radix_def to_digit_def Let_def)

theorem tick_loses_nothing_witness:
  "tick demo_node (undefined :: unit chain_deps) undefined 3 12 (seen_with_cap SEEN_EVENTS_CAP) 0 =
     (Inr 5, 0, seen_with_cap SEEN_EVENTS_CAP, []) \<and>
   (\<exists>latest w2 events. unat (window_start 3 12) \<le> 4 \<and>
     poll_compute_requested demo_node (undefined :: unit chain_deps) undefined (window_start 3 12) latest w2 = (Inr events, 0))"
proof -
  have t: "tick demo_node (undefined :: unit chain_deps) undefined 3 12 (seen_with_cap SEEN_EVENTS_CAP) 0 =
      (Inr 5, 0, seen_with_cap SEEN_EVENTS_CAP, [])"
    by (simp add: tick_def latest_block_def demo_node_answers poll_compute_requested_def io_bind_def io_of_def ok_or_def)
  from tick_loses_nothing [OF seen_ok_new t] t show ?thesis by auto
qed

text \<open>The log behind an event: a \<^verbatim>\<open>ComputeRequested\<close> of the pool's contract with the event's fields.\<close>

definition log_of :: "codec \<Rightarrow> (bytes \<Rightarrow> b256) \<Rightarrow> address \<Rightarrow> json \<Rightarrow> compute_requested_event \<Rightarrow> bool" where
  "log_of H K contract entry ev \<longleftrightarrow>
     check_emitter H contract entry = Inr () \<and>
     (\<exists>topics. log_topics entry = Inr topics \<and> check_topic0 H K (topics ! 0) = Inr () \<and>
        topic_as_u64 H (json_as_str (topics ! 1)) = Inr (ev_pool_id ev) \<and>
        topic_as_u64 H (json_as_str (topics ! 2)) = Inr (ev_job_id ev)) \<and>
     log_payment H entry = Inr (ev_payment_grains ev) \<and> log_tx_hash H entry = Inr (ev_tx_hash ev)"

lemma spawn_subset: "set (fst (spawn_fresh evs s)) \<subseteq> set evs"
  by (induction evs arbitrary: s) (auto simp: Let_def case_prod_unfold)

lemma poll_entries_log:
  assumes "poll_entries E D A entries w = (Inr evs, w1)" "ev \<in> set evs"
  shows "\<exists>entry\<in>set entries. log_of (cd_hex D) (cd_keccak D) (hc_contract A) entry ev"
  using assms
proof (induction entries arbitrary: w evs)
  case Nil
  then show ?case by (simp add: io_of_def)
next
  case (Cons entry entries)
  obtain ev0 where d: "decode_log_entry (cd_hex D) (cd_keccak D) (hc_contract A) entry = Inr ev0"
    using Cons.prems(1) by (auto simp: io_bind_def io_of_def split: sum.splits)
  obtain spec w2 where f: "fetch_job_spec E D A (ev_job_id ev0) w = (spec, w2)" by fastforce
  obtain evs2 where p: "poll_entries E D A entries w2 = (Inr evs2, w1)" "evs = with_job_spec ev0 spec # evs2"
    using Cons.prems(1) d f by (auto simp: io_bind_def io_of_def split: sum.splits prod.splits)
  have "log_of (cd_hex D) (cd_keccak D) (hc_contract A) entry (with_job_spec ev0 spec)"
    using d unfolding decode_log_entry_Inr log_of_def by (auto simp: with_job_spec_def split: sum.split prod.split)
  then show ?case using Cons.IH [OF p(1)] Cons.prems(2) p(2) by auto
qed

lemma spawned_log:
  assumes "run_ticks E D A buffer interval n (last_block, s, w) = (st, spawned)" "ev \<in> set spawned"
  shows "\<exists>entry. log_of (cd_hex D) (cd_keccak D) (hc_contract A) entry ev"
  using assms
proof (induction n arbitrary: s last_block w st spawned)
  case 0
  then show ?case by simp
next
  case (Suc n)
  obtain r w1 s1 sp where t: "tick E D A last_block buffer s w = (r, w1, s1, sp)" by (metis prod_cases4)
  have "\<exists>entry. log_of (cd_hex D) (cd_keccak D) (hc_contract A) entry ev" if "ev \<in> set sp"
    using t
  proof (cases rule: tick_cases)
    case (polled latest w2 events)
    then have "ev \<in> set events" using spawn_subset [of events s] that by auto
    obtain entries w3 where pe: "poll_entries E D A entries w3 = (Inr events, w1)"
      using polled(3) by (auto simp: poll_compute_requested_def io_bind_def split: sum.splits prod.splits)
    from poll_entries_log [OF pe \<open>ev \<in> set events\<close>] show ?thesis by auto
  qed (use that in simp)
  moreover obtain st2 later where n: "run_ticks E D A buffer interval n
      (case r of Inr b \<Rightarrow> b | Inl _ \<Rightarrow> last_block, s1, re_sleep E interval w1) = (st2, later)" by fastforce
  moreover have "spawned = sp @ later" using Suc.prems(1) t n by auto
  ultimately show ?case using Suc.prems(2) Suc.IH [OF n] by auto
qed

text \<open>Every event for which the loop spawns a task stands in a log emitted by the configured pool contract under the
  topic of \<^verbatim>\<open>ComputeRequested\<close>, and its pool, job, payment and transaction are those of that log.\<close>

theorem spawned_events_are_the_contracts:
  "list_all (\<lambda>ev. \<exists>entry. log_of (cd_hex D) (cd_keccak D) (hc_contract A) entry ev)
     (snd (run_ticks E D A buffer interval n (last_block, s, w)))"
proof -
  obtain st spawned where r: "run_ticks E D A buffer interval n (last_block, s, w) = (st, spawned)" by fastforce
  from spawned_log [OF r] show ?thesis by (simp add: r list_all_iff)
qed

section \<open>Start-up\<close>

text \<open>The daemon polls only under a checked identity: the address of its key is the declared one, the URL of the
  node and the endpoints of all members pass the gate, the node has answered with the configured chain id, and
  everything the adapter writes is signed for that chain with that key.\<close>

theorem daemon_runs_on_checked_identity:
  assumes "startup E D from_dec env0 w = (Inr daemon, w2)"
  shows "\<exists>env. w_address (hc_wallet (da_adapter daemon)) = cc_wallet_address (da_config daemon) \<and>
    fst (from_env (cd_wallet D) POOL_KEY_NAMES env0) = Inr (hc_wallet (da_adapter daemon)) \<and>
    env = snd (from_env (cd_wallet D) POOL_KEY_NAMES env0) \<and>
    validate_outbound_url env (hc_rpc_url (da_adapter daemon)) = Inr () \<and>
    (\<forall>m url. cc_member_endpoints (da_config daemon) m = Some url \<longrightarrow> validate_outbound_url env url = Inr ()) \<and>
    hc_chain_id (da_adapter daemon) = cc_chain_id (da_config daemon) \<and>
    (\<exists>w1. fst (rpc_quantity Chain parse_hex_u64 E ''eth_chainId'' (JArr []) w1) = Inr (cc_chain_id (da_config daemon)))"
proof -
  obtain loaded env where l: "from_env (cd_wallet D) POOL_KEY_NAMES env0 = (loaded, env)" by fastforce
  from assms l obtain cfg wal contract A b w1 where
    c: "config_from_env (cd_hex D) from_dec env = Inr cfg" "loaded = Inr wal"
      "verify_address wal (cc_wallet_address cfg) = Inr ()"
      "try_new env (cc_rpc_url cfg) (cc_chain_id cfg) contract wal = Inr A"
      "verify_rpc_chain_id E A w = (Inr (), w1)"
    and d: "da_adapter daemon = A" "da_config daemon = cfg"
    by (auto simp: startup_def Let_def split: sum.splits prod.splits)
  have A: "hc_wallet A = wal" "hc_chain_id A = cc_chain_id cfg" "hc_rpc_url A = cc_rpc_url cfg"
    using c(4) by (auto simp: try_new_def split: sum.splits)
  have "w_address wal = cc_wallet_address cfg"
    using c(3) by (auto simp: verify_address_def split: if_splits)
  moreover have "fst (rpc_quantity Chain parse_hex_u64 E ''eth_chainId'' (JArr []) w) = Inr (cc_chain_id cfg)"
    using c(5) A(2) by (auto simp: verify_rpc_chain_id_def check_chain_id_def io_bind_def io_of_def split: prod.splits sum.splits if_splits)
  ultimately show ?thesis
    using config_gated [OF c(1)] l c(2) by (auto simp: d A)
qed

definition demo_wallet_deps :: "unit wallet_deps" where
  "demo_wallet_deps = (undefined :: unit wallet_deps)\<lparr>wd_keccak := (\<lambda>_. 1), wd_hex := lower_hex,
     wd_key_from_bytes := (\<lambda>_. Some ()), wd_public_point := (\<lambda>_. replicate 65 4)\<rparr>"

definition demo_deps :: "unit chain_deps" where
  "demo_deps = \<lparr>cd_wallet = demo_wallet_deps, cd_u256_from_hex = (\<lambda>_. None)\<rparr>"

definition demo_start_env :: environment where
  "demo_start_env = demo_env(''CITRATE_POOL_PRIVATE_KEY_HEX'' \<mapsto> hex_encode sample_key,
     ''CITRATE_POOL_CONTRACT'' \<mapsto> ''0x0000000000000000000000000000000000000001'')"

definition demo_daemon :: "unit daemon" where
  "demo_daemon = \<lparr>da_adapter = \<lparr>hc_rpc_url = ''https://n'', hc_chain_id = 40204, hc_contract = 1,
             hc_wallet = \<lparr>w_signing_key = (), w_address = 1, w_below_modern_kdf = None\<rparr>\<rparr>,
          da_config = demo_config, da_last_block = 5, da_buffer = 12, da_interval = 3\<rparr>"

lemma demo_startup: "startup demo_node demo_deps (\<lambda>_. None) demo_start_env 0 = (Inr demo_daemon, 0)"
proof -
  let ?env = "demo_start_env(''CITRATE_POOL_PRIVATE_KEY_HEX'' := None)"
  let ?wal = "\<lparr>w_signing_key = (), w_address = 1, w_below_modern_kdf = None\<rparr>"
  have d: "wd_hex demo_wallet_deps = lower_hex" "cd_wallet demo_deps = demo_wallet_deps"
    by (simp_all add: demo_wallet_deps_def demo_deps_def)
  have "from_hex demo_wallet_deps (hex_encode sample_key) = Inr ?wal"
    by (simp add: from_hex_def Let_def d) (simp add: demo_wallet_deps_def sample_key_def wallet_address_def address_of_point_def)
  then have f: "from_env demo_wallet_deps POOL_KEY_NAMES demo_start_env = (Inr ?wal, ?env)"
    by (simp add: from_env_def POOL_KEY_NAMES_def take_env_secret_def demo_start_env_def demo_env_def)
  have c: "config_from_env lower_hex (\<lambda>_. None) ?env = Inr demo_config"
    by (rule demo_config_from) (simp add: demo_start_env_def)
  have a: "env_address lower_hex ?env ''CITRATE_POOL_CONTRACT'' = Inr 1"
    by (simp add: env_address_def demo_start_env_def demo_eval)
  have t: "try_new ?env ''https://n'' 40204 1 ?wal = Inr (da_adapter demo_daemon)"
    by (simp add: try_new_def validate_outbound_url_def gate_eval demo_daemon_def)
  have s: "verify_rpc_chain_id demo_node (da_adapter demo_daemon) w = (Inr (), w)"
    "starting_block demo_node ?env w = (Inr 5, w)" for w
    by (simp_all add: verify_rpc_chain_id_def check_chain_id_def io_bind_def io_of_def demo_node_answers demo_daemon_def starting_block_def
        latest_block_def demo_start_env_def demo_env_def)
  have v: "verify_address ?wal (cc_wallet_address demo_config) = Inr ()" "cc_rpc_url demo_config = ''https://n''"
    "cc_chain_id demo_config = 40204" by (simp_all add: verify_address_def demo_config_def)
  show ?thesis
    by (simp add: startup_def d f c a t s v)
      (simp add: demo_daemon_def confirmations_buffer_of_def env_or_def demo_start_env_def demo_env_def)
qed

theorem daemon_runs_on_checked_identity_witness:
  "startup demo_node demo_deps (\<lambda>_. None) demo_start_env 0 = (Inr demo_daemon, 0) \<and>
   (\<exists>env w1. validate_outbound_url env (hc_rpc_url (da_adapter demo_daemon)) = Inr () \<and>
     fst (rpc_quantity Chain parse_hex_u64 demo_node ''eth_chainId'' (JArr []) w1) = Inr (cc_chain_id (da_config demo_daemon)))"
  using daemon_runs_on_checked_identity [OF demo_startup] demo_startup by blast

text \<open>With the defaults the first tick that finds a new block asks for the twelve blocks before the starting block too,
  although \<^verbatim>\<open>CITRATE_POOL_FROM_BLOCK\<close> is documented to ignore historical events by default.\<close>

lemma first_tick_rescans:
  assumes "13 < start"
  shows "window_start start 12 = start - 12" "confirmations_buffer_of Map.empty = 12"
  using assms by (auto simp: window_start_def confirmations_buffer_of_def env_or_def max_def word_le_nat_alt
      word_less_nat_alt unat_sub)

end
