(* ===== verification/Chain_Events.thy ===== *)
theory Chain_Events
  imports Json_Rpc
begin

text \<open>
  The events of the training and pipeline contracts, \<^verbatim>\<open>training-worker/src/events.rs\<close>: the raw log, its
  decoder, the filter by job and the classification by the first topic; and how the worker's daemon,
  \<^verbatim>\<open>training-worker/src/bin/main.rs\<close>, takes polled logs in.

  The iteration order of a \<^verbatim>\<open>HashSet\<close> is unspecified: which half of the seen keys an eviction drops is the
  parameter \<open>pick\<close>.
\<close>

section \<open>Logs\<close>

type_synonym log_key = "b256 \<times> u32"

record raw_log =
  rl_address :: address
  rl_topics :: "b256 list"
  rl_data :: bytes
  rl_block_number :: u64
  rl_tx_hash :: b256
  rl_log_index :: u32

definition dedup_key :: "raw_log \<Rightarrow> log_key" where
  "dedup_key entry = (rl_tx_hash entry, rl_log_index entry)"

definition hex_field :: "codec \<Rightarrow> string \<Rightarrow> json \<Rightarrow> bytes option" where
  "hex_field H k entry =
     Option.bind (Option.bind (json_get k entry) json_as_str) (\<lambda>s. hx_decode H (trim_0x s))"

definition quantity_field :: "string \<Rightarrow> json \<Rightarrow> u64" where
  "quantity_field k entry =
     (case Option.bind (Option.bind (json_get k entry) json_as_str) (\<lambda>s. parse_radix 16 (2 ^ 64) (trim_0x s)) of
        Some n \<Rightarrow> of_nat n
      | None \<Rightarrow> 0)"

text \<open>The loop over the topics: each must be a string of 32 bytes.\<close>

fun decode_topics :: "codec \<Rightarrow> json list \<Rightarrow> b256 list option" where
  "decode_topics H [] = Some []"
| "decode_topics H (t # ts) =
     Option.bind (json_as_str t) (\<lambda>s.
     Option.bind (hx_decode H (trim_0x s)) (\<lambda>bs.
       if length bs \<noteq> 32 then None
       else Option.bind (decode_topics H ts) (\<lambda>rest. Some (from_be_bytes bs # rest))))"

definition decode_raw_log :: "codec \<Rightarrow> json \<Rightarrow> raw_log option" where
  "decode_raw_log H entry =
     Option.bind (Option.bind (json_get ''topics'' entry) json_as_array) (\<lambda>topics_raw.
     Option.bind (decode_topics H topics_raw) (\<lambda>topics.
     Some \<lparr>rl_address = (case hex_field H ''address'' entry of
             Some bs \<Rightarrow> if length bs = 20 then from_be_bytes bs else 0 | None \<Rightarrow> 0),
           rl_topics = topics,
           rl_data = (case hex_field H ''data'' entry of Some bs \<Rightarrow> bs | None \<Rightarrow> []),
           rl_block_number = quantity_field ''blockNumber'' entry,
           rl_tx_hash = (case hex_field H ''transactionHash'' entry of
             Some bs \<Rightarrow> if length bs = 32 then from_be_bytes bs else 0 | None \<Rightarrow> 0),
           rl_log_index = ucast (quantity_field ''logIndex'' entry)\<rparr>))"

definition job_id_topic_filter :: "codec \<Rightarrow> u64 \<Rightarrow> json" where
  "job_id_topic_filter H job_id = JArr [JNull, JStr (hex0x H (to_be_bytes (ucast job_id :: u256)))]"

section \<open>Classification\<close>

datatype event_kind =
    TrainingJobOpened | WorkerJoined | RecruitmentClosed | CoordinatorReassigned | EpochCommitted
  | EpochPaymentReleased | ChallengeOpened | ChallengeVoted | ChallengeResolved | WorkerStakeReturned
  | TrainingJobCompleted | TrainingJobAborted
  | PipelineJobCreated | StageAssigned | PipelineJobActivated | PipelineRequestSubmitted | StageServed
  | PipelineRequestCompleted | PipelineRequestFailed | StageFaulted | StageReassigned
  | PipelineJobDraining | PipelineJobTerminated
  | Unknown

fun event_name :: "event_kind \<Rightarrow> string" where
  "event_name TrainingJobOpened = ''TrainingJobOpened''"
| "event_name WorkerJoined = ''WorkerJoined''"
| "event_name RecruitmentClosed = ''RecruitmentClosed''"
| "event_name CoordinatorReassigned = ''CoordinatorReassigned''"
| "event_name EpochCommitted = ''EpochCommitted''"
| "event_name EpochPaymentReleased = ''EpochPaymentReleased''"
| "event_name ChallengeOpened = ''ChallengeOpened''"
| "event_name ChallengeVoted = ''ChallengeVoted''"
| "event_name ChallengeResolved = ''ChallengeResolved''"
| "event_name WorkerStakeReturned = ''WorkerStakeReturned''"
| "event_name TrainingJobCompleted = ''TrainingJobCompleted''"
| "event_name TrainingJobAborted = ''TrainingJobAborted''"
| "event_name PipelineJobCreated = ''PipelineJobCreated''"
| "event_name StageAssigned = ''StageAssigned''"
| "event_name PipelineJobActivated = ''JobActivated''"
| "event_name PipelineRequestSubmitted = ''PipelineRequestSubmitted''"
| "event_name StageServed = ''StageServed''"
| "event_name PipelineRequestCompleted = ''PipelineRequestCompleted''"
| "event_name PipelineRequestFailed = ''PipelineRequestFailed''"
| "event_name StageFaulted = ''StageFaulted''"
| "event_name StageReassigned = ''StageReassigned''"
| "event_name PipelineJobDraining = ''JobDraining''"
| "event_name PipelineJobTerminated = ''JobTerminated''"
| "event_name Unknown = ''Unknown''"

definition candidates :: "(event_kind \<times> string) list" where
  "candidates =
     [(TrainingJobOpened, ''TrainingJobOpened(uint256,address,bytes32,bytes32,uint32,uint32)''),
      (WorkerJoined, ''WorkerJoined(uint256,address,uint128)''),
      (RecruitmentClosed, ''RecruitmentClosed(uint256,uint32,address)''),
      (CoordinatorReassigned, ''CoordinatorReassigned(uint256,address,address,uint128)''),
      (EpochCommitted, ''EpochCommitted(uint256,uint32,bytes32)''),
      (EpochPaymentReleased, ''EpochPaymentReleased(uint256,uint32,address,uint128)''),
      (ChallengeOpened, ''ChallengeOpened(uint256,uint32,uint32,address,address,uint128)''),
      (ChallengeVoted, ''ChallengeVoted(uint256,uint32,uint32,address,address,bool)''),
      (ChallengeResolved, ''ChallengeResolved(uint256,uint32,uint32,address,bool,uint128)''),
      (WorkerStakeReturned, ''WorkerStakeReturned(uint256,address,uint128)''),
      (TrainingJobCompleted, ''TrainingJobCompleted(uint256,bytes32)''),
      (TrainingJobAborted, ''TrainingJobAborted(uint256,string)''),
      (PipelineJobCreated, ''PipelineJobCreated(uint256,address,uint32,bytes32)''),
      (StageAssigned, ''StageAssigned(uint256,uint32,address,uint128)''),
      (PipelineJobActivated, ''JobActivated(uint256)''),
      (PipelineRequestSubmitted, ''PipelineRequestSubmitted(uint256,uint256,address,uint128)''),
      (StageServed, ''StageServed(uint256,uint32,address,uint128)''),
      (PipelineRequestCompleted, ''PipelineRequestCompleted(uint256)''),
      (PipelineRequestFailed, ''PipelineRequestFailed(uint256,uint128)''),
      (StageFaulted, ''StageFaulted(uint256,uint32,address)''),
      (StageReassigned, ''StageReassigned(uint256,uint32,address,address)''),
      (PipelineJobDraining, ''JobDraining(uint256)''),
      (PipelineJobTerminated, ''JobTerminated(uint256)'')]"

fun classify_in :: "(bytes \<Rightarrow> b256) \<Rightarrow> (event_kind \<times> string) list \<Rightarrow> b256 \<Rightarrow> event_kind" where
  "classify_in K [] topic0 = Unknown"
| "classify_in K ((kind, sig) # rest) topic0 =
     (if K (str_bytes sig) = topic0 then kind else classify_in K rest topic0)"

definition classify :: "(bytes \<Rightarrow> b256) \<Rightarrow> b256 \<Rightarrow> event_kind" where
  "classify K topic0 = classify_in K candidates topic0"

section \<open>Polling\<close>

definition poll_params :: "'x chain_deps \<Rightarrow> 'x http_client \<Rightarrow> u64 \<Rightarrow> u64 \<Rightarrow> u64 option \<Rightarrow> json" where
  "poll_params D A from_block to_block job_id_filter =
     JArr [JObj ([(''fromBlock'', JStr (''0x'' @ show_hex (unat from_block))),
                  (''toBlock'', JStr (''0x'' @ show_hex (unat to_block))),
                  (''address'', JStr (hex0x_address D (hc_contract A)))] @
                 (case job_id_filter of
                    Some job \<Rightarrow> [(''topics'', job_id_topic_filter (cd_hex D) job)]
                  | None \<Rightarrow> []))]"

definition poll_logs ::
  "(string \<Rightarrow> 'e) \<Rightarrow> 'w rpc_env \<Rightarrow> 'x chain_deps \<Rightarrow> 'x http_client \<Rightarrow> u64 \<Rightarrow> u64 \<Rightarrow> u64 option \<Rightarrow>
   ('w, 'e, raw_log list) io" where
  "poll_logs err E D A from_block to_block job_id_filter =
     io_bind (json_rpc err E ''eth_getLogs'' (poll_params D A from_block to_block job_id_filter)) (\<lambda>result.
     io_bind (io_of (ok_or (err ''eth_getLogs not array'') (json_as_array result))) (\<lambda>entries.
     io_of (Inr (List.map_filter (decode_raw_log (cd_hex D)) entries))))"

section \<open>The daemon\<close>

definition SEEN_LOGS_CAP :: nat where "SEEN_LOGS_CAP = 10000"

definition evict_half :: "(log_key set \<Rightarrow> nat \<Rightarrow> log_key set) \<Rightarrow> log_key set \<Rightarrow> log_key set" where
  "evict_half pick seen = (if card seen \<ge> SEEN_LOGS_CAP then seen - pick seen (card seen div 2) else seen)"

text \<open>The logs observed, each with its kind, and the keys seen after.\<close>

fun observe_logs ::
  "(bytes \<Rightarrow> b256) \<Rightarrow> raw_log list \<Rightarrow> log_key set \<Rightarrow> (event_kind \<times> raw_log) list \<times> log_key set" where
  "observe_logs K [] seen = ([], seen)"
| "observe_logs K (entry # entries) seen =
     (if dedup_key entry \<in> seen then observe_logs K entries seen
      else
        let kind = (case rl_topics entry of [] \<Rightarrow> Unknown | t # _ \<Rightarrow> classify K t);
            (observed, seen1) = observe_logs K entries (insert (dedup_key entry) seen)
        in ((kind, entry) # observed, seen1))"

definition dispatch_logs ::
  "(log_key set \<Rightarrow> nat \<Rightarrow> log_key set) \<Rightarrow> (bytes \<Rightarrow> b256) \<Rightarrow> raw_log list \<Rightarrow> log_key set \<Rightarrow>
   (event_kind \<times> raw_log) list \<times> log_key set" where
  "dispatch_logs pick K entries seen = observe_logs K entries (evict_half pick seen)"

text \<open>One tick of either loop, over the client's two reads: the last block, the keys seen and what was observed.\<close>

definition worker_tick ::
  "(log_key set \<Rightarrow> nat \<Rightarrow> log_key set) \<Rightarrow> (bytes \<Rightarrow> b256) \<Rightarrow> ('w, 'e, u64) io \<Rightarrow>
   (u64 \<Rightarrow> u64 \<Rightarrow> ('w, 'e, raw_log list) io) \<Rightarrow> u64 \<Rightarrow> u64 \<Rightarrow> log_key set \<Rightarrow> 'w \<Rightarrow>
   ('e + unit) \<times> 'w \<times> u64 \<times> log_key set \<times> (event_kind \<times> raw_log) list" where
  "worker_tick pick K latest_op poll_op buffer last_block seen w =
     (case latest_op w of
        (Inl e, w1) \<Rightarrow> (Inl e, w1, last_block, seen, [])
      | (Inr latest, w1) \<Rightarrow>
          if latest \<le> last_block then (Inr (), w1, last_block, seen, [])
          else
            (case poll_op (max (if last_block < buffer then 0 else last_block - buffer) 1) latest w1 of
               (Inl e, w2) \<Rightarrow> (Inl e, w2, last_block, seen, [])
             | (Inr entries, w2) \<Rightarrow>
                 let (observed, seen1) = dispatch_logs pick K entries seen
                 in (Inr (), w2, latest, seen1, observed)))"

definition worker_starting_block :: "environment \<Rightarrow> u64 \<Rightarrow> u64" where
  "worker_starting_block env latest =
     (case env ''CITRATE_WORKER_FROM_BLOCK'' of
        None \<Rightarrow> latest
      | Some s \<Rightarrow>
          if s = ''latest'' then latest
          else (case parse_uint (2 ^ 64) s of Some n \<Rightarrow> of_nat n | None \<Rightarrow> latest))"

section \<open>What classification says\<close>

lemma classify_in_kind:
  assumes "classify_in K cs t = kind" "kind \<noteq> Unknown"
  shows "\<exists>sig. (kind, sig) \<in> set cs \<and> K (str_bytes sig) = t"
  using assms by (induction cs) (auto split: if_splits)

lemma classify_in_member:
  assumes "(kind, sig) \<in> set cs" "inj_on (\<lambda>s. K (str_bytes s)) (snd ` set cs)" "distinct (map snd cs)"
  shows "classify_in K cs (K (str_bytes sig)) = kind"
  using assms
proof (induction cs)
  case (Cons c cs)
  obtain k s where c: "c = (k, s)" by (cases c)
  show ?case
  proof (cases "K (str_bytes s) = K (str_bytes sig)")
    case True
    with Cons.prems(1,2) have "s = sig" unfolding c by (auto dest: inj_onD intro: rev_image_eqI)
    with Cons.prems(1,3) have "k = kind" unfolding c by (auto simp: image_iff)
    with \<open>s = sig\<close> show ?thesis by (simp add: c)
  next
    case False
    with Cons.prems(1) have "(kind, sig) \<in> set cs" by (auto simp: c)
    with Cons.IH Cons.prems(2,3) False show ?thesis by (simp add: c)
  qed
qed simp

lemma candidates_distinct: "distinct (map snd candidates)"
  by (simp add: candidates_def)

lemma candidates_named: "list_all (\<lambda>(kind, sig). kind \<noteq> Unknown \<and> takeWhile (\<lambda>c. c \<noteq> CHR ''('') sig = event_name kind) candidates"
  by (simp add: candidates_def)

text \<open>Unless two of the event signatures collide under Keccak, a log is classified as a kind exactly if its first topic
  is the hash of that kind's signature, and the name that is reported is the name in the signature.\<close>

theorem classification_is_exact:
  assumes "inj_on (\<lambda>sig. K (str_bytes sig)) (snd ` set candidates)"
  shows "kind \<noteq> Unknown \<and> classify K topic0 = kind \<longleftrightarrow>
    (\<exists>sig. (kind, sig) \<in> set candidates \<and> topic0 = K (str_bytes sig) \<and>
       takeWhile (\<lambda>c. c \<noteq> CHR ''('') sig = event_name kind)"
proof
  assume k: "kind \<noteq> Unknown \<and> classify K topic0 = kind"
  then obtain sig where "(kind, sig) \<in> set candidates" "K (str_bytes sig) = topic0"
    using classify_in_kind [of K candidates topic0 kind] by (auto simp: classify_def)
  moreover from this have "takeWhile (\<lambda>c. c \<noteq> CHR ''('') sig = event_name kind"
    using candidates_named by (auto simp: list_all_iff)
  ultimately show "\<exists>sig. (kind, sig) \<in> set candidates \<and> topic0 = K (str_bytes sig) \<and>
      takeWhile (\<lambda>c. c \<noteq> CHR ''('') sig = event_name kind" by blast
next
  assume "\<exists>sig. (kind, sig) \<in> set candidates \<and> topic0 = K (str_bytes sig) \<and>
      takeWhile (\<lambda>c. c \<noteq> CHR ''('') sig = event_name kind"
  then obtain sig where sig: "(kind, sig) \<in> set candidates" "topic0 = K (str_bytes sig)" by blast
  then have "kind \<noteq> Unknown" using candidates_named by (auto simp: list_all_iff)
  with sig show "kind \<noteq> Unknown \<and> classify K topic0 = kind"
    using classify_in_member [OF sig(1) assms candidates_distinct] by (simp add: classify_def)
qed

text \<open>A hash that numbers the signatures.\<close>

definition numbering :: "bytes \<Rightarrow> b256" where
  "numbering bs = of_nat (length (takeWhile (\<lambda>s. str_bytes s \<noteq> bs) (map snd candidates)))"

lemma takeWhile_index:
  assumes "s \<in> set xs"
  shows "length (takeWhile (\<lambda>t. f t \<noteq> f s) xs) < length xs \<and> f (xs ! length (takeWhile (\<lambda>t. f t \<noteq> f s) xs)) = f s"
  using assms by (induction xs) auto

lemma numbering_inj: "inj_on (\<lambda>sig. numbering (str_bytes sig)) (snd ` set candidates)"
proof (rule inj_onI)
  define xs where "xs = map snd candidates"
  let ?i = "\<lambda>s. length (takeWhile (\<lambda>t. str_bytes t \<noteq> str_bytes s) xs)"
  have n: "length xs = 23" by (simp add: xs_def candidates_def)
  fix s t
  assume "s \<in> snd ` set candidates" "t \<in> snd ` set candidates"
    and eq: "numbering (str_bytes s) = numbering (str_bytes t)"
  then have "s \<in> set xs" "t \<in> set xs" by (simp_all add: xs_def)
  note ix = takeWhile_index [OF this(1), of str_bytes] takeWhile_index [OF this(2), of str_bytes]
  from eq have "(of_nat (?i s) :: b256) = of_nat (?i t)" by (simp only: numbering_def xs_def)
  then have "unat (of_nat (?i s) :: b256) = unat (of_nat (?i t) :: b256)" by (rule arg_cong)
  moreover have "?i s < 2 ^ 256" "?i t < 2 ^ 256" using ix n by simp_all
  ultimately have "?i s = ?i t" by (simp only: unat_of_nat len_of_numeral_defs) (simp add: take_bit_nat_eq_self)
  then show "s = t" using ix by (metis str_bytes_inject)
qed

theorem classification_is_exact_witness:
  "classify numbering (numbering (str_bytes ''JobDraining(uint256)'')) = PipelineJobDraining"
  using classification_is_exact [OF numbering_inj, of PipelineJobDraining "numbering (str_bytes ''JobDraining(uint256)'')"]
  by (auto simp: candidates_def)

section \<open>Deduplication\<close>

text \<open>C0: Within a batch of logs each transaction and log index is observed at most once and only if it was not seen
  before; every log of the batch is seen afterwards.\<close>

lemma observe_logs_spec:
  "distinct (map (dedup_key \<circ> snd) (fst (observe_logs K entries seen))) \<and>
   (dedup_key \<circ> snd) ` set (fst (observe_logs K entries seen)) = dedup_key ` set entries - seen \<and>
   snd (observe_logs K entries seen) = seen \<union> dedup_key ` set entries"
proof (induction entries arbitrary: seen)
  case Nil
  then show ?case by simp
next
  case (Cons e es)
  show ?case
  proof (cases "dedup_key e \<in> seen")
    case True
    with Cons [of seen] show ?thesis by auto
  next
    case False
    with Cons [of "insert (dedup_key e) seen"] show ?thesis
      by (auto simp: Let_def case_prod_unfold image_iff)
  qed
qed

text \<open>The eviction drops whatever half the set's iteration yields first: a key taken in by the very last tick may go,
  and its log is then observed again.\<close>

lemma recent_log_observed_again:
  assumes "card seen = SEEN_LOGS_CAP" "dedup_key entry \<in> seen" "dedup_key entry \<in> pick seen 5000"
  shows "snd ` set (fst (dispatch_logs pick K [entry] seen)) = {entry}"
  using assms by (simp add: dispatch_logs_def evict_half_def SEEN_LOGS_CAP_def Let_def)

text \<open>Logs without a readable transaction hash and index all have the same key.\<close>

lemma malformed_logs_share_a_key:
  assumes "decode_raw_log H entry = Some l"
    "hex_field H ''transactionHash'' entry = None" "json_get ''logIndex'' entry = None"
  shows "dedup_key l = (0, 0)"
  using assms by (auto simp: decode_raw_log_def dedup_key_def quantity_field_def bind_eq_Some_conv)

end
