(* ===== verification/Training_Http.thy ===== *)
theory Training_Http
  imports Training_Worker Chain_Events
begin

text \<open>
  The live client of the training contract, \<^verbatim>\<open>training-worker/src/http_chain_training.rs\<close>, as an instance
  of \<open>Json_Rpc\<close>: the decoding of a job, the writes, the polls, and the operations it does not implement.  The
  worker of \<open>Training_Worker\<close> over this client never gets as far as its first step.
\<close>

definition TRAINING_WRITE_GAS_LIMIT :: u64 where "TRAINING_WRITE_GAS_LIMIT = 3000000"

section \<open>Words\<close>

definition word_at :: "bytes \<Rightarrow> nat \<Rightarrow> bytes" where
  "word_at ret i = take 32 (drop i ret)"

definition u32_from_word :: "(string \<Rightarrow> 'e) \<Rightarrow> bytes \<Rightarrow> 'e + u32" where
  "u32_from_word err w =
     (if length w \<noteq> 32 then Inl (err ''u32 word length'')
      else
        let v = (from_be_bytes w :: u256)
        in if v > ucast (- 1 :: u32) then Inl (err ''u32 value out of range'') else Inr (ucast v))"

definition u128_from_word :: "(string \<Rightarrow> 'e) \<Rightarrow> bytes \<Rightarrow> 'e + u128" where
  "u128_from_word err w =
     (if length w \<noteq> 32 then Inl (err ''u128 word length'')
      else
        let v = (from_be_bytes w :: u256)
        in if v > ucast (- 1 :: u128) then Inl (err ''u128 value out of range'') else Inr (ucast v))"

definition job_state_from_byte :: "u8 \<Rightarrow> chain_error + job_chain_state" where
  "job_state_from_byte b =
     (if b = 0 then Inr Recruiting else if b = 1 then Inr Training else if b = 2 then Inr Awaiting
      else if b = 3 then Inr Finalized else if b = 4 then Inr Aborted
      else Inl (WrongState ''unknown JobState discriminant''))"

text \<open>A return of at least 17 words; what follows them is not looked at.\<close>

definition decode_job_snapshot :: "bytes \<Rightarrow> chain_error + job_chain_snapshot" where
  "decode_job_snapshot ret =
     (if length ret < 544 then Inl (WrongState ''getJob return too short'')
      else if list_all (\<lambda>b. b = 0) (word_at ret 0) then Inl (chain_error.UnknownJob 0)
      else
        bind_ok (u32_from_word WrongState (word_at ret 96)) (\<lambda>epoch_count.
        bind_ok (u32_from_word WrongState (word_at ret 128)) (\<lambda>steps_per_epoch.
        bind_ok (u32_from_word WrongState (word_at ret 160)) (\<lambda>min_workers.
        bind_ok (u32_from_word WrongState (word_at ret 192)) (\<lambda>max_workers.
        bind_ok (u32_from_word WrongState (word_at ret 224)) (\<lambda>challenge_window_blocks.
        bind_ok (u128_from_word WrongState (word_at ret 256)) (\<lambda>per_epoch_budget.
        bind_ok (u128_from_word WrongState (word_at ret 288)) (\<lambda>per_worker_stake.
        bind_ok (job_state_from_byte (ret ! 383)) (\<lambda>state.
        bind_ok (u32_from_word WrongState (word_at ret 384)) (\<lambda>current_epoch.
        let coordinator_addr = (from_be_bytes (drop 12 (word_at ret 512)) :: address) in
        Inr \<lparr>js_spec = \<lparr>ts_model_start_hash = from_be_bytes (word_at ret 32),
               ts_dataset_hash = from_be_bytes (word_at ret 64),
               ts_epoch_count = epoch_count, ts_steps_per_epoch = steps_per_epoch,
               ts_min_workers = min_workers, ts_max_workers = max_workers,
               ts_challenge_window_blocks = challenge_window_blocks,
               ts_per_epoch_budget = per_epoch_budget, ts_per_worker_stake = per_worker_stake\<rparr>,
             js_state = state, js_current_epoch = current_epoch,
             js_coordinator = (if coordinator_addr = 0 then None else Some coordinator_addr),
             js_workers = [], js_epoch_roots = Map.empty\<rparr>))))))))))"

section \<open>Reads\<close>

definition training_verify_chain_id :: "'w rpc_env \<Rightarrow> 'x http_client \<Rightarrow> ('w, chain_error, unit) io" where
  "training_verify_chain_id E A = check_chain_id WrongState E A"

definition training_latest_block :: "'w rpc_env \<Rightarrow> ('w, chain_error, u64) io" where
  "training_latest_block E = rpc_quantity WrongState parse_hex_u64 E ''eth_blockNumber'' (JArr [])"

definition training_poll ::
  "'w rpc_env \<Rightarrow> 'x chain_deps \<Rightarrow> 'x http_client \<Rightarrow> u64 \<Rightarrow> u64 \<Rightarrow> u64 option \<Rightarrow> ('w, chain_error, raw_log list) io" where
  "training_poll E D A from_block to_block job_id_filter = poll_logs WrongState E D A from_block to_block job_id_filter"

definition http_snapshot ::
  "'w rpc_env \<Rightarrow> 'x chain_deps \<Rightarrow> 'x http_client \<Rightarrow> u64 \<Rightarrow> ('w, chain_error, job_chain_snapshot) io" where
  "http_snapshot E D A job_id =
     io_bind (call_contract WrongState E D A (selector (cd_keccak D) ''getJob(uint256)'' @ u256_word (ucast job_id)))
       (\<lambda>ret. io_of (decode_job_snapshot ret))"

section \<open>Writes\<close>

text \<open>The sender is the client's wallet; the senders the trait passes are ignored.\<close>

definition training_send ::
  "'w rpc_env \<Rightarrow> 'x chain_deps \<Rightarrow> 'x http_client \<Rightarrow> bytes \<Rightarrow> u256 \<Rightarrow> ('w, chain_error, unit) pio" where
  "training_send E D A calldata val =
     pio_bind (write_contract WrongState (WrongState ''sign'') TRAINING_WRITE_GAS_LIMIT E D A calldata val)
       (\<lambda>_. pio_of (io_of (Inr ())))"

definition join_calldata :: "(bytes \<Rightarrow> b256) \<Rightarrow> u64 \<Rightarrow> bytes" where
  "join_calldata K job_id = selector K ''joinTrainingJob(uint256)'' @ u256_word (ucast job_id)"

definition http_join_training_job ::
  "'w rpc_env \<Rightarrow> 'x chain_deps \<Rightarrow> 'x http_client \<Rightarrow> u64 \<Rightarrow> address \<Rightarrow> u128 \<Rightarrow> ('w, chain_error, unit) pio" where
  "http_join_training_job E D A job_id sender stake =
     training_send E D A (join_calldata (cd_keccak D) job_id) (ucast stake)"

definition http_close_recruitment ::
  "'w rpc_env \<Rightarrow> 'x chain_deps \<Rightarrow> 'x http_client \<Rightarrow> u64 \<Rightarrow> address \<Rightarrow> ('w, chain_error, unit) pio" where
  "http_close_recruitment E D A job_id coordinator =
     training_send E D A (selector (cd_keccak D) ''closeRecruitment(uint256,address)'' @
       u256_word (ucast job_id) @ pad_address_left coordinator) 0"

definition commit_calldata :: "(bytes \<Rightarrow> b256) \<Rightarrow> u64 \<Rightarrow> u32 \<Rightarrow> b256 \<Rightarrow> bytes" where
  "commit_calldata K job_id epoch epoch_root =
     selector K ''commitEpoch(uint256,uint32,bytes32)'' @ u256_word (ucast job_id) @ u256_word (ucast epoch) @
     to_be_bytes epoch_root"

definition http_commit_epoch ::
  "'w rpc_env \<Rightarrow> 'x chain_deps \<Rightarrow> 'x http_client \<Rightarrow> u64 \<Rightarrow> address \<Rightarrow> u32 \<Rightarrow> b256 \<Rightarrow> ('w, chain_error, unit) pio" where
  "http_commit_epoch E D A job_id sender epoch epoch_root =
     training_send E D A (commit_calldata (cd_keccak D) job_id epoch epoch_root) 0"

definition http_advance_blocks :: "u64 \<Rightarrow> 'w \<Rightarrow> 'w" where
  "http_advance_blocks n w = w"

definition http_finalize ::
  "'w rpc_env \<Rightarrow> 'x chain_deps \<Rightarrow> 'x http_client \<Rightarrow> u64 \<Rightarrow> ('w, chain_error, unit) pio" where
  "http_finalize E D A job_id =
     training_send E D A (selector (cd_keccak D) ''finalizeTrainingJob(uint256)'' @ u256_word (ucast job_id)) 0"

definition http_reassign_coordinator ::
  "'w rpc_env \<Rightarrow> 'x chain_deps \<Rightarrow> 'x http_client \<Rightarrow> u64 \<Rightarrow> address \<Rightarrow> address \<Rightarrow> ('w, chain_error, unit) pio" where
  "http_reassign_coordinator E D A job_id caller new_coordinator =
     training_send E D A (selector (cd_keccak D) ''reassignCoordinator(uint256,address)'' @
       u256_word (ucast job_id) @ pad_address_left new_coordinator) 0"

definition http_expire_stalled_training ::
  "'w rpc_env \<Rightarrow> 'x chain_deps \<Rightarrow> 'x http_client \<Rightarrow> u64 \<Rightarrow> address \<Rightarrow> ('w, chain_error, unit) pio" where
  "http_expire_stalled_training E D A job_id caller =
     training_send E D A (selector (cd_keccak D) ''expireStalledTraining(uint256)'' @ u256_word (ucast job_id)) 0"

definition http_challenge_step :: "'w \<Rightarrow> (chain_error + unit) \<times> 'w" where
  "http_challenge_step w = (Inl (WrongState ''challenge_step not implemented on HttpChainClient (S1.5)''), w)"

definition http_vote_challenge :: "'w \<Rightarrow> (chain_error + unit) \<times> 'w" where
  "http_vote_challenge w = (Inl (WrongState ''vote_challenge not implemented on HttpChainClient (S1.5)''), w)"

section \<open>Decoding a job\<close>

text \<open>The seventeen words the contract returns.\<close>

fun job_state_byte :: "job_chain_state \<Rightarrow> u8" where
  "job_state_byte Recruiting = 0"
| "job_state_byte Training = 1"
| "job_state_byte Awaiting = 2"
| "job_state_byte Finalized = 3"
| "job_state_byte Aborted = 4"

definition u32_word :: "u32 \<Rightarrow> bytes" where "u32_word v = u256_word (ucast v)"
definition u128_word :: "u128 \<Rightarrow> bytes" where "u128_word v = u256_word (ucast v)"

record job_rest =
  jr_escrow :: bytes
  jr_worker_count :: bytes
  jr_committed_block :: bytes
  jr_activity_block :: bytes

definition abi_job ::
  "address \<Rightarrow> training_job_spec \<Rightarrow> job_chain_state \<Rightarrow> u32 \<Rightarrow> address \<Rightarrow> job_rest \<Rightarrow> bytes" where
  "abi_job requester spec state epoch coordinator unread =
     pad_address_left requester @ to_be_bytes (ts_model_start_hash spec) @ to_be_bytes (ts_dataset_hash spec) @
     u32_word (ts_epoch_count spec) @ u32_word (ts_steps_per_epoch spec) @ u32_word (ts_min_workers spec) @
     u32_word (ts_max_workers spec) @ u32_word (ts_challenge_window_blocks spec) @
     u128_word (ts_per_epoch_budget spec) @ u128_word (ts_per_worker_stake spec) @ jr_escrow unread @
     u256_word (ucast (job_state_byte state)) @ u32_word epoch @ jr_worker_count unread @
     jr_committed_block unread @ jr_activity_block unread @ pad_address_left coordinator"

lemma length_words [simp]: "length (u32_word v) = 32" "length (u128_word b) = 32"
  by (simp_all add: u32_word_def u128_word_def)

lemma from_be_u256_word [simp]: "(from_be_bytes (u256_word v) :: u256) = v"
  by (simp add: u256_word_def from_to_be_bytes)

lemma u32_from_u32_word [simp]: "u32_from_word err (u32_word v) = Inr v"
proof -
  have "(ucast (ucast v :: u256) :: u32) = v" by transfer (simp add: min_def)
  then show ?thesis
    using as_u32_ucast(1) [of v] by (simp add: u32_from_word_def Let_def) (simp add: u32_word_def)
qed

lemma u128_from_u128_word [simp]: "u128_from_word err (u128_word v) = Inr v"
proof -
  have up: "unat (ucast w :: u256) = unat w" for w :: u128
  proof -
    have "unat w < 2 ^ 128" using unsigned_less [of w, where ?'a = nat] by simp
    then show ?thesis by (simp add: unsigned_ucast_eq take_bit_nat_eq_self)
  qed
  have "unat v \<le> unat (- 1 :: u128)"
    using unsigned_less [of v, where ?'a = nat] by (simp add: unat_max_word)
  then have "\<not> (ucast v :: u256) > ucast (- 1 :: u128)" unfolding word_less_nat_alt up by simp
  moreover have "(ucast (ucast v :: u256) :: u128) = v" by transfer (simp add: min_def)
  ultimately show ?thesis by (simp add: u128_from_word_def Let_def) (simp add: u128_word_def)
qed

lemma word_at_next [simp]: "length w = 32 \<Longrightarrow> word_at (w @ r) 0 = w"
  "length w = 32 \<Longrightarrow> 32 \<le> n \<Longrightarrow> word_at (w @ r) n = word_at r (n - 32)"
  by (simp_all add: word_at_def)

lemma drop_padded_address [simp]: "drop 12 (pad_address_left a) = to_be_bytes a"
  by (simp add: pad_address_left_def)

lemma job_state_from_state_byte [simp]: "job_state_from_byte (job_state_byte s) = Inr s"
  by (cases s) (simp_all add: job_state_from_byte_def)

lemma last_byte_of_word: "u256_word (ucast (b :: u8)) ! 31 = b"
proof -
  have "unat (ucast b :: u256) = unat b"
    using unsigned_less [of b, where ?'a = nat] by (simp add: unsigned_ucast_eq take_bit_nat_eq_self)
  moreover have "le_digits 32 x = of_nat x # le_digits 31 (x div 256)" for x
    using le_digits.simps(2) [of 31 x] by simp
  ultimately show ?thesis
    by (simp add: u256_word_def to_be_bytes_def to_le_bytes_def nth_append)
qed

lemma zero_address_bytes: "to_be_bytes (0 :: address) = replicate 20 0"
proof -
  have "le_digits n 0 = replicate n 0" for n by (induction n) simp_all
  then show ?thesis by (simp add: to_be_bytes_def to_le_bytes_def)
qed

lemma address_word_zero: "list_all (\<lambda>b. b = 0) (pad_address_left a) \<longleftrightarrow> a = 0"
proof
  assume "list_all (\<lambda>b. b = 0) (pad_address_left a)"
  then have "to_be_bytes a = replicate 20 0"
    by (auto simp: pad_address_left_def list_all_iff intro!: nth_equalityI)
  also have "\<dots> = to_be_bytes (0 :: address)" by (rule zero_address_bytes [symmetric])
  finally show "a = 0" by (metis from_to_be_word(4))
qed (auto simp: pad_address_left_def zero_address_bytes list_all_iff)

lemma byte_of_word_at: "352 + 32 \<le> length r \<Longrightarrow> r ! 383 = word_at r 352 ! 31"
  by (simp add: word_at_def)

text \<open>What the contract returns for a job is read back field by field, whatever stands in the words that are skipped
  and after the last; a job without requester is unknown.  The workers and the committed roots are not read: the
  snapshot of every job has none.\<close>

theorem job_snapshot_reads_back:
  assumes "length (jr_escrow unread) = 32" "length (jr_worker_count unread) = 32"
    "length (jr_committed_block unread) = 32" "length (jr_activity_block unread) = 32"
  shows "decode_job_snapshot (abi_job requester spec state epoch coordinator unread @ rest) =
    (if requester = 0 then Inl (chain_error.UnknownJob 0)
     else Inr \<lparr>js_spec = spec, js_state = state, js_current_epoch = epoch,
            js_coordinator = (if coordinator = 0 then None else Some coordinator),
            js_workers = [], js_epoch_roots = Map.empty\<rparr>)"
proof -
  let ?ret = "abi_job requester spec state epoch coordinator unread @ rest"
  have len: "\<not> length ?ret < 544" using assms by (simp add: abi_job_def)
  have words: "word_at ?ret 0 = pad_address_left requester" "word_at ?ret 32 = to_be_bytes (ts_model_start_hash spec)"
    "word_at ?ret 64 = to_be_bytes (ts_dataset_hash spec)" "word_at ?ret 96 = u32_word (ts_epoch_count spec)"
    "word_at ?ret 128 = u32_word (ts_steps_per_epoch spec)" "word_at ?ret 160 = u32_word (ts_min_workers spec)"
    "word_at ?ret 192 = u32_word (ts_max_workers spec)" "word_at ?ret 224 = u32_word (ts_challenge_window_blocks spec)"
    "word_at ?ret 256 = u128_word (ts_per_epoch_budget spec)" "word_at ?ret 288 = u128_word (ts_per_worker_stake spec)"
    "word_at ?ret 352 = u256_word (ucast (job_state_byte state))"
    "word_at ?ret 384 = u32_word epoch" "word_at ?ret 512 = pad_address_left coordinator"
    using assms by (simp_all add: abi_job_def)
  have "?ret ! 383 = word_at ?ret 352 ! 31" using len by (intro byte_of_word_at) simp
  then have "?ret ! 383 = job_state_byte state" by (simp add: words last_byte_of_word)
  then show ?thesis
    unfolding decode_job_snapshot_def words using len by (simp add: address_word_zero Let_def)
qed

definition demo_spec :: training_job_spec where
  "demo_spec = \<lparr>ts_model_start_hash = 1, ts_dataset_hash = 2, ts_epoch_count = 3, ts_steps_per_epoch = 4,
     ts_min_workers = 1, ts_max_workers = 8, ts_challenge_window_blocks = 100, ts_per_epoch_budget = 5,
     ts_per_worker_stake = 6\<rparr>"

definition demo_unread :: job_rest where
  "demo_unread = \<lparr>jr_escrow = replicate 32 9, jr_worker_count = replicate 32 0,
     jr_committed_block = replicate 32 0, jr_activity_block = replicate 32 1\<rparr>"

theorem job_snapshot_reads_back_witness:
  "decode_job_snapshot (abi_job 7 demo_spec Training 2 0 demo_unread @ [0]) =
    Inr \<lparr>js_spec = demo_spec, js_state = Training, js_current_epoch = 2, js_coordinator = None,
         js_workers = [], js_epoch_roots = Map.empty\<rparr>"
  using job_snapshot_reads_back [of demo_unread 7 demo_spec Training 2 0 "[0]"] by (simp add: demo_unread_def)

section \<open>The worker on a live chain\<close>

text \<open>A worker whose client settles real payments stops before its first step, whatever its backend, its transport and
  the node: with a placeholder backend at once, otherwise with the first snapshot, which names no workers.  It loads no
  weights, broadcasts nothing and commits no epoch.\<close>

theorem live_worker_stops_before_training:
  "worker_run K (env\<lparr>we_is_live_settlement := True, we_snapshot := http_snapshot E D A\<rparr>) C w =
    (if \<not> we_honors_job_spec env then Some (Inl (PlaceholderBackend (wc_job_id C)), w)
     else
       let (snap, w1) = http_snapshot E D A (wc_job_id C) w
       in Some (Inl (case snap of Inl e \<Rightarrow> ChainFailed e | Inr _ \<Rightarrow> EmptySnapshot (wc_job_id C)), w1))"
proof -
  have "js_workers snap = []" if "decode_job_snapshot ret = Inr snap" for ret snap
    using that by (auto simp: decode_job_snapshot_def Let_def sum_simps split: if_splits)
  then have "js_workers snap = []" if "http_snapshot E D A job w = (Inr snap, w1)" for job snap w1
    using that by (auto simp: http_snapshot_def io_bind_def io_of_def split: prod.splits sum.splits)
  then show ?thesis
    by (auto simp: worker_run_def try_op_def Let_def split: prod.split sum.split)
qed

section \<open>Writes\<close>

lemma u256_word_inject: "u256_word a = u256_word b \<longleftrightarrow> a = b"
  by (metis from_be_u256_word)

text \<open>The calldata of a commit binds the job, the epoch and the root.\<close>

lemma commit_calldata_binds:
  "commit_calldata K job epoch r = commit_calldata K job2 epoch2 r2 \<longleftrightarrow> job = job2 \<and> epoch = epoch2 \<and> r = r2"
proof
  assume eq: "commit_calldata K job epoch r = commit_calldata K job2 epoch2 r2"
  then have "u256_word (ucast job) @ u256_word (ucast epoch) @ to_be_bytes r =
      u256_word (ucast job2) @ u256_word (ucast epoch2) @ to_be_bytes r2"
    by (simp add: commit_calldata_def)
  then have "(ucast job :: u256) = ucast job2" "(ucast epoch :: u256) = ucast epoch2" "to_be_bytes r = to_be_bytes r2"
    by (simp_all add: u256_word_inject)
  moreover from this have "(ucast (ucast job :: u256) :: u64) = ucast (ucast job2 :: u256)"
    "(ucast (ucast epoch :: u256) :: u32) = ucast (ucast epoch2 :: u256)" by simp_all
  moreover have "(ucast (ucast j :: u256) :: u64) = j" for j :: u64 by transfer (simp add: min_def)
  moreover have "(ucast (ucast e :: u256) :: u32) = e" for e :: u32 by transfer (simp add: min_def)
  ultimately show "job = job2 \<and> epoch = epoch2 \<and> r = r2" by (metis from_to_be_word(5))
qed simp

lemma returns_training_send [returning]: "steady_clock E \<Longrightarrow> returns (training_send E D A calldata val)"
  unfolding training_send_def by (intro returning)

lemma live_writes_return:
  assumes "steady_clock E"
  shows "returns (http_join_training_job E D A job sender stake)" "returns (http_close_recruitment E D A job coordinator)"
    "returns (http_commit_epoch E D A job sender epoch r)" "returns (http_finalize E D A job)"
    "returns (http_reassign_coordinator E D A job caller coordinator)" "returns (http_expire_stalled_training E D A job caller)"
  using assms by (simp_all add: http_join_training_job_def http_close_recruitment_def http_commit_epoch_def
      http_finalize_def http_reassign_coordinator_def http_expire_stalled_training_def returning)

text \<open>A commit whose receipt has not come within the thirty seconds is reported as a success.\<close>

lemma unmined_commit_succeeds:
  assumes "write_contract WrongState (WrongState ''sign'') TRAINING_WRITE_GAS_LIMIT E D A
    (commit_calldata (cd_keccak D) job epoch r) 0 w = Some (Inr (tx_hash, None), w1)"
  shows "http_commit_epoch E D A job sender epoch r w = Some (Inr (), w1)"
  using assms by (simp add: http_commit_epoch_def training_send_def pio_bind_def pio_of_def io_of_def)

end
