(* ===== verification/Pipeline_Http.thy ===== *)
theory Pipeline_Http
  imports Pipeline Training_Http
begin

text \<open>
  The live client of the pipeline contract, \<^verbatim>\<open>training-worker/src/http_chain_pipeline.rs\<close>, as an instance of
  \<open>Json_Rpc\<close>, and the worker's daemon over either client, \<^verbatim>\<open>training-worker/src/bin/main.rs\<close>.
\<close>

section \<open>The client\<close>

definition PIPELINE_WRITE_GAS_LIMIT :: u64 where "PIPELINE_WRITE_GAS_LIMIT = 500000"

text \<open>The contract's \<^verbatim>\<open>Created\<close> and \<^verbatim>\<open>InFlight\<close> are one state here.\<close>

definition request_state_from_byte :: "u8 \<Rightarrow> pipeline_chain_error + pipeline_request_state" where
  "request_state_from_byte b =
     (if b = 0 \<or> b = 1 then Inr InFlight else if b = 2 then Inr Completed else if b = 3 then Inr Failed
      else Inl (PipelineWrongState ''unknown RequestState discriminant''))"

definition decode_request :: "u64 \<Rightarrow> bytes \<Rightarrow> pipeline_chain_error + pipeline_request_snapshot" where
  "decode_request request_id ret =
     (if length ret < 160 then Inl (PipelineWrongState ''requests return too short'')
      else
        let job_id_u256 = (from_be_bytes (word_at ret 0) :: u256);
            requester = (from_be_bytes (drop 12 (word_at ret 32)) :: address)
        in if requester = 0 \<and> job_id_u256 = 0 then Inl (UnknownRequest request_id)
           else if job_id_u256 > ucast (- 1 :: u64) then Inl (PipelineWrongState ''jobId out of u64 range'')
           else
             bind_ok (u32_from_word PipelineWrongState (word_at ret 64)) (\<lambda>progress.
             bind_ok (request_state_from_byte (ret ! 127)) (\<lambda>state.
             Inr \<lparr>pq_request_id = request_id, pq_job_id = ucast job_id_u256, pq_requester = requester,
                  pq_progress = progress, pq_state = state\<rparr>)))"

definition http_request_snapshot ::
  "'w rpc_env \<Rightarrow> 'x chain_deps \<Rightarrow> 'x http_client \<Rightarrow> u64 \<Rightarrow> ('w, pipeline_chain_error, pipeline_request_snapshot) io" where
  "http_request_snapshot E D A request_id =
     io_bind (call_contract PipelineWrongState E D A
       (selector (cd_keccak D) ''requests(uint256)'' @ u256_word (ucast request_id)))
       (\<lambda>ret. io_of (decode_request request_id ret))"

definition decode_owner :: "bytes \<Rightarrow> pipeline_chain_error + address option" where
  "decode_owner ret =
     (if length ret < 32 then Inl (PipelineWrongState ''getStageOwner return too short'')
      else
        let owner = (from_be_bytes (drop 12 (word_at ret 0)) :: address)
        in Inr (if owner = 0 then None else Some owner))"

definition http_stage_owner ::
  "'w rpc_env \<Rightarrow> 'x chain_deps \<Rightarrow> 'x http_client \<Rightarrow> u64 \<Rightarrow> u32 \<Rightarrow> ('w, pipeline_chain_error, address option) io" where
  "http_stage_owner E D A job_id stage =
     io_bind (call_contract PipelineWrongState E D A
       (selector (cd_keccak D) ''getStageOwner(uint256,uint32)'' @ u256_word (ucast job_id) @ u256_word (ucast stage)))
       (\<lambda>ret. io_of (decode_owner ret))"

text \<open>The write, then a read of the state it led to.\<close>

definition http_advance_request ::
  "'w rpc_env \<Rightarrow> 'x chain_deps \<Rightarrow> 'x http_client \<Rightarrow> u64 \<Rightarrow> address \<Rightarrow> ('w, pipeline_chain_error, pipeline_request_state) pio" where
  "http_advance_request E D A request_id caller =
     pio_bind (write_contract PipelineWrongState (PipelineWrongState ''sign'') PIPELINE_WRITE_GAS_LIMIT E D A
       (selector (cd_keccak D) ''advanceRequest(uint256)'' @ u256_word (ucast request_id)) 0) (\<lambda>_.
     pio_bind (pio_of (http_request_snapshot E D A request_id)) (\<lambda>snap.
     pio_of (io_of (Inr (pq_state snap)))))"

definition strict_quantity :: "string \<Rightarrow> u64 option" where
  "strict_quantity s = map_option of_nat (parse_radix 16 (2 ^ 64) (trim_0x s))"

definition pipeline_latest_block :: "'w rpc_env \<Rightarrow> ('w, pipeline_chain_error, u64) io" where
  "pipeline_latest_block E = rpc_quantity PipelineWrongState strict_quantity E ''eth_blockNumber'' (JArr [])"

definition pipeline_poll ::
  "'w rpc_env \<Rightarrow> 'x chain_deps \<Rightarrow> 'x http_client \<Rightarrow> u64 \<Rightarrow> u64 \<Rightarrow> u64 option \<Rightarrow>
   ('w, pipeline_chain_error, raw_log list) io" where
  "pipeline_poll E D A from_block to_block job_id_filter =
     poll_logs PipelineWrongState E D A from_block to_block job_id_filter"

section \<open>Decoding a request\<close>

fun request_state_byte :: "pipeline_request_state \<Rightarrow> u8" where
  "request_state_byte InFlight = 1"
| "request_state_byte Completed = 2"
| "request_state_byte Failed = 3"

definition abi_request :: "u256 \<Rightarrow> address \<Rightarrow> u32 \<Rightarrow> u8 \<Rightarrow> bytes \<Rightarrow> bytes" where
  "abi_request job requester progress state escrow =
     u256_word job @ pad_address_left requester @ u32_word progress @ u256_word (ucast state) @ escrow"

lemma byte_127: "128 \<le> length r \<Longrightarrow> r ! 127 = word_at r 96 ! 31"
  by (simp add: word_at_def)

text \<open>What the contract returns for a request is read back field by field; a request without job and requester is
  unknown, a job beyond 64 bits and a state beyond \<^verbatim>\<open>Failed\<close> are refused, and a request that was created but not
  started reads as in flight.\<close>

theorem request_snapshot_reads_back:
  assumes "length escrow = 32"
  shows "decode_request rid (abi_request job requester progress state escrow @ rest) =
    (if requester = 0 \<and> job = 0 then Inl (UnknownRequest rid)
     else if job > ucast (- 1 :: u64) then Inl (PipelineWrongState ''jobId out of u64 range'')
     else if state > 3 then Inl (PipelineWrongState ''unknown RequestState discriminant'')
     else Inr \<lparr>pq_request_id = rid, pq_job_id = ucast job, pq_requester = requester, pq_progress = progress,
            pq_state = (if state = 3 then Failed else if state = 2 then Completed else InFlight)\<rparr>)"
proof -
  let ?ret = "abi_request job requester progress state escrow @ rest"
  have len: "160 \<le> length ?ret" using assms by (simp add: abi_request_def)
  have words: "word_at ?ret 0 = u256_word job" "word_at ?ret 32 = pad_address_left requester"
    "word_at ?ret 64 = u32_word progress" "word_at ?ret 96 = u256_word (ucast state)"
    using assms by (simp_all add: abi_request_def)
  have "?ret ! 127 = state" using len words(4) by (simp add: byte_127 last_byte_of_word)
  moreover have "request_state_from_byte state =
      (if state > 3 then Inl (PipelineWrongState ''unknown RequestState discriminant'')
       else Inr (if state = 3 then Failed else if state = 2 then Completed else InFlight))"
  proof (cases "state > 3")
    case True
    then have "state \<notin> {0, 1, 2, 3}" by auto
    with True show ?thesis by (simp add: request_state_from_byte_def)
  next
    case False
    then have "unat state \<le> 3" by (simp add: word_less_nat_alt not_less)
    then have "unat state = 0 \<or> unat state = 1 \<or> unat state = 2 \<or> unat state = 3" by auto
    then have "unat state = unat (0 :: u8) \<or> unat state = unat (1 :: u8) \<or> unat state = unat (2 :: u8) \<or>
        unat state = unat (3 :: u8)" by simp
    then have "state \<in> {0, 1, 2, 3}" by (simp only: word_unat_eq_iff [symmetric]) blast
    then show ?thesis by (auto simp: request_state_from_byte_def)
  qed
  ultimately show ?thesis
    unfolding decode_request_def words using len by (simp add: Let_def)
qed

theorem request_snapshot_reads_back_witness:
  "decode_request 9 (abi_request 4 7 2 0 (replicate 32 1) @ []) =
     Inr \<lparr>pq_request_id = 9, pq_job_id = 4, pq_requester = 7, pq_progress = 2, pq_state = InFlight\<rparr>"
  using request_snapshot_reads_back [of "replicate 32 1" 9 4 7 2 0 "[]"]
  by (simp add: word_less_nat_alt unsigned_ucast_eq unat_max_word take_bit_nat_eq_self)

lemma returns_http_advance_request [returning]: "steady_clock E \<Longrightarrow> returns (http_advance_request E D A request_id caller)"
  unfolding http_advance_request_def by (intro returning)

section \<open>The daemon\<close>

datatype worker_mode = TrainingMode | PipelineMode

record 'x worker_daemon =
  wd_mode :: worker_mode
  wd_client :: "'x http_client"
  wd_job_id_filter :: "u64 option"
  wd_poll_interval :: u64
  wd_buffer :: u64
  wd_last_block :: u64

definition TRAINING_KEY_NAMES :: key_names where
  "TRAINING_KEY_NAMES = \<lparr>kn_path = ''CITRATE_TRAINING_KEYSTORE_PATH'',
     kn_passphrase = ''CITRATE_TRAINING_KEYSTORE_PASSPHRASE'', kn_hex = ''CITRATE_TRAINING_PRIVATE_KEY_HEX''\<rparr>"

definition worker_mode_of :: "environment \<Rightarrow> worker_mode option" where
  "worker_mode_of env =
     (case env ''CITRATE_WORKER_MODE'' of
        None \<Rightarrow> None
      | Some m \<Rightarrow> if m = ''training'' then Some TrainingMode else if m = ''pipeline'' then Some PipelineMode else None)"

text \<open>\<^verbatim>\<open>env_address\<close> of this binary: \<open>None\<close> stands for any of its errors.\<close>

definition contract_address :: "codec \<Rightarrow> environment \<Rightarrow> address option" where
  "contract_address H env =
     Option.bind (env ''CITRATE_WORKER_CONTRACT'') (\<lambda>raw.
       let trimmed = trim_0x (trim raw) in
       if length trimmed \<noteq> 40 then None
       else Option.bind (hx_decode H trimmed) (\<lambda>bs. if length bs = 20 then Some (from_be_bytes bs) else None))"

definition env_u64 :: "environment \<Rightarrow> string \<Rightarrow> u64 option" where
  "env_u64 env name = Option.bind (env name) (\<lambda>s. map_option of_nat (parse_uint (2 ^ 64) s))"

definition env_u64_or :: "environment \<Rightarrow> string \<Rightarrow> u64 \<Rightarrow> u64" where
  "env_u64_or env name dflt = (case env_u64 env name of Some v \<Rightarrow> v | None \<Rightarrow> dflt)"

text \<open>The gate of this crate reads another variable; \<open>gate\<close> is \<^verbatim>\<open>validate_outbound_url\<close> in its environment.\<close>

definition WORKER_ALLOW_INSECURE_ENV :: string where
  "WORKER_ALLOW_INSECURE_ENV = ''CITRATE_WORKER_ALLOW_INSECURE_OUTBOUND''"

definition training_outbound_url :: "environment \<Rightarrow> string \<Rightarrow> outbound_url_error + unit" where
  "training_outbound_url env url =
     validate_outbound_url_with url
       (case env WORKER_ALLOW_INSECURE_ENV of Some v \<Rightarrow> trim v = ''1'' | None \<Rightarrow> False)"

text \<open>The start of either loop: training mode checks the chain id first, and then both ask for the latest block.\<close>

definition enter_loop :: "nat \<Rightarrow> ('e + u64) \<times> 'w \<Rightarrow> (u64 \<Rightarrow> 'd) \<Rightarrow> (nat + 'd) \<times> 'w" where
  "enter_loop code r daemon =
     (case r of (Inl e, w1) \<Rightarrow> (Inl code, w1) | (Inr latest, w1) \<Rightarrow> (Inr (daemon latest), w1))"

definition start_loop ::
  "'w rpc_env \<Rightarrow> 'x http_client \<Rightarrow> worker_mode \<Rightarrow> (u64 \<Rightarrow> 'd) \<Rightarrow> 'w \<Rightarrow> (nat + 'd) \<times> 'w" where
  "start_loop E client mode daemon w =
     (case mode of
        TrainingMode \<Rightarrow>
          (case training_verify_chain_id E client w of
             (Inl e, w1) \<Rightarrow> (Inl 12, w1)
           | (Inr _, w1) \<Rightarrow> enter_loop 10 (training_latest_block E w1) daemon)
      | PipelineMode \<Rightarrow> enter_loop 11 (pipeline_latest_block E w) daemon)"

text \<open>\<^verbatim>\<open>main\<close> up to the first tick of its loop: the exit code of a failure, or what the loop runs with.\<close>

definition worker_startup ::
  "'w rpc_env \<Rightarrow> 'x chain_deps \<Rightarrow> environment \<Rightarrow> 'w \<Rightarrow> (nat + 'x worker_daemon) \<times> 'w" where
  "worker_startup E D env0 w =
     (let (loaded, env) = from_env (cd_wallet D) TRAINING_KEY_NAMES env0 in
      case worker_mode_of env of
        None \<Rightarrow> (Inl 1, w)
      | Some mode \<Rightarrow>
      (case loaded of
        Inl e \<Rightarrow> (Inl 2, w)
      | Inr wal \<Rightarrow>
      (case contract_address (cd_hex D) env of
        None \<Rightarrow> (Inl 3, w)
      | Some contract \<Rightarrow>
        let rpc_url = (case env ''CITRATE_WORKER_RPC_URL'' of Some u \<Rightarrow> u | None \<Rightarrow> ''https://rpc.citrate.ai'')
        in (case training_outbound_url env rpc_url of
              Inl e \<Rightarrow> (Inl 4, w)
            | Inr _ \<Rightarrow>
                let client = \<lparr>hc_rpc_url = rpc_url, hc_chain_id = env_u64_or env ''CITRATE_WORKER_CHAIN_ID'' 40204,
                      hc_contract = contract, hc_wallet = wal\<rparr>
                in start_loop E client mode (\<lambda>latest.
                     \<lparr>wd_mode = mode, wd_client = client,
                      wd_job_id_filter = env_u64 env ''CITRATE_WORKER_JOB_ID'',
                      wd_poll_interval = env_u64_or env ''CITRATE_WORKER_POLL_INTERVAL_SECS'' 3,
                      wd_buffer = env_u64_or env ''CITRATE_WORKER_CONFIRMATIONS_BUFFER'' 12,
                      wd_last_block = worker_starting_block env latest\<rparr>) w))))"

definition training_tick ::
  "(log_key set \<Rightarrow> nat \<Rightarrow> log_key set) \<Rightarrow> 'w rpc_env \<Rightarrow> 'x chain_deps \<Rightarrow> 'x worker_daemon \<Rightarrow> u64 \<Rightarrow> log_key set \<Rightarrow> 'w \<Rightarrow>
   (chain_error + unit) \<times> 'w \<times> u64 \<times> log_key set \<times> (event_kind \<times> raw_log) list" where
  "training_tick pick E D d last_block seen w =
     worker_tick pick (cd_keccak D) (training_latest_block E)
       (\<lambda>a b. training_poll E D (wd_client d) a b (wd_job_id_filter d)) (wd_buffer d) last_block seen w"

definition pipeline_tick ::
  "(log_key set \<Rightarrow> nat \<Rightarrow> log_key set) \<Rightarrow> 'w rpc_env \<Rightarrow> 'x chain_deps \<Rightarrow> 'x worker_daemon \<Rightarrow> u64 \<Rightarrow> log_key set \<Rightarrow> 'w \<Rightarrow>
   (pipeline_chain_error + unit) \<times> 'w \<times> u64 \<times> log_key set \<times> (event_kind \<times> raw_log) list" where
  "pipeline_tick pick E D d last_block seen w =
     worker_tick pick (cd_keccak D) (pipeline_latest_block E)
       (\<lambda>a b. pipeline_poll E D (wd_client d) a b (wd_job_id_filter d)) (wd_buffer d) last_block seen w"

lemma start_loop_mode:
  assumes "start_loop E client mode daemon w = (Inr d, w2)"
  obtains latest where "d = daemon latest" "mode = TrainingMode \<Longrightarrow> \<exists>w1. training_verify_chain_id E client w = (Inr (), w1)"
proof (cases mode)
  case TrainingMode
  then show thesis using assms that
    by (auto simp: start_loop_def enter_loop_def split: prod.splits sum.splits)
next
  case PipelineMode
  then show thesis using assms that
    by (auto simp: start_loop_def enter_loop_def split: prod.splits sum.splits)
qed

text \<open>In training mode the loop starts only if the node answers with the configured chain id.\<close>

lemma training_mode_checks_the_chain:
  assumes "worker_startup E D env w = (Inr d, w2)" "wd_mode d = TrainingMode"
  shows "\<exists>w1. training_verify_chain_id E (wd_client d) w = (Inr (), w1)"
  using assms unfolding worker_startup_def Let_def
  by (auto split: prod.splits sum.splits option.splits elim!: start_loop_mode)

text \<open>In pipeline mode it asks for the latest block only: whatever the node says of its chain, no other request is made.\<close>

lemma pipeline_mode_does_not:
  assumes "\<And>p. re_post E ''eth_blockNumber'' p = re_post E2 ''eth_blockNumber'' p"
  shows "start_loop E client PipelineMode daemon w = start_loop E2 client PipelineMode daemon w"
proof -
  have "json_rpc PipelineWrongState E ''eth_blockNumber'' p = json_rpc PipelineWrongState E2 ''eth_blockNumber'' p" for p
    by (rule ext) (simp add: json_rpc_def assms)
  then show ?thesis
    by (simp add: start_loop_def pipeline_latest_block_def rpc_quantity_def rpc_text_def)
qed

end
