(* ===== verification/Tee_Attestation.thy ===== *)
theory Tee_Attestation
  imports Evm_Abi_Theorems
begin

unbundle bit_operations_syntax

text \<open>
  The attestation client of \<^verbatim>\<open>training-worker/src/attestation.rs\<close>: base64url, the parts of a JWT, the literal bytes
  of the measurement claim, and the calldata of \<^verbatim>\<open>submitAttestationStrictBound\<close>.

  Keccak-256 and the JSON reader are parameters.  The table of the decoder holds signed bytes; \<open>int\<close> stands for them.
\<close>

datatype attestation_error =
    MalformedJwt string
  | Base64Decode string
  | MissingHeaderField string
  | MissingPayloadField string
  | MaaFetch string
  | NrasFetch string
  | Calldata string

section \<open>Base64\<close>

definition B64_ALPHABET :: string where
  "B64_ALPHABET = ''ABCDEFGHIJKLMNOPQRSTUVWXYZabcdefghijklmnopqrstuvwxyz0123456789+/''"

text \<open>The table: the position in the alphabet, -2 for the padding, -1 for anything else.\<close>

definition b64_table :: "char \<Rightarrow> int" where
  "b64_table c =
     (if c = CHR ''='' then - 2
      else let i = length (takeWhile (\<lambda>a. a \<noteq> c) B64_ALPHABET) in if i < 64 then int i else - 1)"

definition sextet :: "int \<Rightarrow> u32" where
  "sextet v = of_int v"

text \<open>The bytes of one group of four, for values that passed the checks.\<close>

definition quartet_bytes :: "int \<Rightarrow> int \<Rightarrow> int \<Rightarrow> int \<Rightarrow> bytes" where
  "quartet_bytes v0 v1 v2 v3 =
     [ucast (push_bit 2 (sextet v0) OR drop_bit 4 (sextet v1))] @
     (if v2 \<ge> 0 then
        [ucast (push_bit 4 (sextet v1 AND 0x0F) OR drop_bit 2 (sextet v2))] @
        (if v3 \<ge> 0 then [ucast (push_bit 6 (sextet v2 AND 0x03) OR sextet v3)] else [])
      else [])"

text \<open>The loop over the groups; the length is a multiple of four.\<close>

fun b64_loop :: "string \<Rightarrow> attestation_error + bytes" where
  "b64_loop (c0 # c1 # c2 # c3 # rest) =
     (let v0 = b64_table c0; v1 = b64_table c1; v2 = b64_table c2; v3 = b64_table c3 in
      if v0 = - 1 \<or> v1 = - 1 \<or> v2 = - 1 \<or> v3 = - 1 then Inl (Base64Decode ''invalid b64 char'')
      else if v0 = - 2 \<or> v1 = - 2 then Inl (Base64Decode ''padding in sextet position 1/2'')
      else if rest \<noteq> [] \<and> (v2 = - 2 \<or> v3 = - 2) then Inl (Base64Decode ''padding before final quartet'')
      else if v2 = - 2 \<and> v3 \<noteq> - 2 then Inl (Base64Decode ''data after padding'')
      else bind_ok (b64_loop rest) (\<lambda>out. Inr (quartet_bytes v0 v1 v2 v3 @ out)))"
| "b64_loop _ = Inr []"

definition base64_standard_decode :: "string \<Rightarrow> attestation_error + bytes" where
  "base64_standard_decode s =
     (if length s mod 4 \<noteq> 0 then Inl (Base64Decode ''non-mod-4 length'') else b64_loop s)"

definition to_standard :: "char \<Rightarrow> char" where
  "to_standard c = (if c = CHR ''-'' then CHR ''+'' else if c = CHR ''_'' then CHR ''/'' else c)"

definition base64url_decode :: "string \<Rightarrow> attestation_error + bytes" where
  "base64url_decode s0 =
     (let s = map to_standard s0; rem = length s mod 4 in
      if rem = 2 then base64_standard_decode (s @ ''=='')
      else if rem = 3 then base64_standard_decode (s @ ''='')
      else if rem = 1 then Inl (Base64Decode ''invalid length'')
      else base64_standard_decode s)"

section \<open>The JWT\<close>

record parsed_jwt =
  jw_header_json :: json
  jw_payload_json :: json
  jw_payload_bytes :: bytes
  jw_signature :: bytes
  jw_signed_input :: bytes
  jw_envelope_hash :: b256

definition parse_jwt ::
  "(bytes \<Rightarrow> b256) \<Rightarrow> (bytes \<Rightarrow> string + json) \<Rightarrow> string \<Rightarrow> attestation_error + parsed_jwt" where
  "parse_jwt K json_from jwt =
     (case split_on (CHR ''.'') jwt of
        [header_b64, payload_b64, sig_b64] \<Rightarrow>
          bind_ok (base64url_decode header_b64) (\<lambda>header_bytes.
          bind_ok (base64url_decode payload_b64) (\<lambda>payload_bytes.
          bind_ok (base64url_decode sig_b64) (\<lambda>signature.
          (case json_from header_bytes of
             Inl _ \<Rightarrow> Inl (MalformedJwt ''header JSON'')
           | Inr header_json \<Rightarrow>
               (case json_from payload_bytes of
                  Inl _ \<Rightarrow> Inl (MalformedJwt ''payload JSON'')
                | Inr payload_json \<Rightarrow>
                    let signed_input = str_bytes (header_b64 @ ''.'' @ payload_b64) in
                    Inr \<lparr>jw_header_json = header_json, jw_payload_json = payload_json,
                         jw_payload_bytes = payload_bytes, jw_signature = signature,
                         jw_signed_input = signed_input, jw_envelope_hash = K (signed_input @ signature)\<rparr>)))))
      | _ \<Rightarrow> Inl (MalformedJwt ''expected 3 dot-separated parts''))"

definition jwt_header_field :: "string \<Rightarrow> parsed_jwt \<Rightarrow> attestation_error + string" where
  "jwt_header_field name j =
     ok_or (MissingHeaderField name) (Option.bind (json_get name (jw_header_json j)) json_as_str)"

definition jwt_kid :: "parsed_jwt \<Rightarrow> attestation_error + string" where
  "jwt_kid j = jwt_header_field ''kid'' j"

definition jwt_alg :: "parsed_jwt \<Rightarrow> attestation_error + string" where
  "jwt_alg j = jwt_header_field ''alg'' j"

definition jwt_kid_hash :: "(bytes \<Rightarrow> b256) \<Rightarrow> parsed_jwt \<Rightarrow> attestation_error + b256" where
  "jwt_kid_hash K j = bind_ok (jwt_kid j) (\<lambda>kid. Inr (K (str_bytes kid)))"

definition payload_claim :: "string \<Rightarrow> parsed_jwt \<Rightarrow> json option" where
  "payload_claim name j = json_get name (jw_payload_json j)"

section \<open>The measurement claim\<close>

fun find_subslice :: "bytes \<Rightarrow> bytes \<Rightarrow> nat option" where
  "find_subslice [] needle = (if needle = [] then Some 0 else None)"
| "find_subslice (b # bs) needle =
     (if take (length needle) (b # bs) = needle then Some 0
      else map_option Suc (find_subslice bs needle))"

definition json_space :: "u8 \<Rightarrow> bool" where
  "json_space b \<longleftrightarrow> b = 32 \<or> b = 9 \<or> b = 13 \<or> b = 10"

definition QUOTE :: u8 where "QUOTE = 34"
definition COLON :: u8 where "COLON = 58"

definition quoted :: "string \<Rightarrow> bytes" where
  "quoted name = [QUOTE] @ str_bytes name @ [QUOTE]"

text \<open>What follows the first occurrence of a name: spaces, a colon, spaces and a string, or nothing usable.\<close>

definition claim_at :: "bytes \<Rightarrow> bytes \<Rightarrow> bytes option" where
  "claim_at payload needle =
     Option.bind (find_subslice payload needle) (\<lambda>start.
       let s1 = takeWhile json_space (drop (start + length needle) payload);
           r1 = dropWhile json_space (drop (start + length needle) payload)
       in case r1 of
            [] \<Rightarrow> None
          | c # r2 \<Rightarrow>
              if c \<noteq> COLON then None
              else
                let s2 = takeWhile json_space r2; r3 = dropWhile json_space r2
                in (case r3 of
                      [] \<Rightarrow> None
                    | q # r4 \<Rightarrow>
                        if q \<noteq> QUOTE then None
                        else
                          let v = takeWhile (\<lambda>b. b \<noteq> QUOTE) r4
                          in if length v = length r4 then None
                             else Some (needle @ s1 @ [COLON] @ s2 @ [QUOTE] @ v @ [QUOTE])))"

definition PROD_NEEDLE :: bytes where "PROD_NEEDLE = quoted ''x-ms-sevsnpvm-launchmeasurement''"
definition TEST_NEEDLE :: bytes where "TEST_NEEDLE = quoted ''vm_measurement''"

definition vm_measurement_claim_bytes :: "parsed_jwt \<Rightarrow> attestation_error + bytes" where
  "vm_measurement_claim_bytes j =
     (case claim_at (jw_payload_bytes j) PROD_NEEDLE of
        Some c \<Rightarrow> Inr c
      | None \<Rightarrow>
          (case claim_at (jw_payload_bytes j) TEST_NEEDLE of
             Some c \<Rightarrow> Inr c
           | None \<Rightarrow> Inl (MissingPayloadField ''vm_measurement'')))"

section \<open>Calldata\<close>

definition padded_len :: "nat \<Rightarrow> nat" where
  "padded_len n = (n + 31) div 32 * 32"

definition u256_be :: "u128 \<Rightarrow> bytes" where
  "u256_be v = replicate 16 0 @ to_be_bytes v"

definition padded_bytes :: "bytes \<Rightarrow> bytes" where
  "padded_bytes bs = u256_be (of_nat (length bs)) @ bs @ replicate (padded_len (length bs) - length bs) 0"

definition encode_submit_strict_bound_calldata ::
  "(bytes \<Rightarrow> b256) \<Rightarrow> bytes \<Rightarrow> bytes \<Rightarrow> b256 \<Rightarrow> bytes \<Rightarrow> b256 \<Rightarrow> b256 \<Rightarrow> b256 \<Rightarrow> bytes" where
  "encode_submit_strict_bound_calldata K signed_jwt_payload jwt_signature kid_hash vm_measurement_claim
       gpu_measurement model_hash nras_signer_hash =
     (let offset_signed_jwt = (of_nat (32 * 7) :: u64);
          offset_jwt_sig = offset_signed_jwt + 32 + of_nat (padded_len (length signed_jwt_payload));
          offset_vm_claim = offset_jwt_sig + 32 + of_nat (padded_len (length jwt_signature))
      in selector K ''submitAttestationStrictBound(bytes,bytes,bytes32,bytes,bytes32,bytes32,bytes32)'' @
         u256_be (ucast offset_signed_jwt) @ u256_be (ucast offset_jwt_sig) @ to_be_bytes kid_hash @
         u256_be (ucast offset_vm_claim) @ to_be_bytes gpu_measurement @ to_be_bytes model_hash @
         to_be_bytes nras_signer_hash @
         padded_bytes signed_jwt_payload @ padded_bytes jwt_signature @ padded_bytes vm_measurement_claim)"

definition reattest_at :: "u64 \<Rightarrow> u64 \<Rightarrow> u64" where
  "reattest_at expiry_block lead_blocks = (if expiry_block < lead_blocks then 0 else expiry_block - lead_blocks)"

definition validate_registry_address :: "address \<Rightarrow> attestation_error + unit" where
  "validate_registry_address a = (if a = 0 then Inl (Calldata ''registry address is zero'') else Inr ())"

section \<open>The bundle\<close>

record fixture_attestation_source =
  fs_maa_jwt :: string
  fs_nras_signer_hash :: b256
  fs_gpu_measurement :: b256

record attestation_bundle =
  ab_signed_jwt_payload :: bytes
  ab_jwt_signature :: bytes
  ab_kid_hash :: b256
  ab_vm_measurement_claim :: bytes
  ab_gpu_measurement :: b256
  ab_nras_signer_hash :: b256
  ab_assembled_unix_secs :: u64

definition build_bundle ::
  "(bytes \<Rightarrow> b256) \<Rightarrow> (bytes \<Rightarrow> string + json) \<Rightarrow> u64 \<Rightarrow> fixture_attestation_source \<Rightarrow>
   attestation_error + attestation_bundle" where
  "build_bundle K json_from now src =
     bind_ok (parse_jwt K json_from (fs_maa_jwt src)) (\<lambda>parsed.
     bind_ok (jwt_kid_hash K parsed) (\<lambda>kid_hash.
     bind_ok (vm_measurement_claim_bytes parsed) (\<lambda>claim.
     Inr \<lparr>ab_signed_jwt_payload = jw_signed_input parsed, ab_jwt_signature = jw_signature parsed,
          ab_kid_hash = kid_hash, ab_vm_measurement_claim = claim,
          ab_gpu_measurement = fs_gpu_measurement src, ab_nras_signer_hash = fs_nras_signer_hash src,
          ab_assembled_unix_secs = now\<rparr>)))"

definition build_submit_strict_bound_call :: "(bytes \<Rightarrow> b256) \<Rightarrow> attestation_bundle \<Rightarrow> b256 \<Rightarrow> bytes" where
  "build_submit_strict_bound_call K b model_hash =
     encode_submit_strict_bound_calldata K (ab_signed_jwt_payload b) (ab_jwt_signature b) (ab_kid_hash b)
       (ab_vm_measurement_claim b) (ab_gpu_measurement b) model_hash (ab_nras_signer_hash b)"

end
