(* ===== verification/Tee_Theorems.thy ===== *)
theory Tee_Theorems
  imports Tee_Attestation Net_Source "HOL-Library.Sublist"
begin

unbundle bit_operations_syntax

text \<open>
  The attestation client is right about its formats: base64url is read back, the claim that is submitted stands
  literally in the signed payload, and the calldata decodes to what was put in.
\<close>

section \<open>Base64\<close>

definition url_digit :: "u8 \<Rightarrow> char" where
  "url_digit v =
     (let c = B64_ALPHABET ! unat v in if c = CHR ''+'' then CHR ''-'' else if c = CHR ''/'' then CHR ''_'' else c)"

text \<open>RFC 7515: base64url without padding; the four sextets of three bytes.\<close>

definition sextet1 :: "u8 \<Rightarrow> u8" where "sextet1 a = drop_bit 2 a"
definition sextet2 :: "u8 \<Rightarrow> u8 \<Rightarrow> u8" where "sextet2 a b = push_bit 4 (a AND 3) OR drop_bit 4 b"
definition sextet3 :: "u8 \<Rightarrow> u8 \<Rightarrow> u8" where "sextet3 b c = push_bit 2 (b AND 15) OR drop_bit 6 c"
definition sextet4 :: "u8 \<Rightarrow> u8" where "sextet4 c = c AND 63"

fun base64url_encode :: "bytes \<Rightarrow> string" where
  "base64url_encode [] = []"
| "base64url_encode [a] = [url_digit (sextet1 a), url_digit (sextet2 a 0)]"
| "base64url_encode [a, b] = [url_digit (sextet1 a), url_digit (sextet2 a b), url_digit (sextet3 b 0)]"
| "base64url_encode (a # b # c # r) =
     [url_digit (sextet1 a), url_digit (sextet2 a b), url_digit (sextet3 b c), url_digit (sextet4 c)] @
     base64url_encode r"

lemma index_of_nth: "distinct xs \<Longrightarrow> i < length xs \<Longrightarrow> length (takeWhile (\<lambda>a. a \<noteq> xs ! i) xs) = i"
proof (induction xs arbitrary: i)
  case (Cons x xs)
  then show ?case by (cases i) auto
qed simp

lemma alphabet: "distinct B64_ALPHABET" "length B64_ALPHABET = 64" "CHR ''='' \<notin> set B64_ALPHABET"
  "CHR ''-'' \<notin> set B64_ALPHABET" "CHR ''_'' \<notin> set B64_ALPHABET"
  by (simp_all add: B64_ALPHABET_def)

lemma table_digit:
  assumes "v < 64"
  shows "b64_table (to_standard (url_digit v)) = int (unat v)"
proof -
  from assms have v: "unat v < 64" by (simp add: word_less_nat_alt)
  let ?c = "B64_ALPHABET ! unat v"
  have "?c \<in> set B64_ALPHABET" using v alphabet(2) by simp
  then have "?c \<noteq> CHR ''=''" "?c \<noteq> CHR ''-''" "?c \<noteq> CHR ''_''" using alphabet by auto
  moreover from this have "to_standard (url_digit v) = ?c" by (simp add: url_digit_def to_standard_def Let_def)
  moreover have "length (takeWhile (\<lambda>a. a \<noteq> ?c) B64_ALPHABET) = unat v"
    using index_of_nth [OF alphabet(1)] v alphabet(2) by simp
  ultimately show ?thesis using v by (simp add: b64_table_def Let_def)
qed

text \<open>A byte is what its eight bits are.\<close>

lemma byte_eqI:
  fixes x y :: u8
  assumes "bit x 0 = bit y 0" "bit x 1 = bit y 1" "bit x 2 = bit y 2" "bit x 3 = bit y 3"
    "bit x 4 = bit y 4" "bit x 5 = bit y 5" "bit x 6 = bit y 6" "bit x 7 = bit y 7"
  shows "x = y"
proof (rule bit_word_eqI)
  fix n
  assume "n < LENGTH(8)"
  then have "n = 0 \<or> n = 1 \<or> n = 2 \<or> n = 3 \<or> n = 4 \<or> n = 5 \<or> n = 6 \<or> n = 7" by auto
  then show "bit x n = bit y n" using assms by auto
qed

lemma no_high_bit: "8 \<le> n \<Longrightarrow> \<not> bit (a :: u8) n"
  using bit_imp_le_length [of a n] by auto

lemma below_64: "x AND 63 = x \<Longrightarrow> x < (64 :: u8)"
proof -
  assume "x AND 63 = x"
  then have "x \<le> 63" by (metis word_and_le1)
  then show "x < 64" by (simp add: word_le_nat_alt word_less_nat_alt)
qed

lemma small_sextets: "sextet1 a < 64" "sextet2 a b < 64" "sextet3 b c < 64" "sextet4 c < 64"
  unfolding sextet1_def sextet2_def sextet3_def sextet4_def
  by (rule below_64, rule byte_eqI; simp add: bit_simps no_high_bit)+

text \<open>The bytes the decoder makes of two neighbouring sextets.\<close>

definition byte1 :: "u8 \<Rightarrow> u8 \<Rightarrow> u8" where
  "byte1 v0 v1 = ucast (push_bit 2 (ucast v0 :: u32) OR drop_bit 4 (ucast v1))"

definition byte2 :: "u8 \<Rightarrow> u8 \<Rightarrow> u8" where
  "byte2 v1 v2 = ucast (push_bit 4 ((ucast v1 :: u32) AND 15) OR drop_bit 2 (ucast v2))"

definition byte3 :: "u8 \<Rightarrow> u8 \<Rightarrow> u8" where
  "byte3 v2 v3 = ucast (push_bit 6 ((ucast v2 :: u32) AND 3) OR ucast v3)"

lemma bytes_of_sextets: "byte1 (sextet1 a) (sextet2 a b) = a" "byte2 (sextet2 a b) (sextet3 b c) = b"
  "byte3 (sextet3 b c) (sextet4 c) = c"
  unfolding sextet1_def sextet2_def sextet3_def sextet4_def byte1_def byte2_def byte3_def
  by (rule byte_eqI; simp add: bit_simps no_high_bit)+

lemma sextet_of_byte: "sextet (int (unat v)) = ucast v"
  by (simp add: sextet_def)

lemma quartet_of_bytes:
  "quartet_bytes (int (unat v0)) (int (unat v1)) (int (unat v2)) (int (unat v3)) = [byte1 v0 v1, byte2 v1 v2, byte3 v2 v3]"
  "quartet_bytes (int (unat v0)) (int (unat v1)) (int (unat v2)) (- 2) = [byte1 v0 v1, byte2 v1 v2]"
  "quartet_bytes (int (unat v0)) (int (unat v1)) (- 2) (- 2) = [byte1 v0 v1]"
  by (simp_all add: quartet_bytes_def sextet_def byte1_def byte2_def byte3_def)

lemma digit_values: "v < 64 \<Longrightarrow> b64_table (to_standard (url_digit v)) = int (unat v) \<and>
  b64_table (to_standard (url_digit v)) \<noteq> - 1 \<and> b64_table (to_standard (url_digit v)) \<noteq> - 2"
  using table_digit [of v] by (metis of_nat_0_le_iff neg_0_le_iff_le not_one_le_zero one_le_numeral order_trans
      neg_numeral_le_zero not_numeral_le_zero zero_le_numeral neg_le_0_iff_le)

definition padding_of :: "bytes \<Rightarrow> string" where
  "padding_of bs = (if length bs mod 3 = 1 then ''=='' else if length bs mod 3 = 2 then ''='' else [])"

lemma padding_table: "b64_table (CHR ''='') = - 2"
  by (simp add: b64_table_def)

lemma b64_loop_group:
  assumes "v0 < 64" "v1 < 64" "v2 < 64" "v3 < 64"
  shows "b64_loop (to_standard (url_digit v0) # to_standard (url_digit v1) # to_standard (url_digit v2) #
           to_standard (url_digit v3) # rest) =
           bind_ok (b64_loop rest) (\<lambda>out. Inr ([byte1 v0 v1, byte2 v1 v2, byte3 v2 v3] @ out))"
    and "b64_loop [to_standard (url_digit v0), to_standard (url_digit v1), to_standard (url_digit v2), CHR ''=''] =
           Inr [byte1 v0 v1, byte2 v1 v2]"
    and "b64_loop [to_standard (url_digit v0), to_standard (url_digit v1), CHR ''='', CHR ''=''] = Inr [byte1 v0 v1]"
  using assms [THEN digit_values]
  by (simp_all only: b64_loop.simps padding_table quartet_of_bytes Let_def if_False simp_thms) (simp_all add: quartet_of_bytes)

lemma b64_loop_encode: "b64_loop (map to_standard (base64url_encode bs) @ padding_of bs) = Inr bs"
proof (induction bs rule: base64url_encode.induct)
  case (4 a b c r)
  have "padding_of (a # b # c # r) = padding_of r" by (simp add: padding_of_def)
  with 4 show ?case by (simp add: b64_loop_group small_sextets bytes_of_sextets del: b64_loop.simps)
qed (simp_all add: padding_of_def b64_loop_group(2) [where ?v3.0 = 0] b64_loop_group(3) [where ?v2.0 = 0 and ?v3.0 = 0]
      small_sextets bytes_of_sextets b64_loop.simps(2) del: b64_loop.simps(1))

lemma length_encode_mod: "length (base64url_encode bs) mod 4 = (if length bs mod 3 = 0 then 0 else length bs mod 3 + 1)"
  by (induction bs rule: base64url_encode.induct) simp_all

text \<open>Base64url without padding, of bytes of any length, is read back.\<close>

theorem base64url_roundtrip: "base64url_decode (base64url_encode bs) = Inr bs"
proof -
  have "length bs mod 3 = 0 \<or> length bs mod 3 = 1 \<or> length bs mod 3 = 2" by auto
  then show ?thesis
    using b64_loop_encode [of bs] length_encode_mod [of bs]
    by (elim disjE) (simp_all add: base64url_decode_def base64_standard_decode_def padding_of_def Let_def mod_Suc)
qed

section \<open>The claim\<close>

lemma find_subslice_Some: "find_subslice p n = Some k \<Longrightarrow> k + length n \<le> length p \<and> take (length n) (drop k p) = n"
proof (induction p arbitrary: k)
  case (Cons b p)
  show ?case
  proof (cases "take (length n) (b # p) = n")
    case True
    then have "length n \<le> length (b # p)" by (metis length_take min.bounded_iff nle_le)
    with Cons.prems True show ?thesis by auto
  next
    case False
    with Cons.prems obtain m where "find_subslice p n = Some m" "k = Suc m" by auto
    with Cons.IH show ?thesis by auto
  qed
qed (auto split: if_splits)

lemma takeWhile_partial: "length (takeWhile P xs) \<noteq> length xs \<Longrightarrow> \<exists>y zs. xs = takeWhile P xs @ y # zs \<and> \<not> P y"
proof (induction xs)
  case (Cons x xs)
  then show ?case by (cases "P x") auto
qed simp

text \<open>The bytes of a claim: the name, white space around a colon, and a string without a quote in it.\<close>

definition claim_shape :: "bytes \<Rightarrow> bytes \<Rightarrow> bool" where
  "claim_shape needle c \<longleftrightarrow>
     (\<exists>s1 s2 v. c = needle @ s1 @ [COLON] @ s2 @ [QUOTE] @ v @ [QUOTE] \<and>
        list_all json_space s1 \<and> list_all json_space s2 \<and> QUOTE \<notin> set v)"

lemma list_all_takeWhile: "list_all P (takeWhile P xs)"
  by (induction xs) auto

lemma claim_at_Some:
  assumes "claim_at p needle = Some c"
  shows "claim_shape needle c \<and> sublist c p"
proof -
  from assms obtain start where f: "find_subslice p needle = Some start"
    by (auto simp: claim_at_def bind_eq_Some_conv)
  let ?r = "drop (start + length needle) p"
  let ?s1 = "takeWhile json_space ?r"
  from f assms obtain r2 where r2: "dropWhile json_space ?r = COLON # r2"
    by (auto simp: claim_at_def Let_def split: list.splits if_splits)
  let ?s2 = "takeWhile json_space r2"
  from f r2 assms obtain r4 where r4: "dropWhile json_space r2 = QUOTE # r4"
    by (auto simp: claim_at_def Let_def split: list.splits if_splits)
  let ?v = "takeWhile (\<lambda>b. b \<noteq> QUOTE) r4"
  from f r2 r4 assms have ne: "length ?v \<noteq> length r4"
    and c: "c = needle @ ?s1 @ [COLON] @ ?s2 @ [QUOTE] @ ?v @ [QUOTE]"
    by (auto simp: claim_at_def Let_def split: if_splits)
  obtain zs where r4': "r4 = ?v @ QUOTE # zs" using takeWhile_partial [OF ne] by auto
  have "p = take start p @ needle @ ?r"
    using find_subslice_Some [OF f] by (metis append_take_drop_id drop_drop add.commute)
  also have "?r = ?s1 @ COLON # r2" using r2 by (metis takeWhile_dropWhile_id)
  also have "r2 = ?s2 @ QUOTE # r4" using r4 by (metis takeWhile_dropWhile_id)
  also note r4'
  finally have "p = take start p @ c @ zs" unfolding c by simp
  then have "sublist c p" by (metis sublist_appendI)
  moreover have "QUOTE \<notin> set ?v" by (auto dest: set_takeWhileD)
  ultimately show ?thesis
    using c list_all_takeWhile unfolding claim_shape_def by blast
qed

section \<open>The bundle\<close>

text \<open>What a bundle has to do with the token it was built from.\<close>

definition bundle_of_token :: "(bytes \<Rightarrow> b256) \<Rightarrow> string \<Rightarrow> attestation_bundle \<Rightarrow> bool" where
  "bundle_of_token K jwt b \<longleftrightarrow>
     (\<exists>h p sg payload.
        jwt = h @ ''.'' @ p @ ''.'' @ sg \<and> CHR ''.'' \<notin> set h \<and> CHR ''.'' \<notin> set p \<and> CHR ''.'' \<notin> set sg \<and>
        ab_signed_jwt_payload b = str_bytes (h @ ''.'' @ p) \<and>
        base64url_decode sg = Inr (ab_jwt_signature b) \<and>
        base64url_decode p = Inr payload \<and> sublist (ab_vm_measurement_claim b) payload \<and>
        (claim_shape PROD_NEEDLE (ab_vm_measurement_claim b) \<or> claim_shape TEST_NEEDLE (ab_vm_measurement_claim b)))"

lemma split_on_three: "split_on c s = [a, b, d] \<Longrightarrow> s = a @ [c] @ b @ [c] @ d"
proof -
  have one: "split_on c s = [a] \<Longrightarrow> s = a" for s a
    by (induction s arbitrary: a) (auto split: list.splits if_splits)
  have two: "split_on c s = [a, b] \<Longrightarrow> s = a @ [c] @ b" for s a b
    by (induction s arbitrary: a b) (auto dest: one split: list.splits if_splits)
  show "split_on c s = [a, b, d] \<Longrightarrow> ?thesis"
    by (induction s arbitrary: a b d) (auto dest: two split: list.splits if_splits)
qed

lemma parse_jwt_Inr:
  assumes "parse_jwt K J jwt = Inr p"
  obtains h m sg where "split_on (CHR ''.'') jwt = [h, m, sg]" "base64url_decode m = Inr (jw_payload_bytes p)"
    "base64url_decode sg = Inr (jw_signature p)" "jw_signed_input p = str_bytes (h @ ''.'' @ m)"
proof -
  from assms obtain h m sg where parts: "split_on (CHR ''.'') jwt = [h, m, sg]"
    by (auto simp: parse_jwt_def split: list.splits)
  from assms obtain hb pb sb where decoded: "base64url_decode h = Inr hb" "base64url_decode m = Inr pb"
      "base64url_decode sg = Inr sb"
    by (auto simp: parse_jwt_def parts bind_ok_Inr)
  from assms have "pb = jw_payload_bytes p \<and> sb = jw_signature p \<and> jw_signed_input p = str_bytes (h @ ''.'' @ m)"
    by (cases "J hb"; cases "J pb") (auto simp: parse_jwt_def parts decoded Let_def)
  with parts decoded that show thesis by blast
qed

text \<open>A bundle is made of the one token it was built from: the signed input is the token's first two parts as they
  stand, the signature its third part decoded, and the measurement claim lies literally in the decoded payload
  that the signature covers, a name of a launch measurement with its value and nothing else.\<close>

theorem bundle_is_the_tokens:
  assumes "build_bundle K json_from now src = Inr b"
  shows "bundle_of_token K (fs_maa_jwt src) b"
proof -
  from assms obtain p where p: "parse_jwt K json_from (fs_maa_jwt src) = Inr p"
    and claim: "vm_measurement_claim_bytes p = Inr (ab_vm_measurement_claim b)"
    and b: "ab_signed_jwt_payload b = jw_signed_input p" "ab_jwt_signature b = jw_signature p"
    by (auto simp: build_bundle_def bind_ok_Inr)
  obtain h m sg where parts: "split_on (CHR ''.'') (fs_maa_jwt src) = [h, m, sg]"
    "base64url_decode m = Inr (jw_payload_bytes p)"
    "base64url_decode sg = Inr (jw_signature p)" "jw_signed_input p = str_bytes (h @ ''.'' @ m)"
    using p by (rule parse_jwt_Inr)
  have "CHR ''.'' \<notin> set h" "CHR ''.'' \<notin> set m" "CHR ''.'' \<notin> set sg"
    using split_on_no_sep [of _ "CHR ''.''" "fs_maa_jwt src"] parts(1) by auto
  moreover have "fs_maa_jwt src = h @ ''.'' @ m @ ''.'' @ sg" using split_on_three [OF parts(1)] by simp
  moreover have "claim_at (jw_payload_bytes p) PROD_NEEDLE = Some (ab_vm_measurement_claim b) \<or>
      claim_at (jw_payload_bytes p) TEST_NEEDLE = Some (ab_vm_measurement_claim b)"
    using claim by (auto simp: vm_measurement_claim_bytes_def split: option.splits)
  then have "sublist (ab_vm_measurement_claim b) (jw_payload_bytes p)"
    "claim_shape PROD_NEEDLE (ab_vm_measurement_claim b) \<or> claim_shape TEST_NEEDLE (ab_vm_measurement_claim b)"
    using claim_at_Some by blast+
  ultimately show ?thesis
    using parts b unfolding bundle_of_token_def by auto
qed

text \<open>A token of three short parts, with a reader that takes any bytes for a key identifier.\<close>

definition demo_payload :: bytes where
  "demo_payload = TEST_NEEDLE @ [COLON, QUOTE, 97, 98, QUOTE, 125]"

definition demo_source :: fixture_attestation_source where
  "demo_source = \<lparr>fs_maa_jwt = base64url_encode [65] @ CHR ''.'' # base64url_encode demo_payload @ CHR ''.'' # base64url_encode [66], fs_nras_signer_hash = 1,
     fs_gpu_measurement = 2\<rparr>"

definition demo_json :: "bytes \<Rightarrow> string + json" where
  "demo_json _ = Inr (JObj [(''kid'', JStr ''k'')])"

lemma demo_payload_bytes: "demo_payload =
  [34, 118, 109, 95, 109, 101, 97, 115, 117, 114, 101, 109, 101, 110, 116, 34, 58, 34, 97, 98, 34, 125]"
  by (simp add: demo_payload_def TEST_NEEDLE_def quoted_def QUOTE_def COLON_def str_bytes_def char_byte_def)

lemma digit_no_dot: "v < 64 \<Longrightarrow> url_digit v \<noteq> CHR ''.''"
proof -
  assume "v < 64"
  then have "B64_ALPHABET ! unat v \<in> set B64_ALPHABET"
    using alphabet(2) by (simp add: word_less_nat_alt)
  moreover have "CHR ''.'' \<notin> set B64_ALPHABET" by (simp add: B64_ALPHABET_def)
  ultimately have "B64_ALPHABET ! unat v \<noteq> CHR ''.''" by metis
  then show ?thesis by (simp add: url_digit_def Let_def)
qed

lemma encode_no_dot: "CHR ''.'' \<notin> set (base64url_encode bs)"
  using digit_no_dot [OF small_sextets(1)] digit_no_dot [OF small_sextets(2)] digit_no_dot [OF small_sextets(3)]
    digit_no_dot [OF small_sextets(4)]
  by (induction bs rule: base64url_encode.induct) (simp_all add: eq_commute [of "CHR ''.''"])

lemma demo_parts:
  "split_on (CHR ''.'') (fs_maa_jwt demo_source) =
    [base64url_encode [65], base64url_encode demo_payload, base64url_encode [66]]"
  by (simp add: demo_source_def split_on_append split_on_none encode_no_dot del: base64url_encode.simps)

lemma demo_claim: "claim_at demo_payload PROD_NEEDLE = None"
  "claim_at demo_payload TEST_NEEDLE = Some (TEST_NEEDLE @ [COLON, QUOTE, 97, 98, QUOTE])"
  unfolding demo_payload_bytes
  by (simp_all add: claim_at_def PROD_NEEDLE_def TEST_NEEDLE_def quoted_def QUOTE_def COLON_def str_bytes_def
      char_byte_def json_space_def Let_def)

theorem bundle_is_the_tokens_witness:
  "\<exists>b. build_bundle (\<lambda>_. 7) demo_json 0 demo_source = Inr b \<and> bundle_of_token (\<lambda>_. 7) (fs_maa_jwt demo_source) b"
proof -
  have "\<exists>b. build_bundle (\<lambda>_. 7) demo_json 0 demo_source = Inr b"
    by (simp add: build_bundle_def parse_jwt_def demo_parts base64url_roundtrip demo_json_def Let_def
        jwt_kid_hash_def jwt_kid_def jwt_header_field_def json_get.simps json_as_str.simps vm_measurement_claim_bytes_def
        demo_claim del: base64url_encode.simps)
  then show ?thesis using bundle_is_the_tokens by blast
qed

text \<open>Only the first occurrence of a name is looked at: a payload in which the name stands first as a value has a
  claim, and it is not found.\<close>

lemma only_the_first_occurrence:
  "claim_at ([123, QUOTE, 107, QUOTE, COLON] @ TEST_NEEDLE @ [44] @ demo_payload) TEST_NEEDLE = None"
  unfolding demo_payload_bytes
  by (simp add: claim_at_def TEST_NEEDLE_def quoted_def QUOTE_def COLON_def str_bytes_def
      char_byte_def json_space_def Let_def)

section \<open>Calldata\<close>

lemma be_of_wider: "u256_be v = u256_word (ucast v)"
proof -
  have "le_digits (n + m) x = le_digits n x @ le_digits m (x div 256 ^ n)" for n m x
    by (induction n arbitrary: x) (simp_all add: div_mult2_eq)
  from this [of 16 16] have "le_digits 32 x = le_digits 16 x @ le_digits 16 (x div 256 ^ 16)" for x
    by simp
  moreover have "le_digits n 0 = replicate n 0" for n by (induction n) simp_all
  moreover have "unat v div 256 ^ 16 = 0"
    using unsigned_less [of v, where ?'a = nat] by simp
  moreover have "unat (ucast v :: u256) = unat v"
    using unsigned_less [of v, where ?'a = nat] by (simp add: unsigned_ucast_eq take_bit_nat_eq_self)
  ultimately show ?thesis
    by (simp add: u256_be_def u256_word_def to_be_bytes_def to_le_bytes_def)
qed

lemma unat_u64_nat: "n < 2 ^ 64 \<Longrightarrow> unat (of_nat n :: u64) = n"
  by (simp add: unat_of_nat)

lemma unat_widen: "unat (ucast (v :: u64) :: u128) = unat v" "unat (ucast (w :: u128) :: u256) = unat w"
  using unsigned_less [of v, where ?'a = nat] unsigned_less [of w, where ?'a = nat]
  by (simp_all add: unsigned_ucast_eq take_bit_nat_eq_self)

lemma be_of_nat: "n < 2 ^ 64 \<Longrightarrow> u256_be (of_nat n) = u256_word (of_nat n)"
  "n < 2 ^ 64 \<Longrightarrow> u256_be (ucast (of_nat n :: u64)) = u256_word (of_nat n)"
proof -
  assume n: "n < 2 ^ 64"
  then have v: "unat (of_nat n :: u256) = n" "unat (of_nat n :: u128) = n" "unat (of_nat n :: u64) = n"
    by (simp_all add: unat_of_nat)
  show "u256_be (of_nat n) = u256_word (of_nat n)"
    unfolding be_of_wider using v by (intro arg_cong [where f = u256_word] word_unat_eq_iff [THEN iffD2]) (simp only: unat_widen)
  show "u256_be (ucast (of_nat n :: u64)) = u256_word (of_nat n)"
    unfolding be_of_wider using v by (intro arg_cong [where f = u256_word] word_unat_eq_iff [THEN iffD2]) (simp only: unat_widen)
qed

text \<open>The layout, with the sizes as natural numbers.\<close>

definition strict_bound_layout ::
  "bytes \<Rightarrow> bytes \<Rightarrow> b256 \<Rightarrow> bytes \<Rightarrow> b256 \<Rightarrow> b256 \<Rightarrow> b256 \<Rightarrow> bytes" where
  "strict_bound_layout s g k c gpu model nras =
     (let tail = (\<lambda>d. u256_word (of_nat (length d)) @ d @ replicate (padded_len (length d) - length d) 0);
          o1 = 224; o2 = o1 + 32 + padded_len (length s); o3 = o2 + 32 + padded_len (length g)
      in u256_word (of_nat o1) @ u256_word (of_nat o2) @ to_be_bytes k @ u256_word (of_nat o3) @
         to_be_bytes gpu @ to_be_bytes model @ to_be_bytes nras @ tail s @ tail g @ tail c)"

lemma padded_len_bounds: "n \<le> padded_len n" "padded_len n \<le> n + 31"
  unfolding padded_len_def by presburger+

lemma calldata_layout:
  assumes "length s + length g + length c < 2 ^ 62"
  shows "encode_submit_strict_bound_calldata K s g k c gpu model nras =
    selector K ''submitAttestationStrictBound(bytes,bytes,bytes32,bytes,bytes32,bytes32,bytes32)'' @
    strict_bound_layout s g k c gpu model nras"
proof -
  note pb = padded_len_bounds [of "length s"] padded_len_bounds [of "length g"]
  have off1: "(of_nat (32 * 7) :: u64) = of_nat 224" by simp
  have off2: "(of_nat 224 :: u64) + 32 + of_nat (padded_len (length s)) = of_nat (224 + 32 + padded_len (length s))"
    by simp
  have off3: "(of_nat (224 + 32 + padded_len (length s)) :: u64) + 32 + of_nat (padded_len (length g)) =
      of_nat (224 + 32 + padded_len (length s) + 32 + padded_len (length g))"
    by simp
  have words: "u256_be (ucast (of_nat 224 :: u64)) = u256_word (of_nat 224)"
    "u256_be (ucast (of_nat (224 + 32 + padded_len (length s)) :: u64)) =
       u256_word (of_nat (224 + 32 + padded_len (length s)))"
    "u256_be (ucast (of_nat (224 + 32 + padded_len (length s) + 32 + padded_len (length g)) :: u64)) =
       u256_word (of_nat (224 + 32 + padded_len (length s) + 32 + padded_len (length g)))"
    "u256_be (of_nat (length s)) = u256_word (of_nat (length s))"
    "u256_be (of_nat (length g)) = u256_word (of_nat (length g))"
    "u256_be (of_nat (length c)) = u256_word (of_nat (length c))"
    by (rule be_of_nat, use assms pb in simp)+
  show ?thesis
    unfolding encode_submit_strict_bound_calldata_def Let_def off1 off2 off3 padded_bytes_def strict_bound_layout_def words
    by (simp only: append_assoc)
qed

text \<open>The calldata of the submission is the selector and then arguments that an ABI decoder reads back as they were
  put in: the three byte strings of any content and length, and the four words between them.\<close>

theorem submit_calldata_reads_back:
  assumes "length s + length g + length c < 2 ^ 62"
  shows "\<exists>args. encode_submit_strict_bound_calldata K s g k c gpu model nras =
      selector K ''submitAttestationStrictBound(bytes,bytes,bytes32,bytes,bytes32,bytes32,bytes32)'' @ args \<and>
    decode_dynamic_bytes_at_offset args 0 = Inr s \<and> decode_dynamic_bytes_at_offset args 32 = Inr g \<and>
    decode_dynamic_bytes_at_offset args 96 = Inr c \<and>
    take 32 (drop 64 args) = to_be_bytes k \<and> take 32 (drop 128 args) = to_be_bytes gpu \<and>
    take 32 (drop 160 args) = to_be_bytes model \<and> take 32 (drop 192 args) = to_be_bytes nras"
proof -
  let ?a = "strict_bound_layout s g k c gpu model nras"
  let ?tail = "\<lambda>d. u256_word (of_nat (length d)) @ d @ replicate (padded_len (length d) - length d) 0"
  have len_tail: "length (?tail d) = 32 + padded_len (length d)" for d :: bytes
    using padded_len_bounds(1) [of "length d"] by simp
  define head where "head = take 224 ?a"
  have a: "?a = head @ ?tail s @ ?tail g @ ?tail c" and len_head: "length head = 224"
    by (simp_all add: head_def strict_bound_layout_def Let_def)
  have len: "length ?a < 2 ^ 64"
    using assms padded_len_bounds [of "length s"] padded_len_bounds [of "length g"] padded_len_bounds [of "length c"]
    unfolding a by (simp add: len_head)
  have o1: "drop 224 ?a = ?tail s @ (?tail g @ ?tail c)" unfolding a using len_head by simp
  have o2: "drop (256 + padded_len (length s)) ?a = ?tail g @ ?tail c"
    unfolding a using len_head padded_len_bounds(1) [of "length s"] by simp
  have o3: "drop (288 + padded_len (length s) + padded_len (length g)) ?a = ?tail c"
    unfolding a using len_head padded_len_bounds(1) [of "length s"] padded_len_bounds(1) [of "length g"] by simp
  have total: "length ?a = 320 + padded_len (length s) + padded_len (length g) + padded_len (length c)"
    using padded_len_bounds(1) [of "length s"] padded_len_bounds(1) [of "length g"] padded_len_bounds(1) [of "length c"]
    unfolding a by (simp add: len_head)
  have w: "take 32 (drop 0 ?a) = u256_word (of_nat 224)"
    "take 32 (drop 32 ?a) = u256_word (of_nat (256 + padded_len (length s)))"
    "take 32 (drop 96 ?a) = u256_word (of_nat (288 + padded_len (length s) + padded_len (length g)))"
    "take 32 (drop 64 ?a) = to_be_bytes k" "take 32 (drop 128 ?a) = to_be_bytes gpu"
    "take 32 (drop 160 ?a) = to_be_bytes model" "take 32 (drop 192 ?a) = to_be_bytes nras"
    by (simp_all add: strict_bound_layout_def Let_def add.assoc)
  have "decode_dynamic_bytes_at_offset ?a 0 = Inr s"
    using total len w(1) o1 [unfolded append_assoc]
    by (intro decode_dynamic [of 0 ?a 224 s "replicate (padded_len (length s) - length s) 0 @ ?tail g @ ?tail c"])
      simp_all
  moreover have "decode_dynamic_bytes_at_offset ?a 32 = Inr g"
    using total len w(2) o2 [unfolded append_assoc]
    by (intro decode_dynamic [of 32 ?a "256 + padded_len (length s)" g "replicate (padded_len (length g) - length g) 0 @ ?tail c"])
      simp_all
  moreover have "decode_dynamic_bytes_at_offset ?a 96 = Inr c"
    using total len w(3) o3
    by (intro decode_dynamic [of 96 ?a _ c "replicate (padded_len (length c) - length c) 0"]) simp_all
  ultimately show ?thesis
    using calldata_layout [OF assms] w by blast
qed

theorem submit_calldata_reads_back_witness:
  "\<exists>args. encode_submit_strict_bound_calldata (\<lambda>_. 7) [1, 2, 3] [4] 5 [6, 7] 8 9 10 =
      selector (\<lambda>_. 7) ''submitAttestationStrictBound(bytes,bytes,bytes32,bytes,bytes32,bytes32,bytes32)'' @ args \<and>
    decode_dynamic_bytes_at_offset args 32 = Inr [4]"
  using submit_calldata_reads_back [of "[1, 2, 3]" "[4]" "[6, 7]" "\<lambda>_. 7" 5 8 9 10] by auto

end
