(* ===== verification/Fl_Upload.thy ===== *)
theory Fl_Upload
  imports Api Fl_Round
begin

text \<open>
  Uploads of federated deltas, \<^verbatim>\<open>training-coordinator/src/fl_upload.rs\<close>: the handler of
  \<^verbatim>\<open>PUT /v1/fl/delta/{sha256}\<close> and the directory it fills, which \<open>Fl_Round\<close> collects from.

  The directory maps file names to contents.  The body of a request arrives as a list of events; which file
  operations fail is the record \<open>upload_io\<close>.  SHA-256, the \<^verbatim>\<open>hex\<close> crate and the process id are parameters.
\<close>

definition DEFAULT_MAX_DELTA_BYTES :: u64 where "DEFAULT_MAX_DELTA_BYTES = push_bit 20 256"

text \<open>A name of a temporary file is unique by the process and a counter.\<close>

definition partial_file :: "codec \<Rightarrow> nat \<Rightarrow> b256 \<Rightarrow> nat \<Rightarrow> string" where
  "partial_file H pid sha n =
     ''.'' @ hx_encode H (to_be_bytes sha) @ ''.'' @ show_dec pid @ ''.'' @ show_dec n @ ''.partial''"

section \<open>Authorisation\<close>

record upload_request =
  ur_sha :: string
  ur_signature :: "string option"
  ur_job :: job_id

definition parse_sha :: "codec \<Rightarrow> string \<Rightarrow> b256 option" where
  "parse_sha H s =
     (if length s \<noteq> 64 then None
      else Option.bind (hx_decode H s) (\<lambda>bs. if length bs = 32 then Some (from_be_bytes bs) else None))"

text \<open>What a request is allowed to store.\<close>

record upload_ticket =
  ut_sha :: b256
  ut_worker :: address
  ut_payload :: lora_payload
  ut_cap :: u64

definition live_lease :: "address \<Rightarrow> u64 \<Rightarrow> job_status \<Rightarrow> bool" where
  "live_lease who now status =
     (case status of Leased worker expires_at _ \<Rightarrow> worker = who \<and> expires_at > now | _ \<Rightarrow> False)"

definition round_cap :: "round_config \<Rightarrow> u64" where
  "round_cap cfg =
     (case Option.bind (checked_mul (fc_max_values cfg) 8) (\<lambda>b. checked_add b (of_nat HEADER_LEN)) of
        Some c \<Rightarrow> c
      | None \<Rightarrow> - 1)"

text \<open>The checks on the job, once the signer is known.\<close>

definition authorise_job ::
  "'f deps \<Rightarrow> u64 \<Rightarrow> u64 \<Rightarrow> state \<Rightarrow> job_id \<Rightarrow> address \<Rightarrow> b256 \<Rightarrow> response + upload_ticket" where
  "authorise_job D now max_bytes s job who sha =
     (case bt_get (st_jobs s) job of
        None \<Rightarrow> Inl (err 404 (Text ''unknown job''))
      | Some rec \<Rightarrow>
          if \<not> live_lease who now (jr_status rec)
          then Inl (err 409 (Text ''only the worker holding a live lease on this job may upload for it''))
          else
            (case d_parse_payload D (js_payload (jr_spec rec)) of
               None \<Rightarrow> Inl (err 409 (Text ''this job is not a federated LoRA round''))
             | Some payload \<Rightarrow>
                 (case validate_payload (d_keccak D) payload of
                    Inl e \<Rightarrow> Inl (err 409 (Text ''round payload''))
                  | Inr _ \<Rightarrow>
                      Inr \<lparr>ut_sha = sha, ut_worker = who, ut_payload = payload,
                           ut_cap = min (round_cap (lp_config payload)) max_bytes\<rparr>)))"

definition authorise ::
  "'f deps \<Rightarrow> codec \<Rightarrow> u64 \<Rightarrow> u64 \<Rightarrow> upload_request \<Rightarrow> 'f coordinator \<Rightarrow> response + upload_ticket" where
  "authorise D H now max_bytes req c =
     (case parse_sha H (ur_sha req) of
        None \<Rightarrow> Inl (err 400 (Text ''path must be a 64-hex sha256''))
      | Some sha \<Rightarrow>
      (case ur_signature req of
        None \<Rightarrow> Inl (err 401 (Text ''missing upload signature''))
      | Some sig_hex \<Rightarrow>
      (case hx_decode H (trim_0x sig_hex) of
        None \<Rightarrow> Inl (err 401 (Text ''signature is not hex''))
      | Some sig \<Rightarrow>
      (case d_recover D (fl_delta_upload_digest (d_keccak D) (ur_job req) sha) sig of
        None \<Rightarrow> Inl (err 401 (Text ''signature does not recover''))
      | Some who \<Rightarrow> authorise_job D now max_bytes (co_state c) (ur_job req) who sha))))"

section \<open>The body\<close>

datatype body_event = BodyFailed | Chunk bytes | ChunkNotWritten bytes

text \<open>The loop over the body: what has been written so far, its length as counted, and the answer.\<close>

fun stream_loop :: "u64 \<Rightarrow> body_event list \<Rightarrow> bytes \<times> u64 \<Rightarrow> (response + unit) \<times> bytes \<times> u64" where
  "stream_loop cap [] (written, len) = (Inr (), written, len)"
| "stream_loop cap (BodyFailed # evs) (written, len) = (Inl (err 400 (Text ''body'')), written, len)"
| "stream_loop cap (ChunkNotWritten bs # evs) (written, len) =
     (let len1 = sat_add len (of_nat (length bs)) in
      if len1 > cap then (Inl (err 413 (Text ''delta exceeds the cap'')), written, len1)
      else (Inl (err 500 (Text ''write'')), written, len1))"
| "stream_loop cap (Chunk bs # evs) (written, len) =
     (let len1 = sat_add len (of_nat (length bs)) in
      if len1 > cap then (Inl (err 413 (Text ''delta exceeds the cap'')), written, len1)
      else stream_loop cap evs (written @ bs, len1))"

record upload_io =
  ui_create :: bool
  ui_sync :: bool
  ui_read :: bool
  ui_rename :: bool
  ui_remove :: bool

text \<open>The answer, and what is left in the temporary file, \<open>None\<close> if it was not created.\<close>

definition stream_to :: "upload_io \<Rightarrow> u64 \<Rightarrow> body_event list \<Rightarrow> (response + bytes \<times> u64) \<times> bytes option" where
  "stream_to io cap evs =
     (if \<not> ui_create io then (Inl (err 500 (Text ''create'')), None)
      else
        (case stream_loop cap evs ([], 0) of
           (Inl e, written, _) \<Rightarrow> (Inl e, Some written)
         | (Inr _, written, len) \<Rightarrow>
             if \<not> ui_sync io then (Inl (err 500 (Text ''sync'')), Some written)
             else (Inr (written, len), Some written)))"

text \<open>The checks on the received file.\<close>

definition names_ticket :: "upload_ticket \<Rightarrow> artifact \<Rightarrow> bool" where
  "names_ticket t art \<longleftrightarrow>
     (let cfg = lp_config (ut_payload t) in
      ar_round_id art = lp_round_id (ut_payload t) \<and> ar_worker art = ut_worker t \<and>
      ar_start_adapter_sha256 art = fc_start_adapter_sha256 cfg \<and> ar_chunk_dim art = fc_chunk_dim cfg \<and>
      ar_value_scale_log2 art = fc_value_scale_log2 cfg)"

definition check_upload ::
  "(bytes \<Rightarrow> b256) \<Rightarrow> bool \<Rightarrow> upload_ticket \<Rightarrow> bytes \<Rightarrow> u64 \<Rightarrow> response + unit" where
  "check_upload S read_ok t bs len =
     (if S bs \<noteq> ut_sha t then Inl (err 422 (Text ''the body does not hash to the path''))
      else if len < of_nat HEADER_LEN then Inl (err 422 (Text ''not a delta artifact''))
      else if \<not> read_ok then Inl (err 500 (Text ''read''))
      else
        (case decode_artifact bs (fc_max_values (lp_config (ut_payload t))) of
           Inl e \<Rightarrow> Inl (err 422 (Text ''artifact''))
         | Inr art \<Rightarrow>
             if names_ticket t art then Inr ()
             else Inl (err 422 (Text ''the artifact is not this worker's delta for this round''))))"

section \<open>The handler\<close>

type_synonym directory = "string \<Rightarrow> bytes option"

definition discard :: "upload_io \<Rightarrow> string \<Rightarrow> directory \<Rightarrow> directory" where
  "discard io name dir = (if ui_remove io then dir(name := None) else dir)"

definition left_over :: "string \<Rightarrow> bytes option \<Rightarrow> directory \<Rightarrow> directory" where
  "left_over name content dir = (case content of None \<Rightarrow> dir | Some bs \<Rightarrow> dir(name \<mapsto> bs))"

definition status_only :: "nat \<Rightarrow> response" where
  "status_only code = \<lparr>re_code = code, re_retry_after = None, re_body = NoBody\<rparr>"

text \<open>What happens once a ticket is given; \<open>tmp\<close> is the temporary name.\<close>

definition receive ::
  "(bytes \<Rightarrow> b256) \<Rightarrow> codec \<Rightarrow> upload_io \<Rightarrow> string \<Rightarrow> body_event list \<Rightarrow> upload_ticket \<Rightarrow> directory \<Rightarrow>
   response \<times> directory" where
  "receive S H io tmp evs t dir =
     (let dest = delta_file H (ut_sha t) in
      if dir dest \<noteq> None then (status_only 200, dir)
      else
        (case stream_to io (ut_cap t) evs of
           (Inl e, content) \<Rightarrow> (e, discard io tmp (left_over tmp content dir))
         | (Inr (bs, len), content) \<Rightarrow>
             (case check_upload S (ui_read io) t bs len of
                Inl e \<Rightarrow> (e, discard io tmp (left_over tmp content dir))
              | Inr _ \<Rightarrow>
                  if \<not> ui_rename io then (err 500 (Text ''rename''), discard io tmp (left_over tmp content dir))
                  else (status_only 201, dir(tmp := None, dest \<mapsto> bs)))))"

definition upload ::
  "'f deps \<Rightarrow> (bytes \<Rightarrow> b256) \<Rightarrow> codec \<Rightarrow> nat \<Rightarrow> nat \<Rightarrow> u64 \<Rightarrow> upload_io \<Rightarrow> u64 \<Rightarrow> upload_request \<Rightarrow> body_event list \<Rightarrow>
   'f coordinator \<Rightarrow> directory \<Rightarrow> response \<times> directory" where
  "upload D S H pid n max_bytes io now req evs c dir =
     (case authorise D H now max_bytes req c of
        Inl e \<Rightarrow> (e, dir)
      | Inr t \<Rightarrow> receive S H io (partial_file H pid (ut_sha t) n) evs t dir)"

section \<open>Many uploads at once\<close>

text \<open>The handler waits for its body, so uploads interleave, with one another and with everything else the
  coordinator does; between the look-up of the destination and the creation of the temporary file another upload may
  have stored the same delta.  A server has the directory, the uploads in flight by their counter, with what each has
  counted, and a history of the requests it let in: the clock, the request, the coordinator as it was at that moment and
  the ticket given.  The history is not part of the program; nothing the steps do depends on it.\<close>

record 'f upload_entry =
  ue_now :: u64
  ue_request :: upload_request
  ue_coordinator :: "'f coordinator"
  ue_ticket :: upload_ticket

record 'f upload_server =
  us_dir :: directory
  us_flights :: "nat \<Rightarrow> (upload_ticket \<times> u64) option"
  us_next :: nat
  us_history :: "'f upload_entry list"

inductive upload_step ::
  "'f deps \<Rightarrow> (bytes \<Rightarrow> b256) \<Rightarrow> codec \<Rightarrow> nat \<Rightarrow> u64 \<Rightarrow> 'f upload_server \<Rightarrow> 'f upload_server \<Rightarrow>
   bool"
  for D S H pid max_bytes where
  open_file:
    "authorise D H now max_bytes req c = Inr t \<Longrightarrow>
     upload_step D S H pid max_bytes v
       (v\<lparr>us_dir := (us_dir v)(partial_file H pid (ut_sha t) (us_next v) \<mapsto> []),
          us_flights := (us_flights v)(us_next v \<mapsto> (t, 0)), us_next := us_next v + 1,
          us_history := us_history v @
            [\<lparr>ue_now = now, ue_request = req, ue_coordinator = c, ue_ticket = t\<rparr>]\<rparr>)"
| chunk:
    "us_flights v n = Some (t, len) \<Longrightarrow> us_dir v (partial_file H pid (ut_sha t) n) = Some written \<Longrightarrow>
     length bs < 2 ^ 64 \<Longrightarrow> len1 = sat_add len (of_nat (length bs)) \<Longrightarrow> \<not> len1 > ut_cap t \<Longrightarrow>
     upload_step D S H pid max_bytes v
       (v\<lparr>us_dir := (us_dir v)(partial_file H pid (ut_sha t) n \<mapsto> written @ bs),
          us_flights := (us_flights v)(n \<mapsto> (t, len1))\<rparr>)"
| place:
    "us_flights v n = Some (t, len) \<Longrightarrow> us_dir v (partial_file H pid (ut_sha t) n) = Some written \<Longrightarrow>
     check_upload S True t written len = Inr () \<Longrightarrow>
     upload_step D S H pid max_bytes v
       (v\<lparr>us_dir := (us_dir v)(partial_file H pid (ut_sha t) n := None, delta_file H (ut_sha t) \<mapsto> written),
          us_flights := (us_flights v)(n := None)\<rparr>)"
| drop:
    "us_flights v n = Some (t, len) \<Longrightarrow>
     dir = us_dir v \<or> dir = (us_dir v)(partial_file H pid (ut_sha t) n := None) \<Longrightarrow>
     upload_step D S H pid max_bytes v (v\<lparr>us_dir := dir, us_flights := (us_flights v)(n := None)\<rparr>)"

definition empty_server :: "'f upload_server" where
  "empty_server = \<lparr>us_dir = Map.empty, us_flights = Map.empty, us_next = 0, us_history = []\<rparr>"

inductive upload_reachable ::
  "'f deps \<Rightarrow> (bytes \<Rightarrow> b256) \<Rightarrow> codec \<Rightarrow> nat \<Rightarrow> u64 \<Rightarrow> 'f upload_server \<Rightarrow> bool"
  for D S H pid max_bytes where
  start: "upload_reachable D S H pid max_bytes empty_server"
| step: "upload_reachable D S H pid max_bytes v \<Longrightarrow> upload_step D S H pid max_bytes v v' \<Longrightarrow>
     upload_reachable D S H pid max_bytes v'"

end
