(* ===== verification/Fl_Upload_Theorems.thy ===== *)
theory Fl_Upload_Theorems
  imports Fl_Upload
begin

text \<open>
  The directory of uploaded deltas: whatever uploads run at once, a file under the name of a hash has that hash and is
  the delta of a worker that held a live lease on a job of the round when it was let in.
\<close>

section \<open>Names\<close>

lemma cut_unique: "c \<notin> set a \<Longrightarrow> c \<notin> set b \<Longrightarrow> a @ c # x = b @ c # y \<Longrightarrow> a = b \<and> x = y"
proof (induction a arbitrary: b)
  case Nil
  then show ?case by (cases b) auto
next
  case (Cons d a)
  then show ?case by (cases b) auto
qed

context hex_codec
begin

lemma encode_inject [simp]: "hx_encode H as = hx_encode H bs \<longleftrightarrow> as = bs"
  by (metis decode_encode option.inject)

lemma no_dot: "CHR ''.'' \<notin> set (hx_encode H bs)"
  using digits [of "CHR ''.''" bs] by (auto simp: to_digit_def)

lemma delta_file_inject [simp]: "delta_file H sha = delta_file H sha' \<longleftrightarrow> sha = sha'"
  by (auto simp: delta_file_def to_be_bytes_inject)

lemma partial_not_delta [simp]: "partial_file H pid sha n \<noteq> delta_file H sha'"
proof -
  have "last (partial_file H pid sha n) \<noteq> last (delta_file H sha')"
    by (simp add: partial_file_def delta_file_def)
  then show ?thesis by metis
qed

lemmas delta_not_partial [simp] = partial_not_delta [symmetric]

lemma partial_inject [simp]: "partial_file H pid sha n = partial_file H pid sha' n' \<longleftrightarrow> sha = sha' \<and> n = n'"
proof
  assume "partial_file H pid sha n = partial_file H pid sha' n'"
  then have "hx_encode H (to_be_bytes sha) @ CHR ''.'' # show_dec pid @ ''.'' @ show_dec n @ ''.partial'' =
      hx_encode H (to_be_bytes sha') @ CHR ''.'' # show_dec pid @ ''.'' @ show_dec n' @ ''.partial''"
    by (simp add: partial_file_def)
  from cut_unique [OF no_dot no_dot this]
  have "hx_encode H (to_be_bytes sha) = hx_encode H (to_be_bytes sha')" "show_dec n = show_dec n'" by simp_all
  then show "sha = sha' \<and> n = n'" by (simp add: to_be_bytes_inject)
qed simp

end

section \<open>Tickets\<close>

text \<open>What a request has shown when it gets a ticket: its signature recovers to the worker of the ticket, and in the
  coordinator it was checked against that worker holds a lease on the job that has not run out.\<close>

definition entitled :: "'f deps \<Rightarrow> codec \<Rightarrow> u64 \<Rightarrow> 'f upload_entry \<Rightarrow> bool" where
  "entitled D H max_bytes u \<longleftrightarrow>
     (\<exists>hex sig rec e d.
        parse_sha H (ur_sha (ue_request u)) = Some (ut_sha (ue_ticket u)) \<and>
        ur_signature (ue_request u) = Some hex \<and> hx_decode H (trim_0x hex) = Some sig \<and>
        d_recover D (fl_delta_upload_digest (d_keccak D) (ur_job (ue_request u)) (ut_sha (ue_ticket u))) sig =
          Some (ut_worker (ue_ticket u)) \<and>
        bt_get (st_jobs (co_state (ue_coordinator u))) (ur_job (ue_request u)) = Some rec \<and>
        jr_status rec = Leased (ut_worker (ue_ticket u)) e d \<and> ue_now u < e \<and>
        d_parse_payload D (js_payload (jr_spec rec)) = Some (ut_payload (ue_ticket u)) \<and>
        validate_payload (d_keccak D) (ut_payload (ue_ticket u)) = Inr () \<and>
        ut_cap (ue_ticket u) = min (round_cap (lp_config (ut_payload (ue_ticket u)))) max_bytes)"

lemma live_leaseD: "live_lease who now status \<Longrightarrow> \<exists>e d. status = Leased who e d \<and> now < e"
  by (simp add: live_lease_def split: job_status.splits)

lemma authorise_entitled:
  assumes "authorise D H now max_bytes req c = Inr t"
  shows "entitled D H max_bytes \<lparr>ue_now = now, ue_request = req, ue_coordinator = c, ue_ticket = t\<rparr>"
proof -
  have job: "\<exists>rec. bt_get (st_jobs s) job = Some rec \<and> live_lease who now (jr_status rec) \<and>
      d_parse_payload D (js_payload (jr_spec rec)) = Some (ut_payload t) \<and>
      validate_payload (d_keccak D) (ut_payload t) = Inr () \<and> ut_sha t = sha \<and> ut_worker t = who \<and>
      ut_cap t = min (round_cap (lp_config (ut_payload t))) max_bytes"
    if "authorise_job D now max_bytes s job who sha = Inr t" for s job who sha
    using that by (auto simp: authorise_job_def split: option.splits if_splits sum.splits)
  from assms obtain sha hex sig who where "parse_sha H (ur_sha req) = Some sha"
    "ur_signature req = Some hex" "hx_decode H (trim_0x hex) = Some sig"
    "d_recover D (fl_delta_upload_digest (d_keccak D) (ur_job req) sha) sig = Some who"
    "authorise_job D now max_bytes (co_state c) (ur_job req) who sha = Inr t"
    by (auto simp: authorise_def split: option.splits)
  with job [OF this(5)] live_leaseD show ?thesis by (fastforce simp: entitled_def)
qed

lemma round_cap_bytes:
  "unat (round_cap cfg) = min (8 * unat (fc_max_values cfg) + HEADER_LEN) (2 ^ 64 - 1)"
  by (auto simp: round_cap_def checked_mul_def checked_add_def HEADER_LEN_def unat_of_nat unat_word_ariths unsigned_minus_1_eq_mask
      mask_eq_exp_minus_1 split: if_splits)

section \<open>The invariant\<close>

definition accepted :: "(bytes \<Rightarrow> b256) \<Rightarrow> upload_ticket \<Rightarrow> bytes \<Rightarrow> bool" where
  "accepted S t bs \<longleftrightarrow> S bs = ut_sha t \<and> min (length bs) (2 ^ 64 - 1) \<le> unat (ut_cap t) \<and>
     (\<exists>art. decode_artifact bs (fc_max_values (lp_config (ut_payload t))) = Inr art \<and> names_ticket t art)"

lemma check_upload_Inr:
  "check_upload S True t bs len = Inr () \<Longrightarrow> min (length bs) (2 ^ 64 - 1) \<le> unat (ut_cap t) \<Longrightarrow> accepted S t bs"
  by (auto simp: check_upload_def accepted_def split: if_splits sum.splits)

definition upload_ok :: "(bytes \<Rightarrow> b256) \<Rightarrow> codec \<Rightarrow> nat \<Rightarrow> 'f upload_server \<Rightarrow> bool" where
  "upload_ok S H pid v \<longleftrightarrow>
     (\<forall>n t len. us_flights v n = Some (t, len) \<longrightarrow>
        n < us_next v \<and> t \<in> ue_ticket ` set (us_history v) \<and>
        (\<exists>written. us_dir v (partial_file H pid (ut_sha t) n) = Some written \<and>
           unat len = min (length written) (2 ^ 64 - 1) \<and> len \<le> ut_cap t)) \<and>
     (\<forall>sha bs. us_dir v (delta_file H sha) = Some bs \<longrightarrow> (\<exists>u \<in> set (us_history v). ut_sha (ue_ticket u) = sha \<and> accepted S (ue_ticket u) bs))"

lemma chunk_length:
  assumes "unat (len :: u64) = min (length written) (2 ^ 64 - 1)" "length bs < 2 ^ 64"
  shows "unat (sat_add len (of_nat (length bs))) = min (length (written @ bs)) (2 ^ 64 - 1)"
  using assms by (simp add: unat_sat_add unat_of_nat)

lemma upload_step_ok:
  assumes H: "hex_codec H" and "upload_step D S H pid max_bytes v v'" "upload_ok S H pid v"
  shows "upload_ok S H pid v'"
  using assms(2,3)
proof cases
  case (open_file now req c t)
  note [simp] = hex_codec.partial_inject [OF H] hex_codec.partial_not_delta [OF H] hex_codec.delta_not_partial [OF H]
  show ?thesis
    using assms(3) unfolding upload_ok_def open_file(1) by (auto simp: less_Suc_eq)
next
  case (chunk n t len written bs len1)
  note [simp] = hex_codec.partial_inject [OF H] hex_codec.partial_not_delta [OF H] hex_codec.delta_not_partial [OF H]
  have w: "unat len = min (length written) (2 ^ 64 - 1)"
    using assms(3) [unfolded upload_ok_def] chunk(2,3) by (metis option.inject)
  have "unat len1 = min (length (written @ bs)) (2 ^ 64 - 1)"
    using chunk_length [OF w chunk(4)] chunk(5) by simp
  then show ?thesis
    using assms(3) chunk(2-6) unfolding upload_ok_def chunk(1) by auto
next
  case (place n t len written)
  note [simp] = hex_codec.partial_inject [OF H] hex_codec.partial_not_delta [OF H] hex_codec.delta_not_partial [OF H]
    hex_codec.delta_file_inject [OF H]
  have t: "t \<in> ue_ticket ` set (us_history v)" "unat len = min (length written) (2 ^ 64 - 1)" "len \<le> ut_cap t"
    using assms(3) [unfolded upload_ok_def] place(2,3) by (metis option.inject)+
  then have "accepted S t written"
    using check_upload_Inr [OF place(4)] by (simp add: word_le_nat_alt)
  with t(1) have "\<exists>u \<in> set (us_history v). ut_sha (ue_ticket u) = ut_sha t \<and> accepted S (ue_ticket u) written"
    by auto
  then show ?thesis
    using assms(3) place(2,3) unfolding upload_ok_def place(1) by auto
next
  case (drop n t len dir)
  note [simp] = hex_codec.partial_inject [OF H] hex_codec.partial_not_delta [OF H] hex_codec.delta_not_partial [OF H]
  show ?thesis
    using assms(3) drop(2,3) unfolding upload_ok_def drop(1) by auto
qed

lemma uploads_ok:
  assumes H: "hex_codec H"
  shows "upload_reachable D S H pid max_bytes v \<Longrightarrow>
    upload_ok S H pid v \<and> (\<forall>u \<in> set (us_history v). entitled D H max_bytes u)"
proof (induction rule: upload_reachable.induct)
  case start
  show ?case by (simp add: empty_server_def upload_ok_def)
next
  case (step v v')
  from step.hyps(2) have "\<forall>u \<in> set (us_history v'). u \<in> set (us_history v) \<or> entitled D H max_bytes u"
  proof cases
    case (open_file now req c t)
    with authorise_entitled [OF open_file(2)] show ?thesis by auto
  qed simp_all
  with step.IH upload_step_ok [OF H step.hyps(2)] show ?case by blast
qed

section \<open>The handler takes these steps\<close>

lemma stream_loop_steps:
  assumes "us_flights v n = Some (t, len)" "us_dir v (partial_file H pid (ut_sha t) n) = Some written"
    "stream_loop (ut_cap t) evs (written, len) = (res, written', len')"
    "list_all (\<lambda>e. case e of Chunk bs \<Rightarrow> length bs < 2 ^ 64 | _ \<Rightarrow> True) evs"
  shows "\<exists>v' l. (upload_step D S H pid max_bytes)\<^sup>*\<^sup>* v v' \<and> us_flights v' n = Some (t, l) \<and>
    us_dir v' = (us_dir v)(partial_file H pid (ut_sha t) n \<mapsto> written') \<and> (res = Inr () \<longrightarrow> l = len')"
  using assms
proof (induction "ut_cap t" evs "(written, len)" arbitrary: v written len rule: stream_loop.induct)
  case (1 written len)
  then show ?case by (intro exI [of _ v] exI [of _ len]) auto
next
  case (2 evs written len)
  then show ?case by (intro exI [of _ v] exI [of _ len]) auto
next
  case (3 bs evs written len)
  then show ?case by (intro exI [of _ v] exI [of _ len]) (auto simp: Let_def split: if_splits)
next
  case (4 bs evs written len)
  define len1 where "len1 = sat_add len (of_nat (length bs))"
  show ?case
  proof (cases "len1 > ut_cap t")
    case True
    with "4.prems" show ?thesis by (intro exI [of _ v] exI [of _ len]) (auto simp: len1_def Let_def)
  next
    case False
    let ?tmp = "partial_file H pid (ut_sha t) n"
    let ?v = "v\<lparr>us_dir := (us_dir v)(?tmp \<mapsto> written @ bs), us_flights := (us_flights v)(n \<mapsto> (t, len1))\<rparr>"
    have st: "upload_step D S H pid max_bytes v ?v"
      by (rule chunk [where bs = bs, OF "4.prems"(1,2) _ len1_def False]) (use "4.prems"(4) in simp)
    have "\<exists>v' l. (upload_step D S H pid max_bytes)\<^sup>*\<^sup>* ?v v' \<and> us_flights v' n = Some (t, l) \<and>
      us_dir v' = (us_dir ?v)(?tmp \<mapsto> written') \<and> (res = Inr () \<longrightarrow> l = len')"
      by (rule "4.hyps" [OF len1_def]) (use "4.prems" False in \<open>simp_all add: len1_def Let_def\<close>)
    then show ?thesis using converse_rtranclp_into_rtranclp [of "upload_step D S H pid max_bytes", OF st] by auto
  qed
qed

lemma partial_dropped:
  assumes "(upload_step D S H pid max_bytes)\<^sup>*\<^sup>* v v1" "us_flights v1 n = Some (t, l)"
    "us_dir v1 = (us_dir v)(partial_file H pid (ut_sha t) n \<mapsto> bs)"
  shows "\<exists>v'. (upload_step D S H pid max_bytes)\<^sup>*\<^sup>* v v' \<and>
    us_dir v' = discard io (partial_file H pid (ut_sha t) n) (left_over (partial_file H pid (ut_sha t) n) (Some bs) (us_dir v))"
proof -
  let ?tmp = "partial_file H pid (ut_sha t) n"
  let ?dir = "if ui_remove io then (us_dir v1)(?tmp := None) else us_dir v1"
  have "upload_step D S H pid max_bytes v1 (v1\<lparr>us_dir := ?dir, us_flights := (us_flights v1)(n := None)\<rparr>)"
    by (rule drop [OF assms(2)]) simp
  with assms(1) have "(upload_step D S H pid max_bytes)\<^sup>*\<^sup>* v (v1\<lparr>us_dir := ?dir, us_flights := (us_flights v1)(n := None)\<rparr>)"
    by (rule rtranclp.rtrancl_into_rtrancl)
  then show ?thesis
    by (rule exI [where x = "v1\<lparr>us_dir := ?dir, us_flights := (us_flights v1)(n := None)\<rparr>", OF conjI])
      (simp add: assms(3) discard_def left_over_def)
qed

definition chunks_fit :: "body_event list \<Rightarrow> bool" where
  "chunks_fit evs = list_all (\<lambda>e. case e of Chunk bs \<Rightarrow> length bs < 2 ^ 64 | _ \<Rightarrow> True) evs"

lemma receive_steps:
  assumes t: "authorise D H now max_bytes req c = Inr t" and evs: "chunks_fit evs"
    and r: "receive S H io (partial_file H pid (ut_sha t) (us_next v)) evs t (us_dir v) = (res, dir)"
  shows "\<exists>v'. (upload_step D S H pid max_bytes)\<^sup>*\<^sup>* v v' \<and> us_dir v' = dir"
proof -
  let ?n = "us_next v"
  let ?tmp = "partial_file H pid (ut_sha t) ?n"
  let ?v = "v\<lparr>us_dir := (us_dir v)(?tmp \<mapsto> []), us_flights := (us_flights v)(?n \<mapsto> (t, 0)), us_next := ?n + 1,
      us_history := us_history v @ [\<lparr>ue_now = now, ue_request = req, ue_coordinator = c, ue_ticket = t\<rparr>]\<rparr>"
  have opened: "(upload_step D S H pid max_bytes)\<^sup>*\<^sup>* v ?v"
    by (rule r_into_rtranclp, rule open_file [OF t])
  obtain lr written len where l: "stream_loop (ut_cap t) evs ([], 0) = (lr, written, len)" by (cases "stream_loop (ut_cap t) evs ([], 0)")
  have "\<exists>v' l. (upload_step D S H pid max_bytes)\<^sup>*\<^sup>* ?v v' \<and> us_flights v' ?n = Some (t, l) \<and>
      us_dir v' = (us_dir ?v)(?tmp \<mapsto> written) \<and> (lr = Inr () \<longrightarrow> l = len)"
    by (rule stream_loop_steps [OF _ _ l evs [unfolded chunks_fit_def]]) simp_all
  then obtain v1 len1 where v1: "(upload_step D S H pid max_bytes)\<^sup>*\<^sup>* v v1" "us_flights v1 ?n = Some (t, len1)"
    "us_dir v1 = (us_dir v)(?tmp \<mapsto> written)" "lr = Inr () \<longrightarrow> len1 = len"
    using rtranclp_trans [OF opened] by auto
  note dropped = partial_dropped [OF v1(1-3), of io]
  have created: "\<exists>v'. (upload_step D S H pid max_bytes)\<^sup>*\<^sup>* v v' \<and>
      us_dir v' = discard io ?tmp (left_over ?tmp (Some []) (us_dir v))"
    by (rule partial_dropped [OF opened]) simp_all
  consider (there) "dir = us_dir v" | (none) "dir = discard io ?tmp (left_over ?tmp None (us_dir v))"
    | (some) "dir = discard io ?tmp (left_over ?tmp (Some written) (us_dir v))"
    | (placed) "lr = Inr ()" "check_upload S True t written len = Inr ()"
        "dir = (us_dir v)(?tmp := None, delta_file H (ut_sha t) \<mapsto> written)"
    using r l by (auto simp: receive_def stream_to_def Let_def check_upload_def split: if_splits sum.splits)
  then show ?thesis
  proof cases
    case there
    then show ?thesis by blast
  next
    case none
    then have "dir = us_dir v \<or> dir = discard io ?tmp (left_over ?tmp (Some []) (us_dir v))"
      by (auto simp: discard_def left_over_def)
    then show ?thesis using created by auto
  next
    case some
    then show ?thesis using dropped by blast
  next
    case placed
    have "upload_step D S H pid max_bytes v1
        (v1\<lparr>us_dir := (us_dir v1)(?tmp := None, delta_file H (ut_sha t) \<mapsto> written),
            us_flights := (us_flights v1)(?n := None)\<rparr>)"
      by (rule place [OF v1(2)]) (use v1(3,4) placed in simp_all)
    with v1(1) have "(upload_step D S H pid max_bytes)\<^sup>*\<^sup>* v
        (v1\<lparr>us_dir := (us_dir v1)(?tmp := None, delta_file H (ut_sha t) \<mapsto> written), us_flights := (us_flights v1)(?n := None)\<rparr>)"
      by (rule rtranclp.rtrancl_into_rtrancl)
    then show ?thesis
      by (rule exI [where x = "v1\<lparr>us_dir := (us_dir v1)(?tmp := None, delta_file H (ut_sha t) \<mapsto> written),
          us_flights := (us_flights v1)(?n := None)\<rparr>", OF conjI]) (simp add: placed(3) v1(3))
  qed
qed

lemma reachable_steps:
  "(upload_step D S H pid max_bytes)\<^sup>*\<^sup>* v v' \<Longrightarrow> upload_reachable D S H pid max_bytes v \<Longrightarrow>
    upload_reachable D S H pid max_bytes v'"
  by (induction rule: rtranclp_induct) (auto intro: upload_reachable.step)

section \<open>A small round\<close>

definition ex_payload :: lora_payload where "ex_payload = new_payload (\<lambda>_. 1) example_config 5"

definition ex_deps :: "unit deps" where
  "ex_deps = \<lparr>d_keccak = (\<lambda>_. 1), d_recover = (\<lambda>_ _. Some 10), d_parse_json = (\<lambda>_. Inl ''''), d_parse_probe = (\<lambda>_. Inl ''''),
     d_parse_payload = (\<lambda>_. Some ex_payload), d_ser = (\<lambda>_. ()), d_de = (\<lambda>_. None)\<rparr>"

definition ex_coordinator :: "unit coordinator" where
  "ex_coordinator =
     \<lparr>co_state = default_state\<lparr>st_jobs := [(''j'', \<lparr>jr_spec = new_job_spec ''j'' Probe JNull, jr_status = Leased 10 200 300,
        jr_attempts = 1, jr_failed_by = {}, jr_result = None, jr_failed_by_sources = {}, jr_held_until = 0,
        jr_persisted_expiry = 0\<rparr>)]\<rparr>,
      co_disk = \<lparr>dk_target = None, dk_tmp = False, dk_after_crash = {}\<rparr>, co_admission = new_admission,
      co_budget = new_budget\<rparr>"

definition ex_request :: upload_request where
  "ex_request = \<lparr>ur_sha = hx_encode lower_hex (to_be_bytes (9 :: b256)), ur_signature = Some '''', ur_job = ''j''\<rparr>"

definition ex_ticket :: upload_ticket where
  "ex_ticket = \<lparr>ut_sha = 9, ut_worker = 10, ut_payload = ex_payload, ut_cap = min (round_cap example_config) 5000\<rparr>"

definition ex_delta :: artifact where
  "ex_delta = \<lparr>ar_value_scale_log2 = 8, ar_round_id = 1, ar_worker = 10, ar_start_adapter_sha256 = 4,
     ar_trained_adapter_sha256 = 6, ar_manifest_hash = 1, ar_chunk_dim = 4, ar_values = [1, 2]\<rparr>"

lemma ex_payload_fields [simp]:
  "lp_config ex_payload = example_config" "lp_round_id ex_payload = 1" "validate_payload (\<lambda>_. 1) ex_payload = Inr ()"
  by (simp_all add: validate_payload_ok example_config_ok ex_payload_def new_payload_def config_round_id_def round_id_def fl_keccak_def)

lemma ex_authorise: "authorise ex_deps lower_hex 100 5000 ex_request ex_coordinator = Inr ex_ticket"
proof -
  have "parse_sha lower_hex (ur_sha ex_request) = Some 9"
    by (simp add: parse_sha_def ex_request_def lower.decode_encode) (simp add: lower_hex_def)
  moreover have "hx_decode lower_hex (trim_0x '''') = Some []" by code_simp
  ultimately show ?thesis
    by (simp add: authorise_def authorise_job_def ex_deps_def ex_request_def ex_coordinator_def ex_ticket_def live_lease_def)
qed

lemma ex_delta_ok: "artifact_ok 100 ex_delta" "length (encode_artifact ex_delta) = 184" "names_ticket ex_ticket ex_delta"
  using encode_slices(1) [of ex_delta]
  by (simp_all add: artifact_ok_def ex_delta_def names_ticket_def ex_ticket_def)

lemma ex_cap: "ut_cap ex_ticket = 968" "ut_sha ex_ticket = 9" "ut_payload ex_ticket = ex_payload"
proof -
  have "round_cap example_config = 968"
    by (simp add: round_cap_def checked_mul_def checked_add_def HEADER_LEN_def)
  then show "ut_cap ex_ticket = 968" "ut_sha ex_ticket = 9" "ut_payload ex_ticket = ex_payload" by (simp_all add: ex_ticket_def)
qed

text \<open>C27: The handler of uploads is a run of the steps: whatever a request does, from a server that was
  reached by uploads in any order, the directory it leaves is that of a server reached by uploads.\<close>

theorem upload_refines:
  assumes "chunks_fit evs" "upload_reachable D S H pid max_bytes v"
  shows "\<exists>v'. upload_reachable D S H pid max_bytes v' \<and>
    us_dir v' = snd (upload D S H pid (us_next v) max_bytes io now req evs c (us_dir v))"
proof (cases "authorise D H now max_bytes req c")
  case (Inl e)
  then show ?thesis using assms(2) by (intro exI [of _ v]) (simp add: upload_def)
next
  case (Inr t)
  obtain res dir where r: "receive S H io (partial_file H pid (ut_sha t) (us_next v)) evs t (us_dir v) = (res, dir)"
    by fastforce
  from receive_steps [OF Inr assms(1) r] assms(2) show ?thesis
    by (auto simp: upload_def Inr r intro: reachable_steps)
qed

definition all_ok :: upload_io where
  "all_ok = \<lparr>ui_create = True, ui_sync = True, ui_read = True, ui_rename = True, ui_remove = True\<rparr>"

lemma ex_upload:
  "upload ex_deps (\<lambda>_. 9) lower_hex 77 0 5000 all_ok 100 ex_request [Chunk (encode_artifact ex_delta)] ex_coordinator Map.empty =
     (status_only 201, [delta_file lower_hex 9 \<mapsto> encode_artifact ex_delta])"
proof -
  have fits: "sat_add 0 184 = (184 :: u64)" by (simp add: sat_add_def)
  have check: "check_upload (\<lambda>_. 9) True ex_ticket (encode_artifact ex_delta) 184 = Inr ()"
    by (simp add: check_upload_def ex_cap decode_encode ex_delta_ok HEADER_LEN_def)
  show ?thesis
    by (simp add: upload_def ex_authorise receive_def stream_to_def all_ok_def ex_cap ex_delta_ok fits check fun_eq_iff
        lower.partial_not_delta lower.delta_not_partial)
qed

theorem upload_refines_witness:
  "\<exists>v'. upload_reachable ex_deps (\<lambda>_. 9) lower_hex 77 5000 v' \<and> us_dir v' = [delta_file lower_hex 9 \<mapsto> encode_artifact ex_delta]"
  using upload_refines [of "[Chunk (encode_artifact ex_delta)]" ex_deps "\<lambda>_. 9" lower_hex 77 5000 empty_server all_ok 100
      ex_request ex_coordinator, OF _ upload_reachable.start]
  by (simp add: empty_server_def ex_upload chunks_fit_def ex_delta_ok)

text \<open>C6: The stored deltas, with any number of uploads interleaved chunk by chunk.  A file under the name of a hash has
  that hash, is no longer than the configured maximum and than the header and the values of its round, and decodes to
  an artifact of the round and the worker of a ticket.  That ticket was given, and the history has the request, the
  moment and the coordinator's state it was given in: the path of the request was this hash, its signature over the job
  and the hash recovers to the worker, and at that moment that worker held a lease on the job that had not run out, the
  job being a valid round.\<close>

theorem stored_delta_is_authorised:
  assumes "hex_codec H" "upload_reachable D S H pid max_bytes v" "us_dir v (delta_file H sha) = Some bs"
  shows "\<exists>u t payload cfg art. u \<in> set (us_history v) \<and> t = ue_ticket u \<and> payload = ut_payload t \<and>
      cfg = lp_config payload \<and> S bs = sha \<and>
      min (length bs) (2 ^ 64 - 1) \<le> min (unat max_bytes) (8 * unat (fc_max_values cfg) + HEADER_LEN) \<and>
      decode_artifact bs (fc_max_values cfg) = Inr art \<and>
      ar_round_id art = lp_round_id payload \<and> ar_worker art = ut_worker t \<and>
      ar_start_adapter_sha256 art = fc_start_adapter_sha256 cfg \<and> ar_chunk_dim art = fc_chunk_dim cfg \<and>
      ar_value_scale_log2 art = fc_value_scale_log2 cfg \<and>
      parse_sha H (ur_sha (ue_request u)) = Some sha \<and>
      (\<exists>hex sig rec e d.
         ur_signature (ue_request u) = Some hex \<and> hx_decode H (trim_0x hex) = Some sig \<and>
         d_recover D (fl_delta_upload_digest (d_keccak D) (ur_job (ue_request u)) sha) sig = Some (ar_worker art) \<and>
         bt_get (st_jobs (co_state (ue_coordinator u))) (ur_job (ue_request u)) = Some rec \<and>
         jr_status rec = Leased (ar_worker art) e d \<and> ue_now u < e \<and>
         d_parse_payload D (js_payload (jr_spec rec)) = Some payload \<and>
         validate_payload (d_keccak D) payload = Inr ())"
proof -
  obtain u where u: "u \<in> set (us_history v)" "ut_sha (ue_ticket u) = sha" "accepted S (ue_ticket u) bs"
    "entitled D H max_bytes u"
    using uploads_ok [OF assms(1,2)] assms(3) unfolding upload_ok_def by blast
  obtain art where art: "decode_artifact bs (fc_max_values (lp_config (ut_payload (ue_ticket u)))) = Inr art"
    "names_ticket (ue_ticket u) art" "S bs = sha" "min (length bs) (2 ^ 64 - 1) \<le> unat (ut_cap (ue_ticket u))"
    using u(2,3) by (auto simp: accepted_def)
  have cap: "ut_cap (ue_ticket u) = min (round_cap (lp_config (ut_payload (ue_ticket u)))) max_bytes"
    using u(4) by (auto simp: entitled_def)
  have "unat (ut_cap (ue_ticket u)) \<le> unat max_bytes"
    "unat (ut_cap (ue_ticket u)) \<le> 8 * unat (fc_max_values (lp_config (ut_payload (ue_ticket u)))) + HEADER_LEN"
    using round_cap_bytes [of "lp_config (ut_payload (ue_ticket u))"] unfolding cap
    by (auto simp: min_def word_le_nat_alt split: if_splits)
  with u art show ?thesis
    by (intro exI [of _ u] exI [of _ "ue_ticket u"] exI [of _ "ut_payload (ue_ticket u)"]
        exI [of _ "lp_config (ut_payload (ue_ticket u))"] exI [of _ art])
      (auto simp: entitled_def names_ticket_def Let_def)
qed

lemma ex_stored:
  "\<exists>v. upload_reachable ex_deps (\<lambda>_. 9) lower_hex 77 5000 v \<and> us_dir v (delta_file lower_hex 9) = Some (encode_artifact ex_delta)"
proof -
  let ?s = "empty_server :: unit upload_server"
  let ?r = "receive (\<lambda>_. 9) lower_hex all_ok (partial_file lower_hex 77 (ut_sha ex_ticket) (us_next ?s))
    [Chunk (encode_artifact ex_delta)] ex_ticket (us_dir ?s)"
  have fits: "chunks_fit [Chunk (encode_artifact ex_delta)]" by (simp add: chunks_fit_def ex_delta_ok)
  have r: "?r = (status_only 201, [delta_file lower_hex 9 \<mapsto> encode_artifact ex_delta])"
    using ex_upload by (simp add: upload_def ex_authorise ex_cap empty_server_def)
  obtain v where v: "(upload_step ex_deps (\<lambda>_. 9) lower_hex 77 5000)\<^sup>*\<^sup>* empty_server v"
    "us_dir v = [delta_file lower_hex 9 \<mapsto> encode_artifact ex_delta]"
    using receive_steps [OF ex_authorise fits r] by blast
  from reachable_steps [OF v(1) upload_reachable.start] v(2) show ?thesis by auto
qed

theorem stored_delta_is_authorised_witness:
  "\<exists>(v :: unit upload_server) u (art :: artifact). upload_reachable ex_deps (\<lambda>_. 9) lower_hex 77 5000 v \<and>
     us_dir v (delta_file lower_hex 9) = Some (encode_artifact ex_delta) \<and> u \<in> set (us_history v) \<and>
     (\<exists>rec e d. bt_get (st_jobs (co_state (ue_coordinator u))) (ur_job (ue_request u)) = Some rec \<and>
        jr_status rec = Leased (ar_worker art) e d \<and> ue_now u < e)"
proof -
  obtain v where v: "upload_reachable ex_deps (\<lambda>_. 9) lower_hex 77 5000 v"
    "us_dir v (delta_file lower_hex 9) = Some (encode_artifact ex_delta)"
    using ex_stored by blast
  from stored_delta_is_authorised [OF lower.hex_codec_axioms v] v show ?thesis by blast
qed

end
