(* ===== verification/Local_Files.thy ===== *)
theory Local_Files
  imports Text_Format
begin

text \<open>
  The part of Rust's \<^verbatim>\<open>std::fs\<close>, \<^verbatim>\<open>std::path\<close> and \<^verbatim>\<open>str::lines\<close> that the worker's runners use.  A path
  is its text; a file system is what reading, asking for the length and asking for existence answer;
  which operation of a step fails, and what a failed write leaves, is given by a record of faults.
\<close>

datatype io_failure = NotFound | OtherIo string

record files =
  fs_read :: "string \<Rightarrow> io_failure + bytes"
  fs_len :: "string \<Rightarrow> io_failure + u64"
  fs_exists :: "string \<Rightarrow> bool"

definition write_file :: "string \<Rightarrow> bytes \<Rightarrow> files \<Rightarrow> files" where
  "write_file p bs fs =
     fs\<lparr>fs_read := (fs_read fs)(p := Inr bs), fs_len := (fs_len fs)(p := Inr (of_nat (length bs))),
        fs_exists := (fs_exists fs)(p := True)\<rparr>"

definition remove_file :: "string \<Rightarrow> files \<Rightarrow> files" where
  "remove_file p fs =
     fs\<lparr>fs_read := (fs_read fs)(p := Inl NotFound), fs_len := (fs_len fs)(p := Inl NotFound),
        fs_exists := (fs_exists fs)(p := False)\<rparr>"

lemma fs_read_update [simp]:
  "fs_read (write_file p bs fs) q = (if q = p then Inr bs else fs_read fs q)"
  "fs_read (remove_file p fs) q = (if q = p then Inl NotFound else fs_read fs q)"
  by (simp_all add: write_file_def remove_file_def)

text \<open>\<^verbatim>\<open>read_to_string\<close>: the bytes must be UTF-8.\<close>

definition read_to_string :: "files \<Rightarrow> string \<Rightarrow> io_failure + string" where
  "read_to_string fs p =
     (case fs_read fs p of
        Inl e \<Rightarrow> Inl e
      | Inr bs \<Rightarrow> if valid_utf8 bs then Inr (map byte_char bs) else Inl (OtherIo ''stream did not contain valid UTF-8''))"

section \<open>Paths\<close>

text \<open>\<^verbatim>\<open>Path::join\<close> with a relative second part.\<close>

definition path_join :: "string \<Rightarrow> string \<Rightarrow> string" where
  "path_join a b = (if a = [] \<or> last a = CHR ''/'' then a @ b else a @ ''/'' @ b)"

text \<open>\<^verbatim>\<open>Path::with_extension\<close> of a path that ends in a file name.\<close>

definition with_extension :: "string \<Rightarrow> string \<Rightarrow> string" where
  "with_extension ext p =
     (let r = rev p; name = takeWhile (\<lambda>c. c \<noteq> CHR ''/'') r; dir = dropWhile (\<lambda>c. c \<noteq> CHR ''/'') r;
          stem = drop 1 (dropWhile (\<lambda>c. c \<noteq> CHR ''.'') name)
      in (if stem = [] then p else rev dir @ rev stem) @ ''.'' @ ext)"

text \<open>\<^verbatim>\<open>Path::parent\<close> is absent for the empty path and the root only.\<close>

definition has_parent :: "string \<Rightarrow> bool" where
  "has_parent p \<longleftrightarrow> (\<exists>c \<in> set p. c \<noteq> CHR ''/'')"

text \<open>\<^verbatim>\<open>Path::parent\<close> of a path with a directory: what is before the last slash.\<close>

definition parent_dir :: "string \<Rightarrow> string option" where
  "parent_dir p =
     (case dropWhile (\<lambda>c. c \<noteq> CHR ''/'') (rev p) of _ # dir \<Rightarrow> Some (rev dir) | [] \<Rightarrow> None)"

section \<open>Writing a file whole\<close>

record write_faults =
  wf_mkdir :: "string option"
  wf_write :: "(string \<times> bytes option) option"
  wf_rename :: "string option"
  wf_remove :: bool

text \<open>The directory is made, the bytes go to a temporary file next to the destination, and a rename puts
  them in place; what stopped it, if anything did, is the error.\<close>

definition replace_file :: "write_faults \<Rightarrow> string \<Rightarrow> bytes \<Rightarrow> files \<Rightarrow> (string + unit) \<times> files" where
  "replace_file w dest bs fs =
     (if \<not> has_parent dest then (Inl ''destination has no parent'', fs)
      else
        case wf_mkdir w of
          Some e \<Rightarrow> (Inl e, fs)
        | None \<Rightarrow>
            let tmp = with_extension ''partial'' dest in
            case wf_write w of
              Some (e, left) \<Rightarrow> (Inl e, case left of None \<Rightarrow> fs | Some part \<Rightarrow> write_file tmp part fs)
            | None \<Rightarrow>
                let written = write_file tmp bs fs in
                case wf_rename w of
                  Some e \<Rightarrow> (Inl e, if wf_remove w then written else remove_file tmp written)
                | None \<Rightarrow> (Inr (), write_file dest bs (remove_file tmp written)))"

lemma replace_file_effect:
  assumes "replace_file w dest bs fs = (r, fs')"
  shows "r = Inr () \<Longrightarrow> fs_read fs' dest = Inr bs"
    and "r \<noteq> Inr () \<Longrightarrow> dest \<noteq> with_extension ''partial'' dest \<Longrightarrow> fs_read fs' dest = fs_read fs dest"
    and "p \<noteq> dest \<Longrightarrow> p \<noteq> with_extension ''partial'' dest \<Longrightarrow> fs_read fs' p = fs_read fs p"
  using assms by (auto simp: replace_file_def Let_def split: if_splits option.splits)

section \<open>Lines\<close>

text \<open>\<^verbatim>\<open>str::lines\<close>: the pieces between line feeds, without the carriage return before one; the piece after
  the last line feed is a line unless it is empty.\<close>

definition chop_cr :: "string \<Rightarrow> string" where
  "chop_cr s = (if s \<noteq> [] \<and> last s = char_of (13 :: nat) then butlast s else s)"

definition str_lines :: "string \<Rightarrow> string list" where
  "str_lines s =
     (let ps = split_on (char_of (10 :: nat)) s
      in map chop_cr (butlast ps) @ (if last ps = [] then [] else [last ps]))"

definition blank_line :: "string \<Rightarrow> bool" where
  "blank_line s \<longleftrightarrow> only_white_space (str_bytes s)"

end
