(* ===== verification/Fl_Runner.thy ===== *)
theory Fl_Runner
  imports Fl_Round Wallet Local_Files
begin

text \<open>
  One federated job on a member's device, \<^verbatim>\<open>training-worker/src/fl/runner.rs\<close>.  Everything that can be
  refused is refused before the trainer starts: \<open>lora_admit\<close> and \<open>staged_inputs\<close> are the two groups of
  checks in the order of \<^verbatim>\<open>run\<close>, and \<open>produce\<close> and \<open>sign_result\<close> are what follows the training.

  The JSON readers, the trainer and the measured time are parameters (record \<open>runner_env\<close>); the trainer
  acts on the whole file system.
\<close>

definition MAX_DATASET_BYTES :: u64 where "MAX_DATASET_BYTES = push_bit 20 256"

section \<open>The dataset\<close>

datatype dataset_refusal =
    NotUtf8
  | NotExportLine nat string
  | LineWithoutMessages nat
  | LineBadRole nat string
  | LineWithoutVerifier nat
  | ExportEmpty

text \<open>A line as the runner reads it: the roles of the messages and the verifiers.\<close>

record shape_line =
  sl_roles :: "string list"
  sl_verifiers :: "string list"

definition export_role :: "string \<Rightarrow> bool" where
  "export_role r \<longleftrightarrow> r = ''user'' \<or> r = ''assistant'' \<or> r = ''tool''"

fun verify_lines :: "(string \<Rightarrow> string + shape_line) \<Rightarrow> nat \<Rightarrow> u64 \<Rightarrow> string list \<Rightarrow> dataset_refusal + u64" where
  "verify_lines parse i n [] = Inr n"
| "verify_lines parse i n (line # rest) =
     (if blank_line line then verify_lines parse (i + 1) n rest
      else
        case parse line of
          Inl e \<Rightarrow> Inl (NotExportLine (i + 1) e)
        | Inr ex \<Rightarrow>
            if sl_roles ex = [] then Inl (LineWithoutMessages (i + 1))
            else
              case find (\<lambda>r. \<not> export_role r) (sl_roles ex) of
                Some r \<Rightarrow> Inl (LineBadRole (i + 1) r)
              | None \<Rightarrow>
                  if sl_verifiers ex = [] then Inl (LineWithoutVerifier (i + 1))
                  else verify_lines parse (i + 1) (n + 1) rest)"

definition verify_dataset :: "(string \<Rightarrow> string + shape_line) \<Rightarrow> bytes \<Rightarrow> dataset_refusal + u64" where
  "verify_dataset parse bs =
     (if \<not> valid_utf8 bs then Inl NotUtf8
      else
        case verify_lines parse 0 0 (str_lines (map byte_char bs)) of
          Inl e \<Rightarrow> Inl e
        | Inr n \<Rightarrow> if n = 0 then Inl ExportEmpty else Inr n)"

section \<open>The device\<close>

record device_config =
  dv_store :: string
  dv_dataset :: string
  dv_consent_file :: "string option"

definition device_from_env :: "(string \<Rightarrow> string option) \<Rightarrow> device_config option" where
  "device_from_env env =
     (case env ''CITRATE_FL_DATASET'' of
        None \<Rightarrow> None
      | Some dataset \<Rightarrow>
          Some \<lparr>dv_store = (case env ''CITRATE_FL_STORE'' of Some s \<Rightarrow> s | None \<Rightarrow> ''./fl''),
                dv_dataset = dataset, dv_consent_file = env ''CITRATE_FL_CONSENT_FILE''\<rparr>)"

definition fl_model_path :: "codec \<Rightarrow> device_config \<Rightarrow> b256 \<Rightarrow> string" where
  "fl_model_path H d sha =
     path_join (path_join (dv_store d) ''models'') (hx_encode H (to_be_bytes sha) @ ''.gguf'')"

definition adapter_path :: "codec \<Rightarrow> device_config \<Rightarrow> b256 \<Rightarrow> string" where
  "adapter_path H d sha =
     path_join (path_join (dv_store d) ''adapters'') (hx_encode H (to_be_bytes sha) @ ''.gguf'')"

definition marker :: "codec \<Rightarrow> device_config \<Rightarrow> b256 \<Rightarrow> string" where
  "marker H d rid = path_join (path_join (dv_store d) ''contributed'') (hx_encode H (to_be_bytes rid))"

datatype lora_run_error =
    BadPayload string
  | BadRound payload_error
  | NotInRoster string
  | NoConsent string
  | AlreadyContributed string
  | NoTrainer
  | NotStaged string string
  | FileHash string string b256
  | BadDataset dataset_refusal
  | DatasetTooLong u64
  | Training string
  | BadAdapter string
  | BadGguf gguf_error
  | BadDelta delta_error
  | TooManyValues nat
  | Signing string
  | RunIo io_failure

record train_request =
  tq_base_model :: string
  tq_start_adapter :: string
  tq_dataset :: string
  tq_out :: string
  tq_round_id_hex :: string

record trainer =
  tn_id :: string
  tn_train :: "train_request \<Rightarrow> files \<Rightarrow> (string + unit) \<times> files"

record 'x runner_env =
  rv_round :: round_deps
  rv_wallet_deps :: "'x wallet_deps"
  rv_consent :: "string \<Rightarrow> string + string list"
  rv_export :: "string \<Rightarrow> string + shape_line"
  rv_result_json :: "lora_result \<Rightarrow> string + string"
  rv_mkdir :: "string \<Rightarrow> io_failure option"
  rv_removed :: bool
  rv_seconds :: rat

record 'x lora_runner =
  ln_device :: device_config
  ln_trainer :: "trainer option"
  ln_wallet :: "'x wallet"

record lora_output =
  lo_result :: lora_result
  lo_result_json :: string
  lo_artifact :: bytes
  lo_artifact_sha256 :: b256

definition fl_verify_file :: "(bytes \<Rightarrow> b256) \<Rightarrow> string \<Rightarrow> files \<Rightarrow> string \<Rightarrow> b256 \<Rightarrow> lora_run_error + unit" where
  "fl_verify_file S what fs p want =
     (case fs_read fs p of
        Inl e \<Rightarrow> Inl (NotStaged what p)
      | Inr bs \<Rightarrow> if S bs \<noteq> want then Inl (FileHash what p (S bs)) else Inr ())"

definition consented :: "'x runner_env \<Rightarrow> device_config \<Rightarrow> files \<Rightarrow> b256 \<Rightarrow> lora_run_error + bool" where
  "consented E d fs rid =
     (case dv_consent_file d of
        None \<Rightarrow> Inr False
      | Some p \<Rightarrow>
          (case read_to_string fs p of
             Inl NotFound \<Rightarrow> Inr False
           | Inl e \<Rightarrow> Inl (RunIo e)
           | Inr raw \<Rightarrow>
               (case rv_consent E raw of
                  Inl e \<Rightarrow> Inl (BadPayload (''consent file: '' @ e))
                | Inr rounds \<Rightarrow>
                    let want = hex0x (rd_hex (rv_round E)) (to_be_bytes rid)
                    in Inr (\<exists>r \<in> set rounds. map ascii_lower (trim r) = map ascii_lower want))))"

text \<open>The marker is written once the delta is uploaded.\<close>

definition mark_contributed ::
  "'x runner_env \<Rightarrow> 'x lora_runner \<Rightarrow> b256 \<Rightarrow> io_failure option \<Rightarrow> files \<Rightarrow> (lora_run_error + unit) \<times> files" where
  "mark_contributed E R rid fault fs =
     (let m = marker (rd_hex (rv_round E)) (ln_device R) rid in
      case rv_mkdir E (path_join (dv_store (ln_device R)) ''contributed'') of
        Some e \<Rightarrow> (Inl (RunIo e), fs)
      | None \<Rightarrow> (case fault of Some e \<Rightarrow> (Inl (RunIo e), fs) | None \<Rightarrow> (Inr (), write_file m [] fs)))"

definition handles :: "job_spec \<Rightarrow> bool" where
  "handles job \<longleftrightarrow> json_get ''task'' (js_payload job) = Some (JStr TASK_LORA_DELTA)"

section \<open>Before the training\<close>

definition lora_admit :: "'x runner_env \<Rightarrow> 'x lora_runner \<Rightarrow> files \<Rightarrow> job_spec \<Rightarrow> lora_run_error + lora_payload \<times> trainer" where
  "lora_admit E R fs job =
     (let D = rv_round E; H = rd_hex D; me = w_address (ln_wallet R) in
      case rd_payload D (js_payload job) of
        None \<Rightarrow> Inl (BadPayload ''payload'')
      | Some payload \<Rightarrow>
      (case validate_payload (rd_keccak D) payload of
        Inl e \<Rightarrow> Inl (BadRound e)
      | Inr _ \<Rightarrow>
          if \<not> in_roster (lp_config payload) me then Inl (NotInRoster (hex0x H (to_be_bytes me)))
          else
      (case consented E (ln_device R) fs (lp_round_id payload) of
        Inl e \<Rightarrow> Inl e
      | Inr ok \<Rightarrow>
          let round_hex = hex0x H (to_be_bytes (lp_round_id payload)) in
          if \<not> ok then Inl (NoConsent round_hex)
          else if fs_exists fs (marker H (ln_device R) (lp_round_id payload)) then Inl (AlreadyContributed round_hex)
          else (case ln_trainer R of None \<Rightarrow> Inl NoTrainer | Some t \<Rightarrow> Inr (payload, t)))))"

definition staged_inputs ::
  "'x runner_env \<Rightarrow> 'x lora_runner \<Rightarrow> files \<Rightarrow> round_config \<Rightarrow> lora_run_error + u64 \<times> b256" where
  "staged_inputs E R fs cfg =
     (let D = rv_round E; H = rd_hex D; S = rd_sha256 D; d = ln_device R in
      bind_ok (fl_verify_file S ''the base model'' fs (fl_model_path H d (fc_base_model_sha256 cfg)) (fc_base_model_sha256 cfg)) (\<lambda>_.
      bind_ok (fl_verify_file S ''the start adapter'' fs (adapter_path H d (fc_start_adapter_sha256 cfg)) (fc_start_adapter_sha256 cfg)) (\<lambda>_.
      case fs_len fs (dv_dataset d) of
        Inl e \<Rightarrow> Inl (NotStaged ''the trajectory export'' (dv_dataset d))
      | Inr n \<Rightarrow>
          if n > MAX_DATASET_BYTES then Inl (DatasetTooLong n)
          else
            (case fs_read fs (dv_dataset d) of
               Inl e \<Rightarrow> Inl (RunIo e)
             | Inr data \<Rightarrow>
                 (case verify_dataset (rv_export E) data of
                    Inl e \<Rightarrow> Inl (BadDataset e)
                  | Inr examples \<Rightarrow> Inr (examples, S data))))))"

section \<open>After the training\<close>

text \<open>The commitment to the difference of the two adapters, within the limits of the round.\<close>

definition delta_artifact ::
  "'x runner_env \<Rightarrow> address \<Rightarrow> lora_payload \<Rightarrow> adapter \<Rightarrow> adapter \<Rightarrow> b256 \<Rightarrow> lora_run_error + artifact \<times> b256" where
  "delta_artifact E me payload start trained trained_sha =
     (let D = rv_round E; K = rd_keccak D; cfg = lp_config payload in
      bind_ok (map_sum BadDelta id (compute (rd_float D) start trained (fc_value_scale_log2 cfg))) (\<lambda>values.
      if of_nat (length values) > fc_max_values cfg then Inl (TooManyValues (length values))
      else
        bind_ok (map_sum BadDelta id (delta_root K values (fc_chunk_dim cfg))) (\<lambda>rt.
        Inr (\<lparr>ar_value_scale_log2 = fc_value_scale_log2 cfg, ar_round_id = lp_round_id payload, ar_worker = me,
              ar_start_adapter_sha256 = fc_start_adapter_sha256 cfg, ar_trained_adapter_sha256 = trained_sha,
              ar_manifest_hash = manifest_hash K start, ar_chunk_dim = fc_chunk_dim cfg, ar_values = values\<rparr>, rt))))"

text \<open>\<^verbatim>\<open>Adapter::load\<close> of a path.\<close>

definition load_path :: "files \<Rightarrow> string \<Rightarrow> lora_run_error + bytes \<times> adapter" where
  "load_path fs p =
     (case fs_read fs p of
        Inl e \<Rightarrow> Inl (BadAdapter ''io'')
      | Inr bs \<Rightarrow> map_sum BadGguf (Pair bs) (load_adapter bs))"

definition produce ::
  "'x runner_env \<Rightarrow> address \<Rightarrow> lora_payload \<Rightarrow> files \<Rightarrow> string \<Rightarrow> string \<Rightarrow> lora_run_error + artifact \<times> b256" where
  "produce E me payload fs start_path trained_path =
     bind_ok (load_path fs start_path) (\<lambda>(_, start).
     bind_ok (load_path fs trained_path) (\<lambda>(tbs, trained).
     if manifest_hash (rd_keccak (rv_round E)) trained \<noteq> manifest_hash (rd_keccak (rv_round E)) start
     then Inl (BadAdapter ''tensors differ'')
     else delta_artifact E me payload start trained (rd_sha256 (rv_round E) tbs)))"

definition unsigned_result ::
  "'x runner_env \<Rightarrow> trainer \<Rightarrow> u64 \<times> b256 \<Rightarrow> artifact \<Rightarrow> b256 \<Rightarrow> b256 \<Rightarrow> lora_result" where
  "unsigned_result E t data art rt sha =
     \<lparr>lr_task = TASK_LORA_DELTA, lr_round_id = ar_round_id art, lr_worker = ar_worker art, lr_delta_root = rt,
      lr_delta_sha256 = sha, lr_n_values = of_nat (length (ar_values art)), lr_chunk_dim = ar_chunk_dim art,
      lr_start_adapter_sha256 = ar_start_adapter_sha256 art, lr_trained_adapter_sha256 = ar_trained_adapter_sha256 art,
      lr_dataset_sha256 = snd data, lr_examples = fst data, lr_trainer = tn_id t, lr_seconds = rv_seconds E,
      lr_signature = ''''\<rparr>"

definition sign_result :: "'x runner_env \<Rightarrow> 'x wallet \<Rightarrow> lora_result \<Rightarrow> bytes \<Rightarrow> lora_run_error + lora_output" where
  "sign_result E w r bs =
     (case sign_digest_recoverable (rv_wallet_deps E) w (result_digest (rd_keccak (rv_round E)) r) of
        Inl e \<Rightarrow> Inl (Signing ''wallet'')
      | Inr sig \<Rightarrow>
          let r' = r\<lparr>lr_signature := hex0x (rd_hex (rv_round E)) sig\<rparr> in
          (case rv_result_json E r' of
             Inl e \<Rightarrow> Inl (Signing e)
           | Inr text \<Rightarrow>
               Inr \<lparr>lo_result = r', lo_result_json = text, lo_artifact = bs, lo_artifact_sha256 = lr_delta_sha256 r\<rparr>))"

section \<open>The run\<close>

definition train_request_of :: "'x runner_env \<Rightarrow> device_config \<Rightarrow> lora_payload \<Rightarrow> train_request" where
  "train_request_of E d payload =
     (let H = rd_hex (rv_round E); cfg = lp_config payload in
      \<lparr>tq_base_model = fl_model_path H d (fc_base_model_sha256 cfg),
       tq_start_adapter = adapter_path H d (fc_start_adapter_sha256 cfg), tq_dataset = dv_dataset d,
       tq_out = path_join (path_join (dv_store d) ''scratch'') (hx_encode H (to_be_bytes (lp_round_id payload)) @ ''-trained.gguf''),
       tq_round_id_hex = hex0x H (to_be_bytes (lp_round_id payload))\<rparr>)"

definition lora_run :: "'x runner_env \<Rightarrow> 'x lora_runner \<Rightarrow> job_spec \<Rightarrow> files \<Rightarrow> (lora_run_error + lora_output) \<times> files" where
  "lora_run E R job fs =
     (case lora_admit E R fs job of
        Inl e \<Rightarrow> (Inl e, fs)
      | Inr (payload, t) \<Rightarrow>
      (case staged_inputs E R fs (lp_config payload) of
        Inl e \<Rightarrow> (Inl e, fs)
      | Inr data \<Rightarrow>
      (case rv_mkdir E (path_join (dv_store (ln_device R)) ''scratch'') of
        Some e \<Rightarrow> (Inl (RunIo e), fs)
      | None \<Rightarrow>
          let q = train_request_of E (ln_device R) payload in
      (case tn_train t q fs of
        (Inl e, fs1) \<Rightarrow> (Inl (Training e), fs1)
      | (Inr _, fs1) \<Rightarrow>
      (case produce E (w_address (ln_wallet R)) payload fs1 (tq_start_adapter q) (tq_out q) of
        Inl e \<Rightarrow> (Inl e, fs1)
      | Inr (art, rt) \<Rightarrow>
          let bs = encode_artifact art in
      (case sign_result E (ln_wallet R) (unsigned_result E t data art rt (rd_sha256 (rv_round E) bs)) bs of
        Inl e \<Rightarrow> (Inl e, fs1)
      | Inr out \<Rightarrow> (Inr out, if rv_removed E then remove_file (tq_out q) fs1 else fs1)))))))"

end
