(* ===== verification/Fl_Runner_Theorems.thy ===== *)
theory Fl_Runner_Theorems
  imports Fl_Runner Fl_Upload Fl_Round_Theorems Wallet_Theorems
begin

text \<open>
  What a federated run on a device does and does not do: the trainer starts only when the member has
  consented and every input is the one the round names, and what an honest run hands back is taken by the
  coordinator, at the upload and when the round is collected.
\<close>

section \<open>The dataset\<close>

definition trainable_line :: "(string \<Rightarrow> string + shape_line) \<Rightarrow> string \<Rightarrow> bool" where
  "trainable_line parse line \<longleftrightarrow>
     (\<exists>ex. parse line = Inr ex \<and> sl_roles ex \<noteq> [] \<and> list_all export_role (sl_roles ex) \<and> sl_verifiers ex \<noteq> [])"

lemma verify_lines_Inr:
  "verify_lines parse i n lines = Inr k \<longleftrightarrow>
     list_all (\<lambda>l. blank_line l \<or> trainable_line parse l) lines \<and>
     k = n + of_nat (length (filter (\<lambda>l. \<not> blank_line l) lines))"
proof (induction parse i n lines rule: verify_lines.induct)
  case (2 parse i n line rest)
  then show ?case
    by (auto simp: trainable_line_def list_all_iff find_None_iff find_Some_iff algebra_simps split: sum.splits option.splits)
qed auto

definition export_lines :: "bytes \<Rightarrow> string list" where
  "export_lines bs = filter (\<lambda>l. \<not> blank_line l) (str_lines (map byte_char bs))"

lemma verify_dataset_Inr:
  "verify_dataset parse bs = Inr k \<longleftrightarrow>
     valid_utf8 bs \<and> list_all (trainable_line parse) (export_lines bs) \<and>
     k = of_nat (length (export_lines bs)) \<and> k \<noteq> 0"
proof -
  let ?ls = "str_lines (map byte_char bs)"
  have all: "list_all (\<lambda>l. blank_line l \<or> trainable_line parse l) ?ls \<longleftrightarrow> list_all (trainable_line parse) (export_lines bs)"
    by (auto simp: list_all_iff export_lines_def)
  have "verify_dataset parse bs = Inr k \<longleftrightarrow> valid_utf8 bs \<and> verify_lines parse 0 0 ?ls = Inr k \<and> k \<noteq> 0"
    by (auto simp: verify_dataset_def split: sum.splits if_splits)
  then show ?thesis
    unfolding verify_lines_Inr all by (auto simp: export_lines_def)
qed

section \<open>What the trainer needs\<close>

definition may_train :: "'x runner_env \<Rightarrow> 'x lora_runner \<Rightarrow> job_spec \<Rightarrow> files \<Rightarrow> lora_payload \<Rightarrow> trainer \<Rightarrow> bool" where
  "may_train E R job fs p t \<longleftrightarrow>
     (let D = rv_round E; H = rd_hex D; d = ln_device R; cfg = lp_config p in
      rd_payload D (js_payload job) = Some p \<and> config_ok cfg \<and>
      lp_round_id p = config_round_id (rd_keccak D) cfg (lp_ordinal p) \<and>
      w_address (ln_wallet R) \<in> set (fc_roster cfg) \<and>
      (\<exists>f raw rounds r. dv_consent_file d = Some f \<and> read_to_string fs f = Inr raw \<and> rv_consent E raw = Inr rounds \<and>
         r \<in> set rounds \<and> map ascii_lower (trim r) = map ascii_lower (hex0x H (to_be_bytes (lp_round_id p)))) \<and>
      \<not> fs_exists fs (marker H d (lp_round_id p)) \<and> ln_trainer R = Some t \<and>
      (\<exists>bs. fs_read fs (fl_model_path H d (fc_base_model_sha256 cfg)) = Inr bs \<and> rd_sha256 D bs = fc_base_model_sha256 cfg) \<and>
      (\<exists>bs. fs_read fs (adapter_path H d (fc_start_adapter_sha256 cfg)) = Inr bs \<and> rd_sha256 D bs = fc_start_adapter_sha256 cfg) \<and>
      (\<exists>bs. fs_read fs (dv_dataset d) = Inr bs \<and> valid_utf8 bs \<and> list_all (trainable_line (rv_export E)) (export_lines bs) \<and>
         export_lines bs \<noteq> []))"

lemma consented_Inr:
  "consented E d fs rid = Inr True \<Longrightarrow>
     \<exists>f raw rounds r. dv_consent_file d = Some f \<and> read_to_string fs f = Inr raw \<and> rv_consent E raw = Inr rounds \<and>
       r \<in> set rounds \<and> map ascii_lower (trim r) = map ascii_lower (hex0x (rd_hex (rv_round E)) (to_be_bytes rid))"
  by (auto simp: consented_def Let_def split: option.splits sum.splits io_failure.splits)

lemma lora_admit_Inr:
  assumes "lora_admit E R fs job = Inr (p, t)"
  shows "rd_payload (rv_round E) (js_payload job) = Some p" "validate_payload (rd_keccak (rv_round E)) p = Inr ()"
    "in_roster (lp_config p) (w_address (ln_wallet R))" "consented E (ln_device R) fs (lp_round_id p) = Inr True"
    "\<not> fs_exists fs (marker (rd_hex (rv_round E)) (ln_device R) (lp_round_id p))" "ln_trainer R = Some t"
  using assms by (auto simp: lora_admit_def Let_def split: option.splits sum.splits if_splits)

declare bind_ok_Inr [simp]

lemma fl_verify_file_Inr [simp]: "fl_verify_file S what fs p want = Inr u \<longleftrightarrow> (\<exists>bs. fs_read fs p = Inr bs \<and> S bs = want)"
  by (auto simp: fl_verify_file_def split: sum.splits)

lemma staged_Inr:
  assumes "staged_inputs E R fs cfg = Inr data"
  shows "\<exists>bs. fs_read fs (fl_model_path (rd_hex (rv_round E)) (ln_device R) (fc_base_model_sha256 cfg)) = Inr bs \<and>
      rd_sha256 (rv_round E) bs = fc_base_model_sha256 cfg"
    "\<exists>bs. fs_read fs (adapter_path (rd_hex (rv_round E)) (ln_device R) (fc_start_adapter_sha256 cfg)) = Inr bs \<and>
      rd_sha256 (rv_round E) bs = fc_start_adapter_sha256 cfg"
    "\<exists>bs. fs_read fs (dv_dataset (ln_device R)) = Inr bs \<and> verify_dataset (rv_export E) bs = Inr (fst data)"
  using assms by (auto simp: staged_inputs_def Let_def split: sum.splits if_splits)

lemma checked_run:
  assumes "lora_admit E R fs job = Inr (p, t)" "staged_inputs E R fs (lp_config p) = Inr data"
  shows "may_train E R job fs p t"
proof -
  note a = lora_admit_Inr [OF assms(1)]
  note s = staged_Inr [OF assms(2)]
  have ok: "config_ok (lp_config p)" "lp_round_id p = config_round_id (rd_keccak (rv_round E)) (lp_config p) (lp_ordinal p)"
    using a(2) by (simp_all add: validate_payload_ok)
  obtain bs where "fs_read fs (dv_dataset (ln_device R)) = Inr bs" "verify_dataset (rv_export E) bs = Inr (fst data)"
    using s(3) by blast
  then have d: "\<exists>bs. fs_read fs (dv_dataset (ln_device R)) = Inr bs \<and> valid_utf8 bs \<and>
      list_all (trainable_line (rv_export E)) (export_lines bs) \<and> export_lines bs \<noteq> []"
    by (intro exI [of _ bs]) (auto simp: verify_dataset_Inr)
  show ?thesis
    unfolding may_train_def Let_def
    by (intro conjI a(1,5,6) ok consented_Inr [OF a(4)] s(1,2) d)
      (use a(3) in_roster_iff [OF ok(1)] in simp)
qed

section \<open>The delta\<close>

lemma delta_values_length: "delta_values F sc nm i ps = Inr vs \<Longrightarrow> length vs = length ps"
proof (induction F sc nm i ps arbitrary: vs rule: delta_values.induct)
  case (2 F sc nm i a b rest)
  then show ?case by (auto simp: Let_def split: if_splits)
qed simp

lemma compute_loop_length:
  "compute_loop F sc start trained ps = Inr vs \<Longrightarrow>
     length vs = sum_list (map (\<lambda>e. length (ad_values start ! fst (fst e))) ps)"
proof (induction F sc start trained ps arbitrary: vs rule: compute_loop.induct)
  case (2 F sc start trained si sn sd ti tn td rest)
  from "2.prems" obtain vs1 vs2 where v: "sn = tn \<and> sd = td" "length (ad_values start ! si) = length (ad_values trained ! ti)"
    "delta_values F sc sn 0 (zip (ad_values start ! si) (ad_values trained ! ti)) = Inr vs1"
    "compute_loop F sc start trained rest = Inr vs2" "vs = vs1 @ vs2"
    by (auto simp: Let_def split: if_splits sum.splits)
  have "length vs2 = sum_list (map (\<lambda>e. length (ad_values start ! fst (fst e))) rest)"
    by (rule "2.IH" [OF _ refl refl _ v(3,4)]) (use v in auto)
  with v delta_values_length [OF v(3)] show ?case by simp
qed simp

lemma compute_length:
  assumes "compute F start trained sc = Inr vs" "length (ad_values start) = length (gg_tensors (ad_header start))"
  shows "length vs = (\<Sum>v\<leftarrow>ad_values start. length v)"
proof -
  have len: "length (canonical start) = length (canonical trained)"
    and loop: "compute_loop F sc start trained (zip (canonical start) (canonical trained)) = Inr vs"
    using assms(1) by (auto simp: compute_def Let_def split: if_splits)
  have "map (\<lambda>e. length (ad_values start ! fst (fst e))) (zip (canonical start) (canonical trained)) =
      map (\<lambda>i. length (ad_values start ! i)) (map fst (map fst (zip (canonical start) (canonical trained))))"
    by simp
  also have "\<dots> = map (\<lambda>i. length (ad_values start ! i)) (canonical_indices start)"
    using len by (simp only: map_fst_zip canonical_indices_def)
  finally have "length vs = length (flat_values (canonical_indices start) (ad_values start))"
    by (simp add: compute_loop_length [OF loop] flat_values_def length_concat comp_def)
  then show ?thesis using length_flat_values [OF assms(2)] by simp
qed

lemma delta_artifact_Inr:
  assumes "delta_artifact E me p start trained tsha = Inr (art, rt)"
  shows "compute (rd_float (rv_round E)) start trained (fc_value_scale_log2 (lp_config p)) = Inr (ar_values art)"
    "\<not> of_nat (length (ar_values art)) > fc_max_values (lp_config p)"
    "delta_root (rd_keccak (rv_round E)) (ar_values art) (fc_chunk_dim (lp_config p)) = Inr rt"
    "ar_value_scale_log2 art = fc_value_scale_log2 (lp_config p)" "ar_round_id art = lp_round_id p" "ar_worker art = me"
    "ar_start_adapter_sha256 art = fc_start_adapter_sha256 (lp_config p)"
    "ar_manifest_hash art = manifest_hash (rd_keccak (rv_round E)) start" "ar_chunk_dim art = fc_chunk_dim (lp_config p)"
    "ar_trained_adapter_sha256 art = tsha"
  using assms by (auto simp: delta_artifact_def Let_def split: if_splits)

lemma load_path_Inr [simp]: "load_path fs q = Inr (bs, a) \<longleftrightarrow> fs_read fs q = Inr bs \<and> load_adapter bs = Inr a"
  by (auto simp: load_path_def split: sum.splits)

lemma produce_Inr:
  assumes "produce E me p fs sp tp = Inr (art, rt)"
  obtains sbs start tbs trained where "fs_read fs sp = Inr sbs" "load_adapter sbs = Inr start"
    "fs_read fs tp = Inr tbs" "load_adapter tbs = Inr trained"
    "manifest_hash (rd_keccak (rv_round E)) trained = manifest_hash (rd_keccak (rv_round E)) start"
    "delta_artifact E me p start trained (rd_sha256 (rv_round E) tbs) = Inr (art, rt)"
proof -
  obtain sbs start where s: "load_path fs sp = Inr (sbs, start)"
    "bind_ok (load_path fs tp) (\<lambda>(tbs, trained).
       if manifest_hash (rd_keccak (rv_round E)) trained \<noteq> manifest_hash (rd_keccak (rv_round E)) start
       then Inl (BadAdapter ''tensors differ'')
       else delta_artifact E me p start trained (rd_sha256 (rv_round E) tbs)) = Inr (art, rt)"
    using assms unfolding produce_def bind_ok_Inr by auto
  from s(2) obtain tbs trained where "load_path fs tp = Inr (tbs, trained)"
    "manifest_hash (rd_keccak (rv_round E)) trained = manifest_hash (rd_keccak (rv_round E)) start"
    "delta_artifact E me p start trained (rd_sha256 (rv_round E) tbs) = Inr (art, rt)"
    unfolding bind_ok_Inr by (auto split: if_splits)
  with s(1) show ?thesis using that by simp
qed

lemma sign_result_Inr:
  assumes "sign_result E w r bs = Inr out"
  shows "\<exists>sig. sign_digest_recoverable (rv_wallet_deps E) w (result_digest (rd_keccak (rv_round E)) r) = Inr sig \<and>
    lo_result out = r\<lparr>lr_signature := hex0x (rd_hex (rv_round E)) sig\<rparr> \<and>
    rv_result_json E (lo_result out) = Inr (lo_result_json out) \<and> lo_artifact out = bs \<and>
    lo_artifact_sha256 out = lr_delta_sha256 r"
  using assms by (auto simp: sign_result_def Let_def split: sum.splits)

lemma lora_run_Inr:
  assumes "lora_run E R job fs = (Inr out, fs')"
  obtains p t data fs1 art rt where
    "lora_admit E R fs job = Inr (p, t)" "staged_inputs E R fs (lp_config p) = Inr data"
    "tn_train t (train_request_of E (ln_device R) p) fs = (Inr (), fs1)"
    "produce E (w_address (ln_wallet R)) p fs1 (tq_start_adapter (train_request_of E (ln_device R) p))
       (tq_out (train_request_of E (ln_device R) p)) = Inr (art, rt)"
    "sign_result E (ln_wallet R) (unsigned_result E t data art rt (rd_sha256 (rv_round E) (encode_artifact art)))
       (encode_artifact art) = Inr out"
    "fs' = fs1 \<or> fs' = remove_file (tq_out (train_request_of E (ln_device R) p)) fs1"
  using assms by (auto simp: lora_run_def Let_def split: sum.splits option.splits prod.splits if_splits)

section \<open>The result is taken\<close>

text \<open>The device and the coordinator agree on what a signature recovers to and on the text of a result.\<close>

definition agreeing :: "'x runner_env \<Rightarrow> 'x wallet \<Rightarrow> bool" where
  "agreeing E w \<longleftrightarrow>
     (\<forall>d sig. sign_digest_recoverable (rv_wallet_deps E) w d = Inr sig \<longrightarrow> rd_recover (rv_round E) d sig = Some (w_address w)) \<and>
     (\<forall>r text. rv_result_json E r = Inr text \<longrightarrow> rd_result (rv_round E) text = Inr r)"

lemma produced_delta:
  assumes "produce E me p fs sp tp = Inr (art, rt)" "config_ok (lp_config p)"
    and "fs_read fs sp = Inr sbs" "load_adapter sbs = Inr start" "length sbs < 2 ^ 40"
  shows "artifact_ok (fc_max_values (lp_config p)) art" "of_nat (length (ar_values art)) = value_count start"
    "ar_manifest_hash art = manifest_hash (rd_keccak (rv_round E)) start" "length (ar_values art) \<le> 2 ^ 60"
    "ar_round_id art = lp_round_id p" "ar_worker art = me" "ar_chunk_dim art = fc_chunk_dim (lp_config p)"
    "ar_start_adapter_sha256 art = fc_start_adapter_sha256 (lp_config p)"
    "ar_value_scale_log2 art = fc_value_scale_log2 (lp_config p)"
    "delta_root (rd_keccak (rv_round E)) (ar_values art) (fc_chunk_dim (lp_config p)) = Inr rt"
proof -
  let ?cfg = "lp_config p"
  obtain sbs' start' tbs trained where "fs_read fs sp = Inr sbs'" "load_adapter sbs' = Inr start'"
    "delta_artifact E me p start' trained (rd_sha256 (rv_round E) tbs) = Inr (art, rt)"
    by (rule produce_Inr [OF assms(1)])
  with assms(3,4) have d: "delta_artifact E me p start trained (rd_sha256 (rv_round E) tbs) = Inr (art, rt)" by simp
  note f = delta_artifact_Inr [OF d]
  show "ar_manifest_hash art = manifest_hash (rd_keccak (rv_round E)) start"
    "ar_round_id art = lp_round_id p" "ar_worker art = me" "ar_chunk_dim art = fc_chunk_dim (lp_config p)"
    "ar_start_adapter_sha256 art = fc_start_adapter_sha256 (lp_config p)"
    "ar_value_scale_log2 art = fc_value_scale_log2 (lp_config p)"
    "delta_root (rd_keccak (rv_round E)) (ar_values art) (fc_chunk_dim (lp_config p)) = Inr rt"
    by (fact f)+
  note sizes = loaded_sizes [OF assms(4,5)]
  have len: "length (ar_values art) = (\<Sum>v\<leftarrow>ad_values start. length v)"
    by (rule compute_length [OF f(1) sizes(1)])
  with sizes(4) show small: "length (ar_values art) \<le> 2 ^ 60" by simp
  then have "unat (of_nat (length (ar_values art)) :: u64) = length (ar_values art)"
    by (intro unat_of_nat_small) simp
  with f(2) have "length (ar_values art) \<le> unat (fc_max_values ?cfg)" by (simp add: word_less_nat_alt)
  moreover have "ar_chunk_dim art \<noteq> 0"
    using assms(2) by (auto simp: f(9) config_ok_def)
  ultimately show "artifact_ok (fc_max_values ?cfg) art" using small by (simp add: artifact_ok_def)
  show "of_nat (length (ar_values art)) = value_count start" by (simp add: len value_count_sum)
qed

text \<open>The ticket of the worker for the artifact it has built.\<close>

definition ticket_for :: "(bytes \<Rightarrow> b256) \<Rightarrow> lora_payload \<Rightarrow> address \<Rightarrow> bytes \<Rightarrow> upload_ticket \<Rightarrow> bool" where
  "ticket_for S p me bs T \<longleftrightarrow> ut_payload T = p \<and> ut_sha T = S bs \<and> ut_worker T = me"

lemma round_cap_bound:
  assumes "n \<le> unat (fc_max_values cfg)" "n \<le> 2 ^ 60"
  shows "168 + 8 * n \<le> unat (round_cap cfg)"
proof (cases "Option.bind (checked_mul (fc_max_values cfg) 8) (\<lambda>b. checked_add b (of_nat HEADER_LEN))")
  case None
  have "unat (- 1 :: u64) = 2 ^ 64 - 1" by (simp add: unsigned_minus_1_eq_mask mask_eq_exp_minus_1)
  moreover have "round_cap cfg = - 1" by (simp add: round_cap_def None)
  ultimately show ?thesis using assms(2) by simp
next
  case (Some c)
  then obtain b where "checked_mul (fc_max_values cfg) 8 = Some b" "checked_add b (of_nat HEADER_LEN) = Some c"
    by (auto simp: bind_eq_Some_conv)
  then have "unat c = unat (fc_max_values cfg) * 8 + 168"
    by (auto simp: checked_mul_Some_iff checked_add_Some_iff HEADER_LEN_def)
  with Some assms(1) show ?thesis by (simp add: round_cap_def)
qed

lemma honest_artifact_checks:
  assumes "artifact_ok (fc_max_values (lp_config p)) art" "length (ar_values art) \<le> 2 ^ 60"
    "ticket_for S p (ar_worker art) (encode_artifact art) T" "ar_round_id art = lp_round_id p"
    "ar_start_adapter_sha256 art = fc_start_adapter_sha256 (lp_config p)" "ar_chunk_dim art = fc_chunk_dim (lp_config p)"
    "ar_value_scale_log2 art = fc_value_scale_log2 (lp_config p)"
  shows "check_upload S True T (encode_artifact art) (of_nat (length (encode_artifact art))) = Inr ()"
    "length (encode_artifact art) \<le> unat (round_cap (lp_config p))"
proof -
  have len: "length (encode_artifact art) = 168 + 8 * length (ar_values art)" by (rule encode_slices(1))
  then have "unat (of_nat (length (encode_artifact art)) :: u64) = length (encode_artifact art)"
    using assms(2) by (intro unat_of_nat_small) simp
  then have "\<not> (of_nat (length (encode_artifact art)) :: u64) < of_nat HEADER_LEN"
    by (simp add: word_less_nat_alt len HEADER_LEN_def)
  then show "check_upload S True T (encode_artifact art) (of_nat (length (encode_artifact art))) = Inr ()"
    using assms by (simp add: check_upload_def decode_encode names_ticket_def Let_def ticket_for_def)
  have "length (ar_values art) \<le> unat (fc_max_values (lp_config p))" using assms(1) by (simp add: artifact_ok_def)
  then show "length (encode_artifact art) \<le> unat (round_cap (lp_config p))"
    using round_cap_bound [of "length (ar_values art)" "lp_config p"] assms(2) by (simp add: len)
qed

text \<open>What the coordinator has when the round is collected: the job done by this worker with the submitted
  text, and the uploaded artifact under its name.\<close>

definition delivered :: "'x runner_env \<Rightarrow> address \<Rightarrow> job_spec \<Rightarrow> lora_output \<Rightarrow> job_record \<Rightarrow> delta_dir \<Rightarrow> bool" where
  "delivered E me job out rec deltas \<longleftrightarrow>
     jr_spec rec = job \<and> (\<exists>t. jr_status rec = Done me t) \<and> jr_result rec = Some (lo_result_json out) \<and>
     deltas (delta_file (rd_hex (rv_round E)) (lo_artifact_sha256 out)) = Inr (lo_artifact out)"

text \<open>The start adapter the run ended with, which is also the aggregator's.\<close>

definition start_adapter :: "'x runner_env \<Rightarrow> device_config \<Rightarrow> lora_payload \<Rightarrow> files \<Rightarrow> adapter \<Rightarrow> bool" where
  "start_adapter E d p fs start \<longleftrightarrow>
     (\<exists>sbs. fs_read fs (adapter_path (rd_hex (rv_round E)) d (fc_start_adapter_sha256 (lp_config p))) = Inr sbs \<and>
        load_adapter sbs = Inr start \<and> length sbs < 2 ^ 40)"

section \<open>A small run\<close>

context hex_codec
begin

lemma trimmed: "trim (hex0x H bs) = hex0x H bs"
  by (rule trim_none) (auto simp: hex0x_def is_ascii_space_def dest: no_space [unfolded is_ascii_space_def])

end

definition fl_ex_payload :: lora_payload where "fl_ex_payload = new_payload (\<lambda>_. 7) example_config 5"

text \<open>The start adapter's file is the argument \<open>sbs\<close>, the signed result the argument \<open>res\<close>.\<close>

definition fl_ex_sha :: "bytes \<Rightarrow> bytes \<Rightarrow> b256" where
  "fl_ex_sha sbs bs = (if bs = 1 # sbs then 3 else if bs = sbs then 4 else 9)"

definition fl_ex_round :: "bytes \<Rightarrow> lora_result \<Rightarrow> round_deps" where
  "fl_ex_round sbs res = \<lparr>rd_keccak = (\<lambda>_. 7), rd_sha256 = fl_ex_sha sbs, rd_hex = lower_hex, rd_recover = (\<lambda>_ _. Some 10),
     rd_payload = (\<lambda>_. Some fl_ex_payload), rd_result = (\<lambda>_. Inr res), rd_float = example_ops\<rparr>"

definition fl_ex_env :: "bytes \<Rightarrow> lora_result \<Rightarrow> bytes runner_env" where
  "fl_ex_env sbs res = \<lparr>rv_round = fl_ex_round sbs res, rv_wallet_deps = sample_wallet_deps (RlpStr []),
     rv_consent = (\<lambda>_. Inr [hex0x lower_hex (to_be_bytes (7 :: b256))]),
     rv_export = (\<lambda>_. Inr \<lparr>sl_roles = [''user''], sl_verifiers = [''v'']\<rparr>),
     rv_result_json = (\<lambda>r. if r = res then Inr '''' else Inl ''''), rv_mkdir = (\<lambda>_. None), rv_removed = False, rv_seconds = 1\<rparr>"

definition fl_ex_device :: device_config where
  "fl_ex_device = \<lparr>dv_store = ''s'', dv_dataset = ''d'', dv_consent_file = Some ''c''\<rparr>"

definition fl_ex_trainer :: "bytes \<Rightarrow> trainer" where
  "fl_ex_trainer sbs = \<lparr>tn_id = ''t'', tn_train = (\<lambda>q fs. (Inr (), write_file (tq_out q) sbs fs))\<rparr>"

definition fl_ex_runner :: "bytes \<Rightarrow> bytes lora_runner" where
  "fl_ex_runner sbs = \<lparr>ln_device = fl_ex_device, ln_trainer = Some (fl_ex_trainer sbs),
     ln_wallet = \<lparr>w_signing_key = sample_key, w_address = 10, w_below_modern_kdf = None\<rparr>\<rparr>"

definition fl_ex_files :: "bytes \<Rightarrow> files" where
  "fl_ex_files sbs = \<lparr>fs_read = (\<lambda>p. Inr (if p = ''c'' then [] else if p = ''d'' then [120]
       else if p = fl_model_path lower_hex fl_ex_device 3 then 1 # sbs else sbs)), fs_len = (\<lambda>_. Inr 1), fs_exists = (\<lambda>_. False)\<rparr>"

definition fl_ex_job :: job_spec where "fl_ex_job = new_job_spec ''j'' Probe JNull"

lemma fl_ex_payload_fields [simp]:
  "lp_config fl_ex_payload = example_config" "lp_round_id fl_ex_payload = 7" "lp_ordinal fl_ex_payload = 5"
  "validate_payload (\<lambda>_. 7) fl_ex_payload = Inr ()"
  by (simp_all add: validate_payload_ok example_config_ok fl_ex_payload_def new_payload_def config_round_id_def round_id_def fl_keccak_def)

lemma fl_ex_env_fields [simp]:
  "rv_round (fl_ex_env sbs res) = fl_ex_round sbs res" "rd_keccak (fl_ex_round sbs res) = (\<lambda>_. 7)"
  "rd_sha256 (fl_ex_round sbs res) = fl_ex_sha sbs" "rd_hex (fl_ex_round sbs res) = lower_hex"
  "rd_payload (fl_ex_round sbs res) j = Some fl_ex_payload" "rd_float (fl_ex_round sbs res) = example_ops"
  "ln_device (fl_ex_runner sbs) = fl_ex_device" "w_address (ln_wallet (fl_ex_runner sbs)) = 10"
  "rv_mkdir (fl_ex_env sbs res) = (\<lambda>_. None)" "rv_removed (fl_ex_env sbs res) = False"
  by (simp_all add: fl_ex_env_def fl_ex_round_def fl_ex_runner_def)

lemma fl_ex_admits: "lora_admit (fl_ex_env sbs res) (fl_ex_runner sbs) (fl_ex_files sbs) fl_ex_job = Inr (fl_ex_payload, fl_ex_trainer sbs)"
proof -
  have "consented (fl_ex_env sbs res) fl_ex_device (fl_ex_files sbs) 7 = Inr True"
    by (simp add: consented_def fl_ex_device_def read_to_string_def fl_ex_files_def) (simp add: fl_ex_env_def lower.trimmed)
  moreover have "in_roster example_config 10" by (simp add: in_roster_iff example_config_ok)
  ultimately show ?thesis
    by (simp add: lora_admit_def fl_ex_files_def) (simp add: fl_ex_runner_def)
qed

lemma fl_ex_paths [simp]:
  "fl_model_path lower_hex fl_ex_device sha \<noteq> ''c''" "fl_model_path lower_hex fl_ex_device sha \<noteq> ''d''"
  "adapter_path lower_hex fl_ex_device sha \<noteq> ''c''" "adapter_path lower_hex fl_ex_device sha \<noteq> ''d''"
  "adapter_path lower_hex fl_ex_device sha \<noteq> fl_model_path lower_hex fl_ex_device sha'"
    "dv_dataset fl_ex_device = ''d''"
  by (simp_all add: fl_model_path_def adapter_path_def path_join_def fl_ex_device_def)

lemmas fl_ex_paths_sym [simp] = fl_ex_paths(1-5) [symmetric]

lemma fl_ex_staged:
  "staged_inputs (fl_ex_env sbs res) (fl_ex_runner sbs) (fl_ex_files sbs) example_config = Inr (1, fl_ex_sha sbs [120])"
proof -
  have "map byte_char [120] = ''x''" by code_simp
  moreover have "char_of (10 :: nat) = CHR 0x0A" by code_simp
  ultimately have "str_lines (map byte_char [120]) = [''x'']" "\<not> blank_line ''x''" "valid_utf8 [120]"
    by (simp_all add: str_lines_def blank_line_def str_bytes_def char_byte_def)
  then have "verify_dataset (rv_export (fl_ex_env sbs res)) [120] = Inr 1"
    by (simp add: verify_dataset_def fl_ex_env_def export_role_def)
  then show ?thesis
    by (simp add: staged_inputs_def bind_ok_def fl_verify_file_def fl_ex_files_def fl_ex_sha_def MAX_DATASET_BYTES_def del: bind_ok_Inr fl_verify_file_Inr)
qed

text \<open>What the run signs, and its result.\<close>

definition fl_ex_signed :: "bytes \<Rightarrow> artifact \<Rightarrow> b256 \<Rightarrow> lora_result" where
  "fl_ex_signed sbs art rt =
     \<lparr>lr_task = TASK_LORA_DELTA, lr_round_id = ar_round_id art, lr_worker = ar_worker art, lr_delta_root = rt,
      lr_delta_sha256 = fl_ex_sha sbs (encode_artifact art), lr_n_values = of_nat (length (ar_values art)),
      lr_chunk_dim = ar_chunk_dim art, lr_start_adapter_sha256 = ar_start_adapter_sha256 art,
      lr_trained_adapter_sha256 = ar_trained_adapter_sha256 art, lr_dataset_sha256 = fl_ex_sha sbs [120], lr_examples = 1,
      lr_trainer = ''t'', lr_seconds = 1, lr_signature = hex0x lower_hex (sample_key @ sample_key @ [0])\<rparr>"

lemma fl_ex_produces:
  assumes "load_adapter sbs = Inr start" "ad_values start = [[0]]" "length (gg_tensors (ad_header start)) = 1"
    "fs_read fs sp = Inr sbs" "fs_read fs tp = Inr sbs"
  obtains art rt where "produce (fl_ex_env sbs res) 10 fl_ex_payload fs sp tp = Inr (art, rt)"
proof -
  obtain e where e: "canonical start = [e]" "fst e = 0"
  proof -
    have "mset (canonical_indices start) = mset [0]" using canonical_indices [of start] assms(3) by simp
    then have "map fst (canonical start) = [0]" by (simp only: canonical_indices_def mset.simps mset_single_iff)
    then show ?thesis using that by (cases "canonical start") auto
  qed
  have c: "compute example_ops start start 8 = Inr [0]"
    using e by (cases e) (simp add: compute_def assms(2) example_ops_def is_finite_def abs_greater_def MAX_SCALED_ABS_def)
  obtain rt where "delta_root (\<lambda>_. 7) [0 :: i64] 4 = Inr rt"
    using tree_root_Inr [of "[7]" "\<lambda>_. 7"]
    by (auto simp: delta_root_def row_hashes_def chunk_count_def div_ceil_def MAX_LEAVES_def row_hash_def fl_keccak_def)
  then show ?thesis
    using that assms(1,4,5) c
    by (simp add: produce_def bind_ok_def load_path_def delta_artifact_def Let_def del: bind_ok_Inr)
qed

lemma fl_ex_runs:
  assumes "load_adapter sbs = Inr start" "ad_values start = [[0]]" "length (gg_tensors (ad_header start)) = 1"
  obtains res out fs' where "lora_run (fl_ex_env sbs res) (fl_ex_runner sbs) fl_ex_job (fl_ex_files sbs) = (Inr out, fs')"
    "fs_read fs' (adapter_path lower_hex fl_ex_device 4) = Inr sbs"
proof -
  define Q where "Q = train_request_of (fl_ex_env sbs undefined) fl_ex_device fl_ex_payload"
  let ?fs = "write_file (tq_out Q) sbs (fl_ex_files sbs)"
  have q: "train_request_of (fl_ex_env sbs res) fl_ex_device fl_ex_payload = Q" for res
    by (simp add: train_request_of_def Q_def)
  have rd: "fs_read ?fs (tq_start_adapter Q) = Inr sbs" "fs_read ?fs (tq_out Q) = Inr sbs"
    by (simp_all add: Q_def train_request_of_def fl_ex_files_def)
  obtain art rt where p: "produce (fl_ex_env sbs undefined) 10 fl_ex_payload ?fs (tq_start_adapter Q) (tq_out Q) = Inr (art, rt)"
    by (rule fl_ex_produces [OF assms rd])
  let ?res = "fl_ex_signed sbs art rt"
  have p: "produce (fl_ex_env sbs ?res) 10 fl_ex_payload ?fs (tq_start_adapter Q) (tq_out Q) = Inr (art, rt)"
    using p by (simp only: produce_def delta_artifact_def Let_def fl_ex_env_fields)
  have sig: "sign_digest_recoverable (rv_wallet_deps (fl_ex_env sbs ?res)) (ln_wallet (fl_ex_runner sbs)) d =
      Inr (sample_key @ sample_key @ [0])" for d
    by (simp add: sign_digest_recoverable_def fl_ex_env_def sample_wallet_deps_def fl_ex_runner_def)
  have "unsigned_result (fl_ex_env sbs ?res) (fl_ex_trainer sbs) (1, fl_ex_sha sbs [120]) art rt
      (fl_ex_sha sbs (encode_artifact art))\<lparr>lr_signature := hex0x lower_hex (sample_key @ sample_key @ [0])\<rparr> = ?res"
    by (simp add: unsigned_result_def fl_ex_signed_def fl_ex_trainer_def) (simp add: fl_ex_env_def)
  then obtain out where out: "sign_result (fl_ex_env sbs ?res) (ln_wallet (fl_ex_runner sbs))
      (unsigned_result (fl_ex_env sbs ?res) (fl_ex_trainer sbs) (1, fl_ex_sha sbs [120]) art rt (fl_ex_sha sbs (encode_artifact art)))
      (encode_artifact art) = Inr out"
    by (simp add: sign_result_def sig Let_def) (simp add: fl_ex_env_def)
  have trained: "tn_train (fl_ex_trainer sbs) Q (fl_ex_files sbs) = (Inr (), ?fs)" by (simp add: fl_ex_trainer_def)
  have "lora_run (fl_ex_env sbs ?res) (fl_ex_runner sbs) fl_ex_job (fl_ex_files sbs) = (Inr out, ?fs)"
    by (simp only: lora_run_def fl_ex_admits fl_ex_env_fields fl_ex_payload_fields fl_ex_staged q Let_def p out trained
        sum.case prod.case option.case if_False simp_thms)
  then show ?thesis using that rd(1) by (simp add: Q_def train_request_of_def)
qed

lemma fl_ex_agreeing: "agreeing (fl_ex_env sbs res) (ln_wallet (fl_ex_runner sbs))"
  by (auto simp: agreeing_def fl_ex_round_def) (simp add: fl_ex_env_def split: if_splits)

text \<open>A start adapter's file and a run on it.\<close>

lemma fl_ex_run:
  obtains sbs start res out fs' where "load_adapter sbs = Inr start" "length sbs < 2 ^ 40"
    "lora_run (fl_ex_env sbs res) (fl_ex_runner sbs) fl_ex_job (fl_ex_files sbs) = (Inr out, fs')"
    "fs_read fs' (adapter_path lower_hex fl_ex_device 4) = Inr sbs"
proof -
  obtain sbs start where s: "load_adapter sbs = Inr start" "length sbs < 2 ^ 40" "ad_values start = [[0]]"
    "map ti_name (gg_tensors (ad_header start)) = [''a.lora_a'']"
    by (rule example_adapter)
  then have "length (gg_tensors (ad_header start)) = 1" by (metis length_map One_nat_def length_Cons list.size(3))
  with s(1,3) obtain res out fs' where
    "lora_run (fl_ex_env sbs res) (fl_ex_runner sbs) fl_ex_job (fl_ex_files sbs) = (Inr out, fs')"
    "fs_read fs' (adapter_path lower_hex fl_ex_device 4) = Inr sbs"
    by (rule fl_ex_runs)
  with s(1,2) show ?thesis by (rule that)
qed

section \<open>Properties\<close>

text \<open>C26: The trainer runs only where it may.  When a run ends with a result, or changes anything on the
  device, the job's round is well formed and names this device, the member's consent file names the round,
  the device has not contributed to it, the base model and the start adapter hash to what the round names,
  and the dataset is a verified export that is not empty.\<close>

theorem trains_only_when_allowed:
  assumes "lora_run E R job fs = (r, fs')" "fs' \<noteq> fs \<or> (\<exists>out. r = Inr out)"
  shows "\<exists>p t. may_train E R job fs p t"
  using assms
  by (auto simp: lora_run_def Let_def intro: checked_run split: sum.splits option.splits prod.splits)

theorem trains_only_when_allowed_witness:
  "\<exists>sbs res p t. may_train (fl_ex_env sbs res) (fl_ex_runner sbs) fl_ex_job (fl_ex_files sbs) p t"
proof -
  obtain sbs start res out fs' where
    run: "lora_run (fl_ex_env sbs res) (fl_ex_runner sbs) fl_ex_job (fl_ex_files sbs) = (Inr out, fs')"
    by (rule fl_ex_run)
  have "fs' \<noteq> fl_ex_files sbs \<or> (\<exists>o1. Inr out = (Inr o1 :: lora_run_error + lora_output))" by blast
  from trains_only_when_allowed [OF run this] show ?thesis by blast
qed

text \<open>C7: Honest work counts.  What a federated run hands back passes the checks of the upload handler for
  this worker's ticket and fits the round's cap; and once it is uploaded and submitted, the aggregator's
  verdict on the job is that result with that artifact, never an exclusion.\<close>

theorem honest_run_counts:
  assumes "hex_codec (rd_hex (rv_round E))" "agreeing E (ln_wallet R)"
    and run: "lora_run E R job fs = (Inr out, fs')"
    and "rd_payload (rv_round E) (js_payload job) = Some p" "start_adapter E (ln_device R) p fs' start"
    and "ticket_for (rd_sha256 (rv_round E)) p (w_address (ln_wallet R)) (lo_artifact out) T"
    and "delivered E (w_address (ln_wallet R)) job out rec deltas"
  shows "check_upload (rd_sha256 (rv_round E)) True T (lo_artifact out) (of_nat (length (lo_artifact out))) = Inr () \<and>
    length (lo_artifact out) \<le> unat (round_cap (lp_config p)) \<and>
    (\<exists>art. lo_artifact out = encode_artifact art \<and>
       judge_round (rv_round E) (lp_config p) (lp_ordinal p) deltas start rec = Valid (lo_result out) art)"
proof -
  let ?D = "rv_round E" and ?me = "w_address (ln_wallet R)" and ?cfg = "lp_config p"
  let ?q = "train_request_of E (ln_device R) p"
  obtain p' t data fs1 art rt where adm: "lora_admit E R fs job = Inr (p', t)"
    and "tn_train t (train_request_of E (ln_device R) p') fs = (Inr (), fs1)"
    and prod: "produce E ?me p' fs1 (tq_start_adapter (train_request_of E (ln_device R) p'))
       (tq_out (train_request_of E (ln_device R) p')) = Inr (art, rt)"
    and sgn: "sign_result E (ln_wallet R) (unsigned_result E t data art rt (rd_sha256 ?D (encode_artifact art)))
       (encode_artifact art) = Inr out"
    and fs': "fs' = fs1 \<or> fs' = remove_file (tq_out (train_request_of E (ln_device R) p')) fs1"
    by (rule lora_run_Inr [OF run])
  note a = lora_admit_Inr [OF adm]
  have p: "p' = p" using a(1) assms(4) by simp
  note a = a [unfolded p] and prod = prod [unfolded p]
  have cfg: "config_ok ?cfg" "lp_round_id p = config_round_id (rd_keccak ?D) ?cfg (lp_ordinal p)"
    using a(2) by (simp_all add: validate_payload_ok)
  obtain sbs where sbs: "fs_read fs' (tq_start_adapter ?q) = Inr sbs" "load_adapter sbs = Inr start" "length sbs < 2 ^ 40"
    using assms(5) by (auto simp: start_adapter_def train_request_of_def Let_def)
  have "fs_read fs1 (tq_start_adapter ?q) = Inr sbs"
    using fs' sbs(1) by (auto simp: p split: if_splits)
  note d = produced_delta [OF prod cfg(1) this sbs(2,3)]
  obtain sig where sig: "sign_digest_recoverable (rv_wallet_deps E) (ln_wallet R)
      (result_digest (rd_keccak ?D) (unsigned_result E t data art rt (rd_sha256 ?D (encode_artifact art)))) = Inr sig"
    and res: "lo_result out = (unsigned_result E t data art rt (rd_sha256 ?D (encode_artifact art)))
      \<lparr>lr_signature := hex0x (rd_hex ?D) sig\<rparr>"
    and json: "rv_result_json E (lo_result out) = Inr (lo_result_json out)"
    and out: "lo_artifact out = encode_artifact art" "lo_artifact_sha256 out = rd_sha256 ?D (encode_artifact art)"
    using sign_result_Inr [OF sgn] by (auto simp: unsigned_result_def)
  have rec: "rd_recover ?D (result_digest (rd_keccak ?D) (lo_result out)) sig = Some ?me"
    using assms(2) sig by (simp add: agreeing_def res result_digest_def)
  have parsed: "rd_result ?D (lo_result_json out) = Inr (lo_result out)"
    using assms(2) json by (simp add: agreeing_def)
  have f: "lr_worker (lo_result out) = ?me" "lr_round_id (lo_result out) = lp_round_id p"
    "lr_delta_root (lo_result out) = rt" "lr_delta_sha256 (lo_result out) = rd_sha256 ?D (encode_artifact art)"
    "lr_n_values (lo_result out) = value_count start" "lr_chunk_dim (lo_result out) = fc_chunk_dim ?cfg"
    "lr_signature (lo_result out) = hex0x (rd_hex ?D) sig"
    using d by (simp_all add: res unsigned_result_def)
  have hex: "hx_decode (rd_hex ?D) (trim_0x (lr_signature (lo_result out))) = Some sig"
    using assms(1) by (simp add: f hex_codec.trim_hex0x hex_codec.decode_encode)
  have stored: "deltas (delta_file (rd_hex ?D) (lr_delta_sha256 (lo_result out))) = Inr (encode_artifact art)"
    using assms(7) out by (simp add: delivered_def f)
  have chk: "check_result ?D ?cfg (lp_round_id p) (manifest_hash (rd_keccak ?D) start) (value_count start) deltas ?me
      (lo_result out) = Inr art"
    using a(3) d
    by (simp add: check_result_def f(1,2) hex rec stored) (simp add: check_artifact_def f decode_encode)
  have "judge_round ?D ?cfg (lp_ordinal p) deltas start rec = Valid (lo_result out) art"
    using assms(4,7) parsed chk by (auto simp: judge_round_def judge_def delivered_def cfg(2) [symmetric])
  moreover have T: "ticket_for (rd_sha256 ?D) p (ar_worker art) (encode_artifact art) T"
    using assms(6) by (simp add: out d(6))
  ultimately show ?thesis
    using honest_artifact_checks [OF d(1,4) T d(5,8,7,9)] out(1) by auto
qed

theorem honest_run_counts_witness:
  "\<exists>sbs res start (out :: lora_output) art rec deltas.
     judge_round (fl_ex_round sbs res) example_config 5 deltas start rec = Valid (lo_result out) art \<and>
     lo_artifact out = encode_artifact art"
proof -
  obtain sbs start res out fs' where s: "load_adapter sbs = Inr start" "length sbs < 2 ^ 40"
    and run: "lora_run (fl_ex_env sbs res) (fl_ex_runner sbs) fl_ex_job (fl_ex_files sbs) = (Inr out, fs')"
    and kept: "fs_read fs' (adapter_path lower_hex fl_ex_device 4) = Inr sbs"
    by (rule fl_ex_run)
  let ?rec = "\<lparr>jr_spec = fl_ex_job, jr_status = Done 10 1, jr_attempts = 1, jr_failed_by = {},
    jr_result = Some (lo_result_json out), jr_failed_by_sources = {}, jr_held_until = 0, jr_persisted_expiry = 0\<rparr>"
  let ?T = "\<lparr>ut_sha = fl_ex_sha sbs (lo_artifact out), ut_worker = 10, ut_payload = fl_ex_payload, ut_cap = 5000\<rparr>"
  have hyps: "hex_codec (rd_hex (rv_round (fl_ex_env sbs res)))" "agreeing (fl_ex_env sbs res) (ln_wallet (fl_ex_runner sbs))"
    "rd_payload (rv_round (fl_ex_env sbs res)) (js_payload fl_ex_job) = Some fl_ex_payload"
    "start_adapter (fl_ex_env sbs res) (ln_device (fl_ex_runner sbs)) fl_ex_payload fs' start"
    "ticket_for (rd_sha256 (rv_round (fl_ex_env sbs res))) fl_ex_payload (w_address (ln_wallet (fl_ex_runner sbs)))
       (lo_artifact out) ?T"
    "delivered (fl_ex_env sbs res) (w_address (ln_wallet (fl_ex_runner sbs))) fl_ex_job out ?rec (\<lambda>_. Inr (lo_artifact out))"
    using s kept lower.hex_codec_axioms
    by (simp_all add: fl_ex_agreeing start_adapter_def ticket_for_def delivered_def)
  from honest_run_counts [OF hyps(1,2) run hyps(3-6)] obtain art where
    "lo_artifact out = encode_artifact art"
    "judge_round (fl_ex_round sbs res) example_config 5 (\<lambda>_. Inr (lo_artifact out)) start ?rec = Valid (lo_result out) art"
    by auto
  then show ?thesis by blast
qed

end
