(* ===== verification/Coordinator_Client.thy ===== *)
theory Coordinator_Client
  imports Api Wallet
begin

text \<open>
  The worker's client of the coordinator, \<^verbatim>\<open>training-worker/src/coordinator_client.rs\<close>: the signed requests,
  the bounded retry of a registration and the polling loop with its heartbeats and back-off.

  The environment of the client, \<open>client_env\<close>, carries a world \<open>'w\<close>: the network, the clock, the timer and the
  running job read and change it.  Bodies are read by the parsers of the environment.  A duration is its number of
  nanoseconds.  What the loop logs in a round is its \<open>poll_event\<close>.
\<close>

section \<open>Durations\<close>

definition seconds :: "nat \<Rightarrow> nat" where "seconds n = n * 10 ^ 9"

definition MAX_DURATION :: nat where "MAX_DURATION = seconds (2 ^ 64 - 1) + 999999999"

record backoff =
  bo_initial :: nat
  bo_max :: nat

definition default_backoff :: backoff where
  "default_backoff = \<lparr>bo_initial = seconds 5, bo_max = seconds 300\<rparr>"

definition backoff_next :: "backoff \<Rightarrow> nat \<Rightarrow> nat" where
  "backoff_next b current = min (min (2 * current) MAX_DURATION) (bo_max b)"

definition REGISTER_ATTEMPTS :: nat where "REGISTER_ATTEMPTS = 3"

section \<open>Messages and replies\<close>

datatype client_message =
    MsgRegister attestation
  | MsgLease u64 bytes
  | MsgHeartbeat job_id u64 bytes
  | MsgSubmit signed_submission
  | MsgUpload string string bytes

text \<open>A body that cannot be read is \<open>None\<close>.\<close>

record reply =
  rp_status :: nat
  rp_retry_after :: "string option"
  rp_body :: "string option"

datatype client_error =
    Transport string
  | Rejected nat string
  | ClientSigning wallet_error
  | Malformed string
  | IdentityMismatch address string

record register_reply =
  rr_worker :: string
  rr_capability :: capability

record ('x, 'w) client_env =
  ce_keccak :: "bytes \<Rightarrow> b256"
  ce_wallet_deps :: "'x wallet_deps"
  ce_send :: "client_message \<Rightarrow> 'w \<Rightarrow> (string + reply) \<times> 'w"
  ce_nanos :: "'w \<Rightarrow> u64 \<times> 'w"
  ce_sleep :: "nat \<Rightarrow> 'w \<Rightarrow> 'w"
  ce_parse_register :: "string \<Rightarrow> string + register_reply"
  ce_parse_job :: "string \<Rightarrow> string + job_spec option"
  ce_parse_expiry :: "string \<Rightarrow> string + u64"
  ce_start :: "job_spec \<Rightarrow> 'w \<Rightarrow> 'w"
  ce_advance :: "'w \<Rightarrow> (string + string) option \<times> 'w"
  ce_continue :: "'w \<Rightarrow> bool"

record 'x coordinator_client =
  cl_wallet :: "'x wallet"
  cl_backoff :: backoff

definition success :: "nat \<Rightarrow> bool" where "success code \<longleftrightarrow> 200 \<le> code \<and> code < 300"

definition text_or_empty :: "reply \<Rightarrow> string" where
  "text_or_empty r = (case rp_body r of Some t \<Rightarrow> t | None \<Rightarrow> '''')"

definition read_json :: "(string \<Rightarrow> string + 'a) \<Rightarrow> reply \<Rightarrow> client_error + 'a" where
  "read_json parse r =
     (case rp_body r of None \<Rightarrow> Inl (Malformed ''body'') | Some t \<Rightarrow> map_sum Malformed id (parse t))"

definition rejected :: "reply \<Rightarrow> client_error" where
  "rejected r = Rejected (rp_status r) (text_or_empty r)"

text \<open>\<^verbatim>\<open>url_component\<close>: everything outside the unreserved set as a percent sign and two capital digits.\<close>

definition unreserved :: "u8 \<Rightarrow> bool" where
  "unreserved b \<longleftrightarrow>
     65 \<le> b \<and> b \<le> 90 \<or> 97 \<le> b \<and> b \<le> 122 \<or> 48 \<le> b \<and> b \<le> 57 \<or> b = 45 \<or> b = 95 \<or> b = 46 \<or> b = 126"

definition upper_digit :: "nat \<Rightarrow> char" where
  "upper_digit d = char_of (if d < 10 then d + 48 else d + 55)"

definition url_component :: "string \<Rightarrow> string" where
  "url_component s =
     concat (map (\<lambda>b. if unreserved b then [byte_char b]
                      else [CHR ''%'', upper_digit (unat b div 16), upper_digit (unat b mod 16)]) (str_bytes s))"

section \<open>Requests\<close>

definition client_sign :: "('x, 'w) client_env \<Rightarrow> 'x coordinator_client \<Rightarrow> b256 \<Rightarrow> client_error + bytes" where
  "client_sign E C digest = map_sum ClientSigning id (sign_digest_recoverable (ce_wallet_deps E) (cl_wallet C) digest)"

text \<open>Signing a digest that holds the time of the request, and sending the message made of both.\<close>

definition post_stamped ::
  "('x, 'w) client_env \<Rightarrow> 'x coordinator_client \<Rightarrow> (u64 \<Rightarrow> b256) \<Rightarrow> (u64 \<Rightarrow> bytes \<Rightarrow> client_message) \<Rightarrow> 'w \<Rightarrow>
   (client_error + reply) \<times> 'w" where
  "post_stamped E C digest msg w =
     (let (ts, w1) = ce_nanos E w in
      case client_sign E C (digest ts) of
        Inl e \<Rightarrow> (Inl e, w1)
      | Inr sig \<Rightarrow> (let (r, w2) = ce_send E (msg ts sig) w1 in (map_sum Transport id r, w2)))"

definition retry_wait :: "reply \<Rightarrow> nat option" where
  "retry_wait r =
     (if rp_status r = 429 then
        Some (seconds (min (case Option.bind (rp_retry_after r) (\<lambda>v. parse_uint (2 ^ 64) (trim v)) of
                              Some s \<Rightarrow> s
                            | None \<Rightarrow> 1) 60))
      else None)"

definition registered_as :: "codec \<Rightarrow> register_reply \<Rightarrow> address option" where
  "registered_as H reg =
     Option.bind (hx_decode H (trim_0x (trim (rr_worker reg))))
       (\<lambda>bs. if length bs = 20 then Some (from_be_bytes bs) else None)"

definition register_attempt ::
  "('x, 'w) client_env \<Rightarrow> 'x coordinator_client \<Rightarrow> string \<Rightarrow> 'w \<Rightarrow> (nat option \<times> client_error + register_reply) \<times> 'w" where
  "register_attempt E C probe w =
     (let (r, w1) = post_stamped E C (attestation_digest (ce_keccak E) probe)
            (\<lambda>ts sig. MsgRegister \<lparr>at_probe_json = probe, at_timestamp = ts, at_signature = sig\<rparr>) w
      in (case r of
            Inl e \<Rightarrow> Inl (None, e)
          | Inr res \<Rightarrow>
              if \<not> success (rp_status res) then Inl (retry_wait res, rejected res)
              else
                (case read_json (ce_parse_register E) res of
                   Inl e \<Rightarrow> Inl (None, e)
                 | Inr reg \<Rightarrow>
                     if registered_as (wd_hex (ce_wallet_deps E)) reg \<noteq> Some (w_address (cl_wallet C))
                     then Inl (None, IdentityMismatch (w_address (cl_wallet C)) (rr_worker reg))
                     else Inr reg), w1))"

function register_loop ::
  "('x, 'w) client_env \<Rightarrow> 'x coordinator_client \<Rightarrow> string \<Rightarrow> nat \<Rightarrow> 'w \<Rightarrow> (client_error + register_reply) \<times> 'w" where
  "register_loop E C probe attempt w =
     (case register_attempt E C probe w of
        (Inl (Some wait, e), w1) \<Rightarrow>
          if attempt < REGISTER_ATTEMPTS then register_loop E C probe (attempt + 1) (ce_sleep E wait w1)
          else (Inl e, w1)
      | (Inl (None, e), w1) \<Rightarrow> (Inl e, w1)
      | (Inr reg, w1) \<Rightarrow> (Inr reg, w1))"
  by auto
termination
  by (relation "measure (\<lambda>(E, C, probe, attempt, w). REGISTER_ATTEMPTS - attempt)") auto

declare register_loop.simps [simp del]

definition client_register ::
  "('x, 'w) client_env \<Rightarrow> 'x coordinator_client \<Rightarrow> string \<Rightarrow> 'w \<Rightarrow> (client_error + register_reply) \<times> 'w" where
  "client_register E C probe w = register_loop E C probe 1 w"

definition client_lease ::
  "('x, 'w) client_env \<Rightarrow> 'x coordinator_client \<Rightarrow> 'w \<Rightarrow> (client_error + job_spec option) \<times> 'w" where
  "client_lease E C w =
     (let (r, w1) = post_stamped E C (lease_digest (ce_keccak E)) MsgLease w
      in (case r of
            Inl e \<Rightarrow> Inl e
          | Inr res \<Rightarrow>
              if rp_status res = 204 then Inr None
              else if \<not> success (rp_status res) then Inl (rejected res)
              else read_json (ce_parse_job E) res, w1))"

definition client_heartbeat ::
  "('x, 'w) client_env \<Rightarrow> 'x coordinator_client \<Rightarrow> job_id \<Rightarrow> 'w \<Rightarrow> (client_error + u64) \<times> 'w" where
  "client_heartbeat E C job w =
     (let (r, w1) = post_stamped E C (heartbeat_digest (ce_keccak E) job) (MsgHeartbeat job) w
      in (case r of
            Inl e \<Rightarrow> Inl e
          | Inr res \<Rightarrow>
              if \<not> success (rp_status res) then Inl (rejected res) else read_json (ce_parse_expiry E) res, w1))"

definition client_submit ::
  "('x, 'w) client_env \<Rightarrow> 'x coordinator_client \<Rightarrow> job_id \<Rightarrow> string \<Rightarrow> 'w \<Rightarrow> (client_error + unit) \<times> 'w" where
  "client_submit E C job payload w =
     (case client_sign E C (submission_digest (ce_keccak E) job payload) of
        Inl e \<Rightarrow> (Inl e, w)
      | Inr sig \<Rightarrow>
          let (r, w1) = ce_send E (MsgSubmit \<lparr>ss_job = job, ss_payload = payload, ss_signature = sig\<rparr>) w in
          (case r of
             Inl e \<Rightarrow> Inl (Transport e)
           | Inr res \<Rightarrow> if success (rp_status res) then Inr () else Inl (rejected res), w1))"

definition upload_target :: "codec \<Rightarrow> b256 \<Rightarrow> job_id \<Rightarrow> string" where
  "upload_target H sha job = ''/v1/fl/delta/'' @ hx_encode H (to_be_bytes sha) @ ''?job='' @ url_component job"

definition client_upload ::
  "('x, 'w) client_env \<Rightarrow> 'x coordinator_client \<Rightarrow> job_id \<Rightarrow> b256 \<Rightarrow> bytes \<Rightarrow> 'w \<Rightarrow> (client_error + unit) \<times> 'w" where
  "client_upload E C job sha bs w =
     (case client_sign E C (fl_delta_upload_digest (ce_keccak E) job sha) of
        Inl e \<Rightarrow> (Inl e, w)
      | Inr sig \<Rightarrow>
          let H = wd_hex (ce_wallet_deps E);
              (r, w1) = ce_send E (MsgUpload (upload_target H sha job) (''0x'' @ hx_encode H sig) bs) w in
          (case r of
             Inl e \<Rightarrow> Inl (Transport e)
           | Inr res \<Rightarrow> if success (rp_status res) then Inr () else Inl (rejected res), w1))"

section \<open>The polling loop\<close>

text \<open>While the job runs, each tick of the timer sends a heartbeat; its failure changes nothing.\<close>

partial_function (option) work_loop ::
  "('x, 'w) client_env \<Rightarrow> 'x coordinator_client \<Rightarrow> job_id \<Rightarrow> 'w \<Rightarrow> ((string + string) \<times> 'w) option" where
  "work_loop E C job w =
     (case ce_advance E w of
        (Some outcome, w1) \<Rightarrow> Some (outcome, w1)
      | (None, w1) \<Rightarrow> work_loop E C job (snd (client_heartbeat E C job w1)))"

datatype poll_event =
    Submitted job_spec string
  | SubmitFailed job_spec client_error
  | JobFailed job_spec string
  | Idle nat
  | Unreachable client_error nat

definition poll_round ::
  "('x, 'w) client_env \<Rightarrow> 'x coordinator_client \<Rightarrow> nat \<Rightarrow> 'w \<Rightarrow> (poll_event \<times> nat \<times> 'w) option" where
  "poll_round E C wait w =
     (case client_lease E C w of
        (Inr (Some job), w1) \<Rightarrow>
          (case work_loop E C (js_id job) (ce_start E job w1) of
             None \<Rightarrow> None
           | Some (Inr payload, w2) \<Rightarrow>
               (case client_submit E C (js_id job) payload w2 of
                  (Inr _, w3) \<Rightarrow> Some (Submitted job payload, bo_initial (cl_backoff C), w3)
                | (Inl e, w3) \<Rightarrow> Some (SubmitFailed job e, bo_initial (cl_backoff C), w3))
           | Some (Inl e, w2) \<Rightarrow> Some (JobFailed job e, bo_initial (cl_backoff C), w2))
      | (Inr None, w1) \<Rightarrow> Some (Idle wait, backoff_next (cl_backoff C) wait, ce_sleep E wait w1)
      | (Inl e, w1) \<Rightarrow> Some (Unreachable e wait, backoff_next (cl_backoff C) wait, ce_sleep E wait w1))"

partial_function (option) poll_rounds ::
  "('x, 'w) client_env \<Rightarrow> 'x coordinator_client \<Rightarrow> nat \<Rightarrow> 'w \<Rightarrow> (poll_event list \<times> 'w) option" where
  "poll_rounds E C wait w =
     (if \<not> ce_continue E w then Some ([], w)
      else
        case poll_round E C wait w of
          None \<Rightarrow> None
        | Some (ev, wait1, w1) \<Rightarrow>
            Option.bind (poll_rounds E C wait1 w1) (\<lambda>(evs, w2). Some (ev # evs, w2)))"

definition poll_loop :: "('x, 'w) client_env \<Rightarrow> 'x coordinator_client \<Rightarrow> 'w \<Rightarrow> (poll_event list \<times> 'w) option" where
  "poll_loop E C w = poll_rounds E C (bo_initial (cl_backoff C)) w"

end
