(* ===== verification/Coordinator_Client_Theorems.thy ===== *)
theory Coordinator_Client_Theorems
  imports Coordinator_Client Api_Theorems
begin

text \<open>
  The client on its own, every message it sends and every pause it makes, and the client against the
  coordinator of \<open>Api\<close>: what its log says about a job is true there and survives a power loss.
\<close>

section \<open>Messages and pauses\<close>

datatype comm = Sent client_message | Slept nat

text \<open>The environment that also records what is sent and how long the client sleeps.\<close>

definition traced :: "('x, 'w) client_env \<Rightarrow> ('x, 'w \<times> comm list) client_env" where
  "traced E =
     \<lparr>ce_keccak = ce_keccak E, ce_wallet_deps = ce_wallet_deps E,
      ce_send = (\<lambda>m (w, tr). let (r, w1) = ce_send E m w in (r, w1, tr @ [Sent m])),
      ce_nanos = (\<lambda>(w, tr). let (t, w1) = ce_nanos E w in (t, w1, tr)),
      ce_sleep = (\<lambda>n (w, tr). (ce_sleep E n w, tr @ [Slept n])),
      ce_parse_register = ce_parse_register E, ce_parse_job = ce_parse_job E, ce_parse_expiry = ce_parse_expiry E,
      ce_start = (\<lambda>job (w, tr). (ce_start E job w, tr)),
      ce_advance = (\<lambda>(w, tr). let (r, w1) = ce_advance E w in (r, w1, tr)),
      ce_continue = (\<lambda>(w, tr). ce_continue E w)\<rparr>"

lemma traced_fields [simp]:
  "ce_keccak (traced E) = ce_keccak E" "ce_wallet_deps (traced E) = ce_wallet_deps E"
  "client_sign (traced E) C d = client_sign E C d"
  "ce_sleep (traced E) n (w, tr) = (ce_sleep E n w, tr @ [Slept n])"
  "ce_start (traced E) job (w, tr) = (ce_start E job w, tr)"
  by (simp_all add: traced_def client_sign_def)

definition is_sent :: "comm \<Rightarrow> bool" where "is_sent c \<longleftrightarrow> (\<exists>m. c = Sent m)"

fun slept :: "comm list \<Rightarrow> nat" where
  "slept [] = 0"
| "slept (Sent m # tr) = slept tr"
| "slept (Slept n # tr) = n + slept tr"

lemma slept_append [simp]: "slept (a @ b) = slept a + slept b"
  by (induction a rule: slept.induct) auto

text \<open>A message is authentic if its signature is the client's over the digest of what it says.\<close>

fun authentic :: "('x, 'w) client_env \<Rightarrow> 'x coordinator_client \<Rightarrow> client_message \<Rightarrow> bool" where
  "authentic E C (MsgRegister a) \<longleftrightarrow>
     client_sign E C (attestation_digest (ce_keccak E) (at_probe_json a) (at_timestamp a)) = Inr (at_signature a)"
| "authentic E C (MsgLease ts sig) \<longleftrightarrow> client_sign E C (lease_digest (ce_keccak E) ts) = Inr sig"
| "authentic E C (MsgHeartbeat job ts sig) \<longleftrightarrow> client_sign E C (heartbeat_digest (ce_keccak E) job ts) = Inr sig"
| "authentic E C (MsgSubmit s) \<longleftrightarrow>
     client_sign E C (submission_digest (ce_keccak E) (ss_job s) (ss_payload s)) = Inr (ss_signature s)"
| "authentic E C (MsgUpload target header bs) \<longleftrightarrow>
     (\<exists>job sha sig. target = upload_target (wd_hex (ce_wallet_deps E)) sha job \<and>
        header = ''0x'' @ hx_encode (wd_hex (ce_wallet_deps E)) sig \<and>
        client_sign E C (fl_delta_upload_digest (ce_keccak E) job sha) = Inr sig)"

definition authentic_comm :: "('x, 'w) client_env \<Rightarrow> 'x coordinator_client \<Rightarrow> comm \<Rightarrow> bool" where
  "authentic_comm E C c = (case c of Sent m \<Rightarrow> authentic E C m | Slept n \<Rightarrow> True)"

lemma post_stamped_traced:
  assumes "post_stamped (traced E) C dg msg (w, tr) = (r, w', tr')"
  shows "tr' = tr \<or> (\<exists>ts sig. tr' = tr @ [Sent (msg ts sig)] \<and> client_sign E C (dg ts) = Inr sig)"
  using assms by (auto simp: post_stamped_def Let_def traced_def client_sign_def split: prod.splits sum.splits)

section \<open>Registration\<close>

lemma register_attempt_traced:
  assumes "register_attempt (traced E) C probe (w, tr) = (r, w', tr')"
  shows "\<exists>new. tr' = tr @ new \<and> list_all (authentic_comm E C) new \<and> length (filter is_sent new) \<le> 1 \<and> slept new = 0"
    "r = Inl (Some n, e) \<Longrightarrow> n \<le> seconds 60"
proof -
  obtain q where p: "post_stamped (traced E) C (attestation_digest (ce_keccak E) probe)
      (\<lambda>ts sig. MsgRegister \<lparr>at_probe_json = probe, at_timestamp = ts, at_signature = sig\<rparr>) (w, tr) = (q, w', tr')"
    using assms by (auto simp: register_attempt_def Let_def split: prod.splits)
  show "\<exists>new. tr' = tr @ new \<and> list_all (authentic_comm E C) new \<and> length (filter is_sent new) \<le> 1 \<and> slept new = 0"
    using post_stamped_traced [OF p] by (auto simp: authentic_comm_def is_sent_def)
  show "n \<le> seconds 60" if "r = Inl (Some n, e)"
    using assms that p
    by (auto simp: register_attempt_def Let_def retry_wait_def seconds_def split: sum.splits if_splits)
qed

lemma register_loop_traced:
  "register_loop (traced E) C probe attempt (w, tr) = (r, w', tr') \<Longrightarrow> attempt \<le> REGISTER_ATTEMPTS \<Longrightarrow>
   \<exists>new. tr' = tr @ new \<and> list_all (authentic_comm E C) new \<and>
     length (filter is_sent new) \<le> REGISTER_ATTEMPTS + 1 - attempt \<and>
     slept new \<le> (REGISTER_ATTEMPTS - attempt) * seconds 60"
proof (induction "REGISTER_ATTEMPTS - attempt" arbitrary: attempt w tr)
  case 0
  obtain a w1 tr1 where a: "register_attempt (traced E) C probe (w, tr) = (a, w1, tr1)" by (metis prod_cases3)
  have "w1 = w'" "tr1 = tr'"
    using "0.prems"(1) "0.hyps" a
    by (auto simp: register_loop.simps [of _ _ _ attempt] split: sum.splits prod.splits option.splits if_splits)
  with register_attempt_traced(1) [OF a] "0.prems"(2) "0.hyps" show ?case by fastforce
next
  case (Suc k)
  obtain a w1 tr1 where a: "register_attempt (traced E) C probe (w, tr) = (a, w1, tr1)" by (metis prod_cases3)
  obtain new1 where new1: "tr1 = tr @ new1" "list_all (authentic_comm E C) new1" "length (filter is_sent new1) \<le> 1"
    "slept new1 = 0"
    using register_attempt_traced(1) [OF a] by blast
  show ?case
  proof (cases "\<exists>wait e. a = Inl (Some wait, e)")
    case False
    then have "tr1 = tr'"
      using Suc.prems(1) a
      by (auto simp: register_loop.simps [of _ _ _ attempt] split: sum.splits prod.splits option.splits if_splits)
    with new1 Suc.prems(2) show ?thesis by fastforce
  next
    case True
    then obtain wait e where w: "a = Inl (Some wait, e)" by blast
    have more: "attempt < REGISTER_ATTEMPTS" using Suc.hyps(2) by linarith
    have "register_loop (traced E) C probe (attempt + 1) (ce_sleep E wait w1, tr1 @ [Slept wait]) = (r, w', tr')"
      using Suc.prems(1) more a w by (simp add: register_loop.simps [of _ _ _ attempt])
    moreover have "k = REGISTER_ATTEMPTS - (attempt + 1)" "attempt + 1 \<le> REGISTER_ATTEMPTS"
      using Suc.hyps(2) by linarith+
    ultimately obtain new2 where
      new2: "tr' = (tr1 @ [Slept wait]) @ new2" "list_all (authentic_comm E C) new2"
      "length (filter is_sent new2) \<le> REGISTER_ATTEMPTS + 1 - (attempt + 1)"
      "slept new2 \<le> (REGISTER_ATTEMPTS - (attempt + 1)) * seconds 60"
      using Suc.hyps(1) by blast
    have "wait \<le> seconds 60" by (rule register_attempt_traced(2) [OF a w])
    moreover have "(REGISTER_ATTEMPTS - attempt) * seconds 60 = seconds 60 + (REGISTER_ATTEMPTS - (attempt + 1)) * seconds 60"
      using Suc.hyps(2) by (metis Suc_eq_plus1 diff_Suc_1 diff_diff_left mult_Suc)
    ultimately show ?thesis
      using new1 new2 Suc.hyps(2)
      by (intro exI [of _ "new1 @ [Slept wait] @ new2"]) (auto simp: authentic_comm_def is_sent_def)
  qed
qed

text \<open>A registration ends after at most three requests and at most two minutes of waiting, whatever the
  coordinator answers and however long it asks the worker to wait; every request is signed with the
  worker's key over the probe as given and the time of that very request.\<close>

theorem registration_is_bounded:
  assumes "client_register (traced E) C probe (w, []) = (r, w', tr)"
  shows "length (filter is_sent tr) \<le> 3 \<and> slept tr \<le> seconds 120 \<and> list_all (authentic_comm E C) tr"
  using register_loop_traced [OF assms [unfolded client_register_def]]
  by (auto simp: REGISTER_ATTEMPTS_def seconds_def)

section \<open>Back-off\<close>

text \<open>The pauses of the events: each doubles the last up to the cap, work starts over.\<close>

fun paced :: "backoff \<Rightarrow> nat \<Rightarrow> poll_event list \<Rightarrow> bool" where
  "paced b wait [] \<longleftrightarrow> True"
| "paced b wait (Idle n # evs) \<longleftrightarrow> n = wait \<and> paced b (min (min (2 * wait) MAX_DURATION) (bo_max b)) evs"
| "paced b wait (Unreachable e n # evs) \<longleftrightarrow> n = wait \<and> paced b (min (min (2 * wait) MAX_DURATION) (bo_max b)) evs"
| "paced b wait (ev # evs) \<longleftrightarrow> paced b (bo_initial b) evs"

fun pause_of :: "poll_event \<Rightarrow> nat" where
  "pause_of (Idle n) = n"
| "pause_of (Unreachable e n) = n"
| "pause_of _ = 0"

lemma paced_bound:
  "paced b wait evs \<Longrightarrow> wait \<le> max (bo_initial b) (bo_max b) \<Longrightarrow>
     list_all (\<lambda>ev. pause_of ev \<le> max (bo_initial b) (bo_max b)) evs"
  by (induction b wait evs rule: paced.induct) (auto simp: min_le_iff_disj le_max_iff_disj)

lemma poll_round_paced:
  "poll_round E C wait w = Some (ev, wait1, w1) \<Longrightarrow> paced (cl_backoff C) wait1 evs \<Longrightarrow> paced (cl_backoff C) wait (ev # evs)"
  by (auto simp: poll_round_def backoff_next_def split: prod.splits sum.splits option.splits)

lemma poll_rounds_paced: "poll_rounds E C wait w = Some (evs, w') \<Longrightarrow> paced (cl_backoff C) wait evs"
proof (induction evs arbitrary: wait w)
  case (Cons ev evs)
  then show ?case
    by (subst (asm) (2) poll_rounds.simps)
      (auto simp: bind_eq_Some_conv intro: poll_round_paced split: if_splits option.splits prod.splits)
qed simp

section \<open>Every message and every sleep of the loop\<close>

text \<open>What is sent and slept in a round, by its event: one lease request, and then either a sleep of exactly the logged
  length or, with a job, heartbeats for that job and at most one submission for it.  A request that could not be signed
  is not sent.\<close>

definition beat_of :: "job_id \<Rightarrow> comm \<Rightarrow> bool" where
  "beat_of job c \<longleftrightarrow> (\<exists>ts sig. c = Sent (MsgHeartbeat job ts sig))"

fun round_trace :: "poll_event \<Rightarrow> comm list \<Rightarrow> bool" where
  "round_trace (Idle n) seg \<longleftrightarrow> (\<exists>ts sig. seg = [Sent (MsgLease ts sig), Slept n])"
| "round_trace (Unreachable e n) seg \<longleftrightarrow> seg = [Slept n] \<or> (\<exists>ts sig. seg = [Sent (MsgLease ts sig), Slept n])"
| "round_trace (JobFailed job e) seg \<longleftrightarrow>
     (\<exists>ts sig beats. seg = Sent (MsgLease ts sig) # beats \<and> list_all (beat_of (js_id job)) beats)"
| "round_trace (Submitted job payload) seg \<longleftrightarrow>
     (\<exists>ts sig beats s. seg = Sent (MsgLease ts sig) # beats @ [Sent (MsgSubmit s)] \<and>
        list_all (beat_of (js_id job)) beats \<and> ss_job s = js_id job \<and> ss_payload s = payload)"
| "round_trace (SubmitFailed job e) seg \<longleftrightarrow>
     (\<exists>ts sig beats sub. seg = Sent (MsgLease ts sig) # beats @ sub \<and> list_all (beat_of (js_id job)) beats \<and>
        (sub = [] \<or> (\<exists>s. sub = [Sent (MsgSubmit s)] \<and> ss_job s = js_id job)))"

lemma round_sleeps: "round_trace ev seg \<Longrightarrow> Slept n \<in> set seg \<Longrightarrow> n = pause_of ev"
  by (cases ev) (auto simp: beat_of_def list_all_iff)

lemma lease_traced:
  assumes "client_lease (traced E) C (w, tr) = (l, w', tr')"
  shows "\<exists>new. tr' = tr @ new \<and> list_all (authentic_comm E C) new \<and>
    (new = [] \<or> (\<exists>ts sig. new = [Sent (MsgLease ts sig)])) \<and> (\<forall>j. l = Inr j \<longrightarrow> new \<noteq> [])"
proof -
  obtain q where p: "post_stamped (traced E) C (lease_digest (ce_keccak E)) MsgLease (w, tr) = (q, w', tr')"
    and l: "l = Inr j \<Longrightarrow> \<exists>rep. q = Inr rep" for j
    using assms by (auto simp: client_lease_def Let_def split: prod.splits sum.splits)
  have "q = Inr rep \<Longrightarrow> tr' \<noteq> tr" for rep
    using p by (auto simp: post_stamped_def Let_def traced_def client_sign_def split: prod.splits sum.splits)
  with l have sent: "\<forall>j. l = Inr j \<longrightarrow> tr' \<noteq> tr" by blast
  from post_stamped_traced [OF p] show ?thesis
  proof
    assume "tr' = tr"
    with sent show ?thesis by (intro exI [of _ "[]"]) simp
  next
    assume "\<exists>ts sig. tr' = tr @ [Sent (MsgLease ts sig)] \<and> client_sign E C (lease_digest (ce_keccak E) ts) = Inr sig"
    then obtain ts sig where "tr' = tr @ [Sent (MsgLease ts sig)]" "client_sign E C (lease_digest (ce_keccak E) ts) = Inr sig"
      by blast
    then show ?thesis by (intro exI [of _ "[Sent (MsgLease ts sig)]"]) (simp add: authentic_comm_def)
  qed
qed

definition beats :: "('x, 'w) client_env \<Rightarrow> 'x coordinator_client \<Rightarrow> job_id \<Rightarrow> comm list \<Rightarrow> comm list \<Rightarrow> bool" where
  "beats E C job tr tr' \<longleftrightarrow> (\<exists>new. tr' = tr @ new \<and> list_all (\<lambda>c. authentic_comm E C c \<and> beat_of job c) new)"

lemma beats_refl [simp]: "beats E C job tr tr"
  by (simp add: beats_def)

lemma beats_trans: "beats E C job a b \<Longrightarrow> beats E C job b c \<Longrightarrow> beats E C job a c"
  by (auto simp: beats_def)

lemma heartbeat_beats:
  assumes "client_heartbeat (traced E) C job s = (r, s')"
  shows "beats E C job (snd s) (snd s')"
proof -
  obtain q where "post_stamped (traced E) C (heartbeat_digest (ce_keccak E) job) (MsgHeartbeat job) s = (q, s')"
    using assms by (auto simp: client_heartbeat_def Let_def split: prod.splits)
  with post_stamped_traced [of E C "heartbeat_digest (ce_keccak E) job" "MsgHeartbeat job" "fst s" "snd s" q "fst s'" "snd s'"]
  show ?thesis by (auto simp: beats_def authentic_comm_def beat_of_def)
qed

lemma submit_traced:
  assumes "client_submit (traced E) C job payload (w, tr) = (r, w', tr')"
  shows "\<exists>sub. tr' = tr @ sub \<and> list_all (authentic_comm E C) sub \<and> (r = Inr () \<longrightarrow> sub \<noteq> []) \<and>
    (sub = [] \<or> (\<exists>s. sub = [Sent (MsgSubmit s)] \<and> ss_job s = job \<and> ss_payload s = payload))"
proof -
  have send: "ce_send (traced E) m (w, tr) = (fst (ce_send E m w), snd (ce_send E m w), tr @ [Sent m])" for m
    by (simp add: traced_def Let_def case_prod_unfold)
  show ?thesis
  proof (cases "client_sign E C (submission_digest (ce_keccak E) job payload)")
    case (Inl e)
    with assms show ?thesis by (intro exI [of _ "[]"]) (auto simp: client_submit_def)
  next
    case (Inr sig)
    let ?s = "\<lparr>ss_job = job, ss_payload = payload, ss_signature = sig\<rparr>"
    have "tr' = tr @ [Sent (MsgSubmit ?s)]" using assms Inr by (simp add: client_submit_def send)
    with Inr show ?thesis by (intro exI [of _ "[Sent (MsgSubmit ?s)]"]) (simp add: authentic_comm_def)
  qed
qed

lemma advance_traced: "ce_advance (traced E) s = (r, s') \<Longrightarrow> snd s' = snd s"
  by (cases s) (auto simp: traced_def Let_def split: prod.splits)

lemma work_beats_step:
  assumes IH: "\<And>E' C job s y. loop E' C job s = Some y \<Longrightarrow> E' = traced E \<longrightarrow> beats E C job (snd s) (snd (snd y))"
    and run: "(case ce_advance E' s of
        (None, w1) \<Rightarrow> loop E' C job (snd (client_heartbeat E' C job w1))
      | (Some outcome, w1) \<Rightarrow> Some (outcome, w1)) = Some y"
  shows "E' = traced E \<longrightarrow> beats E C job (snd s) (snd (snd y))"
proof
  assume E': "E' = traced E"
  obtain a s1 where pr: "ce_advance E' s = (a, s1)" by (rule prod.exhaust)
  then have adv: "snd s1 = snd s" using advance_traced [of E s a s1] E' by simp
  show "beats E C job (snd s) (snd (snd y))"
  proof (cases a)
    case None
    obtain q s2 where hb: "client_heartbeat E' C job s1 = (q, s2)" by (rule prod.exhaust)
    have "loop E' C job s2 = Some y" using run pr None hb by simp
    from IH [OF this] heartbeat_beats [of E C job s1 q s2] hb adv E'
    show ?thesis by (auto intro: beats_trans)
  next
    case (Some outcome)
    with run pr adv show ?thesis by auto
  qed
qed

lemma work_beats:
  assumes "work_loop (traced E) C job s = Some (r, s')"
  shows "beats E C job (snd s) (snd s')"
proof -
  have "traced E = traced E \<longrightarrow> beats E C job (snd s) (snd (snd (r, s')))"
    by (rule work_loop.raw_induct [where P = "\<lambda>E' C job s y. E' = traced E \<longrightarrow> beats E C job (snd s) (snd (snd y))"])
      (rule work_beats_step [rotated], assumption, blast, rule assms)
  then show ?thesis by simp
qed

lemma round_traced:
  assumes "poll_round (traced E) C wait (w, tr) = Some (ev, wait1, w1, tr1)"
  shows "\<exists>seg. tr1 = tr @ seg \<and> round_trace ev seg \<and> list_all (authentic_comm E C) seg"
proof -
  obtain l w2 tr2 where l: "client_lease (traced E) C (w, tr) = (l, w2, tr2)" by (metis prod_cases3)
  obtain new where new: "tr2 = tr @ new" "list_all (authentic_comm E C) new"
    "new = [] \<or> (\<exists>ts sig. new = [Sent (MsgLease ts sig)])" "\<And>j. l = Inr j \<Longrightarrow> new \<noteq> []"
    using lease_traced [OF l] by blast
  show ?thesis
  proof (cases "\<exists>job. l = Inr (Some job)")
    case False
    then have "tr1 = tr2 @ [Slept wait]" "ev = Idle wait \<and> l = Inr None \<or> (\<exists>e. ev = Unreachable e wait)"
      using assms l by (auto simp: poll_round_def split: sum.splits option.splits)
    with new show ?thesis by (intro exI [of _ "new @ [Slept wait]"]) (auto simp: authentic_comm_def)
  next
    case True
    then obtain job where job: "l = Inr (Some job)" by blast
    with new obtain ts sig where lease: "new = [Sent (MsgLease ts sig)]" by blast
    obtain r w3 tr3 where work: "work_loop (traced E) C (js_id job) (ce_start E job w2, tr2) = Some (r, w3, tr3)"
      using assms l job by (auto simp: poll_round_def split: option.splits prod.splits)
    obtain hb where hb: "tr3 = tr2 @ hb" "list_all (authentic_comm E C) hb" "list_all (beat_of (js_id job)) hb"
      using work_beats [OF work] by (auto simp: beats_def list_all_iff)
    show ?thesis
    proof (cases r)
      case (Inl x)
      with assms l job work have "ev = JobFailed job x" "tr1 = tr3" by (simp_all add: poll_round_def)
      with new lease hb show ?thesis by (intro exI [of _ "new @ hb"]) simp
    next
      case (Inr payload)
      obtain q w4 tr4 where q: "client_submit (traced E) C (js_id job) payload (w3, tr3) = (q, w4, tr4)"
        by (metis prod_cases3)
      obtain sub where sub: "tr4 = tr3 @ sub" "list_all (authentic_comm E C) sub" "q = Inr () \<longrightarrow> sub \<noteq> []"
        "sub = [] \<or> (\<exists>s. sub = [Sent (MsgSubmit s)] \<and> ss_job s = js_id job \<and> ss_payload s = payload)"
        using submit_traced [OF q] by blast
      have tr1: "tr1 = tr4" and ev: "ev = Submitted job payload \<and> q = Inr () \<or> (\<exists>e. ev = SubmitFailed job e)"
        using assms l job work Inr q by (auto simp: poll_round_def split: sum.splits)
      have "round_trace ev (Sent (MsgLease ts sig) # hb @ sub)"
        using ev
      proof
        assume "ev = Submitted job payload \<and> q = Inr ()"
        with sub(3,4) hb(3) show ?thesis by auto
      next
        assume "\<exists>e. ev = SubmitFailed job e"
        then obtain e where "ev = SubmitFailed job e" by blast
        show ?thesis
          unfolding \<open>ev = SubmitFailed job e\<close> round_trace.simps using sub(4) hb(3)
          by (intro exI [of _ ts] exI [of _ sig] exI [of _ hb] exI [of _ sub]) auto
      qed
      with new lease hb sub tr1 show ?thesis by (intro exI [of _ "new @ hb @ sub"]) auto
    qed
  qed
qed

lemma rounds_traced:
  "poll_rounds (traced E) C wait (w, tr) = Some (evs, w', tr') \<Longrightarrow>
   \<exists>segs. list_all2 round_trace evs segs \<and> tr' = tr @ concat segs \<and> list_all (authentic_comm E C) (concat segs)"
proof (induction evs arbitrary: wait w tr)
  case Nil
  then show ?case
    by (subst (asm) poll_rounds.simps) (auto simp: bind_eq_Some_conv split: if_splits option.splits prod.splits)
next
  case (Cons ev evs)
  from Cons.prems obtain wait1 w1 tr1 where
    first: "poll_round (traced E) C wait (w, tr) = Some (ev, wait1, w1, tr1)" and
    rest: "poll_rounds (traced E) C wait1 (w1, tr1) = Some (evs, w', tr')"
    by (subst (asm) poll_rounds.simps) (auto simp: bind_eq_Some_conv split: if_splits option.splits prod.splits)
  from round_traced [OF first] obtain seg where
    seg: "tr1 = tr @ seg" "round_trace ev seg" "list_all (authentic_comm E C) seg" by blast
  from Cons.IH [OF rest] obtain segs where "list_all2 round_trace evs segs" "tr' = tr1 @ concat segs"
    "list_all (authentic_comm E C) (concat segs)" by blast
  with seg show ?case by (intro exI [of _ "seg # segs"]) simp
qed

text \<open>C39: The loop never hammers and never lies about who it is.  What it sends and how long it sleeps, as recorded by
  the environment, is one stretch for each event it logs: a request for a lease and then, with no job or no
  answer, a sleep of exactly the logged length before the next request; with a job, heartbeats for that job and
  at most one submission of its result, with no sleep.  The sleeps follow the back-off: each doubles the last up to the
  cap, work resets them, and none exceeds the larger of the two settings.  And every message, heartbeats
  included, is signed with the worker's key over its own content.\<close>

theorem loop_paces_and_signs:
  assumes "poll_loop (traced E) C (w, []) = Some (evs, w', tr)"
  shows "\<exists>segs. list_all2 round_trace evs segs \<and> tr = concat segs \<and>
    paced (cl_backoff C) (bo_initial (cl_backoff C)) evs \<and>
    (\<forall>n. Slept n \<in> set tr \<longrightarrow> n \<le> max (bo_initial (cl_backoff C)) (bo_max (cl_backoff C))) \<and>
    list_all (authentic_comm E C) tr"
proof -
  note run = assms [unfolded poll_loop_def]
  obtain segs where segs: "list_all2 round_trace evs segs" "tr = concat segs" "list_all (authentic_comm E C) tr"
    using rounds_traced [OF run] by auto
  note pace = poll_rounds_paced [OF run]
  have "n \<le> max (bo_initial (cl_backoff C)) (bo_max (cl_backoff C))" if slept: "Slept n \<in> set tr" for n
  proof -
    from slept segs(1,2) obtain k where "k < length evs" "round_trace (evs ! k) (segs ! k)" "Slept n \<in> set (segs ! k)"
      by (auto simp: list_all2_conv_all_nth in_set_conv_nth [of _ segs])
    then have "n = pause_of (evs ! k)" "evs ! k \<in> set evs" using round_sleeps by simp_all
    with paced_bound [OF pace] show ?thesis by (auto simp: list_all_iff)
  qed
  with segs pace show ?thesis by blast
qed

section \<open>Against the coordinator\<close>

definition carries :: "('x, 'w) client_env \<Rightarrow> reply \<Rightarrow> response \<Rightarrow> bool" where
  "carries E rep resp \<longleftrightarrow>
     rp_status rep = re_code resp \<and>
     (\<forall>t j. rp_body rep = Some t \<longrightarrow> ce_parse_job E t = Inr (Some j) \<longrightarrow> re_body resp = Job j)"

fun request_for :: "client_message \<Rightarrow> request \<Rightarrow> bool" where
  "request_for (MsgRegister a) req \<longleftrightarrow> (\<exists>peer fwd. req = PostRegister a peer fwd)"
| "request_for (MsgLease ts sig) req \<longleftrightarrow> req = PostLease ts sig"
| "request_for (MsgHeartbeat job ts sig) req \<longleftrightarrow> req = PostHeartbeat job ts sig"
| "request_for (MsgSubmit s) req \<longleftrightarrow> req = PostSubmit s"
| "request_for (MsgUpload target header bs) req \<longleftrightarrow> req = GetStatus"

text \<open>The world of the client holds the coordinator \<open>S w\<close>.  Between the client's own actions anyone may have used
  it, as long as it remains in a state its service can be in; a request that is answered was handled by it.\<close>

definition hosts :: "'f deps \<Rightarrow> ('w \<Rightarrow> 'f coordinator) \<Rightarrow> ('x, 'w) client_env \<Rightarrow> bool" where
  "hosts D S E \<longleftrightarrow>
     ce_keccak E = d_keccak D \<and>
     (\<forall>w. service_ok D (S w) \<longrightarrow>
        service_ok D (S (snd (ce_nanos E w))) \<and> service_ok D (S (snd (ce_advance E w))) \<and>
        (\<forall>n. service_ok D (S (ce_sleep E n w))) \<and> (\<forall>job. service_ok D (S (ce_start E job w)))) \<and>
     (\<forall>m w r w'. service_ok D (S w) \<longrightarrow> ce_send E m w = (r, w') \<longrightarrow>
        service_ok D (S w') \<and>
        (\<forall>rep. r = Inr rep \<longrightarrow>
           (\<exists>req ev. request_for m req \<and> carries E rep (fst (handle D ev req (S w))) \<and> S w' = snd (handle D ev req (S w)))))"

definition recovers :: "'f deps \<Rightarrow> ('x, 'w) client_env \<Rightarrow> 'x coordinator_client \<Rightarrow> bool" where
  "recovers D E C \<longleftrightarrow> (\<forall>d sig. client_sign E C d = Inr sig \<longrightarrow> d_recover D d sig = Some (w_address (cl_wallet C)))"

lemma stamped_hosted:
  assumes "hosts D S E" "service_ok D (S w)" "post_stamped E C dg msg w = (r, w')"
  shows "service_ok D (S w')"
    "r = Inr rep \<Longrightarrow> \<exists>ts sig w1 req ev. client_sign E C (dg ts) = Inr sig \<and> service_ok D (S w1) \<and>
       request_for (msg ts sig) req \<and> carries E rep (fst (handle D ev req (S w1))) \<and> S w' = snd (handle D ev req (S w1))"
proof -
  obtain ts w1 where n: "ce_nanos E w = (ts, w1)" by fastforce
  have ok1: "service_ok D (S w1)" using assms(1,2) n unfolding hosts_def by (metis snd_conv)
  have "service_ok D (S w') \<and> (r = Inr rep \<longrightarrow> (\<exists>ts sig w1 req ev. client_sign E C (dg ts) = Inr sig \<and> service_ok D (S w1) \<and>
       request_for (msg ts sig) req \<and> carries E rep (fst (handle D ev req (S w1))) \<and> S w' = snd (handle D ev req (S w1))))"
  proof (cases "client_sign E C (dg ts)")
    case (Inl e)
    with assms(3) n ok1 show ?thesis by (auto simp: post_stamped_def)
  next
    case (Inr sig)
    obtain q w2 where s: "ce_send E (msg ts sig) w1 = (q, w2)" by fastforce
    have h: "service_ok D (S w2)" "\<And>rep. q = Inr rep \<Longrightarrow>
        \<exists>req ev. request_for (msg ts sig) req \<and> carries E rep (fst (handle D ev req (S w1))) \<and> S w2 = snd (handle D ev req (S w1))"
      using assms(1) ok1 s unfolding hosts_def by blast+
    have "r = map_sum Transport id q" "w' = w2" using assms(3) n Inr s by (auto simp: post_stamped_def)
    with h ok1 Inr show ?thesis by (cases q) (simp, simp only: map_sum.simps id_apply sum.inject, metis)
  qed
  then show "service_ok D (S w')"
    "r = Inr rep \<Longrightarrow> \<exists>ts sig w1 req ev. client_sign E C (dg ts) = Inr sig \<and> service_ok D (S w1) \<and>
       request_for (msg ts sig) req \<and> carries E rep (fst (handle D ev req (S w1))) \<and> S w' = snd (handle D ev req (S w1))"
    by blast+
qed

lemma read_json_Inr: "read_json parse rep = Inr x \<longleftrightarrow> (\<exists>t. rp_body rep = Some t \<and> parse t = Inr x)"
  by (auto simp: read_json_def map_sum_def split: option.splits sum.splits)

lemma lease_hosted_ok:
  assumes "hosts D S E" "service_ok D (S w)" "client_lease E C w = (r, w')"
  shows "service_ok D (S w')"
proof -
  obtain q where "post_stamped E C (lease_digest (ce_keccak E)) MsgLease w = (q, w')"
    using assms(3) by (auto simp: client_lease_def Let_def split: prod.splits)
  from stamped_hosted(1) [OF assms(1,2) this] show ?thesis .
qed

lemma heartbeat_hosted_ok:
  assumes "hosts D S E" "service_ok D (S w)" "client_heartbeat E C job w = (r, w')"
  shows "service_ok D (S w')"
proof -
  obtain q where "post_stamped E C (heartbeat_digest (ce_keccak E) job) (MsgHeartbeat job) w = (q, w')"
    using assms(3) by (auto simp: client_heartbeat_def Let_def split: prod.splits)
  from stamped_hosted(1) [OF assms(1,2) this] show ?thesis .
qed

lemma handler_leases:
  assumes "service_ok D c" "re_body (fst (handle D ev (PostLease ts sig) c)) = Job job"
    "d_recover D (lease_digest (d_keccak D) ts) sig = Some me"
  shows "\<exists>r e d. bt_get (st_jobs (co_state (snd (handle D ev (PostLease ts sig) c)))) (js_id job) = Some r \<and>
    jr_spec r = job \<and> jr_status r = Leased me e d"
proof -
  have "re_body (fst (lease_handler D ev ts sig c)) = Job job" using assms(2) by simp
  from lease_granted [OF this] obtain who c1 where who: "d_recover D (lease_digest (d_keccak D) ts) sig = Some who"
    and c': "snd (lease_handler D ev ts sig c) = snd (persist D (ev_fault ev) c1)"
    and lease: "lease (d_keccak D) (d_parse_payload D) who (ev_now ev) (co_state c) = (Inr job, co_state c1)" .
  note sok = reachable_ok [OF service_okD(1) [OF assms(1)]]
  obtain r0 e0 d0 where "bt_get (st_jobs (co_state c1)) (js_id job) = Some r0" "jr_spec r0 = job"
    "jr_status r0 = Leased who e0 d0"
    using lease_job_granted [OF sok lease] by blast
  with who assms(3) show ?thesis
    by (cases "st_dirty (co_state c1)") (auto simp: c' persist_get)
qed

lemma lease_hosted:
  assumes "hosts D S E" "recovers D E C" "service_ok D (S w)" "client_lease E C w = (Inr (Some job), w')"
  shows "\<exists>r e d. bt_get (st_jobs (co_state (S w'))) (js_id job) = Some r \<and> jr_spec r = job \<and>
    jr_status r = Leased (w_address (cl_wallet C)) e d"
proof -
  obtain res t where p: "post_stamped E C (lease_digest (ce_keccak E)) MsgLease w = (Inr res, w')"
    and body: "rp_body res = Some t" "ce_parse_job E t = Inr (Some job)"
    using assms(4) by (auto simp: client_lease_def Let_def read_json_Inr split: prod.splits sum.splits if_splits)
  have K: "ce_keccak E = d_keccak D" using assms(1) by (simp add: hosts_def)
  obtain ts sig w1 ev where h: "client_sign E C (lease_digest (ce_keccak E) ts) = Inr sig" "service_ok D (S w1)"
    "carries E res (fst (handle D ev (PostLease ts sig) (S w1)))" "S w' = snd (handle D ev (PostLease ts sig) (S w1))"
    using stamped_hosted(2) [OF assms(1,3) p refl] by auto
  have "d_recover D (lease_digest (d_keccak D) ts) sig = Some (w_address (cl_wallet C))"
    using assms(2) h(1) by (simp add: recovers_def K)
  moreover have "re_body (fst (handle D ev (PostLease ts sig) (S w1))) = Job job"
    using h(3) body by (simp add: carries_def)
  ultimately show ?thesis unfolding h(4) using handler_leases [OF h(2)] by blast
qed

text \<open>A job that is done, with its result, by \<open>me\<close>, in memory and in everything a power loss may leave.\<close>

definition done_for_good :: "'f deps \<Rightarrow> 'f coordinator \<Rightarrow> job_id \<Rightarrow> address \<Rightarrow> string \<Rightarrow> bool" where
  "done_for_good D c job me payload \<longleftrightarrow>
     (\<exists>r t. bt_get (st_jobs (co_state c)) job = Some r \<and> jr_status r = Done me t \<and> jr_result r = Some payload) \<and>
     (\<forall>img \<in> dk_after_crash (co_disk c). \<exists>st r t. load_file (d_de D) img = Some st \<and>
        bt_get (st_jobs st) job = Some r \<and> jr_status r = Done me t \<and> jr_result r = Some payload)"

lemma on_disk_done:
  assumes "on_disk s m" "bt_get (st_jobs m) i = Some r" "jr_status r = Done me t" "jr_result r = Some payload"
  shows "\<exists>r t. bt_get (st_jobs s) i = Some r \<and> jr_status r = Done me t \<and> jr_result r = Some payload"
proof -
  obtain r' where r': "bt_get (st_jobs s) i = Some r'" "durable_job r' = durable_job r"
    by (rule on_disk_get [OF assms(1,2)])
  note k = durable_job_keeps [OF r'(2)]
  have "jr_status r' = Done me t" using k(3) assms(3) by (cases "jr_status r'") auto
  with r'(1) k(2) assms(4) show ?thesis by auto
qed

lemma submit_accepted:
  assumes "fst (submit me job res now st) = Inr ()"
  shows "\<exists>r. bt_get (st_jobs (snd (submit me job res now st))) job = Some r \<and> jr_status r = Done me now \<and> jr_result r = Some res"
proof -
  obtain r h e d where r: "bt_get (st_jobs st) job = Some r" "jr_status r = Leased h e d"
    using assms by (auto simp: submit_def split: option.splits job_status.splits)
  from r show ?thesis
    by (cases rule: submit_cases [where worker = me and now = now and res = res]) (use assms r in auto)
qed

lemma handler_submits:
  assumes fmt: "format_ok D" and ok: "service_ok D c" and succ: "success (re_code (fst (handle D ev (PostSubmit sub) c)))"
    and rec: "d_recover D (submission_digest (d_keccak D) (ss_job sub) (ss_payload sub)) (ss_signature sub) = Some me"
  shows "done_for_good D (snd (handle D ev (PostSubmit sub) c)) (ss_job sub) me (ss_payload sub)"
proof -
  let ?f = "on_state (submit me (ss_job sub) (ss_payload sub) (ev_now ev))"
  have who: "recover_submitter (d_keccak D) (d_recover D) sub = Inr me" using rec by (simp add: recover_submitter_def)
  have c': "snd (handle D ev (PostSubmit sub) c) = snd (persist D (ev_fault ev) (snd (?f c)))"
    by (simp add: submit_handler_def who Let_def case_prod_unfold mutate_snd)
  have code: "re_code (fst (handle D ev (PostSubmit sub) c)) =
      re_code (case fst (mutate D (ev_fault ev) ?f c) of Inl e \<Rightarrow> err 500 (PersistErr e) | Inr got \<Rightarrow> submit_response got)"
    by (simp add: submit_handler_def who Let_def case_prod_unfold)
  have refused: "\<not> success (re_code (submit_response (Inl e)))" "\<not> success (re_code (err 500 t))" for e t
    by (simp_all add: success_def err_def)
  obtain u where u: "fst (mutate D (ev_fault ev) ?f c) = Inr (Inr u)"
    using succ unfolding code
    by (cases "fst (mutate D (ev_fault ev) ?f c)"; cases "projr (fst (mutate D (ev_fault ev) ?f c))") (simp_all only: sum.case refused sum.sel not_True_eq_False)
  then have "fst (submit me (ss_job sub) (ss_payload sub) (ev_now ev) (co_state c)) = Inr ()"
    by (auto simp: mutate_def Let_def case_prod_unfold on_state_simps map_sum_def split: sum.splits)
  from submit_accepted [OF this] obtain r0 where r0: "bt_get (st_jobs (co_state (snd (?f c)))) (ss_job sub) = Some r0"
    "jr_status r0 = Done me (ev_now ev)" "jr_result r0 = Some (ss_payload sub)"
    by (auto simp: on_state_simps)
  have "\<exists>r. bt_get (st_jobs (co_state (snd (handle D ev (PostSubmit sub) c)))) (ss_job sub) = Some r \<and>
      jr_status r = Done me (ev_now ev) \<and> jr_result r = Some (ss_payload sub)"
    unfolding c' by (cases "st_dirty (co_state (snd (?f c)))") (use r0 in \<open>auto simp: persist_get\<close>)
  then obtain r where r: "bt_get (st_jobs (co_state (snd (handle D ev (PostSubmit sub) c)))) (ss_job sub) = Some r"
    "jr_status r = Done me (ev_now ev)" "jr_result r = Some (ss_payload sub)" by blast
  have clean: "\<not> st_dirty (co_state (snd (handle D ev (PostSubmit sub) c)))"
    by (rule handle_ok(2) [OF fmt ok]) (use succ in \<open>simp_all add: success_def\<close>)
  have "\<exists>st r t. load_file (d_de D) img = Some st \<and> bt_get (st_jobs st) (ss_job sub) = Some r \<and> jr_status r = Done me t \<and>
      jr_result r = Some (ss_payload sub)" if "img \<in> dk_after_crash (co_disk (snd (handle D ev (PostSubmit sub) c)))" for img
    using service_okD(4) [OF handle_ok(1) [OF fmt ok] clean that] on_disk_done [OF _ r] by (auto simp: saved_def)
  with r show ?thesis unfolding done_for_good_def by blast
qed

lemma submit_hosted:
  assumes "format_ok D" "hosts D S E" "recovers D E C" "service_ok D (S w)" "client_submit E C job payload w = (Inr u, w')"
  shows "done_for_good D (S w') job (w_address (cl_wallet C)) payload"
proof -
  have K: "ce_keccak E = d_keccak D" using assms(2) by (simp add: hosts_def)
  obtain sig res where sig: "client_sign E C (submission_digest (ce_keccak E) job payload) = Inr sig"
    and send: "ce_send E (MsgSubmit \<lparr>ss_job = job, ss_payload = payload, ss_signature = sig\<rparr>) w = (Inr res, w')"
    and succ: "success (rp_status res)"
    using assms(5) by (auto simp: client_submit_def Let_def split: sum.splits prod.splits if_splits)
  let ?sub = "\<lparr>ss_job = job, ss_payload = payload, ss_signature = sig\<rparr>"
  obtain req ev where "request_for (MsgSubmit ?sub) req" "carries E res (fst (handle D ev req (S w)))"
    "S w' = snd (handle D ev req (S w))"
    using assms(2,4) send unfolding hosts_def by blast
  then have ev: "carries E res (fst (handle D ev (PostSubmit ?sub) (S w)))" "S w' = snd (handle D ev (PostSubmit ?sub) (S w))"
    by simp_all
  have "d_recover D (submission_digest (d_keccak D) job payload) sig = Some (w_address (cl_wallet C))"
    using assms(3) sig by (simp add: recovers_def K)
  moreover have "success (re_code (fst (handle D ev (PostSubmit ?sub) (S w))))" using ev(1) succ by (simp add: carries_def)
  ultimately show ?thesis unfolding ev(2) using handler_submits [OF assms(1,4), of ev ?sub] by simp
qed

lemma work_hosted_step:
  assumes IH: "\<And>E C job w y. loop E C job w = Some y \<Longrightarrow> hosts D S E \<longrightarrow> service_ok D (S w) \<longrightarrow> service_ok D (S (snd y))"
    and run: "(case ce_advance E w of
        (None, w1) \<Rightarrow> loop E C job (snd (client_heartbeat E C job w1))
      | (Some outcome, w1) \<Rightarrow> Some (outcome, w1)) = Some y"
  shows "hosts D S E \<longrightarrow> service_ok D (S w) \<longrightarrow> service_ok D (S (snd y))"
proof (intro impI)
  assume h: "hosts D S E" and ok: "service_ok D (S w)"
  obtain a w1 where adv: "ce_advance E w = (a, w1)" by (rule prod.exhaust)
  have ok1: "service_ok D (S w1)" using h ok adv unfolding hosts_def by (metis snd_conv)
  show "service_ok D (S (snd y))"
  proof (cases a)
    case None
    obtain q w2 where hb: "client_heartbeat E C job w1 = (q, w2)" by (rule prod.exhaust)
    have "loop E C job w2 = Some y" using run adv None hb by simp
    with IH [OF this] heartbeat_hosted_ok [OF h ok1 hb] h show ?thesis by blast
  next
    case (Some outcome)
    with run adv ok1 show ?thesis by auto
  qed
qed

lemma work_hosted:
  assumes "hosts D S E" "service_ok D (S w)" "work_loop E C job w = Some (r, w')"
  shows "service_ok D (S w')"
proof -
  have "hosts D S E \<longrightarrow> service_ok D (S w) \<longrightarrow> service_ok D (S (snd (r, w')))"
    by (rule work_loop.raw_induct [where P = "\<lambda>E C job w y. hosts D S E \<longrightarrow> service_ok D (S w) \<longrightarrow> service_ok D (S (snd y))"])
      (rule work_hosted_step [rotated], assumption, blast, rule assms)
  with assms show ?thesis by simp
qed

text \<open>C9: What the worker logs is so at the coordinator.  If a round of the loop ends with ``submitted'', then the
  coordinator had leased that very job to this worker's address when it answered the lease, and now has it
  done by this worker with exactly the payload the run returned, in memory and in everything a power loss
  may leave, whatever else happened at the coordinator in between.\<close>

theorem submitted_is_done:
  assumes "format_ok D" "hosts D S E" "recovers D E C" "service_ok D (S w)"
    and "poll_round E C wait w = Some (Submitted job payload, wait1, w')"
  shows "\<exists>wl r e d. client_lease E C w = (Inr (Some job), wl) \<and>
    bt_get (st_jobs (co_state (S wl))) (js_id job) = Some r \<and> jr_spec r = job \<and>
    jr_status r = Leased (w_address (cl_wallet C)) e d \<and>
    done_for_good D (S w') (js_id job) (w_address (cl_wallet C)) payload"
proof -
  obtain wl w2 u where l: "client_lease E C w = (Inr (Some job), wl)"
    and work: "work_loop E C (js_id job) (ce_start E job wl) = Some (Inr payload, w2)"
    and sub: "client_submit E C (js_id job) payload w2 = (Inr u, w')"
    using assms(5) by (auto simp: poll_round_def split: prod.splits sum.splits option.splits)
  have "service_ok D (S wl)" by (rule lease_hosted_ok [OF assms(2,4) l])
  then have "service_ok D (S (ce_start E job wl))" using assms(2) by (simp add: hosts_def)
  then have "service_ok D (S w2)" by (rule work_hosted [OF assms(2) _ work])
  from submit_hosted [OF assms(1-3) this sub] lease_hosted [OF assms(2-4) l] l show ?thesis by blast
qed

section \<open>A small fleet\<close>

fun client_ex_request :: "client_message \<Rightarrow> request" where
  "client_ex_request (MsgRegister a) = PostRegister a None None"
| "client_ex_request (MsgLease ts sig) = PostLease ts sig"
| "client_ex_request (MsgHeartbeat job ts sig) = PostHeartbeat job ts sig"
| "client_ex_request (MsgSubmit s) = PostSubmit s"
| "client_ex_request (MsgUpload target header bs) = GetStatus"

definition client_ex_job :: job_spec where "client_ex_job = new_job_spec ''low'' Probe JNull"

definition client_ex_reply :: "response \<Rightarrow> reply" where
  "client_ex_reply resp = \<lparr>rp_status = re_code resp, rp_retry_after = None,
     rp_body = (if re_body resp = Job client_ex_job then Some '''' else None)\<rparr>"

definition client_ex_wallet :: "nat wallet_deps" where
  "client_ex_wallet = \<lparr>wd_keccak = (\<lambda>_. 0), wd_hex = lower_hex, wd_read_file = (\<lambda>_. Inr []), wd_parse_keystore = (\<lambda>_. Inl ''''),
     wd_pbkdf2 = (\<lambda>_ _ _. []), wd_aes_ctr = (\<lambda>_ _ c. c), wd_key_from_bytes = (\<lambda>_. None), wd_public_point = (\<lambda>_. []),
     wd_sign_prehash = (\<lambda>_ _. Inr [0, 0, 0, 0]), wd_trial_recovery = (\<lambda>_ _ _. Inr 0), wd_signature_from_slice = (\<lambda>_. True),
     wd_recovery_id_ok = (\<lambda>_. True), wd_recover = (\<lambda>_ _ _. Inl ''''), wd_rlp = (\<lambda>_. [])\<rparr>"

definition client_ex_env :: "(nat, state coordinator) client_env" where
  "client_ex_env = \<lparr>ce_keccak = K0, ce_wallet_deps = client_ex_wallet,
     ce_send = (\<lambda>m c. let (resp, c1) = handle D0 ev0 (client_ex_request m) c in (Inr (client_ex_reply resp), c1)),
     ce_nanos = (\<lambda>c. (1, c)), ce_sleep = (\<lambda>n c. c), ce_parse_register = (\<lambda>_. Inl ''''),
     ce_parse_job = (\<lambda>_. Inr (Some client_ex_job)), ce_parse_expiry = (\<lambda>_. Inl ''''), ce_start = (\<lambda>job c. c),
     ce_advance = (\<lambda>c. (Some (Inr ''ok''), c)), ce_continue = (\<lambda>c. False)\<rparr>"

definition client_ex :: "nat coordinator_client" where
  "client_ex = \<lparr>cl_wallet = \<lparr>w_signing_key = 0, w_address = 5, w_below_modern_kdf = None\<rparr>, cl_backoff = default_backoff\<rparr>"

lemma client_ex_request_for: "request_for m (client_ex_request m)"
  by (cases m) auto

lemma client_ex_signs: "client_sign client_ex_env client_ex d = Inr [0, 0, 0, 0, 0]"
  by (simp add: client_sign_def client_ex_env_def client_ex_wallet_def sign_digest_recoverable_def)

lemma client_ex_hosts: "hosts D0 (\<lambda>c. c) client_ex_env"
  unfolding hosts_def
proof (intro conjI allI impI)
  fix m c r c' rep
  assume "service_ok D0 c" "ce_send client_ex_env m c = (r, c')"
  then have s: "r = Inr (client_ex_reply (fst (handle D0 ev0 (client_ex_request m) c)))"
    "c' = snd (handle D0 ev0 (client_ex_request m) c)"
    by (simp_all add: client_ex_env_def Let_def case_prod_unfold)
  show "service_ok D0 c'" unfolding s(2) by (rule handle_ok(1) [OF D0_format \<open>service_ok D0 c\<close>])
  assume "r = Inr rep"
  with s show "\<exists>req ev. request_for m req \<and> carries client_ex_env rep (fst (handle D0 ev req c)) \<and> c' = snd (handle D0 ev req c)"
    by (intro exI [of _ "client_ex_request m"] exI [of _ ev0])
      (auto simp: client_ex_request_for carries_def client_ex_reply_def client_ex_env_def)
qed (simp_all add: client_ex_env_def D0_def)

lemma client_ex_recovers: "recovers D0 client_ex_env client_ex"
  by (simp add: recovers_def client_ex_signs) (simp add: D0_def client_ex_def)

lemma client_ex_leases:
  obtains c1 where "client_lease client_ex_env client_ex sv1 = (Inr (Some client_ex_job), c1)"
    "bt_get (st_jobs (co_state c1)) ''low'' = Some (note_persisted ex_low_lease) \<or>
     bt_get (st_jobs (co_state c1)) ''low'' = Some ex_low_lease" "st_policy (co_state c1) = ex_policy"
proof -
  let ?h = "handle D0 ev0 (PostLease 1 [0, 0, 0, 0, 0]) sv1"
  have body: "re_body (fst ?h) = Job client_ex_job" "re_code (fst ?h) = 200"
    by (simp_all only: sv1_leases ok_def response.select_convs client_ex_job_def)
  have "client_lease client_ex_env client_ex sv1 = (Inr (Some client_ex_job), snd ?h)"
    using body
    by (simp add: client_lease_def post_stamped_def client_ex_signs del: handle.simps)
      (simp add: client_ex_env_def Let_def case_prod_unfold client_ex_reply_def success_def read_json_def del: handle.simps)
  moreover obtain c1 where c1: "snd ?h = snd (persist D0 NoFault c1)" "co_state c1 = ex_leased"
  proof -
    have "re_body (fst (lease_handler D0 ev0 1 [0, 0, 0, 0, 0] sv1)) = Job client_ex_job" using body(1) by simp
    from lease_granted [OF this] obtain who c1 where
      "d_recover D0 (lease_digest (d_keccak D0) 1) [0, 0, 0, 0, 0] = Some who"
      "snd (lease_handler D0 ev0 1 [0, 0, 0, 0, 0] sv1) = snd (persist D0 (ev_fault ev0) c1)"
      "lease (d_keccak D0) (d_parse_payload D0) who (ev_now ev0) (co_state sv1) = (Inr client_ex_job, co_state c1)" .
    then show ?thesis
      by (intro that [of c1]) (simp_all add: D0_def ev0_def sv1_def ex_leased_def ex_lease)
  qed
  have "bt_get (st_jobs (co_state (snd ?h))) ''low'' = Some (note_persisted ex_low_lease) \<or>
     bt_get (st_jobs (co_state (snd ?h))) ''low'' = Some ex_low_lease"
    unfolding c1(1) persist_get c1(2) ex_leased_low by simp
  moreover have "st_policy (co_state (snd ?h)) = ex_policy"
    unfolding c1(1) by (simp add: persist_def take_dirty_def mark_dirty_def Let_def case_prod_unfold c1(2) ex_leased_eq ex_ready_eq split: sum.splits)
  ultimately show ?thesis by (rule that)
qed

lemma client_ex_round:
  obtains w' where "poll_round client_ex_env client_ex 0 sv1 = Some (Submitted client_ex_job ''ok'', bo_initial default_backoff, w')"
proof -
  obtain c1 where l: "client_lease client_ex_env client_ex sv1 = (Inr (Some client_ex_job), c1)"
    and low: "bt_get (st_jobs (co_state c1)) ''low'' = Some (note_persisted ex_low_lease) \<or>
      bt_get (st_jobs (co_state c1)) ''low'' = Some ex_low_lease" "st_policy (co_state c1) = ex_policy"
    by (rule client_ex_leases)
  obtain r where r: "bt_get (st_jobs (co_state c1)) ''low'' = Some r" "jr_status r = Leased 5 1900 4600"
    "jr_spec r = client_ex_job"
    using low(1) by (auto simp: note_persisted_def ex_low_lease_def client_ex_job_def)
  have "tier_allowed ex_policy 5 Probe"
    by (simp add: tier_allowed_def satisfies_def effective_capability_def)
  then have acc: "fst (submit 5 ''low'' ''ok'' 1000 (co_state c1)) = Inr ()"
    using r low(2) by (simp add: submit_def Let_def client_ex_job_def new_job_spec_def)
  have who: "recover_submitter (d_keccak D0) (d_recover D0) \<lparr>ss_job = ''low'', ss_payload = ''ok'', ss_signature = [0, 0, 0, 0, 0]\<rparr> = Inr 5"
    by (simp add: recover_submitter_def D0_def)
  have fine: "fst (persist D0 NoFault c) = Inr ()" for c
    by (simp add: persist_def Let_def case_prod_unfold)
  have code: "re_code (fst (submit_handler D0 ev0 \<lparr>ss_job = ''low'', ss_payload = ''ok'', ss_signature = [0, 0, 0, 0, 0]\<rparr> c1)) = 202"
    by (simp add: submit_handler_def who Let_def case_prod_unfold mutate_def on_state_simps ev0_def fine acc)
  have "fst (client_submit client_ex_env client_ex ''low'' ''ok'' c1) = Inr ()"
    using code
    by (simp add: client_submit_def client_ex_signs) (simp add: client_ex_env_def Let_def case_prod_unfold client_ex_reply_def success_def)
  then obtain w' where sub: "client_submit client_ex_env client_ex ''low'' ''ok'' c1 = (Inr (), w')"
    by (metis prod.collapse)
  have "work_loop client_ex_env client_ex ''low'' c1 = Some (Inr ''ok'', c1)"
    by (subst work_loop.simps) (simp add: client_ex_env_def)
  moreover have "ce_start client_ex_env client_ex_job c1 = c1" by (simp add: client_ex_env_def)
  moreover have "js_id client_ex_job = ''low''" by (simp add: client_ex_job_def new_job_spec_def)
  ultimately have "poll_round client_ex_env client_ex 0 sv1 = Some (Submitted client_ex_job ''ok'', bo_initial default_backoff, w')"
    by (simp add: poll_round_def l sub) (simp add: client_ex_def)
  then show ?thesis by (rule that)
qed

theorem submitted_is_done_witness:
  "\<exists>w'. poll_round client_ex_env client_ex 0 sv1 = Some (Submitted client_ex_job ''ok'', bo_initial default_backoff, w') \<and>
     done_for_good D0 w' ''low'' 5 ''ok''"
proof -
  obtain w' where r: "poll_round client_ex_env client_ex 0 sv1 = Some (Submitted client_ex_job ''ok'', bo_initial default_backoff, w')"
    by (rule client_ex_round)
  have "js_id client_ex_job = ''low''" "w_address (cl_wallet client_ex) = 5"
    by (simp_all add: client_ex_job_def new_job_spec_def client_ex_def)
  with submitted_is_done [OF D0_format client_ex_hosts client_ex_recovers sv1_ok r] r show ?thesis by auto
qed

text \<open>A coordinator that throttles every registration.\<close>

definition throttled_env :: "(nat, state coordinator) client_env" where
  "throttled_env = client_ex_env\<lparr>ce_send := (\<lambda>m c. (Inr \<lparr>rp_status = 429, rp_retry_after = Some ''9999'', rp_body = None\<rparr>, c))\<rparr>"

theorem registration_is_bounded_witness:
  "\<exists>r w' tr. client_register (traced throttled_env) client_ex ''p'' (sv1, []) = (r, w', tr) \<and>
     length (filter is_sent tr) \<le> 3 \<and> slept tr \<le> seconds 120"
proof -
  obtain r w' tr where run: "client_register (traced throttled_env) client_ex ''p'' (sv1, []) = (r, w', tr)"
    by (metis prod_cases3)
  from registration_is_bounded [OF run] run show ?thesis by blast
qed

text \<open>A coordinator that is away, and a worker that gives up after two rounds.\<close>

definition away_env :: "(nat, nat) client_env" where
  "away_env = \<lparr>ce_keccak = K0, ce_wallet_deps = client_ex_wallet, ce_send = (\<lambda>m n. (Inl ''refused'', n)),
     ce_nanos = (\<lambda>n. (7, n)), ce_sleep = (\<lambda>d n. n + 1), ce_parse_register = (\<lambda>_. Inl ''''),
     ce_parse_job = (\<lambda>_. Inl ''''), ce_parse_expiry = (\<lambda>_. Inl ''''), ce_start = (\<lambda>job n. n),
     ce_advance = (\<lambda>n. (None, n)), ce_continue = (\<lambda>n. n < 2)\<rparr>"

lemma away_round:
  "poll_round (traced away_env) client_ex wait (n, tr) =
     Some (Unreachable (Transport ''refused'') wait, backoff_next default_backoff wait,
       n + 1, tr @ [Sent (MsgLease 7 [0, 0, 0, 0, 0]), Slept wait])"
proof -
  have "client_sign away_env client_ex d = Inr [0, 0, 0, 0, 0]" for d
    by (simp add: client_sign_def away_env_def client_ex_wallet_def sign_digest_recoverable_def)
  then have "client_lease (traced away_env) client_ex (n, tr) =
      (Inl (Transport ''refused''), n, tr @ [Sent (MsgLease 7 [0, 0, 0, 0, 0])])"
    by (simp add: client_lease_def post_stamped_def) (simp add: traced_def away_env_def)
  then show ?thesis by (simp add: poll_round_def) (simp add: away_env_def client_ex_def)
qed

lemma away_continue: "ce_continue (traced away_env) (n, tr) \<longleftrightarrow> n < 2"
  by (simp add: traced_def away_env_def)

theorem loop_paces_and_signs_witness:
  "\<exists>evs tr segs. poll_loop (traced away_env) client_ex (0, []) = Some (evs, 2, tr) \<and>
     map pause_of evs = [seconds 5, seconds 10] \<and> list_all2 round_trace evs segs \<and> tr = concat segs \<and>
     length (filter is_sent tr) = 2 \<and> slept tr = seconds 15 \<and> list_all (authentic_comm away_env client_ex) tr"
proof -
  let ?m = "MsgLease 7 [0, 0, 0, 0, 0]"
  have b: "bo_initial (cl_backoff client_ex) = seconds 5" "backoff_next default_backoff (seconds 5) = seconds 10"
    by (simp_all add: client_ex_def default_backoff_def backoff_next_def seconds_def MAX_DURATION_def)
  have "poll_rounds (traced away_env) client_ex (seconds 5) (0, []) =
      Some ([Unreachable (Transport ''refused'') (seconds 5), Unreachable (Transport ''refused'') (seconds 10)], 2,
        [Sent ?m, Slept (seconds 5), Sent ?m, Slept (seconds 10)])"
    by (subst poll_rounds.simps, simp add: away_round away_continue b,
        subst poll_rounds.simps, simp add: away_round away_continue,
        subst poll_rounds.simps, simp add: away_continue)
  then have run: "poll_loop (traced away_env) client_ex (0, []) =
      Some ([Unreachable (Transport ''refused'') (seconds 5), Unreachable (Transport ''refused'') (seconds 10)], 2,
        [Sent ?m, Slept (seconds 5), Sent ?m, Slept (seconds 10)])"
    by (simp add: poll_loop_def b)
  from loop_paces_and_signs [OF run] obtain segs where segs:
    "list_all2 round_trace [Unreachable (Transport ''refused'') (seconds 5), Unreachable (Transport ''refused'') (seconds 10)] segs"
    "[Sent ?m, Slept (seconds 5), Sent ?m, Slept (seconds 10)] = concat segs"
    "list_all (authentic_comm away_env client_ex) [Sent ?m, Slept (seconds 5), Sent ?m, Slept (seconds 10)]"
    by (elim exE conjE)
  show ?thesis
    by (intro exI conjI, rule run, simp, rule segs(1), rule segs(2), simp add: is_sent_def, simp add: seconds_def, rule segs(3))
qed

end
