(* ===== verification/Step_Gradients.thy ===== *)
theory Step_Gradients
  imports BTree Fl_Gguf
begin

text \<open>
  What a training step commits to: the two grids of \<^verbatim>\<open>training-worker/src/quantize.rs\<close> and \<^verbatim>\<open>q16_commitment.rs\<close>,
  and the attribution of a difference of parameters to zones, \<^verbatim>\<open>zone_delta.rs\<close>.  Rounding float arithmetic is a
  parameter (\<open>grad_ops\<close>); the maximum of magnitudes is computed on the bit patterns.  \<open>K\<close> is Keccak-256.
\<close>

type_synonym f64 = u64
type_synonym i8 = "8 word"

record tensor =
  tn_data :: "f32 list"
  tn_layer :: u64

record grad_ops =
  go_div127 :: "f32 \<Rightarrow> f32"
  go_quotient :: "f32 \<Rightarrow> f32 \<Rightarrow> i8"
  go_product :: "i8 \<Rightarrow> f32 \<Rightarrow> f32"
  go_q16 :: "f32 \<Rightarrow> i64"
  go_sub :: "f32 \<Rightarrow> f32 \<Rightarrow> f32"
  go_l2 :: "f32 list \<Rightarrow> f64"
  go_add :: "f64 \<Rightarrow> f64 \<Rightarrow> f64"

section \<open>The data-dependent grid\<close>

record quantized_gradient =
  qg_scale :: f32
  qg_values :: "i8 list"

definition f32_abs :: "f32 \<Rightarrow> f32" where "f32_abs x = and x 0x7FFFFFFF"

definition f32_nan :: "f32 \<Rightarrow> bool" where "f32_nan x \<longleftrightarrow> f32_abs x > 0x7F800000"

text \<open>\<^verbatim>\<open>f32::max\<close> of two floats without a sign: a number wins over a NaN.\<close>

definition f32_max :: "f32 \<Rightarrow> f32 \<Rightarrow> f32" where
  "f32_max a b = (if f32_nan a then b else if f32_nan b then a else max a b)"

definition max_abs :: "f32 list \<Rightarrow> f32" where
  "max_abs grad = foldl (\<lambda>acc x. f32_max acc (f32_abs x)) 0 grad"

definition quantize_tensor :: "grad_ops \<Rightarrow> f32 list \<Rightarrow> quantized_gradient" where
  "quantize_tensor F grad =
     (let scale = go_div127 F (max_abs grad)
      in \<lparr>qg_scale = scale,
          qg_values = (if f32_abs scale = 0 then replicate (length grad) 0 else map (\<lambda>g. go_quotient F g scale) grad)\<rparr>)"

definition dequantize_tensor :: "grad_ops \<Rightarrow> quantized_gradient \<Rightarrow> f32 list" where
  "dequantize_tensor F q = map (\<lambda>v. go_product F v (qg_scale q)) (qg_values q)"

definition tensor_commitment :: "(bytes \<Rightarrow> b256) \<Rightarrow> quantized_gradient \<Rightarrow> b256" where
  "tensor_commitment K q = K (to_be_bytes (qg_scale q) @ qg_values q)"

definition step_commitment :: "(bytes \<Rightarrow> b256) \<Rightarrow> b256 list \<Rightarrow> b256" where
  "step_commitment K cs = K (concat (map to_be_bytes cs))"

definition default_step_commitment :: "(bytes \<Rightarrow> b256) \<Rightarrow> grad_ops \<Rightarrow> tensor list \<Rightarrow> b256" where
  "default_step_commitment K F gs =
     step_commitment K (map (\<lambda>t. tensor_commitment K (quantize_tensor F (tn_data t))) (sort_key tn_layer gs))"

section \<open>The fixed grid\<close>

definition to_q16 :: "grad_ops \<Rightarrow> f32 list \<Rightarrow> i64 list" where
  "to_q16 F vs = map (go_q16 F) vs"

definition q16_pre :: "i64 list \<Rightarrow> bytes" where
  "q16_pre vs = concat (map to_be_bytes vs)"

definition q16_tensor_commitment :: "(bytes \<Rightarrow> b256) \<Rightarrow> i64 list \<Rightarrow> b256" where
  "q16_tensor_commitment K vs = K (q16_pre vs)"

definition q16_step_pre :: "(bytes \<Rightarrow> b256) \<Rightarrow> (u32 \<times> i64 list) list \<Rightarrow> bytes" where
  "q16_step_pre K ts =
     concat (map (\<lambda>(i, vs). to_be_bytes i @ to_be_bytes (q16_tensor_commitment K vs)) (sort_key fst ts))"

definition q16_step_commitment :: "(bytes \<Rightarrow> b256) \<Rightarrow> (u32 \<times> i64 list) list \<Rightarrow> b256" where
  "q16_step_commitment K ts = K (q16_step_pre K ts)"

section \<open>Zones\<close>

definition SHARED :: string where "SHARED = ''__shared__''"

definition ZONE_PREFIX :: string where "ZONE_PREFIX = ''zone_''"
definition SCORE_PREFIX :: string where "SCORE_PREFIX = ''score_''"

definition first_part :: "string \<Rightarrow> string" where
  "first_part s = (case split_on CHR ''.'' s of p # _ \<Rightarrow> p | [] \<Rightarrow> SHARED)"

definition zone_of :: "string \<Rightarrow> string" where
  "zone_of name =
     (case strip_prefix ZONE_PREFIX name of
        Some rest \<Rightarrow> first_part rest
      | None \<Rightarrow> (case strip_prefix SCORE_PREFIX name of Some rest \<Rightarrow> first_part rest | None \<Rightarrow> SHARED))"

record zone_delta =
  zd_zone :: string
  zd_values :: "f32 list"

datatype zone_error =
    TensorMissing string
  | ZoneShapeMismatch string nat nat
  | DuplicateTensor

definition bt_of :: "('k::linorder \<times> 'v) list \<Rightarrow> ('k, 'v) btree" where
  "bt_of xs = foldl (\<lambda>m (k, v). bt_insert k v m) [] xs"

definition bucket :: "(string, 'a list) btree \<Rightarrow> string \<Rightarrow> 'a list" where
  "bucket m z = (case bt_get m z of Some vs \<Rightarrow> vs | None \<Rightarrow> [])"

fun zone_loop ::
  "grad_ops \<Rightarrow> (string, f32 list) btree \<Rightarrow> (string \<times> f32 list) list \<Rightarrow> (string, f32 list) btree \<Rightarrow>
   zone_error + (string, f32 list) btree" where
  "zone_loop F after [] by_zone = Inr by_zone"
| "zone_loop F after ((name, a) # rest) by_zone =
     (let b = (case bt_get after name of Some vs \<Rightarrow> vs | None \<Rightarrow> [])
      in if length a \<noteq> length b then Inl (ZoneShapeMismatch name (length a) (length b))
         else zone_loop F after rest
           (bt_insert (zone_of name) (bucket by_zone (zone_of name) @ map2 (go_sub F) b a) by_zone))"

definition zone_deltas ::
  "grad_ops \<Rightarrow> (string \<times> f32 list) list \<Rightarrow> (string \<times> f32 list) list \<Rightarrow> zone_error + zone_delta list" where
  "zone_deltas F before after =
     (let pre = bt_of before; post = bt_of after
      in if length pre \<noteq> length before \<or> length post \<noteq> length after then Inl DuplicateTensor
         else
           case find (\<lambda>n. \<not> bt_has post n) (map fst pre) of
             Some n \<Rightarrow> Inl (TensorMissing n)
           | None \<Rightarrow>
               case find (\<lambda>n. \<not> bt_has pre n) (map fst post) of
                 Some n \<Rightarrow> Inl (TensorMissing n)
               | None \<Rightarrow> map_sum id (map (\<lambda>(z, vs). \<lparr>zd_zone = z, zd_values = vs\<rparr>)) (zone_loop F post pre []))"

end
