(* ===== verification/Artifact_Store.thy ===== *)
theory Artifact_Store
  imports Local_Files Fl_Hex Evm_Abi
begin

text \<open>
  How a training job's checkpoint, sidecar and corpus get onto a worker and are checked there:
  \<^verbatim>\<open>training-worker/src/artifact_fetch.rs\<close> and \<^verbatim>\<open>training-worker/src/job_artifacts.rs\<close>.  The mirror is a function
  of a request and its own state; \<open>K\<close> is Keccak-256, \<open>H\<close> the hexadecimal codec, and which file operation
  fails at a destination is an argument.
\<close>

section \<open>Fetching from a mirror\<close>

definition MAX_ARTIFACT_BYTES :: u64 where "MAX_ARTIFACT_BYTES = 1024 * 1024 * 1024"

datatype fetch_error =
    MirrorUnreachable string
  | NotServed nat string
  | FetchedHash string b256 b256
  | ArtifactTooLarge
  | FetchIo string

text \<open>The body arrives in pieces; a piece that is an error ends it.\<close>

record http_answer =
  ha_status :: nat
  ha_length :: "u64 option"
  ha_body :: "(string + bytes) list"

type_synonym 'm mirror = "string \<Rightarrow> 'm \<Rightarrow> (string + http_answer) \<times> 'm"

fun read_capped :: "u64 \<Rightarrow> bytes \<Rightarrow> (string + bytes) list \<Rightarrow> fetch_error + bytes" where
  "read_capped cap buf [] = Inr buf"
| "read_capped cap buf (Inl e # rest) = Inl (MirrorUnreachable e)"
| "read_capped cap buf (Inr chunk # rest) =
     (if length buf + length chunk > unat cap then Inl ArtifactTooLarge else read_capped cap (buf @ chunk) rest)"

definition fetch_capped :: "'m mirror \<Rightarrow> string \<Rightarrow> u64 \<Rightarrow> 'm \<Rightarrow> (fetch_error + bytes) \<times> 'm" where
  "fetch_capped get p cap m =
     (let (r, m1) = get p m
      in (case r of
            Inl e \<Rightarrow> Inl (MirrorUnreachable e)
          | Inr a \<Rightarrow>
              if \<not> (200 \<le> ha_status a \<and> ha_status a < 300) then Inl (NotServed (ha_status a) p)
              else if (case ha_length a of Some n \<Rightarrow> n > cap | None \<Rightarrow> False) then Inl ArtifactTooLarge
              else read_capped cap [] (ha_body a), m1))"

definition mirror_get :: "'m mirror \<Rightarrow> string \<Rightarrow> 'm \<Rightarrow> (fetch_error + bytes) \<times> 'm" where
  "mirror_get get p m = fetch_capped get p MAX_ARTIFACT_BYTES m"

definition place_verified ::
  "(bytes \<Rightarrow> b256) \<Rightarrow> write_faults \<Rightarrow> string \<Rightarrow> bytes \<Rightarrow> b256 \<Rightarrow> string \<Rightarrow> files \<Rightarrow> (fetch_error + unit) \<times> files" where
  "place_verified K w dest bs wanted label fs =
     (if K bs \<noteq> wanted then (Inl (FetchedHash label wanted (K bs)), fs)
      else let (r, fs1) = replace_file w dest bs fs in (map_sum FetchIo id r, fs1))"

definition fetch_verified ::
  "(bytes \<Rightarrow> b256) \<Rightarrow> 'm mirror \<Rightarrow> write_faults \<Rightarrow> string \<Rightarrow> string \<Rightarrow> b256 \<Rightarrow> files \<times> 'm \<Rightarrow>
   (fetch_error + bool) \<times> files \<times> 'm" where
  "fetch_verified K get w remote dest wanted = (\<lambda>(fs, m).
     if (case fs_read fs dest of Inr existing \<Rightarrow> K existing = wanted | Inl _ \<Rightarrow> False) then (Inr False, fs, m)
     else
       let (r, m1) = mirror_get get remote m in
       case r of
         Inl e \<Rightarrow> (Inl e, fs, m1)
       | Inr bs \<Rightarrow>
           let (p, fs1) = place_verified K w dest bs wanted remote fs in (map_sum id (\<lambda>_. True) p, fs1, m1))"

definition model_path :: "codec \<Rightarrow> b256 \<Rightarrow> string \<Rightarrow> string" where
  "model_path H h name = ''models/'' @ hex0x H (to_be_bytes h) @ ''/'' @ name"

definition dataset_path :: "codec \<Rightarrow> b256 \<Rightarrow> string \<Rightarrow> string" where
  "dataset_path H h name = ''datasets/'' @ hex0x H (to_be_bytes h) @ ''/'' @ name"

definition unsafe_part :: "string \<Rightarrow> bool" where
  "unsafe_part part \<longleftrightarrow> part = '''' \<or> part = ''.'' \<or> part = ''..'' \<or> CHR 0x5C \<in> set part"

definition local_dest :: "string \<Rightarrow> string \<Rightarrow> fetch_error + string" where
  "local_dest store rel =
     (if list_ex unsafe_part (split_on CHR ''/'' rel) then Inl (FetchIo (''refusing unsafe artifact path '' @ rel))
      else Inr (path_join store rel))"

section \<open>The store\<close>

datatype architecture = ZonePartitioned | Dense

datatype commitment_grid = GridQ16 | GridLegacy

fun grid_str :: "commitment_grid \<Rightarrow> string" where
  "grid_str GridQ16 = ''q16''"
| "grid_str GridLegacy = ''legacy-f32-scale''"

record model_shape =
  ms_vocab :: u64
  ms_d :: u64
  ms_seq_len :: u64
  ms_d_ff :: u64
  ms_dtype :: string

definition default_shape :: model_shape where
  "default_shape = \<lparr>ms_vocab = 256, ms_d = 48, ms_seq_len = 64, ms_d_ff = 192, ms_dtype = ''f32''\<rparr>"

datatype artifact_error =
    ArtifactMissing string string
  | ArtifactHash string b256 b256
  | UnreadableSidecar string
  | UnsupportedArchitecture string
  | UnknownCommitmentGrid string

record job_artifacts =
  ja_checkpoint_dir :: string
  ja_manifest_path :: string
  ja_architecture :: architecture
  ja_commitment_grid :: commitment_grid
  ja_shape :: model_shape
  ja_model_start_hash :: b256
  ja_dataset_hash :: b256

definition model_dir :: "codec \<Rightarrow> string \<Rightarrow> b256 \<Rightarrow> string" where
  "model_dir H store h = path_join (path_join store ''models'') (hex0x H (to_be_bytes h))"

definition dataset_dir :: "codec \<Rightarrow> string \<Rightarrow> b256 \<Rightarrow> string" where
  "dataset_dir H store h = path_join (path_join store ''datasets'') (hex0x H (to_be_bytes h))"

definition manifest_path :: "codec \<Rightarrow> string \<Rightarrow> b256 \<Rightarrow> string" where
  "manifest_path H store h = path_join (dataset_dir H store h) ''manifest.json''"

text \<open>\<^verbatim>\<open>shard_{index:04}.json\<close>.\<close>

definition shard_name :: "u32 \<Rightarrow> string" where
  "shard_name i =
     (let s = show_dec (unat i) in ''shard_'' @ replicate (4 - length s) CHR ''0'' @ s @ ''.json'')"

definition shard_path :: "codec \<Rightarrow> string \<Rightarrow> b256 \<Rightarrow> u32 \<Rightarrow> string" where
  "shard_path H store h i = path_join (dataset_dir H store h) (shard_name i)"

definition sidecar_path :: "codec \<Rightarrow> string \<Rightarrow> b256 \<Rightarrow> string" where
  "sidecar_path H store h = path_join (model_dir H store h) ''sidecar.nat.json''"

definition verify_file :: "(bytes \<Rightarrow> b256) \<Rightarrow> string \<Rightarrow> files \<Rightarrow> string \<Rightarrow> b256 \<Rightarrow> artifact_error + unit" where
  "verify_file K what fs p expected =
     (case fs_read fs p of
        Inl e \<Rightarrow> Inl (ArtifactMissing what p)
      | Inr bs \<Rightarrow> if K bs \<noteq> expected then Inl (ArtifactHash what expected (K bs)) else Inr ())"

text \<open>How each of the three readers of the sidecar opens it: a file that is not there is \<open>None\<close>.\<close>

definition sidecar_doc :: "(string \<Rightarrow> string + json) \<Rightarrow> files \<Rightarrow> string \<Rightarrow> artifact_error + json option" where
  "sidecar_doc parse fs p =
     (case read_to_string fs p of
        Inr raw \<Rightarrow> map_sum UnreadableSidecar Some (parse raw)
      | Inl NotFound \<Rightarrow> Inr None
      | Inl (OtherIo e) \<Rightarrow> Inl (UnreadableSidecar e))"

definition read_architecture :: "(string \<Rightarrow> string + json) \<Rightarrow> files \<Rightarrow> string \<Rightarrow> artifact_error + architecture" where
  "read_architecture parse fs p = bind_ok (sidecar_doc parse fs p) (\<lambda>doc.
     case doc of
       None \<Rightarrow> Inr Dense
     | Some d \<Rightarrow>
         case Option.bind (json_get ''architecture'' d) json_as_str of
           Some k \<Rightarrow>
             if k = ''zone-partitioned'' \<or> k = ''nat-zone'' then Inr ZonePartitioned
             else if k = ''dense'' then Inr Dense
             else Inl (UnsupportedArchitecture k)
         | None \<Rightarrow>
             (case json_get ''zones'' d of
                Some (JArr zones) \<Rightarrow> if zones \<noteq> [] then Inr ZonePartitioned else Inr Dense
              | _ \<Rightarrow> Inr Dense))"

definition read_commitment_grid ::
  "(string \<Rightarrow> string + json) \<Rightarrow> files \<Rightarrow> string \<Rightarrow> artifact_error + commitment_grid" where
  "read_commitment_grid parse fs p = bind_ok (sidecar_doc parse fs p) (\<lambda>doc.
     case doc of
       None \<Rightarrow> Inr GridQ16
     | Some d \<Rightarrow>
         case Option.bind (json_get ''commitment_grid'' d) json_as_str of
           None \<Rightarrow> Inr GridQ16
         | Some g \<Rightarrow>
             if g = ''q16'' then Inr GridQ16
             else if g = ''legacy-f32-scale'' then Inr GridLegacy
             else Inl (UnknownCommitmentGrid g))"

fun json_as_u64 :: "json \<Rightarrow> u64 option" where
  "json_as_u64 (JInt i) = (if 0 \<le> i \<and> i < 2 ^ 64 then Some (of_int i) else None)"
| "json_as_u64 _ = None"

definition shape_num :: "json \<Rightarrow> string \<Rightarrow> u64 \<Rightarrow> u64" where
  "shape_num d k fallback =
     (case Option.bind (json_get k d) json_as_u64 of Some v \<Rightarrow> v | None \<Rightarrow> fallback)"

definition read_model_shape :: "(string \<Rightarrow> string + json) \<Rightarrow> files \<Rightarrow> string \<Rightarrow> artifact_error + model_shape" where
  "read_model_shape parse fs p = bind_ok (sidecar_doc parse fs p) (\<lambda>doc.
     case doc of
       None \<Rightarrow> Inr default_shape
     | Some d \<Rightarrow>
         Inr \<lparr>ms_vocab = shape_num d ''vocab'' (ms_vocab default_shape), ms_d = shape_num d ''d'' (ms_d default_shape),
              ms_seq_len = shape_num d ''seq_len'' (ms_seq_len default_shape),
              ms_d_ff = shape_num d ''d_ff'' (ms_d_ff default_shape),
              ms_dtype = (case Option.bind (json_get ''dtype'' d) json_as_str of
                            Some s \<Rightarrow> s | None \<Rightarrow> ms_dtype default_shape)\<rparr>)"

definition resolve ::
  "(bytes \<Rightarrow> b256) \<Rightarrow> codec \<Rightarrow> (string \<Rightarrow> string + json) \<Rightarrow> string \<Rightarrow> b256 \<Rightarrow> b256 \<Rightarrow> files \<Rightarrow>
   artifact_error + job_artifacts" where
  "resolve K H parse store model dataset fs =
     bind_ok (verify_file K ''model checkpoint'' fs (path_join (model_dir H store model) ''model.safetensors'') model) (\<lambda>_.
     bind_ok (verify_file K ''dataset manifest'' fs (manifest_path H store dataset) dataset) (\<lambda>_.
     bind_ok (read_architecture parse fs (sidecar_path H store model)) (\<lambda>arch.
     bind_ok (read_commitment_grid parse fs (sidecar_path H store model)) (\<lambda>grid.
     bind_ok (read_model_shape parse fs (sidecar_path H store model)) (\<lambda>shape.
       Inr \<lparr>ja_checkpoint_dir = model_dir H store model, ja_manifest_path = manifest_path H store dataset,
            ja_architecture = arch, ja_commitment_grid = grid, ja_shape = shape,
            ja_model_start_hash = model, ja_dataset_hash = dataset\<rparr>)))))"

section \<open>What fetching leaves\<close>

lemma read_capped_bound:
  assumes "read_capped cap buf body = Inr bs" and "length buf \<le> unat cap"
  shows "length bs \<le> unat cap"
  using assms by (induction cap buf body rule: read_capped.induct) (auto split: if_splits)

lemma mirror_get_bound:
  assumes "mirror_get get p m = (Inr bs, m1)"
  shows "length bs \<le> unat MAX_ARTIFACT_BYTES"
  using assms read_capped_bound [of MAX_ARTIFACT_BYTES "[]"]
  by (auto simp: mirror_get_def fetch_capped_def Let_def split: prod.splits sum.splits if_splits)

text \<open>Only the destination and the temporary file beside it are ever touched.\<close>

definition same_except :: "string set \<Rightarrow> files \<Rightarrow> files \<Rightarrow> bool" where
  "same_except X fs fs' \<longleftrightarrow>
     (\<forall>p. p \<notin> X \<longrightarrow> fs_read fs' p = fs_read fs p \<and> fs_len fs' p = fs_len fs p \<and> fs_exists fs' p = fs_exists fs p)"

lemma same_except_refl [simp, intro!]: "same_except X fs fs"
  by (simp add: same_except_def)

lemma same_except_trans: "same_except X a b \<Longrightarrow> same_except Y b c \<Longrightarrow> same_except (X \<union> Y) a c"
  by (auto simp: same_except_def)

lemma same_except_mono: "same_except X a b \<Longrightarrow> X \<subseteq> Y \<Longrightarrow> same_except Y a b"
  by (auto simp: same_except_def)

definition touched :: "string \<Rightarrow> string set" where
  "touched dest = {dest, with_extension ''partial'' dest}"

lemma replace_file_touched:
  assumes "replace_file w dest bs fs = (r, fs')"
  shows "same_except (touched dest) fs fs'"
  using assms
  by (auto simp: replace_file_def Let_def same_except_def touched_def write_file_def remove_file_def
      split: if_splits option.splits)

lemma replace_file_there:
  assumes "replace_file w dest bs fs = (Inr u, fs')"
  shows "fs_read fs' dest = Inr bs" "fs_exists fs' dest"
  using assms by (auto simp: replace_file_def Let_def write_file_def split: if_splits option.splits)

definition hashes_to :: "(bytes \<Rightarrow> b256) \<Rightarrow> files \<Rightarrow> string \<Rightarrow> b256 \<Rightarrow> bool" where
  "hashes_to K fs p h \<longleftrightarrow> (\<exists>bs. fs_read fs p = Inr bs \<and> K bs = h)"

lemma verify_file_Inr: "verify_file K what fs p h = Inr u \<longleftrightarrow> hashes_to K fs p h"
  by (auto simp: verify_file_def hashes_to_def split: sum.splits)

lemma fetch_verified_effect:
  assumes "fetch_verified K get w remote dest h (fs, m) = (r, fs', m')"
  shows "same_except (touched dest) fs fs'"
    and "r = Inr b \<Longrightarrow> hashes_to K fs' dest h"
    and "hashes_to K fs dest h \<Longrightarrow> r = Inr False \<and> fs' = fs \<and> m' = m"
    and "r = Inl e \<Longrightarrow> dest \<noteq> with_extension ''partial'' dest \<Longrightarrow> fs_read fs' dest = fs_read fs dest"
proof -
  show "hashes_to K fs dest h \<Longrightarrow> r = Inr False \<and> fs' = fs \<and> m' = m"
    using assms by (auto simp: fetch_verified_def hashes_to_def)
  show "same_except (touched dest) fs fs'"
    using assms replace_file_touched
    by (fastforce simp: fetch_verified_def place_verified_def Let_def split: prod.splits sum.splits if_splits)
  show "r = Inr b \<Longrightarrow> hashes_to K fs' dest h"
    using assms
    by (auto simp: fetch_verified_def place_verified_def hashes_to_def Let_def map_sum_Inr_iff
        split: prod.splits sum.splits if_splits dest: replace_file_there(1))
  show "r = Inl e \<Longrightarrow> dest \<noteq> with_extension ''partial'' dest \<Longrightarrow> fs_read fs' dest = fs_read fs dest"
    using assms replace_file_effect(2)
    by (fastforce simp: fetch_verified_def place_verified_def Let_def split: prod.splits sum.splits if_splits)
qed

section \<open>Paths\<close>

lemma split_on_parts:
  "c \<notin> set a \<Longrightarrow> split_on c (a @ c # b) = a # split_on c b"
  "c \<notin> set a \<Longrightarrow> split_on c a = [a]"
  by (induction a) auto

lemma with_extension_name:
  assumes "CHR ''/'' \<notin> set stem" "CHR ''/'' \<notin> set e" "CHR ''.'' \<notin> set e" "stem \<noteq> []"
  shows "with_extension ext (d @ ''/'' @ stem @ ''.'' @ e) = d @ ''/'' @ stem @ ''.'' @ ext"
proof -
  have name: "takeWhile (\<lambda>c. c \<noteq> CHR ''/'') (rev (d @ ''/'' @ stem @ ''.'' @ e)) = rev e @ ''.'' @ rev stem"
    and dir: "dropWhile (\<lambda>c. c \<noteq> CHR ''/'') (rev (d @ ''/'' @ stem @ ''.'' @ e)) = ''/'' @ rev d"
    using assms by (auto simp: takeWhile_append dropWhile_append)
  moreover have "dropWhile (\<lambda>c. c \<noteq> CHR ''.'') (rev e @ ''.'' @ rev stem) = ''.'' @ rev stem"
    using assms by (auto simp: dropWhile_append)
  ultimately show ?thesis using assms by (simp add: with_extension_def Let_def)
qed

context hex_codec
begin

lemma hex0x_chars: "c \<in> set (hex0x H bs) \<Longrightarrow> c \<noteq> CHR ''/'' \<and> c \<noteq> CHR ''.'' \<and> c \<noteq> CHR 0x5C"
  using digits [of c bs] by (auto simp: hex0x_def to_digit_def Let_def split: if_splits)

lemma hex0x_no_slash: "CHR ''/'' \<notin> set (hex0x H bs)"
  using hex0x_chars by blast

lemma hex0x_safe: "\<not> unsafe_part (hex0x H bs)"
  using hex0x_chars [of "CHR 0x5C" bs] by (auto simp: unsafe_part_def hex0x_def)

lemma local_dest_path:
  assumes "CHR ''/'' \<notin> set name" "\<not> unsafe_part name"
  shows "local_dest store (model_path H h name) = Inr (path_join (model_dir H store h) name)"
    and "local_dest store (dataset_path H h name) = Inr (path_join (dataset_dir H store h) name)"
proof -
  have parts: "split_on CHR ''/'' (model_path H h name) = [''models'', hex0x H (to_be_bytes h), name]"
    "split_on CHR ''/'' (dataset_path H h name) = [''datasets'', hex0x H (to_be_bytes h), name]"
    using split_on_parts(1) [of "CHR ''/''" "''models''" "hex0x H (to_be_bytes h) @ ''/'' @ name"]
      split_on_parts(1) [of "CHR ''/''" "''datasets''" "hex0x H (to_be_bytes h) @ ''/'' @ name"]
      split_on_parts(1) [OF hex0x_no_slash, of "to_be_bytes h" name] split_on_parts(2) [OF assms(1)]
    by (simp_all add: model_path_def dataset_path_def)
  have ends: "hex0x H (to_be_bytes h) \<noteq> []" "last (hex0x H (to_be_bytes h)) \<noteq> CHR ''/''"
    using hex0x_no_slash [of "to_be_bytes h"] last_in_set [of "hex0x H (to_be_bytes h)"] by (auto simp: hex0x_def)
  have "\<not> unsafe_part ''models''" "\<not> unsafe_part ''datasets''" by (simp_all add: unsafe_part_def)
  then have ok: "\<not> list_ex unsafe_part (split_on CHR ''/'' (model_path H h name))"
    "\<not> list_ex unsafe_part (split_on CHR ''/'' (dataset_path H h name))"
    using assms hex0x_safe by (simp_all add: parts)
  have "path_join store (model_path H h name) = path_join (model_dir H store h) name"
    "path_join store (dataset_path H h name) = path_join (dataset_dir H store h) name"
    using ends by (auto simp: model_path_def dataset_path_def model_dir_def dataset_dir_def path_join_def)
  then show "local_dest store (model_path H h name) = Inr (path_join (model_dir H store h) name)"
    "local_dest store (dataset_path H h name) = Inr (path_join (dataset_dir H store h) name)"
    using ok by (simp_all add: local_dest_def)
qed

end

end
