(* ===== verification/Nat_Backend.thy ===== *)
theory Nat_Backend
  imports Step_Gradients Artifact_Store
begin

text \<open>
  The training back end for verified artifacts, \<^verbatim>\<open>training-worker/src/nat_backend.rs\<close>.  The language models of the
  tensor library, the readers of a corpus manifest and a shard, and the fingerprint of a shard are parameters
  (\<open>nat_ops\<close>); what is modelled is everything around them: which shards a step reads, that each is checked against the
  manifest, what a step reports and commits to, and what the shares of the zones are measured on.
\<close>

record training_params =
  tp_batch_size :: u64
  tp_learning_rate :: f64
  tp_max_windows :: u64
  tp_shards_per_step :: u64
  tp_seed :: u64

text \<open>What the code reads of a manifest.\<close>

record shard_meta =
  sm_index :: u32
  sm_provenance :: b256

record corpus_manifest =
  cm_shards :: "shard_meta list"
  cm_quality :: i64

datatype tensor_type = TypeF32 | TypeBF16

text \<open>The arguments of the two constructors; the two float settings of the first, a temperature of one and the merge
  floor of the library, are constants of the operation.\<close>

datatype new_model =
    NewAutoregLm "string list" u64 u64 u64 u64 tensor_type
  | NewAutoregDenseLm u64 u64 u64 u64 u64 tensor_type

datatype nat_error =
    UnsupportedDtype string
  | NatIo io_failure
  | NatJson string
  | NoShards
  | NoManifestDir
  | ShardUnreadable u32 string io_failure
  | ShardProvenance u32
  | WrongStart b256 b256
  | NatZones zone_error
  | Library string

record ('m, 'd, 't) nat_ops =
  no_new :: "new_model \<Rightarrow> string + 'm"
  no_load :: "'m \<Rightarrow> string \<Rightarrow> files \<Rightarrow> string + 'm"
  no_parameters :: "'m \<Rightarrow> string + (string \<times> f32 list) list"
  no_on_cpu :: "'m \<Rightarrow> bool"
  no_windows :: "'d list \<Rightarrow> u64 \<Rightarrow> u64 \<Rightarrow> 'm \<Rightarrow> string + 't"
  no_train :: "'m \<Rightarrow> 't \<Rightarrow> u64 \<Rightarrow> u64 \<Rightarrow> f64 \<Rightarrow> u64 \<Rightarrow> string + 'm"
  no_merge_weights :: "'m \<Rightarrow> 't \<Rightarrow> string + f32 list"
  no_manifest :: "string \<Rightarrow> string + corpus_manifest"
  no_shard :: "string \<Rightarrow> string + 'd"
  no_provenance :: "'d \<Rightarrow> b256"
  no_floor_share :: f64
  no_at_floor :: "f32 \<Rightarrow> f64 \<Rightarrow> bool"

text \<open>\<^verbatim>\<open>enum Model\<close>.\<close>

datatype 'm nat_model = Zone (nat_lm: 'm) | DenseLm (nat_lm: 'm)

record 'm nat_backend =
  nb_artifacts :: job_artifacts
  nb_params :: training_params
  nb_model :: "'m nat_model"

definition lift_lib :: "string + 'a \<Rightarrow> nat_error + 'a" where
  "lift_lib r = map_sum Library id r"

definition backend_tag :: "('m, 'd, 't) nat_ops \<Rightarrow> 'm nat_model \<Rightarrow> string" where
  "backend_tag N M = (if no_on_cpu N (nat_lm M) then ''candle-cpu'' else ''candle-cuda'')"

definition model_load :: "('m, 'd, 't) nat_ops \<Rightarrow> 'm nat_model \<Rightarrow> string \<Rightarrow> files \<Rightarrow> nat_error + 'm nat_model" where
  "model_load N M dir fs =
     (case M of
        Zone m \<Rightarrow> map_sum Library Zone (no_load N m dir fs)
      | DenseLm m \<Rightarrow> map_sum Library DenseLm (no_load N m dir fs))"

definition zone_merge_weights :: "('m, 'd, 't) nat_ops \<Rightarrow> 'm nat_model \<Rightarrow> 't \<Rightarrow> nat_error + f32 list option" where
  "zone_merge_weights N M ids =
     (case M of Zone m \<Rightarrow> map_sum Library Some (no_merge_weights N m ids) | DenseLm _ \<Rightarrow> Inr None)"

definition train_one_pass ::
  "('m, 'd, 't) nat_ops \<Rightarrow> 'm nat_model \<Rightarrow> 't \<Rightarrow> training_params \<Rightarrow> u64 \<Rightarrow> nat_error + 'm nat_model" where
  "train_one_pass N M ids p shuffle =
     (case M of
        Zone m \<Rightarrow> map_sum Library Zone (no_train N m ids 1 (tp_batch_size p) (tp_learning_rate p) shuffle)
      | DenseLm m \<Rightarrow> map_sum Library DenseLm (no_train N m ids 1 (tp_batch_size p) (tp_learning_rate p) shuffle))"

definition dtype_of :: "model_shape \<Rightarrow> nat_error + tensor_type" where
  "dtype_of s =
     (if ms_dtype s = ''f32'' then Inr TypeF32
      else if ms_dtype s = ''bf16'' then Inr TypeBF16
      else Inl (UnsupportedDtype (ms_dtype s)))"

definition LEARNED_ZONES :: "string list" where
  "LEARNED_ZONES = [''SM'', ''CB'', ''HP'', ''PF'', ''CX'']"

definition build_model ::
  "('m, 'd, 't) nat_ops \<Rightarrow> architecture \<Rightarrow> model_shape \<Rightarrow> training_params \<Rightarrow> nat_error + 'm nat_model" where
  "build_model N arch s p = bind_ok (dtype_of s) (\<lambda>dtype.
     case arch of
       ZonePartitioned \<Rightarrow>
         map_sum Library Zone (no_new N (NewAutoregLm LEARNED_ZONES (ms_vocab s) (ms_seq_len s) (ms_d s) (tp_seed p) dtype))
     | Dense \<Rightarrow>
         map_sum Library DenseLm
           (no_new N (NewAutoregDenseLm (ms_vocab s) (ms_seq_len s) (ms_d s) (ms_d_ff s) (tp_seed p) dtype)))"

section \<open>Which shards a step reads\<close>

definition slice_offset :: "nat \<Rightarrow> nat \<Rightarrow> u32 \<Rightarrow> u32 \<Rightarrow> nat" where
  "slice_offset avail want step worker_shard =
     unat ((ucast worker_shard :: u64) * 0x9E3779B9 + ucast step * of_nat (avail div max want 1 + 1)) mod avail"

definition shard_slice_for :: "nat \<Rightarrow> u64 \<Rightarrow> u32 \<Rightarrow> u32 \<Rightarrow> nat list" where
  "shard_slice_for avail shards_per_step step worker_shard =
     (if avail = 0 then []
      else
        let want = min (unat shards_per_step) avail; offset = slice_offset avail want step worker_shard
        in map (\<lambda>i. (offset + i) mod avail) [0..<want])"

section \<open>The back end\<close>

definition nat_backend_new ::
  "('m, 'd, 't) nat_ops \<Rightarrow> job_artifacts \<Rightarrow> training_params \<Rightarrow> nat_error + 'm nat_backend" where
  "nat_backend_new N A p =
     map_sum id (\<lambda>M. \<lparr>nb_artifacts = A, nb_params = p, nb_model = M\<rparr>) (build_model N (ja_architecture A) (ja_shape A) p)"

definition load_manifest :: "('m, 'd, 't) nat_ops \<Rightarrow> job_artifacts \<Rightarrow> files \<Rightarrow> nat_error + corpus_manifest" where
  "load_manifest N A fs =
     bind_ok (map_sum NatIo id (read_to_string fs (ja_manifest_path A))) (\<lambda>raw. map_sum NatJson id (no_manifest N raw))"

definition read_shard ::
  "('m, 'd, 't) nat_ops \<Rightarrow> job_artifacts \<Rightarrow> files \<Rightarrow> shard_meta \<Rightarrow> nat_error + 'd" where
  "read_shard N A fs meta =
     (case parent_dir (ja_manifest_path A) of
        None \<Rightarrow> Inl NoManifestDir
      | Some dir \<Rightarrow>
          let p = path_join dir (shard_name (sm_index meta)) in
          bind_ok (map_sum (ShardUnreadable (sm_index meta) p) id (read_to_string fs p)) (\<lambda>raw.
          bind_ok (map_sum NatJson id (no_shard N raw)) (\<lambda>d.
            if no_provenance N d \<noteq> sm_provenance meta then Inl (ShardProvenance (sm_index meta)) else Inr d)))"

definition read_and_verify_shards ::
  "('m, 'd, 't) nat_ops \<Rightarrow> job_artifacts \<Rightarrow> training_params \<Rightarrow> files \<Rightarrow> corpus_manifest \<Rightarrow> u32 \<Rightarrow> u32 \<Rightarrow> nat_error + 'd list" where
  "read_and_verify_shards N A p fs man step worker_shard =
     (if cm_shards man = [] then Inl NoShards
      else map_ok (\<lambda>i. read_shard N A fs (cm_shards man ! i))
             (shard_slice_for (length (cm_shards man)) (tp_shards_per_step p) step worker_shard))"

definition zone_shares :: "('m, 'd, 't) nat_ops \<Rightarrow> 'm nat_backend \<Rightarrow> files \<Rightarrow> nat_error + (string \<times> f32) list option" where
  "zone_shares N B fs =
     bind_ok (load_manifest N (nb_artifacts B) fs) (\<lambda>man.
     bind_ok (read_and_verify_shards N (nb_artifacts B) (nb_params B) fs man 0 0) (\<lambda>shards.
     bind_ok (lift_lib (no_windows N shards (ms_seq_len (ja_shape (nb_artifacts B)))
                (max (min (tp_batch_size (nb_params B)) 8) 1) (nat_lm (nb_model B)))) (\<lambda>ids.
     bind_ok (zone_merge_weights N (nb_model B) ids) (\<lambda>w.
       Inr (map_option (zip LEARNED_ZONES) w)))))"

definition data_quality :: "('m, 'd, 't) nat_ops \<Rightarrow> 'm nat_backend \<Rightarrow> files \<Rightarrow> nat_error + i64" where
  "data_quality N B fs = map_sum id cm_quality (load_manifest N (nb_artifacts B) fs)"

definition honors_job_spec :: "'m nat_backend \<Rightarrow> bool" where
  "honors_job_spec B \<longleftrightarrow> True"

definition load_starting_weights ::
  "('m, 'd, 't) nat_ops \<Rightarrow> 'm nat_backend \<Rightarrow> files \<Rightarrow> b256 \<Rightarrow> nat_error + b256 \<times> 'm nat_backend" where
  "load_starting_weights N B fs h =
     (if h \<noteq> ja_model_start_hash (nb_artifacts B) then Inl (WrongStart h (ja_model_start_hash (nb_artifacts B)))
      else map_sum id (\<lambda>M. (h, B\<lparr>nb_model := M\<rparr>))
             (model_load N (nb_model B) (ja_checkpoint_dir (nb_artifacts B)) fs))"

definition shuffle_seed :: "u32 \<Rightarrow> u32 \<Rightarrow> u32 \<Rightarrow> u64" where
  "shuffle_seed epoch step worker_shard =
     or (or (push_bit 40 (ucast epoch)) (push_bit 16 (ucast step))) (ucast worker_shard)"

definition post_weights_hash ::
  "(bytes \<Rightarrow> b256) \<Rightarrow> grad_ops \<Rightarrow> commitment_grid \<Rightarrow> (string \<times> f32 list) list \<Rightarrow> b256" where
  "post_weights_hash K F grid post =
     (case grid of
        GridQ16 \<Rightarrow> q16_step_commitment K (map (\<lambda>(i, _, v). (of_nat i, to_q16 F v)) (enumerate 0 post))
      | GridLegacy \<Rightarrow> step_commitment K (map (\<lambda>(_, v). tensor_commitment K (quantize_tensor F v)) post))"

definition forward_backward ::
  "(bytes \<Rightarrow> b256) \<Rightarrow> grad_ops \<Rightarrow> ('m, 'd, 't) nat_ops \<Rightarrow> 'm nat_backend \<Rightarrow> files \<Rightarrow> u32 \<Rightarrow> u32 \<Rightarrow> u32 \<Rightarrow>
   nat_error + (tensor list \<times> b256) \<times> 'm nat_backend" where
  "forward_backward K F N B fs epoch step worker_shard =
     bind_ok (load_manifest N (nb_artifacts B) fs) (\<lambda>man.
     bind_ok (read_and_verify_shards N (nb_artifacts B) (nb_params B) fs man step worker_shard) (\<lambda>shards.
     bind_ok (lift_lib (no_windows N shards (ms_seq_len (ja_shape (nb_artifacts B))) (tp_max_windows (nb_params B))
                (nat_lm (nb_model B)))) (\<lambda>ids.
     bind_ok (lift_lib (no_parameters N (nat_lm (nb_model B)))) (\<lambda>pre.
     bind_ok (train_one_pass N (nb_model B) ids (nb_params B) (shuffle_seed epoch step worker_shard)) (\<lambda>M.
     bind_ok (lift_lib (no_parameters N (nat_lm M))) (\<lambda>post.
     bind_ok (map_sum NatZones id (zone_deltas F pre post)) (\<lambda>deltas.
       Inr ((map (\<lambda>(i, d). \<lparr>tn_data = zd_values d, tn_layer = of_nat i\<rparr>) (enumerate 0 deltas),
             post_weights_hash K F (ja_commitment_grid (nb_artifacts B)) post), B\<lparr>nb_model := M\<rparr>))))))))"

definition compute_step_commitment ::
  "(bytes \<Rightarrow> b256) \<Rightarrow> grad_ops \<Rightarrow> commitment_grid \<Rightarrow> tensor list \<Rightarrow> b256" where
  "compute_step_commitment K F grid gs =
     (case grid of
        GridQ16 \<Rightarrow> q16_step_commitment K (map (\<lambda>t. (ucast (tn_layer t), to_q16 F (tn_data t))) gs)
      | GridLegacy \<Rightarrow> default_step_commitment K F gs)"

section \<open>Properties of the slice\<close>

lemma slice_offset_less: "0 < avail \<Longrightarrow> slice_offset avail want step ws < avail"
  by (simp add: slice_offset_def)

lemma shard_slice_length: "length (shard_slice_for avail n step ws) = (if avail = 0 then 0 else min (unat n) avail)"
  by (simp add: shard_slice_for_def Let_def)

lemma shard_slice_bound: "i \<in> set (shard_slice_for avail n step ws) \<Longrightarrow> i < avail"
  by (auto simp: shard_slice_for_def Let_def split: if_splits)

lemma mod_shift_inject:
  assumes "i < (avail :: nat)" "j < avail" "(s + i) mod avail = (s + j) mod avail"
  shows "i = j"
proof -
  have "(int s + int i) mod int avail = (int s + int j) mod int avail"
    using assms(3) by (metis of_nat_add zmod_int)
  then have "int i mod int avail = int j mod int avail" by (simp add: mod_eq_dvd_iff)
  then show ?thesis using assms(1,2) by (simp flip: zmod_int)
qed

lemma shard_slice_distinct: "distinct (shard_slice_for avail n step ws)"
  by (auto simp: shard_slice_for_def Let_def distinct_map inj_on_def intro: mod_shift_inject)

end
