(* ===== verification/Job_Runner.thy ===== *)
theory Job_Runner
  imports Nat_Backend Epoch_Merkle
begin

text \<open>
  A coordinator's training job on a worker, \<^verbatim>\<open>training-worker/src/job_runner.rs\<close>: staging from the mirror, the checks
  in their order, the steps, and the result that is signed and submitted.  No other program changes the store while
  a run lasts; the mirror has a state of its own.
\<close>

record training_job_payload =
  tj_task :: string
  tj_model_start_hash :: b256
  tj_dataset_hash :: b256
  tj_commitment_grid :: commitment_grid
  tj_epoch :: u32
  tj_steps :: u32
  tj_worker_shard :: u32
  tj_batch_size :: u64
  tj_learning_rate :: f64
  tj_max_windows :: u64
  tj_shards_per_step :: u64
  tj_seed :: u64
  tj_share_every :: u32
  tj_dead_zone_patience :: u32

definition TASK_TRAIN :: string where "TASK_TRAIN = ''train''"

definition payload_params :: "training_job_payload \<Rightarrow> training_params" where
  "payload_params p =
     \<lparr>tp_batch_size = tj_batch_size p, tp_learning_rate = tj_learning_rate p, tp_max_windows = tj_max_windows p,
      tp_shards_per_step = tj_shards_per_step p, tp_seed = tj_seed p\<rparr>"

record share_sample =
  sh_step :: u32
  sh_shares :: "(string \<times> f32) list"

record step_record =
  sr_step :: u32
  sr_commitment :: b256
  sr_post_weights :: b256

record training_job_result =
  tr_job :: string
  tr_task :: string
  tr_backend :: string
  tr_commitment_grid :: string
  tr_epoch :: u32
  tr_worker_shard :: u32
  tr_steps :: "step_record list"
  tr_epoch_root :: b256
  tr_final_weights :: b256
  tr_data_quality_raw :: i64
  tr_zone_l2 :: "(string \<times> f64) list"
  tr_share_trace :: "share_sample list"
  tr_seconds :: f64

datatype missing_artifacts =
    NotResolved artifact_error
  | ManifestUnreadable io_failure
  | ManifestUnparseable string

datatype job_run_error =
    NotATrainingJob string
  | WrongTask string
  | ArtifactsMissing missing_artifacts
  | GridMismatch string string
  | BackendDoesNotHonorSpec
  | TrainingFailed nat_error
  | FetchFailed fetch_error
  | NotWritten string
  | DeadZone string f32 f64 u32 u32

text \<open>What a run needs: hashes, codecs, the library's operations, the parser of a payload, the measured time, and which
  file operations fail where.  The second record is the runner.\<close>

record ('m, 'd, 't) job_env =
  je_keccak :: "bytes \<Rightarrow> b256"
  je_hex :: codec
  je_sidecar :: "string \<Rightarrow> string + json"
  je_payload :: "json \<Rightarrow> string + training_job_payload"
  je_nat :: "('m, 'd, 't) nat_ops"
  je_grad :: grad_ops
  je_faults :: "string \<Rightarrow> write_faults"
  je_seconds :: f64

record 'w nat_job_runner =
  nj_store :: string
  nj_worker :: address
  nj_mirror :: "'w mirror option"

section \<open>Staging\<close>

fun stage_verified ::
  "('m, 'd, 't) job_env \<Rightarrow> string \<Rightarrow> 'w mirror \<Rightarrow> (string \<times> b256) list \<Rightarrow> files \<times> 'w \<Rightarrow> (job_run_error + unit) \<times> files \<times> 'w" where
  "stage_verified E store get [] s = (Inr (), s)"
| "stage_verified E store get ((rel, want) # rest) s =
     (case local_dest store rel of
        Inl e \<Rightarrow> (Inl (FetchFailed e), s)
      | Inr dest \<Rightarrow>
          case fetch_verified (je_keccak E) get (je_faults E dest) rel dest want s of
            (Inl e, s1) \<Rightarrow> (Inl (FetchFailed e), s1)
          | (Inr _, s1) \<Rightarrow> stage_verified E store get rest s1)"

definition write_atomic :: "write_faults \<Rightarrow> string \<Rightarrow> bytes \<Rightarrow> files \<Rightarrow> (job_run_error + unit) \<times> files" where
  "write_atomic w dest bs fs = (let (r, fs1) = replace_file w dest bs fs in (map_sum NotWritten id r, fs1))"

definition stage_sidecar ::
  "('m, 'd, 't) job_env \<Rightarrow> string \<Rightarrow> 'w mirror \<Rightarrow> string \<Rightarrow> files \<times> 'w \<Rightarrow> files \<times> 'w" where
  "stage_sidecar E store get side = (\<lambda>(fs, m).
     case local_dest store side of
       Inl _ \<Rightarrow> (fs, m)
     | Inr dest \<Rightarrow>
         if fs_exists fs dest then (fs, m)
         else
           case mirror_get get side m of
             (Inl _, m1) \<Rightarrow> (fs, m1)
           | (Inr bs, m1) \<Rightarrow> (snd (write_atomic (je_faults E dest) dest bs fs), m1))"

definition step_indices :: "u32 \<Rightarrow> u32 list" where
  "step_indices steps = map of_nat [0..<unat steps]"

text \<open>The set of shard numbers in ascending order, which is how it is iterated.\<close>

definition wanted_shards :: "corpus_manifest \<Rightarrow> training_job_payload \<Rightarrow> u32 list" where
  "wanted_shards man p =
     sort (remdups (concat (map (\<lambda>step.
       map (\<lambda>i. sm_index (cm_shards man ! i))
         (shard_slice_for (length (cm_shards man)) (tj_shards_per_step p) step (tj_worker_shard p)))
       (step_indices (tj_steps p)))))"

fun stage_shards ::
  "('m, 'd, 't) job_env \<Rightarrow> string \<Rightarrow> 'w mirror \<Rightarrow> b256 \<Rightarrow> u32 list \<Rightarrow> files \<times> 'w \<Rightarrow> (job_run_error + unit) \<times> files \<times> 'w" where
  "stage_shards E store get h [] s = (Inr (), s)"
| "stage_shards E store get h (i # rest) (fs, m) =
     (let rel = dataset_path (je_hex E) h (shard_name i)
      in case local_dest store rel of
           Inl e \<Rightarrow> (Inl (FetchFailed e), fs, m)
         | Inr dest \<Rightarrow>
             if fs_exists fs dest then stage_shards E store get h rest (fs, m)
             else
               case mirror_get get rel m of
                 (Inl e, m1) \<Rightarrow> (Inl (FetchFailed e), fs, m1)
               | (Inr bs, m1) \<Rightarrow>
                   case write_atomic (je_faults E dest) dest bs fs of
                     (Inl e, fs1) \<Rightarrow> (Inl e, fs1, m1)
                   | (Inr _, fs1) \<Rightarrow> stage_shards E store get h rest (fs1, m1))"

definition staged_manifest :: "('m, 'd, 't) job_env \<Rightarrow> string \<Rightarrow> b256 \<Rightarrow> files \<Rightarrow> job_run_error + corpus_manifest" where
  "staged_manifest E store h fs =
     bind_ok (map_sum (\<lambda>e. ArtifactsMissing (ManifestUnreadable e)) id (read_to_string fs (manifest_path (je_hex E) store h)))
       (\<lambda>raw. map_sum (\<lambda>e. ArtifactsMissing (ManifestUnparseable e)) id (no_manifest (je_nat E) raw))"

definition stage ::
  "('m, 'd, 't) job_env \<Rightarrow> 'w nat_job_runner \<Rightarrow> training_job_payload \<Rightarrow> files \<times> 'w \<Rightarrow> (job_run_error + unit) \<times> files \<times> 'w" where
  "stage E R p s =
     (case nj_mirror R of
        None \<Rightarrow> (Inr (), s)
      | Some get \<Rightarrow>
          case stage_verified E (nj_store R) get
                 [(model_path (je_hex E) (tj_model_start_hash p) ''model.safetensors'', tj_model_start_hash p),
                  (dataset_path (je_hex E) (tj_dataset_hash p) ''manifest.json'', tj_dataset_hash p)] s of
            (Inl e, s1) \<Rightarrow> (Inl e, s1)
          | (Inr _, s1) \<Rightarrow>
              let s2 = stage_sidecar E (nj_store R) get (model_path (je_hex E) (tj_model_start_hash p) ''sidecar.nat.json'') s1 in
              case staged_manifest E (nj_store R) (tj_dataset_hash p) (fst s2) of
                Inl e \<Rightarrow> (Inl e, s2)
              | Inr man \<Rightarrow> stage_shards E (nj_store R) get (tj_dataset_hash p) (wanted_shards man p) s2)"

section \<open>The steps\<close>

definition bucket_label :: "u64 \<Rightarrow> string" where
  "bucket_label i = (if i = - 1 then SHARED else ''bucket_'' @ show_dec (unat i))"

fun add_l2 :: "grad_ops \<Rightarrow> string \<Rightarrow> f64 \<Rightarrow> (string \<times> f64) list \<Rightarrow> (string \<times> f64) list" where
  "add_l2 F label l2 [] = [(label, l2)]"
| "add_l2 F label l2 ((n, v) # acc) = (if n = label then (n, go_add F v l2) # acc else (n, v) # add_l2 F label l2 acc)"

definition accumulate_zone_l2 :: "grad_ops \<Rightarrow> (string \<times> f64) list \<Rightarrow> tensor list \<Rightarrow> (string \<times> f64) list" where
  "accumulate_zone_l2 F acc gs = foldl (\<lambda>a t. add_l2 F (bucket_label (tn_layer t)) (go_l2 F (tn_data t)) a) acc gs"

fun count_dead ::
  "('m, 'd, 't) nat_ops \<Rightarrow> u32 \<Rightarrow> u32 \<Rightarrow> (string \<times> f32) list \<Rightarrow> (string, u32) btree \<Rightarrow> job_run_error + (string, u32) btree" where
  "count_dead N patience step [] runs = Inr runs"
| "count_dead N patience step ((zone, share) # rest) runs =
     (let before = (case bt_get runs zone of Some n \<Rightarrow> n | None \<Rightarrow> 0);
          run = (if no_at_floor N share (no_floor_share N) then before + 1 else 0)
      in if patience \<le> run then Inl (DeadZone zone share (no_floor_share N) run step)
         else count_dead N patience step rest (bt_insert zone run runs))"

record 'm run_state =
  rs_backend :: "'m nat_backend"
  rs_prev :: b256
  rs_steps :: "step_record list"
  rs_commits :: "step_commit list"
  rs_zone_l2 :: "(string \<times> f64) list"
  rs_trace :: "share_sample list"
  rs_dead :: "(string, u32) btree"

definition sample_shares ::
  "('m, 'd, 't) job_env \<Rightarrow> training_job_payload \<Rightarrow> files \<Rightarrow> u32 \<Rightarrow> 'm run_state \<Rightarrow> job_run_error + 'm run_state" where
  "sample_shares E p fs step s =
     (if tj_share_every p > 0 \<and> step mod tj_share_every p = 0 then
        bind_ok (map_sum TrainingFailed id (zone_shares (je_nat E) (rs_backend s) fs)) (\<lambda>sample.
          case sample of
            None \<Rightarrow> Inr s
          | Some shares \<Rightarrow>
              bind_ok (count_dead (je_nat E) (tj_dead_zone_patience p) step shares (rs_dead s)) (\<lambda>dead.
                Inr (s\<lparr>rs_trace := rs_trace s @ [\<lparr>sh_step = step, sh_shares = shares\<rparr>], rs_dead := dead\<rparr>)))
      else Inr s)"

definition run_step ::
  "('m, 'd, 't) job_env \<Rightarrow> address \<Rightarrow> training_job_payload \<Rightarrow> files \<Rightarrow> u32 \<Rightarrow> 'm run_state \<Rightarrow> job_run_error + 'm run_state" where
  "run_step E worker p fs step s =
     bind_ok (map_sum TrainingFailed id
                (forward_backward (je_keccak E) (je_grad E) (je_nat E) (rs_backend s) fs (tj_epoch p) step (tj_worker_shard p)))
       (\<lambda>((gradients, post), B).
     let commitment = compute_step_commitment (je_keccak E) (je_grad E) (ja_commitment_grid (nb_artifacts B)) gradients in
     bind_ok (sample_shares E p fs step
                (s\<lparr>rs_backend := B,
                   rs_zone_l2 := accumulate_zone_l2 (je_grad E) (rs_zone_l2 s) gradients,
                   rs_commits := rs_commits s @ [\<lparr>sc_epoch = tj_epoch p, sc_step = step, sc_worker = worker,
                                                   sc_commitment = commitment, sc_prev_weights = rs_prev s\<rparr>],
                   rs_steps := rs_steps s @ [\<lparr>sr_step = step, sr_commitment = commitment, sr_post_weights = post\<rparr>]\<rparr>))
       (\<lambda>s1. Inr (s1\<lparr>rs_prev := post\<rparr>)))"

fun train_steps ::
  "('m, 'd, 't) job_env \<Rightarrow> address \<Rightarrow> training_job_payload \<Rightarrow> files \<Rightarrow> u32 list \<Rightarrow> 'm run_state \<Rightarrow> job_run_error + 'm run_state" where
  "train_steps E worker p fs [] s = Inr s"
| "train_steps E worker p fs (step # rest) s = bind_ok (run_step E worker p fs step s) (train_steps E worker p fs rest)"

section \<open>The run\<close>

definition job_result ::
  "('m, 'd, 't) job_env \<Rightarrow> job_spec \<Rightarrow> training_job_payload \<Rightarrow> 'm run_state \<Rightarrow> i64 \<Rightarrow> training_job_result" where
  "job_result E job p s quality =
     \<lparr>tr_job = js_id job, tr_task = TASK_TRAIN, tr_backend = backend_tag (je_nat E) (nb_model (rs_backend s)),
      tr_commitment_grid = grid_str (tj_commitment_grid p), tr_epoch = tj_epoch p, tr_worker_shard = tj_worker_shard p,
      tr_steps = rs_steps s, tr_epoch_root = fst (compute_epoch_root (je_keccak E) (rs_commits s)),
      tr_final_weights = rs_prev s, tr_data_quality_raw = quality, tr_zone_l2 = rs_zone_l2 s,
      tr_share_trace = rs_trace s, tr_seconds = je_seconds E\<rparr>"

definition train_resolved ::
  "('m, 'd, 't) job_env \<Rightarrow> address \<Rightarrow> job_spec \<Rightarrow> training_job_payload \<Rightarrow> files \<Rightarrow> job_artifacts \<Rightarrow>
   job_run_error + training_job_result" where
  "train_resolved E worker job p fs A =
     (if ja_commitment_grid A \<noteq> tj_commitment_grid p
      then Inl (GridMismatch (grid_str (tj_commitment_grid p)) (grid_str (ja_commitment_grid A)))
      else
        bind_ok (map_sum TrainingFailed id (nat_backend_new (je_nat E) A (payload_params p))) (\<lambda>B.
        if \<not> honors_job_spec B then Inl BackendDoesNotHonorSpec
        else
          bind_ok (map_sum TrainingFailed id (load_starting_weights (je_nat E) B fs (tj_model_start_hash p))) (\<lambda>(prev, B1).
          bind_ok (train_steps E worker p fs (step_indices (tj_steps p))
                     \<lparr>rs_backend = B1, rs_prev = prev, rs_steps = [], rs_commits = [], rs_zone_l2 = [], rs_trace = [],
                      rs_dead = []\<rparr>) (\<lambda>s.
          bind_ok (map_sum TrainingFailed id (data_quality (je_nat E) (rs_backend s) fs)) (\<lambda>quality.
            Inr (job_result E job p s quality))))))"

definition nat_job_run ::
  "('m, 'd, 't) job_env \<Rightarrow> 'w nat_job_runner \<Rightarrow> job_spec \<Rightarrow> files \<times> 'w \<Rightarrow> (job_run_error + training_job_result) \<times> files \<times> 'w" where
  "nat_job_run E R job s =
     (case je_payload E (js_payload job) of
        Inl e \<Rightarrow> (Inl (NotATrainingJob e), s)
      | Inr p \<Rightarrow>
          if tj_task p \<noteq> TASK_TRAIN then (Inl (WrongTask (tj_task p)), s)
          else
            case stage E R p s of
              (Inl e, s1) \<Rightarrow> (Inl e, s1)
            | (Inr _, s1) \<Rightarrow>
                (bind_ok (map_sum (\<lambda>e. ArtifactsMissing (NotResolved e)) id
                            (resolve (je_keccak E) (je_hex E) (je_sidecar E) (nj_store R) (tj_model_start_hash p)
                               (tj_dataset_hash p) (fst s1)))
                   (train_resolved E (nj_worker R) job p (fst s1)), s1))"

end
