(* ===== verification/Step_Gradients_Theorems.thy ===== *)
theory Step_Gradients_Theorems
  imports Step_Gradients "HOL-Library.Multiset"
begin

text \<open>
  What the commitments bind and what the attribution to zones keeps: neither depends on the order in which a
  worker lists its tensors, the fixed grid's commitment determines every value and its index, and no coordinate
  is lost or reported twice.
\<close>

section \<open>Maps built from lists\<close>

lemma bt_of_snoc: "bt_of (xs @ [(k, v)]) = bt_insert k v (bt_of xs)"
  by (simp add: bt_of_def)

lemma bt_of_ok [simp]: "bt_ok (bt_of xs)"
  by (induction xs rule: rev_induct) (auto simp: bt_of_snoc, simp add: bt_of_def)

lemma bt_get_of: "bt_get (bt_of xs) = map_of (rev xs)"
proof (induction xs rule: rev_induct)
  case Nil
  show ?case by (simp add: bt_of_def fun_eq_iff)
next
  case (snoc e xs)
  obtain k v where e: "e = (k, v)" by (cases e)
  show ?case by (rule ext) (auto simp: e bt_of_snoc snoc)
qed

lemma keys_bt_of: "fst ` set (bt_of xs) = fst ` set xs"
proof (induction xs rule: rev_induct)
  case (snoc e xs)
  then show ?case by (cases e) (simp add: bt_of_snoc keys_bt_insert)
qed (simp add: bt_of_def)

lemma length_bt_of: "length (bt_of xs) = card (fst ` set xs)"
  using distinct_card [OF bt_ok_distinct [OF bt_of_ok [of xs]]] keys_bt_of [of xs] by (metis length_map list.set_map)

lemma length_bt_of_eq: "length (bt_of xs) = length xs \<longleftrightarrow> distinct (map fst xs)"
  by (metis length_bt_of card_distinct distinct_card length_map list.set_map)

lemma bt_unique:
  assumes "bt_ok a" "bt_ok b" "bt_get a = bt_get b"
  shows "a = b"
proof -
  have "set a = set b" using bt_get_iff [OF assms(1)] bt_get_iff [OF assms(2)] assms(3) by auto
  moreover have "sorted (map fst a)" "sorted (map fst b)"
    using assms(1,2) by (simp_all add: bt_ok_def strict_sorted_imp_sorted)
  ultimately show ?thesis
    by (metis assms(1,2) bt_ok_distinct distinct_map inj_on_Un map_sorted_distinct_set_unique sup.idem)
qed

lemma bt_of_mset:
  assumes "mset xs = mset ys" "distinct (map fst xs)"
  shows "bt_of xs = bt_of ys"
proof (rule bt_unique)
  have "distinct (map fst ys)" using assms by (metis mset_eq_imp_distinct_iff mset_map)
  then show "bt_get (bt_of xs) = bt_get (bt_of ys)"
    using assms unfolding bt_get_of
    by (metis distinct_rev map_of_inject_set mset_eq_setD rev_map set_rev)
qed simp_all

section \<open>Zones\<close>

text \<open>The values a zone gets from the parameters in the order of their names.\<close>

definition zone_values :: "grad_ops \<Rightarrow> (string, f32 list) btree \<Rightarrow> (string \<times> f32 list) list \<Rightarrow> string \<Rightarrow> f32 list" where
  "zone_values F after pre z =
     concat (map (\<lambda>(n, a). map2 (go_sub F) (bucket after n) a) (filter (\<lambda>(n, a). zone_of n = z) pre))"

lemma bucket_simps [simp]:
  "bucket [] z = []" "bucket (bt_insert k v m) z = (if z = k then v else bucket m z)"
  by (simp_all add: bucket_def)

lemma zone_values_simps [simp]:
  "zone_values F after [] z = []"
  "zone_values F after ((n, a) # pre) z =
     (if zone_of n = z then map2 (go_sub F) (bucket after n) a else []) @ zone_values F after pre z"
  by (simp_all add: zone_values_def)

lemma zone_loop_Inr:
  assumes "zone_loop F after pre by = Inr m" and "bt_ok by"
  shows "bt_ok m" and "fst ` set m = fst ` set by \<union> zone_of ` fst ` set pre"
    and "bucket m z = bucket by z @ zone_values F after pre z"
    and "\<forall>(n, a) \<in> set pre. length (bucket after n) = length a"
  using assms
proof (induction F after pre "by" arbitrary: m rule: zone_loop.induct)
  case (1 F after by_zone)
  {
    case 1 then show ?case by simp
  next
    case 2 then show ?case by simp
  next
    case 3 then show ?case by simp
  next
    case 4 then show ?case by simp
  }
next
  case (2 F after name a rest by_zone)
  let ?b = "bucket after name"
  let ?by = "bt_insert (zone_of name) (bucket by_zone (zone_of name) @ map2 (go_sub F) ?b a) by_zone"
  have rec: "length a = length ?b \<and> zone_loop F after rest ?by = Inr m"
    if "zone_loop F after ((name, a) # rest) by_zone = Inr m" for m
    using that by (simp add: Let_def bucket_def split: if_splits)
  have ih: "bt_ok m" "fst ` set m = fst ` set ?by \<union> zone_of ` fst ` set rest"
    "bucket m z = bucket ?by z @ zone_values F after rest z"
    "\<forall>(n, a) \<in> set rest. length (bucket after n) = length a"
    if m: "zone_loop F after ((name, a) # rest) by_zone = Inr m" and ok: "bt_ok by_zone" for m
    using "2.IH" [OF refl, of m] rec [OF m] ok by (simp_all add: bucket_def)
  {
    case 1 then show ?case using ih(1) by blast
  next
    case 2 then show ?case using ih(2) by (simp add: keys_bt_insert)
  next
    case 3
    from ih(3) [OF 3] show ?case by simp
  next
    case 4
    from ih(4) [OF 4] rec [OF 4(1)] show ?case by simp
  }
qed

lemma bt_find_none: "find (\<lambda>n. \<not> bt_has m n) ks = None \<longleftrightarrow> set ks \<subseteq> fst ` set m"
  by (auto simp: find_None_iff bt_has_keys)

lemma zone_deltas_Inr:
  assumes "zone_deltas F before after = Inr ds"
  obtains m where "distinct (map fst before)" "distinct (map fst after)" "fst ` set before = fst ` set after"
    "zone_loop F (bt_of after) (bt_of before) [] = Inr m"
    "ds = map (\<lambda>(z, vs). \<lparr>zd_zone = z, zd_values = vs\<rparr>) m"
proof -
  from assms have ds: "distinct (map fst before)" "distinct (map fst after)"
    "find (\<lambda>n. \<not> bt_has (bt_of after) n) (map fst (bt_of before)) = None"
    "find (\<lambda>n. \<not> bt_has (bt_of before) n) (map fst (bt_of after)) = None"
    and res: "map_sum id (map (\<lambda>(z, vs). \<lparr>zd_zone = z, zd_values = vs\<rparr>)) (zone_loop F (bt_of after) (bt_of before) []) = Inr ds"
    unfolding zone_deltas_def Let_def length_bt_of_eq by (auto split: if_splits option.splits)
  from ds(3,4) have "fst ` set before = fst ` set after"
    by (simp add: bt_find_none keys_bt_of)
  moreover from res obtain m where "zone_loop F (bt_of after) (bt_of before) [] = Inr m"
    "ds = map (\<lambda>(z, vs). \<lparr>zd_zone = z, zd_values = vs\<rparr>) m"
    by (cases "zone_loop F (bt_of after) (bt_of before) []") auto
  ultimately show thesis using ds(1,2) by (intro that)
qed

lemma mset_bt_of:
  assumes "distinct (map fst xs)"
  shows "mset (bt_of xs) = mset xs"
proof -
  have "set (bt_of xs) = set xs"
    using bt_get_iff [OF bt_of_ok [of xs]] assms
    by (auto simp: bt_get_of rev_map [symmetric])
  then show ?thesis
    using assms bt_ok_distinct [OF bt_of_ok [of xs]] by (metis distinct_map set_eq_iff_mset_eq_distinct)
qed

lemma sum_list_pick:
  assumes "distinct zs" "k \<in> set zs"
  shows "(\<Sum>z \<leftarrow> zs. (if k = z then c else 0) + f z) = (c :: nat) + (\<Sum>z \<leftarrow> zs. f z)"
proof -
  have none: "k \<notin> set zs \<Longrightarrow> (\<Sum>z \<leftarrow> zs. if k = z then c else 0) = 0" for zs
    by (induction zs) auto
  have "(\<Sum>z \<leftarrow> zs. if k = z then c else 0) = c"
    using assms by (induction zs) (auto simp: none)
  then show ?thesis by (simp add: sum_list_addf)
qed

lemma zone_values_total:
  assumes "distinct zs" "zone_of ` fst ` set pre \<subseteq> set zs" "\<forall>(n, a) \<in> set pre. length (bucket after n) = length a"
  shows "(\<Sum>z \<leftarrow> zs. length (zone_values F after pre z)) = (\<Sum>(n, a) \<leftarrow> pre. length a)"
  using assms(2,3)
proof (induction pre)
  case (Cons e pre)
  obtain n a where e: "e = (n, a)" by (cases e)
  have "(\<Sum>z \<leftarrow> zs. length (zone_values F after (e # pre) z)) =
      (\<Sum>z \<leftarrow> zs. (if zone_of n = z then length a else 0) + length (zone_values F after pre z))"
    using Cons.prems(2) by (intro arg_cong [where f = sum_list] map_cong) (auto simp: e)
  also have "\<dots> = length a + (\<Sum>z \<leftarrow> zs. length (zone_values F after pre z))"
    using Cons.prems(1) by (intro sum_list_pick [OF assms(1)]) (auto simp: e)
  finally show ?case using Cons by (simp add: e)
qed simp

lemma zone_deltas_mset:
  assumes "mset before' = mset before" "mset after' = mset after"
  shows "zone_deltas F before' after' = zone_deltas F before after"
proof -
  have "distinct (map fst before') \<longleftrightarrow> distinct (map fst before)" "distinct (map fst after') \<longleftrightarrow> distinct (map fst after)"
    using assms by (metis mset_eq_imp_distinct_iff mset_map)+
  moreover have "zone_deltas F before' after' = zone_deltas F before after"
    if "distinct (map fst before')" "distinct (map fst after')"
    unfolding zone_deltas_def Let_def bt_of_mset [OF assms(1) that(1)] bt_of_mset [OF assms(2) that(2)]
      mset_eq_length [OF assms(1)] mset_eq_length [OF assms(2)] ..
  ultimately show ?thesis
    unfolding zone_deltas_def Let_def length_bt_of_eq by (cases "distinct (map fst before') \<and> distinct (map fst after')") auto
qed

text \<open>The difference of two checkpoints by zone is a function of their contents, not of the order in which
  a worker lists them; its zones come sorted, one entry each, and are those of the tensors; a zone's values are
  the differences of its tensors in the order of their names; and no coordinate is lost or counted twice.\<close>

theorem zone_deltas_exact:
  assumes "zone_deltas F before after = Inr ds"
    and "mset before' = mset before" "mset after' = mset after"
  shows "zone_deltas F before' after' = Inr ds \<and> sorted_wrt (<) (map zd_zone ds) \<and>
    set (map zd_zone ds) = zone_of ` fst ` set before \<and>
    list_all (\<lambda>d. zd_values d = zone_values F (bt_of after) (bt_of before) (zd_zone d)) ds \<and>
    (\<Sum>d \<leftarrow> ds. length (zd_values d)) = (\<Sum>(n, a) \<leftarrow> before. length a)"
proof -
  obtain m where d: "distinct (map fst before)"
    and loop: "zone_loop F (bt_of after) (bt_of before) [] = Inr m"
    and ds: "ds = map (\<lambda>(z, vs). \<lparr>zd_zone = z, zd_values = vs\<rparr>) m"
    by (rule zone_deltas_Inr [OF assms(1)])
  note z = zone_loop_Inr [OF loop bt_ok_Nil]
  have keys: "map zd_zone ds = map fst m" by (simp add: ds comp_def case_prod_unfold)
  have vals: "zd_values d = zone_values F (bt_of after) (bt_of before) (zd_zone d)" if "d \<in> set ds" for d
  proof -
    from that obtain k vs where "(k, vs) \<in> set m" "d = \<lparr>zd_zone = k, zd_values = vs\<rparr>" by (auto simp: ds)
    then show ?thesis using z(3) [of k] bt_get_iff [OF z(1), of k vs] by (simp add: bucket_def)
  qed
  have "(\<Sum>d \<leftarrow> ds. length (zd_values d)) = (\<Sum>k \<leftarrow> map zd_zone ds. length (zone_values F (bt_of after) (bt_of before) k))"
    using vals by (simp add: comp_def cong: map_cong)
  also have "\<dots> = (\<Sum>(n, a) \<leftarrow> bt_of before. length a)"
    using z bt_ok_distinct by (intro zone_values_total) (auto simp: keys)
  also have "\<dots> = (\<Sum>(n, a) \<leftarrow> before. length a)"
    using mset_bt_of [OF d] by (metis mset_map sum_mset_sum_list)
  finally have total: "(\<Sum>d \<leftarrow> ds. length (zd_values d)) = (\<Sum>(n, a) \<leftarrow> before. length a)" .
  show ?thesis
    using total vals z(1,2) zone_deltas_mset [OF assms(2,3), of F] assms(1)
    by (auto simp: keys bt_ok_def list_all_iff keys_bt_of)
qed

section \<open>What a step commitment binds\<close>

lemma concat_width_inject:
  assumes "concat (map f xs) = concat (map f ys)" and "\<And>x. length (f x) = w" and "0 < w"
  shows "map f xs = map f ys"
proof -
  have "as_chunks w (concat (map f zs)) = map f zs" for zs
    using assms(2,3) by (intro as_chunks_concat) auto
  then show ?thesis using assms(1) by metis
qed

lemma q16_pre_inject [simp]: "q16_pre vs = q16_pre us \<longleftrightarrow> vs = us"
proof
  assume "q16_pre vs = q16_pre us"
  then have "map (to_be_bytes :: i64 \<Rightarrow> bytes) vs = map to_be_bytes us"
    unfolding q16_pre_def by (rule concat_width_inject [where w = 8]) simp_all
  then show "vs = us" by (simp add: inj_map_eq_map inj_def)
qed simp

definition q16_row :: "(bytes \<Rightarrow> b256) \<Rightarrow> u32 \<times> i64 list \<Rightarrow> bytes" where
  "q16_row K t = to_be_bytes (fst t) @ to_be_bytes (q16_tensor_commitment K (snd t))"

lemma q16_step_pre_rows: "q16_step_pre K ts = concat (map (q16_row K) (sort_key fst ts))"
  by (simp add: q16_step_pre_def q16_row_def [abs_def] case_prod_unfold)

lemma q16_step_pre_inject:
  assumes "collision_free K A" "q16_pre ` snd ` (set ts \<union> set us) \<subseteq> A" "q16_step_pre K ts = q16_step_pre K us"
  shows "sort_key fst ts = sort_key fst us"
proof -
  have rows: "map (q16_row K) (sort_key fst ts) = map (q16_row K) (sort_key fst us)"
    using assms(3) unfolding q16_step_pre_rows
    by (rule concat_width_inject [where w = 36]) (simp_all add: q16_row_def)
  have "inj_on (q16_row K) (set ts \<union> set us)"
    using assms(2) by (auto simp: inj_on_def q16_row_def q16_tensor_commitment_def
        collision_free_eq [OF assms(1)] image_subset_iff ball_Un split: prod.splits)
  with rows show ?thesis by (simp add: inj_on_map_eq_map)
qed

lemma sort_key_mset:
  assumes "mset ts = mset us" "distinct (map fst ts)"
  shows "sort_key fst ts = sort_key fst us"
proof -
  have "distinct (map fst us)" using assms by (metis mset_eq_imp_distinct_iff mset_map)
  then have "distinct (map fst (sort_key fst ts))" "distinct (map fst (sort_key fst us))"
    using assms(2) by (metis mset_eq_imp_distinct_iff mset_map mset_sort)+
  moreover have "set (sort_key fst ts) = set (sort_key fst us)"
    using assms(1) by (metis set_mset_mset set_sort)
  ultimately show ?thesis
    by (intro map_sorted_distinct_set_unique [where f = fst]) (auto simp: distinct_map)
qed

text \<open>C33: A commitment on the fixed grid of tensors with distinct indices does not depend on the order in which a worker
  lists them, and two steps have the same one only if they agree on every tensor, its index and each of its values.\<close>

theorem q16_commitment_binds:
  assumes "collision_free K A" "q16_pre ` snd ` (set ts \<union> set us) \<subseteq> A" "q16_step_pre K ts \<in> A" "q16_step_pre K us \<in> A"
    and "distinct (map fst ts)"
  shows "q16_step_commitment K ts = q16_step_commitment K us \<longleftrightarrow> mset ts = mset us"
proof
  assume "q16_step_commitment K ts = q16_step_commitment K us"
  then have "q16_step_pre K ts = q16_step_pre K us"
    using assms(1,3,4) by (simp add: q16_step_commitment_def collision_free_eq)
  then have "sort_key fst ts = sort_key fst us" by (rule q16_step_pre_inject [OF assms(1,2)])
  then show "mset ts = mset us" by (metis mset_sort)
next
  assume "mset ts = mset us"
  then show "q16_step_commitment K ts = q16_step_commitment K us"
    using assms(5) by (simp add: q16_step_commitment_def q16_step_pre_def sort_key_mset)
qed

section \<open>Examples\<close>

definition zone_ex_ops :: grad_ops where
  "zone_ex_ops =
     \<lparr>go_div127 = (\<lambda>x. x), go_quotient = (\<lambda>g s. 0), go_product = (\<lambda>v s. 0), go_q16 = (\<lambda>x. 0),
      go_sub = (\<lambda>x y. x), go_l2 = (\<lambda>vs. 0), go_add = (\<lambda>a b. a)\<rparr>"

definition zone_ex_before :: "(string \<times> f32 list) list" where
  "zone_ex_before = [(''zone_HP.wq'', [0, 0]), (''readout'', [0]), (''score_HP'', [0])]"

definition zone_ex_after :: "(string \<times> f32 list) list" where
  "zone_ex_after = [(''readout'', [0]), (''score_HP'', [1]), (''zone_HP.wq'', [0, 1])]"

lemma zone_ex:
  "zone_deltas zone_ex_ops zone_ex_before zone_ex_after =
     Inr [\<lparr>zd_zone = ''HP'', zd_values = [1, 0, 1]\<rparr>, \<lparr>zd_zone = SHARED, zd_values = [0]\<rparr>]"
  by code_simp

lemma zone_deltas_exact_witness:
  "zone_deltas zone_ex_ops (rev zone_ex_before) (rev zone_ex_after) =
     Inr [\<lparr>zd_zone = ''HP'', zd_values = [1, 0, 1]\<rparr>, \<lparr>zd_zone = SHARED, zd_values = [0]\<rparr>]"
  using zone_deltas_exact [OF zone_ex, of "rev zone_ex_before" "rev zone_ex_after"] by (simp only: mset_rev)

text \<open>Only the two prefixes are looked at: a parameter renamed to anything else is shared, without an error.\<close>

lemma renamed_parameter_is_shared: "zone_of ''zones_HP.wq'' = SHARED" "zone_of ''HP.wq'' = SHARED"
  by code_simp+

definition q16_ex_hash :: "bytes \<Rightarrow> b256" where
  "q16_ex_hash bs = (if bs = [] then 1 else if take 4 bs = [0, 0, 0, 0] then 2 else 3)"

lemma q16_commitment_binds_witness:
  "q16_step_commitment q16_ex_hash [(0, [])] \<noteq> q16_step_commitment q16_ex_hash [(1, [])]"
proof -
  have bytes: "take 4 (to_be_bytes (0 :: u32) @ bs) = [0, 0, 0, 0]" "take 4 (to_be_bytes (1 :: u32) @ bs) \<noteq> [0, 0, 0, 0]" for bs
    by (simp_all add: take_append, code_simp+)
  have pres: "q16_step_pre q16_ex_hash [(i, [])] = to_be_bytes i @ to_be_bytes (1 :: b256)" for i
    by (simp add: q16_step_pre_def q16_tensor_commitment_def q16_pre_def q16_ex_hash_def)
  let ?A = "{[], q16_step_pre q16_ex_hash [(0, [])], q16_step_pre q16_ex_hash [(1, [])]}"
  have free: "collision_free q16_ex_hash ?A"
    using bytes by (auto simp: collision_free_def inj_on_def pres q16_ex_hash_def)
  have "q16_step_commitment q16_ex_hash [(0, [])] = q16_step_commitment q16_ex_hash [(1, [])] \<longleftrightarrow>
      mset [(0 :: u32, [] :: i64 list)] = mset [(1, [])]"
    by (rule q16_commitment_binds [OF free]) (simp_all add: q16_pre_def)
  then show ?thesis by simp
qed

end
