(* ===== verification/Job_Runner_Theorems.thy ===== *)
theory Job_Runner_Theorems
  imports Job_Runner Step_Gradients_Theorems Evm_Abi_Theorems
begin

text \<open>
  What staging leaves on the disk, what a result of a training job binds, and where the runner asks for a shard it has
  not staged.
\<close>

section \<open>Where staging writes\<close>

definition in_dir :: "string \<Rightarrow> string \<Rightarrow> bool" where
  "in_dir d q \<longleftrightarrow> (\<exists>name. CHR ''/'' \<notin> set name \<and> q = d @ ''/'' @ name)"

lemma last_separator:
  assumes "c \<notin> set n" "c \<notin> set n'" "d @ c # n = d' @ c # n'"
  shows "d = d'" "n = n'"
proof -
  have "takeWhile (\<lambda>x. x \<noteq> c) (rev (e @ c # m)) = rev m" if "c \<notin> set m" for e m
    using that by (simp add: takeWhile_append)
  from this [OF assms(1), of d] this [OF assms(2), of d'] show "n = n'" by (metis assms(3) rev_rev_ident)
  with assms(3) show "d = d'" by simp
qed

lemma path_join_dir: "d \<noteq> [] \<Longrightarrow> last d \<noteq> CHR ''/'' \<Longrightarrow> path_join d name = d @ ''/'' @ name"
  by (simp add: path_join_def)

text \<open>A file name of a stem, a dot and an extension.\<close>

definition file_name :: "string \<Rightarrow> string \<Rightarrow> bool" where
  "file_name stem ext \<longleftrightarrow> stem \<noteq> [] \<and> CHR ''/'' \<notin> set stem \<and> CHR ''/'' \<notin> set ext \<and> CHR ''.'' \<notin> set ext"

lemma touched_file:
  assumes "file_name stem ext"
  shows "touched (d @ ''/'' @ stem @ ''.'' @ ext) = {d @ ''/'' @ stem @ ''.'' @ ext, d @ ''/'' @ stem @ ''.partial''}"
  using assms with_extension_name [of stem ext "''partial''" d] by (simp add: touched_def file_name_def)

lemma show_dec_chars: "c \<in> set (show_dec n) \<Longrightarrow> c \<noteq> CHR ''/'' \<and> c \<noteq> CHR 0x5C"
  using not_digit_char [of 10 "CHR ''/''" n] not_digit_char [of 10 "CHR 0x5C" n]
  by (auto simp: show_dec_def to_digit_def Let_def)

definition shard_stem :: "u32 \<Rightarrow> string" where
  "shard_stem i = (let s = show_dec (unat i) in ''shard_'' @ replicate (4 - length s) CHR ''0'' @ s)"

lemma shard_name_eq: "shard_name i = shard_stem i @ ''.'' @ ''json''"
  by (simp add: shard_name_def shard_stem_def Let_def)

lemma shard_file [simp]: "file_name (shard_stem i) ''json''"
  using show_dec_chars [of "CHR ''/''" "unat i"] by (auto simp: file_name_def shard_stem_def Let_def)

lemma shard_name_safe [simp]: "CHR ''/'' \<notin> set (shard_name i)" "\<not> unsafe_part (shard_name i)"
  using show_dec_chars [of "CHR ''/''" "unat i"] show_dec_chars [of "CHR 0x5C" "unat i"]
  by (auto simp: shard_name_def unsafe_part_def Let_def)

lemma big_files [simp]:
  "file_name ''model'' ''safetensors''" "file_name ''manifest'' ''json''" "file_name ''sidecar.nat'' ''json''"
  by (simp_all add: file_name_def)

lemma big_names_safe [simp]:
  "\<not> unsafe_part ''model.safetensors''" "\<not> unsafe_part ''manifest.json''" "\<not> unsafe_part ''sidecar.nat.json''"
  by (simp_all add: unsafe_part_def)

context hex_codec
begin

lemma store_dir_ends:
  "model_dir H store h \<noteq> []" "last (model_dir H store h) \<noteq> CHR ''/''"
  "dataset_dir H store h \<noteq> []" "last (dataset_dir H store h) \<noteq> CHR ''/''"
proof -
  have "hex0x H (to_be_bytes h) \<noteq> []" "last (hex0x H (to_be_bytes h)) \<noteq> CHR ''/''"
    using hex0x_no_slash [of "to_be_bytes h"] last_in_set [of "hex0x H (to_be_bytes h)"] by (auto simp: hex0x_def)
  then show "model_dir H store h \<noteq> []" "last (model_dir H store h) \<noteq> CHR ''/''"
    "dataset_dir H store h \<noteq> []" "last (dataset_dir H store h) \<noteq> CHR ''/''"
    by (auto simp: model_dir_def dataset_dir_def path_join_def)
qed

lemmas store_path = path_join_dir [OF store_dir_ends(1,2)] path_join_dir [OF store_dir_ends(3,4)]

lemma store_paths:
  "path_join (model_dir H store h) ''model.safetensors'' = model_dir H store h @ ''/'' @ ''model'' @ ''.'' @ ''safetensors''"
  "sidecar_path H store h = model_dir H store h @ ''/'' @ ''sidecar.nat'' @ ''.'' @ ''json''"
  "manifest_path H store h = dataset_dir H store h @ ''/'' @ ''manifest'' @ ''.'' @ ''json''"
  "shard_path H store h i = dataset_dir H store h @ ''/'' @ shard_stem i @ ''.'' @ ''json''"
  by (simp_all add: store_path sidecar_path_def manifest_path_def shard_path_def shard_name_eq)

lemma staged_dests:
  "local_dest store (model_path H h ''model.safetensors'') = Inr (path_join (model_dir H store h) ''model.safetensors'')"
  "local_dest store (model_path H h ''sidecar.nat.json'') = Inr (sidecar_path H store h)"
  "local_dest store (dataset_path H h ''manifest.json'') = Inr (manifest_path H store h)"
  "local_dest store (dataset_path H h (shard_name i)) = Inr (shard_path H store h i)"
  by (simp_all add: local_dest_path sidecar_path_def manifest_path_def shard_path_def)

lemma manifest_dir: "parent_dir (manifest_path H store h) = Some (dataset_dir H store h)"
  by (simp add: store_paths parent_dir_def dropWhile_append)

end

text \<open>The four kinds of path, and what writing one may touch.\<close>

lemma touched_in_dir:
  assumes "file_name stem ext"
  shows "touched (d @ ''/'' @ stem @ ''.'' @ ext) \<subseteq> Collect (in_dir d)"
  using assms unfolding touched_file [OF assms]
  by (auto simp: in_dir_def file_name_def)

lemma not_touched:
  assumes "file_name stem ext" "file_name stem' ext'" "stem' \<noteq> stem" "ext' \<noteq> ''partial''"
  shows "d' @ ''/'' @ stem' @ ''.'' @ ext' \<notin> touched (d @ ''/'' @ stem @ ''.'' @ ext)"
proof
  assume "d' @ ''/'' @ stem' @ ''.'' @ ext' \<in> touched (d @ ''/'' @ stem @ ''.'' @ ext)"
  then consider "d' @ CHR ''/'' # stem' @ CHR ''.'' # ext' = d @ CHR ''/'' # stem @ CHR ''.'' # ext"
    | "d' @ CHR ''/'' # stem' @ CHR ''.'' # ext' = d @ CHR ''/'' # stem @ CHR ''.'' # ''partial''"
    unfolding touched_file [OF assms(1)] by auto
  then have "stem' @ CHR ''.'' # ext' = stem @ CHR ''.'' # ext \<or> stem' @ CHR ''.'' # ext' = stem @ CHR ''.'' # ''partial''"
    using assms(1,2) by cases (drule last_separator(2) [rotated 2]; simp add: file_name_def)+
  then show False
    using assms last_separator [of "CHR ''.''" ext' ext stem' stem] last_separator [of "CHR ''.''" ext' "''partial''" stem' stem]
    by (auto simp: file_name_def)
qed

lemma not_partial:
  assumes "file_name stem ext" "file_name stem' ext'" "ext' \<noteq> ''partial''"
  shows "d' @ ''/'' @ stem' @ ''.'' @ ext' \<noteq> with_extension ''partial'' (d @ ''/'' @ stem @ ''.'' @ ext)"
proof -
  have partial: "with_extension ''partial'' (d @ ''/'' @ stem @ ''.'' @ ext) = d @ CHR ''/'' # stem @ CHR ''.'' # ''partial''"
    using assms(1) with_extension_name [of stem ext "''partial''" d] by (simp add: file_name_def)
  show ?thesis
  proof
    assume "d' @ ''/'' @ stem' @ ''.'' @ ext' = with_extension ''partial'' (d @ ''/'' @ stem @ ''.'' @ ext)"
    then have "d' @ CHR ''/'' # stem' @ CHR ''.'' # ext' = d @ CHR ''/'' # stem @ CHR ''.'' # ''partial''"
      using partial by simp
    then have "stem' @ CHR ''.'' # ext' = stem @ CHR ''.'' # ''partial''"
      using assms(1,2) by (drule_tac last_separator(2) [rotated 2]) (simp_all add: file_name_def)
    then show False
      using assms last_separator(2) [of "CHR ''.''" ext' "''partial''" stem' stem] by (simp add: file_name_def)
  qed
qed

section \<open>What staging leaves\<close>

lemma replace_file_exists:
  assumes "replace_file w dest bs fs = (r, fs')" "fs_exists fs q" "q \<noteq> with_extension ''partial'' dest"
  shows "fs_exists fs' q"
  using assms by (auto simp: replace_file_def Let_def write_file_def remove_file_def split: if_splits option.splits)

lemma write_atomic_effect:
  assumes "write_atomic w dest bs fs = (r, fs')"
  shows "same_except (touched dest) fs fs'" "r = Inr u \<Longrightarrow> fs_exists fs' dest"
    "fs_exists fs q \<Longrightarrow> q \<noteq> with_extension ''partial'' dest \<Longrightarrow> fs_exists fs' q"
proof -
  obtain r0 where f: "replace_file w dest bs fs = (r0, fs')" and r: "r = map_sum NotWritten id r0"
    using assms by (auto simp: write_atomic_def Let_def split: prod.splits)
  show "same_except (touched dest) fs fs'" using f by (rule replace_file_touched)
  show "r = Inr u \<Longrightarrow> fs_exists fs' dest" using f r replace_file_there(2) by (cases r0) auto
  show "fs_exists fs q \<Longrightarrow> q \<noteq> with_extension ''partial'' dest \<Longrightarrow> fs_exists fs' q"
    using f by (rule replace_file_exists)
qed

definition shard_files :: "codec \<Rightarrow> string \<Rightarrow> b256 \<Rightarrow> string set" where
  "shard_files H store h = (\<Union>i. touched (shard_path H store h i))"

text \<open>One shard: it is there, it could not be had, it could not be written, or it was.\<close>

lemma stage_shards_cases:
  assumes "hex_codec (je_hex E)"
    and "stage_shards E store get h (i # rest) (fs, m) = (r, fs', m')"
  obtains (present) "fs_exists fs (shard_path (je_hex E) store h i)" "stage_shards E store get h rest (fs, m) = (r, fs', m')"
  | (refused) e where "r = Inl e" "fs' = fs"
  | (unwritten) w bs e where "write_atomic w (shard_path (je_hex E) store h i) bs fs = (Inl e, fs')" "r = Inl e"
  | (written) w bs fs1 m1 where "write_atomic w (shard_path (je_hex E) store h i) bs fs = (Inr (), fs1)"
      "stage_shards E store get h rest (fs1, m1) = (r, fs', m')"
  using assms(2) hex_codec.staged_dests(4) [OF assms(1), of store h i]
  by (auto simp: Let_def split: if_splits prod.splits sum.splits)

lemma stage_shards_effect:
  assumes "hex_codec (je_hex E)"
    and "stage_shards E store get h is (fs, m) = (r, fs', m')"
  shows "same_except (shard_files (je_hex E) store h) fs fs' \<and>
    (\<forall>j. fs_exists fs (shard_path (je_hex E) store h j) \<longrightarrow> fs_exists fs' (shard_path (je_hex E) store h j)) \<and>
    (r = Inr () \<longrightarrow> (\<forall>i \<in> set is. fs_exists fs' (shard_path (je_hex E) store h i)))"
  using assms(2)
proof (induction "is" arbitrary: fs m)
  case (Cons i rest)
  let ?p = "shard_path (je_hex E) store h" and ?X = "shard_files (je_hex E) store h"
  have apart: "?p j \<noteq> with_extension ''partial'' (?p k)" for j k
    unfolding hex_codec.store_paths(4) [OF assms(1)] by (rule not_partial) simp_all
  have sub: "touched (?p k) \<subseteq> ?X" for k by (auto simp: shard_files_def)
  note wrote = write_atomic_effect [of _ "?p i" _ fs]
  from Cons.prems show ?case
  proof (cases rule: stage_shards_cases [OF assms(1), consumes 1, case_names present refused unwritten written])
    case present
    with Cons.IH [OF present(2)] show ?thesis by simp
  next
    case refused
    then show ?thesis by simp
  next
    case unwritten
    then show ?thesis using wrote(1,3) [OF unwritten(1)] apart same_except_mono [OF _ sub] by blast
  next
    case (written w bs fs1 m1)
    note w1 = wrote [OF written(1)] and ih = Cons.IH [OF written(2)]
    have "same_except ?X fs fs'"
      using same_except_trans [OF same_except_mono [OF w1(1) sub], of ?X fs'] ih by simp
    then show ?thesis using w1(2,3) ih apart by auto
  qed
qed simp

definition weights_path :: "codec \<Rightarrow> string \<Rightarrow> b256 \<Rightarrow> string" where
  "weights_path H store h = path_join (model_dir H store h) ''model.safetensors''"

definition store_files :: "codec \<Rightarrow> string \<Rightarrow> b256 \<Rightarrow> b256 \<Rightarrow> string set" where
  "store_files H store model dataset =
     {q. in_dir (model_dir H store model) q \<or> in_dir (dataset_dir H store dataset) q}"

text \<open>What a job needs to start and to read: the two files the job names by their hash, and every shard its steps open.\<close>

definition staged :: "('m, 'd, 't) job_env \<Rightarrow> string \<Rightarrow> training_job_payload \<Rightarrow> files \<Rightarrow> bool" where
  "staged E store p fs \<longleftrightarrow>
     hashes_to (je_keccak E) fs (weights_path (je_hex E) store (tj_model_start_hash p)) (tj_model_start_hash p) \<and>
     hashes_to (je_keccak E) fs (manifest_path (je_hex E) store (tj_dataset_hash p)) (tj_dataset_hash p) \<and>
     (\<exists>man. staged_manifest E store (tj_dataset_hash p) fs = Inr man \<and>
        (\<forall>step \<in> set (step_indices (tj_steps p)).
           \<forall>i \<in> set (shard_slice_for (length (cm_shards man)) (tj_shards_per_step p) step (tj_worker_shard p)).
             fs_exists fs (shard_path (je_hex E) store (tj_dataset_hash p) (sm_index (cm_shards man ! i)))))"

lemma same_read: "same_except X fs fs' \<Longrightarrow> q \<notin> X \<Longrightarrow> fs_read fs' q = fs_read fs q"
  by (simp add: same_except_def)

lemma hashes_to_cong: "fs_read fs' q = fs_read fs q \<Longrightarrow> hashes_to K fs' q h \<longleftrightarrow> hashes_to K fs q h"
  by (simp add: hashes_to_def)

context hex_codec
begin

lemma paths_apart:
  "weights_path H store m \<notin> touched (manifest_path H store d)" "weights_path H store m \<notin> touched (sidecar_path H store m)"
  "weights_path H store m \<notin> shard_files H store d" "manifest_path H store d \<notin> touched (weights_path H store m)"
  "manifest_path H store d \<notin> touched (sidecar_path H store m)" "manifest_path H store d \<notin> shard_files H store d"
proof -
  have "CHR ''s'' # rest \<noteq> ''model''" "CHR ''s'' # rest \<noteq> ''manifest''" for rest by simp_all
  then have stems: "''model'' \<noteq> shard_stem i" "''manifest'' \<noteq> shard_stem i" for i
    by (simp_all add: shard_stem_def Let_def)
  show "weights_path H store m \<notin> touched (manifest_path H store d)"
    unfolding weights_path_def store_paths by (rule not_touched) simp_all
  show "weights_path H store m \<notin> touched (sidecar_path H store m)"
    unfolding weights_path_def store_paths by (rule not_touched) simp_all
  show "manifest_path H store d \<notin> touched (weights_path H store m)"
    unfolding weights_path_def store_paths by (rule not_touched) simp_all
  show "manifest_path H store d \<notin> touched (sidecar_path H store m)"
    unfolding weights_path_def store_paths by (rule not_touched) simp_all
  have "weights_path H store m \<notin> touched (shard_path H store d i)" for i
    unfolding weights_path_def store_paths by (rule not_touched) (simp_all add: stems)
  then show "weights_path H store m \<notin> shard_files H store d" by (simp add: shard_files_def)
  have "manifest_path H store d \<notin> touched (shard_path H store d i)" for i
    unfolding store_paths by (rule not_touched) (simp_all add: stems)
  then show "manifest_path H store d \<notin> shard_files H store d" by (simp add: shard_files_def)
qed

lemma written_paths:
  "touched (weights_path H store m) \<subseteq> store_files H store m d" "touched (sidecar_path H store m) \<subseteq> store_files H store m d"
  "touched (manifest_path H store d) \<subseteq> store_files H store m d" "shard_files H store d \<subseteq> store_files H store m d"
proof -
  have "touched (weights_path H store m) \<subseteq> Collect (in_dir (model_dir H store m))"
    "touched (sidecar_path H store m) \<subseteq> Collect (in_dir (model_dir H store m))"
    unfolding weights_path_def store_paths by (rule touched_in_dir, simp)+
  moreover have "touched (manifest_path H store d) \<subseteq> Collect (in_dir (dataset_dir H store d))"
    "touched (shard_path H store d i) \<subseteq> Collect (in_dir (dataset_dir H store d))" for i
    unfolding store_paths by (rule touched_in_dir, simp)+
  ultimately show "touched (weights_path H store m) \<subseteq> store_files H store m d" "touched (sidecar_path H store m) \<subseteq> store_files H store m d"
    "touched (manifest_path H store d) \<subseteq> store_files H store m d" "shard_files H store d \<subseteq> store_files H store m d"
    unfolding store_files_def shard_files_def by blast+
qed

end

lemma stage_sidecar_effect:
  assumes "hex_codec (je_hex E)"
    and "stage_sidecar E store get (model_path (je_hex E) h ''sidecar.nat.json'') (fs, m) = (fs', m')"
  shows "same_except (touched (sidecar_path (je_hex E) store h)) fs fs'"
  using assms(2) hex_codec.staged_dests(2) [OF assms(1), of store h]
  by (auto simp: stage_sidecar_def split: if_splits prod.splits sum.splits intro: write_atomic_effect(1) [OF surjective_pairing])

lemma staged_manifest_cong:
  "fs_read fs' (manifest_path (je_hex E) store h) = fs_read fs (manifest_path (je_hex E) store h) \<Longrightarrow>
   staged_manifest E store h fs' = staged_manifest E store h fs"
  by (simp add: staged_manifest_def read_to_string_def)

text \<open>What every part of staging respects: it writes only below the two directories of the job, and leaves a file
  that already has the hash the job names.\<close>

definition keeps :: "('m, 'd, 't) job_env \<Rightarrow> string \<Rightarrow> training_job_payload \<Rightarrow> files \<Rightarrow> files \<Rightarrow> bool" where
  "keeps E store p fs fs' \<longleftrightarrow>
     same_except (store_files (je_hex E) store (tj_model_start_hash p) (tj_dataset_hash p)) fs fs' \<and>
     (\<forall>(q, h) \<in> {(weights_path (je_hex E) store (tj_model_start_hash p), tj_model_start_hash p),
                 (manifest_path (je_hex E) store (tj_dataset_hash p), tj_dataset_hash p)}.
        hashes_to (je_keccak E) fs q h \<longrightarrow> fs_read fs' q = fs_read fs q)"

lemma keeps_trans: "keeps E store p a b \<Longrightarrow> keeps E store p b c \<Longrightarrow> keeps E store p a c"
  using same_except_trans [of _ a b _ c] by (fastforce simp: keeps_def hashes_to_def)

lemma keeps_apart:
  assumes "same_except X fs fs'" "X \<subseteq> store_files (je_hex E) store (tj_model_start_hash p) (tj_dataset_hash p)"
    "weights_path (je_hex E) store (tj_model_start_hash p) \<notin> X" "manifest_path (je_hex E) store (tj_dataset_hash p) \<notin> X"
  shows "keeps E store p fs fs'"
  using assms same_except_mono [OF assms(1,2)] by (auto simp: keeps_def same_read)

abbreviation weights_of :: "('m, 'd, 't) job_env \<Rightarrow> string \<Rightarrow> training_job_payload \<Rightarrow> string" where
  "weights_of E store p \<equiv> weights_path (je_hex E) store (tj_model_start_hash p)"

abbreviation manifest_of :: "('m, 'd, 't) job_env \<Rightarrow> string \<Rightarrow> training_job_payload \<Rightarrow> string" where
  "manifest_of E store p \<equiv> manifest_path (je_hex E) store (tj_dataset_hash p)"

lemma keepsI:
  assumes "same_except X fs fs'" "X \<subseteq> store_files (je_hex E) store (tj_model_start_hash p) (tj_dataset_hash p)"
    and "hashes_to (je_keccak E) fs (weights_of E store p) (tj_model_start_hash p) \<Longrightarrow>
           fs_read fs' (weights_of E store p) = fs_read fs (weights_of E store p)"
    and "hashes_to (je_keccak E) fs (manifest_of E store p) (tj_dataset_hash p) \<Longrightarrow>
           fs_read fs' (manifest_of E store p) = fs_read fs (manifest_of E store p)"
  shows "keeps E store p fs fs'"
  using same_except_mono [OF assms(1,2)] assms(3,4) by (simp add: keeps_def)

lemma fetch_weights_keeps:
  assumes hex: "hex_codec (je_hex E)"
    and f: "fetch_verified (je_keccak E) get w rel (weights_of E store p) (tj_model_start_hash p) (fs, m) = (r, fs', m')"
  shows "keeps E store p fs fs'"
proof (rule keepsI [OF fetch_verified_effect(1) [OF f]])
  show "touched (weights_of E store p) \<subseteq> store_files (je_hex E) store (tj_model_start_hash p) (tj_dataset_hash p)"
    by (rule hex_codec.written_paths [OF hex])
  show "fs_read fs' (weights_of E store p) = fs_read fs (weights_of E store p)"
    if "hashes_to (je_keccak E) fs (weights_of E store p) (tj_model_start_hash p)"
    using fetch_verified_effect(3) [OF f that] by simp
  show "fs_read fs' (manifest_of E store p) = fs_read fs (manifest_of E store p)"
    by (rule same_read [OF fetch_verified_effect(1) [OF f] hex_codec.paths_apart(4) [OF hex]])
qed

lemma fetch_manifest_keeps:
  assumes hex: "hex_codec (je_hex E)"
    and f: "fetch_verified (je_keccak E) get w rel (manifest_of E store p) (tj_dataset_hash p) (fs, m) = (r, fs', m')"
  shows "keeps E store p fs fs'"
proof (rule keepsI [OF fetch_verified_effect(1) [OF f]])
  show "touched (manifest_of E store p) \<subseteq> store_files (je_hex E) store (tj_model_start_hash p) (tj_dataset_hash p)"
    by (rule hex_codec.written_paths [OF hex])
  show "fs_read fs' (manifest_of E store p) = fs_read fs (manifest_of E store p)"
    if "hashes_to (je_keccak E) fs (manifest_of E store p) (tj_dataset_hash p)"
    using fetch_verified_effect(3) [OF f that] by simp
  show "fs_read fs' (weights_of E store p) = fs_read fs (weights_of E store p)"
    by (rule same_read [OF fetch_verified_effect(1) [OF f] hex_codec.paths_apart(1) [OF hex]])
qed

lemma sidecar_keeps:
  assumes hex: "hex_codec (je_hex E)"
    and "stage_sidecar E store get (model_path (je_hex E) (tj_model_start_hash p) ''sidecar.nat.json'') (fs, m) = (fs', m')"
  shows "keeps E store p fs fs'"
  using stage_sidecar_effect [OF assms] hex_codec.written_paths(2) [OF hex] hex_codec.paths_apart(2,5) [OF hex]
  by (rule keeps_apart)

lemma shards_keep:
  assumes hex: "hex_codec (je_hex E)"
    and "stage_shards E store get (tj_dataset_hash p) is (fs, m) = (r, fs', m')"
  shows "keeps E store p fs fs'" "fs_read fs' (manifest_of E store p) = fs_read fs (manifest_of E store p)"
proof -
  have same: "same_except (shard_files (je_hex E) store (tj_dataset_hash p)) fs fs'"
    using stage_shards_effect [OF assms] by blast
  show "keeps E store p fs fs'"
    by (rule keeps_apart [OF same hex_codec.written_paths(4) [OF hex] hex_codec.paths_apart(3,6) [OF hex]])
  show "fs_read fs' (manifest_of E store p) = fs_read fs (manifest_of E store p)"
    by (rule same_read [OF same hex_codec.paths_apart(6) [OF hex]])
qed

text \<open>How far staging came.\<close>

lemma stage_cases:
  assumes hex: "hex_codec (je_hex E)"
    and "nj_mirror R = Some get" "stage E R p (fs, m) = (r, fs', m')"
  obtains (unfetched) "keeps E (nj_store R) p fs fs'" "r \<noteq> Inr ()"
  | (sharding) fs1 fs2 fs3 m3 man where
      "hashes_to (je_keccak E) fs1 (weights_of E (nj_store R) p) (tj_model_start_hash p)" "keeps E (nj_store R) p fs fs1"
      "hashes_to (je_keccak E) fs2 (manifest_of E (nj_store R) p) (tj_dataset_hash p)" "keeps E (nj_store R) p fs1 fs2"
      "keeps E (nj_store R) p fs2 fs3" "staged_manifest E (nj_store R) (tj_dataset_hash p) fs3 = Inr man"
      "stage_shards E (nj_store R) get (tj_dataset_hash p) (wanted_shards man p) (fs3, m3) = (r, fs', m')"
proof -
  let ?store = "nj_store R"
  obtain r1 fs1 m1 where f1: "fetch_verified (je_keccak E) get (je_faults E (weights_of E ?store p))
      (model_path (je_hex E) (tj_model_start_hash p) ''model.safetensors'')
      (weights_of E ?store p) (tj_model_start_hash p) (fs, m) = (r1, fs1, m1)"
    by (rule prod_cases3)
  obtain r2 fs2 m2 where f2: "fetch_verified (je_keccak E) get (je_faults E (manifest_of E ?store p))
      (dataset_path (je_hex E) (tj_dataset_hash p) ''manifest.json'')
      (manifest_of E ?store p) (tj_dataset_hash p) (fs1, m1) = (r2, fs2, m2)"
    by (rule prod_cases3)
  obtain fs3 m3 where f3: "stage_sidecar E ?store get (model_path (je_hex E) (tj_model_start_hash p) ''sidecar.nat.json'') (fs2, m2) = (fs3, m3)"
    by (rule prod.exhaust)
  note k = fetch_weights_keeps [OF hex f1] fetch_manifest_keeps [OF hex f2] sidecar_keeps [OF hex f3]
  note dests = hex_codec.staged_dests(1) [OF hex, folded weights_path_def] hex_codec.staged_dests(3) [OF hex]
  have st: "(r, fs', m') =
      (case r1 of Inl e \<Rightarrow> (Inl (FetchFailed e), fs1, m1)
       | Inr _ \<Rightarrow>
           case r2 of Inl e \<Rightarrow> (Inl (FetchFailed e), fs2, m2)
           | Inr _ \<Rightarrow>
               case staged_manifest E ?store (tj_dataset_hash p) fs3 of
                 Inl e \<Rightarrow> (Inl e, fs3, m3)
               | Inr man \<Rightarrow> stage_shards E ?store get (tj_dataset_hash p) (wanted_shards man p) (fs3, m3))"
    using f1 f2 f3 unfolding assms(3) [symmetric] by (simp add: stage_def assms(2) dests split: sum.split)
  show thesis
  proof (cases r1)
    case (Inl e)
    with st k(1) show thesis by (intro unfetched) auto
  next
    case r1: (Inr b1)
    show thesis
    proof (cases r2)
      case (Inl e)
      with st r1 keeps_trans [OF k(1,2)] show thesis by (intro unfetched) auto
    next
      case r2: (Inr b2)
      show thesis
      proof (cases "staged_manifest E ?store (tj_dataset_hash p) fs3")
        case (Inl e)
        with st r1 r2 keeps_trans [OF keeps_trans [OF k(1,2)] k(3)] show thesis by (intro unfetched) auto
      next
        case (Inr man)
        from st r1 r2 Inr have "stage_shards E ?store get (tj_dataset_hash p) (wanted_shards man p) (fs3, m3) = (r, fs', m')"
          by simp
        then show thesis
          using fetch_verified_effect(2) [OF f1 r1] fetch_verified_effect(2) [OF f2 r2] k Inr by (intro sharding)
      qed
    qed
  qed
qed

text \<open>C11: Staging, whatever the mirror serves and whichever file operation fails, writes only files directly in the
  job's two directories of the store and leaves a checkpoint or manifest that already has the job's hash as it
  is.  When it succeeds both have their hashes, and every shard of the slices this worker trains on, step by step, is
  there.  Only those: the slice on which the shares of the zones are sampled is that of worker shard 0, and for another
  worker it is not staged (\<open>sample_reads_unstaged_shards\<close>).\<close>

theorem stage_exact:
  assumes "hex_codec (je_hex E)" and "nj_mirror R = Some get" and "stage E R p (fs, m) = (r, fs', m')"
  shows "keeps E (nj_store R) p fs fs' \<and> (r = Inr () \<longrightarrow> staged E (nj_store R) p fs')"
  using assms(2,3)
proof (cases rule: stage_cases [OF assms(1), consumes 2, case_names unfetched sharding])
  case unfetched
  then show ?thesis by simp
next
  case (sharding fs1 fs2 fs3 m3 man)
  note k = shards_keep [OF assms(1) sharding(7)]
  have after: "keeps E (nj_store R) p fs1 fs'" "keeps E (nj_store R) p fs2 fs'"
    using sharding(4,5) k(1) keeps_trans by blast+
  have "hashes_to (je_keccak E) fs' (weights_of E (nj_store R) p) (tj_model_start_hash p)"
    "hashes_to (je_keccak E) fs' (manifest_of E (nj_store R) p) (tj_dataset_hash p)"
    using after sharding(1,3) by (auto simp: keeps_def hashes_to_def)
  moreover have "staged_manifest E (nj_store R) (tj_dataset_hash p) fs' = Inr man"
    using sharding(6) staged_manifest_cong [OF k(2)] by simp
  moreover have "r = Inr () \<longrightarrow> (\<forall>i \<in> set (wanted_shards man p). fs_exists fs' (shard_path (je_hex E) (nj_store R) (tj_dataset_hash p) i))"
    using stage_shards_effect [OF assms(1) sharding(7)] by blast
  ultimately show ?thesis
    using keeps_trans [OF sharding(2) after(1)] by (auto simp: staged_def wanted_shards_def)
qed

section \<open>What a result binds\<close>

text \<open>The commits of a job can be rebuilt from the start hash and the records of the result alone: the weights before a
  step are those after the step before it.\<close>

fun rebuilt_commits :: "u32 \<Rightarrow> address \<Rightarrow> b256 \<Rightarrow> step_record list \<Rightarrow> step_commit list" where
  "rebuilt_commits epoch worker prev [] = []"
| "rebuilt_commits epoch worker prev (r # rs) =
     \<lparr>sc_epoch = epoch, sc_step = sr_step r, sc_worker = worker, sc_commitment = sr_commitment r, sc_prev_weights = prev\<rparr> #
     rebuilt_commits epoch worker (sr_post_weights r) rs"

definition last_weights :: "b256 \<Rightarrow> step_record list \<Rightarrow> b256" where
  "last_weights prev rs = (if rs = [] then prev else sr_post_weights (last rs))"

lemma last_weights_Cons [simp]: "last_weights prev (r # rs) = last_weights (sr_post_weights r) rs"
  by (simp add: last_weights_def)

lemma last_weights_Nil [simp]: "last_weights prev [] = prev"
  by (simp add: last_weights_def)

text \<open>The shards a step opens are readable, and each has the fingerprint its entry of the manifest has.\<close>

definition reads_committed ::
  "('m, 'd, 't) job_env \<Rightarrow> string \<Rightarrow> training_job_payload \<Rightarrow> files \<Rightarrow> corpus_manifest \<Rightarrow> u32 \<Rightarrow> u32 \<Rightarrow> bool" where
  "reads_committed E store p fs man step worker_shard \<longleftrightarrow>
     list_all (\<lambda>i. \<exists>raw d.
         read_to_string fs (shard_path (je_hex E) store (tj_dataset_hash p) (sm_index (cm_shards man ! i))) = Inr raw \<and>
         no_shard (je_nat E) raw = Inr d \<and> no_provenance (je_nat E) d = sm_provenance (cm_shards man ! i))
       (shard_slice_for (length (cm_shards man)) (tj_shards_per_step p) step worker_shard)"

lemma read_shard_Inr:
  assumes "hex_codec H" "ja_manifest_path A = manifest_path H store h" "read_shard N A fs meta = Inr d"
  shows "\<exists>raw. read_to_string fs (shard_path H store h (sm_index meta)) = Inr raw \<and> no_shard N raw = Inr d \<and>
    no_provenance N d = sm_provenance meta"
  using assms(2,3) hex_codec.manifest_dir [OF assms(1), of store h]
  by (auto simp: read_shard_def bind_ok_Inr map_sum_Inr_iff shard_path_def [symmetric] Let_def split: if_splits)

lemma read_and_verify_committed:
  assumes "hex_codec (je_hex E)" "ja_manifest_path A = manifest_path (je_hex E) store (tj_dataset_hash p)"
    and "read_and_verify_shards (je_nat E) A (payload_params p) fs man step ws = Inr ds"
  shows "reads_committed E store p fs man step ws"
proof -
  have "list_all2 (\<lambda>i d. read_shard (je_nat E) A fs (cm_shards man ! i) = Inr d)
      (shard_slice_for (length (cm_shards man)) (tj_shards_per_step p) step ws) ds"
    using assms(3) by (intro map_ok_all2) (simp add: read_and_verify_shards_def payload_params_def split: if_splits)
  then have "list_all (\<lambda>i. \<exists>d. read_shard (je_nat E) A fs (cm_shards man ! i) = Inr d)
      (shard_slice_for (length (cm_shards man)) (tj_shards_per_step p) step ws)"
    by (induction rule: list_all2_induct) auto
  then show ?thesis
    unfolding reads_committed_def
  proof (rule list.pred_mono_strong)
    fix i assume "\<exists>d. read_shard (je_nat E) A fs (cm_shards man ! i) = Inr d"
    then obtain d where "read_shard (je_nat E) A fs (cm_shards man ! i) = Inr d" ..
    from read_shard_Inr [OF assms(1,2) this]
    show "\<exists>raw d. read_to_string fs (shard_path (je_hex E) store (tj_dataset_hash p) (sm_index (cm_shards man ! i))) = Inr raw \<and>
        no_shard (je_nat E) raw = Inr d \<and> no_provenance (je_nat E) d = sm_provenance (cm_shards man ! i)"
      by (elim exE) (intro exI)
  qed
qed

lemma forward_backward_Inr:
  assumes "forward_backward K F N B fs epoch step ws = Inr ((gs, post), B')"
  shows "nb_artifacts B' = nb_artifacts B" "nb_params B' = nb_params B"
    "\<exists>man ds. load_manifest N (nb_artifacts B) fs = Inr man \<and>
       read_and_verify_shards N (nb_artifacts B) (nb_params B) fs man step ws = Inr ds"
  using assms unfolding forward_backward_def bind_ok_Inr by auto

definition step_reads :: "('m, 'd, 't) job_env \<Rightarrow> 'm nat_backend \<Rightarrow> training_job_payload \<Rightarrow> files \<Rightarrow> u32 \<Rightarrow> bool" where
  "step_reads E B p fs step \<longleftrightarrow>
     (\<exists>man ds. load_manifest (je_nat E) (nb_artifacts B) fs = Inr man \<and>
        read_and_verify_shards (je_nat E) (nb_artifacts B) (nb_params B) fs man step (tj_worker_shard p) = Inr ds)"

lemma sample_shares_Inr:
  assumes "sample_shares E p fs step s = Inr s'"
  shows "rs_backend s' = rs_backend s" "rs_prev s' = rs_prev s" "rs_steps s' = rs_steps s" "rs_commits s' = rs_commits s"
  using assms by (auto simp: sample_shares_def bind_ok_Inr split: if_splits option.splits)

lemma run_step_Inr:
  assumes "run_step E worker p fs step s = Inr s'"
  obtains r where "sr_step r = step" "rs_steps s' = rs_steps s @ [r]"
    "rs_commits s' = rs_commits s @ rebuilt_commits (tj_epoch p) worker (rs_prev s) [r]" "rs_prev s' = sr_post_weights r"
    "nb_artifacts (rs_backend s') = nb_artifacts (rs_backend s)" "nb_params (rs_backend s') = nb_params (rs_backend s)"
    "step_reads E (rs_backend s) p fs step"
proof -
  from assms obtain gs post B s1 where
    fb: "forward_backward (je_keccak E) (je_grad E) (je_nat E) (rs_backend s) fs (tj_epoch p) step (tj_worker_shard p) = Inr ((gs, post), B)"
    and smp: "sample_shares E p fs step
        (s\<lparr>rs_backend := B, rs_zone_l2 := accumulate_zone_l2 (je_grad E) (rs_zone_l2 s) gs,
           rs_commits := rs_commits s @ [\<lparr>sc_epoch = tj_epoch p, sc_step = step, sc_worker = worker,
             sc_commitment = compute_step_commitment (je_keccak E) (je_grad E) (ja_commitment_grid (nb_artifacts B)) gs,
             sc_prev_weights = rs_prev s\<rparr>],
           rs_steps := rs_steps s @ [\<lparr>sr_step = step,
             sr_commitment = compute_step_commitment (je_keccak E) (je_grad E) (ja_commitment_grid (nb_artifacts B)) gs,
             sr_post_weights = post\<rparr>]\<rparr>) = Inr s1"
    and s': "s' = s1\<lparr>rs_prev := post\<rparr>"
    by (auto simp: run_step_def bind_ok_Inr map_sum_Inr_iff Let_def)
  show thesis
    using sample_shares_Inr [OF smp] forward_backward_Inr [OF fb] s'
    by (intro that [of "\<lparr>sr_step = step,
          sr_commitment = compute_step_commitment (je_keccak E) (je_grad E) (ja_commitment_grid (nb_artifacts B)) gs,
          sr_post_weights = post\<rparr>"]) (auto simp: step_reads_def)
qed

lemma train_steps_Inr:
  assumes "train_steps E worker p fs steps s = Inr s'"
  shows "\<exists>rs. map sr_step rs = steps \<and> rs_steps s' = rs_steps s @ rs \<and>
    rs_commits s' = rs_commits s @ rebuilt_commits (tj_epoch p) worker (rs_prev s) rs \<and>
    rs_prev s' = last_weights (rs_prev s) rs \<and>
    nb_artifacts (rs_backend s') = nb_artifacts (rs_backend s) \<and> nb_params (rs_backend s') = nb_params (rs_backend s) \<and>
    list_all (step_reads E (rs_backend s) p fs) steps"
  using assms
proof (induction steps arbitrary: s)
  case (Cons step rest)
  then obtain s1 where s1: "run_step E worker p fs step s = Inr s1" and rest: "train_steps E worker p fs rest s1 = Inr s'"
    by (auto simp: bind_ok_Inr)
  from Cons.IH [OF rest] obtain rs where rs: "map sr_step rs = rest" "rs_steps s' = rs_steps s1 @ rs"
    "rs_commits s' = rs_commits s1 @ rebuilt_commits (tj_epoch p) worker (rs_prev s1) rs"
    "rs_prev s' = last_weights (rs_prev s1) rs" "nb_artifacts (rs_backend s') = nb_artifacts (rs_backend s1)"
    "nb_params (rs_backend s') = nb_params (rs_backend s1)" "list_all (step_reads E (rs_backend s1) p fs) rest" by blast
  from s1 show ?case
  proof (rule run_step_Inr)
    fix r assume r: "sr_step r = step" "rs_steps s1 = rs_steps s @ [r]"
      "rs_commits s1 = rs_commits s @ rebuilt_commits (tj_epoch p) worker (rs_prev s) [r]" "rs_prev s1 = sr_post_weights r"
      "nb_artifacts (rs_backend s1) = nb_artifacts (rs_backend s)" "nb_params (rs_backend s1) = nb_params (rs_backend s)"
      "step_reads E (rs_backend s) p fs step"
    have "step_reads E (rs_backend s1) p fs = step_reads E (rs_backend s) p fs"
      by (simp add: step_reads_def [abs_def] r)
    then show ?case using rs r by (intro exI [of _ "r # rs"]) simp
  qed
qed simp

lemma resolve_Inr:
  assumes "resolve K H parse store model dataset fs = Inr A"
  shows "hashes_to K fs (weights_path H store model) model" "hashes_to K fs (manifest_path H store dataset) dataset"
    "ja_manifest_path A = manifest_path H store dataset" "ja_model_start_hash A = model"
  using assms by (auto simp: resolve_def bind_ok_Inr verify_file_Inr weights_path_def)

lemma sample_reads:
  assumes "sample_shares E p fs step s = Inr s'" "tj_share_every p > 0" "step mod tj_share_every p = 0"
  shows "\<exists>man ds. load_manifest (je_nat E) (nb_artifacts (rs_backend s)) fs = Inr man \<and>
    read_and_verify_shards (je_nat E) (nb_artifacts (rs_backend s)) (nb_params (rs_backend s)) fs man 0 0 = Inr ds"
  using assms unfolding sample_shares_def zone_shares_def by (auto simp: bind_ok_Inr map_sum_Inr_iff)

lemma first_step_samples:
  assumes "train_steps E worker p fs (0 # rest) s = Inr s'" "tj_share_every p > 0"
  shows "\<exists>man ds. load_manifest (je_nat E) (nb_artifacts (rs_backend s)) fs = Inr man \<and>
    read_and_verify_shards (je_nat E) (nb_artifacts (rs_backend s)) (nb_params (rs_backend s)) fs man 0 0 = Inr ds"
proof -
  from assms(1) obtain s1 where "run_step E worker p fs 0 s = Inr s1" by (auto simp: bind_ok_Inr)
  then obtain gs post B where
    fb: "forward_backward (je_keccak E) (je_grad E) (je_nat E) (rs_backend s) fs (tj_epoch p) 0 (tj_worker_shard p) = Inr ((gs, post), B)"
    and rest: "run_step E worker p fs 0 s = Inr s1"
    by (auto simp: run_step_def bind_ok_Inr map_sum_Inr_iff)
  define t where "t = s\<lparr>rs_backend := B, rs_zone_l2 := accumulate_zone_l2 (je_grad E) (rs_zone_l2 s) gs,
      rs_commits := rs_commits s @ [\<lparr>sc_epoch = tj_epoch p, sc_step = 0, sc_worker = worker,
        sc_commitment = compute_step_commitment (je_keccak E) (je_grad E) (ja_commitment_grid (nb_artifacts B)) gs,
        sc_prev_weights = rs_prev s\<rparr>],
      rs_steps := rs_steps s @ [\<lparr>sr_step = 0,
        sr_commitment = compute_step_commitment (je_keccak E) (je_grad E) (ja_commitment_grid (nb_artifacts B)) gs,
        sr_post_weights = post\<rparr>]\<rparr>"
  then have t: "rs_backend t = B" by simp
  from rest obtain s2 where smp: "sample_shares E p fs 0 t = Inr s2"
    by (auto simp: run_step_def fb bind_ok_Inr Let_def t_def)
  show ?thesis using sample_reads [OF smp assms(2)] forward_backward_Inr(1,2) [OF fb] t by simp
qed

lemma step_indices_0: "steps \<noteq> 0 \<Longrightarrow> \<exists>rest. step_indices steps = 0 # rest"
  by (simp add: step_indices_def unat_gt_0 upt_conv_Cons)

definition bound_result ::
  "('m, 'd, 't) job_env \<Rightarrow> string \<Rightarrow> address \<Rightarrow> files \<Rightarrow> training_job_payload \<Rightarrow> job_artifacts \<Rightarrow> training_job_result \<Rightarrow> bool" where
  "bound_result E store worker fs p A res \<longleftrightarrow>
     map sr_step (tr_steps res) = step_indices (tj_steps p) \<and>
     tr_epoch_root res =
       fst (compute_epoch_root (je_keccak E) (rebuilt_commits (tr_epoch res) worker (tj_model_start_hash p) (tr_steps res))) \<and>
     tr_final_weights res = last_weights (tj_model_start_hash p) (tr_steps res) \<and>
     tr_epoch res = tj_epoch p \<and> tr_worker_shard res = tj_worker_shard p \<and>
     tr_commitment_grid res = grid_str (tj_commitment_grid p) \<and> ja_commitment_grid A = tj_commitment_grid p \<and>
     (\<exists>man. load_manifest (je_nat E) A fs = Inr man \<and> tr_data_quality_raw res = cm_quality man \<and>
        list_all (\<lambda>step. reads_committed E store p fs man step (tj_worker_shard p)) (step_indices (tj_steps p)) \<and>
        (tj_share_every p > 0 \<and> tj_steps p \<noteq> 0 \<longrightarrow> reads_committed E store p fs man 0 0))"

lemma train_resolved_bound:
  assumes hex: "hex_codec (je_hex E)" and A: "ja_manifest_path A = manifest_path (je_hex E) store (tj_dataset_hash p)"
    and run: "train_resolved E worker job p fs A = Inr res"
  shows "bound_result E store worker fs p A res"
proof -
  from run obtain B prev B1 s quality where
    grid: "ja_commitment_grid A = tj_commitment_grid p"
    and B: "nat_backend_new (je_nat E) A (payload_params p) = Inr B"
    and start: "load_starting_weights (je_nat E) B fs (tj_model_start_hash p) = Inr (prev, B1)"
    and steps: "train_steps E worker p fs (step_indices (tj_steps p))
        \<lparr>rs_backend = B1, rs_prev = prev, rs_steps = [], rs_commits = [], rs_zone_l2 = [], rs_trace = [], rs_dead = []\<rparr> = Inr s"
    and quality: "data_quality (je_nat E) (rs_backend s) fs = Inr quality"
    and res: "res = job_result E job p s quality"
    unfolding train_resolved_def bind_ok_Inr by (auto simp: bind_ok_Inr map_sum_Inr_iff split: if_splits)
  have B1: "prev = tj_model_start_hash p" "nb_artifacts B1 = A" "nb_params B1 = payload_params p"
    using B start by (auto simp: nat_backend_new_def load_starting_weights_def map_sum_Inr_iff split: if_splits)
  from train_steps_Inr [OF steps] obtain rs where rs: "map sr_step rs = step_indices (tj_steps p)" "rs_steps s = rs"
    "rs_commits s = rebuilt_commits (tj_epoch p) worker prev rs" "rs_prev s = last_weights prev rs"
    "nb_artifacts (rs_backend s) = A" and reads: "list_all (step_reads E B1 p fs) (step_indices (tj_steps p))"
    using B1 by auto
  obtain man where man: "load_manifest (je_nat E) A fs = Inr man" "quality = cm_quality man"
    using quality rs(5) by (auto simp: data_quality_def map_sum_Inr_iff)
  have committed: "reads_committed E store p fs man step ws"
    if "load_manifest (je_nat E) (nb_artifacts B1) fs = Inr man'"
      "read_and_verify_shards (je_nat E) (nb_artifacts B1) (nb_params B1) fs man' step ws = Inr ds" for step ws man' ds
    using that man(1) B1 read_and_verify_committed [OF hex A] by simp
  have "list_all (\<lambda>step. reads_committed E store p fs man step (tj_worker_shard p)) (step_indices (tj_steps p))"
    using reads by (rule list.pred_mono_strong) (use committed in \<open>auto simp: step_reads_def\<close>)
  moreover have "reads_committed E store p fs man 0 0" if "tj_share_every p > 0" "tj_steps p \<noteq> 0"
    using first_step_samples [of E worker p fs] steps step_indices_0 [OF that(2)] that(1) committed by fastforce
  ultimately show ?thesis
    using rs B1(1) man grid by (auto simp: bound_result_def res job_result_def)
qed

text \<open>C10: A result of a training job is bound to what the job names.  The checkpoint and the manifest on the disk have
  the job's hashes, the grid is the one declared, there is one record per step in order, and the epoch root
  is the root of the commits that the start hash and these records determine, each step's weights those the
  step before it left; every shard a step opened has the fingerprint of the manifest, whose quality is
  reported.\<close>

theorem training_result_is_bound:
  assumes "hex_codec (je_hex E)" and "nat_job_run E R job (fs, m) = (Inr res, fs', m')"
  shows "\<exists>p A. je_payload E (js_payload job) = Inr p \<and> tj_task p = TASK_TRAIN \<and> tr_job res = js_id job \<and>
    resolve (je_keccak E) (je_hex E) (je_sidecar E) (nj_store R) (tj_model_start_hash p) (tj_dataset_hash p) fs' = Inr A \<and>
    hashes_to (je_keccak E) fs' (weights_path (je_hex E) (nj_store R) (tj_model_start_hash p)) (tj_model_start_hash p) \<and>
    hashes_to (je_keccak E) fs' (manifest_path (je_hex E) (nj_store R) (tj_dataset_hash p)) (tj_dataset_hash p) \<and>
    bound_result E (nj_store R) (nj_worker R) fs' p A res"
proof -
  from assms(2) obtain p where p: "je_payload E (js_payload job) = Inr p" "tj_task p = TASK_TRAIN"
    and run: "bind_ok (map_sum (\<lambda>e. ArtifactsMissing (NotResolved e)) id
        (resolve (je_keccak E) (je_hex E) (je_sidecar E) (nj_store R) (tj_model_start_hash p) (tj_dataset_hash p) fs'))
      (train_resolved E (nj_worker R) job p fs') = Inr res"
    by (auto simp: nat_job_run_def split: sum.splits if_splits prod.splits)
  then obtain A where A: "resolve (je_keccak E) (je_hex E) (je_sidecar E) (nj_store R) (tj_model_start_hash p) (tj_dataset_hash p) fs' = Inr A"
    and tr: "train_resolved E (nj_worker R) job p fs' A = Inr res" by (auto simp: bind_ok_Inr map_sum_Inr_iff)
  have "tr_job res = js_id job"
    using tr by (auto simp: train_resolved_def bind_ok_Inr job_result_def split: if_splits)
  then show ?thesis
    using p A resolve_Inr [OF A] train_resolved_bound [OF assms(1) resolve_Inr(3) [OF A] tr] by blast
qed

section \<open>Dead zones\<close>

definition at_floor :: "('m, 'd, 't) nat_ops \<Rightarrow> string \<Rightarrow> share_sample \<Rightarrow> bool" where
  "at_floor N z smp \<longleftrightarrow> (case map_of (sh_shares smp) z of Some x \<Rightarrow> no_at_floor N x (no_floor_share N) | None \<Rightarrow> False)"

text \<open>How many samples in a row, up to the last, had a zone at the floor.\<close>

definition floor_run :: "('m, 'd, 't) nat_ops \<Rightarrow> string \<Rightarrow> share_sample list \<Rightarrow> nat" where
  "floor_run N z tr = length (takeWhile (at_floor N z) (rev tr))"

lemma floor_run_snoc: "floor_run N z (tr @ [smp]) = (if at_floor N z smp then Suc (floor_run N z tr) else 0)"
  by (simp add: floor_run_def)

definition dead_count :: "(string, u32) btree \<Rightarrow> string \<Rightarrow> u32" where
  "dead_count runs z = (case bt_get runs z of Some n \<Rightarrow> n | None \<Rightarrow> 0)"

lemma dead_count_insert [simp]: "dead_count (bt_insert k n runs) z = (if z = k then n else dead_count runs z)"
  by (simp add: dead_count_def)

lemma count_dead_Cons:
  assumes "count_dead N patience step ((zone, share) # rest) runs = Inr runs'"
  defines "run \<equiv> (if no_at_floor N share (no_floor_share N) then dead_count runs zone + 1 else 0)"
  shows "run < patience" "count_dead N patience step rest (bt_insert zone run runs) = Inr runs'"
  using assms(1) unfolding run_def dead_count_def by (auto simp: Let_def not_le split: if_splits)

lemma count_dead_Inr:
  assumes "count_dead N patience step shares runs = Inr runs'" and "distinct (map fst shares)"
  shows "dead_count runs' z =
      (case map_of shares z of
         None \<Rightarrow> dead_count runs z
       | Some x \<Rightarrow> if no_at_floor N x (no_floor_share N) then dead_count runs z + 1 else 0) \<and>
    (map_of shares z \<noteq> None \<longrightarrow> dead_count runs' z < patience)"
  using assms
proof (induction shares arbitrary: runs)
  case (Cons e rest)
  obtain zone share where e: "e = (zone, share)" by (cases e)
  let ?run = "if no_at_floor N share (no_floor_share N) then dead_count runs zone + 1 else 0"
  note c = count_dead_Cons [OF Cons.prems(1) [unfolded e]]
  have ih: "dead_count runs' z =
      (case map_of rest z of
         None \<Rightarrow> dead_count (bt_insert zone ?run runs) z
       | Some x \<Rightarrow> if no_at_floor N x (no_floor_share N) then dead_count (bt_insert zone ?run runs) z + 1 else 0) \<and>
    (map_of rest z \<noteq> None \<longrightarrow> dead_count runs' z < patience)"
    by (rule Cons.IH [OF c(2)]) (use Cons.prems(2) in \<open>simp add: e\<close>)
  show ?case
  proof (cases "z = zone")
    case True
    then have "map_of rest z = None" using Cons.prems(2) by (simp add: e map_of_eq_None_iff)
    then show ?thesis using ih c(1) True by (simp add: e)
  next
    case False
    then have m: "map_of ((zone, share) # rest) z = map_of rest z"
      and d: "dead_count (bt_insert zone ?run runs) z = dead_count runs z" by simp_all
    from ih show ?thesis unfolding e m d .
  qed
qed simp

text \<open>The invariant of the steps: a counter is at least the run of its zone and below the limit, and no run seen so far
  reached it.\<close>

definition zones_alive :: "('m, 'd, 't) nat_ops \<Rightarrow> u32 \<Rightarrow> share_sample list \<Rightarrow> bool" where
  "zones_alive N patience tr \<longleftrightarrow> (\<forall>z n. floor_run N z (take n tr) = 0 \<or> floor_run N z (take n tr) < unat patience)"

definition counters_ok :: "('m, 'd, 't) nat_ops \<Rightarrow> u32 \<Rightarrow> share_sample list \<Rightarrow> (string, u32) btree \<Rightarrow> bool" where
  "counters_ok N patience tr runs \<longleftrightarrow>
     zones_alive N patience tr \<and>
     (\<forall>z. floor_run N z tr \<le> unat (dead_count runs z) \<and> (dead_count runs z = 0 \<or> dead_count runs z < patience))"

lemma zones_alive_snoc:
  assumes "zones_alive N patience tr" "\<And>z. floor_run N z (tr @ [smp]) = 0 \<or> floor_run N z (tr @ [smp]) < unat patience"
  shows "zones_alive N patience (tr @ [smp])"
  unfolding zones_alive_def
proof (intro allI)
  fix z n
  show "floor_run N z (take n (tr @ [smp])) = 0 \<or> floor_run N z (take n (tr @ [smp])) < unat patience"
  proof (cases "n \<le> length tr")
    case True
    then show ?thesis using assms(1) by (simp add: zones_alive_def)
  next
    case False
    then show ?thesis using assms(2) by simp
  qed
qed

lemma counters_step:
  assumes ok: "counters_ok N patience tr runs" and dead: "count_dead N patience step shares runs = Inr runs'"
    and d: "distinct (map fst shares)"
  shows "counters_ok N patience (tr @ [\<lparr>sh_step = step, sh_shares = shares\<rparr>]) runs'"
proof -
  let ?smp = "\<lparr>sh_step = step, sh_shares = shares\<rparr>"
  have each: "floor_run N z (tr @ [?smp]) \<le> unat (dead_count runs' z) \<and> (dead_count runs' z = 0 \<or> dead_count runs' z < patience)" for z
  proof (cases "map_of shares z")
    case None
    then show ?thesis
      using ok count_dead_Inr [OF dead d, of z] by (simp add: counters_ok_def floor_run_snoc at_floor_def)
  next
    case (Some x)
    have low: "dead_count runs z = 0 \<or> dead_count runs z < patience" and run: "floor_run N z tr \<le> unat (dead_count runs z)"
      using ok by (simp_all add: counters_ok_def)
    have pos: "dead_count runs' z < patience" using conjunct2 [OF count_dead_Inr [OF dead d, of z]] Some by blast
    have "unat (dead_count runs z + 1) = unat (dead_count runs z) + 1"
    proof (cases "dead_count runs z = 0")
      case False
      with low have "unat (dead_count runs z) < unat patience" by (simp add: word_less_nat_alt)
      then show ?thesis using unsigned_less [of patience, where ?'a = nat] by (simp add: unat_word_ariths)
    qed simp
    then show ?thesis
      using count_dead_Inr [OF dead d, of z] Some run pos by (simp add: floor_run_snoc at_floor_def)
  qed
  have "floor_run N z (tr @ [?smp]) = 0 \<or> floor_run N z (tr @ [?smp]) < unat patience" for z
    using each [of z] by (auto simp: word_less_nat_alt)
  then show ?thesis using each ok zones_alive_snoc [of N patience tr ?smp] by (simp add: counters_ok_def)
qed

lemma zone_shares_distinct: "zone_shares N B fs = Inr (Some shares) \<Longrightarrow> distinct (map fst shares)"
proof -
  assume "zone_shares N B fs = Inr (Some shares)"
  then obtain w where "shares = zip LEARNED_ZONES w" by (auto simp: zone_shares_def bind_ok_Inr)
  moreover have "distinct LEARNED_ZONES" by (simp add: LEARNED_ZONES_def)
  ultimately show ?thesis by (simp add: map_fst_zip_take distinct_take)
qed

lemma sample_counters:
  assumes "sample_shares E p fs step s = Inr s'" "counters_ok (je_nat E) (tj_dead_zone_patience p) (rs_trace s) (rs_dead s)"
  shows "counters_ok (je_nat E) (tj_dead_zone_patience p) (rs_trace s') (rs_dead s')"
  using assms zone_shares_distinct counters_step
  by (fastforce simp: sample_shares_def bind_ok_Inr map_sum_Inr_iff split: if_splits option.splits)

lemma steps_counters:
  assumes "train_steps E worker p fs steps s = Inr s'" "counters_ok (je_nat E) (tj_dead_zone_patience p) (rs_trace s) (rs_dead s)"
  shows "counters_ok (je_nat E) (tj_dead_zone_patience p) (rs_trace s') (rs_dead s')"
  using assms
proof (induction steps arbitrary: s)
  case (Cons step rest)
  then obtain s1 where s1: "run_step E worker p fs step s = Inr s1" and rest: "train_steps E worker p fs rest s1 = Inr s'"
    by (auto simp: bind_ok_Inr)
  have "counters_ok (je_nat E) (tj_dead_zone_patience p) (rs_trace s1) (rs_dead s1)"
    using s1 Cons.prems(2) by (auto simp: run_step_def bind_ok_Inr map_sum_Inr_iff Let_def dest!: sample_counters)
  then show ?case by (rule Cons.IH [OF rest])
qed simp

text \<open>In a result that is handed back no zone ever sat at the floor for as many samples in a row as the job allows.\<close>

theorem no_dead_zone_in_result:
  assumes "nat_job_run E R job s = (Inr res, s')" "je_payload E (js_payload job) = Inr p"
  shows "zones_alive (je_nat E) (tj_dead_zone_patience p) (tr_share_trace res)"
proof -
  from assms obtain A where "train_resolved E (nj_worker R) job p (fst s') A = Inr res"
    by (auto simp: nat_job_run_def bind_ok_Inr split: sum.splits if_splits prod.splits)
  then obtain B1 prev st quality where
    steps: "train_steps E (nj_worker R) p (fst s') (step_indices (tj_steps p))
        \<lparr>rs_backend = B1, rs_prev = prev, rs_steps = [], rs_commits = [], rs_zone_l2 = [], rs_trace = [], rs_dead = []\<rparr> = Inr st"
    and res: "res = job_result E job p st quality"
    unfolding train_resolved_def bind_ok_Inr by (auto simp: bind_ok_Inr split: if_splits)
  have "counters_ok (je_nat E) (tj_dead_zone_patience p) [] []"
    by (simp add: counters_ok_def zones_alive_def floor_run_def dead_count_def)
  then show ?thesis
    using steps_counters [OF steps] by (simp add: res job_result_def counters_ok_def)
qed

section \<open>Examples\<close>

definition job_ex_nat :: "(unit, unit, unit) nat_ops" where
  "job_ex_nat =
     \<lparr>no_new = (\<lambda>_. Inr ()), no_load = (\<lambda>_ _ _. Inr ()), no_parameters = (\<lambda>_. Inr [(''readout'', [0])]),
      no_on_cpu = (\<lambda>_. True), no_windows = (\<lambda>_ _ _ _. Inr ()), no_train = (\<lambda>_ _ _ _ _ _. Inr ()),
      no_merge_weights = (\<lambda>_ _. Inr [1, 1, 1, 1, 1]),
      no_manifest = (\<lambda>_. Inr \<lparr>cm_shards = [\<lparr>sm_index = 0, sm_provenance = 7\<rparr>], cm_quality = 5\<rparr>),
      no_shard = (\<lambda>_. Inr ()), no_provenance = (\<lambda>_. 7), no_floor_share = 0, no_at_floor = (\<lambda>_ _. False)\<rparr>"

definition job_ex_payload :: training_job_payload where
  "job_ex_payload =
     \<lparr>tj_task = ''train'', tj_model_start_hash = 1, tj_dataset_hash = 1, tj_commitment_grid = GridQ16, tj_epoch = 0,
      tj_steps = 1, tj_worker_shard = 0, tj_batch_size = 1, tj_learning_rate = 0, tj_max_windows = 1,
      tj_shards_per_step = 1, tj_seed = 0, tj_share_every = 1, tj_dead_zone_patience = 1\<rparr>"

definition job_ex_env :: "(unit, unit, unit) job_env" where
  "job_ex_env =
     \<lparr>je_keccak = (\<lambda>_. 1), je_hex = lower_hex, je_sidecar = (\<lambda>_. Inr (JObj [(''architecture'', JStr ''nat-zone'')])),
      je_payload = (\<lambda>_. Inr job_ex_payload), je_nat = job_ex_nat, je_grad = zone_ex_ops,
      je_faults = (\<lambda>_. \<lparr>wf_mkdir = None, wf_write = None, wf_rename = None, wf_remove = False\<rparr>), je_seconds = 0\<rparr>"

definition job_ex_mirror :: "unit mirror" where
  "job_ex_mirror q m = (Inr \<lparr>ha_status = 200, ha_length = None, ha_body = [Inr []]\<rparr>, ())"

definition job_ex_runner :: "unit nat_job_runner" where
  "job_ex_runner =
     \<lparr>nj_store = ''store'', nj_worker = 9,
      nj_mirror = Some job_ex_mirror\<rparr>"

text \<open>The two hashed files are there; nothing else exists yet.\<close>

definition job_ex_files :: files where
  "job_ex_files = \<lparr>fs_read = (\<lambda>_. Inr []), fs_len = (\<lambda>_. Inr 0), fs_exists = (\<lambda>_. False)\<rparr>"

definition job_ex_job :: job_spec where
  "job_ex_job = new_job_spec ''job-1'' H01 JNull"

definition job_ex_by_hand :: "unit nat_job_runner" where
  "job_ex_by_hand = job_ex_runner\<lparr>nj_mirror := None\<rparr>"

lemmas job_ex_defs = job_ex_env_def job_ex_nat_def job_ex_payload_def job_ex_files_def

lemma job_ex_shards: "shard_slice_for (Suc 0) 1 step ws = [0]"
  by (simp add: shard_slice_for_def Let_def)

lemma job_ex_indices: "step_indices 1 = [0]"
  by (simp add: step_indices_def)

lemma job_ex_deltas: "zone_deltas zone_ex_ops [(''readout'', [0])] [(''readout'', [0])] = Inr [\<lparr>zd_zone = SHARED, zd_values = [0]\<rparr>]"
  by code_simp

lemma job_ex_text: "read_to_string job_ex_files q = Inr ''''"
  by (simp add: read_to_string_def job_ex_files_def)

lemma job_ex_resolve:
  "\<exists>A. resolve (\<lambda>_. 1) lower_hex (\<lambda>_. Inr (JObj [(''architecture'', JStr ''nat-zone'')])) ''store'' 1 1 job_ex_files = Inr A \<and>
     ja_architecture A = ZonePartitioned \<and> ja_commitment_grid A = GridQ16 \<and> ja_shape A = default_shape \<and>
     ja_model_start_hash A = 1 \<and> ja_manifest_path A = manifest_path lower_hex ''store'' 1"
  by (simp add: resolve_def bind_ok_def verify_file_def read_architecture_def read_commitment_grid_def read_model_shape_def
      sidecar_doc_def job_ex_text shape_num_def default_shape_def, simp add: job_ex_files_def)

lemma job_ex_run: "\<exists>res. nat_job_run job_ex_env job_ex_by_hand job_ex_job (job_ex_files, ()) = (Inr res, job_ex_files, ())"
proof -
  obtain A where A: "resolve (\<lambda>_. 1) lower_hex (\<lambda>_. Inr (JObj [(''architecture'', JStr ''nat-zone'')])) ''store'' 1 1 job_ex_files = Inr A"
    "ja_architecture A = ZonePartitioned" "ja_commitment_grid A = GridQ16" "ja_shape A = default_shape"
    "ja_model_start_hash A = 1" "ja_manifest_path A = manifest_path lower_hex ''store'' 1"
    using job_ex_resolve by blast
  have man: "load_manifest job_ex_nat A job_ex_files = Inr \<lparr>cm_shards = [\<lparr>sm_index = 0, sm_provenance = 7\<rparr>], cm_quality = 5\<rparr>"
    by (simp add: load_manifest_def job_ex_text job_ex_nat_def bind_ok_def)
  have reads: "read_and_verify_shards job_ex_nat A (payload_params job_ex_payload) job_ex_files
      \<lparr>cm_shards = [\<lparr>sm_index = 0, sm_provenance = 7\<rparr>], cm_quality = 5\<rparr> step ws = Inr [()]" for step ws
    by (simp add: read_and_verify_shards_def payload_params_def job_ex_payload_def job_ex_shards read_shard_def A(6)
        lower.manifest_dir job_ex_text Let_def bind_ok_def, simp add: job_ex_nat_def)
  let ?B = "\<lparr>nb_artifacts = A, nb_params = payload_params job_ex_payload, nb_model = Zone ()\<rparr>"
  have new: "nat_backend_new job_ex_nat A (payload_params job_ex_payload) = Inr ?B"
    by (simp add: nat_backend_new_def build_model_def dtype_of_def A default_shape_def bind_ok_def job_ex_nat_def)
  have start: "load_starting_weights job_ex_nat ?B job_ex_files 1 = Inr (1, ?B)"
    by (simp add: load_starting_weights_def A model_load_def job_ex_nat_def)
  have fb: "\<exists>gs post. forward_backward K zone_ex_ops job_ex_nat ?B job_ex_files 0 0 0 = Inr ((gs, post), ?B)" for K
    by (simp add: forward_backward_def man reads bind_ok_def lift_lib_def, simp add: job_ex_nat_def train_one_pass_def job_ex_deltas)
  have shares: "zone_shares job_ex_nat ?B job_ex_files = Inr (Some (zip LEARNED_ZONES [1, 1, 1, 1, 1]))"
    by (simp add: zone_shares_def man reads bind_ok_def lift_lib_def, simp add: job_ex_nat_def zone_merge_weights_def)
  have dead: "\<exists>runs. count_dead job_ex_nat 1 0 (zip LEARNED_ZONES [1, 1, 1, 1, 1]) [] = Inr runs"
    by (simp add: LEARNED_ZONES_def job_ex_nat_def Let_def)
  obtain gs post where fb': "forward_backward (\<lambda>_. 1) zone_ex_ops job_ex_nat ?B job_ex_files 0 0 0 = Inr ((gs, post), ?B)"
    using fb by blast
  obtain runs where dead': "count_dead job_ex_nat 1 0 (zip LEARNED_ZONES [1, 1, 1, 1, 1]) [] = Inr runs" using dead by blast
  have E: "je_keccak job_ex_env = (\<lambda>_. 1)" "je_grad job_ex_env = zone_ex_ops" "je_nat job_ex_env = job_ex_nat"
    "je_hex job_ex_env = lower_hex" "je_sidecar job_ex_env = (\<lambda>_. Inr (JObj [(''architecture'', JStr ''nat-zone'')]))"
    by (simp_all add: job_ex_env_def)
  have P: "tj_epoch job_ex_payload = 0" "tj_worker_shard job_ex_payload = 0" "tj_share_every job_ex_payload = 1"
    "tj_dead_zone_patience job_ex_payload = 1" "tj_steps job_ex_payload = 1" "tj_commitment_grid job_ex_payload = GridQ16"
    "tj_model_start_hash job_ex_payload = 1" "tj_dataset_hash job_ex_payload = 1" "tj_task job_ex_payload = TASK_TRAIN"
    by (simp_all add: job_ex_payload_def TASK_TRAIN_def)
  have "\<exists>s. train_steps job_ex_env 9 job_ex_payload job_ex_files [0]
      \<lparr>rs_backend = ?B, rs_prev = 1, rs_steps = [], rs_commits = [], rs_zone_l2 = [], rs_trace = [], rs_dead = []\<rparr> = Inr s \<and>
      rs_backend s = ?B"
    by (simp add: run_step_def sample_shares_def E P fb' shares dead' bind_ok_def Let_def)
  then obtain st where st: "train_steps job_ex_env 9 job_ex_payload job_ex_files [0]
      \<lparr>rs_backend = ?B, rs_prev = 1, rs_steps = [], rs_commits = [], rs_zone_l2 = [], rs_trace = [], rs_dead = []\<rparr> = Inr st"
    "rs_backend st = ?B" by blast
  have "train_resolved job_ex_env 9 job_ex_job job_ex_payload job_ex_files A = Inr (job_result job_ex_env job_ex_job job_ex_payload st 5)"
    by (simp add: train_resolved_def E P A(3) new start honors_job_spec_def job_ex_indices st data_quality_def man
        del: train_steps.simps)
  moreover have "je_payload job_ex_env x = Inr job_ex_payload" for x by (simp add: job_ex_env_def)
  moreover have "nj_mirror job_ex_by_hand = None" "nj_store job_ex_by_hand = ''store''" "nj_worker job_ex_by_hand = 9"
    by (simp_all add: job_ex_by_hand_def job_ex_runner_def)
  ultimately show ?thesis by (simp add: nat_job_run_def stage_def E P A(1) bind_ok_def)
qed

lemma training_result_is_bound_witness:
  "\<exists>res p A. nat_job_run job_ex_env job_ex_by_hand job_ex_job (job_ex_files, ()) = (Inr res, job_ex_files, ()) \<and>
     bound_result job_ex_env ''store'' 9 job_ex_files p A res"
proof -
  have hex: "hex_codec (je_hex job_ex_env)" using lower.hex_codec_axioms by (simp add: job_ex_env_def)
  from job_ex_run obtain res where "nat_job_run job_ex_env job_ex_by_hand job_ex_job (job_ex_files, ()) = (Inr res, job_ex_files, ())" ..
  with training_result_is_bound [OF hex this] show ?thesis
    by (auto simp: job_ex_by_hand_def job_ex_runner_def)
qed

lemma no_dead_zone_in_result_witness:
  "\<exists>res. nat_job_run job_ex_env job_ex_by_hand job_ex_job (job_ex_files, ()) = (Inr res, job_ex_files, ()) \<and>
     zones_alive job_ex_nat 1 (tr_share_trace res)"
proof -
  from job_ex_run obtain res where run: "nat_job_run job_ex_env job_ex_by_hand job_ex_job (job_ex_files, ()) = (Inr res, job_ex_files, ())" ..
  have "je_payload job_ex_env (js_payload job_ex_job) = Inr job_ex_payload" by (simp add: job_ex_env_def)
  from no_dead_zone_in_result [OF run this] run show ?thesis
    by (auto simp: job_ex_env_def job_ex_payload_def)
qed

lemma job_ex_get: "mirror_get job_ex_mirror q m = (Inr [], ())"
  by (simp add: mirror_get_def fetch_capped_def job_ex_mirror_def)

lemma job_ex_write:
  assumes "has_parent q"
  shows "write_atomic (je_faults job_ex_env q) q bs fs = (Inr (), write_file q bs (remove_file (with_extension ''partial'' q) (write_file (with_extension ''partial'' q) bs fs)))"
  using assms by (simp add: write_atomic_def replace_file_def job_ex_env_def Let_def)

lemma job_ex_stage: "fst (stage job_ex_env job_ex_runner job_ex_payload (job_ex_files, ())) = Inr ()"
proof -
  have E: "je_keccak job_ex_env = (\<lambda>_. 1)" "je_nat job_ex_env = job_ex_nat" "je_hex job_ex_env = lower_hex"
    by (simp_all add: job_ex_env_def)
  have R: "nj_mirror job_ex_runner = Some job_ex_mirror" "nj_store job_ex_runner = ''store''" by (simp_all add: job_ex_runner_def)
  have P: "tj_model_start_hash job_ex_payload = 1" "tj_dataset_hash job_ex_payload = 1" by (simp_all add: job_ex_payload_def)
  have skip: "fetch_verified (\<lambda>_. 1) job_ex_mirror w rel dest 1 (job_ex_files, ()) = (Inr False, job_ex_files, ())" for w rel dest
    by (simp add: fetch_verified_def job_ex_files_def)
  have parents: "has_parent (sidecar_path lower_hex ''store'' 1)" "has_parent (shard_path lower_hex ''store'' 1 0)"
    by (auto simp: has_parent_def lower.store_paths)
  let ?q = "sidecar_path lower_hex ''store'' 1"
  define fs3 where "fs3 = write_file ?q [] (remove_file (with_extension ''partial'' ?q) (write_file (with_extension ''partial'' ?q) [] job_ex_files))"
  have "\<not> fs_exists job_ex_files ?q" by (simp add: job_ex_files_def)
  then have side: "stage_sidecar job_ex_env ''store'' job_ex_mirror (model_path lower_hex 1 ''sidecar.nat.json'') (job_ex_files, ()) = (fs3, ())"
    unfolding stage_sidecar_def using parents(1) by (simp add: lower.staged_dests job_ex_get job_ex_write fs3_def)
  have fs3: "fs_read fs3 (manifest_path lower_hex ''store'' 1) = Inr []"
    using lower.paths_apart(5) [of "''store''" 1 1] by (simp add: fs3_def touched_def, simp add: job_ex_files_def)
  have man: "staged_manifest job_ex_env ''store'' 1 fs3 = Inr \<lparr>cm_shards = [\<lparr>sm_index = 0, sm_provenance = 7\<rparr>], cm_quality = 5\<rparr>"
    by (simp add: staged_manifest_def E read_to_string_def fs3, simp add: job_ex_nat_def)
  have wanted: "wanted_shards \<lparr>cm_shards = [\<lparr>sm_index = 0, sm_provenance = 7\<rparr>], cm_quality = 5\<rparr> job_ex_payload = [0]"
    by (simp add: wanted_shards_def job_ex_payload_def job_ex_indices job_ex_shards)
  show ?thesis
    using parents(2)
    by (simp add: stage_def E R P skip side man wanted lower.staged_dests job_ex_get job_ex_write Let_def)
qed

lemma stage_exact_witness:
  "case stage job_ex_env job_ex_runner job_ex_payload (job_ex_files, ()) of
     (r, fs', _) \<Rightarrow> r = Inr () \<and> staged job_ex_env ''store'' job_ex_payload fs'"
proof -
  have hex: "hex_codec (je_hex job_ex_env)" using lower.hex_codec_axioms by (simp add: job_ex_env_def)
  obtain r fs' m' where st: "stage job_ex_env job_ex_runner job_ex_payload (job_ex_files, ()) = (r, fs', m')" by (rule prod_cases3)
  obtain get where get: "nj_mirror job_ex_runner = Some get" by (simp add: job_ex_runner_def)
  have "r = Inr ()" using job_ex_stage st by simp
  with stage_exact [OF hex get st] st show ?thesis by (simp add: job_ex_runner_def)
qed

section \<open>Where the code does not do what it says\<close>

text \<open>The shares of the zones are measured on the slice of step 0 of worker shard 0, which is not what another worker has
  staged: of ten shards, two a step, worker shard 1 stages 9 and 0 for its first step and the sample after it opens 0 and 1.\<close>

lemma sample_reads_unstaged_shards:
  "shard_slice_for 10 2 0 1 = [9, 0]" "shard_slice_for 10 2 0 0 = [0, 1]"
  by (simp_all add: shard_slice_for_def slice_offset_def Let_def upt_rec)

text \<open>Two workers may read the same slice, and two workers with the same slice may draw it in the same order.\<close>

lemma slices_not_disjoint: "shard_slice_for 2 1 0 0 = [0]" "shard_slice_for 2 1 0 2 = [0]"
  by (simp_all add: shard_slice_for_def slice_offset_def Let_def)

lemma shuffle_seeds_collide: "shuffle_seed 0 1 65537 = shuffle_seed 0 1 1"
  by (simp add: shuffle_seed_def)

text \<open>A patience of zero ends the run at the first sample, with the share of a healthy zone in the error.\<close>

lemma zero_patience_calls_any_zone_dead:
  "\<exists>run. count_dead N 0 step ((z, share) # rest) runs = Inl (DeadZone z share (no_floor_share N) run step)"
  by (simp add: Let_def)

text \<open>A grid that is there but not a string is taken as the default.\<close>

lemma grid_of_another_type_is_ignored:
  "read_commitment_grid (\<lambda>_. Inr (JObj [(''commitment_grid'', JInt 2)])) job_ex_files q = Inr GridQ16"
  "read_architecture (\<lambda>_. Inr (JObj [(''architecture'', JInt 2)])) job_ex_files q = Inr Dense"
  by (simp_all add: read_commitment_grid_def read_architecture_def sidecar_doc_def job_ex_text bind_ok_def)

end
