(* ===== verification/Fl_Dataset.thy ===== *)
theory Fl_Dataset
  imports Fl_Runner BTree
begin

text \<open>
  The conversion of a member's verified export into the rows the trainer reads, \<^verbatim>\<open>training-worker/src/fl/dataset.rs\<close>.
  The JSON readers and writers, SHA-256 and the Unicode tables of the standard library are parameters
  (\<open>dataset_env\<close>); a character is the text of its bytes.
\<close>

definition ROW_FORMAT :: string where "ROW_FORMAT = ''citrate-fl-sft-v1''"
definition TOOL_SCHEMA :: string where "TOOL_SCHEMA = ''parity-v1''"
definition SOURCE_HERMES :: string where "SOURCE_HERMES = ''hermes-verified''"
definition HELDOUT_FORMAT :: string where "HELDOUT_FORMAT = ''citrate-heldout-v1''"

definition PARITY_V1_TOOLS :: "string list" where
  "PARITY_V1_TOOLS =
     [''memory_search'', ''memory_recall'', ''app_navigate'', ''memory_assert'', ''journal_append'', ''journal_read'',
      ''node_status'', ''staking_status'', ''groups_list'', ''group_roster'', ''group_create'', ''group_invite'',
      ''directory_find'', ''skills_list'', ''skill_write'', ''skill_run'', ''widget_create'', ''models_list'',
      ''contract_deploy'', ''get_verified_source'', ''contract_view'', ''fl_round_plan'', ''fl_round_start'',
      ''belnap_codec'', ''gsheets_read'', ''gsheets_append'', ''schedule_list'', ''schedule_add'', ''calendar_list'']"

datatype manifest_error =
    ManifestJson string
  | ManifestFormat string
  | ManifestCount u64 nat
  | ManifestItem string hex_error

datatype dataset_error =
    ExportNotUtf8
  | BadLine nat bad_line
  | Manifest manifest_error
  | Serialize string
and bad_line = LineJson string | NoMessages | BadRole string | NotFromMember | NoVerifier

section \<open>Data\<close>

record tool_call =
  tc_id :: string
  tc_kind :: string
  tc_name :: string
  tc_arguments :: string

record message =
  mg_role :: string
  mg_content :: string
  mg_tool_calls :: "tool_call list"
  mg_tool_call_id :: "string option"

record export_meta =
  em_model :: string
  em_workflow :: "string option"
  em_step :: "string option"
  em_verifiers :: "string list"

record export_line =
  el_messages :: "message list"
  el_metadata :: export_meta

record row_meta = export_meta +
  rm_format :: string
  rm_tool_schema :: string
  rm_source :: string
  rm_split :: string
  rm_example_id :: string

record trainer_row =
  tw_messages :: "message list"
  tw_tools :: "string list"
  tw_metadata :: row_meta

record manifest_item =
  mi_id :: string
  mi_sha256 :: string

record manifest_file =
  mf_format :: string
  mf_dataset :: string
  mf_count :: u64
  mf_items :: "manifest_item list"

record held_out =
  ho_dataset :: string
  ho_hashes :: "b256 list"

record excluded =
  xc_held_out :: u64
  xc_off_schema :: u64
  xc_bad_arguments :: u64
  xc_unpaired :: u64
  xc_duplicate :: u64

record convert_report =
  rp_format :: string
  rp_held_out_dataset :: string
  rp_held_out_items :: u64
  rp_read :: u64
  rp_written :: u64
  rp_excluded :: excluded
  rp_tool_calls :: "(string, u64) btree"

record dataset_env =
  de_sha256 :: "bytes \<Rightarrow> b256"
  de_hex :: codec
  de_lowercase :: "string \<Rightarrow> string"
  de_chars :: "string \<Rightarrow> string list"
  de_alphanumeric :: "string \<Rightarrow> bool"
  de_manifest :: "string \<Rightarrow> string + manifest_file"
  de_line :: "string \<Rightarrow> string + export_line"
  de_value :: "string \<Rightarrow> string + json"
  de_messages_json :: "message list \<Rightarrow> string + string"
  de_row_json :: "trainer_row \<Rightarrow> string + string"

section \<open>Held-out prompts\<close>

text \<open>After the mapping, a space is the only white space there is.\<close>

fun join_spaces :: "string list \<Rightarrow> string" where
  "join_spaces [] = ''''"
| "join_spaces [w] = w"
| "join_spaces (w # ws) = w @ '' '' @ join_spaces ws"

definition normalize_prompt :: "dataset_env \<Rightarrow> string \<Rightarrow> string" where
  "normalize_prompt D s =
     (let mapped = concat (map (\<lambda>c. if de_alphanumeric D c then c else '' '') (de_chars D (de_lowercase D s)))
      in join_spaces (filter (\<lambda>w. w \<noteq> []) (split_on CHR '' '' mapped)))"

definition held_out_parse :: "dataset_env \<Rightarrow> string \<Rightarrow> dataset_error + held_out" where
  "held_out_parse D s =
     bind_ok (map_sum (\<lambda>e. Manifest (ManifestJson e)) id (de_manifest D s)) (\<lambda>m.
     if mf_format m \<noteq> HELDOUT_FORMAT then Inl (Manifest (ManifestFormat (mf_format m)))
     else if unat (mf_count m) \<noteq> length (mf_items m) \<or> mf_items m = []
       then Inl (Manifest (ManifestCount (mf_count m) (length (mf_items m))))
     else
       bind_ok (map_ok (\<lambda>it. map_sum (\<lambda>e. Manifest (ManifestItem (mi_id it) e)) from_be_bytes
                               (parse_hex (de_hex D) 32 (mi_sha256 it))) (mf_items m)) (\<lambda>hs.
         Inr \<lparr>ho_dataset = mf_dataset m, ho_hashes = sort (remdups hs)\<rparr>))"

definition contains_prompt :: "dataset_env \<Rightarrow> held_out \<Rightarrow> string \<Rightarrow> bool" where
  "contains_prompt D held text \<longleftrightarrow> de_sha256 D (str_bytes (normalize_prompt D text)) \<in> set (ho_hashes held)"

section \<open>Verdicts\<close>

datatype line_verdict = Keep | HeldOut | OffSchema | BadArguments | Unpaired

definition all_calls :: "message list \<Rightarrow> tool_call list" where
  "all_calls ms = concat (map mg_tool_calls ms)"

definition json_object :: "dataset_env \<Rightarrow> string \<Rightarrow> bool" where
  "json_object D s = (case de_value D s of Inr (JObj _) \<Rightarrow> True | _ \<Rightarrow> False)"

definition tool_results :: "message list \<Rightarrow> message list" where
  "tool_results ms = filter (\<lambda>m. mg_role m = ''tool'') ms"

definition judge_messages :: "dataset_env \<Rightarrow> held_out \<Rightarrow> message list \<Rightarrow> line_verdict" where
  "judge_messages D held ms =
     (if list_ex (\<lambda>m. mg_role m = ''user'' \<and> contains_prompt D held (mg_content m)) ms then HeldOut
      else if list_ex (\<lambda>c. tc_name c \<notin> set PARITY_V1_TOOLS) (all_calls ms) then OffSchema
      else if list_ex (\<lambda>c. \<not> json_object D (tc_arguments c)) (all_calls ms) then BadArguments
      else
        let call_ids = remdups (map tc_id (all_calls ms));
            answered = List.map_filter mg_tool_call_id (tool_results ms)
        in if set answered \<noteq> set call_ids \<or> length (tool_results ms) \<noteq> length call_ids then Unpaired else Keep)"

definition check_line :: "nat \<Rightarrow> export_line \<Rightarrow> dataset_error + unit" where
  "check_line n ex =
     (if el_messages ex = [] then Inl (BadLine n NoMessages)
      else
        case find (\<lambda>m. \<not> export_role (mg_role m)) (el_messages ex) of
          Some m \<Rightarrow> Inl (BadLine n (BadRole (mg_role m)))
        | None \<Rightarrow>
            if mg_role (hd (el_messages ex)) \<noteq> ''user'' then Inl (BadLine n NotFromMember)
            else if em_verifiers (el_metadata ex) = [] then Inl (BadLine n NoVerifier)
            else Inr ())"

section \<open>The conversion\<close>

record converting =
  cv_report :: convert_report
  cv_seen :: "b256 list"
  cv_rows :: "trainer_row list"

definition exclude :: "(excluded \<Rightarrow> excluded) \<Rightarrow> converting \<Rightarrow> converting" where
  "exclude f s = s\<lparr>cv_report := (cv_report s)\<lparr>rp_excluded := f (rp_excluded (cv_report s))\<rparr>\<rparr>"

definition count_calls :: "message list \<Rightarrow> (string, u64) btree \<Rightarrow> (string, u64) btree" where
  "count_calls ms t =
     foldl (\<lambda>t c. bt_insert (tc_name c) ((case bt_get t (tc_name c) of Some n \<Rightarrow> n | None \<Rightarrow> 0) + 1) t) t (all_calls ms)"

definition make_row :: "dataset_env \<Rightarrow> export_line \<Rightarrow> b256 \<Rightarrow> trainer_row" where
  "make_row D ex i =
     \<lparr>tw_messages = el_messages ex, tw_tools = PARITY_V1_TOOLS,
      tw_metadata =
        \<lparr>em_model = em_model (el_metadata ex), em_workflow = em_workflow (el_metadata ex),
         em_step = em_step (el_metadata ex), em_verifiers = em_verifiers (el_metadata ex), rm_format = ROW_FORMAT,
         rm_tool_schema = TOOL_SCHEMA, rm_source = SOURCE_HERMES, rm_split = ''train'',
         rm_example_id = hx_encode (de_hex D) (to_be_bytes i)\<rparr>\<rparr>"

definition keep_example :: "dataset_env \<Rightarrow> export_line \<Rightarrow> converting \<Rightarrow> dataset_error + converting" where
  "keep_example D ex s =
     bind_ok (map_sum Serialize id (de_messages_json D (el_messages ex))) (\<lambda>canonical.
     let i = de_sha256 D (str_bytes canonical)
     in Inr (if i \<in> set (cv_seen s) then exclude (\<lambda>x. x\<lparr>xc_duplicate := xc_duplicate x + 1\<rparr>) s
             else
               let rep = cv_report s in
               s\<lparr>cv_report := rep\<lparr>rp_tool_calls := count_calls (el_messages ex) (rp_tool_calls rep), rp_written := rp_written rep + 1\<rparr>,
                 cv_seen := i # cv_seen s, cv_rows := cv_rows s @ [make_row D ex i]\<rparr>))"

definition convert_line :: "dataset_env \<Rightarrow> held_out \<Rightarrow> nat \<Rightarrow> string \<Rightarrow> converting \<Rightarrow> dataset_error + converting" where
  "convert_line D held n line s =
     (if blank_line line then Inr s
      else
        bind_ok (map_sum (\<lambda>e. BadLine n (LineJson e)) id (de_line D line)) (\<lambda>ex.
        bind_ok (check_line n ex) (\<lambda>_.
        let s1 = s\<lparr>cv_report := (cv_report s)\<lparr>rp_read := rp_read (cv_report s) + 1\<rparr>\<rparr>
        in case judge_messages D held (el_messages ex) of
             Keep \<Rightarrow> keep_example D ex s1
           | HeldOut \<Rightarrow> Inr (exclude (\<lambda>x. x\<lparr>xc_held_out := xc_held_out x + 1\<rparr>) s1)
           | OffSchema \<Rightarrow> Inr (exclude (\<lambda>x. x\<lparr>xc_off_schema := xc_off_schema x + 1\<rparr>) s1)
           | BadArguments \<Rightarrow> Inr (exclude (\<lambda>x. x\<lparr>xc_bad_arguments := xc_bad_arguments x + 1\<rparr>) s1)
           | Unpaired \<Rightarrow> Inr (exclude (\<lambda>x. x\<lparr>xc_unpaired := xc_unpaired x + 1\<rparr>) s1))))"

fun convert_lines :: "dataset_env \<Rightarrow> held_out \<Rightarrow> nat \<Rightarrow> string list \<Rightarrow> converting \<Rightarrow> dataset_error + converting" where
  "convert_lines D held i [] s = Inr s"
| "convert_lines D held i (line # rest) s =
     bind_ok (convert_line D held (i + 1) line s) (convert_lines D held (i + 1) rest)"

definition empty_report :: "held_out \<Rightarrow> convert_report" where
  "empty_report held =
     \<lparr>rp_format = ROW_FORMAT, rp_held_out_dataset = ho_dataset held, rp_held_out_items = of_nat (length (ho_hashes held)),
      rp_read = 0, rp_written = 0,
      rp_excluded = \<lparr>xc_held_out = 0, xc_off_schema = 0, xc_bad_arguments = 0, xc_unpaired = 0, xc_duplicate = 0\<rparr>,
      rp_tool_calls = []\<rparr>"

definition convert_export :: "dataset_env \<Rightarrow> held_out \<Rightarrow> bytes \<Rightarrow> dataset_error + trainer_row list \<times> convert_report" where
  "convert_export D held bs =
     (if \<not> valid_utf8 bs then Inl ExportNotUtf8
      else
        bind_ok (convert_lines D held 0 (str_lines (map byte_char bs))
                   \<lparr>cv_report = empty_report held, cv_seen = [], cv_rows = []\<rparr>) (\<lambda>s.
        Inr (cv_rows s, cv_report s)))"

definition to_jsonl :: "dataset_env \<Rightarrow> trainer_row list \<Rightarrow> dataset_error + string" where
  "to_jsonl D rows =
     bind_ok (map_ok (\<lambda>r. map_sum Serialize id (de_row_json D r)) rows) (\<lambda>lines.
       Inr (concat (map (\<lambda>l. l @ [char_of (10 :: nat)]) lines)))"

end
