(* ===== verification/Fl_Dataset_Theorems.thy ===== *)
theory Fl_Dataset_Theorems
  imports Fl_Dataset Evm_Abi_Theorems Artifact_Store
begin

text \<open>
  What a conversion accounts for and which examples it lets through, and that the rows it writes pass the check the
  device runner makes before it trains.
\<close>

section \<open>Accounts\<close>

text \<open>What a line must read as, and the four reasons to leave its example out, over the data alone.\<close>

definition reads_as :: "dataset_env \<Rightarrow> string \<Rightarrow> export_line \<Rightarrow> bool" where
  "reads_as D line ex \<longleftrightarrow>
     de_line D line = Inr ex \<and> el_messages ex \<noteq> [] \<and>
     (\<forall>m \<in> set (el_messages ex). mg_role m \<in> {''user'', ''assistant'', ''tool''}) \<and>
     mg_role (hd (el_messages ex)) = ''user'' \<and> em_verifiers (el_metadata ex) \<noteq> []"

definition calls_in :: "message list \<Rightarrow> tool_call list" where
  "calls_in ms = concat (map mg_tool_calls ms)"

definition asks_held_out :: "dataset_env \<Rightarrow> held_out \<Rightarrow> message list \<Rightarrow> bool" where
  "asks_held_out D held ms \<longleftrightarrow>
     (\<exists>m \<in> set ms. mg_role m = ''user'' \<and>
        de_sha256 D (str_bytes (normalize_prompt D (mg_content m))) \<in> set (ho_hashes held))"

definition calls_unknown_tool :: "message list \<Rightarrow> bool" where
  "calls_unknown_tool ms \<longleftrightarrow> (\<exists>c \<in> set (calls_in ms). tc_name c \<notin> set PARITY_V1_TOOLS)"

definition calls_without_object :: "dataset_env \<Rightarrow> message list \<Rightarrow> bool" where
  "calls_without_object D ms \<longleftrightarrow>
     (\<exists>c \<in> set (calls_in ms). \<not> (\<exists>fields. de_value D (tc_arguments c) = Inr (JObj fields)))"

text \<open>Paired: the results name exactly the identifiers of the calls, and there are as many results as identifiers.  Two
  calls that share an identifier count once, so one of them may go without a result (\<open>unanswered_call_is_kept\<close>).\<close>

definition paired :: "message list \<Rightarrow> bool" where
  "paired ms \<longleftrightarrow>
     {i. \<exists>m \<in> set ms. mg_role m = ''tool'' \<and> mg_tool_call_id m = Some i} = tc_id ` set (calls_in ms) \<and>
     length (filter (\<lambda>m. mg_role m = ''tool'') ms) = card (tc_id ` set (calls_in ms))"

definition fit :: "dataset_env \<Rightarrow> held_out \<Rightarrow> message list \<Rightarrow> bool" where
  "fit D held ms \<longleftrightarrow>
     \<not> asks_held_out D held ms \<and> \<not> calls_unknown_tool ms \<and> \<not> calls_without_object D ms \<and> paired ms"

lemma judge_reason:
  "judge_messages D held ms =
     (if asks_held_out D held ms then HeldOut
      else if calls_unknown_tool ms then OffSchema
      else if calls_without_object D ms then BadArguments
      else if paired ms then Keep else Unpaired)"
proof -
  have held: "list_ex (\<lambda>m. mg_role m = ''user'' \<and> contains_prompt D held (mg_content m)) ms = asks_held_out D held ms"
    by (auto simp: asks_held_out_def contains_prompt_def list_ex_iff)
  have tool: "list_ex (\<lambda>c. tc_name c \<notin> set PARITY_V1_TOOLS) (all_calls ms) = calls_unknown_tool ms"
    by (auto simp: calls_unknown_tool_def calls_in_def all_calls_def list_ex_iff)
  have "json_object D a \<longleftrightarrow> (\<exists>fields. de_value D a = Inr (JObj fields))" for a
    by (auto simp: json_object_def split: sum.splits json.splits)
  then have args: "list_ex (\<lambda>c. \<not> json_object D (tc_arguments c)) (all_calls ms) = calls_without_object D ms"
    by (auto simp: calls_without_object_def calls_in_def all_calls_def list_ex_iff)
  have answered: "set (List.map_filter mg_tool_call_id (tool_results ms)) =
      {i. \<exists>m \<in> set ms. mg_role m = ''tool'' \<and> mg_tool_call_id m = Some i}"
    by (force simp: List.map_filter_def tool_results_def)
  have ids: "length (remdups (map tc_id (all_calls ms))) = card (tc_id ` set (calls_in ms))"
    "set (remdups (map tc_id (all_calls ms))) = tc_id ` set (calls_in ms)"
    by (simp_all add: length_remdups_card_conv all_calls_def calls_in_def)
  show ?thesis
    unfolding judge_messages_def Let_def held tool args answered ids paired_def by (simp add: tool_results_def)
qed

lemma check_line_reads:
  "de_line D line = Inr ex \<Longrightarrow> check_line n ex = Inr () \<Longrightarrow> reads_as D line ex"
  by (auto simp: check_line_def reads_as_def find_None_iff export_role_def split: if_splits option.splits)

text \<open>Of keyed examples, the first under each key.\<close>

fun firsts :: "'i set \<Rightarrow> ('a \<times> 'i) list \<Rightarrow> ('a \<times> 'i) list" where
  "firsts seen [] = []"
| "firsts seen ((a, i) # rest) = (if i \<in> seen then firsts seen rest else (a, i) # firsts (insert i seen) rest)"

lemma firsts_snoc:
  "firsts seen (xs @ [(a, i)]) = firsts seen xs @ (if i \<in> seen \<union> snd ` set xs then [] else [(a, i)])"
  by (induction seen xs rule: firsts.induct) auto

lemma firsts_distinct: "distinct (map snd (firsts seen xs)) \<and> snd ` set (firsts seen xs) \<inter> seen = {}"
  by (induction seen xs rule: firsts.induct) auto

lemma firsts_subset: "set (firsts seen xs) \<subseteq> set xs"
  by (induction seen xs rule: firsts.induct) auto

definition row_of :: "dataset_env \<Rightarrow> export_line \<times> b256 \<Rightarrow> trainer_row \<Rightarrow> bool" where
  "row_of D e r \<longleftrightarrow>
     tw_messages r = el_messages (fst e) \<and> tw_tools r = PARITY_V1_TOOLS \<and>
     em_model (tw_metadata r) = em_model (el_metadata (fst e)) \<and>
     em_workflow (tw_metadata r) = em_workflow (el_metadata (fst e)) \<and>
     em_step (tw_metadata r) = em_step (el_metadata (fst e)) \<and>
     em_verifiers (tw_metadata r) = em_verifiers (el_metadata (fst e)) \<and>
     rm_format (tw_metadata r) = ''citrate-fl-sft-v1'' \<and> rm_tool_schema (tw_metadata r) = ''parity-v1'' \<and>
     rm_source (tw_metadata r) = ''hermes-verified'' \<and> rm_split (tw_metadata r) = ''train'' \<and>
     rm_example_id (tw_metadata r) = hx_encode (de_hex D) (to_be_bytes (snd e))"

definition calls_of :: "string \<Rightarrow> trainer_row list \<Rightarrow> nat" where
  "calls_of name rows = length (filter (\<lambda>c. tc_name c = name) (concat (map (\<lambda>r. calls_in (tw_messages r)) rows)))"

definition call_count :: "(string, u64) btree \<Rightarrow> string \<Rightarrow> u64" where
  "call_count t name = (case bt_get t name of Some n \<Rightarrow> n | None \<Rightarrow> 0)"

lemma count_calls_get:
  "call_count (count_calls ms t) name = call_count t name + of_nat (length (filter (\<lambda>c. tc_name c = name) (calls_in ms)))"
proof -
  have "call_count (foldl (\<lambda>t c. bt_insert (tc_name c) ((case bt_get t (tc_name c) of Some n \<Rightarrow> n | None \<Rightarrow> 0) + 1) t) t cs) name =
      call_count t name + of_nat (length (filter (\<lambda>c. tc_name c = name) cs))" for cs
    by (induction cs arbitrary: t) (auto simp: call_count_def)
  then show ?thesis by (simp add: count_calls_def all_calls_def calls_in_def)
qed

lemma calls_of_snoc:
  "calls_of name (rows @ [r]) = calls_of name rows + length (filter (\<lambda>c. tc_name c = name) (calls_in (tw_messages r)))"
  by (simp add: calls_of_def)

text \<open>The state after some lines: \<open>exs\<close> are the examples read, \<open>keyed\<close> those that are fit with the hash of their messages.\<close>

definition accounted ::
  "dataset_env \<Rightarrow> held_out \<Rightarrow> string list \<Rightarrow> export_line list \<Rightarrow> (export_line \<times> b256) list \<Rightarrow> converting \<Rightarrow> bool" where
  "accounted D held lines exs keyed s \<longleftrightarrow>
     list_all2 (reads_as D) (filter (\<lambda>l. \<not> blank_line l) lines) exs \<and>
     map fst keyed = filter (\<lambda>ex. fit D held (el_messages ex)) exs \<and>
     (\<forall>(ex, i) \<in> set keyed. \<exists>c. de_messages_json D (el_messages ex) = Inr c \<and> i = de_sha256 D (str_bytes c)) \<and>
     list_all2 (row_of D) (firsts {} keyed) (cv_rows s) \<and> set (cv_seen s) = snd ` set keyed \<and>
     (\<forall>name. call_count (rp_tool_calls (cv_report s)) name = of_nat (calls_of name (cv_rows s)))"

definition counted :: "dataset_env \<Rightarrow> held_out \<Rightarrow> export_line list \<Rightarrow> (export_line \<times> b256) list \<Rightarrow> trainer_row list \<Rightarrow> convert_report \<Rightarrow> bool" where
  "counted D held exs keyed rows rep \<longleftrightarrow>
     rp_read rep = of_nat (length exs) \<and> rp_written rep = of_nat (length rows) \<and>
     rp_written rep + xc_duplicate (rp_excluded rep) = of_nat (length keyed) \<and>
     xc_held_out (rp_excluded rep) = of_nat (length (filter (\<lambda>ex. asks_held_out D held (el_messages ex)) exs)) \<and>
     xc_off_schema (rp_excluded rep) =
       of_nat (length (filter (\<lambda>ex. \<not> asks_held_out D held (el_messages ex) \<and> calls_unknown_tool (el_messages ex)) exs)) \<and>
     xc_bad_arguments (rp_excluded rep) =
       of_nat (length (filter (\<lambda>ex. \<not> asks_held_out D held (el_messages ex) \<and> \<not> calls_unknown_tool (el_messages ex) \<and>
         calls_without_object D (el_messages ex)) exs)) \<and>
     xc_unpaired (rp_excluded rep) =
       of_nat (length (filter (\<lambda>ex. \<not> asks_held_out D held (el_messages ex) \<and> \<not> calls_unknown_tool (el_messages ex) \<and>
         \<not> calls_without_object D (el_messages ex) \<and> \<not> paired (el_messages ex)) exs))"

lemma reasons_partition:
  "length exs =
     length (filter (\<lambda>ex. asks_held_out D held (el_messages ex)) exs) +
     length (filter (\<lambda>ex. \<not> asks_held_out D held (el_messages ex) \<and> calls_unknown_tool (el_messages ex)) exs) +
     length (filter (\<lambda>ex. \<not> asks_held_out D held (el_messages ex) \<and> \<not> calls_unknown_tool (el_messages ex) \<and>
       calls_without_object D (el_messages ex)) exs) +
     length (filter (\<lambda>ex. \<not> asks_held_out D held (el_messages ex) \<and> \<not> calls_unknown_tool (el_messages ex) \<and>
       \<not> calls_without_object D (el_messages ex) \<and> \<not> paired (el_messages ex)) exs) +
     length (filter (\<lambda>ex. fit D held (el_messages ex)) exs)"
  by (induction exs) (auto simp: fit_def)

lemma counts_add_up:
  assumes "counted D held exs keyed rows rep" "map fst keyed = filter (\<lambda>ex. fit D held (el_messages ex)) exs"
  shows "rp_read rep = rp_written rep + xc_held_out (rp_excluded rep) + xc_off_schema (rp_excluded rep) +
    xc_bad_arguments (rp_excluded rep) + xc_unpaired (rp_excluded rep) + xc_duplicate (rp_excluded rep)"
proof -
  have "length keyed = length (filter (\<lambda>ex. fit D held (el_messages ex)) exs)"
    using arg_cong [OF assms(2), of length] by simp
  then have "rp_read rep = xc_held_out (rp_excluded rep) + xc_off_schema (rp_excluded rep) +
      xc_bad_arguments (rp_excluded rep) + xc_unpaired (rp_excluded rep) + (of_nat (length keyed) :: u64)"
    using assms(1) arg_cong [OF reasons_partition [of exs D held], of "of_nat :: nat \<Rightarrow> u64"]
    unfolding counted_def by (elim conjE) (simp only: of_nat_add)
  also have "(of_nat (length keyed) :: u64) = rp_written rep + xc_duplicate (rp_excluded rep)"
    using assms(1) unfolding counted_def by (elim conjE) (rule sym)
  finally show ?thesis by (simp only: ac_simps)
qed

definition conv_inv :: "dataset_env \<Rightarrow> held_out \<Rightarrow> string list \<Rightarrow> converting \<Rightarrow> bool" where
  "conv_inv D held lines s \<longleftrightarrow>
     (\<exists>exs keyed. accounted D held lines exs keyed s \<and> counted D held exs keyed (cv_rows s) (cv_report s))"

lemma exclude_simps [simp]:
  "cv_seen (exclude f s) = cv_seen s" "cv_rows (exclude f s) = cv_rows s"
  "cv_report (exclude f s) = (cv_report s)\<lparr>rp_excluded := f (rp_excluded (cv_report s))\<rparr>"
  by (simp_all add: exclude_def)

lemma keep_example_inv:
  assumes acc: "accounted D held lines exs keyed s" and cnt: "counted D held exs keyed (cv_rows s) (cv_report s)"
    and line: "\<not> blank_line line" "reads_as D line ex" and fit: "fit D held (el_messages ex)"
    and keep: "keep_example D ex (s\<lparr>cv_report := (cv_report s)\<lparr>rp_read := rp_read (cv_report s) + 1\<rparr>\<rparr>) = Inr s'"
  shows "conv_inv D held (lines @ [line]) s'"
proof -
  from keep obtain canonical where c: "de_messages_json D (el_messages ex) = Inr canonical"
    and s': "s' = (let i = de_sha256 D (str_bytes canonical);
                       s1 = s\<lparr>cv_report := (cv_report s)\<lparr>rp_read := rp_read (cv_report s) + 1\<rparr>\<rparr>
                   in if i \<in> set (cv_seen s) then exclude (\<lambda>x. x\<lparr>xc_duplicate := xc_duplicate x + 1\<rparr>) s1
                      else let rep = cv_report s1 in
                        s1\<lparr>cv_report := rep\<lparr>rp_tool_calls := count_calls (el_messages ex) (rp_tool_calls rep), rp_written := rp_written rep + 1\<rparr>,
                           cv_seen := i # cv_seen s, cv_rows := cv_rows s @ [make_row D ex i]\<rparr>)"
    by (auto simp: keep_example_def bind_ok_Inr Let_def map_sum_def split: sum.splits)
  define i where "i = de_sha256 D (str_bytes canonical)"
  have row: "row_of D (ex, i) (make_row D ex i)"
    by (simp add: row_of_def make_row_def ROW_FORMAT_def TOOL_SCHEMA_def SOURCE_HERMES_def)
  have unfit: "\<not> asks_held_out D held (el_messages ex)" "\<not> calls_unknown_tool (el_messages ex)"
    "\<not> calls_without_object D (el_messages ex)" "paired (el_messages ex)"
    using fit by (simp_all add: fit_def)
  have seen: "i \<in> set (cv_seen s) \<longleftrightarrow> i \<in> snd ` set keyed" using acc by (simp add: accounted_def)
  have "accounted D held (lines @ [line]) (exs @ [ex]) (keyed @ [(ex, i)]) s'"
    using acc line fit c row seen unfolding s' i_def [symmetric]
    by (auto simp: accounted_def i_def Let_def firsts_snoc list_all2_appendI count_calls_get calls_of_snoc make_row_def)
  moreover have "counted D held (exs @ [ex]) (keyed @ [(ex, i)]) (cv_rows s') (cv_report s')"
    using cnt unfit unfolding s' i_def [symmetric] by (auto simp: counted_def Let_def)
  ultimately show ?thesis by (auto simp: conv_inv_def)
qed

lemma convert_line_inv:
  assumes "conv_inv D held lines s" "convert_line D held n line s = Inr s'"
  shows "conv_inv D held (lines @ [line]) s'"
proof (cases "blank_line line")
  case True
  then show ?thesis using assms by (simp add: convert_line_def conv_inv_def accounted_def)
next
  case False
  let ?s = "s\<lparr>cv_report := (cv_report s)\<lparr>rp_read := rp_read (cv_report s) + 1\<rparr>\<rparr>"
  from assms(2) False obtain ex where ex: "de_line D line = Inr ex" "check_line n ex = Inr ()"
    and res: "(case judge_messages D held (el_messages ex) of
             Keep \<Rightarrow> keep_example D ex ?s
           | HeldOut \<Rightarrow> Inr (exclude (\<lambda>x. x\<lparr>xc_held_out := xc_held_out x + 1\<rparr>) ?s)
           | OffSchema \<Rightarrow> Inr (exclude (\<lambda>x. x\<lparr>xc_off_schema := xc_off_schema x + 1\<rparr>) ?s)
           | BadArguments \<Rightarrow> Inr (exclude (\<lambda>x. x\<lparr>xc_bad_arguments := xc_bad_arguments x + 1\<rparr>) ?s)
           | Unpaired \<Rightarrow> Inr (exclude (\<lambda>x. x\<lparr>xc_unpaired := xc_unpaired x + 1\<rparr>) ?s)) = Inr s'"
    by (auto simp: convert_line_def bind_ok_Inr Let_def map_sum_def split: sum.splits)
  note reads = check_line_reads [OF ex]
  obtain exs keyed where ok: "accounted D held lines exs keyed s" "counted D held exs keyed (cv_rows s) (cv_report s)"
    using assms(1) by (auto simp: conv_inv_def)
  show ?thesis
  proof (cases "fit D held (el_messages ex)")
    case True
    then have "judge_messages D held (el_messages ex) = Keep" by (simp add: judge_reason fit_def)
    then show ?thesis using keep_example_inv [OF ok False reads True] res by simp
  next
    case unfit: False
    have same: "cv_seen s' = cv_seen s" "cv_rows s' = cv_rows s" "rp_tool_calls (cv_report s') = rp_tool_calls (cv_report s)"
      using unfit res by (auto simp: judge_reason fit_def split: if_splits)
    have "accounted D held (lines @ [line]) (exs @ [ex]) keyed s'"
      using ok(1) False reads unfit by (simp add: accounted_def same list_all2_appendI)
    moreover have "counted D held (exs @ [ex]) keyed (cv_rows s') (cv_report s')"
      using ok(2) unfit res by (auto simp: counted_def judge_reason fit_def split: if_splits)
    ultimately show ?thesis by (auto simp: conv_inv_def)
  qed
qed

lemma convert_lines_inv:
  assumes "conv_inv D held lines s" "convert_lines D held i rest s = Inr s'"
  shows "conv_inv D held (lines @ rest) s'"
  using assms
proof (induction rest arbitrary: i s lines)
  case (Cons line rest)
  then obtain s1 where "convert_line D held (i + 1) line s = Inr s1" "convert_lines D held (i + 1) rest s1 = Inr s'"
    by (auto simp: bind_ok_Inr)
  with Cons.IH [of "lines @ [line]" s1] convert_line_inv [OF Cons.prems(1)] show ?case by simp
qed simp

lemma converted_inv:
  assumes "convert_export D held bs = Inr (rows, rep)"
  shows "\<exists>s. conv_inv D held (str_lines (map byte_char bs)) s \<and> rows = cv_rows s \<and> rep = cv_report s"
proof -
  let ?lines = "str_lines (map byte_char bs)"
  from assms obtain s where s: "convert_lines D held 0 ?lines \<lparr>cv_report = empty_report held, cv_seen = [], cv_rows = []\<rparr> = Inr s"
    and res: "rows = cv_rows s" "rep = cv_report s"
    by (auto simp: convert_export_def bind_ok_Inr split: if_splits)
  have "conv_inv D held [] \<lparr>cv_report = empty_report held, cv_seen = [], cv_rows = []\<rparr>"
    unfolding conv_inv_def by (intro exI [of _ "[]"])
      (simp add: accounted_def counted_def empty_report_def call_count_def calls_of_def)
  from convert_lines_inv [OF this s] show ?thesis using res by auto
qed

text \<open>What every written row is known to satisfy.\<close>

definition trainable :: "trainer_row \<Rightarrow> bool" where
  "trainable r \<longleftrightarrow>
     tw_messages r \<noteq> [] \<and> em_verifiers (tw_metadata r) \<noteq> [] \<and> list_all (\<lambda>m. export_role (mg_role m)) (tw_messages r)"

lemma accounted_trainable:
  assumes "accounted D held lines exs keyed s"
  shows "list_all trainable (cv_rows s)"
proof -
  have "reads_as D l ex \<Longrightarrow> row_of D (ex, i) r \<Longrightarrow> trainable r" for l ex i r
    by (auto simp: trainable_def row_of_def reads_as_def list_all_iff export_role_def)
  moreover have "\<exists>l ex i. reads_as D l ex \<and> row_of D (ex, i) r" if "r \<in> set (cv_rows s)" for r
  proof -
    from that obtain k where k: "k < length (cv_rows s)" "r = cv_rows s ! k" by (auto simp: in_set_conv_nth)
    with assms have e: "firsts {} keyed ! k \<in> set (firsts {} keyed)" "row_of D (firsts {} keyed ! k) r"
      by (auto simp: accounted_def list_all2_conv_all_nth)
    let ?e = "firsts {} keyed ! k"
    from e have "fst ?e \<in> set (map fst keyed)" using firsts_subset [of "{}" keyed] by auto
    moreover have "map fst keyed = filter (\<lambda>ex. fit D held (el_messages ex)) exs"
      using assms by (simp add: accounted_def)
    ultimately have "fst ?e \<in> set exs" by (simp only: set_filter) blast
    with assms obtain l where "reads_as D l (fst ?e)"
      unfolding accounted_def list_all2_conv_all_nth in_set_conv_nth by metis
    with e(2) show ?thesis by (metis prod.collapse)
  qed
  ultimately show ?thesis unfolding list_all_iff by metis
qed

text \<open>C28: A conversion accounts for the whole export.  Every line that is not blank read as a well-formed example, in
  order (\<open>exs\<close>), and the report counts as many.  Of them it counts as held out those with a user prompt in the held-out
  set; of the others, as off the schema those that call a tool the schema does not have; of the others, those with a
  call whose arguments are not a JSON object; of the others, those whose results do not name exactly the identifiers
  of the calls or are not as many as the identifiers (calls that share an identifier count once).  The rest
  (\<open>keyed\<close>) have the hash of their messages as key: the rows are the first example under each key, in order, with its
  messages and provenance as they were, and the others are counted as duplicates.  The counts add up, the tool calls are
  counted by name over the rows, and no two rows have the same identifier.\<close>

theorem conversion_accounts:
  assumes "hex_codec (de_hex D)" and "convert_export D held bs = Inr (rows, rep)"
  shows "\<exists>exs keyed.
    list_all2 (reads_as D) (filter (\<lambda>l. \<not> blank_line l) (str_lines (map byte_char bs))) exs \<and>
    map fst keyed = filter (\<lambda>ex. fit D held (el_messages ex)) exs \<and>
    (\<forall>(ex, i) \<in> set keyed. \<exists>c. de_messages_json D (el_messages ex) = Inr c \<and> i = de_sha256 D (str_bytes c)) \<and>
    list_all2 (row_of D) (firsts {} keyed) rows \<and> counted D held exs keyed rows rep \<and>
    rp_read rep = rp_written rep + xc_held_out (rp_excluded rep) + xc_off_schema (rp_excluded rep) +
      xc_bad_arguments (rp_excluded rep) + xc_unpaired (rp_excluded rep) + xc_duplicate (rp_excluded rep) \<and>
    (\<forall>name. call_count (rp_tool_calls rep) name = of_nat (calls_of name rows)) \<and>
    distinct (map (\<lambda>r. rm_example_id (tw_metadata r)) rows)"
proof -
  obtain s where i: "conv_inv D held (str_lines (map byte_char bs)) s" and res: "rows = cv_rows s" "rep = cv_report s"
    using converted_inv [OF assms(2)] by blast
  then obtain exs keyed where ok: "accounted D held (str_lines (map byte_char bs)) exs keyed s"
    "counted D held exs keyed rows rep" by (auto simp: conv_inv_def)
  have "v = w" if "hx_encode (de_hex D) (to_be_bytes v) = hx_encode (de_hex D) (to_be_bytes w)" for v w :: b256
    using that by (metis assms(1) hex_codec.decode_encode option.inject to_be_bytes_inj_word(4))
  then have inj: "inj_on (\<lambda>i. hx_encode (de_hex D) (to_be_bytes i)) A" for A :: "b256 set"
    by (auto simp: inj_on_def)
  have "map (\<lambda>r. rm_example_id (tw_metadata r)) rows =
      map (\<lambda>i. hx_encode (de_hex D) (to_be_bytes i)) (map snd (firsts {} keyed))"
    using ok(1) unfolding res accounted_def
    by (intro nth_equalityI) (auto simp: list_all2_conv_all_nth row_of_def)
  moreover have "distinct (map (\<lambda>i. hx_encode (de_hex D) (to_be_bytes i)) (map snd (firsts {} keyed)))"
    by (rule distinct_map [THEN iffD2, OF conjI [OF conjunct1 [OF firsts_distinct] inj]])
  ultimately have "distinct (map (\<lambda>r. rm_example_id (tw_metadata r)) rows)" by simp
  moreover have "map fst keyed = filter (\<lambda>ex. fit D held (el_messages ex)) exs"
    using ok(1) by (simp add: accounted_def)
  ultimately show ?thesis
    using ok counts_add_up [OF ok(2)] unfolding accounted_def res by blast
qed

section \<open>The rows pass the runner's check\<close>

text \<open>What the writer of a row is relied on for: one line of text that the runner reads back as the roles and verifiers of
  the row.\<close>

definition row_reads_back :: "dataset_env \<Rightarrow> (string \<Rightarrow> string + shape_line) \<Rightarrow> trainer_row \<Rightarrow> bool" where
  "row_reads_back D parse r \<longleftrightarrow>
     (case de_row_json D r of
        Inl _ \<Rightarrow> False
      | Inr line \<Rightarrow>
          char_of (10 :: nat) \<notin> set line \<and> char_of (13 :: nat) \<notin> set line \<and> \<not> blank_line line \<and> valid_utf8 (str_bytes line) \<and>
          parse line = Inr \<lparr>sl_roles = map mg_role (tw_messages r), sl_verifiers = em_verifiers (tw_metadata r)\<rparr>)"

lemma bytes_chars: "map byte_char (str_bytes s) = s"
proof -
  have "unat (char_byte c) = of_char c" for c
  proof -
    have "(of_char c :: nat) mod 256 = of_char c" by simp
    then show ?thesis by (simp add: char_byte_def unat_of_nat_u8)
  qed
  then show ?thesis by (simp add: str_bytes_def byte_char_def comp_def)
qed

lemma split_lines:
  "(\<And>l. l \<in> set ls \<Longrightarrow> c \<notin> set l) \<Longrightarrow> split_on c (concat (map (\<lambda>l. l @ [c]) ls)) = ls @ [[]]"
  by (induction ls) (auto simp: split_on_parts)

lemma str_lines_concat:
  assumes "\<And>l. l \<in> set ls \<Longrightarrow> char_of (10 :: nat) \<notin> set l \<and> char_of (13 :: nat) \<notin> set l"
  shows "str_lines (concat (map (\<lambda>l. l @ [char_of (10 :: nat)]) ls)) = ls"
proof -
  have "map chop_cr ls = ls"
    using assms by (intro map_idI) (auto simp: chop_cr_def dest: last_in_set)
  then show ?thesis
    using split_lines [of ls "char_of (10 :: nat)"] assms by (simp add: str_lines_def Let_def)
qed

lemma utf8_heads:
  "a \<le> 0x7F \<Longrightarrow> valid_utf8 (a # bs) = valid_utf8 bs"
  "\<not> a \<le> 0x7F \<Longrightarrow> 0xC2 \<le> a \<and> a \<le> 0xDF \<Longrightarrow>
     valid_utf8 (a # bs) = (case bs of b # r \<Rightarrow> cont b \<and> valid_utf8 r | _ \<Rightarrow> False)"
  "\<not> a \<le> 0x7F \<Longrightarrow> \<not> (0xC2 \<le> a \<and> a \<le> 0xDF) \<Longrightarrow> 0xE0 \<le> a \<and> a \<le> 0xEF \<Longrightarrow>
     valid_utf8 (a # bs) =
       (case bs of
          b # c # r \<Rightarrow> cont b \<and> cont c \<and> (a = 0xE0 \<longrightarrow> 0xA0 \<le> b) \<and> (a = 0xED \<longrightarrow> b \<le> 0x9F) \<and> valid_utf8 r
        | _ \<Rightarrow> False)"
  "\<not> a \<le> 0x7F \<Longrightarrow> \<not> (0xC2 \<le> a \<and> a \<le> 0xDF) \<Longrightarrow> \<not> (0xE0 \<le> a \<and> a \<le> 0xEF) \<Longrightarrow> 0xF0 \<le> a \<and> a \<le> 0xF4 \<Longrightarrow>
     valid_utf8 (a # bs) =
       (case bs of
          b # c # d # r \<Rightarrow> cont b \<and> cont c \<and> cont d \<and> (a = 0xF0 \<longrightarrow> 0x90 \<le> b) \<and>
            (a = 0xF4 \<longrightarrow> b \<le> 0x8F) \<and> valid_utf8 r
        | _ \<Rightarrow> False)"
  "\<not> a \<le> 0x7F \<Longrightarrow> \<not> (0xC2 \<le> a \<and> a \<le> 0xDF) \<Longrightarrow> \<not> (0xE0 \<le> a \<and> a \<le> 0xEF) \<Longrightarrow> \<not> (0xF0 \<le> a \<and> a \<le> 0xF4) \<Longrightarrow>
     \<not> valid_utf8 (a # bs)"
  by (simp_all only: valid_utf8.simps if_P if_not_P if_False simp_thms)

lemma valid_utf8_append: "valid_utf8 xs \<Longrightarrow> valid_utf8 (xs @ ys) = valid_utf8 ys"
proof (induction xs rule: valid_utf8.induct)
  case (2 a bs)
  consider "a \<le> 0x7F" | "\<not> a \<le> 0x7F" "0xC2 \<le> a \<and> a \<le> 0xDF"
    | "\<not> a \<le> 0x7F" "\<not> (0xC2 \<le> a \<and> a \<le> 0xDF)" "0xE0 \<le> a \<and> a \<le> 0xEF"
    | "\<not> a \<le> 0x7F" "\<not> (0xC2 \<le> a \<and> a \<le> 0xDF)" "\<not> (0xE0 \<le> a \<and> a \<le> 0xEF)" "0xF0 \<le> a \<and> a \<le> 0xF4"
    using "2.prems" utf8_heads(5) by blast
  then show ?case
  proof cases
    case c: 1
    then show ?thesis using "2.IH"(1) "2.prems" by (simp only: append_Cons utf8_heads(1))
  next
    case c: 2
    note v = "2.prems" [unfolded utf8_heads(2) [OF c]]
    then obtain b r where bs: "bs = b # r" "cont b" "valid_utf8 r" by (auto split: list.splits)
    show ?thesis unfolding append_Cons utf8_heads(2) [OF c] using "2.IH"(2) [OF c bs(1,3)] bs(2) by (simp add: bs(1))
  next
    case c: 3
    note v = "2.prems" [unfolded utf8_heads(3) [OF c]]
    then obtain b d r where bs: "bs = b # d # r" "valid_utf8 r" by (auto split: list.splits)
    show ?thesis unfolding append_Cons utf8_heads(3) [OF c] using "2.IH"(3) [OF c bs(1) refl bs(2)] v by (simp add: bs(1))
  next
    case c: 4
    note v = "2.prems" [unfolded utf8_heads(4) [OF c]]
    then obtain b d e r where bs: "bs = b # d # e # r" "valid_utf8 r" by (auto split: list.splits)
    show ?thesis unfolding append_Cons utf8_heads(4) [OF c] using "2.IH"(4) [OF c bs(1) refl refl bs(2)] v by (simp add: bs(1))
  qed
qed simp

lemma valid_utf8_lines:
  assumes "\<And>l. l \<in> set ls \<Longrightarrow> valid_utf8 (str_bytes l)"
  shows "valid_utf8 (str_bytes (concat (map (\<lambda>l. l @ [char_of (10 :: nat)]) ls)))"
  using assms by (induction ls) (auto simp: str_bytes_def valid_utf8_append char_byte_def utf8_heads(1))

lemma verify_good_lines:
  assumes "list_all2 (\<lambda>l r. \<not> blank_line l \<and>
      parse l = Inr \<lparr>sl_roles = map mg_role (tw_messages r), sl_verifiers = em_verifiers (tw_metadata r)\<rparr> \<and>
      tw_messages r \<noteq> [] \<and> list_all (\<lambda>m. export_role (mg_role m)) (tw_messages r) \<and> em_verifiers (tw_metadata r) \<noteq> []) ls rows"
  shows "verify_lines parse i n ls = Inr (n + of_nat (length rows))"
  using assms
proof (induction ls rows arbitrary: i n rule: list_all2_induct)
  case (Cons l ls r rows)
  have "find (\<lambda>x. \<not> export_role x) (map mg_role (tw_messages r)) = None"
    using Cons.hyps by (auto simp: find_None_iff list_all_iff)
  then show ?case using Cons.hyps Cons.IH by (simp add: algebra_simps)
qed simp

text \<open>What a conversion writes, the device runner accepts: read line by line, it has an example for every row.\<close>

theorem converted_rows_verify:
  assumes "convert_export D held bs = Inr (rows, rep)" and "to_jsonl D rows = Inr text"
    and "list_all (row_reads_back D parse) rows" and "rows \<noteq> []" and "length rows < 2 ^ 64"
  shows "verify_dataset parse (str_bytes text) = Inr (of_nat (length rows))"
proof -
  have fit: "list_all trainable rows"
    using converted_inv [OF assms(1)] accounted_trainable by (auto simp: conv_inv_def)
  from assms(2) obtain ls where ls: "map_ok (\<lambda>r. map_sum Serialize id (de_row_json D r)) rows = Inr ls"
    and joined: "text = concat (map (\<lambda>l. l @ [char_of (10 :: nat)]) ls)"
    by (auto simp: to_jsonl_def bind_ok_Inr)
  have rows: "list_all2 (\<lambda>r l. de_row_json D r = Inr l \<and> row_reads_back D parse r \<and> trainable r) rows ls"
    using map_ok_all2 [OF ls] assms(3) fit
    by (simp add: list_all2_conv_all_nth list_all_length map_sum_Inr_iff)
  have lines: "char_of (10 :: nat) \<notin> set l \<and> char_of (13 :: nat) \<notin> set l \<and> valid_utf8 (str_bytes l)" if "l \<in> set ls" for l
    using rows that by (auto simp: list_all2_conv_all_nth in_set_conv_nth row_reads_back_def)
  have "verify_lines parse 0 0 ls = Inr (0 + of_nat (length rows))"
    by (rule verify_good_lines) (use rows in \<open>auto simp: list_all2_conv_all_nth row_reads_back_def trainable_def list_all_iff\<close>)
  moreover have "of_nat (length rows) \<noteq> (0 :: u64)"
    using assms(4,5) unat_of_nat_small [of "length rows", where 'a = 64] by auto
  ultimately show ?thesis
    using lines by (simp add: verify_dataset_def joined valid_utf8_lines str_lines_concat bytes_chars)
qed

section \<open>Examples\<close>

definition set_ex_messages :: "message list" where
  "set_ex_messages =
     [\<lparr>mg_role = ''user'', mg_content = ''hi'', mg_tool_calls = [], mg_tool_call_id = None\<rparr>,
      \<lparr>mg_role = ''assistant'', mg_content = [],
       mg_tool_calls = [\<lparr>tc_id = ''1'', tc_kind = ''function'', tc_name = ''node_status'', tc_arguments = ''{}''\<rparr>],
       mg_tool_call_id = None\<rparr>,
      \<lparr>mg_role = ''tool'', mg_content = ''ok'', mg_tool_calls = [], mg_tool_call_id = Some ''1''\<rparr>]"

definition set_ex_line :: export_line where
  "set_ex_line =
     \<lparr>el_messages = set_ex_messages,
      el_metadata = \<lparr>em_model = ''m'', em_workflow = None, em_step = None, em_verifiers = [''v'']\<rparr>\<rparr>"

definition set_ex_env :: dataset_env where
  "set_ex_env =
     \<lparr>de_sha256 = (\<lambda>_. 3), de_hex = lower_hex, de_lowercase = (\<lambda>s. s), de_chars = map (\<lambda>c. [c]), de_alphanumeric = (\<lambda>c. c \<noteq> '' ''),
      de_manifest = (\<lambda>_. Inl ''none''), de_line = (\<lambda>_. Inr set_ex_line), de_value = (\<lambda>_. Inr (JObj [])),
      de_messages_json = (\<lambda>_. Inr ''[]''), de_row_json = (\<lambda>_. Inr ''{}'')\<rparr>"

definition set_ex_held :: held_out where "set_ex_held = \<lparr>ho_dataset = ''toolcall-v2'', ho_hashes = []\<rparr>"

text \<open>Two lines with the same example: one row, one duplicate.\<close>

definition set_ex_export :: bytes where "set_ex_export = str_bytes ''a'' @ [10] @ str_bytes ''b''"

definition set_ex_parse :: "string \<Rightarrow> string + shape_line" where
  "set_ex_parse _ = Inr \<lparr>sl_roles = map mg_role set_ex_messages, sl_verifiers = [''v'']\<rparr>"

lemma set_ex_judge: "judge_messages set_ex_env set_ex_held set_ex_messages = Keep"
  by (simp add: judge_messages_def set_ex_messages_def all_calls_def tool_results_def json_object_def contains_prompt_def
      set_ex_held_def PARITY_V1_TOOLS_def List.map_filter_def Let_def, simp add: set_ex_env_def)

lemma set_ex_check: "check_line n set_ex_line = Inr ()"
  by (simp add: check_line_def set_ex_line_def set_ex_messages_def export_role_def)

lemma set_ex_convert:
  "\<exists>rep. convert_export set_ex_env set_ex_held set_ex_export = Inr ([make_row set_ex_env set_ex_line 3], rep)"
proof -
  have bytes: "valid_utf8 set_ex_export" "str_lines (map byte_char set_ex_export) = [''a'', ''b'']" by code_simp+
  have blank: "\<not> blank_line ''a''" "\<not> blank_line ''b''" by code_simp+
  have E: "de_line set_ex_env l = Inr set_ex_line" "de_messages_json set_ex_env ms = Inr ''[]''" "de_sha256 set_ex_env bs = 3" for l ms bs
    by (simp_all add: set_ex_env_def)
  have msgs: "el_messages set_ex_line = set_ex_messages" by (simp add: set_ex_line_def)
  show ?thesis
    by (simp add: convert_export_def bytes convert_line_def blank E set_ex_check msgs set_ex_judge keep_example_def Let_def)
qed

lemma conversion_accounts_witness:
  "\<exists>rep. convert_export set_ex_env set_ex_held set_ex_export = Inr ([make_row set_ex_env set_ex_line 3], rep) \<and>
     rp_read rep = 2 \<and> rp_written rep = 1 \<and> xc_duplicate (rp_excluded rep) = 1"
proof -
  have hex: "hex_codec (de_hex set_ex_env)" using lower.hex_codec_axioms by (simp add: set_ex_env_def)
  have lines: "filter (\<lambda>l. \<not> blank_line l) (str_lines (map byte_char set_ex_export)) = [''a'', ''b'']" by code_simp
  obtain rep where c: "convert_export set_ex_env set_ex_held set_ex_export = Inr ([make_row set_ex_env set_ex_line 3], rep)"
    using set_ex_convert by blast
  from conversion_accounts [OF hex c] obtain exs keyed where
    r: "list_all2 (reads_as set_ex_env) [''a'', ''b''] exs"
    and k: "map fst keyed = filter (\<lambda>ex. fit set_ex_env set_ex_held (el_messages ex)) exs"
    and n: "counted set_ex_env set_ex_held exs keyed [make_row set_ex_env set_ex_line 3] rep"
    unfolding lines by blast
  have exs: "exs = [set_ex_line, set_ex_line]"
    using r by (auto simp: list_all2_Cons1 reads_as_def set_ex_env_def)
  have "fit set_ex_env set_ex_held (el_messages set_ex_line)"
    using set_ex_judge by (simp add: judge_reason fit_def set_ex_line_def split: if_splits)
  then have keyed: "length keyed = 2" using arg_cong [OF k, of length] by (simp add: exs)
  have "rp_read rep = 2" "rp_written rep = 1" "rp_written rep + xc_duplicate (rp_excluded rep) = 2"
    using n by (auto simp: counted_def exs keyed)
  then have "xc_duplicate (rp_excluded rep) = 1" by (simp add: eq_diff_eq [symmetric])
  with c \<open>rp_read rep = 2\<close> \<open>rp_written rep = 1\<close> show ?thesis by auto
qed

lemma converted_rows_verify_witness: "verify_dataset set_ex_parse (str_bytes (''{}'' @ [char_of (10 :: nat)])) = Inr 1"
proof -
  obtain rep where c: "convert_export set_ex_env set_ex_held set_ex_export = Inr ([make_row set_ex_env set_ex_line 3], rep)"
    using set_ex_convert by blast
  have j: "to_jsonl set_ex_env [make_row set_ex_env set_ex_line 3] = Inr (''{}'' @ [char_of (10 :: nat)])"
    by (simp add: to_jsonl_def set_ex_env_def)
  have plain: "char_of (10 :: nat) \<notin> set ''{}''" "char_of (13 :: nat) \<notin> set ''{}''" "\<not> blank_line ''{}''" "valid_utf8 (str_bytes ''{}'')"
    by code_simp+
  have "de_row_json set_ex_env r = Inr ''{}''" for r by (simp add: set_ex_env_def)
  then have "row_reads_back set_ex_env set_ex_parse (make_row set_ex_env set_ex_line 3)"
    using plain by (simp add: row_reads_back_def set_ex_parse_def make_row_def set_ex_line_def)
  then show ?thesis using converted_rows_verify [OF c j, of set_ex_parse] by simp
qed

text \<open>Two calls with one identifier and one result pass, although a call got no result.\<close>

definition set_ex_twice :: "message list" where
  "set_ex_twice = map (\<lambda>m. m\<lparr>mg_tool_calls := mg_tool_calls m @ mg_tool_calls m\<rparr>) set_ex_messages"

lemma unanswered_call_is_kept:
  "length (all_calls set_ex_twice) = 2" "length (tool_results set_ex_twice) = 1"
  "judge_messages set_ex_env set_ex_held set_ex_twice = Keep"
  by (simp_all add: set_ex_twice_def judge_messages_def set_ex_messages_def all_calls_def tool_results_def json_object_def
      contains_prompt_def set_ex_held_def PARITY_V1_TOOLS_def List.map_filter_def Let_def, simp add: set_ex_env_def)

end
