(* ===== verification/Federated_Signer.thy ===== *)
theory Federated_Signer
  imports Wallet_Theorems
begin

text \<open>
  The signer and the verifier of the federated gather, \<^verbatim>\<open>training-worker/src/federated_signer.rs\<close>: a node's identifier is
  its address in hexadecimal, and a signature is checked by recovering the address.
\<close>

definition node_id_of :: "codec \<Rightarrow> address \<Rightarrow> string" where
  "node_id_of H addr = hex0x H (to_be_bytes addr)"

record 'x wallet_signer =
  wg_wallet :: "'x wallet"
  wg_node_id :: string

definition wallet_signer_new :: "'x wallet_deps \<Rightarrow> 'x wallet \<Rightarrow> 'x wallet_signer" where
  "wallet_signer_new D w = \<lparr>wg_wallet = w, wg_node_id = node_id_of (wd_hex D) (w_address w)\<rparr>"

definition federated_sign :: "'x wallet_deps \<Rightarrow> 'x wallet_signer \<Rightarrow> bytes \<Rightarrow> wallet_error + bytes" where
  "federated_sign D s msg = sign_digest_recoverable D (wg_wallet s) (wd_keccak D msg)"

definition federated_verify :: "'x wallet_deps \<Rightarrow> string \<Rightarrow> bytes \<Rightarrow> bytes \<Rightarrow> bool" where
  "federated_verify D node_id msg sig =
     (case recover_address D (wd_keccak D msg) sig of
        Inl _ \<Rightarrow> False
      | Inr recovered \<Rightarrow> map ascii_lower (node_id_of (wd_hex D) recovered) = map ascii_lower node_id)"

text \<open>What a node signs verifies under its own identifier, however its letters are written, and under no other: a
  message and a signature pass for at most one identifier.\<close>

theorem federated_signature_names_its_node:
  assumes "w_address w = wallet_address D (w_signing_key w)"
    and "federated_sign D (wallet_signer_new D w) msg = Inr sig65"
    and "\<And>sig. wd_sign_prehash D (w_signing_key w) (wd_keccak D msg) = Inr sig \<Longrightarrow> length sig = 64 \<and> wd_signature_from_slice D sig"
    and "\<And>sig r. wd_sign_prehash D (w_signing_key w) (wd_keccak D msg) = Inr sig \<Longrightarrow>
      wd_trial_recovery D (w_signing_key w) (wd_keccak D msg) sig = Inr r \<Longrightarrow>
      wd_recovery_id_ok D r \<and> wd_recover D (wd_keccak D msg) sig r = Inr (wd_public_point D (w_signing_key w))"
  shows "federated_verify D node_id msg sig65 \<longleftrightarrow>
    map ascii_lower node_id = map ascii_lower (wg_node_id (wallet_signer_new D w))"
proof -
  have "sign_digest_recoverable D w (wd_keccak D msg) = Inr sig65"
    using assms(2) by (simp add: federated_sign_def wallet_signer_new_def)
  note signature_recovers_to_signer [OF assms(1) this assms(3,4)]
  then
  have "federated_verify D node_id msg sig65 \<longleftrightarrow> map ascii_lower (node_id_of (wd_hex D) (w_address w)) = map ascii_lower node_id"
    by (simp only: federated_verify_def sum.case)
  then show ?thesis unfolding wallet_signer_new_def wallet_signer.simps by (simp only: eq_commute)
qed

lemma federated_signature_names_its_node_witness:
  "federated_verify (sample_wallet_deps (RlpStr []))
     (wg_node_id (wallet_signer_new (sample_wallet_deps (RlpStr [])) sample_wallet)) [] (sample_key @ sample_key @ [0])"
proof -
  let ?D = "sample_wallet_deps (RlpStr [])"
  have "federated_verify ?D (wg_node_id (wallet_signer_new ?D sample_wallet)) [] (sample_key @ sample_key @ [0]) \<longleftrightarrow>
      map ascii_lower (wg_node_id (wallet_signer_new ?D sample_wallet)) = map ascii_lower (wg_node_id (wallet_signer_new ?D sample_wallet))"
  proof (rule federated_signature_names_its_node)
    show "w_address sample_wallet = wallet_address ?D (w_signing_key sample_wallet)"
      using sample_wallet_address by (simp add: sample_wallet_def)
    show "federated_sign ?D (wallet_signer_new ?D sample_wallet) [] = Inr (sample_key @ sample_key @ [0])"
      by (simp add: federated_sign_def wallet_signer_new_def sign_digest_recoverable_def sample_wallet_deps_def sample_wallet_def)
    show "length sig = 64 \<and> wd_signature_from_slice ?D sig"
      if "wd_sign_prehash ?D (w_signing_key sample_wallet) (wd_keccak ?D []) = Inr sig" for sig
      using that by (auto simp: sample_wallet_deps_def sample_wallet_def sample_key_def)
    show "wd_recovery_id_ok ?D r \<and> wd_recover ?D (wd_keccak ?D []) sig r = Inr (wd_public_point ?D (w_signing_key sample_wallet))"
      if "wd_sign_prehash ?D (w_signing_key sample_wallet) (wd_keccak ?D []) = Inr sig"
        "wd_trial_recovery ?D (w_signing_key sample_wallet) (wd_keccak ?D []) sig = Inr r" for sig r
      using that by (auto simp: sample_wallet_deps_def sample_wallet_def sample_key_def)
  qed
  then show ?thesis by simp
qed

end
