(* ===== verification/Lora_Trainer.thy ===== *)
theory Lora_Trainer
  imports Fl_Runner "HOL-Library.Sublist"
begin

text \<open>
  The operator's training program, \<^verbatim>\<open>training-worker/src/fl/trainer.rs\<close>: how it is configured from the environment, what
  it is given and what is checked when it ends.

  Starting a program and waiting for it at most so long is a parameter (\<open>os_run\<close>): it is given the program, the
  environment of the child and the limit, acts on the file system, and answers how the child ended.
\<close>

section \<open>The operating system\<close>

datatype child_end =
    NotStarted io_failure
  | StillRunning
  | WaitFailed io_failure
  | Exited bool string bytes

record os =
  os_vars :: "(string \<times> string) list"
  os_is_file :: "files \<Rightarrow> string \<Rightarrow> io_failure + bool"
  os_unremovable :: "string \<Rightarrow> io_failure option"
  os_run :: "string \<Rightarrow> (string \<Rightarrow> string option) \<Rightarrow> nat \<Rightarrow> files \<Rightarrow> child_end \<times> files"

text \<open>\<^verbatim>\<open>std::env::var\<close>: a value that is not UTF-8 counts as absent.\<close>

definition env_var :: "(string \<times> string) list \<Rightarrow> string \<Rightarrow> string option" where
  "env_var vars n =
     (case map_of vars n of
        Some v \<Rightarrow> if valid_utf8 (str_bytes v) then Some v else None
      | None \<Rightarrow> None)"

text \<open>\<^verbatim>\<open>Path::file_name\<close>.\<close>

definition file_name :: "string \<Rightarrow> string option" where
  "file_name p =
     (let cs = filter (\<lambda>c. c \<noteq> [] \<and> c \<noteq> ''.'') (split_on (CHR ''/'') p)
      in if cs = [] \<or> last cs = ''..'' then None else Some (last cs))"

section \<open>The trainer\<close>

datatype train_error =
    Spawn string io_failure
  | TrainTimeout nat
  | TrainFailed string bytes
  | NoOutput string
  | TrainIo io_failure

text \<open>The time limit is a number of nanoseconds.\<close>

record command_trainer =
  ct_program :: string
  ct_timeout :: nat
  ct_program_sha256 :: string

definition DEFAULT_TIMEOUT :: nat where "DEFAULT_TIMEOUT = 6 * 3600 * 10 ^ 9"

definition STDERR_TAIL :: nat where "STDERR_TAIL = 2048"

definition WORKER_ENV_PREFIX :: string where "WORKER_ENV_PREFIX = ''CITRATE_TRAINING_''"

definition command_trainer_new ::
  "(bytes \<Rightarrow> b256) \<Rightarrow> codec \<Rightarrow> os \<Rightarrow> string \<Rightarrow> nat \<Rightarrow> files \<Rightarrow> io_failure + command_trainer" where
  "command_trainer_new S H M program limit fs =
     (case os_is_file M fs program of
        Inl e \<Rightarrow> Inl e
      | Inr False \<Rightarrow> Inl (OtherIo (program @ '' is not a file''))
      | Inr True \<Rightarrow>
          case fs_read fs program of
            Inl e \<Rightarrow> Inl e
          | Inr bs \<Rightarrow>
              Inr \<lparr>ct_program = program, ct_timeout = limit, ct_program_sha256 = hx_encode H (to_be_bytes (S bs))\<rparr>)"

definition trainer_from_env ::
  "(bytes \<Rightarrow> b256) \<Rightarrow> codec \<Rightarrow> os \<Rightarrow> files \<Rightarrow> io_failure + command_trainer option" where
  "trainer_from_env S H M fs =
     (case env_var (os_vars M) ''CITRATE_LORA_TRAINER'' of
        None \<Rightarrow> Inr None
      | Some p \<Rightarrow>
          if trim p = [] then Inr None
          else
            case (case env_var (os_vars M) ''CITRATE_LORA_TRAINER_TIMEOUT_SECS'' of
                    None \<Rightarrow> Inr DEFAULT_TIMEOUT
                  | Some s \<Rightarrow>
                      (case parse_uint (2 ^ 64) (trim s) of
                         None \<Rightarrow> Inl (OtherIo (''CITRATE_LORA_TRAINER_TIMEOUT_SECS='' @ s))
                       | Some secs \<Rightarrow> Inr (secs * 10 ^ 9))) of
              Inl e \<Rightarrow> Inl e
            | Inr limit \<Rightarrow> map_sum id Some (command_trainer_new S H M (trim p) limit fs))"

definition trainer_id :: "command_trainer \<Rightarrow> string" where
  "trainer_id t =
     (case file_name (ct_program t) of Some n \<Rightarrow> map byte_char (utf8_lossy (str_bytes n)) | None \<Rightarrow> '''') @
     ''@sha256:'' @ ct_program_sha256 t"

section \<open>The environment of the child\<close>

text \<open>\<^verbatim>\<open>Command::env\<close> and \<^verbatim>\<open>env_remove\<close> record changes to the inherited environment, the last one for a name counting.\<close>

definition withheld :: "string \<Rightarrow> bool" where
  "withheld n \<longleftrightarrow> valid_utf8 (str_bytes n) \<and> prefix WORKER_ENV_PREFIX n"

definition env_changes :: "(string \<times> string) list \<Rightarrow> train_request \<Rightarrow> (string \<times> string option) list" where
  "env_changes vars q =
     [(''CITRATE_LORA_BASE_MODEL'', Some (tq_base_model q)),
      (''CITRATE_LORA_START_ADAPTER'', Some (tq_start_adapter q)),
      (''CITRATE_LORA_DATASET'', Some (tq_dataset q)),
      (''CITRATE_LORA_OUT'', Some (tq_out q)),
      (''CITRATE_LORA_ROUND_ID'', Some (tq_round_id_hex q))] @
     map (\<lambda>(n, _). (n, None)) (filter (\<lambda>(n, _). withheld n) vars)"

definition child_env :: "(string \<times> string) list \<Rightarrow> train_request \<Rightarrow> string \<Rightarrow> string option" where
  "child_env vars q n =
     (case map_of (rev (env_changes vars q)) n of Some change \<Rightarrow> change | None \<Rightarrow> map_of vars n)"

section \<open>One training run\<close>

text \<open>An adapter left by an earlier run is removed first.\<close>

definition clear_out :: "os \<Rightarrow> string \<Rightarrow> files \<Rightarrow> (io_failure + unit) \<times> files" where
  "clear_out M p fs =
     (if fs_exists fs p
      then (case os_unremovable M p of Some e \<Rightarrow> (Inl e, fs) | None \<Rightarrow> (Inr (), remove_file p fs))
      else (Inr (), fs))"

text \<open>The last characters of what the program wrote to its standard error: a character starts at a byte that does not
  continue one.\<close>

function utf8_chars :: "bytes \<Rightarrow> bytes list" where
  "utf8_chars [] = []"
| "utf8_chars (b # bs) = (b # takeWhile cont bs) # utf8_chars (dropWhile cont bs)"
  by pat_completeness auto
termination
  by (relation "measure length") (auto simp: le_imp_less_Suc length_dropWhile_le)

definition stderr_tail :: "bytes \<Rightarrow> bytes" where
  "stderr_tail err = concat (rev (take STDERR_TAIL (rev (utf8_chars (utf8_lossy err)))))"

definition command_train ::
  "os \<Rightarrow> command_trainer \<Rightarrow> train_request \<Rightarrow> files \<Rightarrow> (train_error + unit) \<times> files" where
  "command_train M t q fs =
     (case clear_out M (tq_out q) fs of
        (Inl e, fs1) \<Rightarrow> (Inl (TrainIo e), fs1)
      | (Inr _, fs1) \<Rightarrow>
          (case os_run M (ct_program t) (child_env (os_vars M) q) (ct_timeout t) fs1 of
             (NotStarted e, fs2) \<Rightarrow> (Inl (Spawn (ct_program t) e), fs2)
           | (StillRunning, fs2) \<Rightarrow> (Inl (TrainTimeout (ct_timeout t)), fs2)
           | (WaitFailed e, fs2) \<Rightarrow> (Inl (TrainIo e), fs2)
           | (Exited good status err, fs2) \<Rightarrow>
               if \<not> good then (Inl (TrainFailed status (stderr_tail err)), fs2)
               else if os_is_file M fs2 (tq_out q) \<noteq> Inr True then (Inl (NoOutput (tq_out q)), fs2)
               else (Inr (), fs2)))"

text \<open>The trainer as the runner calls it: an error becomes its text.\<close>

definition trainer_of :: "os \<Rightarrow> (train_error \<Rightarrow> string) \<Rightarrow> command_trainer \<Rightarrow> trainer" where
  "trainer_of M show_error t =
     \<lparr>tn_id = trainer_id t,
      tn_train = (\<lambda>q fs. let (r, fs1) = command_train M t q fs in (map_sum show_error id r, fs1))\<rparr>"

section \<open>What the program is given\<close>

lemma map_of_withheld:
  "map_of (rev (map (\<lambda>(n, _). (n, None :: string option)) (filter (\<lambda>(n, _). withheld n) vars))) n =
     (if withheld n \<and> n \<in> fst ` set vars then Some None else None)"
  by (induction vars) (auto simp: map_add_Some_iff map_of_append map_add_def split: option.splits)

lemma child_env_exact:
  "child_env vars q n =
     (if withheld n then None
      else
        case map_of [(''CITRATE_LORA_BASE_MODEL'', tq_base_model q), (''CITRATE_LORA_START_ADAPTER'', tq_start_adapter q),
               (''CITRATE_LORA_DATASET'', tq_dataset q), (''CITRATE_LORA_OUT'', tq_out q),
               (''CITRATE_LORA_ROUND_ID'', tq_round_id_hex q)] n of
          Some v \<Rightarrow> Some v
        | None \<Rightarrow> map_of vars n)"
proof (cases "withheld n")
  case True
  then have "n \<notin> {''CITRATE_LORA_BASE_MODEL'', ''CITRATE_LORA_START_ADAPTER'', ''CITRATE_LORA_DATASET'',
      ''CITRATE_LORA_OUT'', ''CITRATE_LORA_ROUND_ID''}"
    by (auto simp: withheld_def WORKER_ENV_PREFIX_def)
  with True show ?thesis
    by (auto simp: child_env_def env_changes_def map_of_append map_add_def map_of_withheld map_of_eq_None_iff)
next
  case False
  then show ?thesis
    by (auto simp: child_env_def env_changes_def map_of_append map_add_def map_of_withheld)
qed

text \<open>Two environments that differ in the worker's own variables only give the same run, whatever the program does.\<close>

theorem trainer_is_blind_to_worker_variables:
  assumes "\<And>n. \<not> withheld n \<Longrightarrow> map_of vars n = map_of vars' n"
  shows "command_train (M\<lparr>os_vars := vars\<rparr>) t q fs = command_train (M\<lparr>os_vars := vars'\<rparr>) t q fs"
proof -
  have "child_env vars q = child_env vars' q"
    using assms by (auto simp: child_env_exact fun_eq_iff split: option.splits)
  moreover have "os_run (M\<lparr>os_vars := v\<rparr>) = os_run M" "os_is_file (M\<lparr>os_vars := v\<rparr>) = os_is_file M"
    "os_unremovable (M\<lparr>os_vars := v\<rparr>) = os_unremovable M" "os_vars (M\<lparr>os_vars := v\<rparr>) = v" for v
    by simp_all
  ultimately show ?thesis
    unfolding command_train_def clear_out_def by (simp only:)
qed

lemma command_train_Inr:
  assumes "command_train M t q fs = (Inr u, fs')"
  obtains fs1 status err where "fs1 = (if fs_exists fs (tq_out q) then remove_file (tq_out q) fs else fs)"
    "\<not> fs_exists fs1 (tq_out q)"
    "os_run M (ct_program t) (child_env (os_vars M) q) (ct_timeout t) fs1 = (Exited True status err, fs')"
    "os_is_file M fs' (tq_out q) = Inr True"
  using assms
  by (auto simp: command_train_def clear_out_def remove_file_def split: prod.splits sum.splits child_end.splits if_splits option.splits)

end
