(* ===== verification/Coop_Worker.thy ===== *)
theory Coop_Worker
  imports Lora_Trainer Coordinator_Client Job_Runner
begin

text \<open>
  The member's daemon, \<^verbatim>\<open>training-worker/src/bin/coop_worker.rs\<close>: how it is put together from the environment, which of its
  two runners a job goes to, and what it does around a run.

  The state of a job is the device's files, the network \<open>'w\<close> of the client and the mirror's \<open>'m\<close>.
\<close>

section \<open>Federated jobs\<close>

record 'x fl_executor =
  fx_runner :: "'x lora_runner option"
  fx_unavailable :: string
  fx_uploader :: "'x coordinator_client"

datatype decline =
    FlUnavailable job_id string
  | FlRun lora_run_error
  | FlUpload client_error
  | NatRun job_run_error
  | NotWritable string
  | NoBackend job_id capability

definition new_client :: "'x wallet \<Rightarrow> 'x coordinator_client" where
  "new_client w = \<lparr>cl_wallet = w, cl_backoff = default_backoff\<rparr>"

definition fl_executor_new ::
  "'x runner_env \<Rightarrow> os \<Rightarrow> (train_error \<Rightarrow> string) \<Rightarrow> (io_failure \<Rightarrow> string) \<Rightarrow> 'x wallet \<Rightarrow> files \<Rightarrow> 'x fl_executor" where
  "fl_executor_new E M show_error show_io w fs =
     (case device_from_env (env_var (os_vars M)) of
        None \<Rightarrow>
          \<lparr>fx_runner = None,
           fx_unavailable = ''this device is not set up for federated LoRA rounds (CITRATE_FL_DATASET is unset)'',
           fx_uploader = new_client w\<rparr>
      | Some device \<Rightarrow>
          (case trainer_from_env (rd_sha256 (rv_round E)) (rd_hex (rv_round E)) M fs of
             Inr t \<Rightarrow>
               \<lparr>fx_runner = Some \<lparr>ln_device = device, ln_trainer = map_option (trainer_of M show_error) t, ln_wallet = w\<rparr>,
                fx_unavailable = '''', fx_uploader = new_client w\<rparr>
           | Inl e \<Rightarrow>
               \<lparr>fx_runner = None, fx_unavailable = ''the configured LoRA trainer is unusable: '' @ show_io e,
                fx_uploader = new_client w\<rparr>))"

text \<open>The delta is uploaded before the round is marked, and both before the result is handed back.  The fault is that of
  writing the marker.\<close>

definition fl_execute ::
  "'x runner_env \<Rightarrow> ('x, 'w) client_env \<Rightarrow> io_failure option \<Rightarrow> 'x fl_executor \<Rightarrow> job_spec \<Rightarrow> files \<times> 'w \<Rightarrow>
   (decline + string) \<times> files \<times> 'w" where
  "fl_execute E CE fault X job = (\<lambda>(fs, w).
     case fx_runner X of
       None \<Rightarrow> (Inl (FlUnavailable (js_id job) (fx_unavailable X)), fs, w)
     | Some R \<Rightarrow>
     (case lora_run E R job fs of
       (Inl e, fs1) \<Rightarrow> (Inl (FlRun e), fs1, w)
     | (Inr out, fs1) \<Rightarrow>
     (case client_upload CE (fx_uploader X) (js_id job) (lo_artifact_sha256 out) (lo_artifact out) w of
       (Inl e, w1) \<Rightarrow> (Inl (FlUpload e), fs1, w1)
     | (Inr _, w1) \<Rightarrow>
     (case mark_contributed E R (lr_round_id (lo_result out)) fault fs1 of
       (Inl e, fs2) \<Rightarrow> (Inl (FlRun e), fs2, w1)
     | (Inr _, fs2) \<Rightarrow> (Inr (lo_result_json out), fs2, w1)))))"

section \<open>Every job\<close>

text \<open>The training runner is there when the worker was built with its back end.\<close>

record ('x, 'm) executor =
  ex_inner :: "'m nat_job_runner option"
  ex_fl :: "'x fl_executor"

record ('x, 'w, 'a, 'd, 't) coop_env =
  we_fl :: "'x runner_env"
  we_client :: "('x, 'w) client_env"
  we_job :: "('a, 'd, 't) job_env"
  we_result_json :: "training_job_result \<Rightarrow> string + string"
  we_mark_fault :: "io_failure option"
  we_text :: "decline \<Rightarrow> string"

definition nat_runner_from_env ::
  "(string \<times> string) list \<Rightarrow> (string \<Rightarrow> 'm mirror) \<Rightarrow> address \<Rightarrow> 'm nat_job_runner" where
  "nat_runner_from_env vars http me =
     \<lparr>nj_store = (case env_var vars ''CITRATE_ARTIFACT_STORE'' of Some s \<Rightarrow> s | None \<Rightarrow> ''./artifacts''),
      nj_worker = me,
      nj_mirror = (case env_var vars ''CITRATE_ARTIFACT_MIRROR'' of
                     Some m \<Rightarrow> if trim m \<noteq> [] then Some (http m) else None
                   | None \<Rightarrow> None)\<rparr>"

text \<open>With the back end, and without it.\<close>

definition executor_new ::
  "bool \<Rightarrow> (string \<times> string) list \<Rightarrow> (string \<Rightarrow> 'm mirror) \<Rightarrow> address \<Rightarrow> 'x fl_executor \<Rightarrow> ('x, 'm) executor" where
  "executor_new built vars http me fl =
     \<lparr>ex_inner = (if built then Some (nat_runner_from_env vars http me) else None), ex_fl = fl\<rparr>"

definition execute ::
  "('x, 'w, 'a, 'd, 't) coop_env \<Rightarrow> ('x, 'm) executor \<Rightarrow> job_spec \<Rightarrow> files \<times> 'w \<times> 'm \<Rightarrow>
   (decline + string) \<times> files \<times> 'w \<times> 'm" where
  "execute W X job = (\<lambda>(fs, w, m).
     if handles job then
       (let (r, fs1, w1) = fl_execute (we_fl W) (we_client W) (we_mark_fault W) (ex_fl X) job (fs, w) in (r, fs1, w1, m))
     else
       case ex_inner X of
         None \<Rightarrow> (Inl (NoBackend (js_id job) (js_requires job)), fs, w, m)
       | Some R \<Rightarrow>
           (case nat_job_run (we_job W) R job (fs, m) of
              (Inl e, fs1, m1) \<Rightarrow> (Inl (NatRun e), fs1, w, m1)
            | (Inr result, fs1, m1) \<Rightarrow> (map_sum NotWritable id (we_result_json W result), fs1, w, m1)))"

section \<open>The daemon\<close>

datatype startup_failure =
    NoCoordinatorUrl
  | NoProbe string io_failure
  | BadWallet wallet_error
  | NotRegistered client_error

text \<open>What is ready before the first request: the probe, the client and the two runners.\<close>

definition coop_start ::
  "'x runner_env \<Rightarrow> os \<Rightarrow> (train_error \<Rightarrow> string) \<Rightarrow> (io_failure \<Rightarrow> string) \<Rightarrow> bool \<Rightarrow> (string \<Rightarrow> 'm mirror) \<Rightarrow>
   wallet_error + 'x wallet \<Rightarrow> files \<Rightarrow> startup_failure + string \<times> 'x coordinator_client \<times> ('x, 'm) executor" where
  "coop_start E M show_error show_io built http loaded fs =
     (case env_var (os_vars M) ''CITRATE_COORDINATOR_URL'' of
        None \<Rightarrow> Inl NoCoordinatorUrl
      | Some url \<Rightarrow>
          let path = (case env_var (os_vars M) ''CITRATE_PROBE_PATH'' of Some p \<Rightarrow> p | None \<Rightarrow> ''./probe.json'') in
          case read_to_string fs path of
            Inl e \<Rightarrow> Inl (NoProbe path e)
          | Inr probe \<Rightarrow>
              case loaded of
                Inl e \<Rightarrow> Inl (BadWallet e)
              | Inr w \<Rightarrow>
                  Inr (probe, new_client w,
                       executor_new built (os_vars M) http (w_address w) (fl_executor_new E M show_error show_io w fs)))"

text \<open>Registration comes before the first poll, and a worker the coordinator does not register never polls.\<close>

definition coop_main ::
  "('x, 'w) client_env \<Rightarrow> startup_failure + string \<times> 'x coordinator_client \<times> ('x, 'm) executor \<Rightarrow> 'w \<Rightarrow>
   ((startup_failure + poll_event list) \<times> 'w) option" where
  "coop_main CE started w =
     (case started of
        Inl e \<Rightarrow> Some (Inl e, w)
      | Inr (probe, C, X) \<Rightarrow>
          (case client_register CE C probe w of
             (Inl e, w1) \<Rightarrow> Some (Inl (NotRegistered e), w1)
           | (Inr reg, w1) \<Rightarrow> map_option (map_prod Inr id) (poll_loop CE C w1)))"

end
