(* ===== verification/Coop_Worker_Theorems.thy ===== *)
theory Coop_Worker_Theorems
  imports Coop_Worker Fl_Runner_Theorems
begin

text \<open>
  What the daemon does around a federated run: a round is marked exactly by a run whose delta the coordinator took, and so a
  device contributes to a round at most once, over any number of jobs.
\<close>

section \<open>The files of a device\<close>

lemma path_join_split: "path_join a (c # b) = path_join a [] @ c # b"
  by (auto simp: path_join_def)

lemma scratch_is_no_marker [simp]:
  "tq_out (train_request_of E d p) \<noteq> marker H d rid" "marker H d rid \<noteq> tq_out (train_request_of E d p)"
proof -
  define s where "s = path_join (dv_store d) []"
  have "\<exists>x. tq_out (train_request_of E d p) = s @ CHR ''s'' # x"
    by (auto simp: train_request_of_def Let_def s_def path_join_split [of "dv_store d"] path_join_def [of "_ @ _"])
  moreover have "\<exists>x. marker H d rid = s @ CHR ''c'' # x"
    by (auto simp: marker_def s_def path_join_split [of "dv_store d"] path_join_def [of "_ @ _"])
  ultimately show "tq_out (train_request_of E d p) \<noteq> marker H d rid" "marker H d rid \<noteq> tq_out (train_request_of E d p)"
    by auto
qed

text \<open>The trainer leaves the markers of the device alone.\<close>

definition keeps_markers :: "'x runner_env \<Rightarrow> 'x lora_runner \<Rightarrow> bool" where
  "keeps_markers E R \<longleftrightarrow>
     (\<forall>t p fs rid. ln_trainer R = Some t \<longrightarrow>
        fs_exists (snd (tn_train t (train_request_of E (ln_device R) p) fs)) (marker (rd_hex (rv_round E)) (ln_device R) rid) =
        fs_exists fs (marker (rd_hex (rv_round E)) (ln_device R) rid))"

definition contributed :: "'x runner_env \<Rightarrow> 'x lora_runner \<Rightarrow> files \<Rightarrow> b256 \<Rightarrow> bool" where
  "contributed E R fs rid \<longleftrightarrow> fs_exists fs (marker (rd_hex (rv_round E)) (ln_device R) rid)"

definition round_of :: "'x runner_env \<Rightarrow> job_spec \<Rightarrow> b256 option" where
  "round_of E job = map_option lp_round_id (rd_payload (rv_round E) (js_payload job))"

section \<open>One run\<close>

lemma run_keeps_markers:
  assumes "lora_run E R job fs = (r, fs')" "keeps_markers E R"
  shows "contributed E R fs' rid \<longleftrightarrow> contributed E R fs rid"
proof -
  have "contributed E R fs1 rid \<longleftrightarrow> contributed E R fs rid"
    if "ln_trainer R = Some t" "tn_train t (train_request_of E (ln_device R) p) fs = (u, fs1)" for t p u fs1
    using assms(2) that by (metis keeps_markers_def contributed_def snd_conv)
  moreover have "contributed E R (remove_file (tq_out (train_request_of E (ln_device R) p)) fs1) rid \<longleftrightarrow> contributed E R fs1 rid" for p fs1
    by (simp add: contributed_def remove_file_def)
  ultimately show ?thesis
    using assms(1) by (auto simp: lora_run_def Let_def dest!: lora_admit_Inr(6) split: sum.splits option.splits prod.splits if_splits)
qed

lemma run_names_round:
  assumes "lora_run E R job fs = (Inr out, fs')"
  shows "round_of E job = Some (lr_round_id (lo_result out))" "\<not> contributed E R fs (lr_round_id (lo_result out))"
proof -
  obtain p t data fs1 art rt where adm: "lora_admit E R fs job = Inr (p, t)"
    and prod: "produce E (w_address (ln_wallet R)) p fs1 (tq_start_adapter (train_request_of E (ln_device R) p))
       (tq_out (train_request_of E (ln_device R) p)) = Inr (art, rt)"
    and sgn: "sign_result E (ln_wallet R) (unsigned_result E t data art rt (rd_sha256 (rv_round E) (encode_artifact art)))
       (encode_artifact art) = Inr out"
    by (rule lora_run_Inr [OF assms])
  have "ar_round_id art = lp_round_id p"
    by (rule produce_Inr [OF prod]) (auto simp: delta_artifact_def Let_def split: if_splits)
  moreover have "lr_round_id (lo_result out) = ar_round_id art"
    using sign_result_Inr [OF sgn] by (auto simp: unsigned_result_def)
  ultimately have eq: "lr_round_id (lo_result out) = lp_round_id p" by simp
  show "round_of E job = Some (lr_round_id (lo_result out))" "\<not> contributed E R fs (lr_round_id (lo_result out))"
    using lora_admit_Inr(1,5) [OF adm] by (simp_all add: round_of_def contributed_def eq)
qed

lemma fl_execute_Inr:
  assumes "fl_execute E CE fault X job (fs, w) = (Inr result, fs', w')"
  obtains R out fs1 where "fx_runner X = Some R" "lora_run E R job fs = (Inr out, fs1)"
    "client_upload CE (fx_uploader X) (js_id job) (lo_artifact_sha256 out) (lo_artifact out) w = (Inr (), w')"
    "fs' = write_file (marker (rd_hex (rv_round E)) (ln_device R) (lr_round_id (lo_result out))) [] fs1"
    "result = lo_result_json out"
  using assms
  by (auto simp: fl_execute_def mark_contributed_def Let_def split: option.splits sum.splits prod.splits)

lemma fl_execute_Inl:
  assumes "fl_execute E CE fault X job (fs, w) = (Inl e, fs', w')" "fx_runner X = Some R" "keeps_markers E R"
  shows "contributed E R fs' rid \<longleftrightarrow> contributed E R fs rid"
  using assms run_keeps_markers [OF _ assms(3), where job = job and fs = fs]
  by (auto simp: fl_execute_def mark_contributed_def Let_def split: option.splits sum.splits prod.splits)

lemma contributed_write:
  "contributed E R (write_file p bs fs) rid \<longleftrightarrow> contributed E R fs rid \<or> p = marker (rd_hex (rv_round E)) (ln_device R) rid"
  by (auto simp: contributed_def write_file_def)

lemma execute_marks:
  assumes "fl_execute E CE fault X job (fs, w) = (r, fs', w')" "fx_runner X = Some R" "keeps_markers E R"
  shows "contributed E R fs rid \<Longrightarrow> contributed E R fs' rid"
    and "\<not> isl r \<Longrightarrow> round_of E job = Some rid \<Longrightarrow> \<not> contributed E R fs rid \<and> contributed E R fs' rid"
proof -
  have "(contributed E R fs rid \<longrightarrow> contributed E R fs' rid) \<and>
    (\<not> isl r \<longrightarrow> round_of E job = Some rid \<longrightarrow> \<not> contributed E R fs rid \<and> contributed E R fs' rid)"
  proof (cases r)
    case (Inl e)
    with assms fl_execute_Inl show ?thesis by (metis sum.disc(1))
  next
    case (Inr result)
    with assms(1) obtain out fs1 where *: "lora_run E R job fs = (Inr out, fs1)"
      "fs' = write_file (marker (rd_hex (rv_round E)) (ln_device R) (lr_round_id (lo_result out))) [] fs1"
      using assms(2) by (auto elim: fl_execute_Inr)
    show ?thesis
      using run_names_round [OF *(1)] run_keeps_markers [OF *(1) assms(3)] by (auto simp: *(2) contributed_write)
  qed
  then show "contributed E R fs rid \<Longrightarrow> contributed E R fs' rid"
    and "\<not> isl r \<Longrightarrow> round_of E job = Some rid \<Longrightarrow> \<not> contributed E R fs rid \<and> contributed E R fs' rid"
    by blast+
qed

section \<open>Many jobs\<close>

text \<open>The jobs of a device run one after another; each comes with what happens to its marker.\<close>

fun fl_jobs ::
  "'x runner_env \<Rightarrow> ('x, 'w) client_env \<Rightarrow> 'x fl_executor \<Rightarrow> (io_failure option \<times> job_spec) list \<Rightarrow> files \<times> 'w \<Rightarrow>
   (decline + string) list \<times> files \<times> 'w" where
  "fl_jobs E CE X [] s = ([], s)"
| "fl_jobs E CE X ((fault, job) # jobs) s =
     (let (r, s1) = fl_execute E CE fault X job s; (rs, s2) = fl_jobs E CE X jobs s1 in (r # rs, s2))"

definition accepted_in :: "'x runner_env \<Rightarrow> b256 \<Rightarrow> (io_failure option \<times> job_spec) \<times> (decline + string) \<Rightarrow> bool" where
  "accepted_in E rid = (\<lambda>((fault, job), r). \<not> isl r \<and> round_of E job = Some rid)"

lemma fl_jobs_accepted:
  assumes "fx_runner X = Some R" "keeps_markers E R"
  shows "fl_jobs E CE X jobs (fs, w) = (rs, fs', w') \<Longrightarrow>
    length (filter (accepted_in E rid) (zip jobs rs)) \<le> (if contributed E R fs rid then 0 else 1)"
proof (induction jobs arbitrary: fs w rs)
  case (Cons e jobs)
  obtain fault job where e: "e = (fault, job)" by fastforce
  obtain r fs1 w1 where r: "fl_execute E CE fault X job (fs, w) = (r, fs1, w1)" by (metis surj_pair)
  obtain rs1 where rs: "rs = r # rs1" "fl_jobs E CE X jobs (fs1, w1) = (rs1, fs', w')"
    using Cons.prems by (auto simp: e r split: prod.splits)
  show ?case
    using Cons.IH [OF rs(2)] execute_marks [OF r assms, of rid]
    by (auto simp: rs(1) e accepted_in_def split: if_splits)
qed simp

section \<open>A device at work\<close>

definition coop_ex_client :: "(bytes, unit) client_env" where
  "coop_ex_client =
     \<lparr>ce_keccak = (\<lambda>_. 7), ce_wallet_deps = sample_wallet_deps (RlpStr []),
      ce_send = (\<lambda>m w. (Inr \<lparr>rp_status = 201, rp_retry_after = None, rp_body = None\<rparr>, w)), ce_nanos = (\<lambda>w. (0, w)),
      ce_sleep = (\<lambda>n w. w), ce_parse_register = (\<lambda>_. Inl ''''), ce_parse_job = (\<lambda>_. Inr None),
      ce_parse_expiry = (\<lambda>_. Inl ''''), ce_start = (\<lambda>job w. w), ce_advance = (\<lambda>w. (Some (Inl ''''), w)),
      ce_continue = (\<lambda>w. False)\<rparr>"

definition coop_ex :: "bytes \<Rightarrow> bytes fl_executor" where
  "coop_ex sbs =
     \<lparr>fx_runner = Some (fl_ex_runner sbs), fx_unavailable = '''', fx_uploader = new_client (ln_wallet (fl_ex_runner sbs))\<rparr>"

lemma coop_ex_runner [simp]: "fx_runner (coop_ex sbs) = Some (fl_ex_runner sbs)"
  by (simp add: coop_ex_def)

lemma coop_ex_uploads: "client_upload coop_ex_client (fx_uploader (coop_ex sbs)) job sha bs () = (Inr (), ())"
  by (simp add: client_upload_def client_sign_def sign_digest_recoverable_def coop_ex_client_def sample_wallet_deps_def
      coop_ex_def new_client_def fl_ex_runner_def success_def)

lemma coop_ex_keeps: "keeps_markers (fl_ex_env sbs res) (fl_ex_runner sbs)"
  by (auto simp: keeps_markers_def fl_ex_trainer_def write_file_def) (auto simp: fl_ex_runner_def fl_ex_trainer_def write_file_def)

lemma coop_ex_runs:
  obtains sbs res result fs' where
    "fl_execute (fl_ex_env sbs res) coop_ex_client None (coop_ex sbs) fl_ex_job (fl_ex_files sbs, ()) = (Inr result, fs', ())"
proof (rule fl_ex_run)
  fix sbs start res out fs'
  assume run: "lora_run (fl_ex_env sbs res) (fl_ex_runner sbs) fl_ex_job (fl_ex_files sbs) = (Inr out, fs')"
  have "fl_execute (fl_ex_env sbs res) coop_ex_client None (coop_ex sbs) fl_ex_job (fl_ex_files sbs, ()) =
      (Inr (lo_result_json out), write_file (marker lower_hex fl_ex_device (lr_round_id (lo_result out))) [] fs', ())"
    by (simp add: fl_execute_def run coop_ex_uploads mark_contributed_def)
  then show thesis by (rule that)
qed

lemma coop_ex_round: "round_of (fl_ex_env sbs res) fl_ex_job = Some 7"
  by (simp add: round_of_def)

section \<open>Properties\<close>

text \<open>The order of a federated job.  A result is handed back, for the client to submit, only after the run produced it, the
  coordinator answered the upload of its delta with success and the round was marked on the device; the round was not marked
  before, and its marker is the only file written after the run.\<close>

theorem result_follows_its_upload:
  assumes "fl_execute E CE fault X job (fs, w) = (Inr result, fs', w')"
  shows "\<exists>R out fs1 rid. fx_runner X = Some R \<and> lora_run E R job fs = (Inr out, fs1) \<and> result = lo_result_json out \<and>
    round_of E job = Some rid \<and> \<not> contributed E R fs rid \<and>
    client_upload CE (fx_uploader X) (js_id job) (lo_artifact_sha256 out) (lo_artifact out) w = (Inr (), w') \<and>
    fs' = write_file (marker (rd_hex (rv_round E)) (ln_device R) rid) [] fs1"
  by (rule fl_execute_Inr [OF assms]) (use run_names_round in blast)

text \<open>C8: One contribution a round.  However many jobs of however many rounds a device is given one after another, whatever
  the coordinator answers and whichever writes fail, it hands back at most one result for each round, and none for a round it
  had already contributed to, as long as the trainer leaves the device's markers alone.\<close>

theorem round_is_contributed_once:
  assumes "fx_runner X = Some R" "keeps_markers E R" "fl_jobs E CE X jobs (fs, w) = (rs, fs', w')"
  shows "length (filter (accepted_in E rid) (zip jobs rs)) \<le> (if contributed E R fs rid then 0 else 1)"
  by (rule fl_jobs_accepted [OF assms])

theorem result_follows_its_upload_witness:
  "\<exists>sbs res rid. round_of (fl_ex_env sbs res) fl_ex_job = Some rid \<and> \<not> contributed (fl_ex_env sbs res) (fl_ex_runner sbs) (fl_ex_files sbs) rid"
  by (rule coop_ex_runs) (drule result_follows_its_upload, auto)

theorem round_is_contributed_once_witness:
  "\<exists>sbs res result r s. fl_jobs (fl_ex_env sbs res) coop_ex_client (coop_ex sbs) [(None, fl_ex_job), (None, fl_ex_job)]
      (fl_ex_files sbs, ()) = ([Inr result, r], s) \<and> isl r"
proof (rule coop_ex_runs)
  fix sbs res result fs'
  assume run: "fl_execute (fl_ex_env sbs res) coop_ex_client None (coop_ex sbs) fl_ex_job (fl_ex_files sbs, ()) = (Inr result, fs', ())"
  obtain r fs2 w2 where "fl_execute (fl_ex_env sbs res) coop_ex_client None (coop_ex sbs) fl_ex_job (fs', ()) = (r, fs2, w2)"
    by (metis surj_pair)
  with run have two: "fl_jobs (fl_ex_env sbs res) coop_ex_client (coop_ex sbs) [(None, fl_ex_job), (None, fl_ex_job)]
      (fl_ex_files sbs, ()) = ([Inr result, r], fs2, w2)"
    by simp
  have "isl r"
    using round_is_contributed_once [OF coop_ex_runner coop_ex_keeps two, of 7]
    by (auto simp: accepted_in_def coop_ex_round split: if_splits)
  with two show ?thesis by blast
qed

end
