(* ===== verification/Coordinator_Boot.thy ===== *)
theory Coordinator_Boot
  imports Api_Theorems Fl_Upload Local_Files
begin

text \<open>
  How the coordinator starts, \<^verbatim>\<open>training-coordinator/src/main.rs\<close>: the admission policy from the environment, the state from its
  file, the catalogue of jobs on top of it, and the cap of federated uploads.

  The environment is a map from names to their values.  The catalogue's parser and the fate of each save are parameters.
\<close>

section \<open>The admission policy\<close>

datatype boot_error =
    BadWorkerList string
  | BadOpenTier string
  | BadNumber string string
  | ZeroNumber string
  | StateCorrupt
  | BootSave string
  | CatalogueUnread io_failure
  | CatalogueUnparseable string
  | DeltaDir string

text \<open>A positive count, or the default where the variable is not set.\<close>

definition positive_var :: "(string \<Rightarrow> string option) \<Rightarrow> string \<Rightarrow> nat \<Rightarrow> boot_error + nat" where
  "positive_var env name default_value =
     (case env name of
        None \<Rightarrow> Inr default_value
      | Some raw \<Rightarrow>
          (case parse_uint (2 ^ 64) (trim raw) of
             None \<Rightarrow> Inl (BadNumber name raw)
           | Some n \<Rightarrow> if n = 0 then Inl (ZeroNumber name) else Inr n))"

definition trusted_var :: "codec \<Rightarrow> (string \<Rightarrow> string option) \<Rightarrow> boot_error + address set" where
  "trusted_var H env =
     (case env ''CITRATE_COORDINATOR_H01_WORKERS'' of
        None \<Rightarrow> Inr (po_trusted_h01 default_policy)
      | Some raw \<Rightarrow> map_sum BadWorkerList id (parse_address_list (hx_decode H) raw))"

definition tier_var :: "(string \<Rightarrow> string option) \<Rightarrow> boot_error + capability" where
  "tier_var env =
     (case env ''CITRATE_COORDINATOR_OPEN_TIER'' of
        None \<Rightarrow> Inr (po_open_tier default_policy)
      | Some raw \<Rightarrow>
          if trim raw = ''probe'' then Inr Probe
          else if trim raw = ''federated'' then Inr Federated
          else Inl (BadOpenTier (trim raw)))"

definition policy_from_env :: "codec \<Rightarrow> (string \<Rightarrow> string option) \<Rightarrow> boot_error + policy" where
  "policy_from_env H env =
     (case trusted_var H env of
        Inl e \<Rightarrow> Inl e
      | Inr trusted \<Rightarrow>
      (case tier_var env of
        Inl e \<Rightarrow> Inl e
      | Inr tier \<Rightarrow>
      (case positive_var env ''CITRATE_COORDINATOR_MAX_WORKERS_PER_SOURCE'' (po_max_workers_per_source default_policy) of
        Inl e \<Rightarrow> Inl e
      | Inr workers \<Rightarrow>
      (case positive_var env ''CITRATE_COORDINATOR_MAX_LEASES_PER_SOURCE'' (po_max_leases_per_source default_policy) of
        Inl e \<Rightarrow> Inl e
      | Inr leases \<Rightarrow>
          Inr (default_policy\<lparr>po_trusted_h01 := trusted, po_open_tier := tier, po_max_workers_per_source := workers,
                              po_max_leases_per_source := leases\<rparr>)))))"

section \<open>The catalogue\<close>

text \<open>A job already recorded when loading starts is left alone; each other one is added, and the first failed save ends the
  boot.\<close>

fun load_jobs ::
  "'f deps \<Rightarrow> (job_id, job_record) btree \<Rightarrow> (save_fault \<times> job_spec) list \<Rightarrow> nat \<Rightarrow> 'f coordinator \<Rightarrow>
   (string + nat) \<times> 'f coordinator" where
  "load_jobs D known [] added c = (Inr added, c)"
| "load_jobs D known ((fault, spec) # rest) added c =
     (if bt_has known (js_id spec) then load_jobs D known rest added c
      else
        case api_add_job D fault spec c of
          (Inl e, c1) \<Rightarrow> (Inl e, c1)
        | (Inr _, c1) \<Rightarrow> load_jobs D known rest (added + 1) c1)"

definition load_catalogue ::
  "'f deps \<Rightarrow> (string \<Rightarrow> string + job_spec list) \<Rightarrow> files \<Rightarrow> save_fault list \<Rightarrow> string \<Rightarrow> 'f coordinator \<Rightarrow>
   (boot_error + nat) \<times> 'f coordinator" where
  "load_catalogue D parse fs faults path c =
     (case read_to_string fs path of
        Inl e \<Rightarrow> (Inl (CatalogueUnread e), c)
      | Inr raw \<Rightarrow>
          (case parse raw of
             Inl e \<Rightarrow> (Inl (CatalogueUnparseable e), c)
           | Inr specs \<Rightarrow>
               (let (r, c1) = load_jobs D (st_jobs (co_state c)) (zip (faults @ replicate (length specs) NoFault) specs) 0 c
                in (map_sum BootSave id r, c1))))"

section \<open>Federated uploads\<close>

text \<open>No directory, no route; the cap of an artifact is the operator's or the default.\<close>

definition uploads_from_env ::
  "(string \<Rightarrow> string option) \<Rightarrow> (string \<Rightarrow> string option) \<Rightarrow> boot_error + (string \<times> u64) option" where
  "uploads_from_env mkdir env =
     (case env ''CITRATE_COORDINATOR_FL_DELTA_DIR'' of
        None \<Rightarrow> Inr None
      | Some dir \<Rightarrow>
          (case (case env ''CITRATE_COORDINATOR_FL_MAX_DELTA_BYTES'' of
                   None \<Rightarrow> Inr DEFAULT_MAX_DELTA_BYTES
                 | Some raw \<Rightarrow>
                     (case parse_uint (2 ^ 64) (trim raw) of
                        None \<Rightarrow> Inl (BadNumber ''CITRATE_COORDINATOR_FL_MAX_DELTA_BYTES'' raw)
                      | Some n \<Rightarrow> Inr (of_nat n))) of
             Inl e \<Rightarrow> Inl e
           | Inr cap \<Rightarrow> (case mkdir dir of Some e \<Rightarrow> Inl (DeltaDir e) | None \<Rightarrow> Inr (Some (dir, cap)))))"

section \<open>The boot\<close>

definition state_path :: "(string \<Rightarrow> string option) \<Rightarrow> string" where
  "state_path env = (case env ''CITRATE_COORDINATOR_STATE'' of Some p \<Rightarrow> p | None \<Rightarrow> ''./coordinator-state.json'')"

definition bind_address :: "(string \<Rightarrow> string option) \<Rightarrow> string" where
  "bind_address env = (case env ''CITRATE_COORDINATOR_BIND'' of Some b \<Rightarrow> b | None \<Rightarrow> ''127.0.0.1:8088'')"

text \<open>What is served: the coordinator and, where they are on, the federated uploads.  The disk is the one the state path
  names.\<close>

definition coordinator_boot ::
  "'f deps \<Rightarrow> codec \<Rightarrow> (string \<Rightarrow> string option) \<Rightarrow> (string \<Rightarrow> string + job_spec list) \<Rightarrow> (string \<Rightarrow> string option) \<Rightarrow> files \<Rightarrow>
   u64 \<Rightarrow> save_fault \<Rightarrow> save_fault list \<Rightarrow> (string \<Rightarrow> 'f disk) \<Rightarrow>
   boot_error + 'f coordinator \<times> (string \<times> u64) option" where
  "coordinator_boot D H env parse mkdir fs now fault faults disk_at =
     (case policy_from_env H env of
        Inl e \<Rightarrow> Inl e
      | Inr p \<Rightarrow>
      (case open_with D p now fault (disk_at (state_path env)) of
        None \<Rightarrow> Inl StateCorrupt
      | Some (Inl e) \<Rightarrow> Inl (BootSave e)
      | Some (Inr c) \<Rightarrow>
      (case (case env ''CITRATE_COORDINATOR_JOBS'' of
               None \<Rightarrow> (Inr 0, c)
             | Some path \<Rightarrow> load_catalogue D parse fs faults path c) of
        (Inl e, _) \<Rightarrow> Inl e
      | (Inr _, c1) \<Rightarrow> map_sum id (Pair c1) (uploads_from_env mkdir env))))"

end
