(* ===== verification/Coordinator_Boot_Theorems.thy ===== *)
theory Coordinator_Boot_Theorems
  imports Coordinator_Boot
begin

text \<open>
  A boot serves what was saved: the recorded jobs keep their state, whatever the catalogue says of them, and what is
  served is on the disk before the first request.
\<close>

section \<open>The policy\<close>

lemma positive_var_Inr: "positive_var env name d = Inr n \<Longrightarrow> 0 < d \<Longrightarrow> 0 < n"
  by (auto simp: positive_var_def split: option.splits if_splits)

lemma tier_var_Inr: "tier_var env = Inr t \<Longrightarrow> t \<le> Federated"
  by (auto simp: tier_var_def default_policy_def capability_order split: option.splits if_splits)

lemma policy_from_env_Inr:
  assumes "policy_from_env H env = Inr p"
  shows "po_open_tier p \<le> Federated" "0 < po_max_workers_per_source p" "0 < po_max_leases_per_source p"
    "trusted_var H env = Inr (po_trusted_h01 p)"
proof -
  have d: "0 < po_max_workers_per_source default_policy" "0 < po_max_leases_per_source default_policy"
    by (simp_all add: default_policy_def DEFAULT_MAX_WORKERS_PER_SOURCE_def DEFAULT_MAX_LEASES_PER_SOURCE_def)
  obtain trusted tier workers leases where v: "trusted_var H env = Inr trusted" "tier_var env = Inr tier"
    "positive_var env ''CITRATE_COORDINATOR_MAX_WORKERS_PER_SOURCE'' (po_max_workers_per_source default_policy) = Inr workers"
    "positive_var env ''CITRATE_COORDINATOR_MAX_LEASES_PER_SOURCE'' (po_max_leases_per_source default_policy) = Inr leases"
    "p = default_policy\<lparr>po_trusted_h01 := trusted, po_open_tier := tier, po_max_workers_per_source := workers,
                        po_max_leases_per_source := leases\<rparr>"
    using assms unfolding policy_from_env_def by (auto split: sum.splits)
  show "po_open_tier p \<le> Federated" "0 < po_max_workers_per_source p" "0 < po_max_leases_per_source p"
    "trusted_var H env = Inr (po_trusted_h01 p)"
    using tier_var_Inr [OF v(2)] positive_var_Inr [OF v(3) d(1)] positive_var_Inr [OF v(4) d(2)] v(1) by (simp_all add: v(5))
qed

section \<open>Adding a job\<close>

definition same_record :: "job_record \<Rightarrow> job_record \<Rightarrow> bool" where
  "same_record r r' \<longleftrightarrow> r\<lparr>jr_persisted_expiry := 0\<rparr> = r'\<lparr>jr_persisted_expiry := 0\<rparr>"

lemma same_record_refl [simp]: "same_record r r"
  by (simp add: same_record_def)

lemma same_record_trans: "same_record a b \<Longrightarrow> same_record b c \<Longrightarrow> same_record a c"
  by (simp add: same_record_def)

lemma same_recordD:
  "same_record r r' \<Longrightarrow> jr_spec r' = jr_spec r \<and> jr_status r' = jr_status r \<and> jr_result r' = jr_result r"
  by (cases r; cases r') (simp add: same_record_def)

lemma same_record_persisted: "same_record r (note_persisted r)"
  by (auto simp: same_record_def note_persisted_def split: job_status.split)

text \<open>Two states that agree on the job \<open>i\<close>.\<close>

definition job_agrees :: "job_id \<Rightarrow> state \<Rightarrow> state \<Rightarrow> bool" where
  "job_agrees i s s' \<longleftrightarrow> rel_option same_record (bt_get (st_jobs s) i) (bt_get (st_jobs s') i)"

lemma job_agrees_refl [simp]: "job_agrees i s s"
  by (simp add: job_agrees_def option.rel_refl)

lemma job_agrees_trans: "job_agrees i s s' \<Longrightarrow> job_agrees i s' s'' \<Longrightarrow> job_agrees i s s''"
  unfolding job_agrees_def by (auto simp: option_rel_Some1 elim!: option.rel_cases dest: same_record_trans)

lemma persist_jobs:
  "job_agrees i (co_state c) (co_state (snd (persist D fault c)))"
  "st_policy (co_state (snd (persist D fault c))) = st_policy (co_state c)"
proof -
  have "job_agrees i (co_state c) (snd (take_dirty (co_state c)))"
    by (auto simp: job_agrees_def take_dirty_get same_record_persisted option.rel_map intro!: option.rel_refl_strong)
  then show "job_agrees i (co_state c) (co_state (snd (persist D fault c)))"
    by (simp add: persist_def Let_def case_prod_unfold mark_dirty_def job_agrees_def split: sum.split)
  show "st_policy (co_state (snd (persist D fault c))) = st_policy (co_state c)"
    by (simp add: persist_def Let_def case_prod_unfold mark_dirty_def take_dirty_def split: sum.split)
qed

lemma add_effect:
  "j \<noteq> js_id spec \<Longrightarrow> job_agrees j (co_state c) (co_state (snd (api_add_job D fault spec c)))"
  "\<exists>r. bt_get (st_jobs (co_state (snd (api_add_job D fault spec c)))) (js_id spec) = Some r \<and> jr_spec r = spec \<and>
     jr_status r = Pending \<and> jr_result r = None"
  "st_policy (co_state (snd (api_add_job D fault spec c))) = st_policy (co_state c)"
proof -
  define c1 where "c1 = c\<lparr>co_state := add_job spec (co_state c)\<rparr>"
  have eq: "snd (api_add_job D fault spec c) = snd (persist D fault c1)"
    by (simp add: api_add_job_def mutate_def on_state_def case_prod_unfold Let_def c1_def)
  note p = persist_jobs [where c = c1 and D = D and fault = fault]
  have "job_agrees j (co_state c) (co_state c1)" if "j \<noteq> js_id spec" for j
    using that by (simp add: job_agrees_def c1_def add_job_def bt_get_insert option.rel_refl)
  then show "j \<noteq> js_id spec \<Longrightarrow> job_agrees j (co_state c) (co_state (snd (api_add_job D fault spec c)))"
    unfolding eq using p(1) job_agrees_trans by blast
  from p(1) [where i = "js_id spec"]
  show "\<exists>r. bt_get (st_jobs (co_state (snd (api_add_job D fault spec c)))) (js_id spec) = Some r \<and> jr_spec r = spec \<and>
     jr_status r = Pending \<and> jr_result r = None"
    unfolding eq
    by (auto simp: job_agrees_def c1_def add_job_def bt_get_insert option_rel_Some1 dest!: same_recordD)
  show "st_policy (co_state (snd (api_add_job D fault spec c))) = st_policy (co_state c)"
    by (simp add: eq p(2)) (simp add: c1_def add_job_def)
qed

section \<open>The catalogue\<close>

text \<open>Loading leaves the jobs known before alone, adds only jobs of the catalogue, and ends in a saved state.\<close>

definition fresh_from :: "job_spec list \<Rightarrow> state \<Rightarrow> job_id \<Rightarrow> bool" where
  "fresh_from specs s i \<longleftrightarrow>
     (\<exists>r. bt_get (st_jobs s) i = Some r \<and> jr_spec r \<in> set specs \<and> js_id (jr_spec r) = i \<and> jr_status r = Pending \<and> jr_result r = None)"

lemma fresh_agrees: "fresh_from specs s i \<Longrightarrow> job_agrees i s s' \<Longrightarrow> fresh_from specs s' i"
  by (auto simp: fresh_from_def job_agrees_def option_rel_Some1 dest!: same_recordD)

lemma fresh_mono: "fresh_from specs s i \<Longrightarrow> set specs \<subseteq> set specs' \<Longrightarrow> fresh_from specs' s i"
  by (auto simp: fresh_from_def)

lemma load_jobs_effect:
  assumes "format_ok D"
  shows "load_jobs D known fspecs n c = (r, c') \<Longrightarrow> service_ok D c \<Longrightarrow>
    service_ok D c' \<and> st_policy (co_state c') = st_policy (co_state c) \<and>
    (\<forall>i. bt_has known i \<or> i \<notin> js_id ` snd ` set fspecs \<longrightarrow> job_agrees i (co_state c) (co_state c')) \<and>
    (\<forall>m. r = Inr m \<longrightarrow> (\<forall>i \<in> js_id ` snd ` set fspecs. \<not> bt_has known i \<longrightarrow> fresh_from (map snd fspecs) (co_state c') i)) \<and>
    (\<forall>m. r = Inr m \<longrightarrow> \<not> st_dirty (co_state c) \<longrightarrow> \<not> st_dirty (co_state c'))"
proof (induction fspecs arbitrary: n c)
  case Nil
  then show ?case by auto
next
  case (Cons fs rest)
  obtain fault spec where fs: "fs = (fault, spec)" by fastforce
  show ?case
  proof (cases "bt_has known (js_id spec)")
    case True
    with Cons.prems have "load_jobs D known rest n c = (r, c')" by (simp add: fs)
    from Cons.IH [OF this Cons.prems(2)] show ?thesis
      using True by (auto simp: fs intro: fresh_mono)
  next
    case False
    define c1 where "c1 = snd (api_add_job D fault spec c)"
    have ok1: "service_ok D c1" unfolding c1_def by (rule add_job_ok' [OF assms Cons.prems(2)])
    note eff = add_effect [where D = D and fault = fault and spec = spec and c = c, folded c1_def]
    show ?thesis
    proof (cases "fst (api_add_job D fault spec c)")
      case (Inl e)
      then have "c' = c1" "r = Inl e"
        using Cons.prems(1) False by (auto simp: fs c1_def split: prod.splits)
      moreover have "job_agrees i (co_state c) (co_state c1)" if "bt_has known i \<or> i \<noteq> js_id spec" for i
        using that False by (intro eff(1)) auto
      ultimately show ?thesis using ok1 eff(3) by (auto simp: fs)
    next
      case (Inr u)
      then have rec: "load_jobs D known rest (n + 1) c1 = (r, c')"
        using Cons.prems(1) False by (auto simp: fs c1_def split: prod.splits)
      have clean: "\<not> st_dirty (co_state c1)"
        using mutate_ok(2) [OF assms Cons.prems(2), where f = "on_state (\<lambda>st. ((), add_job spec st))", OF add_job_moves] Inr unfolding api_add_job_def c1_def by blast
      note ih = Cons.IH [OF rec ok1]
      have new: "fresh_from [spec] (co_state c1) (js_id spec)" using eff(2) by (auto simp: fresh_from_def)
      have "fresh_from (map snd (fs # rest)) (co_state c') (js_id spec)" if "r = Inr m" for m
      proof (cases "js_id spec \<in> js_id ` snd ` set rest")
        case True
        with ih False that have "fresh_from (map snd rest) (co_state c') (js_id spec)" by blast
        then show ?thesis by (rule fresh_mono) auto
      next
        case False
        with ih have "job_agrees (js_id spec) (co_state c1) (co_state c')" by blast
        from fresh_mono [OF fresh_agrees [OF new this]] show ?thesis by (simp add: fs)
      qed
      moreover have "job_agrees i (co_state c) (co_state c')" if "bt_has known i \<or> i \<notin> js_id ` snd ` set (fs # rest)" for i
      proof (rule job_agrees_trans)
        show "job_agrees i (co_state c) (co_state c1)" using that False by (intro eff(1)) (auto simp: fs)
        show "job_agrees i (co_state c1) (co_state c')" using that ih by (auto simp: fs)
      qed
      moreover have "fresh_from (map snd (fs # rest)) (co_state c') i"
        if "r = Inr m" "i \<in> js_id ` snd ` set rest" "\<not> bt_has known i" for i m
      proof -
        have "fresh_from (map snd rest) (co_state c') i" using that ih by blast
        then show ?thesis by (rule fresh_mono) auto
      qed
      ultimately show ?thesis using ih eff(3) clean by (auto simp: fs)
    qed
  qed
qed

section \<open>The boot\<close>

lemma load_catalogue_effect:
  assumes "format_ok D" "load_catalogue D parse fs faults path c = (Inr n, c')" "service_ok D c"
  obtains specs raw where "read_to_string fs path = Inr raw" "parse raw = Inr specs" "service_ok D c'"
    "st_policy (co_state c') = st_policy (co_state c)"
    "\<And>i. bt_has (st_jobs (co_state c)) i \<or> i \<notin> js_id ` set specs \<Longrightarrow> job_agrees i (co_state c) (co_state c')"
    "\<And>i. i \<in> js_id ` set specs \<Longrightarrow> \<not> bt_has (st_jobs (co_state c)) i \<Longrightarrow> fresh_from specs (co_state c') i"
    "\<not> st_dirty (co_state c) \<Longrightarrow> \<not> st_dirty (co_state c')"
proof -
  obtain raw specs where r: "read_to_string fs path = Inr raw" "parse raw = Inr specs"
    "load_jobs D (st_jobs (co_state c)) (zip (faults @ replicate (length specs) NoFault) specs) 0 c = (Inr n, c')"
    using assms(2) by (auto simp: load_catalogue_def map_sum_def split: sum.splits prod.splits)
  have s: "map snd (zip (faults @ replicate (length specs) NoFault) specs) = specs" by (simp add: map_snd_zip_take)
  then have "snd ` set (zip (faults @ replicate (length specs) NoFault) specs) = set specs"
    by (metis list.set_map)
  with load_jobs_effect [OF assms(1) r(3) assms(3), unfolded s] show thesis
    by (intro that [OF r(1,2)]) auto
qed

text \<open>A job of the saved state as the booted coordinator holds it: with its state, except that a lease the policy no longer
  allows is free again and one still running is given the grace period.\<close>

definition booted_record :: "policy \<Rightarrow> u64 \<Rightarrow> job_record \<Rightarrow> job_record" where
  "booted_record p now r =
     (if out_of_policy p r then r\<lparr>jr_status := Pending\<rparr>
      else r\<lparr>jr_status := grace_status (po_lease_window_secs p) now (jr_status r)\<rparr>)"

lemma bt_map_keys: "map fst (bt_map f m) = map fst m"
  by (induction m) (auto simp: bt_map_def)

lemma revoke_keys: "map fst (st_jobs (fold revoke_lease js st)) = map fst (st_jobs st)"
  by (induction js arbitrary: st) (simp_all add: revoke_lease_def bt_modify_as_map bt_map_keys)

lemma boot_keys: "map fst (st_jobs (boot p now st)) = map fst (st_jobs st)"
  by (simp add: boot_def grace_live_leases_def revoke_out_of_policy_def Let_def bt_map_keys revoke_keys)

lemma boot_booted:
  assumes "machine D (boot p now st)"
  shows "bt_get (st_jobs (boot p now st)) i = map_option (booted_record p now) (bt_get (st_jobs st) i)"
proof -
  have "bt_ok (st_jobs st)" using bt_ok_reachable [OF assms] by (simp only: bt_ok_def boot_keys)
  then show ?thesis by (simp add: boot_get booted_record_def cong: option.map_cong)
qed

lemma opened:
  assumes "format_ok D" "Api_Theorems.file_ok D file" "load_file (d_de D) file = Some st"
    and "open_with D p now fault (crashed file dk) = Some (Inr c)"
  shows "service_ok D c" "\<not> st_dirty (co_state c)" "st_policy (co_state c) = p" "machine D (boot p now st)"
    "job_agrees i (boot p now st) (co_state c)"
proof -
  show ok: "service_ok D c" by (rule open_ok [OF assms(1,4,2)])
  show m: "machine D (boot p now st)" using assms(2,3) by (auto simp: Api_Theorems.file_ok_def)
  let ?c = "\<lparr>co_state = boot p now st, co_disk = crashed file dk, co_admission = new_admission, co_budget = new_budget\<rparr>"
  have c: "c = snd (persist D fault ?c)" "\<exists>u. fst (persist D fault ?c) = Inr u"
    using assms(3,4) by (auto simp: open_with_def load_def crashed_def Let_def case_prod_unfold map_sum_def split: sum.splits)
  then show "\<not> st_dirty (co_state c)"
    by (auto simp: persist_def take_dirty_def Let_def case_prod_unfold split: sum.splits if_splits)
  show "st_policy (co_state c) = p" "job_agrees i (boot p now st) (co_state c)"
    using persist_jobs [where c = ?c and D = D and fault = fault] by (simp_all add: c(1))
qed

lemma booted:
  assumes "coordinator_boot D H env parse mkdir fs now fault faults disk_at = Inr (c, up)"
  obtains p c0 n where "policy_from_env H env = Inr p" "open_with D p now fault (disk_at (state_path env)) = Some (Inr c0)"
    "(case env ''CITRATE_COORDINATOR_JOBS'' of None \<Rightarrow> (Inr 0, c0) | Some path \<Rightarrow> load_catalogue D parse fs faults path c0) = (Inr n, c)"
  using assms by (auto simp: coordinator_boot_def map_sum_def split: sum.splits option.splits prod.splits)

lemma kept_record:
  assumes "machine D (boot p now st)" "bt_get (st_jobs st) i = Some r" "job_agrees i (boot p now st) s"
  shows "\<exists>r'. bt_get (st_jobs s) i = Some r' \<and> same_record (booted_record p now r) r'"
  using assms(2,3) boot_booted [OF assms(1), of i] by (auto simp: job_agrees_def option_rel_Some1)

lemma agrees_has: "job_agrees i s s' \<Longrightarrow> bt_has (st_jobs s') i = bt_has (st_jobs s) i"
  by (auto simp: job_agrees_def bt_has_def elim: option.rel_cases)

lemma boot_has: "bt_has (st_jobs (boot p now st)) i = bt_has (st_jobs st) i" if "machine D (boot p now st)"
  by (simp add: bt_has_def boot_booted [OF that])

text \<open>C20: A boot serves what was saved.  When the coordinator comes up on what a power loss left on the disk, the state it
  serves is valid and saved, under the policy of the environment, whose open tier is at most Federated and whose caps are
  positive; every recorded job keeps its state, whatever the catalogue says of it; and every other job is a pending one of
  the catalogue.\<close>

theorem boot_serves_what_was_saved:
  assumes "format_ok D" "Api_Theorems.file_ok D file" "disk_at (state_path env) = crashed file dk" "load_file (d_de D) file = Some st"
    and "coordinator_boot D H env parse mkdir fs now fault faults disk_at = Inr (c, up)"
  shows "\<exists>p. policy_from_env H env = Inr p \<and> po_open_tier p \<le> Federated \<and> 0 < po_max_workers_per_source p \<and>
    0 < po_max_leases_per_source p \<and> st_policy (co_state c) = p \<and> service_ok D c \<and> \<not> st_dirty (co_state c) \<and>
    (\<forall>i r. bt_get (st_jobs st) i = Some r \<longrightarrow>
       (\<exists>r'. bt_get (st_jobs (co_state c)) i = Some r' \<and> same_record (booted_record p now r) r')) \<and>
    (\<forall>i. bt_has (st_jobs (co_state c)) i \<longrightarrow> \<not> bt_has (st_jobs st) i \<longrightarrow>
       (\<exists>path raw specs. env ''CITRATE_COORDINATOR_JOBS'' = Some path \<and> read_to_string fs path = Inr raw \<and>
          parse raw = Inr specs \<and> fresh_from specs (co_state c) i))"
proof -
  obtain p c0 n where p: "policy_from_env H env = Inr p"
    and o: "open_with D p now fault (crashed file dk) = Some (Inr c0)"
    and l: "(case env ''CITRATE_COORDINATOR_JOBS'' of None \<Rightarrow> (Inr 0, c0)
      | Some path \<Rightarrow> load_catalogue D parse fs faults path c0) = (Inr n, c)"
    using booted [OF assms(5)] assms(3) by metis
  note o = opened [OF assms(1,2,4) o]
  have has: "bt_has (st_jobs (co_state c0)) i = bt_has (st_jobs st) i" for i
    using agrees_has [OF o(5)] boot_has [OF o(4)] by simp
  have "service_ok D c \<and> \<not> st_dirty (co_state c) \<and> st_policy (co_state c) = p \<and>
    (\<forall>i. bt_has (st_jobs st) i \<longrightarrow> job_agrees i (co_state c0) (co_state c)) \<and>
    (\<forall>i. bt_has (st_jobs (co_state c)) i \<longrightarrow> \<not> bt_has (st_jobs st) i \<longrightarrow>
       (\<exists>path raw specs. env ''CITRATE_COORDINATOR_JOBS'' = Some path \<and> read_to_string fs path = Inr raw \<and>
          parse raw = Inr specs \<and> fresh_from specs (co_state c) i))"
  proof (cases "env ''CITRATE_COORDINATOR_JOBS''")
    case None
    with l o(1-3) has show ?thesis by auto
  next
    case (Some path)
    with l have "load_catalogue D parse fs faults path c0 = (Inr n, c)" by simp
    from load_catalogue_effect [OF assms(1) this o(1)] obtain specs raw where
      s: "read_to_string fs path = Inr raw" "parse raw = Inr specs" "service_ok D c" "st_policy (co_state c) = p"
      "\<And>i. bt_has (st_jobs st) i \<or> i \<notin> js_id ` set specs \<Longrightarrow> job_agrees i (co_state c0) (co_state c)"
      "\<And>i. i \<in> js_id ` set specs \<Longrightarrow> \<not> bt_has (st_jobs st) i \<Longrightarrow> fresh_from specs (co_state c) i" "\<not> st_dirty (co_state c)"
      unfolding has o(3) using o(2) by metis
    with Some has show ?thesis by (metis agrees_has)
  qed
  moreover have "\<exists>r'. bt_get (st_jobs (co_state c)) i = Some r' \<and> same_record (booted_record p now r) r'"
    if "bt_get (st_jobs st) i = Some r" "job_agrees i (co_state c0) (co_state c)" for i r
    by (rule kept_record [OF o(4) that(1) job_agrees_trans [OF o(5) that(2)]])
  ultimately show ?thesis
    using p policy_from_env_Inr(1-3) [OF p] by (auto simp: bt_has_def)
qed

section \<open>A first boot\<close>

definition boot_ex_vars :: "string \<Rightarrow> string option" where
  "boot_ex_vars n = (if n = ''CITRATE_COORDINATOR_JOBS'' then Some ''jobs'' else None)"

definition boot_ex_files :: files where
  "boot_ex_files = \<lparr>fs_read = (\<lambda>_. Inr []), fs_len = (\<lambda>_. Inr 0), fs_exists = (\<lambda>_. True)\<rparr>"

definition boot_ex :: "boot_error + state coordinator \<times> (string \<times> u64) option" where
  "boot_ex = coordinator_boot D0 lower_hex boot_ex_vars (\<lambda>_. Inr [new_job_spec ''j'' Probe JNull]) (\<lambda>_. None) boot_ex_files 0
     NoFault [] (\<lambda>_. empty_disk)"

lemma boot_ex_policy: "policy_from_env lower_hex boot_ex_vars = Inr default_policy"
  by (simp add: policy_from_env_def trusted_var_def tier_var_def positive_var_def boot_ex_vars_def)

lemma boot_ex_opens: "\<exists>c. open_with D0 default_policy 0 NoFault empty_disk = Some (Inr c) \<and> st_jobs (co_state c) = []"
proof -
  have boot: "boot default_policy 0 default_state = default_state\<lparr>st_policy := default_policy\<rparr>"
    by (simp add: boot_def grace_live_leases_def revoke_out_of_policy_def default_state_def bt_map_def)
  show ?thesis
    unfolding open_with_def load_def
    by (simp add: empty_disk_def load_file_def boot persist_def take_dirty_def) (simp add: default_state_def)
qed

lemma boot_ex_boots: "\<exists>c. boot_ex = Inr (c, None) \<and> bt_has (st_jobs (co_state c)) ''j''"
proof -
  obtain c0 where o: "open_with D0 default_policy 0 NoFault empty_disk = Some (Inr c0)" "st_jobs (co_state c0) = []"
    using boot_ex_opens by blast
  let ?spec = "new_job_spec ''j'' Probe JNull"
  have id: "js_id ?spec = ''j''" by (simp add: new_job_spec_def)
  have "fst (api_add_job D0 NoFault ?spec c0) = Inr ()"
    by (simp add: api_add_job_def mutate_def on_state_def persist_def take_dirty_def add_job_def Let_def case_prod_unfold)
  then obtain c where c: "api_add_job D0 NoFault ?spec c0 = (Inr (), c)" by (metis prod.collapse)
  with add_effect(2) [of D0 NoFault ?spec c0] have "bt_has (st_jobs (co_state c)) ''j''"
    by (auto simp: bt_has_def id)
  moreover have "load_catalogue D0 (\<lambda>_. Inr [?spec]) boot_ex_files [] ''jobs'' c0 = (Inr 1, c)"
    by (simp add: load_catalogue_def read_to_string_def boot_ex_files_def o(2) c)
  then have "boot_ex = Inr (c, None)"
    by (simp add: boot_ex_def coordinator_boot_def boot_ex_policy o(1)) (simp add: boot_ex_vars_def uploads_from_env_def)
  ultimately show ?thesis by blast
qed

theorem boot_serves_what_was_saved_witness:
  "\<exists>c. boot_ex = Inr (c, None) \<and> service_ok D0 c \<and> st_policy (co_state c) = default_policy \<and> fresh_from [new_job_spec ''j'' Probe JNull] (co_state c) ''j''"
proof -
  obtain c where c: "boot_ex = Inr (c, None)" "bt_has (st_jobs (co_state c)) ''j''" using boot_ex_boots by blast
  have "load_file (d_de D0) None = Some default_state" by (simp add: load_file_def)
  from boot_serves_what_was_saved [OF D0_format empty_file_ok empty_disk_crashed this c(1) [unfolded boot_ex_def]]
  show ?thesis
    using c boot_ex_policy by (auto simp: bt_has_def default_state_def)
qed

end
