(* ===== verification/Dataset_Tool.thy ===== *)
theory Dataset_Tool
  imports Fl_Dataset_Theorems
begin

text \<open>
  The converter of a member's export, \<^verbatim>\<open>training-worker/src/bin/fl_dataset.rs\<close>: its arguments, the files it reads and the files
  it creates, never over an existing one.
\<close>

section \<open>Arguments\<close>

datatype tool_failure =
    UnexpectedArgument string
  | UnknownOption string
  | NoValue string
  | UsageShown
  | ToolIo string io_failure
  | ExportTooLong string u64
  | ToolConversion dataset_error
  | ReportText string
  | NotCreated string string

text \<open>A key given twice takes its last value.\<close>

fun dataset_args :: "string list \<Rightarrow> (string, string) btree \<Rightarrow> tool_failure + (string, string) btree" where
  "dataset_args [] m = Inr m"
| "dataset_args (k # rest) m =
     (case strip_prefix ''--'' k of
        None \<Rightarrow> Inl (UnexpectedArgument k)
      | Some key \<Rightarrow>
          if key \<notin> {''export'', ''out'', ''report'', ''heldout''} then Inl (UnknownOption key)
          else
            case rest of
              [] \<Rightarrow> Inl (NoValue key)
            | v # rest' \<Rightarrow> dataset_args rest' (bt_insert key v m))"

section \<open>Creating a file\<close>

text \<open>What stops it: the open, or the write with what it left.\<close>

record create_faults =
  cr_open :: "string option"
  cr_write :: "(string \<times> bytes) option"

definition create_new :: "create_faults \<Rightarrow> string \<Rightarrow> bytes \<Rightarrow> files \<Rightarrow> (tool_failure + unit) \<times> files" where
  "create_new w p bs fs =
     (if fs_exists fs p then (Inl (NotCreated p ''File exists''), fs)
      else
        case cr_open w of
          Some e \<Rightarrow> (Inl (NotCreated p e), fs)
        | None \<Rightarrow>
            (case cr_write w of
               Some (e, left) \<Rightarrow> (Inl (NotCreated p e), write_file p left fs)
             | None \<Rightarrow> (Inr (), write_file p bs fs)))"

section \<open>A run\<close>

text \<open>The embedded manifest's text, the report's text and the faults of each creation are parameters.\<close>

record tool_env =
  tl_dataset :: dataset_env
  tl_embedded :: string
  tl_report :: "convert_report \<Rightarrow> string + string"
  tl_faults :: "string \<Rightarrow> create_faults"

definition read_export :: "string \<Rightarrow> files \<Rightarrow> tool_failure + bytes" where
  "read_export p fs =
     (case fs_len fs p of
        Inl e \<Rightarrow> Inl (ToolIo p e)
      | Inr n \<Rightarrow>
          if n > MAX_DATASET_BYTES then Inl (ExportTooLong p n)
          else map_sum (ToolIo p) id (fs_read fs p))"

definition held_out_for :: "tool_env \<Rightarrow> string option \<Rightarrow> files \<Rightarrow> tool_failure + held_out" where
  "held_out_for T path fs =
     (case path of
        None \<Rightarrow> map_sum ToolConversion id (held_out_parse (tl_dataset T) (tl_embedded T))
      | Some p \<Rightarrow>
          (case read_to_string fs p of
             Inl e \<Rightarrow> Inl (ToolIo p e)
           | Inr raw \<Rightarrow> map_sum ToolConversion id (held_out_parse (tl_dataset T) raw)))"

definition converted_export ::
  "tool_env \<Rightarrow> (string, string) btree \<Rightarrow> string \<Rightarrow> files \<Rightarrow> tool_failure + trainer_row list \<times> string" where
  "converted_export T m export fs =
     (case read_export export fs of
        Inl e \<Rightarrow> Inl e
      | Inr bs \<Rightarrow>
      (case held_out_for T (bt_get m ''heldout'') fs of
        Inl e \<Rightarrow> Inl e
      | Inr held \<Rightarrow>
      (case convert_export (tl_dataset T) held bs of
        Inl e \<Rightarrow> Inl (ToolConversion e)
      | Inr (rows, rep) \<Rightarrow> map_sum ReportText (Pair rows) (tl_report T rep))))"

definition write_report :: "tool_env \<Rightarrow> string option \<Rightarrow> string \<Rightarrow> files \<Rightarrow> (tool_failure + unit) \<times> files" where
  "write_report T path report fs =
     (case path of
        None \<Rightarrow> (Inr (), fs)
      | Some p \<Rightarrow> create_new (tl_faults T p) p (str_bytes (report @ [char_of (10 :: nat)])) fs)"

text \<open>The exit status is 0 for a written set and 2 for an empty one.\<close>

definition dataset_tool :: "tool_env \<Rightarrow> string list \<Rightarrow> files \<Rightarrow> (tool_failure + nat) \<times> files" where
  "dataset_tool T argv fs =
     (case dataset_args argv [] of
        Inl e \<Rightarrow> (Inl e, fs)
      | Inr m \<Rightarrow>
      (case (bt_get m ''export'', bt_get m ''out'') of
        (Some export, Some out) \<Rightarrow>
          (case converted_export T m export fs of
             Inl e \<Rightarrow> (Inl e, fs)
           | Inr (rows, report) \<Rightarrow>
          (case write_report T (bt_get m ''report'') report fs of
             (Inl e, fs1) \<Rightarrow> (Inl e, fs1)
           | (Inr _, fs1) \<Rightarrow>
               if rows = [] then (Inr 2, fs1)
               else
                 case to_jsonl (tl_dataset T) rows of
                   Inl e \<Rightarrow> (Inl (ToolConversion e), fs1)
                 | Inr text \<Rightarrow>
                     (case create_new (tl_faults T out) out (str_bytes text) fs1 of
                        (Inl e, fs2) \<Rightarrow> (Inl e, fs2)
                      | (Inr _, fs2) \<Rightarrow> (Inr 0, fs2))))
      | _ \<Rightarrow> (Inl UsageShown, fs)))"

definition exit_status :: "tool_failure + nat \<Rightarrow> nat" where
  "exit_status r = (case r of Inr code \<Rightarrow> code | Inl e \<Rightarrow> 1)"

section \<open>What it leaves\<close>

definition keeps_existing :: "files \<Rightarrow> files \<Rightarrow> bool" where
  "keeps_existing fs fs' \<longleftrightarrow> (\<forall>q. fs_exists fs q \<longrightarrow> fs_exists fs' q \<and> fs_read fs' q = fs_read fs q)"

lemma keeps_existing_refl [simp]: "keeps_existing fs fs"
  by (simp add: keeps_existing_def)

lemma keeps_existing_trans: "keeps_existing fs fs1 \<Longrightarrow> keeps_existing fs1 fs2 \<Longrightarrow> keeps_existing fs fs2"
  by (simp add: keeps_existing_def)

lemma create_new_effect:
  assumes "create_new w p bs fs = (r, fs')"
  shows "r = Inr () \<Longrightarrow> fs_read fs' p = Inr bs \<and> \<not> fs_exists fs p"
    and "keeps_existing fs fs'"
  using assms by (auto simp: create_new_def write_file_def keeps_existing_def split: if_splits option.splits)

lemma write_report_keeps: "write_report T path report fs = (r, fs') \<Longrightarrow> keeps_existing fs fs'"
  by (auto simp: write_report_def split: option.splits dest: create_new_effect(2))

text \<open>The converter overwrites nothing.  Whatever its arguments and whatever fails, a file that existed before a run has
  the same content after it.\<close>

theorem existing_files_are_kept:
  assumes "dataset_tool T argv fs = (r, fs')"
  shows "fs_exists fs q \<Longrightarrow> fs_exists fs' q \<and> fs_read fs' q = fs_read fs q"
proof -
  have "keeps_existing fs fs'"
    using assms
    by (auto simp: dataset_tool_def split: sum.splits prod.splits option.splits if_splits
        dest!: write_report_keeps create_new_effect(2) intro: keeps_existing_trans)
  then show "fs_exists fs q \<Longrightarrow> fs_exists fs' q \<and> fs_read fs' q = fs_read fs q" by (simp add: keeps_existing_def)
qed

text \<open>A run that ends with status 0 has created the set, and the device runner takes it.\<close>

theorem written_set_is_taken:
  assumes "dataset_tool T argv fs = (r, fs')" "exit_status r = 0"
    and "\<And>m export rows report. converted_export T m export fs = Inr (rows, report) \<Longrightarrow>
      list_all (row_reads_back (tl_dataset T) parse) rows \<and> length rows < 2 ^ 64"
  shows "\<exists>m out bs n. dataset_args argv [] = Inr m \<and> bt_get m ''out'' = Some out \<and> \<not> fs_exists fs out \<and>
    fs_read fs' out = Inr bs \<and> verify_dataset parse bs = Inr n"
proof -
  obtain m export out rows report fs1 body where m: "dataset_args argv [] = Inr m" "bt_get m ''out'' = Some out"
    and c: "converted_export T m export fs = Inr (rows, report)"
    and w: "write_report T (bt_get m ''report'') report fs = (Inr (), fs1)" "rows \<noteq> []"
    and t: "to_jsonl (tl_dataset T) rows = Inr body"
    and n: "create_new (tl_faults T out) out (str_bytes body) fs1 = (Inr (), fs')"
    using assms(1,2)
    by (auto simp: dataset_tool_def exit_status_def split: sum.splits prod.splits option.splits if_splits)
  obtain held bs rep where "convert_export (tl_dataset T) held bs = Inr (rows, rep)"
    using c by (auto simp: converted_export_def map_sum_def split: sum.splits)
  from converted_rows_verify [OF this t _ w(2), of parse] assms(3) [OF c]
  have "verify_dataset parse (str_bytes body) = Inr (of_nat (length rows))" by blast
  moreover have "fs_read fs' out = Inr (str_bytes body)" "\<not> fs_exists fs1 out" using create_new_effect(1) [OF n] by simp_all
  moreover from this have "\<not> fs_exists fs out" using write_report_keeps [OF w(1)] by (auto simp: keeps_existing_def)
  ultimately show ?thesis using m by blast
qed

end
