(* ===== verification/Round_Tool.thy ===== *)
theory Round_Tool
  imports Fl_Round_Theorems Fl_Runner
begin

text \<open>
  The operator's tool for federated rounds, \<^verbatim>\<open>training-coordinator/src/bin/fl_round.rs\<close>: its arguments and its subcommands.  It
  reads and writes files and asks a node; what it prints is its result.

  JSON text, the state file, the connection to a node, the parsing and the arithmetic of floats, and which file operation
  fails are the record \<open>tool_deps\<close>.
\<close>

section \<open>Arguments\<close>

datatype round_tool_error =
    NoSubcommand
  | NotAFlag string
  | FlagWithoutValue string
  | FlagTwice string
  | FlagRequired string
  | FlagUnparsed string string
  | FileUnread string io_failure
  | FileUnparsed string
  | ConfigInvalid string config_error
  | RankOutOfRange
  | NoArchitecture
  | NoTargets "string list"
  | ToolGguf gguf_error
  | StartAdapterDiffers
  | NotWrittenTo string string
  | RoundFailed round_error
  | RoundPanicked
  | JsonFailed string
  | UnknownSubcommand string

fun tool_flags :: "string list \<Rightarrow> (string, string) btree \<Rightarrow> round_tool_error + (string, string) btree" where
  "tool_flags [] m = Inr m"
| "tool_flags (k # rest) m =
     (case strip_prefix ''--'' k of
        None \<Rightarrow> Inl (NotAFlag k)
      | Some key \<Rightarrow>
          case rest of
            [] \<Rightarrow> Inl (FlagWithoutValue key)
          | v # rest' \<Rightarrow>
              if bt_has m key then Inl (FlagTwice key) else tool_flags rest' (bt_insert key v m))"

definition tool_args :: "string list \<Rightarrow> round_tool_error + string \<times> (string, string) btree" where
  "tool_args argv =
     (case argv of [] \<Rightarrow> Inl NoSubcommand | cmd # rest \<Rightarrow> map_sum id (Pair cmd) (tool_flags rest []))"

definition need :: "(string, string) btree \<Rightarrow> string \<Rightarrow> round_tool_error + string" where
  "need m k = (case bt_get m k of Some v \<Rightarrow> Inr v | None \<Rightarrow> Inl (FlagRequired k))"

text \<open>A number of the type whose values are below \<open>limit\<close>.\<close>

definition num_arg :: "nat \<Rightarrow> (string, string) btree \<Rightarrow> string \<Rightarrow> round_tool_error + nat" where
  "num_arg limit m k =
     bind_ok (need m k) (\<lambda>v. case parse_uint limit v of Some n \<Rightarrow> Inr n | None \<Rightarrow> Inl (FlagUnparsed k v))"

definition num_or :: "nat \<Rightarrow> nat \<Rightarrow> (string, string) btree \<Rightarrow> string \<Rightarrow> round_tool_error + nat" where
  "num_or limit default_value m k =
     (case bt_get m k of
        None \<Rightarrow> Inr default_value
      | Some v \<Rightarrow> (case parse_uint limit v of Some n \<Rightarrow> Inr n | None \<Rightarrow> Inl (FlagUnparsed k v)))"

section \<open>The environment\<close>

record tool_deps =
  to_round :: round_deps
  to_config :: "string \<Rightarrow> string + round_config"
  to_payload_json :: "lora_payload \<Rightarrow> string + json"
  to_bundle :: "bytes \<Rightarrow> string + round_bundle"
  to_bundle_json :: "round_bundle \<Rightarrow> string + bytes"
  to_intent_json :: "intent \<Rightarrow> string + bytes"
  to_state :: "string \<Rightarrow> string + state"
  to_node :: "string \<Rightarrow> address \<Rightarrow> round_error + backend"
  to_io :: "io_failure \<Rightarrow> string"
  to_f32 :: "string \<Rightarrow> f32 option"
  to_bound :: "u64 \<Rightarrow> f32"
  to_uniform :: "u64 \<Rightarrow> f32 \<Rightarrow> f32"
  to_mkdir :: "string \<Rightarrow> string option"
  to_write :: "string \<Rightarrow> string option"

text \<open>What a subcommand prints.\<close>

datatype printed =
    PConfigHash string nat string
  | PJobs "job_spec list"
  | PAdapter string string nat u64
  | PAggregated round_bundle string string
  | PProof chunk_proof
  | PChecked string
  | PRoots roots
  | PIntent intent

definition load_round_config :: "tool_deps \<Rightarrow> files \<Rightarrow> string \<Rightarrow> round_tool_error + round_config" where
  "load_round_config T fs p =
     (case read_to_string fs p of
        Inl e \<Rightarrow> Inl (FileUnread p e)
      | Inr raw \<Rightarrow>
      (case to_config T raw of
        Inl e \<Rightarrow> Inl (FileUnparsed p)
      | Inr cfg \<Rightarrow>
      (case validate_config cfg of Inl e \<Rightarrow> Inl (ConfigInvalid p e) | Inr _ \<Rightarrow> Inr cfg)))"

definition load_bundle :: "tool_deps \<Rightarrow> files \<Rightarrow> (string, string) btree \<Rightarrow> round_tool_error + round_bundle" where
  "load_bundle T fs m =
     bind_ok (need m ''bundle'') (\<lambda>p.
     bind_ok (map_sum (FileUnread p) id (fs_read fs p)) (\<lambda>bs. map_sum (\<lambda>e. FileUnparsed p) id (to_bundle T bs)))"

definition write_out :: "tool_deps \<Rightarrow> string \<Rightarrow> bytes \<Rightarrow> files \<Rightarrow> round_tool_error + files" where
  "write_out T p bs fs = (case to_write T p of Some e \<Rightarrow> Inl (NotWrittenTo p e) | None \<Rightarrow> Inr (write_file p bs fs))"

section \<open>Jobs\<close>

definition round_tag :: "round_deps \<Rightarrow> round_config \<Rightarrow> u64 \<Rightarrow> string" where
  "round_tag D cfg ordinal = hx_encode (rd_hex D) (take 6 (to_be_bytes (config_round_id (rd_keccak D) cfg ordinal)))"

definition round_jobs :: "round_deps \<Rightarrow> round_config \<Rightarrow> u64 \<Rightarrow> u64 \<Rightarrow> json \<Rightarrow> job_spec list" where
  "round_jobs D cfg ordinal lease payload =
     map (\<lambda>i. with_lease_secs lease (new_job_spec (''fl-'' @ round_tag D cfg ordinal @ ''-'' @ show_dec i) Federated payload))
       [0..<length (fc_roster cfg)]"

definition config_hash_command ::
  "tool_deps \<Rightarrow> files \<Rightarrow> (string, string) btree \<Rightarrow> round_tool_error + printed" where
  "config_hash_command T fs m =
     bind_ok (need m ''config'') (\<lambda>p. bind_ok (load_round_config T fs p) (\<lambda>cfg.
     bind_ok (num_or (2 ^ 64) 0 m ''ordinal'') (\<lambda>n.
       Inr (PConfigHash (hex0x (rd_hex (to_round T)) (to_be_bytes (config_hash (rd_keccak (to_round T)) cfg))) n
              (hex0x (rd_hex (to_round T)) (to_be_bytes (config_round_id (rd_keccak (to_round T)) cfg (of_nat n))))))))"

definition jobs_command ::
  "tool_deps \<Rightarrow> files \<Rightarrow> (string, string) btree \<Rightarrow> round_tool_error + printed" where
  "jobs_command T fs m =
     bind_ok (need m ''config'') (\<lambda>p. bind_ok (load_round_config T fs p) (\<lambda>cfg.
     bind_ok (num_arg (2 ^ 64) m ''ordinal'') (\<lambda>n.
     bind_ok (num_or (2 ^ 64) (6 * 3600) m ''lease-secs'') (\<lambda>lease.
     bind_ok (map_sum JsonFailed id (to_payload_json T (new_payload (rd_keccak (to_round T)) cfg (of_nat n)))) (\<lambda>payload.
       Inr (PJobs (round_jobs (to_round T) cfg (of_nat n) (of_nat lease) payload)))))))"

section \<open>A first adapter\<close>

text \<open>\<^verbatim>\<open>SplitMix\<close>: the next output and the new state.\<close>

definition split_mix :: "u64 \<Rightarrow> u64 \<times> u64" where
  "split_mix s =
     (let s1 = s + 0x9e3779b97f4a7c15;
          z = xor s1 (drop_bit 30 s1) * 0xbf58476d1ce4e5b9;
          z1 = xor z (drop_bit 27 z) * 0x94d049bb133111eb
      in (xor z1 (drop_bit 31 z1), s1))"

text \<open>The top 24 bits of an output make the value.\<close>

primrec draws :: "(u64 \<Rightarrow> f32 \<Rightarrow> f32) \<Rightarrow> f32 \<Rightarrow> nat \<Rightarrow> u64 \<Rightarrow> f32 list" where
  "draws unif bound 0 s = []"
| "draws unif bound (Suc n) s =
     (let (x, s1) = split_mix s in unif (drop_bit 40 x) bound # draws unif bound n s1)"

text \<open>The tensors of the base model an adapter is made for: two dimensions, \<open>blk.\<close>, a layer, a dot, a target and \<open>.weight\<close>.\<close>

definition tensor_target :: "tensor_info \<Rightarrow> string option" where
  "tensor_target t =
     (case strip_prefix ''blk.'' (ti_name t) of
        None \<Rightarrow> None
      | Some rest \<Rightarrow>
          (case split_once ''.'' rest of
             None \<Rightarrow> None
           | Some (layer, tail) \<Rightarrow>
               if parse_uint (2 ^ 32) layer = None \<or> length (ti_dims t) \<noteq> 2 then None
               else strip_suffix ''.weight'' tail))"

definition chosen :: "string list \<Rightarrow> tensor_info \<Rightarrow> bool" where
  "chosen targets t \<longleftrightarrow> (case tensor_target t of Some x \<Rightarrow> x \<in> set targets | None \<Rightarrow> False)"

definition tensor_seed :: "round_deps \<Rightarrow> u64 \<Rightarrow> string \<Rightarrow> u64" where
  "tensor_seed D seed name = xor seed (from_be_bytes (take 8 (to_be_bytes (rd_sha256 D (str_bytes name)))))"

text \<open>A pair for each; the counts are \<^verbatim>\<open>u64\<close> products.\<close>

definition lora_pair :: "tool_deps \<Rightarrow> u64 \<Rightarrow> u64 \<Rightarrow> tensor_info \<Rightarrow> out_tensor list" where
  "lora_pair T rank seed t =
     (let ne0 = ti_dims t ! 0; ne1 = ti_dims t ! 1 in
      [\<lparr>ot_name = ti_name t @ ''.lora_a'', ot_dims = [ne0, rank],
        ot_values = draws (to_uniform T) (to_bound T ne0) (unat (ne0 * rank)) (tensor_seed (to_round T) seed (ti_name t))\<rparr>,
       \<lparr>ot_name = ti_name t @ ''.lora_b'', ot_dims = [rank, ne1], ot_values = replicate (unat (rank * ne1)) 0\<rparr>])"

definition adapter_kv :: "string \<Rightarrow> f32 \<Rightarrow> (string \<times> gvalue) list" where
  "adapter_kv arch alpha =
     [(''general.architecture'', GStr arch), (''general.type'', GStr ''adapter''), (''adapter.type'', GStr ''lora''),
      (''adapter.lora.alpha'', GF32 alpha)]"

definition target_list :: "string \<Rightarrow> string list" where
  "target_list s = filter (\<lambda>x. x \<noteq> []) (map trim (split_on (CHR '','') s))"

definition f32_arg :: "tool_deps \<Rightarrow> (string, string) btree \<Rightarrow> string \<Rightarrow> round_tool_error + f32" where
  "f32_arg T m k =
     bind_ok (need m k) (\<lambda>v. case to_f32 T v of Some x \<Rightarrow> Inr x | None \<Rightarrow> Inl (FlagUnparsed k v))"

definition base_header :: "files \<Rightarrow> string \<Rightarrow> round_tool_error + gguf" where
  "base_header fs p = bind_ok (map_sum (FileUnread p) id (fs_read fs p)) (\<lambda>bs. map_sum ToolGguf id (read_header bs))"

definition write_adapter ::
  "tool_deps \<Rightarrow> string \<Rightarrow> string \<Rightarrow> f32 \<Rightarrow> out_tensor list \<Rightarrow> files \<Rightarrow> round_tool_error + printed \<times> files" where
  "write_adapter T out arch alpha tensors fs =
     bind_ok (map_sum ToolGguf id (encode_f32 (adapter_kv arch alpha) tensors)) (\<lambda>bs.
     bind_ok (write_out T out bs fs) (\<lambda>fs1.
     bind_ok (map_sum ToolGguf id (load_adapter bs)) (\<lambda>check.
       Inr (PAdapter out (hx_encode (rd_hex (to_round T)) (to_be_bytes (rd_sha256 (to_round T) bs)))
              (length (gg_tensors (ad_header check))) (value_count check), fs1))))"

definition init_adapter_command ::
  "tool_deps \<Rightarrow> files \<Rightarrow> (string, string) btree \<Rightarrow> round_tool_error + printed \<times> files" where
  "init_adapter_command T fs m =
     bind_ok (need m ''base'') (\<lambda>base.
     bind_ok (num_arg (2 ^ 64) m ''rank'') (\<lambda>rank.
     bind_ok (f32_arg T m ''alpha'') (\<lambda>alpha.
     bind_ok (num_arg (2 ^ 64) m ''seed'') (\<lambda>seed.
     bind_ok (need m ''out'') (\<lambda>out.
     if rank = 0 \<or> rank > 256 then Inl RankOutOfRange
     else
       bind_ok (need m ''targets'') (\<lambda>targets.
       bind_ok (base_header fs base) (\<lambda>h.
       case Option.bind (gguf_get ''general.architecture'' h) value_as_str of
         None \<Rightarrow> Inl NoArchitecture
       | Some arch \<Rightarrow>
           let tensors = concat (map (lora_pair T (of_nat rank) (of_nat seed))
                 (filter (chosen (target_list targets)) (gg_tensors h)))
           in if tensors = [] then Inl (NoTargets (target_list targets))
              else write_adapter T out arch alpha tensors fs)))))))"

section \<open>Aggregating\<close>

definition delta_files :: "tool_deps \<Rightarrow> files \<Rightarrow> string \<Rightarrow> delta_dir" where
  "delta_files T fs dir name = map_sum (to_io T) id (fs_read fs (path_join dir name))"

definition start_adapter_of :: "tool_deps \<Rightarrow> files \<Rightarrow> round_config \<Rightarrow> string \<Rightarrow> round_tool_error + adapter" where
  "start_adapter_of T fs cfg p =
     bind_ok (map_sum (FileUnread p) id (fs_read fs p)) (\<lambda>bs.
       if rd_sha256 (to_round T) bs \<noteq> fc_start_adapter_sha256 cfg then Inl StartAdapterDiffers
       else map_sum ToolGguf id (load_adapter bs))"

definition write_round :: "tool_deps \<Rightarrow> string \<Rightarrow> round_bundle \<Rightarrow> bytes \<Rightarrow> files \<Rightarrow> round_tool_error + printed \<times> files" where
  "write_round T out b merged fs =
     (let H = rd_hex (to_round T);
          adapter_file = path_join out (''merged-'' @ hx_encode H (to_be_bytes (bu_adapter_sha256 b)) @ ''.gguf'')
      in
      bind_ok (write_out T adapter_file merged fs) (\<lambda>fs1.
      bind_ok (map_sum JsonFailed id (to_bundle_json T b)) (\<lambda>bundle_json.
      bind_ok (write_out T (path_join out ''bundle.json'') bundle_json fs1) (\<lambda>fs2.
      bind_ok (map_sum JsonFailed id (to_intent_json T (commit_intent (rd_keccak (to_round T)) H b))) (\<lambda>intent_json.
      bind_ok (write_out T (path_join out ''commit-intent.json'') intent_json fs2) (\<lambda>fs3.
        Inr (PAggregated b adapter_file (path_join out ''commit-intent.json''), fs3)))))))"

definition aggregate_command ::
  "tool_deps \<Rightarrow> files \<Rightarrow> (string, string) btree \<Rightarrow> round_tool_error + printed \<times> files" where
  "aggregate_command T fs m =
     bind_ok (need m ''config'') (\<lambda>p. bind_ok (load_round_config T fs p) (\<lambda>cfg.
     bind_ok (num_arg (2 ^ 64) m ''ordinal'') (\<lambda>n.
     bind_ok (need m ''state'') (\<lambda>sp. bind_ok (map_sum (\<lambda>e. FileUnparsed sp) id (to_state T sp)) (\<lambda>st.
     bind_ok (need m ''deltas'') (\<lambda>dir.
     bind_ok (need m ''start'') (\<lambda>start_path. bind_ok (start_adapter_of T fs cfg start_path) (\<lambda>start.
     bind_ok (need m ''out'') (\<lambda>out.
     case to_mkdir T out of
       Some e \<Rightarrow> Inl (NotWrittenTo out e)
     | None \<Rightarrow>
         let (cs, ex) = collect (to_round T) st cfg (of_nat n) (delta_files T fs dir) start in
         bind_ok (need m ''rpc'') (\<lambda>url.
         bind_ok (map_sum RoundFailed id (to_node T url (fc_ledger cfg))) (\<lambda>node.
         bind_ok (map_sum RoundFailed id (aggregate (to_round T) cfg (of_nat n) cs ex start node)) (\<lambda>(b, merged).
           write_round T out b merged fs))))))))))))"

section \<open>Reading a bundle\<close>

definition checked_bundle :: "tool_deps \<Rightarrow> files \<Rightarrow> (string, string) btree \<Rightarrow> round_tool_error + round_bundle" where
  "checked_bundle T fs m =
     bind_ok (load_bundle T fs m) (\<lambda>b.
     bind_ok (map_sum RoundFailed id (check_bundle_roots (rd_keccak (to_round T)) (rd_hex (to_round T)) b)) (\<lambda>_. Inr b))"

definition proof_command :: "tool_deps \<Rightarrow> files \<Rightarrow> (string, string) btree \<Rightarrow> round_tool_error + printed" where
  "proof_command T fs m =
     bind_ok (checked_bundle T fs m) (\<lambda>b. bind_ok (need m ''deltas'') (\<lambda>dir. bind_ok (num_arg (2 ^ 32) m ''chunk'') (\<lambda>c.
       case chunk_proof_of (to_round T) b (delta_files T fs dir) (of_nat c) of
         Returns p \<Rightarrow> Inr (PProof p)
       | Fails e \<Rightarrow> Inl (RoundFailed e)
       | Panicked \<Rightarrow> Inl RoundPanicked)))"

definition check_command :: "tool_deps \<Rightarrow> files \<Rightarrow> (string, string) btree \<Rightarrow> round_tool_error + printed" where
  "check_command T fs m =
     bind_ok (checked_bundle T fs m) (\<lambda>b.
       Inr (PChecked (hex0x (rd_hex (to_round T)) (to_be_bytes (bu_record_digest b)))))"

definition roots_command :: "tool_deps \<Rightarrow> files \<Rightarrow> (string, string) btree \<Rightarrow> round_tool_error + printed" where
  "roots_command T fs m =
     bind_ok (load_bundle T fs m) (\<lambda>b.
       map_sum RoundFailed PRoots (recompute_roots (rd_keccak (to_round T)) (rd_hex (to_round T)) b))"

definition intent_command :: "tool_deps \<Rightarrow> files \<Rightarrow> (string, string) btree \<Rightarrow> round_tool_error + printed" where
  "intent_command T fs m =
     bind_ok (checked_bundle T fs m) (\<lambda>b.
       Inr (PIntent (commit_intent (rd_keccak (to_round T)) (rd_hex (to_round T)) b)))"

section \<open>The tool\<close>

definition only_prints :: "files \<Rightarrow> round_tool_error + printed \<Rightarrow> round_tool_error + printed \<times> files" where
  "only_prints fs r = map_sum id (\<lambda>p. (p, fs)) r"

definition round_tool :: "tool_deps \<Rightarrow> string list \<Rightarrow> files \<Rightarrow> round_tool_error + printed \<times> files" where
  "round_tool T argv fs =
     bind_ok (tool_args argv) (\<lambda>(cmd, m).
       if cmd = ''config-hash'' then only_prints fs (config_hash_command T fs m)
       else if cmd = ''jobs'' then only_prints fs (jobs_command T fs m)
       else if cmd = ''init-adapter'' then init_adapter_command T fs m
       else if cmd = ''aggregate'' then aggregate_command T fs m
       else if cmd = ''proof'' then only_prints fs (proof_command T fs m)
       else if cmd = ''check-bundle'' then only_prints fs (check_command T fs m)
       else if cmd = ''roots'' then only_prints fs (roots_command T fs m)
       else if cmd = ''intent'' then only_prints fs (intent_command T fs m)
       else Inl (UnknownSubcommand cmd))"

end
