(* ===== verification/Round_Tool_Theorems.thy ===== *)
theory Round_Tool_Theorems
  imports Round_Tool
begin

text \<open>
  The operator's tool fits the programs around it: what is written on the command line is what a command reads, the jobs it
  makes are ones a device and the aggregator take, and what one command writes another accepts.
\<close>

section \<open>The command line\<close>

definition flag_words :: "(string \<times> string) list \<Rightarrow> string list" where
  "flag_words kvs = concat (map (\<lambda>(k, v). [''--'' @ k, v]) kvs)"

lemma strip_flag: "strip_prefix ''--'' (''--'' @ k) = Some k"
  by (simp add: strip_prefix_def)

lemma tool_flags_words:
  assumes "distinct (map fst kvs)" "\<forall>k \<in> set (map fst kvs). \<not> bt_has m k"
  shows "\<exists>m'. tool_flags (flag_words kvs) m = Inr m' \<and>
    (\<forall>k. bt_get m' k = (case map_of kvs k of Some v \<Rightarrow> Some v | None \<Rightarrow> bt_get m k))"
  using assms
proof (induction kvs arbitrary: m)
  case (Cons e kvs)
  obtain k v where e: "e = (k, v)" by fastforce
  have "\<forall>x \<in> set (map fst kvs). \<not> bt_has (bt_insert k v m) x"
    using Cons.prems by (auto simp: e bt_has_def bt_get_insert)
  with Cons.IH [of "bt_insert k v m"] Cons.prems(1) obtain m' where m':
    "tool_flags (flag_words kvs) (bt_insert k v m) = Inr m'"
    "\<forall>x. bt_get m' x = (case map_of kvs x of Some v \<Rightarrow> Some v | None \<Rightarrow> bt_get (bt_insert k v m) x)"
    by auto
  have "tool_flags (flag_words (e # kvs)) m = Inr m'"
    using m'(1) Cons.prems(2) by (simp add: flag_words_def e strip_flag [simplified])
  moreover have "bt_get m' x = (case map_of (e # kvs) x of Some v \<Rightarrow> Some v | None \<Rightarrow> bt_get m x)" for x
  proof (cases "x = k")
    case True
    then have "map_of kvs x = None" using Cons.prems(1) by (auto simp: e map_of_eq_None_iff)
    then show ?thesis using m'(2) True by (simp add: e bt_get_insert)
  next
    case False
    then show ?thesis using m'(2) by (simp add: e bt_get_insert split: option.split)
  qed
  ultimately show ?case by blast
qed (simp add: flag_words_def)

text \<open>A command reads what was written.  A subcommand followed by flags with different names, each with its value, is
  parsed into that subcommand and exactly those values.\<close>

theorem command_line_reads_back:
  assumes "distinct (map fst kvs)"
  shows "\<exists>m. tool_args (cmd # flag_words kvs) = Inr (cmd, m) \<and> (\<forall>k. bt_get m k = map_of kvs k)"
proof -
  obtain m where "tool_flags (flag_words kvs) [] = Inr m"
    "\<forall>k. bt_get m k = (case map_of kvs k of Some v \<Rightarrow> Some v | None \<Rightarrow> bt_get [] k)"
    using tool_flags_words [OF assms, of "[]"] by (auto simp: bt_has_def)
  then show ?thesis by (auto simp: tool_args_def split: option.splits)
qed

theorem command_line_reads_back_witness:
  "\<exists>m. tool_args [''jobs'', ''--config'', ''r'', ''--ordinal'', ''1''] = Inr (''jobs'', m) \<and> bt_get m ''ordinal'' = Some ''1''"
  using command_line_reads_back [of "[(''config'', ''r''), (''ordinal'', ''1'')]" "''jobs''"] by (auto simp: flag_words_def)

lemma flag_twice: "tool_args [''jobs'', ''--config'', ''a'', ''--config'', ''b''] = Inl (FlagTwice ''config'')"
  by (simp add: tool_args_def strip_prefix_def bt_has_def)

section \<open>Jobs\<close>

lemma load_round_config_Inr:
  "load_round_config T fs p = Inr cfg \<Longrightarrow> validate_config cfg = Inr ()"
  by (auto simp: load_round_config_def split: sum.splits)

lemma round_jobs_ids: "distinct (map js_id (round_jobs D cfg n lease payload))"
  by (auto simp: round_jobs_def distinct_map inj_on_def with_lease_secs_def new_job_spec_def)

text \<open>The jobs of a round are ones its devices take.  One job for each place of the roster, no two with one name, each for
  the federated tier with the lease asked for; and a reader of the payload finds a valid round with this configuration and
  ordinal, so that no device refuses it as malformed.\<close>

theorem round_jobs_fit:
  assumes "jobs_command T fs m = Inr (PJobs jobs)"
    and "\<And>p j. to_payload_json T p = Inr j \<Longrightarrow> rd_payload (to_round T) j = Some p"
  shows "\<exists>cfg n lease. config_ok cfg \<and> length jobs = length (fc_roster cfg) \<and> distinct (map js_id jobs) \<and>
    list_all (\<lambda>j. js_requires j = Federated \<and> js_lease_secs j = lease \<and>
      (\<exists>p. rd_payload (to_round T) (js_payload j) = Some p \<and> validate_payload (rd_keccak (to_round T)) p = Inr () \<and>
         lp_config p = cfg \<and> lp_ordinal p = n)) jobs"
proof -
  obtain cfg n lease payload where c: "validate_config cfg = Inr ()"
    and p: "to_payload_json T (new_payload (rd_keccak (to_round T)) cfg n) = Inr payload"
    and j: "jobs = round_jobs (to_round T) cfg n lease payload"
    using assms(1)
    by (auto simp: jobs_command_def bind_ok_Inr map_sum_Inr_iff dest!: load_round_config_Inr)
  have ok: "config_ok cfg" using c validate_config_ok by blast
  let ?p = "new_payload (rd_keccak (to_round T)) cfg n"
  have "validate_payload (rd_keccak (to_round T)) ?p = Inr ()"
    using ok by (simp add: validate_payload_ok new_payload_def)
  moreover have "lp_config ?p = cfg" "lp_ordinal ?p = n" by (simp_all add: new_payload_def)
  ultimately have "\<exists>p. rd_payload (to_round T) payload = Some p \<and> validate_payload (rd_keccak (to_round T)) p = Inr () \<and>
      lp_config p = cfg \<and> lp_ordinal p = n"
    using assms(2) [OF p] by blast
  then have "list_all (\<lambda>j. js_requires j = Federated \<and> js_lease_secs j = lease \<and>
      (\<exists>p. rd_payload (to_round T) (js_payload j) = Some p \<and> validate_payload (rd_keccak (to_round T)) p = Inr () \<and>
         lp_config p = cfg \<and> lp_ordinal p = n)) jobs"
    by (simp add: j round_jobs_def list_all_iff with_lease_secs_def new_job_spec_def)
  moreover have "length jobs = length (fc_roster cfg)" by (simp add: j round_jobs_def)
  moreover have "distinct (map js_id jobs)" unfolding j by (rule round_jobs_ids)
  ultimately show ?thesis using ok by blast
qed

section \<open>Bundles\<close>

lemma need_Inr [simp]: "need m k = Inr v \<longleftrightarrow> bt_get m k = Some v"
  by (simp add: need_def split: option.splits)

lemma aggregate_command_Inr:
  assumes "aggregate_command T fs m = Inr (printed, fs')" "bt_get m ''out'' = Some out"
  obtains p cfg n cs ex start nd b merged where "bt_get m ''start'' = Some p" "start_adapter_of T fs cfg p = Inr start"
    "aggregate (to_round T) cfg n cs ex start nd = Inr (b, merged)" "write_round T out b merged fs = Inr (printed, fs')"
  using assms
  by (auto simp: aggregate_command_def bind_ok_Inr map_sum_Inr_iff case_prod_unfold Let_def split: option.splits)

lemma written_names: "write_round T out b merged fs = Inr (PAggregated b' adapter_file intent_file, fs') \<Longrightarrow> b' = b"
  by (auto simp: write_round_def bind_ok_Inr Let_def)

lemma write_round_bundle:
  assumes "write_round T out b merged fs = Inr (printed, fs')"
  shows "\<exists>json. to_bundle_json T b = Inr json \<and> fs_read fs' (path_join out ''bundle.json'') = Inr json"
proof -
  have "path_join out ''bundle.json'' \<noteq> path_join out ''commit-intent.json''" by (simp add: path_join_def)
  then show ?thesis
    using assms by (auto simp: write_round_def bind_ok_Inr map_sum_Inr_iff write_out_def Let_def split: option.splits)
qed

lemma aggregate_config: "aggregate D cfg n cs ex start nd = Inr (b, merged) \<Longrightarrow> bu_config b = cfg"
  by (erule aggregate_Inr) (simp add: bundle_of_def Let_def case_prod_unfold)

text \<open>What is aggregated can be checked.  When the tool has aggregated a round, the start adapter it read has the hash the
  round names, and checking the bundle from the file it wrote, or preparing the intent from that file, succeeds.\<close>

theorem aggregated_files_check:
  assumes "hex_codec (rd_hex (to_round T))" "aggregate_command T fs m = Inr (PAggregated b adapter_file intent_file, fs')"
    and "\<And>json. to_bundle_json T b = Inr json \<Longrightarrow> to_bundle T json = Inr b"
    and "bt_get m ''out'' = Some out" "bt_get m' ''bundle'' = Some (path_join out ''bundle.json'')"
  shows "(\<exists>digest. check_command T fs' m' = Inr (PChecked digest)) \<and>
    intent_command T fs' m' = Inr (PIntent (commit_intent (rd_keccak (to_round T)) (rd_hex (to_round T)) b)) \<and>
    (\<exists>p bs. bt_get m ''start'' = Some p \<and> fs_read fs p = Inr bs \<and>
       rd_sha256 (to_round T) bs = fc_start_adapter_sha256 (bu_config b))"
proof -
  obtain p cfg n cs ex start nd merged where
    start: "bt_get m ''start'' = Some p" "start_adapter_of T fs cfg p = Inr start"
    and agg: "aggregate (to_round T) cfg n cs ex start nd = Inr (b, merged)"
    and w: "write_round T out b merged fs = Inr (PAggregated b adapter_file intent_file, fs')"
    using aggregate_command_Inr [OF assms(2,4)] written_names by metis
  have checks: "check_bundle_roots (rd_keccak (to_round T)) (rd_hex (to_round T)) b = Inr ()"
    using aggregated_bundle [OF assms(1) agg] by blast
  obtain json where "fs_read fs' (path_join out ''bundle.json'') = Inr json" "to_bundle T json = Inr b"
    using write_round_bundle [OF w] assms(3) by blast
  then have "checked_bundle T fs' m' = Inr b"
    by (simp add: checked_bundle_def load_bundle_def need_def assms(5) checks bind_ok_def)
  then have "\<exists>digest. check_command T fs' m' = Inr (PChecked digest)"
    and "intent_command T fs' m' = Inr (PIntent (commit_intent (rd_keccak (to_round T)) (rd_hex (to_round T)) b))"
    by (simp_all add: check_command_def intent_command_def bind_ok_def)
  moreover have "\<exists>bs. fs_read fs p = Inr bs \<and> rd_sha256 (to_round T) bs = fc_start_adapter_sha256 (bu_config b)"
    using start(2) aggregate_config [OF agg]
    by (auto simp: start_adapter_of_def bind_ok_Inr map_sum_Inr_iff split: if_splits)
  ultimately show ?thesis using start(1) by blast
qed

end
