(* ===== verification/Tiny_Model.thy ===== *)
theory Tiny_Model
  imports Step_Gradients_Theorems
begin

text \<open>
  The two back ends of \<^verbatim>\<open>training-worker/src/backend.rs\<close> that compute a step from hashes: \<^verbatim>\<open>DeterministicTinyModel\<close> and the
  one that tampers with a single step.  \<open>K\<close> is Keccak-256; the float of a word and the tampering of a float are the
  parameters \<open>unit\<close> and \<open>flip\<close>.
\<close>

section \<open>The model\<close>

definition step_pre :: "b256 \<Rightarrow> u32 \<Rightarrow> u32 \<Rightarrow> u32 \<Rightarrow> bytes" where
  "step_pre prev epoch stp shard = to_be_bytes prev @ to_be_bytes epoch @ to_be_bytes stp @ to_be_bytes shard"

definition synthetic_gradient :: "(u32 \<Rightarrow> f32) \<Rightarrow> b256 \<Rightarrow> u64 \<Rightarrow> tensor" where
  "synthetic_gradient unit h layer =
     \<lparr>tn_data = map (\<lambda>i. unit (from_be_bytes (take 4 (drop (i * 4) (to_be_bytes h))))) [0..<4], tn_layer = layer\<rparr>"

definition post_pre :: "b256 \<Rightarrow> tensor list \<Rightarrow> bytes" where
  "post_pre prev ts = to_be_bytes prev @ concat (map (\<lambda>t. concat (map to_be_bytes (tn_data t))) ts)"

definition tiny_forward_backward ::
  "(bytes \<Rightarrow> b256) \<Rightarrow> (u32 \<Rightarrow> f32) \<Rightarrow> b256 \<Rightarrow> u32 \<Rightarrow> u32 \<Rightarrow> u32 \<Rightarrow> tensor list \<times> b256" where
  "tiny_forward_backward K unit prev epoch stp shard =
     (let h = K (step_pre prev epoch stp shard);
          ts = [synthetic_gradient unit h 0, synthetic_gradient unit h 1]
      in (ts, K (post_pre prev ts)))"

definition tiny_starting_weights :: "b256 \<Rightarrow> b256" where
  "tiny_starting_weights model_start_hash = model_start_hash"

section \<open>The tampering model\<close>

record tamper_target =
  tt_epoch :: u32
  tt_step :: u32

definition tamper_first :: "(f32 \<Rightarrow> f32) \<Rightarrow> tensor list \<Rightarrow> tensor list" where
  "tamper_first flip ts =
     (case ts of
        [] \<Rightarrow> []
      | t # rest \<Rightarrow> (case tn_data t of [] \<Rightarrow> t | v # vs \<Rightarrow> t\<lparr>tn_data := flip v # vs\<rparr>) # rest)"

definition malicious_forward_backward ::
  "(bytes \<Rightarrow> b256) \<Rightarrow> (u32 \<Rightarrow> f32) \<Rightarrow> (f32 \<Rightarrow> f32) \<Rightarrow> tamper_target \<Rightarrow> b256 \<Rightarrow> u32 \<Rightarrow> u32 \<Rightarrow> u32 \<Rightarrow> tensor list \<times> b256" where
  "malicious_forward_backward K unit flip T prev epoch stp shard =
     (let (ts, post) = tiny_forward_backward K unit prev epoch stp shard
      in (if epoch = tt_epoch T \<and> stp = tt_step T then tamper_first flip ts else ts, post))"

section \<open>What they give\<close>

text \<open>What is hashed for a step determines it: another start, epoch, step or shard is another preimage.\<close>

lemma step_pre_inject:
  "step_pre prev epoch stp shard = step_pre prev' epoch' stp' shard' \<longleftrightarrow>
     prev = prev' \<and> epoch = epoch' \<and> stp = stp' \<and> shard = shard'"
  by (auto simp: step_pre_def to_be_bytes_inject)

text \<open>The layer is not hashed, so both tensors of a step hold the same values.\<close>

lemma tensors_repeat:
  "tiny_forward_backward K unit prev epoch stp shard = (ts, post) \<Longrightarrow> tn_data (ts ! 0) = tn_data (ts ! 1)"
  by (auto simp: tiny_forward_backward_def synthetic_gradient_def Let_def)

text \<open>The tampering shows exactly where it is aimed at and changes the first value; the hash of the weights never shows it.\<close>

theorem tampering_shows:
  fixes K unit
  defines "v \<equiv> \<lambda>prev epoch stp shard. unit (from_be_bytes (take 4 (to_be_bytes (K (step_pre prev epoch stp shard)))))"
  shows "malicious_forward_backward K unit flip T prev epoch stp shard \<noteq> tiny_forward_backward K unit prev epoch stp shard \<longleftrightarrow>
      epoch = tt_epoch T \<and> stp = tt_step T \<and> flip (v prev epoch stp shard) \<noteq> v prev epoch stp shard"
    and "snd (malicious_forward_backward K unit flip T prev epoch stp shard) = snd (tiny_forward_backward K unit prev epoch stp shard)"
proof -
  have first: "tn_data (synthetic_gradient unit (K (step_pre prev epoch stp shard)) 0) =
      v prev epoch stp shard # tl (tn_data (synthetic_gradient unit (K (step_pre prev epoch stp shard)) 0))"
    by (simp add: synthetic_gradient_def v_def upt_rec)
  define t where "t = synthetic_gradient unit (K (step_pre prev epoch stp shard)) 0"
  obtain vs where t: "tn_data t = v prev epoch stp shard # vs" using first unfolding t_def by blast
  have "t\<lparr>tn_data := x # vs\<rparr> = t \<longleftrightarrow> x = v prev epoch stp shard" for x
    using t by (cases t) auto
  then show "malicious_forward_backward K unit flip T prev epoch stp shard \<noteq> tiny_forward_backward K unit prev epoch stp shard \<longleftrightarrow>
      epoch = tt_epoch T \<and> stp = tt_step T \<and> flip (v prev epoch stp shard) \<noteq> v prev epoch stp shard"
    by (auto simp: malicious_forward_backward_def tiny_forward_backward_def Let_def tamper_first_def t_def [symmetric] t)
  show "snd (malicious_forward_backward K unit flip T prev epoch stp shard) = snd (tiny_forward_backward K unit prev epoch stp shard)"
    by (simp add: malicious_forward_backward_def case_prod_unfold Let_def)
qed

end
