(* ===== verification/Spec2Isabelle.thy ===== *)
theory Spec2Isabelle
  imports Api_Theorems Fl_Round_Theorems Training_Worker_Theorems Pipeline_Theorems Mesh_Theorems
    Pool_Theorems Pipeline_Http Tee_Theorems
    Fl_Upload_Theorems Fl_Runner_Theorems Coordinator_Client_Theorems
    Job_Runner_Theorems Fl_Dataset_Theorems Federated_Signer
    Coop_Worker_Theorems Coordinator_Boot_Theorems Dataset_Tool Round_Tool_Theorems Tiny_Model
begin

text \<open>
  A verification library for citrate-compute-pool, three crates that share work among machines that do not trust one
  another and settle it on a chain.

  \<^bold>\<open>The program and its parts.\<close>
  \<^item> \<^verbatim>\<open>training-coordinator\<close> is an HTTP service.  Workers register, ask for a lease on a job, renew it by heartbeats and
    submit a signed result; the operator adds jobs.  Its state machine (\<^verbatim>\<open>state.rs\<close>) sits behind an admission window
    (\<^verbatim>\<open>admission.rs\<close>), an attestation of the worker's speed (\<^verbatim>\<open>attestation.rs\<close>), the recovery of the signer
    (\<^verbatim>\<open>submission.rs\<close>) and a crash-atomic file (\<^verbatim>\<open>store.rs\<close>), all put together in \<^verbatim>\<open>api.rs\<close>.  \<^verbatim>\<open>fl_round.rs\<close> collects the
    finished jobs of a federated round and has a node aggregate them chunk by chunk.
  \<^item> \<^verbatim>\<open>training-worker\<close> holds the formats both sides use (\<^verbatim>\<open>fl/\<close>: configuration, positional tree, wire format of the
    aggregation precompile, GGUF adapters, deltas and artifacts), the training protocol on the chain (\<^verbatim>\<open>chain.rs\<close>,
    \<^verbatim>\<open>merkle.rs\<close>, \<^verbatim>\<open>worker.rs\<close>, two transports), pipeline inference (\<^verbatim>\<open>pipeline.rs\<close>), the clients of the live contracts
    (\<^verbatim>\<open>http_chain_*.rs\<close>, \<^verbatim>\<open>events.rs\<close>, \<^verbatim>\<open>wallet.rs\<close>), the attestation client and a daemon.  The member's daemon
    (\<^verbatim>\<open>bin/coop_worker.rs\<close>) polls the coordinator for jobs and gives them to one of two runners: training jobs go to
    \<^verbatim>\<open>job_runner.rs\<close>, which stages what a job names from an untrusted mirror (\<^verbatim>\<open>artifact_fetch.rs\<close>, \<^verbatim>\<open>job_artifacts.rs\<close>)
    and drives a back end (\<^verbatim>\<open>nat_backend.rs\<close>) step by step, and federated jobs to \<^verbatim>\<open>fl/runner.rs\<close>, which starts the
    operator's own trainer (\<^verbatim>\<open>fl/trainer.rs\<close>).  \<^verbatim>\<open>fl/dataset.rs\<close> makes a member's training set out of trajectories.
  \<^item> \<^verbatim>\<open>pool-coordinator\<close> is a daemon that reads \<^verbatim>\<open>ComputeRequested\<close> events, and where it is elected records a dispatch on
    chain, posts the prompt to a member and completes or fails the job.

  \<^bold>\<open>Theories and code.\<close>
  \<^item> \<open>Prelude\<close>, \<open>BTree\<close>, \<open>Text_Format\<close>, \<open>Fl_Hex\<close>, \<open>Recent_Window\<close>: widths, checked and saturating arithmetic, byte order,
    string methods, ordered maps (locales \<open>ordered_map\<close> and \<open>bounded_map\<close>), numbers and UTF-8 as text, hexadecimal
    (locale \<open>hex_codec\<close>), and bounded windows of recently seen keys (locale \<open>recent_window\<close>, interpreted for the
    replay guard of the mesh and the seen events of the pool daemon).
  \<^item> \<open>Protocol\<close>: \<^verbatim>\<open>coordinator_protocol.rs\<close>.  \<open>Coordinator_State\<close>, \<open>_Ops\<close>, \<open>_Expire\<close>, \<open>_Safety\<close>, \<open>_Lease\<close>, \<open>_Jobs\<close>, \<open>_Theorems\<close>:
    \<^verbatim>\<open>state.rs\<close>; every method of \<^verbatim>\<open>State\<close> is a function on a record, \<open>coord_step\<close> is one call and \<open>reachable\<close> the states
    any calls lead to.  \<open>Admission\<close>, \<open>Attestation\<close>, \<open>Net_Source\<close>, \<open>Store\<close>, \<open>Api\<close>, \<open>Api_Theorems\<close>: the service around it.
  \<^item> \<open>Fl_Tree\<close>, \<open>Fl_Belnap\<close>, \<open>Fl_Config\<close>, \<open>Fl_Gguf\<close>, \<open>Fl_Gguf_Roundtrip\<close>, \<open>Fl_Delta\<close>, \<open>Fl_Delta_Theorems\<close>: \<^verbatim>\<open>training-worker/src/fl\<close>.
    \<open>Fl_Node\<close>, \<open>Fl_Round\<close>, \<open>Fl_Round_Theorems\<close>: \<^verbatim>\<open>fl_round.rs\<close>.  \<open>Fl_Upload\<close>, \<open>Fl_Upload_Theorems\<close>: \<^verbatim>\<open>fl_upload.rs\<close>, with
    the interleaving of uploads in flight.  \<open>Fl_Runner\<close>, \<open>Fl_Runner_Theorems\<close>: \<^verbatim>\<open>fl/runner.rs\<close> on a device whose files
    are those of \<open>Local_Files\<close>; \<open>Lora_Trainer\<close>: \<^verbatim>\<open>fl/trainer.rs\<close>; \<open>Fl_Dataset\<close>, \<open>Fl_Dataset_Theorems\<close>: \<^verbatim>\<open>fl/dataset.rs\<close>, and
    \<open>Dataset_Tool\<close>: \<^verbatim>\<open>bin/fl_dataset.rs\<close>.  \<open>Round_Tool\<close>, \<open>Round_Tool_Theorems\<close>: \<^verbatim>\<open>bin/fl_round.rs\<close>.
  \<^item> \<open>Coordinator_Client\<close>, \<open>Coordinator_Client_Theorems\<close>: \<^verbatim>\<open>coordinator_client.rs\<close>, the worker's side of the service.
    \<open>Coop_Worker\<close>, \<open>Coop_Worker_Theorems\<close>: \<^verbatim>\<open>bin/coop_worker.rs\<close>.  \<open>Coordinator_Boot\<close>, \<open>Coordinator_Boot_Theorems\<close>:
    \<^verbatim>\<open>training-coordinator/src/main.rs\<close>.
  \<^item> \<open>Artifact_Store\<close>: \<^verbatim>\<open>artifact_fetch.rs\<close>, \<^verbatim>\<open>job_artifacts.rs\<close>.  \<open>Step_Gradients\<close>, \<open>Step_Gradients_Theorems\<close>: \<^verbatim>\<open>quantize.rs\<close>,
    \<^verbatim>\<open>q16_commitment.rs\<close>, \<^verbatim>\<open>zone_delta.rs\<close> and the default commitment of \<^verbatim>\<open>backend.rs\<close>, whose hash-driven models are \<open>Tiny_Model\<close>.  \<open>Nat_Backend\<close>: \<^verbatim>\<open>nat_backend.rs\<close>, with
    the models and readers of the library it calls as a record of functions.  \<open>Job_Runner\<close>, \<open>Job_Runner_Theorems\<close>:
    \<^verbatim>\<open>job_runner.rs\<close>.  \<open>Federated_Signer\<close>: \<^verbatim>\<open>federated_signer.rs\<close>.
  \<^item> \<open>Epoch_Merkle\<close>, \<open>Training_Chain\<close>, \<open>Training_Chain_Theorems\<close>: \<^verbatim>\<open>types.rs\<close>, \<^verbatim>\<open>merkle.rs\<close>, \<^verbatim>\<open>chain.rs\<close>.  \<open>Worker_Transport\<close>:
    \<^verbatim>\<open>transport.rs\<close>.  \<open>Mesh_Envelope\<close>, \<open>Mesh_Theorems\<close>: \<^verbatim>\<open>libp2p_transport.rs\<close>.  \<open>Training_Worker\<close>, \<open>Training_Worker_Theorems\<close>:
    \<^verbatim>\<open>worker.rs\<close>.  \<open>Pipeline\<close>, \<open>Pipeline_Theorems\<close>: \<^verbatim>\<open>pipeline.rs\<close>.
  \<^item> \<open>Outbound\<close>: both copies of \<^verbatim>\<open>outbound.rs\<close>.  \<open>Wallet\<close>, \<open>Wallet_Theorems\<close>: both copies of \<^verbatim>\<open>wallet.rs\<close>.  \<open>Evm_Abi\<close>,
    \<open>Evm_Abi_Theorems\<close>: the ABI helpers of the chain clients.  \<open>Json_Rpc\<close>: the client code the three chain clients
    repeat, with instances in \<open>Pool_Chain\<close>, \<open>Training_Http\<close> and \<open>Pipeline_Http\<close>; the last also has the worker's daemon.
    \<open>Chain_Events\<close>: \<^verbatim>\<open>events.rs\<close>.  \<open>Tee_Attestation\<close>, \<open>Tee_Theorems\<close>: \<^verbatim>\<open>training-worker/src/attestation.rs\<close>.
  \<^item> \<open>Pool_Chain\<close>, \<open>Pool_Logs\<close>, \<open>Pool_Dispatch\<close>, \<open>Pool_Theorems\<close>: \<^verbatim>\<open>pool-coordinator\<close>.

  \<^bold>\<open>What the theorems say.\<close>
  \<^item> The coordinator: an invariant of all reachable states; the exact effect of leases, renewals, submissions and
    expiry; the service refines the state machine under crashes and failing saves; an acknowledged request survives a
    power loss; a signed lease request is granted once.  A boot serves what was saved: the catalogue changes no recorded job.
  \<^item> Federated rounds: what a root, a configuration hash and a bundle bind; artifacts and adapters read back; every job
    of a round is either a verified contribution or a justified exclusion.  A device trains only with consent and on
    verified inputs, what it hands back passes the upload handler and counts in the round, and whatever the uploads
    do, a stored delta was let in under a signature of its worker, who then had a live lease on the job.  A device
    hands back at most one result a round, after its upload, and its trainer sees none of the worker's variables.
    Converting trajectories makes a row of every example or counts it under the first reason to leave it out, and what
    it writes passes the check of a training set; the tool that does it overwrites nothing.  The jobs the operator's
    tool makes are valid rounds to a device, and the bundle it writes passes its own check.
  \<^item> The worker: when its loop logs a job as submitted the coordinator has it done, in memory and on disk; between
    two requests the loop sleeps exactly as its back-off says, and every message is signed over its own content.
  \<^item> Training jobs: staging writes only where a job's artifacts are and leaves the right bytes of what the worker trains
    on there, whatever the mirror answers; a result is bound to the artifacts, the grid, the start weights and the
    manifest its job names; no result hides a zone that stayed at the floor; a step's commitment binds its gradients,
    and zone deltas lose no parameter.
  \<^item> Training and pipeline: invariants of the chain, proofs that are accepted and what they prove, jobs that can be
    ended, the whole state after a vote and what it slashes, epoch roots over commits that are the coordinator's own
    or were delivered, a coordinator that finalises, messages that were sent by whom they name.
  \<^item> The pool: a job is completed only after the whole protocol, a recorded dispatch is settled, prompts leave only
    recorded and through the outbound gate, events are handled once and none is lost, and handling ends.
  \<^item> Keys and formats: what an unlocked keystore has passed, that bytes to sign determine a transaction, that no decoder
    of a node's answer panics, that the two event decoders agree.

  \<^bold>\<open>How effects are modelled.\<close>  State is passed explicitly; errors are values of sums and options, a panic included
  where the code can reach one.  Where code talks to the world the world is a type variable with the operations used
  (\<open>rpc_env\<close>, \<open>provider_env\<close>, the node of \<open>Fl_Node\<close>).  Loops that depend on it are \<open>partial_function (option)\<close>, \<open>None\<close> for
  never returning, or take fuel; that they return is a theorem: the retry loop of the node client after at most the
  configured tries, the wait for a receipt after at most 61 requests on a clock on which sleeping takes time.  Machine
  integers have their width; \<^verbatim>\<open>usize\<close> is 64 bits, or \<open>nat\<close> where only lengths of lists in memory meet.

  \<^bold>\<open>Parameters.\<close>  Keccak-256, signatures and recovery, PBKDF2 and AES, the RLP, bincode and JSON text of third-party
  crates, floating-point training and the clock.  Where a theorem needs a law of one of them it is a hypothesis with
  a witness: no collision among the preimages at hand, a codec that reads back what it wrote.

  \<^bold>\<open>Not modelled.\<close>  Logging, metrics and help texts; gossip, dialling and the swarm of libp2p; sockets and TLS; the tensor
  arithmetic of \<^verbatim>\<open>candle_backend.rs\<close> and of the library behind \<^verbatim>\<open>nat_backend.rs\<close>; what a trainer does between its start
  and its end; tests, deployment and packaging.
\<close>

end
